(* ===== verification/Tec_Prelude.thy ===== *)
theory Tec_Prelude
  imports Main "HOL-Library.Word"
begin

text \<open>
  Shared ground of the development: the names of the machine types, the rule
  collections that the component theories fill, and the generic lemmas on lists,
  maps and options that more than one component needs.
\<close>

unbundle bit_operations_syntax

subsection \<open>Machine types\<close>

type_synonym byte = "8 word"
type_synonym u32 = "32 word"
type_synonym u64 = "64 word"

text \<open>\<open>eid\<close>, \<open>state_id_t\<close> and \<open>uid\<close> of common/tec-types.hpp.\<close>

type_synonym eid = "64 word"
type_synonym state_id_t = "64 word"
type_synonym uid = string

subsection \<open>Rule collections\<close>

text \<open>
  \<open>wf_intros\<close> holds the preservation rules of the component invariants,
  \<open>frame_simps\<close> the equations saying which fields an operation leaves alone.
\<close>

named_theorems wf_intros
named_theorems frame_simps

subsection \<open>Lists\<close>

definition update_last :: "('a \<Rightarrow> 'a) \<Rightarrow> 'a list \<Rightarrow> 'a list" where
  "update_last f xs = (if xs = [] then [] else butlast xs @ [f (last xs)])"

lemma update_last_Nil [simp]: "update_last f [] = []"
  by (simp add: update_last_def)

lemma update_last_snoc [simp]: "update_last f (xs @ [x]) = xs @ [f x]"
  by (simp add: update_last_def)

lemma update_last_eq_Nil [simp]: "update_last f xs = [] \<longleftrightarrow> xs = []"
  by (simp add: update_last_def)

lemma length_update_last [simp]: "length (update_last f xs) = length xs"
  by (simp add: update_last_def)

lemma map_update_last:
  "(\<And>x. g (f x) = g x) \<Longrightarrow> map g (update_last f xs) = map g xs"
  by (cases xs rule: rev_cases) simp_all

lemma set_update_last: "x \<in> set (update_last f xs) \<Longrightarrow> x \<in> set xs \<or> (\<exists>y \<in> set xs. x = f y)"
  by (cases xs rule: rev_cases) auto

lemma concat_map_drop_Suc:
  "i < length xs \<Longrightarrow> concat (map f (drop i xs)) = f (xs ! i) @ concat (map f (drop (Suc i) xs))"
  by (simp add: Cons_nth_drop_Suc [symmetric])

lemma fold_snoc_eq_append: "fold (\<lambda>x acc. acc @ [f x]) xs acc = acc @ map f xs"
  by (induction xs arbitrary: acc) simp_all

subsection \<open>Errors as values\<close>

text \<open>Sequencing of computations that may throw: \<open>Inl\<close> is the exception.\<close>

definition try_bind :: "'e + 'a \<Rightarrow> ('a \<Rightarrow> 'e + 'b) \<Rightarrow> 'e + 'b" where
  "try_bind r f = (case r of Inl e \<Rightarrow> Inl e | Inr x \<Rightarrow> f x)"

lemma try_bind_simps [simp]:
  "try_bind (Inl e) f = Inl e"
  "try_bind (Inr x) f = f x"
  by (simp_all add: try_bind_def)

lemma try_bind_eq_Inr: "try_bind r f = Inr y \<longleftrightarrow> (\<exists>x. r = Inr x \<and> f x = Inr y)"
  by (cases r) simp_all

subsection \<open>Words as counters\<close>

text \<open>
  A counter of width \<open>w\<close> that starts at 0 and is incremented for each list element
  numbers the elements modulo \<open>2 ^ w\<close>.
\<close>

lemma word_of_nat_Suc_add: "(of_nat (Suc n) :: 'a::len word) = of_nat n + 1"
  by simp

lemma unat_le_iff_of_nat: "(x :: 'a::len word) \<le> y \<longleftrightarrow> unat x \<le> unat y"
  by (simp add: word_le_nat_alt)

end
