(* ===== verification/Safe_Run.thy ===== *)
theory Safe_Run
  imports Tec_Prelude
begin

text \<open>
  Runs of operations that may fail: a loop whose body may access something that is not there
  (\<open>None\<close>), the rules to reason about it, and the interface of a component that can be used
  forever: from a sound state every allowed call is defined and leaves a sound state.
\<close>

subsection \<open>Loops over indices\<close>

text \<open>A loop whose body may fail.\<close>

fun each :: "('i \<Rightarrow> 's \<Rightarrow> 's option) \<Rightarrow> 'i list \<Rightarrow> 's \<Rightarrow> 's option" where
  "each f [] s = Some s"
| "each f (i # is) s = (case f i s of None \<Rightarrow> None | Some s1 \<Rightarrow> each f is s1)"

lemma each_append: "each f (xs @ ys) s = (case each f xs s of None \<Rightarrow> None | Some s1 \<Rightarrow> each f ys s1)"
  by (induction xs arbitrary: s) (simp_all split: option.split)

lemma each_snoc: "each f (xs @ [x]) s = (case each f xs s of None \<Rightarrow> None | Some s1 \<Rightarrow> f x s1)"
  by (simp add: each_append split: option.split)

text \<open>Such a loop ends if every round can be made, and keeps what the rounds keep.\<close>

lemma each_keeps:
  assumes "each f xs s = Some s1" and "I s" and "\<And>x s s1. x \<in> set xs \<Longrightarrow> I s \<Longrightarrow> f x s = Some s1 \<Longrightarrow> I s1"
  shows "I s1"
  using assms
proof (induction xs arbitrary: s)
  case (Cons x xs)
  then obtain s2 where s2: "f x s = Some s2" "each f xs s2 = Some s1"
    by (auto split: option.splits)
  have "I s2"
    by (rule Cons.prems(3) [OF _ Cons.prems(2) s2(1)]) simp
  show ?case
    by (rule Cons.IH [OF s2(2) \<open>I s2\<close>]) (rule Cons.prems(3) [OF list.set_intros(2)])
qed simp

lemma each_inside:
  assumes "I s" and "\<And>x s. x \<in> set xs \<Longrightarrow> I s \<Longrightarrow> \<exists>s1. f x s = Some s1 \<and> I s1"
  shows "\<exists>s1. each f xs s = Some s1 \<and> I s1"
  using assms
proof (induction xs arbitrary: s)
  case (Cons x xs)
  then obtain s1 where s1: "f x s = Some s1" "I s1"
    by (meson list.set_intros(1))
  show ?case
    using Cons.IH [OF s1(2)] Cons.prems(2) s1(1) by simp
qed simp

lemma each_defined_iff:
  assumes "I s" and "\<And>x s s1. x \<in> set xs \<Longrightarrow> I s \<Longrightarrow> f x s = Some s1 \<Longrightarrow> I s1"
    and "\<And>x s. x \<in> set xs \<Longrightarrow> I s \<Longrightarrow> f x s \<noteq> None \<longleftrightarrow> Q x"
  shows "each f xs s \<noteq> None \<longleftrightarrow> (\<forall>x \<in> set xs. Q x)"
  using assms
proof (induction xs arbitrary: s)
  case (Cons x xs)
  show ?case
  proof (cases "f x s")
    case None
    then show ?thesis using Cons.prems(1) Cons.prems(3) [of x s] by simp
  next
    case (Some s1)
    have "Q x" using Cons.prems(1) Cons.prems(3) [of x s] Some by simp
    have "I s1"
      by (rule Cons.prems(2) [OF _ Cons.prems(1) Some]) simp
    then have "each f xs s1 \<noteq> None \<longleftrightarrow> (\<forall>x \<in> set xs. Q x)"
      by (rule Cons.IH) (rule Cons.prems(2) [OF list.set_intros(2)] Cons.prems(3) [OF list.set_intros(2)]; assumption)+
    then show ?thesis
      using Some \<open>Q x\<close> by simp
  qed
qed simp

lemma each_upt:
  assumes "P 0 s" and "\<And>k s. k < n \<Longrightarrow> P k s \<Longrightarrow> \<exists>s1. f k s = Some s1 \<and> P (Suc k) s1"
  shows "\<exists>s1. each f [0..<n] s = Some s1 \<and> P n s1"
  using assms(2)
proof (induction n)
  case (Suc n)
  then obtain s1 where "each f [0..<n] s = Some s1" "P n s1" by force
  then show ?case
    using Suc.prems [of n s1] by (simp add: each_snoc)
qed (simp add: assms(1))

lemma each_upt_keeps:
  assumes "each f [0..<n] s = Some s1" and "P 0 s" and "\<And>k s s1. k < n \<Longrightarrow> P k s \<Longrightarrow> f k s = Some s1 \<Longrightarrow> P (Suc k) s1"
  shows "P n s1"
  using assms
proof (induction n arbitrary: s1)
  case (Suc n)
  then obtain s2 where "each f [0..<n] s = Some s2" "f n s2 = Some s1"
    by (auto simp: each_snoc split: option.splits)
  then show ?case
    using Suc.IH [of s2] Suc.prems by auto
qed simp

lemma each_upt_defined_iff:
  assumes "P 0 s" and "\<And>k s. k < n \<Longrightarrow> P k s \<Longrightarrow> f k s \<noteq> None \<longleftrightarrow> Q k"
    and "\<And>k s s1. k < n \<Longrightarrow> P k s \<Longrightarrow> f k s = Some s1 \<Longrightarrow> P (Suc k) s1"
  shows "each f [0..<n] s \<noteq> None \<longleftrightarrow> (\<forall>k < n. Q k)"
  using assms
proof (induction n)
  case (Suc n)
  have ih: "each f [0..<n] s \<noteq> None \<longleftrightarrow> (\<forall>k < n. Q k)"
    using Suc by simp
  show ?case
  proof (cases "each f [0..<n] s")
    case (Some s1)
    have "P n s1"
      by (rule each_upt_keeps [OF Some]) (use Suc.prems in auto)
    then have "f n s1 \<noteq> None \<longleftrightarrow> Q n"
      using Suc.prems(2) [of n s1] by simp
    then show ?thesis
      using ih Some by (auto simp: each_snoc less_Suc_eq)
  qed (use ih in \<open>auto simp: each_snoc less_Suc_eq\<close>)
qed simp

subsection \<open>Components that can be used forever\<close>

locale safe_system =
  fixes step :: "'c \<Rightarrow> 's \<Rightarrow> 's option"
    and sound :: "'s \<Rightarrow> bool"
    and allowed :: "'c \<Rightarrow> bool"
  assumes step_safe: "allowed c \<Longrightarrow> sound s \<Longrightarrow> \<exists>s1. step c s = Some s1 \<and> sound s1"
begin

lemma run_safe:
  assumes "sound s" and "\<And>c. c \<in> set cs \<Longrightarrow> allowed c"
  shows "\<exists>s1. each step cs s = Some s1 \<and> sound s1"
  using assms(1) by (rule each_inside) (use assms(2) step_safe in blast)

end

end
