(* ===== verification/Ordered_Map.thy ===== *)
theory Ordered_Map
  imports Tec_Prelude "HOL-Library.List_Lexorder" "HOL-Library.Char_ord"
begin

text \<open>
  \<open>std::map\<close> as the program uses it: a finite map that is iterated in the order of its keys.
  It is an association list sorted by key, with the operations \<open>insert_or_assign\<close>
  (\<open>m[k] = v\<close>), \<open>erase\<close> and \<open>find\<close>; the lookup is the library's \<open>map_of\<close>. The lemmas give
  the map each operation denotes, so that clients reason with \<open>map_of\<close> and only iteration
  looks at the list. Strings are ordered by their character codes, as \<open>std::string\<close> is.
\<close>

type_synonym ('k, 'v) omap = "('k \<times> 'v) list"

fun om_put :: "'k::linorder \<Rightarrow> 'v \<Rightarrow> ('k, 'v) omap \<Rightarrow> ('k, 'v) omap" where
  "om_put k v [] = [(k, v)]"
| "om_put k v ((k', v') # m) =
     (if k < k' then (k, v) # (k', v') # m
      else if k = k' then (k, v) # m
      else (k', v') # om_put k v m)"

definition om_erase :: "'k \<Rightarrow> ('k, 'v) omap \<Rightarrow> ('k, 'v) omap" where
  "om_erase k m = filter (\<lambda>p. fst p \<noteq> k) m"

definition om_has :: "'k \<Rightarrow> ('k, 'v) omap \<Rightarrow> bool" where
  "om_has k m \<longleftrightarrow> map_of m k \<noteq> None"

definition om_keys :: "('k, 'v) omap \<Rightarrow> 'k list" where
  "om_keys m = map fst m"

text \<open>\<open>m[k]\<close> on a reference: the value, default-constructed when the key is new.\<close>

definition om_get :: "'v \<Rightarrow> 'k \<Rightarrow> ('k, 'v) omap \<Rightarrow> 'v" where
  "om_get d k m = (case map_of m k of None \<Rightarrow> d | Some v \<Rightarrow> v)"

definition wf_omap :: "('k::linorder, 'v) omap \<Rightarrow> bool" where
  "wf_omap m \<longleftrightarrow> sorted_wrt (<) (om_keys m)"

lemma wf_omap_Nil [wf_intros, simp]: "wf_omap []"
  by (simp add: wf_omap_def om_keys_def)

lemma wf_omap_Cons:
  "wf_omap (p # m) \<longleftrightarrow> (\<forall>k \<in> set (om_keys m). fst p < k) \<and> wf_omap m"
  by (simp add: wf_omap_def om_keys_def)

lemma set_om_keys: "set (om_keys m) = dom (map_of m)"
  by (simp add: om_keys_def dom_map_of_conv_image_fst)

lemma set_om_keys_put [simp]: "set (om_keys (om_put k v m)) = insert k (set (om_keys m))"
  by (induction k v m rule: om_put.induct) (auto simp: om_keys_def)

lemma wf_om_put [wf_intros]: "wf_omap m \<Longrightarrow> wf_omap (om_put k v m)"
proof (induction k v m rule: om_put.induct)
  case (2 k v k' v' m)
  consider "k < k'" | "k = k'" | "k' < k" by (rule linorder_cases)
  then show ?case
  proof cases
    case 1
    then show ?thesis
      using "2.prems" by (auto simp: wf_omap_Cons om_keys_def dest: order.strict_trans)
  next
    case 2
    then show ?thesis
      using "2.prems" by (simp add: wf_omap_Cons)
  next
    case 3
    then have "wf_omap (om_put k v m)"
      using "2.IH" "2.prems" by (simp add: wf_omap_Cons)
    with 3 show ?thesis
      using "2.prems" by (auto simp: wf_omap_Cons)
  qed
qed (simp add: wf_omap_Cons om_keys_def)

lemma wf_om_erase [wf_intros]: "wf_omap m \<Longrightarrow> wf_omap (om_erase k m)"
  by (induction m) (auto simp: om_erase_def wf_omap_Cons om_keys_def)

lemma map_of_om_put [simp]:
  "wf_omap m \<Longrightarrow> map_of (om_put k v m) = (map_of m)(k \<mapsto> v)"
proof (induction k v m rule: om_put.induct)
  case (2 k v k' v' m)
  then show ?case
    by (auto simp: wf_omap_Cons fun_upd_twist)
qed simp

lemma map_of_om_erase [simp]: "map_of (om_erase k m) = (map_of m)(k := None)"
  by (rule ext, induction m) (auto simp: om_erase_def)

lemma om_has_iff: "om_has k m \<longleftrightarrow> k \<in> set (om_keys m)"
  by (simp add: om_has_def set_om_keys dom_def)

lemma om_has_put [simp]: "wf_omap m \<Longrightarrow> om_has k (om_put j v m) \<longleftrightarrow> k = j \<or> om_has k m"
  by (simp add: om_has_def)

lemma om_has_erase [simp]: "om_has k (om_erase j m) \<longleftrightarrow> k \<noteq> j \<and> om_has k m"
  by (simp add: om_has_def)

lemma om_get_put [simp]:
  "wf_omap m \<Longrightarrow> om_get d k (om_put j v m) = (if k = j then v else om_get d k m)"
  by (simp add: om_get_def)

lemma distinct_om_keys: "wf_omap m \<Longrightarrow> distinct (om_keys m)"
  unfolding wf_omap_def by (rule strict_sorted_iff [THEN iffD1, THEN conjunct2])

text \<open>Two well-formed maps with the same lookup are the same list.\<close>

lemma wf_omap_eqI:
  assumes "wf_omap m" and "wf_omap n" and "map_of m = map_of n"
  shows "m = n"
proof -
  have "om_keys m = om_keys n"
    using assms by (intro strict_sorted_equal) (simp_all add: wf_omap_def set_om_keys)
  moreover have vals: "map snd m = map (the \<circ> map_of m) (om_keys m)" if "wf_omap m" for m :: "('a, 'b) omap"
    using distinct_om_keys [OF that] by (auto simp: om_keys_def)
  moreover have "map snd m = map snd n"
    using vals [OF assms(1)] vals [OF assms(2)] assms(3) calculation(1) by argo
  ultimately show ?thesis
    by (intro pair_list_eqI) (simp_all add: om_keys_def)
qed

lemma om_put_erase_same: "wf_omap m \<Longrightarrow> om_put k v (om_erase k m) = om_put k v m"
  by (rule wf_omap_eqI) (simp_all add: wf_om_put wf_om_erase)

end
