(* ===== verification/Entity_Store.thy ===== *)
theory Entity_Store
  imports Ordered_Map
begin

text \<open>
  \<open>Multiton<ID_T, T>\<close> (common/multiton.hpp), the static table every component and resource
  lives in, and \<open>Entity\<close> (common/entity.hpp), which owns one component of a type per entity
  through the table of pointers \<open>Multiton<eid, T*>\<close>. Components are heap objects: \<open>new\<close> and
  \<open>delete\<close> are explicit, and deleting a pointer that is not live is the value \<open>None\<close>. The
  lemmas show the table laws, when \<open>Keys\<close> is right, and that \<open>Add\<close> and \<open>Update\<close> keep every
  component live, owned once and never deleted twice.
\<close>

subsection \<open>Multiton\<close>

text \<open>\<open>keys_cache\<close> is the static vector inside \<open>Keys\<close>.\<close>

record ('k, 'v) multiton =
  instances :: "('k, 'v) omap"
  keys_cache :: "'k list"

definition mt_Size :: "('k, 'v) multiton \<Rightarrow> nat" where
  "mt_Size m = length (instances m)"

definition mt_Keys :: "('k, 'v) multiton \<Rightarrow> 'k list \<times> ('k, 'v) multiton" where
  "mt_Keys m = (let m' = (if length (keys_cache m) \<noteq> length (instances m)
                          then m\<lparr>keys_cache := om_keys (instances m)\<rparr> else m)
                in (keys_cache m', m'))"

definition mt_Get :: "'v \<Rightarrow> 'k \<Rightarrow> ('k, 'v) multiton \<Rightarrow> 'v" where
  "mt_Get dflt i m = (case map_of (instances m) i of Some v \<Rightarrow> v | None \<Rightarrow> dflt)"

definition mt_Has :: "'k \<Rightarrow> ('k, 'v) multiton \<Rightarrow> bool" where
  "mt_Has i m \<longleftrightarrow> om_has i (instances m)"

definition mt_Set :: "'k::linorder \<Rightarrow> 'v \<Rightarrow> ('k, 'v) multiton \<Rightarrow> ('k, 'v) multiton" where
  "mt_Set i v m = m\<lparr>instances := om_put i v (instances m)\<rparr>"

definition mt_Remove :: "'k \<Rightarrow> ('k, 'v) multiton \<Rightarrow> ('k, 'v) multiton" where
  "mt_Remove i m = m\<lparr>instances := om_erase i (instances m)\<rparr>"

lemma mt_Get_Set [simp]:
  "wf_omap (instances m) \<Longrightarrow> mt_Get d j (mt_Set i v m) = (if j = i then v else mt_Get d j m)"
  by (simp add: mt_Get_def mt_Set_def)

lemma mt_Get_Remove [simp]: "mt_Get d j (mt_Remove i m) = (if j = i then d else mt_Get d j m)"
  by (simp add: mt_Get_def mt_Remove_def)

lemma mt_Has_Set [simp]:
  "wf_omap (instances m) \<Longrightarrow> mt_Has j (mt_Set i v m) \<longleftrightarrow> j = i \<or> mt_Has j m"
  by (simp add: mt_Has_def mt_Set_def)

lemma wf_mt_Set [wf_intros]: "wf_omap (instances m) \<Longrightarrow> wf_omap (instances (mt_Set i v m))"
  by (simp add: mt_Set_def wf_om_put)

lemma wf_mt_Remove [wf_intros]: "wf_omap (instances m) \<Longrightarrow> wf_omap (instances (mt_Remove i m))"
  by (simp add: mt_Remove_def wf_om_erase)

text \<open>A component table as its clients see it, and the laws they use.\<close>

locale component_table =
  fixes look :: "'k \<Rightarrow> 't \<Rightarrow> 'v option" and put :: "'k \<Rightarrow> 'v \<Rightarrow> 't \<Rightarrow> 't" and del :: "'k \<Rightarrow> 't \<Rightarrow> 't"
    and ok :: "'t \<Rightarrow> bool"
  assumes look_put: "ok t \<Longrightarrow> look j (put i v t) = (if j = i then Some v else look j t)"
    and look_del: "ok t \<Longrightarrow> look j (del i t) = (if j = i then None else look j t)"
    and ok_put: "ok t \<Longrightarrow> ok (put i v t)"
    and ok_del: "ok t \<Longrightarrow> ok (del i t)"
begin

text \<open>What each entry holds, and that no two entries hold the same.\<close>

definition holds :: "'t \<Rightarrow> 'v \<Rightarrow> bool" where
  "holds t v \<longleftrightarrow> (\<exists>i. look i t = Some v)"

definition injective :: "'t \<Rightarrow> bool" where
  "injective t \<longleftrightarrow> (\<forall>i j v. look i t = Some v \<and> look j t = Some v \<longrightarrow> i = j)"

lemma injective_put:
  assumes "ok t" and "injective t" and "\<not> holds t v"
  shows "injective (put i v t)"
  using assms by (auto simp: injective_def holds_def look_put)

lemma holds_put:
  assumes "ok t" and "injective t" and "\<not> holds t v"
  shows "holds (put i v t) w \<longleftrightarrow> w = v \<or> holds t w \<and> look i t \<noteq> Some w"
proof
  assume "w = v \<or> holds t w \<and> look i t \<noteq> Some w"
  then show "holds (put i v t) w"
    using assms(1) by (auto simp: holds_def look_put)
qed (use assms in \<open>auto simp: holds_def look_put injective_def split: if_splits\<close>)

end

interpretation mt: component_table "\<lambda>i m. map_of (instances m) i" mt_Set mt_Remove
    "\<lambda>m. wf_omap (instances m)"
  by unfold_locales (simp_all add: mt_Set_def mt_Remove_def wf_om_put wf_om_erase)

subsection \<open>Entities and their components\<close>

text \<open>
  The world of one component type: the heap and the table of pointers. A pointer in the
  table may be null (\<open>Add\<close> and \<open>Update\<close> take any pointer), hence \<open>nat option\<close>.
\<close>

type_synonym ptr = "nat option"

record 'c comp_world =
  heap :: "nat \<Rightarrow> 'c option"
  table :: "(eid, ptr) multiton"

definition delete_ptr :: "ptr \<Rightarrow> (nat \<Rightarrow> 'c option) \<Rightarrow> (nat \<Rightarrow> 'c option) option" where
  "delete_ptr p h = (case p of
      None \<Rightarrow> Some h
    | Some a \<Rightarrow> if h a = None then None else Some (h(a := None)))"

definition Entity_Update :: "eid \<Rightarrow> ptr \<Rightarrow> 'c comp_world \<Rightarrow> 'c comp_world option" where
  "Entity_Update i val w = (case delete_ptr (mt_Get None i (table w)) (heap w) of
      None \<Rightarrow> None
    | Some h \<Rightarrow> Some (w\<lparr>heap := h, table := mt_Set i val (table w)\<rparr>))"

text \<open>\<open>Add<T>(args...)\<close>; \<open>a\<close> is the address \<open>new\<close> returns for the component \<open>c\<close>.\<close>

definition Entity_Add :: "eid \<Rightarrow> nat \<Rightarrow> 'c \<Rightarrow> 'c comp_world \<Rightarrow> (ptr \<times> 'c comp_world) option" where
  "Entity_Add i a c w =
     (if \<not> mt_Has i (table w)
      then (case Entity_Update i (Some a) (w\<lparr>heap := (heap w)(a \<mapsto> c)\<rparr>) of
              None \<Rightarrow> None | Some w' \<Rightarrow> Some (Some a, w'))
      else Some (mt_Get None i (table w), w))"

text \<open>The multiple \<open>Add<T...>()\<close>, per component type: \<open>Update(new T())\<close>, then \<open>Get\<close>.\<close>

definition Entity_AddNew :: "eid \<Rightarrow> nat \<Rightarrow> 'c \<Rightarrow> 'c comp_world \<Rightarrow> (ptr \<times> 'c comp_world) option" where
  "Entity_AddNew i a c w =
     (case Entity_Update i (Some a) (w\<lparr>heap := (heap w)(a \<mapsto> c)\<rparr>) of
        None \<Rightarrow> None | Some w' \<Rightarrow> Some (mt_Get None i (table w'), w'))"

definition Entity_AddPtr :: "eid \<Rightarrow> ptr \<Rightarrow> 'c comp_world \<Rightarrow> 'c comp_world option" where
  "Entity_AddPtr i p w = Entity_Update i p w"

definition Entity_Remove :: "eid \<Rightarrow> 'c comp_world \<Rightarrow> 'c comp_world" where
  "Entity_Remove i w = w\<lparr>table := mt_Remove i (table w)\<rparr>"

definition Entity_Has :: "eid \<Rightarrow> 'c comp_world \<Rightarrow> bool" where
  "Entity_Has i w \<longleftrightarrow> mt_Has i (table w)"

definition Entity_Get :: "eid \<Rightarrow> 'c comp_world \<Rightarrow> ptr" where
  "Entity_Get i w = mt_Get None i (table w)"

subsection \<open>Ownership\<close>

text \<open>
  The pointers of the table are live objects, each owned by one entity; with \<open>no_leak\<close> every
  live object is owned.
\<close>

definition owned :: "'c comp_world \<Rightarrow> bool" where
  "owned w \<longleftrightarrow> wf_omap (instances (table w)) \<and> mt.injective (table w)
     \<and> (\<forall>p. mt.holds (table w) p \<longrightarrow> p \<noteq> None \<and> heap w (the p) \<noteq> None)"

definition no_leak :: "'c comp_world \<Rightarrow> bool" where
  "no_leak w \<longleftrightarrow> (\<forall>a. heap w a \<noteq> None \<longrightarrow> mt.holds (table w) (Some a))"

lemma owned_Get:
  assumes "owned w"
  shows "mt_Get None i (table w) = None \<and> map_of (instances (table w)) i = None
    \<or> (\<exists>a. mt_Get None i (table w) = Some a \<and> map_of (instances (table w)) i = Some (Some a)
         \<and> heap w a \<noteq> None)"
proof (cases "map_of (instances (table w)) i")
  case (Some p)
  then have "mt.holds (table w) p"
    by (auto simp: mt.holds_def)
  with assms obtain a where "p = Some a" "heap w a \<noteq> None"
    by (auto simp: owned_def)
  with Some show ?thesis by (auto simp: mt_Get_def)
qed (simp add: mt_Get_def)

lemma Entity_Update_new:
  assumes "owned w" and "heap w a = None"
  shows "\<exists>w'. Entity_Update i (Some a) (w\<lparr>heap := (heap w)(a \<mapsto> c)\<rparr>) = Some w' \<and> owned w'
    \<and> (no_leak w \<longrightarrow> no_leak w')
    \<and> (\<forall>j. Entity_Get j w' = (if j = i then Some a else Entity_Get j w)) \<and> heap w' a = Some c"
proof -
  let ?t = "table w"
  have wf: "wf_omap (instances ?t)" and inj: "mt.injective ?t" and fresh: "\<not> mt.holds ?t (Some a)"
    using assms by (auto simp: owned_def)
  note hp = mt.holds_put [OF wf inj fresh, of i] and ip = mt.injective_put [OF wf inj fresh, of i]
  have old: "\<forall>p. mt.holds ?t p \<longrightarrow> p \<noteq> None \<and> heap w (the p) \<noteq> None"
    using assms(1) by (simp add: owned_def)
  from owned_Get [OF assms(1), of i] show ?thesis
  proof (elim disjE conjE exE)
    assume n: "mt_Get None i ?t = None" "map_of (instances ?t) i = None"
    let ?w' = "w\<lparr>heap := (heap w)(a \<mapsto> c), table := mt_Set i (Some a) ?t\<rparr>"
    have "Entity_Update i (Some a) (w\<lparr>heap := (heap w)(a \<mapsto> c)\<rparr>) = Some ?w'"
      using n by (simp add: Entity_Update_def delete_ptr_def)
    moreover have "owned ?w'"
      using wf ip hp old by (auto simp: owned_def wf_mt_Set)
    moreover have "no_leak w \<longrightarrow> no_leak ?w'"
      using hp n by (auto simp: no_leak_def)
    ultimately show ?thesis
      using wf by (auto simp: Entity_Get_def)
  next
    fix b
    assume s: "mt_Get None i ?t = Some b" "map_of (instances ?t) i = Some (Some b)" "heap w b \<noteq> None"
    let ?w' = "w\<lparr>heap := ((heap w)(a \<mapsto> c))(b := None), table := mt_Set i (Some a) ?t\<rparr>"
    have "a \<noteq> b" using s assms(2) by auto
    have "Entity_Update i (Some a) (w\<lparr>heap := (heap w)(a \<mapsto> c)\<rparr>) = Some ?w'"
      using s \<open>a \<noteq> b\<close> by (auto simp: Entity_Update_def delete_ptr_def)
    moreover have "owned ?w'"
      using wf ip hp old s \<open>a \<noteq> b\<close> by (fastforce simp: owned_def wf_mt_Set)
    moreover have "no_leak w \<longrightarrow> no_leak ?w'"
      using hp s by (auto simp: no_leak_def)
    ultimately show ?thesis
      using wf \<open>a \<noteq> b\<close> by (auto simp: Entity_Get_def)
  qed
qed

subsection \<open>Properties\<close>

text \<open>Ownership of components. Adding a component with constructor arguments never deletes
  a dead pointer; it creates the component only when the entity has none, leaves the other
  entities' components alone, and keeps every component live, owned by exactly one entity and
  unleaked. Replacing it through the multiple \<open>Add\<close> has the same guarantees and always
  installs the new component.\<close>

theorem Entity_Add_owns:
  assumes "owned w" and "heap w a = None"
  shows "(\<exists>w'. Entity_Add i a c w = Some (Entity_Get i w', w') \<and> owned w' \<and> (no_leak w \<longrightarrow> no_leak w')
      \<and> Entity_Get i w' = (if Entity_Has i w then Entity_Get i w else Some a)
      \<and> (\<forall>j. j \<noteq> i \<longrightarrow> Entity_Get j w' = Entity_Get j w))
    \<and> (\<exists>w'. Entity_AddNew i a c w = Some (Some a, w') \<and> owned w' \<and> (no_leak w \<longrightarrow> no_leak w')
      \<and> heap w' a = Some c \<and> (\<forall>j. j \<noteq> i \<longrightarrow> Entity_Get j w' = Entity_Get j w))"
proof -
  from Entity_Update_new [OF assms, of i c] obtain w' where
    w: "Entity_Update i (Some a) (w\<lparr>heap := (heap w)(a \<mapsto> c)\<rparr>) = Some w'" "owned w'"
      "no_leak w \<longrightarrow> no_leak w'" "\<forall>j. Entity_Get j w' = (if j = i then Some a else Entity_Get j w)"
      "heap w' a = Some c" by blast
  have "mt_Get None i (table w') = Some a"
    using w(4) by (simp add: Entity_Get_def)
  then show ?thesis
    using w assms by (simp add: Entity_Add_def Entity_AddNew_def Entity_Has_def) (simp add: Entity_Get_def)
qed

theorem Entity_Add_owns_witness:
  "\<exists>w'. Entity_Add 5 1 CHR ''b'' \<lparr>heap = [0 \<mapsto> CHR ''a''],
       table = \<lparr>instances = [(3, Some 0)], keys_cache = []\<rparr>\<rparr> = Some (Some 1, w') \<and> owned w' \<and> no_leak w'"
proof -
  let ?w = "\<lparr>heap = [0 \<mapsto> CHR ''a''], table = \<lparr>instances = [(3::eid, Some (0::nat))], keys_cache = []\<rparr>\<rparr>"
  have o: "owned ?w"
    by (auto simp: owned_def mt.injective_def mt.holds_def wf_omap_Cons om_keys_def split: if_splits)
  have "no_leak ?w"
    by (auto simp: no_leak_def mt.holds_def split: if_splits)
  with Entity_Add_owns [OF o, of 1 5 "CHR ''b''"] show ?thesis
    by (simp add: Entity_Has_def mt_Has_def om_has_def) metis
qed

text \<open>When \<open>Keys\<close> is right. \<open>Keys\<close> returns the identifiers of the table, in order, if its
  cached vector has another length than the table or already was right; otherwise it returns
  a stale vector, as after a \<open>Keys\<close>, removing one identifier and setting another.\<close>

theorem Keys_right_iff:
  "(fst (mt_Keys m) = om_keys (instances m) \<longleftrightarrow>
      (if length (keys_cache m) = length (instances m) then keys_cache m = om_keys (instances m) else True))
   \<and> (\<exists>m' :: (eid, string) multiton. wf_omap (instances m')
        \<and> fst (mt_Keys (mt_Set 2 v (mt_Remove 1 (snd (mt_Keys m'))))) = [1]
        \<and> om_keys (instances (mt_Set 2 v (mt_Remove 1 (snd (mt_Keys m'))))) = [2])"
proof
  let ?m = "\<lparr>instances = [(1, [])], keys_cache = []\<rparr> :: (eid, string) multiton"
  have "wf_omap (instances ?m)" by (simp add: wf_omap_Cons om_keys_def)
  then show "\<exists>m' :: (eid, string) multiton. wf_omap (instances m')
        \<and> fst (mt_Keys (mt_Set 2 v (mt_Remove 1 (snd (mt_Keys m'))))) = [1]
        \<and> om_keys (instances (mt_Set 2 v (mt_Remove 1 (snd (mt_Keys m'))))) = [2]"
    by (intro exI [of _ ?m])
      (simp add: mt_Keys_def mt_Set_def mt_Remove_def om_erase_def om_keys_def)
qed (auto simp: mt_Keys_def Let_def)

end
