(* ===== verification/Game_State.thy ===== *)
theory Game_State
  imports Ordered_Map
begin

text \<open>
  The replicated state: the components of common/components, the protobuf messages of
  common/proto/components.proto and game_state.proto that carry them, \<open>GameState\<close> with its
  serialisation (common/game-state.hpp), and \<open>ServerGameStateQueue\<close>
  (server/server-game-state-queue.cpp). Floats are only moved here, so they are a type with
  the two constants the code writes. The order of an \<open>unordered_map\<close> is fixed to key order;
  the lemmas are about lookups and hold for every order of the entities of an update.
\<close>

subsection \<open>Protobuf messages\<close>

text \<open>An optional field is its \<open>has_\<close> flag with the value; reading an unset one gives its default.\<close>

definition field :: "'f \<Rightarrow> 'f option \<Rightarrow> 'f" where
  "field d x = (case x of None \<Rightarrow> d | Some v \<Rightarrow> v)"

record 'f p_position =
  pp_x :: "'f option"
  pp_y :: "'f option"
  pp_z :: "'f option"

record 'f p_quaternion =
  pq_i :: "'f option"
  pq_j :: "'f option"
  pq_k :: "'f option"
  pq_r :: "'f option"

record 'f p_velocity =
  pv_linear_x :: "'f option"
  pv_linear_y :: "'f option"
  pv_linear_z :: "'f option"
  pv_angular_x :: "'f option"
  pv_angular_y :: "'f option"
  pv_angular_z :: "'f option"

datatype 'f p_shape =
    P_no_shape
  | P_box "'f option" "'f option" "'f option"
  | P_sphere 'f
  | P_capsule 'f 'f

record 'f p_collision_body =
  pc_disable_deactivation :: "bool option"
  pc_disable_rotation :: "bool option"
  pc_shape :: "'f p_shape"
  pc_mass :: "'f option"

text \<open>The \<open>oneof\<close> of \<open>Component\<close>; the cases no code modelled here reads are \<open>P_other\<close>.\<close>

datatype 'f p_component =
    P_position "'f p_position"
  | P_orientation "'f p_quaternion"
  | P_velocity "'f p_velocity"
  | P_collision_body "'f p_collision_body"
  | P_other nat

record 'f p_entity =
  pe_id :: u64
  pe_components :: "'f p_component list"

record 'f p_update =
  pu_state_id :: "u64 option"
  pu_command_id :: "u64 option"
  pu_timestamp :: "u64 option"
  pu_entity :: "'f p_entity list"

subsection \<open>Components\<close>

record 'f vec3 =
  vx :: 'f
  vy :: 'f
  vz :: 'f

record 'f quat =
  qw :: 'f
  qx :: 'f
  qy :: 'f
  qz :: 'f

record 'f orientation =
  o_value :: "'f quat"
  o_rotation :: "'f vec3"

record 'f velocity =
  v_linear :: "'f vec3"
  v_angular :: "'f vec3"

definition zero_vec :: "'f::zero vec3" where
  "zero_vec = \<lparr>vx = 0, vy = 0, vz = 0\<rparr>"

definition new_orientation :: "'f::{zero,one} orientation" where
  "new_orientation = \<lparr>o_value = \<lparr>qw = 1, qx = 0, qy = 0, qz = 0\<rparr>, o_rotation = zero_vec\<rparr>"

definition new_velocity :: "'f::zero velocity" where
  "new_velocity = \<lparr>v_linear = zero_vec, v_angular = zero_vec\<rparr>"

definition Position_Out :: "'f vec3 \<Rightarrow> 'f p_position" where
  "Position_Out p = \<lparr>pp_x = Some (vx p), pp_y = Some (vy p), pp_z = Some (vz p)\<rparr>"

definition Position_In :: "'f p_position \<Rightarrow> 'f vec3 \<Rightarrow> 'f vec3" where
  "Position_In c p = \<lparr>vx = field (vx p) (pp_x c), vy = field (vy p) (pp_y c), vz = field (vz p) (pp_z c)\<rparr>"

definition Orientation_Out :: "'f orientation \<Rightarrow> 'f p_quaternion" where
  "Orientation_Out r = \<lparr>pq_i = Some (qx (o_value r)), pq_j = Some (qy (o_value r)),
     pq_k = Some (qz (o_value r)), pq_r = Some (qw (o_value r))\<rparr>"

text \<open>
  \<open>complete3\<close> is the quaternion the code computes with glm from three elements when the real
  part is not given. The Euler angles \<open>rotation\<close> are not touched.
\<close>

definition Orientation_In ::
    "('f \<Rightarrow> 'f \<Rightarrow> 'f \<Rightarrow> 'f quat) \<Rightarrow> 'f::zero p_quaternion \<Rightarrow> 'f orientation \<Rightarrow> 'f orientation" where
  "Orientation_In complete3 c r = (case pq_r c of
      Some w \<Rightarrow> r\<lparr>o_value := \<lparr>qw = w, qx = field 0 (pq_i c), qy = field 0 (pq_j c), qz = field 0 (pq_k c)\<rparr>\<rparr>
    | None \<Rightarrow> r\<lparr>o_value := complete3 (field 0 (pq_i c)) (field 0 (pq_j c)) (field 0 (pq_k c))\<rparr>)"

definition Velocity_Out :: "'f velocity \<Rightarrow> 'f p_velocity" where
  "Velocity_Out v = \<lparr>pv_linear_x = Some (vx (v_linear v)), pv_linear_y = Some (vy (v_linear v)),
     pv_linear_z = Some (vz (v_linear v)), pv_angular_x = Some (vx (v_angular v)),
     pv_angular_y = Some (vy (v_angular v)), pv_angular_z = Some (vz (v_angular v))\<rparr>"

definition Velocity_In :: "'f p_velocity \<Rightarrow> 'f velocity \<Rightarrow> 'f velocity" where
  "Velocity_In c v =
     \<lparr>v_linear = \<lparr>vx = field (vx (v_linear v)) (pv_linear_x c),
        vy = field (vy (v_linear v)) (pv_linear_y c), vz = field (vz (v_linear v)) (pv_linear_z c)\<rparr>,
      v_angular = \<lparr>vx = field (vx (v_angular v)) (pv_angular_x c),
        vy = field (vy (v_angular v)) (pv_angular_y c), vz = field (vz (v_angular v)) (pv_angular_z c)\<rparr>\<rparr>"

lemma field_Some [simp]: "field d (Some v) = v"
  by (simp add: field_def)

lemma component_roundtrips [simp]:
  "Position_In (Position_Out p) p' = p"
  "Orientation_In c3 (Orientation_Out r) r' = r'\<lparr>o_value := o_value r\<rparr>"
  "Velocity_In (Velocity_Out v) v' = v"
  by (simp_all add: Position_In_def Position_Out_def Orientation_In_def Orientation_Out_def
      Velocity_In_def Velocity_Out_def)

subsection \<open>Collision bodies\<close>

text \<open>
  The collision shapes are objects of the physics library: their constructors, their type
  and their accessors are parameters.
\<close>

datatype shape_type = Box_type | Sphere_type | Capsule_type | Other_type

record ('f, 's) shape_lib =
  make_box :: "'f \<Rightarrow> 'f \<Rightarrow> 'f \<Rightarrow> 's"
  make_sphere :: "'f \<Rightarrow> 's"
  make_capsule :: "'f \<Rightarrow> 'f \<Rightarrow> 's"
  shape_type_of :: "'s \<Rightarrow> shape_type"
  half_extents :: "'s \<Rightarrow> 'f vec3"
  sphere_radius :: "'s \<Rightarrow> 'f"
  capsule_radius :: "'s \<Rightarrow> 'f"
  capsule_height :: "'s \<Rightarrow> 'f"

record ('f, 's) collision_body =
  cb_mass :: 'f
  cb_disable_deactivation :: bool
  cb_disable_rotation :: bool
  cb_in_world :: bool
  cb_shape :: "'s option"
  cb_entity_id :: eid

definition new_collision_body :: "('f::zero, 's) collision_body" where
  "new_collision_body = \<lparr>cb_mass = 0, cb_disable_deactivation = False, cb_disable_rotation = False,
     cb_in_world = False, cb_shape = None, cb_entity_id = 0\<rparr>"

definition SetBoxShape ::
    "('f, 's) shape_lib \<Rightarrow> 'f \<Rightarrow> 'f \<Rightarrow> 'f \<Rightarrow> ('f, 's) collision_body \<Rightarrow> ('f, 's) collision_body" where
  "SetBoxShape L x y z b = b\<lparr>cb_shape := Some (make_box L x y z)\<rparr>"

definition SetSphereShape ::
    "('f, 's) shape_lib \<Rightarrow> 'f \<Rightarrow> ('f, 's) collision_body \<Rightarrow> ('f, 's) collision_body" where
  "SetSphereShape L r b = b\<lparr>cb_shape := Some (make_sphere L r)\<rparr>"

definition SetCapsuleShape ::
    "('f, 's) shape_lib \<Rightarrow> 'f \<Rightarrow> 'f \<Rightarrow> ('f, 's) collision_body \<Rightarrow> ('f, 's) collision_body" where
  "SetCapsuleShape L r h b = b\<lparr>cb_shape := Some (make_capsule L r h)\<rparr>"

definition CollisionBody_Out :: "('f, 's) shape_lib \<Rightarrow> ('f, 's) collision_body \<Rightarrow> 'f p_collision_body" where
  "CollisionBody_Out L b =
     \<lparr>pc_disable_deactivation = Some (cb_disable_deactivation b),
      pc_disable_rotation = Some (cb_disable_rotation b),
      pc_shape = (case cb_shape b of
          None \<Rightarrow> P_no_shape
        | Some s \<Rightarrow> (case shape_type_of L s of
              Box_type \<Rightarrow> P_box (Some (vx (half_extents L s))) (Some (vy (half_extents L s)))
                (Some (vz (half_extents L s)))
            | Sphere_type \<Rightarrow> P_sphere (sphere_radius L s)
            | Capsule_type \<Rightarrow> P_capsule (capsule_radius L s) (capsule_height L s)
            | Other_type \<Rightarrow> P_no_shape)),
      pc_mass = Some (cb_mass b)\<rparr>"

text \<open>An unset extent of a \<open>SizeVector\<close> reads as its default 1.\<close>

definition CollisionBody_In ::
    "('f, 's) shape_lib \<Rightarrow> 'f::one p_collision_body \<Rightarrow> ('f, 's) collision_body \<Rightarrow> ('f, 's) collision_body" where
  "CollisionBody_In L c b =
     (let b1 = (case pc_shape c of
            P_box x y z \<Rightarrow> SetBoxShape L (field 1 x) (field 1 y) (field 1 z) b
          | P_sphere r \<Rightarrow> SetSphereShape L r b
          | P_capsule r h \<Rightarrow> SetCapsuleShape L r h b
          | P_no_shape \<Rightarrow> b)
      in b1\<lparr>cb_disable_deactivation := field (cb_disable_deactivation b1) (pc_disable_deactivation c),
            cb_disable_rotation := field (cb_disable_rotation b1) (pc_disable_rotation c),
            cb_mass := field (cb_mass b1) (pc_mass c)\<rparr>)"

subsection \<open>Game states\<close>

record 'f game_state =
  positions :: "(eid, 'f vec3) omap"
  orientations :: "(eid, 'f orientation) omap"
  velocities :: "(eid, 'f velocity) omap"
  state_id :: state_id_t
  command_id :: state_id_t
  timestamp :: u64

definition new_game_state :: "'f game_state" where
  "new_game_state = \<lparr>positions = [], orientations = [], velocities = [], state_id = 0,
     command_id = 0, timestamp = 0\<rparr>"

text \<open>One component of one entity, read into a fresh component and stored.\<close>

definition store_component ::
    "('f \<Rightarrow> 'f \<Rightarrow> 'f \<Rightarrow> 'f quat) \<Rightarrow> eid \<Rightarrow> 'f::{zero,one} p_component \<Rightarrow> 'f game_state \<Rightarrow> 'f game_state" where
  "store_component c3 entity_id cmpnt gs = (case cmpnt of
      P_position p \<Rightarrow> gs\<lparr>positions := om_put entity_id (Position_In p zero_vec) (positions gs)\<rparr>
    | P_orientation q \<Rightarrow>
        gs\<lparr>orientations := om_put entity_id (Orientation_In c3 q new_orientation) (orientations gs)\<rparr>
    | P_velocity v \<Rightarrow> gs\<lparr>velocities := om_put entity_id (Velocity_In v new_velocity) (velocities gs)\<rparr>
    | _ \<Rightarrow> gs)"

definition store_entity ::
    "('f \<Rightarrow> 'f \<Rightarrow> 'f \<Rightarrow> 'f quat) \<Rightarrow> 'f::{zero,one} p_entity \<Rightarrow> 'f game_state \<Rightarrow> 'f game_state" where
  "store_entity c3 e gs = fold (store_component c3 (pe_id e)) (pe_components e) gs"

definition GameState_In ::
    "('f \<Rightarrow> 'f \<Rightarrow> 'f \<Rightarrow> 'f quat) \<Rightarrow> 'f::{zero,one} p_update \<Rightarrow> 'f game_state \<Rightarrow> 'f game_state" where
  "GameState_In c3 gsu gs = fold (store_entity c3) (pu_entity gsu)
     (gs\<lparr>state_id := field 0 (pu_state_id gsu), command_id := field 0 (pu_command_id gsu),
         timestamp := field 0 (pu_timestamp gsu)\<rparr>)"

text \<open>What \<open>Out\<close> adds for an entity that has a position.\<close>

definition out_entity :: "'f game_state \<Rightarrow> eid \<times> 'f vec3 \<Rightarrow> 'f p_entity" where
  "out_entity gs pos = \<lparr>pe_id = fst pos,
     pe_components = P_position (Position_Out (snd pos))
       # (case map_of (orientations gs) (fst pos) of
            None \<Rightarrow> [] | Some r \<Rightarrow> [P_orientation (Orientation_Out r)])
       @ (case map_of (velocities gs) (fst pos) of
            None \<Rightarrow> [] | Some v \<Rightarrow> [P_velocity (Velocity_Out v)])\<rparr>"

text \<open>\<open>Out\<close> sets the state and the time, not the command.\<close>

definition GameState_Out :: "'f game_state \<Rightarrow> 'f p_update \<Rightarrow> 'f p_update" where
  "GameState_Out gs gsu = gsu\<lparr>pu_state_id := Some (state_id gs), pu_timestamp := Some (timestamp gs),
     pu_entity := pu_entity gsu @ map (out_entity gs) (positions gs)\<rparr>"

definition new_update :: "'f p_update" where
  "new_update = \<lparr>pu_state_id = None, pu_command_id = None, pu_timestamp = None, pu_entity = []\<rparr>"

subsection \<open>The server's base state\<close>

text \<open>\<open>ServerGameStateQueue::On(EntityCreated)\<close> and \<open>On(EntityDestroyed)\<close> on the base state.\<close>

definition On_EntityCreated ::
    "('f \<Rightarrow> 'f \<Rightarrow> 'f \<Rightarrow> 'f quat) \<Rightarrow> 'f::{zero,one} p_entity \<Rightarrow> 'f game_state \<Rightarrow> 'f game_state" where
  "On_EntityCreated c3 entity base = store_entity c3 entity base"

definition On_EntityDestroyed :: "eid \<Rightarrow> 'f game_state \<Rightarrow> 'f game_state" where
  "On_EntityDestroyed entity_id base = base\<lparr>positions := om_erase entity_id (positions base),
     orientations := om_erase entity_id (orientations base),
     velocities := om_erase entity_id (velocities base)\<rparr>"

subsection \<open>Invariant and lookups\<close>

definition wf_gs :: "'f game_state \<Rightarrow> bool" where
  "wf_gs gs \<longleftrightarrow> wf_omap (positions gs) \<and> wf_omap (orientations gs) \<and> wf_omap (velocities gs)"

lemma wf_new_game_state [wf_intros, simp]: "wf_gs new_game_state"
  by (simp add: wf_gs_def new_game_state_def)

lemma wf_store_component [wf_intros]: "wf_gs gs \<Longrightarrow> wf_gs (store_component c3 i c gs)"
  by (cases c) (simp_all add: wf_gs_def store_component_def wf_om_put)

lemma wf_store_entity [wf_intros]: "wf_gs gs \<Longrightarrow> wf_gs (store_entity c3 e gs)"
proof -
  have "wf_gs gs \<Longrightarrow> wf_gs (fold (store_component c3 i) cs gs)" for cs i
    by (induction cs arbitrary: gs) (auto intro: wf_intros)
  then show "wf_gs gs \<Longrightarrow> wf_gs (store_entity c3 e gs)"
    by (simp add: store_entity_def)
qed

lemma wf_fold_store [wf_intros]: "wf_gs gs \<Longrightarrow> wf_gs (fold (store_entity c3) es gs)"
  by (induction es arbitrary: gs) (auto intro: wf_intros)

lemma wf_GameState_In [wf_intros]: "wf_gs gs \<Longrightarrow> wf_gs (GameState_In c3 gsu gs)"
  unfolding GameState_In_def by (rule wf_fold_store) (simp add: wf_gs_def)

lemma wf_On_EntityDestroyed [wf_intros]: "wf_gs gs \<Longrightarrow> wf_gs (On_EntityDestroyed i gs)"
  by (simp add: wf_gs_def On_EntityDestroyed_def wf_om_erase)

lemma store_frame [simp, frame_simps]:
  "state_id (store_component c3 i c gs) = state_id gs"
  "command_id (store_component c3 i c gs) = command_id gs"
  "timestamp (store_component c3 i c gs) = timestamp gs"
  by (cases c; simp add: store_component_def)+

text \<open>Storing an entity written by \<open>Out\<close> sets what it carries and leaves the other entities alone.\<close>

lemma store_out_entity:
  assumes "wf_gs gs"
  shows "map_of (positions (store_entity c3 (out_entity src (i, p)) gs)) = (map_of (positions gs))(i \<mapsto> p)"
    and "map_of (orientations (store_entity c3 (out_entity src (i, p)) gs)) =
      (case map_of (orientations src) i of None \<Rightarrow> map_of (orientations gs)
       | Some r \<Rightarrow> (map_of (orientations gs))(i \<mapsto> new_orientation\<lparr>o_value := o_value r\<rparr>))"
    and "map_of (velocities (store_entity c3 (out_entity src (i, p)) gs)) =
      (case map_of (velocities src) i of None \<Rightarrow> map_of (velocities gs)
       | Some v \<Rightarrow> (map_of (velocities gs))(i \<mapsto> v))"
    and "state_id (store_entity c3 (out_entity src (i, p)) gs) = state_id gs"
    and "command_id (store_entity c3 (out_entity src (i, p)) gs) = command_id gs"
    and "timestamp (store_entity c3 (out_entity src (i, p)) gs) = timestamp gs"
  using assms
  by (auto simp: store_entity_def out_entity_def store_component_def wf_gs_def wf_om_put split: option.split)

text \<open>What a receiver holds after reading the entities written for the positions \<open>ps\<close> of \<open>src\<close>.\<close>

lemma store_out_entities:
  assumes "wf_gs gs" and r: "r = fold (store_entity c3) (map (out_entity src) ps) gs"
  shows "map_of (positions r) i = (if i \<in> fst ` set ps then map_of (rev ps) i else map_of (positions gs) i)
    \<and> map_of (orientations r) i = (if i \<in> fst ` set ps \<and> map_of (orientations src) i \<noteq> None
        then map_option (\<lambda>x. new_orientation\<lparr>o_value := o_value x\<rparr>) (map_of (orientations src) i)
        else map_of (orientations gs) i)
    \<and> map_of (velocities r) i = (if i \<in> fst ` set ps \<and> map_of (velocities src) i \<noteq> None
        then map_of (velocities src) i else map_of (velocities gs) i)
    \<and> state_id r = state_id gs \<and> command_id r = command_id gs \<and> timestamp r = timestamp gs"
  unfolding r
proof (induction ps rule: rev_induct)
  case (snoc x ps)
  have wf: "wf_gs (fold (store_entity c3) (map (out_entity src) ps) gs)"
    by (rule wf_fold_store [OF assms(1)])
  obtain j p where "x = (j, p)" by (cases x)
  with snoc.IH show ?case
    by (auto simp: store_out_entity [OF wf] split: option.split)
qed simp

subsection \<open>Properties\<close>

text \<open>Replication round trip. Reading into a fresh state the update that \<open>Out\<close> writes gives
  the same state identifier, time and positions, and for every entity that has a position
  the same orientation quaternion and velocity; orientations and velocities of entities
  without a position, the Euler angles and the command identifier are not carried.\<close>

theorem GameState_roundtrip:
  assumes "wf_gs gs"
  shows "let r = GameState_In c3 (GameState_Out gs new_update) new_game_state in
    wf_gs r \<and> state_id r = state_id gs \<and> timestamp r = timestamp gs \<and> command_id r = 0
    \<and> positions r = positions gs
    \<and> map_of (orientations r) = (\<lambda>i. if om_has i (positions gs)
        then map_option (\<lambda>x. new_orientation\<lparr>o_value := o_value x\<rparr>) (map_of (orientations gs) i) else None)
    \<and> map_of (velocities r) = (\<lambda>i. if om_has i (positions gs) then map_of (velocities gs) i else None)"
proof -
  let ?start = "new_game_state\<lparr>state_id := state_id gs, command_id := 0, timestamp := timestamp gs\<rparr>"
  let ?r = "GameState_In c3 (GameState_Out gs new_update) new_game_state"
  have r: "?r = fold (store_entity c3) (map (out_entity gs) (positions gs)) ?start"
    by (simp add: GameState_In_def GameState_Out_def new_update_def field_def)
  have start: "wf_gs ?start" by (simp add: wf_gs_def new_game_state_def)
  note s = store_out_entities [OF start r]
  have wf: "wf_gs ?r" unfolding r by (rule wf_fold_store [OF start])
  have dist: "map_of (rev (positions gs)) = map_of (positions gs)"
    using distinct_om_keys [of "positions gs"] assms
    by (subst map_of_inject_set) (simp_all add: wf_gs_def om_keys_def flip: rev_map)
  have dom: "i \<in> fst ` set (positions gs) \<longleftrightarrow> om_has i (positions gs)" for i
    by (simp add: om_has_iff om_keys_def)
  have "map_of (positions ?r) = map_of (positions gs)"
    using s dist by (auto simp: new_game_state_def dom om_has_def fun_eq_iff)
  then have "positions ?r = positions gs"
    using wf assms by (intro wf_omap_eqI) (simp_all add: wf_gs_def)
  then show ?thesis
    using s wf by (auto simp: Let_def new_game_state_def dom fun_eq_iff)
qed

text \<open>A state with two entities: one that turns and moves, one at rest; entity 9 has no position.\<close>

definition sample_state :: "int game_state" where
  "sample_state = new_game_state\<lparr>
     positions := [(3, \<lparr>vx = 1, vy = 2, vz = 3\<rparr>), (5, zero_vec)],
     orientations := [(3, \<lparr>o_value = \<lparr>qw = 0, qx = 1, qy = 0, qz = 0\<rparr>, o_rotation = \<lparr>vx = 4, vy = 0, vz = 0\<rparr>\<rparr>)],
     velocities := [(3, new_velocity), (9, new_velocity)], state_id := 17, command_id := 4, timestamp := 99\<rparr>"

theorem GameState_roundtrip_witness:
  "let r = GameState_In (\<lambda>x y z. \<lparr>qw = 0, qx = x, qy = y, qz = z\<rparr>) (GameState_Out sample_state new_update)
      new_game_state in
    state_id r = 17 \<and> command_id r = 0 \<and> positions r = [(3, \<lparr>vx = 1, vy = 2, vz = 3\<rparr>), (5, zero_vec)]
    \<and> map_of (orientations r) 3 = Some (new_orientation\<lparr>o_value := \<lparr>qw = 0, qx = 1, qy = 0, qz = 0\<rparr>\<rparr>)
    \<and> map_of (velocities r) 9 = None"
  using GameState_roundtrip [of sample_state "\<lambda>x y z. \<lparr>qw = 0, qx = x, qy = y, qz = z\<rparr>"]
  by (simp add: Let_def sample_state_def wf_gs_def wf_omap_def om_keys_def new_game_state_def om_has_def)

end
