(* ===== verification/Controllers.thy ===== *)
theory Controllers
  imports Complex_Main Game_State
begin

text \<open>
  \<open>Controller\<close> and \<open>FPSController\<close> (common/controllers): a player's input becomes movement
  flags, the flags become a velocity, and on the client a command message that the server
  replays on its own controller. Floating point numbers are rationals here; what glm computes
  (rotating a vector, products and angles of quaternions) is a parameter. The lemmas relate
  what the client predicts to what the server does with its commands.
\<close>

subsection \<open>Input events\<close>

datatype key_action = KEY_DOWN | KEY_UP | KEY_REPEAT | KEY_CHAR
datatype mouse_action = DOWN | UP
datatype mouse_btn = LEFT | RIGHT | MIDDLE

record keyboard_event =
  ke_key :: int
  ke_scancode :: int
  ke_action :: key_action
  ke_mods :: int

record mouse_btn_event =
  mb_action :: mouse_action
  mb_button :: mouse_btn

record mouse_move_event =
  mm_old_x :: int
  mm_old_y :: int
  mm_new_x :: int
  mm_new_y :: int

record mouse_click_event =
  mc_button :: mouse_btn
  mc_ray_hit :: "rat vec3"
  mc_ray_distance :: rat

record event_list =
  keyboard_events :: "keyboard_event list"
  mouse_button_events :: "mouse_btn_event list"
  mouse_move_events :: "mouse_move_event list"
  mouse_click_events :: "mouse_click_event list"

definition no_events :: event_list where
  "no_events = \<lparr>keyboard_events = [], mouse_button_events = [], mouse_move_events = [],
     mouse_click_events = []\<rparr>"

subsection \<open>The command message\<close>

record p_movement =
  pm_forward :: "bool option"
  pm_backward :: "bool option"
  pm_leftStrafe :: "bool option"
  pm_rightStrafe :: "bool option"

record client_commands =
  cc_id :: u64
  cc_commandID :: u64
  cc_lastStateID :: "u64 option"
  cc_movement :: "p_movement option"
  cc_orientation :: "rat quat option"

subsection \<open>The controller\<close>

record fps_controller =
  fc_entity_id :: eid
  keyboard_focus :: bool
  mouse_focus :: bool
  forward :: bool
  backward :: bool
  right_strafe :: bool
  left_strafe :: bool
  current_delta :: rat
  mouse_look :: bool
  fc_orientation :: "rat orientation"
  KEY_A_FIRST :: bool
  KEY_W_FIRST :: bool
  KEY_W_DOWN :: bool
  KEY_A_DOWN :: bool
  KEY_S_DOWN :: bool
  KEY_D_DOWN :: bool

definition new_controller :: "eid \<Rightarrow> fps_controller" where
  "new_controller entity_id = \<lparr>fc_entity_id = entity_id, keyboard_focus = True, mouse_focus = True,
     forward = False, backward = False, right_strafe = False, left_strafe = False,
     current_delta = 0, mouse_look = False, fc_orientation = new_orientation,
     KEY_A_FIRST = False, KEY_W_FIRST = False, KEY_W_DOWN = False, KEY_A_DOWN = False,
     KEY_S_DOWN = False, KEY_D_DOWN = False\<rparr>"

definition SetFocus :: "bool \<Rightarrow> bool \<Rightarrow> fps_controller \<Rightarrow> fps_controller" where
  "SetFocus keyboard mouse c =
     c\<lparr>keyboard_focus := keyboard \<or> keyboard_focus c, mouse_focus := mouse \<or> mouse_focus c\<rparr>"

definition ClearFocus :: "bool \<Rightarrow> bool \<Rightarrow> fps_controller \<Rightarrow> fps_controller" where
  "ClearFocus keyboard mouse c =
     c\<lparr>keyboard_focus := keyboard_focus c \<and> \<not> keyboard, mouse_focus := mouse_focus c \<and> \<not> mouse\<rparr>"

text \<open>The keys are compared with character codes.\<close>

definition key_A :: int where "key_A = 65"
definition key_D :: int where "key_D = 68"
definition key_S :: int where "key_S = 83"
definition key_W :: int where "key_W = 87"

definition key_down :: "int \<Rightarrow> fps_controller \<Rightarrow> fps_controller" where
  "key_down key c =
     (if key = key_A then
        (let c1 = (if KEY_D_DOWN c then c else c\<lparr>KEY_A_FIRST := True\<rparr>) in c1\<lparr>KEY_A_DOWN := True\<rparr>)
      else if key = key_D then c\<lparr>KEY_D_DOWN := True\<rparr>
      else if key = key_W then
        (let c1 = (if KEY_S_DOWN c then c else c\<lparr>KEY_W_FIRST := True\<rparr>) in c1\<lparr>KEY_W_DOWN := True\<rparr>)
      else if key = key_S then c\<lparr>KEY_S_DOWN := True\<rparr>
      else c)"

definition key_up :: "int \<Rightarrow> fps_controller \<Rightarrow> fps_controller" where
  "key_up key c =
     (if key = key_A then c\<lparr>KEY_A_DOWN := False, KEY_A_FIRST := False\<rparr>
      else if key = key_D then c\<lparr>KEY_D_DOWN := False\<rparr>
      else if key = key_W then c\<lparr>KEY_W_DOWN := False, KEY_W_FIRST := False\<rparr>
      else if key = key_S then c\<lparr>KEY_S_DOWN := False\<rparr>
      else c)"

definition Handle_Keyboard :: "keyboard_event \<Rightarrow> fps_controller \<Rightarrow> fps_controller" where
  "Handle_Keyboard data c = (case ke_action data of
      KEY_DOWN \<Rightarrow> key_down (ke_key data) c
    | KEY_REPEAT \<Rightarrow> key_down (ke_key data) c
    | KEY_UP \<Rightarrow> key_up (ke_key data) c
    | KEY_CHAR \<Rightarrow> c)"

definition Handle_MouseBtn :: "mouse_btn_event \<Rightarrow> fps_controller \<Rightarrow> fps_controller" where
  "Handle_MouseBtn data c =
     (if mb_action data = DOWN \<and> mb_button data = RIGHT then c\<lparr>mouse_look := \<not> mouse_look c\<rparr> else c)"

text \<open>
  What glm provides: rotating a vector by a quaternion, \<open>angleAxis\<close> about the up and the right
  vector (of an angle in degrees), the product, and the Euler angles that the constructor
  \<open>Orientation(quat)\<close> stores.
\<close>

record glm_lib =
  rotate_vec :: "rat quat \<Rightarrow> rat vec3 \<Rightarrow> rat vec3"
  axis_up :: "rat \<Rightarrow> rat quat"
  axis_right :: "rat \<Rightarrow> rat quat"
  quat_mul :: "rat quat \<Rightarrow> rat quat \<Rightarrow> rat quat"
  euler_angles :: "rat quat \<Rightarrow> rat vec3"

definition from_quat :: "glm_lib \<Rightarrow> rat quat \<Rightarrow> rat orientation" where
  "from_quat L q = \<lparr>o_value = q, o_rotation = euler_angles L q\<rparr>"

definition FLT_EPSILON :: rat where "FLT_EPSILON = 1 / 8388608"

text \<open>
  \<open>pitch\<close> is a static variable of the function: one for all controllers. It is returned.
\<close>

definition Handle_MouseMove ::
    "glm_lib \<Rightarrow> mouse_move_event \<Rightarrow> rat \<times> fps_controller \<Rightarrow> rat \<times> fps_controller" where
  "Handle_MouseMove L data pc = (case pc of (pitch, c) \<Rightarrow>
     if \<not> mouse_look c then (pitch, c)
     else
       (let change_x = of_int (mm_new_x data - mm_old_x data);
            change_y = of_int (mm_new_y data - mm_old_y data);
            pitch = pitch + change_y / 5;
            (change_y, pitch) = (if 90 < pitch then (0, 90) else (change_y, pitch));
            (change_y, pitch) = (if pitch < - 120 then (0, - 120) else (change_y, pitch));
            rotation_speed = - 8 * current_delta c;
            c1 = (if FLT_EPSILON < \<bar>change_x\<bar>
                  then c\<lparr>fc_orientation := from_quat L
                    (quat_mul L (axis_up L (change_x * rotation_speed)) (o_value (fc_orientation c)))\<rparr>
                  else c);
            c2 = (if FLT_EPSILON < \<bar>change_y\<bar>
                  then c1\<lparr>fc_orientation := from_quat L
                    (quat_mul L (o_value (fc_orientation c1)) (axis_right L (change_y * rotation_speed)))\<rparr>
                  else c1)
        in (pitch, c2)))"

text \<open>The directions of a movement step, and the flags it leaves.\<close>

definition forward_direction :: "fps_controller \<Rightarrow> int" where
  "forward_direction c =
     (if (KEY_W_DOWN c \<and> KEY_W_FIRST c) \<or> forward c then - 1
      else if KEY_S_DOWN c \<or> backward c then 1 else 0)"

definition strafe_direction :: "fps_controller \<Rightarrow> int" where
  "strafe_direction c =
     (if (KEY_A_DOWN c \<and> KEY_A_FIRST c) \<or> left_strafe c then - 1
      else if KEY_D_DOWN c \<or> right_strafe c then 1 else 0)"

definition set_movement :: "fps_controller \<Rightarrow> fps_controller" where
  "set_movement c =
     (let c1 = (if (KEY_W_DOWN c \<and> KEY_W_FIRST c) \<or> forward c then c\<lparr>forward := True\<rparr>
                else if KEY_S_DOWN c \<or> backward c then c\<lparr>backward := True\<rparr> else c)
      in if (KEY_A_DOWN c1 \<and> KEY_A_FIRST c1) \<or> left_strafe c1 then c1\<lparr>left_strafe := True\<rparr>
         else if KEY_D_DOWN c1 \<or> right_strafe c1 then c1\<lparr>right_strafe := True\<rparr> else c1)"

definition local_velocity :: "fps_controller \<Rightarrow> rat vec3" where
  "local_velocity c = \<lparr>vx = 5 * of_int (strafe_direction c), vy = 0, vz = 15 / 2 * of_int (forward_direction c)\<rparr>"

text \<open>
  \<open>state.orientations[entity_id]\<close> and \<open>state.velocities[entity_id]\<close> make a default entry when
  there is none.
\<close>

definition FPS_inputs :: "rat \<Rightarrow> event_list \<Rightarrow> fps_controller \<Rightarrow> fps_controller" where
  "FPS_inputs delta commands c =
     (let c0 = c\<lparr>current_delta := delta\<rparr>;
          c1 = (if keyboard_focus c0 then fold Handle_Keyboard (keyboard_events commands) c0 else c0)
      in fold Handle_MouseBtn (mouse_button_events commands) c1)"

definition FPS_Update ::
    "glm_lib \<Rightarrow> rat \<Rightarrow> rat \<Rightarrow> rat game_state \<Rightarrow> event_list \<Rightarrow> fps_controller \<Rightarrow> rat \<times> rat game_state \<times> fps_controller" where
  "FPS_Update L pitch delta state commands c =
     (let c2 = FPS_inputs delta commands c;
          i = fc_entity_id c2;
          (pitch1, state1, c3) =
            (if mouse_focus c2 then
               (let here = om_get new_orientation i (orientations state);
                    st = state\<lparr>orientations := om_put i here (orientations state)\<rparr>;
                    (p, c') = fold (Handle_MouseMove L) (mouse_move_events commands)
                                (pitch, c2\<lparr>fc_orientation := here\<rparr>)
                in (p, (if om_has i (orientations st)
                        then st\<lparr>orientations := om_put i (fc_orientation c') (orientations st)\<rparr> else st), c'))
             else (pitch, state, c2));
          vel = om_get new_velocity i (velocities state1);
          lin = rotate_vec L (o_value (fc_orientation c3)) (local_velocity c3)
      in (pitch1, state1\<lparr>velocities := om_put i (vel\<lparr>v_linear := lin\<rparr>) (velocities state1)\<rparr>, set_movement c3))"

definition GetClientCommands :: "fps_controller \<Rightarrow> client_commands \<times> fps_controller" where
  "GetClientCommands c =
     (\<lparr>cc_id = fc_entity_id c, cc_commandID = 0, cc_lastStateID = None,
       cc_movement = Some \<lparr>pm_forward = Some (forward c),
         pm_backward = Some (\<not> forward c \<and> backward c),
         pm_leftStrafe = Some (left_strafe c),
         pm_rightStrafe = Some (\<not> left_strafe c \<and> right_strafe c)\<rparr>,
       cc_orientation = Some (o_value (fc_orientation c))\<rparr>,
      c\<lparr>forward := False, backward := False, left_strafe := False, right_strafe := False\<rparr>)"

definition ApplyClientCommands :: "client_commands \<Rightarrow> fps_controller \<Rightarrow> fps_controller" where
  "ApplyClientCommands pcc c =
     (let c1 = (case cc_movement pcc of
            Some m \<Rightarrow> c\<lparr>forward := field False (pm_forward m), backward := field False (pm_backward m),
              left_strafe := field False (pm_leftStrafe m), right_strafe := field False (pm_rightStrafe m)\<rparr>
          | None \<Rightarrow> c\<lparr>forward := False, backward := False, left_strafe := False, right_strafe := False\<rparr>)
      in case cc_orientation pcc of
          Some q \<Rightarrow> c1\<lparr>fc_orientation := (fc_orientation c1)\<lparr>o_value := q\<rparr>\<rparr>
        | None \<Rightarrow> c1)"

subsection \<open>What a step keeps\<close>

text \<open>Which keys are down, apart from everything else: input that a server's controller has none of.\<close>

definition keys_up :: "fps_controller \<Rightarrow> bool" where
  "keys_up c \<longleftrightarrow> \<not> KEY_W_DOWN c \<and> \<not> KEY_A_DOWN c \<and> \<not> KEY_S_DOWN c \<and> \<not> KEY_D_DOWN c"

lemma set_movement_directions:
  "forward_direction c =
     (if forward (set_movement c) then - 1 else if backward (set_movement c) then 1 else 0)"
  "strafe_direction c =
     (if left_strafe (set_movement c) then - 1 else if right_strafe (set_movement c) then 1 else 0)"
  by (simp_all add: set_movement_def forward_direction_def strafe_direction_def Let_def)

lemma Handle_MouseMove_keeps [frame_simps]:
  "movement_of (snd (Handle_MouseMove L e pc)) = movement_of (snd pc)"
  if "\<And>c q. movement_of (c\<lparr>fc_orientation := q\<rparr>) = movement_of c"
  using that by (simp add: Handle_MouseMove_def Let_def split_beta)

lemma fold_MouseMove_keeps [frame_simps]:
  "movement_of (snd (fold (Handle_MouseMove L) es pc)) = movement_of (snd pc)"
  if "\<And>c q. movement_of (c\<lparr>fc_orientation := q\<rparr>) = movement_of c"
  using that by (induction es arbitrary: pc) (simp_all add: Handle_MouseMove_keeps)

lemma fold_MouseMove_focus [simp]:
  "mouse_focus (snd (fold (Handle_MouseMove L) es pc)) = mouse_focus (snd pc)"
  "fc_entity_id (snd (fold (Handle_MouseMove L) es pc)) = fc_entity_id (snd pc)"
  by (rule fold_MouseMove_keeps, simp)+

lemma Handle_Keyboard_keeps [simp, frame_simps]:
  "mouse_focus (Handle_Keyboard e c) = mouse_focus c"
  "fc_entity_id (Handle_Keyboard e c) = fc_entity_id c"
  by (simp_all add: Handle_Keyboard_def key_down_def key_up_def Let_def split: key_action.split)

lemma Handle_MouseBtn_keeps [simp, frame_simps]:
  "mouse_focus (Handle_MouseBtn b c) = mouse_focus c"
  "fc_entity_id (Handle_MouseBtn b c) = fc_entity_id c"
  by (simp_all add: Handle_MouseBtn_def)

lemma fold_Handle_keeps [simp, frame_simps]:
  "mouse_focus (fold Handle_Keyboard es c) = mouse_focus c"
  "fc_entity_id (fold Handle_Keyboard es c) = fc_entity_id c"
  by (induction es arbitrary: c) simp_all

lemma fold_MouseBtn_keeps [simp, frame_simps]:
  "mouse_focus (fold Handle_MouseBtn bs c) = mouse_focus c"
  "fc_entity_id (fold Handle_MouseBtn bs c) = fc_entity_id c"
  by (induction bs arbitrary: c) simp_all

lemma set_movement_keeps [simp, frame_simps]:
  "fc_orientation (set_movement c) = fc_orientation c" "fc_entity_id (set_movement c) = fc_entity_id c"
  by (simp_all add: set_movement_def Let_def)

text \<open>The handlers only look at the orientation to turn it: they commute with setting it.\<close>

lemma Handle_orientation_frame:
  "Handle_Keyboard e (c\<lparr>fc_orientation := r\<rparr>) = (Handle_Keyboard e c)\<lparr>fc_orientation := r\<rparr>"
  "Handle_MouseBtn b (c\<lparr>fc_orientation := r\<rparr>) = (Handle_MouseBtn b c)\<lparr>fc_orientation := r\<rparr>"
  by (simp_all add: Handle_Keyboard_def Handle_MouseBtn_def key_down_def key_up_def Let_def
      split: key_action.split)

lemma fold_Keyboard_orientation_frame:
  "fold Handle_Keyboard es (c\<lparr>fc_orientation := r\<rparr>) = (fold Handle_Keyboard es c)\<lparr>fc_orientation := r\<rparr>"
  by (induction es arbitrary: c) (simp_all add: Handle_orientation_frame)

lemma fold_MouseBtn_orientation_frame:
  "fold Handle_MouseBtn bs (c\<lparr>fc_orientation := r\<rparr>) = (fold Handle_MouseBtn bs c)\<lparr>fc_orientation := r\<rparr>"
  by (induction bs arbitrary: c) (simp_all add: Handle_orientation_frame)

lemma FPS_inputs_keeps [frame_simps]:
  "mouse_focus (FPS_inputs d ev c) = mouse_focus c" "fc_entity_id (FPS_inputs d ev c) = fc_entity_id c"
  by (simp_all add: FPS_inputs_def Let_def)

lemma FPS_inputs_orientation_frame:
  "FPS_inputs d ev (c\<lparr>fc_orientation := r\<rparr>) = (FPS_inputs d ev c)\<lparr>fc_orientation := r\<rparr>"
proof -
  have d: "c\<lparr>fc_orientation := r, current_delta := d\<rparr> = (c\<lparr>current_delta := d\<rparr>)\<lparr>fc_orientation := r\<rparr>"
    by simp
  have "keyboard_focus ((c\<lparr>current_delta := d\<rparr>)\<lparr>fc_orientation := r\<rparr>) = keyboard_focus (c\<lparr>current_delta := d\<rparr>)"
    by simp
  then show ?thesis
    unfolding FPS_inputs_def Let_def d
    by (cases "keyboard_focus (c\<lparr>current_delta := d\<rparr>)")
      (simp_all only: fold_Keyboard_orientation_frame fold_MouseBtn_orientation_frame if_True if_False)
qed

subsection \<open>Movement through a command\<close>

text \<open>The local velocity that a movement command stands for.\<close>

definition command_velocity :: "p_movement \<Rightarrow> rat vec3" where
  "command_velocity m =
     \<lparr>vx = (if field False (pm_leftStrafe m) then - 5 else if field False (pm_rightStrafe m) then 5 else 0),
      vy = 0,
      vz = (if field False (pm_forward m) then - 15 / 2 else if field False (pm_backward m) then 15 / 2 else 0)\<rparr>"

lemma FPS_Update_result:
  assumes "wf_gs gs" and "FPS_Update L p d gs ev c = (p1, gs1, c1)"
  obtains c0 where "c1 = set_movement c0" and "fc_entity_id c0 = fc_entity_id c"
    and "fc_orientation c1 = fc_orientation c0"
    and "v_linear (om_get new_velocity (fc_entity_id c) (velocities gs1))
      = rotate_vec L (o_value (fc_orientation c1)) (local_velocity c0)"
    and "ev = no_events \<Longrightarrow> \<exists>r. c0 = c\<lparr>current_delta := d, fc_orientation := r\<rparr>"
proof -
  let ?c2 = "FPS_inputs d ev c"
  let ?here = "om_get new_orientation (fc_entity_id c) (orientations gs)"
  let ?c0 = "if mouse_focus c then
      snd (fold (Handle_MouseMove L) (mouse_move_events ev) (p, ?c2\<lparr>fc_orientation := ?here\<rparr>)) else ?c2"
  have i: "fc_entity_id ?c2 = fc_entity_id c" "mouse_focus ?c2 = mouse_focus c"
    by (simp_all add: FPS_inputs_def Let_def)
  show thesis
  proof (rule that [of ?c0])
    show "c1 = set_movement ?c0"
      using assms(2) unfolding FPS_Update_def Let_def by (auto simp: i split_beta)
    then show "fc_orientation c1 = fc_orientation ?c0"
      by simp
    show "v_linear (om_get new_velocity (fc_entity_id c) (velocities gs1))
      = rotate_vec L (o_value (fc_orientation c1)) (local_velocity ?c0)"
      using assms unfolding FPS_Update_def Let_def
      by (auto simp: i split_beta wf_gs_def)
    show "fc_entity_id ?c0 = fc_entity_id c"
      by (simp add: i)
    show "\<exists>r. ?c0 = c\<lparr>current_delta := d, fc_orientation := r\<rparr>" if "ev = no_events"
      using that by (cases "mouse_focus c") (auto simp: no_events_def FPS_inputs_def Let_def intro: exI [of _ "fc_orientation c"])
  qed
qed

lemma command_velocity_local:
  "command_velocity (the (cc_movement (fst (GetClientCommands (set_movement c))))) = local_velocity c"
  by (simp add: command_velocity_def GetClientCommands_def local_velocity_def set_movement_directions)

lemma local_velocity_of_command:
  assumes "keys_up s" and "cc_movement cmds = Some m"
    and "c0 = (ApplyClientCommands cmds s)\<lparr>current_delta := d, fc_orientation := r\<rparr>"
  shows "local_velocity c0 = command_velocity m"
  using assms
  by (auto simp: keys_up_def ApplyClientCommands_def Let_def local_velocity_def command_velocity_def
      forward_direction_def strafe_direction_def split: option.split)

text \<open>The server replays what the client predicted. The velocity a client's controller
  gives its entity is the command's movement, turned by the controller's orientation; a
  controller with no keys down that applies the command gives its own entity the same
  movement, turned by the orientation it has.\<close>

theorem command_replays_movement:
  assumes "keys_up s" and "wf_gs gs" and "wf_gs gs'"
  shows "let (p1, gs1, c1) = FPS_Update L p d gs ev c;
      cmds = fst (GetClientCommands c1);
      v = command_velocity (the (cc_movement cmds));
      (p2, gs2, s1) = FPS_Update L p' d' gs' no_events (ApplyClientCommands cmds s) in
    v_linear (om_get new_velocity (fc_entity_id c) (velocities gs1))
      = rotate_vec L (o_value (fc_orientation c1)) v
    \<and> v_linear (om_get new_velocity (fc_entity_id s) (velocities gs2))
      = rotate_vec L (o_value (fc_orientation s1)) v"
proof -
  obtain p1 gs1 c1 where u: "FPS_Update L p d gs ev c = (p1, gs1, c1)"
    by (metis prod_cases3)
  let ?cmds = "fst (GetClientCommands c1)"
  let ?s = "ApplyClientCommands ?cmds s"
  obtain p2 gs2 s1 where w: "FPS_Update L p' d' gs' no_events ?s = (p2, gs2, s1)"
    by (metis prod_cases3)
  from FPS_Update_result [OF assms(2) u] obtain c0 where c0: "c1 = set_movement c0"
    "v_linear (om_get new_velocity (fc_entity_id c) (velocities gs1))
      = rotate_vec L (o_value (fc_orientation c1)) (local_velocity c0)" .
  from FPS_Update_result [OF assms(3) w] obtain s0 where s0:
    "v_linear (om_get new_velocity (fc_entity_id ?s) (velocities gs2))
      = rotate_vec L (o_value (fc_orientation s1)) (local_velocity s0)"
    "\<exists>r. s0 = ?s\<lparr>current_delta := d', fc_orientation := r\<rparr>" by blast
  have m: "cc_movement ?cmds = Some (the (cc_movement ?cmds))"
    by (simp add: GetClientCommands_def)
  have id: "fc_entity_id ?s = fc_entity_id s"
    by (simp add: ApplyClientCommands_def Let_def split: option.split)
  have v: "local_velocity c0 = command_velocity (the (cc_movement ?cmds))"
    "local_velocity s0 = command_velocity (the (cc_movement ?cmds))"
    using local_velocity_of_command [OF assms(1) m] s0(2) command_velocity_local [of c0]
    by (auto simp: c0(1))
  show ?thesis
    using c0(2) s0(1) by (simp add: u w Let_def id v)
qed

text \<open>Rotation that ignores the quaternion, enough to evaluate an example.\<close>

definition flat_glm :: glm_lib where
  "flat_glm = \<lparr>rotate_vec = (\<lambda>q v. v), axis_up = (\<lambda>a. \<lparr>qw = 1, qx = 0, qy = a, qz = 0\<rparr>),
     axis_right = (\<lambda>a. \<lparr>qw = 1, qx = a, qy = 0, qz = 0\<rparr>), quat_mul = (\<lambda>p q. p), euler_angles = (\<lambda>q. zero_vec)\<rparr>"

definition press_W :: event_list where
  "press_W = no_events\<lparr>keyboard_events := [\<lparr>ke_key = key_W, ke_scancode = 0, ke_action = KEY_DOWN, ke_mods = 0\<rparr>]\<rparr>"

theorem command_replays_movement_witness:
  "let (p1, gs1, c1) = FPS_Update flat_glm 0 (1 / 60) new_game_state press_W (new_controller 7);
      cmds = fst (GetClientCommands c1);
      v = command_velocity (the (cc_movement cmds));
      (p2, gs2, s1) = FPS_Update flat_glm 0 (1 / 60) new_game_state no_events
        (ApplyClientCommands cmds (new_controller 7)) in
    v = \<lparr>vx = 0, vy = 0, vz = - 15 / 2\<rparr>
    \<and> v_linear (om_get new_velocity 7 (velocities gs1)) = v
    \<and> v_linear (om_get new_velocity 7 (velocities gs2)) = v"
proof -
  note c = command_replays_movement [of "new_controller 7" new_game_state new_game_state flat_glm 0 "1 / 60"
      press_W "new_controller 7" 0 "1 / 60"]
  have "command_velocity (the (cc_movement (fst (GetClientCommands
      (snd (snd (FPS_Update flat_glm 0 (1 / 60) new_game_state press_W (new_controller 7))))))))
    = \<lparr>vx = 0, vy = 0, vz = - 15 / 2\<rparr>"
    by (simp add: FPS_Update_def FPS_inputs_def Let_def press_W_def no_events_def new_controller_def
        Handle_Keyboard_def key_down_def key_A_def key_D_def key_W_def GetClientCommands_def
        set_movement_def command_velocity_def)
  then show ?thesis
    using c by (simp add: new_controller_def keys_up_def split_beta Let_def) (simp add: flat_glm_def)
qed

text \<open>The orientation of a command has no effect on a controller that has the mouse focus,
  as the server's controllers have: whatever orientation the client sends, the update
  that follows gives the same state and leaves the same controller.\<close>

theorem server_ignores_orientation:
  assumes "mouse_focus s"
  shows "FPS_Update L p d gs ev (ApplyClientCommands (cmds\<lparr>cc_orientation := q\<rparr>) s)
    = FPS_Update L p d gs ev (ApplyClientCommands (cmds\<lparr>cc_orientation := None\<rparr>) s)"
proof -
  have applied: "\<exists>r. ApplyClientCommands (cmds\<lparr>cc_orientation := q\<rparr>) s
      = (ApplyClientCommands (cmds\<lparr>cc_orientation := None\<rparr>) s)\<lparr>fc_orientation := r\<rparr>"
    by (auto simp: ApplyClientCommands_def Let_def split: option.split
        intro: exI [of _ "fc_orientation s"])
  have focus: "mouse_focus (ApplyClientCommands (cmds\<lparr>cc_orientation := None\<rparr>) s)"
    using assms by (simp add: ApplyClientCommands_def Let_def split: option.split)
  have "FPS_Update L p d gs ev (c\<lparr>fc_orientation := r\<rparr>) = FPS_Update L p d gs ev c" if "mouse_focus c" for c r
    using that by (simp add: FPS_Update_def FPS_inputs_orientation_frame FPS_inputs_keeps)
  then show ?thesis
    using applied focus by metis
qed

theorem server_ignores_orientation_witness:
  "FPS_Update flat_glm 0 (1 / 60) new_game_state no_events
      (ApplyClientCommands ((fst (GetClientCommands (new_controller 7)))
         \<lparr>cc_orientation := Some \<lparr>qw = 0, qx = 0, qy = 1, qz = 0\<rparr>\<rparr>) (new_controller 7))
   = FPS_Update flat_glm 0 (1 / 60) new_game_state no_events
      (ApplyClientCommands ((fst (GetClientCommands (new_controller 7)))\<lparr>cc_orientation := None\<rparr>)
        (new_controller 7))"
  by (rule server_ignores_orientation) (simp add: new_controller_def)

end
