(* ===== verification/Physics.thy ===== *)
theory Physics
  imports Complex_Main Safe_Run Entity_Store Game_State Controllers
begin

text \<open>
  \<open>PhysicsSystem\<close> (common/physics-system.cpp) and the motion state of a collision body
  (common/components/collision-body.hpp): which objects it owns, what it copies between the
  game state and the bodies, and the choice of a hit among those of a ray. Collision bodies
  and rigid bodies are objects in explicit stores; an access to an object that is not there,
  or through a null pointer, is \<open>None\<close>. The physics engine and the geometry of the view are
  parameters: what a step moves, what a ray hits. Numbers are rationals, with finiteness a
  parameter.
\<close>

subsection \<open>State\<close>

type_synonym addr = nat

record transform =
  tr_origin :: "rat vec3"
  tr_rotation :: "rat quat"

text \<open>A collision body with its motion state.\<close>

record 's coll =
  co_body :: "(rat, 's) collision_body"
  co_transform :: transform
  co_updated :: bool

datatype activation = Active_tag | Deactivation_disabled | Other_activation

record rigid =
  rb_user :: addr
  rb_inv_mass :: rat
  rb_activation :: activation
  rb_may_rotate :: bool
  rb_transform :: transform
  rb_linear :: "rat vec3"
  rb_angular :: "rat vec3"
  rb_gravity :: "rat vec3"

record 's physics =
  ph_colls :: "addr \<rightharpoonup> 's coll"
  ph_rigids :: "addr \<rightharpoonup> rigid"
  ph_map :: "(eid, addr option) omap"
  ph_bodies :: "(eid, addr option) omap"
  ph_world :: "addr list"
  ph_next :: addr
  ph_positions :: "(eid, rat vec3) omap"
  ph_orientations :: "(eid, rat orientation) omap"
  last_rayfrom :: "rat vec3"
  last_raydist :: rat
  last_raypos :: "rat vec3"
  last_raynorm :: "rat vec3"
  last_rayvalid :: bool
  last_entity_hit :: eid

definition identity_transform :: transform where
  "identity_transform = \<lparr>tr_origin = zero_vec, tr_rotation = o_value new_orientation\<rparr>"

definition new_physics :: "'s physics" where
  "new_physics = \<lparr>ph_colls = Map.empty, ph_rigids = Map.empty, ph_map = [], ph_bodies = [],
     ph_world = [], ph_next = 0, ph_positions = [], ph_orientations = [], last_rayfrom = zero_vec,
     last_raydist = 0, last_raypos = zero_vec, last_raynorm = zero_vec, last_rayvalid = False,
     last_entity_hit = 0\<rparr>"

record ray_hit =
  hit_fraction :: rat
  hit_user :: "addr option"
  hit_point :: "rat vec3"
  hit_normal :: "rat vec3"

text \<open>
  The engine: what moves in a step, with new velocities; the hits of a ray between two points;
  the far end of the ray of a mouse position; gravity; Euler angles of a rotation.
\<close>

record 's engine =
  eng_shapes :: "(rat, 's) shape_lib"
  eng_finite :: "rat \<Rightarrow> bool"
  eng_moves :: "rat \<Rightarrow> 's physics \<Rightarrow> (addr \<times> transform \<times> rat vec3 \<times> rat vec3) list"
  eng_ray :: "rat vec3 \<Rightarrow> rat vec3 \<Rightarrow> 's physics \<Rightarrow> ray_hit list"
  eng_mouse_target :: "transform \<Rightarrow> rat \<Rightarrow> rat \<Rightarrow> rat \<Rightarrow> rat \<Rightarrow> rat vec3"
  eng_forward_target :: "rat vec3 \<Rightarrow> rat quat \<Rightarrow> rat vec3"
  eng_distance :: "rat vec3 \<Rightarrow> rat vec3 \<Rightarrow> rat"
  eng_gravity :: "rat vec3"
  eng_euler :: "rat quat \<Rightarrow> rat vec3"
  eng_complete3 :: "rat \<Rightarrow> rat \<Rightarrow> rat \<Rightarrow> rat quat"

definition add_vec :: "rat vec3 \<Rightarrow> rat vec3 \<Rightarrow> rat vec3" where
  "add_vec a b = \<lparr>vx = vx a + vx b, vy = vy a + vy b, vz = vz a + vz b\<rparr>"

definition vec_finite :: "'s engine \<Rightarrow> rat vec3 \<Rightarrow> bool" where
  "vec_finite L v \<longleftrightarrow> eng_finite L (vx v) \<and> eng_finite L (vy v) \<and> eng_finite L (vz v)"

definition quat_finite :: "'s engine \<Rightarrow> rat quat \<Rightarrow> bool" where
  "quat_finite L q \<longleftrightarrow> eng_finite L (qx q) \<and> eng_finite L (qy q) \<and> eng_finite L (qz q) \<and> eng_finite L (qw q)"

definition put_coll :: "addr \<Rightarrow> 's coll \<Rightarrow> 's physics \<Rightarrow> 's physics" where
  "put_coll a c ph = ph\<lparr>ph_colls := (ph_colls ph)(a \<mapsto> c)\<rparr>"

definition put_rigid :: "addr \<Rightarrow> rigid \<Rightarrow> 's physics \<Rightarrow> 's physics" where
  "put_rigid a r ph = ph\<lparr>ph_rigids := (ph_rigids ph)(a \<mapsto> r)\<rparr>"

subsection \<open>Adding and removing bodies\<close>

definition RemoveRigidBody :: "eid \<Rightarrow> 's physics \<Rightarrow> 's physics option" where
  "RemoveRigidBody entity_id ph = (case map_of (ph_bodies ph) entity_id of
      Some (Some a) \<Rightarrow>
        (case ph_rigids ph a of
           None \<Rightarrow> None
         | Some _ \<Rightarrow> Some (ph\<lparr>ph_world := removeAll a (ph_world ph), ph_rigids := (ph_rigids ph)(a := None)\<rparr>))
    | _ \<Rightarrow> Some ph)"

text \<open>The engine starts a body from the transform of its motion state.\<close>

definition AddRigidBody :: "'s engine \<Rightarrow> addr \<Rightarrow> 's physics \<Rightarrow> (bool \<times> 's physics) option" where
  "AddRigidBody L c ph = (case ph_colls ph c of
      None \<Rightarrow> None
    | Some coll \<Rightarrow>
        let entity_id = cb_entity_id (co_body coll) in
        (case RemoveRigidBody entity_id ph of
           None \<Rightarrow> None
         | Some ph1 \<Rightarrow>
             if cb_shape (co_body coll) = None then Some (False, ph1)
             else
               let m = cb_mass (co_body coll);
                   r = \<lparr>rb_user = c, rb_inv_mass = (if m = 0 then 0 else 1 / m), rb_activation = Active_tag,
                        rb_may_rotate = True, rb_transform = co_transform coll, rb_linear = zero_vec,
                        rb_angular = zero_vec, rb_gravity = zero_vec\<rparr>;
                   a = ph_next ph1
               in Some (True, (put_rigid a r ph1)\<lparr>ph_next := a + 1,
                    ph_bodies := om_put entity_id (Some a) (ph_bodies ph1)\<rparr>)))"

definition create_component :: "'s engine \<Rightarrow> eid \<Rightarrow> rat p_component \<Rightarrow> 's physics \<Rightarrow> 's physics option" where
  "create_component L entity_id component ph = (case component of
      P_collision_body c \<Rightarrow>
        let a = ph_next ph;
            coll = \<lparr>co_body = (CollisionBody_In (eng_shapes L) c new_collision_body)\<lparr>cb_entity_id := entity_id\<rparr>,
                    co_transform = identity_transform, co_updated = True\<rparr>;
            ph1 = (put_coll a coll ph)\<lparr>ph_next := a + 1, ph_map := om_put entity_id (Some a) (ph_map ph)\<rparr>
        in map_option snd (AddRigidBody L a ph1)
    | P_position p \<Rightarrow> Some (ph\<lparr>ph_positions := om_put entity_id (Position_In p zero_vec) (ph_positions ph)\<rparr>)
    | P_orientation r \<Rightarrow> Some (ph\<lparr>ph_orientations :=
        om_put entity_id (Orientation_In (eng_complete3 L) r new_orientation) (ph_orientations ph)\<rparr>)
    | _ \<Rightarrow> Some ph)"

fun create_components :: "'s engine \<Rightarrow> eid \<Rightarrow> rat p_component list \<Rightarrow> 's physics \<Rightarrow> 's physics option" where
  "create_components L i [] ph = Some ph"
| "create_components L i (c # cs) ph = (case create_component L i c ph of
     None \<Rightarrow> None | Some ph1 \<Rightarrow> create_components L i cs ph1)"

definition ph_On_EntityCreated :: "'s engine \<Rightarrow> rat p_entity \<Rightarrow> 's physics \<Rightarrow> 's physics option" where
  "ph_On_EntityCreated L e ph = create_components L (pe_id e) (pe_components e) ph"

definition ph_On_EntityDestroyed :: "eid \<Rightarrow> 's physics \<Rightarrow> 's physics option" where
  "ph_On_EntityDestroyed entity_id ph =
     (case RemoveRigidBody entity_id (ph\<lparr>ph_map := om_erase entity_id (ph_map ph)\<rparr>) of
        None \<Rightarrow> None
      | Some ph1 \<Rightarrow> Some (ph1\<lparr>ph_bodies := om_erase entity_id (ph_bodies ph1),
          ph_positions := om_erase entity_id (ph_positions ph1),
          ph_orientations := om_erase entity_id (ph_orientations ph1)\<rparr>))"

subsection \<open>Reading bodies\<close>

definition ph_GetPosition :: "eid \<Rightarrow> 's physics \<Rightarrow> rat vec3 option" where
  "ph_GetPosition entity_id ph = (case map_of (ph_bodies ph) entity_id of
      Some (Some a) \<Rightarrow> map_option (\<lambda>r. tr_origin (rb_transform r)) (ph_rigids ph a)
    | _ \<Rightarrow> Some zero_vec)"

definition ph_GetOrientation :: "eid \<Rightarrow> 's physics \<Rightarrow> rat quat option" where
  "ph_GetOrientation entity_id ph = (case map_of (ph_bodies ph) entity_id of
      Some (Some a) \<Rightarrow> map_option (\<lambda>r. tr_rotation (rb_transform r)) (ph_rigids ph a)
    | _ \<Rightarrow> Some (o_value new_orientation))"

text \<open>\<open>SetGravity\<close> and \<open>SetNormalGravity\<close> do not test the pointer they find.\<close>

definition SetGravity :: "eid \<Rightarrow> rat vec3 \<Rightarrow> 's physics \<Rightarrow> 's physics option" where
  "SetGravity entity_id f ph = (case map_of (ph_bodies ph) entity_id of
      None \<Rightarrow> Some ph
    | Some None \<Rightarrow> None
    | Some (Some a) \<Rightarrow> map_option (\<lambda>r. put_rigid a (r\<lparr>rb_gravity := f\<rparr>) ph) (ph_rigids ph a))"

definition SetNormalGravity :: "'s engine \<Rightarrow> eid \<Rightarrow> 's physics \<Rightarrow> 's physics option" where
  "SetNormalGravity L entity_id ph = SetGravity entity_id (eng_gravity L) ph"

subsection \<open>Update\<close>

text \<open>\<open>MotionState::setWorldTransform\<close> of the collision body \<open>c\<close>, which the engine calls.\<close>

definition setWorldTransform :: "'s engine \<Rightarrow> addr \<Rightarrow> transform \<Rightarrow> 's physics \<Rightarrow> 's physics option" where
  "setWorldTransform L c world_trans ph = (case ph_colls ph c of
      None \<Rightarrow> None
    | Some coll \<Rightarrow>
        let entity_id = cb_entity_id (co_body coll);
            ph1 = put_coll c (coll\<lparr>co_updated := True, co_transform := world_trans\<rparr>) ph
        in if entity_id = 0 then Some ph1
           else
             let ph2 = (if om_has entity_id (ph_positions ph1)
                        then ph1\<lparr>ph_positions := om_put entity_id (tr_origin world_trans) (ph_positions ph1)\<rparr>
                        else ph1)
             in Some (if om_has entity_id (ph_orientations ph2)
                      then ph2\<lparr>ph_orientations := om_put entity_id
                        \<lparr>o_value = tr_rotation world_trans, o_rotation = eng_euler L (tr_rotation world_trans)\<rparr>
                        (ph_orientations ph2)\<rparr>
                      else ph2))"

text \<open>The state's transform is copied into the motion state, as far as it is finite.\<close>

definition copy_transform :: "'s engine \<Rightarrow> rat game_state \<Rightarrow> eid \<Rightarrow> rat vec3 \<Rightarrow> 's coll \<Rightarrow> 's coll" where
  "copy_transform L state entity_id position coll =
     (let c1 = (if vec_finite L position
                then coll\<lparr>co_transform := (co_transform coll)\<lparr>tr_origin := position\<rparr>\<rparr> else coll)
      in case map_of (orientations state) entity_id of
           None \<Rightarrow> c1
         | Some r \<Rightarrow> if quat_finite L (o_value r)
             then c1\<lparr>co_transform := (co_transform c1)\<lparr>tr_rotation := o_value r\<rparr>\<rparr> else c1)"

definition activate_body :: "'s coll \<Rightarrow> rigid \<Rightarrow> rigid" where
  "activate_body coll r =
     (if cb_disable_deactivation (co_body coll) then r\<lparr>rb_activation := Deactivation_disabled\<rparr>
      else if rb_activation r = Deactivation_disabled then r\<lparr>rb_activation := Active_tag\<rparr>
      else r)"

text \<open>
  A body that is not yet in the world is put there at its transform, its mass set if it differs
  from the inverse mass, and the engine gives it the gravity of the world unless it is static;
  one that is there moves half the way to where the state has it.
\<close>

definition enter_world :: "'s engine \<Rightarrow> 's coll \<Rightarrow> rigid \<Rightarrow> rigid" where
  "enter_world L coll r =
     (let m = cb_mass (co_body coll);
          r1 = (if m \<noteq> rb_inv_mass r then r\<lparr>rb_inv_mass := (if m = 0 then 0 else 1 / m)\<rparr> else r);
          r2 = (if cb_disable_rotation (co_body coll) then r1\<lparr>rb_may_rotate := False\<rparr> else r1)
      in r2\<lparr>rb_transform := co_transform coll,
            rb_gravity := (if rb_inv_mass r2 = 0 then rb_gravity r2 else eng_gravity L)\<rparr>)"

definition half_way :: "rat vec3 \<Rightarrow> rat vec3 \<Rightarrow> rat vec3" where
  "half_way from towards = \<lparr>vx = vx from + (vx towards - vx from) / 2,
     vy = vy from + (vy towards - vy from) / 2, vz = vz from + (vz towards - vz from) / 2\<rparr>"

definition follow_state :: "'s engine \<Rightarrow> 's coll \<Rightarrow> rigid \<Rightarrow> rigid" where
  "follow_state L coll r =
     (let there = tr_origin (co_transform coll); here = tr_origin (rb_transform r);
          r1 = (if 1 / 100 < eng_distance L here there
                then r\<lparr>rb_transform := (rb_transform r)\<lparr>tr_origin := half_way here there\<rparr>\<rparr> else r)
      in r1\<lparr>rb_transform := (rb_transform r1)\<lparr>tr_rotation := tr_rotation (co_transform coll)\<rparr>\<rparr>)"

definition copy_velocity :: "'s engine \<Rightarrow> rat game_state \<Rightarrow> eid \<Rightarrow> rigid \<Rightarrow> rigid" where
  "copy_velocity L state entity_id r = (case map_of (velocities state) entity_id of
      None \<Rightarrow> r
    | Some vel \<Rightarrow>
        let r1 = (if vec_finite L (v_linear vel)
                  then r\<lparr>rb_linear := add_vec (v_linear vel) (rb_gravity r)\<rparr> else r)
        in if vec_finite L (v_angular vel) then r1\<lparr>rb_angular := v_angular vel\<rparr> else r1)"

text \<open>The body of the loop over the collision bodies; \<open>this->bodies[entity_id]\<close> creates a null entry.\<close>

definition sync_entity :: "'s engine \<Rightarrow> rat game_state \<Rightarrow> eid \<times> addr option \<Rightarrow> 's physics \<Rightarrow> 's physics option" where
  "sync_entity L state entry ph = (case entry of (entity_id, collidable) \<Rightarrow>
     (case collidable of
        None \<Rightarrow> Some ph
      | Some c \<Rightarrow> (case ph_colls ph c of
          None \<Rightarrow> None
        | Some coll0 \<Rightarrow> (case map_of (positions state) entity_id of
            None \<Rightarrow> Some ph
          | Some position \<Rightarrow>
              let coll = copy_transform L state entity_id position coll0;
                  ph1 = put_coll c coll ph
              in (case map_of (ph_bodies ph1) entity_id of
                    None \<Rightarrow> Some (ph1\<lparr>ph_bodies := om_put entity_id None (ph_bodies ph1)\<rparr>)
                  | Some None \<Rightarrow> Some ph1
                  | Some (Some a) \<Rightarrow> (case ph_rigids ph1 a of
                      None \<Rightarrow> None
                    | Some r0 \<Rightarrow>
                        let r1 = activate_body coll r0 in
                        if \<not> cb_in_world (co_body coll)
                        then Some (put_rigid a (copy_velocity L state entity_id (enter_world L coll r1))
                               ((put_coll c (coll\<lparr>co_body := (co_body coll)\<lparr>cb_in_world := True\<rparr>\<rparr>) ph1)
                                 \<lparr>ph_world := ph_world ph1 @ [a]\<rparr>))
                        else Some (put_rigid a (copy_velocity L state entity_id (follow_state L coll r1)) ph1)))))))"

fun sync_entities :: "'s engine \<Rightarrow> rat game_state \<Rightarrow> (eid \<times> addr option) list \<Rightarrow> 's physics \<Rightarrow> 's physics option" where
  "sync_entities L state [] ph = Some ph"
| "sync_entities L state (e # es) ph = (case sync_entity L state e ph of
     None \<Rightarrow> None | Some ph1 \<Rightarrow> sync_entities L state es ph1)"

text \<open>What the engine moves: only bodies of the world, whose motion states it tells.\<close>

fun apply_moves :: "'s engine \<Rightarrow> (addr \<times> transform \<times> rat vec3 \<times> rat vec3) list \<Rightarrow> 's physics \<Rightarrow> 's physics option" where
  "apply_moves L [] ph = Some ph"
| "apply_moves L ((a, t, lin, ang) # ms) ph =
     (if a \<notin> set (ph_world ph) then apply_moves L ms ph
      else case ph_rigids ph a of
        None \<Rightarrow> None
      | Some r \<Rightarrow>
          (case setWorldTransform L (rb_user r) t
              (put_rigid a (r\<lparr>rb_transform := t, rb_linear := lin, rb_angular := ang\<rparr>) ph) of
             None \<Rightarrow> None
           | Some ph1 \<Rightarrow> apply_moves L ms ph1))"

text \<open>The last loop does not skip null pointers.\<close>

fun take_updated :: "(eid \<times> addr option) list \<Rightarrow> 's physics \<Rightarrow> (eid list \<times> 's physics) option" where
  "take_updated [] ph = Some ([], ph)"
| "take_updated ((i, collidable) # es) ph = (case collidable of
     None \<Rightarrow> None
   | Some c \<Rightarrow> (case ph_colls ph c of
       None \<Rightarrow> None
     | Some coll \<Rightarrow>
         (case take_updated es (if co_updated coll then put_coll c (coll\<lparr>co_updated := False\<rparr>) ph else ph) of
            None \<Rightarrow> None
          | Some (is, ph1) \<Rightarrow> Some (if co_updated coll then i # is else is, ph1))))"

definition ph_Update :: "'s engine \<Rightarrow> rat \<Rightarrow> rat game_state \<Rightarrow> 's physics \<Rightarrow> (eid list \<times> 's physics) option" where
  "ph_Update L delta state ph = (case sync_entities L state (ph_map ph) ph of
      None \<Rightarrow> None
    | Some ph1 \<Rightarrow> (case apply_moves L (eng_moves L delta ph1) ph1 of
        None \<Rightarrow> None
      | Some ph2 \<Rightarrow> take_updated (ph_map ph2) ph2))"

subsection \<open>Rays\<close>

text \<open>
  The loop over the hits, from the index \<open>i\<close>: the entity, index and fraction of the best hit so
  far. Entities of \<open>skip\<close> and hits without a collision body do not count.
\<close>

fun scan_hits :: "'s physics \<Rightarrow> eid set \<Rightarrow> ray_hit list \<Rightarrow> nat \<Rightarrow> eid \<times> nat \<times> rat \<Rightarrow> (eid \<times> nat \<times> rat) option" where
  "scan_hits ph skip [] i best = Some best"
| "scan_hits ph skip (h # hs) i best = (case hit_user h of
     None \<Rightarrow> scan_hits ph skip hs (Suc i) best
   | Some c \<Rightarrow> (case ph_colls ph c of
       None \<Rightarrow> None
     | Some coll \<Rightarrow>
         let entity = cb_entity_id (co_body coll) in
         scan_hits ph skip hs (Suc i)
           (if entity \<noteq> 0 \<and> entity \<notin> skip \<and> hit_fraction h < snd (snd best)
            then (entity, i, hit_fraction h) else best)))"

definition remember_hit :: "'s engine \<Rightarrow> ray_hit \<Rightarrow> 's physics \<Rightarrow> 's physics" where
  "remember_hit L h ph = ph\<lparr>last_raypos := hit_point h, last_raynorm := hit_normal h,
     last_raydist := eng_distance L (last_rayfrom ph) (hit_point h), last_rayvalid := True\<rparr>"

definition RayCastMousePick ::
    "'s engine \<Rightarrow> eid \<Rightarrow> rat \<Rightarrow> rat \<Rightarrow> rat \<Rightarrow> rat \<Rightarrow> 's physics \<Rightarrow> (eid \<times> 's physics) option" where
  "RayCastMousePick L source_entity mouse_x mouse_y width height ph =
     (if source_entity = 0 then Some (0, ph)
      else case map_of (ph_bodies ph) source_entity of
        None \<Rightarrow> Some (0, ph)
      | Some None \<Rightarrow> None
      | Some (Some a) \<Rightarrow> (case ph_rigids ph a of
          None \<Rightarrow> None
        | Some r \<Rightarrow> (case ph_colls ph (rb_user r) of
            None \<Rightarrow> None
          | Some body \<Rightarrow>
              let ph1 = ph\<lparr>last_rayvalid := False, last_entity_hit := 0\<rparr> in
              if height = 0 then Some (0, ph1)
              else
                let from = tr_origin (co_transform body);
                    target = eng_mouse_target L (co_transform body) mouse_x mouse_y width height;
                    ph2 = ph1\<lparr>last_rayfrom := from\<rparr>;
                    hits = eng_ray L from target ph2
                in if hits = [] then Some (last_entity_hit ph2, ph2)
                   else (case scan_hits ph2 {source_entity} hits 0 (0, length hits, 11 / 10) of
                       None \<Rightarrow> None
                     | Some (hit_entity, index, _) \<Rightarrow>
                         let ph3 = ph2\<lparr>last_entity_hit := hit_entity\<rparr>;
                             ph4 = (if index < length hits then remember_hit L (hits ! index) ph3 else ph3)
                         in Some (last_entity_hit ph4, ph4)))))"

definition RayCastIgnore :: "'s engine \<Rightarrow> eid \<Rightarrow> eid \<Rightarrow> 's physics \<Rightarrow> (eid \<times> 's physics) option" where
  "RayCastIgnore L source_entity ignore_entity ph =
     (let from = om_get zero_vec source_entity (ph_positions ph);
          rotation = o_value (om_get new_orientation source_entity (ph_orientations ph));
          ph1 = ph\<lparr>last_rayvalid := False, last_rayfrom := from\<rparr>;
          hits = eng_ray L from (eng_forward_target L from rotation) ph1
      in if hits = [] then Some (0, ph1)
         else (case scan_hits ph1 {source_entity, ignore_entity} hits 0 (0, length hits, 11 / 10) of
             None \<Rightarrow> None
           | Some (entity_hit, index, _) \<Rightarrow>
               Some (if index < length hits then (entity_hit, remember_hit L (hits ! index) ph1) else (0, ph1))))"

text \<open>A button that goes down emits a click for the entity of the last pick.\<close>

definition ph_On_MouseBtn :: "mouse_btn_event \<Rightarrow> 's physics \<Rightarrow> (eid \<times> mouse_click_event) list" where
  "ph_On_MouseBtn e ph =
     (if mb_action e = DOWN \<and> last_entity_hit ph \<noteq> 0
      then [(last_entity_hit ph, \<lparr>mc_button = mb_button e, mc_ray_hit = last_raypos ph,
        mc_ray_distance = last_raydist ph\<rparr>)] else [])"

subsection \<open>Ownership of the bodies\<close>

text \<open>
  \<open>bodies\<close> names every live rigid body once and nothing else, the world contains only live
  bodies, and each belongs to a live collision body; every collision body of the map has one.
\<close>

definition live_physics :: "'s physics \<Rightarrow> bool" where
  "live_physics ph \<longleftrightarrow> wf_omap (ph_bodies ph) \<and> wf_omap (ph_map ph)
     \<and> (\<forall>i x. map_of (ph_bodies ph) i = Some x \<longrightarrow> (\<exists>a. x = Some a \<and> ph_rigids ph a \<noteq> None))
     \<and> (\<forall>i j a. map_of (ph_bodies ph) i = Some (Some a) \<longrightarrow> map_of (ph_bodies ph) j = Some (Some a) \<longrightarrow> i = j)
     \<and> (\<forall>a r. ph_rigids ph a = Some r \<longrightarrow> ph_colls ph (rb_user r) \<noteq> None
          \<and> (\<exists>i. map_of (ph_bodies ph) i = Some (Some a)))
     \<and> (\<forall>i x. map_of (ph_map ph) i = Some x \<longrightarrow>
          (\<exists>c. x = Some c \<and> ph_colls ph c \<noteq> None) \<and> map_of (ph_bodies ph) i \<noteq> None)
     \<and> set (ph_world ph) \<subseteq> dom (ph_rigids ph)
     \<and> (\<forall>a \<ge> ph_next ph. ph_rigids ph a = None \<and> ph_colls ph a = None)"

lemma live_new_physics: "live_physics new_physics"
  by (simp add: live_physics_def new_physics_def)

definition has_shape :: "rat p_component \<Rightarrow> bool" where
  "has_shape component = (case component of P_collision_body c \<Rightarrow> pc_shape c \<noteq> P_no_shape | _ \<Rightarrow> True)"

lemma CollisionBody_In_shape:
  "pc_shape c \<noteq> P_no_shape \<Longrightarrow> \<exists>s. cb_shape (CollisionBody_In L c b) = Some s"
  by (cases "pc_shape c") (simp_all add: CollisionBody_In_def SetBoxShape_def SetSphereShape_def SetCapsuleShape_def Let_def)

lemma live_physicsD:
  assumes "live_physics ph"
  shows "wf_omap (ph_bodies ph)" "wf_omap (ph_map ph)"
    "\<And>i x. map_of (ph_bodies ph) i = Some x \<Longrightarrow> \<exists>a r. x = Some a \<and> ph_rigids ph a = Some r"
    "\<And>i j a. map_of (ph_bodies ph) i = Some (Some a) \<Longrightarrow> map_of (ph_bodies ph) j = Some (Some a) \<Longrightarrow> i = j"
    "\<And>a r. ph_rigids ph a = Some r \<Longrightarrow> \<exists>coll. ph_colls ph (rb_user r) = Some coll"
    "\<And>a r. ph_rigids ph a = Some r \<Longrightarrow> \<exists>i. map_of (ph_bodies ph) i = Some (Some a)"
    "\<And>i x. map_of (ph_map ph) i = Some x \<Longrightarrow> \<exists>c coll. x = Some c \<and> ph_colls ph c = Some coll"
    "\<And>i x. map_of (ph_map ph) i = Some x \<Longrightarrow> map_of (ph_bodies ph) i \<noteq> None"
    "\<And>a. a \<in> set (ph_world ph) \<Longrightarrow> ph_rigids ph a \<noteq> None"
    "\<And>a. ph_next ph \<le> a \<Longrightarrow> ph_rigids ph a = None"
    "\<And>a. ph_next ph \<le> a \<Longrightarrow> ph_colls ph a = None"
  using assms unfolding live_physics_def by blast+

text \<open>Removing a body: no body of \<open>i\<close> is left in the store or in the world.\<close>

definition without_body :: "eid \<Rightarrow> 's physics \<Rightarrow> 's physics" where
  "without_body i ph = ph\<lparr>ph_world := filter (\<lambda>b. map_of (ph_bodies ph) i \<noteq> Some (Some b)) (ph_world ph),
     ph_rigids := (\<lambda>b. if map_of (ph_bodies ph) i = Some (Some b) then None else ph_rigids ph b)\<rparr>"

lemma without_body_fields [simp]:
  "ph_bodies (without_body i ph) = ph_bodies ph" "ph_map (without_body i ph) = ph_map ph"
  "ph_colls (without_body i ph) = ph_colls ph" "ph_next (without_body i ph) = ph_next ph"
  "ph_rigids (without_body i ph) b = (if map_of (ph_bodies ph) i = Some (Some b) then None else ph_rigids ph b)"
  "set (ph_world (without_body i ph)) = {b \<in> set (ph_world ph). map_of (ph_bodies ph) i \<noteq> Some (Some b)}"
  by (auto simp: without_body_def)

lemma RemoveRigidBody_without:
  assumes "\<And>x. map_of (ph_bodies ph) i = Some x \<Longrightarrow> \<exists>a r. x = Some a \<and> ph_rigids ph a = Some r"
  shows "RemoveRigidBody i ph = Some (without_body i ph)"
proof (cases "map_of (ph_bodies ph) i")
  case None
  then show ?thesis by (simp add: RemoveRigidBody_def without_body_def)
next
  case (Some x)
  then obtain a r where "x = Some a" "ph_rigids ph a = Some r" using assms by blast
  moreover have "(ph_rigids ph)(a := None) = (\<lambda>b. if a = b then None else ph_rigids ph b)"
    by auto
  ultimately show ?thesis
    using Some by (simp add: RemoveRigidBody_def without_body_def removeAll_filter_not_eq)
qed

text \<open>Replacing the body of \<open>i\<close> by a new one, of a new collision body.\<close>

lemma live_replace_body:
  assumes live: "live_physics ph"
    and ph': "ph_bodies ph' = om_put i (Some a) (ph_bodies ph)" "ph_map ph' = om_put i (Some c) (ph_map ph)"
      "ph_rigids ph' = (ph_rigids (without_body i ph))(a \<mapsto> r)" "ph_colls ph' = (ph_colls ph)(c \<mapsto> coll)"
      "ph_world ph' = ph_world (without_body i ph)" "ph_next ph' = Suc a"
    and new: "rb_user r = c" "ph_next ph \<le> c" "c < a"
  shows "live_physics ph'"
proof -
  note l = live_physicsD [OF live]
  have fresh: "ph_rigids ph b = None" "ph_colls ph b = None" if "c \<le> b" for b
    using l(10,11) new that by simp_all
  have B: "map_of (ph_bodies ph') j = (if j = i then Some (Some a) else map_of (ph_bodies ph) j)" for j
    using l(1) by (simp add: ph')
  have M: "map_of (ph_map ph') j = (if j = i then Some (Some c) else map_of (ph_map ph) j)" for j
    using l(2) by (simp add: ph')
  have R: "ph_rigids ph' b = (if b = a then Some r
      else if map_of (ph_bodies ph) i = Some (Some b) then None else ph_rigids ph b)" for b
    by (simp add: ph')
  have old: "b \<noteq> a" if "ph_rigids ph b = Some q" for b q
    using fresh(1) [of b] new that by auto
  have oldc: "b \<noteq> c" if "ph_colls ph b = Some q" for b q
    using fresh(2) [of b] that by auto
  show ?thesis
    unfolding live_physics_def
  proof (intro conjI allI impI)
    show "wf_omap (ph_bodies ph')" "wf_omap (ph_map ph')"
      using l(1,2) by (simp_all add: ph' wf_om_put)
    show "\<exists>b. x = Some b \<and> ph_rigids ph' b \<noteq> None" if "map_of (ph_bodies ph') j = Some x" for j x
      using that l(3) [of j x] l(4) [of j _ i] old by (force simp: B R split: if_splits)
    show "j = k" if "map_of (ph_bodies ph') j = Some (Some b)" "map_of (ph_bodies ph') k = Some (Some b)" for j k b
      using that l(4) [of j b k] l(3) [of j "Some b"] l(3) [of k "Some b"] old by (auto simp: B split: if_splits)
    show "ph_colls ph' (rb_user q) \<noteq> None" if "ph_rigids ph' b = Some q" for b q
      using that l(5) [of b q] new by (auto simp: R ph'(4) split: if_splits)
    show "\<exists>j. map_of (ph_bodies ph') j = Some (Some b)" if "ph_rigids ph' b = Some q" for b q
      using that l(6) [of b q] by (auto simp: R B split: if_splits)
    show "\<exists>d. x = Some d \<and> ph_colls ph' d \<noteq> None" if "map_of (ph_map ph') j = Some x" for j x
      using that l(7) [of j x] by (auto simp: M ph'(4) split: if_splits)
    show "map_of (ph_bodies ph') j \<noteq> None" if "map_of (ph_map ph') j = Some x" for j x
      using that l(8) [of j x] by (simp add: M B split: if_splits)
    show "set (ph_world ph') \<subseteq> dom (ph_rigids ph')"
      using l(9) by (auto simp: ph'(5) R)
    show "ph_rigids ph' b = None" "ph_colls ph' b = None" if "ph_next ph' \<le> b" for b
      using fresh [of b] that new by (auto simp: R ph'(4,6))
  qed
qed

lemma add_body_live:
  assumes live: "live_physics ph" and coll: "cb_shape (co_body coll) = Some s" "cb_entity_id (co_body coll) = i"
    and n: "n = ph_next ph"
  shows "\<exists>ph'. AddRigidBody L n ((put_coll n coll ph)\<lparr>ph_next := n + 1, ph_map := om_put i (Some n) (ph_map ph)\<rparr>)
      = Some (True, ph') \<and> live_physics ph'"
proof -
  define ph1 where "ph1 = (put_coll n coll ph)\<lparr>ph_next := n + 1, ph_map := om_put i (Some n) (ph_map ph)\<rparr>"
  have fields: "ph_colls ph1 = (ph_colls ph)(n \<mapsto> coll)" "ph_bodies ph1 = ph_bodies ph" "ph_rigids ph1 = ph_rigids ph"
    "ph_world ph1 = ph_world ph" "ph_next ph1 = n + 1" "ph_map ph1 = om_put i (Some n) (ph_map ph)"
    by (simp_all add: ph1_def put_coll_def)
  have rem: "RemoveRigidBody i ph1 = Some (without_body i ph1)"
    by (rule RemoveRigidBody_without) (use live_physicsD(3) [OF live] in \<open>simp add: fields\<close>)
  have w: "ph_rigids (without_body i ph1) = ph_rigids (without_body i ph)"
    "ph_world (without_body i ph1) = ph_world (without_body i ph)"
    by (simp_all add: without_body_def fields cong: if_cong)
  obtain r where r: "rb_user r = n"
    "AddRigidBody L n ph1 = Some (True, (put_rigid (n + 1) r (without_body i ph1))\<lparr>ph_next := n + 1 + 1,
       ph_bodies := om_put i (Some (n + 1)) (ph_bodies ph)\<rparr>)"
    using coll by (simp add: AddRigidBody_def fields(1) rem Let_def fields(2,5))
      (metis rigid.select_convs(1))
  have "live_physics ((put_rigid (n + 1) r (without_body i ph1))\<lparr>ph_next := n + 1 + 1,
       ph_bodies := om_put i (Some (n + 1)) (ph_bodies ph)\<rparr>)"
    by (rule live_replace_body [OF live, where a = "n + 1" and c = n and i = i and r = r and coll = coll])
      (simp_all add: put_rigid_def w fields r n)
  then show ?thesis
    using r(2) unfolding ph1_def by blast
qed

lemma create_body_live:
  assumes live: "live_physics ph" and shape: "pc_shape c \<noteq> P_no_shape"
  shows "\<exists>ph'. create_component L i (P_collision_body c) ph = Some ph' \<and> live_physics ph'"
proof -
  let ?b = "(CollisionBody_In (eng_shapes L) c new_collision_body)\<lparr>cb_entity_id := i\<rparr>"
  let ?coll = "\<lparr>co_body = ?b, co_transform = identity_transform, co_updated = True\<rparr>"
  obtain s where "cb_shape (co_body ?coll) = Some s"
    using CollisionBody_In_shape [OF shape, of "eng_shapes L" new_collision_body] by auto
  from add_body_live [OF live this _ refl, of i L] show ?thesis
    by (auto simp: create_component_def Let_def)
qed

lemma live_physics_frame:
  assumes "live_physics ph"
    and "ph_bodies ph' = ph_bodies ph" "ph_map ph' = ph_map ph" "ph_next ph' = ph_next ph"
    and "\<And>a. map_option rb_user (ph_rigids ph' a) = map_option rb_user (ph_rigids ph a)"
    and "\<And>a. ph_colls ph' a = None \<longleftrightarrow> ph_colls ph a = None"
    and "set (ph_world ph') \<subseteq> dom (ph_rigids ph)"
  shows "live_physics ph'"
proof -
  note l = live_physicsD [OF assms(1)]
  have r: "ph_rigids ph' a = None \<longleftrightarrow> ph_rigids ph a = None" for a
    using assms(5) [of a] by (cases "ph_rigids ph a"; cases "ph_rigids ph' a") auto
  have u: "\<exists>q'. ph_rigids ph a = Some q' \<and> rb_user q' = rb_user q" if "ph_rigids ph' a = Some q" for a q
    using assms(5) [of a] that by (cases "ph_rigids ph a") auto
  show ?thesis
    unfolding live_physics_def assms(2-4)
  proof (intro conjI allI impI)
    fix a q
    assume "ph_rigids ph' a = Some q"
    then obtain q' where q': "ph_rigids ph a = Some q'" "rb_user q' = rb_user q"
      using u by blast
    show "ph_colls ph' (rb_user q) \<noteq> None"
      using l(5) [OF q'(1)] q'(2) assms(6) [of "rb_user q"] by auto
    show "\<exists>i. map_of (ph_bodies ph) i = Some (Some a)"
      using l(6) [OF q'(1)] .
  next
    have "dom (ph_rigids ph') = dom (ph_rigids ph)"
      using r by (auto simp: dom_def)
    then show "set (ph_world ph') \<subseteq> dom (ph_rigids ph')"
      using assms(7) by simp
    show "\<exists>a. x = Some a \<and> ph_rigids ph' a \<noteq> None" if "map_of (ph_bodies ph) i = Some x" for i x
      using l(3) [OF that] r by auto
    show "\<exists>c. x = Some c \<and> ph_colls ph' c \<noteq> None" if "map_of (ph_map ph) i = Some x" for i x
      using l(7) [OF that] assms(6) by auto
    show "ph_rigids ph' a = None" "ph_colls ph' a = None" if "ph_next ph \<le> a" for a
      using l(10,11) [OF that] r assms(6) by auto
  qed (use l in auto)
qed

lemma activate_user [simp]: "rb_user (activate_body coll r) = rb_user r"
  by (simp add: activate_body_def)

lemma enter_user [simp]: "rb_user (enter_world L coll r) = rb_user r"
  by (simp add: enter_world_def Let_def)

lemma follow_user [simp]: "rb_user (follow_state L coll r) = rb_user r"
  by (simp add: follow_state_def Let_def)

lemma velocity_user [simp]: "rb_user (copy_velocity L state i r) = rb_user r"
  by (simp add: copy_velocity_def Let_def split: option.split)

lemma live_world: "live_physics ph \<Longrightarrow> set (ph_world ph) \<subseteq> dom (ph_rigids ph)"
  by (simp add: live_physics_def)

lemma live_put_coll:
  assumes "live_physics ph" and "ph_colls ph c = Some old"
  shows "live_physics (put_coll c coll ph)"
  by (rule live_physics_frame [OF assms(1)]) (use assms live_world in \<open>auto simp: put_coll_def\<close>)

lemma live_put_rigid:
  assumes "live_physics ph" and "ph_rigids ph a = Some old" and "rb_user r = rb_user old"
    and "set w \<subseteq> insert a (set (ph_world ph))"
  shows "live_physics (put_rigid a r (ph\<lparr>ph_world := w\<rparr>))"
proof (rule live_physics_frame [OF assms(1)])
  show "map_option rb_user (ph_rigids (put_rigid a r (ph\<lparr>ph_world := w\<rparr>)) b) = map_option rb_user (ph_rigids ph b)" for b
    using assms(2,3) by (simp add: put_rigid_def)
  show "set (ph_world (put_rigid a r (ph\<lparr>ph_world := w\<rparr>))) \<subseteq> dom (ph_rigids ph)"
    using assms(2,4) live_world [OF assms(1)] by (auto simp: put_rigid_def)
qed (simp_all add: put_rigid_def)

lemma sync_entity_live:
  assumes live: "live_physics ph" and entry: "map_of (ph_map ph) i = Some x"
  shows "\<exists>ph'. sync_entity L state (i, x) ph = Some ph' \<and> live_physics ph' \<and> ph_map ph' = ph_map ph"
proof -
  note l = live_physicsD [OF live]
  obtain c coll0 where c: "x = Some c" "ph_colls ph c = Some coll0"
    using l(7) [OF entry] by blast
  obtain a r0 where a: "map_of (ph_bodies ph) i = Some (Some a)" "ph_rigids ph a = Some r0"
    using l(8) [OF entry] l(3) by blast
  show ?thesis
  proof (cases "map_of (positions state) i")
    case None
    then show ?thesis using live c by (simp add: sync_entity_def)
  next
    case (Some position)
    let ?coll = "copy_transform L state i position coll0"
    let ?r = "activate_body ?coll r0"
    let ?in = "?coll\<lparr>co_body := (co_body ?coll)\<lparr>cb_in_world := True\<rparr>\<rparr>"
    have 1: "live_physics (put_coll c ?coll ph)"
      by (rule live_put_coll [OF live c(2)])
    have 2: "live_physics (put_coll c ?in (put_coll c ?coll ph))"
      by (rule live_put_coll [OF 1, of c ?coll]) (simp add: put_coll_def)
    have 3: "live_physics (put_rigid a (copy_velocity L state i (enter_world L ?coll ?r))
        ((put_coll c ?in (put_coll c ?coll ph))\<lparr>ph_world := ph_world (put_coll c ?coll ph) @ [a]\<rparr>))"
      by (rule live_put_rigid [OF 2, where old = r0]) (use a in \<open>auto simp: put_coll_def\<close>)
    have 4: "live_physics (put_rigid a (copy_velocity L state i (follow_state L ?coll ?r)) (put_coll c ?coll ph))"
      using live_put_rigid [OF 1, of a r0 "copy_velocity L state i (follow_state L ?coll ?r)" "ph_world (put_coll c ?coll ph)"] a
      by (auto simp: put_coll_def)
    have "ph_bodies (put_coll c ?coll ph) = ph_bodies ph" "ph_rigids (put_coll c ?coll ph) = ph_rigids ph"
      by (simp_all add: put_coll_def)
    then show ?thesis
      using Some c a 3 4
      by (simp add: sync_entity_def Let_def) (simp add: put_rigid_def put_coll_def)
  qed
qed

lemma sync_entities_live:
  assumes "live_physics ph" and "\<forall>(i, x) \<in> set es. map_of (ph_map ph) i = Some x"
  shows "\<exists>ph'. sync_entities L state es ph = Some ph' \<and> live_physics ph' \<and> ph_map ph' = ph_map ph"
  using assms
proof (induction es arbitrary: ph)
  case (Cons e es)
  obtain i x where e: "e = (i, x)" by (cases e)
  obtain ph1 where "sync_entity L state (i, x) ph = Some ph1" "live_physics ph1" "ph_map ph1 = ph_map ph"
    using sync_entity_live [OF Cons.prems(1), of i x L state] Cons.prems(2) e by auto
  then show ?case
    using Cons.IH [of ph1] Cons.prems(2) e by simp
qed simp

lemma setWorldTransform_live:
  assumes "live_physics ph" and "ph_colls ph c = Some coll"
  shows "\<exists>ph'. setWorldTransform L c t ph = Some ph' \<and> live_physics ph' \<and> ph_map ph' = ph_map ph"
proof -
  let ?ph1 = "put_coll c (coll\<lparr>co_updated := True, co_transform := t\<rparr>) ph"
  have 1: "live_physics ?ph1"
    by (rule live_put_coll [OF assms])
  have "live_physics (?ph1\<lparr>ph_positions := p\<rparr>)" "live_physics (?ph1\<lparr>ph_orientations := r\<rparr>)"
    "live_physics (?ph1\<lparr>ph_positions := p, ph_orientations := r\<rparr>)" for p r
    by (rule live_physics_frame [OF 1]; use live_world [OF 1] in auto)+
  with 1 show ?thesis
    using assms(2) by (auto simp: setWorldTransform_def Let_def put_coll_def)
qed

lemma apply_moves_live:
  assumes "live_physics ph"
  shows "\<exists>ph'. apply_moves L ms ph = Some ph' \<and> live_physics ph' \<and> ph_map ph' = ph_map ph"
  using assms
proof (induction L ms ph rule: apply_moves.induct)
  case (2 L a t lin ang ms ph)
  show ?case
  proof (cases "a \<in> set (ph_world ph)")
    case True
    then obtain r where r: "ph_rigids ph a = Some r"
      using live_physicsD(9) [OF 2(3)] by blast
    obtain coll where coll: "ph_colls ph (rb_user r) = Some coll"
      using live_physicsD(5) [OF 2(3) r] by blast
    let ?ph1 = "put_rigid a (r\<lparr>rb_transform := t, rb_linear := lin, rb_angular := ang\<rparr>) ph"
    have "live_physics ?ph1"
      using live_put_rigid [OF 2(3) r, of "r\<lparr>rb_transform := t, rb_linear := lin, rb_angular := ang\<rparr>" "ph_world ph"]
      by auto
    then obtain ph2 where "setWorldTransform L (rb_user r) t ?ph1 = Some ph2" "live_physics ph2" "ph_map ph2 = ph_map ph"
      using setWorldTransform_live [of ?ph1 "rb_user r" coll L t] coll by (auto simp: put_rigid_def)
    then show ?thesis
      using 2(2) [of r ph2] True r by auto
  qed (use 2 in auto)
qed simp

lemma take_updated_live:
  assumes "live_physics ph" and "\<forall>(i, x) \<in> set es. map_of (ph_map ph) i = Some x"
  shows "\<exists>is ph'. take_updated es ph = Some (is, ph') \<and> live_physics ph'"
  using assms
proof (induction es ph rule: take_updated.induct)
  case (2 i x es ph)
  have "map_of (ph_map ph) i = Some x"
    using 2(3) by simp
  then obtain c coll where c: "x = Some c" "ph_colls ph c = Some coll"
    using live_physicsD(7) [OF 2(2)] by blast
  let ?ph1 = "if co_updated coll then put_coll c (coll\<lparr>co_updated := False\<rparr>) ph else ph"
  have "live_physics ?ph1" "ph_map ?ph1 = ph_map ph"
    using live_put_coll [OF 2(2) c(2)] 2(2) by (simp_all add: put_coll_def)
  then show ?case
    using 2(1) [OF c] 2(3) c by fastforce
qed simp

lemma wf_omap_entries: "wf_omap m \<Longrightarrow> \<forall>(i, x) \<in> set m. map_of m i = Some x"
  by (auto simp: wf_omap_def om_keys_def strict_sorted_iff)

lemma ph_Update_live:
  assumes "live_physics ph"
  shows "\<exists>is ph'. ph_Update L delta state ph = Some (is, ph') \<and> live_physics ph'"
proof -
  obtain ph1 where 1: "sync_entities L state (ph_map ph) ph = Some ph1" "live_physics ph1"
    using sync_entities_live [OF assms wf_omap_entries] live_physicsD(2) [OF assms] by blast
  obtain ph2 where 2: "apply_moves L (eng_moves L delta ph1) ph1 = Some ph2" "live_physics ph2"
    using apply_moves_live [OF 1(2)] by blast
  show ?thesis
    using take_updated_live [OF 2(2) wf_omap_entries] live_physicsD(2) [OF 2(2)] 1 2
    by (auto simp: ph_Update_def)
qed

subsection \<open>The nearest hit\<close>

definition hit_entity :: "'s physics \<Rightarrow> ray_hit \<Rightarrow> eid" where
  "hit_entity ph h = (case hit_user h of
      None \<Rightarrow> 0 | Some c \<Rightarrow> (case ph_colls ph c of None \<Rightarrow> 0 | Some coll \<Rightarrow> cb_entity_id (co_body coll)))"

definition counts :: "'s physics \<Rightarrow> eid set \<Rightarrow> ray_hit \<Rightarrow> bool" where
  "counts ph skip h \<longleftrightarrow> hit_entity ph h \<noteq> 0 \<and> hit_entity ph h \<notin> skip"

definition users_live :: "'s physics \<Rightarrow> ray_hit list \<Rightarrow> bool" where
  "users_live ph hits \<longleftrightarrow> (\<forall>h \<in> set hits. \<forall>c. hit_user h = Some c \<longrightarrow> ph_colls ph c \<noteq> None)"

lemma scan_hits_step:
  assumes "\<forall>c. hit_user h = Some c \<longrightarrow> ph_colls ph c \<noteq> None"
  shows "scan_hits ph skip (h # hs) i best = scan_hits ph skip hs (Suc i)
    (if counts ph skip h \<and> hit_fraction h < snd (snd best) then (hit_entity ph h, i, hit_fraction h) else best)"
  using assms by (auto simp: counts_def hit_entity_def Let_def split: option.split)

text \<open>The best of the hits seen: the first of those with the least fraction, if it is below 1.1.\<close>

definition best_of :: "'s physics \<Rightarrow> eid set \<Rightarrow> ray_hit list \<Rightarrow> nat \<Rightarrow> eid \<times> nat \<times> rat \<Rightarrow> bool" where
  "best_of ph skip hits n b \<longleftrightarrow>
     (\<forall>h \<in> set hits. counts ph skip h \<longrightarrow> snd (snd b) \<le> hit_fraction h)
     \<and> (b = (0, n, 11 / 10)
        \<or> (\<exists>j < length hits. b = (hit_entity ph (hits ! j), j, hit_fraction (hits ! j)) \<and> counts ph skip (hits ! j)
             \<and> hit_fraction (hits ! j) < 11 / 10
             \<and> (\<forall>k < j. counts ph skip (hits ! k) \<longrightarrow> hit_fraction (hits ! j) < hit_fraction (hits ! k))))"

lemma best_of_snoc:
  assumes b: "best_of ph skip hits n b"
  shows "best_of ph skip (hits @ [h]) n (if counts ph skip h \<and> hit_fraction h < snd (snd b)
    then (hit_entity ph h, length hits, hit_fraction h) else b)"
proof (cases "counts ph skip h \<and> hit_fraction h < snd (snd b)")
  case True
  have bound: "snd (snd b) \<le> 11 / 10"
    using b by (auto simp: best_of_def)
  have low: "hit_fraction h < hit_fraction k" if "k \<in> set hits" "counts ph skip k" for k
    using b True that unfolding best_of_def by force
  show ?thesis
    using True bound low
    by (auto simp: best_of_def nth_append intro!: less_imp_le exI [of _ "length hits"])
next
  case False
  show ?thesis
    using b False unfolding best_of_def
    by (auto simp: nth_append less_Suc_eq not_less intro: exI)
qed

lemma scan_hits_best:
  assumes "users_live ph hits" and "best_of ph skip seen n b"
  shows "\<exists>b'. scan_hits ph skip hits (length seen) b = Some b' \<and> best_of ph skip (seen @ hits) n b'"
  using assms
proof (induction hits arbitrary: seen b)
  case (Cons h hs)
  let ?b = "if counts ph skip h \<and> hit_fraction h < snd (snd b) then (hit_entity ph h, length seen, hit_fraction h) else b"
  have "best_of ph skip (seen @ [h]) n ?b"
    by (rule best_of_snoc [OF Cons.prems(2)])
  moreover have "users_live ph hs"
    using Cons.prems(1) by (simp add: users_live_def)
  ultimately obtain b' where "scan_hits ph skip hs (Suc (length seen)) ?b = Some b'" "best_of ph skip (seen @ h # hs) n b'"
    using Cons.IH [of "seen @ [h]" ?b] by auto
  then show ?case
    using scan_hits_step [of h ph skip hs "length seen" b] Cons.prems(1) by (simp add: users_live_def)
qed simp

lemma scan_hits_nearest:
  assumes "users_live ph hits"
  shows "\<exists>b. scan_hits ph skip hits 0 (0, n, 11 / 10) = Some b \<and> best_of ph skip hits n b"
  using scan_hits_best [OF assms, of skip "[]" n "(0, n, 11 / 10)"] by (simp add: best_of_def)

text \<open>The ray that ignores two entities returns the nearest other one it hits, the first of
  equally near ones, and 0 if every hit is ignored, anonymous or further than 1.1 times the
  ray; only in the first case is the hit remembered.\<close>

theorem RayCastIgnore_nearest:
  assumes "hits = eng_ray L (om_get zero_vec i (ph_positions ph))
      (eng_forward_target L (om_get zero_vec i (ph_positions ph)) (o_value (om_get new_orientation i (ph_orientations ph))))
      (ph\<lparr>last_rayvalid := False, last_rayfrom := om_get zero_vec i (ph_positions ph)\<rparr>)"
    and "users_live ph hits"
  shows "\<exists>e ph'. RayCastIgnore L i ign ph = Some (e, ph')
    \<and> (e = 0 \<longrightarrow> \<not> last_rayvalid ph' \<and> (\<forall>h \<in> set hits. counts ph {i, ign} h \<longrightarrow> 11 / 10 \<le> hit_fraction h))
    \<and> (e \<noteq> 0 \<longrightarrow> last_rayvalid ph' \<and> (\<exists>j < length hits. e = hit_entity ph (hits ! j) \<and> e \<notin> {i, ign}
         \<and> last_raypos ph' = hit_point (hits ! j)
         \<and> (\<forall>h \<in> set hits. counts ph {i, ign} h \<longrightarrow> hit_fraction (hits ! j) \<le> hit_fraction h)
         \<and> (\<forall>k < j. counts ph {i, ign} (hits ! k) \<longrightarrow> hit_fraction (hits ! j) < hit_fraction (hits ! k))))"
proof (cases "hits = []")
  case True
  then show ?thesis
    using assms(1) by (simp add: RayCastIgnore_def Let_def)
next
  case False
  let ?ph1 = "ph\<lparr>last_rayvalid := False, last_rayfrom := om_get zero_vec i (ph_positions ph)\<rparr>"
  have same: "hit_entity ?ph1 = hit_entity ph" "counts ?ph1 = counts ph" "users_live ?ph1 hits = users_live ph hits"
    by (simp_all add: hit_entity_def counts_def users_live_def fun_eq_iff split: option.split)
  obtain b where b: "scan_hits ?ph1 {i, ign} hits 0 (0, length hits, 11 / 10) = Some b"
    "best_of ?ph1 {i, ign} hits (length hits) b"
    using scan_hits_nearest [of ?ph1 hits "{i, ign}" "length hits"] assms(2) same(3) by blast
  obtain e j f where ejf: "b = (e, j, f)" by (cases b)
  have r: "RayCastIgnore L i ign ph = Some (if j < length hits then (e, remember_hit L (hits ! j) ?ph1) else (0, ?ph1))"
    using b(1) False by (simp add: RayCastIgnore_def Let_def assms(1) [symmetric] ejf)
  show ?thesis
    using b(2) unfolding r ejf best_of_def same
    by (auto simp: remember_hit_def counts_def intro!: exI [of _ j])
qed

text \<open>One entity hit by two rays: the body 0 of the entity 7.\<close>

definition two_hits :: "unit engine" where
  "two_hits = \<lparr>eng_shapes = \<lparr>make_box = (\<lambda>x y z. ()), make_sphere = (\<lambda>r. ()), make_capsule = (\<lambda>r h. ()),
       shape_type_of = (\<lambda>_. Other_type), half_extents = (\<lambda>_. zero_vec), sphere_radius = (\<lambda>_. 0),
       capsule_radius = (\<lambda>_. 0), capsule_height = (\<lambda>_. 0)\<rparr>,
     eng_finite = (\<lambda>_. True), eng_moves = (\<lambda>_ _. []),
     eng_ray = (\<lambda>from target ph. if ph_colls ph 0 = None then [] else
       [\<lparr>hit_fraction = 1 / 2, hit_user = Some 0, hit_point = from, hit_normal = from\<rparr>,
        \<lparr>hit_fraction = 1 / 3, hit_user = Some 0, hit_point = target, hit_normal = from\<rparr>]),
     eng_mouse_target = (\<lambda>_ _ _ _ _. zero_vec), eng_forward_target = (\<lambda>_ _. \<lparr>vx = 1, vy = 0, vz = 0\<rparr>),
     eng_distance = (\<lambda>_ _. 1), eng_gravity = zero_vec, eng_euler = (\<lambda>_. zero_vec),
     eng_complete3 = (\<lambda>_ _ _. o_value new_orientation)\<rparr>"

definition ball :: "rat p_component" where
  "ball = P_collision_body \<lparr>pc_disable_deactivation = None, pc_disable_rotation = None,
     pc_shape = P_sphere 1, pc_mass = Some 1\<rparr>"

definition one_ball :: "unit physics" where
  "one_ball = new_physics\<lparr>ph_colls := [0 \<mapsto> \<lparr>co_body = new_collision_body\<lparr>cb_entity_id := 7\<rparr>,
     co_transform = identity_transform, co_updated = True\<rparr>]\<rparr>"

theorem RayCastIgnore_nearest_witness:
  "\<exists>ph'. RayCastIgnore two_hits 1 2 one_ball = Some (7, ph') \<and> last_raypos ph' = \<lparr>vx = 1, vy = 0, vz = 0\<rparr>"
proof -
  let ?hits = "eng_ray two_hits zero_vec \<lparr>vx = 1, vy = 0, vz = 0\<rparr> one_ball"
  have "users_live one_ball ?hits"
    by (simp add: users_live_def two_hits_def one_ball_def)
  with RayCastIgnore_nearest [of ?hits two_hits 1 one_ball 2]
  obtain e ph' where r: "RayCastIgnore two_hits 1 2 one_ball = Some (e, ph')"
    and none: "e = 0 \<longrightarrow> (\<forall>h \<in> set ?hits. counts one_ball {1, 2} h \<longrightarrow> 11 / 10 \<le> hit_fraction h)"
    and hit: "e \<noteq> 0 \<longrightarrow> (\<exists>j < length ?hits. e = hit_entity one_ball (?hits ! j) \<and> last_raypos ph' = hit_point (?hits ! j)
       \<and> (\<forall>h \<in> set ?hits. counts one_ball {1, 2} h \<longrightarrow> hit_fraction (?hits ! j) \<le> hit_fraction h))"
    by (auto simp: two_hits_def one_ball_def new_physics_def om_get_def)
  have two: "length ?hits = 2" "hit_fraction (?hits ! 0) = 1 / 2" "hit_fraction (?hits ! 1) = 1 / 3"
    "hit_point (?hits ! 1) = \<lparr>vx = 1, vy = 0, vz = 0\<rparr>" "hit_entity one_ball (?hits ! 1) = 7" "?hits ! 1 \<in> set ?hits"
    by (simp_all add: two_hits_def one_ball_def hit_entity_def)
  have c: "counts one_ball {1, 2} (?hits ! 1)"
    unfolding counts_def two(5) by simp
  have "\<not> 11 / 10 \<le> hit_fraction (?hits ! 1)"
    unfolding two(3) by simp
  then have "e \<noteq> 0"
    using none c two(6) by blast
  with hit obtain j where j: "j < 2" "e = hit_entity one_ball (?hits ! j)" "last_raypos ph' = hit_point (?hits ! j)"
    "hit_fraction (?hits ! j) \<le> 1 / 3"
    using c two(1,3,6) by metis
  then have "j = 1"
    using two(2) by (cases "j = 0") simp_all
  then show ?thesis
    using r j two(4,5) by simp
qed

subsection \<open>Runs\<close>

datatype phys_call =
    Call_created "rat p_entity"
  | Call_destroyed eid
  | Call_update rat "rat game_state"
  | Call_pick eid rat rat rat rat
  | Call_ignore eid eid
  | Call_gravity eid "rat vec3"

definition run_call :: "'s engine \<Rightarrow> phys_call \<Rightarrow> 's physics \<Rightarrow> 's physics option" where
  "run_call L call ph = (case call of
      Call_created e \<Rightarrow> ph_On_EntityCreated L e ph
    | Call_destroyed i \<Rightarrow> ph_On_EntityDestroyed i ph
    | Call_update delta state \<Rightarrow> map_option snd (ph_Update L delta state ph)
    | Call_pick i x y w h \<Rightarrow> map_option snd (RayCastMousePick L i x y w h ph)
    | Call_ignore i j \<Rightarrow> map_option snd (RayCastIgnore L i j ph)
    | Call_gravity i f \<Rightarrow> SetGravity i f ph)"

text \<open>The engine's ray test returns bodies of the world, which carry their user pointer.\<close>

definition rays_hit_world :: "'s engine \<Rightarrow> bool" where
  "rays_hit_world L \<longleftrightarrow> (\<forall>from target ph. \<forall>h \<in> set (eng_ray L from target ph). \<forall>c. hit_user h = Some c \<longrightarrow>
     (\<exists>a \<in> set (ph_world ph). \<exists>r. ph_rigids ph a = Some r \<and> rb_user r = c))"

fun shaped_call :: "phys_call \<Rightarrow> bool" where
  "shaped_call (Call_created e) = list_all has_shape (pe_components e)"
| "shaped_call _ = True"

lemma live_same:
  assumes "live_physics ph" and "ph_bodies ph' = ph_bodies ph" "ph_map ph' = ph_map ph" "ph_next ph' = ph_next ph"
    "ph_rigids ph' = ph_rigids ph" "ph_colls ph' = ph_colls ph" "ph_world ph' = ph_world ph"
  shows "live_physics ph'"
  using assms(1) unfolding live_physics_def assms(2-) .

lemma users_live_world:
  assumes "rays_hit_world L" and "live_physics ph"
  shows "users_live ph (eng_ray L from target ph)"
  using assms(1) live_physicsD(5) [OF assms(2)] unfolding rays_hit_world_def users_live_def by fastforce

lemma create_component_live:
  assumes "live_physics ph" and "has_shape component"
  shows "\<exists>ph'. create_component L i component ph = Some ph' \<and> live_physics ph'"
proof (cases component)
  case (P_collision_body c)
  then show ?thesis using create_body_live [OF assms(1), of c] assms(2) by (simp add: has_shape_def)
qed (use assms(1) in \<open>auto simp: create_component_def intro: live_same [OF assms(1)]\<close>)

lemma create_components_live:
  "live_physics ph \<Longrightarrow> list_all has_shape cs \<Longrightarrow> \<exists>ph'. create_components L i cs ph = Some ph' \<and> live_physics ph'"
proof (induction cs arbitrary: ph)
  case (Cons c cs)
  then show ?case using create_component_live [of ph c L i] by fastforce
qed simp

lemma destroyed_live:
  assumes "live_physics ph"
  shows "\<exists>ph'. ph_On_EntityDestroyed i ph = Some ph' \<and> live_physics ph'"
proof -
  note l = live_physicsD [OF assms]
  let ?ph1 = "ph\<lparr>ph_map := om_erase i (ph_map ph)\<rparr>"
  have rem: "RemoveRigidBody i ?ph1 = Some (without_body i ?ph1)"
    by (rule RemoveRigidBody_without) (use l(3) in simp)
  obtain ph' where ph': "ph_On_EntityDestroyed i ph = Some ph'"
    "ph_bodies ph' = om_erase i (ph_bodies ph)" "ph_map ph' = om_erase i (ph_map ph)"
    "ph_rigids ph' = ph_rigids (without_body i ph)" "ph_colls ph' = ph_colls ph"
    "set (ph_world ph') = {b \<in> set (ph_world ph). map_of (ph_bodies ph) i \<noteq> Some (Some b)}" "ph_next ph' = ph_next ph"
    by (simp add: ph_On_EntityDestroyed_def rem) (auto simp: without_body_def cong: if_cong)
  have R: "ph_rigids ph' b = (if map_of (ph_bodies ph) i = Some (Some b) then None else ph_rigids ph b)" for b
    by (simp add: ph'(4))
  have "live_physics ph'"
    unfolding live_physics_def
  proof (intro conjI allI impI)
    show "wf_omap (ph_bodies ph')" "wf_omap (ph_map ph')"
      using l(1,2) by (simp_all add: ph' wf_om_erase)
    show "\<exists>a. x = Some a \<and> ph_rigids ph' a \<noteq> None" if "map_of (ph_bodies ph') j = Some x" for j x
      using that l(3) [of j x] l(4) [of j _ i] by (force simp: ph'(2) R split: if_splits)
    show "j = k" if "map_of (ph_bodies ph') j = Some (Some b)" "map_of (ph_bodies ph') k = Some (Some b)" for j k b
      using that l(4) [of j b k] by (simp add: ph'(2) split: if_splits)
    show "ph_colls ph' (rb_user q) \<noteq> None" if "ph_rigids ph' b = Some q" for b q
      using that l(5) [of b q] by (auto simp: R ph'(5) split: if_splits)
    show "\<exists>j. map_of (ph_bodies ph') j = Some (Some b)" if "ph_rigids ph' b = Some q" for b q
      using that l(6) [of b q] by (auto simp: R ph'(2) split: if_splits)
    show "\<exists>d. x = Some d \<and> ph_colls ph' d \<noteq> None" if "map_of (ph_map ph') j = Some x" for j x
      using that l(7) [of j x] by (auto simp: ph'(3,5) split: if_splits)
    show "map_of (ph_bodies ph') j \<noteq> None" if "map_of (ph_map ph') j = Some x" for j x
      using that l(8) [of j x] by (simp add: ph'(2,3) split: if_splits)
    show "set (ph_world ph') \<subseteq> dom (ph_rigids ph')"
      using l(9) by (auto simp: ph'(6) R)
    show "ph_rigids ph' b = None" "ph_colls ph' b = None" if "ph_next ph' \<le> b" for b
      using l(10,11) [of b] that by (simp_all add: R ph'(5,7))
  qed
  then show ?thesis using ph'(1) by blast
qed

lemma scan_hits_defined: "users_live ph hits \<Longrightarrow> \<exists>e j f. scan_hits ph skip hits i b = Some (e, j, f)"
proof (induction hits arbitrary: i b)
  case (Cons h hs)
  then show ?case by (auto simp: users_live_def Let_def split: option.split)
qed (cases b; auto)

lemma remember_hit_live: "live_physics ph \<Longrightarrow> live_physics (remember_hit L h ph)"
  by (erule live_same) (simp_all add: remember_hit_def)

lemma RayCastIgnore_live:
  assumes L: "rays_hit_world L" and live: "live_physics ph"
  shows "\<exists>e ph'. RayCastIgnore L i j ph = Some (e, ph') \<and> live_physics ph'"
proof -
  define src where "src = om_get zero_vec i (ph_positions ph)"
  define ph1 where "ph1 = ph\<lparr>last_rayvalid := False, last_rayfrom := src\<rparr>"
  define hits where "hits = eng_ray L src (eng_forward_target L src (o_value (om_get new_orientation i (ph_orientations ph)))) ph1"
  have l1: "live_physics ph1"
    by (rule live_same [OF live]) (simp_all add: ph1_def)
  then have "users_live ph1 hits"
    unfolding hits_def by (rule users_live_world [OF L])
  then obtain e k f where "scan_hits ph1 {i, j} hits 0 (0, length hits, 11 / 10) = Some (e, k, f)"
    using scan_hits_defined by blast
  moreover have "RayCastIgnore L i j ph = (if hits = [] then Some (0, ph1)
      else case scan_hits ph1 {i, j} hits 0 (0, length hits, 11 / 10) of None \<Rightarrow> None
        | Some (entity_hit, index, _) \<Rightarrow>
            Some (if index < length hits then (entity_hit, remember_hit L (hits ! index) ph1) else (0, ph1)))"
    by (simp add: RayCastIgnore_def Let_def hits_def ph1_def src_def split: option.split prod.split)
  ultimately show ?thesis
    using l1 remember_hit_live [OF l1] by auto
qed

lemma RayCastMousePick_live:
  assumes L: "rays_hit_world L" and live: "live_physics ph"
  shows "\<exists>e ph'. RayCastMousePick L i x y w h ph = Some (e, ph') \<and> live_physics ph'"
proof (cases "i = 0 \<or> map_of (ph_bodies ph) i = None")
  case True
  then show ?thesis using live by (auto simp: RayCastMousePick_def)
next
  case False
  then obtain a r body where a: "map_of (ph_bodies ph) i = Some (Some a)" "ph_rigids ph a = Some r"
    "ph_colls ph (rb_user r) = Some body"
    using live_physicsD(3,5) [OF live] by blast
  define ph1 where "ph1 = ph\<lparr>last_rayvalid := False, last_entity_hit := 0\<rparr>"
  define ph2 where "ph2 = ph1\<lparr>last_rayfrom := tr_origin (co_transform body)\<rparr>"
  define hits where "hits = eng_ray L (tr_origin (co_transform body)) (eng_mouse_target L (co_transform body) x y w h) ph2"
  have l1: "live_physics ph1" and l2: "live_physics ph2"
    by (rule live_same [OF live]; simp add: ph1_def ph2_def)+
  have "users_live ph2 hits"
    unfolding hits_def by (rule users_live_world [OF L l2])
  then obtain e k f where scan: "scan_hits ph2 {i} hits 0 (0, length hits, 11 / 10) = Some (e, k, f)"
    using scan_hits_defined by blast
  let ?ph3 = "ph2\<lparr>last_entity_hit := e\<rparr>"
  have l3: "live_physics ?ph3"
    by (rule live_same [OF l2]) simp_all
  have "RayCastMousePick L i x y w h ph = (if h = 0 then Some (0, ph1)
      else if hits = [] then Some (last_entity_hit ph2, ph2)
      else let ph4 = (if k < length hits then remember_hit L (hits ! k) ?ph3 else ?ph3) in Some (last_entity_hit ph4, ph4))"
    using False a scan
    by (simp add: RayCastMousePick_def Let_def hits_def [symmetric] ph1_def [symmetric] ph2_def [symmetric])
  then show ?thesis
    using l1 l2 l3 remember_hit_live [OF l3] by (simp add: Let_def)
qed

lemma run_call_live:
  assumes L: "rays_hit_world L" and live: "live_physics ph" and call: "shaped_call c"
  shows "\<exists>ph'. run_call L c ph = Some ph' \<and> live_physics ph'"
proof (cases c)
  case (Call_created e)
  then show ?thesis
    using create_components_live [OF live] call by (simp add: run_call_def ph_On_EntityCreated_def)
next
  case (Call_destroyed i)
  then show ?thesis using destroyed_live [OF live] by (simp add: run_call_def)
next
  case (Call_update delta state)
  then show ?thesis using ph_Update_live [OF live, of L delta state] by (auto simp: run_call_def)
next
  case (Call_gravity i f)
  have put: "live_physics (put_rigid a (r\<lparr>rb_gravity := f\<rparr>) ph)" if "ph_rigids ph a = Some r" for a r
    using live_put_rigid [OF live that, of "r\<lparr>rb_gravity := f\<rparr>" "ph_world ph"] by auto
  show ?thesis
    using Call_gravity live live_physicsD(3) [OF live, of i] put
    by (auto simp: run_call_def SetGravity_def split: option.split)
next
  case (Call_ignore i j)
  then show ?thesis using RayCastIgnore_live [OF L live, of i j] by (auto simp: run_call_def)
next
  case (Call_pick i x y w h)
  then show ?thesis using RayCastMousePick_live [OF L live, of i x y w h] by (auto simp: run_call_def)
qed

interpretation physics: safe_system "run_call L" live_physics "\<lambda>c. rays_hit_world L \<and> shaped_call c" for L
  by unfold_locales (use run_call_live in blast)

text \<open>As long as every collision body that is created has a shape, no sequence of creations,
  destructions, updates, ray tests and changes of gravity accesses a body that was deleted or
  a null pointer, given that the engine's rays hit bodies of its world; and the system keeps
  exactly one rigid body for each entry of its table, and nothing else.\<close>

theorem physics_memory_safe:
  assumes "rays_hit_world L" and "list_all shaped_call cs"
  shows "\<exists>ph. each (run_call L) cs new_physics = Some ph
    \<and> (\<forall>a. ph_rigids ph a \<noteq> None \<longleftrightarrow> (\<exists>i. map_of (ph_bodies ph) i = Some (Some a)))
    \<and> (\<forall>i. ph_GetPosition i ph \<noteq> None \<and> map_of (ph_bodies ph) i \<noteq> Some None)"
proof -
  obtain ph where ph: "each (run_call L) cs new_physics = Some ph" and live: "live_physics ph"
    using physics.run_safe [OF live_new_physics, of cs L] assms by (auto simp: list_all_iff)
  note l = live_physicsD [OF live]
  have "ph_rigids ph a \<noteq> None \<longleftrightarrow> (\<exists>i. map_of (ph_bodies ph) i = Some (Some a))" for a
    using l(3) l(6) by fastforce
  moreover have "ph_GetPosition i ph \<noteq> None \<and> map_of (ph_bodies ph) i \<noteq> Some None" for i
    using l(3) [of i] by (auto simp: ph_GetPosition_def split: option.split)
  ultimately show ?thesis
    using ph by blast
qed

text \<open>Creating an entity that has a body again, with a collision body without a shape, deletes
  the rigid body and keeps the pointer to it: the next read of the entity's position, and
  destroying the entity, access the deleted body.\<close>

theorem shapeless_body_dangles:
  assumes "live_physics ph" and "map_of (ph_bodies ph) i = Some (Some a)" and "pc_shape c = P_no_shape"
  shows "\<exists>ph'. create_component L i (P_collision_body c) ph = Some ph'
    \<and> ph_GetPosition i ph' = None \<and> ph_On_EntityDestroyed i ph' = None"
proof -
  let ?n = "ph_next ph"
  let ?b = "(CollisionBody_In (eng_shapes L) c new_collision_body)\<lparr>cb_entity_id := i\<rparr>"
  let ?coll = "\<lparr>co_body = ?b, co_transform = identity_transform, co_updated = True\<rparr>"
  define ph1 where "ph1 = (put_coll ?n ?coll ph)\<lparr>ph_next := ?n + 1, ph_map := om_put i (Some ?n) (ph_map ph)\<rparr>"
  have none: "cb_shape ?b = None"
    using assms(3) by (simp add: CollisionBody_In_def Let_def new_collision_body_def)
  have ph1: "ph_bodies ph1 = ph_bodies ph" "ph_rigids ph1 = ph_rigids ph" "ph_colls ph1 ?n = Some ?coll"
    by (simp_all add: ph1_def put_coll_def)
  have "RemoveRigidBody i ph1 = Some (without_body i ph1)"
    by (rule RemoveRigidBody_without) (use live_physicsD(3) [OF assms(1)] in \<open>simp add: ph1\<close>)
  then have "AddRigidBody L ?n ph1 = Some (False, without_body i ph1)"
    using none by (simp add: AddRigidBody_def ph1(3) Let_def)
  then have "create_component L i (P_collision_body c) ph = Some (without_body i ph1)"
    by (simp add: create_component_def Let_def ph1_def)
  moreover have "ph_GetPosition i (without_body i ph1) = None"
    using assms(2) by (simp add: ph_GetPosition_def ph1)
  moreover have "ph_On_EntityDestroyed i (without_body i ph1) = None"
    using assms(2) by (simp add: ph_On_EntityDestroyed_def RemoveRigidBody_def ph1)
  ultimately show ?thesis by blast
qed

text \<open>
  A collision body without a rigid body gets a null entry in the table when the state has its
  position, which a pick from that entity and a change of its gravity dereference.
\<close>

lemma null_body_dereferenced:
  assumes "map_of (ph_bodies ph) i = None" and "wf_omap (ph_bodies ph)" and "ph_colls ph c = Some coll"
    and "map_of (positions state) i = Some p" and "i \<noteq> 0"
  shows "\<exists>ph'. sync_entity L state (i, Some c) ph = Some ph'
    \<and> RayCastMousePick L i x y w h ph' = None \<and> SetGravity i f ph' = None"
  using assms by (auto simp: sync_entity_def Let_def put_coll_def RayCastMousePick_def SetGravity_def)

definition ball_entity :: "rat p_entity" where
  "ball_entity = \<lparr>pe_id = 7, pe_components = [ball]\<rparr>"

definition no_rays :: "unit engine" where
  "no_rays = two_hits\<lparr>eng_ray := (\<lambda>_ _ _. [])\<rparr>"

theorem physics_memory_safe_witness:
  "\<exists>ph. each (run_call no_rays) [Call_created ball_entity, Call_update 1 new_game_state, Call_destroyed 7] new_physics = Some ph
     \<and> ph_GetPosition 7 ph \<noteq> None"
  using physics_memory_safe [of no_rays "[Call_created ball_entity, Call_update 1 new_game_state, Call_destroyed 7]"]
  by (force simp: rays_hit_world_def no_rays_def ball_entity_def ball_def has_shape_def)

text \<open>The system after the ball was created.\<close>

definition ball_there :: "unit physics" where
  "ball_there = the (create_component no_rays 7 ball new_physics)"

lemma ball_there_live: "live_physics ball_there \<and> map_of (ph_bodies ball_there) 7 = Some (Some 1)"
proof -
  obtain ph where ph: "create_component no_rays 7 ball new_physics = Some ph" "live_physics ph"
    using create_body_live [OF live_new_physics, of "\<lparr>pc_disable_deactivation = None, pc_disable_rotation = None,
      pc_shape = P_sphere 1, pc_mass = Some 1\<rparr>" no_rays 7] by (auto simp: ball_def)
  moreover have "map_of (ph_bodies ph) 7 = Some (Some 1)"
    using ph(1) by (simp add: create_component_def ball_def AddRigidBody_def RemoveRigidBody_def new_physics_def Let_def
        put_coll_def put_rigid_def CollisionBody_In_def SetSphereShape_def) auto
  ultimately show ?thesis by (simp add: ball_there_def)
qed

theorem shapeless_body_dangles_witness:
  "\<exists>ph'. create_component no_rays 7 (P_collision_body \<lparr>pc_disable_deactivation = None, pc_disable_rotation = None,
       pc_shape = P_no_shape, pc_mass = None\<rparr>) ball_there = Some ph' \<and> ph_GetPosition 7 ph' = None"
  using shapeless_body_dangles [of ball_there 7 1 "\<lparr>pc_disable_deactivation = None, pc_disable_rotation = None,
       pc_shape = P_no_shape, pc_mass = None\<rparr>" no_rays] ball_there_live
  by auto

end
