(* ===== verification/Mesh_Data.thy ===== *)
theory Mesh_Data
  imports Game_State
begin

text \<open>
  Meshes (common/resources/mesh.hpp): vertices, optional colours and weights, and object
  groups of indices with their material groups. A mesh owns its object groups and a mesh file
  its meshes, each once, so they are values here. The type \<open>'f\<close> is that of the numbers.
\<close>

record 'f vec2 =
  ux :: 'f
  uy :: 'f

record 'f vertex =
  vt_position :: "'f vec3"
  vt_normal :: "'f vec3"
  vt_uv :: "'f vec2"

definition new_vertex :: "'f \<Rightarrow> 'f vertex" where
  "new_vertex z = \<lparr>vt_position = \<lparr>vx = z, vy = z, vz = z\<rparr>, vt_normal = \<lparr>vx = z, vy = z, vz = z\<rparr>,
     vt_uv = \<lparr>ux = z, uy = z\<rparr>\<rparr>"

record 'f weight_data =
  wd_weights :: "'f list"
  wd_indices :: "nat list"

definition new_weight_data :: "'f \<Rightarrow> 'f weight_data" where
  "new_weight_data z = \<lparr>wd_weights = [z, z, z, z], wd_indices = [0, 0, 0, 0]\<rparr>"

record material_group =
  mg_start :: nat
  mg_count :: nat
  mg_material :: string
  mg_textures :: "string list"

definition new_material_group :: material_group where
  "new_material_group = \<lparr>mg_start = 0, mg_count = 0, mg_material = [], mg_textures = []\<rparr>"

record object_group =
  og_indices :: "nat list"
  og_materials :: "material_group list"

definition new_object_group :: object_group where
  "new_object_group = \<lparr>og_indices = [], og_materials = []\<rparr>"

text \<open>A colour is the list of its four components.\<close>

record 'f mesh =
  ms_verts :: "'f vertex list"
  ms_colors :: "'f list list"
  ms_weights :: "'f weight_data list"
  ms_has_color :: bool
  ms_has_weight :: bool
  ms_objects :: "object_group list"

definition new_mesh :: "'f mesh" where
  "new_mesh = \<lparr>ms_verts = [], ms_colors = [], ms_weights = [], ms_has_color = False, ms_has_weight = False,
     ms_objects = []\<rparr>"

text \<open>\<open>std::vector::resize\<close>: cut off, or filled up with new elements.\<close>

definition resize_list :: "'a \<Rightarrow> nat \<Rightarrow> 'a list \<Rightarrow> 'a list" where
  "resize_list d n xs = take n xs @ replicate (n - length xs) d"

lemma length_resize_list [simp]: "length (resize_list d n xs) = n"
  by (simp add: resize_list_def)

lemma nth_resize_list: "i < n \<Longrightarrow> resize_list d n xs ! i = (if i < length xs then xs ! i else d)"
  by (simp add: resize_list_def nth_append)

definition mesh_resize :: "'f \<Rightarrow> nat \<Rightarrow> 'f mesh \<Rightarrow> 'f mesh" where
  "mesh_resize z n m =
     (let m1 = m\<lparr>ms_verts := resize_list (new_vertex z) n (ms_verts m)\<rparr>;
          m2 = (if ms_has_color m1 then m1\<lparr>ms_colors := resize_list [z, z, z, z] n (ms_colors m1)\<rparr> else m1)
      in if ms_has_weight m2 then m2\<lparr>ms_weights := resize_list (new_weight_data z) n (ms_weights m2)\<rparr> else m2)"

definition vert_count :: "'f mesh \<Rightarrow> nat" where
  "vert_count m = length (ms_verts m)"

record 'f mesh_file =
  mf_meshes :: "'f mesh list"
  mf_name :: string
  mf_dirty :: bool

definition CreateMesh :: "'f mesh_file \<Rightarrow> 'f mesh_file" where
  "CreateMesh f = f\<lparr>mf_meshes := mf_meshes f @ [new_mesh]\<rparr>"

definition GetMesh :: "nat \<Rightarrow> 'f mesh_file \<Rightarrow> 'f mesh option" where
  "GetMesh i f = (if i < length (mf_meshes f) then Some (mf_meshes f ! i) else None)"

text \<open>
  What the renderer relies on: indices point to vertices, material groups are ranges of the
  indices, and the colour and weight arrays are as long as the vertex array if they are used.
\<close>

definition wf_object :: "nat \<Rightarrow> object_group \<Rightarrow> bool" where
  "wf_object n g \<longleftrightarrow> (\<forall>i \<in> set (og_indices g). i < n)
     \<and> (\<forall>mg \<in> set (og_materials g). mg_start mg + mg_count mg \<le> length (og_indices g))"

definition wf_mesh :: "'f mesh \<Rightarrow> bool" where
  "wf_mesh m \<longleftrightarrow> (ms_has_color m \<longrightarrow> length (ms_colors m) = vert_count m)
     \<and> (ms_has_weight m \<longrightarrow> length (ms_weights m) = vert_count m)
     \<and> (\<forall>g \<in> set (ms_objects m). wf_object (vert_count m) g)"

lemma wf_mesh_resize:
  assumes "wf_mesh m" and "vert_count m \<le> n"
  shows "wf_mesh (mesh_resize z n m) \<and> vert_count (mesh_resize z n m) = n"
  using assms by (fastforce simp: wf_mesh_def mesh_resize_def Let_def vert_count_def wf_object_def)

end
