(* ===== verification/Decimal.thy ===== *)
theory Decimal
  imports Tec_Prelude
begin

text \<open>
  Numbers as text: \<open>std::to_string\<close> and \<open>std::atoi\<close>, with which entity identifiers are sent
  in messages, and the bytes of a string. A value that \<open>atoi\<close> cannot represent in an \<open>int\<close> is
  undefined behaviour of the C library: \<open>None\<close>.
\<close>

definition digit :: "nat \<Rightarrow> char" where
  "digit n = char_of (48 + n)"

fun to_string :: "nat \<Rightarrow> string" where
  "to_string n = (if n < 10 then [digit n] else to_string (n div 10) @ [digit (n mod 10)])"

declare to_string.simps [simp del]

definition is_digit :: "char \<Rightarrow> bool" where
  "is_digit c \<longleftrightarrow> 48 \<le> (of_char c :: nat) \<and> (of_char c :: nat) \<le> 57"

definition is_space :: "char \<Rightarrow> bool" where
  "is_space c \<longleftrightarrow> of_char c = (32 :: nat) \<or> (9 \<le> (of_char c :: nat) \<and> (of_char c :: nat) \<le> 13)"

definition digits_value :: "string \<Rightarrow> nat" where
  "digits_value s = foldl (\<lambda>v c. 10 * v + (of_char c - 48)) 0 (takeWhile is_digit s)"

definition INT_MAX :: int where "INT_MAX = 2147483647"

definition atoi :: "string \<Rightarrow> int option" where
  "atoi s =
     (let t = dropWhile is_space s;
          v = (case t of
              c # cs \<Rightarrow> if c = CHR ''-'' then - int (digits_value cs)
                else if c = CHR ''+'' then int (digits_value cs) else int (digits_value t)
            | [] \<Rightarrow> 0)
      in if - INT_MAX - 1 \<le> v \<and> v \<le> INT_MAX then Some v else None)"

definition bytes_of :: "string \<Rightarrow> byte list" where
  "bytes_of s = map of_char s"

definition string_of :: "byte list \<Rightarrow> string" where
  "string_of bs = map (\<lambda>b. char_of (unat b)) bs"

lemma string_of_bytes_of [simp]: "string_of (bytes_of s) = s"
proof -
  have "char_of (unat (of_char c :: byte)) = c" for c
  proof -
    have "(of_char c :: nat) < 2 ^ 8" by simp
    then have "unat (of_nat (of_char c) :: byte) = of_char c"
      by (simp add: unsigned_of_nat take_bit_nat_eq_self)
    then show ?thesis by (simp add: of_nat_of_char)
  qed
  then show ?thesis by (simp add: string_of_def bytes_of_def comp_def)
qed

lemma bytes_of_Nil [simp]: "bytes_of s = [] \<longleftrightarrow> s = []"
  by (simp add: bytes_of_def)

lemma to_string_not_Nil [simp]: "to_string n \<noteq> []"
  by (subst to_string.simps) simp

lemma of_char_digit: "n < 10 \<Longrightarrow> of_char (digit n) = (48 + n :: nat)"
  by (simp add: digit_def)

lemma to_string_digits: "c \<in> set (to_string n) \<Longrightarrow> is_digit c"
proof (induction n rule: to_string.induct)
  case (1 n)
  show ?case
  proof (cases "n < 10")
    case True
    then show ?thesis
      using "1.prems" by (subst (asm) to_string.simps) (simp add: is_digit_def of_char_digit)
  next
    case False
    then show ?thesis
      using 1 by (subst (asm) (2) to_string.simps) (auto simp: is_digit_def of_char_digit)
  qed
qed

lemma digits_value_append:
  "(\<forall>c \<in> set s. is_digit c) \<Longrightarrow> is_digit d \<Longrightarrow>
     digits_value (s @ [d]) = 10 * digits_value s + (of_char d - 48)"
proof -
  assume s: "\<forall>c \<in> set s. is_digit c" and d: "is_digit d"
  then have "takeWhile is_digit s = s" "takeWhile is_digit (s @ [d]) = s @ [d]"
    by (simp_all add: takeWhile_eq_all_conv)
  then show ?thesis
    by (simp only: digits_value_def) simp
qed

lemma digits_value_to_string: "digits_value (to_string n) = n"
proof (induction n rule: to_string.induct)
  case (1 n)
  show ?case
  proof (cases "n < 10")
    case True
    then show ?thesis
      by (subst to_string.simps) (simp add: digits_value_def is_digit_def of_char_digit)
  next
    case False
    then have "to_string n = to_string (n div 10) @ [digit (n mod 10)]"
      by (subst to_string.simps) simp
    then show ?thesis
      using 1 [OF False] to_string_digits [of _ "n div 10"]
      by (simp add: digits_value_append is_digit_def of_char_digit)
  qed
qed

lemma atoi_to_string: "atoi (to_string n) = (if int n \<le> INT_MAX then Some (int n) else None)"
proof -
  obtain c cs where s: "to_string n = c # cs"
    by (meson list.exhaust to_string_not_Nil)
  have d: "is_digit c" using to_string_digits [of c n] s by simp
  then have "\<not> is_space c" "c \<noteq> CHR ''-''" "c \<noteq> CHR ''+''"
    by (auto simp: is_digit_def is_space_def)
  moreover have "digits_value (c # cs) = n"
    using digits_value_to_string [of n] s by simp
  ultimately show ?thesis
    by (simp add: atoi_def s INT_MAX_def)
qed

end
