(* ===== verification/Text_Stream.thy ===== *)
theory Text_Stream
  imports Complex_Main Decimal
begin

text \<open>
  \<open>std::istringstream\<close> as the parsers of resources use it: formatted extraction of words,
  integers and floating point numbers, with the \<open>eof\<close> and \<open>fail\<close> bits. An extraction that
  cannot start (the sentry fails) leaves its variable as it was; one that starts and fails
  stores 0, or the limit of the type. Floating point numbers are rationals. The lemmas say what
  extraction does to text that \<open>to_string\<close> wrote.
\<close>

subsection \<open>Streams\<close>

record istream =
  is_rest :: string
  is_eof :: bool
  is_fail :: bool

definition istr :: "string \<Rightarrow> istream" where
  "istr s = \<lparr>is_rest = s, is_eof = False, is_fail = False\<rparr>"

text \<open>The sentry skips white space; it fails on a stream that is not good and at the end.\<close>

definition sentry :: "istream \<Rightarrow> bool \<times> istream" where
  "sentry s =
     (if is_eof s \<or> is_fail s then (False, s\<lparr>is_fail := True\<rparr>)
      else let r = dropWhile is_space (is_rest s) in
        if r = [] then (False, s\<lparr>is_rest := [], is_eof := True, is_fail := True\<rparr>)
        else (True, s\<lparr>is_rest := r\<rparr>))"

definition consume :: "string \<Rightarrow> bool \<Rightarrow> istream \<Rightarrow> istream" where
  "consume r failed s = s\<lparr>is_rest := r, is_eof := (r = []), is_fail := failed\<rparr>"

text \<open>\<open>stream >> word\<close>, with the value of the variable before.\<close>

definition get_word :: "string \<Rightarrow> istream \<Rightarrow> string \<times> istream" where
  "get_word old s = (case sentry s of
      (False, s1) \<Rightarrow> (old, s1)
    | (True, s1) \<Rightarrow>
        (takeWhile (\<lambda>c. \<not> is_space c) (is_rest s1),
         consume (dropWhile (\<lambda>c. \<not> is_space c) (is_rest s1)) False s1))"

definition take_sign :: "string \<Rightarrow> bool \<times> string" where
  "take_sign s = (case s of
      c # cs \<Rightarrow> if c = CHR ''-'' then (True, cs) else if c = CHR ''+'' then (False, cs) else (False, s)
    | [] \<Rightarrow> (False, s))"

text \<open>\<open>unsigned int\<close> of 32 bits: a minus sign negates modulo 2^32.\<close>

definition get_unsigned :: "u32 \<Rightarrow> istream \<Rightarrow> u32 \<times> istream" where
  "get_unsigned old s = (case sentry s of
      (False, s1) \<Rightarrow> (old, s1)
    | (True, s1) \<Rightarrow>
        (case take_sign (is_rest s1) of (neg, r) \<Rightarrow>
           let ds = takeWhile is_digit r; rest = dropWhile is_digit r; v = digits_value ds in
           if ds = [] then (0, consume rest True s1)
           else if 4294967295 < v then (4294967295, consume rest True s1)
           else (if neg then - of_nat v else of_nat v, consume rest False s1)))"

definition get_int :: "int \<Rightarrow> istream \<Rightarrow> int \<times> istream" where
  "get_int old s = (case sentry s of
      (False, s1) \<Rightarrow> (old, s1)
    | (True, s1) \<Rightarrow>
        (case take_sign (is_rest s1) of (neg, r) \<Rightarrow>
           let ds = takeWhile is_digit r; rest = dropWhile is_digit r;
               v = (if neg then - int (digits_value ds) else int (digits_value ds)) in
           if ds = [] then (0, consume rest True s1)
           else if INT_MAX < v then (INT_MAX, consume rest True s1)
           else if v < - INT_MAX - 1 then (- INT_MAX - 1, consume rest True s1)
           else (v, consume rest False s1)))"

text \<open>
  \<open>float\<close>: sign, digits with at most one point, and an exponent once a digit was seen. The
  characters are accumulated first and then converted, so that an exponent without digits
  makes the whole conversion fail.
\<close>

definition read_exponent :: "string \<Rightarrow> int option \<times> string" where
  "read_exponent s = (case s of
      c # cs \<Rightarrow>
        if c = CHR ''e'' \<or> c = CHR ''E'' then
          (case take_sign cs of (neg, r) \<Rightarrow>
             let ds = takeWhile is_digit r; v = int (digits_value ds) in
             (if ds = [] then None else Some (if neg then - v else v), dropWhile is_digit r))
        else (Some 0, s)
    | [] \<Rightarrow> (Some 0, s))"

definition power10 :: "int \<Rightarrow> rat" where
  "power10 e = (if 0 \<le> e then 10 ^ nat e else 1 / 10 ^ nat (- e))"

definition get_float :: "rat option \<Rightarrow> istream \<Rightarrow> rat option \<times> istream" where
  "get_float old s = (case sentry s of
      (False, s1) \<Rightarrow> (old, s1)
    | (True, s1) \<Rightarrow>
        (case take_sign (is_rest s1) of (neg, r) \<Rightarrow>
           let whole = takeWhile is_digit r; r1 = dropWhile is_digit r;
               (fraction, r2) = (case r1 of
                   c # cs \<Rightarrow> if c = CHR ''.'' then (takeWhile is_digit cs, dropWhile is_digit cs) else ([], r1)
                 | [] \<Rightarrow> ([], r1));
               m = of_nat (digits_value (whole @ fraction)) / 10 ^ length fraction :: rat
           in if whole @ fraction = [] then (Some 0, consume r2 True s1)
              else (case read_exponent r2 of
                  (None, r3) \<Rightarrow> (Some 0, consume r3 True s1)
                | (Some e, r3) \<Rightarrow> (Some ((if neg then - m else m) * power10 e), consume r3 False s1))))"

subsection \<open>Lines\<close>

text \<open>\<open>std::getline\<close>, line by line; a last line needs no line feed.\<close>

function text_lines :: "string \<Rightarrow> string list" where
  "text_lines s = (if s = [] then []
     else takeWhile (\<lambda>c. c \<noteq> CHR 0x0A) s # text_lines (tl (dropWhile (\<lambda>c. c \<noteq> CHR 0x0A) s)))"
  by pat_completeness auto
termination
proof (relation "measure length")
  fix s :: string
  assume "s \<noteq> []"
  then have "length (tl (dropWhile (\<lambda>c. c \<noteq> CHR 0x0A) s)) < length s"
    using length_dropWhile_le [of "\<lambda>c. c \<noteq> CHR 0x0A" s] by (cases s) auto
  then show "(tl (dropWhile (\<lambda>c. c \<noteq> CHR 0x0A) s), s) \<in> measure length" by simp
qed simp

declare text_lines.simps [simp del]

subsection \<open>Reading what was written\<close>

lemma to_string_hd: "\<exists>c cs. to_string n = c # cs \<and> is_digit c"
  by (metis list.exhaust list.set_intros(1) to_string_digits to_string_not_Nil)

lemma digit_not_space: "is_digit c \<Longrightarrow> \<not> is_space c"
  by (auto simp: is_digit_def is_space_def)

lemma digit_not_sign: "is_digit c \<Longrightarrow> c \<noteq> CHR ''-'' \<and> c \<noteq> CHR ''+''"
  by (auto simp: is_digit_def)

text \<open>A number, after white space and before something that is not a digit.\<close>

lemma get_unsigned_to_string:
  assumes "is_eof s = False" and "is_fail s = False" and "is_rest s = w @ to_string n @ rest"
    and "\<forall>c \<in> set w. is_space c" and "rest = [] \<or> \<not> is_digit (hd rest)" and "n < 2 ^ 32"
  shows "get_unsigned old s = (of_nat n, consume rest False s)"
proof -
  obtain c cs where n: "to_string n = c # cs" and c: "is_digit c"
    using to_string_hd by blast
  have "dropWhile is_space (is_rest s) = to_string n @ rest"
    using assms(3,4) digit_not_space [OF c] by (simp add: n dropWhile_append2)
  then have sentry: "sentry s = (True, s\<lparr>is_rest := to_string n @ rest\<rparr>)"
    using assms(1,2) by (simp add: sentry_def Let_def)
  have sign: "take_sign (to_string n @ rest) = (False, to_string n @ rest)"
    using digit_not_sign [OF c] by (simp add: take_sign_def n)
  have all: "\<forall>d \<in> set (to_string n). is_digit d"
    using to_string_digits by blast
  have tw: "takeWhile is_digit (to_string n @ rest) = to_string n" "dropWhile is_digit (to_string n @ rest) = rest"
    using all assms(5) by (cases rest; simp add: takeWhile_append2 dropWhile_append2)+
  show ?thesis
    using assms(6) by (simp add: get_unsigned_def sentry sign tw Let_def digits_value_to_string consume_def)
qed

lemma get_word_plain:
  assumes "is_eof s = False" and "is_fail s = False" and "is_rest s = w @ x @ rest"
    and "\<forall>c \<in> set w. is_space c" and "x \<noteq> []" and "\<forall>c \<in> set x. \<not> is_space c" and "rest = [] \<or> is_space (hd rest)"
  shows "get_word old s = (x, consume rest False s)"
proof -
  have "dropWhile is_space (is_rest s) = x @ rest"
    using assms(3-6) by (cases x) (simp_all add: dropWhile_append2)
  then have "sentry s = (True, s\<lparr>is_rest := x @ rest\<rparr>)"
    using assms(1,2,5) by (simp add: sentry_def Let_def)
  moreover have "takeWhile (\<lambda>c. \<not> is_space c) (x @ rest) = x" "dropWhile (\<lambda>c. \<not> is_space c) (x @ rest) = rest"
    using assms(6,7) by (cases rest; simp add: takeWhile_append2 dropWhile_append2)+
  ultimately show ?thesis by (simp add: get_word_def consume_def del: dropWhile_eq_Nil_conv)
qed

text \<open>At the end of the text nothing is stored.\<close>

lemma get_blank:
  assumes "\<forall>c \<in> set (is_rest s). is_space c"
  shows "fst (get_word old_w s) = old_w" "fst (get_unsigned old_u s) = old_u" "fst (get_float old_f s) = old_f"
    "is_fail (snd (get_word old_w s))" "is_fail (snd (get_float old_f s))"
proof -
  have "dropWhile is_space (is_rest s) = []"
    using assms by (simp add: dropWhile_eq_Nil_conv)
  then have "\<not> fst (sentry s)" "is_fail (snd (sentry s))"
    by (simp_all add: sentry_def Let_def)
  then show "fst (get_word old_w s) = old_w" "fst (get_unsigned old_u s) = old_u" "fst (get_float old_f s) = old_f"
    "is_fail (snd (get_word old_w s))" "is_fail (snd (get_float old_f s))"
    by (auto simp: get_word_def get_unsigned_def get_float_def split: prod.split bool.split)
qed

lemma get_failed:
  assumes "is_fail s"
  shows "fst (get_float old s) = old" "is_fail (snd (get_float old s))"
  using assms by (simp_all add: get_float_def sentry_def)

end
