(* ===== verification/Vfs_Path.thy ===== *)
theory Vfs_Path
  imports Ordered_Map
begin

text \<open>
  \<open>Path\<close> of common/filesystem.hpp and common/filesystem.cpp: a device and a path string, the
  normalisation every constructor runs, the operations on names, appending, and the mapping
  of the virtual file system to native paths (the branches for Unix). Strings are the bytes
  of the C++ strings. The lemmas relate the string operations to the list of path elements.
\<close>

subsection \<open>Characters and splitting\<close>

definition SEP :: char where "SEP = CHR ''/''"
definition WIN_SEP :: char where "WIN_SEP = CHR 0x5C"

definition is_alpha :: "char \<Rightarrow> bool" where
  "is_alpha c \<longleftrightarrow> (let n = of_char c :: nat in 65 \<le> n \<and> n \<le> 90 \<or> 97 \<le> n \<and> n \<le> 122)"

text \<open>The characters of the expression \<open>special\<close> in \<open>NormalizePath\<close>.\<close>

definition special_char :: "char \<Rightarrow> bool" where
  "special_char c \<longleftrightarrow> (of_char c :: nat) \<le> 31 \<or> c \<in> {CHR '':'', CHR ''>'', CHR ''*'', CHR ''?'', CHR 0x22,
     CHR ''<'', CHR ''|''}"

text \<open>
  Repeated \<open>std::getline(f, s, '/')\<close> on a stream of the whole string: the text before each
  separator, and what follows the last one unless it is empty.
\<close>

function getlines :: "string \<Rightarrow> string list" where
  "getlines t = (if t = [] then [] else takeWhile (\<lambda>c. c \<noteq> SEP) t #
     (case dropWhile (\<lambda>c. c \<noteq> SEP) t of [] \<Rightarrow> [] | _ # rest \<Rightarrow> getlines rest))"
  by pat_completeness auto
termination
proof (relation "measure length", simp, simp)
  fix t rest :: string and c
  assume "dropWhile (\<lambda>c. c \<noteq> SEP) t = c # rest"
  then show "length rest < length t"
    using length_dropWhile_le [of "\<lambda>c. c \<noteq> SEP" t] by simp
qed

declare getlines.simps [simp del]

subsection \<open>Paths\<close>

record vpath =
  device :: string
  pstr :: string

definition empty_path :: vpath where
  "empty_path = \<lparr>device = [], pstr = []\<rparr>"

definition path_empty :: "vpath \<Rightarrow> bool" where
  "path_empty p \<longleftrightarrow> device p = [] \<and> pstr p = []"

definition path_valid :: "vpath \<Rightarrow> bool" where
  "path_valid p \<longleftrightarrow> pstr p \<noteq> [] \<and> \<not> (device p \<noteq> [] \<and> last (device p) = CHR ''*'')"

definition toString :: "vpath \<Rightarrow> string" where
  "toString p = device p @ pstr p"

text \<open>
  \<open>SetDevice\<close>: letters and a colon at the front are the device. The character after the colon
  is made a separator if it is not one, by overwriting the colon.
\<close>

definition SetDevice :: "vpath \<Rightarrow> vpath" where
  "SetDevice p =
     (let letters = takeWhile is_alpha (pstr p); start = length letters + 1 in
      if letters \<noteq> [] \<and> start \<le> length (pstr p) \<and> pstr p ! (start - 1) = CHR '':'' then
        (if start < length (pstr p) then
           (if pstr p ! start \<noteq> SEP
            then \<lparr>device = letters @ '':'', pstr = SEP # drop start (pstr p)\<rparr>
            else \<lparr>device = letters @ '':'', pstr = drop start (pstr p)\<rparr>)
         else \<lparr>device = letters @ '':'', pstr = [SEP]\<rparr>)
      else p)"

text \<open>An element loses its trailing dots and blanks while it is longer than two bytes.\<close>

function strip_tail :: "string \<Rightarrow> string" where
  "strip_tail s = (if 2 < length s \<and> (last s = CHR ''.'' \<or> last s = CHR '' '')
     then strip_tail (butlast s) else s)"
  by pat_completeness auto
termination by (relation "measure length") auto

declare strip_tail.simps [simp del]

definition push_seg :: "bool \<Rightarrow> string list \<Rightarrow> string \<Rightarrow> string list" where
  "push_seg absolute npath s0 =
     (if s0 = [] \<or> s0 = ''.'' then npath
      else let s = strip_tail s0 in
        if s = ''..'' \<and> npath \<noteq> [] then butlast npath
        else if s = ''..'' \<and> absolute then npath
        else npath @ [s])"

fun join_path :: "string list \<Rightarrow> string" where
  "join_path [] = []"
| "join_path [s] = s"
| "join_path (s # t # ss) = s @ SEP # join_path (t # ss)"

definition NormalizePath :: "vpath \<Rightarrow> vpath" where
  "NormalizePath p =
     (if pstr p = [] then p
      else
        let t = map (\<lambda>c. if c = WIN_SEP then SEP else c) (pstr p);
            absolute = (hd t = SEP);
            leadslash = (1 < length t \<and> last t = SEP);
            npath = foldl (push_seg absolute) [] (getlines t);
            front = (if absolute then [SEP]
                     else if npath = [] then (if leadslash then ''.'' @ [SEP] else ''.'') else []);
            full = front @ join_path npath;
            flag = (npath \<noteq> [] \<and> (\<exists>c \<in> set full. special_char c)
                    \<and> (device p = [] \<or> last (device p) \<noteq> CHR ''*''))
        in \<lparr>device = (if flag then device p @ ''*'' else device p),
            pstr = (if npath \<noteq> [] \<and> leadslash then full @ [SEP] else full)\<rparr>)"

text \<open>The constructors from a string, and the assignment from one, which clears the device.\<close>

definition Path :: "string \<Rightarrow> vpath" where
  "Path s = NormalizePath (SetDevice \<lparr>device = [], pstr = s\<rparr>)"

definition path_assign :: "string \<Rightarrow> vpath \<Rightarrow> vpath" where
  "path_assign s p = NormalizePath (SetDevice (p\<lparr>device := [], pstr := s\<rparr>))"

definition invalid_path :: vpath where "invalid_path = Path ''*''"
definition assets :: vpath where "assets = \<lparr>device = ''assets:'', pstr = [SEP]\<rparr>"
definition scripts :: vpath where "scripts = \<lparr>device = ''assets:'', pstr = ''/scripts/''\<rparr>"
definition shaders :: vpath where "shaders = \<lparr>device = ''assets:'', pstr = ''/shaders/''\<rparr>"

subsection \<open>Names\<close>

text \<open>What follows the last occurrence of a character, or the whole string.\<close>

definition after_last :: "char \<Rightarrow> string \<Rightarrow> string" where
  "after_last c s = rev (takeWhile (\<lambda>x. x \<noteq> c) (rev s))"

definition before_last :: "char \<Rightarrow> string \<Rightarrow> string" where
  "before_last c s = rev (tl (dropWhile (\<lambda>x. x \<noteq> c) (rev s)))"

definition FileName :: "vpath \<Rightarrow> string" where
  "FileName p = after_last SEP (pstr p)"

definition FileStem :: "vpath \<Rightarrow> string" where
  "FileStem p = (if CHR ''.'' \<in> set (FileName p) then before_last CHR ''.'' (FileName p) else [])"

definition FileExtension :: "vpath \<Rightarrow> string" where
  "FileExtension p = (if CHR ''.'' \<in> set (FileName p) then after_last CHR ''.'' (FileName p) else [])"

text \<open>\<open>path.find_last_of('/', len)\<close>: the last position of a separator that is at most \<open>len\<close>.\<close>

definition find_last_sep :: "string \<Rightarrow> nat \<Rightarrow> nat option" where
  "find_last_sep s len = (case dropWhile (\<lambda>i. s ! i \<noteq> SEP) (rev [0..<min (Suc len) (length s)]) of
     [] \<Rightarrow> None | i # _ \<Rightarrow> Some i)"

definition BasePath :: "vpath \<Rightarrow> vpath" where
  "BasePath p =
     (if pstr p = [] then empty_path
      else let len = (if last (pstr p) = SEP then length (pstr p) - 1 else length (pstr p)) in
        case find_last_sep (pstr p) len of
          None \<Rightarrow> \<lparr>device = [], pstr = ''.''\<rparr>
        | Some pos \<Rightarrow> \<lparr>device = device p, pstr = take (if pos = 0 then 1 else pos) (pstr p)\<rparr>)"

definition isAbsolutePath :: "vpath \<Rightarrow> bool" where
  "isAbsolutePath p \<longleftrightarrow> pstr p \<noteq> [] \<and> hd (pstr p) = SEP"

definition Relative :: "vpath \<Rightarrow> vpath" where
  "Relative p = (if isAbsolutePath p then \<lparr>device = [], pstr = tl (pstr p)\<rparr> else p)"

subsection \<open>Appending\<close>

datatype path_error =
    Append_invalid | Invalid_path | No_device | No_assets | Does_not_exist | Not_created
  | Invalid_flags

text \<open>
  \<open>operator/=\<close>. For \<open>rhs.path.front()\<close> of an empty string, which the code evaluates only when
  \<open>rhs\<close> has a device but no path (no constructor yields one), \<open>hd\<close> is unspecified as well.
\<close>

definition rhs_relative :: "vpath \<Rightarrow> bool" where
  "rhs_relative q \<longleftrightarrow> path_empty q \<or> hd (pstr q) \<noteq> SEP"

definition path_div :: "vpath \<Rightarrow> vpath \<Rightarrow> path_error + vpath" where
  "path_div p q =
     (if pstr p = [] then
        Inr (NormalizePath \<lparr>device = device q,
               pstr = (if rhs_relative q then SEP # pstr q else pstr q)\<rparr>)
      else if device q \<noteq> [] then Inl Append_invalid
      else Inr (NormalizePath (p\<lparr>pstr :=
             (if last (pstr p) \<noteq> SEP \<and> rhs_relative q
              then pstr p @ SEP # pstr q else pstr p @ pstr q)\<rparr>)))"

definition path_div_str :: "vpath \<Rightarrow> string \<Rightarrow> path_error + vpath" where
  "path_div_str p s = path_div p (Path s)"

text \<open>\<open>Subpath\<close> and \<open>SubpathFrom\<close>; \<open>ret = s\<close> is the assignment from a string.\<close>

fun subpath_loop :: "nat \<Rightarrow> nat option \<Rightarrow> nat \<Rightarrow> string list \<Rightarrow> vpath \<Rightarrow> path_error + vpath" where
  "subpath_loop bgn fin count [] ret = Inr ret"
| "subpath_loop bgn fin count (s # ss) ret =
     (if (case fin of None \<Rightarrow> True | Some e \<Rightarrow> count < e) then
        (if count = bgn \<and> 0 < bgn then subpath_loop bgn fin (count + 1) ss (path_assign s ret)
         else if bgn \<le> count then
           (case path_div_str ret s of
              Inl e \<Rightarrow> Inl e
            | Inr ret' \<Rightarrow> subpath_loop bgn fin (count + 1) ss ret')
         else subpath_loop bgn fin (count + 1) ss ret)
      else Inr ret)"

text \<open>\<open>fin\<close> is \<open>None\<close> for \<open>Path::npos\<close>.\<close>

definition Subpath :: "vpath \<Rightarrow> nat \<Rightarrow> nat option \<Rightarrow> path_error + vpath" where
  "Subpath p bgn fin = subpath_loop bgn fin 0 (getlines (pstr p))
     (if bgn = 0 then \<lparr>device = device p, pstr = (if isAbsolutePath p then [SEP] else [])\<rparr>
      else empty_path)"

fun subpath_from_loop ::
    "string \<Rightarrow> bool \<Rightarrow> bool \<Rightarrow> bool \<Rightarrow> string list \<Rightarrow> vpath \<Rightarrow> path_error + vpath" where
  "subpath_from_loop needle incl found first [] ret = Inr ret"
| "subpath_from_loop needle incl found first (s # ss) ret =
     (if found then
        (if first then subpath_from_loop needle incl found False ss (path_assign s ret)
         else (case path_div_str ret s of
                 Inl e \<Rightarrow> Inl e
               | Inr ret' \<Rightarrow> subpath_from_loop needle incl found False ss ret'))
      else if s = needle then
        (if incl then subpath_from_loop needle incl True False ss (path_assign s ret)
         else subpath_from_loop needle incl True first ss ret)
      else subpath_from_loop needle incl found first ss ret)"

definition SubpathFrom :: "vpath \<Rightarrow> string \<Rightarrow> bool \<Rightarrow> path_error + vpath" where
  "SubpathFrom p needle incl = subpath_from_loop needle incl False True (getlines (pstr p)) empty_path"

end
