(* ===== verification/Obj.thy ===== *)
theory Obj
  imports Mesh_Data Text_Stream Vfs_Path Ordered_Map
begin

text \<open>
  The Wavefront loader (client/resources/obj.cpp): the prepass that counts, the pass that
  collects vertices and faces, the material file and \<open>PopulateMeshGroups\<close>, which makes the
  meshes. A number that was never stored has no value (\<open>None\<close>). Face groups are objects in an
  explicit store, because pointers to them are kept in several places; reading outside a
  vector, through a null pointer or of a deleted group is the \<open>None\<close> of the functions. The
  files are parameters: \<open>texts\<close> gives the content of a file beside the object file.
\<close>

subsection \<open>Lines\<close>

definition is_eol :: "char \<Rightarrow> bool" where
  "is_eol c \<longleftrightarrow> c = CHR 0x0A \<or> c = CHR 0x0D"

text \<open>
  Both passes cut the text at every line feed and every carriage return; a last line without
  one is not seen.
\<close>

function obj_lines :: "string \<Rightarrow> string list" where
  "obj_lines s =
     (if \<exists>c \<in> set s. is_eol c
      then takeWhile (\<lambda>c. \<not> is_eol c) s # obj_lines (tl (dropWhile (\<lambda>c. \<not> is_eol c) s))
      else [])"
  by pat_completeness auto
termination
proof (relation "measure length")
  fix s :: string
  assume "\<exists>c \<in> set s. is_eol c"
  then have "dropWhile (\<lambda>c. \<not> is_eol c) s \<noteq> []" by (auto simp: dropWhile_eq_Nil_conv)
  then show "(tl (dropWhile (\<lambda>c. \<not> is_eol c) s), s) \<in> measure length"
    using length_dropWhile_le [of "\<lambda>c. \<not> is_eol c" s] by (cases "dropWhile (\<lambda>c. \<not> is_eol c) s") auto
qed simp

declare obj_lines.simps [simp del]

text \<open>\<open>line.substr(line.find(' ') + 1)\<close>: all of a line without a blank.\<close>

definition after_blank :: "string \<Rightarrow> string" where
  "after_blank line = (if CHR '' '' \<in> set line then tl (dropWhile (\<lambda>c. c \<noteq> CHR '' '') line) else line)"

subsection \<open>State\<close>

type_synonym num = "rat option"

record face =
  fc_pos :: "u32 list"
  fc_uv :: "u32 list"
  fc_norm :: "u32 list"

definition new_face :: face where
  "new_face = \<lparr>fc_pos = [0, 0, 0], fc_uv = [0, 0, 0], fc_norm = [0, 0, 0]\<rparr>"

record face_group =
  fg_mtl :: string
  fg_faces :: "face list"

record obj_group =
  gr_name :: string
  gr_face_groups :: "nat list"

record mtl =
  mt_ka :: "num list"
  mt_kd :: "num list"
  mt_ks :: "num list"
  mt_tr :: num
  mt_hardness :: num
  mt_illum :: int
  mt_ambient_map :: string
  mt_diffuse_map :: string
  mt_normal_map :: string

definition new_mtl :: mtl where
  "new_mtl = \<lparr>mt_ka = [Some 0, Some 0, Some 0], mt_kd = [Some 0, Some 0, Some 0], mt_ks = [Some 0, Some 0, Some 0],
     mt_tr = Some 0, mt_hardness = Some 0, mt_illum = 0, mt_ambient_map = [], mt_diffuse_map = [], mt_normal_map = []\<rparr>"

record obj =
  ob_store :: "nat \<rightharpoonup> face_group"
  ob_next :: nat
  ob_vertex_groups :: "obj_group list"
  ob_positions :: "num vec3 list"
  ob_normals :: "num vec3 list"
  ob_uvs :: "num vec2 list"
  ob_materials :: "(string, mtl) omap"
  ob_textures :: "string list"
  ob_group :: obj_group
  ob_current :: "nat option"
  ob_identifier :: string

text \<open>The object with the locals of \<open>Parse\<close> at its start.\<close>

definition new_obj :: obj where
  "new_obj = \<lparr>ob_store = [0 \<mapsto> \<lparr>fg_mtl = ''(default)'', fg_faces = []\<rparr>], ob_next = 1, ob_vertex_groups = [],
     ob_positions = [], ob_normals = [], ob_uvs = [], ob_materials = [], ob_textures = [],
     ob_group = \<lparr>gr_name = ''default'', gr_face_groups = []\<rparr>, ob_current = Some 0, ob_identifier = []\<rparr>"

subsection \<open>The material file\<close>

definition get_rgb :: "istream \<Rightarrow> num list" where
  "get_rgb s = (let (r, s1) = get_float None s; (g, s2) = get_float None s1; (b, s3) = get_float None s2 in [r, g, b])"

definition load_texture :: "string \<Rightarrow> obj \<Rightarrow> obj" where
  "load_texture name ob = (if name \<in> set (ob_textures ob) then ob else ob\<lparr>ob_textures := ob_textures ob @ [name]\<rparr>)"

text \<open>
  One line; \<open>current\<close> is the name under which \<open>currentMTL\<close> was stored. All other identifiers
  are used on \<open>currentMTL\<close>, null at first.
\<close>

definition on_mtl :: "string option \<Rightarrow> (mtl \<Rightarrow> mtl) \<Rightarrow> obj \<Rightarrow> obj option" where
  "on_mtl current f ob = (case current of
      None \<Rightarrow> None
    | Some n \<Rightarrow> (case map_of (ob_materials ob) n of
        None \<Rightarrow> None
      | Some m \<Rightarrow> Some (ob\<lparr>ob_materials := om_put n (f m) (ob_materials ob)\<rparr>)))"

definition mtl_line :: "string \<Rightarrow> string option \<times> obj \<Rightarrow> (string option \<times> obj) option" where
  "mtl_line line st = (case st of (current, ob) \<Rightarrow>
     (case get_word [] (istr line) of (identifier, ss) \<Rightarrow>
        let use = (\<lambda>f. map_option (\<lambda>ob1. (current, ob1)) (on_mtl current f ob));
            use_map = (\<lambda>f. (let filename = fst (get_word [] ss) in
               map_option (\<lambda>ob1. (current, load_texture filename ob1)) (on_mtl current (f filename) ob))) in
        if identifier = ''newmtl'' then
          (let n = fst (get_word [] ss) in Some (Some n, ob\<lparr>ob_materials := om_put n new_mtl (ob_materials ob)\<rparr>))
        else if identifier = ''Ka'' then use (\<lambda>m. m\<lparr>mt_ka := get_rgb ss\<rparr>)
        else if identifier = ''Kd'' then use (\<lambda>m. m\<lparr>mt_kd := get_rgb ss\<rparr>)
        else if identifier = ''Ks'' then use (\<lambda>m. m\<lparr>mt_ks := get_rgb ss\<rparr>)
        else if identifier = ''Tr'' \<or> identifier = ''d'' then use (\<lambda>m. m\<lparr>mt_tr := fst (get_float None ss)\<rparr>)
        else if identifier = ''Ns'' then use (\<lambda>m. m\<lparr>mt_hardness := fst (get_float None ss)\<rparr>)
        else if identifier = ''illum'' then use (\<lambda>m. m\<lparr>mt_illum := fst (get_int 0 ss)\<rparr>)
        else if identifier = ''map_Kd'' then use_map (\<lambda>n m. m\<lparr>mt_diffuse_map := n\<rparr>)
        else if identifier = ''map_Ka'' then use_map (\<lambda>n m. m\<lparr>mt_ambient_map := n\<rparr>)
        else if identifier = ''map_Bump'' then use_map (\<lambda>n m. m\<lparr>mt_normal_map := n\<rparr>)
        else Some st))"

fun mtl_lines :: "string list \<Rightarrow> string option \<times> obj \<Rightarrow> (string option \<times> obj) option" where
  "mtl_lines [] st = Some st"
| "mtl_lines (l # ls) st = (case mtl_line l st of None \<Rightarrow> None | Some st1 \<Rightarrow> mtl_lines ls st1)"

definition ParseMTL :: "(string \<Rightarrow> string option) \<Rightarrow> string \<Rightarrow> obj \<Rightarrow> obj option" where
  "ParseMTL texts fname ob = (case texts fname of
      None \<Rightarrow> Some ob
    | Some text \<Rightarrow> map_option snd (mtl_lines (text_lines text) (None, ob)))"

subsection \<open>The prepass\<close>

text \<open>The number of objects and \<open>object_face_count\<close>; the other counts only reserve memory.\<close>

definition pre_line :: "(string \<Rightarrow> string option) \<Rightarrow> string \<Rightarrow> nat \<times> nat list \<times> obj \<Rightarrow> (nat \<times> nat list \<times> obj) option" where
  "pre_line texts line st = (case st of (object_count, counts, ob) \<Rightarrow>
     let identifier = takeWhile (\<lambda>c. c \<noteq> CHR '' '') line in
     if identifier = ''mtllib'' then
       map_option (\<lambda>ob1. (object_count, counts, ob1)) (ParseMTL texts (after_blank line) ob)
     else if identifier = ''o'' then Some (object_count + 1, counts, ob)
     else if identifier = ''f'' then
       (let counts1 = (if length counts < object_count then counts @ [0] else counts) in
        if 0 < object_count \<and> object_count - 1 < length counts1
        then Some (object_count, counts1[object_count - 1 := counts1 ! (object_count - 1) + 3], ob)
        else None)
     else Some st)"

fun pre_lines :: "(string \<Rightarrow> string option) \<Rightarrow> string list \<Rightarrow> nat \<times> nat list \<times> obj \<Rightarrow> (nat \<times> nat list \<times> obj) option" where
  "pre_lines texts [] st = Some st"
| "pre_lines texts (l # ls) st = (case pre_line texts l st of None \<Rightarrow> None | Some st1 \<Rightarrow> pre_lines texts ls st1)"

subsection \<open>Faces\<close>

text \<open>The slashes of a face: an omitted texture coordinate becomes 0.\<close>

fun fill_slashes :: "string \<Rightarrow> string" where
  "fill_slashes (c # d # cs) =
     (if c = CHR ''/'' \<and> d = CHR ''/'' then '' 0 '' @ fill_slashes cs else c # fill_slashes (d # cs))"
| "fill_slashes cs = cs"

definition split_slashes :: "string \<Rightarrow> string" where
  "split_slashes s = map (\<lambda>c. if c = CHR ''/'' then CHR '' '' else c) (fill_slashes s)"

definition get_triple :: "istream \<Rightarrow> (u32 \<times> u32 \<times> u32) \<times> istream" where
  "get_triple s = (let (p, s1) = get_unsigned 0 s; (t, s2) = get_unsigned 0 s1; (n, s3) = get_unsigned 0 s2
     in ((p, t, n), s3))"

text \<open>The face of a line and, for a quad, its second triangle.\<close>

definition parse_face :: "string \<Rightarrow> face \<times> face option" where
  "parse_face line =
     (let face_line = after_blank line in
      if CHR ''/'' \<in> set face_line then
        (let s0 = istr (split_slashes face_line);
             ((p0, t0, n0), s1) = get_triple s0;
             ((p1, t1, n1), s2) = get_triple s1;
             ((p2, t2, n2), s3) = get_triple s2;
             f = \<lparr>fc_pos = [p0, p1, p2], fc_uv = [t0, t1, t2], fc_norm = [n0, n1, n2]\<rparr>
         in if is_eof s3 then (f, None)
            else (case get_triple s3 of ((p3, t3, n3), s4) \<Rightarrow>
              (f, Some \<lparr>fc_pos = [p2, p3, p0], fc_uv = [t2, t3, t0], fc_norm = [n2, n3, n0]\<rparr>)))
      else
        (let s0 = istr face_line;
             (p0, s1) = get_unsigned 0 s0;
             (p1, s2) = get_unsigned 0 s1;
             (p2, s3) = get_unsigned 0 s2;
             f = new_face\<lparr>fc_pos := [p0, p1, p2]\<rparr>
         in if is_eof s3 then (f, None)
            else (f, Some (new_face\<lparr>fc_pos := [p2, fst (get_unsigned 0 s3), p0]\<rparr>))))"

subsection \<open>The main pass\<close>

definition get_vec3 :: "istream \<Rightarrow> num vec3 \<times> istream" where
  "get_vec3 s = (let (x, s1) = get_float None s; (y, s2) = get_float None s1; (z, s3) = get_float None s2
     in (\<lparr>vx = x, vy = y, vz = z\<rparr>, s3))"

definition push_face :: "face \<times> face option \<Rightarrow> face_group \<Rightarrow> face_group" where
  "push_face ff g = (case ff of (f, quad) \<Rightarrow>
     g\<lparr>fg_faces := fg_faces g @ [f] @ (case quad of None \<Rightarrow> [] | Some f2 \<Rightarrow> [f2])\<rparr>)"

text \<open>A face group that has faces goes to the object group, an empty one is deleted.\<close>

definition flush_group :: "obj \<Rightarrow> obj option" where
  "flush_group ob = (case ob_current ob of
      None \<Rightarrow> Some ob
    | Some a \<Rightarrow> (case ob_store ob a of
        None \<Rightarrow> None
      | Some g \<Rightarrow>
          if fg_faces g \<noteq> []
          then Some (ob\<lparr>ob_group := (ob_group ob)\<lparr>gr_face_groups := gr_face_groups (ob_group ob) @ [a]\<rparr>\<rparr>)
          else Some (ob\<lparr>ob_store := (ob_store ob)(a := None)\<rparr>)))"

text \<open>The last face group of the object group with the material, if all can be read.\<close>

fun find_group :: "(nat \<rightharpoonup> face_group) \<Rightarrow> string \<Rightarrow> nat list \<Rightarrow> nat option \<Rightarrow> nat option option" where
  "find_group st mtlname [] found = Some found"
| "find_group st mtlname (a # as) found = (case st a of
     None \<Rightarrow> None
   | Some g \<Rightarrow> find_group st mtlname as (if fg_mtl g = mtlname then Some a else found))"

definition use_material :: "nat list \<Rightarrow> string \<Rightarrow> obj \<Rightarrow> obj option" where
  "use_material counts mtlname ob = (case flush_group ob of
      None \<Rightarrow> None
    | Some ob1 \<Rightarrow> (case find_group (ob_store ob1) mtlname (gr_face_groups (ob_group ob1)) None of
        None \<Rightarrow> None
      | Some (Some a) \<Rightarrow> Some (ob1\<lparr>ob_current := Some a\<rparr>)
      | Some None \<Rightarrow>
          if length (ob_vertex_groups ob1) < length counts
          then Some (ob1\<lparr>ob_store := (ob_store ob1)(ob_next ob1 \<mapsto> \<lparr>fg_mtl = mtlname, fg_faces = []\<rparr>),
                         ob_current := Some (ob_next ob1), ob_next := ob_next ob1 + 1\<rparr>)
          else None))"

text \<open>
  A line. The identifier is a variable of the loop, and extraction leaves it as it was when the
  line is blank.
\<close>

definition obj_line :: "nat list \<Rightarrow> string \<Rightarrow> obj \<Rightarrow> obj option" where
  "obj_line counts line ob0 = (case get_word (ob_identifier ob0) (istr line) of (identifier, ss) \<Rightarrow>
     let ob = ob0\<lparr>ob_identifier := identifier\<rparr> in
     if identifier = ''v'' then Some (ob\<lparr>ob_positions := ob_positions ob @ [fst (get_vec3 ss)]\<rparr>)
     else if identifier = ''vt'' then
       (let (x, s1) = get_float None ss; (y, s2) = get_float None s1
        in Some (ob\<lparr>ob_uvs := ob_uvs ob @ [\<lparr>ux = x, uy = map_option (\<lambda>r. 1 - r) y\<rparr>]\<rparr>))
     else if identifier = ''vn'' then Some (ob\<lparr>ob_normals := ob_normals ob @ [fst (get_vec3 ss)]\<rparr>)
     else if identifier = ''o'' then
       (let ob1 = (if gr_face_groups (ob_group ob) \<noteq> []
                   then ob\<lparr>ob_vertex_groups := ob_vertex_groups ob @ [ob_group ob]\<rparr> else ob)
        in Some (ob1\<lparr>ob_group := \<lparr>gr_name = fst (get_word [] ss), gr_face_groups = []\<rparr>\<rparr>))
     else if identifier = ''usemtl'' then use_material counts (fst (get_word [] ss)) ob
     else if identifier = ''f'' then
       (case ob_current ob of
          None \<Rightarrow> Some ob
        | Some a \<Rightarrow> (case ob_store ob a of
            None \<Rightarrow> None
          | Some g \<Rightarrow> Some (ob\<lparr>ob_store := (ob_store ob)(a \<mapsto> push_face (parse_face line) g)\<rparr>)))
     else Some ob)"

fun run_lines :: "nat list \<Rightarrow> string list \<Rightarrow> obj \<Rightarrow> obj option" where
  "run_lines counts [] ob = Some ob"
| "run_lines counts (l # ls) ob = (case obj_line counts l ob of None \<Rightarrow> None | Some ob1 \<Rightarrow> run_lines counts ls ob1)"

definition obj_Parse :: "(string \<Rightarrow> string option) \<Rightarrow> string \<Rightarrow> obj option" where
  "obj_Parse texts text = (case pre_lines texts (obj_lines text) (0, [], new_obj) of
      None \<Rightarrow> None
    | Some (_, counts, ob) \<Rightarrow> (case run_lines counts (obj_lines text) ob of
        None \<Rightarrow> None
      | Some ob1 \<Rightarrow> (case flush_group ob1 of
          None \<Rightarrow> None
        | Some ob2 \<Rightarrow> Some (ob2\<lparr>ob_vertex_groups := ob_vertex_groups ob2 @ [ob_group ob2]\<rparr>))))"

subsection \<open>Meshes\<close>

definition pick :: "u32 \<Rightarrow> 'a list \<Rightarrow> 'a option" where
  "pick i xs = (if i \<noteq> 0 \<and> unat i \<le> length xs then Some (xs ! (unat i - 1)) else None)"

definition face_vertex :: "obj \<Rightarrow> face \<Rightarrow> nat \<Rightarrow> num vertex \<Rightarrow> num vertex" where
  "face_vertex ob f k v =
     (let v1 = (case pick (fc_pos f ! k) (ob_positions ob) of None \<Rightarrow> v | Some p \<Rightarrow> v\<lparr>vt_position := p\<rparr>);
          v2 = (case pick (fc_uv f ! k) (ob_uvs ob) of None \<Rightarrow> v1 | Some t \<Rightarrow> v1\<lparr>vt_uv := t\<rparr>)
      in case pick (fc_norm f ! k) (ob_normals ob) of None \<Rightarrow> v2 | Some n \<Rightarrow> v2\<lparr>vt_normal := n\<rparr>)"

text \<open>The loops over the faces and their corners, writing from the vertex \<open>j\<close> on.\<close>

fun fill_corners :: "obj \<Rightarrow> num list \<Rightarrow> (face \<times> nat) list \<Rightarrow> nat \<Rightarrow> num mesh \<times> nat list \<Rightarrow> (num mesh \<times> nat list) option" where
  "fill_corners ob color [] j st = Some st"
| "fill_corners ob color ((f, k) # fks) j st = (case st of (m, indices) \<Rightarrow>
     if j < length (ms_verts m) \<and> j < length (ms_colors m)
     then fill_corners ob color fks (Suc j)
       (m\<lparr>ms_verts := (ms_verts m)[j := face_vertex ob f k (ms_verts m ! j)], ms_colors := (ms_colors m)[j := color]\<rparr>,
        indices @ [j])
     else None)"

definition corners :: "face list \<Rightarrow> (face \<times> nat) list" where
  "corners fs = concat (map (\<lambda>f. [(f, 0), (f, 1), (f, 2)]) fs)"

definition populate_group :: "obj \<Rightarrow> face_group \<Rightarrow> num mesh \<times> object_group \<Rightarrow> (num mesh \<times> object_group) option" where
  "populate_group ob g st = (case st of (m, og) \<Rightarrow>
     let start = length (og_indices og);
         mg0 = new_material_group\<lparr>mg_start := start\<rparr>;
         (mg1, color) = (case map_of (ob_materials ob) (fg_mtl g) of
             None \<Rightarrow> (mg0, [Some 1, Some 1, Some 1, Some 1])
           | Some mat \<Rightarrow> (mg0\<lparr>mg_material := FileStem (Path (mt_diffuse_map mat)) @ ''_material'',
                             mg_textures := [mt_diffuse_map mat]\<rparr>, mt_kd mat @ [Some 1]));
         j = vert_count m;
         n = length (fg_faces g) * 3 + j;
         m1 = (if j < n then mesh_resize (Some 0) n m else m)
     in (case fill_corners ob color (corners (fg_faces g)) j (m1, og_indices og) of
           None \<Rightarrow> None
         | Some (m2, indices) \<Rightarrow>
             Some (m2, og\<lparr>og_indices := indices, og_materials := og_materials og @ [mg1\<lparr>mg_count := length indices - start\<rparr>]\<rparr>)))"

fun populate_groups :: "obj \<Rightarrow> nat list \<Rightarrow> num mesh \<times> object_group \<Rightarrow> (num mesh \<times> object_group) option" where
  "populate_groups ob [] st = Some st"
| "populate_groups ob (a # as) st = (case ob_store ob a of
     None \<Rightarrow> None
   | Some g \<Rightarrow> (case populate_group ob g st of None \<Rightarrow> None | Some st1 \<Rightarrow> populate_groups ob as st1))"

text \<open>A new mesh for an object group.\<close>

definition populate_mesh :: "obj \<Rightarrow> obj_group \<Rightarrow> num mesh option" where
  "populate_mesh ob vg = (case populate_groups ob (gr_face_groups vg) (new_mesh\<lparr>ms_has_color := True\<rparr>, new_object_group) of
      None \<Rightarrow> None
    | Some (m, og) \<Rightarrow> Some (m\<lparr>ms_objects := [og]\<rparr>))"

fun PopulateMeshGroups :: "obj \<Rightarrow> obj_group list \<Rightarrow> num mesh list option" where
  "PopulateMeshGroups ob [] = Some []"
| "PopulateMeshGroups ob (vg # vgs) = (case populate_mesh ob vg of
     None \<Rightarrow> None
   | Some m \<Rightarrow> (case PopulateMeshGroups ob vgs of None \<Rightarrow> None | Some ms \<Rightarrow> Some (m # ms)))"

definition obj_Create :: "(string \<Rightarrow> string option) \<Rightarrow> string \<Rightarrow> num mesh list option" where
  "obj_Create texts text = (case obj_Parse texts text of
      None \<Rightarrow> None
    | Some ob \<Rightarrow> PopulateMeshGroups ob (ob_vertex_groups ob))"

subsection \<open>The meshes of an object file\<close>

text \<open>The vertices and colours that a list of faces makes.\<close>

definition corner_vertices :: "obj \<Rightarrow> face list \<Rightarrow> num vertex list" where
  "corner_vertices ob fs = map (\<lambda>(f, k). face_vertex ob f k (new_vertex (Some 0))) (corners fs)"

lemma length_corners [simp]: "length (corners fs) = 3 * length fs"
  by (induction fs) (simp_all add: corners_def)

lemma corners_append: "corners (fs @ gs) = corners fs @ corners gs"
  by (simp add: corners_def)

lemma length_corner_vertices [simp]: "length (corner_vertices ob fs) = 3 * length fs"
  by (simp add: corner_vertices_def)

lemma list_update_mid: "length vs = j \<Longrightarrow> (vs @ x # ys)[j := y] = (vs @ [y]) @ ys"
  by (simp add: list_update_append)

lemma fill_corners_result:
  assumes "ms_verts m = vs @ replicate (length fks) (new_vertex (Some 0))" and "length vs = j"
    and "ms_colors m = cs @ replicate (length fks) c0" and "length cs = j"
  shows "fill_corners ob color fks j (m, idx) =
    Some (m\<lparr>ms_verts := vs @ map (\<lambda>(f, k). face_vertex ob f k (new_vertex (Some 0))) fks,
            ms_colors := cs @ replicate (length fks) color\<rparr>, idx @ [j..<j + length fks])"
  using assms
proof (induction fks arbitrary: m vs cs j idx)
  case Nil
  then show ?case by simp
next
  case (Cons fk fks)
  obtain f k where fk: "fk = (f, k)" by force
  let ?w = "face_vertex ob f k (new_vertex (Some 0))"
  let ?m = "m\<lparr>ms_verts := (vs @ [?w]) @ replicate (length fks) (new_vertex (Some 0)),
      ms_colors := (cs @ [color]) @ replicate (length fks) c0\<rparr>"
  have "fill_corners ob color (fk # fks) j (m, idx) = fill_corners ob color fks (Suc j) (?m, idx @ [j])"
    using Cons.prems by (simp add: fk list_update_append nth_append)
  also have "\<dots> = Some (?m\<lparr>ms_verts := (vs @ [?w]) @ map (\<lambda>(f, k). face_vertex ob f k (new_vertex (Some 0))) fks,
      ms_colors := (cs @ [color]) @ replicate (length fks) color\<rparr>, (idx @ [j]) @ [Suc j..<Suc j + length fks])"
    by (rule Cons.IH) (use Cons.prems in simp_all)
  finally show ?case by (simp add: fk upt_conv_Cons del: upt_Suc)
qed

text \<open>What holds of a mesh under construction: it has as many colours as vertices, one index for each, in order.\<close>

definition built :: "obj \<Rightarrow> face list \<Rightarrow> num mesh \<times> object_group \<Rightarrow> bool" where
  "built ob fs st \<longleftrightarrow> (case st of (m, og) \<Rightarrow>
     ms_has_color m \<and> \<not> ms_has_weight m \<and> ms_verts m = corner_vertices ob fs
     \<and> length (ms_colors m) = 3 * length fs \<and> og_indices og = [0..<3 * length fs]
     \<and> (\<forall>mg \<in> set (og_materials og). mg_start mg + mg_count mg \<le> 3 * length fs)
     \<and> concat (map (\<lambda>mg. [mg_start mg..<mg_start mg + mg_count mg]) (og_materials og)) = [0..<3 * length fs])"

lemma populate_group_built:
  assumes "built ob fs (m, og)"
  shows "\<exists>st. populate_group ob g (m, og) = Some st \<and> built ob (fs @ fg_faces g) st
    \<and> length (og_materials (snd st)) = Suc (length (og_materials og))"
proof -
  let ?n = "length fs" and ?k = "length (fg_faces g)"
  let ?z = "new_vertex (Some 0) :: num vertex" and ?c = "[Some 0, Some 0, Some 0, Some 0] :: num list"
  obtain mg1 color where mc: "(case map_of (ob_materials ob) (fg_mtl g) of
             None \<Rightarrow> (new_material_group\<lparr>mg_start := length (og_indices og)\<rparr>, [Some 1, Some 1, Some 1, Some 1])
           | Some mat \<Rightarrow> (new_material_group\<lparr>mg_start := length (og_indices og), mg_material := FileStem (Path (mt_diffuse_map mat)) @ ''_material'',
                             mg_textures := [mt_diffuse_map mat]\<rparr>, mt_kd mat @ [Some 1])) = (mg1, color)"
    and start: "mg_start mg1 = length (og_indices og)"
    by (cases "map_of (ob_materials ob) (fg_mtl g)") (auto simp: new_material_group_def)
  have len: "length (corners (fg_faces g)) = 3 * ?k" by simp
  obtain m1 where m1: "m1 = (if vert_count m < ?k * 3 + vert_count m then mesh_resize (Some 0) (?k * 3 + vert_count m) m else m)"
    by blast
  have verts: "ms_verts m1 = corner_vertices ob fs @ replicate (length (corners (fg_faces g))) ?z"
    and colors: "ms_colors m1 = ms_colors m @ replicate (length (corners (fg_faces g))) ?c"
    and flags: "ms_has_color m1" "\<not> ms_has_weight m1" and vc: "vert_count m = 3 * ?n"
    using assms by (auto simp: m1 built_def mesh_resize_def Let_def resize_list_def vert_count_def mult.commute)
  let ?m2 = "m1\<lparr>ms_verts := corner_vertices ob fs @ corner_vertices ob (fg_faces g),
            ms_colors := ms_colors m @ replicate (length (corners (fg_faces g))) color\<rparr>"
  let ?idx = "og_indices og @ [3 * ?n..<3 * ?n + length (corners (fg_faces g))]"
  have fill: "fill_corners ob color (corners (fg_faces g)) (3 * ?n) (m1, og_indices og) = Some (?m2, ?idx)"
    unfolding corner_vertices_def [of ob "fg_faces g"]
    by (rule fill_corners_result [OF verts _ colors]) (use assms in \<open>simp_all add: built_def\<close>)
  have idx: "?idx = [0..<3 * length (fs @ fg_faces g)]" "length (og_indices og) = 3 * ?n"
    using assms by (simp_all add: built_def upt_add_eq_append [of 0 "3 * ?n" "3 * ?k"] distrib_left)
  let ?og = "og\<lparr>og_indices := ?idx, og_materials := og_materials og @ [mg1\<lparr>mg_count := length ?idx - length (og_indices og)\<rparr>]\<rparr>"
  have "populate_group ob g (m, og) = Some (?m2, ?og)"
    unfolding populate_group_def prod.case Let_def m1 [symmetric] unfolding mc prod.case unfolding vc fill option.case prod.case ..
  moreover have "built ob (fs @ fg_faces g) (?m2, ?og)"
    using assms flags start idx
    by (auto simp: built_def corner_vertices_def corners_append distrib_left upt_add_eq_append [of 0 "3 * ?n" "3 * ?k"])
  ultimately show ?thesis by auto
qed

definition face_groups_of :: "obj \<Rightarrow> nat list \<Rightarrow> face list" where
  "face_groups_of ob as = concat (map (\<lambda>a. fg_faces (the (ob_store ob a))) as)"

lemma populate_groups_built:
  assumes "\<forall>a \<in> set as. ob_store ob a \<noteq> None" and "built ob fs st"
  shows "\<exists>st1. populate_groups ob as st = Some st1 \<and> built ob (fs @ face_groups_of ob as) st1
    \<and> length (og_materials (snd st1)) = length (og_materials (snd st)) + length as"
  using assms
proof (induction as arbitrary: fs st)
  case Nil
  then show ?case by (simp add: face_groups_of_def)
next
  case (Cons a as)
  obtain m og where st: "st = (m, og)" by force
  obtain g where g: "ob_store ob a = Some g"
    using Cons.prems(1) by auto
  obtain st1 where st1: "populate_group ob g (m, og) = Some st1" "built ob (fs @ fg_faces g) st1"
    "length (og_materials (snd st1)) = Suc (length (og_materials og))"
    using populate_group_built Cons.prems(2) st by blast
  obtain st2 where "populate_groups ob as st1 = Some st2" "built ob ((fs @ fg_faces g) @ face_groups_of ob as) st2"
    "length (og_materials (snd st2)) = length (og_materials (snd st1)) + length as"
    using Cons.IH [OF _ st1(2)] Cons.prems(1) by auto
  then show ?case
    using st1 by (simp add: st g face_groups_of_def)
qed

text \<open>A mesh holds the corners of all faces in order, is well formed, and its material groups divide its indices.\<close>

definition mesh_of :: "obj \<Rightarrow> obj_group \<Rightarrow> num mesh \<Rightarrow> bool" where
  "mesh_of ob vg m \<longleftrightarrow> wf_mesh m \<and> ms_verts m = corner_vertices ob (face_groups_of ob (gr_face_groups vg))
     \<and> (\<exists>og. ms_objects m = [og] \<and> og_indices og = [0..<vert_count m]
          \<and> length (og_materials og) = length (gr_face_groups vg)
          \<and> concat (map (\<lambda>mg. [mg_start mg..<mg_start mg + mg_count mg]) (og_materials og)) = [0..<vert_count m])"

lemma built_start: "built ob [] (new_mesh\<lparr>ms_has_color := True\<rparr>, new_object_group)"
  by (simp add: built_def new_mesh_def new_object_group_def corner_vertices_def corners_def)

lemma populate_mesh_result:
  assumes "\<forall>a \<in> set (gr_face_groups vg). ob_store ob a \<noteq> None"
  shows "\<exists>m. populate_mesh ob vg = Some m \<and> mesh_of ob vg m"
proof -
  obtain m og where pg: "populate_groups ob (gr_face_groups vg) (new_mesh\<lparr>ms_has_color := True\<rparr>, new_object_group) = Some (m, og)"
    and b: "built ob ([] @ face_groups_of ob (gr_face_groups vg)) (m, og)"
    and l: "length (og_materials og) = length (gr_face_groups vg)"
    using populate_groups_built [OF assms built_start] by (auto simp: new_object_group_def)
  have "mesh_of ob vg (m\<lparr>ms_objects := [og]\<rparr>)"
    using b l by (auto simp: mesh_of_def built_def wf_mesh_def wf_object_def vert_count_def)
  then show ?thesis
    by (simp add: populate_mesh_def pg)
qed

lemma PopulateMeshGroups_result:
  assumes "\<forall>vg \<in> set vgs. \<forall>a \<in> set (gr_face_groups vg). ob_store ob a \<noteq> None"
  shows "\<exists>ms. PopulateMeshGroups ob vgs = Some ms \<and> list_all2 (mesh_of ob) vgs ms"
  using assms
proof (induction vgs)
  case (Cons vg vgs)
  then show ?case
    using populate_mesh_result [of vg ob] by fastforce
qed simp

subsection \<open>What parsing keeps\<close>

lemma if_Some: "(if b then x else y) = Some z \<Longrightarrow> (x = Some z \<Longrightarrow> P) \<Longrightarrow> (y = Some z \<Longrightarrow> P) \<Longrightarrow> P"
  by (simp split: if_splits)

text \<open>
  Pointers to face groups: those of the object groups are alive and have faces, the current one
  is alive. The next address is free.
\<close>

definition live_faces :: "(nat \<rightharpoonup> face_group) \<Rightarrow> nat \<Rightarrow> bool" where
  "live_faces st a \<longleftrightarrow> (\<exists>g. st a = Some g \<and> fg_faces g \<noteq> [])"

definition wf_obj :: "obj \<Rightarrow> bool" where
  "wf_obj ob \<longleftrightarrow> (\<forall>vg \<in> set (ob_vertex_groups ob). \<forall>a \<in> set (gr_face_groups vg). live_faces (ob_store ob) a)
     \<and> (\<forall>a \<in> set (gr_face_groups (ob_group ob)). live_faces (ob_store ob) a)
     \<and> (\<exists>a. ob_current ob = Some a \<and> ob_store ob a \<noteq> None)
     \<and> (\<forall>a \<in> dom (ob_store ob). a < ob_next ob)"

lemma wf_new_obj: "wf_obj new_obj"
  by (simp add: wf_obj_def new_obj_def)

lemma wf_obj_frame:
  assumes "wf_obj ob" and "ob_store ob1 = ob_store ob" and "ob_vertex_groups ob1 = ob_vertex_groups ob"
    and "ob_group ob1 = ob_group ob" and "ob_current ob1 = ob_current ob" and "ob_next ob1 = ob_next ob"
  shows "wf_obj ob1"
  using assms by (simp add: wf_obj_def)

text \<open>Flushing does not fail; only the current pointer may dangle after it.\<close>

lemma flush_group_wf:
  assumes "wf_obj ob"
  shows "\<exists>ob1. flush_group ob = Some ob1 \<and> (\<forall>a. ob_store ob1 a \<noteq> None \<longrightarrow> wf_obj (ob1\<lparr>ob_current := Some a\<rparr>))
    \<and> (\<forall>a \<in> set (gr_face_groups (ob_group ob1)). live_faces (ob_store ob1) a)
    \<and> (\<forall>vg \<in> set (ob_vertex_groups ob1). \<forall>a \<in> set (gr_face_groups vg). live_faces (ob_store ob1) a)
    \<and> (\<forall>a \<in> dom (ob_store ob1). a < ob_next ob1) \<and> ob_vertex_groups ob1 = ob_vertex_groups ob"
proof -
  obtain a g where a: "ob_current ob = Some a" "ob_store ob a = Some g"
    using assms by (auto simp: wf_obj_def)
  show ?thesis
  proof (cases "fg_faces g = []")
    case True
    then have "\<And>b. live_faces (ob_store ob) b \<Longrightarrow> live_faces ((ob_store ob)(a := None)) b"
      using a by (auto simp: live_faces_def)
    then show ?thesis
      using assms a True by (auto simp: flush_group_def wf_obj_def)
  next
    case False
    then have "live_faces (ob_store ob) a"
      using a by (simp add: live_faces_def)
    then show ?thesis
      using assms a False by (auto simp: flush_group_def wf_obj_def)
  qed
qed

lemma find_group_found:
  assumes "\<forall>a \<in> set as. st a \<noteq> None"
  shows "\<exists>r. find_group st n as found = Some r \<and> (r = found \<or> (\<exists>a \<in> set as. r = Some a))"
  using assms
proof (induction as arbitrary: found)
  case (Cons a as)
  then obtain g where "st a = Some g" by auto
  then show ?case
    using Cons.IH [of "if fg_mtl g = n then Some a else found"] Cons.prems by (auto split: if_splits)
qed simp

lemma use_material_wf:
  assumes "wf_obj ob"
  shows "(\<forall>ob1. use_material counts n ob = Some ob1 \<longrightarrow> wf_obj ob1)
    \<and> (use_material counts n ob = None \<longrightarrow> length counts \<le> length (ob_vertex_groups ob))"
proof -
  obtain ob1 where fl: "flush_group ob = Some ob1"
    and c: "\<And>a. ob_store ob1 a \<noteq> None \<Longrightarrow> wf_obj (ob1\<lparr>ob_current := Some a\<rparr>)"
    and g: "\<forall>a \<in> set (gr_face_groups (ob_group ob1)). live_faces (ob_store ob1) a"
    and v: "\<forall>vg \<in> set (ob_vertex_groups ob1). \<forall>a \<in> set (gr_face_groups vg). live_faces (ob_store ob1) a"
    and b: "\<forall>a \<in> dom (ob_store ob1). a < ob_next ob1" and same: "ob_vertex_groups ob1 = ob_vertex_groups ob"
    using flush_group_wf [OF assms] by blast
  have alive: "\<forall>a \<in> set (gr_face_groups (ob_group ob1)). ob_store ob1 a \<noteq> None"
    using g by (auto simp: live_faces_def)
  then obtain r where r: "find_group (ob_store ob1) n (gr_face_groups (ob_group ob1)) None = Some r"
    "r = None \<or> (\<exists>a \<in> set (gr_face_groups (ob_group ob1)). r = Some a)"
    using find_group_found by blast
  have fresh: "live_faces ((ob_store ob1)(ob_next ob1 \<mapsto> x)) a" if "live_faces (ob_store ob1) a" for a x
    using that b by (force simp: live_faces_def)
  show ?thesis
  proof (cases r)
    case None
    show ?thesis
      using g v b fresh by (auto simp: use_material_def fl r None same wf_obj_def less_Suc_eq)
  next
    case (Some a)
    then show ?thesis
      using r(2) alive c by (auto simp: use_material_def fl r)
  qed
qed

text \<open>A line keeps this; the only access outside a vector is that of \<open>usemtl\<close> to \<open>object_face_count\<close>.\<close>

lemma obj_line_wf:
  assumes "wf_obj ob"
  shows "(\<forall>ob1. obj_line counts line ob = Some ob1 \<longrightarrow> wf_obj ob1)
    \<and> (obj_line counts line ob = None \<longrightarrow> length counts \<le> length (ob_vertex_groups ob))"
proof -
  obtain ident ss where w: "get_word (ob_identifier ob) (istr line) = (ident, ss)" by force
  let ?ob = "ob\<lparr>ob_identifier := ident\<rparr>"
  have wf: "wf_obj ?ob"
    by (rule wf_obj_frame [OF assms]) simp_all
  obtain a g where a: "ob_current ob = Some a" "ob_store ob a = Some g"
    using assms by (auto simp: wf_obj_def)
  have face: "live_faces ((ob_store ob)(a \<mapsto> push_face ff g)) b" if "live_faces (ob_store ob) b" for b ff
    using that a by (cases ff) (auto simp: live_faces_def push_face_def)
  consider "ident = ''v''" | "ident = ''vt''" | "ident = ''vn''" | "ident = ''o''"
    | "ident = ''usemtl''" | "ident = ''f''" | "ident \<notin> {''v'', ''vt'', ''vn'', ''o'', ''usemtl'', ''f''}"
    by blast
  then show ?thesis
  proof cases
    case 4
    then show ?thesis
      using wf by (auto simp: obj_line_def w Let_def wf_obj_def)
  next
    case 5
    then show ?thesis
      using use_material_wf [OF wf] by (simp add: obj_line_def w Let_def)
  next
    case 6
    then show ?thesis
      using assms a face by (auto simp: obj_line_def w Let_def wf_obj_def)
  qed (use wf in \<open>auto simp: obj_line_def w Let_def split: prod.split intro: wf_obj_frame\<close>)
qed

lemma run_lines_wf:
  assumes "run_lines counts ls ob = Some ob1" and "wf_obj ob"
  shows "wf_obj ob1"
  using assms
proof (induction ls arbitrary: ob)
  case (Cons l ls)
  then show ?case
    using obj_line_wf [of ob counts l] by (auto split: option.splits)
qed simp

text \<open>The material file changes materials and textures only.\<close>

definition same_groups :: "obj \<Rightarrow> obj \<Rightarrow> bool" where
  "same_groups ob ob1 \<longleftrightarrow> ob_store ob1 = ob_store ob \<and> ob_vertex_groups ob1 = ob_vertex_groups ob \<and> ob_group ob1 = ob_group ob
     \<and> ob_current ob1 = ob_current ob \<and> ob_next ob1 = ob_next ob \<and> ob_identifier ob1 = ob_identifier ob"

lemma wf_obj_same: "same_groups ob ob1 \<Longrightarrow> wf_obj ob \<Longrightarrow> wf_obj ob1"
  by (auto simp: same_groups_def intro: wf_obj_frame)

lemma on_mtl_same: "on_mtl c f ob = Some ob1 \<Longrightarrow> same_groups ob ob1"
  by (auto simp: on_mtl_def same_groups_def split: option.splits)

lemma load_texture_same: "same_groups ob ob1 \<Longrightarrow> same_groups ob (load_texture n ob1)"
  by (simp add: load_texture_def same_groups_def)

lemma mtl_line_same:
  assumes "mtl_line line (c, ob) = Some (c1, ob1)"
  shows "same_groups ob ob1"
proof -
  obtain w ss where w: "get_word [] (istr line) = (w, ss)" by force
  have put: "same_groups ob (ob\<lparr>ob_materials := x\<rparr>)" for x
    by (simp add: same_groups_def)
  have self: "same_groups ob1 ob1"
    by (simp add: same_groups_def)
  show ?thesis
    using assms unfolding mtl_line_def prod.case w Let_def
    by (elim if_Some) (auto simp: put self intro: load_texture_same on_mtl_same)
qed

lemma mtl_lines_same: "mtl_lines ls (c, ob) = Some (c1, ob1) \<Longrightarrow> same_groups ob ob1"
proof (induction ls arbitrary: c ob)
  case Nil
  then show ?case by (simp add: same_groups_def)
next
  case (Cons l ls)
  then obtain c2 ob2 where "mtl_line l (c, ob) = Some (c2, ob2)" "mtl_lines ls (c2, ob2) = Some (c1, ob1)"
    by (auto split: option.splits)
  then show ?case
    using mtl_line_same Cons.IH by (fastforce simp: same_groups_def)
qed

lemma pre_lines_same: "pre_lines texts ls (oc, counts, ob) = Some (oc1, counts1, ob1) \<Longrightarrow> same_groups ob ob1"
proof (induction ls arbitrary: oc counts ob)
  case Nil
  then show ?case by (simp add: same_groups_def)
next
  case (Cons l ls)
  then obtain oc2 counts2 ob2 where l: "pre_line texts l (oc, counts, ob) = Some (oc2, counts2, ob2)"
    and ls: "pre_lines texts ls (oc2, counts2, ob2) = Some (oc1, counts1, ob1)"
    by (auto split: option.splits)
  have "same_groups ob ob2"
    using l mtl_lines_same
    by (fastforce simp: pre_line_def ParseMTL_def same_groups_def Let_def split: if_splits option.splits)
  then show ?case
    using Cons.IH [OF ls] by (simp add: same_groups_def)
qed

lemma obj_Parse_live:
  assumes "obj_Parse texts text = Some ob"
  shows "\<forall>vg \<in> set (ob_vertex_groups ob). \<forall>a \<in> set (gr_face_groups vg). ob_store ob a \<noteq> None"
proof -
  obtain oc counts ob0 ob1 ob2 where pre: "pre_lines texts (obj_lines text) (0, [], new_obj) = Some (oc, counts, ob0)"
    and run: "run_lines counts (obj_lines text) ob0 = Some ob1" and fl: "flush_group ob1 = Some ob2"
    and ob: "ob = ob2\<lparr>ob_vertex_groups := ob_vertex_groups ob2 @ [ob_group ob2]\<rparr>"
    using assms by (auto simp: obj_Parse_def split: option.splits)
  have "wf_obj ob1"
    using run_lines_wf [OF run] wf_obj_same [OF pre_lines_same [OF pre] wf_new_obj] by blast
  then show ?thesis
    using flush_group_wf [of ob1] fl unfolding ob live_faces_def by fastforce
qed

subsection \<open>Files of objects\<close>

text \<open>
  What both passes take for the identifier of a line, if it is a plain line: the word before
  the first blank.
\<close>

definition line_word :: "string \<Rightarrow> string" where
  "line_word l = takeWhile (\<lambda>c. c \<noteq> CHR '' '') l"

definition plain_line :: "string \<Rightarrow> bool" where
  "plain_line l \<longleftrightarrow> line_word l \<noteq> [] \<and> (\<forall>c \<in> set (line_word l). \<not> is_space c) \<and> line_word l \<noteq> ''mtllib''"

lemma plain_line_word:
  assumes "plain_line l"
  shows "\<exists>ss. get_word old (istr l) = (line_word l, ss)"
proof -
  have split: "l = [] @ line_word l @ dropWhile (\<lambda>c. c \<noteq> CHR '' '') l"
    by (simp add: line_word_def)
  have rest: "dropWhile (\<lambda>c. c \<noteq> CHR '' '') l = [] \<or> is_space (hd (dropWhile (\<lambda>c. c \<noteq> CHR '' '') l))"
    using hd_dropWhile [of "\<lambda>c. c \<noteq> CHR '' ''" l] by (cases "dropWhile (\<lambda>c. c \<noteq> CHR '' '') l = []") (auto simp: is_space_def)
  show ?thesis
    using get_word_plain [of "istr l" "[]" "line_word l", OF _ _ _ _ _ _ rest] assms split
    by (auto simp: plain_line_def istr_def)
qed

text \<open>Every face and every material belongs to an object, and every object has a face.\<close>

fun good_objects :: "bool \<Rightarrow> bool \<Rightarrow> string list \<Rightarrow> bool" where
  "good_objects started faces [] = faces"
| "good_objects started faces (l # ls) =
     (if line_word l = ''o'' then (started \<longrightarrow> faces) \<and> good_objects True False ls
      else if line_word l = ''f'' then started \<and> good_objects True True ls
      else good_objects started faces ls)"

definition object_lines :: "string list \<Rightarrow> nat" where
  "object_lines ls = length (filter (\<lambda>l. line_word l = ''o'') ls)"

lemma pre_lines_objects:
  assumes "good_objects started faces ls" and "\<forall>l \<in> set ls. plain_line l" and "started \<longleftrightarrow> 0 < oc"
    and "faces \<longrightarrow> started" and "length counts = (if faces then oc else oc - 1)"
  shows "\<exists>counts1. pre_lines texts ls (oc, counts, ob) = Some (oc + object_lines ls, counts1, ob)
    \<and> length counts1 = oc + object_lines ls \<and> 0 < length counts1"
  using assms
proof (induction ls arbitrary: started faces oc counts)
  case Nil
  then show ?case by (simp add: object_lines_def del: length_greater_0_conv)
next
  case (Cons l ls)
  have no_lib: "line_word l \<noteq> ''mtllib''"
    using Cons.prems(2) by (simp add: plain_line_def)
  consider "line_word l = ''o''" | "line_word l = ''f''" | "line_word l \<noteq> ''o''" "line_word l \<noteq> ''f''" by blast
  then show ?case
  proof cases
    case 1
    then have "pre_line texts l (oc, counts, ob) = Some (Suc oc, counts, ob)"
      by (simp add: pre_line_def line_word_def Let_def)
    moreover have "length counts = oc"
      using Cons.prems 1 by (cases started) auto
    ultimately show ?thesis
      using Cons.IH [of True False "Suc oc" counts] Cons.prems 1 by (auto simp: object_lines_def)
  next
    case 2
    then have started and "0 < oc" using Cons.prems by auto
    have "faces \<longrightarrow> counts \<noteq> []"
      using \<open>0 < oc\<close> Cons.prems(5) by auto
    then have "\<exists>counts1. pre_line texts l (oc, counts, ob) = Some (oc, counts1, ob) \<and> length counts1 = oc"
      using 2 \<open>0 < oc\<close> Cons.prems(5) by (cases faces) (auto simp: pre_line_def line_word_def Let_def)
    then show ?thesis
      using Cons.IH [of True True oc] Cons.prems 2 by (auto simp: object_lines_def)
  next
    case 3
    then have "pre_line texts l (oc, counts, ob) = Some (oc, counts, ob)"
      using no_lib by (simp add: pre_line_def line_word_def Let_def)
    then show ?thesis
      using Cons.IH [of started faces oc counts] Cons.prems 3 by (auto simp: object_lines_def)
  qed
qed

text \<open>Before the first object no face has been seen; each later one adds at most one vertex group.\<close>

definition no_face_yet :: "obj \<Rightarrow> bool" where
  "no_face_yet ob \<longleftrightarrow> gr_face_groups (ob_group ob) = []
     \<and> (\<exists>a g. ob_current ob = Some a \<and> ob_store ob a = Some g \<and> fg_faces g = [])"

lemma use_material_groups:
  assumes "use_material counts n ob = Some ob1"
  shows "ob_vertex_groups ob1 = ob_vertex_groups ob" "no_face_yet ob \<Longrightarrow> no_face_yet ob1"
  using assms by (auto simp: use_material_def flush_group_def no_face_yet_def split: option.splits if_splits)

lemma obj_line_groups:
  assumes "obj_line counts l ob = Some ob1" and "plain_line l"
  shows "line_word l \<noteq> ''o'' \<Longrightarrow> ob_vertex_groups ob1 = ob_vertex_groups ob"
    "line_word l = ''o'' \<Longrightarrow> length (ob_vertex_groups ob1) \<le> Suc (length (ob_vertex_groups ob))"
    "line_word l = ''o'' \<Longrightarrow> no_face_yet ob \<Longrightarrow> ob_vertex_groups ob1 = ob_vertex_groups ob"
    "line_word l \<noteq> ''f'' \<Longrightarrow> no_face_yet ob \<Longrightarrow> no_face_yet ob1"
proof -
  obtain ss where w: "get_word (ob_identifier ob) (istr l) = (line_word l, ss)"
    using plain_line_word [OF assms(2)] by blast
  let ?ob = "ob\<lparr>ob_identifier := line_word l\<rparr>"
  have um: "use_material counts n ?ob = Some ob1 \<Longrightarrow> ob_vertex_groups ob1 = ob_vertex_groups ob" for n
    using use_material_groups(1) by fastforce
  have nf: "no_face_yet ?ob = no_face_yet ob"
    by (simp add: no_face_yet_def)
  show "line_word l \<noteq> ''o'' \<Longrightarrow> ob_vertex_groups ob1 = ob_vertex_groups ob"
    using assms(1) um by (auto simp: obj_line_def w Let_def split: if_splits option.splits prod.splits)
  show "line_word l = ''o'' \<Longrightarrow> length (ob_vertex_groups ob1) \<le> Suc (length (ob_vertex_groups ob))"
    using assms(1) by (auto simp: obj_line_def w Let_def)
  show "line_word l = ''o'' \<Longrightarrow> no_face_yet ob \<Longrightarrow> ob_vertex_groups ob1 = ob_vertex_groups ob"
    using assms(1) by (auto simp: obj_line_def w Let_def no_face_yet_def)
  show "no_face_yet ob1" if "line_word l \<noteq> ''f''" "no_face_yet ob"
  proof (cases "line_word l = ''usemtl''")
    case True
    then show ?thesis
      using assms(1) use_material_groups(2) that nf by (simp add: obj_line_def w Let_def)
  next
    case False
    then show ?thesis
      using assms(1) that by (auto simp: obj_line_def w Let_def no_face_yet_def split: if_splits prod.splits)
  qed
qed

lemma run_lines_objects:
  assumes "good_objects (0 < n) faces ls" and "\<forall>l \<in> set ls. plain_line l" and "wf_obj ob"
    and "n + object_lines ls \<le> length counts" and "counts \<noteq> []"
    and "length (ob_vertex_groups ob) \<le> n - 1" and "n = 0 \<longrightarrow> no_face_yet ob"
  shows "run_lines counts ls ob \<noteq> None"
  using assms
proof (induction ls arbitrary: n faces ob)
  case (Cons l ls)
  have "length (ob_vertex_groups ob) < length counts"
    using Cons.prems(4-6) by (cases counts) auto
  then obtain ob1 where l: "obj_line counts l ob = Some ob1" and wf: "wf_obj ob1"
    using obj_line_wf [OF Cons.prems(3), of counts l] by (cases "obj_line counts l ob") auto
  have plain: "plain_line l" using Cons.prems(2) by simp
  note groups = obj_line_groups [OF l plain]
  have "run_lines counts ls ob1 \<noteq> None"
  proof (cases "line_word l = ''o''")
    case True
    have "length (ob_vertex_groups ob1) \<le> Suc n - 1"
      using groups(2,3) True Cons.prems(6,7) by (cases n) auto
    then show ?thesis
      using Cons.IH [of "Suc n" False ob1] Cons.prems True wf by (simp add: object_lines_def)
  next
    case False
    have "good_objects (0 < n) (faces \<or> line_word l = ''f'') ls"
      using Cons.prems(1) False by (cases "0 < n") (auto split: if_splits)
    moreover have "n = 0 \<longrightarrow> no_face_yet ob1"
      using groups(4) Cons.prems(1,7) False by (cases "line_word l = ''f''") auto
    ultimately show ?thesis
      using Cons.IH [of n "faces \<or> line_word l = ''f''" ob1] Cons.prems False wf groups(1) by (simp add: object_lines_def)
  qed
  then show ?case by (simp add: l)
qed simp

lemma no_face_yet_new: "no_face_yet new_obj"
  by (simp add: no_face_yet_def new_obj_def)

lemma objects_parse:
  assumes "good_objects False False (obj_lines text)" and "\<forall>l \<in> set (obj_lines text). plain_line l"
  shows "\<exists>ob. obj_Parse texts text = Some ob"
proof -
  obtain counts where pre: "pre_lines texts (obj_lines text) (0, [], new_obj) = Some (object_lines (obj_lines text), counts, new_obj)"
    and counts: "length counts = object_lines (obj_lines text)" "counts \<noteq> []"
    using pre_lines_objects [OF assms, of 0 "[]"] by auto
  then obtain ob1 where run: "run_lines counts (obj_lines text) new_obj = Some ob1"
    using run_lines_objects [of 0 False "obj_lines text" new_obj counts] assms wf_new_obj no_face_yet_new
    by (auto simp: new_obj_def)
  then obtain ob2 where "flush_group ob1 = Some ob2"
    using flush_group_wf [OF run_lines_wf [OF run wf_new_obj]] by blast
  then show ?thesis
    using pre run by (simp add: obj_Parse_def)
qed

text \<open>An object with one face, the smallest such file.\<close>

definition one_face_text :: string where
  "one_face_text = ''o A'' @ [CHR 0x0A] @ ''f 1/1/1 2/2/2 3/3/3'' @ [CHR 0x0A]"

lemma one_face_good: "good_objects False False (obj_lines one_face_text) \<and> (\<forall>l \<in> set (obj_lines one_face_text). plain_line l)"
  by code_simp

text \<open>C24: When an object file was parsed, its meshes are made without a failing access: one mesh
  for each object group, whose vertices are the corners of the group's faces in order, whose
  indices name each vertex once, in order, and whose material groups, one for each face
  group, divide the indices.
\<close>

theorem obj_meshes:
  assumes "obj_Parse texts text = Some ob"
  shows "\<exists>ms. obj_Create texts text = Some ms \<and> list_all2 (mesh_of ob) (ob_vertex_groups ob) ms"
  using PopulateMeshGroups_result [OF obj_Parse_live [OF assms]] by (simp add: obj_Create_def assms)

theorem obj_meshes_witness:
  "\<exists>ob ms. obj_Parse (\<lambda>_. None) one_face_text = Some ob \<and> obj_Create (\<lambda>_. None) one_face_text = Some ms
     \<and> list_all2 (mesh_of ob) (ob_vertex_groups ob) ms"
  using objects_parse obj_meshes one_face_good by blast

text \<open>A file in which every face belongs to an object and every object has a face is parsed:
  no access to the counts of the first pass or to a face group fails.
\<close>

theorem obj_objects_parse:
  assumes "good_objects False False (obj_lines text)" and "\<forall>l \<in> set (obj_lines text). plain_line l"
  shows "\<exists>ob. obj_Parse texts text = Some ob"
  by (rule objects_parse [OF assms])

theorem obj_objects_parse_witness: "\<exists>ob. obj_Parse (\<lambda>_. None) one_face_text = Some ob"
  using obj_objects_parse one_face_good by blast

text \<open>The comment calls the lines with \<open>o\<close> optional, but a face before the first of them makes
  the first pass use an element before the counts.
\<close>

theorem obj_face_without_object:
  assumes "obj_lines text = ls @ l # ms" and "line_word l = ''f''" and "\<forall>k \<in> set ls. line_word k \<noteq> ''o''"
  shows "obj_Parse texts text = None"
proof -
  have "pre_lines texts (ls @ l # ms) (0, counts, ob) = None" for counts ob
    using assms(3)
  proof (induction ls arbitrary: counts ob)
    case Nil
    then show ?case
      using assms(2) by (simp add: pre_line_def line_word_def Let_def)
  next
    case (Cons k ls)
    show ?case
    proof (cases "pre_line texts k (0, counts, ob)")
      case (Some st)
      obtain oc counts1 ob1 where "st = (oc, counts1, ob1)" by (cases st)
      moreover have "oc = 0"
        using Some Cons.prems calculation by (auto simp: pre_line_def line_word_def Let_def split: if_splits option.splits)
      ultimately show ?thesis
        using Cons Some by simp
    qed simp
  qed
  then show ?thesis
    by (simp add: obj_Parse_def assms(1))
qed

theorem obj_face_without_object_witness: "obj_Parse (\<lambda>_. None) (''v 0 0 0'' @ [CHR 0x0A] @ ''f 1 1 1'' @ [CHR 0x0A]) = None"
proof (rule obj_face_without_object [where ls = "[''v 0 0 0'']" and l = "''f 1 1 1''" and ms = "[]"])
  show "obj_lines (''v 0 0 0'' @ [CHR 0x0A] @ ''f 1 1 1'' @ [CHR 0x0A]) = [''v 0 0 0''] @ ''f 1 1 1'' # []"
    by code_simp
qed (simp_all add: line_word_def)

text \<open>
  A material that an object uses a second time: the pointer to its face group is stored a
  second time at the next \<open>usemtl\<close>, and the destructor deletes it twice.
\<close>

lemma material_reused_twice:
  "map_option (\<lambda>ob. gr_face_groups (ob_group ob))
     (run_lines [9] [''usemtl a'', ''f'', ''usemtl b'', ''f'', ''usemtl a'', ''f'', ''usemtl b''] new_obj)
   = Some [1, 2, 1]"
  by code_simp

text \<open>The name of an object goes to the faces of the one before it, if its faces use one material each.\<close>

lemma faces_move_to_next_object:
  "map_option (\<lambda>ob. (ob_vertex_groups ob, gr_name (ob_group ob), gr_face_groups (ob_group ob)))
     (run_lines [3, 3] [''o A'', ''usemtl a'', ''f'', ''o B'', ''usemtl b'', ''f''] new_obj)
   = Some ([], ''B'', [1])"
  by code_simp

subsection \<open>Faces as exporters write them\<close>

text \<open>The corner of a face: position, texture coordinate or none, and normal.\<close>

definition corner_text :: "nat \<times> nat option \<times> nat \<Rightarrow> string" where
  "corner_text c = (case c of
      (p, Some t, n) \<Rightarrow> to_string p @ ''/'' @ to_string t @ ''/'' @ to_string n
    | (p, None, n) \<Rightarrow> to_string p @ ''//'' @ to_string n)"

definition face_text :: "(nat \<times> nat option \<times> nat) list \<Rightarrow> string" where
  "face_text cs = ''f'' @ concat (map (\<lambda>c. '' '' @ corner_text c) cs)"

definition uv_number :: "nat option \<Rightarrow> nat" where
  "uv_number t = (case t of None \<Rightarrow> 0 | Some n \<Rightarrow> n)"

definition small_corner :: "nat \<times> nat option \<times> nat \<Rightarrow> bool" where
  "small_corner c \<longleftrightarrow> fst c < 2 ^ 32 \<and> uv_number (fst (snd c)) < 2 ^ 32 \<and> snd (snd c) < 2 ^ 32"

definition triangle :: "(nat \<times> nat option \<times> nat) \<Rightarrow> (nat \<times> nat option \<times> nat) \<Rightarrow> (nat \<times> nat option \<times> nat) \<Rightarrow> face" where
  "triangle a b c = \<lparr>fc_pos = [of_nat (fst a), of_nat (fst b), of_nat (fst c)],
     fc_uv = [of_nat (uv_number (fst (snd a))), of_nat (uv_number (fst (snd b))), of_nat (uv_number (fst (snd c)))],
     fc_norm = [of_nat (snd (snd a)), of_nat (snd (snd b)), of_nat (snd (snd c))]\<rparr>"

lemma fill_slashes_digits:
  assumes "\<forall>c \<in> set ds. is_digit c"
  shows "fill_slashes (ds @ rest) = ds @ fill_slashes rest"
  using assms
proof (induction ds)
  case (Cons c ds)
  then have "c \<noteq> CHR ''/''" by (auto simp: is_digit_def)
  then show ?case
    using Cons by (cases "ds @ rest") auto
qed simp

lemma split_slashes_digits:
  assumes "\<forall>c \<in> set ds. is_digit c"
  shows "split_slashes (ds @ rest) = ds @ split_slashes rest"
proof -
  have "map (\<lambda>c. if c = CHR ''/'' then CHR '' '' else c) ds = ds"
    using assms by (intro map_idI) (auto simp: is_digit_def)
  then show ?thesis
    by (simp add: split_slashes_def fill_slashes_digits [OF assms])
qed

lemmas split_slashes_number = split_slashes_digits [OF ballI, OF to_string_digits]

lemma split_slashes_sep:
  "rest = [] \<or> hd rest \<noteq> CHR ''/'' \<Longrightarrow> split_slashes (CHR ''/'' # rest) = CHR '' '' # split_slashes rest"
  "split_slashes (CHR '' '' # rest) = CHR '' '' # split_slashes rest"
  by (cases rest; simp add: split_slashes_def)+

lemma split_slashes_double: "split_slashes (CHR ''/'' # CHR ''/'' # rest) = '' 0 '' @ split_slashes rest"
  by (simp add: split_slashes_def)

lemma to_string_start: "hd (to_string n @ rest) \<noteq> CHR ''/'' \<and> hd (to_string n @ rest) \<noteq> CHR '' ''"
proof -
  obtain c cs where "to_string n = c # cs" "is_digit c"
    using to_string_hd by blast
  then show ?thesis by (auto simp: is_digit_def)
qed

text \<open>A corner with blanks for slashes, as the stream of the face gets it.\<close>

definition corner_blank :: "nat \<times> nat option \<times> nat \<Rightarrow> string" where
  "corner_blank c = to_string (fst c) @ '' '' @ to_string (uv_number (fst (snd c))) @ '' '' @ to_string (snd (snd c))"

lemma to_string_0: "to_string 0 = ''0''"
  by code_simp

lemma split_slashes_corner: "split_slashes (corner_text c @ rest) = corner_blank c @ split_slashes rest"
proof -
  obtain p t n where c: "c = (p, t, n)" by (cases c) auto
  show ?thesis
    using to_string_start
    by (cases t) (simp_all add: c corner_text_def corner_blank_def uv_number_def split_slashes_number
        split_slashes_double split_slashes_sep to_string_0)
qed

lemma get_triple_corner:
  assumes "is_eof s = False" and "is_fail s = False" and "is_rest s = '' '' @ corner_blank c @ rest \<or> is_rest s = corner_blank c @ rest"
    and "rest = [] \<or> hd rest = CHR '' ''" and "small_corner c"
  shows "get_triple s = ((of_nat (fst c), of_nat (uv_number (fst (snd c))), of_nat (snd (snd c))),
    s\<lparr>is_rest := rest, is_eof := (rest = []), is_fail := False\<rparr>)"
proof -
  obtain w where w: "is_rest s = w @ corner_blank c @ rest" "\<forall>c \<in> set w. is_space c"
    using assms(3) by (auto simp: is_space_def)
  let ?p = "fst c" and ?t = "uv_number (fst (snd c))" and ?n = "snd (snd c)"
  have blank: "\<not> is_digit (CHR '' '')" by (simp add: is_digit_def)
  have 1: "get_unsigned 0 s = (of_nat ?p, consume ('' '' @ to_string ?t @ '' '' @ to_string ?n @ rest) False s)"
    using get_unsigned_to_string [of s w ?p "'' '' @ to_string ?t @ '' '' @ to_string ?n @ rest"] assms w blank
    by (simp add: corner_blank_def small_corner_def)
  have 2: "get_unsigned 0 (consume ('' '' @ to_string ?t @ '' '' @ to_string ?n @ rest) False s)
    = (of_nat ?t, consume ('' '' @ to_string ?n @ rest) False s)"
    using get_unsigned_to_string [of "consume ('' '' @ to_string ?t @ '' '' @ to_string ?n @ rest) False s" "'' ''" ?t "'' '' @ to_string ?n @ rest"] assms blank
    by (simp add: consume_def small_corner_def is_space_def)
  have 3: "get_unsigned 0 (consume ('' '' @ to_string ?n @ rest) False s) = (of_nat ?n, consume rest False s)"
    using get_unsigned_to_string [of "consume ('' '' @ to_string ?n @ rest) False s" "'' ''" ?n rest] assms blank
    by (auto simp: consume_def small_corner_def is_space_def)
  show ?thesis
    unfolding get_triple_def 1 prod.case Let_def 2 3 by (simp add: consume_def)
qed

lemma split_slashes_corner_end: "split_slashes (corner_text c) = corner_blank c"
  using split_slashes_corner [of c "[]"] by (simp add: split_slashes_def)

lemma slash_in_corner: "CHR ''/'' \<in> set (corner_text c)"
  by (cases c; cases "fst (snd c)") (auto simp: corner_text_def)

lemma parse_face_triangle:
  assumes "small_corner a" and "small_corner b" and "small_corner c"
  shows "parse_face (face_text [a, b, c]) = (triangle a b c, None)"
proof -
  have body: "after_blank (face_text [a, b, c]) = corner_text a @ '' '' @ corner_text b @ '' '' @ corner_text c"
    by (simp add: after_blank_def face_text_def)
  have split: "split_slashes (corner_text a @ '' '' @ corner_text b @ '' '' @ corner_text c)
    = corner_blank a @ '' '' @ corner_blank b @ '' '' @ corner_blank c"
    by (simp add: split_slashes_corner split_slashes_sep split_slashes_corner_end)
  show ?thesis
    using assms
    by (simp add: parse_face_def body slash_in_corner Let_def split [simplified] istr_def triangle_def
        get_triple_corner [where c = a and rest = "'' '' @ corner_blank b @ '' '' @ corner_blank c"]
        get_triple_corner [where c = b and rest = "'' '' @ corner_blank c"] get_triple_corner [where c = c and rest = "[]"])
qed

lemma parse_face_quad:
  assumes "small_corner a" and "small_corner b" and "small_corner c" and "small_corner d"
  shows "parse_face (face_text [a, b, c, d]) = (triangle a b c, Some (triangle c d a))"
proof -
  have body: "after_blank (face_text [a, b, c, d]) = corner_text a @ '' '' @ corner_text b @ '' '' @ corner_text c @ '' '' @ corner_text d"
    by (simp add: after_blank_def face_text_def)
  have split: "split_slashes (corner_text a @ '' '' @ corner_text b @ '' '' @ corner_text c @ '' '' @ corner_text d)
    = corner_blank a @ '' '' @ corner_blank b @ '' '' @ corner_blank c @ '' '' @ corner_blank d"
    by (simp add: split_slashes_corner split_slashes_sep split_slashes_corner_end)
  show ?thesis
    using assms
    by (simp add: parse_face_def body slash_in_corner Let_def split [simplified] istr_def triangle_def
        get_triple_corner [where c = a and rest = "'' '' @ corner_blank b @ '' '' @ corner_blank c @ '' '' @ corner_blank d"]
        get_triple_corner [where c = b and rest = "'' '' @ corner_blank c @ '' '' @ corner_blank d"]
        get_triple_corner [where c = c and rest = "'' '' @ corner_blank d"] get_triple_corner [where c = d and rest = "[]"])
qed

text \<open>A face written with three or four corners, with or without texture coordinates, is read
  back: a triangle as itself, a quadrilateral as two triangles that share a diagonal.
\<close>

theorem face_roundtrip:
  assumes "\<forall>c \<in> {a, b, c, d}. small_corner c"
  shows "parse_face (face_text [a, b, c]) = (triangle a b c, None)
    \<and> parse_face (face_text [a, b, c, d]) = (triangle a b c, Some (triangle c d a))"
  using assms parse_face_triangle parse_face_quad by simp

theorem face_roundtrip_witness:
  "parse_face (face_text [(1, Some 4, 2), (2, Some 5, 2), (3, Some 6, 2)])
     = (triangle (1, Some 4, 2) (2, Some 5, 2) (3, Some 6, 2), None)
   \<and> parse_face (face_text [(1, Some 4, 2), (2, Some 5, 2), (3, Some 6, 2), (4, None, 2)])
     = (triangle (1, Some 4, 2) (2, Some 5, 2) (3, Some 6, 2), Some (triangle (3, Some 6, 2) (4, None, 2) (1, Some 4, 2)))"
  by (rule face_roundtrip) (simp add: small_corner_def uv_number_def)

subsection \<open>Blank lines\<close>

text \<open>What a vertex line adds.\<close>

definition line_position :: "string \<Rightarrow> num vec3" where
  "line_position l = fst (get_vec3 (snd (get_word [] (istr l))))"

definition no_value :: "num vec3" where
  "no_value = \<lparr>vx = None, vy = None, vz = None\<rparr>"

lemma obj_lines_eol:
  assumes "\<forall>c \<in> set l. \<not> is_eol c" and "is_eol e"
  shows "obj_lines (l @ e # rest) = l # obj_lines rest"
  using assms by (subst obj_lines.simps) (simp add: takeWhile_append2 dropWhile_append2)

lemma obj_lines_crlf:
  assumes "\<forall>l \<in> set ls. \<forall>c \<in> set l. \<not> is_eol c"
  shows "obj_lines (concat (map (\<lambda>l. l @ [CHR 0x0D, CHR 0x0A]) ls)) = concat (map (\<lambda>l. [l, []]) ls)"
  using assms
proof (induction ls)
  case Nil
  then show ?case by (simp add: obj_lines.simps)
next
  case (Cons l ls)
  let ?rest = "concat (map (\<lambda>l. l @ [CHR 0x0D, CHR 0x0A]) ls)"
  have "obj_lines (l @ CHR 0x0D # CHR 0x0A # ?rest) = l # obj_lines (CHR 0x0A # ?rest)"
    using Cons.prems by (intro obj_lines_eol) (simp_all add: is_eol_def)
  moreover have "obj_lines ([] @ CHR 0x0A # ?rest) = [] # obj_lines ?rest"
    by (intro obj_lines_eol) (simp_all add: is_eol_def)
  ultimately show ?case
    using Cons by simp
qed

lemma blank_line_vertex:
  assumes "ob_identifier ob = ''v''"
  shows "obj_line counts [] ob = Some (ob\<lparr>ob_positions := ob_positions ob @ [no_value]\<rparr>)"
  using assms
  by (simp add: obj_line_def istr_def get_word_def sentry_def Let_def get_vec3_def get_float_def no_value_def)

lemma vertex_line:
  assumes "plain_line l" and "line_word l = ''v''"
  shows "obj_line counts l ob = Some (ob\<lparr>ob_identifier := ''v'', ob_positions := ob_positions ob @ [line_position l]\<rparr>)"
proof -
  obtain ss where "get_word (ob_identifier ob) (istr l) = (''v'', ss)"
    using plain_line_word [OF assms(1)] assms(2) by metis
  moreover have "snd (get_word [] (istr l)) = snd (get_word (ob_identifier ob) (istr l))"
    by (simp add: get_word_def split: prod.split bool.split)
  ultimately show ?thesis
    by (simp add: obj_line_def line_position_def)
qed

lemma crlf_vertex_lines:
  assumes "\<forall>l \<in> set ls. plain_line l \<and> line_word l = ''v''"
  shows "\<exists>ob1. run_lines counts (concat (map (\<lambda>l. [l, []]) ls)) ob = Some ob1
    \<and> ob_positions ob1 = ob_positions ob @ concat (map (\<lambda>l. [line_position l, no_value]) ls)"
  using assms
proof (induction ls arbitrary: ob)
  case (Cons l ls)
  let ?ob = "ob\<lparr>ob_identifier := ''v'', ob_positions := ob_positions ob @ [line_position l, no_value]\<rparr>"
  have "run_lines counts (concat (map (\<lambda>l. [l, []]) (l # ls))) ob = run_lines counts (concat (map (\<lambda>l. [l, []]) ls)) ?ob"
    using Cons.prems vertex_line [of l counts ob]
      blank_line_vertex [of "ob\<lparr>ob_identifier := ''v'', ob_positions := ob_positions ob @ [line_position l]\<rparr>" counts] by simp
  then show ?case
    using Cons.IH [of ?ob] Cons.prems by simp
qed simp

text \<open>In a file whose lines end with carriage return and line feed, the blank line between the
  two repeats the identifier of the line before: a list of vertices is read with a vertex of
  undefined numbers after each one, so all indices of faces name wrong vertices.
\<close>

theorem crlf_doubles_vertices:
  assumes "\<forall>l \<in> set ls. plain_line l \<and> line_word l = ''v'' \<and> (\<forall>c \<in> set l. \<not> is_eol c)"
  shows "\<exists>ob1. run_lines counts (obj_lines (concat (map (\<lambda>l. l @ [CHR 0x0D, CHR 0x0A]) ls))) ob = Some ob1
    \<and> ob_positions ob1 = ob_positions ob @ concat (map (\<lambda>l. [line_position l, no_value]) ls)"
  using assms crlf_vertex_lines obj_lines_crlf by simp

theorem crlf_doubles_vertices_witness:
  "\<exists>ob1. run_lines [] (obj_lines (concat (map (\<lambda>l. l @ [CHR 0x0D, CHR 0x0A]) [''v 1 2 3'', ''v 4 5 6'']))) new_obj = Some ob1
    \<and> ob_positions ob1 = ob_positions new_obj @ concat (map (\<lambda>l. [line_position l, no_value]) [''v 1 2 3'', ''v 4 5 6''])"
  by (rule crlf_doubles_vertices) (simp add: plain_line_def line_word_def is_space_def is_eol_def)

end
