(* ===== verification/Vertex_Buffer.thy ===== *)
theory Vertex_Buffer
  imports Complex_Main Mesh_Data Safe_Run
begin

text \<open>
  Vertex buffer objects (client/graphics/vertex-buffer-object.cpp), which put the meshes of a file
  into one vertex buffer and one index buffer of the graphics card, and the materials they name
  (client/graphics/material.cpp). A buffer is the list of its elements, \<open>None\<close> where nothing was
  written since it was allocated or mapped. Whether the driver maps a buffer and the packing functions of glm are
  parameters. Counts and offsets are natural numbers: they have 32 bits in the code, so fewer than
  \<open>2 ^ 32\<close> vertices and indices are assumed. The result \<open>None\<close> is an access outside an array or a failed assertion.
\<close>

subsection \<open>Materials\<close>

text \<open>The constants of OpenGL that the code compares with.\<close>

definition GL_POINT :: nat where "GL_POINT = 0x1B00"
definition GL_LINE :: nat where "GL_LINE = 0x1B01"
definition GL_FILL :: nat where "GL_FILL = 0x1B02"
definition GL_TRIANGLES :: nat where "GL_TRIANGLES = 4"

text \<open>\<open>GL_POINTS\<close> to \<open>GL_TRIANGLE_FAN\<close> and \<open>GL_PATCHES\<close>.\<close>

definition draw_modes :: "nat list" where
  "draw_modes = [0, 1, 2, 3, 4, 5, 6, 14]"

record material =
  mt_polygon_mode :: nat
  mt_draw_mode :: nat
  mt_textures :: "nat list"

definition new_material :: material where
  "new_material = \<lparr>mt_polygon_mode = GL_FILL, mt_draw_mode = GL_TRIANGLES, mt_textures = []\<rparr>"

definition SetPolygonMode :: "nat \<Rightarrow> material \<Rightarrow> material" where
  "SetPolygonMode mode m = m\<lparr>mt_polygon_mode := (if mode \<in> {GL_POINT, GL_LINE, GL_FILL} then mode else GL_FILL)\<rparr>"

definition SetDrawElementsMode :: "nat \<Rightarrow> material \<Rightarrow> material" where
  "SetDrawElementsMode mode m = m\<lparr>mt_draw_mode := (if mode \<in> set draw_modes then mode else GL_TRIANGLES)\<rparr>"

definition AddTexture :: "nat \<Rightarrow> material \<Rightarrow> material" where
  "AddTexture t m = m\<lparr>mt_textures := mt_textures m @ [t]\<rparr>"

definition GetTexture :: "nat \<Rightarrow> material \<Rightarrow> nat option" where
  "GetTexture i m = (if i < length (mt_textures m) then Some (mt_textures m ! i) else None)"

text \<open>\<open>MaterialMap\<close> and \<open>TextureMap\<close>; materials are objects behind shared pointers.\<close>

record graphics =
  gf_material_map :: "string \<rightharpoonup> nat"
  gf_materials :: "nat \<rightharpoonup> material"
  gf_next_material :: nat
  gf_textures :: "string \<rightharpoonup> nat"

definition Material_Create :: "string \<Rightarrow> graphics \<Rightarrow> nat \<times> graphics" where
  "Material_Create name gf =
     (gf_next_material gf, gf\<lparr>gf_material_map := (gf_material_map gf)(name \<mapsto> gf_next_material gf),
        gf_materials := (gf_materials gf)(gf_next_material gf \<mapsto> new_material), gf_next_material := Suc (gf_next_material gf)\<rparr>)"

text \<open>The material of a group: the one of that name, or a new one with the textures that are there.\<close>

definition group_material :: "material_group \<Rightarrow> graphics \<Rightarrow> nat \<times> graphics" where
  "group_material mg gf = (case gf_material_map gf (mg_material mg) of
      Some p \<Rightarrow> (p, gf)
    | None \<Rightarrow> (case Material_Create (mg_material mg) gf of
        (p, gf1) \<Rightarrow>
          let m = SetPolygonMode GL_FILL (SetDrawElementsMode GL_TRIANGLES new_material);
              m1 = fold (\<lambda>t m. case gf_textures gf1 t of None \<Rightarrow> m | Some a \<Rightarrow> AddTexture a m) (mg_textures mg) m
          in (p, gf1\<lparr>gf_materials := (gf_materials gf1)(p \<mapsto> m1)\<rparr>)))"

subsection \<open>Formats\<close>

datatype format_code = VF_BASE | VF_LITEFULL | VF_WEIGHT | VF_COLOR | VF_PWC | VF_FULL

record 'f packing =
  pack_snorm3x10 :: "'f vec3 \<Rightarrow> u32"
  pack_half2 :: "'f vec2 \<Rightarrow> u32"
  pack_unorm4 :: "'f list \<Rightarrow> u32"

text \<open>A vertex in the buffer; the parts of the larger formats that are not written are \<open>None\<close>.\<close>

datatype 'f gpu_vertex =
    Gpu_base "'f vertex"
  | Gpu_color "'f vertex" "'f list"
  | Gpu_lite "'f vec3" u32 u32 "u32 option" "(u32 \<times> byte list) option"
  | Gpu_full "'f vertex" "'f list option" "'f weight_data option"

definition at_index :: "'a list \<Rightarrow> nat \<Rightarrow> 'a option" where
  "at_index xs i = (if i < length xs then Some (xs ! i) else None)"

text \<open>An element of an array that is only read when the mesh has it.\<close>

definition at_if :: "bool \<Rightarrow> 'a list \<Rightarrow> nat \<Rightarrow> 'a option option" where
  "at_if b xs i = (if b then map_option Some (at_index xs i) else Some None)"

definition has_format :: "format_code \<Rightarrow> bool" where
  "has_format fmt \<longleftrightarrow> fmt \<notin> {VF_WEIGHT, VF_PWC}"

definition convert_vertex :: "'f packing \<Rightarrow> format_code \<Rightarrow> 'f mesh \<Rightarrow> nat \<Rightarrow> 'f gpu_vertex option" where
  "convert_vertex G fmt m i = (case at_index (ms_verts m) i of
      None \<Rightarrow> None
    | Some v \<Rightarrow> (case fmt of
        VF_BASE \<Rightarrow> Some (Gpu_base v)
      | VF_COLOR \<Rightarrow> map_option (Gpu_color v) (at_index (ms_colors m) i)
      | VF_LITEFULL \<Rightarrow>
          (case (at_if (ms_has_color m) (ms_colors m) i, at_if (ms_has_weight m) (ms_weights m) i) of
             (Some c, Some w) \<Rightarrow> Some (Gpu_lite (vt_position v) (pack_snorm3x10 G (vt_normal v)) (pack_half2 G (vt_uv v))
                (map_option (pack_unorm4 G) c) (map_option (\<lambda>d. (pack_unorm4 G (wd_weights d), map of_nat (wd_indices d))) w))
           | _ \<Rightarrow> None)
      | VF_FULL \<Rightarrow>
          (case (at_if (ms_has_color m) (ms_colors m) i, at_if (ms_has_weight m) (ms_weights m) i) of
             (Some c, Some w) \<Rightarrow> Some (Gpu_full v c w)
           | _ \<Rightarrow> None)
      | _ \<Rightarrow> None))"

subsection \<open>Buffers\<close>

record vertex_group =
  vg_material :: "nat option"
  vg_mesh_group :: nat
  vg_index_count :: nat
  vg_start :: nat

text \<open>\<open>vb_vao\<close>: the arrays and buffers have been generated.\<close>

record 'f vbo =
  vb_format :: format_code
  vb_vao :: bool
  vb_vertex_count :: nat
  vb_index_count :: nat
  vb_verts :: "'f gpu_vertex option list"
  vb_indices :: "nat option list"
  vb_groups :: "vertex_group list"
  vb_source :: "nat option"

definition new_vbo :: "format_code \<Rightarrow> 'f vbo" where
  "new_vbo fmt = \<lparr>vb_format = fmt, vb_vao = False, vb_vertex_count = 0, vb_index_count = 0, vb_verts = [],
     vb_indices = [], vb_groups = [], vb_source = None\<rparr>"

definition GetVertexGroup :: "nat \<Rightarrow> 'f vbo \<Rightarrow> vertex_group option" where
  "GetVertexGroup i vb = at_index (vb_groups vb) i"

text \<open>\<open>None\<close> is the exception of \<open>at\<close>.\<close>

definition GetVertexGroupIndexCount :: "nat \<Rightarrow> 'f vbo \<Rightarrow> nat option" where
  "GetVertexGroupIndexCount i vb = map_option vg_index_count (at_index (vb_groups vb) i)"

definition GetVertexGroupCount :: "'f vbo \<Rightarrow> nat" where
  "GetVertexGroupCount vb = length (vb_groups vb)"

text \<open>The source is a weak pointer: it is there while someone else keeps the file.\<close>

definition IsDynamic :: "(nat \<rightharpoonup> 'f mesh_file) \<Rightarrow> 'f vbo \<Rightarrow> bool" where
  "IsDynamic files vb \<longleftrightarrow> (\<exists>a. vb_source vb = Some a \<and> files a \<noteq> None)"

definition Destroy_vbo :: "'f vbo \<Rightarrow> 'f vbo" where
  "Destroy_vbo vb = vb\<lparr>vb_vao := False, vb_verts := [], vb_indices := []\<rparr>"

text \<open>
  What the driver does: \<open>gl_map_verts\<close> and \<open>gl_map_indices\<close> say whether the buffers can be mapped.
\<close>

record gl_driver =
  gl_map_verts :: bool
  gl_map_indices :: bool

definition put_at :: "nat \<Rightarrow> 'a \<Rightarrow> 'a option list \<Rightarrow> 'a option list option" where
  "put_at i x xs = (if i < length xs then Some (xs[i := Some x]) else None)"

text \<open>The state of the loop over the meshes.\<close>

record 'f loading =
  ld_vbo :: "'f vbo"
  ld_graphics :: graphics
  ld_vert_offset :: nat
  ld_index_offset :: nat

definition load_vertex :: "'f packing \<Rightarrow> 'f mesh \<Rightarrow> nat \<Rightarrow> 'f loading \<Rightarrow> 'f loading option" where
  "load_vertex G m i ld = (case convert_vertex G (vb_format (ld_vbo ld)) m i of
      None \<Rightarrow> None
    | Some x \<Rightarrow> map_option (\<lambda>vs. ld\<lparr>ld_vbo := (ld_vbo ld)\<lparr>vb_verts := vs\<rparr>\<rparr>)
        (put_at (ld_vert_offset ld + i) x (vb_verts (ld_vbo ld))))"

definition load_group :: "nat \<Rightarrow> material_group \<Rightarrow> 'f loading \<Rightarrow> 'f loading" where
  "load_group i mg ld = (case group_material mg (ld_graphics ld) of
     (p, gf) \<Rightarrow> ld\<lparr>ld_graphics := gf, ld_vbo := (ld_vbo ld)\<lparr>vb_groups := vb_groups (ld_vbo ld) @
        [\<lparr>vg_material = Some p, vg_mesh_group = i, vg_index_count = mg_count mg, vg_start = mg_start mg + ld_index_offset ld\<rparr>]\<rparr>\<rparr>)"

definition load_index :: "'f mesh \<Rightarrow> nat \<Rightarrow> 'f loading \<Rightarrow> 'f loading option" where
  "load_index m index ld =
     (if index + ld_vert_offset ld < ld_vert_offset ld + vert_count m
      then map_option (\<lambda>is. ld\<lparr>ld_vbo := (ld_vbo ld)\<lparr>vb_indices := is\<rparr>, ld_index_offset := Suc (ld_index_offset ld)\<rparr>)
             (put_at (ld_index_offset ld) (index + ld_vert_offset ld) (vb_indices (ld_vbo ld)))
      else None)"

definition load_object :: "nat \<Rightarrow> 'f mesh \<Rightarrow> object_group \<Rightarrow> 'f loading \<Rightarrow> 'f loading option" where
  "load_object i m g ld = each (load_index m) (og_indices g) (fold (load_group i) (og_materials g) ld)"

definition load_mesh :: "'f packing \<Rightarrow> nat \<times> 'f mesh \<Rightarrow> 'f loading \<Rightarrow> 'f loading option" where
  "load_mesh G im ld = (case im of (i, m) \<Rightarrow>
     (case each (load_vertex G m) [0..<vert_count m] ld of
        None \<Rightarrow> None
      | Some ld1 \<Rightarrow> (case each (load_object i m) (ms_objects m) ld1 of
          None \<Rightarrow> None
        | Some ld2 \<Rightarrow> Some (ld2\<lparr>ld_vert_offset := ld_vert_offset ld2 + vert_count m\<rparr>))))"

definition all_vertices :: "'f mesh list \<Rightarrow> nat" where
  "all_vertices ms = sum_list (map vert_count ms)"

definition all_indices :: "'f mesh list \<Rightarrow> nat" where
  "all_indices ms = sum_list (map (\<lambda>m. sum_list (map (\<lambda>g. length (og_indices g)) (ms_objects m))) ms)"

text \<open>The buffers grow if they are too small, and lose their content when they are mapped.\<close>

definition grow_buffers :: "'f mesh list \<Rightarrow> 'f vbo \<Rightarrow> 'f vbo" where
  "grow_buffers ms vb =
     (let vb1 = vb\<lparr>vb_vao := True\<rparr>;
          vb2 = (if vb_vertex_count vb1 < all_vertices ms
                 then vb1\<lparr>vb_vertex_count := all_vertices ms, vb_verts := replicate (all_vertices ms) None\<rparr> else vb1)
      in if vb_index_count vb2 < all_indices ms
         then vb2\<lparr>vb_index_count := all_indices ms, vb_indices := replicate (all_indices ms) None\<rparr> else vb2)"

definition map_verts :: "'f vbo \<Rightarrow> 'f vbo" where
  "map_verts vb = vb\<lparr>vb_verts := replicate (vb_vertex_count vb) None\<rparr>"

definition map_indices :: "'f vbo \<Rightarrow> 'f vbo" where
  "map_indices vb = vb\<lparr>vb_indices := replicate (vb_index_count vb) None\<rparr>"

definition implicit_group :: "'f mesh list \<Rightarrow> 'f vbo \<Rightarrow> 'f vbo" where
  "implicit_group ms vb = (if vb_groups vb = []
     then vb\<lparr>vb_groups := [\<lparr>vg_material = None, vg_mesh_group = 0, vg_index_count = all_indices ms, vg_start = 0\<rparr>]\<rparr> else vb)"

definition Load_vbo :: "'f packing \<Rightarrow> gl_driver \<Rightarrow> nat \<Rightarrow> 'f mesh_file \<Rightarrow> 'f vbo \<Rightarrow> graphics
    \<Rightarrow> (bool \<times> 'f vbo \<times> graphics) option" where
  "Load_vbo G D a f vb gf =
     (let ms = mf_meshes f; vb1 = vb\<lparr>vb_source := Some a, vb_groups := []\<rparr> in
      if \<not> has_format (vb_format vb) then Some (False, vb1, gf)
      else if all_vertices ms = 0 \<or> all_indices ms = 0 then Some (False, vb1, gf)
      else let vb2 = grow_buffers ms vb1 in
        if \<not> gl_map_verts D then Some (False, vb2, gf)
        else if \<not> gl_map_indices D then Some (False, map_verts vb2, gf)
        else (case each (load_mesh G) (enumerate 0 ms)
                  \<lparr>ld_vbo = map_indices (map_verts vb2), ld_graphics = gf, ld_vert_offset = 0, ld_index_offset = 0\<rparr> of
            None \<Rightarrow> None
          | Some ld \<Rightarrow> Some (True, implicit_group ms (ld_vbo ld), ld_graphics ld)))"

text \<open>\<open>Update\<close> loads the mesh again when it is dirty; the mesh is clean afterwards, whether it was loaded or not.\<close>

definition Update_vbo :: "'f packing \<Rightarrow> gl_driver \<Rightarrow> (nat \<rightharpoonup> 'f mesh_file) \<Rightarrow> 'f vbo \<Rightarrow> graphics
    \<Rightarrow> (bool \<times> 'f vbo \<times> graphics \<times> (nat \<rightharpoonup> 'f mesh_file)) option" where
  "Update_vbo G D files vb gf = (case vb_source vb of
      None \<Rightarrow> Some (False, vb, gf, files)
    | Some a \<Rightarrow> (case files a of
        None \<Rightarrow> Some (False, vb, gf, files)
      | Some f \<Rightarrow>
          if mf_dirty f
          then (case Load_vbo G D a f vb gf of
                  None \<Rightarrow> None
                | Some (ok, vb1, gf1) \<Rightarrow> Some (ok, vb1, gf1, files(a \<mapsto> f\<lparr>mf_dirty := False\<rparr>)))
          else Some (False, vb, gf, files)))"

subsection \<open>What a loaded buffer holds\<close>

text \<open>The converted vertices, the shifted indices and the groups of the meshes, one after the other.\<close>

definition mesh_indices :: "'f mesh \<Rightarrow> nat list" where
  "mesh_indices m = concat (map og_indices (ms_objects m))"

fun object_groups :: "nat \<Rightarrow> nat \<Rightarrow> object_group list \<Rightarrow> (nat \<times> nat \<times> nat) list" where
  "object_groups i n [] = []"
| "object_groups i n (g # gs) = map (\<lambda>mg. (i, mg_start mg + n, mg_count mg)) (og_materials g) @ object_groups i (n + length (og_indices g)) gs"

fun shifted_indices :: "nat \<Rightarrow> 'f mesh list \<Rightarrow> nat list" where
  "shifted_indices v [] = []"
| "shifted_indices v (m # ms) = map (\<lambda>i. i + v) (mesh_indices m) @ shifted_indices (v + vert_count m) ms"

fun mesh_groups :: "nat \<Rightarrow> nat \<Rightarrow> 'f mesh list \<Rightarrow> (nat \<times> nat \<times> nat) list" where
  "mesh_groups i n [] = []"
| "mesh_groups i n (m # ms) = object_groups i n (ms_objects m) @ mesh_groups (Suc i) (n + length (mesh_indices m)) ms"

definition group_range :: "vertex_group \<Rightarrow> nat \<times> nat \<times> nat" where
  "group_range g = (vg_mesh_group g, vg_start g, vg_index_count g)"

definition convertible :: "format_code \<Rightarrow> 'f mesh \<Rightarrow> bool" where
  "convertible fmt m \<longleftrightarrow> (\<forall>i < vert_count m. \<forall>G. convert_vertex G fmt m i \<noteq> None)"

definition converted :: "'f packing \<Rightarrow> format_code \<Rightarrow> 'f mesh \<Rightarrow> 'f gpu_vertex option list" where
  "converted G fmt m = map (convert_vertex G fmt m) [0..<vert_count m]"

lemma wf_mesh_convertible:
  assumes "wf_mesh m" and "fmt \<in> {VF_BASE, VF_LITEFULL, VF_FULL}"
  shows "convertible fmt m"
  using assms by (auto simp: convertible_def convert_vertex_def wf_mesh_def vert_count_def at_index_def at_if_def split: format_code.split)

text \<open>The materials that are known by name are there, and so are those of groups.\<close>

definition graphics_ok :: "graphics \<Rightarrow> bool" where
  "graphics_ok gf \<longleftrightarrow> (\<forall>name p. gf_material_map gf name = Some p \<longrightarrow> gf_materials gf p \<noteq> None)"

definition has_material :: "graphics \<Rightarrow> vertex_group \<Rightarrow> bool" where
  "has_material gf g \<longleftrightarrow> (\<exists>p m. vg_material g = Some p \<and> gf_materials gf p = Some m)"

definition more_materials :: "graphics \<Rightarrow> graphics \<Rightarrow> bool" where
  "more_materials gf gf1 \<longleftrightarrow> (\<forall>p. gf_materials gf p \<noteq> None \<longrightarrow> gf_materials gf1 p \<noteq> None) \<and> gf_textures gf1 = gf_textures gf"

lemma more_materials_refl [simp]: "more_materials gf gf"
  by (simp add: more_materials_def)

lemma more_materials_trans: "more_materials u v \<Longrightarrow> more_materials v w \<Longrightarrow> more_materials u w"
  by (simp add: more_materials_def)

lemma has_material_more: "has_material gf g \<Longrightarrow> more_materials gf gf1 \<Longrightarrow> has_material gf1 g"
  unfolding has_material_def more_materials_def by blast

lemma group_material_ok:
  assumes "graphics_ok gf" and "group_material mg gf = (p, gf1)"
  shows "graphics_ok gf1 \<and> more_materials gf gf1 \<and> (\<exists>m. gf_materials gf1 p = Some m)"
  using assms by (auto simp: graphics_ok_def more_materials_def group_material_def Material_Create_def Let_def split: option.splits if_splits)

text \<open>
  How far the loading has come: the beginnings of the two buffers, whose sizes are \<open>n\<close> and \<open>k\<close>, and the
  groups with their materials.
\<close>

definition loaded :: "graphics \<Rightarrow> nat \<Rightarrow> nat \<Rightarrow> format_code \<Rightarrow> nat \<Rightarrow> 'f gpu_vertex option list \<Rightarrow> nat list \<Rightarrow> (nat \<times> nat \<times> nat) list \<Rightarrow> 'f loading \<Rightarrow> bool" where
  "loaded gf n k fmt v vs is gs ld \<longleftrightarrow> graphics_ok (ld_graphics ld) \<and> more_materials gf (ld_graphics ld)
     \<and> (\<forall>g \<in> set (vb_groups (ld_vbo ld)). has_material (ld_graphics ld) g) \<and> vb_format (ld_vbo ld) = fmt
     \<and> length (vb_verts (ld_vbo ld)) = n \<and> length vs \<le> n \<and> take (length vs) (vb_verts (ld_vbo ld)) = vs
     \<and> length (vb_indices (ld_vbo ld)) = k \<and> length is \<le> k \<and> take (length is) (vb_indices (ld_vbo ld)) = map Some is
     \<and> map group_range (vb_groups (ld_vbo ld)) = gs \<and> ld_index_offset ld = length is \<and> ld_vert_offset ld = v"

lemma take_Suc_update: "i < length xs \<Longrightarrow> take (Suc i) (xs[i := x]) = take i xs @ [x]"
  by (simp add: take_Suc_conv_app_nth)

lemma load_vertex_loaded:
  assumes l: "loaded gf n k fmt v vs is gs ld" and i: "length vs = v + i" "i < vert_count m" "length vs < n"
    and c: "convert_vertex G fmt m i \<noteq> None"
  shows "\<exists>ld1. load_vertex G m i ld = Some ld1 \<and> loaded gf n k fmt v (vs @ [convert_vertex G fmt m i]) is gs ld1"
proof -
  obtain x where x: "convert_vertex G fmt m i = Some x"
    using c by blast
  have "take (Suc (length vs)) ((vb_verts (ld_vbo ld))[length vs := Some x]) = vs @ [Some x]"
    using l i(3) by (simp add: loaded_def take_Suc_update)
  then show ?thesis
    using l i x by (simp add: loaded_def load_vertex_def put_at_def)
qed

lemma load_vertices_loaded:
  assumes l: "loaded gf n k fmt v vs is gs ld" and v: "length vs = v" "v + vert_count m \<le> n" and c: "convertible fmt m"
  shows "\<exists>ld1. each (load_vertex G m) [0..<vert_count m] ld = Some ld1 \<and> loaded gf n k fmt v (vs @ converted G fmt m) is gs ld1"
proof -
  let ?P = "\<lambda>i ld. loaded gf n k fmt v (vs @ map (convert_vertex G fmt m) [0..<i]) is gs ld"
  have "\<exists>ld1. each (load_vertex G m) [0..<vert_count m] ld = Some ld1 \<and> ?P (vert_count m) ld1"
  proof (rule each_upt [where P = ?P])
    fix i ld1 assume i: "i < vert_count m" and p: "?P i ld1"
    have "convert_vertex G fmt m i \<noteq> None"
      using c i by (simp add: convertible_def)
    from load_vertex_loaded [OF p _ i _ this] show "\<exists>ld2. load_vertex G m i ld1 = Some ld2 \<and> ?P (Suc i) ld2"
      using v i by simp
  qed (use l in simp)
  then show ?thesis
    by (simp add: converted_def)
qed

lemma load_index_loaded:
  assumes l: "loaded gf n k fmt v vs is gs ld" and i: "i < vert_count m" "length is < k"
  shows "\<exists>ld1. load_index m i ld = Some ld1 \<and> loaded gf n k fmt v vs (is @ [i + v]) gs ld1"
proof -
  have "take (Suc (length is)) ((vb_indices (ld_vbo ld))[length is := Some (i + v)]) = map Some is @ [Some (i + v)]"
    using l i(2) by (simp add: loaded_def take_Suc_update)
  then show ?thesis
    using l i by (simp add: loaded_def load_index_def put_at_def)
qed

lemma load_indices_loaded:
  assumes "loaded gf n k fmt v vs is gs ld" and "\<forall>j \<in> set js. j < vert_count m" and "length is + length js \<le> k"
  shows "\<exists>ld1. each (load_index m) js ld = Some ld1 \<and> loaded gf n k fmt v vs (is @ map (\<lambda>j. j + v) js) gs ld1"
  using assms
proof (induction js arbitrary: "is" ld)
  case (Cons j js)
  obtain ld1 where ld1: "load_index m j ld = Some ld1" "loaded gf n k fmt v vs (is @ [j + v]) gs ld1"
    using load_index_loaded [OF Cons.prems(1), of j m] Cons.prems(2,3) by auto
  show ?case
    using Cons.IH [OF ld1(2)] ld1(1) Cons.prems(2,3) by auto
qed simp

lemma load_groups_loaded:
  "loaded gf n k fmt v vs is gs ld \<Longrightarrow>
     loaded gf n k fmt v vs is (gs @ map (\<lambda>mg. (i, mg_start mg + length is, mg_count mg)) mgs) (fold (load_group i) mgs ld)"
proof (induction mgs arbitrary: gs ld)
  case (Cons mg mgs)
  obtain p gf1 where g: "group_material mg (ld_graphics ld) = (p, gf1)"
    by fastforce
  have "graphics_ok gf1" "more_materials (ld_graphics ld) gf1" "\<exists>m. gf_materials gf1 p = Some m"
    using group_material_ok [OF _ g] Cons.prems by (auto simp: loaded_def)
  moreover have "has_material gf1 x" if "x \<in> set (vb_groups (ld_vbo ld))" for x
    using that Cons.prems has_material_more calculation(2) unfolding loaded_def by blast
  moreover have "more_materials gf gf1"
    using Cons.prems calculation(2) more_materials_trans unfolding loaded_def by blast
  ultimately have "loaded gf n k fmt v vs is (gs @ [(i, mg_start mg + length is, mg_count mg)]) (load_group i mg ld)"
    using Cons.prems by (simp add: loaded_def load_group_def group_range_def g) (simp add: has_material_def)
  from Cons.IH [OF this] show ?case by simp
qed simp

lemma load_objects_loaded:
  assumes "loaded gf n k fmt v vs is gs ld" and "\<forall>g \<in> set os. \<forall>j \<in> set (og_indices g). j < vert_count m"
    and "length is + length (concat (map og_indices os)) \<le> k"
  shows "\<exists>ld1. each (load_object i m) os ld = Some ld1
    \<and> loaded gf n k fmt v vs (is @ map (\<lambda>j. j + v) (concat (map og_indices os))) (gs @ object_groups i (length is) os) ld1"
  using assms
proof (induction os arbitrary: "is" gs ld)
  case (Cons g os)
  let ?ld = "fold (load_group i) (og_materials g) ld"
  obtain ld1 where ld1: "load_object i m g ld = Some ld1"
    "loaded gf n k fmt v vs (is @ map (\<lambda>j. j + v) (og_indices g)) (gs @ map (\<lambda>mg. (i, mg_start mg + length is, mg_count mg)) (og_materials g)) ld1"
    using load_indices_loaded [OF load_groups_loaded [OF Cons.prems(1), of i "og_materials g"], of "og_indices g" m] Cons.prems(2,3)
    by (auto simp: load_object_def)
  show ?case
    using Cons.IH [OF ld1(2)] ld1(1) Cons.prems(2,3) by auto
qed simp

lemma load_mesh_loaded:
  assumes l: "loaded gf n k fmt v vs is gs ld" and v: "length vs = v" "v + vert_count m \<le> n" and m: "wf_mesh m" "convertible fmt m"
    and k: "length is + length (mesh_indices m) \<le> k"
  shows "\<exists>ld1. load_mesh G (i, m) ld = Some ld1
    \<and> loaded gf n k fmt (v + vert_count m) (vs @ converted G fmt m) (is @ map (\<lambda>j. j + v) (mesh_indices m))
        (gs @ object_groups i (length is) (ms_objects m)) ld1"
proof -
  obtain ld1 where ld1: "each (load_vertex G m) [0..<vert_count m] ld = Some ld1" "loaded gf n k fmt v (vs @ converted G fmt m) is gs ld1"
    using load_vertices_loaded [OF l v m(2)] by blast
  have "\<forall>g \<in> set (ms_objects m). \<forall>j \<in> set (og_indices g). j < vert_count m"
    using m(1) by (auto simp: wf_mesh_def wf_object_def)
  then obtain ld2 where ld2: "each (load_object i m) (ms_objects m) ld1 = Some ld2"
    "loaded gf n k fmt v (vs @ converted G fmt m) (is @ map (\<lambda>j. j + v) (mesh_indices m)) (gs @ object_groups i (length is) (ms_objects m)) ld2"
    using load_objects_loaded [OF ld1(2), of "ms_objects m" m i] k by (auto simp: mesh_indices_def)
  then show ?thesis
    using ld1(1) by (auto simp: load_mesh_def loaded_def)
qed

lemma all_indices_mesh: "all_indices ms = length (concat (map mesh_indices ms))"
  by (simp add: all_indices_def mesh_indices_def length_concat comp_def)

lemma load_meshes_loaded:
  assumes "loaded gf n k fmt v vs is gs ld" and "length vs = v" and "v + all_vertices ms \<le> n"
    and "\<forall>m \<in> set ms. wf_mesh m \<and> convertible fmt m" and "length is + all_indices ms \<le> k"
  shows "\<exists>ld1. each (load_mesh G) (enumerate i ms) ld = Some ld1
    \<and> loaded gf n k fmt (v + all_vertices ms) (vs @ concat (map (converted G fmt) ms)) (is @ shifted_indices v ms)
        (gs @ mesh_groups i (length is) ms) ld1"
  using assms
proof (induction ms arbitrary: i v vs "is" gs ld)
  case (Cons m ms)
  have len: "all_vertices (m # ms) = vert_count m + all_vertices ms" "all_indices (m # ms) = length (mesh_indices m) + all_indices ms"
    by (simp_all add: all_vertices_def all_indices_mesh)
  obtain ld1 where ld1: "load_mesh G (i, m) ld = Some ld1"
    "loaded gf n k fmt (v + vert_count m) (vs @ converted G fmt m) (is @ map (\<lambda>j. j + v) (mesh_indices m))
        (gs @ object_groups i (length is) (ms_objects m)) ld1"
    using load_mesh_loaded [OF Cons.prems(1,2), of m G i] Cons.prems(3-5) by (auto simp: len)
  have "length (vs @ converted G fmt m) = v + vert_count m"
    using Cons.prems(2) by (simp add: converted_def)
  then show ?case
    using Cons.IH [OF ld1(2), of "Suc i"] ld1(1) Cons.prems(3-5) by (auto simp: len add.assoc)
qed (simp add: all_vertices_def)

lemma load_mesh_frames:
  assumes "load_mesh G im ld = Some ld1"
  shows "vb_vertex_count (ld_vbo ld1) = vb_vertex_count (ld_vbo ld) \<and> vb_index_count (ld_vbo ld1) = vb_index_count (ld_vbo ld)
    \<and> vb_source (ld_vbo ld1) = vb_source (ld_vbo ld)"
proof -
  let ?I = "\<lambda>l. vb_vertex_count (ld_vbo l) = vb_vertex_count (ld_vbo ld) \<and> vb_index_count (ld_vbo l) = vb_index_count (ld_vbo ld)
    \<and> vb_source (ld_vbo l) = vb_source (ld_vbo ld)"
  obtain i m ld2 ld3 where i: "im = (i, m)" and ld2: "each (load_vertex G m) [0..<vert_count m] ld = Some ld2"
    and ld3: "each (load_object i m) (ms_objects m) ld2 = Some ld3" and ld1: "ld1 = ld3\<lparr>ld_vert_offset := ld_vert_offset ld3 + vert_count m\<rparr>"
    using assms by (auto simp: load_mesh_def split: prod.splits option.splits)
  have "?I ld2"
    by (rule each_keeps [where I = ?I, OF ld2]) (auto simp: load_vertex_def split: option.splits)
  have groups: "?I l \<Longrightarrow> ?I (fold (load_group i) mgs l)" for mgs l
    by (induction mgs arbitrary: l) (simp_all add: load_group_def split: prod.split)
  have "?I ld3"
  proof (rule each_keeps [where I = ?I, OF ld3 \<open>?I ld2\<close>])
    fix g l l1 assume "?I l" and l1: "load_object i m g l = Some l1"
    show "?I l1"
      by (rule each_keeps [where I = ?I, OF l1 [unfolded load_object_def] groups [OF \<open>?I l\<close>]])
        (auto simp: load_index_def split: if_splits)
  qed
  then show ?thesis
    by (simp add: ld1)
qed

definition vbo_sized :: "'f vbo \<Rightarrow> bool" where
  "vbo_sized vb \<longleftrightarrow> length (vb_verts vb) = vb_vertex_count vb \<and> length (vb_indices vb) = vb_index_count vb"

lemma length_shifted [simp]: "length (shifted_indices v ms) = all_indices ms"
  by (induction ms arbitrary: v) (simp_all add: all_indices_mesh)

definition drawable :: "format_code \<Rightarrow> 'f mesh list \<Rightarrow> bool" where
  "drawable fmt ms \<longleftrightarrow> has_format fmt \<and> (\<forall>m \<in> set ms. wf_mesh m \<and> convertible fmt m) \<and> 0 < all_vertices ms \<and> 0 < all_indices ms"

text \<open>The groups that are drawn: those of the materials, or one over everything.\<close>

definition drawn_groups :: "'f mesh list \<Rightarrow> (nat \<times> nat \<times> nat) list" where
  "drawn_groups ms = (if mesh_groups 0 0 ms = [] then [(0, 0, all_indices ms)] else mesh_groups 0 0 ms)"

text \<open>What a buffer holds that shows meshes: it has the groups, the vertices and the indices; the single group has no material.\<close>

definition holds_meshes :: "'f packing \<Rightarrow> 'f mesh list \<Rightarrow> 'f vbo \<Rightarrow> bool" where
  "holds_meshes G ms vb \<longleftrightarrow> vbo_sized vb \<and> map group_range (vb_groups vb) = drawn_groups ms
     \<and> (\<forall>g \<in> set (vb_groups vb). vg_material g = None \<longleftrightarrow> mesh_groups 0 0 ms = [])
     \<and> take (all_vertices ms) (vb_verts vb) = concat (map (converted G (vb_format vb)) ms)
     \<and> take (all_indices ms) (vb_indices vb) = map Some (shifted_indices 0 ms)"

lemma Load_vbo_loads:
  assumes d: "drawable (vb_format vb) (mf_meshes f)" and D: "gl_map_verts D" "gl_map_indices D" and gf: "graphics_ok gf"
  shows "\<exists>vb1 gf1. Load_vbo G D a f vb gf = Some (True, vb1, gf1) \<and> holds_meshes G (mf_meshes f) vb1
    \<and> vb_format vb1 = vb_format vb \<and> vb_source vb1 = Some a \<and> graphics_ok gf1 \<and> more_materials gf gf1
    \<and> (\<forall>g \<in> set (vb_groups vb1). vg_material g = None \<or> has_material gf1 g)"
proof -
  let ?ms = "mf_meshes f"
  define vb2 where "vb2 = grow_buffers ?ms (vb\<lparr>vb_source := Some a, vb_groups := []\<rparr>)"
  define ld where "ld = \<lparr>ld_vbo = map_indices (map_verts vb2), ld_graphics = gf, ld_vert_offset = 0, ld_index_offset = 0\<rparr>"
  have vb2: "all_vertices ?ms \<le> vb_vertex_count vb2" "all_indices ?ms \<le> vb_index_count vb2" "vb_groups vb2 = []"
    "vb_format vb2 = vb_format vb" "vb_source vb2 = Some a"
    by (simp_all add: vb2_def grow_buffers_def Let_def)
  have "loaded gf (vb_vertex_count vb2) (vb_index_count vb2) (vb_format vb) 0 [] [] [] ld"
    by (simp add: loaded_def ld_def map_indices_def map_verts_def vb2 gf)
  from load_meshes_loaded [OF this, of ?ms G 0]
  obtain ld1 where ld1: "each (load_mesh G) (enumerate 0 ?ms) ld = Some ld1"
    "loaded gf (vb_vertex_count vb2) (vb_index_count vb2) (vb_format vb) (all_vertices ?ms) (concat (map (converted G (vb_format vb)) ?ms))
      (shifted_indices 0 ?ms) (mesh_groups 0 0 ?ms) ld1"
    using d vb2(1,2) by (auto simp: drawable_def)
  have counts: "vb_vertex_count (ld_vbo ld1) = vb_vertex_count vb2 \<and> vb_index_count (ld_vbo ld1) = vb_index_count vb2
    \<and> vb_source (ld_vbo ld1) = Some a"
    by (rule each_keeps [OF ld1(1)]) (simp_all add: ld_def map_indices_def map_verts_def vb2 load_mesh_frames)
  have len: "length (concat (map (converted G (vb_format vb)) ?ms)) = all_vertices ?ms"
    by (simp add: length_concat all_vertices_def converted_def comp_def)
  have load: "Load_vbo G D a f vb gf = Some (True, implicit_group ?ms (ld_vbo ld1), ld_graphics ld1)"
    using d D ld1(1) by (simp add: Load_vbo_def drawable_def vb2_def [symmetric] ld_def [symmetric] Let_def)
  have "holds_meshes G ?ms (implicit_group ?ms (ld_vbo ld1))"
    using ld1(2) counts len
    by (auto simp: holds_meshes_def loaded_def implicit_group_def vbo_sized_def drawn_groups_def group_range_def has_material_def)
  then show ?thesis
    using load ld1(2) counts by (auto simp: implicit_group_def loaded_def)
qed

subsection \<open>Drawing\<close>

lemma object_groups_in_range:
  assumes "\<forall>g \<in> set os. wf_object k g" and "(j, s, c) \<in> set (object_groups i n os)"
  shows "n \<le> s \<and> s + c \<le> n + length (concat (map og_indices os))"
  using assms
proof (induction os arbitrary: n)
  case (Cons g os)
  show ?case
  proof (cases "(j, s, c) \<in> set (object_groups i (n + length (og_indices g)) os)")
    case True
    then show ?thesis
      using Cons.IH Cons.prems(1) by fastforce
  next
    case False
    then show ?thesis
      using Cons.prems by (auto simp: wf_object_def)
  qed
qed simp

lemma mesh_groups_in_range:
  assumes "\<forall>m \<in> set ms. wf_mesh m" and "(j, s, c) \<in> set (mesh_groups i n ms)"
  shows "n \<le> s \<and> s + c \<le> n + all_indices ms"
  using assms
proof (induction ms arbitrary: i n)
  case (Cons m ms)
  have len: "all_indices (m # ms) = length (mesh_indices m) + all_indices ms"
    by (simp add: all_indices_mesh)
  have "wf_mesh m"
    using Cons.prems(1) by simp
  then have os: "\<forall>g \<in> set (ms_objects m). wf_object (vert_count m) g"
    by (simp add: wf_mesh_def)
  show ?case
  proof (cases "(j, s, c) \<in> set (object_groups i n (ms_objects m))")
    case True
    then show ?thesis
      using object_groups_in_range [OF os] by (fastforce simp: len mesh_indices_def)
  next
    case False
    then have "(j, s, c) \<in> set (mesh_groups (Suc i) (n + length (mesh_indices m)) ms)"
      using Cons.prems(2) by simp
    then show ?thesis
      using Cons.IH [of "Suc i" "n + length (mesh_indices m)"] Cons.prems(1) by (auto simp: len)
  qed
qed simp

lemma shifted_indices_in_range:
  assumes "\<forall>m \<in> set ms. wf_mesh m" and "x \<in> set (shifted_indices v ms)"
  shows "x < v + all_vertices ms"
  using assms
proof (induction ms arbitrary: v)
  case (Cons m ms)
  have len: "all_vertices (m # ms) = vert_count m + all_vertices ms"
    by (simp add: all_vertices_def)
  show ?case
  proof (cases "x \<in> set (shifted_indices (v + vert_count m) ms)")
    case True
    then show ?thesis
      using Cons.IH Cons.prems(1) by (fastforce simp: len)
  next
    case False
    then show ?thesis
      using Cons.prems by (fastforce simp: len mesh_indices_def wf_mesh_def wf_object_def)
  qed
qed simp

lemma drawn_groups_in_range:
  assumes "\<forall>m \<in> set ms. wf_mesh m" and "(j, s, c) \<in> set (drawn_groups ms)"
  shows "s + c \<le> all_indices ms"
  using mesh_groups_in_range [OF assms(1), of j s c 0 0] assms(2) by (auto simp: drawn_groups_def split: if_splits)

text \<open>What drawing a group reads: the elements of the index buffer from its start, and the vertices they name.\<close>

definition read_at :: "'a option list \<Rightarrow> nat \<Rightarrow> 'a option" where
  "read_at xs i = (if i < length xs then xs ! i else None)"

definition drawn_vertex :: "'f vbo \<Rightarrow> vertex_group \<Rightarrow> nat \<Rightarrow> 'f gpu_vertex option" where
  "drawn_vertex vb g p = (case read_at (vb_indices vb) (vg_start g + p) of
      None \<Rightarrow> None
    | Some i \<Rightarrow> read_at (vb_verts vb) i)"

lemma read_at_prefix: "take n xs = ys \<Longrightarrow> i < n \<Longrightarrow> i < length ys \<Longrightarrow> read_at xs i = ys ! i"
  by (auto simp: read_at_def)

lemma length_converted_meshes: "length (concat (map (converted G fmt) ms)) = all_vertices ms"
  by (simp add: length_concat all_vertices_def converted_def comp_def)

lemma converted_defined:
  assumes "convertible fmt m"
  shows "None \<notin> set (converted G fmt m)"
proof
  assume "None \<in> set (converted G fmt m)"
  then obtain i where "i < vert_count m" "convert_vertex G fmt m i = None"
    by (auto simp: converted_def)
  then show False
    using assms unfolding convertible_def by blast
qed

lemma holds_meshes_drawn:
  assumes d: "drawable (vb_format vb) ms" and h: "holds_meshes G ms vb" and g: "g \<in> set (vb_groups vb)" "p < vg_index_count g"
  shows "vg_start g + vg_index_count g \<le> all_indices ms
    \<and> drawn_vertex vb g p = concat (map (converted G (vb_format vb)) ms) ! (shifted_indices 0 ms ! (vg_start g + p))
    \<and> drawn_vertex vb g p \<noteq> None"
proof -
  let ?vs = "concat (map (converted G (vb_format vb)) ms)"
  have wf: "\<forall>m \<in> set ms. wf_mesh m"
    using d by (simp add: drawable_def)
  have "group_range g \<in> set (drawn_groups ms)"
    using h g(1) by (metis holds_meshes_def image_eqI list.set_map)
  then have range: "vg_start g + vg_index_count g \<le> all_indices ms"
    using drawn_groups_in_range [OF wf] by (simp add: group_range_def)
  let ?q = "vg_start g + p"
  have q: "?q < all_indices ms"
    using range g(2) by linarith
  have i: "read_at (vb_indices vb) ?q = Some (shifted_indices 0 ms ! ?q)"
    using read_at_prefix [of "all_indices ms" "vb_indices vb" "map Some (shifted_indices 0 ms)" ?q] h q by (simp add: holds_meshes_def)
  have "shifted_indices 0 ms ! ?q < all_vertices ms"
    using shifted_indices_in_range [OF wf, of "shifted_indices 0 ms ! ?q" 0] q by simp
  then have s: "shifted_indices 0 ms ! ?q < length ?vs"
    by (simp add: length_converted_meshes)
  have v: "read_at (vb_verts vb) (shifted_indices 0 ms ! ?q) = ?vs ! (shifted_indices 0 ms ! ?q)"
    using h read_at_prefix [of "all_vertices ms" "vb_verts vb" ?vs] s by (simp add: holds_meshes_def length_converted_meshes)
  have "None \<notin> set ?vs"
    using d converted_defined [of "vb_format vb" _ G] by (fastforce simp: drawable_def)
  then have "?vs ! (shifted_indices 0 ms ! ?q) \<noteq> None"
    using nth_mem [OF s] by metis
  then show ?thesis
    using range i v by (simp add: drawn_vertex_def)
qed

text \<open>C23: Loading well-formed meshes, with a vertex and an index at least, into a buffer that the driver can map
  puts their vertices, converted to its format, one mesh after the other into the vertex buffer, the
  indices of each mesh after those of the meshes before it, shifted by the number of their vertices, and makes
  the groups of their materials or a single one. The contents before do not matter, nor how large the buffers were.
\<close>

theorem loaded_vbo_holds_meshes:
  assumes "drawable (vb_format vb) (mf_meshes f)" and "gl_map_verts D" and "gl_map_indices D" and "graphics_ok gf"
  shows "\<exists>vb1 gf1. Load_vbo G D a f vb gf = Some (True, vb1, gf1) \<and> holds_meshes G (mf_meshes f) vb1"
  using Load_vbo_loads [OF assms, of G a] by blast

text \<open>Drawing a group of a loaded buffer stays inside the part of the index buffer that was written, and each
  index it reads names a vertex that was written: the one of its mesh.
\<close>

theorem loaded_vbo_draws_inside:
  assumes "drawable (vb_format vb) (mf_meshes f)" and "Load_vbo G D a f vb gf = Some (True, vb1, gf1)" and "graphics_ok gf"
    and "g \<in> set (vb_groups vb1)" and "p < vg_index_count g"
  shows "vg_start g + vg_index_count g \<le> all_indices (mf_meshes f)
    \<and> drawn_vertex vb1 g p = concat (map (converted G (vb_format vb)) (mf_meshes f)) ! (shifted_indices 0 (mf_meshes f) ! (vg_start g + p))
    \<and> drawn_vertex vb1 g p \<noteq> None"
proof -
  have "gl_map_verts D" "gl_map_indices D"
    using assms(2) by (auto simp: Load_vbo_def Let_def split: if_splits option.splits)
  then have h: "holds_meshes G (mf_meshes f) vb1" "vb_format vb1 = vb_format vb"
    using Load_vbo_loads [OF assms(1), of D gf G a] assms(2,3) by auto
  show ?thesis
    using holds_meshes_drawn [OF _ h(1) assms(4,5)] assms(1) unfolding h(2) by blast
qed

text \<open>Two triangles, each a mesh of its own, the second with a material.\<close>

definition plain_vertex :: "nat \<Rightarrow> real vertex" where
  "plain_vertex n = \<lparr>vt_position = \<lparr>vx = real n, vy = 0, vz = 0\<rparr>, vt_normal = \<lparr>vx = 0, vy = 0, vz = 1\<rparr>, vt_uv = \<lparr>ux = 0, uy = 0\<rparr>\<rparr>"

definition triangle :: "nat \<Rightarrow> material_group list \<Rightarrow> real mesh" where
  "triangle n mgs = \<lparr>ms_verts = map plain_vertex [n, n + 1, n + 2], ms_colors = [], ms_weights = [], ms_has_color = False,
     ms_has_weight = False, ms_objects = [\<lparr>og_indices = [0, 1, 2], og_materials = mgs\<rparr>]\<rparr>"

definition two_triangles :: "real mesh_file" where
  "two_triangles = \<lparr>mf_meshes = [triangle 0 [], triangle 10 [\<lparr>mg_start = 0, mg_count = 3, mg_material = ''m'', mg_textures = []\<rparr>]],
     mf_name = ''two'', mf_dirty = True\<rparr>"

definition no_graphics :: graphics where
  "no_graphics = \<lparr>gf_material_map = Map.empty, gf_materials = Map.empty, gf_next_material = 0, gf_textures = Map.empty\<rparr>"

lemma no_graphics_ok: "graphics_ok no_graphics"
  by (simp add: graphics_ok_def no_graphics_def)

definition good_driver :: gl_driver where
  "good_driver = \<lparr>gl_map_verts = True, gl_map_indices = True\<rparr>"

lemma triangle_wf: "\<forall>mg \<in> set mgs. mg_start mg + mg_count mg \<le> 3 \<Longrightarrow> wf_mesh (triangle n mgs)"
  by (auto simp: wf_mesh_def triangle_def wf_object_def vert_count_def)

lemma triangles_drawable: "drawable VF_FULL (mf_meshes two_triangles)"
proof -
  have wf: "\<forall>m \<in> set (mf_meshes two_triangles). wf_mesh m"
    by (simp add: two_triangles_def triangle_wf)
  show ?thesis
    unfolding drawable_def
  proof (intro conjI ballI)
    fix m assume "m \<in> set (mf_meshes two_triangles)"
    then show "wf_mesh m" "convertible VF_FULL m"
      using wf wf_mesh_convertible by auto
  qed (simp_all add: has_format_def two_triangles_def all_vertices_def all_indices_def triangle_def vert_count_def)
qed

theorem loaded_vbo_holds_meshes_witness:
  "\<forall>G. \<exists>vb1 gf1. Load_vbo G good_driver 5 two_triangles (new_vbo VF_FULL) no_graphics = Some (True, vb1, gf1)
     \<and> map group_range (vb_groups vb1) = [(1, 3, 3)] \<and> take 6 (vb_indices vb1) = map Some [0, 1, 2, 3, 4, 5]"
proof
  fix G
  have "drawn_groups (mf_meshes two_triangles) = [(1, 3, 3)]" "all_indices (mf_meshes two_triangles) = 6"
    "map Some (shifted_indices 0 (mf_meshes two_triangles)) = map Some [0, 1, 2, 3, 4, 5]"
    by (simp_all add: drawn_groups_def two_triangles_def triangle_def mesh_indices_def vert_count_def all_indices_def)
  then show "\<exists>vb1 gf1. Load_vbo G good_driver 5 two_triangles (new_vbo VF_FULL) no_graphics = Some (True, vb1, gf1)
     \<and> map group_range (vb_groups vb1) = [(1, 3, 3)] \<and> take 6 (vb_indices vb1) = map Some [0, 1, 2, 3, 4, 5]"
    using loaded_vbo_holds_meshes [of "new_vbo VF_FULL" two_triangles good_driver no_graphics G 5] triangles_drawable no_graphics_ok
    by (fastforce simp: holds_meshes_def new_vbo_def good_driver_def)
qed

theorem loaded_vbo_draws_inside_witness:
  "\<forall>G. \<exists>vb1 gf1 g. Load_vbo G good_driver 5 two_triangles (new_vbo VF_FULL) no_graphics = Some (True, vb1, gf1)
     \<and> vb_groups vb1 = [g] \<and> drawn_vertex vb1 g 1 = Some (Gpu_full (plain_vertex 11) None None)"
proof
  fix G
  let ?ms = "mf_meshes two_triangles"
  obtain vb1 gf1 where l: "Load_vbo G good_driver 5 two_triangles (new_vbo VF_FULL) no_graphics = Some (True, vb1, gf1)"
    "holds_meshes G ?ms vb1"
    using Load_vbo_loads [of "new_vbo VF_FULL" two_triangles good_driver no_graphics G 5] triangles_drawable no_graphics_ok
    by (auto simp: new_vbo_def good_driver_def)
  have "drawn_groups ?ms = [(1, 3, 3)]"
    by (simp add: drawn_groups_def two_triangles_def triangle_def mesh_indices_def vert_count_def)
  then obtain g where g: "vb_groups vb1 = [g]" "group_range g = (1, 3, 3)"
    using l(2) by (auto simp: holds_meshes_def)
  have s: "shifted_indices 0 ?ms = [0, 1, 2, 3, 4, 5]"
    "concat (map (converted G VF_FULL) ?ms) = map (\<lambda>n. Some (Gpu_full (plain_vertex n) None None)) [0, 1, 2, 10, 11, 12]"
    by (simp_all add: two_triangles_def triangle_def mesh_indices_def vert_count_def converted_def convert_vertex_def
        at_index_def at_if_def upt_rec numeral_2_eq_2)
  have "drawn_vertex vb1 g 1 = Some (Gpu_full (plain_vertex 11) None None)"
    using loaded_vbo_draws_inside [OF _ l(1) no_graphics_ok, of g 1] triangles_drawable g s by (simp add: new_vbo_def group_range_def)
  then show "\<exists>vb1 gf1 g. Load_vbo G good_driver 5 two_triangles (new_vbo VF_FULL) no_graphics = Some (True, vb1, gf1)
     \<and> vb_groups vb1 = [g] \<and> drawn_vertex vb1 g 1 = Some (Gpu_full (plain_vertex 11) None None)"
    using l(1) g(1) by blast
qed

end
