(* ===== verification/MD5_Mesh.thy ===== *)
theory MD5_Mesh
  imports Safe_Run Mesh_Data Text_Stream Vfs_Path "HOL-Library.Word"
begin

text \<open>
  The MD5 mesh loader (client/resources/md5mesh.cpp): cleaning and parsing of lines, the
  bind-pose positions and normals, and the index lists. Floats are real numbers; the vector
  operations of glm are parameters. \<open>None\<close> is an access outside a vector (or the use of a number
  that was never stored); the parser's \<open>false\<close> is a value.
\<close>

subsection \<open>Data\<close>

text \<open>
  What the loader uses of glm: \<open>q * v\<close>, \<open>v * q\<close>, \<open>q * r\<close>, \<open>normalize\<close> for vectors and quaternions,
  \<open>cross\<close>, \<open>conjugate\<close>, and \<open>mix\<close> and \<open>lerp\<close>, which the animations use.
\<close>

record glm3 =
  g_rotate :: "real quat \<Rightarrow> real vec3 \<Rightarrow> real vec3"
  g_rotate_back :: "real vec3 \<Rightarrow> real quat \<Rightarrow> real vec3"
  g_times :: "real quat \<Rightarrow> real quat \<Rightarrow> real quat"
  g_normalize :: "real vec3 \<Rightarrow> real vec3"
  g_normalize4 :: "real quat \<Rightarrow> real quat"
  g_cross :: "real vec3 \<Rightarrow> real vec3 \<Rightarrow> real vec3"
  g_conjugate :: "real quat \<Rightarrow> real quat"
  g_mix :: "real quat \<Rightarrow> real quat \<Rightarrow> real \<Rightarrow> real quat"
  g_lerp :: "real vec3 \<Rightarrow> real vec3 \<Rightarrow> real \<Rightarrow> real vec3"

definition v_plus :: "real vec3 \<Rightarrow> real vec3 \<Rightarrow> real vec3" where
  "v_plus a b = \<lparr>vx = vx a + vx b, vy = vy a + vy b, vz = vz a + vz b\<rparr>"

definition v_minus :: "real vec3 \<Rightarrow> real vec3 \<Rightarrow> real vec3" where
  "v_minus a b = \<lparr>vx = vx a - vx b, vy = vy a - vy b, vz = vz a - vz b\<rparr>"

definition v_scale :: "real vec3 \<Rightarrow> real \<Rightarrow> real vec3" where
  "v_scale a r = \<lparr>vx = vx a * r, vy = vy a * r, vz = vz a * r\<rparr>"

text \<open>\<open>glm::quat{0, 0, 0, 1}\<close>: the constructor takes \<open>w\<close> first.\<close>

definition default_quat :: "real quat" where
  "default_quat = \<lparr>qw = 0, qx = 0, qy = 0, qz = 1\<rparr>"

record joint =
  jt_name :: string
  jt_parent :: int
  jt_position :: "real vec3"
  jt_orientation :: "real quat"

record md5_vertex =
  mv_start :: int
  mv_count :: u32
  mv_uv :: "real vec2"
  mv_position :: "real vec3"
  mv_normal :: "real vec3"

record weight =
  wt_joint :: int
  wt_bias :: real
  wt_position :: "real vec3"

text \<open>A triangle is the list of its three indices.\<close>

record internal_mesh =
  im_shader :: string
  im_verts :: "md5_vertex list"
  im_tris :: "int list list"
  im_weights :: "weight list"

definition new_joint :: joint where
  "new_joint = \<lparr>jt_name = [], jt_parent = -1, jt_position = zero_vec, jt_orientation = default_quat\<rparr>"

definition new_md5_vertex :: md5_vertex where
  "new_md5_vertex = \<lparr>mv_start = 0, mv_count = 0, mv_uv = \<lparr>ux = 0, uy = 0\<rparr>, mv_position = zero_vec, mv_normal = zero_vec\<rparr>"

definition new_weight :: weight where
  "new_weight = \<lparr>wt_joint = 0, wt_bias = 0, wt_position = zero_vec\<rparr>"

definition new_internal_mesh :: internal_mesh where
  "new_internal_mesh = \<lparr>im_shader = [], im_verts = [], im_tris = [], im_weights = []\<rparr>"

record md5 =
  md_internal :: "internal_mesh list"
  md_joints :: "joint list"
  md_meshes :: "real mesh list"
  md_textures :: "string list"

definition new_md5 :: md5 where
  "new_md5 = \<lparr>md_internal = [], md_joints = [], md_meshes = [], md_textures = []\<rparr>"

subsection \<open>Lines\<close>

text \<open>\<open>find_first_of("//")\<close> looks for one character of the set, a single slash.\<close>

definition CleanString :: "string \<Rightarrow> string" where
  "CleanString s = (let s1 = (if CHR ''/'' \<in> set s then takeWhile (\<lambda>c. c \<noteq> CHR ''/'') s else s)
     in filter (\<lambda>c. c \<noteq> CHR 0x27) (filter (\<lambda>c. c \<noteq> CHR 0x22) (filter (\<lambda>c. c \<noteq> CHR '')'') (filter (\<lambda>c. c \<noteq> CHR ''('') s1))))"

definition ComputeWNeg :: "real quat \<Rightarrow> real quat" where
  "ComputeWNeg q = (let t = 1 - qx q * qx q - qy q * qy q - qz q * qz q
     in q\<lparr>qw := if 0 < t then - sqrt t else 0\<rparr>)"

text \<open>\<open>stream >> x\<close> for a float that has a value before.\<close>

definition get_real :: "real \<Rightarrow> istream \<Rightarrow> real \<times> istream" where
  "get_real old s = (case get_float None s of (r, s1) \<Rightarrow> (case r of None \<Rightarrow> old | Some x \<Rightarrow> of_rat x, s1))"

definition get_real3 :: "real vec3 \<Rightarrow> istream \<Rightarrow> real vec3 \<times> istream" where
  "get_real3 old s = (let (x, s1) = get_real (vx old) s; (y, s2) = get_real (vy old) s1; (z, s3) = get_real (vz old) s2
     in (\<lparr>vx = x, vy = y, vz = z\<rparr>, s3))"

definition ParseJoint :: "istream \<Rightarrow> joint \<times> istream" where
  "ParseJoint ss =
     (let (n, s1) = get_word [] ss;
          (p, s2) = get_int (-1) s1;
          (pos, s3) = get_real3 zero_vec s2;
          (x, s4) = get_real (qx default_quat) s3;
          (y, s5) = get_real (qy default_quat) s4;
          (z, s6) = get_real (qz default_quat) s5
      in (\<lparr>jt_name = n, jt_parent = p, jt_position = pos,
           jt_orientation = ComputeWNeg (default_quat\<lparr>qx := x, qy := y, qz := z\<rparr>)\<rparr>, s6))"

definition ParseVertex :: "istream \<Rightarrow> md5_vertex" where
  "ParseVertex ss =
     (let (_, s1) = get_int 0 ss; (u, s2) = get_real 0 s1; (v, s3) = get_real 0 s2;
          (st, s4) = get_int 0 s3; (n, _) = get_unsigned 0 s4
      in new_md5_vertex\<lparr>mv_start := st, mv_count := n, mv_uv := \<lparr>ux = u, uy = v\<rparr>\<rparr>)"

definition ParseTriangle :: "istream \<Rightarrow> int list" where
  "ParseTriangle ss =
     (let (_, s1) = get_int 0 ss; (a, s2) = get_int 0 s1; (b, s3) = get_int 0 s2; (c, _) = get_int 0 s3 in [a, b, c])"

definition ParsesWeight :: "istream \<Rightarrow> weight" where
  "ParsesWeight ss =
     (let (_, s1) = get_int 0 ss; (j, s2) = get_int 0 s1; (b, s3) = get_real 0 s2; (pos, _) = get_real3 zero_vec s3
      in \<lparr>wt_joint = j, wt_bias = b, wt_position = pos\<rparr>)"

text \<open>The lines of the joints. \<open>ss.str\<close> gives the stream a new text and leaves its state bits.\<close>

fun read_joints :: "string list \<Rightarrow> istream \<Rightarrow> joint list \<Rightarrow> joint list \<times> string list" where
  "read_joints [] ss joints = (joints, [])"
| "read_joints (line # rest) ss joints =
     (case (if CHR 0x22 \<in> set line
            then (case ParseJoint (ss\<lparr>is_rest := CleanString line\<rparr>) of (j, s1) \<Rightarrow> (s1, joints @ [j]))
            else (ss, joints)) of
        (ss1, joints1) \<Rightarrow> if CHR ''}'' \<in> set line then (joints1, rest) else read_joints rest ss1 joints1)"

text \<open>A line inside a mesh, outside embedded lists; \<open>None\<close> if it is none of its elements.\<close>

definition mesh_line :: "string \<Rightarrow> internal_mesh \<times> string list \<Rightarrow> (internal_mesh \<times> string list) option" where
  "mesh_line line st = (case st of (m, textures) \<Rightarrow>
     (case get_word [] (istr (CleanString line)) of (identifier, ss) \<Rightarrow>
        if identifier = ''shader'' then
          (let sh = fst (get_word (im_shader m) ss)
           in Some (m\<lparr>im_shader := sh\<rparr>, if sh \<in> set textures then textures else textures @ [sh]))
        else if identifier \<in> {''numverts'', ''numtris'', ''numweights''} then Some (m, textures)
        else if identifier = ''vert'' then Some (m\<lparr>im_verts := im_verts m @ [ParseVertex ss]\<rparr>, textures)
        else if identifier = ''tri'' then Some (m\<lparr>im_tris := im_tris m @ [ParseTriangle ss]\<rparr>, textures)
        else if identifier = ''weight'' then Some (m\<lparr>im_weights := im_weights m @ [ParsesWeight ss]\<rparr>, textures)
        else None))"

text \<open>The lines of a mesh. A mesh that the file does not close is not kept.\<close>

fun read_mesh :: "string list \<Rightarrow> nat \<Rightarrow> internal_mesh \<times> string list \<Rightarrow> (internal_mesh option \<times> string list) \<times> string list" where
  "read_mesh [] embedded st = ((None, snd st), [])"
| "read_mesh (line # rest) embedded st =
     (case (if 0 < embedded then (if CHR ''{'' \<in> set line then embedded + 1 else embedded, st)
            else (case mesh_line line st of
                Some st1 \<Rightarrow> (embedded, st1)
              | None \<Rightarrow> (if CHR ''{'' \<in> set line then embedded + 1 else embedded, st))) of
        (embedded1, st1) \<Rightarrow>
          if CHR ''}'' \<in> set line
          then (if 0 < embedded1 then read_mesh rest (embedded1 - 1) st1 else ((Some (fst st1), snd st1), rest))
          else read_mesh rest embedded1 st1)"

lemma read_joints_rest: "(js1, rest) = read_joints ls ss js \<Longrightarrow> length rest \<le> length ls"
  by (induction ls arbitrary: ss js) (auto simp: le_SucI split: prod.splits if_splits)

lemma read_mesh_rest: "(r, rest) = read_mesh ls e st \<Longrightarrow> length rest \<le> length ls"
  by (induction ls arbitrary: e st) (auto simp: le_SucI split: prod.splits if_splits option.splits)

text \<open>
  The file: whether parsing succeeded, with what was read. The counts of a file only reserve
  memory.
\<close>

function md5_lines :: "string list \<Rightarrow> md5 \<Rightarrow> (bool \<times> md5) option" where
  "md5_lines [] md = Some (True, md)"
| "md5_lines (line # rest) md =
     (case get_word [] (istr line) of (identifier, ss) \<Rightarrow>
        if identifier = ''MD5Version'' then
          (if fst (sentry ss)
           then (if fst (get_int 0 ss) \<noteq> 10 then Some (False, md) else md5_lines rest md)
           else None)
        else if identifier = ''joints'' then
          (case read_joints rest ss (md_joints md) of (js, rest1) \<Rightarrow> md5_lines rest1 (md\<lparr>md_joints := js\<rparr>))
        else if identifier = ''mesh'' then
          (case read_mesh rest 0 (new_internal_mesh, md_textures md) of
             ((Some m, textures), rest1) \<Rightarrow> md5_lines rest1 (md\<lparr>md_internal := md_internal md @ [m], md_textures := textures\<rparr>)
           | ((None, textures), rest1) \<Rightarrow> md5_lines rest1 (md\<lparr>md_textures := textures\<rparr>))
        else md5_lines rest md)"
  by pat_completeness auto
termination
  by (relation "measure (length \<circ> fst)") (auto simp: less_Suc_eq_le dest: read_joints_rest read_mesh_rest)

declare md5_lines.simps [simp del]

definition md5_Parse :: "string \<Rightarrow> (bool \<times> md5) option" where
  "md5_Parse text = md5_lines (text_lines text) new_md5"

subsection \<open>Positions\<close>

text \<open>Indexing with an \<open>int\<close>.\<close>

definition at_int :: "'a list \<Rightarrow> int \<Rightarrow> 'a option" where
  "at_int xs i = (if 0 \<le> i \<and> i < int (length xs) then Some (xs ! nat i) else None)"

definition add_meshes :: "real mesh \<Rightarrow> md5 \<Rightarrow> md5" where
  "add_meshes m md = md\<lparr>md_meshes := md_meshes md @ replicate (length (md_internal md) - length (md_meshes md)) m\<rparr>"

text \<open>
  One weight of a vertex. The loop's counter has eight bits, but the fifth weight is already
  outside \<open>bone_indices\<close>.
\<close>

definition add_weight ::
    "glm3 \<Rightarrow> joint list \<Rightarrow> internal_mesh \<Rightarrow> md5_vertex \<Rightarrow> nat \<Rightarrow> real vertex \<times> real weight_data \<Rightarrow> (real vertex \<times> real weight_data) option" where
  "add_weight G joints im v k st = (case st of (vdata, vweight) \<Rightarrow>
     (case at_int (im_weights im) (mv_start v + int k) of None \<Rightarrow> None | Some w \<Rightarrow>
     (case at_int joints (wt_joint w) of None \<Rightarrow> None | Some j \<Rightarrow>
        if k < 4
        then Some (vdata\<lparr>vt_position := v_plus (vt_position vdata)
                      (v_scale (v_plus (jt_position j) (g_rotate G (jt_orientation j) (wt_position w))) (wt_bias w))\<rparr>,
                   vweight\<lparr>wd_indices := (wd_indices vweight)[k := nat (wt_joint w)],
                           wd_weights := (wd_weights vweight)[k := wt_bias w]\<rparr>)
        else None)))"

definition position_vertex :: "glm3 \<Rightarrow> joint list \<Rightarrow> nat \<Rightarrow> internal_mesh \<times> real mesh \<Rightarrow> (internal_mesh \<times> real mesh) option" where
  "position_vertex G joints j st = (case st of (im, m) \<Rightarrow>
     if j < length (ms_verts m) \<and> j < length (ms_weights m) then
       (let v = im_verts im ! j in
        case each (add_weight G joints im v) [0..<unat (mv_count v)] (ms_verts m ! j, ms_weights m ! j) of
          None \<Rightarrow> None
        | Some (vdata, vweight) \<Rightarrow>
            Some (im\<lparr>im_verts := (im_verts im)[j := v\<lparr>mv_position := vt_position vdata\<rparr>]\<rparr>,
                  m\<lparr>ms_verts := (ms_verts m)[j := vdata\<lparr>vt_uv := mv_uv v\<rparr>], ms_weights := (ms_weights m)[j := vweight]\<rparr>))
     else None)"

definition fit_mesh :: "internal_mesh \<Rightarrow> real mesh \<Rightarrow> real mesh" where
  "fit_mesh im m = (if vert_count m < length (im_verts im) then mesh_resize 0 (length (im_verts im)) m else m)"

definition position_mesh :: "glm3 \<Rightarrow> nat \<Rightarrow> md5 \<Rightarrow> md5 option" where
  "position_mesh G i md =
     (let im = md_internal md ! i in
      case each (position_vertex G (md_joints md)) [0..<length (im_verts im)] (im, fit_mesh im (md_meshes md ! i)) of
        None \<Rightarrow> None
      | Some (im1, m1) \<Rightarrow> Some (md\<lparr>md_internal := (md_internal md)[i := im1], md_meshes := (md_meshes md)[i := m1]\<rparr>))"

definition CalculateVertexPositions :: "glm3 \<Rightarrow> md5 \<Rightarrow> md5 option" where
  "CalculateVertexPositions G md =
     each (position_mesh G) [0..<length (md_internal md)] (add_meshes (new_mesh\<lparr>ms_has_weight := True\<rparr>) md)"

subsection \<open>Normals\<close>

definition add_normal :: "real vec3 \<Rightarrow> int \<Rightarrow> internal_mesh \<Rightarrow> internal_mesh option" where
  "add_normal n i im = (case at_int (im_verts im) i of
      None \<Rightarrow> None
    | Some v \<Rightarrow> Some (im\<lparr>im_verts := (im_verts im)[nat i := v\<lparr>mv_normal := v_plus (mv_normal v) n\<rparr>]\<rparr>))"

definition normal_triangle :: "glm3 \<Rightarrow> int list \<Rightarrow> internal_mesh \<Rightarrow> internal_mesh option" where
  "normal_triangle G tri im =
     (case at_int (im_verts im) (tri ! 0) of None \<Rightarrow> None | Some v0 \<Rightarrow>
     (case at_int (im_verts im) (tri ! 1) of None \<Rightarrow> None | Some v1 \<Rightarrow>
     (case at_int (im_verts im) (tri ! 2) of None \<Rightarrow> None | Some v2 \<Rightarrow>
        (let n = g_normalize G (g_cross G (v_minus (mv_position v2) (mv_position v0)) (v_minus (mv_position v1) (mv_position v0)))
         in each (add_normal n) [tri ! 0, tri ! 1, tri ! 2] im))))"

definition weight_normal :: "glm3 \<Rightarrow> joint list \<Rightarrow> internal_mesh \<Rightarrow> real vec3 \<Rightarrow> nat \<Rightarrow> md5_vertex \<Rightarrow> md5_vertex option" where
  "weight_normal G joints im n k v =
     (case at_int (im_weights im) (mv_start v + int k) of None \<Rightarrow> None | Some w \<Rightarrow>
     (case at_int joints (wt_joint w) of None \<Rightarrow> None | Some j \<Rightarrow>
        Some (v\<lparr>mv_normal := v_plus (mv_normal v) (v_scale (g_rotate_back G n (jt_orientation j)) (wt_bias w))\<rparr>)))"

definition normal_vertex :: "glm3 \<Rightarrow> joint list \<Rightarrow> nat \<Rightarrow> internal_mesh \<times> real mesh \<Rightarrow> (internal_mesh \<times> real mesh) option" where
  "normal_vertex G joints j st = (case st of (im, m) \<Rightarrow>
     if j < length (ms_verts m) then
       (let v = im_verts im ! j; n = g_normalize G (mv_normal v) in
        case each (weight_normal G joints im n) [0..<unat (mv_count v)] (v\<lparr>mv_normal := zero_vec\<rparr>) of
          None \<Rightarrow> None
        | Some v1 \<Rightarrow> Some (im\<lparr>im_verts := (im_verts im)[j := v1]\<rparr>,
                          m\<lparr>ms_verts := (ms_verts m)[j := (ms_verts m ! j)\<lparr>vt_normal := n\<rparr>]\<rparr>))
     else None)"

definition normal_mesh :: "glm3 \<Rightarrow> nat \<Rightarrow> md5 \<Rightarrow> md5 option" where
  "normal_mesh G i md0 =
     (case (if vert_count (md_meshes md0 ! i) < length (im_verts (md_internal md0 ! i))
            then CalculateVertexPositions G (md0\<lparr>md_meshes := (md_meshes md0)[i := fit_mesh (md_internal md0 ! i) (md_meshes md0 ! i)]\<rparr>)
            else Some md0) of
        None \<Rightarrow> None
      | Some md \<Rightarrow>
          (let im = md_internal md ! i in
           case each (normal_triangle G) (im_tris im) im of
             None \<Rightarrow> None
           | Some im1 \<Rightarrow>
               (case each (normal_vertex G (md_joints md)) [0..<length (im_verts im1)] (im1, md_meshes md ! i) of
                  None \<Rightarrow> None
                | Some (im2, m2) \<Rightarrow> Some (md\<lparr>md_internal := (md_internal md)[i := im2], md_meshes := (md_meshes md)[i := m2]\<rparr>))))"

definition CalculateVertexNormals :: "glm3 \<Rightarrow> md5 \<Rightarrow> md5 option" where
  "CalculateVertexNormals G md =
     each (normal_mesh G) [0..<length (md_internal md)] (add_meshes (new_mesh\<lparr>ms_has_weight := True\<rparr>) md)"

subsection \<open>Indices\<close>

definition index_mesh :: "internal_mesh \<Rightarrow> real mesh \<Rightarrow> real mesh" where
  "index_mesh im m =
     (let m1 = (if ms_objects m = [] then m\<lparr>ms_objects := [new_object_group]\<rparr> else m);
          og = hd (ms_objects m1);
          indices = og_indices og @ concat (map (\<lambda>tri. map (\<lambda>v. nat (v mod 2 ^ 32)) tri) (im_tris im));
          mg = \<lparr>mg_start = 0, mg_count = length indices, mg_material = FileStem (Path (im_shader im)) @ ''_material'',
                mg_textures = [im_shader im]\<rparr>
      in m1\<lparr>ms_objects := og\<lparr>og_indices := indices, og_materials := og_materials og @ [mg]\<rparr> # tl (ms_objects m1)\<rparr>)"

definition UpdateIndexList :: "md5 \<Rightarrow> md5" where
  "UpdateIndexList md0 =
     (let md = add_meshes new_mesh md0
      in md\<lparr>md_meshes := map (\<lambda>(i, m). if i < length (md_internal md) then index_mesh (md_internal md ! i) m else m)
                            (zip [0..<length (md_meshes md)] (md_meshes md))\<rparr>)"

text \<open>Loading: \<open>Some None\<close> is the null pointer.\<close>

definition md5_build :: "glm3 \<Rightarrow> md5 \<Rightarrow> md5 option" where
  "md5_build G md = (case CalculateVertexPositions G md of
      None \<Rightarrow> None
    | Some md1 \<Rightarrow> map_option UpdateIndexList (CalculateVertexNormals G md1))"

definition md5_Create :: "glm3 \<Rightarrow> string \<Rightarrow> md5 option option" where
  "md5_Create G text = (case md5_Parse text of
      None \<Rightarrow> None
    | Some (ok, md) \<Rightarrow> if ok then map_option Some (md5_build G md) else Some None)"

subsection \<open>Files whose indices are in range\<close>

definition weight_ok :: "joint list \<Rightarrow> weight list \<Rightarrow> int \<Rightarrow> nat \<Rightarrow> bool" where
  "weight_ok joints ws start k = (case at_int ws (start + int k) of None \<Rightarrow> False | Some w \<Rightarrow> at_int joints (wt_joint w) \<noteq> None)"

definition vertex_ok :: "joint list \<Rightarrow> weight list \<Rightarrow> int \<times> u32 \<Rightarrow> bool" where
  "vertex_ok joints ws v \<longleftrightarrow> (\<forall>k \<in> set [0..<unat (snd v)]. k < 4 \<and> weight_ok joints ws (fst v) k)"

text \<open>What the two passes leave of a mesh.\<close>

definition vertex_shape :: "md5_vertex \<Rightarrow> int \<times> u32" where
  "vertex_shape v = (mv_start v, mv_count v)"

definition mesh_shape :: "internal_mesh \<Rightarrow> string \<times> (int \<times> u32) list \<times> int list list \<times> weight list" where
  "mesh_shape im = (im_shader im, map vertex_shape (im_verts im), im_tris im, im_weights im)"

definition triangle_ok :: "nat \<Rightarrow> int list \<Rightarrow> bool" where
  "triangle_ok n tri \<longleftrightarrow> (\<forall>i \<in> {0, 1, 2}. 0 \<le> tri ! i \<and> tri ! i < int n)"

definition positions_ok :: "joint list \<Rightarrow> internal_mesh \<Rightarrow> bool" where
  "positions_ok joints im \<longleftrightarrow> (\<forall>v \<in> set (im_verts im). vertex_ok joints (im_weights im) (vertex_shape v))"

definition triangles_ok :: "internal_mesh \<Rightarrow> bool" where
  "triangles_ok im \<longleftrightarrow> (\<forall>tri \<in> set (im_tris im). triangle_ok (length (im_verts im)) tri)"

lemma mesh_shape_length: "mesh_shape im = mesh_shape im1 \<Longrightarrow> length (im_verts im) = length (im_verts im1)"
  by (auto simp: mesh_shape_def dest: map_eq_imp_length_eq)

lemma mesh_shape_nth:
  assumes "mesh_shape im = mesh_shape im1" and "j < length (im_verts im)"
  shows "mv_start (im_verts im ! j) = mv_start (im_verts im1 ! j)" "mv_count (im_verts im ! j) = mv_count (im_verts im1 ! j)"
  using assms mesh_shape_length [OF assms(1)] nth_map [of j "im_verts im" vertex_shape] nth_map [of j "im_verts im1" vertex_shape]
  by (auto simp: mesh_shape_def vertex_shape_def)

lemma mesh_shape_update:
  assumes "j < length (im_verts im)" and "vertex_shape v = vertex_shape (im_verts im ! j)"
  shows "mesh_shape (im\<lparr>im_verts := (im_verts im)[j := v]\<rparr>) = mesh_shape im"
  using assms by (simp add: mesh_shape_def map_update list_update_same_conv)

subsection \<open>The position pass\<close>

text \<open>The sum over the weights of a vertex, in bind pose.\<close>

definition contribution :: "glm3 \<Rightarrow> joint list \<Rightarrow> weight list \<Rightarrow> int \<Rightarrow> nat \<Rightarrow> real vec3" where
  "contribution G joints ws start k =
     (let w = ws ! nat (start + int k); j = joints ! nat (wt_joint w)
      in v_scale (v_plus (jt_position j) (g_rotate G (jt_orientation j) (wt_position w))) (wt_bias w))"

fun weighted_sum :: "glm3 \<Rightarrow> joint list \<Rightarrow> weight list \<Rightarrow> int \<Rightarrow> nat \<Rightarrow> real vec3 \<Rightarrow> real vec3" where
  "weighted_sum G joints ws start 0 p = p"
| "weighted_sum G joints ws start (Suc k) p = v_plus (weighted_sum G joints ws start k p) (contribution G joints ws start k)"

lemma add_weights_iff:
  "each (add_weight G joints im v) [0..<unat (mv_count v)] st \<noteq> None \<longleftrightarrow> vertex_ok joints (im_weights im) (vertex_shape v)"
  unfolding vertex_ok_def vertex_shape_def snd_conv fst_conv
  by (rule each_defined_iff [where I = "\<lambda>_. True"])
    (auto simp: add_weight_def weight_ok_def split: prod.split option.splits)

lemma add_weight_position:
  assumes "add_weight G joints im v k st = Some st1"
  shows "vt_position (fst st1) = v_plus (vt_position (fst st)) (contribution G joints (im_weights im) (mv_start v) k)"
proof -
  obtain w j where "at_int (im_weights im) (mv_start v + int k) = Some w" "at_int joints (wt_joint w) = Some j"
    using assms by (auto simp: add_weight_def split: prod.splits option.splits)
  then show ?thesis
    using assms by (auto simp: add_weight_def contribution_def at_int_def Let_def split: prod.splits if_splits)
qed

lemma add_weights_position:
  assumes "each (add_weight G joints im v) [0..<n] (vdata, vweight) = Some (vdata1, vweight1)"
  shows "vt_position vdata1 = weighted_sum G joints (im_weights im) (mv_start v) n (vt_position vdata)"
  using each_upt_keeps [OF assms, where P = "\<lambda>k st. vt_position (fst st) = weighted_sum G joints (im_weights im) (mv_start v) k (vt_position vdata)"]
  by (simp add: add_weight_position)

text \<open>A mesh with room for \<open>n\<close> vertices, of which the first \<open>k\<close> have their position.\<close>

definition positioned :: "glm3 \<Rightarrow> joint list \<Rightarrow> internal_mesh \<Rightarrow> nat \<Rightarrow> internal_mesh \<times> real mesh \<Rightarrow> bool" where
  "positioned G joints im k st \<longleftrightarrow> mesh_shape (fst st) = mesh_shape im
     \<and> ms_has_weight (snd st) \<and> \<not> ms_has_color (snd st) \<and> ms_objects (snd st) = []
     \<and> length (ms_verts (snd st)) = length (im_verts im) \<and> length (ms_weights (snd st)) = length (im_verts im)
     \<and> (\<forall>j < length (im_verts im). vt_position (ms_verts (snd st) ! j) =
          (if j < k then weighted_sum G joints (im_weights im) (mv_start (im_verts im ! j)) (unat (mv_count (im_verts im ! j))) zero_vec
           else zero_vec))"

lemma position_vertex_iff:
  assumes "mesh_shape (fst st) = mesh_shape im" and "length (im_verts im) \<le> length (ms_verts (snd st))"
    and "length (im_verts im) \<le> length (ms_weights (snd st))" and "j < length (im_verts im)"
  shows "position_vertex G joints j st \<noteq> None \<longleftrightarrow> vertex_ok joints (im_weights im) (vertex_shape (im_verts im ! j))"
proof -
  obtain im1 m where st: "st = (im1, m)" by force
  have same: "im_weights im1 = im_weights im" "vertex_shape (im_verts im1 ! j) = vertex_shape (im_verts im ! j)"
    using assms mesh_shape_nth [of im1 im j] mesh_shape_length [of im1 im] by (auto simp: st mesh_shape_def vertex_shape_def)
  have "position_vertex G joints j st \<noteq> None \<longleftrightarrow>
      each (add_weight G joints im1 (im_verts im1 ! j)) [0..<unat (mv_count (im_verts im1 ! j))] (ms_verts m ! j, ms_weights m ! j) \<noteq> None"
    using assms by (auto simp: position_vertex_def st Let_def split: option.splits)
  then show ?thesis
    unfolding add_weights_iff same .
qed

lemma position_vertex_keeps:
  assumes "positioned G joints im j st" and "position_vertex G joints j st = Some st1" and "j < length (im_verts im)"
  shows "positioned G joints im (Suc j) st1"
proof -
  obtain im1 m where st: "st = (im1, m)" by force
  let ?v = "im_verts im1 ! j"
  have inv: "mesh_shape im1 = mesh_shape im" "length (ms_verts m) = length (im_verts im)" "length (ms_weights m) = length (im_verts im)"
    "vt_position (ms_verts m ! j) = zero_vec"
    using assms(1,3) by (auto simp: positioned_def st)
  obtain vdata vweight where e: "each (add_weight G joints im1 ?v) [0..<unat (mv_count ?v)] (ms_verts m ! j, ms_weights m ! j) = Some (vdata, vweight)"
    and st1: "st1 = (im1\<lparr>im_verts := (im_verts im1)[j := ?v\<lparr>mv_position := vt_position vdata\<rparr>]\<rparr>,
                  m\<lparr>ms_verts := (ms_verts m)[j := vdata\<lparr>vt_uv := mv_uv ?v\<rparr>], ms_weights := (ms_weights m)[j := vweight]\<rparr>)"
    using assms(2) by (auto simp: position_vertex_def st Let_def split: option.splits if_splits)
  have j1: "j < length (im_verts im1)"
    using assms(3) mesh_shape_length [OF inv(1)] by simp
  have shape: "mesh_shape (fst st1) = mesh_shape im"
    unfolding st1 fst_conv inv(1) [symmetric] by (rule mesh_shape_update [OF j1]) (simp add: vertex_shape_def)
  have pos: "vt_position vdata = weighted_sum G joints (im_weights im) (mv_start (im_verts im ! j)) (unat (mv_count (im_verts im ! j))) zero_vec"
    using add_weights_position [OF e] inv mesh_shape_nth [OF inv(1) j1] by (simp add: mesh_shape_def)
  show ?thesis
    using assms(1,3) shape pos inv
    by (auto simp: positioned_def st st1 nth_list_update less_Suc_eq)
qed

text \<open>The passes over all meshes, from a file of which no mesh was made yet.\<close>

definition room :: "internal_mesh \<Rightarrow> internal_mesh \<times> real mesh \<Rightarrow> bool" where
  "room im st \<longleftrightarrow> mesh_shape (fst st) = mesh_shape im \<and> ms_has_weight (snd st)
     \<and> length (im_verts im) \<le> length (ms_verts (snd st)) \<and> length (ms_weights (snd st)) = length (ms_verts (snd st))"

lemma position_vertices_iff:
  assumes "room im st"
  shows "each (position_vertex G joints) [0..<length (im_verts im)] st \<noteq> None \<longleftrightarrow> positions_ok joints im"
proof -
  have "each (position_vertex G joints) [0..<length (im_verts im)] st \<noteq> None \<longleftrightarrow>
    (\<forall>j \<in> set [0..<length (im_verts im)]. vertex_ok joints (im_weights im) (vertex_shape (im_verts im ! j)))"
  proof (rule each_defined_iff [where I = "room im", OF assms])
    fix j st st1
    assume j: "j \<in> set [0..<length (im_verts im)]" and r: "room im st"
    then show "position_vertex G joints j st \<noteq> None \<longleftrightarrow> vertex_ok joints (im_weights im) (vertex_shape (im_verts im ! j))"
      by (intro position_vertex_iff) (auto simp: room_def)
    assume st1: "position_vertex G joints j st = Some st1"
    obtain im1 m where st: "st = (im1, m)" by force
    have j1: "j < length (im_verts im1)"
      using j r mesh_shape_length [of im1 im] by (simp add: room_def st)
    from st1 r mesh_shape_update [OF j1] show "room im st1"
      by (auto simp: position_vertex_def st room_def Let_def vertex_shape_def split: option.splits if_splits)
  qed
  also have "\<dots> \<longleftrightarrow> positions_ok joints im"
    by (auto simp: positions_ok_def all_set_conv_all_nth)
  finally show ?thesis .
qed

text \<open>Of \<open>md0\<close>, the meshes before \<open>k\<close> have their positions and the others are fresh.\<close>

definition md5_positions :: "glm3 \<Rightarrow> md5 \<Rightarrow> nat \<Rightarrow> md5 \<Rightarrow> bool" where
  "md5_positions G md0 k md \<longleftrightarrow> md_joints md = md_joints md0 \<and> length (md_internal md) = length (md_internal md0)
     \<and> length (md_meshes md) = length (md_internal md0)
     \<and> (\<forall>i < length (md_internal md0).
          if i < k then positioned G (md_joints md0) (md_internal md0 ! i) (length (im_verts (md_internal md0 ! i)))
                          (md_internal md ! i, md_meshes md ! i)
          else md_internal md ! i = md_internal md0 ! i \<and> md_meshes md ! i = new_mesh\<lparr>ms_has_weight := True\<rparr>)"

lemma fit_fresh:
  "positioned G joints im 0 (im, fit_mesh im (new_mesh\<lparr>ms_has_weight := True\<rparr>))"
  "room im (im, fit_mesh im (new_mesh\<lparr>ms_has_weight := True\<rparr>))"
  by (auto simp: fit_mesh_def positioned_def room_def new_mesh_def mesh_resize_def Let_def vert_count_def resize_list_def
      new_vertex_def zero_vec_def)

lemma positions_add_meshes:
  assumes "md_meshes md0 = []"
  shows "md5_positions G md0 0 (add_meshes (new_mesh\<lparr>ms_has_weight := True\<rparr>) md0)"
  by (simp add: md5_positions_def add_meshes_def assms)

lemma position_mesh_step:
  assumes "md5_positions G md0 i md" and "i < length (md_internal md0)"
  shows "position_mesh G i md \<noteq> None \<longleftrightarrow> positions_ok (md_joints md0) (md_internal md0 ! i)"
    "position_mesh G i md = Some md1 \<Longrightarrow> md5_positions G md0 (Suc i) md1"
proof -
  let ?im = "md_internal md0 ! i" and ?m = "fit_mesh (md_internal md0 ! i) (new_mesh\<lparr>ms_has_weight := True\<rparr>)"
  have same: "md_internal md ! i = ?im" "md_meshes md ! i = new_mesh\<lparr>ms_has_weight := True\<rparr>" "md_joints md = md_joints md0"
    using assms by (auto simp: md5_positions_def)
  have eq: "position_mesh G i md = (case each (position_vertex G (md_joints md0)) [0..<length (im_verts ?im)] (?im, ?m) of
        None \<Rightarrow> None
      | Some (im1, m1) \<Rightarrow> Some (md\<lparr>md_internal := (md_internal md)[i := im1], md_meshes := (md_meshes md)[i := m1]\<rparr>))"
    by (simp add: position_mesh_def same Let_def)
  show "position_mesh G i md \<noteq> None \<longleftrightarrow> positions_ok (md_joints md0) ?im"
    using position_vertices_iff [OF fit_fresh(2), of G "md_joints md0" ?im] unfolding eq by (auto split: option.splits)
  assume "position_mesh G i md = Some md1"
  then obtain im1 m1 where e: "each (position_vertex G (md_joints md0)) [0..<length (im_verts ?im)] (?im, ?m) = Some (im1, m1)"
    and md1: "md1 = md\<lparr>md_internal := (md_internal md)[i := im1], md_meshes := (md_meshes md)[i := m1]\<rparr>"
    unfolding eq by (auto split: option.splits)
  have "positioned G (md_joints md0) ?im (length (im_verts ?im)) (im1, m1)"
    by (rule each_upt_keeps [where P = "positioned G (md_joints md0) ?im", OF e fit_fresh(1)]) (rule position_vertex_keeps)
  then show "md5_positions G md0 (Suc i) md1"
    using assms by (auto simp: md5_positions_def md1 nth_list_update less_Suc_eq)
qed

lemma CalculateVertexPositions_result:
  assumes "md_meshes md = []"
  shows "CalculateVertexPositions G md \<noteq> None \<longleftrightarrow> (\<forall>i < length (md_internal md). positions_ok (md_joints md) (md_internal md ! i))"
    "CalculateVertexPositions G md = Some md1 \<Longrightarrow> md5_positions G md (length (md_internal md)) md1"
proof -
  show "CalculateVertexPositions G md \<noteq> None \<longleftrightarrow> (\<forall>i < length (md_internal md). positions_ok (md_joints md) (md_internal md ! i))"
    unfolding CalculateVertexPositions_def
    by (rule each_upt_defined_iff [where P = "md5_positions G md", OF positions_add_meshes [OF assms]])
      (use position_mesh_step in blast)+
  assume "CalculateVertexPositions G md = Some md1"
  then show "md5_positions G md (length (md_internal md)) md1"
    unfolding CalculateVertexPositions_def
    by (rule each_upt_keeps [where P = "md5_positions G md", OF _ positions_add_meshes [OF assms]]) (use position_mesh_step in blast)+
qed

subsection \<open>The pass over the normals\<close>

lemma at_int_shape:
  assumes "mesh_shape im1 = mesh_shape im"
  shows "at_int (im_verts im1) i \<noteq> None \<longleftrightarrow> 0 \<le> i \<and> i < int (length (im_verts im))"
  using mesh_shape_length [OF assms] by (simp add: at_int_def)

lemma add_normal_step:
  assumes "mesh_shape im1 = mesh_shape im"
  shows "add_normal n i im1 \<noteq> None \<longleftrightarrow> 0 \<le> i \<and> i < int (length (im_verts im))"
    "add_normal n i im1 = Some im2 \<Longrightarrow> mesh_shape im2 = mesh_shape im"
proof -
  show "add_normal n i im1 \<noteq> None \<longleftrightarrow> 0 \<le> i \<and> i < int (length (im_verts im))"
    using at_int_shape [OF assms, of i] by (auto simp: add_normal_def split: option.split)
  assume "add_normal n i im1 = Some im2"
  then have i: "nat i < length (im_verts im1)" and
    im2: "im2 = im1\<lparr>im_verts := (im_verts im1)[nat i := (im_verts im1 ! nat i)\<lparr>mv_normal := v_plus (mv_normal (im_verts im1 ! nat i)) n\<rparr>]\<rparr>"
    by (auto simp: add_normal_def at_int_def split: option.splits if_splits)
  show "mesh_shape im2 = mesh_shape im"
    unfolding im2 assms [symmetric] by (rule mesh_shape_update [OF i]) (simp add: vertex_shape_def)
qed

lemma case_Some: "(case r of None \<Rightarrow> None | Some x \<Rightarrow> f x) = Some y \<Longrightarrow> (\<And>x. f x = Some y \<Longrightarrow> P) \<Longrightarrow> P"
  by (cases r) simp_all

lemma normal_triangle_step:
  assumes "mesh_shape im1 = mesh_shape im"
  shows "normal_triangle G tri im1 \<noteq> None \<longleftrightarrow> triangle_ok (length (im_verts im)) tri"
    "normal_triangle G tri im1 = Some im2 \<Longrightarrow> mesh_shape im2 = mesh_shape im"
proof -
  have each_iff: "each (add_normal n) is im1 \<noteq> None \<longleftrightarrow> (\<forall>i \<in> set is. 0 \<le> i \<and> i < int (length (im_verts im)))" for n "is"
    by (rule each_defined_iff [where I = "\<lambda>x. mesh_shape x = mesh_shape im", OF assms]) (use add_normal_step in blast)+
  have each_shape: "each (add_normal n) is im1 = Some im2 \<Longrightarrow> mesh_shape im2 = mesh_shape im" for n "is"
    by (rule each_keeps [where I = "\<lambda>x. mesh_shape x = mesh_shape im", OF _ assms]) (use add_normal_step in blast)+
  note inside = at_int_shape [OF assms]
  show "normal_triangle G tri im1 = Some im2 \<Longrightarrow> mesh_shape im2 = mesh_shape im"
    unfolding normal_triangle_def Let_def by (elim case_Some each_shape)
  show "normal_triangle G tri im1 \<noteq> None \<longleftrightarrow> triangle_ok (length (im_verts im)) tri"
  proof (cases "triangle_ok (length (im_verts im)) tri")
    case True
    then obtain v0 v1 v2 where v: "at_int (im_verts im1) (tri ! 0) = Some v0" "at_int (im_verts im1) (tri ! 1) = Some v1"
      "at_int (im_verts im1) (tri ! 2) = Some v2"
      using inside [of "tri ! 0"] inside [of "tri ! 1"] inside [of "tri ! 2"] by (auto simp: triangle_ok_def)
    show ?thesis
      using True each_iff [of _ "[tri ! 0, tri ! 1, tri ! 2]"]
      unfolding normal_triangle_def v option.case Let_def by (simp add: triangle_ok_def)
  next
    case False
    then have "at_int (im_verts im1) (tri ! 0) = None \<or> at_int (im_verts im1) (tri ! 1) = None \<or> at_int (im_verts im1) (tri ! 2) = None"
      using inside [of "tri ! 0"] inside [of "tri ! 1"] inside [of "tri ! 2"] by (auto simp: triangle_ok_def)
    then have "normal_triangle G tri im1 = None"
      unfolding normal_triangle_def by (elim disjE) (simp_all split: option.split)
    then show ?thesis
      using False by simp
  qed
qed

lemma weight_normals:
  assumes "vertex_ok joints (im_weights im) (vertex_shape v)" and "vertex_shape v1 = vertex_shape v"
  shows "\<exists>v2. each (weight_normal G joints im n) [0..<unat (mv_count v)] v1 = Some v2 \<and> vertex_shape v2 = vertex_shape v"
proof -
  have step: "weight_normal G joints im n k x \<noteq> None \<longleftrightarrow> weight_ok joints (im_weights im) (mv_start v) k"
    if "vertex_shape x = vertex_shape v" for k x
    using that by (auto simp: weight_normal_def weight_ok_def vertex_shape_def split: option.split)
  have keeps: "weight_normal G joints im n k x = Some y \<Longrightarrow> vertex_shape y = vertex_shape x" for k x y
    by (auto simp: weight_normal_def vertex_shape_def split: option.splits)
  have "each (weight_normal G joints im n) [0..<unat (mv_count v)] v1 \<noteq> None
      \<longleftrightarrow> (\<forall>k \<in> set [0..<unat (mv_count v)]. weight_ok joints (im_weights im) (mv_start v) k)"
    by (rule each_defined_iff [where I = "\<lambda>x. vertex_shape x = vertex_shape v", OF assms(2)])
      (simp add: keeps, rule step)
  also have "\<dots>"
    using assms(1) by (simp add: vertex_ok_def vertex_shape_def)
  finally have "each (weight_normal G joints im n) [0..<unat (mv_count v)] v1 \<noteq> None"
    by simp
  then obtain v2 where v2: "each (weight_normal G joints im n) [0..<unat (mv_count v)] v1 = Some v2" by auto
  have "vertex_shape v2 = vertex_shape v"
    by (rule each_keeps [where I = "\<lambda>x. vertex_shape x = vertex_shape v", OF v2 assms(2)]) (use keeps in metis)
  then show ?thesis using v2 by simp
qed

lemma normal_vertex_step:
  assumes "positioned G joints im (length (im_verts im)) st" and "positions_ok joints im" and "j < length (im_verts im)"
  shows "\<exists>st1. normal_vertex G joints j st = Some st1 \<and> positioned G joints im (length (im_verts im)) st1"
proof -
  obtain im1 m where st: "st = (im1, m)" by force
  have shape: "mesh_shape im1 = mesh_shape im" and len: "length (ms_verts m) = length (im_verts im)"
    using assms(1) by (auto simp: positioned_def st)
  let ?v = "im_verts im1 ! j" and ?n = "g_normalize G (mv_normal (im_verts im1 ! j))"
  have j1: "j < length (im_verts im1)"
    using assms(3) mesh_shape_length [OF shape] by simp
  have ok: "vertex_ok joints (im_weights im1) (vertex_shape ?v)"
    using assms(2,3) shape mesh_shape_nth [OF shape j1] by (auto simp: positions_ok_def mesh_shape_def vertex_shape_def)
  obtain v1 where v1: "each (weight_normal G joints im1 ?n) [0..<unat (mv_count ?v)] (?v\<lparr>mv_normal := zero_vec\<rparr>) = Some v1"
    "vertex_shape v1 = vertex_shape ?v"
    using weight_normals [OF ok, of "?v\<lparr>mv_normal := zero_vec\<rparr>"] by (auto simp: vertex_shape_def)
  have "mesh_shape (im1\<lparr>im_verts := (im_verts im1)[j := v1]\<rparr>) = mesh_shape im"
    using mesh_shape_update [OF j1 v1(2)] shape by simp
  then show ?thesis
    using assms(1,3) v1 len by (auto simp: normal_vertex_def st Let_def positioned_def nth_list_update)
qed

lemma normal_mesh_step:
  assumes "md5_positions G md0 (length (md_internal md0)) md" and "i < length (md_internal md0)"
    and "positions_ok (md_joints md0) (md_internal md0 ! i)"
  shows "normal_mesh G i md \<noteq> None \<longleftrightarrow> triangles_ok (md_internal md0 ! i)"
    "normal_mesh G i md = Some md1 \<Longrightarrow> md5_positions G md0 (length (md_internal md0)) md1"
proof -
  let ?im = "md_internal md0 ! i" and ?im1 = "md_internal md ! i" and ?m = "md_meshes md ! i" and ?J = "md_joints md0"
  have p: "positioned G ?J ?im (length (im_verts ?im)) (?im1, ?m)" and J: "md_joints md = ?J"
    using assms(1,2) by (auto simp: md5_positions_def)
  have shape: "mesh_shape ?im1 = mesh_shape ?im" and len: "vert_count ?m = length (im_verts ?im)"
    using p by (auto simp: positioned_def vert_count_def)
  have no_resize: "\<not> vert_count ?m < length (im_verts ?im1)"
    using len mesh_shape_length [OF shape] by simp
  have tris: "im_tris ?im1 = im_tris ?im"
    using shape by (simp add: mesh_shape_def)
  have t_iff: "each (normal_triangle G) (im_tris ?im) ?im1 \<noteq> None \<longleftrightarrow> triangles_ok ?im"
    unfolding triangles_ok_def
    by (rule each_defined_iff [where I = "\<lambda>x. mesh_shape x = mesh_shape ?im", OF shape]) (use normal_triangle_step in blast)+
  have t_keeps: "each (normal_triangle G) (im_tris ?im) ?im1 = Some im2 \<Longrightarrow> mesh_shape im2 = mesh_shape ?im" for im2
    by (rule each_keeps [where I = "\<lambda>x. mesh_shape x = mesh_shape ?im", OF _ shape]) (use normal_triangle_step in blast)+
  have v: "\<exists>st. each (normal_vertex G ?J) [0..<length (im_verts im2)] (im2, ?m) = Some st
      \<and> positioned G ?J ?im (length (im_verts ?im)) st" if "mesh_shape im2 = mesh_shape ?im" for im2
  proof -
    have "positioned G ?J ?im (length (im_verts ?im)) (im2, ?m)"
      using p that by (auto simp: positioned_def)
    then show ?thesis
      unfolding mesh_shape_length [OF that]
      by (intro each_upt [where P = "\<lambda>_. positioned G ?J ?im (length (im_verts ?im))"])
        (use normal_vertex_step [OF _ assms(3)] in auto)
  qed
  have eq: "normal_mesh G i md = (case each (normal_triangle G) (im_tris ?im) ?im1 of
             None \<Rightarrow> None
           | Some im1 \<Rightarrow>
               (case each (normal_vertex G ?J) [0..<length (im_verts im1)] (im1, ?m) of
                  None \<Rightarrow> None
                | Some (im2, m2) \<Rightarrow> Some (md\<lparr>md_internal := (md_internal md)[i := im2], md_meshes := (md_meshes md)[i := m2]\<rparr>)))"
    by (simp add: normal_mesh_def no_resize Let_def tris J cong: option.case_cong)
  show "normal_mesh G i md \<noteq> None \<longleftrightarrow> triangles_ok ?im"
    using t_iff t_keeps v unfolding eq by (fastforce split: option.split)
  assume "normal_mesh G i md = Some md1"
  then obtain im1 im2 m2 where "each (normal_triangle G) (im_tris ?im) ?im1 = Some im1"
    and e: "each (normal_vertex G ?J) [0..<length (im_verts im1)] (im1, ?m) = Some (im2, m2)"
    and md1: "md1 = md\<lparr>md_internal := (md_internal md)[i := im2], md_meshes := (md_meshes md)[i := m2]\<rparr>"
    unfolding eq by (auto split: option.splits)
  then have "positioned G ?J ?im (length (im_verts ?im)) (im2, m2)"
    using v [OF t_keeps] by fastforce
  then show "md5_positions G md0 (length (md_internal md0)) md1"
    using assms(1,2) by (auto simp: md5_positions_def md1 nth_list_update)
qed

subsection \<open>Loading a file\<close>

text \<open>Parsing makes no meshes, and triangles of three indices.\<close>

definition parsed :: "md5 \<Rightarrow> bool" where
  "parsed md \<longleftrightarrow> md_meshes md = [] \<and> (\<forall>im \<in> set (md_internal md). \<forall>tri \<in> set (im_tris im). length tri = 3)"

lemma mesh_line_tris:
  assumes "mesh_line line (m, textures) = Some (m1, textures1)" and "\<forall>tri \<in> set (im_tris m). length tri = 3"
  shows "\<forall>tri \<in> set (im_tris m1). length tri = 3"
proof -
  obtain w ss where w: "get_word [] (istr (CleanString line)) = (w, ss)" by force
  have "length (ParseTriangle ss) = 3"
    by (simp add: ParseTriangle_def split: prod.split)
  then have "im_tris m1 \<in> {im_tris m, im_tris m @ [ParseTriangle ss]}"
    using assms(1) unfolding mesh_line_def prod.case w Let_def by (simp split: if_split_asm) auto
  then show ?thesis
    using assms(2) \<open>length (ParseTriangle ss) = 3\<close> by auto
qed

lemma read_mesh_tris:
  assumes "read_mesh ls e st = ((Some m, textures), rest)" and "\<forall>tri \<in> set (im_tris (fst st)). length tri = 3"
  shows "\<forall>tri \<in> set (im_tris m). length tri = 3"
  using assms
proof (induction ls arbitrary: e st)
  case (Cons line ls)
  obtain m0 t0 where st: "st = (m0, t0)" by force
  define next_st where "next_st = (if 0 < e then (if CHR ''{'' \<in> set line then e + 1 else e, st)
            else (case mesh_line line st of
                Some st1 \<Rightarrow> (e, st1)
              | None \<Rightarrow> (if CHR ''{'' \<in> set line then e + 1 else e, st)))"
  obtain e1 st1 where n: "next_st = (e1, st1)" by (cases next_st)
  have "st1 = st \<or> mesh_line line st = Some st1"
    using n by (auto simp: next_st_def split: if_splits option.splits)
  then have tris: "\<forall>tri \<in> set (im_tris (fst st1)). length tri = 3"
    using mesh_line_tris [of line m0 t0 "fst st1" "snd st1"] Cons.prems(2) by (auto simp: st)
  have "read_mesh (line # ls) e st = (if CHR ''}'' \<in> set line
          then (if 0 < e1 then read_mesh ls (e1 - 1) st1 else ((Some (fst st1), snd st1), ls))
          else read_mesh ls e1 st1)"
    using n unfolding next_st_def by simp
  then show ?case
    using Cons.IH [OF _ tris] Cons.prems(1) tris by (auto split: if_splits)
qed simp

lemma md5_lines_parsed:
  assumes "md5_lines ls md = Some (ok, md1)" and "parsed md"
  shows "parsed md1"
  using assms
proof (induction ls md rule: md5_lines.induct)
  case (1 md)
  then show ?case by (simp add: md5_lines.simps)
next
  case (2 line rest md)
  obtain w ss where w: "get_word [] (istr line) = (w, ss)" by force
  note IH = 2(1-5) [OF w [symmetric]]
  consider "w = ''MD5Version''" | "w = ''joints''" | "w = ''mesh''" | "w \<noteq> ''MD5Version''" "w \<noteq> ''joints''" "w \<noteq> ''mesh''" by blast
  then show ?case
  proof cases
    case 1
    then show ?thesis
      using IH(1) "2.prems" by (auto simp: md5_lines.simps w split: if_splits)
  next
    case 2
    obtain js rest1 where r: "read_joints rest ss (md_joints md) = (js, rest1)" by force
    show ?thesis
      using IH(2) [OF _ 2 r [symmetric]] "2.prems" 2 by (simp add: md5_lines.simps w r parsed_def)
  next
    case 3
    obtain om textures rest1 where r: "read_mesh rest 0 (new_internal_mesh, md_textures md) = ((om, textures), rest1)"
      by (metis surj_pair)
    show ?thesis
    proof (cases om)
      case None
      then show ?thesis
        using IH(3) [OF _ _ 3 r [symmetric], of om textures] "2.prems" 3 r by (simp add: md5_lines.simps w parsed_def)
    next
      case (Some m)
      have "\<forall>tri \<in> set (im_tris m). length tri = 3"
        by (rule read_mesh_tris [OF r [unfolded Some]]) (simp add: new_internal_mesh_def)
      then show ?thesis
        using IH(4) [OF _ _ 3 r [symmetric], of om textures m] "2.prems" 3 r Some by (auto simp: md5_lines.simps w parsed_def)
    qed
  next
    case 4
    then show ?thesis
      using IH(5) "2.prems" by (simp add: md5_lines.simps w)
  qed
qed

lemma md5_Parse_parsed: "md5_Parse text = Some (ok, md) \<Longrightarrow> parsed md"
  using md5_lines_parsed [of "text_lines text" new_md5 ok md] by (simp add: md5_Parse_def parsed_def new_md5_def)

lemma CalculateVertexNormals_result:
  assumes "md5_positions G md0 (length (md_internal md0)) md"
    and "\<forall>i < length (md_internal md0). positions_ok (md_joints md0) (md_internal md0 ! i)"
  shows "CalculateVertexNormals G md \<noteq> None \<longleftrightarrow> (\<forall>i < length (md_internal md0). triangles_ok (md_internal md0 ! i))"
    "CalculateVertexNormals G md = Some md1 \<Longrightarrow> md5_positions G md0 (length (md_internal md0)) md1"
proof -
  let ?P = "\<lambda>_ :: nat. md5_positions G md0 (length (md_internal md0))"
  have same: "add_meshes m md = md" "length (md_internal md) = length (md_internal md0)" for m
    using assms(1) by (simp_all add: add_meshes_def md5_positions_def)
  show "CalculateVertexNormals G md \<noteq> None \<longleftrightarrow> (\<forall>i < length (md_internal md0). triangles_ok (md_internal md0 ! i))"
    unfolding CalculateVertexNormals_def same
    by (rule each_upt_defined_iff [where P = ?P, OF assms(1)]) (use normal_mesh_step assms(2) in blast)+
  assume "CalculateVertexNormals G md = Some md1"
  then show "md5_positions G md0 (length (md_internal md0)) md1"
    unfolding CalculateVertexNormals_def same
    by (rule each_upt_keeps [where P = ?P, OF _ assms(1)]) (use normal_mesh_step assms(2) in blast)+
qed

text \<open>The meshes of a loaded file, from what was parsed.\<close>

definition bind_position :: "glm3 \<Rightarrow> joint list \<Rightarrow> weight list \<Rightarrow> md5_vertex \<Rightarrow> real vec3" where
  "bind_position G joints ws v = weighted_sum G joints ws (mv_start v) (unat (mv_count v)) zero_vec"

definition md5_mesh_of :: "glm3 \<Rightarrow> joint list \<Rightarrow> internal_mesh \<Rightarrow> real mesh \<Rightarrow> bool" where
  "md5_mesh_of G joints im m \<longleftrightarrow> wf_mesh m \<and> ms_has_weight m
     \<and> map vt_position (ms_verts m) = map (bind_position G joints (im_weights im)) (im_verts im)
     \<and> (\<exists>og mg. ms_objects m = [og] \<and> og_indices og = concat (map (map nat) (im_tris im))
          \<and> og_materials og = [mg] \<and> mg_start mg = 0 \<and> mg_count mg = length (og_indices og) \<and> mg_textures mg = [im_shader im])"

definition files_ok :: "md5 \<Rightarrow> bool" where
  "files_ok md \<longleftrightarrow> (\<forall>im \<in> set (md_internal md). positions_ok (md_joints md) im \<and> triangles_ok im)"

lemma index_mesh_of:
  assumes "positioned G joints im (length (im_verts im)) (im1, m)" and "triangles_ok im"
    and "\<forall>tri \<in> set (im_tris im). length tri = 3" and "length (im_verts im) \<le> 2 ^ 31"
  shows "md5_mesh_of G joints im (index_mesh im1 m)"
proof -
  have shape: "mesh_shape im1 = mesh_shape im"
    using assms(1) by (simp add: positioned_def)
  have small: "0 \<le> x \<and> x < int (length (im_verts im)) \<and> x mod 2 ^ 32 = x" if "tri \<in> set (im_tris im)" "x \<in> set tri" for tri x
  proof -
    have "length tri = 3" using assms(3) that(1) by simp
    then obtain a b c where "tri = [a, b, c]"
      by (auto simp: length_Suc_conv numeral_3_eq_3)
    moreover have "\<forall>i \<in> {0, 1, 2}. 0 \<le> tri ! i \<and> tri ! i < int (length (im_verts im))"
      using assms(2) that(1) by (auto simp: triangles_ok_def triangle_ok_def)
    ultimately have "0 \<le> x" "x < int (length (im_verts im))"
      using that(2) by auto
    then show ?thesis using assms(4) by simp
  qed
  have "concat (map (\<lambda>tri. map (\<lambda>v. nat (v mod 2 ^ 32)) tri) (im_tris im)) = concat (map (map nat) (im_tris im))"
    using small by (intro arg_cong [where f = concat] map_cong refl) auto
  moreover have "\<forall>n \<in> set (concat (map (map nat) (im_tris im))). n < length (im_verts im)"
    using small by (auto simp: nat_less_iff)
  moreover have "map vt_position (ms_verts m) = map (bind_position G joints (im_weights im)) (im_verts im)"
    using assms(1) by (intro nth_equalityI) (auto simp: positioned_def bind_position_def)
  ultimately show ?thesis
    using assms(1) shape
    by (auto simp: md5_mesh_of_def index_mesh_def Let_def positioned_def wf_mesh_def wf_object_def vert_count_def
        new_object_group_def mesh_shape_def)
qed

lemma md5_build_iff:
  assumes "md_meshes md = []"
  shows "md5_build G md \<noteq> None \<longleftrightarrow> files_ok md"
proof (cases "CalculateVertexPositions G md")
  case None
  then show ?thesis
    using CalculateVertexPositions_result(1) [OF assms, of G] by (auto simp: md5_build_def files_ok_def)
next
  case (Some md1)
  then have ok: "\<forall>i < length (md_internal md). positions_ok (md_joints md) (md_internal md ! i)"
    using CalculateVertexPositions_result(1) [OF assms, of G] by simp
  have "md5_build G md \<noteq> None \<longleftrightarrow> CalculateVertexNormals G md1 \<noteq> None"
    by (simp add: md5_build_def Some)
  also have "\<dots> \<longleftrightarrow> (\<forall>i < length (md_internal md). triangles_ok (md_internal md ! i))"
    by (rule CalculateVertexNormals_result(1) [OF CalculateVertexPositions_result(2) [OF assms Some] ok])
  also have "\<dots> \<longleftrightarrow> files_ok md"
    using ok by (auto simp: files_ok_def all_set_conv_all_nth)
  finally show ?thesis .
qed

lemma md5_build_meshes:
  assumes "parsed md" and "md5_build G md = Some md2" and "\<forall>im \<in> set (md_internal md). length (im_verts im) \<le> 2 ^ 31"
  shows "list_all2 (md5_mesh_of G (md_joints md)) (md_internal md) (md_meshes md2)"
proof -
  have none: "md_meshes md = []" using assms(1) by (simp add: parsed_def)
  obtain md0 md1 where p: "CalculateVertexPositions G md = Some md0" and n: "CalculateVertexNormals G md0 = Some md1"
    and md2: "md2 = UpdateIndexList md1"
    using assms(2) by (auto simp: md5_build_def split: option.splits)
  have ok: "files_ok md"
    using md5_build_iff [OF none, of G] assms(2) by simp
  then have "\<forall>i < length (md_internal md). positions_ok (md_joints md) (md_internal md ! i)"
    by (simp add: files_ok_def)
  from CalculateVertexNormals_result(2) [OF CalculateVertexPositions_result(2) [OF none p] this n]
  have all: "md5_positions G md (length (md_internal md)) md1" .
  then have same: "add_meshes m md1 = md1" "length (md_meshes md1) = length (md_internal md)" "length (md_internal md1) = length (md_internal md)" for m
    by (simp_all add: add_meshes_def md5_positions_def)
  show ?thesis
  proof (rule list_all2_all_nthI)
    fix i assume i: "i < length (md_internal md)"
    then have "md5_mesh_of G (md_joints md) (md_internal md ! i) (index_mesh (md_internal md1 ! i) (md_meshes md1 ! i))"
      using all ok assms(1,3) by (intro index_mesh_of) (auto simp: md5_positions_def files_ok_def parsed_def)
    then show "md5_mesh_of G (md_joints md) (md_internal md ! i) (md_meshes md2 ! i)"
      using i same by (simp add: md2 UpdateIndexList_def)
  qed (simp add: md2 UpdateIndexList_def same)
qed

text \<open>A file with one joint, and a mesh of one vertex with one weight and one triangle.\<close>

definition small_text :: string where
  "small_text = ''joints {'' @ [CHR 0x0A, CHR 0x22, CHR ''a'', CHR 0x22, CHR ''}'', CHR 0x0A] @ ''mesh {'' @ [CHR 0x0A]
     @ ''vert 0 0 0 0 1'' @ [CHR 0x0A] @ ''weight'' @ [CHR 0x0A] @ ''tri'' @ [CHR 0x0A] @ ''}'' @ [CHR 0x0A]"

lemma small_lines: "text_lines small_text =
    [''joints {'', [CHR 0x22, CHR ''a'', CHR 0x22, CHR ''}''], ''mesh {'', ''vert 0 0 0 0 1'', ''weight'', ''tri'', ''}'']"
  by code_simp

lemmas stream_defs = consume_def istr_def get_word_def get_int_def get_unsigned_def get_real_def get_real3_def get_float_def
  sentry_def Let_def take_sign_def is_digit_def is_space_def digits_value_def read_exponent_def INT_MAX_def power10_def

lemma small_vertex:
  assumes "get_word [] (istr (CleanString ''vert 0 0 0 0 1'')) = (w, ss)"
  shows "mv_start (ParseVertex ss) = 0 \<and> mv_count (ParseVertex ss) = 1"
  using assms by (auto simp: CleanString_def ParseVertex_def new_md5_vertex_def stream_defs)

lemma small_parsed: "\<exists>md. md5_Parse small_text = Some (True, md) \<and> files_ok md \<and> length (md_internal md) = 1
    \<and> (\<forall>im \<in> set (md_internal md). length (im_verts im) = 1)"
proof -
  obtain ss where v: "get_word [] (istr (CleanString ''vert 0 0 0 0 1'')) = (''vert'', ss)"
    by (simp add: CleanString_def stream_defs)
  have "\<exists>js md. md5_Parse small_text = Some (True, md) \<and> md_joints md = js \<and> length js = 1
     \<and> md_internal md = [\<lparr>im_shader = [], im_verts = [ParseVertex ss], im_tris = [[0, 0, 0]], im_weights = [new_weight]\<rparr>]"
    using v by (auto simp: md5_Parse_def small_lines md5_lines.simps CleanString_def mesh_line_def new_md5_def new_internal_mesh_def
        ParseTriangle_def ParsesWeight_def new_weight_def zero_vec_def stream_defs split: prod.split)
  then show ?thesis
    using small_vertex [OF v]
    by (auto simp: files_ok_def positions_ok_def triangles_ok_def vertex_ok_def triangle_ok_def weight_ok_def at_int_def
        vertex_shape_def new_weight_def)
qed

text \<open>A parsed MD5 mesh is built without an access outside a vector exactly when each vertex has
  at most four weights, its weights and their joints exist, and each triangle names vertices
  of its mesh. The loader checks none of this.
\<close>

theorem md5_loads_iff:
  assumes "md5_Parse text = Some (True, md)"
  shows "md5_Create G text \<noteq> None \<longleftrightarrow> files_ok md"
  using md5_build_iff [of md G] md5_Parse_parsed [OF assms] by (simp add: md5_Create_def assms parsed_def)

text \<open>A mesh file that loads gives, for each mesh of the file, a well-formed mesh with weights:
  the positions are the weighted sums over the joints, the indices are those of the
  triangles, and one material group covers them all.
\<close>

theorem md5_meshes:
  assumes "md5_Parse text = Some (True, md)" and "md5_Create G text = Some (Some md2)"
    and "\<forall>im \<in> set (md_internal md). length (im_verts im) \<le> 2 ^ 31"
  shows "list_all2 (md5_mesh_of G (md_joints md)) (md_internal md) (md_meshes md2)"
proof -
  have "md5_build G md = Some md2"
    using assms(2) by (simp add: md5_Create_def assms(1))
  then show ?thesis
    by (rule md5_build_meshes [OF md5_Parse_parsed [OF assms(1)] _ assms(3)])
qed

theorem md5_loads_iff_witness: "\<exists>md. md5_Parse small_text = Some (True, md) \<and> files_ok md \<and> (\<forall>G. md5_Create G small_text \<noteq> None)"
  using small_parsed md5_loads_iff by blast

theorem md5_meshes_witness:
  "\<exists>md. md5_Parse small_text = Some (True, md) \<and> length (md_internal md) = 1
     \<and> (\<forall>G. \<exists>md2. md5_Create G small_text = Some (Some md2) \<and> list_all2 (md5_mesh_of G (md_joints md)) (md_internal md) (md_meshes md2))"
proof -
  obtain md where md: "md5_Parse small_text = Some (True, md)" "files_ok md" "length (md_internal md) = 1"
    "\<forall>im \<in> set (md_internal md). length (im_verts im) = 1"
    using small_parsed by blast
  have "\<exists>md2. md5_Create G small_text = Some (Some md2)" for G
    using md5_build_iff [of md G] md5_Parse_parsed [OF md(1)] md(2) by (auto simp: md5_Create_def md(1) parsed_def)
  then show ?thesis
    using md5_meshes [OF md(1)] md by fastforce
qed

subsection \<open>Lines that are not read as written\<close>

lemma CleanString_result:
  "CleanString s = filter (\<lambda>c. c \<notin> {CHR ''('', CHR '')'', CHR 0x22, CHR 0x27}) (takeWhile (\<lambda>c. c \<noteq> CHR ''/'') s)"
proof -
  have "takeWhile (\<lambda>c. c \<noteq> CHR ''/'') s = s" if "CHR ''/'' \<notin> set s"
    using that by (intro takeWhile_eq_all_conv [THEN iffD2] ballI notI) simp
  then have "(if CHR ''/'' \<in> set s then takeWhile (\<lambda>c. c \<noteq> CHR ''/'') s else s) = takeWhile (\<lambda>c. c \<noteq> CHR ''/'') s"
    by (simp del: takeWhile_eq_all_conv)
  then show ?thesis
    unfolding CleanString_def Let_def filter_filter by (intro filter_cong) (simp, blast)
qed

text \<open>A joint of which nothing was stored.\<close>

definition lost_joint :: joint where
  "lost_joint = new_joint\<lparr>jt_orientation := ComputeWNeg default_quat\<rparr>"

lemma sentry_eof: "is_eof s \<Longrightarrow> sentry s = (False, s\<lparr>is_fail := True\<rparr>)"
  by (simp add: sentry_def)

lemma get_eof:
  assumes "is_eof s"
  shows "get_word w s = (w, s\<lparr>is_fail := True\<rparr>)" "get_int i s = (i, s\<lparr>is_fail := True\<rparr>)" "get_real r s = (r, s\<lparr>is_fail := True\<rparr>)"
  by (simp_all add: get_word_def get_int_def get_real_def get_float_def sentry_eof [OF assms])

lemma ParseJoint_eof:
  assumes "is_eof s"
  shows "fst (ParseJoint s) = lost_joint" "is_eof (snd (ParseJoint s))"
  using assms
  by (simp_all add: ParseJoint_def get_eof get_real3_def lost_joint_def new_joint_def zero_vec_def default_quat_def)

text \<open>The lines up to the first closing brace.\<close>

fun block :: "string list \<Rightarrow> string list" where
  "block [] = []"
| "block (l # ls) = (if CHR ''}'' \<in> set l then [l] else l # block ls)"

text \<open>The stream from which joints are read keeps its end-of-file bit when it gets the next line:
  after a joint line that ends with a number (its closing parenthesis is removed), and for all
  joints when the brace follows on its own line, a joint is read as nothing.
\<close>

theorem joints_after_end_lost:
  assumes "is_eof ss"
  shows "fst (read_joints ls ss joints) = joints @ replicate (length (filter (\<lambda>l. CHR 0x22 \<in> set l) (block ls))) lost_joint"
  using assms
proof (induction ls arbitrary: ss joints)
  case (Cons l ls)
  obtain j s1 where j: "ParseJoint (ss\<lparr>is_rest := CleanString l\<rparr>) = (j, s1)" by force
  have "j = lost_joint" "is_eof s1"
    using ParseJoint_eof [of "ss\<lparr>is_rest := CleanString l\<rparr>"] Cons.prems j by simp_all
  then show ?case
    using Cons j by (simp add: replicate_app_Cons_same)
qed simp

theorem joints_after_end_lost_witness:
  "fst (read_joints [''{'', [CHR 0x22, CHR ''a'', CHR 0x22] @ '' -1 (0 0 0) (0 0 0)'', ''}''] (snd (get_word [] (istr ''joints''))) []) = [lost_joint]"
proof -
  have "is_eof (snd (get_word [] (istr ''joints'')))"
    by (simp add: get_word_def istr_def sentry_def consume_def is_space_def)
  from joints_after_end_lost [OF this, of "[''{'', [CHR 0x22, CHR ''a'', CHR 0x22] @ '' -1 (0 0 0) (0 0 0)'', ''}'']" "[]"]
  show ?thesis by (simp del: read_joints.simps)
qed

text \<open>Cleaning a line is meant to remove a comment, which two slashes start; it removes all after a
  single slash, so that the path of a shader keeps only its first directory.
\<close>

theorem shader_path_cut:
  assumes "dir \<noteq> []" and "\<forall>c \<in> set dir. \<not> is_space c \<and> c \<notin> {CHR ''('', CHR '')'', CHR 0x22, CHR 0x27, CHR ''/''}"
  shows "\<exists>textures1. mesh_line (''shader '' @ [CHR 0x22] @ dir @ ''/'' @ file) (m, textures) = Some (m\<lparr>im_shader := dir\<rparr>, textures1)"
proof -
  have "takeWhile (\<lambda>c. c \<noteq> CHR ''/'') (dir @ CHR ''/'' # file) = dir"
    using assms(2) by (subst takeWhile_append2) auto
  moreover have "filter (\<lambda>c. c \<noteq> CHR ''('' \<and> c \<noteq> CHR '')'' \<and> c \<noteq> CHR 0x22 \<and> c \<noteq> CHR 0x27) dir = dir"
    using assms(2) by (auto simp: filter_id_conv)
  ultimately have clean: "CleanString (''shader '' @ [CHR 0x22] @ dir @ ''/'' @ file) = ''shader '' @ dir"
    by (simp add: CleanString_result)
  have w: "get_word [] (istr (''shader '' @ dir)) = (''shader'', consume ('' '' @ dir) False (istr (''shader '' @ dir)))"
    by (rule get_word_plain [where w = "[]"]) (simp_all add: istr_def is_space_def)
  have d: "get_word (im_shader m) (consume ('' '' @ dir) False (istr (''shader '' @ dir)))
      = (dir, consume [] False (consume ('' '' @ dir) False (istr (''shader '' @ dir))))"
    by (rule get_word_plain [where w = "'' ''"]) (use assms in \<open>simp_all add: istr_def consume_def is_space_def\<close>)
  show ?thesis
    unfolding mesh_line_def clean prod.case w using d by (simp add: Let_def)
qed

theorem shader_path_cut_witness:
  "\<exists>textures1. mesh_line (''shader '' @ [CHR 0x22] @ ''models'' @ ''/'' @ ''bob.png'') (new_internal_mesh, [])
     = Some (new_internal_mesh\<lparr>im_shader := ''models''\<rparr>, textures1)"
  by (rule shader_path_cut) (simp_all add: is_space_def)

end
