(* ===== verification/MD5_Anim.thy ===== *)
theory MD5_Anim
  imports MD5_Mesh "HOL-Library.Monad_Syntax"
begin

text \<open>
  MD5 animations (client/resources/md5anim.cpp): parsing, the skeletons of frames, the check
  against a mesh, and the pose between two frames. As for meshes, floats are real numbers, the
  operations of glm are parameters, and \<open>None\<close> is an access outside a vector or the use of a
  value that was never stored.
\<close>

subsection \<open>Data\<close>

record anim_joint =
  aj_name :: string
  aj_parent :: int
  aj_flags :: int
  aj_start :: int
  aj_base_position :: "real vec3"
  aj_base_orientation :: "real quat"
  aj_bind_position :: "real vec3"
  aj_bind_orientation :: "real quat"

definition new_anim_joint :: anim_joint where
  "new_anim_joint = \<lparr>aj_name = [], aj_parent = 0, aj_flags = 0, aj_start = 0, aj_base_position = zero_vec,
     aj_base_orientation = default_quat, aj_bind_position = zero_vec, aj_bind_orientation = default_quat\<rparr>"

record skeleton_joint =
  sj_position :: "real vec3"
  sj_orientation :: "real quat"

text \<open>A parameter for which no number was read has no value.\<close>

record anim_frame =
  fr_index :: int
  fr_parameters :: "real option list"
  fr_skeleton :: "skeleton_joint list"

record anim =
  an_bounds :: "(real vec3 \<times> real vec3) list"
  an_frames :: "anim_frame list"
  an_joints :: "anim_joint list"
  an_frame_rate :: int

definition new_anim :: anim where
  "new_anim = \<lparr>an_bounds = [], an_frames = [], an_joints = [], an_frame_rate = 0\<rparr>"

subsection \<open>Parsing\<close>

definition ParseAnimJoint :: "istream \<Rightarrow> anim_joint \<times> istream" where
  "ParseAnimJoint ss =
     (let (n, s1) = get_word [] ss; (p, s2) = get_int 0 s1; (fl, s3) = get_int 0 s2; (st, s4) = get_int 0 s3
      in (new_anim_joint\<lparr>aj_name := n, aj_parent := p, aj_flags := fl, aj_start := st\<rparr>, s4))"

fun read_hierarchy :: "string list \<Rightarrow> istream \<Rightarrow> anim_joint list \<Rightarrow> anim_joint list \<times> string list" where
  "read_hierarchy [] ss joints = (joints, [])"
| "read_hierarchy (line # rest) ss joints =
     (case (if CHR 0x22 \<in> set line
            then (case ParseAnimJoint (ss\<lparr>is_rest := CleanString line\<rparr>) of (j, s1) \<Rightarrow> (s1, joints @ [j]))
            else (ss, joints)) of
        (ss1, joints1) \<Rightarrow> if CHR ''}'' \<in> set line then (joints1, rest) else read_hierarchy rest ss1 joints1)"

definition has_parens :: "string \<Rightarrow> bool" where
  "has_parens line \<longleftrightarrow> CHR ''('' \<in> set line \<and> CHR '')'' \<in> set line"

fun read_bounds :: "string list \<Rightarrow> istream \<Rightarrow> (real vec3 \<times> real vec3) list \<Rightarrow> (real vec3 \<times> real vec3) list \<times> string list" where
  "read_bounds [] ss boxes = (boxes, [])"
| "read_bounds (line # rest) ss boxes =
     (case (if has_parens line
            then (let (lo, s1) = get_real3 zero_vec (ss\<lparr>is_rest := CleanString line\<rparr>); (hi, s2) = get_real3 zero_vec s1
                  in (s2, boxes @ [(lo, hi)]))
            else (ss, boxes)) of
        (ss1, boxes1) \<Rightarrow> if CHR ''}'' \<in> set line then (boxes1, rest) else read_bounds rest ss1 boxes1)"

definition set_base :: "istream \<Rightarrow> anim_joint \<Rightarrow> anim_joint \<times> istream" where
  "set_base ss j =
     (let (p, s1) = get_real3 (aj_base_position j) ss; q = aj_base_orientation j;
          (x, s2) = get_real (qx q) s1; (y, s3) = get_real (qy q) s2; (z, s4) = get_real (qz q) s3
      in (j\<lparr>aj_base_position := p, aj_base_orientation := q\<lparr>qx := x, qy := y, qz := z\<rparr>\<rparr>, s4))"

text \<open>
  The base frame. Every line counts for the index. Of an index beyond the joints by more than
  one the code returns \<open>false\<close>, of the one just behind them it uses the element.
\<close>

fun read_baseframe :: "string list \<Rightarrow> istream \<Rightarrow> nat \<Rightarrow> anim_joint list \<Rightarrow> (bool \<times> anim_joint list \<times> string list) option" where
  "read_baseframe [] ss index joints = Some (True, joints, [])"
| "read_baseframe (line # rest) ss index joints =
     (if has_parens line then
        (if length joints < index then Some (False, joints, rest)
         else if index = length joints then None
         else (case set_base (ss\<lparr>is_rest := CleanString line\<rparr>) (joints ! index) of
           (j, s1) \<Rightarrow>
             if CHR ''}'' \<in> set line then Some (True, joints[index := j], rest)
             else read_baseframe rest s1 (Suc index) (joints[index := j])))
      else if CHR ''}'' \<in> set line then Some (True, joints, rest)
      else read_baseframe rest ss (Suc index) joints)"

text \<open>\<open>std::istream::peek\<close>.\<close>

definition peek :: "istream \<Rightarrow> char option \<times> istream" where
  "peek s = (if is_eof s \<or> is_fail s then (None, s\<lparr>is_fail := True\<rparr>)
     else case is_rest s of [] \<Rightarrow> (None, s\<lparr>is_eof := True\<rparr>) | c # _ \<Rightarrow> (Some c, s))"

text \<open>
  The numbers of a line; \<open>None\<close> if there are more than announced. The loop ends although a
  stream that failed in the middle of a line does not reach its end.
\<close>

function read_numbers :: "nat \<Rightarrow> istream \<Rightarrow> nat \<Rightarrow> real option list \<Rightarrow> (nat \<times> real option list) option" where
  "read_numbers num_components ss number params =
     (if is_eof ss then Some (number, params)
      else if num_components < number then None
      else (case peek ss of (c, s1) \<Rightarrow>
        if c = Some (CHR 0x0D) \<or> c = Some (CHR 0x0A) then Some (number, params)
        else (case get_float None s1 of (r, s2) \<Rightarrow>
          read_numbers num_components s2 (Suc number) (params @ [map_option of_rat r]))))"
  by pat_completeness auto
termination
  by (relation "measure (\<lambda>(n, ss, number, params). Suc n - number)") auto

declare read_numbers.simps [simp del]

fun read_anim_frame :: "nat \<Rightarrow> string list \<Rightarrow> nat \<Rightarrow> real option list \<Rightarrow> (nat \<times> real option list \<times> string list) option" where
  "read_anim_frame num_components [] number params = Some (number, params, [])"
| "read_anim_frame num_components (line # rest) number params =
     (if CHR ''}'' \<in> set line then Some (number, params, rest)
      else (case read_numbers num_components (istr line) number params of
          None \<Rightarrow> None
        | Some (number1, params1) \<Rightarrow> read_anim_frame num_components rest number1 params1))"

lemma read_hierarchy_rest: "(js1, rest) = read_hierarchy ls ss js \<Longrightarrow> length rest \<le> length ls"
  by (induction ls arbitrary: ss js) (auto simp: le_SucI split: prod.splits if_splits)

lemma read_bounds_rest: "(bs1, rest) = read_bounds ls ss bs \<Longrightarrow> length rest \<le> length ls"
  by (induction ls arbitrary: ss bs) (auto simp: le_SucI split: prod.splits if_splits)

lemma read_baseframe_rest: "read_baseframe ls ss i js = Some (ok, js1, rest) \<Longrightarrow> length rest \<le> length ls"
  by (induction ls arbitrary: ss i js) (auto simp: le_SucI split: prod.splits if_splits)

lemma read_anim_frame_rest: "read_anim_frame n ls k ps = Some (k1, ps1, rest) \<Longrightarrow> length rest \<le> length ls"
  by (induction ls arbitrary: k ps) (auto simp: le_SucI split: option.splits if_splits)

function anim_lines :: "string list \<Rightarrow> nat \<Rightarrow> anim \<Rightarrow> (bool \<times> anim) option" where
  "anim_lines [] num_components an = Some (True, an)"
| "anim_lines (line # rest) num_components an =
     (case get_word [] (istr line) of (identifier, ss) \<Rightarrow>
        if identifier = ''MD5Version'' then
          (if fst (sentry ss)
           then (if fst (get_int 0 ss) \<noteq> 10 then Some (False, an) else anim_lines rest num_components an)
           else None)
        else if identifier = ''frameRate'' then
          anim_lines rest num_components (an\<lparr>an_frame_rate := fst (get_int (an_frame_rate an) ss)\<rparr>)
        else if identifier = ''numAnimatedComponents'' then
          anim_lines rest (unat (fst (get_unsigned (of_nat num_components) ss))) an
        else if identifier = ''hierarchy'' then
          (case read_hierarchy rest ss (an_joints an) of (js, rest1) \<Rightarrow> anim_lines rest1 num_components (an\<lparr>an_joints := js\<rparr>))
        else if identifier = ''bounds'' then
          (case read_bounds rest ss (an_bounds an) of (bs, rest1) \<Rightarrow> anim_lines rest1 num_components (an\<lparr>an_bounds := bs\<rparr>))
        else if identifier = ''baseframe'' then
          (case read_baseframe rest ss 0 (an_joints an) of
             None \<Rightarrow> None
           | Some (ok, js, rest1) \<Rightarrow>
               if ok then anim_lines rest1 num_components (an\<lparr>an_joints := js\<rparr>) else Some (False, an\<lparr>an_joints := js\<rparr>))
        else if identifier = ''frame'' then
          (case read_anim_frame num_components rest 0 [] of
             None \<Rightarrow> Some (False, an)
           | Some (number, params, rest1) \<Rightarrow>
               if num_components < number then Some (False, an)
               else anim_lines rest1 num_components
                 (an\<lparr>an_frames := an_frames an @ [\<lparr>fr_index = fst (get_int 0 ss), fr_parameters = params, fr_skeleton = []\<rparr>]\<rparr>))
        else anim_lines rest num_components an)"
  by pat_completeness auto
termination
  by (relation "measure (length \<circ> fst)")
    (auto simp: less_Suc_eq_le dest: read_hierarchy_rest read_bounds_rest read_baseframe_rest read_anim_frame_rest)

declare anim_lines.simps [simp del]

definition anim_Parse :: "string \<Rightarrow> (bool \<times> anim) option" where
  "anim_Parse text = anim_lines (text_lines text) 0 new_anim"

subsection \<open>Skeletons\<close>

text \<open>The next parameter of a joint, if its flag is set.\<close>

definition component :: "real option list \<Rightarrow> int \<Rightarrow> bool \<Rightarrow> real \<times> nat \<Rightarrow> (real \<times> nat) option" where
  "component params start flag st = (case st of (old, j) \<Rightarrow>
     if flag then (case at_int params (start + int j) of Some (Some x) \<Rightarrow> Some (x, Suc j) | _ \<Rightarrow> None)
     else Some (old, j))"

definition frame_joint :: "real option list \<Rightarrow> anim_joint \<Rightarrow> skeleton_joint option" where
  "frame_joint params joint =
     (let p = aj_base_position joint; q = aj_base_orientation joint;
          get = (\<lambda>n. component params (aj_start joint) (bit (aj_flags joint) n)) in
      do {
        (x, j1) \<leftarrow> get 0 (vx p, 0);
        (y, j2) \<leftarrow> get 1 (vy p, j1);
        (z, j3) \<leftarrow> get 2 (vz p, j2);
        (a, j4) \<leftarrow> get 3 (qx q, j3);
        (b, j5) \<leftarrow> get 4 (qy q, j4);
        (c, j6) \<leftarrow> get 5 (qz q, j5);
        Some \<lparr>sj_position = \<lparr>vx = x, vy = y, vz = z\<rparr>,
              sj_orientation = ComputeWNeg (q\<lparr>qx := a, qy := b, qz := c\<rparr>)\<rparr>
      })"

definition place_joint :: "glm3 \<Rightarrow> skeleton_joint \<Rightarrow> skeleton_joint \<Rightarrow> skeleton_joint" where
  "place_joint G parent sj =
     \<lparr>sj_position = v_plus (sj_position parent) (g_rotate G (sj_orientation parent) (sj_position sj)),
      sj_orientation = g_normalize4 G (g_times G (sj_orientation parent) (sj_orientation sj))\<rparr>"

definition add_joint :: "glm3 \<Rightarrow> real option list \<Rightarrow> anim_joint \<Rightarrow> skeleton_joint list \<Rightarrow> skeleton_joint list option" where
  "add_joint G params joint skeleton = (case frame_joint params joint of
      None \<Rightarrow> None
    | Some sj \<Rightarrow>
        if 0 \<le> aj_parent joint then
          (case at_int skeleton (aj_parent joint) of
             None \<Rightarrow> None
           | Some parent \<Rightarrow> Some (skeleton @ [place_joint G parent sj]))
        else Some (skeleton @ [sj]))"

definition BuildFrameSkeleton :: "glm3 \<Rightarrow> nat \<Rightarrow> anim \<Rightarrow> anim option" where
  "BuildFrameSkeleton G i an = (if i < length (an_frames an) then
     (let frame = an_frames an ! i in
      case each (add_joint G (fr_parameters frame)) (an_joints an) (fr_skeleton frame) of
        None \<Rightarrow> None
      | Some sk \<Rightarrow> Some (an\<lparr>an_frames := (an_frames an)[i := frame\<lparr>fr_skeleton := sk\<rparr>]\<rparr>))
     else None)"

definition build_frames :: "glm3 \<Rightarrow> anim \<Rightarrow> anim option" where
  "build_frames G an = each (BuildFrameSkeleton G) [0..<length (an_frames an)] an"

text \<open>Loading; \<open>Some None\<close> is the null pointer.\<close>

definition anim_Create :: "glm3 \<Rightarrow> string \<Rightarrow> anim option option" where
  "anim_Create G text = (case anim_Parse text of
      None \<Rightarrow> None
    | Some (ok, an) \<Rightarrow> if ok then map_option Some (build_frames G an) else Some None)"

subsection \<open>Checking a mesh, and poses\<close>

text \<open>The loop stops at the first joint that differs; the bind pose of those before it is set.\<close>

fun check_joints :: "glm3 \<Rightarrow> anim_joint list \<Rightarrow> joint list \<Rightarrow> bool \<times> anim_joint list" where
  "check_joints G (a # as) (b # bs) =
     (if aj_name a \<noteq> jt_name b \<or> aj_parent a \<noteq> jt_parent b then (False, a # as)
      else (case check_joints G as bs of (ok, as1) \<Rightarrow>
        (ok, a\<lparr>aj_bind_orientation := g_conjugate G (jt_orientation b), aj_bind_position := v_scale (jt_position b) (-1)\<rparr> # as1)))"
| "check_joints G as bs = (True, as)"

definition CheckMesh :: "glm3 \<Rightarrow> md5 option \<Rightarrow> anim \<Rightarrow> bool \<times> anim" where
  "CheckMesh G mesh an = (case mesh of
      None \<Rightarrow> (False, an)
    | Some md \<Rightarrow>
        if length (an_joints an) \<noteq> length (md_joints md) then (False, an)
        else (case check_joints G (an_joints an) (md_joints md) of (ok, js) \<Rightarrow> (ok, an\<lparr>an_joints := js\<rparr>)))"

record animation_bone =
  bn_orientation :: "real quat"
  bn_offset :: "real vec3"
  bn_rest :: "real vec3"

definition bone_between :: "glm3 \<Rightarrow> real \<Rightarrow> anim_joint \<Rightarrow> skeleton_joint \<Rightarrow> skeleton_joint \<Rightarrow> animation_bone" where
  "bone_between G delta joint j0 j1 =
     \<lparr>bn_orientation = g_times G (g_mix G (sj_orientation j0) (sj_orientation j1) delta) (aj_bind_orientation joint),
      bn_offset = g_lerp G (sj_position j0) (sj_position j1) delta,
      bn_rest = aj_bind_position joint\<rparr>"

text \<open>The pose replaces what the vector held; the fourth coordinates are 0.\<close>

definition InterpolatePose :: "glm3 \<Rightarrow> nat \<Rightarrow> nat \<Rightarrow> real \<Rightarrow> anim \<Rightarrow> animation_bone list option" where
  "InterpolatePose G i0 i1 delta an =
     (if i0 < length (an_frames an) \<and> i1 < length (an_frames an) then
        (let s0 = fr_skeleton (an_frames an ! i0); s1 = fr_skeleton (an_frames an ! i1); n = length (an_joints an) in
         if n \<le> length s0 \<and> n \<le> length s1
         then Some (map (\<lambda>i. bone_between G delta (an_joints an ! i) (s0 ! i) (s1 ! i)) [0..<n])
         else None)
      else None)"

subsection \<open>When skeletons can be built\<close>

text \<open>The parameters of a joint: one for each of the six lowest flags.\<close>

definition flag_count :: "int \<Rightarrow> nat" where
  "flag_count flags = length (filter (\<lambda>n. bit flags n) [0..<6])"

definition params_ok :: "real option list \<Rightarrow> anim_joint \<Rightarrow> bool" where
  "params_ok params joint \<longleftrightarrow>
     (\<forall>k \<in> set [0..<flag_count (aj_flags joint)]. case at_int params (aj_start joint + int k) of Some (Some _) \<Rightarrow> True | _ \<Rightarrow> False)"

definition parents_ok :: "anim_joint list \<Rightarrow> bool" where
  "parents_ok joints \<longleftrightarrow> (\<forall>i < length joints. aj_parent (joints ! i) < int i)"

definition has_param :: "real option list \<Rightarrow> int \<Rightarrow> bool" where
  "has_param params i \<longleftrightarrow> (case at_int params i of Some (Some _) \<Rightarrow> True | _ \<Rightarrow> False)"

lemma component_cases:
  "component params start flag (old, j) = (if flag then (if has_param params (start + int j) then Some (the (params ! nat (start + int j)), Suc j) else None)
     else Some (old, j))"
  by (auto simp: component_def has_param_def at_int_def split: option.splits)

text \<open>The parameters that the flags \<open>ns\<close> take, from the \<open>j\<close>-th on.\<close>

fun takes :: "(nat \<Rightarrow> bool) \<Rightarrow> (nat \<Rightarrow> bool) \<Rightarrow> nat \<Rightarrow> nat list \<Rightarrow> bool" where
  "takes P h j [] = True"
| "takes P h j (n # ns) = (if P n then h j \<and> takes P h (Suc j) ns else takes P h j ns)"

lemma takes_iff: "takes P h j ns \<longleftrightarrow> (\<forall>k < length (filter P ns). h (j + k))"
  by (induction ns arbitrary: j) (simp_all add: All_less_Suc2)

lemma frame_joint_iff: "frame_joint params joint \<noteq> None \<longleftrightarrow> params_ok params joint"
proof -
  have "params_ok params joint \<longleftrightarrow> takes (bit (aj_flags joint)) (\<lambda>k. has_param params (aj_start joint + int k)) 0 [0..<6]"
    unfolding takes_iff by (auto simp: params_ok_def has_param_def flag_count_def)
  also have "[0..<6] = [0, 1, 2, 3, 4, 5 :: nat]"
    by (simp add: upt_rec)
  finally have ok: "params_ok params joint \<longleftrightarrow> takes (bit (aj_flags joint)) (\<lambda>k. has_param params (aj_start joint + int k)) 0 [0, 1, 2, 3, 4, 5]" .
  show ?thesis
    unfolding ok by (simp add: frame_joint_def Let_def component_cases)
qed

lemma add_joint_length: "add_joint G params joint sk = Some sk1 \<Longrightarrow> length sk1 = Suc (length sk)"
  by (auto simp: add_joint_def split: option.splits if_splits)

lemma build_skeleton_iff:
  "each (add_joint G params) joints [] \<noteq> None \<longleftrightarrow> (\<forall>i < length joints. params_ok params (joints ! i)) \<and> parents_ok joints"
proof -
  have step: "add_joint G params joint sk \<noteq> None \<longleftrightarrow> params_ok params joint \<and> aj_parent joint < int (length sk)" for joint sk
    using frame_joint_iff [of params joint] by (auto simp: add_joint_def at_int_def split: option.split)
  have len: "each (add_joint G params) js sk = Some sk1 \<Longrightarrow> length sk1 = length sk + length js" for js sk sk1
    by (induction js arbitrary: sk) (auto split: option.splits dest: add_joint_length)
  show ?thesis
  proof (induction joints rule: rev_induct)
    case Nil
    then show ?case by (simp add: parents_ok_def)
  next
    case (snoc j js)
    show ?case
    proof (cases "each (add_joint G params) js []")
      case None
      then show ?thesis
        using snoc by (auto simp: each_snoc parents_ok_def nth_append less_Suc_eq)
    next
      case (Some sk)
      then show ?thesis
        using snoc step [of j sk] len [OF Some] by (auto simp: each_snoc parents_ok_def nth_append less_Suc_eq)
    qed
  qed
qed

text \<open>Skeletons of the first \<open>k\<close> frames are built.\<close>

definition frames_built :: "anim \<Rightarrow> nat \<Rightarrow> anim \<Rightarrow> bool" where
  "frames_built an0 k an \<longleftrightarrow> an_joints an = an_joints an0 \<and> an_frame_rate an = an_frame_rate an0
     \<and> map fr_parameters (an_frames an) = map fr_parameters (an_frames an0)
     \<and> (\<forall>i < length (an_frames an0). length (fr_skeleton (an_frames an ! i)) = (if i < k then length (an_joints an0) else 0))"

lemma frames_built_nth:
  assumes "frames_built an0 k an" and "i < length (an_frames an0)"
  shows "length (an_frames an) = length (an_frames an0)" "fr_parameters (an_frames an ! i) = fr_parameters (an_frames an0 ! i)"
proof -
  show l: "length (an_frames an) = length (an_frames an0)"
    using assms(1) by (auto simp: frames_built_def dest: map_eq_imp_length_eq)
  show "fr_parameters (an_frames an ! i) = fr_parameters (an_frames an0 ! i)"
    using assms l nth_map [of i "an_frames an" fr_parameters] nth_map [of i "an_frames an0" fr_parameters]
    by (simp add: frames_built_def)
qed

lemma skeleton_length: "each (add_joint G params) js sk = Some sk1 \<Longrightarrow> length sk1 = length sk + length js"
  by (induction js arbitrary: sk) (auto split: option.splits dest: add_joint_length)

lemma BuildFrameSkeleton_step:
  assumes "frames_built an0 i an" and "i < length (an_frames an0)"
  shows "BuildFrameSkeleton G i an \<noteq> None \<longleftrightarrow>
      (\<forall>j < length (an_joints an0). params_ok (fr_parameters (an_frames an0 ! i)) (an_joints an0 ! j)) \<and> parents_ok (an_joints an0)"
    "BuildFrameSkeleton G i an = Some an1 \<Longrightarrow> frames_built an0 (Suc i) an1"
proof -
  let ?f = "an_frames an ! i"
  have len: "i < length (an_frames an)" and params: "fr_parameters ?f = fr_parameters (an_frames an0 ! i)"
    and fresh: "fr_skeleton ?f = []" and joints: "an_joints an = an_joints an0"
    using frames_built_nth [OF assms] assms by (auto simp: frames_built_def)
  show "BuildFrameSkeleton G i an \<noteq> None \<longleftrightarrow>
      (\<forall>j < length (an_joints an0). params_ok (fr_parameters (an_frames an0 ! i)) (an_joints an0 ! j)) \<and> parents_ok (an_joints an0)"
    using build_skeleton_iff [of G "fr_parameters ?f" "an_joints an0"] len
    by (auto simp: BuildFrameSkeleton_def Let_def params fresh joints split: option.split)
  assume "BuildFrameSkeleton G i an = Some an1"
  then obtain sk where sk: "each (add_joint G (fr_parameters ?f)) (an_joints an0) [] = Some sk"
    and an1: "an1 = an\<lparr>an_frames := (an_frames an)[i := ?f\<lparr>fr_skeleton := sk\<rparr>]\<rparr>"
    using len by (auto simp: BuildFrameSkeleton_def Let_def fresh joints split: option.splits)
  have "map fr_parameters ((an_frames an)[i := ?f\<lparr>fr_skeleton := sk\<rparr>]) = map fr_parameters (an_frames an)"
    using len by (simp add: map_update list_update_same_conv)
  then show "frames_built an0 (Suc i) an1"
    using assms skeleton_length [OF sk] frames_built_nth(1) [OF assms]
    by (auto simp: frames_built_def an1 nth_list_update less_Suc_eq)
qed

definition anim_ok :: "anim \<Rightarrow> bool" where
  "anim_ok an \<longleftrightarrow> (\<forall>f \<in> set (an_frames an). (\<forall>j \<in> set (an_joints an). params_ok (fr_parameters f) j) \<and> parents_ok (an_joints an))"

lemma build_frames_result:
  assumes "\<forall>f \<in> set (an_frames an). fr_skeleton f = []"
  shows "build_frames G an \<noteq> None \<longleftrightarrow> anim_ok an"
    "build_frames G an = Some an1 \<Longrightarrow> frames_built an (length (an_frames an)) an1"
proof -
  have start: "frames_built an 0 an"
    using assms by (simp add: frames_built_def)
  have "build_frames G an \<noteq> None \<longleftrightarrow> (\<forall>i < length (an_frames an).
      (\<forall>j < length (an_joints an). params_ok (fr_parameters (an_frames an ! i)) (an_joints an ! j)) \<and> parents_ok (an_joints an))"
    unfolding build_frames_def
    by (rule each_upt_defined_iff [where P = "frames_built an", OF start]) (use BuildFrameSkeleton_step in blast)+
  then show "build_frames G an \<noteq> None \<longleftrightarrow> anim_ok an"
    by (simp add: anim_ok_def all_set_conv_all_nth)
  assume "build_frames G an = Some an1"
  then show "frames_built an (length (an_frames an)) an1"
    unfolding build_frames_def
    by (rule each_upt_keeps [where P = "frames_built an", OF _ start]) (use BuildFrameSkeleton_step in blast)+
qed

subsection \<open>What parsing gives\<close>

lemma anim_lines_fresh:
  assumes "anim_lines ls n an = Some (ok, an1)" and "\<forall>f \<in> set (an_frames an). fr_skeleton f = []"
  shows "\<forall>f \<in> set (an_frames an1). fr_skeleton f = []"
  using assms
proof (induction ls n an rule: anim_lines.induct)
  case (1 n an)
  then show ?case by (simp add: anim_lines.simps)
next
  case (2 line rest n an)
  obtain w ss where w: "get_word [] (istr line) = (w, ss)" by force
  consider "w = ''MD5Version''" | "w = ''frameRate''" | "w = ''numAnimatedComponents''" | "w = ''hierarchy''" | "w = ''bounds''"
    | "w = ''baseframe''" | "w = ''frame''"
    | "w \<noteq> ''MD5Version''" "w \<noteq> ''frameRate''" "w \<noteq> ''numAnimatedComponents''" "w \<noteq> ''hierarchy''"
      "w \<noteq> ''bounds''" "w \<noteq> ''baseframe''" "w \<noteq> ''frame''"
    by blast
  then show ?case
  proof cases
    case 1
    then show ?thesis
      using "2.IH"(1) [OF w [symmetric]] "2.prems" by (auto simp: anim_lines.simps w split: if_splits)
  next
    case 2
    then show ?thesis
      using "2.IH"(2) [OF w [symmetric]] "2.prems" by (simp add: anim_lines.simps w)
  next
    case 3
    then show ?thesis
      using "2.IH"(3) [OF w [symmetric]] "2.prems" by (simp add: anim_lines.simps w)
  next
    case 4
    obtain js rest1 where r: "read_hierarchy rest ss (an_joints an) = (js, rest1)" by force
    show ?thesis
      using "2.IH"(4) [OF w [symmetric] _ _ _ 4 r [symmetric]] "2.prems" 4 by (simp add: anim_lines.simps w r)
  next
    case 5
    obtain bs rest1 where r: "read_bounds rest ss (an_bounds an) = (bs, rest1)" by force
    show ?thesis
      using "2.IH"(5) [OF w [symmetric] _ _ _ _ 5 r [symmetric]] "2.prems" 5 by (simp add: anim_lines.simps w r)
  next
    case 6
    show ?thesis
    proof (cases "read_baseframe rest ss 0 (an_joints an)")
      case None
      then show ?thesis using "2.prems" 6 by (simp add: anim_lines.simps w)
    next
      case (Some r)
      obtain b js rest1 where r: "r = (b, js, rest1)" by (cases r)
      show ?thesis
        using "2.IH"(6) [OF w [symmetric]] "2.prems" 6 Some r by (auto simp: anim_lines.simps w split: if_splits)
    qed
  next
    case 7
    show ?thesis
    proof (cases "read_anim_frame n rest 0 []")
      case None
      then show ?thesis using "2.prems" 7 by (simp add: anim_lines.simps w)
    next
      case (Some r)
      obtain number params rest1 where r: "r = (number, params, rest1)" by (cases r)
      show ?thesis
        using "2.IH"(7) [OF w [symmetric]] "2.prems" 7 Some r by (auto simp: anim_lines.simps w split: if_splits)
    qed
  next
    case 8
    then show ?thesis
      using "2.IH"(8) [OF w [symmetric]] "2.prems" by (simp add: anim_lines.simps w)
  qed
qed

lemma anim_Parse_fresh: "anim_Parse text = Some (ok, an) \<Longrightarrow> \<forall>f \<in> set (an_frames an). fr_skeleton f = []"
  using anim_lines_fresh [of "text_lines text" 0 new_anim ok an] by (simp add: anim_Parse_def new_anim_def)

text \<open>The skeletons of a parsed animation are built without an access outside a vector exactly
  when every joint finds in every frame a number for each of its flags, and the parent of each
  joint comes before it. The parser checks neither.
\<close>

theorem anim_loads_iff:
  assumes "anim_Parse text = Some (True, an)"
  shows "anim_Create G text \<noteq> None \<longleftrightarrow> anim_ok an"
  using build_frames_result(1) [OF anim_Parse_fresh [OF assms], of G] by (simp add: anim_Create_def assms)

text \<open>An animation of one joint that needs a parameter, with a frame that has none.\<close>

definition short_text :: string where
  "short_text = ''numAnimatedComponents 1'' @ [CHR 0x0A] @ ''hierarchy {'' @ [CHR 0x0A, CHR 0x22, CHR ''a'', CHR 0x22] @ '' -1 1 0 }''
     @ [CHR 0x0A] @ ''frame 0 {'' @ [CHR 0x0A] @ ''}'' @ [CHR 0x0A]"

lemma short_lines: "text_lines short_text =
    [''numAnimatedComponents 1'', ''hierarchy {'', [CHR 0x22, CHR ''a'', CHR 0x22] @ '' -1 1 0 }'', ''frame 0 {'', ''}'']"
  by code_simp

definition short_joint :: anim_joint where
  "short_joint = new_anim_joint\<lparr>aj_name := ''a'', aj_parent := -1, aj_flags := 1\<rparr>"

lemma short_hierarchy:
  assumes "is_eof ss = False" and "is_fail ss = False"
  shows "read_hierarchy (([CHR 0x22, CHR ''a'', CHR 0x22] @ '' -1 1 0 }'') # rest) ss [] = ([short_joint], rest)"
proof -
  have "\<exists>s1. ParseAnimJoint (ss\<lparr>is_rest := CleanString ([CHR 0x22, CHR ''a'', CHR 0x22] @ '' -1 1 0 }'')\<rparr>) = (short_joint, s1)"
    using assms by (simp add: ParseAnimJoint_def CleanString_def short_joint_def new_anim_joint_def stream_defs)
  then show ?thesis by auto
qed

lemma short_flags: "flag_count 1 = 1"
  by code_simp

lemma short_parsed: "\<exists>an. anim_Parse short_text = Some (True, an) \<and> \<not> anim_ok an"
proof -
  let ?an1 = "new_anim\<lparr>an_joints := [short_joint]\<rparr>"
  obtain s1 where w1: "get_word [] (istr ''numAnimatedComponents 1'') = (''numAnimatedComponents'', s1)"
    and u: "fst (get_unsigned (of_nat 0) s1) = 1"
    by (simp add: stream_defs)
  obtain s2 where w2: "get_word [] (istr ''hierarchy {'') = (''hierarchy'', s2)" "is_eof s2 = False" "is_fail s2 = False"
    by (simp add: stream_defs)
  obtain s3 where w3: "get_word [] (istr ''frame 0 {'') = (''frame'', s3)"
    by (simp add: stream_defs)
  have "anim_Parse short_text = anim_lines [''hierarchy {'', [CHR 0x22, CHR ''a'', CHR 0x22] @ '' -1 1 0 }'', ''frame 0 {'', ''}''] 1 new_anim"
    unfolding anim_Parse_def short_lines anim_lines.simps(2) [of "''numAnimatedComponents 1''"] w1 prod.case u by simp
  also have "\<dots> = anim_lines [''frame 0 {'', ''}''] 1 ?an1"
    unfolding anim_lines.simps(2) [of "''hierarchy {''"] w2 prod.case
    using short_hierarchy [OF w2(2,3), of "[''frame 0 {'', ''}'']"] by (simp add: new_anim_def)
  also have "\<dots> = Some (True, ?an1\<lparr>an_frames := [\<lparr>fr_index = fst (get_int 0 s3), fr_parameters = [], fr_skeleton = []\<rparr>]\<rparr>)"
    unfolding anim_lines.simps(2) [of "''frame 0 {''"] w3 prod.case by (simp add: anim_lines.simps(1) new_anim_def)
  finally show ?thesis
    using short_flags by (auto simp: anim_ok_def params_ok_def at_int_def short_joint_def)
qed

theorem anim_loads_iff_witness:
  "\<exists>an. anim_Parse short_text = Some (True, an) \<and> \<not> anim_ok an \<and> (\<forall>G. anim_Create G short_text = None)"
  using short_parsed anim_loads_iff by blast

lemma built_poses:
  assumes "frames_built an0 (length (an_frames an0)) an" and "i0 < length (an_frames an0)" and "i1 < length (an_frames an0)"
  shows "\<exists>pose. InterpolatePose G i0 i1 delta an = Some pose \<and> length pose = length (an_joints an0)"
  using assms frames_built_nth(1) [OF assms(1,2)] by (simp add: frames_built_def InterpolatePose_def Let_def)

subsection \<open>Lines of a frame\<close>

lemma read_numbers_cases:
  "is_eof s \<Longrightarrow> read_numbers n s number params = Some (number, params)"
  "\<not> is_eof s \<Longrightarrow> n < number \<Longrightarrow> read_numbers n s number params = None"
  "\<not> is_eof s \<Longrightarrow> \<not> n < number \<Longrightarrow> peek s = (c, s1) \<Longrightarrow> c = Some (CHR 0x0D) \<or> c = Some (CHR 0x0A) \<Longrightarrow>
     read_numbers n s number params = Some (number, params)"
  "\<not> is_eof s \<Longrightarrow> \<not> n < number \<Longrightarrow> peek s = (c, s1) \<Longrightarrow> c \<noteq> Some (CHR 0x0D) \<Longrightarrow> c \<noteq> Some (CHR 0x0A) \<Longrightarrow>
     get_float None s1 = (r, s2) \<Longrightarrow>
     read_numbers n s number params = read_numbers n s2 (Suc number) (params @ [map_option of_rat r])"
  by (subst read_numbers.simps, simp)+

text \<open>White space that does not begin with the end of a line.\<close>

definition blanks :: "string \<Rightarrow> bool" where
  "blanks w \<longleftrightarrow> (\<forall>c \<in> set w. is_space c) \<and> (w = [] \<or> hd w \<notin> {CHR 0x0A, CHR 0x0D})"

text \<open>A line of a frame that is blank, or the blanks after its last number, count as a further
  parameter without a value.
\<close>

theorem blanks_are_parameter:
  assumes "blanks (is_rest s)" and "is_eof s = False" and "is_fail s = False" and "number \<le> n"
  shows "read_numbers n s number params = Some (Suc number, params @ [None])"
proof -
  have white: "dropWhile is_space (is_rest s) = []"
    using assms(1) by (simp add: blanks_def dropWhile_eq_Nil_conv)
  obtain c s1 where c: "peek s = (c, s1)" by force
  obtain r s2 where r: "get_float None s1 = (r, s2)" by force
  have c_no: "c \<noteq> Some (CHR 0x0D)" "c \<noteq> Some (CHR 0x0A)"
    using c assms(1-3) by (auto simp: peek_def blanks_def split: list.splits)
  have "r = None" "is_eof s2"
    using r c white assms(2,3) by (auto simp: peek_def get_float_def sentry_def Let_def split: list.splits)
  then show ?thesis
    using read_numbers_cases(4) [OF _ _ c c_no r, of n number params] read_numbers_cases(1) assms(2,4) by simp
qed

theorem blanks_are_parameter_witness: "read_numbers 6 (istr '' '') 3 [Some 1] = Some (4, [Some 1, None])"
  using blanks_are_parameter [of "istr '' ''" 3 6 "[Some 1]"] by (simp add: blanks_def istr_def is_space_def)

lemma read_numbers_count:
  assumes "read_numbers n s number params = Some (number1, params1)" and "number = length params" and "number \<le> Suc n"
  shows "number1 = length params1 \<and> number1 \<le> Suc n"
  using assms
proof (induction n s number params rule: read_numbers.induct)
  case (1 n s number params)
  obtain c s1 where c: "peek s = (c, s1)" by force
  obtain r s2 where r: "get_float None s1 = (r, s2)" by force
  consider "is_eof s" | "\<not> is_eof s" "n < number" | "\<not> is_eof s" "\<not> n < number" "c = Some (CHR 0x0D) \<or> c = Some (CHR 0x0A)"
    | "\<not> is_eof s" "\<not> n < number" "c \<noteq> Some (CHR 0x0D)" "c \<noteq> Some (CHR 0x0A)" by blast
  then show ?case
  proof cases
    case 1
    then show ?thesis using "1.prems" by (auto simp: read_numbers_cases(1))
  next
    case 2
    then show ?thesis using "1.prems" by (auto simp: read_numbers_cases(2))
  next
    case 3
    then show ?thesis using "1.prems" by (auto simp: read_numbers_cases(3) [OF _ _ c])
  next
    case 4
    then have "read_numbers n s2 (Suc number) (params @ [map_option of_rat r]) = Some (number1, params1)"
      using "1.prems"(1) read_numbers_cases(4) [OF _ _ c _ _ r] by simp
    then show ?thesis
      using "1.IH" [OF _ _ c [symmetric] _ r [symmetric]] 4 "1.prems"(2,3) by simp
  qed
qed

lemma read_anim_frame_count:
  assumes "read_anim_frame n ls number params = Some (number1, params1, rest)" and "number = length params" and "number \<le> Suc n"
  shows "number1 = length params1 \<and> number1 \<le> Suc n"
  using assms
proof (induction ls arbitrary: number params)
  case (Cons l ls)
  show ?case
  proof (cases "CHR ''}'' \<in> set l")
    case False
    then obtain k ps where k: "read_numbers n (istr l) number params = Some (k, ps)"
      "read_anim_frame n ls k ps = Some (number1, params1, rest)"
      using Cons.prems(1) by (auto split: option.splits)
    then show ?thesis
      using Cons.IH read_numbers_count [OF k(1) Cons.prems(2,3)] by simp
  qed (use Cons.prems in auto)
qed simp

subsection \<open>Meshes that fit\<close>

definition bind_joint :: "glm3 \<Rightarrow> anim_joint \<Rightarrow> joint \<Rightarrow> anim_joint" where
  "bind_joint G a b = a\<lparr>aj_bind_orientation := g_conjugate G (jt_orientation b), aj_bind_position := v_scale (jt_position b) (-1)\<rparr>"

lemma check_joints_result:
  assumes "length as = length bs"
  shows "fst (check_joints G as bs) \<longleftrightarrow> map (\<lambda>a. (aj_name a, aj_parent a)) as = map (\<lambda>b. (jt_name b, jt_parent b)) bs"
    "fst (check_joints G as bs) \<Longrightarrow> snd (check_joints G as bs) = map2 (bind_joint G) as bs"
  using assms
proof (induction as bs rule: list_induct2)
  case (Cons a as b bs)
  show "fst (check_joints G (a # as) (b # bs)) \<longleftrightarrow>
      map (\<lambda>a. (aj_name a, aj_parent a)) (a # as) = map (\<lambda>b. (jt_name b, jt_parent b)) (b # bs)"
    using Cons.IH(1) by (simp split: prod.split) (metis fst_conv)
  show "fst (check_joints G (a # as) (b # bs)) \<Longrightarrow> snd (check_joints G (a # as) (b # bs)) = map2 (bind_joint G) (a # as) (b # bs)"
    using Cons.IH(2) by (auto simp: bind_joint_def split: prod.splits if_splits)
qed simp_all

text \<open>A mesh fits an animation exactly when both have the same joints with the same parents, in
  order; then every joint of the animation has the bind pose of the mesh. The joints keep what
  else they hold.
\<close>

theorem CheckMesh_fits:
  "fst (CheckMesh G (Some md) an) \<longleftrightarrow> map (\<lambda>a. (aj_name a, aj_parent a)) (an_joints an) = map (\<lambda>b. (jt_name b, jt_parent b)) (md_joints md)
   \<and> an_joints (snd (CheckMesh G (Some md) an)) = map2 (bind_joint G) (an_joints an) (md_joints md)"
proof (cases "length (an_joints an) = length (md_joints md)")
  case True
  obtain ok js where c: "check_joints G (an_joints an) (md_joints md) = (ok, js)" by force
  have "CheckMesh G (Some md) an = (ok, an\<lparr>an_joints := js\<rparr>)"
    using True by (simp add: CheckMesh_def c)
  then show ?thesis
    using check_joints_result [OF True, of G] c by auto
next
  case False
  then show ?thesis
    by (auto simp: CheckMesh_def dest: map_eq_imp_length_eq)
qed

end
