(* ===== verification/Animations.thy ===== *)
theory Animations
  imports MD5_Anim
begin

text \<open>
  The animation component (client/graphics/animation.cpp), which plays the frames of an MD5
  animation. The animation files are shared objects in a store, at addresses. Floating point
  numbers are real numbers; the duration of an animation of rate 0 is infinite (\<open>None\<close>). The
  \<open>None\<close> of a function is an access outside a vector or the conversion of a negative number to
  an index.
\<close>

subsection \<open>State\<close>

type_synonym anim_store = "nat \<rightharpoonup> anim"

record animation =
  am_bones :: "animation_bone list"
  am_name :: string
  am_file :: "nat option"
  am_frame :: nat
  am_frame_count :: nat
  am_time :: real
  am_duration :: "real option"
  am_frame_rate :: real
  am_play_rate :: real
  am_looping :: bool

definition new_animation :: animation where
  "new_animation = \<lparr>am_bones = [], am_name = [], am_file = None, am_frame = 0, am_frame_count = 0, am_time = 0,
     am_duration = Some 0, am_frame_rate = 0, am_play_rate = 1, am_looping = True\<rparr>"

subsection \<open>Operations\<close>

definition Animation_Play :: "animation \<Rightarrow> animation" where
  "Animation_Play am = am\<lparr>am_play_rate := 1, am_looping := True\<rparr>"

definition PlayOnce :: "animation \<Rightarrow> animation" where
  "PlayOnce am = am\<lparr>am_play_rate := 1, am_looping := False\<rparr>"

definition Animation_Pause :: "animation \<Rightarrow> animation" where
  "Animation_Pause am = am\<lparr>am_play_rate := 0\<rparr>"

definition Animation_Stop :: "animation \<Rightarrow> animation" where
  "Animation_Stop am = am\<lparr>am_play_rate := 0, am_time := 0\<rparr>"

definition Animation_Reset :: "animation \<Rightarrow> animation" where
  "Animation_Reset am = am\<lparr>am_time := 0\<rparr>"

definition SetLoop :: "bool \<Rightarrow> animation \<Rightarrow> animation" where
  "SetLoop b am = am\<lparr>am_looping := b\<rparr>"

text \<open>The time after \<open>delta\<close> seconds, with the play rate; \<open>None\<close> is an infinite time.\<close>

definition advance :: "real \<Rightarrow> animation \<Rightarrow> real option \<times> real" where
  "advance delta am =
     (let t1 = am_time am + delta * am_play_rate am;
          (t2, r2) = (case am_duration am of
              None \<Rightarrow> (t1, am_play_rate am)
            | Some d \<Rightarrow> if d < t1 then (if am_looping am then (t1 - d, am_play_rate am) else (d, 0)) else (t1, am_play_rate am))
      in if t2 < 0 then (if am_looping am then (map_option (\<lambda>d. t2 + d) (am_duration am), r2) else (Some 0, 0))
         else (Some t2, r2))"

text \<open>The two frames between which the time lies, and where.\<close>

definition frames_at :: "real \<Rightarrow> nat \<Rightarrow> (nat \<times> nat \<times> real) option" where
  "frames_at frame_number frame_count =
     (if 0 \<le> frame_number
      then Some (nat \<lfloor>frame_number\<rfloor> mod frame_count, nat \<lceil>frame_number\<rceil> mod frame_count, frame_number - of_int \<lfloor>frame_number\<rfloor>)
      else None)"

definition UpdateAnimation :: "glm3 \<Rightarrow> anim_store \<Rightarrow> real \<Rightarrow> animation \<Rightarrow> animation option" where
  "UpdateAnimation G files delta am =
     (if am_frame_count am < 1 \<or> am_play_rate am = 0 then Some am
      else (case advance delta am of
          (None, _) \<Rightarrow> None
        | (Some t, rate) \<Rightarrow>
            (case frames_at (t * am_frame_rate am) (am_frame_count am) of
               None \<Rightarrow> None
             | Some (i0, i1, f) \<Rightarrow>
                 let am1 = am\<lparr>am_time := t, am_play_rate := rate, am_frame := i0\<rparr> in
                 (case am_file am of
                    None \<Rightarrow> Some (am1\<lparr>am_bones := []\<rparr>)
                  | Some a \<Rightarrow>
                      (case files a of
                         None \<Rightarrow> None
                       | Some an \<Rightarrow> map_option (\<lambda>pose. am1\<lparr>am_bones := pose\<rparr>) (InterpolatePose G i0 i1 f an))))))"

definition SetAnimationFile :: "glm3 \<Rightarrow> anim_store \<Rightarrow> nat option \<Rightarrow> animation \<Rightarrow> animation option" where
  "SetAnimationFile G files file am = (case file of
      None \<Rightarrow> Some am
    | Some a \<Rightarrow>
        (case files a of
           None \<Rightarrow> None
         | Some an \<Rightarrow>
             let n = length (an_frames an); rate = real_of_int (an_frame_rate an) in
             map_option (\<lambda>pose. am\<lparr>am_file := Some a, am_frame_count := n, am_frame_rate := rate,
                 am_duration := (if rate = 0 then None else Some (1 / rate * real n)), am_bones := pose\<rparr>)
               (InterpolatePose G 0 1 0 an)))"

text \<open>
  The component of a message: its name if it has one, the flags, and the mesh. The lookups of
  resources by name are parameters; the check of the mesh changes the shared file.
\<close>

record p_animation =
  pa_name :: "string option"
  pa_play :: bool
  pa_loop :: bool
  pa_mesh :: string

definition Animation_Out :: "animation \<Rightarrow> p_animation \<Rightarrow> p_animation" where
  "Animation_Out am target = target\<lparr>pa_name := Some (am_name am)\<rparr>"

definition Animation_In ::
    "glm3 \<Rightarrow> (string \<Rightarrow> nat option) \<Rightarrow> (string \<Rightarrow> md5 option) \<Rightarrow> p_animation \<Rightarrow> anim_store \<Rightarrow> animation \<Rightarrow> (anim_store \<times> animation) option" where
  "Animation_In G anims meshes source files am = (case pa_name source of
      None \<Rightarrow> Some (files, am)
    | Some n \<Rightarrow>
        let am1 = (if pa_play source then am\<lparr>am_play_rate := 1\<rparr> else am);
            am2 = am1\<lparr>am_looping := pa_loop source, am_name := n\<rparr> in
        (case anims n of
           None \<Rightarrow> Some (files, am2)
         | Some a \<Rightarrow>
             (case files a of
                None \<Rightarrow> None
              | Some an \<Rightarrow>
                  (case CheckMesh G (meshes (pa_mesh source)) an of (ok, an1) \<Rightarrow>
                     let files1 = files(a \<mapsto> an1) in
                     if ok then map_option (\<lambda>am3. (files1, am3)) (SetAnimationFile G files1 (Some a) am2)
                     else Some (files1, am2)))))"

subsection \<open>Playing\<close>

text \<open>
  What an animation relies on: its file is there, with the frames and the rate it was set with,
  and every frame has a joint for each of the file.
\<close>

definition playable :: "anim_store \<Rightarrow> animation \<Rightarrow> bool" where
  "playable files am \<longleftrightarrow> (\<exists>a an. am_file am = Some a \<and> files a = Some an
     \<and> am_frame_count am = length (an_frames an) \<and> 0 < am_frame_count am \<and> 0 < am_frame_rate am
     \<and> am_duration am = Some (1 / am_frame_rate am * real (am_frame_count am))
     \<and> (\<forall>f \<in> set (an_frames an). length (an_joints an) \<le> length (fr_skeleton f)))
     \<and> 0 \<le> am_time am \<and> am_play_rate am \<in> {0, 1}"

datatype player_call = Update real | Play | Play_once | Pause | Stop | Reset | Loop bool

definition player_step :: "glm3 \<Rightarrow> anim_store \<Rightarrow> player_call \<Rightarrow> animation \<Rightarrow> animation option" where
  "player_step G files call am = (case call of
      Update delta \<Rightarrow> UpdateAnimation G files delta am
    | Play \<Rightarrow> Some (Animation_Play am)
    | Play_once \<Rightarrow> Some (PlayOnce am)
    | Pause \<Rightarrow> Some (Animation_Pause am)
    | Stop \<Rightarrow> Some (Animation_Stop am)
    | Reset \<Rightarrow> Some (Animation_Reset am)
    | Loop b \<Rightarrow> Some (SetLoop b am))"

definition forward_call :: "player_call \<Rightarrow> bool" where
  "forward_call call = (case call of Update delta \<Rightarrow> 0 \<le> delta | _ \<Rightarrow> True)"

lemma pose_defined:
  assumes "i0 < length (an_frames an)" and "i1 < length (an_frames an)"
    and "\<forall>f \<in> set (an_frames an). length (an_joints an) \<le> length (fr_skeleton f)"
  shows "\<exists>pose. InterpolatePose G i0 i1 f an = Some pose \<and> length pose = length (an_joints an)"
  using assms nth_mem by (auto simp: InterpolatePose_def Let_def)

lemma advance_forward:
  assumes "playable files am" and "0 \<le> delta"
  shows "\<exists>t r. advance delta am = (Some t, r) \<and> 0 \<le> t \<and> r \<in> {0, 1}"
proof -
  obtain d where d: "am_duration am = Some d" "0 \<le> d"
    using assms(1) by (auto simp: playable_def)
  have "0 \<le> am_time am + delta * am_play_rate am" "am_play_rate am \<in> {0, 1}"
    using assms by (auto simp: playable_def)
  then show ?thesis
    using d by (auto simp: advance_def Let_def)
qed

lemma frames_at_bounds:
  assumes "0 \<le> x" and "0 < n"
  shows "\<exists>i0 i1 f. frames_at x n = Some (i0, i1, f) \<and> i0 < n \<and> (i1 = i0 \<or> i1 = Suc i0 mod n) \<and> 0 \<le> f \<and> f < 1"
proof -
  have "nat \<lceil>x\<rceil> = nat \<lfloor>x\<rfloor> \<or> nat \<lceil>x\<rceil> = Suc (nat \<lfloor>x\<rfloor>)"
    using assms(1) ceiling_altdef [of x] by (auto simp: nat_add_distrib)
  then show ?thesis
    using assms by (auto simp: frames_at_def mod_Suc_eq) linarith+
qed

lemma UpdateAnimation_playable:
  assumes "playable files am" and "0 \<le> delta"
  shows "\<exists>am1. UpdateAnimation G files delta am = Some am1 \<and> playable files am1"
proof (cases "am_play_rate am = 0")
  case True
  then show ?thesis using assms(1) by (simp add: UpdateAnimation_def)
next
  case False
  obtain a an where a: "am_file am = Some a" "files a = Some an" "am_frame_count am = length (an_frames an)"
    "0 < am_frame_count am" "0 < am_frame_rate am" "\<forall>f \<in> set (an_frames an). length (an_joints an) \<le> length (fr_skeleton f)"
    using assms(1) by (auto simp: playable_def)
  obtain t r where t: "advance delta am = (Some t, r)" "0 \<le> t" "r \<in> {0, 1}"
    using advance_forward [OF assms] by blast
  obtain i0 i1 f where i: "frames_at (t * am_frame_rate am) (am_frame_count am) = Some (i0, i1, f)" "i0 < am_frame_count am"
    "i1 = i0 \<or> i1 = Suc i0 mod am_frame_count am"
    using frames_at_bounds [of "t * am_frame_rate am" "am_frame_count am"] t(2) a(4,5) by auto
  obtain pose where pose: "InterpolatePose G i0 i1 f an = Some pose"
    using pose_defined [of i0 an i1 G f] i a by auto
  show ?thesis
    using False a t i pose assms(1) by (auto simp: UpdateAnimation_def Let_def playable_def)
qed

lemma player_step_playable:
  assumes "playable files am" and "forward_call call"
  shows "\<exists>am1. player_step G files call am = Some am1 \<and> playable files am1"
proof (cases call)
  case (Update delta)
  then show ?thesis
    using UpdateAnimation_playable [OF assms(1)] assms(2) by (simp add: player_step_def forward_call_def)
qed (use assms(1) in \<open>auto simp: player_step_def playable_def Animation_Play_def PlayOnce_def Animation_Pause_def
    Animation_Stop_def Animation_Reset_def SetLoop_def\<close>)

interpretation player: safe_system "player_step G files" "playable files" forward_call for G files
  by unfold_locales (rule player_step_playable)

lemma loaded_playable:
  assumes "anim_Parse text = Some (True, an0)" and "anim_Create G text = Some (Some an)" and "files a = Some an"
    and "2 \<le> length (an_frames an0)" and "0 < an_frame_rate an0" and "0 \<le> am_time am" and "am_play_rate am \<in> {0, 1}"
  shows "\<exists>am1. SetAnimationFile G files (Some a) am = Some am1 \<and> playable files am1"
proof -
  have "build_frames G an0 = Some an"
    using assms(2) by (simp add: anim_Create_def assms(1))
  then have built: "frames_built an0 (length (an_frames an0)) an"
    by (rule build_frames_result(2) [OF anim_Parse_fresh [OF assms(1)]])
  have len: "length (an_frames an) = length (an_frames an0)"
    by (rule frames_built_nth(1) [OF built, of 0]) (use assms(4) in linarith)
  have full: "\<forall>f \<in> set (an_frames an). length (an_joints an) \<le> length (fr_skeleton f)"
    using built len by (auto simp: frames_built_def in_set_conv_nth)
  have two: "0 < length (an_frames an)" "1 < length (an_frames an)"
    using len assms(4) by auto
  obtain pose where "InterpolatePose G 0 1 0 an = Some pose"
    using pose_defined [OF two full] by blast
  then show ?thesis
    using assms(3,5-7) full two(1) built by (auto simp: SetAnimationFile_def Let_def playable_def frames_built_def)
qed

text \<open>An animation file that loads, with at least two frames and a positive rate, can be set, and
  from then on no sequence of updates, whose time does not run backwards, and of the controls of
  the player accesses a frame or a joint outside the file.
\<close>

theorem loaded_animation_plays:
  assumes "anim_Parse text = Some (True, an0)" and "anim_Create G text = Some (Some an)" and "files a = Some an"
    and "2 \<le> length (an_frames an0)" and "0 < an_frame_rate an0" and "0 \<le> am_time am" and "am_play_rate am \<in> {0, 1}"
    and "\<forall>call \<in> set calls. forward_call call"
  shows "\<exists>am1 am2. SetAnimationFile G files (Some a) am = Some am1 \<and> each (player_step G files) calls am1 = Some am2"
  using loaded_playable [where files = files, OF assms(1-7)] player.run_safe [of files _ calls G] assms(8) by metis

text \<open>Setting the file of an animation makes a pose between its frames 0 and 1, so a file whose
  frames are complete can be set exactly when it has two; an animation of one frame, a still,
  accesses a frame that is not there.
\<close>

theorem SetAnimationFile_needs_two:
  assumes "files a = Some an" and "\<forall>f \<in> set (an_frames an). length (an_joints an) \<le> length (fr_skeleton f)"
  shows "SetAnimationFile G files (Some a) am \<noteq> None \<longleftrightarrow> 2 \<le> length (an_frames an)"
proof (cases "2 \<le> length (an_frames an)")
  case True
  show ?thesis
  proof -
    have "\<exists>pose. InterpolatePose G 0 1 0 an = Some pose"
      using pose_defined [of 0 an 1 G 0] True assms(2) by fastforce
    then show ?thesis
      using True assms(1) by (auto simp: SetAnimationFile_def Let_def)
  qed
next
  case False
  then show ?thesis
    using assms(1) by (simp add: SetAnimationFile_def InterpolatePose_def Let_def)
qed

text \<open>An animation that plays once stops when its time is over, and then shows the first frame, not
  the last: the index of the end is taken modulo the number of frames.
\<close>

theorem play_once_ends_on_first_frame:
  assumes "playable files am" and "am_play_rate am = 1" and "\<not> am_looping am"
    and "1 / am_frame_rate am * real (am_frame_count am) < am_time am + delta"
    and "UpdateAnimation G files delta am = Some am1"
  shows "am_frame am1 = 0 \<and> am_play_rate am1 = 0
    \<and> (\<forall>an. (\<exists>a. am_file am = Some a \<and> files a = Some an) \<longrightarrow> InterpolatePose G 0 0 0 an = Some (am_bones am1))"
proof -
  let ?n = "am_frame_count am" and ?r = "am_frame_rate am"
  have p: "am_duration am = Some (1 / ?r * real ?n)" "0 < ?r" "0 < ?n"
    using assms(1) by (auto simp: playable_def)
  have adv: "advance delta am = (Some (1 / ?r * real ?n), 0)"
    using assms(2-4) p by (simp add: advance_def Let_def divide_less_0_iff)
  have "frames_at (1 / ?r * real ?n * ?r) ?n = Some (0, 0, 0)"
    using p by (simp add: frames_at_def)
  then show ?thesis
    using assms(5) adv p(3) assms(2) by (auto simp: UpdateAnimation_def Let_def split: option.splits)
qed

text \<open>A file of one joint and two frames, and an animation that plays it.\<close>

definition two_frames :: anim where
  "two_frames = \<lparr>an_bounds = [], an_frames = replicate 2 \<lparr>fr_index = 0, fr_parameters = [],
     fr_skeleton = [\<lparr>sj_position = zero_vec, sj_orientation = default_quat\<rparr>]\<rparr>, an_joints = [new_anim_joint], an_frame_rate = 24\<rparr>"

definition playing :: animation where
  "playing = new_animation\<lparr>am_file := Some 0, am_frame_count := 2, am_frame_rate := 24, am_duration := Some (1 / 24 * 2)\<rparr>"

lemma playing_playable: "playable [0 \<mapsto> two_frames] playing"
  by (simp add: playable_def playing_def two_frames_def new_animation_def)

text \<open>A file of two frames, without joints.\<close>

definition still_text :: string where
  "still_text = ''frameRate 24'' @ [CHR 0x0A] @ ''frame 0 {'' @ [CHR 0x0A] @ ''}'' @ [CHR 0x0A] @ ''frame 1 {'' @ [CHR 0x0A] @ ''}''"

lemma still_lines: "text_lines still_text = [''frameRate 24'', ''frame 0 {'', ''}'', ''frame 1 {'', ''}'']"
  by code_simp

lemma still_parsed: "\<exists>an. anim_Parse still_text = Some (True, an) \<and> length (an_frames an) = 2 \<and> an_frame_rate an = 24 \<and> an_joints an = []"
proof -
  obtain s1 where w1: "get_word [] (istr ''frameRate 24'') = (''frameRate'', s1)" and r: "fst (get_int 0 s1) = 24"
    by (simp add: stream_defs)
  obtain s2 where w2: "get_word [] (istr ''frame 0 {'') = (''frame'', s2)"
    by (simp add: stream_defs)
  obtain s3 where w3: "get_word [] (istr ''frame 1 {'') = (''frame'', s3)"
    by (simp add: stream_defs)
  show ?thesis
    using r by (simp add: anim_Parse_def still_lines anim_lines.simps w1 w2 w3 new_anim_def)
qed

theorem loaded_animation_plays_witness:
  "\<forall>G. \<exists>an am1 am2. anim_Create G still_text = Some (Some an) \<and> SetAnimationFile G [0 \<mapsto> an] (Some 0) new_animation = Some am1
     \<and> each (player_step G [0 \<mapsto> an]) [Update 1, Pause, Play, Update (1 / 30), Stop] am1 = Some am2"
proof
  fix G
  obtain an0 where an0: "anim_Parse still_text = Some (True, an0)" "length (an_frames an0) = 2" "an_frame_rate an0 = 24" "an_joints an0 = []"
    using still_parsed by blast
  have "anim_ok an0"
    using an0(4) by (simp add: anim_ok_def parents_ok_def)
  then obtain an where an: "anim_Create G still_text = Some (Some an)"
    using build_frames_result(1) [OF anim_Parse_fresh [OF an0(1)], of G] by (auto simp: anim_Create_def an0(1))
  have "\<exists>am1 am2. SetAnimationFile G [0 \<mapsto> an] (Some 0) new_animation = Some am1
     \<and> each (player_step G [0 \<mapsto> an]) [Update 1, Pause, Play, Update (1 / 30), Stop] am1 = Some am2"
    by (rule loaded_animation_plays [OF an0(1) an]) (simp_all add: an0 new_animation_def forward_call_def)
  then show "\<exists>an am1 am2. anim_Create G still_text = Some (Some an) \<and> SetAnimationFile G [0 \<mapsto> an] (Some 0) new_animation = Some am1
     \<and> each (player_step G [0 \<mapsto> an]) [Update 1, Pause, Play, Update (1 / 30), Stop] am1 = Some am2"
    using an by blast
qed

theorem SetAnimationFile_needs_two_witness:
  "\<forall>G. SetAnimationFile G [0 \<mapsto> two_frames] (Some 0) new_animation \<noteq> None
     \<and> SetAnimationFile G [0 \<mapsto> two_frames\<lparr>an_frames := tl (an_frames two_frames)\<rparr>] (Some 0) new_animation = None"
  using SetAnimationFile_needs_two [of "[0 \<mapsto> two_frames]" 0 two_frames _ new_animation]
    SetAnimationFile_needs_two [of "[0 \<mapsto> two_frames\<lparr>an_frames := tl (an_frames two_frames)\<rparr>]" 0
      "two_frames\<lparr>an_frames := tl (an_frames two_frames)\<rparr>" _ new_animation]
  by (simp add: two_frames_def numeral_2_eq_2)

theorem play_once_ends_on_first_frame_witness:
  "\<forall>G. \<exists>am1. UpdateAnimation G [0 \<mapsto> two_frames] 1 (PlayOnce playing) = Some am1 \<and> am_frame am1 = 0
     \<and> InterpolatePose G 0 0 0 two_frames = Some (am_bones am1)"
proof
  fix G
  have p: "playable [0 \<mapsto> two_frames] (PlayOnce playing)"
    using playing_playable by (simp add: playable_def PlayOnce_def)
  then obtain am1 where am1: "UpdateAnimation G [0 \<mapsto> two_frames] 1 (PlayOnce playing) = Some am1"
    using UpdateAnimation_playable [OF p, of 1 G] by auto
  from play_once_ends_on_first_frame [OF p _ _ _ am1] am1
  show "\<exists>am1. UpdateAnimation G [0 \<mapsto> two_frames] 1 (PlayOnce playing) = Some am1 \<and> am_frame am1 = 0
     \<and> InterpolatePose G 0 0 0 two_frames = Some (am_bones am1)"
    by (auto simp: PlayOnce_def playing_def new_animation_def)
qed

end
