(* ===== verification/Lights.thy ===== *)
theory Lights
  imports Complex_Main Game_State
begin

text \<open>
  The lights (client/graphics/lights.hpp), their messages, and the radius of the sphere that the point light
  pass draws. A light type that extends another is a record that extends its record. Floating point
  numbers are real numbers; a radius that is not a finite number is \<open>None\<close>.
\<close>

subsection \<open>Messages\<close>

record p_normal =
  pn_x :: "real option"
  pn_y :: "real option"
  pn_z :: "real option"

record p_attenuation =
  pt_constant :: "real option"
  pt_linear :: "real option"
  pt_exponential :: "real option"

record p_light =
  pl_color_x :: "real option"
  pl_color_y :: "real option"
  pl_color_z :: "real option"
  pl_ambient :: "real option"
  pl_diffuse :: "real option"
  pl_attenuation :: "p_attenuation option"
  pl_cutoff :: "real option"
  pl_direction :: "p_normal option"

definition empty_p_light :: p_light where
  "empty_p_light = \<lparr>pl_color_x = None, pl_color_y = None, pl_color_z = None, pl_ambient = None, pl_diffuse = None,
     pl_attenuation = None, pl_cutoff = None, pl_direction = None\<rparr>"

subsection \<open>Lights\<close>

record base_light =
  bl_color :: "real vec3"
  bl_ambient :: real
  bl_diffuse :: real

record directional_light = base_light +
  dl_direction :: "real vec3"

record attenuation =
  at_constant :: real
  at_linear :: real
  at_exponential :: real

record point_light = base_light +
  pl_atten :: attenuation
  pl_radius :: "real option"

record spot_light = directional_light +
  sl_cutoff :: real

definition new_base_light :: base_light where
  "new_base_light = \<lparr>bl_color = \<lparr>vx = 1, vy = 1, vz = 1\<rparr>, bl_ambient = 1 / 2, bl_diffuse = 2 / 10\<rparr>"

definition new_directional_light :: directional_light where
  "new_directional_light = base_light.extend new_base_light \<lparr>dl_direction = \<lparr>vx = 0, vy = 0, vz = - 1\<rparr>\<rparr>"

definition new_point_light :: point_light where
  "new_point_light = base_light.extend new_base_light
     \<lparr>pl_atten = \<lparr>at_constant = 0, at_linear = 0, at_exponential = 3 / 10\<rparr>, pl_radius = Some 0\<rparr>"

definition new_spot_light :: spot_light where
  "new_spot_light = directional_light.extend new_directional_light \<lparr>sl_cutoff = 0\<rparr>"

text \<open>The part of \<open>Out\<close> and \<open>In\<close> that is the same for both lights.\<close>

definition base_Out :: "'a base_light_scheme \<Rightarrow> p_light \<Rightarrow> p_light" where
  "base_Out l target = target\<lparr>pl_color_x := Some (vx (bl_color l)), pl_color_y := Some (vy (bl_color l)),
     pl_color_z := Some (vz (bl_color l)), pl_ambient := Some (bl_ambient l), pl_diffuse := Some (bl_diffuse l)\<rparr>"

definition base_In :: "p_light \<Rightarrow> 'a base_light_scheme \<Rightarrow> 'a base_light_scheme" where
  "base_In c l = l\<lparr>bl_color := \<lparr>vx = field (vx (bl_color l)) (pl_color_x c), vy = field (vy (bl_color l)) (pl_color_y c),
       vz = field (vz (bl_color l)) (pl_color_z c)\<rparr>,
     bl_ambient := field (bl_ambient l) (pl_ambient c), bl_diffuse := field (bl_diffuse l) (pl_diffuse c)\<rparr>"

definition DirectionalLight_Out :: "'a directional_light_scheme \<Rightarrow> p_light \<Rightarrow> p_light" where
  "DirectionalLight_Out l target = (base_Out l target)\<lparr>pl_direction :=
     Some \<lparr>pn_x = Some (vx (dl_direction l)), pn_y = Some (vy (dl_direction l)), pn_z = Some (vz (dl_direction l))\<rparr>\<rparr>"

text \<open>A component of the direction that the message leaves out is the default of the message, not of the light.\<close>

definition DirectionalLight_In :: "p_light \<Rightarrow> 'a directional_light_scheme \<Rightarrow> 'a directional_light_scheme" where
  "DirectionalLight_In c l = (let l1 = base_In c l in case pl_direction c of
      None \<Rightarrow> l1
    | Some d \<Rightarrow> l1\<lparr>dl_direction := \<lparr>vx = field 0 (pn_x d), vy = field (- 1) (pn_y d), vz = field 0 (pn_z d)\<rparr>\<rparr>)"

definition PointLight_Out :: "'a point_light_scheme \<Rightarrow> p_light \<Rightarrow> p_light" where
  "PointLight_Out l target = (base_Out l target)\<lparr>pl_attenuation :=
     Some \<lparr>pt_constant = Some (at_constant (pl_atten l)), pt_linear = Some (at_linear (pl_atten l)),
       pt_exponential = Some (at_exponential (pl_atten l))\<rparr>\<rparr>"

definition PointLight_In :: "p_light \<Rightarrow> 'a point_light_scheme \<Rightarrow> 'a point_light_scheme" where
  "PointLight_In c l = (let l1 = base_In c l in case pl_attenuation c of
      None \<Rightarrow> l1
    | Some a \<Rightarrow> l1\<lparr>pl_atten := \<lparr>at_constant = field (at_constant (pl_atten l1)) (pt_constant a),
         at_linear = field (at_linear (pl_atten l1)) (pt_linear a),
         at_exponential = field (at_exponential (pl_atten l1)) (pt_exponential a)\<rparr>\<rparr>)"

text \<open>The radius at which the light falls below ten of 255 steps, a root of a quadratic polynomial.\<close>

definition cutoff_factor :: real where
  "cutoff_factor = 255 / 10"

definition max_channel :: "'a base_light_scheme \<Rightarrow> real" where
  "max_channel l = max (max (vx (bl_color l)) (vy (bl_color l))) (vz (bl_color l))"

definition bounding_radius :: "'a point_light_scheme \<Rightarrow> real option" where
  "bounding_radius l =
     (let c = at_constant (pl_atten l); b = at_linear (pl_atten l); a = at_exponential (pl_atten l);
          t = 4 * a * (c - cutoff_factor * max_channel l * bl_diffuse l)
      in if a = 0 \<or> b * b - t < 0 then None else Some ((sqrt (b * b - t) - b) / (2 * a)))"

definition UpdateBoundingRadius :: "'a point_light_scheme \<Rightarrow> 'a point_light_scheme" where
  "UpdateBoundingRadius l = l\<lparr>pl_radius := bounding_radius l\<rparr>"

subsection \<open>Properties\<close>

text \<open>A light that is written to a message, whatever the message held, and read back is the same light,
  except that the radius of a point light, which is computed, is not written.
\<close>

theorem lights_roundtrip:
  fixes d d0 :: directional_light and p p0 :: point_light
  shows "DirectionalLight_In (DirectionalLight_Out d target) d0 = d
   \<and> PointLight_In (PointLight_Out p target) p0 = p\<lparr>pl_radius := pl_radius p0\<rparr>"
  by (simp add: DirectionalLight_In_def DirectionalLight_Out_def PointLight_In_def PointLight_Out_def base_In_def base_Out_def Let_def)

lemma quadratic_below_root:
  fixes a b c r s :: real
  assumes "0 < a" and "0 \<le> b" and "0 \<le> r" and "a * (r * r) + b * r + c = 0" and "0 \<le> s"
  shows "a * (s * s) + b * s + c \<le> 0 \<longleftrightarrow> s \<le> r"
proof -
  have "a * (s * s) + b * s + c = (s - r) * (a * (s + r) + b)"
    using assms(4) by (simp add: algebra_simps)
  moreover have "0 \<le> a * (s + r) + b"
    using assms(1-3,5) by simp
  moreover have "0 < a * (s + r) + b" if "r < s"
    using that assms(1-3) mult_pos_pos [of a "s + r"] by linarith
  ultimately show ?thesis
    by (cases "s \<le> r") (auto simp: mult_le_0_iff)
qed

text \<open>A point light whose attenuation grows with the square of the distance and that is bright enough at its
  position gets as radius the distance up to which the brightest of its channels, diffused and
  attenuated, is at least ten steps of 255: the sphere that is drawn covers exactly the points that it lights.
\<close>

theorem bounding_radius_covers:
  assumes "0 < at_exponential (pl_atten l)" and "0 \<le> at_linear (pl_atten l)" and "0 < at_constant (pl_atten l)"
    and "at_constant (pl_atten l) \<le> cutoff_factor * max_channel l * bl_diffuse l" and "0 \<le> s"
  shows "\<exists>r. pl_radius (UpdateBoundingRadius l) = Some r \<and> 0 \<le> r
    \<and> (s \<le> r \<longleftrightarrow> 10 / 255 \<le> max_channel l * bl_diffuse l
         / (at_constant (pl_atten l) + at_linear (pl_atten l) * s + at_exponential (pl_atten l) * (s * s)))"
proof -
  let ?c = "at_constant (pl_atten l)" and ?b = "at_linear (pl_atten l)" and ?a = "at_exponential (pl_atten l)"
  let ?m = "max_channel l * bl_diffuse l"
  define d where "d = ?b * ?b - 4 * ?a * (?c - cutoff_factor * max_channel l * bl_diffuse l)"
  define r where "r = (sqrt d - ?b) / (2 * ?a)"
  have "4 * ?a * (?c - cutoff_factor * max_channel l * bl_diffuse l) \<le> 0"
    using assms(1,4) by (simp add: mult_le_0_iff)
  then have d: "?b * ?b \<le> d"
    by (simp only: d_def)
  then have "0 \<le> d"
    using zero_le_square [of ?b] by linarith
  have "?b \<le> sqrt d"
    using d real_le_rsqrt [of ?b d] by (simp add: power2_eq_square)
  then have r: "0 \<le> r"
    using assms(1) by (simp add: r_def)
  have "2 * ?a * r + ?b = sqrt d"
    using assms(1) by (simp add: r_def)
  then have "(2 * ?a * r + ?b) * (2 * ?a * r + ?b) = d"
    using \<open>0 \<le> d\<close> by (simp add: real_sqrt_mult_self)
  then have "4 * ?a * (?a * (r * r) + ?b * r + (?c - cutoff_factor * ?m)) = 0"
    by (simp add: d_def algebra_simps)
  then have root: "?a * (r * r) + ?b * r + (?c - cutoff_factor * ?m) = 0"
    using assms(1) by simp
  have pos: "0 < ?c + ?b * s + ?a * (s * s)"
    using assms(1-3,5) by (intro add_pos_nonneg) simp_all
  have "s \<le> r \<longleftrightarrow> ?a * (s * s) + ?b * s + (?c - cutoff_factor * ?m) \<le> 0"
    using quadratic_below_root [OF assms(1,2) r root assms(5)] by simp
  also have "\<dots> \<longleftrightarrow> 10 / 255 \<le> ?m / (?c + ?b * s + ?a * (s * s))"
    using pos by (auto simp: cutoff_factor_def field_simps)
  finally have covers: "s \<le> r \<longleftrightarrow> 10 / 255 \<le> ?m / (?c + ?b * s + ?a * (s * s))" .
  have "bounding_radius l = Some r"
    using assms(1) \<open>0 \<le> d\<close> by (simp add: bounding_radius_def Let_def d_def r_def)
  then show ?thesis
    using r covers by (simp add: UpdateBoundingRadius_def)
qed

text \<open>A point light that is too dim to reach ten steps of 255 even at its position has no radius or a
  negative one, with which the sphere is scaled all the same.
\<close>

theorem dim_light_radius:
  assumes "0 < at_exponential (pl_atten l)" and "0 \<le> at_linear (pl_atten l)"
    and "cutoff_factor * max_channel l * bl_diffuse l < at_constant (pl_atten l)"
  shows "case pl_radius (UpdateBoundingRadius l) of None \<Rightarrow> True | Some r \<Rightarrow> r < 0"
proof -
  let ?b = "at_linear (pl_atten l)" and ?a = "at_exponential (pl_atten l)"
  let ?t = "4 * ?a * (at_constant (pl_atten l) - cutoff_factor * max_channel l * bl_diffuse l)"
  have t: "0 < ?t"
    using assms(1,3) by simp
  show ?thesis
  proof (cases "?b * ?b - ?t < 0")
    case False
    have "?b * ?b - ?t < ?b * ?b"
      using t by linarith
    then have "sqrt (?b * ?b - ?t) < sqrt (?b * ?b)"
      by (rule real_sqrt_less_mono)
    then have "sqrt (?b * ?b - ?t) < ?b"
      using assms(2) by simp
    then show ?thesis
      using False assms(1) by (simp add: bounding_radius_def Let_def divide_less_0_iff UpdateBoundingRadius_def)
  qed (simp add: bounding_radius_def Let_def UpdateBoundingRadius_def)
qed

theorem bounding_radius_covers_witness:
  "\<exists>r. pl_radius (UpdateBoundingRadius (new_point_light\<lparr>pl_atten := \<lparr>at_constant = 1, at_linear = 0, at_exponential = 1\<rparr>\<rparr>)) = Some r
     \<and> 0 \<le> r \<and> 2 \<le> r"
  using bounding_radius_covers [of "new_point_light\<lparr>pl_atten := \<lparr>at_constant = 1, at_linear = 0, at_exponential = 1\<rparr>\<rparr>" 2]
  by (auto simp: new_point_light_def new_base_light_def base_light.defs cutoff_factor_def max_channel_def)

theorem dim_light_radius_witness:
  "case pl_radius (UpdateBoundingRadius (new_point_light\<lparr>pl_atten := \<lparr>at_constant = 6, at_linear = 2, at_exponential = 1\<rparr>\<rparr>)) of
     None \<Rightarrow> True | Some r \<Rightarrow> r < 0"
  using dim_light_radius [of "new_point_light\<lparr>pl_atten := \<lparr>at_constant = 6, at_linear = 2, at_exponential = 1\<rparr>\<rparr>"]
  by (simp add: new_point_light_def new_base_light_def base_light.defs cutoff_factor_def max_channel_def)

end
