(* ===== verification/Render_List.thy ===== *)
theory Render_List
  imports Vertex_Buffer Animations Lights "HOL-Library.Option_ord" "HOL-Library.Monad_Syntax"
begin

text \<open>
  The list of what is drawn (client/graphics/render-list.hpp) and the components it is made from
  (client/graphics/renderable.cpp, view.hpp, render-item.hpp). Files of meshes, vertex buffers, render items and
  animations are objects at addresses; a shader is the number of its object. The result
  \<open>None\<close> is an access to something that is not there. Floating point numbers are real numbers, and glm is a
  parameter.
\<close>

subsection \<open>Components\<close>

record renderable =
  rd_item :: "nat option"
  rd_mesh_name :: string
  rd_mesh :: "nat option"
  rd_shader_name :: string
  rd_shader :: "nat option"
  rd_translation :: "real vec3"
  rd_orientation :: "real orientation"
  rd_hidden :: bool

definition new_renderable :: renderable where
  "new_renderable = \<lparr>rd_item = None, rd_mesh_name = [], rd_mesh = None, rd_shader_name = [], rd_shader = None,
     rd_translation = zero_vec, rd_orientation = new_orientation, rd_hidden = False\<rparr>"

record p_renderable =
  pr_shader_name :: "string option"
  pr_mesh_name :: "string option"
  pr_hidden :: "bool option"
  pr_position :: "real p_position option"
  pr_orientation :: "real p_quaternion option"

definition empty_p_renderable :: p_renderable where
  "empty_p_renderable = \<lparr>pr_shader_name = None, pr_mesh_name = None, pr_hidden = None, pr_position = None, pr_orientation = None\<rparr>"

text \<open>\<open>meshes\<close> and \<open>programs\<close> are the lookups by name; a missing resource is a null pointer.\<close>

definition Renderable_Out :: "renderable \<Rightarrow> p_renderable" where
  "Renderable_Out rd = \<lparr>pr_shader_name = Some (rd_shader_name rd), pr_mesh_name = Some (rd_mesh_name rd), pr_hidden = Some (rd_hidden rd),
     pr_position = Some (Position_Out (rd_translation rd)), pr_orientation = Some (Orientation_Out (rd_orientation rd))\<rparr>"

definition Renderable_In ::
    "(real \<Rightarrow> real \<Rightarrow> real \<Rightarrow> real quat) \<Rightarrow> (string \<Rightarrow> nat option) \<Rightarrow> (string \<Rightarrow> nat option) \<Rightarrow> p_renderable \<Rightarrow> renderable \<Rightarrow> renderable" where
  "Renderable_In complete3 meshes programs c rd =
     (let rd1 = (case pr_mesh_name c of None \<Rightarrow> rd | Some n \<Rightarrow> rd\<lparr>rd_mesh_name := n, rd_mesh := meshes n\<rparr>);
          rd2 = (case pr_shader_name c of None \<Rightarrow> rd1 | Some n \<Rightarrow> rd1\<lparr>rd_shader_name := n, rd_shader := programs n\<rparr>);
          rd3 = (case pr_hidden c of None \<Rightarrow> rd2 | Some b \<Rightarrow> rd2\<lparr>rd_hidden := b\<rparr>);
          rd4 = (case pr_position c of None \<Rightarrow> rd3
            | Some p \<Rightarrow> rd3\<lparr>rd_translation := \<lparr>vx = field 0 (pp_x p), vy = field 0 (pp_y p), vz = field 0 (pp_z p)\<rparr>\<rparr>)
      in case pr_orientation c of None \<Rightarrow> rd4 | Some q \<Rightarrow> rd4\<lparr>rd_orientation := Orientation_In complete3 q (rd_orientation rd4)\<rparr>)"

record view =
  vi_pos :: "real vec3"
  vi_quat :: "real quat"
  vi_active :: bool

definition new_view :: "bool \<Rightarrow> view" where
  "new_view active = \<lparr>vi_pos = zero_vec, vi_quat = \<lparr>qw = 0, qx = 0, qy = 0, qz = 0\<rparr>, vi_active = active\<rparr>"

definition View_Out :: "view \<Rightarrow> bool option" where
  "View_Out v = Some (vi_active v)"

definition View_In :: "bool option \<Rightarrow> view \<Rightarrow> view" where
  "View_In c v = (case c of None \<Rightarrow> v | Some b \<Rightarrow> v\<lparr>vi_active := b\<rparr>)"

record render_item =
  ri_position :: "real vec3"
  ri_scale :: "real vec3"
  ri_quat :: "real quat"
  ri_groups :: "vertex_group list"
  ri_vbo :: "nat option"
  ri_mesh :: "nat option"
  ri_animated :: bool
  ri_animation :: "nat option"

definition new_render_item :: render_item where
  "new_render_item = \<lparr>ri_position = zero_vec, ri_scale = zero_vec, ri_quat = \<lparr>qw = 0, qx = 0, qy = 0, qz = 0\<rparr>, ri_groups = [],
     ri_vbo = None, ri_mesh = None, ri_animated = False, ri_animation = None\<rparr>"

subsection \<open>State\<close>

text \<open>
  The components of the entities, the objects, and \<open>RenderItemList\<close>: the buffer of each mesh file, the items to
  draw by shader, the default shader and the current view.
\<close>

record render_world =
  rw_renderables :: "(eid, renderable) omap"
  rw_views :: "(eid, view) omap"
  rw_position :: "eid \<rightharpoonup> real vec3"
  rw_orientation :: "eid \<rightharpoonup> real quat"
  rw_scale :: "eid \<rightharpoonup> real vec3"
  rw_animation :: "eid \<rightharpoonup> nat"
  rw_animations :: "nat \<rightharpoonup> animation"
  rw_anims :: anim_store
  rw_items :: "nat \<rightharpoonup> render_item"
  rw_next_item :: nat
  rw_files :: "nat \<rightharpoonup> real mesh_file"
  rw_vbos :: "nat \<rightharpoonup> real vbo"
  rw_next_vbo :: nat
  rw_graphics :: graphics
  rw_shaders :: "string \<rightharpoonup> nat"
  rl_mesh_buffers :: "nat \<rightharpoonup> nat"
  rl_render_items :: "(nat option, nat set) omap"
  rl_default_shader :: "nat option"
  rl_current_view :: "view option"

record render_env =
  re_packing :: "real packing"
  re_driver :: gl_driver
  re_glm :: glm3
  re_inverse :: "real quat \<Rightarrow> real quat"

definition DEFAULT_SHADER_NAME :: string where
  "DEFAULT_SHADER_NAME = ''deferred''"

subsection \<open>Updating the list\<close>

text \<open>The buffer of a mesh file: the one that is kept for it, or a new one.\<close>

definition buffer_for :: "render_env \<Rightarrow> nat \<Rightarrow> render_world \<Rightarrow> (nat \<times> render_world) option" where
  "buffer_for E m w = (case rl_mesh_buffers w m of
      Some b \<Rightarrow> Some (b, w)
    | None \<Rightarrow> do {
        f \<leftarrow> rw_files w m;
        (_, vb, gf) \<leftarrow> Load_vbo (re_packing E) (re_driver E) m f (new_vbo VF_FULL) (rw_graphics w);
        let b = rw_next_vbo w;
        Some (b, w\<lparr>rw_vbos := (rw_vbos w)(b \<mapsto> vb), rw_next_vbo := Suc b, rw_graphics := gf,
                   rl_mesh_buffers := (rl_mesh_buffers w)(m \<mapsto> b)\<rparr>)
      })"

text \<open>A render item belongs to its renderable: resetting the pointer deletes it.\<close>

definition drop_item :: "renderable \<Rightarrow> render_world \<Rightarrow> renderable \<times> render_world" where
  "drop_item rd w = (case rd_item rd of
      None \<Rightarrow> (rd, w)
    | Some p \<Rightarrow> (rd\<lparr>rd_item := None\<rparr>, w\<lparr>rw_items := (rw_items w)(p := None)\<rparr>))"

definition item_for :: "renderable \<Rightarrow> render_world \<Rightarrow> nat \<times> render_world" where
  "item_for rd w = (case rd_item rd of
      Some p \<Rightarrow> (p, w)
    | None \<Rightarrow> (rw_next_item w, w\<lparr>rw_items := (rw_items w)(rw_next_item w \<mapsto> new_render_item), rw_next_item := Suc (rw_next_item w)\<rparr>))"

definition show_mesh :: "render_env \<Rightarrow> nat \<Rightarrow> renderable \<Rightarrow> render_world \<Rightarrow> (renderable \<times> render_world) option" where
  "show_mesh E m rd w = do {
     (b, w1) \<leftarrow> buffer_for E m w;
     vb \<leftarrow> rw_vbos w1 b;
     if vb_groups vb = [] then Some (drop_item rd w1)
     else do {
       let (p, w2) = item_for rd w1;
       it \<leftarrow> rw_items w2 p;
       Some (rd\<lparr>rd_item := Some p\<rparr>, w2\<lparr>rw_items := (rw_items w2)(p \<mapsto> it\<lparr>ri_vbo := Some b, ri_groups := vb_groups vb, ri_mesh := Some m\<rparr>)\<rparr>)
     }
   }"

text \<open>The first part of the loop: the item of a renderable, with the mesh it has now.\<close>

definition mesh_changed :: "renderable \<Rightarrow> render_world \<Rightarrow> nat \<Rightarrow> bool option" where
  "mesh_changed rd w m = (case rd_item rd of None \<Rightarrow> Some True | Some p \<Rightarrow> map_option (\<lambda>it. ri_mesh it \<noteq> Some m) (rw_items w p))"

definition refresh_item :: "render_env \<Rightarrow> renderable \<Rightarrow> render_world \<Rightarrow> (renderable \<times> render_world) option" where
  "refresh_item E rd w = (case rd_mesh rd of
      None \<Rightarrow> Some (drop_item rd w)
    | Some m \<Rightarrow> do {
        changed \<leftarrow> mesh_changed rd w m;
        if changed then show_mesh E m rd w else Some (rd, w)
      })"

text \<open>The buffer is loaded again when its mesh changed, and the item gets the new groups.\<close>

definition update_groups :: "render_env \<Rightarrow> nat \<Rightarrow> render_world \<Rightarrow> render_world option" where
  "update_groups E p w = do {
     it \<leftarrow> rw_items w p;
     b \<leftarrow> ri_vbo it;
     vb \<leftarrow> rw_vbos w b;
     (updated, vb1, gf, files) \<leftarrow> Update_vbo (re_packing E) (re_driver E) (rw_files w) vb (rw_graphics w);
     Some (w\<lparr>rw_vbos := (rw_vbos w)(b \<mapsto> vb1), rw_graphics := gf, rw_files := files,
             rw_items := (rw_items w)(p \<mapsto> if updated then it\<lparr>ri_groups := vb_groups vb1\<rparr> else it)\<rparr>)
   }"

definition unit_scale :: "real vec3" where
  "unit_scale = \<lparr>vx = 1, vy = 1, vz = 1\<rparr>"

definition model_position :: "eid \<Rightarrow> renderable \<Rightarrow> render_world \<Rightarrow> real vec3" where
  "model_position i rd w = (case rw_position w i of None \<Rightarrow> rd_translation rd | Some v \<Rightarrow> v_plus (rd_translation rd) v)"

definition model_quat :: "render_env \<Rightarrow> eid \<Rightarrow> renderable \<Rightarrow> render_world \<Rightarrow> real quat" where
  "model_quat E i rd w = (case rw_orientation w i of
      None \<Rightarrow> o_value (rd_orientation rd)
    | Some q \<Rightarrow> g_times (re_glm E) (o_value (rd_orientation rd)) q)"

definition model_scale :: "eid \<Rightarrow> render_world \<Rightarrow> real vec3" where
  "model_scale i w = (case rw_scale w i of None \<Rightarrow> unit_scale | Some v \<Rightarrow> v)"

definition place_item :: "render_env \<Rightarrow> eid \<Rightarrow> renderable \<Rightarrow> nat \<Rightarrow> render_world \<Rightarrow> render_world option" where
  "place_item E i rd p w = do {
     it \<leftarrow> rw_items w p;
     Some (w\<lparr>rw_items := (rw_items w)(p \<mapsto>
       it\<lparr>ri_position := model_position i rd w, ri_quat := model_quat E i rd w, ri_scale := model_scale i w\<rparr>)\<rparr>)
   }"

text \<open>An item that was animated once stays so.\<close>

definition animate_item :: "render_env \<Rightarrow> real \<Rightarrow> eid \<Rightarrow> nat \<Rightarrow> render_world \<Rightarrow> render_world option" where
  "animate_item E delta i p w = (case rw_animation w i of
      None \<Rightarrow> Some w
    | Some a \<Rightarrow> do {
        am \<leftarrow> rw_animations w a;
        am1 \<leftarrow> UpdateAnimation (re_glm E) (rw_anims w) delta am;
        it \<leftarrow> rw_items w p;
        Some (w\<lparr>rw_animations := (rw_animations w)(a \<mapsto> am1),
                rw_items := (rw_items w)(p \<mapsto> if am_bones am1 \<noteq> [] then it\<lparr>ri_animated := True, ri_animation := Some a\<rparr> else it)\<rparr>)
      })"

definition default_shading :: "render_world \<Rightarrow> renderable \<Rightarrow> renderable" where
  "default_shading w rd = (if rd_shader rd = None
     then rd\<lparr>rd_shader := rl_default_shader w, rd_shader_name := DEFAULT_SHADER_NAME\<rparr> else rd)"

definition list_item :: "nat option \<Rightarrow> nat \<Rightarrow> render_world \<Rightarrow> render_world" where
  "list_item s p w = w\<lparr>rl_render_items := om_put s (insert p (om_get {} s (rl_render_items w))) (rl_render_items w)\<rparr>"

definition put_renderable :: "eid \<Rightarrow> renderable \<Rightarrow> render_world \<Rightarrow> render_world" where
  "put_renderable i rd w = w\<lparr>rw_renderables := om_put i rd (rw_renderables w)\<rparr>"

definition update_renderable :: "render_env \<Rightarrow> real \<Rightarrow> eid \<Rightarrow> render_world \<Rightarrow> render_world option" where
  "update_renderable E delta i w = do {
     rd \<leftarrow> map_of (rw_renderables w) i;
     if rd_hidden rd then Some w
     else do {
       (rd1, w1) \<leftarrow> refresh_item E rd w;
       (case rd_item rd1 of
          None \<Rightarrow> Some (put_renderable i rd1 w1)
        | Some p \<Rightarrow> do {
            w2 \<leftarrow> update_groups E p w1;
            w3 \<leftarrow> place_item E i rd1 p w2;
            w4 \<leftarrow> animate_item E delta i p w3;
            let rd2 = default_shading w4 rd1;
            Some (list_item (rd_shader rd2) p (put_renderable i rd2 w4))
          })
     }
   }"

definition vec_neg :: "real vec3 \<Rightarrow> real vec3" where
  "vec_neg v = \<lparr>vx = - vx v, vy = - vy v, vz = - vz v\<rparr>"

text \<open>An active view is the current one, the last of them if there are several.\<close>

definition update_view :: "render_env \<Rightarrow> eid \<times> view \<Rightarrow> render_world \<Rightarrow> render_world" where
  "update_view E iv w = (case iv of (i, v) \<Rightarrow>
     let v1 = (case rw_position w i of None \<Rightarrow> v | Some p \<Rightarrow> v\<lparr>vi_pos := vec_neg p\<rparr>);
         v2 = (case rw_orientation w i of None \<Rightarrow> v1 | Some q \<Rightarrow> v1\<lparr>vi_quat := re_inverse E q\<rparr>);
         w1 = w\<lparr>rw_views := om_put i v2 (rw_views w)\<rparr>
     in if vi_active v2 then w1\<lparr>rl_current_view := Some v2\<rparr> else w1)"

definition start_list :: "render_world \<Rightarrow> render_world" where
  "start_list w = w\<lparr>rl_render_items := [],
     rl_default_shader := (case rl_default_shader w of None \<Rightarrow> rw_shaders w DEFAULT_SHADER_NAME | Some s \<Rightarrow> Some s)\<rparr>"

definition SetDefaultShader :: "nat option \<Rightarrow> render_world \<Rightarrow> render_world" where
  "SetDefaultShader s w = w\<lparr>rl_default_shader := s\<rparr>"

definition UpdateRenderList :: "render_env \<Rightarrow> real \<Rightarrow> render_world \<Rightarrow> render_world option" where
  "UpdateRenderList E delta w = do {
     w1 \<leftarrow> each (update_renderable E delta) (om_keys (rw_renderables w)) (start_list w);
     Some (fold (update_view E) (rw_views w1) w1)
   }"

end
