(* ===== verification/Render_Current.thy ===== *)
theory Render_Current
  imports Render_List
begin

text \<open>
  What the render list shows: if no two renderables share a mesh, and every mesh can be drawn, each update lists
  the visible renderables that have a mesh, each with an item that shows its mesh as it is now.
  Shared and empty meshes are where the code goes wrong.
\<close>

subsection \<open>The invariant\<close>

text \<open>\<open>R\<close> maps the entities to their renderables.\<close>

definition groups_safe :: "render_world \<Rightarrow> real vbo \<Rightarrow> bool" where
  "groups_safe w vb \<longleftrightarrow> (\<forall>g \<in> set (vb_groups vb). vg_material g = None \<or> has_material (rw_graphics w) g)"

definition buffers_ok :: "render_env \<Rightarrow> render_world \<Rightarrow> bool" where
  "buffers_ok E w \<longleftrightarrow> (\<forall>m b. rl_mesh_buffers w m = Some b \<longrightarrow> b < rw_next_vbo w \<and> (\<exists>vb f. rw_vbos w b = Some vb \<and> rw_files w m = Some f
      \<and> vb_source vb = Some m \<and> vb_format vb = VF_FULL \<and> vb_groups vb \<noteq> [] \<and> groups_safe w vb \<and> (mf_dirty f \<or> holds_meshes (re_packing E) (mf_meshes f) vb)))
    \<and> (\<forall>m n b. rl_mesh_buffers w m = Some b \<and> rl_mesh_buffers w n = Some b \<longrightarrow> m = n)"

definition item_ok :: "render_world \<Rightarrow> renderable \<Rightarrow> bool" where
  "item_ok w rd \<longleftrightarrow> (\<forall>p. rd_item rd = Some p \<longrightarrow> p < rw_next_item w
     \<and> (\<exists>it m. rw_items w p = Some it \<and> ri_mesh it = Some m \<and> rl_mesh_buffers w m \<noteq> None \<and> ri_vbo it = rl_mesh_buffers w m))"

definition groups_ok :: "render_world \<Rightarrow> renderable \<Rightarrow> bool" where
  "groups_ok w rd \<longleftrightarrow> (\<forall>p it m b vb f. rd_item rd = Some p \<and> rw_items w p = Some it \<and> rd_mesh rd = Some m \<and> ri_mesh it = Some m
     \<and> rl_mesh_buffers w m = Some b \<and> rw_vbos w b = Some vb \<and> rw_files w m = Some f \<longrightarrow> mf_dirty f \<or> ri_groups it = vb_groups vb)"

definition meshes_ok :: "(eid \<rightharpoonup> renderable) \<Rightarrow> render_world \<Rightarrow> bool" where
  "meshes_ok R w \<longleftrightarrow> (\<forall>i rd m. R i = Some rd \<and> rd_mesh rd = Some m \<longrightarrow> (\<exists>f. rw_files w m = Some f \<and> drawable VF_FULL (mf_meshes f)))"

definition unshared :: "(renderable \<Rightarrow> nat option) \<Rightarrow> (eid \<rightharpoonup> renderable) \<Rightarrow> bool" where
  "unshared sel R \<longleftrightarrow> (\<forall>i j rd rd' x. R i = Some rd \<and> R j = Some rd' \<and> sel rd = Some x \<and> sel rd' = Some x \<longrightarrow> i = j)"

definition anims_ok :: "render_world \<Rightarrow> bool" where
  "anims_ok w \<longleftrightarrow> (\<forall>i a. rw_animation w i = Some a \<longrightarrow> (\<exists>am. rw_animations w a = Some am \<and> playable (rw_anims w) am))"

definition sound_with :: "render_env \<Rightarrow> (eid \<rightharpoonup> renderable) \<Rightarrow> render_world \<Rightarrow> bool" where
  "sound_with E R w \<longleftrightarrow> buffers_ok E w \<and> (\<forall>i rd. R i = Some rd \<longrightarrow> item_ok w rd \<and> groups_ok w rd) \<and> meshes_ok R w
     \<and> unshared rd_mesh R \<and> unshared rd_item R \<and> anims_ok w \<and> graphics_ok (rw_graphics w)"

definition render_sound :: "render_env \<Rightarrow> render_world \<Rightarrow> bool" where
  "render_sound E w \<longleftrightarrow> wf_omap (rw_renderables w) \<and> wf_omap (rl_render_items w) \<and> sound_with E (map_of (rw_renderables w)) w"

definition driver_maps :: "render_env \<Rightarrow> bool" where
  "driver_maps E \<longleftrightarrow> gl_map_verts (re_driver E) \<and> gl_map_indices (re_driver E)"

text \<open>A renderable is shown if its item has the groups of a buffer that holds its mesh, is placed and is listed.\<close>

definition shown :: "render_env \<Rightarrow> render_world \<Rightarrow> eid \<Rightarrow> renderable \<Rightarrow> bool" where
  "shown E w j rd \<longleftrightarrow> (\<exists>p it m b vb f. rd_item rd = Some p \<and> rw_items w p = Some it \<and> rd_mesh rd = Some m \<and> ri_mesh it = Some m
     \<and> ri_vbo it = Some b \<and> rl_mesh_buffers w m = Some b \<and> rw_vbos w b = Some vb \<and> rw_files w m = Some f
     \<and> vb_format vb = VF_FULL \<and> holds_meshes (re_packing E) (mf_meshes f) vb \<and> ri_groups it = vb_groups vb
     \<and> ri_position it = model_position j rd w \<and> ri_quat it = model_quat E j rd w \<and> ri_scale it = model_scale j w
     \<and> p \<in> om_get {} (rd_shader rd) (rl_render_items w))"

lemma sound_withD:
  assumes "sound_with E R w"
  shows "buffers_ok E w" "R i = Some rd \<Longrightarrow> item_ok w rd" "R i = Some rd \<Longrightarrow> groups_ok w rd" "meshes_ok R w"
    "unshared rd_mesh R" "unshared rd_item R" "anims_ok w" "graphics_ok (rw_graphics w)"
  using assms unfolding sound_with_def by blast+

lemma unsharedD: "unshared sel R \<Longrightarrow> R i = Some rd \<Longrightarrow> R j = Some rd' \<Longrightarrow> sel rd = Some x \<Longrightarrow> j \<noteq> i \<Longrightarrow> sel rd' \<noteq> Some x"
  unfolding unshared_def by blast

lemma unshared_upd:
  assumes "unshared sel R" and "\<And>j rd' x. j \<noteq> i \<Longrightarrow> R j = Some rd' \<Longrightarrow> sel rd' = Some x \<Longrightarrow> sel rd1 \<noteq> Some x"
  shows "unshared sel (R(i \<mapsto> rd1))"
  unfolding unshared_def
proof (intro allI impI)
  fix k j rd rd' x
  assume h: "(R(i \<mapsto> rd1)) k = Some rd \<and> (R(i \<mapsto> rd1)) j = Some rd' \<and> sel rd = Some x \<and> sel rd' = Some x"
  show "k = j"
  proof (cases "k = i"; cases "j = i")
    assume "k \<noteq> i" "j \<noteq> i"
    then show ?thesis using h assms(1) unfolding unshared_def by (auto simp: fun_upd_def)
  next
    assume "k = i" "j \<noteq> i"
    then show ?thesis using h assms(2) by (auto simp: fun_upd_def)
  next
    assume "k \<noteq> i" "j = i"
    then show ?thesis using h assms(2) by (auto simp: fun_upd_def)
  qed simp
qed

lemma buffers_okD:
  assumes "buffers_ok E w" and "rl_mesh_buffers w m = Some b"
  shows "b < rw_next_vbo w" "\<exists>vb f. rw_vbos w b = Some vb \<and> rw_files w m = Some f \<and> vb_source vb = Some m \<and> vb_format vb = VF_FULL
      \<and> vb_groups vb \<noteq> [] \<and> groups_safe w vb \<and> (mf_dirty f \<or> holds_meshes (re_packing E) (mf_meshes f) vb)"
    "rl_mesh_buffers w n = Some b \<Longrightarrow> n = m"
  using assms unfolding buffers_ok_def by blast+

lemma item_okD:
  assumes "item_ok w rd" and "rd_item rd = Some p"
  obtains it m b where "p < rw_next_item w" "rw_items w p = Some it" "ri_mesh it = Some m" "rl_mesh_buffers w m = Some b" "ri_vbo it = Some b"
  using assms unfolding item_ok_def by force

lemma groups_okD:
  assumes "groups_ok w rd" and "rd_item rd = Some p" "rw_items w p = Some it" "rd_mesh rd = Some m" "ri_mesh it = Some m"
    "rl_mesh_buffers w m = Some b" "rw_vbos w b = Some vb" "rw_files w m = Some f"
  shows "mf_dirty f \<or> ri_groups it = vb_groups vb"
  using assms unfolding groups_ok_def by blast

text \<open>What the parts of the loop leave alone.\<close>

definition same_scene :: "render_world \<Rightarrow> render_world \<Rightarrow> bool" where
  "same_scene w w1 \<longleftrightarrow> rw_renderables w1 = rw_renderables w \<and> rw_views w1 = rw_views w \<and> rw_position w1 = rw_position w
     \<and> rw_orientation w1 = rw_orientation w \<and> rw_scale w1 = rw_scale w \<and> rw_animation w1 = rw_animation w
     \<and> rw_animations w1 = rw_animations w \<and> rw_anims w1 = rw_anims w \<and> rw_files w1 = rw_files w \<and> rw_shaders w1 = rw_shaders w
     \<and> rl_render_items w1 = rl_render_items w \<and> rl_default_shader w1 = rl_default_shader w \<and> rl_current_view w1 = rl_current_view w
     \<and> gf_textures (rw_graphics w1) = gf_textures (rw_graphics w)"

lemma groups_safe_more: "groups_safe w vb \<Longrightarrow> more_materials (rw_graphics w) (rw_graphics w1) \<Longrightarrow> groups_safe w1 vb"
  using has_material_more unfolding groups_safe_def by blast

lemma holds_meshes_groups: "holds_meshes G ms vb \<Longrightarrow> vb_groups vb \<noteq> []"
  by (auto simp: holds_meshes_def drawn_groups_def split: if_splits)

subsection \<open>The item of a renderable\<close>

lemma buffer_for_sound:
  assumes s: "sound_with E R w" and d: "driver_maps E" and f: "rw_files w m = Some f" "drawable VF_FULL (mf_meshes f)"
  shows "\<exists>b w1 vb. buffer_for E m w = Some (b, w1) \<and> sound_with E R w1 \<and> same_scene w w1 \<and> rl_mesh_buffers w1 m = Some b
    \<and> rw_vbos w1 b = Some vb \<and> vb_groups vb \<noteq> [] \<and> rw_items w1 = rw_items w \<and> rw_next_item w1 = rw_next_item w
    \<and> (\<forall>j rd. shown E w j rd \<longrightarrow> shown E w1 j rd)"
proof (cases "rl_mesh_buffers w m")
  case (Some b)
  then show ?thesis
    using s buffers_okD(2) [OF sound_withD(1) [OF s] Some] by (auto simp: buffer_for_def same_scene_def)
next
  case None
  let ?b = "rw_next_vbo w"
  obtain vb gf where vb: "Load_vbo (re_packing E) (re_driver E) m f (new_vbo VF_FULL) (rw_graphics w) = Some (True, vb, gf)"
    "holds_meshes (re_packing E) (mf_meshes f) vb" "vb_format vb = VF_FULL" "vb_source vb = Some m"
    "graphics_ok gf" "more_materials (rw_graphics w) gf" "\<forall>g \<in> set (vb_groups vb). vg_material g = None \<or> has_material gf g"
    using Load_vbo_loads [of "new_vbo VF_FULL" f "re_driver E" "rw_graphics w" "re_packing E" m] f(2) d sound_withD(8) [OF s]
    by (auto simp: driver_maps_def new_vbo_def)
  define w1 where "w1 = w\<lparr>rw_vbos := (rw_vbos w)(?b \<mapsto> vb), rw_next_vbo := Suc ?b, rw_graphics := gf,
      rl_mesh_buffers := (rl_mesh_buffers w)(m \<mapsto> ?b)\<rparr>"
  have old: "b \<noteq> ?b" "n \<noteq> m" if "rl_mesh_buffers w n = Some b" for n b
    using buffers_okD(1) [OF sound_withD(1) [OF s] that] that None by auto
  have bo: "buffers_ok E w1"
    unfolding buffers_ok_def
  proof (intro conjI allI impI)
    fix n b assume n: "rl_mesh_buffers w1 n = Some b"
    show "b < rw_next_vbo w1"
      using n buffers_okD(1) [OF sound_withD(1) [OF s]] by (fastforce simp: w1_def split: if_splits)
    show "\<exists>vb f. rw_vbos w1 b = Some vb \<and> rw_files w1 n = Some f \<and> vb_source vb = Some n \<and> vb_format vb = VF_FULL
      \<and> vb_groups vb \<noteq> [] \<and> groups_safe w1 vb \<and> (mf_dirty f \<or> holds_meshes (re_packing E) (mf_meshes f) vb)"
    proof (cases "n = m")
      case True
      then show ?thesis using n vb f holds_meshes_groups [OF vb(2)] by (simp add: w1_def groups_safe_def)
    next
      case False
      then have "rl_mesh_buffers w n = Some b" using n by (simp add: w1_def)
      then show ?thesis
        using buffers_okD(2) [OF sound_withD(1) [OF s]] old groups_safe_more [of w _ w1] vb(6) by (fastforce simp: w1_def)
    qed
  next
    fix n k b assume "rl_mesh_buffers w1 n = Some b \<and> rl_mesh_buffers w1 k = Some b"
    then show "n = k"
      using old buffers_okD(3) [OF sound_withD(1) [OF s]] by (auto simp: w1_def split: if_splits)
  qed
  have io: "item_ok w1 rd" if i: "item_ok w rd" for rd
    unfolding item_ok_def
  proof (intro allI impI)
    fix p assume "rd_item rd = Some p"
    then obtain it n b where "p < rw_next_item w" "rw_items w p = Some it" "ri_mesh it = Some n" "rl_mesh_buffers w n = Some b" "ri_vbo it = Some b"
      by (rule item_okD [OF i])
    then show "p < rw_next_item w1 \<and> (\<exists>it m. rw_items w1 p = Some it \<and> ri_mesh it = Some m \<and> rl_mesh_buffers w1 m \<noteq> None \<and> ri_vbo it = rl_mesh_buffers w1 m)"
      using old by (simp add: w1_def)
  qed
  have go: "groups_ok w1 rd" if g: "groups_ok w rd" and i: "item_ok w rd" for rd
    unfolding groups_ok_def
  proof (intro allI impI, elim conjE)
    fix p it n b v h assume a: "rd_item rd = Some p" "rw_items w1 p = Some it" "rd_mesh rd = Some n" "ri_mesh it = Some n"
      "rl_mesh_buffers w1 n = Some b" "rw_vbos w1 b = Some v" "rw_files w1 n = Some h"
    have "rl_mesh_buffers w n \<noteq> None"
      by (rule item_okD [OF i a(1)]) (use a(2,4) in \<open>simp add: w1_def\<close>)
    then obtain b' where b': "rl_mesh_buffers w n = Some b'" by blast
    then have "b' = b" "rw_vbos w b = Some v"
      using old [OF b'] a(5,6) by (simp_all add: w1_def)
    then show "mf_dirty h \<or> ri_groups it = vb_groups v"
      using groups_okD [OF g a(1) _ a(3,4)] b' a(2,7) by (simp add: w1_def)
  qed
  have sh: "shown E w1 j rd" if h: "shown E w j rd" for j rd
    using h old unfolding shown_def w1_def model_position_def model_quat_def model_scale_def by fastforce
  have "sound_with E R w1"
    unfolding sound_with_def using bo io go sound_withD [OF s] vb(5) by (auto simp: w1_def meshes_ok_def anims_ok_def)
  then show ?thesis
    using None f(1) vb bo sh holds_meshes_groups [OF vb(2)] by (simp add: buffer_for_def Let_def w1_def [symmetric]) (use vb(6) in \<open>simp add: w1_def same_scene_def more_materials_def\<close>)
qed

text \<open>Changes of the item of one renderable leave the others alone.\<close>

lemma own_item_change:
  assumes s: "sound_with E R w" and i: "R i = Some rd"
    and w1: "w1 = w\<lparr>rw_items := items, rw_next_item := n\<rparr>" "rw_next_item w \<le> n"
      "\<And>q. q < rw_next_item w \<Longrightarrow> rd_item rd \<noteq> Some q \<Longrightarrow> items q = rw_items w q"
    and rd1: "rd_mesh rd1 = rd_mesh rd" "item_ok w1 rd1" "groups_ok w1 rd1"
      "\<And>q. rd_item rd1 = Some q \<Longrightarrow> rd_item rd = Some q \<or> rw_next_item w \<le> q"
  shows "sound_with E (R(i \<mapsto> rd1)) w1 \<and> (\<forall>j rd'. j \<noteq> i \<and> R j = Some rd' \<and> shown E w j rd' \<longrightarrow> shown E w1 j rd')"
proof -
  have own: "rw_items w1 p = rw_items w p \<and> p < rw_next_item w" if j: "j \<noteq> i" "R j = Some rd'" "rd_item rd' = Some p" for j rd' p
  proof -
    have "p < rw_next_item w"
      by (rule item_okD [OF sound_withD(2) [OF s j(2)] j(3)])
    moreover have "rd_item rd \<noteq> Some p"
      using unsharedD [OF sound_withD(6) [OF s] i j(2)] j(1,3) by blast
    ultimately show ?thesis
      using w1 by simp
  qed
  have io: "item_ok w1 rd'" if j: "j \<noteq> i" "R j = Some rd'" for j rd'
    unfolding item_ok_def
  proof (intro allI impI)
    fix p assume p: "rd_item rd' = Some p"
    then obtain it n b where "p < rw_next_item w" "rw_items w p = Some it" "ri_mesh it = Some n" "rl_mesh_buffers w n = Some b" "ri_vbo it = Some b"
      by (rule item_okD [OF sound_withD(2) [OF s j(2)]])
    then show "p < rw_next_item w1 \<and> (\<exists>it m. rw_items w1 p = Some it \<and> ri_mesh it = Some m \<and> rl_mesh_buffers w1 m \<noteq> None \<and> ri_vbo it = rl_mesh_buffers w1 m)"
      using own [OF j p] w1(1,2) by simp
  qed
  have go: "groups_ok w1 rd'" if j: "j \<noteq> i" "R j = Some rd'" for j rd'
    unfolding groups_ok_def
  proof (intro allI impI, elim conjE)
    fix p it n b v h assume "rd_item rd' = Some p" "rw_items w1 p = Some it" "rd_mesh rd' = Some n" "ri_mesh it = Some n"
      "rl_mesh_buffers w1 n = Some b" "rw_vbos w1 b = Some v" "rw_files w1 n = Some h"
    then show "mf_dirty h \<or> ri_groups it = vb_groups v"
      using groups_okD [OF sound_withD(3) [OF s j(2)], of p it n b v h] own [OF j, of p] w1(1) by simp
  qed
  have sh: "shown E w1 j rd'" if j: "j \<noteq> i" "R j = Some rd'" and h: "shown E w j rd'" for j rd'
  proof -
    obtain p where p: "rd_item rd' = Some p" using h unfolding shown_def by blast
    show ?thesis
      using h own [OF j p] p w1(1) unfolding shown_def model_position_def model_quat_def model_scale_def by simp
  qed
  have "buffers_ok E w1" "anims_ok w1" "graphics_ok (rw_graphics w1)"
    using sound_withD(1,7,8) [OF s] by (simp_all add: buffers_ok_def groups_safe_def anims_ok_def w1(1))
  moreover have "meshes_ok (R(i \<mapsto> rd1)) w1"
    using sound_withD(4) [OF s] i rd1(1) by (auto simp: meshes_ok_def w1(1))
  moreover have "unshared rd_mesh (R(i \<mapsto> rd1))"
    by (rule unshared_upd [OF sound_withD(5) [OF s]]) (metis unsharedD [OF sound_withD(5) [OF s] i] rd1(1))
  moreover have "unshared rd_item (R(i \<mapsto> rd1))"
  proof (rule unshared_upd [OF sound_withD(6) [OF s]])
    fix j rd' x assume j: "j \<noteq> i" "R j = Some rd'" "rd_item rd' = Some x"
    show "rd_item rd1 \<noteq> Some x"
    proof
      assume "rd_item rd1 = Some x"
      then show False
        using rd1(4) [of x] own [OF j] unsharedD [OF sound_withD(6) [OF s] i j(2) _ j(1), of x] j(3) by auto
    qed
  qed
  ultimately have "sound_with E (R(i \<mapsto> rd1)) w1"
    unfolding sound_with_def using io go rd1(2,3) by (auto simp: fun_upd_def)
  then show ?thesis
    using sh by blast
qed

lemma drop_item_sound:
  assumes s: "sound_with E R w" and i: "R i = Some rd" and d: "drop_item rd w = (rd1, w1)"
  shows "sound_with E (R(i \<mapsto> rd1)) w1 \<and> (\<forall>j rd'. j \<noteq> i \<and> R j = Some rd' \<and> shown E w j rd' \<longrightarrow> shown E w1 j rd')
    \<and> same_scene w w1 \<and> rd_item rd1 = None \<and> rd1 = rd\<lparr>rd_item := None\<rparr>"
proof (cases "rd_item rd")
  case None
  then have "rd1 = rd" "w1 = w"
    using d by (simp_all add: drop_item_def)
  then show ?thesis
    using s i None by (simp add: fun_upd_idem same_scene_def)
next
  case (Some p)
  then have r: "rd1 = rd\<lparr>rd_item := None\<rparr>" and w: "w1 = w\<lparr>rw_items := (rw_items w)(p := None), rw_next_item := rw_next_item w\<rparr>"
    using d by (auto simp: drop_item_def)
  have "sound_with E (R(i \<mapsto> rd1)) w1 \<and> (\<forall>j rd'. j \<noteq> i \<and> R j = Some rd' \<and> shown E w j rd' \<longrightarrow> shown E w1 j rd')"
    by (rule own_item_change [OF s i w]) (simp_all add: Some r item_ok_def groups_ok_def)
  moreover have "same_scene w w1 \<and> rd_item rd1 = None \<and> rd1 = rd\<lparr>rd_item := None\<rparr>"
    by (simp add: r w same_scene_def)
  ultimately show ?thesis
    by blast
qed

lemma show_mesh_sound:
  assumes s: "sound_with E R w" and d: "driver_maps E" and i: "R i = Some rd" "rd_mesh rd = Some m"
  shows "\<exists>rd1 w1 p it. show_mesh E m rd w = Some (rd1, w1) \<and> sound_with E (R(i \<mapsto> rd1)) w1
    \<and> (\<forall>j rd'. j \<noteq> i \<and> R j = Some rd' \<and> shown E w j rd' \<longrightarrow> shown E w1 j rd')
    \<and> same_scene w w1 \<and> rd1 = rd\<lparr>rd_item := Some p\<rparr> \<and> rw_items w1 p = Some it \<and> ri_mesh it = Some m"
proof -
  obtain f where f: "rw_files w m = Some f" "drawable VF_FULL (mf_meshes f)"
    using sound_withD(4) [OF s] i unfolding meshes_ok_def by blast
  obtain b wb vb where b: "buffer_for E m w = Some (b, wb)" "sound_with E R wb" "same_scene w wb" "rl_mesh_buffers wb m = Some b"
    "rw_vbos wb b = Some vb" "vb_groups vb \<noteq> []" "rw_items wb = rw_items w" "rw_next_item wb = rw_next_item w"
    "\<forall>j rd. shown E w j rd \<longrightarrow> shown E wb j rd"
    using buffer_for_sound [OF s d f] by blast
  obtain p w2 where w2: "item_for rd wb = (p, w2)"
    by (cases "item_for rd wb")
  have own: "w2 = wb\<lparr>rw_items := rw_items w2, rw_next_item := rw_next_item w2\<rparr>" "rw_next_item wb \<le> rw_next_item w2" "p < rw_next_item w2"
    "rw_items w2 p \<noteq> None" "rd_item rd = Some p \<or> rw_next_item wb \<le> p" "\<And>q. q \<noteq> p \<Longrightarrow> rw_items w2 q = rw_items wb q"
    using w2 sound_withD(2) [OF b(2) i(1)] unfolding item_for_def item_ok_def by (auto split: option.splits)
  obtain it where it: "rw_items w2 p = Some it"
    using own(4) by blast
  let ?rd = "rd\<lparr>rd_item := Some p\<rparr>"
  let ?it = "it\<lparr>ri_vbo := Some b, ri_groups := vb_groups vb, ri_mesh := Some m\<rparr>"
  define w1 where "w1 = w2\<lparr>rw_items := (rw_items w2)(p \<mapsto> ?it)\<rparr>"
  have buf: "rl_mesh_buffers w2 = rl_mesh_buffers wb" "rw_vbos w2 = rw_vbos wb" "rw_files w2 = rw_files wb"
    by (subst own(1), simp)+
  have w1: "w1 = wb\<lparr>rw_items := (rw_items w2)(p \<mapsto> ?it), rw_next_item := rw_next_item w2\<rparr>"
    by (simp add: w1_def, subst own(1), simp)
  have io: "item_ok w1 ?rd"
    using own(3) b(4) buf by (simp add: item_ok_def w1_def)
  have go: "groups_ok w1 ?rd"
    using b(4,5) buf by (auto simp: groups_ok_def w1_def)
  have others: "((rw_items w2)(p \<mapsto> ?it)) q = rw_items wb q" if "q < rw_next_item wb" "rd_item rd \<noteq> Some q" for q
    using that own(5,6) by auto
  have "sound_with E (R(i \<mapsto> ?rd)) w1 \<and> (\<forall>j rd'. j \<noteq> i \<and> R j = Some rd' \<and> shown E wb j rd' \<longrightarrow> shown E w1 j rd')"
    by (rule own_item_change [OF b(2) i(1) w1 own(2) others _ io go]) (use own(5) in auto)
  moreover have "same_scene w w1"
  proof -
    have "same_scene wb w2"
      by (subst own(1), simp add: same_scene_def)
    then show ?thesis
      using b(3) by (simp add: same_scene_def w1_def)
  qed
  moreover have "show_mesh E m rd w = Some (?rd, w1)"
    by (simp add: show_mesh_def b(1,5,6) w2 it w1_def)
  moreover have "rw_items w1 p = Some ?it" "ri_mesh ?it = Some m"
    by (simp_all add: w1_def)
  ultimately show ?thesis
    using b(9) by blast
qed

lemma refresh_item_sound:
  assumes s: "sound_with E R w" and d: "driver_maps E" and i: "R i = Some rd"
  shows "\<exists>rd1 w1. refresh_item E rd w = Some (rd1, w1) \<and> sound_with E (R(i \<mapsto> rd1)) w1
    \<and> (\<forall>j rd'. j \<noteq> i \<and> R j = Some rd' \<and> shown E w j rd' \<longrightarrow> shown E w1 j rd') \<and> same_scene w w1 \<and> rd1 = rd\<lparr>rd_item := rd_item rd1\<rparr>
    \<and> (case rd_mesh rd of None \<Rightarrow> rd_item rd1 = None
       | Some m \<Rightarrow> \<exists>p it. rd_item rd1 = Some p \<and> rw_items w1 p = Some it \<and> ri_mesh it = Some m)"
proof (cases "rd_mesh rd")
  case None
  obtain rd1 w1 where dr: "drop_item rd w = (rd1, w1)"
    by (cases "drop_item rd w")
  have "rd1 = rd\<lparr>rd_item := rd_item rd1\<rparr>"
    using drop_item_sound [OF s i dr] by simp
  then show ?thesis
    unfolding refresh_item_def None option.case dr using drop_item_sound [OF s i dr] by blast
next
  case (Some m)
  show ?thesis
  proof (cases "mesh_changed rd w m = Some False")
    case False
    have "mesh_changed rd w m \<noteq> None"
      using sound_withD(2) [OF s i] by (auto simp: mesh_changed_def item_ok_def split: option.split)
    then have "refresh_item E rd w = show_mesh E m rd w"
      using False Some by (auto simp: refresh_item_def)
    then show ?thesis
      using show_mesh_sound [OF s d i Some] Some by fastforce
  next
    case True
    then obtain p it where "rd_item rd = Some p" "rw_items w p = Some it" "ri_mesh it = Some m"
      by (auto simp: mesh_changed_def split: option.splits)
    then show ?thesis
      using s i Some True by (simp add: refresh_item_def fun_upd_idem same_scene_def)
  qed
qed

subsection \<open>The whole round\<close>

lemma Update_vbo_clean:
  assumes d: "driver_maps E" and b: "buffers_ok E w" "rl_mesh_buffers w m = Some b" "rw_vbos w b = Some vb" "rw_files w m = Some f"
    and f: "drawable VF_FULL (mf_meshes f)" and g: "graphics_ok (rw_graphics w)"
  shows "\<exists>updated vb1 gf. Update_vbo (re_packing E) (re_driver E) (rw_files w) vb (rw_graphics w)
        = Some (updated, vb1, gf, (rw_files w)(m \<mapsto> f\<lparr>mf_dirty := False\<rparr>))
      \<and> vb_source vb1 = Some m \<and> vb_format vb1 = VF_FULL \<and> holds_meshes (re_packing E) (mf_meshes f) vb1
      \<and> (\<not> updated \<longrightarrow> vb1 = vb \<and> \<not> mf_dirty f) \<and> graphics_ok gf \<and> more_materials (rw_graphics w) gf
      \<and> (\<forall>g \<in> set (vb_groups vb1). vg_material g = None \<or> has_material gf g)"
proof -
  have vb: "vb_source vb = Some m" "vb_format vb = VF_FULL" "groups_safe w vb" "mf_dirty f \<or> holds_meshes (re_packing E) (mf_meshes f) vb"
    using buffers_okD(2) [OF b(1,2)] b(3,4) by auto
  show ?thesis
  proof (cases "mf_dirty f")
    case True
    then show ?thesis
      using Load_vbo_loads [of vb f "re_driver E" "rw_graphics w" "re_packing E" m] d f vb b(4) g
      by (auto simp: Update_vbo_def driver_maps_def)
  next
    case False
    then have "f\<lparr>mf_dirty := False\<rparr> = f" by simp
    then show ?thesis
      using False vb b(4) g by (intro exI [of _ False] exI [of _ vb]) (simp add: Update_vbo_def fun_upd_idem groups_safe_def)
  qed
qed

text \<open>
  After the mesh of its item is loaded, the item is placed, animated and listed: the objects of the item, the buffer and the
  file change, and the renderable only gets a shader.
\<close>

lemma finish_item:
  assumes s: "sound_with E R w" and d: "driver_maps E" "0 \<le> delta" and i: "R i = Some rd" "rd_mesh rd = Some m" "rd_item rd = Some p"
    and it: "rw_items w p = Some it" "ri_mesh it = Some m"
  obtains b vb1 f gf itf ams w4 where
    "(do { w2 \<leftarrow> update_groups E p w; w3 \<leftarrow> place_item E i rd p w2; animate_item E delta i p w3 }) = Some w4"
    "w4 = w\<lparr>rw_vbos := (rw_vbos w)(b \<mapsto> vb1), rw_graphics := gf, rw_files := (rw_files w)(m \<mapsto> f\<lparr>mf_dirty := False\<rparr>),
        rw_items := (rw_items w)(p \<mapsto> itf), rw_animations := ams\<rparr>"
    "rl_mesh_buffers w m = Some b" "rw_files w m = Some f" "vb_source vb1 = Some m" "vb_format vb1 = VF_FULL"
    "holds_meshes (re_packing E) (mf_meshes f) vb1" "ri_groups itf = vb_groups vb1" "ri_vbo itf = Some b" "ri_mesh itf = Some m"
    "ri_position itf = model_position i rd w" "ri_quat itf = model_quat E i rd w" "ri_scale itf = model_scale i w"
    "\<forall>j a. rw_animation w j = Some a \<longrightarrow> (\<exists>am. ams a = Some am \<and> playable (rw_anims w) am)"
    "graphics_ok gf" "more_materials (rw_graphics w) gf" "\<forall>g \<in> set (vb_groups vb1). vg_material g = None \<or> has_material gf g"
proof -
  obtain b where b: "rl_mesh_buffers w m = Some b" "ri_vbo it = Some b"
    using item_okD [OF sound_withD(2) [OF s i(1)] i(3)] it by (metis option.inject)
  obtain vb f where vb: "rw_vbos w b = Some vb" "rw_files w m = Some f"
    using buffers_okD(2) [OF sound_withD(1) [OF s] b(1)] by blast
  have f: "drawable VF_FULL (mf_meshes f)"
    using sound_withD(4) [OF s] i vb(2) unfolding meshes_ok_def by fastforce
  obtain updated vb1 gf where u: "Update_vbo (re_packing E) (re_driver E) (rw_files w) vb (rw_graphics w)
        = Some (updated, vb1, gf, (rw_files w)(m \<mapsto> f\<lparr>mf_dirty := False\<rparr>))"
    "vb_source vb1 = Some m" "vb_format vb1 = VF_FULL" "holds_meshes (re_packing E) (mf_meshes f) vb1"
    "\<not> updated \<longrightarrow> vb1 = vb \<and> \<not> mf_dirty f" "graphics_ok gf" "more_materials (rw_graphics w) gf"
    "\<forall>g \<in> set (vb_groups vb1). vg_material g = None \<or> has_material gf g"
    using Update_vbo_clean [OF d(1) sound_withD(1) [OF s] b(1) vb f sound_withD(8) [OF s]] by blast
  define ita where "ita = it\<lparr>ri_groups := vb_groups vb1\<rparr>"
  have "(if updated then it\<lparr>ri_groups := vb_groups vb1\<rparr> else it) = ita"
    using u(5) groups_okD [OF sound_withD(3) [OF s i(1)] i(3) it(1) i(2) it(2) b(1) vb] by (auto simp: ita_def)
  then have ug: "update_groups E p w = Some (w\<lparr>rw_vbos := (rw_vbos w)(b \<mapsto> vb1), rw_graphics := gf,
      rw_files := (rw_files w)(m \<mapsto> f\<lparr>mf_dirty := False\<rparr>), rw_items := (rw_items w)(p \<mapsto> ita)\<rparr>)"
    by (simp add: update_groups_def it(1) b(2) vb(1) u(1))
  define itb where "itb = ita\<lparr>ri_position := model_position i rd w, ri_quat := model_quat E i rd w, ri_scale := model_scale i w\<rparr>"
  let ?w3 = "w\<lparr>rw_vbos := (rw_vbos w)(b \<mapsto> vb1), rw_graphics := gf, rw_files := (rw_files w)(m \<mapsto> f\<lparr>mf_dirty := False\<rparr>),
      rw_items := (rw_items w)(p \<mapsto> itb)\<rparr>"
  have w3: "(do { w2 \<leftarrow> update_groups E p w; place_item E i rd p w2 }) = Some ?w3"
    by (simp add: ug place_item_def itb_def model_position_def model_quat_def model_scale_def)
  have itb: "ri_groups itb = vb_groups vb1" "ri_vbo itb = Some b" "ri_mesh itb = Some m" "ri_position itb = model_position i rd w"
    "ri_quat itb = model_quat E i rd w" "ri_scale itb = model_scale i w"
    using b(2) it(2) by (simp_all add: itb_def ita_def)
  show thesis
  proof (cases "rw_animation w i")
    case None
    have w4: "(do { w2 \<leftarrow> update_groups E p w; w3 \<leftarrow> place_item E i rd p w2; animate_item E delta i p w3 }) = Some (?w3\<lparr>rw_animations := rw_animations w\<rparr>)"
      using w3 None by (auto simp: animate_item_def bind_eq_Some_conv)
    show ?thesis
      by (rule that [OF w4 _ b(1) vb(2) u(2-4) itb _ u(6-8)]) (use sound_withD(7) [OF s] in \<open>simp_all add: anims_ok_def\<close>)
  next
    case (Some a)
    obtain am where am: "rw_animations w a = Some am" "playable (rw_anims w) am"
      using sound_withD(7) [OF s] Some unfolding anims_ok_def by blast
    obtain am1 where am1: "UpdateAnimation (re_glm E) (rw_anims w) delta am = Some am1" "playable (rw_anims w) am1"
      using UpdateAnimation_playable [OF am(2) d(2)] by blast
    let ?it = "if am_bones am1 \<noteq> [] then itb\<lparr>ri_animated := True, ri_animation := Some a\<rparr> else itb"
    have w4: "(do { w2 \<leftarrow> update_groups E p w; w3 \<leftarrow> place_item E i rd p w2; animate_item E delta i p w3 })
      = Some (?w3\<lparr>rw_items := (rw_items w)(p \<mapsto> ?it), rw_animations := (rw_animations w)(a \<mapsto> am1)\<rparr>)"
      using w3 Some am(1) am1(1) by (auto simp: animate_item_def bind_eq_Some_conv)
    show ?thesis
      by (rule that [where itf = ?it and ams = "(rw_animations w)(a \<mapsto> am1)", OF w4 _ b(1) vb(2) u(2-4) _ _ _ _ _ _ _ u(6-8)])
        (use sound_withD(7) [OF s] am1(2) itb in \<open>auto simp: anims_ok_def\<close>)
  qed
qed

text \<open>The components and views that a round leaves alone.\<close>

definition contents :: "render_world \<Rightarrow> nat \<Rightarrow> real mesh list option" where
  "contents w m = map_option mf_meshes (rw_files w m)"

definition same_components :: "render_world \<Rightarrow> render_world \<Rightarrow> bool" where
  "same_components w w1 \<longleftrightarrow> rw_views w1 = rw_views w \<and> rw_position w1 = rw_position w \<and> rw_orientation w1 = rw_orientation w
     \<and> rw_scale w1 = rw_scale w \<and> rw_animation w1 = rw_animation w \<and> rw_anims w1 = rw_anims w \<and> rw_shaders w1 = rw_shaders w
     \<and> rl_default_shader w1 = rl_default_shader w \<and> rl_current_view w1 = rl_current_view w
     \<and> gf_textures (rw_graphics w1) = gf_textures (rw_graphics w) \<and> contents w1 = contents w"

definition listed :: "render_world \<Rightarrow> nat set" where
  "listed w = {p. \<exists>s. p \<in> om_get {} s (rl_render_items w)}"

lemma update_renderable_hidden:
  "map_of (rw_renderables w) i = Some rd \<Longrightarrow> rd_hidden rd \<Longrightarrow> update_renderable E delta i w = Some w"
  by (simp add: update_renderable_def)

lemma update_renderable_no_mesh:
  assumes s: "render_sound E w" and d: "driver_maps E" and i: "map_of (rw_renderables w) i = Some rd" "\<not> rd_hidden rd" "rd_mesh rd = None"
  shows "\<exists>w1. update_renderable E delta i w = Some w1 \<and> render_sound E w1 \<and> same_components w w1 \<and> rl_render_items w1 = rl_render_items w
    \<and> map_of (rw_renderables w1) = (map_of (rw_renderables w))(i \<mapsto> rd\<lparr>rd_item := None\<rparr>)
    \<and> (\<forall>j rd'. j \<noteq> i \<and> map_of (rw_renderables w) j = Some rd' \<and> shown E w j rd' \<longrightarrow> shown E w1 j rd')"
proof -
  have s': "wf_omap (rw_renderables w)" "wf_omap (rl_render_items w)" "sound_with E (map_of (rw_renderables w)) w"
    using s by (simp_all add: render_sound_def)
  obtain rd1 w1 where r: "refresh_item E rd w = Some (rd1, w1)" "sound_with E ((map_of (rw_renderables w))(i \<mapsto> rd1)) w1"
    "\<forall>j rd'. j \<noteq> i \<and> map_of (rw_renderables w) j = Some rd' \<and> shown E w j rd' \<longrightarrow> shown E w1 j rd'" "same_scene w w1"
    "rd1 = rd\<lparr>rd_item := rd_item rd1\<rparr>" "rd_item rd1 = None"
    using refresh_item_sound [OF s'(3) d i(1)] i(3) by auto
  let ?w = "put_renderable i rd1 w1"
  have same: "rw_renderables w1 = rw_renderables w" "rl_render_items w1 = rl_render_items w"
    using r(4) by (simp_all add: same_scene_def)
  have fields: "sound_with E R ?w = sound_with E R w1" "shown E ?w j rd' = shown E w1 j rd'" for R j rd'
    by (simp_all add: put_renderable_def sound_with_def buffers_ok_def groups_safe_def item_ok_def groups_ok_def meshes_ok_def anims_ok_def shown_def
        model_position_def model_quat_def model_scale_def)
  have "rd1 = rd\<lparr>rd_item := None\<rparr>"
    using r(5,6) by simp
  then have "map_of (rw_renderables ?w) = (map_of (rw_renderables w))(i \<mapsto> rd\<lparr>rd_item := None\<rparr>)"
    by (simp add: put_renderable_def same s'(1))
  moreover have "render_sound E ?w"
    unfolding render_sound_def fields using s'(1,2) r(2) by (simp add: put_renderable_def same wf_om_put)
  moreover have "same_components w ?w" "rl_render_items ?w = rl_render_items w"
    using r(4) by (simp_all add: put_renderable_def same_scene_def same_components_def contents_def fun_eq_iff)
  moreover have "update_renderable E delta i w = Some ?w"
    using i r(1,6) by (simp add: update_renderable_def)
  ultimately show ?thesis
    using r(3) fields(2) by blast
qed

text \<open>Loading the mesh of one renderable again, which no other has, leaves the others alone.\<close>

lemma own_mesh_change:
  assumes s: "sound_with E R w" and i: "R i = Some rd" "rd_mesh rd = Some m" "rd_item rd = Some p" "rd_mesh rd1 = Some m" "rd_item rd1 = Some p"
    and w1: "w1 = w\<lparr>rw_vbos := (rw_vbos w)(b \<mapsto> vb), rw_graphics := gf, rw_files := (rw_files w)(m \<mapsto> f1),
        rw_items := (rw_items w)(p \<mapsto> it), rw_animations := ams, rw_renderables := rs, rl_render_items := l\<rparr>"
    and b: "rl_mesh_buffers w m = Some b" "rw_files w m = Some f" "mf_meshes f1 = mf_meshes f"
    and vb: "vb_source vb = Some m" "vb_format vb = VF_FULL" "holds_meshes (re_packing E) (mf_meshes f) vb"
    and it: "ri_groups it = vb_groups vb" "ri_vbo it = Some b" "ri_mesh it = Some m"
      "ri_position it = model_position i rd1 w" "ri_quat it = model_quat E i rd1 w" "ri_scale it = model_scale i w"
    and ams: "\<forall>j a. rw_animation w j = Some a \<longrightarrow> (\<exists>am. ams a = Some am \<and> playable (rw_anims w) am)"
    and g: "graphics_ok gf" "more_materials (rw_graphics w) gf" "\<forall>g \<in> set (vb_groups vb). vg_material g = None \<or> has_material gf g"
    and l: "\<And>s. om_get {} s (rl_render_items w) \<subseteq> om_get {} s l" "p \<in> om_get {} (rd_shader rd1) l"
  shows "sound_with E (R(i \<mapsto> rd1)) w1 \<and> shown E w1 i rd1 \<and> (\<forall>j rd'. j \<noteq> i \<and> R j = Some rd' \<and> shown E w j rd' \<longrightarrow> shown E w1 j rd')"
proof -
  have own: "q \<noteq> p" if "j \<noteq> i" "R j = Some rd'" "rd_item rd' = Some q" for j rd' q
    using unsharedD [OF sound_withD(6) [OF s] i(1) that(2) i(3) that(1)] that(3) by blast
  have mine: "n \<noteq> m" if "j \<noteq> i" "R j = Some rd'" "rd_mesh rd' = Some n" for j rd' n
    using unsharedD [OF sound_withD(5) [OF s] i(1) that(2) i(2) that(1)] that(3) by blast
  have buf: "c \<noteq> b" if "n \<noteq> m" "rl_mesh_buffers w n = Some c" for n c
    using buffers_okD(3) [OF sound_withD(1) [OF s] b(1)] that by blast
  have look: "rw_items w1 q = rw_items w q" "rw_files w1 n = rw_files w n" "rw_vbos w1 c = rw_vbos w c" if "q \<noteq> p" "n \<noteq> m" "c \<noteq> b" for q n c
    using that by (simp_all add: w1)
  have bo: "buffers_ok E w1"
    unfolding buffers_ok_def
  proof (intro conjI allI impI)
    fix n c assume n: "rl_mesh_buffers w1 n = Some c"
    then have n': "rl_mesh_buffers w n = Some c" by (simp add: w1)
    show "c < rw_next_vbo w1"
      using buffers_okD(1) [OF sound_withD(1) [OF s] n'] by (simp add: w1)
    show "\<exists>vb f. rw_vbos w1 c = Some vb \<and> rw_files w1 n = Some f \<and> vb_source vb = Some n \<and> vb_format vb = VF_FULL
      \<and> vb_groups vb \<noteq> [] \<and> groups_safe w1 vb \<and> (mf_dirty f \<or> holds_meshes (re_packing E) (mf_meshes f) vb)"
    proof (cases "n = m")
      case True
      then show ?thesis using n' b vb g(3) holds_meshes_groups [OF vb(3)] by (simp add: w1 groups_safe_def)
    next
      case False
      then show ?thesis
        using buffers_okD(2) [OF sound_withD(1) [OF s] n'] buf [OF False n'] groups_safe_more [of w _ w1] g(2) by (fastforce simp: w1)
    qed
  next
    fix n k c assume "rl_mesh_buffers w1 n = Some c \<and> rl_mesh_buffers w1 k = Some c"
    then show "n = k"
      using buffers_okD(3) [OF sound_withD(1) [OF s]] by (simp add: w1)
  qed
  have io: "item_ok w1 rd'" if j: "j \<noteq> i" "R j = Some rd'" for j rd'
    using sound_withD(2) [OF s j(2)] own [OF j] by (auto simp: item_ok_def w1)
  have go: "groups_ok w1 rd'" if j: "j \<noteq> i" "R j = Some rd'" for j rd'
    unfolding groups_ok_def
  proof (intro allI impI, elim conjE)
    fix q t n c v h assume a: "rd_item rd' = Some q" "rw_items w1 q = Some t" "rd_mesh rd' = Some n" "ri_mesh t = Some n"
      "rl_mesh_buffers w1 n = Some c" "rw_vbos w1 c = Some v" "rw_files w1 n = Some h"
    have c: "rl_mesh_buffers w n = Some c" using a(5) by (simp add: w1)
    note d = own [OF j a(1)] mine [OF j a(3)] buf [OF mine [OF j a(3)] c]
    show "mf_dirty h \<or> ri_groups t = vb_groups v"
      using groups_okD [OF sound_withD(3) [OF s j(2)] a(1) _ a(3,4) c] a(2,6,7) look [OF d] by simp
  qed
  have sh: "shown E w1 j rd'" if j: "j \<noteq> i" "R j = Some rd'" and h: "shown E w j rd'" for j rd'
  proof -
    obtain q t n c v h where a: "rd_item rd' = Some q" "rw_items w q = Some t" "rd_mesh rd' = Some n" "ri_mesh t = Some n" "ri_vbo t = Some c"
      "rl_mesh_buffers w n = Some c" "rw_vbos w c = Some v" "rw_files w n = Some h"
      "vb_format v = VF_FULL" "holds_meshes (re_packing E) (mf_meshes h) v" "ri_groups t = vb_groups v"
      "ri_position t = model_position j rd' w" "ri_quat t = model_quat E j rd' w" "ri_scale t = model_scale j w"
      "q \<in> om_get {} (rd_shader rd') (rl_render_items w)"
      using h unfolding shown_def by blast
    note d = own [OF j a(1)] mine [OF j a(3)] buf [OF mine [OF j a(3)] a(6)]
    have "q \<in> om_get {} (rd_shader rd') (rl_render_items w1)" "rl_mesh_buffers w1 n = Some c"
      "model_position j rd' w1 = model_position j rd' w" "model_quat E j rd' w1 = model_quat E j rd' w" "model_scale j w1 = model_scale j w"
      using a(6,15) l(1) by (auto simp: w1 model_position_def model_quat_def model_scale_def)
    then show ?thesis
      unfolding shown_def using a look [OF d] by metis
  qed
  have "item_ok w1 rd1"
    using item_okD [OF sound_withD(2) [OF s i(1)] i(3)] i(5) it(2,3) b(1) by (fastforce simp: item_ok_def w1)
  moreover have "groups_ok w1 rd1"
    using i(4,5) it(1,3) b(1) by (auto simp: groups_ok_def w1)
  moreover have "meshes_ok (R(i \<mapsto> rd1)) w1"
  proof -
    have "\<exists>f'. rw_files w1 n = Some f' \<and> drawable VF_FULL (mf_meshes f')" if "\<exists>f. rw_files w n = Some f \<and> drawable VF_FULL (mf_meshes f)" for n
      using that b(2,3) by (cases "n = m") (auto simp: w1)
    then show ?thesis
      using sound_withD(4) [OF s] i(1,2,4) unfolding meshes_ok_def by (auto simp: fun_upd_def)
  qed
  moreover have "unshared rd_mesh (R(i \<mapsto> rd1))"
    by (rule unshared_upd [OF sound_withD(5) [OF s]]) (use mine i(4) in auto)
  moreover have "unshared rd_item (R(i \<mapsto> rd1))"
    by (rule unshared_upd [OF sound_withD(6) [OF s]]) (use own i(5) in auto)
  moreover have "anims_ok w1" "graphics_ok (rw_graphics w1)"
    using ams g(1) by (simp_all add: anims_ok_def w1)
  ultimately have "sound_with E (R(i \<mapsto> rd1)) w1"
    unfolding sound_with_def using bo io go by (auto simp: fun_upd_def)
  moreover have "shown E w1 i rd1"
    using i(4,5) it b vb l(2) by (simp add: shown_def w1 model_position_def model_quat_def model_scale_def)
  ultimately show ?thesis
    using sh by blast
qed

lemma update_renderable_mesh:
  assumes s: "render_sound E w" and d: "driver_maps E" "0 \<le> delta"
    and i: "map_of (rw_renderables w) i = Some rd" "\<not> rd_hidden rd" "rd_mesh rd = Some m"
  shows "\<exists>w1 rd1 p. update_renderable E delta i w = Some w1 \<and> render_sound E w1 \<and> same_components w w1
    \<and> map_of (rw_renderables w1) = (map_of (rw_renderables w))(i \<mapsto> rd1) \<and> rd_hidden rd1 = rd_hidden rd \<and> rd_mesh rd1 = Some m \<and> rd_item rd1 = Some p
    \<and> shown E w1 i rd1 \<and> rl_render_items w1 = om_put (rd_shader rd1) (insert p (om_get {} (rd_shader rd1) (rl_render_items w))) (rl_render_items w)
    \<and> (\<forall>j rd'. j \<noteq> i \<and> map_of (rw_renderables w) j = Some rd' \<and> shown E w j rd' \<longrightarrow> shown E w1 j rd')"
proof -
  let ?R = "map_of (rw_renderables w)"
  have s': "wf_omap (rw_renderables w)" "wf_omap (rl_render_items w)" "sound_with E ?R w"
    using s by (simp_all add: render_sound_def)
  obtain rd1 w1 p it where r: "refresh_item E rd w = Some (rd1, w1)" "sound_with E (?R(i \<mapsto> rd1)) w1"
    "\<forall>j rd'. j \<noteq> i \<and> ?R j = Some rd' \<and> shown E w j rd' \<longrightarrow> shown E w1 j rd'" "same_scene w w1"
    "rd1 = rd\<lparr>rd_item := rd_item rd1\<rparr>" "rd_item rd1 = Some p" "rw_items w1 p = Some it" "ri_mesh it = Some m"
    using refresh_item_sound [OF s'(3) d(1) i(1)] i(3) by auto
  have m1: "rd_mesh rd1 = Some m"
    using r(5) i(3) by (metis renderable.select_convs(3) renderable.surjective renderable.update_convs(1))
  have i1: "(?R(i \<mapsto> rd1)) i = Some rd1" by simp
  obtain b vb f gf itf ams w4 where f:
    "(do { w2 \<leftarrow> update_groups E p w1; w3 \<leftarrow> place_item E i rd1 p w2; animate_item E delta i p w3 }) = Some w4"
    "w4 = w1\<lparr>rw_vbos := (rw_vbos w1)(b \<mapsto> vb), rw_graphics := gf, rw_files := (rw_files w1)(m \<mapsto> f\<lparr>mf_dirty := False\<rparr>),
        rw_items := (rw_items w1)(p \<mapsto> itf), rw_animations := ams\<rparr>"
    "rl_mesh_buffers w1 m = Some b" "rw_files w1 m = Some f" "vb_source vb = Some m" "vb_format vb = VF_FULL"
    "holds_meshes (re_packing E) (mf_meshes f) vb" "ri_groups itf = vb_groups vb" "ri_vbo itf = Some b" "ri_mesh itf = Some m"
    "ri_position itf = model_position i rd1 w1" "ri_quat itf = model_quat E i rd1 w1" "ri_scale itf = model_scale i w1"
    "\<forall>j a. rw_animation w1 j = Some a \<longrightarrow> (\<exists>am. ams a = Some am \<and> playable (rw_anims w1) am)"
    "graphics_ok gf" "more_materials (rw_graphics w1) gf" "\<forall>g \<in> set (vb_groups vb). vg_material g = None \<or> has_material gf g"
    by (rule finish_item [OF r(2) d i1 m1 r(6-8)])
  define rd2 where "rd2 = default_shading w4 rd1"
  define w5 where "w5 = list_item (rd_shader rd2) p (put_renderable i rd2 w4)"
  have rd2: "rd_mesh rd2 = Some m" "rd_item rd2 = Some p" "rd_hidden rd2 = rd_hidden rd1" "rd_translation rd2 = rd_translation rd1" "rd_orientation rd2 = rd_orientation rd1"
    using m1 r(6) by (simp_all add: rd2_def default_shading_def)
  have same: "rw_renderables w1 = rw_renderables w" "rl_render_items w1 = rl_render_items w"
    using r(4) by (simp_all add: same_scene_def)
  let ?rs = "om_put i rd2 (rw_renderables w)"
  let ?l = "om_put (rd_shader rd2) (insert p (om_get {} (rd_shader rd2) (rl_render_items w))) (rl_render_items w)"
  have w5: "w5 = w1\<lparr>rw_vbos := (rw_vbos w1)(b \<mapsto> vb), rw_graphics := gf, rw_files := (rw_files w1)(m \<mapsto> f\<lparr>mf_dirty := False\<rparr>),
        rw_items := (rw_items w1)(p \<mapsto> itf), rw_animations := ams, rw_renderables := ?rs, rl_render_items := ?l\<rparr>"
    by (simp add: w5_def list_item_def put_renderable_def f(2) same)
  have models: "model_position i rd2 w1 = model_position i rd1 w1" "model_quat E i rd2 w1 = model_quat E i rd1 w1"
    by (simp_all add: model_position_def model_quat_def rd2 split: option.split)
  have change: "sound_with E (?R(i \<mapsto> rd1, i \<mapsto> rd2)) w5 \<and> shown E w5 i rd2
      \<and> (\<forall>j rd'. j \<noteq> i \<and> (?R(i \<mapsto> rd1)) j = Some rd' \<and> shown E w1 j rd' \<longrightarrow> shown E w5 j rd')"
    by (rule own_mesh_change [OF r(2) i1 m1 r(6) rd2(1,2) w5 f(3,4) _ f(5-10) _ _ f(13-17)])
      (use f(11,12) models s'(2) same in auto)
  have "update_renderable E delta i w = Some w5"
    using i r(1,6) f(1) by (auto simp: update_renderable_def bind_eq_Some_conv Let_def w5_def rd2_def)
  moreover have "map_of (rw_renderables w5) = ?R(i \<mapsto> rd2)" "rl_render_items w5 = ?l"
    by (simp_all add: w5 s'(1))
  moreover have "render_sound E w5"
    using change s'(1,2) by (simp add: render_sound_def w5 wf_om_put)
  moreover have "same_components w w5"
    using r(4) f(4,16) by (simp add: same_components_def same_scene_def w5 more_materials_def contents_def fun_eq_iff)
  moreover have "rd_hidden rd2 = rd_hidden rd"
    using rd2(3) r(5) by (metis renderable.select_convs(8) renderable.surjective renderable.update_convs(1))
  ultimately show ?thesis
    using change r(3) rd2(1,2) by (intro exI [of _ w5] exI [of _ rd2] exI [of _ p]) auto
qed

subsection \<open>All renderables\<close>

lemma each_prefixes:
  assumes "distinct xs" and "P [] s"
    and "\<And>ys x s. x \<in> set xs \<Longrightarrow> x \<notin> set ys \<Longrightarrow> P ys s \<Longrightarrow> \<exists>s1. f x s = Some s1 \<and> P (ys @ [x]) s1"
  shows "\<exists>s1. each f xs s = Some s1 \<and> P xs s1"
  using assms
proof (induction xs rule: rev_induct)
  case (snoc x xs)
  then obtain s1 where s1: "each f xs s = Some s1" "P xs s1" by fastforce
  obtain s2 where "f x s1 = Some s2" "P (xs @ [x]) s2"
    using snoc.prems(3) [of x xs s1] s1(2) snoc.prems(1) by auto
  then show ?case
    using s1(1) by (simp add: each_snoc)
qed simp

text \<open>What a renderable asks for, and whether it is to be drawn.\<close>

definition wish :: "renderable option \<Rightarrow> (bool \<times> nat option) option" where
  "wish = map_option (\<lambda>rd. (rd_hidden rd, rd_mesh rd))"

definition visible :: "renderable \<Rightarrow> bool" where
  "visible rd \<longleftrightarrow> \<not> rd_hidden rd \<and> rd_mesh rd \<noteq> None"

definition items_of :: "eid set \<Rightarrow> (eid \<rightharpoonup> renderable) \<Rightarrow> nat set" where
  "items_of S R = {p. \<exists>j rd. j \<in> S \<and> R j = Some rd \<and> visible rd \<and> rd_item rd = Some p}"

definition round_done :: "render_env \<Rightarrow> render_world \<Rightarrow> eid list \<Rightarrow> render_world \<Rightarrow> bool" where
  "round_done E w0 ids w \<longleftrightarrow> render_sound E w \<and> same_components w0 w \<and> (\<forall>j. wish (map_of (rw_renderables w) j) = wish (map_of (rw_renderables w0) j))
     \<and> (\<forall>j rd. j \<in> set ids \<and> map_of (rw_renderables w) j = Some rd \<and> visible rd \<longrightarrow> shown E w j rd)
     \<and> listed w = items_of (set ids) (map_of (rw_renderables w))"

lemma same_components_trans: "same_components u v \<Longrightarrow> same_components v w \<Longrightarrow> same_components u w"
  by (simp add: same_components_def)

lemma items_of_upd:
  assumes "i \<notin> S"
  shows "items_of (insert i S) (R(i \<mapsto> rd)) = items_of S R \<union> {p. visible rd \<and> rd_item rd = Some p}"
  using assms by (auto simp: items_of_def)

lemma listed_put:
  assumes "wf_omap (rl_render_items w)" and "rl_render_items w1 = om_put s (insert p (om_get {} s (rl_render_items w))) (rl_render_items w)"
  shows "listed w1 = insert p (listed w)"
  using assms by (auto simp: listed_def)

lemma round_step:
  assumes d: "driver_maps E" "0 \<le> delta" and r: "round_done E w0 ids w" and i: "i \<in> dom (map_of (rw_renderables w0))" "i \<notin> set ids"
  shows "\<exists>w1. update_renderable E delta i w = Some w1 \<and> round_done E w0 (ids @ [i]) w1"
proof -
  let ?R = "map_of (rw_renderables w)"
  have s: "render_sound E w" "same_components w0 w" "\<And>j. wish (?R j) = wish (map_of (rw_renderables w0) j)"
    "\<And>j rd. j \<in> set ids \<Longrightarrow> ?R j = Some rd \<Longrightarrow> visible rd \<Longrightarrow> shown E w j rd" "listed w = items_of (set ids) ?R"
    using r unfolding round_done_def by blast+
  obtain rd where rd: "?R i = Some rd"
    using i(1) s(3) [of i] by (cases "?R i") (auto simp: wish_def)
  then have upd: "?R(i \<mapsto> rd) = ?R" by auto
  consider (hidden) "rd_hidden rd" | (none) "\<not> rd_hidden rd" "rd_mesh rd = None" | (mesh) m where "\<not> rd_hidden rd" "rd_mesh rd = Some m"
    by blast
  then show ?thesis
  proof cases
    case hidden
    have "items_of (insert i (set ids)) ?R = items_of (set ids) ?R"
      using items_of_upd [OF i(2), of ?R rd] hidden by (simp add: upd visible_def)
    then have "round_done E w0 (ids @ [i]) w"
      using r rd hidden by (auto simp: round_done_def visible_def)
    then show ?thesis
      using update_renderable_hidden [OF rd hidden] by blast
  next
    case none
    obtain w1 where w1: "update_renderable E delta i w = Some w1" "render_sound E w1" "same_components w w1" "rl_render_items w1 = rl_render_items w"
      "map_of (rw_renderables w1) = ?R(i \<mapsto> rd\<lparr>rd_item := None\<rparr>)"
      "\<forall>j rd'. j \<noteq> i \<and> ?R j = Some rd' \<and> shown E w j rd' \<longrightarrow> shown E w1 j rd'"
      using update_renderable_no_mesh [OF s(1) d(1) rd none] by blast
    have "wish (map_of (rw_renderables w1) j) = wish (map_of (rw_renderables w0) j)" for j
      using s(3) [of j] rd by (cases "j = i") (simp_all add: w1(5) wish_def)
    moreover have "shown E w1 j rd'" if "j \<in> set (ids @ [i])" "map_of (rw_renderables w1) j = Some rd'" "visible rd'" for j rd'
      using that none(2) w1(6) s(4) by (cases "j = i") (auto simp: w1(5) visible_def)
    moreover have "listed w1 = items_of (set (ids @ [i])) (map_of (rw_renderables w1))"
      using s(5) items_of_upd [OF i(2), of ?R "rd\<lparr>rd_item := None\<rparr>"] by (simp add: w1(5) listed_def w1(4))
    ultimately show ?thesis
      using w1(1,2) same_components_trans [OF s(2) w1(3)] unfolding round_done_def by blast
  next
    case mesh
    obtain w1 rd1 p where w1: "update_renderable E delta i w = Some w1" "render_sound E w1" "same_components w w1"
      "map_of (rw_renderables w1) = ?R(i \<mapsto> rd1)" "rd_hidden rd1 = rd_hidden rd" "rd_mesh rd1 = Some m" "rd_item rd1 = Some p" "shown E w1 i rd1"
      "rl_render_items w1 = om_put (rd_shader rd1) (insert p (om_get {} (rd_shader rd1) (rl_render_items w))) (rl_render_items w)"
      "\<forall>j rd'. j \<noteq> i \<and> ?R j = Some rd' \<and> shown E w j rd' \<longrightarrow> shown E w1 j rd'"
      using update_renderable_mesh [OF s(1) d rd mesh] by blast
    have "wish (map_of (rw_renderables w1) j) = wish (map_of (rw_renderables w0) j)" for j
      using s(3) [of j] rd mesh(2) w1(5,6) by (cases "j = i") (simp_all add: w1(4) wish_def)
    moreover have "shown E w1 j rd'" if "j \<in> set (ids @ [i])" "map_of (rw_renderables w1) j = Some rd'" "visible rd'" for j rd'
      using that w1(8,10) s(4) by (cases "j = i") (auto simp: w1(4))
    moreover have "listed w1 = items_of (set (ids @ [i])) (map_of (rw_renderables w1))"
      using s(5) items_of_upd [OF i(2), of ?R rd1] listed_put [OF _ w1(9)] s(1) mesh(1) w1(5-7)
      by (auto simp: w1(4) visible_def render_sound_def)
    ultimately show ?thesis
      using w1(1,2) same_components_trans [OF s(2) w1(3)] unfolding round_done_def by blast
  qed
qed

lemma start_list_done:
  assumes "render_sound E w"
  shows "round_done E (start_list w) [] (start_list w)"
proof -
  have "sound_with E R (start_list w) = sound_with E R w" for R
    by (simp add: start_list_def sound_with_def buffers_ok_def groups_safe_def item_ok_def groups_ok_def meshes_ok_def anims_ok_def)
  then have "render_sound E (start_list w)"
    using assms by (simp add: render_sound_def) (simp add: start_list_def)
  then show ?thesis
    by (simp add: round_done_def same_components_def items_of_def listed_def start_list_def om_get_def)
qed

text \<open>The views change nothing that the list shows.\<close>

lemma update_views_frame:
  "\<exists>vs c. fold (update_view E) ivs w = w\<lparr>rw_views := vs, rl_current_view := c\<rparr>"
proof (induction ivs arbitrary: w)
  case Nil
  have "w = w\<lparr>rw_views := rw_views w, rl_current_view := rl_current_view w\<rparr>" by simp
  then show ?case by (metis fold_simps(1))
next
  case (Cons iv ivs)
  obtain vs c where v: "update_view E iv w = w\<lparr>rw_views := vs, rl_current_view := c\<rparr>"
  proof (cases iv)
    case (Pair i v)
    define u where "u = (let v1 = (case rw_position w i of None \<Rightarrow> v | Some p \<Rightarrow> v\<lparr>vi_pos := vec_neg p\<rparr>)
      in case rw_orientation w i of None \<Rightarrow> v1 | Some q \<Rightarrow> v1\<lparr>vi_quat := re_inverse E q\<rparr>)"
    have "update_view E iv w = w\<lparr>rw_views := om_put i u (rw_views w), rl_current_view := (if vi_active u then Some u else rl_current_view w)\<rparr>"
      by (simp add: Pair update_view_def u_def Let_def)
    then show ?thesis
      by (rule that)
  qed
  show ?case
    using Cons.IH [of "update_view E iv w"] by (auto simp: v)
qed

lemma views_keep:
  "render_sound E (w\<lparr>rw_views := vs, rl_current_view := c\<rparr>) = render_sound E w"
  "shown E (w\<lparr>rw_views := vs, rl_current_view := c\<rparr>) j rd = shown E w j rd"
  "listed (w\<lparr>rw_views := vs, rl_current_view := c\<rparr>) = listed w"
  by (simp_all add: render_sound_def sound_with_def buffers_ok_def groups_safe_def item_ok_def groups_ok_def meshes_ok_def anims_ok_def shown_def listed_def
      model_position_def model_quat_def model_scale_def)

lemma UpdateRenderList_sound:
  assumes "render_sound E w" and "driver_maps E" and "0 \<le> delta"
  shows "\<exists>w1. UpdateRenderList E delta w = Some w1 \<and> render_sound E w1
    \<and> (\<forall>j. wish (map_of (rw_renderables w1) j) = wish (map_of (rw_renderables w) j))
    \<and> (\<forall>j rd. map_of (rw_renderables w1) j = Some rd \<and> visible rd \<longrightarrow> shown E w1 j rd)
    \<and> listed w1 = items_of UNIV (map_of (rw_renderables w1))
    \<and> rw_shaders w1 = rw_shaders w \<and> gf_textures (rw_graphics w1) = gf_textures (rw_graphics w) \<and> contents w1 = contents w"
proof -
  let ?ids = "om_keys (rw_renderables w)"
  have wf: "wf_omap (rw_renderables w)"
    using assms(1) by (simp add: render_sound_def)
  have rs: "rw_renderables (start_list w) = rw_renderables w"
    by (simp add: start_list_def)
  have ids: "set ?ids = dom (map_of (rw_renderables w))"
    by (rule set_om_keys)
  obtain w1 where w1: "each (update_renderable E delta) ?ids (start_list w) = Some w1" "round_done E (start_list w) ?ids w1"
    using each_prefixes [where P = "round_done E (start_list w)" and f = "update_renderable E delta", OF distinct_om_keys [OF wf] start_list_done [OF assms(1)]]
      round_step [OF assms(2,3)] rs ids by metis
  obtain vs c where v: "fold (update_view E) (rw_views w1) w1 = w1\<lparr>rw_views := vs, rl_current_view := c\<rparr>"
    using update_views_frame by blast
  have r: "render_sound E w1" "\<And>j. wish (map_of (rw_renderables w1) j) = wish (map_of (rw_renderables w) j)"
    "\<And>j rd. j \<in> set ?ids \<Longrightarrow> map_of (rw_renderables w1) j = Some rd \<Longrightarrow> visible rd \<Longrightarrow> shown E w1 j rd"
    "listed w1 = items_of (set ?ids) (map_of (rw_renderables w1))"
    using w1(2) rs unfolding round_done_def by auto
  have "rw_shaders w1 = rw_shaders w" "gf_textures (rw_graphics w1) = gf_textures (rw_graphics w)" "contents w1 = contents w"
    using w1(2) unfolding round_done_def same_components_def by (simp_all add: start_list_def contents_def fun_eq_iff)
  note comps = this
  have all: "j \<in> set ?ids" if "map_of (rw_renderables w1) j = Some rd" for j rd
    using r(2) [of j] that ids by (auto simp: wish_def)
  have "items_of (set ?ids) (map_of (rw_renderables w1)) = items_of UNIV (map_of (rw_renderables w1))"
    using all by (auto simp: items_of_def)
  moreover have "UpdateRenderList E delta w = Some (w1\<lparr>rw_views := vs, rl_current_view := c\<rparr>)"
    by (simp add: UpdateRenderList_def w1(1) v)
  ultimately show ?thesis
    using r all comps by (intro exI [of _ "w1\<lparr>rw_views := vs, rl_current_view := c\<rparr>"]) (simp add: views_keep contents_def fun_eq_iff)
qed


subsection \<open>What goes wrong\<close>

text \<open>If two items show the same buffer and its mesh changes, the first of them that is updated gets the new
  groups and marks the mesh as clean; the second keeps its old groups, although the buffer
  holds the new mesh, and so it stays.
\<close>

theorem shared_mesh_stale:
  assumes "rw_items w p = Some it" and "rw_items w q = Some it'" and "p \<noteq> q" and "ri_vbo it = Some b" and "ri_vbo it' = Some b"
    and "rw_vbos w b = Some vb" and "vb_source vb = Some m" and "rw_files w m = Some f" and "mf_dirty f"
    and "drawable (vb_format vb) (mf_meshes f)" and "driver_maps E" and "graphics_ok (rw_graphics w)"
  shows "\<exists>w1 vb1. (do { w1 \<leftarrow> update_groups E p w; update_groups E q w1 }) = Some w1 \<and> rw_vbos w1 b = Some vb1
    \<and> holds_meshes (re_packing E) (mf_meshes f) vb1 \<and> map_option ri_groups (rw_items w1 p) = Some (vb_groups vb1)
    \<and> rw_items w1 q = Some it' \<and> update_groups E q w1 = Some w1"
proof -
  obtain vb1 gf where l: "Load_vbo (re_packing E) (re_driver E) m f vb (rw_graphics w) = Some (True, vb1, gf)"
    "holds_meshes (re_packing E) (mf_meshes f) vb1" "vb_source vb1 = Some m"
    using Load_vbo_loads [of vb f "re_driver E" "rw_graphics w" "re_packing E" m] assms(10-12) by (auto simp: driver_maps_def)
  define w1 where "w1 = w\<lparr>rw_vbos := (rw_vbos w)(b \<mapsto> vb1), rw_graphics := gf, rw_files := (rw_files w)(m \<mapsto> f\<lparr>mf_dirty := False\<rparr>),
    rw_items := (rw_items w)(p \<mapsto> it\<lparr>ri_groups := vb_groups vb1\<rparr>)\<rparr>"
  have "update_groups E p w = Some w1"
    using assms l(1) by (simp add: update_groups_def Update_vbo_def w1_def)
  moreover have "update_groups E q w1 = Some w1"
    using assms(2,3,5) l(3) by (auto simp: update_groups_def Update_vbo_def w1_def fun_upd_twist fun_upd_idem)
  ultimately show ?thesis
    using assms(2,3) l(2) by (intro exI [of _ w1] exI [of _ vb1]) (simp add: w1_def)
qed

text \<open>A mesh that has no vertex or no index when it is first drawn gets a buffer without groups, and
  is never drawn by this buffer, whatever is put into the mesh later: nothing loads it again.
\<close>

theorem empty_mesh_never_drawn:
  assumes "wf_omap (rw_renderables w)" and "map_of (rw_renderables w) i = Some rd" and "\<not> rd_hidden rd" and "rd_item rd = None" and "rd_mesh rd = Some m"
    and "rl_mesh_buffers w m = None" and "rw_files w m = Some f" and "all_vertices (mf_meshes f) = 0 \<or> all_indices (mf_meshes f) = 0"
  shows "\<exists>w1 b. update_renderable E delta i w = Some w1 \<and> rl_mesh_buffers w1 m = Some b
    \<and> (\<forall>f1 w2. update_renderable E delta i (w1\<lparr>rw_files := (rw_files w1)(m \<mapsto> f1)\<rparr>) = Some w2 \<longrightarrow>
         rw_vbos w2 = rw_vbos w1 \<and> rl_render_items w2 = rl_render_items w \<and> map_of (rw_renderables w2) i = Some rd)"
proof -
  let ?b = "rw_next_vbo w"
  have "Load_vbo (re_packing E) (re_driver E) m f (new_vbo VF_FULL) (rw_graphics w)
      = Some (False, (new_vbo VF_FULL)\<lparr>vb_source := Some m, vb_groups := []\<rparr>, rw_graphics w)"
    using assms(8) by (simp add: Load_vbo_def Let_def new_vbo_def has_format_def)
  then obtain vb gf where l: "Load_vbo (re_packing E) (re_driver E) m f (new_vbo VF_FULL) (rw_graphics w) = Some (False, vb, gf)" "vb_groups vb = []"
    by simp
  define w1 where "w1 = put_renderable i rd (w\<lparr>rw_vbos := (rw_vbos w)(?b \<mapsto> vb), rw_next_vbo := Suc ?b, rw_graphics := gf,
      rl_mesh_buffers := (rl_mesh_buffers w)(m \<mapsto> ?b)\<rparr>)"
  have u: "update_renderable E delta i w = Some w1"
    using assms(2-7) l by (simp add: update_renderable_def refresh_item_def mesh_changed_def show_mesh_def buffer_for_def Let_def drop_item_def w1_def)
  have w1: "map_of (rw_renderables w1) i = Some rd" "rl_mesh_buffers w1 m = Some ?b" "rw_vbos w1 ?b = Some vb" "rl_render_items w1 = rl_render_items w"
    "wf_omap (rw_renderables w1)"
    using assms(1) by (simp_all add: w1_def put_renderable_def wf_om_put)
  have "rw_vbos w2 = rw_vbos w1 \<and> rl_render_items w2 = rl_render_items w \<and> map_of (rw_renderables w2) i = Some rd"
    if "update_renderable E delta i (w1\<lparr>rw_files := (rw_files w1)(m \<mapsto> f1)\<rparr>) = Some w2" for f1 w2
  proof -
    have "w2 = put_renderable i rd (w1\<lparr>rw_files := (rw_files w1)(m \<mapsto> f1)\<rparr>)"
      using that assms(3-5) w1 l(2)
      by (simp add: update_renderable_def refresh_item_def mesh_changed_def show_mesh_def buffer_for_def drop_item_def)
    then show ?thesis
      using w1 by (simp add: put_renderable_def)
  qed
  then show ?thesis
    using u w1(2) by blast
qed

text \<open>An entity with two triangles, a second one with the same mesh, and glm and the driver as simple as can be.\<close>

definition plain_glm :: glm3 where
  "plain_glm = \<lparr>g_rotate = (\<lambda>q v. v), g_rotate_back = (\<lambda>v q. v), g_times = (\<lambda>q r. r), g_normalize = (\<lambda>v. v), g_normalize4 = (\<lambda>q. q),
     g_cross = (\<lambda>v w. v), g_conjugate = (\<lambda>q. q), g_mix = (\<lambda>q r t. q), g_lerp = (\<lambda>v w t. v)\<rparr>"

definition plain_env :: render_env where
  "plain_env = \<lparr>re_packing = \<lparr>pack_snorm3x10 = (\<lambda>v. 0), pack_half2 = (\<lambda>v. 0), pack_unorm4 = (\<lambda>v. 0)\<rparr>, re_driver = good_driver,
     re_glm = plain_glm, re_inverse = (\<lambda>q. q)\<rparr>"

definition scene :: "(eid, renderable) omap \<Rightarrow> (nat \<rightharpoonup> real mesh_file) \<Rightarrow> render_world" where
  "scene rs files = \<lparr>rw_renderables = rs, rw_views = [], rw_position = Map.empty, rw_orientation = Map.empty, rw_scale = Map.empty,
     rw_animation = Map.empty, rw_animations = Map.empty, rw_anims = Map.empty, rw_items = Map.empty, rw_next_item = 0, rw_files = files,
     rw_vbos = Map.empty, rw_next_vbo = 0, rw_graphics = no_graphics, rw_shaders = [''deferred'' \<mapsto> 1], rl_mesh_buffers = Map.empty,
     rl_render_items = [], rl_default_shader = None, rl_current_view = None\<rparr>"

definition mesh_renderable :: "nat \<Rightarrow> renderable" where
  "mesh_renderable m = new_renderable\<lparr>rd_mesh := Some m\<rparr>"

lemma plain_driver: "driver_maps plain_env"
  by (simp add: driver_maps_def plain_env_def good_driver_def)

lemma scene_sound: "render_sound plain_env (scene [(1, mesh_renderable 0)] [0 \<mapsto> two_triangles])"
proof -
  have "meshes_ok [1 \<mapsto> mesh_renderable 0] (scene [(1, mesh_renderable 0)] [0 \<mapsto> two_triangles])"
    using triangles_drawable by (simp add: meshes_ok_def mesh_renderable_def scene_def)
  then show ?thesis
    by (simp add: render_sound_def sound_with_def scene_def buffers_ok_def item_ok_def groups_ok_def mesh_renderable_def new_renderable_def
        unshared_def anims_ok_def no_graphics_ok wf_omap_Cons om_keys_def)
qed


definition shared_scene :: render_world where
  "shared_scene = (scene [] [0 \<mapsto> two_triangles])\<lparr>rw_items := [0 \<mapsto> new_render_item\<lparr>ri_vbo := Some 0\<rparr>, 1 \<mapsto> new_render_item\<lparr>ri_vbo := Some 0\<rparr>],
     rw_vbos := [0 \<mapsto> (new_vbo VF_FULL)\<lparr>vb_source := Some 0\<rparr>]\<rparr>"

theorem shared_mesh_stale_witness:
  "\<exists>w1 vb1. (do { w1 \<leftarrow> update_groups plain_env 0 shared_scene; update_groups plain_env 1 w1 }) = Some w1 \<and> rw_vbos w1 0 = Some vb1
     \<and> map group_range (vb_groups vb1) = [(1, 3, 3)] \<and> rw_items w1 1 = Some (new_render_item\<lparr>ri_vbo := Some 0\<rparr>)"
proof -
  have g: "drawn_groups (mf_meshes two_triangles) = [(1, 3, 3)]" "mf_dirty two_triangles"
    by (simp_all add: drawn_groups_def two_triangles_def triangle_def mesh_indices_def vert_count_def)
  have "\<exists>w1 vb1. (do { w1 \<leftarrow> update_groups plain_env 0 shared_scene; update_groups plain_env 1 w1 }) = Some w1 \<and> rw_vbos w1 0 = Some vb1
    \<and> holds_meshes (re_packing plain_env) (mf_meshes two_triangles) vb1 \<and> map_option ri_groups (rw_items w1 0) = Some (vb_groups vb1)
    \<and> rw_items w1 1 = Some (new_render_item\<lparr>ri_vbo := Some 0\<rparr>) \<and> update_groups plain_env 1 w1 = Some w1"
    by (rule shared_mesh_stale [where it = "new_render_item\<lparr>ri_vbo := Some 0\<rparr>" and vb = "(new_vbo VF_FULL)\<lparr>vb_source := Some 0\<rparr>" and m = 0])
      (simp_all add: shared_scene_def scene_def new_vbo_def g(2) triangles_drawable plain_driver no_graphics_ok)
  then obtain w1 vb1 where w1: "(do { w1 \<leftarrow> update_groups plain_env 0 shared_scene; update_groups plain_env 1 w1 }) = Some w1" "rw_vbos w1 0 = Some vb1"
    "holds_meshes (re_packing plain_env) (mf_meshes two_triangles) vb1" "rw_items w1 1 = Some (new_render_item\<lparr>ri_vbo := Some 0\<rparr>)"
    by blast
  then have "map group_range (vb_groups vb1) = [(1, 3, 3)]"
    using g(1) by (simp add: holds_meshes_def)
  then show ?thesis
    using w1 by (intro exI [of _ w1] exI [of _ vb1] conjI)
qed

theorem empty_mesh_never_drawn_witness:
  "\<exists>w1 b. update_renderable plain_env 0 1 (scene [(1, mesh_renderable 0)] [0 \<mapsto> \<lparr>mf_meshes = [], mf_name = [], mf_dirty = True\<rparr>]) = Some w1
    \<and> rl_mesh_buffers w1 0 = Some b
    \<and> (\<forall>w2. update_renderable plain_env 0 1 (w1\<lparr>rw_files := (rw_files w1)(0 \<mapsto> two_triangles)\<rparr>) = Some w2 \<longrightarrow> rl_render_items w2 = [])"
  using empty_mesh_never_drawn [of "scene [(1, mesh_renderable 0)] [0 \<mapsto> \<lparr>mf_meshes = [], mf_name = [], mf_dirty = True\<rparr>]" 1 "mesh_renderable 0" 0
    "\<lparr>mf_meshes = [], mf_name = [], mf_dirty = True\<rparr>" plain_env 0]
  by (fastforce simp: scene_def mesh_renderable_def new_renderable_def wf_omap_Cons om_keys_def all_vertices_def)

end
