(* ===== verification/Render_System.thy ===== *)
theory Render_System
  imports Render_Current
begin

text \<open>
  The render system (client/render-system.cpp): the components it makes and removes, its console command, its
  viewport, and the passes that draw (client/graphics/passes). A pass gives the calls to OpenGL that it
  makes, as a list; shaders, textures and uniform locations are numbers. The result \<open>None\<close> is an
  access to something that is not there.
\<close>

subsection \<open>State\<close>

record viewport =
  vp_width :: u32
  vp_height :: u32
  vp_inv_width :: real
  vp_inv_height :: real
  vp_projection :: "real list list"

record render_system =
  rs_world :: render_world
  rs_point_lights :: "(eid, point_light) omap"
  rs_dir_lights :: "(eid, directional_light) omap"
  rs_viewport :: viewport
  rs_debug_gbuffer :: bool

text \<open>What the system looks up by name: meshes, animations and the skeletons of MD5 meshes; and the parts of glm it uses.\<close>

record render_names =
  rn_mesh :: "string \<Rightarrow> nat option"
  rn_animation :: "string \<Rightarrow> nat option"
  rn_md5 :: "string \<Rightarrow> md5 option"
  rn_complete3 :: "real \<Rightarrow> real \<Rightarrow> real \<Rightarrow> real quat"
  rn_perspective :: "real \<Rightarrow> real list list"

subsection \<open>Viewport\<close>

text \<open>The projection of an aspect ratio, changed to a reversed depth without a far plane.\<close>

definition reverse_depth :: "real list list \<Rightarrow> real list list" where
  "reverse_depth p = (let p1 = p[2 := (p ! 2)[2 := 0]] in p1[3 := (p1 ! 3)[2 := 1 / 10]])"

definition aspect_ratio :: "viewport \<Rightarrow> real" where
  "aspect_ratio v = (let a = real (unat (vp_width v)) / real (unat (vp_height v)) in if a < 1 then 4 / 3 else a)"

definition UpdateViewport :: "render_names \<Rightarrow> u32 \<Rightarrow> u32 \<Rightarrow> viewport \<Rightarrow> viewport" where
  "UpdateViewport N width height v =
     (let v1 = v\<lparr>vp_width := max 1 width, vp_height := max 1 height\<rparr>;
          v2 = v1\<lparr>vp_inv_width := 1 / real (unat (vp_width v1)), vp_inv_height := 1 / real (unat (vp_height v1))\<rparr>
      in v2\<lparr>vp_projection := reverse_depth (rn_perspective N (aspect_ratio v2))\<rparr>)"

definition SetViewportSize :: "render_names \<Rightarrow> u32 \<Rightarrow> u32 \<Rightarrow> render_system \<Rightarrow> render_system" where
  "SetViewportSize N width height rs = rs\<lparr>rs_viewport := UpdateViewport N width height (rs_viewport rs)\<rparr>"

text \<open>The event of a resized window has signed sizes.\<close>

definition rs_On_WindowResized :: "render_names \<Rightarrow> int \<Rightarrow> int \<Rightarrow> render_system \<Rightarrow> render_system" where
  "rs_On_WindowResized N width height = SetViewportSize N (word_of_int (max 0 width)) (word_of_int (max 0 height))"

subsection \<open>Entities\<close>

definition new_scale :: "real vec3" where
  "new_scale = \<lparr>vx = 0, vy = 0, vz = 0\<rparr>"

text \<open>A message of a size has the same fields as one of a position.\<close>

definition Scale_Out :: "real vec3 \<Rightarrow> real p_position" where
  "Scale_Out s = \<lparr>pp_x = Some (vx s), pp_y = Some (vy s), pp_z = Some (vz s)\<rparr>"

definition Scale_In :: "real p_position \<Rightarrow> real vec3 \<Rightarrow> real vec3" where
  "Scale_In c s = \<lparr>vx = field (vx s) (pp_x c), vy = field (vy s) (pp_y c), vz = field (vz s) (pp_z c)\<rparr>"

datatype p_drawn = P_renderable p_renderable | P_point_light p_light | P_directional_light p_light | P_animation p_animation
  | P_scale "real p_position" | P_not_drawn

definition rs_On_EntityDestroyed :: "eid \<Rightarrow> render_system \<Rightarrow> render_system" where
  "rs_On_EntityDestroyed i rs =
     (let w = rs_world rs in
      rs\<lparr>rs_world := w\<lparr>rw_renderables := om_erase i (rw_renderables w), rw_animation := (rw_animation w)(i := None),
           rw_scale := (rw_scale w)(i := None)\<rparr>,
         rs_point_lights := om_erase i (rs_point_lights rs), rs_dir_lights := om_erase i (rs_dir_lights rs)\<rparr>)"

text \<open>A component of a new entity; \<open>fresh\<close> is the address of a new animation.\<close>

definition create_drawn :: "render_env \<Rightarrow> render_names \<Rightarrow> eid \<Rightarrow> nat \<times> p_drawn \<Rightarrow> render_system \<Rightarrow> render_system option" where
  "create_drawn E N i fc rs = (case fc of (fresh, c) \<Rightarrow> let w = rs_world rs in (case c of
      P_renderable p \<Rightarrow> Some (rs\<lparr>rs_world := put_renderable i (Renderable_In (rn_complete3 N) (rn_mesh N) (rw_shaders w) p new_renderable) w\<rparr>)
    | P_point_light l \<Rightarrow> Some (rs\<lparr>rs_point_lights := om_put i (PointLight_In l new_point_light) (rs_point_lights rs)\<rparr>)
    | P_directional_light l \<Rightarrow> Some (rs\<lparr>rs_dir_lights := om_put i (DirectionalLight_In l new_directional_light) (rs_dir_lights rs)\<rparr>)
    | P_animation a \<Rightarrow> do {
        (anims, am) \<leftarrow> Animation_In (re_glm E) (rn_animation N) (rn_md5 N) a (rw_anims w) new_animation;
        Some (rs\<lparr>rs_world := w\<lparr>rw_anims := anims, rw_animations := (rw_animations w)(fresh \<mapsto> am), rw_animation := (rw_animation w)(i \<mapsto> fresh)\<rparr>\<rparr>)
      }
    | P_scale s \<Rightarrow> Some (rs\<lparr>rs_world := w\<lparr>rw_scale := (rw_scale w)(i \<mapsto> Scale_In s new_scale)\<rparr>\<rparr>)
    | P_not_drawn \<Rightarrow> Some rs))"

definition rs_On_EntityCreated :: "render_env \<Rightarrow> render_names \<Rightarrow> eid \<Rightarrow> (nat \<times> p_drawn) list \<Rightarrow> render_system \<Rightarrow> render_system option" where
  "rs_On_EntityCreated E N i cs rs = each (create_drawn E N i) cs rs"

subsection \<open>Console\<close>

text \<open>\<open>SplitString\<close> with the blank as separator: the text after the last one is left out when it is empty.\<close>

fun pieces :: "string \<Rightarrow> string list" where
  "pieces [] = [[]]"
| "pieces (c # cs) = (if c = CHR '' '' then [] # pieces cs else (case pieces cs of [] \<Rightarrow> [[c]] | p # ps \<Rightarrow> (c # p) # ps))"

definition SplitString :: "string \<Rightarrow> string list" where
  "SplitString s = (let ps = pieces s in if 1 < length ps \<and> last ps = [] then butlast ps else ps)"

text \<open>\<open>std::stoll\<close>; the failure is its exception.\<close>

datatype stoll_error = Invalid_argument | Out_of_range

definition stoll :: "string \<Rightarrow> stoll_error + int" where
  "stoll s = (case take_sign (dropWhile is_space s) of (neg, r) \<Rightarrow>
     let ds = takeWhile is_digit r; v = (if neg then - int (digits_value ds) else int (digits_value ds)) in
     if ds = [] then Inl Invalid_argument
     else if v < - (2 ^ 63) \<or> 2 ^ 63 \<le> v then Inl Out_of_range else Inr v)"

text \<open>
  The command \<open>rs_anim\<close>. The exception is passed on; the inner \<open>None\<close> is an access outside the arguments.
  A stored animation is never null.
\<close>

definition rs_anim :: "string \<Rightarrow> render_world \<Rightarrow> stoll_error + render_world option" where
  "rs_anim args w = (let argv = SplitString args in
     try_bind (stoll (argv ! 0)) (\<lambda>n. case rw_animation w (word_of_int n) of
         None \<Rightarrow> Inr (Some w)
       | Some a \<Rightarrow> Inr (do {
           am \<leftarrow> rw_animations w a;
           verb \<leftarrow> at_index argv 1;
           Some (if verb = ''play'' then w\<lparr>rw_animations := (rw_animations w)(a \<mapsto> Animation_Play am)\<rparr>
                 else if verb = ''stop'' then w\<lparr>rw_animations := (rw_animations w)(a \<mapsto> Animation_Stop am)\<rparr> else w)
         })))"

definition rs_debug :: "render_system \<Rightarrow> render_system" where
  "rs_debug rs = rs\<lparr>rs_debug_gbuffer := \<not> rs_debug_gbuffer rs\<rparr>"

subsection \<open>Calls of OpenGL\<close>

datatype gl_call =
    Use_shader "nat option"
  | Uniform_number int real
  | Uniform_numbers int "real list"
  | Uniform_bones int "animation_bone list"
  | Uniform_matrix int "real list list"
  | Uniform_place int "real vec3 option" "real option"
  | Polygon_mode nat
  | Bind_texture nat nat
  | Bind_vertex_array "nat option"
  | Draw_elements nat nat nat

type_synonym gl_locations = "nat \<Rightarrow> string \<Rightarrow> int"

definition vec3_list :: "real vec3 \<Rightarrow> real list" where
  "vec3_list v = [vx v, vy v, vz v]"

definition quat_list :: "real quat \<Rightarrow> real list" where
  "quat_list q = [qx q, qy q, qz q, qw q]"

definition ActivateMaterial :: "material \<Rightarrow> gl_call list" where
  "ActivateMaterial m = map (\<lambda>(unit, t). Bind_texture unit t) (enumerate 0 (mt_textures m))"

definition DeactivateMaterial :: "nat \<times> nat \<Rightarrow> material \<Rightarrow> gl_call list" where
  "DeactivateMaterial def_textures m =
     map (\<lambda>(unit, t). Bind_texture unit (if unit = 1 then snd def_textures else fst def_textures)) (enumerate 0 (mt_textures m))"

text \<open>Calls that are made one after the other, until an access fails.\<close>

fun collect :: "('a \<Rightarrow> 'b list option) \<Rightarrow> 'a list \<Rightarrow> 'b list option" where
  "collect f [] = Some []"
| "collect f (x # xs) = do { ys \<leftarrow> f x; zs \<leftarrow> collect f xs; Some (ys @ zs) }"

subsection \<open>Geometry\<close>

record uniform_locations =
  ul_model_pos :: int
  ul_model_scale :: int
  ul_model_quat :: int
  ul_bones :: int
  ul_animated :: int
  ul_vertex_group :: int

text \<open>The locations of the default shader are given in the order of the members: bones before animated.\<close>

definition default_locations :: "gl_locations \<Rightarrow> nat \<Rightarrow> uniform_locations" where
  "default_locations loc s = \<lparr>ul_model_pos = loc s ''model_position'', ul_model_scale = loc s ''model_scale'',
     ul_model_quat = loc s ''model_quat'', ul_bones = loc s ''animated'', ul_animated = loc s ''animation_matrix'', ul_vertex_group = - 1\<rparr>"

definition shader_locations :: "gl_locations \<Rightarrow> nat \<Rightarrow> uniform_locations" where
  "shader_locations loc s = \<lparr>ul_model_pos = loc s ''model_position'', ul_model_scale = loc s ''model_scale'',
     ul_model_quat = loc s ''model_quat'', ul_bones = loc s ''animation_bones[0]'', ul_animated = loc s ''animated'',
     ul_vertex_group = loc s ''vertex_group''\<rparr>"

definition view_uniforms :: "gl_locations \<Rightarrow> nat \<Rightarrow> viewport \<Rightarrow> view \<Rightarrow> gl_call list" where
  "view_uniforms loc s vp v = [Uniform_numbers (loc s ''view_pos'') (vec3_list (vi_pos v)),
     Uniform_numbers (loc s ''view_quat'') (quat_list (vi_quat v)), Uniform_matrix (loc s ''projection'') (vp_projection vp)]"

definition draw_group :: "graphics \<Rightarrow> nat \<times> nat \<Rightarrow> uniform_locations \<Rightarrow> render_item \<Rightarrow> nat \<times> vertex_group \<Rightarrow> gl_call list option" where
  "draw_group gf def_textures L it ng = (case ng of (n, g) \<Rightarrow> do {
     p \<leftarrow> vg_material g;
     m \<leftarrow> gf_materials gf p;
     Some (Polygon_mode (mt_polygon_mode m) # ActivateMaterial m
       @ (if ul_vertex_group L \<noteq> - 1 then [Uniform_number (ul_vertex_group L) (real n)] else [])
       @ [Uniform_numbers (ul_model_pos L) (vec3_list (ri_position it)), Uniform_numbers (ul_model_scale L) (vec3_list (ri_scale it)),
          Uniform_numbers (ul_model_quat L) (quat_list (ri_quat it)), Draw_elements (mt_draw_mode m) (vg_index_count g) (vg_start g)]
       @ DeactivateMaterial def_textures m)
   })"

text \<open>The bones are read from their first element, which has to be there.\<close>

definition bone_uniforms :: "render_world \<Rightarrow> uniform_locations \<Rightarrow> render_item \<Rightarrow> gl_call list option" where
  "bone_uniforms w L it = (if ri_animated it \<and> ul_bones L \<noteq> - 1
     then do {
       a \<leftarrow> ri_animation it;
       am \<leftarrow> rw_animations w a;
       if am_bones am = [] then None else Some [Uniform_bones (ul_bones L) (am_bones am)]
     } else Some [])"

definition draw_item :: "render_world \<Rightarrow> nat \<times> nat \<Rightarrow> uniform_locations \<Rightarrow> nat \<Rightarrow> gl_call list option" where
  "draw_item w def_textures L p = do {
     it \<leftarrow> rw_items w p;
     b \<leftarrow> ri_vbo it;
     bones \<leftarrow> bone_uniforms w L it;
     groups \<leftarrow> collect (draw_group (rw_graphics w) def_textures L it) (enumerate 0 (ri_groups it));
     Some (Bind_vertex_array (Some b) # Uniform_number (ul_animated L) (if ri_animated it then 1 else 0) # bones @ groups)
   }"

definition draw_shader :: "gl_locations \<Rightarrow> render_world \<Rightarrow> nat \<times> nat \<Rightarrow> viewport \<Rightarrow> view \<Rightarrow> nat \<Rightarrow> nat option \<times> nat set \<Rightarrow> gl_call list option" where
  "draw_shader loc w def_textures vp v def_shader si = (case si of
      (None, ps) \<Rightarrow> collect (draw_item w def_textures (default_locations loc def_shader)) (sorted_list_of_set ps)
    | (Some s, ps) \<Rightarrow> do {
        calls \<leftarrow> collect (draw_item w def_textures (shader_locations loc s)) (sorted_list_of_set ps);
        Some (Use_shader None # Use_shader (Some s) # view_uniforms loc s vp v @ calls @ [Use_shader None, Use_shader (Some def_shader)])
      })"

definition geometry_pass :: "gl_locations \<Rightarrow> string \<Rightarrow> viewport \<Rightarrow> view \<Rightarrow> render_world \<Rightarrow> gl_call list option" where
  "geometry_pass loc visual vp v w = do {
     t0 \<leftarrow> gf_textures (rw_graphics w) ''default'';
     t1 \<leftarrow> gf_textures (rw_graphics w) ''default_sp'';
     s \<leftarrow> rw_shaders w visual;
     calls \<leftarrow> collect (draw_shader loc w (t0, t1) vp v s) (rl_render_items w);
     Some ([Bind_texture 0 t0, Bind_texture 1 t1, Use_shader (Some s)] @ view_uniforms loc s vp v @ calls
       @ [Use_shader None, Bind_vertex_array None])
   }"

subsection \<open>Lights\<close>

text \<open>The position of a light without the component is not initialised. The radius of the light is stored in it.\<close>

definition draw_point_light :: "gl_locations \<Rightarrow> nat \<Rightarrow> nat \<Rightarrow> (eid \<rightharpoonup> real vec3) \<Rightarrow> eid \<times> point_light \<Rightarrow> gl_call list" where
  "draw_point_light loc s count places il = (case il of (i, l) \<Rightarrow>
     [Uniform_place (loc s ''model'') (places i) (pl_radius (UpdateBoundingRadius l)),
      Uniform_numbers (loc s ''gPointLight.Base.Color'') (vec3_list (bl_color l)),
      Uniform_number (loc s ''gPointLight.Base.AmbientIntensity'') (bl_ambient l),
      Uniform_number (loc s ''gPointLight.Base.DiffuseIntensity'') (bl_diffuse l),
      Uniform_number (loc s ''gPointLight.Atten.Constant'') (at_constant (pl_atten l)),
      Uniform_number (loc s ''gPointLight.Atten.Linear'') (at_linear (pl_atten l)),
      Uniform_number (loc s ''gPointLight.Atten.Exp'') (at_exponential (pl_atten l)),
      Draw_elements GL_TRIANGLES count 0])"

text \<open>\<open>sphere\<close> and \<open>quad\<close> are the buffers of the two meshes, with their addresses; a mesh that was not loaded has no group.\<close>

definition point_light_pass :: "gl_locations \<Rightarrow> string \<Rightarrow> nat \<times> 'f vbo \<Rightarrow> viewport \<Rightarrow> view \<Rightarrow> render_system \<Rightarrow> (gl_call list \<times> render_system) option" where
  "point_light_pass loc shader sphere vp v rs = do {
     s \<leftarrow> rw_shaders (rs_world rs) shader;
     g \<leftarrow> GetVertexGroup 0 (snd sphere);
     Some ([Use_shader (Some s)] @ view_uniforms loc s vp v
       @ [Uniform_numbers (loc s ''gScreenSize'') [vp_inv_width vp, vp_inv_height vp], Bind_vertex_array (Some (fst sphere))]
       @ concat (map (draw_point_light loc s (vg_index_count g) (rw_position (rs_world rs))) (rs_point_lights rs))
       @ [Bind_vertex_array None, Use_shader None],
       rs\<lparr>rs_point_lights := map (\<lambda>(i, l). (i, UpdateBoundingRadius l)) (rs_point_lights rs)\<rparr>)
   }"

definition draw_dir_light :: "gl_locations \<Rightarrow> nat \<Rightarrow> nat \<Rightarrow> eid \<times> directional_light \<Rightarrow> gl_call list" where
  "draw_dir_light loc s count il = (case il of (i, l) \<Rightarrow>
     [Uniform_numbers (loc s ''gDirectionalLight.Base.Color'') (vec3_list (bl_color l)),
      Uniform_number (loc s ''gDirectionalLight.Base.AmbientIntensity'') (bl_ambient l),
      Uniform_number (loc s ''gDirectionalLight.Base.DiffuseIntensity'') (bl_diffuse l),
      Uniform_numbers (loc s ''gDirectionalLight.Direction'') (vec3_list (dl_direction l)),
      Draw_elements GL_TRIANGLES count 0])"

definition dir_light_pass :: "gl_locations \<Rightarrow> string \<Rightarrow> (nat \<times> 'f vbo) option \<Rightarrow> viewport \<Rightarrow> view \<Rightarrow> render_system \<Rightarrow> gl_call list option" where
  "dir_light_pass loc shader quad vp v rs = do {
     s \<leftarrow> rw_shaders (rs_world rs) shader;
     (a, vb) \<leftarrow> quad;
     count \<leftarrow> GetVertexGroupIndexCount 0 vb;
     Some ([Use_shader (Some s), Uniform_numbers (loc s ''gScreenSize'') [vp_inv_width vp, vp_inv_height vp],
         Uniform_numbers (loc s ''view_pos'') (vec3_list (vi_pos v)), Bind_vertex_array (Some a)]
       @ concat (map (draw_dir_light loc s count) (rs_dir_lights rs)) @ [Use_shader None, Bind_vertex_array None])
   }"

definition final_pass :: "gl_locations \<Rightarrow> string \<Rightarrow> (nat \<times> 'f vbo) option \<Rightarrow> viewport \<Rightarrow> render_system \<Rightarrow> gl_call list option" where
  "final_pass loc shader quad vp rs = do {
     s \<leftarrow> rw_shaders (rs_world rs) shader;
     (a, vb) \<leftarrow> quad;
     count \<leftarrow> GetVertexGroupIndexCount 0 vb;
     Some [Use_shader (Some s), Uniform_numbers (loc s ''gScreenSize'') [vp_inv_width vp, vp_inv_height vp], Bind_vertex_array (Some a),
       Draw_elements GL_TRIANGLES count 0, Bind_vertex_array None, Use_shader None]
   }"

subsection \<open>A frame\<close>

record shader_set =
  ss_visual :: string
  ss_pointlight :: string
  ss_dirlight :: string
  ss_postprocess :: string

text \<open>The events of each kind that are waiting, in their order.\<close>

record render_events =
  ev_resized :: "(int \<times> int) list"
  ev_created :: "(eid \<times> (nat \<times> p_drawn) list) list"
  ev_destroyed :: "eid list"

definition process_events :: "render_env \<Rightarrow> render_names \<Rightarrow> render_events \<Rightarrow> render_system \<Rightarrow> render_system option" where
  "process_events E N ev rs = do {
     let rs1 = fold (\<lambda>(w, h). rs_On_WindowResized N w h) (ev_resized ev) rs;
     rs2 \<leftarrow> each (\<lambda>(i, cs). rs_On_EntityCreated E N i cs) (ev_created ev) rs1;
     Some (fold rs_On_EntityDestroyed (ev_destroyed ev) rs2)
   }"

definition rs_Update ::
    "render_env \<Rightarrow> render_names \<Rightarrow> gl_locations \<Rightarrow> shader_set \<Rightarrow> nat \<times> 'f vbo \<Rightarrow> (nat \<times> 'f vbo) option \<Rightarrow> real \<Rightarrow> render_events
      \<Rightarrow> render_system \<Rightarrow> (gl_call list \<times> render_system) option" where
  "rs_Update E N loc programs sphere quad delta ev rs = do {
     rs1 \<leftarrow> process_events E N ev rs;
     w \<leftarrow> UpdateRenderList E delta (rs_world rs1);
     let rs2 = rs1\<lparr>rs_world := w\<rparr>;
     let v = (case rl_current_view w of None \<Rightarrow> new_view True | Some v \<Rightarrow> v);
     geometry \<leftarrow> geometry_pass loc (ss_visual programs) (rs_viewport rs2) v w;
     (points, rs3) \<leftarrow> point_light_pass loc (ss_pointlight programs) sphere (rs_viewport rs2) v rs2;
     dirs \<leftarrow> dir_light_pass loc (ss_dirlight programs) quad (rs_viewport rs3) v rs3;
     final \<leftarrow> final_pass loc (ss_postprocess programs) quad (rs_viewport rs3) rs3;
     Some (geometry @ points @ dirs @ final, rs3)
   }"

end
