(* ===== verification/Render_Draws.thy ===== *)
theory Render_Draws
  imports Render_System
begin

text \<open>
  What a frame draws: the geometry pass after the update of the render list, the events before it, the viewport and the console
  command of the render system.
\<close>

subsection \<open>Collected calls\<close>

lemma collect_defined: "collect f xs \<noteq> None \<longleftrightarrow> (\<forall>x \<in> set xs. f x \<noteq> None)"
  by (induction xs) (auto simp: bind_eq_None_conv)

lemma collect_cong: "(\<And>x. x \<in> set xs \<Longrightarrow> f x = g x) \<Longrightarrow> collect f xs = collect g xs"
  by (induction xs) auto

text \<open>The draws among the calls, with the vertex array that is bound.\<close>

fun draws :: "nat option \<Rightarrow> gl_call list \<Rightarrow> (nat option \<times> nat \<times> nat) list" where
  "draws va [] = []"
| "draws va (c # cs) = (case c of Bind_vertex_array b \<Rightarrow> draws b cs | Draw_elements mode n s \<Rightarrow> (va, n, s) # draws va cs | _ \<Rightarrow> draws va cs)"

fun bound :: "nat option \<Rightarrow> gl_call list \<Rightarrow> nat option" where
  "bound va [] = va"
| "bound va (c # cs) = (case c of Bind_vertex_array b \<Rightarrow> bound b cs | _ \<Rightarrow> bound va cs)"

lemma draws_append: "draws va (xs @ ys) = draws va xs @ draws (bound va xs) ys"
  by (induction xs arbitrary: va) (auto split: gl_call.split)

lemma bound_append: "bound va (xs @ ys) = bound (bound va xs) ys"
  by (induction xs arbitrary: va) (auto split: gl_call.split)

definition silent :: "gl_call list \<Rightarrow> bool" where
  "silent cs \<longleftrightarrow> (\<forall>va. draws va cs = [] \<and> bound va cs = va)"

lemma silent_simps [simp]:
  "silent []" "silent xs \<Longrightarrow> silent ys \<Longrightarrow> silent (xs @ ys)"
  by (simp_all add: silent_def draws_append bound_append)

lemma silent_textures: "silent (ActivateMaterial m)" "silent (DeactivateMaterial d m)"
proof -
  have s: "silent (map (\<lambda>(u, t). Bind_texture u (f u t)) xs)" for f :: "nat \<Rightarrow> nat \<Rightarrow> nat" and xs
    by (induction xs) (auto simp: silent_def)
  show "silent (ActivateMaterial m)" "silent (DeactivateMaterial d m)"
    unfolding ActivateMaterial_def DeactivateMaterial_def by (rule s)+
qed

lemma silent_draws [simp]: "silent xs \<Longrightarrow> draws va (xs @ ys) = draws va ys" "silent xs \<Longrightarrow> bound va (xs @ ys) = bound va ys"
  "silent xs \<Longrightarrow> draws va xs = []" "silent xs \<Longrightarrow> bound va xs = va"
  by (simp_all add: silent_def draws_append bound_append)

lemma collect_draws:
  assumes "collect f xs = Some cs" and "\<And>x ys. x \<in> set xs \<Longrightarrow> f x = Some ys \<Longrightarrow> \<forall>va. draws va ys = D x"
  shows "draws va cs = concat (map D xs)"
  using assms
proof (induction xs arbitrary: cs va)
  case (Cons x xs)
  then obtain ys zs where y: "f x = Some ys" "collect f xs = Some zs" "cs = ys @ zs"
    by (auto simp: bind_eq_Some_conv)
  then show ?case
    using Cons by (simp add: draws_append)
qed simp

subsection \<open>Items\<close>

lemma draw_group_defined: "draw_group gf d L it (n, g) \<noteq> None \<longleftrightarrow> has_material gf g"
  by (auto simp: draw_group_def has_material_def bind_eq_None_conv)

lemma draw_group_draws:
  assumes "draw_group gf d L it (n, g) = Some cs"
  shows "draws va cs = [(va, vg_index_count g, vg_start g)] \<and> bound va cs = va"
  using assms by (auto simp: draw_group_def bind_eq_Some_conv silent_textures)

definition bones_ok :: "render_world \<Rightarrow> bool" where
  "bones_ok w \<longleftrightarrow> (\<forall>p it. rw_items w p = Some it \<and> ri_animated it
     \<longrightarrow> (\<exists>a am. ri_animation it = Some a \<and> rw_animations w a = Some am \<and> am_bones am \<noteq> []))"

lemma bone_uniforms_silent:
  "bones_ok w \<Longrightarrow> rw_items w p = Some it \<Longrightarrow> \<exists>cs. bone_uniforms w L it = Some cs \<and> silent cs"
  unfolding bones_ok_def bone_uniforms_def silent_def by fastforce

lemma draw_item_defined:
  assumes "bones_ok w" and "rw_items w p = Some it" and "ri_vbo it = Some b"
  shows "draw_item w d L p \<noteq> None \<longleftrightarrow> (\<forall>g \<in> set (ri_groups it). has_material (rw_graphics w) g)"
proof -
  obtain cs where "bone_uniforms w L it = Some cs"
    using bone_uniforms_silent [OF assms(1,2)] by blast
  then have "draw_item w d L p \<noteq> None \<longleftrightarrow> collect (draw_group (rw_graphics w) d L it) (enumerate 0 (ri_groups it)) \<noteq> None"
    by (simp add: draw_item_def assms(2,3) bind_eq_None_conv)
  also have "\<dots> \<longleftrightarrow> (\<forall>x \<in> set (enumerate 0 (ri_groups it)). has_material (rw_graphics w) (snd x))"
    unfolding collect_defined using draw_group_defined by (metis prod.collapse)
  also have "\<dots> \<longleftrightarrow> (\<forall>g \<in> set (map snd (enumerate 0 (ri_groups it))). has_material (rw_graphics w) g)"
    by (simp only: set_map ball_simps)
  finally show ?thesis
    unfolding map_snd_enumerate .
qed

definition group_draw :: "nat \<Rightarrow> vertex_group \<Rightarrow> nat option \<times> nat \<times> nat" where
  "group_draw b g = (Some b, vg_index_count g, vg_start g)"

lemma draw_item_draws:
  assumes i: "bones_ok w" "rw_items w p = Some it" "ri_vbo it = Some b" and d: "draw_item w d L p = Some cs"
  shows "draws va cs = map (group_draw b) (ri_groups it)"
proof -
  obtain bs where bs: "bone_uniforms w L it = Some bs" "silent bs"
    using bone_uniforms_silent [OF i(1,2)] by blast
  obtain gs where gs: "collect (draw_group (rw_graphics w) d L it) (enumerate 0 (ri_groups it)) = Some gs"
    "cs = Bind_vertex_array (Some b) # Uniform_number (ul_animated L) (if ri_animated it then 1 else 0) # bs @ gs"
    using d bs(1) i by (auto simp: draw_item_def bind_eq_Some_conv)
  have "draws (Some b) gs = map (group_draw b) (map snd xs) \<and> bound (Some b) gs = Some b"
    if "collect (draw_group (rw_graphics w) d L it) xs = Some gs" for xs gs
    using that
  proof (induction xs arbitrary: gs)
    case (Cons x xs)
    then obtain ys zs where y: "draw_group (rw_graphics w) d L it x = Some ys" "collect (draw_group (rw_graphics w) d L it) xs = Some zs" "gs = ys @ zs"
      by (auto simp: bind_eq_Some_conv)
    then show ?case
      using Cons.IH [OF y(2)] draw_group_draws [of "rw_graphics w" d L it "fst x" "snd x" ys "Some b"]
      by (simp add: draws_append bound_append group_draw_def)
  qed simp
  from this [OF gs(1)] show ?thesis
    using bs(2) by (simp add: gs(2) map_snd_enumerate)
qed

subsection \<open>The geometry pass\<close>

lemma geometry_pass_defined:
  assumes t: "gf_textures (rw_graphics w) ''default'' = Some t0" "gf_textures (rw_graphics w) ''default_sp'' = Some t1" "rw_shaders w visual = Some s"
    and fin: "\<And>k ps. (k, ps) \<in> set (rl_render_items w) \<Longrightarrow> finite ps"
    and d: "\<And>L p k ps. (k, ps) \<in> set (rl_render_items w) \<Longrightarrow> p \<in> ps \<Longrightarrow> draw_item w (t0, t1) L p \<noteq> None \<longleftrightarrow> Q p"
  shows "geometry_pass loc visual vp v w \<noteq> None \<longleftrightarrow> (\<forall>(k, ps) \<in> set (rl_render_items w). \<forall>p \<in> ps. Q p)"
proof -
  have one: "draw_shader loc w (t0, t1) vp v s (k, ps) \<noteq> None \<longleftrightarrow> (\<forall>p \<in> ps. Q p)" if k: "(k, ps) \<in> set (rl_render_items w)" for k ps
  proof -
    have "collect (draw_item w (t0, t1) L) (sorted_list_of_set ps) \<noteq> None \<longleftrightarrow> (\<forall>p \<in> ps. Q p)" for L
      unfolding collect_defined using fin [OF k] d [OF k] by simp
    then show ?thesis
      by (cases k) (simp_all add: draw_shader_def bind_eq_None_conv)
  qed
  have "geometry_pass loc visual vp v w \<noteq> None \<longleftrightarrow> collect (draw_shader loc w (t0, t1) vp v s) (rl_render_items w) \<noteq> None"
    by (simp add: geometry_pass_def t bind_eq_None_conv)
  also have "\<dots> \<longleftrightarrow> (\<forall>(k, ps) \<in> set (rl_render_items w). \<forall>p \<in> ps. Q p)"
    unfolding collect_defined using one by auto
  finally show ?thesis .
qed

lemma view_uniforms_silent: "silent (view_uniforms loc s vp v)"
  by (simp add: view_uniforms_def silent_def)

lemma geometry_pass_draws:
  assumes g: "geometry_pass loc visual vp v w = Some cs"
    and fin: "\<And>k ps. (k, ps) \<in> set (rl_render_items w) \<Longrightarrow> finite ps"
    and d: "\<And>t L p k ps ys. (k, ps) \<in> set (rl_render_items w) \<Longrightarrow> p \<in> ps \<Longrightarrow> draw_item w t L p = Some ys \<Longrightarrow> \<forall>va. draws va ys = D p"
  shows "set (draws va cs) = (\<Union>(k, ps) \<in> set (rl_render_items w). \<Union>p \<in> ps. set (D p))"
proof -
  obtain t0 t1 s zs where z: "collect (draw_shader loc w (t0, t1) vp v s) (rl_render_items w) = Some zs"
    "cs = [Bind_texture 0 t0, Bind_texture 1 t1, Use_shader (Some s)] @ view_uniforms loc s vp v @ zs @ [Use_shader None, Bind_vertex_array None]"
    using g by (auto simp: geometry_pass_def bind_eq_Some_conv)
  have one: "\<forall>va. draws va ys = concat (map D (sorted_list_of_set (snd x)))"
    if x: "x \<in> set (rl_render_items w)" and y: "draw_shader loc w (t0, t1) vp v s x = Some ys" for x ys
  proof (cases x)
    case (Pair k ps)
    have c: "draws va zs = concat (map D (sorted_list_of_set ps))" if "collect (draw_item w (t0, t1) L) (sorted_list_of_set ps) = Some zs" for L zs va
      by (rule collect_draws [OF that]) (use d fin x Pair in auto)
    show ?thesis
      using y c by (cases k) (auto simp: Pair draw_shader_def bind_eq_Some_conv draws_append view_uniforms_silent)
  qed
  have "draws va cs = concat (map (\<lambda>x. concat (map D (sorted_list_of_set (snd x)))) (rl_render_items w))"
    using collect_draws [OF z(1) one] by (simp add: z(2) draws_append view_uniforms_silent)
  also have "set \<dots> = (\<Union>(k, ps) \<in> set (rl_render_items w). \<Union>p \<in> ps. set (D p))"
  proof -
    have "set (sorted_list_of_set (snd x)) = snd x" if "x \<in> set (rl_render_items w)" for x
      using fin [of "fst x" "snd x"] that by simp
    then show ?thesis
      unfolding set_concat set_map image_image case_prod_beta by (intro SUP_cong refl) simp
  qed
  finally show ?thesis .
qed

text \<open>
  A frame from a sound state: the items are listed, each under the shader of its renderable, and there are finitely many of them.
\<close>

definition has_materials :: "render_world \<Rightarrow> renderable \<Rightarrow> bool" where
  "has_materials w rd \<longleftrightarrow> (\<forall>m f. rd_mesh rd = Some m \<and> rw_files w m = Some f \<longrightarrow> mesh_groups 0 0 (mf_meshes f) \<noteq> [])"

lemma finite_listed:
  assumes "listed w = items_of UNIV (map_of (rw_renderables w))"
  shows "finite (listed w)"
proof -
  have "items_of UNIV (map_of (rw_renderables w)) \<subseteq> (\<lambda>j. the (rd_item (the (map_of (rw_renderables w) j)))) ` dom (map_of (rw_renderables w))"
    by (force simp: items_of_def)
  then show ?thesis
    unfolding assms using finite_dom_map_of finite_surj by metis
qed

lemma in_listed:
  assumes "wf_omap (rl_render_items w)"
  shows "listed w = (\<Union>(k, ps) \<in> set (rl_render_items w). ps)"
proof -
  have "(k, ps) \<in> set (rl_render_items w) \<longleftrightarrow> map_of (rl_render_items w) k = Some ps" for k ps
    using distinct_om_keys [OF assms] by (simp add: om_keys_def)
  then show ?thesis
    by (fastforce simp: listed_def om_get_def split: option.splits)
qed

lemma shown_item:
  assumes s: "render_sound E w" and r: "map_of (rw_renderables w) i = Some rd" "shown E w i rd"
  obtains p it b m f vb where "rd_item rd = Some p" "rw_items w p = Some it" "ri_vbo it = Some b" "rd_mesh rd = Some m" "rw_files w m = Some f"
    "rl_mesh_buffers w m = Some b" "rw_vbos w b = Some vb" "vb_format vb = VF_FULL" "holds_meshes (re_packing E) (mf_meshes f) vb" "ri_groups it = vb_groups vb"
    "drawable VF_FULL (mf_meshes f)" "(\<forall>g \<in> set (ri_groups it). has_material (rw_graphics w) g) \<longleftrightarrow> has_materials w rd"
proof -
  have s': "sound_with E (map_of (rw_renderables w)) w"
    using s by (simp add: render_sound_def)
  obtain p it m b vb f where a: "rd_item rd = Some p" "rw_items w p = Some it" "rd_mesh rd = Some m" "ri_vbo it = Some b"
    "rl_mesh_buffers w m = Some b" "rw_vbos w b = Some vb" "rw_files w m = Some f" "vb_format vb = VF_FULL"
    "holds_meshes (re_packing E) (mf_meshes f) vb" "ri_groups it = vb_groups vb"
    using r(2) unfolding shown_def by blast
  have d: "drawable VF_FULL (mf_meshes f)"
    using sound_withD(4) [OF s'] r(1) a(3,7) unfolding meshes_ok_def by fastforce
  have "groups_safe w vb"
    using buffers_okD(2) [OF sound_withD(1) [OF s'] a(5)] a(6) by auto
  then have "\<And>g. g \<in> set (vb_groups vb) \<Longrightarrow> has_material (rw_graphics w) g \<longleftrightarrow> mesh_groups 0 0 (mf_meshes f) \<noteq> []"
    using a(9) unfolding groups_safe_def holds_meshes_def has_material_def by fastforce
  moreover have "vb_groups vb \<noteq> []"
    by (rule holds_meshes_groups [OF a(9)])
  ultimately have "(\<forall>g \<in> set (ri_groups it). has_material (rw_graphics w) g) \<longleftrightarrow> mesh_groups 0 0 (mf_meshes f) \<noteq> []"
    unfolding a(10) by (metis last_in_set)
  then have "(\<forall>g \<in> set (ri_groups it). has_material (rw_graphics w) g) \<longleftrightarrow> has_materials w rd"
    using a(3,7) by (auto simp: has_materials_def)
  then show thesis
    using that a d by blast
qed

text \<open>After an update of the render list, the geometry pass makes all its accesses, and no null material is used, exactly
  when the mesh of every renderable that is visible has a material group; a mesh without one gets a single group that has no
  material, and drawing it ends the program.
\<close>

theorem geometry_pass_defined_iff:
  assumes "render_sound E w0" and "driver_maps E" and "0 \<le> delta" and "UpdateRenderList E delta w0 = Some w" and "bones_ok w"
    and "gf_textures (rw_graphics w0) ''default'' \<noteq> None" and "gf_textures (rw_graphics w0) ''default_sp'' \<noteq> None" and "rw_shaders w0 visual \<noteq> None"
  shows "geometry_pass loc visual vp v w \<noteq> None
    \<longleftrightarrow> (\<forall>i rd. map_of (rw_renderables w) i = Some rd \<and> visible rd \<longrightarrow> has_materials w rd)"
proof -
  let ?R = "map_of (rw_renderables w)"
  have w: "render_sound E w" "\<And>i rd. ?R i = Some rd \<Longrightarrow> visible rd \<Longrightarrow> shown E w i rd" "listed w = items_of UNIV ?R"
    "rw_shaders w = rw_shaders w0" "gf_textures (rw_graphics w) = gf_textures (rw_graphics w0)"
    using UpdateRenderList_sound [OF assms(1-3)] assms(4) by auto
  have wf: "wf_omap (rl_render_items w)"
    using w(1) by (simp add: render_sound_def)
  obtain t0 t1 s where t: "gf_textures (rw_graphics w) ''default'' = Some t0" "gf_textures (rw_graphics w) ''default_sp'' = Some t1"
    "rw_shaders w visual = Some s"
    using assms(6-8) w(4,5) by auto
  define Q where "Q = (\<lambda>p. \<forall>it. rw_items w p = Some it \<longrightarrow> (\<forall>g \<in> set (ri_groups it). has_material (rw_graphics w) g))"
  have fin: "finite ps" if "(k, ps) \<in> set (rl_render_items w)" for k ps
    using finite_listed [OF w(3)] that unfolding in_listed [OF wf] by (auto intro: finite_subset)
  have d: "draw_item w (t0, t1) L p \<noteq> None \<longleftrightarrow> Q p" if "(k, ps) \<in> set (rl_render_items w)" "p \<in> ps" for L p k ps
  proof -
    have "p \<in> listed w"
      using that unfolding in_listed [OF wf] by auto
    then obtain i rd where i: "?R i = Some rd" "visible rd" "rd_item rd = Some p"
      unfolding w(3) items_of_def by blast
    obtain it b where "rw_items w p = Some it" "ri_vbo it = Some b"
      using shown_item [OF w(1) i(1) w(2) [OF i(1,2)]] i(3) by (metis option.inject)
    then show ?thesis
      using draw_item_defined [OF assms(5)] by (simp add: Q_def)
  qed
  have "geometry_pass loc visual vp v w \<noteq> None \<longleftrightarrow> (\<forall>(k, ps) \<in> set (rl_render_items w). \<forall>p \<in> ps. Q p)"
    by (rule geometry_pass_defined [OF t fin d])
  also have "\<dots> \<longleftrightarrow> (\<forall>p \<in> listed w. Q p)"
    unfolding in_listed [OF wf] by auto
  also have "\<dots> \<longleftrightarrow> (\<forall>i rd. ?R i = Some rd \<and> visible rd \<longrightarrow> has_materials w rd)"
  proof -
    have "Q p \<longleftrightarrow> has_materials w rd" if i: "?R i = Some rd" "visible rd" "rd_item rd = Some p" for i rd p
      by (rule shown_item [OF w(1) i(1) w(2) [OF i(1,2)]]) (use i(3) in \<open>auto simp: Q_def\<close>)
    moreover have "\<exists>p. rd_item rd = Some p" if i: "?R i = Some rd" "visible rd" for i rd
      using shown_item [OF w(1) i(1) w(2) [OF i]] by metis
    ultimately show ?thesis
      unfolding w(3) items_of_def by blast
  qed
  finally show ?thesis .
qed

text \<open>The draws of one render item.\<close>

definition item_draws :: "render_world \<Rightarrow> nat \<Rightarrow> (nat option \<times> nat \<times> nat) list" where
  "item_draws w p = (case rw_items w p of None \<Rightarrow> [] | Some it \<Rightarrow> map (group_draw (the (ri_vbo it))) (ri_groups it))"

text \<open>A visible renderable has a render item, which draws the groups of a buffer that holds the renderable's mesh.\<close>

lemma visible_item:
  assumes "render_sound E w" and "map_of (rw_renderables w) i = Some rd" and "shown E w i rd" and "rd_item rd = Some p"
  shows "\<exists>b m f vb. rd_mesh rd = Some m \<and> rw_files w m = Some f \<and> rl_mesh_buffers w m = Some b \<and> rw_vbos w b = Some vb
    \<and> vb_format vb = VF_FULL \<and> holds_meshes (re_packing E) (mf_meshes f) vb \<and> drawable VF_FULL (mf_meshes f)
    \<and> set (item_draws w p) = group_draw b ` set (vb_groups vb)"
  by (rule shown_item [OF assms(1-3)]) (use assms(4) in \<open>auto simp: item_draws_def\<close>)

lemma scene_draws:
  assumes "render_sound E w0" and "driver_maps E" and "0 \<le> delta" and "UpdateRenderList E delta w0 = Some w" and "bones_ok w"
    and "geometry_pass loc visual vp v w = Some cs"
  shows "set (draws None cs)
    = {x. \<exists>i rd p. map_of (rw_renderables w) i = Some rd \<and> visible rd \<and> rd_item rd = Some p \<and> x \<in> set (item_draws w p)}"
proof -
  have w: "render_sound E w" "listed w = items_of UNIV (map_of (rw_renderables w))"
    using UpdateRenderList_sound [OF assms(1-3)] assms(4) by auto
  have wf: "wf_omap (rl_render_items w)"
    using w(1) by (simp add: render_sound_def)
  have fin: "finite ps" if "(k, ps) \<in> set (rl_render_items w)" for k ps
    using finite_listed [OF w(2)] that unfolding in_listed [OF wf] by (auto intro: finite_subset)
  have d: "\<forall>va. draws va ys = item_draws w p" if dr: "draw_item w t L p = Some ys" for t L p ys
  proof -
    obtain it b where "rw_items w p = Some it" "ri_vbo it = Some b"
      using dr by (auto simp: draw_item_def bind_eq_Some_conv)
    then show ?thesis
      using draw_item_draws [OF assms(5) _ _ dr] by (simp add: item_draws_def)
  qed
  have "set (draws None cs) = (\<Union>(k, ps) \<in> set (rl_render_items w). \<Union>p \<in> ps. set (item_draws w p))"
    by (rule geometry_pass_draws [OF assms(6) fin d])
  then have "set (draws None cs) = (\<Union>p \<in> listed w. set (item_draws w p))"
    unfolding in_listed [OF wf] by auto
  then show ?thesis
    unfolding w(2) items_of_def by blast
qed

lemma drawn_group_iff:
  assumes "holds_meshes G ms vb"
  shows "(Some b, n, s) \<in> group_draw b ` set (vb_groups vb) \<longleftrightarrow> (\<exists>k. (k, s, n) \<in> set (drawn_groups ms))"
proof -
  have "set (drawn_groups ms) = group_range ` set (vb_groups vb)"
    using assms by (metis holds_meshes_def list.set_map)
  then show ?thesis
    by (auto simp: group_draw_def group_range_def image_iff)
qed


text \<open>The indices that a draw of a visible renderable reads were written, and name vertices that were.\<close>

lemma drawn_indices_written:
  assumes "render_sound E w" and s: "\<And>i rd. map_of (rw_renderables w) i = Some rd \<Longrightarrow> visible rd \<Longrightarrow> shown E w i rd"
    and x: "(Some b, n, s) \<in> {x. \<exists>i rd p. map_of (rw_renderables w) i = Some rd \<and> visible rd \<and> rd_item rd = Some p \<and> x \<in> set (item_draws w p)}"
    and q: "q < n"
  shows "\<exists>vb x y. rw_vbos w b = Some vb \<and> read_at (vb_indices vb) (s + q) = Some x \<and> read_at (vb_verts vb) x = Some y"
proof -
  obtain i rd p where i: "map_of (rw_renderables w) i = Some rd" "visible rd" "rd_item rd = Some p" "(Some b, n, s) \<in> set (item_draws w p)"
    using x by blast
  obtain c m f vb where a: "rw_vbos w c = Some vb" "vb_format vb = VF_FULL" "holds_meshes (re_packing E) (mf_meshes f) vb"
    "drawable VF_FULL (mf_meshes f)" "set (item_draws w p) = group_draw c ` set (vb_groups vb)" "rw_files w m = Some f"
    using visible_item [OF assms(1) i(1) s [OF i(1,2)] i(3)] by blast
  obtain g where g: "g \<in> set (vb_groups vb)" "b = c" "n = vg_index_count g" "s = vg_start g"
    using i(4) a(5) by (auto simp: group_draw_def)
  have "drawn_vertex vb g q \<noteq> None"
    using holds_meshes_drawn [OF _ a(3) g(1), of q] a(4) q unfolding a(2) g(3) by blast
  then show ?thesis
    using a(1) g by (auto simp: drawn_vertex_def split: option.splits)
qed


subsection \<open>Without animations\<close>

definition still :: "render_world \<Rightarrow> bool" where
  "still w \<longleftrightarrow> rw_animation w = Map.empty \<and> (\<forall>p it. rw_items w p = Some it \<longrightarrow> \<not> ri_animated it)"

lemma still_parts:
  assumes "still w"
  shows "drop_item rd w = (rd1, w1) \<Longrightarrow> still w1" "item_for rd w = (p, w1) \<Longrightarrow> still w1" "buffer_for E m w = Some (b, w1) \<Longrightarrow> still w1"
    "update_groups E p w = Some w1 \<Longrightarrow> still w1" "place_item E i rd p w = Some w1 \<Longrightarrow> still w1" "animate_item E delta i p w = Some w1 \<Longrightarrow> still w1"
    "still (list_item s p w)" "still (put_renderable i rd w)"
  using assms by (auto simp: still_def drop_item_def item_for_def new_render_item_def buffer_for_def update_groups_def place_item_def animate_item_def
      list_item_def put_renderable_def bind_eq_Some_conv Let_def split: option.splits if_splits)

lemma still_show_mesh: "still w \<Longrightarrow> show_mesh E m rd w = Some (rd1, w1) \<Longrightarrow> still w1"
proof -
  assume s: "still w" and m: "show_mesh E m rd w = Some (rd1, w1)"
  obtain b w2 vb where b: "buffer_for E m w = Some (b, w2)" "rw_vbos w2 b = Some vb"
    using m by (auto simp: show_mesh_def bind_eq_Some_conv)
  have s2: "still w2"
    by (rule still_parts(3) [OF s b(1)])
  show "still w1"
  proof (cases "vb_groups vb = []")
    case True
    then show ?thesis
      using m b still_parts(1) [OF s2] by (simp add: show_mesh_def)
  next
    case False
    obtain p w3 where p: "item_for rd w2 = (p, w3)" by (cases "item_for rd w2")
    show ?thesis
      using m b False p still_parts(2) [OF s2 p] by (auto simp: show_mesh_def bind_eq_Some_conv still_def split: if_splits)
  qed
qed

lemma still_update_renderable:
  assumes s: "still w" and u: "update_renderable E delta i w = Some w1"
  shows "still w1"
proof -
  obtain rd where rd: "map_of (rw_renderables w) i = Some rd"
    using u by (auto simp: update_renderable_def bind_eq_Some_conv)
  show ?thesis
  proof (cases "rd_hidden rd")
    case False
    obtain rd1 w2 where r: "refresh_item E rd w = Some (rd1, w2)"
      using u rd False by (auto simp: update_renderable_def bind_eq_Some_conv)
    have s2: "still w2"
      using r s still_parts(1) [OF s] still_show_mesh [OF s]
      by (auto simp: refresh_item_def bind_eq_Some_conv split: option.splits if_splits)
    show ?thesis
    proof (cases "rd_item rd1")
      case None
      then show ?thesis
        using u rd False r still_parts(8) [OF s2] by (auto simp: update_renderable_def)
    next
      case (Some p)
      obtain w3 w4 w5 where w: "update_groups E p w2 = Some w3" "place_item E i rd1 p w3 = Some w4" "animate_item E delta i p w4 = Some w5"
        "w1 = list_item (rd_shader (default_shading w5 rd1)) p (put_renderable i (default_shading w5 rd1) w5)"
        using u rd False r Some by (auto simp: update_renderable_def bind_eq_Some_conv Let_def)
      have "still w5"
        by (rule still_parts(6) [OF still_parts(5) [OF still_parts(4) [OF s2 w(1)] w(2)] w(3)])
      then show ?thesis
        unfolding w(4) by (intro still_parts(7,8))
    qed
  qed (use u rd s in \<open>simp add: update_renderable_def\<close>)
qed

lemma still_bones:
  assumes "still w" and "UpdateRenderList E delta w = Some w1"
  shows "bones_ok w1"
proof -
  obtain w2 where w2: "each (update_renderable E delta) (om_keys (rw_renderables w)) (start_list w) = Some w2"
    "w1 = fold (update_view E) (rw_views w2) w2"
    using assms(2) by (auto simp: UpdateRenderList_def bind_eq_Some_conv)
  have "still w2"
  proof (rule each_keeps [OF w2(1)])
    show "still (start_list w)"
      using assms(1) by (simp add: still_def start_list_def)
  qed (rule still_update_renderable)
  moreover obtain vs c where "w1 = w2\<lparr>rw_views := vs, rl_current_view := c\<rparr>"
    using update_views_frame w2(2) by metis
  ultimately show ?thesis
    by (auto simp: still_def bones_ok_def)
qed

definition textured_scene :: "real mesh_file \<Rightarrow> render_world" where
  "textured_scene f = (scene [(1, mesh_renderable 0)] [0 \<mapsto> f])\<lparr>rw_graphics := no_graphics\<lparr>gf_textures := [''default'' \<mapsto> 0, ''default_sp'' \<mapsto> 1]\<rparr>\<rparr>"

lemma textured_scene_sound:
  assumes "drawable VF_FULL (mf_meshes f)"
  shows "render_sound plain_env (textured_scene f)" "still (textured_scene f)"
proof -
  show "render_sound plain_env (textured_scene f)"
    using assms by (simp add: render_sound_def sound_with_def textured_scene_def scene_def buffers_ok_def item_ok_def groups_ok_def mesh_renderable_def
        new_renderable_def unshared_def anims_ok_def wf_omap_Cons om_keys_def meshes_ok_def graphics_ok_def no_graphics_def)
  show "still (textured_scene f)"
    by (simp add: still_def textured_scene_def scene_def)
qed

text \<open>One triangle, without a material.\<close>

definition bare_triangle :: "real mesh_file" where
  "bare_triangle = \<lparr>mf_meshes = [triangle 0 []], mf_name = ''bare'', mf_dirty = True\<rparr>"

lemma bare_drawable: "drawable VF_FULL (mf_meshes bare_triangle)"
proof -
  have "wf_mesh (triangle 0 [])"
    by (simp add: triangle_wf)
  then show ?thesis
    using wf_mesh_convertible [of "triangle 0 []" VF_FULL]
    by (simp add: drawable_def bare_triangle_def has_format_def all_vertices_def all_indices_def) (simp add: triangle_def vert_count_def)
qed

lemma textured_update:
  assumes "drawable VF_FULL (mf_meshes f)"
  obtains w rd where "UpdateRenderList plain_env 1 (textured_scene f) = Some w" "bones_ok w" "map_of (rw_renderables w) 1 = Some rd" "visible rd"
    "rd_mesh rd = Some 0" "map_of (rw_renderables w) = [1 \<mapsto> rd]" "map_option mf_meshes (rw_files w 0) = Some (mf_meshes f)"
proof -
  let ?w = "textured_scene f"
  obtain w where w: "UpdateRenderList plain_env 1 ?w = Some w" "render_sound plain_env w"
    "\<forall>j. wish (map_of (rw_renderables w) j) = wish (map_of (rw_renderables ?w) j)" "contents w = contents ?w"
    using UpdateRenderList_sound [OF textured_scene_sound(1) [OF assms] plain_driver, of 1] by auto
  have start: "map_of (rw_renderables ?w) = [1 \<mapsto> mesh_renderable 0]"
    by (simp add: textured_scene_def scene_def)
  have "wish (map_of (rw_renderables w) 1) = Some (False, Some 0)"
    using w(3) start by (simp add: wish_def mesh_renderable_def new_renderable_def)
  then obtain rd where rd: "map_of (rw_renderables w) 1 = Some rd" "\<not> rd_hidden rd" "rd_mesh rd = Some 0"
    by (auto simp: wish_def)
  have "map_of (rw_renderables w) j = None" if "j \<noteq> 1" for j
    using w(3) start that by (auto simp: wish_def dest!: spec [of _ j])
  then have "map_of (rw_renderables w) = [1 \<mapsto> rd]"
    using rd(1) by (auto simp: fun_eq_iff)
  moreover have "map_option mf_meshes (rw_files w 0) = Some (mf_meshes f)"
    using fun_cong [OF w(4), of 0] by (simp add: contents_def textured_scene_def scene_def)
  ultimately show thesis
    using that w(1) rd still_bones [OF textured_scene_sound(2) [OF assms]] by (simp add: visible_def)
qed

lemma textured_resources:
  "gf_textures (rw_graphics (textured_scene f)) ''default'' \<noteq> None" "gf_textures (rw_graphics (textured_scene f)) ''default_sp'' \<noteq> None"
  "rw_shaders (textured_scene f) ''deferred'' \<noteq> None"
  by (simp_all add: textured_scene_def scene_def no_graphics_def)

lemma two_triangles_groups: "drawn_groups (mf_meshes two_triangles) = [(1, 3, 3)]" "mesh_groups 0 0 (mf_meshes two_triangles) \<noteq> []"
  by (simp_all add: drawn_groups_def two_triangles_def triangle_def mesh_indices_def vert_count_def)

theorem geometry_pass_defined_iff_witness:
  "\<forall>loc vp v. \<exists>w1 w2. UpdateRenderList plain_env 1 (textured_scene bare_triangle) = Some w1 \<and> geometry_pass loc ''deferred'' vp v w1 = None
     \<and> UpdateRenderList plain_env 1 (textured_scene two_triangles) = Some w2 \<and> geometry_pass loc ''deferred'' vp v w2 \<noteq> None"
proof (intro allI)
  fix loc vp v
  obtain w1 rd1 where w1: "UpdateRenderList plain_env 1 (textured_scene bare_triangle) = Some w1" "bones_ok w1" "map_of (rw_renderables w1) 1 = Some rd1"
    "visible rd1" "rd_mesh rd1 = Some 0" "map_option mf_meshes (rw_files w1 0) = Some (mf_meshes bare_triangle)"
    by (rule textured_update [OF bare_drawable])
  obtain w2 rd2 where w2: "UpdateRenderList plain_env 1 (textured_scene two_triangles) = Some w2" "bones_ok w2" "map_of (rw_renderables w2) = [1 \<mapsto> rd2]"
    "visible rd2" "rd_mesh rd2 = Some 0" "map_option mf_meshes (rw_files w2 0) = Some (mf_meshes two_triangles)"
    by (rule textured_update [OF triangles_drawable])
  have "mesh_groups 0 0 (mf_meshes bare_triangle) = []"
    by (simp add: bare_triangle_def triangle_def)
  then have "\<not> has_materials w1 rd1" "has_materials w2 rd2"
    using w1(5,6) w2(5,6) two_triangles_groups(2) by (auto simp: has_materials_def)
  then have "geometry_pass loc ''deferred'' vp v w1 = None" "geometry_pass loc ''deferred'' vp v w2 \<noteq> None"
    using geometry_pass_defined_iff [OF textured_scene_sound(1) [OF bare_drawable] plain_driver _ w1(1,2) textured_resources, of loc vp v]
      geometry_pass_defined_iff [OF textured_scene_sound(1) [OF triangles_drawable] plain_driver _ w2(1,2) textured_resources, of loc vp v]
      w1(3,4) w2(3) by auto
  then show "\<exists>w1 w2. UpdateRenderList plain_env 1 (textured_scene bare_triangle) = Some w1 \<and> geometry_pass loc ''deferred'' vp v w1 = None
     \<and> UpdateRenderList plain_env 1 (textured_scene two_triangles) = Some w2 \<and> geometry_pass loc ''deferred'' vp v w2 \<noteq> None"
    using w1(1) w2(1) by blast
qed



subsection \<open>Events, viewport and console\<close>

text \<open>The events of a frame are handled kind by kind, the created entities before the destroyed ones. So an entity that was
  destroyed and created again before the frame, in that order, is left without its renderable, animation, scale and lights.
\<close>

theorem recreated_entity_not_drawn:
  assumes "process_events E N ev rs = Some rs1" and "i \<in> set (ev_destroyed ev)"
  shows "map_of (rw_renderables (rs_world rs1)) i = None \<and> rw_animation (rs_world rs1) i = None \<and> rw_scale (rs_world rs1) i = None
    \<and> map_of (rs_point_lights rs1) i = None \<and> map_of (rs_dir_lights rs1) i = None"
proof -
  let ?gone = "\<lambda>rs. map_of (rw_renderables (rs_world rs)) i = None \<and> rw_animation (rs_world rs) i = None \<and> rw_scale (rs_world rs) i = None
    \<and> map_of (rs_point_lights rs) i = None \<and> map_of (rs_dir_lights rs) i = None"
  have keep: "?gone rs \<Longrightarrow> ?gone (rs_On_EntityDestroyed j rs)" and gone: "?gone (rs_On_EntityDestroyed i rs)" for j rs
    by (simp_all add: rs_On_EntityDestroyed_def Let_def)
  have stays: "?gone rs \<Longrightarrow> ?gone (fold rs_On_EntityDestroyed is rs)" for "is" rs
  proof (induction "is" arbitrary: rs)
    case (Cons j js)
    show ?case
      using Cons.IH [OF keep [OF Cons.prems]] by simp
  qed simp
  have "i \<in> set is \<Longrightarrow> ?gone (fold rs_On_EntityDestroyed is rs)" for "is" rs
  proof (induction "is" arbitrary: rs)
    case (Cons j js)
    show ?case
    proof (cases "i = j")
      case True
      then show ?thesis
        using stays [OF gone, of js] by simp
    next
      case False
      then show ?thesis
        using Cons by simp
    qed
  qed simp
  then show ?thesis
    using assms by (auto simp: process_events_def bind_eq_Some_conv Let_def)
qed

text \<open>Whatever size the window reports, also a negative one, the viewport has at least one pixel in each direction, its inverse
  size is exact, and the projection is made for an aspect ratio of at least one.
\<close>

theorem viewport_never_empty:
  "let v = rs_viewport (rs_On_WindowResized N width height rs)
   in 1 \<le> vp_width v \<and> 1 \<le> vp_height v \<and> vp_inv_width v * real (unat (vp_width v)) = 1 \<and> vp_inv_height v * real (unat (vp_height v)) = 1
      \<and> 1 \<le> aspect_ratio v \<and> vp_projection v = reverse_depth (rn_perspective N (aspect_ratio v))"
proof -
  have pos: "real (unat (max 1 x)) \<noteq> 0" for x :: u32
  proof -
    have "max 1 x \<noteq> 0"
      by (simp add: max_def split: if_splits) (use word_le_0_iff in force)
    then show ?thesis
      by (simp add: unat_eq_0 del: of_nat_unat)
  qed
  show ?thesis
    using pos by (simp add: rs_On_WindowResized_def SetViewportSize_def UpdateViewport_def Let_def aspect_ratio_def del: of_nat_unat)
qed

lemma pieces_no_blank: "\<forall>c \<in> set s. c \<noteq> CHR '' '' \<Longrightarrow> pieces s = [s]"
  by (induction s) auto

lemma SplitString_no_blank: "\<forall>c \<in> set s. c \<noteq> CHR '' '' \<Longrightarrow> SplitString s = [s]"
  by (simp add: SplitString_def pieces_no_blank Let_def)

text \<open>The command that starts and stops an animation reads an argument that is not there when it is called with
  the number of an animated entity alone.
\<close>

theorem rs_anim_needs_verb:
  assumes "s \<noteq> []" and "\<forall>c \<in> set s. is_digit c" and "digits_value s < 2 ^ 63" and "rw_animation w (of_nat (digits_value s)) = Some a"
  shows "rs_anim s w = Inr None"
proof -
  have d: "is_digit c \<Longrightarrow> c \<noteq> CHR '' '' \<and> \<not> is_space c \<and> c \<noteq> CHR ''-'' \<and> c \<noteq> CHR ''+''" for c
    by (auto simp: is_digit_def is_space_def)
  have split: "SplitString s = [s]"
    using assms(2) d by (intro SplitString_no_blank) auto
  obtain c cs where c: "s = c # cs" using assms(1) by (cases s) auto
  have "dropWhile is_space s = s" "take_sign s = (False, s)"
    using d [of c] assms(2) by (simp_all add: c take_sign_def)
  moreover have tw: "takeWhile is_digit s = s"
    using assms(2) by (simp add: takeWhile_eq_all_conv)
  ultimately have "stoll s = Inr (int (digits_value s))"
    using assms(1,3) by (simp add: stoll_def Let_def tw)
  then show ?thesis
    using assms(4) split by (simp add: rs_anim_def at_index_def Let_def split: option.split)
qed

definition empty_system :: "render_world \<Rightarrow> render_system" where
  "empty_system w = \<lparr>rs_world = w, rs_point_lights = [], rs_dir_lights = [],
     rs_viewport = \<lparr>vp_width = 0, vp_height = 0, vp_inv_width = 0, vp_inv_height = 0, vp_projection = []\<rparr>, rs_debug_gbuffer = False\<rparr>"

definition plain_names :: render_names where
  "plain_names = \<lparr>rn_mesh = (\<lambda>s. Some 0), rn_animation = (\<lambda>s. None), rn_md5 = (\<lambda>s. None), rn_complete3 = (\<lambda>x y z. \<lparr>qw = 1, qx = x, qy = y, qz = z\<rparr>),
     rn_perspective = (\<lambda>a. [])\<rparr>"

theorem recreated_entity_not_drawn_witness:
  "\<exists>rs1. process_events plain_env plain_names
       \<lparr>ev_resized = [], ev_created = [(7, [(0, P_renderable (empty_p_renderable\<lparr>pr_mesh_name := Some ''m''\<rparr>))])], ev_destroyed = [7]\<rparr>
       (empty_system (scene [(7, mesh_renderable 0)] [0 \<mapsto> two_triangles])) = Some rs1
     \<and> map_of (rw_renderables (rs_world rs1)) 7 = None"
proof -
  have "\<exists>rs1. process_events plain_env plain_names
       \<lparr>ev_resized = [], ev_created = [(7, [(0, P_renderable (empty_p_renderable\<lparr>pr_mesh_name := Some ''m''\<rparr>))])], ev_destroyed = [7]\<rparr>
       (empty_system (scene [(7, mesh_renderable 0)] [0 \<mapsto> two_triangles])) = Some rs1"
    by (simp add: process_events_def rs_On_EntityCreated_def create_drawn_def Let_def)
  then show ?thesis
    using recreated_entity_not_drawn [of plain_env plain_names
       "\<lparr>ev_resized = [], ev_created = [(7, [(0, P_renderable (empty_p_renderable\<lparr>pr_mesh_name := Some ''m''\<rparr>))])], ev_destroyed = [7]\<rparr>" _ _ 7]
    by fastforce
qed

theorem rs_anim_needs_verb_witness:
  "rs_anim ''5'' ((scene [] Map.empty)\<lparr>rw_animation := [5 \<mapsto> 0], rw_animations := [0 \<mapsto> new_animation]\<rparr>) = Inr None"
  by (rule rs_anim_needs_verb [of _ _ 0]) (simp_all add: is_digit_def digits_value_def)

end
