(* ===== verification/GL_Names.thy ===== *)
theory GL_Names
  imports Decimal
begin

text \<open>Names of objects on the graphics card: a driver that gives the first free one, with which the properties of the graphics code are applied to examples.\<close>

lemma unat_less_2_32: "unat (w :: u32) < 2 ^ 32"
  using unsigned_less [where 'a = nat, of w] by simp

definition names :: "u32 list" where
  "names = map of_nat [1..<2 ^ 32]"

definition first_free :: "(u32 \<rightharpoonup> 'a) \<Rightarrow> u32 option" where
  "first_free m = find (\<lambda>a. m a = None) names"

definition free_name :: "(u32 \<rightharpoonup> 'a) \<Rightarrow> u32" where
  "free_name m = (case first_free m of None \<Rightarrow> 1 | Some a \<Rightarrow> a)"

lemma set_names: "a \<in> set names \<longleftrightarrow> a \<noteq> 0"
proof
  assume "a \<noteq> 0"
  then have "unat a \<noteq> 0"
    by (simp add: unat_eq_0)
  then have "unat a \<in> {1..<2 ^ 32}"
    using unat_less_2_32 [of a] unfolding atLeastLessThan_iff by (intro conjI) linarith+
  moreover have "a = of_nat (unat a)"
    by simp
  ultimately show "a \<in> set names"
    unfolding names_def set_map set_upt by (rule rev_image_eqI)
next
  assume "a \<in> set names"
  then obtain i where i: "a = of_nat i" "1 \<le> i" "i < 2 ^ 32"
    unfolding names_def set_map set_upt by (meson atLeastLessThan_iff imageE)
  then have "\<not> 2 ^ 32 dvd i"
    using nat_dvd_not_less [of i "2 ^ 32"] by linarith
  then show "a \<noteq> 0"
    using i(1) word_of_nat_eq_0_iff [where 'a = 32, of i] by simp
qed

lemma first_free_SomeD: "first_free m = Some a \<Longrightarrow> a \<noteq> 0 \<and> m a = None"
proof -
  assume "first_free m = Some a"
  then obtain i where i: "i < length names" "m (names ! i) = None" "a = names ! i"
    by (auto simp: first_free_def find_Some_iff)
  then have "a \<in> set names"
    by (metis nth_mem)
  then show ?thesis
    using i set_names by simp
qed

lemma first_free_exists: "a \<noteq> 0 \<Longrightarrow> m a = None \<Longrightarrow> first_free m \<noteq> None"
  using set_names [of a] by (auto simp: first_free_def find_None_iff)

lemma free_name_nonzero: "free_name m \<noteq> 0"
  by (cases "first_free m") (simp_all add: free_name_def first_free_SomeD)

lemma free_name_free: "a \<noteq> 0 \<Longrightarrow> m a = None \<Longrightarrow> m (free_name m) = None"
  using first_free_exists [of a m] by (cases "first_free m") (simp_all add: free_name_def first_free_SomeD)

end
