(* ===== verification/Pixels.thy ===== *)
theory Pixels
  imports GL_Names Vfs_Path "HOL-Library.Monad_Syntax"
begin

text \<open>
  Pixel buffers (client/resources/pixel-buffer.cpp): images in memory, with their sizes in 32 bits. The decoder of image files is a
  parameter. Buffers are shared objects at addresses. The result \<open>None\<close> is an access outside the block of pixels, or a lock that is never
  given.
\<close>

subsection \<open>Modes\<close>

definition MODEFLAG_COLOR :: u32 where "MODEFLAG_COLOR = 2"
definition MODEFLAG_ALPHA :: u32 where "MODEFLAG_ALPHA = 4"
definition MODEFLAG_GAMMA :: u32 where "MODEFLAG_GAMMA = 8"
definition UNKNOWN_MODE :: u32 where "UNKNOWN_MODE = 0xffffffff"
definition MONOCHROME :: u32 where "MONOCHROME = 0"
definition MONOCHROME_A :: u32 where "MONOCHROME_A = MODEFLAG_ALPHA"
definition COLOR_RGB :: u32 where "COLOR_RGB = MODEFLAG_COLOR"
definition COLOR_RGBA :: u32 where "COLOR_RGBA = MODEFLAG_COLOR OR MODEFLAG_ALPHA"
definition GAMMA_RGB :: u32 where "GAMMA_RGB = MODEFLAG_COLOR OR MODEFLAG_GAMMA"
definition GAMMA_RGBA :: u32 where "GAMMA_RGBA = MODEFLAG_COLOR OR MODEFLAG_GAMMA OR MODEFLAG_ALPHA"

lemmas mode_defs = MODEFLAG_COLOR_def MODEFLAG_ALPHA_def MODEFLAG_GAMMA_def UNKNOWN_MODE_def MONOCHROME_def MONOCHROME_A_def
  COLOR_RGB_def COLOR_RGBA_def GAMMA_RGB_def GAMMA_RGBA_def

definition mode_channels :: "u32 \<Rightarrow> u32 option" where
  "mode_channels mode =
     (if mode = COLOR_RGB \<or> mode = GAMMA_RGB then Some 3
      else if mode = COLOR_RGBA \<or> mode = GAMMA_RGBA then Some 4
      else if mode = MONOCHROME then Some 1
      else if mode = MONOCHROME_A then Some 2 else None)"

datatype filter_preference = DEFAULT_FILTER | NEAREST | LINEAR

subsection \<open>Buffers\<close>

record pixel_buffer =
  pb_image_x :: u32
  pb_image_y :: u32
  pb_width :: u32
  pb_height :: u32
  pb_pitch :: u32
  pb_pixelsize :: u32
  pb_depth :: u32
  pb_mode :: u32
  pb_filter :: filter_preference
  pb_dirty :: bool
  pb_block :: "byte list option"

definition new_pixel_buffer :: pixel_buffer where
  "new_pixel_buffer = \<lparr>pb_image_x = 0, pb_image_y = 0, pb_width = 0, pb_height = 0, pb_pitch = 0, pb_pixelsize = 0, pb_depth = 0,
     pb_mode = MONOCHROME, pb_filter = DEFAULT_FILTER, pb_dirty = False, pb_block = None\<rparr>"

definition BytesForBitSize :: "u32 \<Rightarrow> u32" where
  "BytesForBitSize bits = bits div 8 + (if bits AND 7 \<noteq> 0 then 1 else 0)"

text \<open>The products wrap around at 32 bits. A block that cannot be allocated throws, which is not modelled.\<close>

definition Create_pixels :: "u32 \<Rightarrow> u32 \<Rightarrow> u32 \<Rightarrow> u32 \<Rightarrow> pixel_buffer \<Rightarrow> bool \<times> pixel_buffer" where
  "Create_pixels width height bitsperchannel mode pb = (case mode_channels mode of
      None \<Rightarrow> (False, pb)
    | Some channels \<Rightarrow>
        let size = BytesForBitSize (bitsperchannel * channels) in
        (True, pb\<lparr>pb_pixelsize := size, pb_width := width, pb_height := height, pb_depth := bitsperchannel, pb_mode := mode,
           pb_image_x := 0, pb_image_y := 0, pb_dirty := True, pb_pitch := width * size,
           pb_block := Some (replicate (unat (width * size * height)) 0)\<rparr>))"

definition make_pixels :: "u32 \<Rightarrow> u32 \<Rightarrow> u32 \<Rightarrow> u32 \<Rightarrow> pixel_buffer" where
  "make_pixels width height bitspersample mode = snd (Create_pixels width height bitspersample mode new_pixel_buffer)"

text \<open>
  What the decoder gives for a file: the sizes it writes in any case, and for an image the number of its components with the
  bytes.
\<close>

record decoded =
  dc_width :: u32
  dc_height :: u32
  dc_image :: "(int \<times> byte list) option"

definition load_mode :: "bool \<Rightarrow> u32 \<Rightarrow> u32" where
  "load_mode gamma_space channels =
     (if channels = 3 then (if gamma_space then GAMMA_RGB else COLOR_RGB)
      else if channels = 4 then (if gamma_space then GAMMA_RGBA else COLOR_RGBA)
      else if channels = 1 then MONOCHROME
      else if channels = 2 then MONOCHROME_A else UNKNOWN_MODE)"

text \<open>Opening a file throws when it cannot be opened.\<close>

definition Load_pixels :: "path_error + decoded \<Rightarrow> bool \<Rightarrow> pixel_buffer \<Rightarrow> path_error + bool \<times> pixel_buffer" where
  "Load_pixels file gamma_space pb = (case file of Inl e \<Rightarrow> Inl e | Inr dc \<Rightarrow> Inr
     (let pb1 = pb\<lparr>pb_width := dc_width dc, pb_height := dc_height dc\<rparr> in case dc_image dc of
        None \<Rightarrow> (False, pb1)
      | Some (num_components, data) \<Rightarrow>
          let channels = word_of_int (max num_components 0); size = BytesForBitSize (8 * channels) in
          (True, pb1\<lparr>pb_mode := load_mode gamma_space channels, pb_depth := 8, pb_image_x := 0, pb_image_y := 0, pb_dirty := True,
             pb_pixelsize := size, pb_pitch := pb_width pb1 * size, pb_block := Some data\<rparr>)))"

definition Invalidate_pixels :: "pixel_buffer \<Rightarrow> pixel_buffer" where
  "Invalidate_pixels pb = pb\<lparr>pb_dirty := True\<rparr>"

definition Validate_pixels :: "pixel_buffer \<Rightarrow> pixel_buffer" where
  "Validate_pixels pb = pb\<lparr>pb_dirty := False\<rparr>"

definition SetFilter :: "filter_preference \<Rightarrow> pixel_buffer \<Rightarrow> pixel_buffer" where
  "SetFilter f pb = pb\<lparr>pb_filter := f\<rparr>"

subsection \<open>Shared buffers\<close>

record pixel_store =
  px_buffers :: "nat \<rightharpoonup> pixel_buffer"
  px_next :: nat
  px_names :: "string \<rightharpoonup> nat"

text \<open>The factory; an empty path loads nothing, and the result of the loading is not looked at. A buffer whose file throws stays under its name.\<close>

definition Create_pixels_named ::
    "(string \<Rightarrow> path_error + decoded) \<Rightarrow> string \<Rightarrow> string \<Rightarrow> bool \<Rightarrow> pixel_store \<Rightarrow> (path_error + nat) \<times> pixel_store" where
  "Create_pixels_named decode name filename gamma_space st =
     (let a = px_next st;
          put = (\<lambda>pb. st\<lparr>px_buffers := (px_buffers st)(a \<mapsto> pb), px_next := Suc a, px_names := (px_names st)(name \<mapsto> a)\<rparr>)
      in if filename = [] then (Inr a, put new_pixel_buffer)
         else (case Load_pixels (decode filename) gamma_space new_pixel_buffer of
             Inl e \<Rightarrow> (Inl e, put new_pixel_buffer)
           | Inr (_, pb) \<Rightarrow> (Inr a, put pb)))"

definition moved_from :: "pixel_buffer \<Rightarrow> pixel_buffer" where
  "moved_from rv = rv\<lparr>pb_height := 0, pb_width := 0, pb_pitch := 0, pb_block := None\<rparr>"

definition take_over :: "pixel_buffer \<Rightarrow> pixel_buffer \<Rightarrow> pixel_buffer" where
  "take_over rv pb = pb\<lparr>pb_width := pb_width rv, pb_height := pb_height rv, pb_pitch := pb_pitch rv, pb_depth := pb_depth rv,
     pb_pixelsize := pb_pixelsize rv, pb_mode := pb_mode rv, pb_image_x := pb_image_x rv, pb_image_y := pb_image_y rv,
     pb_dirty := pb_dirty rv, pb_block := pb_block rv\<rparr>"

text \<open>Both move operations lock both buffers; a buffer that is assigned to itself waits for its own lock.\<close>

definition move_construct :: "nat \<Rightarrow> pixel_store \<Rightarrow> (nat \<times> pixel_store) option" where
  "move_construct a st = map_option (\<lambda>rv. let b = px_next st in
     (b, st\<lparr>px_buffers := (px_buffers st)(a \<mapsto> moved_from rv, b \<mapsto> take_over rv new_pixel_buffer), px_next := Suc b\<rparr>)) (px_buffers st a)"

definition move_assign :: "nat \<Rightarrow> nat \<Rightarrow> pixel_store \<Rightarrow> pixel_store option" where
  "move_assign b a st = (if a = b then None else (case (px_buffers st b, px_buffers st a) of
      (Some pb, Some rv) \<Rightarrow> Some (st\<lparr>px_buffers := (px_buffers st)(b \<mapsto> take_over rv pb, a \<mapsto> moved_from rv)\<rparr>)
    | _ \<Rightarrow> None))"

subsection \<open>PPM output\<close>

text \<open>The sizes are printed as signed numbers. A shift by 32 bits or more is undefined.\<close>

definition signed_text :: "u32 \<Rightarrow> string" where
  "signed_text w = (if sint w < 0 then ''-'' else []) @ to_string (nat \<bar>sint w\<bar>)"

definition ppm_header :: "pixel_buffer \<Rightarrow> string option" where
  "ppm_header pb = (if pb_depth pb < 32 then Some (''P6'' @ [CHR 0x0A] @ signed_text (pb_width pb) @ [CHR 0x0A]
     @ signed_text (pb_height pb) @ [CHR 0x0A] @ to_string (2 ^ unat (pb_depth pb) - 1) @ [CHR 0x0A]) else None)"

definition block_size :: "pixel_buffer \<Rightarrow> nat" where
  "block_size pb = unat (pb_pitch pb * pb_height pb)"

text \<open>Bytes at given places; \<open>None\<close> outside the block.\<close>

definition bytes_at :: "byte list \<Rightarrow> nat list \<Rightarrow> byte list option" where
  "bytes_at p is = (if \<forall>i \<in> set is. i < length p then Some (map (\<lambda>i. p ! i) is) else None)"

text \<open>To the error output: byte after byte, leaving out every fourth. The counter \<open>b\<close> is the place modulo four.\<close>

definition ppm_stderr_places :: "pixel_buffer \<Rightarrow> nat list" where
  "ppm_stderr_places pb = (if pb_mode pb \<in> {COLOR_RGB, GAMMA_RGB} then [0..<block_size pb]
     else if pb_mode pb \<in> {COLOR_RGBA, GAMMA_RGBA} then filter (\<lambda>i. i mod 4 < 3) [0..<block_size pb] else [])"

text \<open>To a file: three bytes from every fourth place. The counter wraps around, so a size in the last four of 32 bits is never reached.\<close>

definition ppm_file_places :: "pixel_buffer \<Rightarrow> nat list" where
  "ppm_file_places pb = (if pb_mode pb \<in> {COLOR_RGB, GAMMA_RGB} then [0..<block_size pb]
     else if pb_mode pb \<in> {COLOR_RGBA, GAMMA_RGBA} then concat (map (\<lambda>k. [4 * k, 4 * k + 1, 4 * k + 2]) [0..<(block_size pb + 3) div 4]) else [])"

definition PPMDebug_stderr :: "pixel_buffer \<Rightarrow> (string \<times> byte list) option" where
  "PPMDebug_stderr pb = do {
     header \<leftarrow> ppm_header pb;
     bytes \<leftarrow> (case pb_block pb of None \<Rightarrow> Some [] | Some p \<Rightarrow> bytes_at p (ppm_stderr_places pb));
     Some (header, bytes) }"

definition PPMDebug_file :: "pixel_buffer \<Rightarrow> (string \<times> byte list) option" where
  "PPMDebug_file pb = (if pb_mode pb \<in> {COLOR_RGBA, GAMMA_RGBA} \<and> pb_block pb \<noteq> None \<and> 2 ^ 32 - 4 < block_size pb then None else do {
     header \<leftarrow> ppm_header pb;
     bytes \<leftarrow> (case pb_block pb of None \<Rightarrow> Some [] | Some p \<Rightarrow> bytes_at p (ppm_file_places pb));
     Some (header, bytes) })"

subsection \<open>The block of a buffer\<close>

lemma and_mask_eq_take_bit3: "bits AND 7 = take_bit 3 (bits :: u32)"
proof -
  have "mask 3 = (7 :: u32)"
    by (simp add: mask_eq_exp_minus_1)
  then show ?thesis
    by (metis take_bit_eq_mask)
qed

lemma ceiling_of_eight: "(n + 7) div 8 = (if n mod 8 = 0 then n div 8 else n div 8 + (1::nat))"
  by presburger

lemma unat_next_div_8: "unat (bits div 8 + 1) = unat (bits :: u32) div 8 + 1"
proof -
  have q: "unat (bits div 8) = unat bits div 8"
    by (simp add: unat_div)
  have "unat bits div 8 + 1 < 2 ^ 32"
    using unat_less_2_32 [of bits] div_times_less_eq_dividend [of "unat bits" 8] by simp
  then show ?thesis
    by (simp add: unat_word_ariths q)
qed

lemma BytesForBitSize_ceiling: "unat (BytesForBitSize bits) = (unat bits + 7) div 8"
proof -
  have "bits AND 7 = bits mod 8"
    unfolding and_mask_eq_take_bit3 by (simp add: take_bit_eq_mod)
  moreover have "bits mod 8 = 0 \<longleftrightarrow> unat bits mod 8 = 0"
    using unat_mod_distrib [of bits 8] unat_eq_0 [of "bits mod 8"] by simp
  moreover have "unat (bits div 8) = unat bits div 8"
    by (simp add: unat_div)
  ultimately show ?thesis
    unfolding BytesForBitSize_def ceiling_of_eight using unat_next_div_8 [of bits]
    by (cases "bits mod 8 = 0") (simp_all only: if_True if_False add_0_right simp_thms)
qed

lemma unat_mult_exact: "unat a * unat b < 2 ^ 32 \<Longrightarrow> unat (a * b) = unat a * unat (b :: u32)"
  by (simp add: unat_word_ariths)

text \<open>The place of a pixel in the block.\<close>

definition pixel_place :: "pixel_buffer \<Rightarrow> nat \<Rightarrow> nat \<Rightarrow> nat" where
  "pixel_place pb x y = y * (unat (pb_width pb) * unat (pb_pixelsize pb)) + x * unat (pb_pixelsize pb)"

definition pixels_inside :: "pixel_buffer \<Rightarrow> bool" where
  "pixels_inside pb \<longleftrightarrow> (\<exists>p. pb_block pb = Some p \<and>
     (\<forall>x y. x < unat (pb_width pb) \<and> y < unat (pb_height pb) \<longrightarrow> pixel_place pb x y + unat (pb_pixelsize pb) \<le> length p))"

lemma pixel_places_fit:
  assumes "0 < w" and "0 < h"
  shows "(\<forall>x y. x < w \<and> y < h \<longrightarrow> y * (w * s) + x * s + s \<le> n) \<longleftrightarrow> w * s * h \<le> (n::nat)"
proof
  obtain w1 h1 where wh: "w = Suc w1" "h = Suc h1"
    using assms gr0_implies_Suc by blast
  have eq: "h1 * (w * s) + w1 * s + s = w * s * h"
    unfolding wh by (simp add: algebra_simps)
  assume "\<forall>x y. x < w \<and> y < h \<longrightarrow> y * (w * s) + x * s + s \<le> n"
  then have "h1 * (w * s) + w1 * s + s \<le> n"
    unfolding wh by blast
  then show "w * s * h \<le> n"
    unfolding eq .
next
  assume n: "w * s * h \<le> n"
  show "\<forall>x y. x < w \<and> y < h \<longrightarrow> y * (w * s) + x * s + s \<le> n"
  proof (intro allI impI)
    fix x y assume xy: "x < w \<and> y < h"
    have "x * s + s \<le> w * s"
      using mult_le_mono1 [of "Suc x" w s] xy by simp
    then have "y * (w * s) + x * s + s \<le> Suc y * (w * s)"
      by simp
    also have "\<dots> \<le> h * (w * s)"
      by (rule mult_le_mono1) (use xy in simp)
    also have "\<dots> = w * s * h"
      by simp
    finally show "y * (w * s) + x * s + s \<le> n"
      using n by linarith
  qed
qed

lemma wrapped_product_smaller:
  fixes a b c :: u32
  assumes "2 ^ 32 \<le> unat a * unat b * unat c"
  shows "unat (a * b * c) < unat a * unat b * unat c"
proof -
  have "unat (a * b * c) < 2 ^ 32"
    by (rule unat_less_2_32)
  then show ?thesis
    using assms by linarith
qed

lemma unat_mult3_exact:
  fixes a b c :: u32
  assumes "unat a * unat b * unat c < 2 ^ 32"
  shows "unat (a * b * c) = unat a * unat b * unat c"
proof -
  have "unat (a * b * c) = unat a * unat b * unat c mod 2 ^ 32"
    by (simp add: unat_word_ariths mod_mult_left_eq)
  then show ?thesis
    using assms by simp
qed

text \<open>A new buffer has a byte for each byte of every pixel exactly when the size of the image is below \<open>2 ^ 32\<close>; a larger one is allocated too,
  with too small a block, and its last pixel lies outside.
\<close>

theorem created_pixels_inside_iff:
  assumes "mode_channels mode = Some channels" and "0 < width" and "0 < height"
  shows "let pb = make_pixels width height bits mode in
    (pixels_inside pb \<longleftrightarrow> unat width * ((unat (bits * channels) + 7) div 8) * unat height < 2 ^ 32)
    \<and> fst (Create_pixels width height bits mode new_pixel_buffer)"
proof -
  let ?s = "BytesForBitSize (bits * channels)"
  have pos: "0 < unat width" "0 < unat height"
    using assms(2,3) by (simp_all add: unat_gt_0 word_gt_0)
  have "pixels_inside (make_pixels width height bits mode) \<longleftrightarrow> unat width * unat ?s * unat height \<le> unat (width * ?s * height)"
    using pixel_places_fit [OF pos, of "unat ?s" "unat (width * ?s * height)"]
    by (simp add: pixels_inside_def pixel_place_def make_pixels_def Create_pixels_def assms(1) Let_def)
  also have "\<dots> \<longleftrightarrow> unat width * unat ?s * unat height < 2 ^ 32"
    using wrapped_product_smaller [of width ?s height] unat_mult3_exact [of width ?s height] by linarith
  finally show ?thesis
    by (simp add: BytesForBitSize_ceiling Let_def Create_pixels_def assms(1))
qed

text \<open>What the documentation of the decoder promises for an image: one to four components, sizes that are positive as signed numbers, and
  a byte for each component of each pixel, fewer than \<open>2 ^ 31\<close>.\<close>

definition decoder_ok :: "decoded \<Rightarrow> bool" where
  "decoder_ok dc \<longleftrightarrow> (case dc_image dc of None \<Rightarrow> True | Some (n, data) \<Rightarrow>
     1 \<le> n \<and> n \<le> 4 \<and> 0 < unat (dc_width dc) \<and> 0 < unat (dc_height dc) \<and> length data = unat (dc_width dc) * unat (dc_height dc) * nat n
     \<and> length data < 2 ^ 31)"

text \<open>A buffer whose rows follow each other without a gap, a byte per channel.\<close>

definition tight :: "nat \<Rightarrow> pixel_buffer \<Rightarrow> bool" where
  "tight n pb \<longleftrightarrow> map_option unat (mode_channels (pb_mode pb)) = Some n \<and> unat (pb_pixelsize pb) = n
     \<and> unat (pb_pitch pb) = unat (pb_width pb) * n \<and> (\<exists>p. pb_block pb = Some p \<and> length p = unat (pb_height pb) * (unat (pb_width pb) * n))"

lemma load_mode_channels:
  "1 \<le> n \<Longrightarrow> n \<le> 4 \<Longrightarrow> map_option unat (mode_channels (load_mode g (word_of_int n))) = Some (nat n)"
proof -
  assume "1 \<le> n" "n \<le> 4"
  then consider "n = 1" | "n = 2" | "n = 3" | "n = 4" by linarith
  then show ?thesis
    by cases (simp_all add: load_mode_def mode_channels_def mode_defs)
qed

text \<open>A file that the decoder can read becomes a buffer of its size and mode, with its bytes, that is tight, dirty and has all its pixels inside the
  block.
\<close>

theorem loaded_pixels_tight:
  assumes "decoder_ok dc" and "dc_image dc = Some (n, data)" and "Load_pixels (Inr dc) gamma_space pb = Inr (ok, pb1)"
  shows "ok \<and> tight (nat n) pb1 \<and> pixels_inside pb1 \<and> pb_dirty pb1 \<and> pb_block pb1 = Some data
    \<and> pb_width pb1 = dc_width dc \<and> pb_height pb1 = dc_height dc"
proof -
  have d: "1 \<le> n" "n \<le> 4" "0 < unat (dc_width dc)" "0 < unat (dc_height dc)"
    "length data = unat (dc_width dc) * unat (dc_height dc) * nat n" "length data < 2 ^ 31"
    using assms(1,2) by (simp_all add: decoder_ok_def)
  have size: "unat (BytesForBitSize (8 * word_of_int n)) = nat n"
  proof -
    consider "n = 1" | "n = 2" | "n = 3" | "n = 4" using d(1,2) by linarith
    then show ?thesis
      by cases (simp_all add: BytesForBitSize_ceiling)
  qed
  have "unat (dc_width dc) * nat n * 1 \<le> unat (dc_width dc) * nat n * unat (dc_height dc)"
    by (rule mult_le_mono2) (use d(4) in simp)
  then have "unat (dc_width dc) * nat n \<le> length data"
    unfolding d(5) by (simp only: mult_1_right ac_simps)
  then have "unat (dc_width dc) * nat n < 2 ^ 32"
    using d(6) by simp
  then have pitch: "unat (dc_width dc * BytesForBitSize (8 * word_of_int n)) = unat (dc_width dc) * nat n"
    using unat_mult_exact [of "dc_width dc" "BytesForBitSize (8 * word_of_int n)"] size by simp
  have max: "max n 0 = n"
    using d(1) by simp
  have len: "length data = unat (dc_height dc) * (unat (dc_width dc) * nat n)"
    using d(5) by simp
  have pb1: "ok" "pb_mode pb1 = load_mode gamma_space (word_of_int n)" "pb_pixelsize pb1 = BytesForBitSize (8 * word_of_int n)"
    "pb_pitch pb1 = dc_width dc * BytesForBitSize (8 * word_of_int n)" "pb_block pb1 = Some data" "pb_dirty pb1"
    "pb_width pb1 = dc_width dc" "pb_height pb1 = dc_height dc"
    using assms(2,3) by (auto simp: Load_pixels_def Let_def max)
  have "tight (nat n) pb1"
    using load_mode_channels [OF d(1,2)] size pitch len by (simp add: tight_def pb1)
  moreover have "pixels_inside pb1"
    using pixel_places_fit [OF d(3,4), of "nat n" "length data"] len size by (simp add: pixels_inside_def pixel_place_def pb1 ac_simps)
  ultimately show ?thesis
    using pb1 by simp
qed

text \<open>The two outputs of a buffer of four channels leave out every fourth byte, as long as the file version stays inside the block.\<close>

lemma upt_four: "[m..<m + 4] = [m, m + 1, m + 2, m + (3::nat)]"
  by (simp add: upt_rec)

lemma mod_four_residues: "(4 * q) mod 4 = (0::nat)" "(4 * q + 1) mod 4 = (1::nat)" "(4 * q + 2) mod 4 = (2::nat)" "(4 * q + 3) mod 4 = (3::nat)"
  by presburger+

lemma mod_four_less: "n mod 4 \<in> {1, 2} \<or> n mod 4 \<in> {0, 3 :: nat}"
proof -
  have "n mod 4 = 0 \<or> n mod 4 = 1 \<or> n mod 4 = 2 \<or> n mod 4 = 3"
    by presburger
  then show ?thesis
    by blast
qed

lemma three_of_four: "filter (\<lambda>i. i mod 4 < 3) [0..<4 * n] = concat (map (\<lambda>k. [4 * k, 4 * k + 1, 4 * k + 2]) [0..<n])"
proof (induction n)
  case (Suc n)
  have "[0..<4 * Suc n] = [0..<4 * n] @ [4 * n..<4 * n + 4]"
    using upt_add_eq_append [of 0 "4 * n" 4] by (simp add: add.commute)
  also have "\<dots> = [0..<4 * n] @ [4 * n, 4 * n + 1, 4 * n + 2, 4 * n + 3]"
    by (simp only: upt_four)
  finally have e: "[0..<4 * Suc n] = [0..<4 * n] @ [4 * n, 4 * n + 1, 4 * n + 2, 4 * n + 3]" .
  show ?case
    unfolding e by (simp only: filter_append Suc.IH upt_Suc filter.simps mod_four_residues map_append concat_append) simp
qed simp

lemma three_of_four_last: "filter (\<lambda>i. i mod 4 < 3) [4 * q..<4 * q + 3] = [4 * q, 4 * q + 1, 4 * q + (2::nat)]"
proof -
  have "[4 * q..<4 * q + 3] = [4 * q, 4 * q + 1, 4 * q + 2]"
    by (simp add: upt_rec)
  then show ?thesis
    by (simp only: filter.simps mod_four_residues) simp
qed

text \<open>Both places are the same exactly when the last group of four has none, three or four of its bytes.\<close>

lemma ppm_places_eq:
  assumes "n mod 4 \<in> {0, 3}"
  shows "filter (\<lambda>i. i mod 4 < 3) [0..<n] = concat (map (\<lambda>k. [4 * k, 4 * k + 1, 4 * k + 2]) [0..<(n + 3) div 4])"
proof -
  have n: "n = 4 * (n div 4) + n mod 4"
    by simp
  have "n mod 4 = 0 \<or> n mod 4 = 3"
    using assms by simp
  then show ?thesis
  proof (elim disjE)
    assume 1: "n mod 4 = 0"
    then have "n = 4 * (n div 4)" "(n + 3) div 4 = n div 4"
      using n by linarith+
    then show ?thesis
      using three_of_four [of "n div 4"] by simp
  next
    assume 2: "n mod 4 = 3"
    define q where "q = n div 4"
    have q: "n = 4 * q + 3" "(n + 3) div 4 = Suc q"
      using n 2 unfolding q_def by linarith+
    have "[0..<4 * q + 3] = [0..<4 * q] @ [4 * q..<4 * q + 3]"
      by (rule upt_add_eq_append) simp
    then show ?thesis
      unfolding q using three_of_four [of q] three_of_four_last [of q] by simp
  qed
qed

lemma ppm_last_place_outside:
  assumes "n mod 4 \<in> {1, 2}"
  shows "\<exists>i \<in> set (concat (map (\<lambda>k. [4 * k, 4 * k + 1, 4 * k + 2]) [0..<(n + 3) div 4])). n \<le> (i :: nat)"
proof -
  define q where "q = n div 4"
  have "n mod 4 = 1 \<or> n mod 4 = 2"
    using assms by simp
  then have q: "(n + 3) div 4 = Suc q" "n \<le> 4 * q + 2"
    unfolding q_def by presburger+
  have "4 * q + 2 \<in> set (concat (map (\<lambda>k. [4 * k, 4 * k + 1, 4 * k + 2]) [0..<Suc q]))"
    by simp
  with q(2) show ?thesis
    unfolding q(1) by (rule bexI)
qed

text \<open>C34: For a buffer with a block of its size, the version of PPMDebug that writes to a file ends and stays inside the block exactly unless there are
  four channels and the size has the remainder 1 or 2 modulo four or exceeds \<open>2 ^ 32 - 4\<close>, and then writes the same bytes as the version for the error output, which always stays inside.
\<close>

theorem ppm_outputs_agree:
  assumes "pb_block pb = Some p" and "length p = block_size pb" and "pb_depth pb < 32"
  shows "PPMDebug_stderr pb \<noteq> None
    \<and> (PPMDebug_file pb = None \<longleftrightarrow>
       pb_mode pb \<in> {COLOR_RGBA, GAMMA_RGBA} \<and> (block_size pb mod 4 \<in> {1, 2} \<or> 2 ^ 32 - 4 < block_size pb))
    \<and> (PPMDebug_file pb \<noteq> None \<longrightarrow> PPMDebug_file pb = PPMDebug_stderr pb)"
proof -
  let ?n = "block_size pb"
  have four: "pb_mode pb \<in> {COLOR_RGBA, GAMMA_RGBA} \<Longrightarrow> pb_mode pb \<notin> {COLOR_RGB, GAMMA_RGB}"
    by (auto simp: mode_defs)
  have err: "\<forall>i \<in> set (ppm_stderr_places pb). i < length p"
    by (simp add: ppm_stderr_places_def assms(2))
  have inside: "PPMDebug_stderr pb \<noteq> None"
    using err assms(1,3) by (simp add: PPMDebug_stderr_def ppm_header_def bytes_at_def)
  consider (outside) "pb_mode pb \<in> {COLOR_RGBA, GAMMA_RGBA}" "?n mod 4 \<in> {1, 2}"
    | (endless) "pb_mode pb \<in> {COLOR_RGBA, GAMMA_RGBA}" "2 ^ 32 - 4 < ?n"
    | (fits) "\<not> (pb_mode pb \<in> {COLOR_RGBA, GAMMA_RGBA} \<and> (?n mod 4 \<in> {1, 2} \<or> 2 ^ 32 - 4 < ?n))"
    by blast
  then show ?thesis
  proof cases
    case outside
    then have "ppm_file_places pb = concat (map (\<lambda>k. [4 * k, 4 * k + 1, 4 * k + 2]) [0..<(?n + 3) div 4])"
      using four by (simp add: ppm_file_places_def)
    then have "\<not> (\<forall>i \<in> set (ppm_file_places pb). i < length p)"
      using ppm_last_place_outside [OF outside(2)] unfolding assms(2) by (metis leD)
    then have "PPMDebug_file pb = None"
      using assms(1) by (auto simp: PPMDebug_file_def bytes_at_def bind_eq_None_conv)
    then show ?thesis
      using outside inside by argo
  next
    case endless
    then have "PPMDebug_file pb = None"
      using assms(1) by (simp add: PPMDebug_file_def)
    then show ?thesis
      using endless inside by argo
  next
    case fits
    have "pb_mode pb \<in> {COLOR_RGBA, GAMMA_RGBA} \<Longrightarrow> ?n mod 4 \<in> {0, 3}"
      using fits mod_four_less [of ?n] by blast
    then have "ppm_file_places pb = ppm_stderr_places pb"
      using ppm_places_eq [of ?n] four unfolding ppm_file_places_def ppm_stderr_places_def by presburger
    moreover have "\<not> (pb_mode pb \<in> {COLOR_RGBA, GAMMA_RGBA} \<and> pb_block pb \<noteq> None \<and> 2 ^ 32 - 4 < ?n)"
      using fits by argo
    ultimately have "PPMDebug_file pb = PPMDebug_stderr pb"
      unfolding PPMDebug_file_def PPMDebug_stderr_def by (simp only: if_False)
    then show ?thesis
      using inside fits by argo
  qed
qed

definition example_pixels :: pixel_buffer where
  "example_pixels = make_pixels 2 1 8 COLOR_RGBA"

lemma ppm_outputs_agree_witness: "PPMDebug_file example_pixels = PPMDebug_stderr example_pixels \<and> PPMDebug_file example_pixels \<noteq> None"
proof -
  have n: "block_size example_pixels = 8"
    by code_simp
  have "pb_block example_pixels = Some (replicate 8 0)"
    by code_simp
  moreover have "pb_depth example_pixels < 32"
    by code_simp
  ultimately show ?thesis
    using ppm_outputs_agree [of example_pixels "replicate 8 0"] n by simp
qed

lemma created_pixels_inside_iff_witness:
  "pixels_inside (make_pixels 2 1 8 COLOR_RGBA) \<and> \<not> pixels_inside (make_pixels 0x8000 0x8000 8 COLOR_RGBA)"
proof -
  have m: "mode_channels COLOR_RGBA = Some 4"
    by code_simp
  show ?thesis
    using created_pixels_inside_iff [OF m, of 2 1 8] created_pixels_inside_iff [OF m, of "0x8000" "0x8000" 8] by (simp add: Let_def)
qed

lemma loaded_pixels_tight_witness:
  "\<exists>pb1. Load_pixels (Inr \<lparr>dc_width = 2, dc_height = 1, dc_image = Some (3, [1, 2, 3, 4, 5, 6])\<rparr>) False new_pixel_buffer = Inr (True, pb1) \<and> tight 3 pb1"
proof -
  let ?dc = "\<lparr>dc_width = 2, dc_height = 1, dc_image = Some (3, [1, 2, 3, 4, 5, 6])\<rparr> :: decoded"
  have ok: "decoder_ok ?dc"
    by (simp add: decoder_ok_def)
  obtain pb1 where l: "Load_pixels (Inr ?dc) False new_pixel_buffer = Inr (True, pb1)"
    by (simp add: Load_pixels_def Let_def)
  have "tight 3 pb1"
    using loaded_pixels_tight [OF ok _ l, of 3 "[1, 2, 3, 4, 5, 6]"] by simp
  then show ?thesis
    using l by blast
qed

end
