(* ===== verification/Textures.thy ===== *)
theory Textures
  imports Pixels
begin

text \<open>
  Textures on the graphics card (client/graphics/texture-object.cpp) and the default textures (client/render-system.cpp). The objects of the
  card are a map from names; names, row alignment and the combinations that the driver accepts are parameters. The result \<open>None\<close> of a load
  is a read outside the block of pixels.
\<close>

subsection \<open>The card\<close>

datatype gl_format = GL_SRGB_ALPHA | GL_SRGB | GL_RGBA | GL_RGB | GL_RG | GL_RED | GL_STENCIL_INDEX | GL_DEPTH_STENCIL | GL_DEPTH_COMPONENT
datatype gl_filter = GL_NEAREST | GL_LINEAR | GL_LINEAR_MIPMAP_LINEAR
datatype gl_target = GL_TEXTURE_2D | GL_TEXTURE_2D_MULTISAMPLE

record gl_texture =
  gt_target :: "gl_target option"
  gt_mag :: gl_filter
  gt_min :: gl_filter
  gt_anisotropy :: nat
  gt_compare :: bool
  gt_format :: "gl_format option"
  gt_width :: u32
  gt_height :: u32
  gt_samples :: u32
  gt_rows :: "byte list list option"
  gt_mipmaps :: bool

record gl_card =
  gl_objects :: "u32 \<rightharpoonup> gl_texture"
  gl_bound_2d :: u32
  gl_bound_ms :: u32

record texture_driver =
  td_new_name :: "(u32 \<rightharpoonup> gl_texture) \<Rightarrow> u32"
  td_unpack_alignment :: nat
  td_new_object :: gl_texture
  td_accepts :: "gl_format \<Rightarrow> gl_format \<Rightarrow> u32 \<Rightarrow> u32 \<Rightarrow> bool"
  td_accepts_ms :: "gl_format \<Rightarrow> u32 \<Rightarrow> u32 \<Rightarrow> u32 \<Rightarrow> bool"

definition glGenTexture :: "texture_driver \<Rightarrow> gl_card \<Rightarrow> u32 \<times> gl_card" where
  "glGenTexture d gl = (let a = td_new_name d (gl_objects gl) in (a, gl\<lparr>gl_objects := (gl_objects gl)(a \<mapsto> td_new_object d)\<rparr>))"

definition glDeleteTexture :: "u32 \<Rightarrow> gl_card \<Rightarrow> gl_card" where
  "glDeleteTexture a gl = gl\<lparr>gl_objects := (gl_objects gl)(a := None),
     gl_bound_2d := if gl_bound_2d gl = a then 0 else gl_bound_2d gl, gl_bound_ms := if gl_bound_ms gl = a then 0 else gl_bound_ms gl\<rparr>"

text \<open>The first target a name is bound to stays its target; binding it to the other one is an error without effect.\<close>

definition bind_target :: "gl_target \<Rightarrow> u32 \<Rightarrow> gl_card \<Rightarrow> gl_card" where
  "bind_target target a gl = (if target = GL_TEXTURE_2D then gl\<lparr>gl_bound_2d := a\<rparr> else gl\<lparr>gl_bound_ms := a\<rparr>)"

definition glBindTexture :: "gl_target \<Rightarrow> u32 \<Rightarrow> gl_card \<Rightarrow> gl_card" where
  "glBindTexture target a gl = (if a = 0 then bind_target target 0 gl else case gl_objects gl a of
      None \<Rightarrow> gl
    | Some t \<Rightarrow> if gt_target t \<in> {None, Some target}
        then bind_target target a (gl\<lparr>gl_objects := (gl_objects gl)(a \<mapsto> t\<lparr>gt_target := Some target\<rparr>)\<rparr>) else gl)"

definition bound_to :: "gl_target \<Rightarrow> gl_card \<Rightarrow> u32" where
  "bound_to target gl = (if target = GL_TEXTURE_2D then gl_bound_2d gl else gl_bound_ms gl)"

definition change_bound :: "gl_target \<Rightarrow> (gl_texture \<Rightarrow> gl_texture) \<Rightarrow> gl_card \<Rightarrow> gl_card" where
  "change_bound target f gl = gl\<lparr>gl_objects := (gl_objects gl)(bound_to target gl := map_option f (gl_objects gl (bound_to target gl)))\<rparr>"

abbreviation tex_parameter :: "(gl_texture \<Rightarrow> gl_texture) \<Rightarrow> gl_card \<Rightarrow> gl_card" where
  "tex_parameter \<equiv> change_bound GL_TEXTURE_2D"

fun format_bytes :: "gl_format \<Rightarrow> nat" where
  "format_bytes GL_SRGB_ALPHA = 4" | "format_bytes GL_SRGB = 3" | "format_bytes GL_RGBA = 4" | "format_bytes GL_RGB = 3"
| "format_bytes GL_RG = 2" | "format_bytes GL_RED = 1" | "format_bytes GL_STENCIL_INDEX = 1" | "format_bytes GL_DEPTH_STENCIL = 4"
| "format_bytes GL_DEPTH_COMPONENT = 1"

text \<open>Each row of pixels starts at a multiple of the alignment.\<close>

definition row_stride :: "nat \<Rightarrow> nat \<Rightarrow> nat" where
  "row_stride alignment row = (row + alignment - 1) div alignment * alignment"

definition unpack_rows :: "nat \<Rightarrow> nat \<Rightarrow> nat \<Rightarrow> byte list \<Rightarrow> byte list list option" where
  "unpack_rows alignment row h p =
     (if row = 0 \<or> h = 0 then Some (replicate h [])
      else if (h - 1) * row_stride alignment row + row \<le> length p
        then Some (map (\<lambda>y. take row (drop (y * row_stride alignment row) p)) [0..<h])
        else None)"

definition glTexImage2D :: "texture_driver \<Rightarrow> gl_format \<Rightarrow> u32 \<Rightarrow> u32 \<Rightarrow> gl_format \<Rightarrow> byte list option \<Rightarrow> gl_card \<Rightarrow> gl_card option" where
  "glTexImage2D d to_format w h from_format data gl =
     (if td_accepts d to_format from_format w h
      then map_option (\<lambda>rows. tex_parameter (\<lambda>t. t\<lparr>gt_format := Some to_format, gt_width := w, gt_height := h, gt_rows := rows\<rparr>) gl)
        (case data of None \<Rightarrow> Some None
         | Some p \<Rightarrow> map_option Some (unpack_rows (td_unpack_alignment d) (unat w * format_bytes from_format) (unat h) p))
      else Some gl)"

definition glTexImage2DMultisample :: "texture_driver \<Rightarrow> u32 \<Rightarrow> gl_format \<Rightarrow> u32 \<Rightarrow> u32 \<Rightarrow> gl_card \<Rightarrow> gl_card" where
  "glTexImage2DMultisample d samples to_format w h gl =
     (if td_accepts_ms d to_format w h samples
      then change_bound GL_TEXTURE_2D_MULTISAMPLE
        (\<lambda>t. t\<lparr>gt_format := Some to_format, gt_width := w, gt_height := h, gt_samples := samples, gt_rows := None\<rparr>) gl
      else gl)"

definition glGenerateMipmap :: "gl_card \<Rightarrow> gl_card" where
  "glGenerateMipmap = tex_parameter (\<lambda>t. t\<lparr>gt_mipmaps := True\<rparr>)"

subsection \<open>Texture objects\<close>

record texture_object =
  to_texture_id :: u32
  to_compare :: bool
  to_source :: "nat option"

definition new_texture :: texture_object where
  "new_texture = \<lparr>to_texture_id = 0, to_compare = False, to_source = None\<rparr>"

definition image_format :: "u32 \<Rightarrow> (gl_format \<times> gl_format) option" where
  "image_format mode =
     (if mode = GAMMA_RGBA then Some (GL_SRGB_ALPHA, GL_RGBA) else if mode = GAMMA_RGB then Some (GL_SRGB, GL_RGB)
      else if mode = COLOR_RGBA then Some (GL_RGBA, GL_RGBA) else if mode = COLOR_RGB then Some (GL_RGB, GL_RGB)
      else if mode = MONOCHROME_A then Some (GL_RG, GL_RG) else if mode = MONOCHROME then Some (GL_RED, GL_RED) else None)"

text \<open>The parameters of a texture made for an image.\<close>

definition image_parameters :: "gl_filter \<Rightarrow> gl_card \<Rightarrow> gl_card" where
  "image_parameters magfilter gl = tex_parameter (\<lambda>t. t\<lparr>gt_anisotropy := 16\<rparr>)
     (tex_parameter (\<lambda>t. t\<lparr>gt_min := GL_LINEAR_MIPMAP_LINEAR\<rparr>) (tex_parameter (\<lambda>t. t\<lparr>gt_mag := magfilter\<rparr>) gl))"

definition allocate_texture :: "texture_driver \<Rightarrow> gl_filter \<Rightarrow> texture_object \<Rightarrow> gl_card \<Rightarrow> texture_object \<times> gl_card" where
  "allocate_texture d magfilter t gl =
     (if to_texture_id t = 0 then
        let (a, gl1) = glGenTexture d gl in (t\<lparr>to_texture_id := a\<rparr>, image_parameters magfilter (glBindTexture GL_TEXTURE_2D a gl1))
      else (t, glBindTexture GL_TEXTURE_2D (to_texture_id t) gl))"

definition Load_texture :: "texture_driver \<Rightarrow> pixel_buffer \<Rightarrow> texture_object \<Rightarrow> gl_card \<Rightarrow> (texture_object \<times> gl_card) option" where
  "Load_texture d img t gl = (case image_format (pb_mode img) of
      None \<Rightarrow> Some (t, gl)
    | Some (to_format, from_format) \<Rightarrow> (case pb_block img of
        None \<Rightarrow> Some (t, gl)
      | Some pixdata \<Rightarrow>
          let (t1, gl1) = allocate_texture d (if pb_filter img = NEAREST then GL_NEAREST else GL_LINEAR) t gl in
          map_option (\<lambda>gl2. (t1, glBindTexture GL_TEXTURE_2D 0 (glGenerateMipmap gl2)))
            (glTexImage2D d to_format (pb_width img) (pb_height img) from_format (Some pixdata) gl1)))"

definition texture_of_image :: "texture_driver \<Rightarrow> pixel_buffer \<Rightarrow> gl_card \<Rightarrow> (texture_object \<times> gl_card) option" where
  "texture_of_image d img gl = Load_texture d img new_texture gl"

definition texture_of_source :: "texture_driver \<Rightarrow> nat option \<Rightarrow> pixel_store \<Rightarrow> gl_card \<Rightarrow> (texture_object \<times> gl_card) option" where
  "texture_of_source d pbp st gl = (let t = new_texture\<lparr>to_source := pbp\<rparr> in
     case Option.bind pbp (px_buffers st) of None \<Rightarrow> Some (t, gl) | Some img \<Rightarrow> Load_texture d img t gl)"

text \<open>A weak pointer whose buffer is gone gives nothing.\<close>

definition Update_texture :: "texture_driver \<Rightarrow> texture_object \<Rightarrow> pixel_store \<Rightarrow> gl_card \<Rightarrow> (texture_object \<times> pixel_store \<times> gl_card) option" where
  "Update_texture d t st gl = (case to_source t of
      None \<Rightarrow> Some (t, st, gl)
    | Some a \<Rightarrow> (case px_buffers st a of
        None \<Rightarrow> Some (t, st, gl)
      | Some img \<Rightarrow> if pb_dirty img
          then map_option (\<lambda>(t1, gl1). (t1, st\<lparr>px_buffers := (px_buffers st)(a \<mapsto> Validate_pixels img)\<rparr>, gl1)) (Load_texture d img t gl)
          else Some (t, st, gl)))"

definition texture_dynamic :: "pixel_store \<Rightarrow> texture_object \<Rightarrow> bool" where
  "texture_dynamic st t \<longleftrightarrow> Option.bind (to_source t) (px_buffers st) \<noteq> None"

definition SetCompare :: "bool \<Rightarrow> texture_object \<Rightarrow> texture_object" where
  "SetCompare c t = t\<lparr>to_compare := c\<rparr>"

definition Destroy_texture :: "texture_object \<Rightarrow> gl_card \<Rightarrow> texture_object \<times> gl_card" where
  "Destroy_texture t gl = (if to_texture_id t \<noteq> 0 then (t\<lparr>to_texture_id := 0\<rparr>, glDeleteTexture (to_texture_id t) gl) else (t, gl))"

text \<open>Moving takes only the name: the new object and the other one.\<close>

definition move_texture :: "texture_object \<Rightarrow> texture_object \<times> texture_object" where
  "move_texture other = (new_texture\<lparr>to_texture_id := to_texture_id other\<rparr>, other\<lparr>to_texture_id := 0\<rparr>)"

definition assign_texture :: "texture_object \<Rightarrow> texture_object \<Rightarrow> texture_object \<times> texture_object" where
  "assign_texture t other = (t\<lparr>to_texture_id := to_texture_id other\<rparr>, other\<lparr>to_texture_id := 0\<rparr>)"

definition same_texture :: "texture_object \<Rightarrow> texture_object \<Rightarrow> bool" where
  "same_texture t other \<longleftrightarrow> to_texture_id t = to_texture_id other"

subsection \<open>Blank textures\<close>

definition named_texture :: "texture_driver \<Rightarrow> texture_object \<Rightarrow> gl_card \<Rightarrow> texture_object \<times> gl_card" where
  "named_texture d t gl = (if to_texture_id t = 0 then let (a, gl1) = glGenTexture d gl in (t\<lparr>to_texture_id := a\<rparr>, gl1) else (t, gl))"

definition Generate :: "texture_driver \<Rightarrow> u32 \<Rightarrow> u32 \<Rightarrow> bool \<Rightarrow> texture_object \<Rightarrow> gl_card \<Rightarrow> (texture_object \<times> gl_card) option" where
  "Generate d w h usealpha t gl = (let (t1, gl1) = allocate_texture d GL_LINEAR t gl; f = (if usealpha then GL_RGBA else GL_RGB) in
     map_option (\<lambda>gl2. (t1, glBindTexture GL_TEXTURE_2D 0 (glGenerateMipmap gl2))) (glTexImage2D d f w h f None gl1))"

definition nearest_parameters :: "gl_card \<Rightarrow> gl_card" where
  "nearest_parameters gl = tex_parameter (\<lambda>t. t\<lparr>gt_min := GL_NEAREST\<rparr>) (tex_parameter (\<lambda>t. t\<lparr>gt_mag := GL_NEAREST\<rparr>) gl)"

definition GenerateStencil :: "texture_driver \<Rightarrow> u32 \<Rightarrow> u32 \<Rightarrow> texture_object \<Rightarrow> gl_card \<Rightarrow> (texture_object \<times> gl_card) option" where
  "GenerateStencil d w h t gl = (let (t1, gl1) = named_texture d t gl; gl2 = nearest_parameters (glBindTexture GL_TEXTURE_2D (to_texture_id t1) gl1) in
     map_option (\<lambda>gl3. (t1, glBindTexture GL_TEXTURE_2D 0 gl3)) (glTexImage2D d GL_STENCIL_INDEX w h GL_STENCIL_INDEX None gl2))"

definition GenerateDepth :: "texture_driver \<Rightarrow> u32 \<Rightarrow> u32 \<Rightarrow> bool \<Rightarrow> texture_object \<Rightarrow> gl_card \<Rightarrow> (texture_object \<times> gl_card) option" where
  "GenerateDepth d w h stencil t gl =
     (let (t1, gl1) = named_texture d t gl;
          gl2 = nearest_parameters (glBindTexture GL_TEXTURE_2D (to_texture_id t1) gl1);
          gl3 = (if to_compare t1 then tex_parameter (\<lambda>x. x\<lparr>gt_compare := True\<rparr>) (tex_parameter (\<lambda>x. x\<lparr>gt_mag := GL_LINEAR\<rparr>) gl2) else gl2);
          f = (if stencil then GL_DEPTH_STENCIL else GL_DEPTH_COMPONENT)
      in map_option (\<lambda>gl4. (t1, glBindTexture GL_TEXTURE_2D 0 gl4)) (glTexImage2D d f w h f None gl3))"

definition generate_multisample :: "texture_driver \<Rightarrow> gl_format \<Rightarrow> u32 \<Rightarrow> u32 \<Rightarrow> u32 \<Rightarrow> texture_object \<Rightarrow> gl_card \<Rightarrow> texture_object \<times> gl_card" where
  "generate_multisample d f w h samples t gl =
     (let (t1, gl1) = named_texture d t gl;
          gl2 = glTexImage2DMultisample d samples f w h (glBindTexture GL_TEXTURE_2D_MULTISAMPLE (to_texture_id t1) gl1)
      in (t1, glBindTexture GL_TEXTURE_2D_MULTISAMPLE 0 gl2))"

definition GenerateMultisample :: "texture_driver \<Rightarrow> u32 \<Rightarrow> u32 \<Rightarrow> u32 \<Rightarrow> texture_object \<Rightarrow> gl_card \<Rightarrow> texture_object \<times> gl_card" where
  "GenerateMultisample d = generate_multisample d GL_RGBA"

definition GenerateMultisampleStencil :: "texture_driver \<Rightarrow> u32 \<Rightarrow> u32 \<Rightarrow> u32 \<Rightarrow> texture_object \<Rightarrow> gl_card \<Rightarrow> texture_object \<times> gl_card" where
  "GenerateMultisampleStencil d = generate_multisample d GL_STENCIL_INDEX"

definition GenerateMultisampleDepth :: "texture_driver \<Rightarrow> u32 \<Rightarrow> u32 \<Rightarrow> u32 \<Rightarrow> bool \<Rightarrow> texture_object \<Rightarrow> gl_card \<Rightarrow> texture_object \<times> gl_card" where
  "GenerateMultisampleDepth d w h samples stencil = generate_multisample d (if stencil then GL_DEPTH_STENCIL else GL_DEPTH_COMPONENT) w h samples"

subsection \<open>Default textures\<close>

definition checker_size :: nat where "checker_size = 64"

definition checker_color :: "nat \<Rightarrow> nat \<Rightarrow> u32" where
  "checker_color x y = (let c = (of_nat (x div 8) XOR of_nat (y div 8)) AND 1 in 0xff000000 OR (c * 0xffffff))"

definition sp_color :: "nat \<Rightarrow> nat \<Rightarrow> u32" where
  "sp_color x y = 0x00008000"

text \<open>Words are stored with the lowest byte first.\<close>

definition word_bytes :: "u32 \<Rightarrow> byte list" where
  "word_bytes w = map (\<lambda>k. ucast (drop_bit (8 * k) w)) [0..<4]"

definition painted :: "(nat \<Rightarrow> nat \<Rightarrow> u32) \<Rightarrow> nat \<Rightarrow> byte list" where
  "painted color n = concat (map (\<lambda>y. concat (map (\<lambda>x. word_bytes (color x y)) [0..<n])) [0..<n])"

definition default_pixels :: "(nat \<Rightarrow> nat \<Rightarrow> u32) \<Rightarrow> pixel_buffer" where
  "default_pixels color = (make_pixels (of_nat checker_size) (of_nat checker_size) 8 COLOR_RGBA)\<lparr>pb_block := Some (painted color checker_size)\<rparr>"

record texture_world =
  tw_pixels :: pixel_store
  tw_card :: gl_card
  tw_textures :: "string \<rightharpoonup> texture_object"

definition add_default :: "texture_driver \<Rightarrow> string \<Rightarrow> (nat \<Rightarrow> nat \<Rightarrow> u32) \<Rightarrow> texture_world \<Rightarrow> texture_world option" where
  "add_default d name color w =
     (let st = tw_pixels w; a = px_next st;
          st1 = st\<lparr>px_buffers := (px_buffers st)(a \<mapsto> default_pixels color), px_next := Suc a, px_names := (px_names st)(name \<mapsto> a)\<rparr>
      in map_option (\<lambda>(t, gl). w\<lparr>tw_pixels := st1, tw_card := gl, tw_textures := (tw_textures w)(name \<mapsto> t)\<rparr>)
           (texture_of_source d (Some a) st1 (tw_card w)))"

definition default_textures :: "texture_driver \<Rightarrow> texture_world \<Rightarrow> texture_world option" where
  "default_textures d w = Option.bind (add_default d ''default'' checker_color w) (add_default d ''default_sp'' sp_color)"

subsection \<open>What a load reads\<close>

text \<open>The behaviour of OpenGL: rows are aligned to four bytes unless the program sets something else, and a new name is not 0, nor in use if there is a name
  that is not.\<close>

definition driver_ok :: "texture_driver \<Rightarrow> bool" where
  "driver_ok d \<longleftrightarrow> td_unpack_alignment d = 4 \<and> gt_target (td_new_object d) = None
     \<and> (\<forall>m. td_new_name d m \<noteq> 0 \<and> ((\<exists>a. a \<noteq> 0 \<and> m a = None) \<longrightarrow> m (td_new_name d m) = None))"

lemma stride_bounds: "row \<le> row_stride 4 row" "row_stride 4 row < row + 4"
  by (unfold row_stride_def) presburger+

lemma stride_exact_iff: "row_stride 4 row = row \<longleftrightarrow> 4 dvd row"
  by (unfold row_stride_def) presburger

lemma tight_read_iff:
  assumes "0 < row" and "0 < h"
  shows "(h - 1) * row_stride 4 row + row \<le> h * row \<longleftrightarrow> h = 1 \<or> 4 dvd row"
proof -
  obtain k where h: "h = Suc k"
    using assms(2) gr0_implies_Suc by blast
  have "(h - 1) * row_stride 4 row + row \<le> h * row \<longleftrightarrow> k * row_stride 4 row \<le> k * row"
    by (simp add: h)
  also have "\<dots> \<longleftrightarrow> k = 0 \<or> row_stride 4 row = row"
    using stride_bounds(1) [of row] by auto
  finally show ?thesis
    by (simp add: h stride_exact_iff)
qed

lemma image_format_bytes:
  assumes "image_format mode = Some (to_format, from_format)"
  shows "map_option unat (mode_channels mode) = Some (format_bytes from_format)"
  using assms by (auto simp: image_format_def mode_channels_def mode_defs split: if_splits)

lemma tight_format_bytes: "image_format (pb_mode img) = Some (to_format, from_format) \<Longrightarrow> tight n img \<Longrightarrow> format_bytes from_format = n"
  using image_format_bytes [of "pb_mode img" to_format from_format] by (auto simp: tight_def)

definition accepts_image :: "texture_driver \<Rightarrow> pixel_buffer \<Rightarrow> bool" where
  "accepts_image d img \<longleftrightarrow> (case image_format (pb_mode img) of None \<Rightarrow> False
     | Some (to_format, from_format) \<Rightarrow> td_accepts d to_format from_format (pb_width img) (pb_height img))"

lemma load_defined_iff:
  assumes "tight n img" and "accepts_image d img" and "pb_block img = Some p"
  shows "Load_texture d img t gl \<noteq> None \<longleftrightarrow> unpack_rows (td_unpack_alignment d) (unat (pb_width img) * n) (unat (pb_height img)) p \<noteq> None"
proof -
  obtain to_format from_format where f: "image_format (pb_mode img) = Some (to_format, from_format)"
    using assms(2) by (auto simp: accepts_image_def split: option.splits)
  have "format_bytes from_format = n"
    by (rule tight_format_bytes [OF f assms(1)])
  moreover have "td_accepts d to_format from_format (pb_width img) (pb_height img)"
    using assms(2) f by (simp add: accepts_image_def)
  ultimately show ?thesis
    using f assms(3) by (simp add: Load_texture_def glTexImage2D_def split: prod.splits)
qed

text \<open>Loading an image whose rows follow each other without a gap into a texture stays inside the block of pixels exactly when the image has at most one row or the
  length of a row in bytes is divisible by four, because the row alignment of the card is never set.
\<close>

theorem texture_load_inside_iff:
  assumes "driver_ok d" and "tight n img" and "accepts_image d img" and "0 < pb_width img" and "0 < pb_height img"
  shows "Load_texture d img t gl \<noteq> None \<longleftrightarrow> pb_height img = 1 \<or> 4 dvd unat (pb_width img) * n"
proof -
  obtain p where p: "pb_block img = Some p" and len: "length p = unat (pb_height img) * (unat (pb_width img) * n)"
    using assms(2) by (auto simp: tight_def)
  have n: "0 < n"
  proof -
    obtain to_format from_format where f: "image_format (pb_mode img) = Some (to_format, from_format)"
      using assms(3) by (auto simp: accepts_image_def split: option.splits)
    have "0 < format_bytes from_format"
      by (cases from_format) simp_all
    then show ?thesis
      using tight_format_bytes [OF f assms(2)] by simp
  qed
  have pos: "0 < unat (pb_width img) * n" "0 < unat (pb_height img)"
    using assms(4,5) n by (simp_all add: unat_gt_0 word_gt_0)
  have one: "unat (pb_height img) = 1 \<longleftrightarrow> pb_height img = 1"
    using word_unat_eq_iff [of "pb_height img" 1] by simp
  show ?thesis
    using load_defined_iff [OF assms(2,3) p, of t gl] tight_read_iff [OF pos] pos assms(1) len one
    unfolding unpack_rows_def driver_ok_def by (simp split: if_splits)
qed

subsection \<open>What a texture shows\<close>

text \<open>A texture object has no name, or one that is in use for two-dimensional textures.\<close>

definition texture_ok :: "gl_card \<Rightarrow> texture_object \<Rightarrow> bool" where
  "texture_ok gl t \<longleftrightarrow> gl_objects gl 0 = None \<and> (to_texture_id t = 0 \<or>
     (\<exists>x. gl_objects gl (to_texture_id t) = Some x \<and> gt_target x \<in> {None, Some GL_TEXTURE_2D}))"

definition shows_image :: "gl_card \<Rightarrow> texture_object \<Rightarrow> pixel_buffer \<Rightarrow> bool" where
  "shows_image gl t img \<longleftrightarrow> (\<exists>x rows. gl_objects gl (to_texture_id t) = Some x \<and> gt_rows x = Some rows \<and> pb_block img = Some (concat rows)
     \<and> length rows = unat (pb_height img) \<and> gt_width x = pb_width img \<and> gt_height x = pb_height img
     \<and> gt_format x = map_option fst (image_format (pb_mode img)) \<and> gt_mipmaps x)"

lemma concat_rows: "length p = h * row \<Longrightarrow> concat (map (\<lambda>y. take row (drop (y * row) p)) [0..<h]) = p"
proof (induction h arbitrary: p)
  case (Suc h)
  have "[0..<Suc h] = 0 # map Suc [0..<h]"
    by (simp only: upt_conv_Cons map_Suc_upt)
  then have "concat (map (\<lambda>y. take row (drop (y * row) p)) [0..<Suc h])
      = take row p @ concat (map (\<lambda>y. take row (drop (y * row) (drop row p))) [0..<h])"
    by (simp add: comp_def add.commute)
  also have "\<dots> = take row p @ drop row p"
    using Suc.IH [of "drop row p"] Suc.prems by simp
  finally show ?case
    by simp
qed simp

lemma unpack_tight:
  assumes "4 dvd row" and "length p = h * row" and "0 < row" and "0 < h"
  obtains rows where "unpack_rows 4 row h p = Some rows" and "concat rows = p" and "length rows = h"
proof
  have "row_stride 4 row = row"
    using assms(1) by (simp add: stride_exact_iff)
  moreover have "(h - 1) * row + row \<le> length p"
    using assms(2,4) by (cases h) simp_all
  ultimately show "unpack_rows 4 row h p = Some (map (\<lambda>y. take row (drop (y * row) p)) [0..<h])"
    using assms(3,4) by (simp add: unpack_rows_def)
  show "concat (map (\<lambda>y. take row (drop (y * row) p)) [0..<h]) = p"
    by (rule concat_rows [OF assms(2)])
  show "length (map (\<lambda>y. take row (drop (y * row) p)) [0..<h]) = h"
    by simp
qed

lemma allocated_bound:
  assumes "driver_ok d" and "texture_ok gl t" and "allocate_texture d magfilter t gl = (t1, gl1)"
  shows "to_texture_id t1 \<noteq> 0 \<and> gl_bound_2d gl1 = to_texture_id t1 \<and> (\<exists>x. gl_objects gl1 (to_texture_id t1) = Some x)
    \<and> (\<forall>b. b \<noteq> to_texture_id t1 \<longrightarrow> gl_objects gl1 b = gl_objects gl b) \<and> to_source t1 = to_source t
    \<and> (to_texture_id t \<noteq> 0 \<longrightarrow> t1 = t)"
proof (cases "to_texture_id t = 0")
  case True
  define a where "a = td_new_name d (gl_objects gl)"
  have "a \<noteq> 0"
    using assms(1) by (simp add: driver_ok_def a_def)
  then show ?thesis
    using assms True unfolding allocate_texture_def glGenTexture_def driver_ok_def a_def [symmetric]
    by (auto simp: Let_def image_parameters_def change_bound_def glBindTexture_def bind_target_def bound_to_def)
next
  case False
  then obtain x where "gl_objects gl (to_texture_id t) = Some x" "gt_target x \<in> {None, Some GL_TEXTURE_2D}"
    using assms(2) by (auto simp: texture_ok_def)
  then show ?thesis
    using assms(3) False by (auto simp: allocate_texture_def glBindTexture_def bind_target_def)
qed

text \<open>C26: If the rows of a changed image take a multiple of four bytes, its block holds exactly its pixels and the driver accepts its format and
  size, updating the texture makes the card show exactly the pixels of the image, in its format and with mipmaps, marks the image
  clean, leaves every other object of the card alone and no texture bound, and a second update does nothing. With other rows the load
  reads past the block or shows shifted pixels (\<open>texture_load_inside_iff\<close>), and an image without pixels is marked clean without being
  shown (\<open>update_skipped_marks_clean\<close>).
\<close>

theorem updated_texture_shows_image:
  assumes "driver_ok d" and "texture_ok gl t" and "to_source t = Some a" and "px_buffers st a = Some img" and "pb_dirty img"
    and "tight n img" and "accepts_image d img" and "0 < pb_width img" and "0 < pb_height img" and "4 dvd unat (pb_width img) * n"
  shows "\<exists>t1 st1 gl1. Update_texture d t st gl = Some (t1, st1, gl1) \<and> shows_image gl1 t1 img
    \<and> (\<forall>b. b \<noteq> to_texture_id t1 \<longrightarrow> gl_objects gl1 b = gl_objects gl b) \<and> gl_bound_2d gl1 = 0
    \<and> px_buffers st1 = (px_buffers st)(a \<mapsto> Validate_pixels img) \<and> Update_texture d t1 st1 gl1 = Some (t1, st1, gl1)"
proof -
  obtain p where p: "pb_block img = Some p" and len: "length p = unat (pb_height img) * (unat (pb_width img) * n)"
    using assms(6) by (auto simp: tight_def)
  obtain to_format from_format where f: "image_format (pb_mode img) = Some (to_format, from_format)"
    and acc: "td_accepts d to_format from_format (pb_width img) (pb_height img)"
    using assms(7) by (auto simp: accepts_image_def split: option.splits)
  have n: "format_bytes from_format = n"
    by (rule tight_format_bytes [OF f assms(6)])
  have "0 < n"
    using n by (cases from_format) auto
  then have pos: "0 < unat (pb_width img) * n" "0 < unat (pb_height img)"
    using assms(8,9) by (simp_all add: unat_gt_0 word_gt_0)
  obtain rows where rows: "unpack_rows 4 (unat (pb_width img) * n) (unat (pb_height img)) p = Some rows" "concat rows = p"
    "length rows = unat (pb_height img)"
    using unpack_tight [OF assms(10) len pos] .
  obtain t1 gl1 where al: "allocate_texture d (if pb_filter img = NEAREST then GL_NEAREST else GL_LINEAR) t gl = (t1, gl1)"
    by fastforce
  note ab = allocated_bound [OF assms(1,2) al]
  then obtain x where x: "gl_objects gl1 (to_texture_id t1) = Some x"
    by blast
  let ?y = "x\<lparr>gt_format := Some to_format, gt_width := pb_width img, gt_height := pb_height img, gt_rows := Some rows, gt_mipmaps := True\<rparr>"
  let ?gl = "gl1\<lparr>gl_objects := (gl_objects gl1)(to_texture_id t1 \<mapsto> ?y), gl_bound_2d := 0\<rparr>"
  have al4: "td_unpack_alignment d = 4"
    using assms(1) by (simp add: driver_ok_def)
  have load: "Load_texture d img t gl = Some (t1, ?gl)"
    using f p al acc rows(1) x ab n al4
    by (simp add: Load_texture_def glTexImage2D_def glGenerateMipmap_def change_bound_def bound_to_def glBindTexture_def bind_target_def)
  let ?st = "st\<lparr>px_buffers := (px_buffers st)(a \<mapsto> Validate_pixels img)\<rparr>"
  have "Update_texture d t st gl = Some (t1, ?st, ?gl)"
    using assms(3,4,5) load by (simp add: Update_texture_def)
  moreover have "Update_texture d t1 ?st ?gl = Some (t1, ?st, ?gl)"
    using ab assms(3) by (simp add: Update_texture_def Validate_pixels_def)
  moreover have "shows_image ?gl t1 img"
    using f p rows(2,3) by (simp add: shows_image_def)
  moreover have "\<forall>b. b \<noteq> to_texture_id t1 \<longrightarrow> gl_objects ?gl b = gl_objects gl b"
    using ab by simp
  ultimately show ?thesis
    by (intro exI [of _ t1] exI [of _ ?st] exI [of _ ?gl]) simp
qed

text \<open>When the dirty image of a texture has no pixels, or a mode that the card has no format for, an update changes nothing on the card but still
  marks the image clean, so the texture goes on showing what it showed.
\<close>

theorem update_skipped_marks_clean:
  assumes "to_source t = Some a" and "px_buffers st a = Some img" and "pb_dirty img"
    and "pb_block img = None \<or> image_format (pb_mode img) = None"
  shows "Update_texture d t st gl = Some (t, st\<lparr>px_buffers := (px_buffers st)(a \<mapsto> img\<lparr>pb_dirty := False\<rparr>)\<rparr>, gl)"
  using assms by (auto simp: Update_texture_def Load_texture_def Validate_pixels_def split: option.splits)

definition example_driver :: texture_driver where
  "example_driver = \<lparr>td_new_name = free_name, td_unpack_alignment = 4,
     td_new_object = \<lparr>gt_target = None, gt_mag = GL_LINEAR, gt_min = GL_NEAREST, gt_anisotropy = 1, gt_compare = False, gt_format = None,
       gt_width = 0, gt_height = 0, gt_samples = 0, gt_rows = None, gt_mipmaps = False\<rparr>,
     td_accepts = (\<lambda>_ _ _ _. True), td_accepts_ms = (\<lambda>_ _ _ _. True)\<rparr>"

lemma example_driver_ok: "driver_ok example_driver"
  by (auto simp: driver_ok_def example_driver_def free_name_nonzero intro: free_name_free)

definition empty_card :: gl_card where
  "empty_card = \<lparr>gl_objects = (\<lambda>_. None), gl_bound_2d = 0, gl_bound_ms = 0\<rparr>"

definition one_buffer :: "pixel_buffer \<Rightarrow> pixel_store" where
  "one_buffer img = \<lparr>px_buffers = [0 \<mapsto> img], px_next = 1, px_names = (\<lambda>_. None)\<rparr>"

lemma example_accepts: "accepts_image example_driver (make_pixels w h 8 COLOR_RGB)" "accepts_image example_driver (make_pixels w h 8 COLOR_RGBA)"
  by (simp_all add: accepts_image_def example_driver_def make_pixels_def Create_pixels_def mode_channels_def image_format_def mode_defs Let_def)

lemma made_tight: "tight 3 (make_pixels 2 2 8 COLOR_RGB)" "tight 4 (make_pixels 2 2 8 COLOR_RGBA)"
  by (simp_all add: tight_def make_pixels_def Create_pixels_def mode_channels_def mode_defs Let_def BytesForBitSize_def)

lemma texture_load_inside_iff_witness:
  "Load_texture example_driver (make_pixels 2 2 8 COLOR_RGB) new_texture empty_card = None
   \<and> Load_texture example_driver (make_pixels 2 2 8 COLOR_RGBA) new_texture empty_card \<noteq> None"
proof -
  have t: "tight 3 (make_pixels 2 2 8 COLOR_RGB)" "tight 4 (make_pixels 2 2 8 COLOR_RGBA)"
    by (simp_all add: made_tight)
  have w: "pb_width (make_pixels 2 2 8 COLOR_RGB) = 2" "pb_height (make_pixels 2 2 8 COLOR_RGB) = 2"
    "pb_width (make_pixels 2 2 8 COLOR_RGBA) = 2" "pb_height (make_pixels 2 2 8 COLOR_RGBA) = 2"
    by code_simp+
  show ?thesis
    using texture_load_inside_iff [OF example_driver_ok t(1) example_accepts(1), of new_texture empty_card]
      texture_load_inside_iff [OF example_driver_ok t(2) example_accepts(2), of new_texture empty_card] w by (simp del: not_None_eq)
qed

lemma updated_texture_shows_image_witness:
  "\<exists>t1 st1 gl1. Update_texture example_driver (new_texture\<lparr>to_source := Some 0\<rparr>) (one_buffer (make_pixels 2 2 8 COLOR_RGBA)) empty_card
     = Some (t1, st1, gl1) \<and> shows_image gl1 t1 (make_pixels 2 2 8 COLOR_RGBA)"
proof -
  let ?img = "make_pixels 2 2 8 COLOR_RGBA"
  have t: "tight 4 ?img"
    by (rule made_tight)
  have d: "pb_dirty ?img" "pb_width ?img = 2" "pb_height ?img = 2"
    by code_simp+
  have ok: "texture_ok empty_card (new_texture\<lparr>to_source := Some 0\<rparr>)"
    by (simp add: texture_ok_def empty_card_def new_texture_def)
  show ?thesis
    using updated_texture_shows_image [OF example_driver_ok ok, of 0 "one_buffer ?img" ?img 4] t d example_accepts(2)
    by (simp add: one_buffer_def) blast
qed

lemma update_skipped_marks_clean_witness:
  "Update_texture example_driver (new_texture\<lparr>to_source := Some 0\<rparr>) (one_buffer (new_pixel_buffer\<lparr>pb_dirty := True\<rparr>)) empty_card
   = Some (new_texture\<lparr>to_source := Some 0\<rparr>, one_buffer new_pixel_buffer, empty_card)"
  using update_skipped_marks_clean [of "new_texture\<lparr>to_source := Some 0\<rparr>" 0 "one_buffer (new_pixel_buffer\<lparr>pb_dirty := True\<rparr>)"
      "new_pixel_buffer\<lparr>pb_dirty := True\<rparr>" example_driver empty_card]
  by (simp add: one_buffer_def new_pixel_buffer_def)

subsection \<open>The checker\<close>

lemma checker_color_cases: "checker_color x y = (if even (x div 8 + y div 8) then 0xff000000 else 0xffffffff)"
proof -
  have even_word: "even (of_nat a :: u32) \<longleftrightarrow> even a" for a :: nat
    using bit_0 [of "of_nat a :: u32"] bit_0 [of a] by (simp add: bit_simps)
  have "(of_nat a XOR of_nat b) AND 1 = (of_bool (odd (a + b)) :: u32)" for a b :: nat
    by (simp only: and_one_eq mod_2_eq_odd even_xor_iff even_word even_add)
  then show ?thesis
    by (simp add: checker_color_def Let_def)
qed

text \<open>The bytes of the default texture: white and black squares of eight pixels, opaque.\<close>

lemma painted_length: "length (painted color n) = n * (n * 4)"
proof -
  have "length (concat (map (\<lambda>x. word_bytes (color x y)) [0..<m])) = m * 4" for m y
    by (induction m) (simp_all add: word_bytes_def)
  then have "length (concat (map (\<lambda>y. concat (map (\<lambda>x. word_bytes (color x y)) [0..<n])) [0..<m])) = m * (n * 4)" for m
    by (induction m) simp_all
  then show ?thesis
    by (simp add: painted_def)
qed

lemma default_pixels_tight: "tight 4 (default_pixels color)"
  by (simp add: tight_def default_pixels_def make_pixels_def Create_pixels_def mode_channels_def mode_defs Let_def BytesForBitSize_def
      checker_size_def painted_length)

end
