(* ===== verification/Shader_Source.thy ===== *)
theory Shader_Source
  imports Text_Stream "HOL-Library.Sublist"
begin

text \<open>
  The preprocessor of shader sources (\<open>Shader::LoadFromString\<close> in client/graphics/shader.cpp): it adds a definition after the version line, replaces
  each include line by the named text and writes line directives, so that the compiler reports errors at the lines of the original
  texts. The emitted source is a list of lines. The reference gives the places that a reader of the directives sees.
\<close>

subsection \<open>Lines\<close>

definition version_line :: string where "version_line = ''#version ''"
definition include_line :: string where "include_line = ''#include ''"

definition is_version :: "string \<Rightarrow> bool" where
  "is_version line \<longleftrightarrow> take (length version_line) line = version_line"

definition is_include :: "string \<Rightarrow> bool" where
  "is_include line \<longleftrightarrow> take (length include_line) line = include_line"

text \<open>The name between quotation marks, else between angle brackets, up to the end of a line that does not close it. A line with neither throws.\<close>

definition after_char :: "char \<Rightarrow> string \<Rightarrow> string" where
  "after_char c line = tl (dropWhile (\<lambda>d. d \<noteq> c) line)"

definition include_name :: "string \<Rightarrow> string option" where
  "include_name line =
     (if CHR 0x22 \<in> set line then Some (takeWhile (\<lambda>c. c \<noteq> CHR 0x22) (after_char (CHR 0x22) line))
      else if CHR ''<'' \<in> set line then Some (takeWhile (\<lambda>c. c \<noteq> CHR ''>'') (after_char (CHR ''<'') line))
      else None)"

definition line_note :: "nat \<Rightarrow> nat \<Rightarrow> string" where
  "line_note n file = ''#line '' @ to_string n @ '' '' @ to_string file"

subsection \<open>The preprocessor\<close>

datatype source_error = Include_malformed nat | Include_not_found nat string

record preprocessor =
  pr_stream :: "string list"
  pr_line_number :: nat
  pr_next_filenum :: nat
  pr_included_map :: "nat \<rightharpoonup> string"

definition start_source :: preprocessor where
  "start_source = \<lparr>pr_stream = [], pr_line_number = 0, pr_next_filenum = 1, pr_included_map = (\<lambda>_. None)\<rparr>"

definition emit :: "string list \<Rightarrow> preprocessor \<Rightarrow> preprocessor" where
  "emit ls s = s\<lparr>pr_stream := pr_stream s @ ls\<rparr>"

definition version_step :: "string \<Rightarrow> preprocessor \<Rightarrow> preprocessor" where
  "version_step line s = emit [line, ''#define TEC_VERSION 1'', line_note (pr_line_number s + 1) 0] s"

definition include_step :: "(string \<rightharpoonup> string) \<Rightarrow> string \<Rightarrow> preprocessor \<Rightarrow> source_error + preprocessor" where
  "include_step incs line s = (case include_name line of
      None \<Rightarrow> Inl (Include_malformed (pr_line_number s))
    | Some name \<Rightarrow> (case incs name of
        None \<Rightarrow> Inl (Include_not_found (pr_line_number s) name)
      | Some contents \<Rightarrow>
          Inr (emit (line_note 1 (pr_next_filenum s) # text_lines contents @ [line_note (pr_line_number s + 1) 0])
            (s\<lparr>pr_included_map := (pr_included_map s)(pr_next_filenum s \<mapsto> name), pr_next_filenum := pr_next_filenum s + 1\<rparr>))))"

definition line_step :: "(string \<rightharpoonup> string) \<Rightarrow> string \<Rightarrow> preprocessor \<Rightarrow> source_error + preprocessor" where
  "line_step incs line s0 =
     (let s = s0\<lparr>pr_line_number := pr_line_number s0 + 1\<rparr> in
      if is_version line then Inr (version_step line s)
      else if is_include line then include_step incs line s
      else Inr (emit [line] s))"

fun lines_step :: "(string \<rightharpoonup> string) \<Rightarrow> string list \<Rightarrow> preprocessor \<Rightarrow> source_error + preprocessor" where
  "lines_step incs [] s = Inr s"
| "lines_step incs (l # ls) s = (case line_step incs l s of Inl e \<Rightarrow> Inl e | Inr s1 \<Rightarrow> lines_step incs ls s1)"

definition preprocess :: "(string \<rightharpoonup> string) \<Rightarrow> string \<Rightarrow> source_error + preprocessor" where
  "preprocess incs raw_source = lines_step incs (text_lines raw_source) start_source"

definition processed_source :: "preprocessor \<Rightarrow> string" where
  "processed_source s = concat (map (\<lambda>l. l @ [CHR 0x0A]) (pr_stream s))"

subsection \<open>The places a reader sees\<close>

text \<open>A line directive gives the number of the next line and of its text.\<close>

definition line_directive :: "string \<Rightarrow> (nat \<times> nat) option" where
  "line_directive l = (if take 6 l = ''#line '' then
      (let r = drop 6 l; a = takeWhile is_digit r; b = tl (dropWhile is_digit r) in
       if a \<noteq> [] \<and> dropWhile is_digit r \<noteq> [] \<and> hd (dropWhile is_digit r) = CHR '' '' \<and> b \<noteq> [] \<and> list_all is_digit b
       then Some (digits_value a, digits_value b) else None)
    else None)"

fun located :: "nat \<Rightarrow> nat \<Rightarrow> string list \<Rightarrow> (nat \<times> nat \<times> string) list" where
  "located file n [] = []"
| "located file n (l # ls) = (case line_directive l of
      Some (n1, file1) \<Rightarrow> located file1 n1 ls
    | None \<Rightarrow> (file, n, l) # located file (n + 1) ls)"

text \<open>What it should see: each line of the source at its number in text 0, the added definition after a version line, and for an include line
  the lines of the included text, which is the next number among the included ones.\<close>

fun expected :: "(string \<rightharpoonup> string) \<Rightarrow> nat \<Rightarrow> nat \<Rightarrow> string list \<Rightarrow> (nat \<times> nat \<times> string) list" where
  "expected incs n k [] = []"
| "expected incs n k (l # ls) =
     (if is_version l then (0, n, l) # (0, n + 1, ''#define TEC_VERSION 1'') # expected incs (n + 1) k ls
      else if is_include l then
        map (\<lambda>(j, x). (k, j, x)) (enumerate 1 (text_lines (the (incs (the (include_name l)))))) @ expected incs (n + 1) (k + 1) ls
      else (0, n, l) # expected incs (n + 1) k ls)"

lemma digits_all: "list_all is_digit (to_string n)"
  using to_string_digits by (auto simp: list_all_iff)

lemma line_directive_note [simp]: "line_directive (line_note n file) = Some (n, file)"
proof -
  have d: "takeWhile is_digit (to_string n @ CHR '' '' # r) = to_string n"
    "dropWhile is_digit (to_string n @ CHR '' '' # r) = CHR '' '' # r" for r
    using digits_all [of n] by (simp_all add: takeWhile_append2 dropWhile_append2 list_all_iff is_digit_def)
  have "\<not> is_digit CHR '' ''"
    by (simp add: is_digit_def)
  then show ?thesis
    using digits_all by (simp add: line_directive_def line_note_def d digits_value_to_string Let_def)
qed

lemma located_note [simp]: "located file n (line_note m g # ls) = located g m ls"
  by simp

lemma located_plain:
  "\<forall>l \<in> set ls. line_directive l = None \<Longrightarrow>
   located file n (ls @ rest) = map (\<lambda>(j, x). (file, j, x)) (enumerate n ls) @ located file (n + length ls) rest"
  by (induction ls arbitrary: n) simp_all

text \<open>Lines that the preprocessor copies hold no directives of their own.\<close>

definition no_directives :: "string list \<Rightarrow> bool" where
  "no_directives ls \<longleftrightarrow> (\<forall>l \<in> set ls. line_directive l = None)"

definition plain_includes :: "(string \<rightharpoonup> string) \<Rightarrow> bool" where
  "plain_includes incs \<longleftrightarrow> (\<forall>name contents. incs name = Some contents \<longrightarrow> no_directives (text_lines contents))"

lemma line_step_stream:
  assumes "line_step incs l s = Inr s1" and "line_directive l = None" and "plain_includes incs"
  obtains out where "pr_stream s1 = pr_stream s @ out" and "pr_line_number s1 = pr_line_number s + 1"
    and "\<And>rest. located 0 (pr_line_number s + 1) (out @ rest)
           = expected incs (pr_line_number s + 1) (pr_next_filenum s) [l] @ located 0 (pr_line_number s1 + 1) rest"
    and "\<And>ls. expected incs (pr_line_number s + 1) (pr_next_filenum s) (l # ls)
           = expected incs (pr_line_number s + 1) (pr_next_filenum s) [l] @ expected incs (pr_line_number s1 + 1) (pr_next_filenum s1) ls"
proof -
  have tec_define: "line_directive ''#define TEC_VERSION 1'' = None"
    by (simp add: line_directive_def)
  consider (version) "is_version l" | (incl) "\<not> is_version l" "is_include l" | (plain) "\<not> is_version l" "\<not> is_include l"
    by blast
  then show ?thesis
  proof cases
    case version
    then have s1: "s1 = version_step l (s\<lparr>pr_line_number := pr_line_number s + 1\<rparr>)"
      using assms(1) by (simp add: line_step_def Let_def)
    show ?thesis
      by (rule that [of "[l, ''#define TEC_VERSION 1'', line_note (pr_line_number s + 2) 0]"])
        (use version assms(2) tec_define in \<open>simp_all add: s1 version_step_def emit_def\<close>)
  next
    case plain
    then have s1: "s1 = emit [l] (s\<lparr>pr_line_number := pr_line_number s + 1\<rparr>)"
      using assms(1) by (simp add: line_step_def Let_def)
    show ?thesis
      by (rule that [of "[l]"]) (use plain assms(2) in \<open>simp_all add: s1 emit_def\<close>)
  next
    case incl
    then have step: "include_step incs l (s\<lparr>pr_line_number := pr_line_number s + 1\<rparr>) = Inr s1"
      using assms(1) by (simp add: line_step_def Let_def)
    then obtain name contents where name: "include_name l = Some name" "incs name = Some contents"
      by (auto simp: include_step_def split: option.splits)
    have plain: "\<forall>x \<in> set (text_lines contents). line_directive x = None"
      using assms(3) name(2) unfolding plain_includes_def no_directives_def by blast
    show ?thesis
      by (rule that [of "line_note 1 (pr_next_filenum s) # text_lines contents @ [line_note (pr_line_number s + 2) 0]"])
        (use incl name step plain in \<open>auto simp: include_step_def emit_def located_plain\<close>)
  qed
qed

lemma lines_step_located:
  assumes "lines_step incs ls s = Inr s1" and "no_directives ls" and "plain_includes incs"
  shows "\<exists>out. pr_stream s1 = pr_stream s @ out
    \<and> located 0 (pr_line_number s + 1) out = expected incs (pr_line_number s + 1) (pr_next_filenum s) ls"
  using assms
proof (induction ls arbitrary: s)
  case (Cons l ls)
  obtain s2 where s2: "line_step incs l s = Inr s2" "lines_step incs ls s2 = Inr s1"
    using Cons.prems(1) by (auto split: sum.splits)
  have l: "line_directive l = None" "no_directives ls"
    using Cons.prems(2) by (simp_all add: no_directives_def)
  obtain out where out: "pr_stream s2 = pr_stream s @ out" "pr_line_number s2 = pr_line_number s + 1"
    "\<And>rest. located 0 (pr_line_number s + 1) (out @ rest)
      = expected incs (pr_line_number s + 1) (pr_next_filenum s) [l] @ located 0 (pr_line_number s2 + 1) rest"
    "\<And>ls. expected incs (pr_line_number s + 1) (pr_next_filenum s) (l # ls)
      = expected incs (pr_line_number s + 1) (pr_next_filenum s) [l] @ expected incs (pr_line_number s2 + 1) (pr_next_filenum s2) ls"
    using line_step_stream [OF s2(1) l(1) Cons.prems(3)] by blast
  obtain out2 where "pr_stream s1 = pr_stream s2 @ out2"
    "located 0 (pr_line_number s2 + 1) out2 = expected incs (pr_line_number s2 + 1) (pr_next_filenum s2) ls"
    using Cons.IH [OF s2(2) l(2) Cons.prems(3)] by blast
  then have "pr_stream s1 = pr_stream s @ out @ out2 \<and> located 0 (pr_line_number s + 1) (out @ out2)
      = expected incs (pr_line_number s + 1) (pr_next_filenum s) (l # ls)"
    unfolding out(3) out(4) [of ls] using out(1) by simp
  then show ?case
    by blast
qed simp

subsection \<open>The emitted text\<close>

definition one_line :: "string \<Rightarrow> bool" where
  "one_line l \<longleftrightarrow> CHR 0x0A \<notin> set l"

lemma text_lines_concat: "\<forall>l \<in> set ls. one_line l \<Longrightarrow> text_lines (concat (map (\<lambda>l. l @ [CHR 0x0A]) ls)) = ls"
proof (induction ls)
  case (Cons l ls)
  have "\<forall>c \<in> set l. c \<noteq> CHR 0x0A"
    using Cons.prems by (auto simp: one_line_def)
  then have "takeWhile (\<lambda>c. c \<noteq> CHR 0x0A) (l @ CHR 0x0A # r) = l" "dropWhile (\<lambda>c. c \<noteq> CHR 0x0A) (l @ CHR 0x0A # r) = CHR 0x0A # r" for r
    by (simp_all add: takeWhile_append2 dropWhile_append2)
  then show ?case
    using Cons by (subst text_lines.simps) simp
qed (simp add: text_lines.simps)

lemma text_lines_one_line: "l \<in> set (text_lines s) \<Longrightarrow> one_line l"
proof (induction s rule: text_lines.induct)
  case (1 s)
  then show ?case
    by (subst (asm) (2) text_lines.simps) (auto simp: one_line_def split: if_splits dest: set_takeWhileD)
qed

lemma line_note_one_line: "one_line (line_note n file)"
proof -
  have "CHR 0x0A \<notin> set (to_string m)" for m
    using to_string_digits [of "CHR 0x0A" m] by (auto simp: is_digit_def)
  then show ?thesis
    by (simp add: one_line_def line_note_def)
qed

lemma line_step_one_line:
  assumes "line_step incs l s = Inr s1" and "one_line l" and "\<forall>x \<in> set (pr_stream s). one_line x"
  shows "\<forall>x \<in> set (pr_stream s1). one_line x"
  using assms line_note_one_line text_lines_one_line
  by (auto simp: line_step_def Let_def version_step_def include_step_def emit_def one_line_def split: if_splits option.splits)

lemma lines_step_one_line:
  "lines_step incs ls s = Inr s1 \<Longrightarrow> \<forall>l \<in> set ls. one_line l \<Longrightarrow> \<forall>x \<in> set (pr_stream s). one_line x \<Longrightarrow>
   \<forall>x \<in> set (pr_stream s1). one_line x"
proof (induction ls arbitrary: s)
  case (Cons l ls)
  then show ?case
    using line_step_one_line [of incs l s] by (auto split: sum.splits)
qed simp

lemma processed_lines:
  assumes "preprocess incs raw_source = Inr s"
  shows "text_lines (processed_source s) = pr_stream s"
  unfolding processed_source_def using lines_step_one_line [OF assms [unfolded preprocess_def]] text_lines_one_line
  by (intro text_lines_concat) (simp add: start_source_def)

text \<open>C25: A reader of the emitted source, who follows its line directives, sees every line of the source at its own number in text 0, and the lines of each
  included text at theirs under the number of the inclusion, if none of these lines is a directive itself.
\<close>

theorem preprocessed_lines_located:
  assumes "preprocess incs raw_source = Inr s" and "no_directives (text_lines raw_source)" and "plain_includes incs"
  shows "located 0 1 (text_lines (processed_source s)) = expected incs 1 1 (text_lines raw_source)"
proof -
  obtain out where "pr_stream s = pr_stream start_source @ out"
    "located 0 (pr_line_number start_source + 1) out
      = expected incs (pr_line_number start_source + 1) (pr_next_filenum start_source) (text_lines raw_source)"
    using lines_step_located [OF assms(1)[unfolded preprocess_def] assms(2,3)] by blast
  then show ?thesis
    using processed_lines [OF assms(1)] by (simp add: start_source_def)
qed

definition example_source :: string where
  "example_source = ''#version 330'' @ [CHR 0x0A] @ ''#include <a>'' @ [CHR 0x0A] @ ''b''"

definition example_includes :: "string \<rightharpoonup> string" where
  "example_includes = [''a'' \<mapsto> ''x'' @ [CHR 0x0A] @ ''y'']"

lemma example_kinds:
  "is_version ''#version 330''" "\<not> is_version ''#include <a>''" "is_include ''#include <a>''" "\<not> is_version ''b''"
  "\<not> is_include ''b''" "include_name ''#include <a>'' = Some ''a''"
  by (simp_all add: is_version_def is_include_def version_line_def include_line_def include_name_def after_char_def)

lemma example_lines: "text_lines example_source = [''#version 330'', ''#include <a>'', ''b'']" "text_lines [CHR ''x'', CHR 0x0A, CHR ''y''] = [''x'', ''y'']"
  by (simp_all add: example_source_def text_lines.simps)

lemma example_preprocessed: obtains s where "preprocess example_includes example_source = Inr s"
  using that by (simp add: preprocess_def example_lines line_step_def example_kinds include_step_def example_includes_def Let_def)

lemma preprocessed_lines_located_witness:
  "\<exists>s. preprocess example_includes example_source = Inr s \<and> located 0 1 (text_lines (processed_source s))
     = [(0, 1, ''#version 330''), (0, 2, ''#define TEC_VERSION 1''), (1, 1, ''x''), (1, 2, ''y''), (0, 3, ''b'')]"
proof -
  have nd: "no_directives (text_lines example_source)" "plain_includes example_includes"
    unfolding plain_includes_def example_includes_def no_directives_def example_lines by (auto simp: line_directive_def example_lines)
  obtain s where s: "preprocess example_includes example_source = Inr s"
    by (rule example_preprocessed)
  have "expected example_includes 1 1 (text_lines example_source)
    = [(0, 1, ''#version 330''), (0, 2, ''#define TEC_VERSION 1''), (1, 1, ''x''), (1, 2, ''y''), (0, 3, ''b'')]"
    unfolding example_lines by (simp add: example_kinds example_includes_def example_lines [simplified] numeral_2_eq_2 numeral_3_eq_3)
  then show ?thesis
    using preprocessed_lines_located [OF s nd] s by simp
qed

subsection \<open>When it fails\<close>

definition include_error :: "(string \<rightharpoonup> string) \<Rightarrow> nat \<Rightarrow> string \<Rightarrow> source_error option" where
  "include_error incs n l =
     (if is_include l then (case include_name l of
        None \<Rightarrow> Some (Include_malformed n)
      | Some name \<Rightarrow> if incs name = None then Some (Include_not_found n name) else None) else None)"

lemma version_no_include: "is_version l \<Longrightarrow> \<not> is_include l"
proof
  assume "is_version l" "is_include l"
  then have "take 2 (take 9 l) = take 2 version_line" "take 2 (take 9 l) = take 2 include_line"
    unfolding is_version_def is_include_def version_line_def include_line_def by simp_all
  then show False
    by (simp add: version_line_def include_line_def)
qed

lemma line_step_error:
  "(case line_step incs l s of Inl e \<Rightarrow> include_error incs (pr_line_number s + 1) l = Some e
    | Inr s1 \<Rightarrow> include_error incs (pr_line_number s + 1) l = None \<and> pr_line_number s1 = pr_line_number s + 1)"
  using version_no_include [of l]
  by (auto simp: line_step_def include_error_def include_step_def version_step_def emit_def Let_def split: option.splits)

lemma lines_step_error:
  "(case lines_step incs ls s of
      Inl e \<Rightarrow> \<exists>i < length ls. (\<forall>j < i. include_error incs (pr_line_number s + 1 + j) (ls ! j) = None)
        \<and> include_error incs (pr_line_number s + 1 + i) (ls ! i) = Some e
    | Inr _ \<Rightarrow> \<forall>i < length ls. include_error incs (pr_line_number s + 1 + i) (ls ! i) = None)"
proof (induction ls arbitrary: s)
  case (Cons l ls)
  show ?case
  proof (cases "line_step incs l s")
    case (Inl e)
    then show ?thesis
      using line_step_error [where incs = incs and l = l and s = s] by (auto intro!: exI [of _ 0])
  next
    case (Inr s1)
    then have first: "include_error incs (pr_line_number s + 1) l = None" "pr_line_number s1 = pr_line_number s + 1"
      using line_step_error [where incs = incs and l = l and s = s] by simp_all
    have shift: "include_error incs (pr_line_number s1 + 1 + i) (ls ! i) = include_error incs (pr_line_number s + 1 + Suc i) ((l # ls) ! Suc i)" for i
      by (simp add: first(2))
    show ?thesis
    proof (cases "lines_step incs ls s1")
      case (Inl e)
      then obtain i where "i < length ls" "\<forall>j < i. include_error incs (pr_line_number s1 + 1 + j) (ls ! j) = None"
        "include_error incs (pr_line_number s1 + 1 + i) (ls ! i) = Some e"
        using Cons.IH [of s1] by auto
      then have "Suc i < length (l # ls)" "\<forall>j < Suc i. include_error incs (pr_line_number s + 1 + j) ((l # ls) ! j) = None"
        "include_error incs (pr_line_number s + 1 + Suc i) ((l # ls) ! Suc i) = Some e"
        using first(1) shift by (auto simp: less_Suc_eq_0_disj simp del: nth_Cons_Suc)
      then show ?thesis
        using Inl Inr by (simp only: lines_step.simps sum.case) blast
    next
      case (Inr s2)
      then have "\<forall>i < length ls. include_error incs (pr_line_number s1 + 1 + i) (ls ! i) = None"
        using Cons.IH [of s1] by simp
      then have "\<forall>i < length (l # ls). include_error incs (pr_line_number s + 1 + i) ((l # ls) ! i) = None"
        using first(1) shift by (auto simp: less_Suc_eq_0_disj simp del: nth_Cons_Suc)
      then show ?thesis
        using Inr \<open>line_step incs l s = Inr s1\<close> by simp
    qed
  qed
qed simp

text \<open>The preprocessor fails exactly when the source has an include line without a delimiter or with an unknown name, and reports the first such line with its
  number.
\<close>

theorem preprocess_reports_first_error:
  "(case preprocess incs raw_source of
      Inl e \<Rightarrow> \<exists>i < length (text_lines raw_source). (\<forall>j < i. include_error incs (1 + j) (text_lines raw_source ! j) = None)
        \<and> include_error incs (1 + i) (text_lines raw_source ! i) = Some e
    | Inr _ \<Rightarrow> \<forall>i < length (text_lines raw_source). include_error incs (1 + i) (text_lines raw_source ! i) = None)"
  using lines_step_error [where incs = incs and ls = "text_lines raw_source" and s = start_source] by (simp add: preprocess_def start_source_def split: sum.splits)

lemma preprocess_reports_first_error_witness: "\<exists>e. preprocess (\<lambda>_. None) example_source = Inl e \<and> e = Include_not_found 2 ''a''"
proof (cases "preprocess (\<lambda>_. None) example_source")
  case (Inl e)
  have src: "text_lines example_source = [''#version 330'', ''#include <a>'', ''b'']"
    by (simp add: example_source_def text_lines.simps)
  have err: "include_error (\<lambda>_. None) n ''#version 330'' = None" "include_error (\<lambda>_. None) n ''b'' = None"
    "include_error (\<lambda>_. None) n ''#include <a>'' = Some (Include_not_found n ''a'')" for n
    by (simp_all add: include_error_def is_include_def include_line_def include_name_def after_char_def)
  have "\<exists>i < Suc (Suc (Suc 0)). include_error (\<lambda>_. None) (1 + i) ([''#version 330'', ''#include <a>'', ''b''] ! i) = Some e"
    using preprocess_reports_first_error [where incs = "\<lambda>_. None" and raw_source = example_source] Inl src by auto
  then have "e = Include_not_found 2 ''a''"
    using err by (auto simp: less_Suc_eq numeral_2_eq_2)
  then show ?thesis
    using Inl by simp
next
  case (Inr s)
  have src: "text_lines example_source = [''#version 330'', ''#include <a>'', ''b'']"
    by (simp add: example_source_def text_lines.simps)
  then show ?thesis
    using Inr by (simp add: preprocess_def line_step_def is_version_def version_line_def is_include_def include_line_def include_step_def
        include_name_def after_char_def Let_def)
qed

lemma example_include_missing: "\<exists>n name. preprocess (\<lambda>_. None) example_source = Inl (Include_not_found n name)"
proof -
  have "text_lines example_source = [''#version 330'', ''#include <a>'', ''b'']"
    by (simp add: example_source_def text_lines.simps)
  then show ?thesis
    by (simp add: preprocess_def line_step_def is_version_def version_line_def is_include_def include_line_def include_step_def
        include_name_def after_char_def Let_def)
qed

end
