(* ===== verification/Shaders.thy ===== *)
theory Shaders
  imports Shader_Source Vfs_Path GL_Names
begin

text \<open>
  Shader programs (client/graphics/shader.cpp): the sources of a definition are preprocessed and compiled, linked to a program, and the
  samplers that the engine knows are set when the program is first used. The objects of the card are maps from names; names, compiler,
  linker and files are parameters. Objects of the program that owns them are deleted when it is destroyed.
\<close>

subsection \<open>The card\<close>

record shader_object =
  sh_type :: u32
  sh_source :: string

record program_object =
  po_attached :: "u32 list"
  po_uniforms :: "int \<rightharpoonup> int"

record shader_card =
  sc_shaders :: "u32 \<rightharpoonup> shader_object"
  sc_programs :: "u32 \<rightharpoonup> program_object"
  sc_current :: u32

text \<open>A linked program lists its active uniforms, each with the sign of a two-dimensional sampler and its location, and its attributes.\<close>

record link_result =
  lr_uniforms :: "(string \<times> bool \<times> int) list"
  lr_attributes :: "(string \<times> int) list"

record shader_driver =
  sd_new_shader :: "u32 \<Rightarrow> (u32 \<rightharpoonup> shader_object) \<Rightarrow> u32 option"
  sd_new_program :: "(u32 \<rightharpoonup> program_object) \<Rightarrow> u32"
  sd_unexpected_error :: "u32 \<Rightarrow> string \<Rightarrow> bool"
  sd_link :: "shader_object list \<Rightarrow> link_result option"

subsection \<open>Shader objects\<close>

record shader =
  sp_program :: u32
  sp_shaders :: "u32 list"
  sp_attributes :: "string \<rightharpoonup> int"
  sp_uniforms :: "string \<rightharpoonup> int"
  sp_run_initial :: bool
  sp_initial_1i :: "(int \<times> int) list"

definition new_shader :: shader where
  "new_shader = \<lparr>sp_program = 0, sp_shaders = [], sp_attributes = (\<lambda>_. None), sp_uniforms = (\<lambda>_. None), sp_run_initial = True, sp_initial_1i = []\<rparr>"

text \<open>The numbers of the textures of the geometry buffer, and of a material.\<close>

definition engine_constants :: "string \<rightharpoonup> int" where
  "engine_constants = [''gCompositeMap'' \<mapsto> 4, ''gPositionMap'' \<mapsto> 0, ''gNormalMap'' \<mapsto> 2, ''gColorMap'' \<mapsto> 1, ''gEmissionMap'' \<mapsto> 3,
     ''gDepthMap'' \<mapsto> 4, ''mColorMap'' \<mapsto> 0, ''mSPMap'' \<mapsto> 1, ''mNormalMap'' \<mapsto> 2, ''mMap0'' \<mapsto> 0, ''mMap1'' \<mapsto> 1, ''mMap2'' \<mapsto> 2,
     ''mMap3'' \<mapsto> 3]"

text \<open>A deleted program that is in use stays in use; its name is gone.\<close>

definition DeleteProgram :: "shader \<Rightarrow> shader_card \<Rightarrow> shader \<times> shader_card" where
  "DeleteProgram s gl =
     (let gl1 = (if sp_program s \<noteq> 0 then gl\<lparr>sc_programs := (sc_programs gl)(sp_program s := None)\<rparr> else gl)
      in (s\<lparr>sp_program := 0, sp_shaders := []\<rparr>, gl1\<lparr>sc_shaders := foldl (\<lambda>m a. m(a := None)) (sc_shaders gl1) (sp_shaders s)\<rparr>))"

text \<open>
  Loading a source: the object is created first. A line that cannot be preprocessed throws, or ends the loading with a message; both leave the
  object. What the compiler says of the source is only reported.
\<close>

datatype load_error = Malformed nat | Path_error path_error

definition LoadFromString :: "shader_driver \<Rightarrow> (string \<rightharpoonup> string) \<Rightarrow> u32 \<Rightarrow> string \<Rightarrow> shader \<Rightarrow> shader_card \<Rightarrow>
    load_error option \<times> shader \<times> shader_card" where
  "LoadFromString d incs type raw_source s gl = (case sd_new_shader d type (sc_shaders gl) of
      None \<Rightarrow> (None, s, gl)
    | Some a \<Rightarrow>
        let gl1 = gl\<lparr>sc_shaders := (sc_shaders gl)(a \<mapsto> \<lparr>sh_type = type, sh_source = []\<rparr>)\<rparr> in
        (case preprocess incs raw_source of
            Inl (Include_malformed n) \<Rightarrow> (Some (Malformed n), s, gl1)
          | Inl (Include_not_found _ _) \<Rightarrow> (None, s, gl1)
          | Inr p \<Rightarrow>
              let gl2 = gl\<lparr>sc_shaders := (sc_shaders gl)(a \<mapsto> \<lparr>sh_type = type, sh_source = processed_source p\<rparr>)\<rparr> in
              if sd_unexpected_error d type (processed_source p) then (None, s, gl2)
              else (None, s\<lparr>sp_shaders := sp_shaders s @ [a]\<rparr>, gl2)))"

text \<open>Files: an invalid path or one without a file ends the loading with a message, and other errors are thrown.\<close>

datatype file_answer = No_file | File_throws path_error | Contents string

definition LoadFromFile :: "shader_driver \<Rightarrow> (string \<rightharpoonup> string) \<Rightarrow> u32 \<Rightarrow> file_answer \<Rightarrow> shader \<Rightarrow> shader_card \<Rightarrow>
    load_error option \<times> shader \<times> shader_card" where
  "LoadFromFile d incs type file s gl = (case file of
      No_file \<Rightarrow> (None, s, gl)
    | File_throws e \<Rightarrow> (Some (Path_error e), s, gl)
    | Contents buffer \<Rightarrow> LoadFromString d incs type buffer s gl)"

text \<open>The names of uniforms are looked up once, those of attributes until they have a location other than 0.\<close>

definition location_in :: "(string \<times> int) list \<Rightarrow> string \<Rightarrow> int" where
  "location_in m name = (case map_of m name of None \<Rightarrow> -1 | Some l \<Rightarrow> l)"

definition linked_locations :: "link_result \<Rightarrow> (string \<times> int) list" where
  "linked_locations r = map (\<lambda>(name, _, l). (name, l)) (lr_uniforms r)"

definition GetUniformLocation :: "(string \<times> int) list \<Rightarrow> string \<Rightarrow> shader \<Rightarrow> int \<times> shader" where
  "GetUniformLocation locations name s = (case sp_uniforms s name of
      Some l \<Rightarrow> (l, s)
    | None \<Rightarrow> let l = location_in locations name in (l, s\<lparr>sp_uniforms := (sp_uniforms s)(name \<mapsto> l)\<rparr>))"

definition GetAttributeLocation :: "(string \<times> int) list \<Rightarrow> string \<Rightarrow> shader \<Rightarrow> int \<times> shader" where
  "GetAttributeLocation locations name s = (case sp_attributes s name of
      Some l \<Rightarrow> (l, s)
    | None \<Rightarrow> let l = location_in locations name in (l, if l \<noteq> 0 then s\<lparr>sp_attributes := (sp_attributes s)(name \<mapsto> l)\<rparr> else s))"

definition note_uniform :: "(string \<times> int) list \<Rightarrow> string \<times> bool \<times> int \<Rightarrow> shader \<Rightarrow> shader" where
  "note_uniform locations u s = (case u of (name, sampler, _) \<Rightarrow>
     (case GetUniformLocation locations name s of (l, s1) \<Rightarrow>
        (case (sampler, engine_constants name) of
            (True, Some c) \<Rightarrow> s1\<lparr>sp_initial_1i := sp_initial_1i s1 @ [(l, c)]\<rparr>
          | _ \<Rightarrow> s1)))"

definition Build :: "shader_driver \<Rightarrow> shader \<Rightarrow> shader_card \<Rightarrow> bool \<times> shader \<times> shader_card" where
  "Build d s gl =
     (let a = sd_new_program d (sc_programs gl);
          s1 = s\<lparr>sp_program := a\<rparr>;
          put = (\<lambda>attached. gl\<lparr>sc_programs := (sc_programs gl)(a \<mapsto> \<lparr>po_attached = attached, po_uniforms = (\<lambda>_. None)\<rparr>)\<rparr>)
      in (case sd_link d (List.map_filter (sc_shaders gl) (sp_shaders s)) of
          None \<Rightarrow> (False, DeleteProgram s1 (put (sp_shaders s)))
        | Some r \<Rightarrow>
            let s2 = fold (note_uniform (linked_locations r)) (lr_uniforms r) s1;
                s3 = fold (\<lambda>(name, _) t. snd (GetAttributeLocation (lr_attributes r) name t)) (lr_attributes r) s2
            in (True, s3, put [])))"

text \<open>Setting a uniform of the program in use; a location of -1 is ignored.\<close>

definition glUniform1i :: "int \<Rightarrow> int \<Rightarrow> shader_card \<Rightarrow> shader_card" where
  "glUniform1i l v gl = (if l = -1 then gl else
     gl\<lparr>sc_programs := (sc_programs gl)(sc_current gl := map_option (\<lambda>p. p\<lparr>po_uniforms := (po_uniforms p)(l \<mapsto> v)\<rparr>) (sc_programs gl (sc_current gl)))\<rparr>)"

definition Use :: "shader \<Rightarrow> shader_card \<Rightarrow> shader \<times> shader_card" where
  "Use s gl = (let gl1 = gl\<lparr>sc_current := sp_program s\<rparr> in
     if sp_run_initial s then (s\<lparr>sp_run_initial := False\<rparr>, fold (\<lambda>(l, v). glUniform1i l v) (sp_initial_1i s) gl1) else (s, gl1))"

definition UnUse :: "shader_card \<Rightarrow> shader_card" where
  "UnUse gl = gl\<lparr>sc_current := 0\<rparr>"

subsection \<open>Definitions\<close>

datatype source_case = Source_not_set | File string | Abs_file string | By_name string | Raw string

record p_shader_source =
  ps_type :: u32
  ps_source :: source_case

definition UNSPECIFIED :: u32 where "UNSPECIFIED = 0"
definition VERTEX :: u32 where "VERTEX = 0x8B31"
definition FRAGMENT :: u32 where "FRAGMENT = 0x8B30"
definition GEOMETRY :: u32 where "GEOMETRY = 0x8DD9"
definition TESS_CONTROL :: u32 where "TESS_CONTROL = 0x8E88"
definition TESS_EVAL :: u32 where "TESS_EVAL = 0x8E87"
definition COMPUTE :: u32 where "COMPUTE = 0x91B9"

record p_shader_def =
  pd_name :: string
  pd_files :: "p_shader_source list"
  pd_vertex :: "p_shader_source list"
  pd_fragment :: "p_shader_source list"
  pd_geometry :: "p_shader_source list"
  pd_tess_control :: "p_shader_source list"
  pd_tess_eval :: "p_shader_source list"
  pd_compute :: "p_shader_source list"

record p_shader_include =
  pi_name :: string
  pi_source :: p_shader_source

text \<open>The answers of the file system for the sources of programs, relative to the folder of shaders or not, and for included texts, where a missing file throws.\<close>

record shader_files =
  sf_shader :: "string \<Rightarrow> file_answer"
  sf_absolute :: "string \<Rightarrow> file_answer"
  sf_text :: "string \<Rightarrow> path_error + string"
  sf_absolute_text :: "string \<Rightarrow> path_error + string"

definition LoadFromProto :: "shader_driver \<Rightarrow> shader_files \<Rightarrow> (string \<rightharpoonup> string) \<Rightarrow> p_shader_source \<times> u32 \<Rightarrow> shader \<Rightarrow> shader_card \<Rightarrow>
    load_error option \<times> shader \<times> shader_card" where
  "LoadFromProto d fs incs item s gl = (case item of (source, implied) \<Rightarrow>
     let type = (if ps_type source \<noteq> UNSPECIFIED then ps_type source else implied) in
     if type = UNSPECIFIED then (None, s, gl)
     else (case ps_source source of
         File f \<Rightarrow> LoadFromFile d incs type (sf_shader fs f) s gl
       | Abs_file f \<Rightarrow> LoadFromFile d incs type (sf_absolute fs f) s gl
       | Raw t \<Rightarrow> LoadFromString d incs type t s gl
       | By_name _ \<Rightarrow> (None, s, gl)
       | Source_not_set \<Rightarrow> (None, s, gl)))"

fun load_each :: "('a \<Rightarrow> shader \<Rightarrow> shader_card \<Rightarrow> load_error option \<times> shader \<times> shader_card) \<Rightarrow> 'a list \<Rightarrow> shader \<Rightarrow> shader_card \<Rightarrow>
    load_error option \<times> shader \<times> shader_card" where
  "load_each f [] s gl = (None, s, gl)"
| "load_each f (x # xs) s gl = (case f x s gl of
      (Some e, s1, gl1) \<Rightarrow> (Some e, s1, gl1)
    | (None, s1, gl1) \<Rightarrow> load_each f xs s1 gl1)"

record shader_world =
  sw_card :: shader_card
  sw_shaders :: "nat \<rightharpoonup> shader"
  sw_next :: nat
  sw_names :: "string \<rightharpoonup> nat"
  sw_includes :: "string \<rightharpoonup> string"

text \<open>The factories share their steps; an object that is not kept is destroyed, also when an error is thrown.\<close>

definition finish_shader :: "shader_driver \<Rightarrow> string \<Rightarrow> load_error option \<times> shader \<times> shader_card \<Rightarrow> shader_world \<Rightarrow>
    (load_error + nat option) \<times> shader_world" where
  "finish_shader d name loaded w = (case loaded of
      (Some e, s, gl) \<Rightarrow> (Inl e, w\<lparr>sw_card := snd (DeleteProgram s gl)\<rparr>)
    | (None, s, gl) \<Rightarrow> (case Build d s gl of
          (False, s1, gl1) \<Rightarrow> (Inr None, w\<lparr>sw_card := snd (DeleteProgram s1 gl1)\<rparr>)
        | (True, s1, gl1) \<Rightarrow> (Inr (Some (sw_next w)), w\<lparr>sw_card := gl1, sw_shaders := (sw_shaders w)(sw_next w \<mapsto> s1),
             sw_next := Suc (sw_next w), sw_names := (sw_names w)(name \<mapsto> sw_next w)\<rparr>)))"

definition CreateFromFile :: "shader_driver \<Rightarrow> string \<Rightarrow> (u32 \<times> file_answer) list \<Rightarrow> shader_world \<Rightarrow> (load_error + nat option) \<times> shader_world" where
  "CreateFromFile d name filenames w =
     finish_shader d name (load_each (\<lambda>(type, f). LoadFromFile d (sw_includes w) type f) filenames new_shader (sw_card w)) w"

definition CreateFromString :: "shader_driver \<Rightarrow> string \<Rightarrow> (u32 \<times> string) list \<Rightarrow> shader_world \<Rightarrow> (load_error + nat option) \<times> shader_world" where
  "CreateFromString d name source_code w =
     finish_shader d name (load_each (\<lambda>(type, t). LoadFromString d (sw_includes w) type t) source_code new_shader (sw_card w)) w"

text \<open>The sources without an implied type are taken as vertex shaders.\<close>

definition def_sources :: "p_shader_def \<Rightarrow> (p_shader_source \<times> u32) list" where
  "def_sources df = map (\<lambda>x. (x, VERTEX)) (pd_files df) @ map (\<lambda>x. (x, VERTEX)) (pd_vertex df) @ map (\<lambda>x. (x, FRAGMENT)) (pd_fragment df)
     @ map (\<lambda>x. (x, GEOMETRY)) (pd_geometry df) @ map (\<lambda>x. (x, TESS_CONTROL)) (pd_tess_control df) @ map (\<lambda>x. (x, TESS_EVAL)) (pd_tess_eval df)
     @ map (\<lambda>x. (x, COMPUTE)) (pd_compute df)"

definition CreateFromDef :: "shader_driver \<Rightarrow> shader_files \<Rightarrow> p_shader_def \<Rightarrow> shader_world \<Rightarrow> (load_error + nat option) \<times> shader_world" where
  "CreateFromDef d fs df w =
     finish_shader d (pd_name df) (load_each (LoadFromProto d fs (sw_includes w)) (def_sources df) new_shader (sw_card w)) w"

definition IncludeFromDef :: "shader_files \<Rightarrow> p_shader_include \<Rightarrow> shader_world \<Rightarrow> load_error option \<times> shader_world" where
  "IncludeFromDef fs inc w =
     (if pi_name inc = [] then (None, w)
      else (case (case ps_source (pi_source inc) of
            File f \<Rightarrow> sf_text fs f | Abs_file f \<Rightarrow> sf_absolute_text fs f | Raw t \<Rightarrow> Inr t | By_name _ \<Rightarrow> Inr [] | Source_not_set \<Rightarrow> Inr []) of
          Inl e \<Rightarrow> (Some (Path_error e), w)
        | Inr t \<Rightarrow> (None, if t = [] then w else w\<lparr>sw_includes := (sw_includes w)(pi_name inc \<mapsto> t)\<rparr>)))"

record p_render_config =
  rc_includes :: "p_shader_include list"
  rc_shaders :: "p_shader_def list"

fun include_each :: "shader_files \<Rightarrow> p_shader_include list \<Rightarrow> shader_world \<Rightarrow> load_error option \<times> shader_world" where
  "include_each fs [] w = (None, w)"
| "include_each fs (x # xs) w = (case IncludeFromDef fs x w of (Some e, w1) \<Rightarrow> (Some e, w1) | (None, w1) \<Rightarrow> include_each fs xs w1)"

fun define_each :: "shader_driver \<Rightarrow> shader_files \<Rightarrow> p_shader_def list \<Rightarrow> shader_world \<Rightarrow> load_error option \<times> shader_world" where
  "define_each d fs [] w = (None, w)"
| "define_each d fs (x # xs) w = (case CreateFromDef d fs x w of (Inl e, w1) \<Rightarrow> (Some e, w1) | (Inr _, w1) \<Rightarrow> define_each d fs xs w1)"

definition SetupDefaultShaders :: "shader_driver \<Rightarrow> shader_files \<Rightarrow> p_render_config \<Rightarrow> shader_world \<Rightarrow> load_error option \<times> shader_world" where
  "SetupDefaultShaders d fs config w = (case include_each fs (rc_includes config) w of
      (Some e, w1) \<Rightarrow> (Some e, w1) | (None, w1) \<Rightarrow> define_each d fs (rc_shaders config) w1)"

subsection \<open>The samplers of the engine\<close>

definition initial_set :: "(string \<times> int) list \<Rightarrow> string \<times> bool \<times> int \<Rightarrow> (int \<times> int) option" where
  "initial_set locations u = (case u of (name, sampler, _) \<Rightarrow>
     if sampler then map_option (\<lambda>c. (location_in locations name, c)) (engine_constants name) else None)"

definition locations_cached :: "(string \<times> int) list \<Rightarrow> shader \<Rightarrow> bool" where
  "locations_cached locations s \<longleftrightarrow> (\<forall>name l. sp_uniforms s name = Some l \<longrightarrow> l = location_in locations name)"

lemma note_uniform_step:
  assumes "locations_cached locations s"
  shows "locations_cached locations (note_uniform locations u s)"
    and "sp_initial_1i (note_uniform locations u s) = sp_initial_1i s @ (case initial_set locations u of None \<Rightarrow> [] | Some x \<Rightarrow> [x])"
    and "sp_program (note_uniform locations u s) = sp_program s" "sp_run_initial (note_uniform locations u s) = sp_run_initial s"
    and "sp_shaders (note_uniform locations u s) = sp_shaders s"
proof -
  obtain name sampler l where u: "u = (name, sampler, l)"
    by (cases u)
  have g: "fst (GetUniformLocation locations name s) = location_in locations name"
    "locations_cached locations (snd (GetUniformLocation locations name s))"
    "sp_initial_1i (snd (GetUniformLocation locations name s)) = sp_initial_1i s"
    "sp_program (snd (GetUniformLocation locations name s)) = sp_program s"
    "sp_run_initial (snd (GetUniformLocation locations name s)) = sp_run_initial s"
    "sp_shaders (snd (GetUniformLocation locations name s)) = sp_shaders s"
    using assms by (auto simp: GetUniformLocation_def locations_cached_def Let_def split: option.splits if_splits)
  then show "locations_cached locations (note_uniform locations u s)"
    "sp_initial_1i (note_uniform locations u s) = sp_initial_1i s @ (case initial_set locations u of None \<Rightarrow> [] | Some x \<Rightarrow> [x])"
    "sp_program (note_uniform locations u s) = sp_program s" "sp_run_initial (note_uniform locations u s) = sp_run_initial s"
    "sp_shaders (note_uniform locations u s) = sp_shaders s"
    by (auto simp: note_uniform_def u initial_set_def locations_cached_def split: prod.splits bool.splits option.splits)
qed

lemma note_uniforms:
  assumes "locations_cached locations s"
  shows "locations_cached locations (fold (note_uniform locations) us s)
    \<and> sp_initial_1i (fold (note_uniform locations) us s) = sp_initial_1i s @ List.map_filter (initial_set locations) us
    \<and> sp_program (fold (note_uniform locations) us s) = sp_program s \<and> sp_run_initial (fold (note_uniform locations) us s) = sp_run_initial s
    \<and> sp_shaders (fold (note_uniform locations) us s) = sp_shaders s"
  using assms
proof (induction us arbitrary: s)
  case (Cons u us)
  then show ?case
    using note_uniform_step [OF Cons.prems, of u] Cons.IH [of "note_uniform locations u s"]
    by (auto simp: map_filter_simps split: option.splits)
qed (simp add: map_filter_simps)

definition same_but_attributes :: "shader \<Rightarrow> shader \<Rightarrow> bool" where
  "same_but_attributes s t \<longleftrightarrow> sp_initial_1i t = sp_initial_1i s \<and> sp_program t = sp_program s \<and> sp_run_initial t = sp_run_initial s
     \<and> sp_shaders t = sp_shaders s"

lemma attribute_keeps: "same_but_attributes s (snd (GetAttributeLocation m name s))"
  by (simp add: same_but_attributes_def GetAttributeLocation_def Let_def split: option.split)

lemma attributes_keep: "same_but_attributes s (fold (\<lambda>(name, _) t. snd (GetAttributeLocation m name t)) as s)"
proof (induction as arbitrary: s)
  case (Cons x as)
  then show ?case
    using attribute_keeps [of s m "fst x"] Cons.IH [of "snd (GetAttributeLocation m (fst x) s)"]
    by (simp add: same_but_attributes_def case_prod_beta)
qed (simp add: same_but_attributes_def)

lemma built_shader:
  assumes "Build d s gl = (True, s1, gl1)" and "locations_cached [] s \<and> sp_uniforms s = (\<lambda>_. None)"
    and "sd_link d (List.map_filter (sc_shaders gl) (sp_shaders s)) = Some r"
  shows "sp_initial_1i s1 = sp_initial_1i s @ List.map_filter (initial_set (linked_locations r)) (lr_uniforms r)
    \<and> sp_run_initial s1 = sp_run_initial s \<and> sp_shaders s1 = sp_shaders s \<and> sp_program s1 = sd_new_program d (sc_programs gl)
    \<and> sc_programs gl1 = (sc_programs gl)(sp_program s1 \<mapsto> \<lparr>po_attached = [], po_uniforms = (\<lambda>_. None)\<rparr>) \<and> sc_shaders gl1 = sc_shaders gl"
proof -
  let ?s1 = "s\<lparr>sp_program := sd_new_program d (sc_programs gl)\<rparr>"
  have "locations_cached (linked_locations r) ?s1"
    using assms(2) by (simp add: locations_cached_def)
  note n = note_uniforms [OF this, of "lr_uniforms r"]
  show ?thesis
    using assms(1,3) n attributes_keep [of "fold (note_uniform (linked_locations r)) (lr_uniforms r) ?s1" "lr_attributes r" "lr_attributes r"]
    by (auto simp: Build_def Let_def same_but_attributes_def)
qed

definition put_uniform :: "int \<times> int \<Rightarrow> (int \<rightharpoonup> int) \<Rightarrow> int \<rightharpoonup> int" where
  "put_uniform x m = (if fst x = -1 then m else m(fst x \<mapsto> snd x))"

lemma set_uniforms:
  assumes "sc_programs gl (sc_current gl) = Some p"
  shows "sc_current (fold (\<lambda>(l, v). glUniform1i l v) sets gl) = sc_current gl
    \<and> sc_programs (fold (\<lambda>(l, v). glUniform1i l v) sets gl) (sc_current gl)
      = Some (p\<lparr>po_uniforms := fold put_uniform sets (po_uniforms p)\<rparr>)"
  using assms
proof (induction sets arbitrary: gl p)
  case (Cons x sets)
  obtain l v where x: "x = (l, v)"
    by (cases x)
  let ?p = "if l = -1 then p else p\<lparr>po_uniforms := (po_uniforms p)(l \<mapsto> v)\<rparr>"
  have "sc_programs (glUniform1i l v gl) (sc_current (glUniform1i l v gl)) = Some ?p" "sc_current (glUniform1i l v gl) = sc_current gl"
    using Cons.prems by (simp_all add: glUniform1i_def)
  then show ?case
    using Cons.IH [of "glUniform1i l v gl" ?p] by (simp add: x put_uniform_def)
qed simp

lemma put_uniforms_keep:
  "\<forall>v1. (l, v1) \<in> set xs \<longrightarrow> v1 = v \<Longrightarrow> m l = Some v \<Longrightarrow> fold put_uniform xs m l = Some v"
proof (induction xs arbitrary: m)
  case (Cons x xs)
  have "put_uniform x m l = Some v"
    using Cons.prems by (cases x) (simp add: put_uniform_def)
  then show ?case
    using Cons.IH [of "put_uniform x m"] Cons.prems(1) by simp
qed simp

lemma last_set_wins:
  "(l, v) \<in> set xs \<Longrightarrow> l \<noteq> -1 \<Longrightarrow> \<forall>v1. (l, v1) \<in> set xs \<longrightarrow> v1 = v \<Longrightarrow> fold put_uniform xs m l = Some v"
proof (induction xs arbitrary: m)
  case (Cons x xs)
  have tail: "\<forall>v1. (l, v1) \<in> set xs \<longrightarrow> v1 = v"
    using Cons.prems(3) unfolding list.set by blast
  show ?case
  proof (cases "x = (l, v)")
    case True
    then have "put_uniform x m l = Some v"
      using Cons.prems(2) by (simp add: put_uniform_def)
    then show ?thesis
      unfolding fold_Cons comp_apply by (rule put_uniforms_keep [OF tail])
  next
    case False
    then have "(l, v) \<in> set xs"
      using Cons.prems(1) unfolding list.set by blast
    then show ?thesis
      unfolding fold_Cons comp_apply by (rule Cons.IH [OF _ Cons.prems(2) tail])
  qed
qed simp

text \<open>The first use of a shader that was just built sets each active sampler whose name the engine knows to the number of its texture, and a second use changes
  nothing, if different uniforms have different locations.
\<close>

theorem first_use_sets_samplers:
  assumes "Build d s gl = (True, s1, gl1)" and "sp_uniforms s = (\<lambda>_. None)" and "sp_initial_1i s = []" and "sp_run_initial s"
    and "sd_link d (List.map_filter (sc_shaders gl) (sp_shaders s)) = Some r"
    and "distinct (map fst (lr_uniforms r))" and "inj_on (\<lambda>(name, _, l). l) (set (lr_uniforms r))"
    and "(name, True, l) \<in> set (lr_uniforms r)" and "engine_constants name = Some c" and "l \<noteq> -1"
    and "Use s1 gl1 = (s2, gl2)"
  shows "(\<exists>p. sc_programs gl2 (sp_program s1) = Some p \<and> po_uniforms p l = Some c) \<and> sc_current gl2 = sp_program s1 \<and> Use s2 gl2 = (s2, gl2)"
proof -
  let ?sets = "List.map_filter (initial_set (linked_locations r)) (lr_uniforms r)"
  have b: "sp_initial_1i s1 = ?sets" "sp_run_initial s1"
    "sc_programs gl1 (sp_program s1) = Some \<lparr>po_attached = [], po_uniforms = (\<lambda>_. None)\<rparr>"
    using built_shader [OF assms(1) _ assms(5)] assms(2,3,4) by (simp_all add: locations_cached_def)
  have names: "distinct (map fst (linked_locations r))"
    using assms(6) by (simp add: linked_locations_def comp_def case_prod_beta)
  have loc: "location_in (linked_locations r) n = k" if "(n, b, k) \<in> set (lr_uniforms r)" for n b k
  proof -
    have "(n, k) \<in> set (linked_locations r)"
      using that by (force simp: linked_locations_def)
    then show ?thesis
      using names by (simp add: location_in_def)
  qed
  have "initial_set (linked_locations r) (name, True, l) = Some (l, c)"
    using loc [OF assms(8)] assms(9) by (simp add: initial_set_def)
  then have "(l, c) \<in> set ?sets"
    using assms(8) by (force simp: map_filter_def)
  moreover have "v = c" if v: "(l, v) \<in> set ?sets" for v
  proof -
    obtain n where n: "(n, True, l) \<in> set (lr_uniforms r)" "engine_constants n = Some v"
      using v loc by (auto simp: map_filter_def initial_set_def split: if_splits)
    have "(n, True, l) = (name, True, l)"
      using inj_onD [OF assms(7) _ n(1) assms(8)] by simp
    then show ?thesis
      using n(2) assms(9) by simp
  qed
  ultimately have l: "fold put_uniform ?sets (\<lambda>_. None) l = Some c"
    using last_set_wins [of l c ?sets] assms(10) by blast
  have u: "s2 = s1\<lparr>sp_run_initial := False\<rparr>" "gl2 = fold (\<lambda>(l, v). glUniform1i l v) ?sets (gl1\<lparr>sc_current := sp_program s1\<rparr>)"
    using assms(11) b by (simp_all add: Use_def)
  have "sc_current gl2 = sp_program s1 \<and> sc_programs gl2 (sp_program s1)
    = Some \<lparr>po_attached = [], po_uniforms = fold put_uniform ?sets (\<lambda>_. None)\<rparr>"
    using set_uniforms [of "gl1\<lparr>sc_current := sp_program s1\<rparr>" _ ?sets] b(3) by (simp add: u(2))
  then show ?thesis
    using l u(1) by (simp add: Use_def)
qed

subsection \<open>What a factory leaves on the card\<close>

definition shader_names_ok :: "shader_driver \<Rightarrow> bool" where
  "shader_names_ok d \<longleftrightarrow> (\<forall>type m a. sd_new_shader d type m = Some a \<longrightarrow> m a = None)
     \<and> (\<forall>m. (\<exists>a. a \<noteq> 0 \<and> m a = None) \<longrightarrow> sd_new_program d m \<noteq> 0 \<and> m (sd_new_program d m) = None)"

definition clean_source :: "shader_driver \<Rightarrow> (string \<rightharpoonup> string) \<Rightarrow> u32 \<times> string \<Rightarrow> bool" where
  "clean_source d incs src \<longleftrightarrow> (case preprocess incs (snd src) of Inl _ \<Rightarrow> False | Inr p \<Rightarrow> \<not> sd_unexpected_error d (fst src) (processed_source p))"

text \<open>The objects that were added to the card are those of the shader.\<close>

definition owns_added :: "shader_card \<Rightarrow> shader \<Rightarrow> shader_card \<Rightarrow> bool" where
  "owns_added gl0 s gl \<longleftrightarrow> (\<forall>a. if a \<in> set (sp_shaders s) then sc_shaders gl0 a = None \<and> sc_shaders gl a \<noteq> None else sc_shaders gl a = sc_shaders gl0 a)
     \<and> sc_programs gl = sc_programs gl0 \<and> sc_current gl = sc_current gl0 \<and> sp_program s = 0 \<and> sp_uniforms s = (\<lambda>_. None)"

lemma clean_load:
  assumes "shader_names_ok d" and "clean_source d incs (type, t)" and "owns_added gl0 s gl"
  shows "\<exists>s1 gl1. LoadFromString d incs type t s gl = (None, s1, gl1) \<and> owns_added gl0 s1 gl1"
proof (cases "sd_new_shader d type (sc_shaders gl)")
  case None
  then show ?thesis
    using assms(3) by (simp add: LoadFromString_def)
next
  case (Some a)
  obtain p where p: "preprocess incs t = Inr p" "\<not> sd_unexpected_error d type (processed_source p)"
    using assms(2) by (auto simp: clean_source_def split: sum.splits)
  have "sc_shaders gl a = None"
    using Some assms(1) by (simp add: shader_names_ok_def)
  then have "a \<notin> set (sp_shaders s)" "sc_shaders gl0 a = None"
    using assms(3) unfolding owns_added_def by metis+
  then show ?thesis
    using assms(3) p Some by (simp add: LoadFromString_def owns_added_def) (metis not_None_eq)
qed

lemma clean_loads:
  assumes "shader_names_ok d" and "\<forall>src \<in> set srcs. clean_source d incs src" and "owns_added gl0 s gl"
  shows "\<exists>s1 gl1. load_each (\<lambda>(type, t). LoadFromString d incs type t) srcs s gl = (None, s1, gl1) \<and> owns_added gl0 s1 gl1"
  using assms(2,3)
proof (induction srcs arbitrary: s gl)
  case (Cons src srcs)
  obtain type t where src: "src = (type, t)"
    by (cases src)
  obtain s1 gl1 where "LoadFromString d incs type t s gl = (None, s1, gl1)" "owns_added gl0 s1 gl1"
    using clean_load [OF assms(1)] Cons.prems src by fastforce
  then show ?case
    using Cons.IH [of s1 gl1] Cons.prems(1) by (simp add: src)
qed simp

lemma delete_shaders: "foldl (\<lambda>m a. m(a := None)) m as = (\<lambda>a. if a \<in> set as then None else m a)"
  by (induction as arbitrary: m) auto

lemma DeleteProgram_eq:
  "DeleteProgram s gl = (s\<lparr>sp_program := 0, sp_shaders := []\<rparr>,
     \<lparr>sc_shaders = (\<lambda>a. if a \<in> set (sp_shaders s) then None else sc_shaders gl a),
      sc_programs = (if sp_program s \<noteq> 0 then (sc_programs gl)(sp_program s := None) else sc_programs gl), sc_current = sc_current gl\<rparr>)"
  by (cases "sp_program s = 0") (simp_all add: DeleteProgram_def delete_shaders Let_def cong: if_cong)

lemma failed_build_restores:
  assumes "owns_added gl0 s gl" and "Build d s gl = (False, s1, gl1)" and "sc_programs gl0 (sd_new_program d (sc_programs gl0)) = None"
    and "sd_new_program d (sc_programs gl0) \<noteq> 0"
  shows "snd (DeleteProgram s1 gl1) = gl0"
proof -
  have sh: "(\<lambda>a. if a \<in> set (sp_shaders s) then None else sc_shaders gl a) = sc_shaders gl0"
    using assms(1) by (auto simp: owns_added_def fun_eq_iff)
  have pr: "sc_programs gl = sc_programs gl0" "sc_current gl = sc_current gl0"
    using assms(1) by (simp_all add: owns_added_def)
  have idem: "(sc_programs gl0)(sd_new_program d (sc_programs gl0) := None) = sc_programs gl0"
    using assms(3) by (simp add: fun_upd_idem)
  have "(s1, gl1) = (s\<lparr>sp_program := 0, sp_shaders := []\<rparr>, gl0)"
    using assms(2,4) sh pr idem by (auto simp: Build_def DeleteProgram_eq Let_def cong: if_cong split: option.splits)
  then show ?thesis
    by (simp add: DeleteProgram_eq)
qed

text \<open>C32: From sources that can all be preprocessed and compile without an unexpected error, a shader that cannot be linked leaves everything as
  it was, and one that can is stored under its name and owns exactly the objects that were added to the card. A source that includes an
  unknown name leaves an object that nobody owns (\<open>missing_include_leaks_object\<close>).
\<close>

theorem created_shader_owns_objects:
  assumes "shader_names_ok d" and "a \<noteq> 0" and "sc_programs (sw_card w) a = None"
    and "\<forall>src \<in> set source_code. clean_source d (sw_includes w) src"
    and "CreateFromString d name source_code w = (Inr r, w1)"
  shows "case r of
      None \<Rightarrow> w1 = w
    | Some k \<Rightarrow> \<exists>s. sw_shaders w1 k = Some s \<and> sw_names w1 = (sw_names w)(name \<mapsto> k)
        \<and> (\<forall>b. if b \<in> set (sp_shaders s) then sc_shaders (sw_card w) b = None \<and> sc_shaders (sw_card w1) b \<noteq> None
               else sc_shaders (sw_card w1) b = sc_shaders (sw_card w) b)
        \<and> sc_programs (sw_card w) (sp_program s) = None \<and> dom (sc_programs (sw_card w1)) = insert (sp_program s) (dom (sc_programs (sw_card w)))"
proof -
  let ?gl = "sw_card w"
  have start: "owns_added ?gl new_shader ?gl"
    by (simp add: owns_added_def new_shader_def)
  obtain s gl where s: "load_each (\<lambda>(type, t). LoadFromString d (sw_includes w) type t) source_code new_shader ?gl = (None, s, gl)"
    "owns_added ?gl s gl"
    using clean_loads [OF assms(1,4) start] by blast
  have new: "sd_new_program d (sc_programs ?gl) \<noteq> 0" "sc_programs ?gl (sd_new_program d (sc_programs ?gl)) = None"
    using assms(1-3) unfolding shader_names_ok_def by blast+
  obtain ok s1 gl1 where b: "Build d s gl = (ok, s1, gl1)"
    by (cases "Build d s gl")
  have fin: "finish_shader d name (None, s, gl) w = (Inr r, w1)"
    using assms(5) s(1) by (simp add: CreateFromString_def)
  show ?thesis
  proof (cases ok)
    case False
    then have "snd (DeleteProgram s1 gl1) = ?gl"
      using failed_build_restores [OF s(2) _ new(2,1)] b by simp
    then show ?thesis
      using fin False b by (auto simp: finish_shader_def)
  next
    case True
    obtain lr where lr: "sd_link d (List.map_filter (sc_shaders gl) (sp_shaders s)) = Some lr"
      using b True by (auto simp: Build_def Let_def split: option.splits)
    have own: "sc_programs gl = sc_programs ?gl" "sp_uniforms s = (\<lambda>_. None)"
      using s(2) by (simp_all add: owns_added_def)
    have bs: "sp_shaders s1 = sp_shaders s" "sp_program s1 = sd_new_program d (sc_programs ?gl)" "sc_shaders gl1 = sc_shaders gl"
      "sc_programs gl1 = (sc_programs ?gl)(sp_program s1 \<mapsto> \<lparr>po_attached = [], po_uniforms = (\<lambda>_. None)\<rparr>)"
      using built_shader [of d s gl s1 gl1 lr] own True b lr by (simp_all add: locations_cached_def)
    have w1: "r = Some (sw_next w)" "sw_card w1 = gl1" "sw_shaders w1 (sw_next w) = Some s1" "sw_names w1 = (sw_names w)(name \<mapsto> sw_next w)"
      using fin b True by (auto simp: finish_shader_def)
    have "\<forall>b. if b \<in> set (sp_shaders s1) then sc_shaders ?gl b = None \<and> sc_shaders gl1 b \<noteq> None else sc_shaders gl1 b = sc_shaders ?gl b"
      using s(2) unfolding owns_added_def bs by blast
    then show ?thesis
      using w1 bs(2,4) new(2) by simp
  qed
qed

text \<open>When a source includes an unknown name, its loading ends and leaves the object on the card that was created for it, which the shader does not own.\<close>

theorem missing_include_leaks_object:
  assumes "sd_new_shader d type (sc_shaders gl) = Some a" and "preprocess incs raw_source = Inl (Include_not_found n name)"
    and "LoadFromString d incs type raw_source s gl = (e, s1, gl1)"
  shows "e = None \<and> s1 = s \<and> sc_shaders gl1 = (sc_shaders gl)(a \<mapsto> \<lparr>sh_type = type, sh_source = []\<rparr>)"
  using assms by (auto simp: LoadFromString_def)

subsection \<open>Examples\<close>

definition example_compiler :: shader_driver where
  "example_compiler = \<lparr>sd_new_shader = (\<lambda>_. first_free), sd_new_program = free_name, sd_unexpected_error = (\<lambda>_ _. False),
     sd_link = (\<lambda>ss. if ss = [] then None else Some \<lparr>lr_uniforms = [(''mSPMap'', True, 7)], lr_attributes = []\<rparr>)\<rparr>"

definition blank_card :: shader_card where
  "blank_card = \<lparr>sc_shaders = (\<lambda>_. None), sc_programs = (\<lambda>_. None), sc_current = 0\<rparr>"

definition blank_world :: shader_world where
  "blank_world = \<lparr>sw_card = blank_card, sw_shaders = (\<lambda>_. None), sw_next = 0, sw_names = (\<lambda>_. None), sw_includes = (\<lambda>_. None)\<rparr>"

lemma example_compiler_ok: "shader_names_ok example_compiler"
  by (auto simp: shader_names_ok_def example_compiler_def free_name_nonzero dest: first_free_SomeD intro: free_name_free)

text \<open>Two sources, one of which includes a text, and a link that succeeds.\<close>

definition include_world :: shader_world where
  "include_world = blank_world\<lparr>sw_includes := example_includes\<rparr>"

lemma example_clean: "\<forall>src \<in> set [(VERTEX, example_source), (FRAGMENT, ''b'')]. clean_source example_compiler (sw_includes include_world) src"
proof -
  have "text_lines ''b'' = [''b'']"
    by (simp add: text_lines.simps)
  then have "\<exists>s. preprocess example_includes ''b'' = Inr s"
    by (simp add: preprocess_def line_step_def example_kinds Let_def)
  moreover obtain s where "preprocess example_includes example_source = Inr s"
    by (rule example_preprocessed)
  ultimately show ?thesis
    by (auto simp: clean_source_def example_compiler_def include_world_def)
qed

lemma example_created:
  "\<exists>k s w1. CreateFromString example_compiler ''s'' [(VERTEX, example_source), (FRAGMENT, ''b'')] include_world = (Inr (Some k), w1)
     \<and> sw_shaders w1 k = Some s \<and> length (sp_shaders s) = 2"
proof -
  let ?none = "(\<lambda>_. None) :: u32 \<rightharpoonup> shader_object"
  obtain p q where p: "preprocess example_includes example_source = Inr p" "preprocess example_includes ''b'' = Inr q"
    using example_clean by (auto simp: clean_source_def include_world_def split: sum.splits)
  obtain a where a: "first_free ?none = Some a"
    using first_free_exists [of 1 ?none] by auto
  let ?one = "[a \<mapsto> \<lparr>sh_type = VERTEX, sh_source = processed_source p\<rparr>]"
  have "(if a = 1 then 2 else 1) \<noteq> (0 :: u32)" "?one (if a = 1 then 2 else 1) = None"
    by simp_all
  then obtain b where b: "first_free ?one = Some b"
    using first_free_exists by blast
  have "b \<noteq> a"
    using first_free_SomeD [OF b] by auto
  let ?s = "new_shader\<lparr>sp_shaders := [a, b]\<rparr>"
  let ?gl = "blank_card\<lparr>sc_shaders := ?one(b \<mapsto> \<lparr>sh_type = FRAGMENT, sh_source = processed_source q\<rparr>)\<rparr>"
  have l: "load_each (\<lambda>(type, t). LoadFromString example_compiler (sw_includes include_world) type t)
      [(VERTEX, example_source), (FRAGMENT, ''b'')] new_shader (sw_card include_world) = (None, ?s, ?gl)"
    using a b p by (simp add: LoadFromString_def example_compiler_def include_world_def blank_world_def blank_card_def new_shader_def)
  have r: "sd_link example_compiler (List.map_filter (sc_shaders ?gl) (sp_shaders ?s)) = Some \<lparr>lr_uniforms = [(''mSPMap'', True, 7)], lr_attributes = []\<rparr>"
    using \<open>b \<noteq> a\<close> by (simp add: example_compiler_def map_filter_simps)
  then obtain s1 gl1 where s1: "Build example_compiler ?s ?gl = (True, s1, gl1)"
    by (simp add: Build_def Let_def)
  then have "sp_shaders s1 = [a, b]"
    using built_shader [OF s1 _ r] by (simp add: locations_cached_def new_shader_def)
  then show ?thesis
    unfolding CreateFromString_def l using s1 by (simp add: finish_shader_def)
qed

lemma created_shader_owns_objects_witness:
  "\<exists>k s w1. CreateFromString example_compiler ''s'' [(VERTEX, example_source), (FRAGMENT, ''b'')] include_world = (Inr (Some k), w1)
     \<and> sw_shaders w1 k = Some s \<and> length (sp_shaders s) = 2 \<and> sw_names w1 ''s'' = Some k
     \<and> dom (sc_shaders (sw_card w1)) = set (sp_shaders s) \<and> dom (sc_programs (sw_card w1)) = {sp_program s}"
proof -
  obtain k s w1 where w1: "CreateFromString example_compiler ''s'' [(VERTEX, example_source), (FRAGMENT, ''b'')] include_world = (Inr (Some k), w1)"
    "sw_shaders w1 k = Some s" "length (sp_shaders s) = 2"
    using example_created by blast
  have blank: "sc_programs (sw_card include_world) 1 = None" "sc_shaders (sw_card include_world) = (\<lambda>_. None)"
    "sc_programs (sw_card include_world) = (\<lambda>_. None)"
    by (simp_all add: include_world_def blank_world_def blank_card_def)
  have own: "sw_names w1 ''s'' = Some k" "\<forall>b. b \<in> set (sp_shaders s) \<longleftrightarrow> sc_shaders (sw_card w1) b \<noteq> None"
    "dom (sc_programs (sw_card w1)) = {sp_program s}"
    using created_shader_owns_objects [OF example_compiler_ok _ blank(1) example_clean w1(1)] w1(2) by (auto simp: blank split: if_splits)
  then show ?thesis
    using w1 by (auto simp: dom_def)
qed

lemma missing_include_leaks_object_witness:
  "\<exists>a s1 gl1. LoadFromString example_compiler (\<lambda>_. None) VERTEX example_source new_shader blank_card = (None, s1, gl1)
     \<and> sp_shaders s1 = [] \<and> sc_shaders gl1 a \<noteq> None"
proof -
  have "first_free (\<lambda>_. None :: shader_object option) \<noteq> None"
    by (rule first_free_exists [of 1]) simp_all
  then obtain a where a: "sd_new_shader example_compiler VERTEX (sc_shaders blank_card) = Some a"
    by (auto simp: example_compiler_def blank_card_def)
  obtain e s1 gl1 where l: "LoadFromString example_compiler (\<lambda>_. None) VERTEX example_source new_shader blank_card = (e, s1, gl1)"
    by (cases "LoadFromString example_compiler (\<lambda>_. None) VERTEX example_source new_shader blank_card")
  obtain n name where "preprocess (\<lambda>_. None) example_source = Inl (Include_not_found n name)"
    using example_include_missing by blast
  from missing_include_leaks_object [OF a this l] show ?thesis
    using l by (intro exI [of _ a] exI [of _ s1] exI [of _ gl1]) (simp add: new_shader_def)
qed

lemma first_use_sets_samplers_witness:
  "\<exists>s1 gl1 s2 gl2 p. Build example_compiler (new_shader\<lparr>sp_shaders := [1]\<rparr>) (blank_card\<lparr>sc_shaders := [1 \<mapsto> \<lparr>sh_type = VERTEX, sh_source = []\<rparr>]\<rparr>)
       = (True, s1, gl1) \<and> Use s1 gl1 = (s2, gl2) \<and> sc_programs gl2 (sp_program s1) = Some p \<and> po_uniforms p 7 = Some 1"
proof -
  let ?s = "new_shader\<lparr>sp_shaders := [1]\<rparr>"
  let ?gl = "blank_card\<lparr>sc_shaders := [1 \<mapsto> \<lparr>sh_type = VERTEX, sh_source = []\<rparr>]\<rparr>"
  let ?r = "\<lparr>lr_uniforms = [(''mSPMap'', True, 7)], lr_attributes = []\<rparr>"
  have r: "sd_link example_compiler (List.map_filter (sc_shaders ?gl) (sp_shaders ?s)) = Some ?r"
    by (simp add: example_compiler_def map_filter_simps)
  then obtain s1 gl1 where b: "Build example_compiler ?s ?gl = (True, s1, gl1)"
    by (simp add: Build_def Let_def)
  obtain s2 gl2 where u: "Use s1 gl1 = (s2, gl2)"
    by (cases "Use s1 gl1")
  have "engine_constants ''mSPMap'' = Some 1"
    by (simp add: engine_constants_def)
  then have "\<exists>p. sc_programs gl2 (sp_program s1) = Some p \<and> po_uniforms p 7 = Some 1"
    using first_use_sets_samplers [OF b _ _ _ r _ _ _ _ _ u, of "''mSPMap''" 7 1] by (simp add: new_shader_def)
  then show ?thesis
    using b u by blast
qed

end
