(* ===== verification/Window.thy ===== *)
theory Window
  imports Controllers "HOL-Library.Signed_Division"
begin

text \<open>
  The window and its input (client/os.cpp): the callbacks of the window library become events, the size of the window is kept for leaving the
  full screen, and a locked mouse is held near the center. The window library is a record of what it was last told, and its answers are
  parameters. Floating point numbers are rationals, and the products of sizes do not overflow.
\<close>

subsection \<open>The window library\<close>

record monitor =
  mn_x :: int
  mn_y :: int
  mn_width :: int
  mn_height :: int
  mn_refresh :: int

record glfw_window =
  gw_x :: int
  gw_y :: int
  gw_width :: int
  gw_height :: int
  gw_monitor :: "nat option"
  gw_refresh :: int
  gw_cursor :: "rat \<times> rat"
  gw_cursor_disabled :: bool
  gw_raw_motion :: bool
  gw_should_close :: bool
  gw_current :: bool
  gw_aspect :: "(int \<times> int) option"

definition new_glfw_window :: "int \<Rightarrow> int \<Rightarrow> nat option \<Rightarrow> glfw_window" where
  "new_glfw_window w h m = \<lparr>gw_x = 0, gw_y = 0, gw_width = w, gw_height = h, gw_monitor = m, gw_refresh = 0, gw_cursor = (0, 0),
     gw_cursor_disabled = False, gw_raw_motion = False, gw_should_close = False, gw_current = False, gw_aspect = None\<rparr>"

definition GLFW_DONT_CARE :: int where "GLFW_DONT_CARE = -1"

text \<open>A window on a monitor takes its place; else it gets the place that is given.\<close>

definition glfwSetWindowMonitor :: "monitor list \<Rightarrow> nat option \<Rightarrow> int \<Rightarrow> int \<Rightarrow> int \<Rightarrow> int \<Rightarrow> int \<Rightarrow> glfw_window \<Rightarrow> glfw_window" where
  "glfwSetWindowMonitor ms m x y w h refresh g =
     g\<lparr>gw_monitor := m, gw_x := (case m of Some i \<Rightarrow> mn_x (ms ! i) | None \<Rightarrow> x), gw_y := (case m of Some i \<Rightarrow> mn_y (ms ! i) | None \<Rightarrow> y),
       gw_width := w, gw_height := h, gw_refresh := refresh\<rparr>"

definition GLFW_RELEASE :: int where "GLFW_RELEASE = 0"
definition GLFW_PRESS :: int where "GLFW_PRESS = 1"
definition GLFW_REPEAT :: int where "GLFW_REPEAT = 2"
definition GLFW_KEY_ENTER :: int where "GLFW_KEY_ENTER = 257"
definition GLFW_MOD_ALT :: int where "GLFW_MOD_ALT = 4"
definition GLFW_MOUSE_BUTTON_LEFT :: int where "GLFW_MOUSE_BUTTON_LEFT = 0"
definition GLFW_MOUSE_BUTTON_RIGHT :: int where "GLFW_MOUSE_BUTTON_RIGHT = 1"
definition GLFW_MOUSE_BUTTON_MIDDLE :: int where "GLFW_MOUSE_BUTTON_MIDDLE = 2"

lemmas glfw_defs = GLFW_RELEASE_def GLFW_PRESS_def GLFW_REPEAT_def GLFW_KEY_ENTER_def GLFW_MOD_ALT_def GLFW_MOUSE_BUTTON_LEFT_def
  GLFW_MOUSE_BUTTON_RIGHT_def GLFW_MOUSE_BUTTON_MIDDLE_def

subsection \<open>Events\<close>

record window_resized_event =
  wr_old_width :: int
  wr_old_height :: int
  wr_new_width :: int
  wr_new_height :: int

text \<open>The position relative to the size of the window; \<open>None\<close> for a size of 0, where it is not a number.\<close>

datatype os_event =
    Key_event keyboard_event
  | Move_event "rat option \<times> rat option" mouse_move_event
  | Scroll_event rat rat
  | Button_event mouse_btn_event
  | Resized_event window_resized_event
  | Drop_event "string list"

record os =
  os_window :: glfw_window
  os_focused :: bool
  os_client_width :: int
  os_client_height :: int
  os_old_mouse :: "rat \<times> rat"
  os_last_time :: rat
  os_mouse_lock :: bool
  os_mouse_locked :: bool
  os_fullscreen :: bool
  os_keyboard :: "keyboard_event list"
  os_emitted :: "os_event list"

definition new_os :: "glfw_window \<Rightarrow> os" where
  "new_os g = \<lparr>os_window = g, os_focused = False, os_client_width = 0, os_client_height = 0, os_old_mouse = (0, 0), os_last_time = 0,
     os_mouse_lock = False, os_mouse_locked = False, os_fullscreen = False, os_keyboard = [], os_emitted = []\<rparr>"

definition emit_event :: "os_event \<Rightarrow> os \<Rightarrow> os" where
  "emit_event e s = s\<lparr>os_emitted := os_emitted s @ [e]\<rparr>"

text \<open>The operating system layer listens to the keyboard itself.\<close>

definition emit_key :: "keyboard_event \<Rightarrow> os \<Rightarrow> os" where
  "emit_key e s = emit_event (Key_event e) (s\<lparr>os_keyboard := os_keyboard s @ [e]\<rparr>)"

definition UpdateWindowSize :: "int \<Rightarrow> int \<Rightarrow> os \<Rightarrow> os" where
  "UpdateWindowSize width height s =
     (let s1 = emit_event (Resized_event \<lparr>wr_old_width = os_client_width s, wr_old_height = os_client_height s, wr_new_width = width,
        wr_new_height = height\<rparr>) s
      in if os_fullscreen s then s1 else s1\<lparr>os_client_width := width, os_client_height := height\<rparr>)"

definition DispatchKeyboardEvent :: "int \<Rightarrow> int \<Rightarrow> int \<Rightarrow> int \<Rightarrow> os \<Rightarrow> os" where
  "DispatchKeyboardEvent key scancode action mods = emit_key \<lparr>ke_key = key, ke_scancode = scancode,
     ke_action = (if action = GLFW_REPEAT then KEY_REPEAT else if action = GLFW_RELEASE then KEY_UP else KEY_DOWN), ke_mods = mods\<rparr>"

definition DispatchCharacterEvent :: "u32 \<Rightarrow> os \<Rightarrow> os" where
  "DispatchCharacterEvent uchar = emit_key \<lparr>ke_key = sint uchar, ke_scancode = 0, ke_action = KEY_CHAR, ke_mods = 0\<rparr>"

definition truncated :: "rat \<Rightarrow> int" where
  "truncated r = (if 0 \<le> r then \<lfloor>r\<rfloor> else \<lceil>r\<rceil>)"

definition relative :: "rat \<Rightarrow> int \<Rightarrow> rat option" where
  "relative x n = (if n = 0 then None else Some (x / of_int n))"

definition move_event :: "rat \<Rightarrow> rat \<Rightarrow> os \<Rightarrow> os_event" where
  "move_event x y s = Move_event (relative x (os_client_width s), relative y (os_client_height s))
     \<lparr>mm_old_x = truncated (fst (os_old_mouse s)), mm_old_y = truncated (snd (os_old_mouse s)), mm_new_x = truncated x, mm_new_y = truncated y\<rparr>"

definition IsBetween :: "rat \<Rightarrow> rat \<Rightarrow> rat \<Rightarrow> bool" where
  "IsBetween v lower upper \<longleftrightarrow> v > lower \<and> v < upper"

text \<open>A locked mouse follows only moves toward the center.\<close>

definition hold_to_center :: "rat \<Rightarrow> rat \<Rightarrow> rat \<Rightarrow> rat" where
  "hold_to_center x center old =
     (let old1 = (if IsBetween x old center then x else old) in if IsBetween x center old1 then x else old1)"

definition center_of :: "int \<Rightarrow> rat" where
  "center_of n = of_int (n sdiv 2)"

definition DispatchMouseMoveEvent :: "rat \<Rightarrow> rat \<Rightarrow> os \<Rightarrow> os" where
  "DispatchMouseMoveEvent x y s =
     (let s1 = emit_event (move_event x y s) s in
      if os_mouse_locked s then
        let p = (hold_to_center x (center_of (os_client_width s)) (fst (os_old_mouse s)),
                 hold_to_center y (center_of (os_client_height s)) (snd (os_old_mouse s)))
        in s1\<lparr>os_old_mouse := p, os_window := (os_window s1)\<lparr>gw_cursor := p\<rparr>\<rparr>
      else s1\<lparr>os_old_mouse := (x, y)\<rparr>)"

definition DispatchMouseScrollEvent :: "rat \<Rightarrow> rat \<Rightarrow> os \<Rightarrow> os" where
  "DispatchMouseScrollEvent xoffset yoffset = emit_event (Scroll_event xoffset yoffset)"

text \<open>The event is made with zeros, which are \<open>DOWN\<close> and \<open>LEFT\<close>.\<close>

definition DispatchMouseButtonEvent :: "int \<Rightarrow> int \<Rightarrow> os \<Rightarrow> os" where
  "DispatchMouseButtonEvent button action s =
     (if action = GLFW_PRESS \<or> action = GLFW_RELEASE then
        emit_event (Button_event \<lparr>mb_action = (if action = GLFW_PRESS then DOWN else UP),
          mb_button = (if button = GLFW_MOUSE_BUTTON_LEFT then LEFT else if button = GLFW_MOUSE_BUTTON_RIGHT then RIGHT
            else if button = GLFW_MOUSE_BUTTON_MIDDLE then MIDDLE else LEFT)\<rparr>) s
      else s)"

definition BACKSLASH :: char where "BACKSLASH = CHR 0x5C"

lemma first_backslash:
  assumes "BACKSLASH \<notin> set a"
  shows "takeWhile (\<lambda>c. c \<noteq> BACKSLASH) (a @ BACKSLASH # b) = a" "dropWhile (\<lambda>c. c \<noteq> BACKSLASH) (a @ BACKSLASH # b) = BACKSLASH # b"
proof -
  have "\<forall>c \<in> set a. c \<noteq> BACKSLASH"
    using assms by blast
  then show "takeWhile (\<lambda>c. c \<noteq> BACKSLASH) (a @ BACKSLASH # b) = a" "dropWhile (\<lambda>c. c \<noteq> BACKSLASH) (a @ BACKSLASH # b) = BACKSLASH # b"
    by (simp_all add: takeWhile_append2 dropWhile_append2)
qed

text \<open>The first backslash is replaced until there is none.\<close>

function forward_slashes :: "string \<Rightarrow> string" where
  "forward_slashes name = (if BACKSLASH \<in> set name
     then forward_slashes (takeWhile (\<lambda>c. c \<noteq> BACKSLASH) name @ CHR ''/'' # tl (dropWhile (\<lambda>c. c \<noteq> BACKSLASH) name)) else name)"
  by pat_completeness auto
termination
proof (relation "measure (\<lambda>s. count_list s BACKSLASH)")
  fix name :: string
  assume "BACKSLASH \<in> set name"
  then obtain a b where ab: "name = a @ BACKSLASH # b" "BACKSLASH \<notin> set a"
    by (metis split_list_first)
  then have "takeWhile (\<lambda>c. c \<noteq> BACKSLASH) name = a" "dropWhile (\<lambda>c. c \<noteq> BACKSLASH) name = BACKSLASH # b"
    using first_backslash by simp_all
  then show "(takeWhile (\<lambda>c. c \<noteq> BACKSLASH) name @ CHR ''/'' # tl (dropWhile (\<lambda>c. c \<noteq> BACKSLASH) name), name) \<in> measure (\<lambda>s. count_list s BACKSLASH)"
    by (simp add: ab(1) BACKSLASH_def)
qed simp

declare forward_slashes.simps [simp del]

definition DispatchFileDropEvent :: "string list \<Rightarrow> os \<Rightarrow> os" where
  "DispatchFileDropEvent paths = emit_event (Drop_event (map forward_slashes paths))"

subsection \<open>Full screen\<close>

definition overlap :: "glfw_window \<Rightarrow> monitor \<Rightarrow> int" where
  "overlap g m = max 0 (min (gw_x g + gw_width g) (mn_x m + mn_width m) - max (gw_x g) (mn_x m))
     * max 0 (min (gw_y g + gw_height g) (mn_y m + mn_height m) - max (gw_y g) (mn_y m))"

definition better_monitor :: "glfw_window \<Rightarrow> nat \<times> monitor \<Rightarrow> nat option \<times> int \<Rightarrow> nat option \<times> int" where
  "better_monitor g im best = (case (im, best) of ((i, m), (bestmonitor, bestoverlap)) \<Rightarrow>
     if bestoverlap < overlap g m then (Some i, overlap g m) else (bestmonitor, bestoverlap))"

definition get_current_monitor :: "monitor list \<Rightarrow> glfw_window \<Rightarrow> nat option" where
  "get_current_monitor ms g = fst (fold (better_monitor g) (enumerate 0 ms) (None, 0))"

definition ToggleFullScreen :: "monitor list \<Rightarrow> os \<Rightarrow> os" where
  "ToggleFullScreen ms s = (case get_current_monitor ms (os_window s) of
      None \<Rightarrow> s
    | Some i \<Rightarrow> let m = ms ! i; g = os_window s in
        if \<not> os_fullscreen s
        then s\<lparr>os_fullscreen := True, os_window := glfwSetWindowMonitor ms (Some i) 0 0 (mn_width m) (mn_height m) (mn_refresh m) g\<rparr>
        else s\<lparr>os_fullscreen := False,
               os_window := glfwSetWindowMonitor ms None (gw_x g + mn_width m sdiv 2 - os_client_width s sdiv 2)
                 (gw_y g + mn_height m sdiv 2 - os_client_height s sdiv 2) (os_client_width s) (os_client_height s) GLFW_DONT_CARE g\<rparr>)"

text \<open>\<open>OS::On\<close> takes one argument, so it does not override the handler of the event queue, which takes the entity as well.\<close>

definition os_On_KeyboardEvent :: "monitor list \<Rightarrow> keyboard_event \<Rightarrow> os \<Rightarrow> os" where
  "os_On_KeyboardEvent ms e s =
     (if ke_action e = KEY_UP \<and> ke_key e = GLFW_KEY_ENTER \<and> ke_mods e AND GLFW_MOD_ALT \<noteq> 0 then ToggleFullScreen ms s else s)"

subsection \<open>The message loop\<close>

datatype glfw_input =
    Window_size int int
  | Key_input int int int int
  | Char_input u32
  | Cursor_pos rat rat
  | Scroll_input rat rat
  | Mouse_button int int int
  | Window_focus int
  | Drop_input "string list"

definition WindowFocusChange :: "int \<Rightarrow> os \<Rightarrow> os" where
  "WindowFocusChange focused s = (if focused = 0 then s\<lparr>os_focused := False\<rparr> else if focused = 1 then s\<lparr>os_focused := True\<rparr> else s)"

text \<open>The callbacks, which find the layer through the pointer of the window.\<close>

fun os_input :: "glfw_input \<Rightarrow> os \<Rightarrow> os" where
  "os_input (Window_size w h) s = UpdateWindowSize w h s"
| "os_input (Key_input key scancode action mods) s = DispatchKeyboardEvent key scancode action mods s"
| "os_input (Char_input uchar) s = DispatchCharacterEvent uchar s"
| "os_input (Cursor_pos x y) s = DispatchMouseMoveEvent x y s"
| "os_input (Scroll_input x y) s = DispatchMouseScrollEvent x y s"
| "os_input (Mouse_button button action _) s = DispatchMouseButtonEvent button action s"
| "os_input (Window_focus focused) s = WindowFocusChange focused s"
| "os_input (Drop_input paths) s = DispatchFileDropEvent paths s"

text \<open>The queue of the keyboard is drained by the handler that the queue comes with, which does nothing.\<close>

definition OSMessageLoop :: "glfw_input list \<Rightarrow> os \<Rightarrow> os" where
  "OSMessageLoop polled s =
     (let s1 = fold os_input polled s;
          s2 = s1\<lparr>os_keyboard := []\<rparr>
      in if os_mouse_lock s2 \<noteq> os_mouse_locked s2
         then s2\<lparr>os_mouse_locked := os_mouse_lock s2, os_window := (os_window s2)\<lparr>gw_cursor_disabled := os_mouse_lock s2\<rparr>\<rparr> else s2)"

subsection \<open>Other operations\<close>

definition MakeCurrent :: "os \<Rightarrow> os" where
  "MakeCurrent s = s\<lparr>os_window := (os_window s)\<lparr>gw_current := True\<rparr>\<rparr>"

definition DetachContext :: "os \<Rightarrow> os" where
  "DetachContext s = s\<lparr>os_window := (os_window s)\<lparr>gw_current := False\<rparr>\<rparr>"

definition SetWindowAspectRatio :: "int \<Rightarrow> int \<Rightarrow> os \<Rightarrow> os" where
  "SetWindowAspectRatio numerator denominator s = s\<lparr>os_window := (os_window s)\<lparr>gw_aspect := Some (numerator, denominator)\<rparr>\<rparr>"

definition Quit :: "os \<Rightarrow> os" where
  "Quit s = s\<lparr>os_window := (os_window s)\<lparr>gw_should_close := True\<rparr>\<rparr>"

definition Closing :: "os \<Rightarrow> bool" where
  "Closing s = gw_should_close (os_window s)"

definition GetDeltaTime :: "rat \<Rightarrow> os \<Rightarrow> rat \<times> os" where
  "GetDeltaTime new_time s = (new_time - os_last_time s, s\<lparr>os_last_time := new_time\<rparr>)"

definition EnableMouseLock :: "os \<Rightarrow> os" where
  "EnableMouseLock s = s\<lparr>os_mouse_lock := True\<rparr>"

definition DisableMouseLock :: "os \<Rightarrow> os" where
  "DisableMouseLock s = s\<lparr>os_mouse_lock := False\<rparr>"

text \<open>\<open>None\<close> is a call for no window.\<close>

definition SetMousePosition :: "rat \<Rightarrow> rat \<Rightarrow> os \<Rightarrow> os option" where
  "SetMousePosition x y s = (if os_focused s then Some (s\<lparr>os_window := (os_window s)\<lparr>gw_cursor := (x, y)\<rparr>\<rparr>) else None)"

text \<open>The variables of the caller, before and after.\<close>

definition GetMousePosition :: "rat \<times> rat \<Rightarrow> os \<Rightarrow> rat \<times> rat" where
  "GetMousePosition old s = (if os_focused s then (if os_mouse_locked s then (1 / 2, 1 / 2) else gw_cursor (os_window s)) else old)"

subsection \<open>Opening the window\<close>

record window_system =
  ws_init :: bool
  ws_primary :: "nat"
  ws_create :: "int \<Rightarrow> int \<Rightarrow> nat option \<Rightarrow> glfw_window option"
  ws_glad :: bool
  ws_version :: "int \<times> int"
  ws_glsl :: string

definition char_value :: "char \<Rightarrow> int" where
  "char_value c = (let n = of_char c in if n < 128 then n else n - 256)"

text \<open>The version of the shading language: whether it is at least 3.3, or \<open>None\<close> for an exception. Only the first digit of each part is looked at.\<close>

definition glsl_supported :: "string \<Rightarrow> bool option" where
  "glsl_supported v =
     (let major = takeWhile (\<lambda>c. c \<noteq> CHR ''.'') v; minor = take 1 (if CHR ''.'' \<in> set v then tl (dropWhile (\<lambda>c. c \<noteq> CHR ''.'') v) else v) in
      if major = [] then None
      else if char_value (hd major) < char_value (CHR ''3'') then Some False
      else if hd major = CHR ''3'' then
        if minor = [] then None else Some (\<not> char_value (hd minor) < char_value (CHR ''3''))
      else Some True)"

text \<open>\<open>None\<close>: an assertion or an exception. The flag is the result.\<close>

definition InitializeWindow ::
    "window_system \<Rightarrow> monitor list \<Rightarrow> int \<Rightarrow> int \<Rightarrow> int \<Rightarrow> int \<Rightarrow> bool \<Rightarrow> os \<Rightarrow> (bool \<times> os) option" where
  "InitializeWindow ws ms width height glMajor glMinor fullscreen s0 =
     (let s = s0\<lparr>os_fullscreen := fullscreen\<rparr> in
      if glMajor < 3 \<or> glMajor * 10 + glMinor < 30 then None
      else if \<not> ws_init ws then Some (False, s)
      else case (if fullscreen then let i = ws_primary ws in ws_create ws (mn_width (ms ! i)) (mn_height (ms ! i)) (Some i)
                 else ws_create ws width height None) of
          None \<Rightarrow> Some (False, s)
        | Some g \<Rightarrow>
            let s1 = MakeCurrent (s\<lparr>os_window := g\<rparr>); (major, minor) = ws_version ws in
            if \<not> ws_glad ws then Some (False, s1)
            else if major < glMajor \<or> major = glMajor \<and> minor < glMinor then Some (False, s1)
            else (case glsl_supported (ws_glsl ws) of
                None \<Rightarrow> None
              | Some False \<Rightarrow> Some (False, s1)
              | Some True \<Rightarrow>
                  let s2 = s1\<lparr>os_client_width := gw_width g, os_client_height := gw_height g, os_old_mouse := gw_cursor g,
                        os_window := (os_window s1)\<lparr>gw_raw_motion := True\<rparr>\<rparr>;
                      s3 = UpdateWindowSize width height s2
                  in Some (True, s3\<lparr>os_focused := True, os_mouse_locked := False\<rparr>)))"

subsection \<open>Dropped files\<close>

lemma forward_slashes_map: "forward_slashes name = map (\<lambda>c. if c = BACKSLASH then CHR ''/'' else c) name"
proof (induction name rule: forward_slashes.induct)
  case (1 name)
  show ?case
  proof (cases "BACKSLASH \<in> set name")
    case True
    then obtain a b where ab: "name = a @ BACKSLASH # b" "BACKSLASH \<notin> set a"
      by (metis split_list_first)
    have slash: "CHR ''/'' \<noteq> BACKSLASH"
      by (simp add: BACKSLASH_def)
    show ?thesis
      using 1 [OF True] True first_backslash [OF ab(2), of b] slash by (subst forward_slashes.simps) (simp add: ab(1))
  next
    case False
    then have "map (\<lambda>c. if c = BACKSLASH then CHR ''/'' else c) name = name"
      by (intro map_idI) auto
    then show ?thesis
      using False by (subst forward_slashes.simps) simp
  qed
qed

text \<open>C35: The loop that replaces the first backslash of a dropped file name until it finds none ends, and gives the name with every backslash turned into a slash.\<close>

theorem drop_turns_backslashes:
  "os_emitted (DispatchFileDropEvent paths s)
   = os_emitted s @ [Drop_event (map (map (\<lambda>c. if c = BACKSLASH then CHR ''/'' else c)) paths)]"
proof -
  have "forward_slashes = map (\<lambda>c. if c = BACKSLASH then CHR ''/'' else c)"
    by (rule ext) (rule forward_slashes_map)
  then show ?thesis
    by (simp add: DispatchFileDropEvent_def emit_event_def)
qed

subsection \<open>The monitor of a window\<close>

lemma better_monitors:
  assumes "fold (better_monitor g) (enumerate 0 ms) (None, 0) = (best, area)"
  shows "case best of
      None \<Rightarrow> area = 0 \<and> (\<forall>m \<in> set ms. overlap g m \<le> 0)
    | Some i \<Rightarrow> i < length ms \<and> area = overlap g (ms ! i) \<and> 0 < area \<and> (\<forall>m \<in> set ms. overlap g m \<le> area)
        \<and> (\<forall>j < i. overlap g (ms ! j) < area)"
  using assms
proof (induction ms arbitrary: best area rule: rev_induct)
  case (snoc m ms)
  obtain b a where ba: "fold (better_monitor g) (enumerate 0 ms) (None, 0) = (b, a)"
    by (cases "fold (better_monitor g) (enumerate 0 ms) (None, 0)")
  have e: "enumerate 0 (ms @ [m]) = enumerate 0 ms @ [(length ms, m)]"
    by (simp add: enumerate_append_eq)
  have step: "better_monitor g (length ms, m) (b, a) = (best, area)"
    using snoc.prems by (simp add: e ba)
  have "0 \<le> a"
    using snoc.IH [OF ba] by (auto split: option.splits)
  have below: "\<forall>j < length ms. overlap g (ms ! j) \<le> a"
    using snoc.IH [OF ba] nth_mem by (fastforce split: option.splits)
  show ?case
  proof (cases "a < overlap g m")
    case True
    then have "best = Some (length ms)" "area = overlap g m"
      using step by (auto simp: better_monitor_def)
    moreover have "overlap g x \<le> overlap g m" if "x \<in> set ms" for x
      using that below True by (metis in_set_conv_nth le_less_trans less_imp_le)
    moreover have "overlap g (ms ! j) < overlap g m" if "j < length ms" for j
      using that below True le_less_trans by blast
    ultimately show ?thesis
      using True \<open>0 \<le> a\<close> by (simp add: nth_append)
  next
    case False
    then have "best = b" "area = a"
      using step by (auto simp: better_monitor_def)
    then show ?thesis
      using snoc.IH [OF ba] False by (cases b) (auto simp: nth_append)
  qed
qed simp

text \<open>The monitor that the window is on is the first of those that it overlaps most; there is none exactly when it overlaps none.\<close>

theorem current_monitor_overlaps_most:
  "case get_current_monitor ms g of
      None \<Rightarrow> \<forall>m \<in> set ms. overlap g m \<le> 0
    | Some i \<Rightarrow> i < length ms \<and> 0 < overlap g (ms ! i) \<and> (\<forall>m \<in> set ms. overlap g m \<le> overlap g (ms ! i))
        \<and> (\<forall>j < i. overlap g (ms ! j) < overlap g (ms ! i))"
proof -
  obtain b a where ba: "fold (better_monitor g) (enumerate 0 ms) (None, 0) = (b, a)"
    by (cases "fold (better_monitor g) (enumerate 0 ms) (None, 0)")
  show ?thesis
    using better_monitors [OF ba] by (cases b) (auto simp: get_current_monitor_def ba)
qed

lemma current_monitor_exists:
  assumes "m \<in> set ms" and "0 < overlap g m"
  obtains i where "get_current_monitor ms g = Some i" and "i < length ms"
proof -
  obtain b a where ba: "fold (better_monitor g) (enumerate 0 ms) (None, 0) = (b, a)"
    by (cases "fold (better_monitor g) (enumerate 0 ms) (None, 0)")
  show ?thesis
    using better_monitors [OF ba] assms that by (cases b) (force simp: get_current_monitor_def ba)+
qed

subsection \<open>Leaving the full screen\<close>

text \<open>Input leaves the window and the mode alone, and the size in the full screen.\<close>

definition same_window :: "os \<Rightarrow> os \<Rightarrow> bool" where
  "same_window s t \<longleftrightarrow> os_fullscreen t = os_fullscreen s \<and> (os_fullscreen s \<longrightarrow> os_client_width t = os_client_width s \<and> os_client_height t = os_client_height s)
     \<and> gw_x (os_window t) = gw_x (os_window s) \<and> gw_y (os_window t) = gw_y (os_window s)
     \<and> gw_width (os_window t) = gw_width (os_window s) \<and> gw_height (os_window t) = gw_height (os_window s)"

lemma same_window_trans: "same_window s t \<Longrightarrow> same_window t u \<Longrightarrow> same_window s u"
  by (simp add: same_window_def)

lemma input_same_window: "same_window s (os_input i s)"
  by (cases i) (simp_all add: same_window_def UpdateWindowSize_def DispatchKeyboardEvent_def DispatchCharacterEvent_def
      DispatchMouseMoveEvent_def DispatchMouseScrollEvent_def DispatchMouseButtonEvent_def WindowFocusChange_def DispatchFileDropEvent_def
      emit_event_def emit_key_def Let_def)

lemma inputs_same_window: "same_window s (fold os_input inputs s)"
proof (induction inputs arbitrary: s)
  case (Cons i inputs)
  then show ?case
    using input_same_window [of s i] same_window_trans by fastforce
qed (simp add: same_window_def)

lemma loop_same_window: "same_window s (OSMessageLoop polled s)"
  using inputs_same_window [of s polled] by (simp add: OSMessageLoop_def same_window_def Let_def)

lemma loops_same_window: "same_window s (fold OSMessageLoop rounds s)"
proof (induction rounds arbitrary: s)
  case (Cons polled rounds)
  then show ?case
    using loop_same_window [of s polled] same_window_trans by fastforce
qed (simp add: same_window_def)

text \<open>Rounds of the message loop never enter or leave the full screen, so neither do the keys ALT and Enter.\<close>

lemma keys_never_toggle: "os_fullscreen (fold OSMessageLoop rounds s) = os_fullscreen s"
  using loops_same_window [of s rounds] by (simp add: same_window_def)

text \<open>Two monitors that are side by side, and two that show the same part of the desktop.\<close>

definition monitors_apart :: "monitor \<Rightarrow> monitor \<Rightarrow> bool" where
  "monitors_apart m n \<longleftrightarrow> mn_x m + mn_width m \<le> mn_x n \<or> mn_x n + mn_width n \<le> mn_x m
     \<or> mn_y m + mn_height m \<le> mn_y n \<or> mn_y n + mn_height n \<le> mn_y m"

definition monitors_mirror :: "monitor \<Rightarrow> monitor \<Rightarrow> bool" where
  "monitors_mirror m n \<longleftrightarrow> mn_x m = mn_x n \<and> mn_y m = mn_y n \<and> mn_width m = mn_width n \<and> mn_height m = mn_height n"

text \<open>A window that fills a monitor is found on that monitor or one that mirrors it.\<close>

lemma filling_window_monitor:
  assumes "i < length ms" and "0 < mn_width (ms ! i)" and "0 < mn_height (ms ! i)"
    and "\<And>m. m \<in> set ms \<Longrightarrow> monitors_apart m (ms ! i) \<or> monitors_mirror m (ms ! i)"
    and "gw_x g = mn_x (ms ! i)" and "gw_y g = mn_y (ms ! i)" and "gw_width g = mn_width (ms ! i)" and "gw_height g = mn_height (ms ! i)"
  obtains j where "get_current_monitor ms g = Some j" and "monitors_mirror (ms ! j) (ms ! i)"
proof -
  have "0 < overlap g (ms ! i)"
    using assms(2,3) by (simp add: overlap_def assms(5-8))
  then obtain j where j: "get_current_monitor ms g = Some j" "j < length ms"
    using current_monitor_exists [of "ms ! i" ms g] assms(1) nth_mem by blast
  have "0 < overlap g (ms ! j)"
    using current_monitor_overlaps_most [of ms g] j(1) by simp
  then have "0 < min (gw_x g + gw_width g) (mn_x (ms ! j) + mn_width (ms ! j)) - max (gw_x g) (mn_x (ms ! j))"
    and "0 < min (gw_y g + gw_height g) (mn_y (ms ! j) + mn_height (ms ! j)) - max (gw_y g) (mn_y (ms ! j))"
    unfolding overlap_def zero_less_mult_iff by auto
  then have "\<not> monitors_apart (ms ! j) (ms ! i)"
    by (auto simp: monitors_apart_def assms(5-8))
  then show thesis
    using that [OF j(1)] assms(4) [of "ms ! j"] j(2) by simp
qed

text \<open>C28: When a window enters the full screen on the monitor it is on and leaves it again, it has the size it had before, whatever rounds of the message
  loop and changes of size came between, and it is centered on that monitor, up to the rounding of half a pixel; monitors are side by side or
  mirror each other.
\<close>

theorem leaving_restores_size:
  assumes "\<not> os_fullscreen s" and "get_current_monitor ms (os_window s) = Some i"
    and "0 < mn_width (ms ! i)" and "0 < mn_height (ms ! i)"
    and "\<forall>m \<in> set ms. monitors_apart m (ms ! i) \<or> monitors_mirror m (ms ! i)"
    and "t = ToggleFullScreen ms (fold OSMessageLoop rounds (ToggleFullScreen ms s))"
  shows "\<not> os_fullscreen t \<and> os_client_width t = os_client_width s \<and> os_client_height t = os_client_height s
    \<and> gw_monitor (os_window t) = None \<and> gw_width (os_window t) = os_client_width s \<and> gw_height (os_window t) = os_client_height s
    \<and> gw_x (os_window t) = mn_x (ms ! i) + mn_width (ms ! i) sdiv 2 - os_client_width s sdiv 2
    \<and> gw_y (os_window t) = mn_y (ms ! i) + mn_height (ms ! i) sdiv 2 - os_client_height s sdiv 2"
proof -
  let ?m = "ms ! i"
  let ?s1 = "ToggleFullScreen ms s"
  let ?s2 = "fold OSMessageLoop rounds ?s1"
  have i: "i < length ms"
    using current_monitor_overlaps_most [of ms "os_window s"] assms(2) by simp
  have s1: "os_fullscreen ?s1" "os_client_width ?s1 = os_client_width s" "os_client_height ?s1 = os_client_height s"
    "gw_x (os_window ?s1) = mn_x ?m" "gw_y (os_window ?s1) = mn_y ?m" "gw_width (os_window ?s1) = mn_width ?m"
    "gw_height (os_window ?s1) = mn_height ?m"
    using assms(1,2) by (simp_all add: ToggleFullScreen_def glfwSetWindowMonitor_def Let_def)
  have s2: "os_fullscreen ?s2" "os_client_width ?s2 = os_client_width s" "os_client_height ?s2 = os_client_height s"
    "gw_x (os_window ?s2) = mn_x ?m" "gw_y (os_window ?s2) = mn_y ?m" "gw_width (os_window ?s2) = mn_width ?m"
    "gw_height (os_window ?s2) = mn_height ?m"
    using loops_same_window [of ?s1 rounds] s1 by (simp_all add: same_window_def)
  obtain j where "get_current_monitor ms (os_window ?s2) = Some j" "monitors_mirror (ms ! j) ?m"
    using filling_window_monitor [OF i assms(3,4) _ s2(4-7)] assms(5) by blast
  then show ?thesis
    using s2 by (simp add: assms(6) ToggleFullScreen_def glfwSetWindowMonitor_def monitors_mirror_def Let_def)
qed

subsection \<open>The locked mouse\<close>

definition closer :: "rat \<Rightarrow> rat \<Rightarrow> rat \<Rightarrow> bool" where
  "closer center old new \<longleftrightarrow> min old center \<le> new \<and> new \<le> max old center"

lemma hold_to_center_closer: "closer center old (hold_to_center x center old)"
  by (auto simp: closer_def hold_to_center_def IsBetween_def Let_def)

lemma closer_trans: "closer center a b \<Longrightarrow> closer center b c \<Longrightarrow> closer center a c"
  by (auto simp: closer_def min_def max_def split: if_splits)

text \<open>While the mouse is locked, no sequence of moves takes the kept position past the center or away from it, and the cursor is put back to that
  position after each move.
\<close>

theorem locked_mouse_held:
  assumes "os_mouse_locked s" and "t = fold (\<lambda>(x, y). DispatchMouseMoveEvent x y) moves s"
  shows "closer (center_of (os_client_width s)) (fst (os_old_mouse s)) (fst (os_old_mouse t))
    \<and> closer (center_of (os_client_height s)) (snd (os_old_mouse s)) (snd (os_old_mouse t))
    \<and> (moves \<noteq> [] \<longrightarrow> gw_cursor (os_window t) = os_old_mouse t)"
proof -
  have "os_mouse_locked t \<and> os_client_width t = os_client_width s \<and> os_client_height t = os_client_height s
    \<and> closer (center_of (os_client_width s)) (fst (os_old_mouse s)) (fst (os_old_mouse t))
    \<and> closer (center_of (os_client_height s)) (snd (os_old_mouse s)) (snd (os_old_mouse t))
    \<and> (moves \<noteq> [] \<longrightarrow> gw_cursor (os_window t) = os_old_mouse t)"
    unfolding assms(2)
  proof (induction moves rule: rev_induct)
    case (snoc p moves)
    obtain x y where p: "p = (x, y)"
      by (cases p)
    let ?u = "fold (\<lambda>(x, y). DispatchMouseMoveEvent x y) moves s"
    have u: "os_mouse_locked ?u" "os_client_width ?u = os_client_width s" "os_client_height ?u = os_client_height s"
      using snoc.IH by simp_all
    have v: "os_old_mouse (DispatchMouseMoveEvent x y ?u) = (hold_to_center x (center_of (os_client_width s)) (fst (os_old_mouse ?u)),
        hold_to_center y (center_of (os_client_height s)) (snd (os_old_mouse ?u)))"
      "gw_cursor (os_window (DispatchMouseMoveEvent x y ?u)) = os_old_mouse (DispatchMouseMoveEvent x y ?u)"
      "os_mouse_locked (DispatchMouseMoveEvent x y ?u)" "os_client_width (DispatchMouseMoveEvent x y ?u) = os_client_width s"
      "os_client_height (DispatchMouseMoveEvent x y ?u) = os_client_height s"
      using u by (simp_all add: DispatchMouseMoveEvent_def emit_event_def Let_def)
    show ?case
      using snoc.IH v hold_to_center_closer closer_trans by (fastforce simp: p)
  qed (use assms(1) in \<open>simp add: closer_def\<close>)
  then show ?thesis
    by blast
qed

text \<open>A button of the mouse other than the left, right and middle one is reported as the left one.\<close>

theorem side_button_is_left:
  assumes "button \<notin> {GLFW_MOUSE_BUTTON_LEFT, GLFW_MOUSE_BUTTON_RIGHT, GLFW_MOUSE_BUTTON_MIDDLE}"
  shows "DispatchMouseButtonEvent button action s = DispatchMouseButtonEvent GLFW_MOUSE_BUTTON_LEFT action s"
  using assms by (simp add: DispatchMouseButtonEvent_def)

text \<open>A window that is opened in the full screen announces the size that was asked for instead of its own.\<close>

theorem fullscreen_start_announces_request:
  assumes "InitializeWindow ws ms width height glMajor glMinor True s = Some (True, t)"
  shows "\<exists>g. ws_create ws (mn_width (ms ! ws_primary ws)) (mn_height (ms ! ws_primary ws)) (Some (ws_primary ws)) = Some g
    \<and> os_client_width t = gw_width g \<and> os_client_height t = gw_height g
    \<and> last (os_emitted t) = Resized_event \<lparr>wr_old_width = gw_width g, wr_old_height = gw_height g, wr_new_width = width, wr_new_height = height\<rparr>"
  using assms
  by (auto simp: InitializeWindow_def UpdateWindowSize_def emit_event_def MakeCurrent_def Let_def split: if_splits option.splits prod.splits bool.splits)

subsection \<open>Examples\<close>

definition one_monitor :: "monitor list" where
  "one_monitor = [\<lparr>mn_x = 0, mn_y = 0, mn_width = 1920, mn_height = 1080, mn_refresh = 60\<rparr>]"

text \<open>A second monitor to the right of the first, and a window on the second.\<close>

definition two_monitors :: "monitor list" where
  "two_monitors = one_monitor @ [\<lparr>mn_x = 1920, mn_y = 0, mn_width = 1280, mn_height = 1024, mn_refresh = 75\<rparr>]"

definition small_window :: os where
  "small_window = (new_os (new_glfw_window 800 600 None))\<lparr>os_client_width := 800, os_client_height := 600\<rparr>"

lemma small_window_monitor: "get_current_monitor one_monitor (os_window small_window) = Some 0"
  by (simp add: get_current_monitor_def better_monitor_def overlap_def one_monitor_def small_window_def new_os_def new_glfw_window_def)

definition right_window :: os where
  "right_window = small_window\<lparr>os_window := (new_glfw_window 800 600 None)\<lparr>gw_x := 2000\<rparr>\<rparr>"

lemma right_window_monitor: "get_current_monitor two_monitors (os_window right_window) = Some 1"
  by (simp add: get_current_monitor_def better_monitor_def overlap_def two_monitors_def one_monitor_def right_window_def new_glfw_window_def)

lemma leaving_restores_size_witness:
  "let t = ToggleFullScreen two_monitors (fold OSMessageLoop [[Window_size 1280 1024], [Mouse_button 0 1 0, Key_input 257 28 0 4]]
       (ToggleFullScreen two_monitors right_window)) in gw_width (os_window t) = 800 \<and> gw_x (os_window t) = 2160 \<and> gw_y (os_window t) = 212"
proof -
  have w: "\<not> os_fullscreen right_window" "os_client_width right_window = 800" "os_client_height right_window = 600"
    "0 < mn_width (two_monitors ! 1)" "0 < mn_height (two_monitors ! 1)"
    "\<forall>m \<in> set two_monitors. monitors_apart m (two_monitors ! 1) \<or> monitors_mirror m (two_monitors ! 1)"
    by (simp_all add: right_window_def small_window_def new_os_def two_monitors_def one_monitor_def monitors_apart_def monitors_mirror_def)
  have m: "mn_x (two_monitors ! 1) + mn_width (two_monitors ! 1) sdiv 2 - 800 sdiv 2 = 2160"
    "mn_y (two_monitors ! 1) + mn_height (two_monitors ! 1) sdiv 2 - 600 sdiv 2 = 212"
    by (simp_all add: two_monitors_def one_monitor_def signed_divide_int_def)
  show ?thesis
    using leaving_restores_size [OF w(1) right_window_monitor w(4-6) refl] by (simp only: Let_def w(2,3) m simp_thms)
qed

lemma current_monitor_overlaps_most_witness:
  "\<forall>j < 0. overlap (os_window small_window) (one_monitor ! j) < overlap (os_window small_window) (one_monitor ! 0)"
  using current_monitor_overlaps_most [of one_monitor "os_window small_window"] small_window_monitor by simp

lemma locked_mouse_held_witness:
  "closer 400 0 (fst (os_old_mouse (fold (\<lambda>(x, y). DispatchMouseMoveEvent x y) [(10, 20), (500, 300)] (small_window\<lparr>os_mouse_locked := True\<rparr>))))"
  using locked_mouse_held [of "small_window\<lparr>os_mouse_locked := True\<rparr>" _ "[(10, 20), (500, 300)]", OF _ refl]
  by (simp add: small_window_def new_os_def center_of_def)

lemma side_button_is_left_witness: "DispatchMouseButtonEvent 4 1 small_window = DispatchMouseButtonEvent 0 1 small_window"
  using side_button_is_left [of 4 1 small_window] by (simp add: glfw_defs)

definition example_system :: window_system where
  "example_system = \<lparr>ws_init = True, ws_primary = 0, ws_create = (\<lambda>w h m. Some (new_glfw_window w h m)), ws_glad = True, ws_version = (4, 6), ws_glsl = ''4.60''\<rparr>"

lemma fullscreen_start_announces_request_witness:
  "\<exists>t. InitializeWindow example_system one_monitor 1024 768 4 0 True (new_os (new_glfw_window 0 0 None)) = Some (True, t)
     \<and> os_client_width t = 1920
     \<and> last (os_emitted t) = Resized_event \<lparr>wr_old_width = 1920, wr_old_height = 1080, wr_new_width = 1024, wr_new_height = 768\<rparr>"
proof -
  have "glsl_supported ''4.60'' = Some True"
    by (simp add: glsl_supported_def char_value_def Let_def)
  then obtain t where t: "InitializeWindow example_system one_monitor 1024 768 4 0 True (new_os (new_glfw_window 0 0 None)) = Some (True, t)"
    by (simp add: InitializeWindow_def example_system_def one_monitor_def Let_def)
  show ?thesis
    using fullscreen_start_announces_request [OF t] t by (auto simp: example_system_def one_monitor_def new_glfw_window_def)
qed

end
