(* ===== verification/Gui.thy ===== *)
theory Gui
  imports Window Safe_Run "HOL-Library.List_Lexorder" "HOL-Library.Char_ord"
begin

text \<open>
  The user interface (client/imgui-system.cpp): input events become the input state of the ImGui library, visible windows are drawn in the order of
  their names, and the lists that the library draws are copied into two buffers that only grow. What the library itself does is a
  parameter; floating point numbers are rationals. The result \<open>None\<close> is an access outside an array.
\<close>

subsection \<open>State\<close>

text \<open>The part of the library's input that the system writes: 512 keys and three buttons.\<close>

record gui_io =
  io_keys_down :: "bool list"
  io_ctrl :: bool
  io_shift :: bool
  io_alt :: bool
  io_characters :: "int list"
  io_mouse_pos :: "rat \<times> rat"
  io_mouse_wheel :: rat
  io_mouse_down :: "bool list"
  io_delta :: rat
  io_display :: "int \<times> int"

record gui =
  gi_framebuffer :: "int \<times> int"
  gi_window_size :: "int \<times> int"
  gi_mouse_pressed :: "bool list"
  gi_mouse_released :: "bool list"
  gi_mouse_pos :: "rat \<times> rat"
  gi_mouse_wheel :: "rat \<times> rat"
  gi_visible :: "string list"
  gi_draw_funcs :: "string set"
  gi_io :: gui_io

definition new_io :: gui_io where
  "new_io = \<lparr>io_keys_down = replicate 512 False, io_ctrl = False, io_shift = False, io_alt = False, io_characters = [], io_mouse_pos = (-1, -1),
     io_mouse_wheel = 0, io_mouse_down = replicate 3 False, io_delta = 0, io_display = (0, 0)\<rparr>"

definition new_gui :: gui where
  "new_gui = \<lparr>gi_framebuffer = (0, 0), gi_window_size = (0, 0), gi_mouse_pressed = replicate 3 False, gi_mouse_released = replicate 3 False,
     gi_mouse_pos = (0, 0), gi_mouse_wheel = (0, 0), gi_visible = [], gi_draw_funcs = {}, gi_io = new_io\<rparr>"

text \<open>Windows are shown and hidden by commands; the visible ones are an ordered set.\<close>

datatype gui_command = Show_window string | Hide_window string

fun run_gui_command :: "gui_command \<Rightarrow> gui \<Rightarrow> gui" where
  "run_gui_command (Show_window name) g = g\<lparr>gi_visible := (if name \<in> set (gi_visible g) then gi_visible g else insort name (gi_visible g))\<rparr>"
| "run_gui_command (Hide_window name) g = g\<lparr>gi_visible := remove1 name (gi_visible g)\<rparr>"

definition IsWindowVisible :: "string \<Rightarrow> gui \<Rightarrow> bool" where
  "IsWindowVisible name g \<longleftrightarrow> name \<in> set (gi_visible g)"

definition AddWindowDrawFunction :: "string \<Rightarrow> gui \<Rightarrow> gui" where
  "AddWindowDrawFunction name g = g\<lparr>gi_draw_funcs := insert name (gi_draw_funcs g)\<rparr>"

text \<open>The items of the menu show or hide their window.\<close>

definition menu_item :: "string \<Rightarrow> gui \<Rightarrow> gui_command" where
  "menu_item name g = (if IsWindowVisible name g then Hide_window name else Show_window name)"

definition CreateGUI :: "gui \<Rightarrow> gui_command list \<times> gui" where
  "CreateGUI g = ([Show_window ''main_menu''], AddWindowDrawFunction ''main_menu'' g)"

subsection \<open>Events\<close>

definition UpdateDisplaySize :: "int \<times> int \<Rightarrow> int \<times> int \<Rightarrow> gui \<Rightarrow> gui" where
  "UpdateDisplaySize window framebuffer g =
     g\<lparr>gi_window_size := window, gi_framebuffer := framebuffer, gi_io := (gi_io g)\<lparr>io_display := framebuffer\<rparr>\<rparr>"

definition gui_On_MouseMove :: "mouse_move_event \<Rightarrow> gui \<Rightarrow> gui" where
  "gui_On_MouseMove e g = g\<lparr>gi_mouse_pos := (of_int (mm_new_x e), of_int (mm_new_y e))\<rparr>"

definition gui_On_MouseScroll :: "rat \<times> rat \<Rightarrow> gui \<Rightarrow> gui" where
  "gui_On_MouseScroll p g = g\<lparr>gi_mouse_wheel := p\<rparr>"

fun button_index :: "mouse_btn \<Rightarrow> nat" where
  "button_index LEFT = 0" | "button_index RIGHT = 1" | "button_index MIDDLE = 2"

definition gui_On_MouseBtn :: "mouse_btn_event \<Rightarrow> gui \<Rightarrow> gui" where
  "gui_On_MouseBtn e g = (case mb_action e of
      DOWN \<Rightarrow> g\<lparr>gi_mouse_pressed := (gi_mouse_pressed g)[button_index (mb_button e) := True]\<rparr>
    | UP \<Rightarrow> g\<lparr>gi_mouse_released := (gi_mouse_released g)[button_index (mb_button e) := True]\<rparr>)"

definition put_key :: "int \<Rightarrow> bool \<Rightarrow> gui_io \<Rightarrow> gui_io option" where
  "put_key key v x = (if 0 \<le> key \<and> key < int (length (io_keys_down x)) then Some (x\<lparr>io_keys_down := (io_keys_down x)[nat key := v]\<rparr>) else None)"

definition modifiers :: "gui_io \<Rightarrow> gui_io" where
  "modifiers x = x\<lparr>io_ctrl := io_keys_down x ! 341 \<or> io_keys_down x ! 345, io_shift := io_keys_down x ! 340 \<or> io_keys_down x ! 344,
     io_alt := io_keys_down x ! 342 \<or> io_keys_down x ! 346\<rparr>"

definition gui_On_Keyboard :: "keyboard_event \<Rightarrow> gui \<Rightarrow> gui option" where
  "gui_On_Keyboard e g =
     map_option (\<lambda>x. g\<lparr>gi_io := x\<rparr>)
       (if ke_action e = KEY_CHAR then
          Some (if 0 < ke_key e \<and> ke_key e < 0x10000 then (gi_io g)\<lparr>io_characters := io_characters (gi_io g) @ [ke_key e]\<rparr> else gi_io g)
        else map_option modifiers
          (if ke_action e = KEY_DOWN then put_key (ke_key e) True (gi_io g)
           else if ke_action e = KEY_UP then put_key (ke_key e) False (gi_io g) else Some (gi_io g)))"

subsection \<open>A frame\<close>

text \<open>What arrived since the last frame; the sizes are those of the window when the event is processed.\<close>

record gui_events =
  ge_commands :: "gui_command list"
  ge_sizes :: "((int \<times> int) \<times> (int \<times> int)) list"
  ge_moves :: "mouse_move_event list"
  ge_scrolls :: "(rat \<times> rat) list"
  ge_buttons :: "mouse_btn_event list"
  ge_keys :: "keyboard_event list"
  ge_focused :: bool

definition no_gui_events :: gui_events where
  "no_gui_events = \<lparr>ge_commands = [], ge_sizes = [], ge_moves = [], ge_scrolls = [], ge_buttons = [], ge_keys = [], ge_focused = True\<rparr>"

text \<open>The division by a window size of 0, which is not a number, is 0 here.\<close>

definition scaled :: "rat \<Rightarrow> int \<Rightarrow> int \<Rightarrow> rat" where
  "scaled x framebuffer window = x * (of_int framebuffer / of_int window)"

definition gui_mouse :: "bool \<Rightarrow> gui \<Rightarrow> gui" where
  "gui_mouse focused g =
     (if focused then
        let p = (scaled (fst (gi_mouse_pos g)) (fst (gi_framebuffer g)) (fst (gi_window_size g)),
                 scaled (snd (gi_mouse_pos g)) (snd (gi_framebuffer g)) (snd (gi_window_size g)))
        in g\<lparr>gi_mouse_pos := p, gi_mouse_wheel := (0, 0),
             gi_io := (gi_io g)\<lparr>io_mouse_pos := p, io_mouse_wheel := io_mouse_wheel (gi_io g) + snd (gi_mouse_wheel g)\<rparr>\<rparr>
      else g\<lparr>gi_io := (gi_io g)\<lparr>io_mouse_pos := (-1, -1)\<rparr>\<rparr>)"

definition gui_input :: "gui_events \<Rightarrow> rat \<Rightarrow> gui \<Rightarrow> gui option" where
  "gui_input ev delta g =
     (let g1 = fold run_gui_command (ge_commands ev) g;
          g2 = g1\<lparr>gi_io := (gi_io g1)\<lparr>io_delta := delta\<rparr>\<rparr>;
          g3 = fold (\<lambda>(w, f). UpdateDisplaySize w f) (ge_sizes ev) g2;
          g4 = fold gui_On_MouseBtn (ge_buttons ev) (fold gui_On_MouseScroll (ge_scrolls ev) (fold gui_On_MouseMove (ge_moves ev) g3))
      in map_option (\<lambda>g5. let g6 = gui_mouse (ge_focused ev) g5 in g6\<lparr>gi_io := (gi_io g6)\<lparr>io_mouse_down := gi_mouse_pressed g6\<rparr>\<rparr>)
           (each gui_On_Keyboard (ge_keys ev) g4))"

definition drawn_windows :: "gui \<Rightarrow> string list" where
  "drawn_windows g = filter (\<lambda>name. name \<in> gi_draw_funcs g) (gi_visible g)"

definition release_buttons :: "gui \<Rightarrow> gui" where
  "release_buttons g = g\<lparr>gi_mouse_pressed := map2 (\<lambda>p r. if r then False else p) (gi_mouse_pressed g) (gi_mouse_released g),
     gi_mouse_released := replicate 3 False\<rparr>"

text \<open>The result: the input that the library sees in the frame, the windows drawn, and the state after it. The library takes what it consumes from
  its input at the end of the frame.\<close>

definition gui_Update :: "(gui_io \<Rightarrow> gui_io) \<Rightarrow> gui_events \<Rightarrow> rat \<Rightarrow> gui \<Rightarrow> (gui_io \<times> string list \<times> gui) option" where
  "gui_Update consume ev delta g = map_option (\<lambda>g1. (gi_io g1, drawn_windows g1, release_buttons (g1\<lparr>gi_io := consume (gi_io g1)\<rparr>))) (gui_input ev delta g)"

subsection \<open>Drawing\<close>

text \<open>A list of the library: vertices, indices and commands, each for a number of indices, drawn with a texture in a rectangle, or calling back.\<close>

record draw_cmd =
  dc_count :: nat
  dc_callback :: bool
  dc_texture :: u32
  dc_clip :: "rat \<times> rat \<times> rat \<times> rat"

record 'v draw_list =
  dl_vertices :: "'v list"
  dl_indices :: "nat list"
  dl_commands :: "draw_cmd list"

text \<open>The sizes that the system remembers, and those of the stores of the two buffers, in bytes.\<close>

record gui_buffers =
  gb_exists :: bool
  gb_vbo_size :: nat
  gb_ibo_size :: nat
  gb_vertex_store :: nat
  gb_index_store :: nat

definition no_buffers :: gui_buffers where
  "no_buffers = \<lparr>gb_exists = False, gb_vbo_size = 0, gb_ibo_size = 0, gb_vertex_store = 0, gb_index_store = 0\<rparr>"

definition VERTEX_BYTES :: nat where "VERTEX_BYTES = 20"
definition INDEX_BYTES :: nat where "INDEX_BYTES = 2"

text \<open>New buffers have no store. Destroying the system deletes the array and the vertex buffer and forgets no size.\<close>

definition CreateDeviceObjects :: "gui_buffers \<Rightarrow> gui_buffers" where
  "CreateDeviceObjects b = b\<lparr>gb_exists := True, gb_vertex_store := 0, gb_index_store := 0\<rparr>"

definition open_gui :: "gui_buffers \<Rightarrow> gui_buffers" where
  "open_gui b = (if gb_exists b then b else CreateDeviceObjects b)"

definition close_gui :: "gui_buffers \<Rightarrow> gui_buffers" where
  "close_gui b = b\<lparr>gb_exists := False, gb_vertex_store := 0\<rparr>"

text \<open>Mapping fails for an empty range and for one beyond the store.\<close>

definition range_maps :: "nat \<Rightarrow> nat \<Rightarrow> bool" where
  "range_maps needed store \<longleftrightarrow> 0 < needed \<and> needed \<le> store"

definition grow_vertices :: "nat \<Rightarrow> gui_buffers \<Rightarrow> gui_buffers" where
  "grow_vertices needed b = (if gb_vbo_size b < needed
     then b\<lparr>gb_vbo_size := needed + 2000 * VERTEX_BYTES, gb_vertex_store := needed + 2000 * VERTEX_BYTES\<rparr> else b)"

definition grow_indices :: "nat \<Rightarrow> gui_buffers \<Rightarrow> gui_buffers" where
  "grow_indices needed b = (if gb_ibo_size b < needed
     then b\<lparr>gb_ibo_size := needed + 500 * INDEX_BYTES, gb_index_store := needed + 500 * INDEX_BYTES\<rparr> else b)"

text \<open>What is drawn: a texture, a rectangle and the vertices of its triangles. Mapping discards the old contents, so only what was copied can be read.\<close>

record 'v drawn =
  dn_texture :: u32
  dn_scissor :: "int \<times> int \<times> int \<times> int"
  dn_vertices :: "'v list"

definition scissor :: "rat \<Rightarrow> rat \<times> rat \<times> rat \<times> rat \<Rightarrow> int \<times> int \<times> int \<times> int" where
  "scissor height clip = (case clip of (x, y, z, w) \<Rightarrow> (truncated x, truncated (height - w), truncated (z - x), truncated (w - y)))"

definition read_vertices :: "'v list \<Rightarrow> nat list \<Rightarrow> nat \<Rightarrow> nat \<Rightarrow> 'v list option" where
  "read_vertices verts idxs start count =
     (if start + count \<le> length idxs \<and> (\<forall>i \<in> set (take count (drop start idxs)). i < length verts)
      then Some (map (\<lambda>i. verts ! i) (take count (drop start idxs))) else None)"

fun draw_commands :: "rat \<Rightarrow> 'v draw_list \<Rightarrow> nat \<Rightarrow> draw_cmd list \<Rightarrow> 'v drawn list option" where
  "draw_commands height l off [] = Some []"
| "draw_commands height l off (c # cs) =
     (if dc_callback c then draw_commands height l (off + dc_count c) cs
      else case read_vertices (dl_vertices l) (dl_indices l) off (dc_count c) of
          None \<Rightarrow> None
        | Some vs \<Rightarrow> map_option (\<lambda>ds. \<lparr>dn_texture = dc_texture c, dn_scissor = scissor height (dc_clip c), dn_vertices = vs\<rparr> # ds)
            (draw_commands height l (off + dc_count c) cs))"

definition render_list :: "rat \<Rightarrow> 'v draw_list \<Rightarrow> gui_buffers \<Rightarrow> ('v drawn list \<times> gui_buffers) option" where
  "render_list height l b =
     (let vn = length (dl_vertices l) * VERTEX_BYTES; b1 = grow_vertices vn b in
      if \<not> range_maps vn (gb_vertex_store b1) then Some ([], b1)
      else
        let n = length (dl_indices l) * INDEX_BYTES; b2 = grow_indices n b1 in
        if \<not> range_maps n (gb_index_store b2) then Some ([], b2)
        else map_option (\<lambda>ds. (ds, b2)) (draw_commands height l 0 (dl_commands l)))"

fun RenderDrawLists :: "rat \<Rightarrow> 'v draw_list list \<Rightarrow> gui_buffers \<Rightarrow> ('v drawn list \<times> gui_buffers) option" where
  "RenderDrawLists height [] b = Some ([], b)"
| "RenderDrawLists height (l # ls) b = (case render_list height l b of
      None \<Rightarrow> None
    | Some (ds, b1) \<Rightarrow> map_option (\<lambda>(es, b2). (ds @ es, b2)) (RenderDrawLists height ls b1))"

subsection \<open>The name of the user\<close>

text \<open>\<open>ServerConnectWindow::SetUsername\<close> (client/gui/server-connect.cpp) copies at most 64 characters, the last a zero only for shorter names; reading
  the name goes on to the first zero.
\<close>

definition SetUsername :: "string \<Rightarrow> string \<Rightarrow> string" where
  "SetUsername user buffer = (let n = min (length user + 1) 64 in take n (user @ [CHR 0x00]) @ drop n buffer)"

definition read_username :: "string \<Rightarrow> string option" where
  "read_username buffer = (if CHR 0x00 \<in> set buffer then Some (takeWhile (\<lambda>c. c \<noteq> CHR 0x00) buffer) else None)"

subsection \<open>What is drawn\<close>

text \<open>The commands of a list take their indices one after the other.\<close>

fun split_draws :: "rat \<Rightarrow> 'v list \<Rightarrow> draw_cmd list \<Rightarrow> nat list \<Rightarrow> 'v drawn list" where
  "split_draws height verts [] idxs = []"
| "split_draws height verts (c # cs) idxs =
     (if dc_callback c then [] else [\<lparr>dn_texture = dc_texture c, dn_scissor = scissor height (dc_clip c),
        dn_vertices = map (\<lambda>i. verts ! i) (take (dc_count c) idxs)\<rparr>]) @ split_draws height verts cs (drop (dc_count c) idxs)"

definition wf_draw_list :: "'v draw_list \<Rightarrow> bool" where
  "wf_draw_list l \<longleftrightarrow> sum_list (map dc_count (dl_commands l)) \<le> length (dl_indices l) \<and> (\<forall>i \<in> set (dl_indices l). i < length (dl_vertices l))"

definition stores_sound :: "gui_buffers \<Rightarrow> bool" where
  "stores_sound b \<longleftrightarrow> gb_vbo_size b \<le> gb_vertex_store b \<and> gb_ibo_size b \<le> gb_index_store b"

lemma draw_commands_split:
  assumes "off + sum_list (map dc_count cs) \<le> length (dl_indices l)" and "\<forall>i \<in> set (dl_indices l). i < length (dl_vertices l)"
  shows "draw_commands height l off cs = Some (split_draws height (dl_vertices l) cs (drop off (dl_indices l)))"
  using assms(1)
proof (induction cs arbitrary: off)
  case (Cons c cs)
  have "set (take (dc_count c) (drop off (dl_indices l))) \<subseteq> set (dl_indices l)"
    by (meson set_drop_subset set_take_subset subset_trans)
  then have "\<forall>i \<in> set (take (dc_count c) (drop off (dl_indices l))). i < length (dl_vertices l)"
    using assms(2) by blast
  then show ?case
    using Cons.IH [of "off + dc_count c"] Cons.prems by (simp add: read_vertices_def add.commute)
qed simp

lemma grown_maps:
  assumes "stores_sound b" and "0 < n"
  shows "range_maps n (gb_vertex_store (grow_vertices n b))" "range_maps n (gb_index_store (grow_indices n b))"
    "stores_sound (grow_vertices n b)" "stores_sound (grow_indices n b)"
  using assms by (auto simp: stores_sound_def range_maps_def grow_vertices_def grow_indices_def)

lemma grow_nothing: "grow_vertices 0 b = b" "grow_indices 0 b = b"
  by (simp_all add: grow_vertices_def grow_indices_def)

lemma render_list_draws:
  assumes "stores_sound b" and "wf_draw_list l"
  shows "\<exists>b1. render_list height l b = Some (split_draws height (dl_vertices l) (if dl_indices l = [] then [] else dl_commands l) (dl_indices l), b1)
    \<and> stores_sound b1"
proof (cases "dl_indices l = []")
  case True
  then show ?thesis
    using assms(1) grown_maps(3) [OF assms(1)]
    by (cases "dl_vertices l = []") (auto simp: render_list_def Let_def grow_nothing range_maps_def VERTEX_BYTES_def)
next
  case False
  then have verts: "dl_vertices l \<noteq> []"
    using assms(2) by (auto simp: wf_draw_list_def)
  let ?vn = "length (dl_vertices l) * VERTEX_BYTES" and ?n = "length (dl_indices l) * INDEX_BYTES"
  have n: "0 < ?vn" "0 < ?n"
    using verts False by (simp_all add: VERTEX_BYTES_def INDEX_BYTES_def)
  note g = grown_maps [OF assms(1) n(1)]
  note h = grown_maps [OF g(3) n(2)]
  have "draw_commands height l 0 (dl_commands l) = Some (split_draws height (dl_vertices l) (dl_commands l) (dl_indices l))"
    using draw_commands_split [of 0 "dl_commands l" l height] assms(2) by (simp add: wf_draw_list_def)
  then show ?thesis
    using g h False by (simp add: render_list_def Let_def)
qed

text \<open>C31: When the remembered sizes do not exceed the stores of the buffers, drawing well-formed lists reads only vertices and indices that were copied for them: each
  command draws its part of the indices of its own list; and the sizes stay right.
\<close>

theorem gui_lists_drawn:
  assumes "stores_sound b" and "\<forall>l \<in> set ls. wf_draw_list l"
  shows "\<exists>b1. RenderDrawLists height ls b = Some (concat (map (\<lambda>l. split_draws height (dl_vertices l)
      (if dl_indices l = [] then [] else dl_commands l) (dl_indices l)) ls), b1) \<and> stores_sound b1"
  using assms
proof (induction ls arbitrary: b)
  case (Cons l ls)
  obtain b1 where b1: "render_list height l b = Some (split_draws height (dl_vertices l) (if dl_indices l = [] then [] else dl_commands l) (dl_indices l), b1)"
    "stores_sound b1"
    using render_list_draws [OF Cons.prems(1)] Cons.prems(2) by (metis list.set_intros(1))
  then show ?case
    using Cons.IH [OF b1(2)] Cons.prems(2) by auto
qed simp

text \<open>A user interface that is opened again after one was closed remembers the old sizes for its empty buffers, so it draws no list that is not larger than
  those before.
\<close>

theorem reopened_gui_draws_nothing:
  assumes "gb_exists b" and "length (dl_vertices l) * VERTEX_BYTES \<le> gb_vbo_size b"
  shows "render_list height l (open_gui (close_gui b)) = Some ([], open_gui (close_gui b))"
proof -
  let ?c = "open_gui (close_gui b)" and ?n = "length (dl_vertices l) * VERTEX_BYTES"
  have "grow_vertices ?n ?c = ?c" "gb_vertex_store ?c = 0"
    using assms by (simp_all add: open_gui_def close_gui_def CreateDeviceObjects_def grow_vertices_def)
  moreover have "\<not> range_maps ?n 0"
    unfolding range_maps_def by linarith
  ultimately show ?thesis
    unfolding render_list_def Let_def by presburger
qed

subsection \<open>Input\<close>

definition keys_in_range :: "keyboard_event list \<Rightarrow> bool" where
  "keys_in_range keys \<longleftrightarrow> (\<forall>e \<in> set keys. ke_action e = KEY_DOWN \<or> ke_action e = KEY_UP \<longrightarrow> 0 \<le> ke_key e \<and> ke_key e < 512)"

lemma gui_keyboard_step:
  assumes "length (io_keys_down (gi_io g)) = 512"
  shows "gui_On_Keyboard e g \<noteq> None \<longleftrightarrow> keys_in_range [e]"
    and "gui_On_Keyboard e g = Some g1 \<Longrightarrow> length (io_keys_down (gi_io g1)) = 512"
  using assms by (cases "ke_action e"; auto simp: gui_On_Keyboard_def keys_in_range_def put_key_def modifiers_def split: if_splits)+

lemma gui_keyboard_run:
  assumes "length (io_keys_down (gi_io g)) = 512"
  shows "each gui_On_Keyboard keys g \<noteq> None \<longleftrightarrow> keys_in_range keys"
proof -
  have "each gui_On_Keyboard keys g \<noteq> None \<longleftrightarrow> (\<forall>e \<in> set keys. keys_in_range [e])"
    by (rule each_defined_iff [where I = "\<lambda>g. length (io_keys_down (gi_io g)) = 512"]) (use assms gui_keyboard_step in blast)+
  then show ?thesis
    by (simp add: keys_in_range_def)
qed

lemma before_keys:
  "io_keys_down (gi_io (fold gui_On_MouseBtn bs g)) = io_keys_down (gi_io g)"
  "io_keys_down (gi_io (fold gui_On_MouseScroll ss g)) = io_keys_down (gi_io g)"
  "io_keys_down (gi_io (fold gui_On_MouseMove ms g)) = io_keys_down (gi_io g)"
  "io_keys_down (gi_io (fold (\<lambda>(w, f). UpdateDisplaySize w f) sizes g)) = io_keys_down (gi_io g)"
  "io_keys_down (gi_io (fold run_gui_command cs g)) = io_keys_down (gi_io g)"
proof -
  have steps: "gi_io (gui_On_MouseBtn b g) = gi_io g" "gi_io (gui_On_MouseScroll p g) = gi_io g" "gi_io (gui_On_MouseMove m g) = gi_io g"
    "io_keys_down (gi_io (UpdateDisplaySize w f g)) = io_keys_down (gi_io g)" "gi_io (run_gui_command c g) = gi_io g" for b p m w f c g
    by (simp_all add: gui_On_MouseBtn_def gui_On_MouseScroll_def gui_On_MouseMove_def UpdateDisplaySize_def split: mouse_action.split)
      (cases c; simp)
  show "io_keys_down (gi_io (fold gui_On_MouseBtn bs g)) = io_keys_down (gi_io g)"
    by (induction bs arbitrary: g) (simp_all add: steps)
  show "io_keys_down (gi_io (fold gui_On_MouseScroll ss g)) = io_keys_down (gi_io g)"
    by (induction ss arbitrary: g) (simp_all add: steps)
  show "io_keys_down (gi_io (fold gui_On_MouseMove ms g)) = io_keys_down (gi_io g)"
    by (induction ms arbitrary: g) (simp_all add: steps)
  show "io_keys_down (gi_io (fold (\<lambda>(w, f). UpdateDisplaySize w f) sizes g)) = io_keys_down (gi_io g)"
    by (induction sizes arbitrary: g) (simp_all add: steps case_prod_beta)
  show "io_keys_down (gi_io (fold run_gui_command cs g)) = io_keys_down (gi_io g)"
    by (induction cs arbitrary: g) (simp_all add: steps)
qed

text \<open>A frame of the user interface stays inside the table of keys exactly when every key that went down or up has a number from 0 to 511; a key that the window
  library does not know has the number -1.
\<close>

theorem gui_frame_defined_iff:
  assumes "length (io_keys_down (gi_io g)) = 512"
  shows "gui_Update consume ev delta g \<noteq> None \<longleftrightarrow> keys_in_range (ge_keys ev)"
  using gui_keyboard_run [of "fold gui_On_MouseBtn (ge_buttons ev) (fold gui_On_MouseScroll (ge_scrolls ev) (fold gui_On_MouseMove (ge_moves ev)
      (fold (\<lambda>(w, f). UpdateDisplaySize w f) (ge_sizes ev) ((fold run_gui_command (ge_commands ev) g)
        \<lparr>gi_io := (gi_io (fold run_gui_command (ge_commands ev) g))\<lparr>io_delta := delta\<rparr>\<rparr>))))" "ge_keys ev"] assms
  by (simp add: gui_Update_def gui_input_def before_keys Let_def del: not_None_eq)

text \<open>A frame without events.\<close>

definition idle_frame :: "(gui_io \<Rightarrow> gui_io) \<Rightarrow> rat \<Rightarrow> gui \<Rightarrow> gui option" where
  "idle_frame consume delta g = map_option (\<lambda>(_, _, g1). g1) (gui_Update consume no_gui_events delta g)"

lemma idle_frame_result:
  "\<exists>g1. idle_frame consume delta g = Some g1 \<and> fst (gi_mouse_pos g1) = scaled (fst (gi_mouse_pos g)) (fst (gi_framebuffer g)) (fst (gi_window_size g))
     \<and> gi_framebuffer g1 = gi_framebuffer g \<and> gi_window_size g1 = gi_window_size g"
  by (simp add: idle_frame_def gui_Update_def gui_input_def no_gui_events_def gui_mouse_def release_buttons_def Let_def)

text \<open>The position of a mouse that does not move is multiplied in every frame by the ratio of the sizes of the framebuffer and of the window, and so does not
  stay where it is on a screen where they differ.
\<close>

theorem idle_mouse_drifts:
  "\<exists>g1. each (idle_frame consume) deltas g = Some g1
    \<and> fst (gi_mouse_pos g1) = fst (gi_mouse_pos g) * (of_int (fst (gi_framebuffer g)) / of_int (fst (gi_window_size g))) ^ length deltas
    \<and> gi_framebuffer g1 = gi_framebuffer g \<and> gi_window_size g1 = gi_window_size g"
proof (induction deltas arbitrary: g)
  case (Cons d deltas)
  obtain g1 where "idle_frame consume d g = Some g1"
    "fst (gi_mouse_pos g1) = scaled (fst (gi_mouse_pos g)) (fst (gi_framebuffer g)) (fst (gi_window_size g))"
    "gi_framebuffer g1 = gi_framebuffer g" "gi_window_size g1 = gi_window_size g"
    using idle_frame_result by blast
  then show ?case
    using Cons.IH [of g1] by (auto simp: scaled_def)
qed simp

text \<open>A click that begins and ends between two frames is seen for one frame; a button that is pressed again before the frame is lost, although it is held.\<close>

theorem short_clicks_seen_once:
  assumes "length (gi_mouse_pressed g) = 3" and "length (gi_mouse_released g) = 3"
    and "again = [] \<or> again = [\<lparr>mb_action = DOWN, mb_button = b\<rparr>]"
    and "gui_Update consume (no_gui_events\<lparr>ge_buttons := [\<lparr>mb_action = DOWN, mb_button = b\<rparr>, \<lparr>mb_action = UP, mb_button = b\<rparr>] @ again\<rparr>) d1 g
      = Some (seen1, names1, g1)"
    and "gui_Update consume no_gui_events d2 g1 = Some (seen2, names2, g2)"
  shows "io_mouse_down seen1 ! button_index b \<and> \<not> io_mouse_down seen2 ! button_index b"
proof -
  have i: "button_index b < 3"
    by (cases b) simp_all
  have one: "io_mouse_down seen1 = (gi_mouse_pressed g)[button_index b := True]"
    "gi_mouse_pressed g1 = map2 (\<lambda>p r. if r then False else p) ((gi_mouse_pressed g)[button_index b := True]) ((gi_mouse_released g)[button_index b := True])"
    using assms(3,4)
    by (auto simp: gui_Update_def gui_input_def no_gui_events_def gui_On_MouseBtn_def gui_mouse_def release_buttons_def Let_def split: if_splits)
  have two: "io_mouse_down seen2 = gi_mouse_pressed g1"
    using assms(5) by (auto simp: gui_Update_def gui_input_def no_gui_events_def gui_mouse_def Let_def split: if_splits)
  show ?thesis
    using i assms(1,2) by (simp add: one two)
qed

text \<open>A name of fewer than 64 characters without zeros is read back as it was set; a longer one is read past the end of the buffer.\<close>

theorem username_read_back:
  assumes "length buffer = 64" and "CHR 0x00 \<notin> set user"
  shows "read_username (SetUsername user buffer) = (if length user < 64 then Some user else None)"
proof (cases "length user < 64")
  case True
  have "\<forall>c \<in> set user. c \<noteq> CHR 0x00"
    using assms(2) by blast
  then have "takeWhile (\<lambda>c. c \<noteq> CHR 0x00) (user @ CHR 0x00 # r) = user" for r
    by (simp add: takeWhile_append2)
  then show ?thesis
    using True by (simp add: SetUsername_def read_username_def Let_def min_def)
next
  case False
  then have "SetUsername user buffer = take 64 user"
    using assms(1) by (simp add: SetUsername_def Let_def min_def)
  moreover have "CHR 0x00 \<notin> set (take 64 user)"
    using assms(2) by (meson in_set_takeD)
  ultimately show ?thesis
    using False by (simp add: read_username_def)
qed

subsection \<open>Examples\<close>

definition example_list :: "nat draw_list" where
  "example_list = \<lparr>dl_vertices = [10, 20, 30, 40], dl_indices = [0, 1, 2, 0, 2, 3],
     dl_commands = [\<lparr>dc_count = 3, dc_callback = False, dc_texture = 1, dc_clip = (0, 0, 8, 8)\<rparr>,
       \<lparr>dc_count = 3, dc_callback = False, dc_texture = 2, dc_clip = (0, 0, 8, 8)\<rparr>]\<rparr>"

lemma gui_lists_drawn_witness:
  "\<exists>ds b1. RenderDrawLists 8 [example_list] (open_gui no_buffers) = Some (ds, b1) \<and> map dn_vertices ds = [[10, 20, 30], [10, 30, 40]]"
proof -
  have "stores_sound (open_gui no_buffers)" "\<forall>l \<in> set [example_list]. wf_draw_list l"
    by (auto simp: stores_sound_def open_gui_def no_buffers_def CreateDeviceObjects_def wf_draw_list_def example_list_def)
  then show ?thesis
    using gui_lists_drawn [of "open_gui no_buffers" "[example_list]" 8] by (auto simp: example_list_def)
qed

lemma reopened_gui_draws_nothing_witness:
  "\<exists>b. render_list 8 example_list (open_gui (close_gui b)) = Some ([], open_gui (close_gui b)) \<and> fst (the (render_list 8 example_list b)) \<noteq> []"
proof -
  let ?b = "\<lparr>gb_exists = True, gb_vbo_size = 80, gb_ibo_size = 12, gb_vertex_store = 80, gb_index_store = 12\<rparr>"
  have "fst (the (render_list 8 example_list ?b)) \<noteq> []"
    by (simp add: render_list_def example_list_def grow_vertices_def grow_indices_def range_maps_def VERTEX_BYTES_def INDEX_BYTES_def
        read_vertices_def numeral_nat)
  then show ?thesis
    using reopened_gui_draws_nothing [of ?b example_list 8] by (auto simp: example_list_def VERTEX_BYTES_def)
qed

lemma gui_frame_defined_iff_witness:
  "gui_Update id (no_gui_events\<lparr>ge_keys := [\<lparr>ke_key = -1, ke_scancode = 9, ke_action = KEY_DOWN, ke_mods = 0\<rparr>]\<rparr>) (1 / 60) new_gui = None
   \<and> gui_Update id (no_gui_events\<lparr>ge_keys := [\<lparr>ke_key = 65, ke_scancode = 9, ke_action = KEY_DOWN, ke_mods = 0\<rparr>]\<rparr>) (1 / 60) new_gui \<noteq> None"
proof -
  have len: "length (io_keys_down (gi_io new_gui)) = 512"
    by (simp add: new_gui_def new_io_def)
  show ?thesis
    using gui_frame_defined_iff [OF len, of id "no_gui_events\<lparr>ge_keys := [\<lparr>ke_key = -1, ke_scancode = 9, ke_action = KEY_DOWN, ke_mods = 0\<rparr>]\<rparr>" "1 / 60"]
      gui_frame_defined_iff [OF len, of id "no_gui_events\<lparr>ge_keys := [\<lparr>ke_key = 65, ke_scancode = 9, ke_action = KEY_DOWN, ke_mods = 0\<rparr>]\<rparr>" "1 / 60"]
    by (simp add: keys_in_range_def del: not_None_eq)
qed

lemma username_read_back_witness: "read_username (SetUsername ''ann'' (replicate 64 (CHR 0x00))) = Some ''ann''"
  using username_read_back [of "replicate 64 (CHR 0x00)" "''ann''"] by simp

lemma short_clicks_seen_once_witness:
  "\<exists>seen1 names1 g1 seen2 names2 g2.
     gui_Update id (no_gui_events\<lparr>ge_buttons := [\<lparr>mb_action = DOWN, mb_button = LEFT\<rparr>, \<lparr>mb_action = UP, mb_button = LEFT\<rparr>] @ []\<rparr>) 0 new_gui
       = Some (seen1, names1, g1)
     \<and> gui_Update id no_gui_events 0 g1 = Some (seen2, names2, g2) \<and> io_mouse_down seen1 ! 0 \<and> \<not> io_mouse_down seen2 ! 0"
proof -
  let ?ev = "no_gui_events\<lparr>ge_buttons := [\<lparr>mb_action = DOWN, mb_button = LEFT\<rparr>, \<lparr>mb_action = UP, mb_button = LEFT\<rparr>] @ []\<rparr>"
  obtain seen1 names1 g1 where one: "gui_Update id ?ev 0 new_gui = Some (seen1, names1, g1)"
    by (simp add: gui_Update_def gui_input_def no_gui_events_def Let_def)
  obtain seen2 names2 g2 where two: "gui_Update id no_gui_events 0 g1 = Some (seen2, names2, g2)"
    by (simp add: gui_Update_def gui_input_def no_gui_events_def Let_def)
  have "length (gi_mouse_pressed new_gui) = 3" "length (gi_mouse_released new_gui) = 3"
    by (simp_all add: new_gui_def)
  from short_clicks_seen_once [OF this _ one two] have "io_mouse_down seen1 ! 0 \<and> \<not> io_mouse_down seen2 ! 0"
    by simp
  then show ?thesis
    using one two by blast
qed

end
