(* ===== verification/Sound.thy ===== *)
theory Sound
  imports Complex_Main Game_State Safe_Run
begin

text \<open>
  Sounds (client/sound-system.cpp, client/sound-system.hpp, client/resources/vorbis-stream.cpp): streams of samples are read piece by piece into the two
  buffers of each source. Streams and sources are shared objects at addresses, the sources of the sound library have handles; what it has played
  and the pieces that the decoder gives are parameters.
\<close>

subsection \<open>Streams\<close>

type_synonym sample = "16 word"

record vorbis_stream =
  vs_open :: bool
  vs_samples :: "sample list"
  vs_channels :: nat
  vs_sample_rate :: nat
  vs_stereo :: bool
  vs_buffer_size :: nat
  vs_pos :: nat
  vs_left :: u64

text \<open>A decoder gives, for the samples that fit, the number of samples per channel that it read.\<close>

type_synonym decoder = "vorbis_stream \<Rightarrow> nat \<Rightarrow> nat"

definition audio_piece :: "vorbis_stream \<Rightarrow> nat \<Rightarrow> sample list" where
  "audio_piece s n = take n (drop (vs_pos s) (vs_samples s))"

partial_function (option) fill_buffer :: "decoder \<Rightarrow> vorbis_stream \<Rightarrow> sample list \<Rightarrow> (sample list \<times> vorbis_stream) option" where
  "fill_buffer dec s sbuffer =
     (if length sbuffer < vs_buffer_size s then
        let num_read = dec s (vs_buffer_size s - length sbuffer); n = num_read * vs_channels s in
        if 0 < num_read then fill_buffer dec (s\<lparr>vs_pos := vs_pos s + n\<rparr>) (sbuffer @ audio_piece s n) else Some (sbuffer, s)
      else Some (sbuffer, s))"

text \<open>The samples for the buffer; none leave it as it is.\<close>

definition BufferStream :: "decoder \<Rightarrow> vorbis_stream \<Rightarrow> (sample list \<times> vorbis_stream) option" where
  "BufferStream dec s = (if \<not> vs_open s then Some ([], s) else
     map_option (\<lambda>(data, s1). (data, if data = [] then s1 else s1\<lparr>vs_left := vs_left s1 - of_nat (length data)\<rparr>)) (fill_buffer dec s []))"

definition stream_length :: "vorbis_stream \<Rightarrow> u64" where
  "stream_length s = of_nat (length (vs_samples s) div vs_channels s) * of_nat (vs_channels s)"

definition Reset_stream :: "vorbis_stream \<Rightarrow> vorbis_stream" where
  "Reset_stream s = s\<lparr>vs_pos := 0, vs_left := stream_length s\<rparr>"

text \<open>A file that can be decoded: its samples, channels and rate.\<close>

definition open_stream :: "sample list \<times> nat \<times> nat \<Rightarrow> vorbis_stream" where
  "open_stream f = (case f of (samples, channels, rate) \<Rightarrow>
     let s = \<lparr>vs_open = True, vs_samples = samples, vs_channels = channels, vs_sample_rate = rate, vs_stereo = (channels = 2), vs_buffer_size = 32768,
       vs_pos = 0, vs_left = 0\<rparr> in s\<lparr>vs_left := stream_length s\<rparr>)"

subsection \<open>Sources\<close>

datatype audio_state = PLAYING | PAUSED | STOPPED

record audio_source =
  as_source :: nat
  as_looping :: bool
  as_stream :: "nat option"
  as_state :: audio_state
  as_gain :: int
  as_name :: string

definition new_audio_source :: audio_source where
  "new_audio_source = \<lparr>as_source = 0, as_looping = False, as_stream = None, as_state = PAUSED, as_gain = 100, as_name = []\<rparr>"

definition auto_source :: "nat option \<Rightarrow> bool \<Rightarrow> audio_source" where
  "auto_source stream auto_play = new_audio_source\<lparr>as_stream := stream, as_state := if auto_play then PLAYING else PAUSED\<rparr>"

record p_audio_source =
  pa_looping :: "bool option"
  pa_audio_name :: "string option"
  pa_playing :: "bool option"
  pa_volume :: "u32 option"

definition empty_p_audio_source :: p_audio_source where
  "empty_p_audio_source = \<lparr>pa_looping = None, pa_audio_name = None, pa_playing = None, pa_volume = None\<rparr>"

definition AudioSource_Out :: "audio_source \<Rightarrow> p_audio_source" where
  "AudioSource_Out a = \<lparr>pa_looping = Some (as_looping a), pa_audio_name = Some (as_name a), pa_playing = Some (as_state a = PLAYING),
     pa_volume = Some (word_of_int (as_gain a))\<rparr>"

text \<open>A source of the library: the buffers in its queue with what is in them, and what was played. \<open>al_heard\<close> is what came out of the queue.\<close>

datatype al_state = AL_INITIAL | AL_PLAYING | AL_PAUSED | AL_STOPPED

record al_source =
  al_queue :: "sample list list"
  al_heard :: "sample list"
  al_now :: al_state
  al_gain :: rat
  al_position :: "rat vec3"
  al_velocity :: "rat vec3"

record sound_world =
  so_streams :: "nat \<rightharpoonup> vorbis_stream"
  so_names :: "string \<rightharpoonup> nat"
  so_sources :: "nat \<rightharpoonup> audio_source"
  so_next :: nat
  so_map :: "eid \<rightharpoonup> nat"
  so_queued :: "nat set"
  so_al :: "nat \<rightharpoonup> al_source"
  so_al_next :: nat

text \<open>Loading a sound that has no stream yet: the factory for the extension of the name, if there is one, may add it.\<close>

type_synonym sound_factories = "string \<Rightarrow> (string \<Rightarrow> sound_world \<Rightarrow> sound_world) option"

definition extension :: "string \<Rightarrow> string" where
  "extension name = (if CHR ''.'' \<in> set name then rev (takeWhile (\<lambda>c. c \<noteq> CHR ''.'') (rev name)) else name)"

definition load_sound :: "sound_factories \<Rightarrow> string \<Rightarrow> sound_world \<Rightarrow> sound_world" where
  "load_sound fs name w = (if so_names w name \<noteq> None then w else (case fs (extension name) of None \<Rightarrow> w | Some f \<Rightarrow> f name w))"

definition source_fields :: "p_audio_source \<Rightarrow> audio_source \<Rightarrow> audio_source" where
  "source_fields c a =
     (let a1 = (case pa_looping c of None \<Rightarrow> a | Some l \<Rightarrow> a\<lparr>as_looping := l\<rparr>);
          a2 = (case pa_playing c of None \<Rightarrow> a1 | Some p \<Rightarrow> a1\<lparr>as_state := if p then PLAYING else PAUSED\<rparr>)
      in (case pa_volume c of None \<Rightarrow> a2 | Some v \<Rightarrow> a2\<lparr>as_gain := sint v\<rparr>))"

definition AudioSource_In :: "sound_factories \<Rightarrow> p_audio_source \<Rightarrow> audio_source \<Rightarrow> sound_world \<Rightarrow> audio_source \<times> sound_world" where
  "AudioSource_In fs c a w = (case pa_audio_name c of
      None \<Rightarrow> (source_fields c a, w)
    | Some name \<Rightarrow>
        let w1 = load_sound fs name w; a1 = a\<lparr>as_name := name\<rparr> in
        (case so_names w1 name of
            None \<Rightarrow> (a1, w1)
          | Some s \<Rightarrow> (source_fields c (a1\<lparr>as_stream := Some s\<rparr>), w1)))"

subsection \<open>Entities\<close>

text \<open>A new source for the entity of each audio component that has a stream; the one before is not deleted.\<close>

definition add_audio :: "sound_factories \<Rightarrow> eid \<Rightarrow> p_audio_source \<Rightarrow> sound_world \<Rightarrow> sound_world" where
  "add_audio fs i c w = (case AudioSource_In fs c new_audio_source w of (a, w1) \<Rightarrow>
     if as_stream a \<noteq> None
     then w1\<lparr>so_sources := (so_sources w1)(so_next w1 \<mapsto> a), so_next := so_next w1 + 1, so_map := (so_map w1)(i \<mapsto> so_next w1)\<rparr>
     else w1)"

text \<open>A piece of a stream at an address.\<close>

definition take_piece :: "decoder \<Rightarrow> nat \<Rightarrow> sound_world \<Rightarrow> (sample list \<times> sound_world) option" where
  "take_piece dec s w = (case so_streams w s of
      None \<Rightarrow> None
    | Some st \<Rightarrow> map_option (\<lambda>(data, st1). (data, w\<lparr>so_streams := (so_streams w)(s \<mapsto> st1)\<rparr>)) (BufferStream dec st))"

definition vec_or_zero :: "rat vec3 option \<Rightarrow> rat vec3" where
  "vec_or_zero v = (case v of None \<Rightarrow> zero_vec | Some p \<Rightarrow> p)"

fun start_state :: "audio_state \<Rightarrow> al_state" where
  "start_state PLAYING = AL_PLAYING" | "start_state PAUSED = AL_INITIAL" | "start_state STOPPED = AL_INITIAL"

definition start_audio :: "decoder \<Rightarrow> rat vec3 option \<Rightarrow> rat vec3 option \<Rightarrow> nat \<Rightarrow> audio_source \<Rightarrow> nat \<Rightarrow> sound_world \<Rightarrow> sound_world option" where
  "start_audio dec pos vel a source s w =
     Option.bind (take_piece dec s w) (\<lambda>(first, w1).
     map_option (\<lambda>(second, w2).
       w2\<lparr>so_sources := (so_sources w2)(a \<mapsto> source\<lparr>as_source := so_al_next w2\<rparr>), so_al_next := so_al_next w2 + 1,
          so_al := (so_al w2)(so_al_next w2 \<mapsto> \<lparr>al_queue = [first, second], al_heard = [], al_now = start_state (as_state source),
            al_gain = of_int (as_gain source) / 100, al_position = vec_or_zero pos, al_velocity = vec_or_zero vel\<rparr>)\<rparr>)
       (take_piece dec s w1))"

definition so_On_EntityCreated ::
    "decoder \<Rightarrow> sound_factories \<Rightarrow> rat vec3 option \<Rightarrow> rat vec3 option \<Rightarrow> eid \<Rightarrow> p_audio_source list \<Rightarrow> sound_world \<Rightarrow> sound_world option" where
  "so_On_EntityCreated dec fs pos vel i cs w =
     (let w1 = fold (add_audio fs i) cs w in
      case so_map w1 i of
        None \<Rightarrow> Some w1
      | Some a \<Rightarrow> (case so_sources w1 a of
          None \<Rightarrow> None
        | Some source \<Rightarrow> (case as_stream source of
            None \<Rightarrow> Some w1
          | Some s \<Rightarrow> start_audio dec pos vel a source s w1)))"

definition so_On_EntityDestroyed :: "eid \<Rightarrow> sound_world \<Rightarrow> sound_world" where
  "so_On_EntityDestroyed i w = w"

subsection \<open>A round\<close>

text \<open>
  A buffer that was played is taken out of the queue, filled with the next piece and put back; at the end of the stream a looping source begins
  again, and another one puts the buffer back as it is.
\<close>

definition next_piece :: "decoder \<Rightarrow> bool \<Rightarrow> nat \<Rightarrow> sound_world \<Rightarrow> (sample list \<times> sound_world) option" where
  "next_piece dec looping s w = Option.bind (take_piece dec s w) (\<lambda>(data, w1).
     if data = [] \<and> looping then
       (case so_streams w1 s of
          None \<Rightarrow> None
        | Some st \<Rightarrow> take_piece dec s (w1\<lparr>so_streams := (so_streams w1)(s \<mapsto> Reset_stream st)\<rparr>))
     else Some (data, w1))"

definition recycle_buffer :: "decoder \<Rightarrow> audio_source \<Rightarrow> nat \<Rightarrow> sound_world \<Rightarrow> sound_world option" where
  "recycle_buffer dec source s w = (case so_al w (as_source source) of
      None \<Rightarrow> None
    | Some al \<Rightarrow> (case al_queue al of
        [] \<Rightarrow> None
      | old # rest \<Rightarrow> map_option (\<lambda>(data, w1).
          w1\<lparr>so_al := (so_al w1)(as_source source \<mapsto> al\<lparr>al_queue := rest @ [if data = [] then old else data], al_heard := al_heard al @ old\<rparr>)\<rparr>)
          (next_piece dec (as_looping source) s w)))"

definition wanted_state :: "audio_state \<Rightarrow> al_state \<Rightarrow> al_state" where
  "wanted_state want now = (if now \<noteq> AL_PLAYING then (if want = PLAYING then AL_PLAYING else now)
     else (case want of PLAYING \<Rightarrow> AL_PLAYING | PAUSED \<Rightarrow> AL_PAUSED | STOPPED \<Rightarrow> AL_STOPPED))"

text \<open>What the library answers for a source: how many buffers it has played, and its state.\<close>

definition update_source :: "decoder \<Rightarrow> (nat \<Rightarrow> nat \<times> al_state) \<Rightarrow> nat \<Rightarrow> sound_world \<Rightarrow> sound_world option" where
  "update_source dec answers a w = (case so_sources w a of
      None \<Rightarrow> None
    | Some source \<Rightarrow> (case as_stream source of
        None \<Rightarrow> None
      | Some s \<Rightarrow> (case answers (as_source source) of (processed, now) \<Rightarrow>
          map_option (\<lambda>w1. w1\<lparr>so_al := (so_al w1)(as_source source := map_option (\<lambda>al. al\<lparr>al_gain := of_int (as_gain source) / 100,
              al_now := wanted_state (as_state source) now\<rparr>) (so_al w1 (as_source source)))\<rparr>)
            (each (\<lambda>_. recycle_buffer dec source s) [0..<processed] w))))"

text \<open>One round of the loop of the thread; the sources are visited in the order of their addresses.\<close>

definition sound_round :: "decoder \<Rightarrow> (nat \<Rightarrow> nat \<times> al_state) \<Rightarrow> sound_world \<Rightarrow> sound_world option" where
  "sound_round dec answers w =
     (let w1 = w\<lparr>so_queued := so_queued w \<union> ran (so_map w)\<rparr> in each (update_source dec answers) (sorted_list_of_set (so_queued w1)) w1)"

subsection \<open>Reading a stream\<close>

text \<open>What the decoder promises: it gives no more than fits and is left, and nothing only at the end or when not even one sample per channel fits.\<close>

definition decoder_sound :: "decoder \<Rightarrow> bool" where
  "decoder_sound dec \<longleftrightarrow> (\<forall>s n. 0 < vs_channels s \<longrightarrow>
     dec s n * vs_channels s \<le> n \<and> vs_pos s + dec s n * vs_channels s \<le> max (vs_pos s) (length (vs_samples s))
     \<and> (dec s n = 0 \<longrightarrow> n < vs_channels s \<or> length (vs_samples s) < vs_pos s + vs_channels s))"

text \<open>A stream of whole groups of samples, the position at the start of one, and buffers that hold whole groups.\<close>

definition stream_sound :: "vorbis_stream \<Rightarrow> bool" where
  "stream_sound s \<longleftrightarrow> vs_open s \<and> 0 < vs_channels s \<and> vs_channels s dvd length (vs_samples s) \<and> vs_channels s dvd vs_pos s
     \<and> vs_channels s dvd vs_buffer_size s \<and> 0 < vs_buffer_size s \<and> vs_pos s \<le> length (vs_samples s) \<and> vs_samples s \<noteq> []"

definition advanced :: "nat \<Rightarrow> vorbis_stream \<Rightarrow> vorbis_stream" where
  "advanced n s = s\<lparr>vs_pos := vs_pos s + n\<rparr>"

lemma dvd_gap: "c dvd m \<Longrightarrow> c dvd n \<Longrightarrow> m < n \<Longrightarrow> m + c \<le> (n :: nat)"
  by (metis dvd_diff_nat dvd_imp_le le_add_diff_inverse less_imp_le_nat nat_add_left_cancel_le zero_less_diff)

lemma min_after: "m \<le> b - l \<Longrightarrow> p + m \<le> n \<Longrightarrow> m + min (b - (l + m)) (n - (p + m)) = min (b - l) (n - (p :: nat))"
  by (auto simp: min_def)

lemma audio_piece_append: "audio_piece s m @ audio_piece (advanced m s) n = audio_piece s (m + n)"
  by (simp add: audio_piece_def advanced_def take_add add.commute)

text \<open>Filling a buffer takes the next samples until the buffer is full or the stream ends.\<close>

lemma fill_buffer_result:
  assumes "decoder_sound dec" and "stream_sound s" and "vs_channels s dvd length buf" and "length buf \<le> vs_buffer_size s"
  defines "n \<equiv> min (vs_buffer_size s - length buf) (length (vs_samples s) - vs_pos s)"
  shows "fill_buffer dec s buf = Some (buf @ audio_piece s n, advanced n s) \<and> stream_sound (advanced n s)"
  using assms(2-4) unfolding n_def
proof (induction "vs_buffer_size s - length buf" arbitrary: s buf rule: less_induct)
  case less
  let ?c = "vs_channels s" and ?r = "vs_buffer_size s - length buf"
  let ?m = "dec s ?r * ?c"
  have c: "0 < ?c"
    using less.prems(1) by (simp add: stream_sound_def)
  have d: "?m \<le> ?r" "vs_pos s + ?m \<le> length (vs_samples s)" "dec s ?r = 0 \<longrightarrow> ?r < ?c \<or> length (vs_samples s) < vs_pos s + ?c"
    using assms(1) c less.prems(1) unfolding decoder_sound_def stream_sound_def by (metis max_absorb2)+
  show ?case
  proof (cases "length buf < vs_buffer_size s \<and> 0 < dec s ?r")
    case True
    let ?s1 = "advanced ?m s" and ?b1 = "buf @ audio_piece s ?m"
    have len: "length ?b1 = length buf + ?m"
      using d(2) by (simp add: audio_piece_def)
    have ok: "stream_sound ?s1" "vs_channels ?s1 dvd length ?b1" "length ?b1 \<le> vs_buffer_size ?s1"
      using less.prems d c len True by (auto simp: stream_sound_def advanced_def)
    have pos: "0 < ?m"
      using True c by simp
    have bsize: "vs_buffer_size ?s1 = vs_buffer_size s"
      by (simp add: advanced_def)
    have shorter: "vs_buffer_size ?s1 - length ?b1 < vs_buffer_size s - length buf"
      unfolding len bsize using True pos by linarith
    let ?k = "min (vs_buffer_size ?s1 - length ?b1) (length (vs_samples ?s1) - vs_pos ?s1)"
    have rest: "fill_buffer dec ?s1 ?b1 = Some (?b1 @ audio_piece ?s1 ?k, advanced ?k ?s1) \<and> stream_sound (advanced ?k ?s1)"
      by (rule less.hyps [OF shorter ok])
    have k: "?m + ?k = min ?r (length (vs_samples s) - vs_pos s)"
      unfolding len using min_after [OF d(1,2)] by (simp add: advanced_def)
    have adv: "advanced ?k ?s1 = advanced (?m + ?k) s"
      by (simp add: advanced_def add.assoc)
    have "fill_buffer dec s buf = fill_buffer dec ?s1 ?b1"
      using True by (subst fill_buffer.simps) (simp add: advanced_def Let_def)
    then show ?thesis
      using rest audio_piece_append [of s ?m ?k] unfolding adv k by simp
  next
    case False
    have "min ?r (length (vs_samples s) - vs_pos s) = 0"
    proof (cases "length buf < vs_buffer_size s")
      case True
      then have zero: "dec s ?r = 0"
        using False by simp
      have fits: "length buf + ?c \<le> vs_buffer_size s"
        using dvd_gap [of ?c "length buf" "vs_buffer_size s"] less.prems True by (simp add: stream_sound_def)
      have "\<not> vs_pos s < length (vs_samples s)"
      proof
        assume "vs_pos s < length (vs_samples s)"
        then have "vs_pos s + ?c \<le> length (vs_samples s)"
          using dvd_gap [of ?c "vs_pos s"] less.prems(1) by (simp add: stream_sound_def)
        then show False
          using d(3) zero fits by linarith
      qed
      then show ?thesis
        by simp
    qed simp
    moreover have "fill_buffer dec s buf = Some (buf, s)"
      using False by (subst fill_buffer.simps) (simp add: Let_def)
    ultimately show ?thesis
      using less.prems(1) by (simp add: audio_piece_def advanced_def)
  qed
qed

lemma BufferStream_result:
  assumes "decoder_sound dec" and "stream_sound s"
  obtains s1 where "BufferStream dec s = Some (audio_piece s (vs_buffer_size s), s1)" and "stream_sound s1"
    and "vs_pos s1 = min (vs_pos s + vs_buffer_size s) (length (vs_samples s))" and "vs_samples s1 = vs_samples s"
    and "vs_buffer_size s1 = vs_buffer_size s"
proof -
  let ?n = "min (vs_buffer_size s) (length (vs_samples s) - vs_pos s)"
  have f: "fill_buffer dec s [] = Some (audio_piece s ?n, advanced ?n s)" "stream_sound (advanced ?n s)"
    using fill_buffer_result [OF assms, of "[]"] by simp_all
  have p: "audio_piece s ?n = audio_piece s (vs_buffer_size s)"
    by (simp add: audio_piece_def min_def)
  have open_s: "vs_open s" "vs_pos s \<le> length (vs_samples s)"
    using assms(2) by (simp_all add: stream_sound_def)
  let ?t = "if audio_piece s (vs_buffer_size s) = [] then advanced ?n s
    else (advanced ?n s)\<lparr>vs_left := vs_left (advanced ?n s) - of_nat (length (audio_piece s (vs_buffer_size s)))\<rparr>"
  have "BufferStream dec s = Some (audio_piece s (vs_buffer_size s), ?t)"
    using f(1) open_s by (simp add: BufferStream_def p)
  moreover have "stream_sound ?t"
    using f(2) by (simp add: stream_sound_def)
  moreover have "vs_pos ?t = min (vs_pos s + vs_buffer_size s) (length (vs_samples s))"
    using open_s by (auto simp: advanced_def)
  moreover have "vs_samples ?t = vs_samples s" "vs_buffer_size ?t = vs_buffer_size s"
    by (simp_all add: advanced_def)
  ultimately show ?thesis
    by (rule that)
qed

subsection \<open>A source in the loop\<close>

lemma piece_next: "take (vs_pos s) (vs_samples s) @ audio_piece s n = take (vs_pos s + n) (vs_samples s)"
  by (simp add: audio_piece_def take_add)

lemma take_piece_result:
  assumes "decoder_sound dec" and "so_streams w s = Some st" and "stream_sound st"
  obtains st1 where "take_piece dec s w = Some (audio_piece st (vs_buffer_size st), w\<lparr>so_streams := (so_streams w)(s \<mapsto> st1)\<rparr>)"
    and "stream_sound st1" and "vs_samples st1 = vs_samples st"
    and "take (vs_pos st) (vs_samples st) @ audio_piece st (vs_buffer_size st) = take (vs_pos st1) (vs_samples st)"
proof -
  obtain st1 where b: "BufferStream dec st = Some (audio_piece st (vs_buffer_size st), st1)" "stream_sound st1"
    "vs_pos st1 = min (vs_pos st + vs_buffer_size st) (length (vs_samples st))" "vs_samples st1 = vs_samples st"
    by (rule BufferStream_result [OF assms(1,3)])
  have "take (vs_pos st) (vs_samples st) @ audio_piece st (vs_buffer_size st) = take (vs_pos st1) (vs_samples st)"
    unfolding piece_next b(3) by (simp add: min_def)
  then show ?thesis
    using that [of st1] b assms(2) by (simp add: take_piece_def)
qed

lemma Reset_sound: "stream_sound st \<Longrightarrow> stream_sound (Reset_stream st)"
  by (simp add: stream_sound_def Reset_stream_def)

text \<open>What a handle has been given: the samples played and those waiting, some whole rounds of the stream and then its start up to the position.\<close>

definition in_order :: "sample list \<Rightarrow> nat \<Rightarrow> nat \<Rightarrow> sound_world \<Rightarrow> bool" where
  "in_order samples s h w \<longleftrightarrow> (\<exists>st al n. so_streams w s = Some st \<and> stream_sound st \<and> vs_samples st = samples \<and> so_al w h = Some al
     \<and> length (al_queue al) = 2 \<and> al_heard al @ concat (al_queue al) = concat (replicate n samples) @ take (vs_pos st) samples)"

lemma empty_piece: "stream_sound st \<Longrightarrow> audio_piece st (vs_buffer_size st) = [] \<Longrightarrow> vs_pos st = length (vs_samples st)"
  by (simp add: audio_piece_def stream_sound_def)

lemma looping_piece:
  assumes "decoder_sound dec" and "so_streams w s = Some st" and "stream_sound st" and "vs_samples st = samples"
  obtains data st1 n where "next_piece dec True s w = Some (data, w\<lparr>so_streams := (so_streams w)(s \<mapsto> st1)\<rparr>)" and "data \<noteq> []"
    and "stream_sound st1" and "vs_samples st1 = samples"
    and "take (vs_pos st) samples @ data = concat (replicate n samples) @ take (vs_pos st1) samples"
proof -
  obtain st1 where t: "take_piece dec s w = Some (audio_piece st (vs_buffer_size st), w\<lparr>so_streams := (so_streams w)(s \<mapsto> st1)\<rparr>)"
    "stream_sound st1" "vs_samples st1 = vs_samples st" "take (vs_pos st) (vs_samples st) @ audio_piece st (vs_buffer_size st) = take (vs_pos st1) (vs_samples st)"
    by (rule take_piece_result [OF assms(1-3)])
  show ?thesis
  proof (cases "audio_piece st (vs_buffer_size st) = []")
    case False
    then show ?thesis
      using that [of _ st1 0] t assms(4) by (simp add: next_piece_def)
  next
    case True
    let ?r = "Reset_stream st1" and ?w = "w\<lparr>so_streams := (so_streams w)(s \<mapsto> Reset_stream st1)\<rparr>"
    have r: "stream_sound ?r" "so_streams ?w s = Some ?r" "vs_samples ?r = samples" "vs_pos ?r = 0"
      using Reset_sound [OF t(2)] t(3) assms(4) by (simp_all add: Reset_stream_def)
    obtain st2 where u: "take_piece dec s ?w = Some (audio_piece ?r (vs_buffer_size ?r), ?w\<lparr>so_streams := (so_streams ?w)(s \<mapsto> st2)\<rparr>)"
      "stream_sound st2" "vs_samples st2 = vs_samples ?r" "take (vs_pos ?r) (vs_samples ?r) @ audio_piece ?r (vs_buffer_size ?r) = take (vs_pos st2) (vs_samples ?r)"
      by (rule take_piece_result [OF assms(1) r(2,1)])
    have "audio_piece ?r (vs_buffer_size ?r) \<noteq> []"
      using empty_piece [OF r(1)] r(1,4) by (auto simp: stream_sound_def)
    moreover have "next_piece dec True s w = Some (audio_piece ?r (vs_buffer_size ?r), w\<lparr>so_streams := (so_streams w)(s \<mapsto> st2)\<rparr>)"
      using t(1) u(1) True by (simp add: next_piece_def)
    moreover have "take (vs_pos st) samples @ audio_piece ?r (vs_buffer_size ?r) = concat (replicate 1 samples) @ take (vs_pos st2) samples"
      using empty_piece [OF assms(3) True] u(4) r(3,4) assms(4) by simp
    ultimately show ?thesis
      using that [of _ st2 1] u(2,3) r(3) by simp
  qed
qed

lemma recycle_in_order:
  assumes "decoder_sound dec" and "as_looping source" and "in_order samples s (as_source source) w"
  shows "\<exists>w1. recycle_buffer dec source s w = Some w1 \<and> in_order samples s (as_source source) w1"
proof -
  obtain st al n where w: "so_streams w s = Some st" "stream_sound st" "vs_samples st = samples" "so_al w (as_source source) = Some al"
    "length (al_queue al) = 2" "al_heard al @ concat (al_queue al) = concat (replicate n samples) @ take (vs_pos st) samples"
    using assms(3) by (auto simp: in_order_def)
  obtain x y where q: "al_queue al = [x, y]"
    using w(5) by (auto simp: numeral_2_eq_2 length_Suc_conv)
  obtain data st1 m where d: "next_piece dec True s w = Some (data, w\<lparr>so_streams := (so_streams w)(s \<mapsto> st1)\<rparr>)" "data \<noteq> []"
    "stream_sound st1" "vs_samples st1 = samples" "take (vs_pos st) samples @ data = concat (replicate m samples) @ take (vs_pos st1) samples"
    by (rule looping_piece [OF assms(1) w(1-3)])
  let ?al = "al\<lparr>al_queue := [y, data], al_heard := al_heard al @ x\<rparr>"
  let ?w = "w\<lparr>so_streams := (so_streams w)(s \<mapsto> st1), so_al := (so_al w)(as_source source \<mapsto> ?al)\<rparr>"
  have "recycle_buffer dec source s w = Some ?w"
    using w(4) q d(1,2) assms(2) by (simp add: recycle_buffer_def)
  moreover have "al_heard ?al @ concat (al_queue ?al) = concat (replicate (n + m) samples) @ take (vs_pos st1) samples"
    using w(6) d(5) q by (simp add: replicate_add) (metis append.assoc)
  then have "in_order samples s (as_source source) ?w"
    using d(3,4) unfolding in_order_def by (intro exI [of _ st1] exI [of _ ?al] exI [of _ "n + m"]) simp
  ultimately show ?thesis
    by blast
qed

lemma start_in_order:
  assumes "decoder_sound dec" and "so_streams w s = Some st" and "stream_sound st" and "vs_pos st = 0"
  shows "\<exists>w1. start_audio dec pos vel a source s w = Some w1 \<and> in_order (vs_samples st) s (so_al_next w) w1"
proof -
  obtain st1 where t: "take_piece dec s w = Some (audio_piece st (vs_buffer_size st), w\<lparr>so_streams := (so_streams w)(s \<mapsto> st1)\<rparr>)"
    "stream_sound st1" "vs_samples st1 = vs_samples st" "take (vs_pos st) (vs_samples st) @ audio_piece st (vs_buffer_size st) = take (vs_pos st1) (vs_samples st)"
    by (rule take_piece_result [OF assms(1-3)])
  let ?w = "w\<lparr>so_streams := (so_streams w)(s \<mapsto> st1)\<rparr>"
  have s1: "so_streams ?w s = Some st1"
    by simp
  obtain st2 where u: "take_piece dec s ?w = Some (audio_piece st1 (vs_buffer_size st1), ?w\<lparr>so_streams := (so_streams ?w)(s \<mapsto> st2)\<rparr>)"
    "stream_sound st2" "vs_samples st2 = vs_samples st1" "take (vs_pos st1) (vs_samples st1) @ audio_piece st1 (vs_buffer_size st1) = take (vs_pos st2) (vs_samples st1)"
    by (rule take_piece_result [OF assms(1) s1 t(2)])
  have "audio_piece st (vs_buffer_size st) @ audio_piece st1 (vs_buffer_size st1) = take (vs_pos st2) (vs_samples st)"
    using t(3,4) u(4) assms(4) by simp
  then show ?thesis
    using t(1) u(1-3) t(3) by (auto simp: start_audio_def in_order_def intro: exI [of _ "0 :: nat"])
qed

text \<open>C29: A looping source that was started at the beginning of a stream of its own never stops: however many buffers it has
  played, two are waiting, and what it played and what waits is the stream again and again and then its start, without gap or repetition.\<close>

theorem looping_sound_gapless:
  assumes "decoder_sound dec" and "so_streams w s = Some st" and "stream_sound st" and "vs_pos st = 0" and "as_looping source"
  shows "\<exists>w1 w2 al n p. start_audio dec pos vel a source s w = Some w1
    \<and> each (\<lambda>_. recycle_buffer dec (source\<lparr>as_source := so_al_next w\<rparr>) s) [0..<k] w1 = Some w2
    \<and> so_al w2 (so_al_next w) = Some al \<and> length (al_queue al) = 2
    \<and> al_heard al @ concat (al_queue al) = concat (replicate n (vs_samples st)) @ take p (vs_samples st)"
proof -
  let ?a = "source\<lparr>as_source := so_al_next w\<rparr>"
  let ?I = "in_order (vs_samples st) s (as_source ?a)"
  have handle: "as_source ?a = so_al_next w"
    by simp
  obtain w1 where w1: "start_audio dec pos vel a source s w = Some w1" "?I w1"
    unfolding handle using start_in_order [OF assms(1-4)] by blast
  have "\<exists>w2. each (\<lambda>_. recycle_buffer dec ?a s) [0..<k] w1 = Some w2 \<and> ?I w2"
    by (rule each_inside [where I = ?I]) (rule w1(2), rule recycle_in_order [OF assms(1)], use assms(5) in auto)
  then obtain w2 where w2: "each (\<lambda>_. recycle_buffer dec ?a s) [0..<k] w1 = Some w2" "?I w2"
    by blast
  then show ?thesis
    using w1(1) by (auto simp: in_order_def)
qed

lemma finished_piece:
  assumes "decoder_sound dec" and "stream_sound st" and "vs_pos st = length (vs_samples st)"
  shows "BufferStream dec st = Some ([], st)"
  using fill_buffer_result [OF assms(1,2), of "[]"] assms(2,3) by (simp add: BufferStream_def audio_piece_def advanced_def)

lemma recycle_finished:
  assumes "decoder_sound dec" and "so_streams w s = Some st" and "stream_sound st" and "vs_pos st = length (vs_samples st)"
    and "\<not> as_looping source" and "so_al w (as_source source) = Some al" and "al_queue al = x # rest"
  shows "recycle_buffer dec source s w
    = Some (w\<lparr>so_al := (so_al w)(as_source source \<mapsto> al\<lparr>al_queue := rest @ [x], al_heard := al_heard al @ x\<rparr>)\<rparr>)"
proof -
  have "(so_streams w)(s \<mapsto> st) = so_streams w"
    using assms(2) by auto
  then show ?thesis
    using assms(2,5-7) finished_piece [OF assms(1,3,4)] by (simp add: recycle_buffer_def next_piece_def take_piece_def)
qed

text \<open>A source that does not loop does not end either: once its stream is read, its last two buffers are put back as they are and
  played again, for as long as the loop runs.\<close>

theorem finished_sound_repeats:
  assumes "decoder_sound dec" and "so_streams w s = Some st" and "stream_sound st" and "vs_pos st = length (vs_samples st)"
    and "\<not> as_looping source" and "so_al w (as_source source) = Some al" and "al_queue al = [x, y]"
  shows "each (\<lambda>_. recycle_buffer dec source s) [0..<2 * k] w
    = Some (w\<lparr>so_al := (so_al w)(as_source source \<mapsto> al\<lparr>al_heard := al_heard al @ concat (replicate k (x @ y))\<rparr>)\<rparr>)"
proof (induction k)
  case 0
  have "(so_al w)(as_source source \<mapsto> al) = so_al w"
    using assms(6) by auto
  then show ?case
    by simp
next
  case (Suc k)
  let ?h = "as_source source" and ?f = "recycle_buffer dec source s"
  let ?a = "\<lambda>q e. al\<lparr>al_queue := q, al_heard := e\<rparr>" and ?e = "al_heard al @ concat (replicate k (x @ y))"
  let ?w = "\<lambda>q e. w\<lparr>so_al := (so_al w)(?h \<mapsto> ?a q e)\<rparr>"
  have same: "w\<lparr>so_al := (so_al w)(?h \<mapsto> al\<lparr>al_heard := e\<rparr>)\<rparr> = ?w [x, y] e" for e
    using assms(7) by (cases al) simp
  have one: "?f (?w (b # bs) e) = Some (?w (bs @ [b]) (e @ b))" for b bs e
    using recycle_finished [OF assms(1) _ assms(3,4,5), of "?w (b # bs) e" s "?a (b # bs) e" b bs] assms(2) by simp
  have "each (\<lambda>_. ?f) ([0..<2 * k] @ [2 * k, Suc (2 * k)]) w = Some (?w [x, y] ((?e @ x) @ y))"
    unfolding each_append Suc.IH same by (simp only: each.simps option.case one append.simps)
  moreover have "[0..<2 * Suc k] = [0..<2 * k] @ [2 * k, Suc (2 * k)]"
    by simp
  moreover have "(?e @ x) @ y = al_heard al @ concat (replicate (Suc k) (x @ y))"
    by (simp flip: replicate_append_same)
  ultimately show ?case
    unfolding same by (simp only:)
qed

lemma single_stream:
  "decoder_sound (\<lambda>s n. min (n div vs_channels s) ((length (vs_samples s) - vs_pos s) div vs_channels s))"
  unfolding decoder_sound_def
proof (intro allI impI)
  fix s :: vorbis_stream and n
  let ?c = "vs_channels s" and ?r = "length (vs_samples s) - vs_pos s"
  let ?m = "min (n div ?c) (?r div ?c)"
  assume c: "0 < ?c"
  have "?m * ?c \<le> n div ?c * ?c" "?m * ?c \<le> ?r div ?c * ?c"
    by (simp_all add: mult_le_mono1)
  then have "?m * ?c \<le> n" "?m * ?c \<le> ?r"
    by (meson div_times_less_eq_dividend order_trans)+
  moreover have "?m = 0 \<Longrightarrow> n < ?c \<or> ?r < ?c"
    using c by (auto simp: min_def div_eq_0_iff split: if_splits)
  ultimately show "?m * ?c \<le> n \<and> vs_pos s + ?m * ?c \<le> max (vs_pos s) (length (vs_samples s))
    \<and> (?m = 0 \<longrightarrow> n < ?c \<or> length (vs_samples s) < vs_pos s + ?c)"
    by linarith
qed

definition all_at_once :: decoder where
  "all_at_once = (\<lambda>s n. min (n div vs_channels s) ((length (vs_samples s) - vs_pos s) div vs_channels s))"

definition tone :: vorbis_stream where
  "tone = \<lparr>vs_open = True, vs_samples = [1, 2, 3], vs_channels = 1, vs_sample_rate = 44100, vs_stereo = False, vs_buffer_size = 2, vs_pos = 0,
     vs_left = 3\<rparr>"

definition silent_world :: "vorbis_stream \<Rightarrow> sound_world" where
  "silent_world st = \<lparr>so_streams = [0 \<mapsto> st], so_names = [''a.ogg'' \<mapsto> 0], so_sources = Map.empty, so_next = 0, so_map = Map.empty, so_queued = {},
     so_al = Map.empty, so_al_next = 1\<rparr>"

lemma all_at_once_sound: "decoder_sound all_at_once"
  unfolding all_at_once_def by (rule single_stream)

lemma looping_sound_gapless_witness:
  "\<exists>w1 w2 al n p. start_audio all_at_once None None 0 (new_audio_source\<lparr>as_looping := True\<rparr>) 0 (silent_world tone) = Some w1
    \<and> each (\<lambda>_. recycle_buffer all_at_once (new_audio_source\<lparr>as_looping := True, as_source := 1\<rparr>) 0) [0..<5] w1 = Some w2
    \<and> so_al w2 1 = Some al \<and> length (al_queue al) = 2
    \<and> al_heard al @ concat (al_queue al) = concat (replicate n [1, 2, 3]) @ take p [1, 2, 3]"
  using looping_sound_gapless [OF all_at_once_sound, of "silent_world tone" 0 tone "new_audio_source\<lparr>as_looping := True\<rparr>" None None 0 5]
  by (simp add: silent_world_def stream_sound_def tone_def)

definition played_out :: sound_world where
  "played_out = (silent_world (tone\<lparr>vs_pos := 3\<rparr>))\<lparr>so_al := [1 \<mapsto> \<lparr>al_queue = [[1, 2], [3]], al_heard = [], al_now = AL_PLAYING, al_gain = 1,
     al_position = zero_vec, al_velocity = zero_vec\<rparr>], so_al_next := 2\<rparr>"

lemma finished_sound_repeats_witness:
  "map_option (\<lambda>w. map_option al_heard (so_al w 1)) (each (\<lambda>_. recycle_buffer all_at_once (new_audio_source\<lparr>as_source := 1\<rparr>) 0) [0..<2 * 2] played_out)
    = Some (Some [1, 2, 3, 1, 2, 3])"
  using finished_sound_repeats [OF all_at_once_sound, of played_out 0 "tone\<lparr>vs_pos := 3\<rparr>" "new_audio_source\<lparr>as_source := 1\<rparr>"
    "the (so_al played_out 1)" "[1, 2]" "[3]" 2]
  by (simp add: played_out_def silent_world_def stream_sound_def tone_def new_audio_source_def numeral_2_eq_2)

subsection \<open>Entities announced again\<close>

lemma take_piece_keeps:
  "take_piece dec s w = Some (data, w1) \<Longrightarrow> so_al w1 = so_al w \<and> so_al_next w1 = so_al_next w \<and> so_sources w1 = so_sources w"
  by (auto simp: take_piece_def split: option.splits)

text \<open>An entity that is announced again, even without a sound, gives its source a new handle: the old handle keeps playing what it has, but
  no source has it any more, so it is neither filled nor stopped.\<close>

theorem announced_again_orphans_handle:
  assumes "so_map w i = Some a" and "so_sources w a = Some source" and "as_stream source \<noteq> None" and "so_al w (as_source source) = Some al"
    and "as_source source < so_al_next w"
    and "\<forall>b src. so_sources w b = Some src \<and> b \<noteq> a \<longrightarrow> as_source src \<noteq> as_source source"
    and "so_On_EntityCreated dec fs pos vel i [] w = Some w1"
  shows "so_al w1 (as_source source) = Some al \<and> (\<forall>b src. so_sources w1 b = Some src \<longrightarrow> as_source src \<noteq> as_source source)"
proof -
  obtain s where s: "as_stream source = Some s"
    using assms(3) by auto
  obtain x y w2 w3 where t: "take_piece dec s w = Some (x, w2)" "take_piece dec s w2 = Some (y, w3)"
    and w1: "w1 = w3\<lparr>so_sources := (so_sources w3)(a \<mapsto> source\<lparr>as_source := so_al_next w3\<rparr>), so_al_next := so_al_next w3 + 1,
       so_al := (so_al w3)(so_al_next w3 \<mapsto> \<lparr>al_queue = [x, y], al_heard = [], al_now = start_state (as_state source),
         al_gain = of_int (as_gain source) / 100, al_position = vec_or_zero pos, al_velocity = vec_or_zero vel\<rparr>)\<rparr>"
    using assms(1,2,7) s by (auto simp: so_On_EntityCreated_def start_audio_def bind_eq_Some_conv)
  have "so_al w3 = so_al w" "so_al_next w3 = so_al_next w" "so_sources w3 = so_sources w"
    using take_piece_keeps [OF t(1)] take_piece_keeps [OF t(2)] by simp_all
  then show ?thesis
    using assms(4-6) unfolding w1 by auto
qed

definition ringing :: sound_world where
  "ringing = played_out\<lparr>so_sources := [0 \<mapsto> new_audio_source\<lparr>as_source := 1, as_stream := Some 0\<rparr>], so_map := [7 \<mapsto> 0]\<rparr>"

lemma announced_again_orphans_handle_witness:
  "\<exists>w1. so_On_EntityCreated all_at_once (\<lambda>_. None) None None 7 [] ringing = Some w1
    \<and> so_al w1 1 = so_al played_out 1 \<and> (\<forall>b src. so_sources w1 b = Some src \<longrightarrow> as_source src \<noteq> 1)"
proof -
  let ?src = "new_audio_source\<lparr>as_source := 1, as_stream := Some 0\<rparr>" and ?st = "tone\<lparr>vs_pos := 3\<rparr>"
  have st: "so_streams ringing 0 = Some ?st" "stream_sound ?st" "vs_pos ?st = length (vs_samples ?st)"
    by (simp_all add: ringing_def played_out_def silent_world_def stream_sound_def tone_def)
  have keep: "(so_streams ringing)(0 \<mapsto> ?st) = so_streams ringing"
    using st(1) by auto
  have "take_piece all_at_once 0 ringing = Some ([], ringing)"
    using finished_piece [OF all_at_once_sound st(2,3)] st(1) keep by (simp add: take_piece_def)
  moreover have w: "so_map ringing 7 = Some 0" "so_sources ringing 0 = Some ?src" "as_source ?src = 1" "as_stream ?src = Some 0"
    "as_source ?src < so_al_next ringing" "\<forall>b src. so_sources ringing b = Some src \<and> b \<noteq> 0 \<longrightarrow> as_source src \<noteq> as_source ?src"
    by (simp_all add: ringing_def played_out_def)
  ultimately obtain w1 where w1: "so_On_EntityCreated all_at_once (\<lambda>_. None) None None 7 [] ringing = Some w1"
    by (simp add: so_On_EntityCreated_def start_audio_def)
  obtain al where al: "so_al played_out 1 = Some al" "so_al ringing (as_source ?src) = Some al"
    by (simp add: ringing_def played_out_def)
  have "as_stream ?src \<noteq> None"
    by simp
  from announced_again_orphans_handle [OF w(1,2) this al(2) w(5,6) w1] show ?thesis
    using w1 al(1) by simp
qed

end
