(* ===== verification/Vfs_Normal.thy ===== *)
theory Vfs_Normal
  imports Vfs_Path
begin

text \<open>
  What \<open>NormalizePath\<close> computes, in terms of path elements: the abstraction \<open>segs\<close> of a path
  string, the normal forms, and their concrete strings (\<open>render\<close>). The properties say that
  normalising is idempotent, that an absolute path never has an up-reference left, how names,
  base paths and appending act on elements, and where relative up-references go wrong.
\<close>

subsection \<open>Splitting\<close>

lemma SEP_neq [simp]: "SEP \<noteq> WIN_SEP" "WIN_SEP \<noteq> SEP" "CHR ''.'' \<noteq> SEP" "CHR ''.'' \<noteq> WIN_SEP"
    "WIN_SEP \<noteq> CHR ''.''"
    "SEP \<noteq> CHR ''.''"
  by (simp_all add: SEP_def WIN_SEP_def)

lemma getlines_Nil [simp]: "getlines [] = []"
  by (simp add: getlines.simps)

lemma getlines_seg_sep: "SEP \<notin> set s \<Longrightarrow> getlines (s @ SEP # t) = s # getlines t"
proof -
  assume s: "SEP \<notin> set s"
  have "dropWhile (\<lambda>c. c \<noteq> SEP) (s @ SEP # t) = SEP # t" "takeWhile (\<lambda>c. c \<noteq> SEP) (s @ SEP # t) = s"
    using s by (induction s) auto
  then show ?thesis
    by (subst getlines.simps) simp
qed

lemma getlines_sep [simp]: "getlines (SEP # t) = [] # getlines t"
  using getlines_seg_sep [of "[]"] by simp

lemma getlines_seg: "SEP \<notin> set s \<Longrightarrow> s \<noteq> [] \<Longrightarrow> getlines s = [s]"
  by (subst getlines.simps)
    (metis (mono_tags, lifting) dropWhile_eq_Nil_conv list.simps(4) takeWhile_eq_all_conv)

text \<open>The elements of a string: no empty ones and no \<open>.\<close>, which normalising skips.\<close>

definition segs :: "string \<Rightarrow> string list" where
  "segs t = filter (\<lambda>s. s \<noteq> [] \<and> s \<noteq> ''.'') (getlines t)"

lemma split_at_sep:
  obtains "SEP \<notin> set t" | s t' where "t = s @ SEP # t'" "SEP \<notin> set s"
  by (metis split_list_first)

lemma segs_append_sep: "segs (a @ SEP # b) = segs a @ segs b"
proof (induction "length a" arbitrary: a rule: less_induct)
  case less
  show ?case
  proof (cases a rule: split_at_sep)
    case 1
    then show ?thesis
      by (cases "a = []") (simp_all add: segs_def getlines_seg getlines_seg_sep)
  next
    case (2 s t')
    then show ?thesis
      using less [of t'] by (simp add: segs_def getlines_seg_sep)
  qed
qed

lemma segs_no_sep: "s \<in> set (getlines t) \<Longrightarrow> SEP \<notin> set s \<and> set s \<subseteq> set t"
proof (induction "length t" arbitrary: t rule: less_induct)
  case less
  show ?case
  proof (cases t rule: split_at_sep)
    case 1
    then show ?thesis
      using less.prems by (cases "t = []") (auto simp: getlines_seg)
  next
    case (2 u t')
    then show ?thesis
      using less.prems less.hyps [of t'] by (auto simp: getlines_seg_sep)
  qed
qed

lemma segs_Nil [simp]: "segs [] = []" by (simp add: segs_def)

lemma segs_SEP [simp]: "segs (SEP # t) = segs t"
  by (simp add: segs_def)

lemma segs_snoc_SEP [simp]: "segs (t @ [SEP]) = segs t"
  using segs_append_sep [of t "[]"] by simp

lemma foldl_push_segs: "foldl (push_seg absolute) np (getlines t) = foldl (push_seg absolute) np (segs t)"
proof -
  have "foldl (push_seg absolute) np ss
      = foldl (push_seg absolute) np (filter (\<lambda>s. s \<noteq> [] \<and> s \<noteq> ''.'') ss)" for ss
    by (induction ss arbitrary: np) (auto simp: push_seg_def)
  then show ?thesis by (simp add: segs_def)
qed

subsection \<open>Elements\<close>

lemma strip_tail_length: "2 < length s \<Longrightarrow> 2 \<le> length (strip_tail s)"
proof (induction s rule: strip_tail.induct)
  case (1 s)
  then show ?case
    by (subst strip_tail.simps)
      (cases "length s = 3", auto simp: strip_tail.simps [of "butlast s"])
qed

lemma strip_tail_short [simp]: "length s \<le> 2 \<Longrightarrow> strip_tail s = s"
  by (simp add: strip_tail.simps)

lemma strip_tail_idem [simp]: "strip_tail (strip_tail s) = strip_tail s"
proof (induction s rule: strip_tail.induct)
  case (1 s)
  then show ?case
    by (cases "2 < length s \<and> (last s = CHR ''.'' \<or> last s = CHR '' '')")
      (auto simp: strip_tail.simps [of s])
qed

lemma strip_tail_set: "set (strip_tail s) \<subseteq> set s"
proof (induction s rule: strip_tail.induct)
  case (1 s)
  then show ?case
    by (cases "2 < length s \<and> (last s = CHR ''.'' \<or> last s = CHR '' '')")
      (auto simp: strip_tail.simps [of s] dest: in_set_butlastD)
qed

lemma strip_tail_small:
  assumes "s \<noteq> []" and "s \<noteq> ''.''"
  shows "strip_tail s \<noteq> [] \<and> strip_tail s \<noteq> ''.''"
proof (cases "2 < length s")
  case True
  then show ?thesis using strip_tail_length [OF True] by auto
qed (use assms in simp)

definition clean_seg :: "string \<Rightarrow> bool" where
  "clean_seg s \<longleftrightarrow> s \<noteq> [] \<and> s \<noteq> ''.'' \<and> SEP \<notin> set s \<and> WIN_SEP \<notin> set s \<and> strip_tail s = s"

text \<open>Normal lists: an up-reference only at the head, and only in a relative path.\<close>

definition normal_segs :: "bool \<Rightarrow> string list \<Rightarrow> bool" where
  "normal_segs absolute np \<longleftrightarrow> (\<forall>s \<in> set np. clean_seg s)
     \<and> (if absolute then ''..'' \<notin> set np else ''..'' \<notin> set (tl np))"

lemma normal_push:
  assumes "normal_segs a np" and "SEP \<notin> set s" and "WIN_SEP \<notin> set s"
  shows "normal_segs a (push_seg a np s)"
proof (cases "s = [] \<or> s = ''.''")
  case False
  then have "clean_seg (strip_tail s)"
    using strip_tail_small [of s] strip_tail_set [of s] assms(2,3) by (auto simp: clean_seg_def)
  moreover have "normal_segs a (butlast np)"
    using assms(1) by (cases np) (auto simp: normal_segs_def dest: in_set_butlastD split: if_splits)
  ultimately show ?thesis
    using assms(1) False by (cases np) (auto simp: push_seg_def Let_def normal_segs_def)
qed (use assms in \<open>auto simp: push_seg_def\<close>)

lemma normal_foldl:
  "normal_segs a np \<Longrightarrow> \<forall>s \<in> set ss. SEP \<notin> set s \<and> WIN_SEP \<notin> set s \<Longrightarrow>
     normal_segs a (foldl (push_seg a) np ss)"
  by (induction ss arbitrary: np) (auto intro: normal_push)

lemma normal_snocD: "normal_segs a (np @ [s]) \<Longrightarrow> normal_segs a np \<and> push_seg a np s = np @ [s]"
  by (cases np) (auto simp: normal_segs_def clean_seg_def push_seg_def Let_def split: if_splits)

lemma foldl_push_normal: "normal_segs a np \<Longrightarrow> foldl (push_seg a) [] np = np"
proof (induction np rule: rev_induct)
  case (snoc s np)
  from normal_snocD [OF snoc.prems] snoc.IH show ?case by simp
qed simp

text \<open>Elements without up-references are appended as they are.\<close>

lemma foldl_push_no_up:
  "\<forall>s \<in> set ss. clean_seg s \<and> s \<noteq> ''..'' \<Longrightarrow> foldl (push_seg a) np ss = np @ ss"
  by (induction ss arbitrary: np) (auto simp: push_seg_def clean_seg_def Let_def)

subsection \<open>Strings of normal lists\<close>

definition render :: "bool \<Rightarrow> bool \<Rightarrow> string list \<Rightarrow> string" where
  "render a l np = (if a then [SEP] else if np = [] then (if l then ''.'' @ [SEP] else ''.'') else [])
     @ join_path np @ (if np \<noteq> [] \<and> l then [SEP] else [])"

lemma join_path_Cons: "join_path (s # ss) = (if ss = [] then s else s @ SEP # join_path ss)"
  by (cases ss) simp_all

lemma segs_clean: "clean_seg s \<Longrightarrow> segs s = [s]"
  by (simp add: segs_def clean_seg_def getlines_seg)

lemma segs_join: "\<forall>s \<in> set np. clean_seg s \<Longrightarrow> segs (join_path np) = np"
  by (induction np) (auto simp: join_path_Cons segs_append_sep segs_clean)

lemma join_path_ends:
  assumes "\<forall>s \<in> set np. clean_seg s" and "np \<noteq> []"
  shows "join_path np \<noteq> [] \<and> hd (join_path np) \<noteq> SEP \<and> last (join_path np) \<noteq> SEP"
  using assms
proof (induction np)
  case (Cons s ss)
  then have "s \<noteq> []" "SEP \<notin> set s"
    by (simp_all add: clean_seg_def)
  then have "s \<noteq> []" "hd s \<noteq> SEP" "last s \<noteq> SEP"
    by (metis hd_in_set last_in_set)+
  with Cons show ?case
    by (cases "ss = []") (auto simp: join_path_Cons)
qed simp

lemma join_path_no_win: "\<forall>s \<in> set np. clean_seg s \<Longrightarrow> WIN_SEP \<notin> set (join_path np)"
  by (induction np) (auto simp: join_path_Cons clean_seg_def)

definition slashed :: "string \<Rightarrow> string" where
  "slashed t = map (\<lambda>c. if c = WIN_SEP then SEP else c) t"

lemma slashed_id: "WIN_SEP \<notin> set t \<Longrightarrow> slashed t = t"
  by (auto simp: slashed_def intro: map_idI)

text \<open>A rendered normal list gives back its flags and elements.\<close>

lemma render_facts:
  assumes "normal_segs a np"
  shows "render a l np \<noteq> []" and "WIN_SEP \<notin> set (render a l np)"
    and "hd (render a l np) = SEP \<longleftrightarrow> a"
    and "segs (render a l np) = np"
    and "(1 < length (render a l np) \<and> last (render a l np) = SEP) \<longleftrightarrow> l \<and> (a \<longrightarrow> np \<noteq> [])"
proof -
  have c: "\<forall>s \<in> set np. clean_seg s" using assms by (simp add: normal_segs_def)
  have dot: "segs [CHR ''.''] = []" "segs [CHR ''.'', SEP] = []"
    using segs_snoc_SEP [of "''.''"] by (simp_all add: segs_def getlines_seg)
  show "render a l np \<noteq> []" "hd (render a l np) = SEP \<longleftrightarrow> a"
    using join_path_ends [OF c] by (auto simp: render_def hd_append)
  show "WIN_SEP \<notin> set (render a l np)"
    using join_path_no_win [OF c] by (auto simp: render_def)
  have "segs (join_path np @ [SEP]) = np"
    using segs_join [OF c] by simp
  then show "segs (render a l np) = np"
    using segs_join [OF c] dot by (auto simp: render_def)
  show "(1 < length (render a l np) \<and> last (render a l np) = SEP) \<longleftrightarrow> l \<and> (a \<longrightarrow> np \<noteq> [])"
    using join_path_ends [OF c] by (auto simp: render_def last_append)
qed

definition path_abs :: "string \<Rightarrow> bool" where "path_abs t \<longleftrightarrow> hd (slashed t) = SEP"
definition path_lead :: "string \<Rightarrow> bool" where
  "path_lead t \<longleftrightarrow> 1 < length (slashed t) \<and> last (slashed t) = SEP"
definition path_segs :: "string \<Rightarrow> string list" where
  "path_segs t = foldl (push_seg (path_abs t)) [] (segs (slashed t))"

lemma NormalizePath_render:
  assumes "pstr p \<noteq> []"
  shows "pstr (NormalizePath p) = render (path_abs (pstr p)) (path_lead (pstr p)) (path_segs (pstr p))"
  using assms
  by (simp add: NormalizePath_def Let_def render_def path_abs_def path_lead_def path_segs_def
      slashed_def foldl_push_segs)

lemma normal_path_segs: "normal_segs (path_abs t) (path_segs t)"
  unfolding path_segs_def
proof (rule normal_foldl)
  show "\<forall>s \<in> set (segs (slashed t)). SEP \<notin> set s \<and> WIN_SEP \<notin> set s"
  proof
    fix s assume "s \<in> set (segs (slashed t))"
    then have "SEP \<notin> set s \<and> set s \<subseteq> set (slashed t)"
      by (auto simp: segs_def dest: segs_no_sep)
    then show "SEP \<notin> set s \<and> WIN_SEP \<notin> set s"
      by (auto simp: slashed_def split: if_splits)
  qed
qed (simp add: normal_segs_def)

text \<open>Strings in normal form: the strings that \<open>NormalizePath\<close> leaves.\<close>

definition normal_str :: "string \<Rightarrow> bool" where
  "normal_str t \<longleftrightarrow> (\<exists>a l np. normal_segs a np \<and> (l \<longrightarrow> a \<longrightarrow> np \<noteq> []) \<and> t = render a l np)"

lemma normal_str_NormalizePath: "pstr p \<noteq> [] \<Longrightarrow> normal_str (pstr (NormalizePath p))"
proof -
  assume p: "pstr p \<noteq> []"
  let ?a = "path_abs (pstr p)" and ?np = "path_segs (pstr p)"
  have "render ?a (path_lead (pstr p)) ?np = render ?a (path_lead (pstr p) \<and> (?a \<longrightarrow> ?np \<noteq> [])) ?np"
    by (simp add: render_def)
  then show ?thesis
    unfolding normal_str_def NormalizePath_render [OF p]
    by (intro exI [of _ ?a] exI [of _ "path_lead (pstr p) \<and> (?a \<longrightarrow> ?np \<noteq> [])"] exI [of _ ?np])
      (simp add: normal_path_segs)
qed

lemma render_parts:
  assumes "normal_segs a np" and "l \<longrightarrow> a \<longrightarrow> np \<noteq> []"
  shows "path_abs (render a l np) = a" and "path_lead (render a l np) = l"
    and "path_segs (render a l np) = np"
proof -
  note rf = render_facts [OF assms(1), of l]
  show a: "path_abs (render a l np) = a"
    using rf by (simp add: path_abs_def slashed_id)
  show "path_lead (render a l np) = l"
    using rf assms(2) by (auto simp: path_lead_def slashed_id)
  show "path_segs (render a l np) = np"
    using rf a assms(1) by (simp add: path_segs_def slashed_id foldl_push_normal)
qed

lemma normal_str_parts:
  assumes "normal_str t"
  shows "t = render (path_abs t) (path_lead t) (path_segs t)"
    and "segs t = path_segs t" and "slashed t = t" and "t \<noteq> []"
    and "path_lead t \<longrightarrow> path_abs t \<longrightarrow> path_segs t \<noteq> []"
proof -
  from assms obtain a l np where n: "normal_segs a np" "l \<longrightarrow> a \<longrightarrow> np \<noteq> []" "t = render a l np"
    by (auto simp: normal_str_def)
  show "t = render (path_abs t) (path_lead t) (path_segs t)"
    "path_lead t \<longrightarrow> path_abs t \<longrightarrow> path_segs t \<noteq> []"
    using n(2) by (simp_all only: n(3) render_parts [OF n(1,2)])
  show "segs t = path_segs t" "slashed t = t" "t \<noteq> []"
    using render_facts [OF n(1), of l] render_parts [OF n(1,2)] n(3) by (simp_all add: slashed_id)
qed

lemma normal_str_no_win: "normal_str t \<Longrightarrow> WIN_SEP \<notin> set t"
  unfolding normal_str_def using render_facts(2) by blast

lemma NormalizePath_normal_str: "normal_str (pstr p) \<Longrightarrow> pstr (NormalizePath p) = pstr p"
  using normal_str_parts [of "pstr p"] NormalizePath_render [of p] by simp

lemma special_SEP [simp]: "\<not> special_char SEP"
  by (simp add: special_char_def SEP_def)

lemma device_NormalizePath:
  "device (NormalizePath p) =
     (if pstr p \<noteq> [] \<and> path_segs (pstr p) \<noteq> [] \<and> (\<exists>c \<in> set (pstr (NormalizePath p)). special_char c)
        \<and> (device p = [] \<or> last (device p) \<noteq> CHR ''*'')
      then device p @ ''*'' else device p)"
proof (cases "pstr p = []")
  case False
  have "NormalizePath p =
      (let np = path_segs (pstr p); full = render (path_abs (pstr p)) False np in
       \<lparr>device = (if np \<noteq> [] \<and> (\<exists>c \<in> set full. special_char c)
            \<and> (device p = [] \<or> last (device p) \<noteq> CHR ''*'') then device p @ ''*'' else device p),
        pstr = render (path_abs (pstr p)) (path_lead (pstr p)) np\<rparr>)"
    using NormalizePath_render [OF False] False
    by (intro vpath.equality)
      (simp only: NormalizePath_def Let_def if_False foldl_push_segs slashed_def [symmetric]
         path_abs_def [symmetric] path_lead_def [symmetric] path_segs_def [symmetric] vpath.simps,
       auto simp: render_def Let_def)
  then show ?thesis
    using False by (auto simp: Let_def render_def)
qed (simp add: NormalizePath_def)

lemma isAbsolutePath_normal: "normal_str (pstr p) \<Longrightarrow> isAbsolutePath p \<longleftrightarrow> path_abs (pstr p)"
  using normal_str_parts [of "pstr p"] by (simp add: isAbsolutePath_def path_abs_def)

lemma SetDevice_pstr: "pstr p \<noteq> [] \<Longrightarrow> pstr (SetDevice p) \<noteq> []"
  by (auto simp: SetDevice_def Let_def)

lemma Path_normal: "s \<noteq> [] \<Longrightarrow> normal_str (pstr (Path s))"
  by (simp add: Path_def normal_str_NormalizePath SetDevice_pstr)

lemma normal_str_segs:
  "normal_str t \<Longrightarrow> normal_segs (path_abs t) (segs t)"
  using normal_str_parts(2) [of t] normal_path_segs [of t] by simp

lemma segs_NormalizePath:
  assumes "pstr p \<noteq> []"
  shows "segs (pstr (NormalizePath p)) = foldl (push_seg (path_abs (pstr p))) [] (segs (slashed (pstr p)))"
    and "path_abs (pstr (NormalizePath p)) = path_abs (pstr p)"
  using render_facts [OF normal_path_segs, of "pstr p" "path_lead (pstr p)"]
  by (simp_all add: NormalizePath_render [OF assms] path_segs_def path_abs_def slashed_id)

subsection \<open>Properties\<close>

text \<open>Normalising is idempotent: a normalised path, its device and invalid mark included,
  is not changed by normalising it again.\<close>

theorem NormalizePath_idem: "NormalizePath (NormalizePath p) = NormalizePath p"
proof (cases "pstr p = []")
  case False
  then have n: "normal_str (pstr (NormalizePath p))"
    by (rule normal_str_NormalizePath)
  have s: "pstr (NormalizePath (NormalizePath p)) = pstr (NormalizePath p)"
    by (rule NormalizePath_normal_str [OF n])
  have "path_segs (pstr (NormalizePath p)) = path_segs (pstr p)"
    using segs_NormalizePath(1) [OF False] normal_str_parts(2) [OF n] by (simp add: path_segs_def)
  then have "device (NormalizePath (NormalizePath p)) = device (NormalizePath p)"
    using n [THEN normal_str_parts(4)] False
    by (simp add: device_NormalizePath [of "NormalizePath p"] s) (simp add: device_NormalizePath [of p])
  with s show ?thesis by simp
qed (simp add: NormalizePath_def)

text \<open>Rooted paths stay inside their root. Whatever string a path is built from, its
  elements are not empty, not \<open>.\<close>, hold no separator of either kind, and do not end in a dot
  or blank when longer than two bytes; if the path is absolute, which every path with a
  device is, no element is an up-reference.\<close>

theorem Path_elements:
  assumes "s \<noteq> []"
  shows "(\<forall>e \<in> set (segs (pstr (Path s))). e \<noteq> [] \<and> e \<noteq> ''.'' \<and> SEP \<notin> set e \<and> WIN_SEP \<notin> set e
      \<and> (2 < length e \<longrightarrow> last e \<noteq> CHR ''.'' \<and> last e \<noteq> CHR '' ''))
    \<and> (isAbsolutePath (Path s) \<longrightarrow> ''..'' \<notin> set (segs (pstr (Path s))))
    \<and> (device (SetDevice \<lparr>device = [], pstr = s\<rparr>) \<noteq> [] \<longrightarrow> isAbsolutePath (Path s))"
proof -
  note n = Path_normal [OF assms]
  note ns = normal_str_segs [OF n]
  have "last e \<noteq> CHR ''.'' \<and> last e \<noteq> CHR '' ''" if "strip_tail e = e" "2 < length e" for e
  proof (rule ccontr)
    assume "\<not> ?thesis"
    then have "strip_tail e = strip_tail (butlast e)"
      using that(2) by (subst strip_tail.simps) auto
    then have "set (strip_tail e) = set e" "length (strip_tail (butlast e)) = length e"
      using that(1) by auto
    moreover have "length (strip_tail u) \<le> length u" for u
      by (induction u rule: strip_tail.induct) (subst strip_tail.simps, auto)
    ultimately show False
      using that(2) by (metis diff_less length_butlast less_numeral_extra(1) not_le
          order.strict_trans zero_less_numeral)
  qed
  then have "\<forall>e \<in> set (segs (pstr (Path s))). e \<noteq> [] \<and> e \<noteq> ''.'' \<and> SEP \<notin> set e \<and> WIN_SEP \<notin> set e
      \<and> (2 < length e \<longrightarrow> last e \<noteq> CHR ''.'' \<and> last e \<noteq> CHR '' '')"
    using ns by (auto simp: normal_segs_def clean_seg_def)
  moreover have "isAbsolutePath (Path s) \<longrightarrow> ''..'' \<notin> set (segs (pstr (Path s)))"
    using ns by (simp add: isAbsolutePath_normal [OF n] normal_segs_def)
  moreover have "path_abs (pstr (SetDevice \<lparr>device = [], pstr = s\<rparr>))"
    if "device (SetDevice \<lparr>device = [], pstr = s\<rparr>) \<noteq> []"
    using that
    by (auto simp: SetDevice_def Let_def path_abs_def slashed_def hd_map hd_drop_conv_nth split: if_splits)
  then have "device (SetDevice \<lparr>device = [], pstr = s\<rparr>) \<noteq> [] \<longrightarrow> isAbsolutePath (Path s)"
    using isAbsolutePath_normal [OF n] segs_NormalizePath(2) SetDevice_pstr assms
    by (simp add: Path_def)
  ultimately show ?thesis by blast
qed

theorem Path_elements_witness:
  "''..'' \<notin> set (segs (pstr (Path (''a:../'' @ [WIN_SEP] @ ''../x...''))))
   \<and> isAbsolutePath (Path (''a:../'' @ [WIN_SEP] @ ''../x...''))"
  using Path_elements [of "''a:../'' @ [WIN_SEP] @ ''../x...''"]
  by (simp add: SetDevice_def Let_def is_alpha_def)

text \<open>Up-references at the front of a relative path: each second one takes the first away.\<close>

definition ups :: "nat \<Rightarrow> string" where
  "ups n = concat (replicate n (''..'' @ [SEP]))"

lemma dotdot [simp]: "clean_seg ''..''"
  by (simp add: clean_seg_def SEP_def WIN_SEP_def)

lemma segs_ups: "segs (ups n @ t) = replicate n ''..'' @ segs t"
proof (induction n)
  case (Suc n)
  then show ?case
    using segs_append_sep [of "''..''" "ups n @ t"] segs_clean [OF dotdot] by (simp add: ups_def)
qed (simp add: ups_def)

lemma foldl_push_dotdots:
  "foldl (push_seg False) [] (replicate n ''..'') = (if even n then [] else [''..''])"
  by (induction n) (auto simp: push_seg_def simp flip: replicate_append_same)

lemma segs_path_div:
  assumes "normal_str (pstr p)" and "pstr q \<noteq> [] \<Longrightarrow> normal_str (pstr q)" and "device q = []"
  shows "\<exists>r. path_div p q = Inr r \<and> normal_str (pstr r) \<and> path_abs (pstr r) = path_abs (pstr p)
    \<and> segs (pstr r) = foldl (push_seg (path_abs (pstr p))) [] (segs (pstr p) @ segs (pstr q))
    \<and> (path_valid r \<longleftrightarrow> path_valid p \<and> (\<forall>c \<in> set (pstr r). \<not> special_char c \<or> segs (pstr r) = []))"
proof -
  let ?t = "if last (pstr p) \<noteq> SEP \<and> rhs_relative q then pstr p @ SEP # pstr q else pstr p @ pstr q"
  let ?r = "NormalizePath (p\<lparr>pstr := ?t\<rparr>)"
  note np = normal_str_parts [OF assms(1)]
  have q: "WIN_SEP \<notin> set (pstr q)"
    using normal_str_no_win [of "pstr q"] assms(2) by (cases "pstr q = []") auto
  have p: "WIN_SEP \<notin> set (pstr p)"
    by (rule normal_str_no_win [OF assms(1)])
  have div: "path_div p q = Inr ?r"
    using assms(3) np(4) by (simp add: path_div_def)
  have ne: "?t \<noteq> []" using np(4) by simp
  have sl: "slashed ?t = ?t" using p q by (intro slashed_id) auto
  have "path_abs ?t = path_abs (pstr p)"
    using sl np(3,4) by (simp add: path_abs_def hd_append)
  moreover have "segs ?t = segs (pstr p) @ segs (pstr q)"
  proof (cases "last (pstr p) \<noteq> SEP \<and> rhs_relative q")
    case True
    then show ?thesis using segs_append_sep by simp
  next
    case False
    show ?thesis
    proof (cases "last (pstr p) = SEP")
      case True
      then have e: "pstr p = butlast (pstr p) @ [SEP]"
        using np(4) by (metis append_butlast_last_id)
      have "segs (pstr p) = segs (butlast (pstr p))"
        by (subst e) simp
      moreover have "pstr p @ pstr q = butlast (pstr p) @ SEP # pstr q"
        using e by (metis append.assoc append_Cons append_Nil)
      then have "segs (pstr p @ pstr q) = segs (butlast (pstr p)) @ segs (pstr q)"
        by (simp only: segs_append_sep)
      ultimately show ?thesis
        using True by simp
    next
      case F2: False
      then have "pstr q \<noteq> []" "hd (pstr q) = SEP"
        using False assms(3) by (auto simp: rhs_relative_def path_empty_def)
      then obtain t' where "pstr q = SEP # t'" by (cases "pstr q") auto
      then show ?thesis
        using F2 False segs_append_sep by simp
    qed
  qed
  ultimately have r: "segs (pstr ?r) = foldl (push_seg (path_abs (pstr p))) [] (segs (pstr p) @ segs (pstr q))"
    "path_abs (pstr ?r) = path_abs (pstr p)" "normal_str (pstr ?r)"
    using segs_NormalizePath [of "p\<lparr>pstr := ?t\<rparr>"] normal_str_NormalizePath [of "p\<lparr>pstr := ?t\<rparr>"] ne sl
    by simp_all
  have "path_segs ?t = segs (pstr ?r)"
    using r(1) sl \<open>segs ?t = _\<close> \<open>path_abs ?t = _\<close> by (simp add: path_segs_def)
  then have "path_valid ?r \<longleftrightarrow> path_valid p \<and> (\<forall>c \<in> set (pstr ?r). \<not> special_char c \<or> segs (pstr ?r) = [])"
    using ne np(4) normal_str_parts(4) [OF r(3)]
    by (auto simp: path_valid_def device_NormalizePath [of "p\<lparr>pstr := ?t\<rparr>"])
  with div r show ?thesis by blast
qed

text \<open>Appending. Appending a path without a device to a normalised path gives the path
  with its elements followed by the appended ones, up-references applied, relative or
  absolute as before; an appended path without up-references is just added below. Appending
  a path that has a device, which an invalid path has, throws.\<close>

theorem path_div_elements:
  assumes "normal_str (pstr p)" and "s \<noteq> []"
  shows "if device (Path s) \<noteq> [] then path_div_str p s = Inl Append_invalid
    else \<exists>r. path_div_str p s = Inr r \<and> isAbsolutePath r = isAbsolutePath p
      \<and> segs (pstr r) = foldl (push_seg (isAbsolutePath p)) [] (segs (pstr p) @ segs (pstr (Path s)))
      \<and> (''..'' \<notin> set (segs (pstr (Path s))) \<longrightarrow> segs (pstr r) = segs (pstr p) @ segs (pstr (Path s)))"
proof (cases "device (Path s) = []")
  case True
  note n = assms(1) and ns = Path_normal [OF assms(2)]
  obtain r where r: "path_div p (Path s) = Inr r" "normal_str (pstr r)" "path_abs (pstr r) = path_abs (pstr p)"
    "segs (pstr r) = foldl (push_seg (path_abs (pstr p))) [] (segs (pstr p) @ segs (pstr (Path s)))"
    using segs_path_div [OF n _ True] ns by auto
  have "foldl (push_seg (path_abs (pstr p))) [] (segs (pstr p)) = segs (pstr p)"
    using foldl_push_normal [OF normal_str_segs [OF n]] .
  moreover have "\<forall>e \<in> set (segs (pstr (Path s))). clean_seg e"
    using normal_str_segs [OF ns] by (simp add: normal_segs_def)
  ultimately have "segs (pstr r) = segs (pstr p) @ segs (pstr (Path s))" if "''..'' \<notin> set (segs (pstr (Path s)))"
    using r(4) that by (metis foldl_append foldl_push_no_up)
  then show ?thesis
    using True r isAbsolutePath_normal [OF n] isAbsolutePath_normal [OF r(2)]
    by (simp add: path_div_str_def)
next
  case False
  then show ?thesis
    using normal_str_parts(4) [OF assms(1)] by (simp add: path_div_str_def path_div_def)
qed

theorem path_div_elements_witness:
  "\<exists>r. path_div_str (Path ''/usr'') ''../lib'' = Inr r \<and> segs (pstr r) = [''lib'']"
proof -
  have "segs (pstr (Path ''/usr'')) = [''usr'']" "segs (pstr (Path ''../lib'')) = [''..'', ''lib'']"
    "device (Path ''../lib'') = []" "isAbsolutePath (Path ''/usr'')"
    by code_simp+
  moreover have "strip_tail ''usr'' = ''usr''" "strip_tail ''lib'' = ''lib''"
    by (simp_all add: strip_tail.simps)
  ultimately show ?thesis
    using path_div_elements [OF Path_normal [of "''/usr''"], of "''../lib''"]
    by (auto simp: push_seg_def Let_def)
qed

text \<open>Up-references at the front of a relative path cancel in pairs. A relative path of
  \<open>n\<close> up-references and a name is normalised to the name alone for even \<open>n\<close> and to one
  up-reference and the name for odd \<open>n\<close>: \<open>../../foo\<close> becomes \<open>foo\<close>.\<close>

theorem up_references_cancel:
  assumes "clean_seg e" and "e \<noteq> ''..''" and "\<forall>c \<in> set e. \<not> special_char c"
  shows "toString (Path (ups n @ e)) = (if even n then e else ''..'' @ SEP # e)"
proof -
  have e: "e \<noteq> []" "hd e \<noteq> SEP" "last e \<noteq> SEP" "SEP \<notin> set e" "WIN_SEP \<notin> set e"
    using assms(1) by (auto simp: clean_seg_def) (metis hd_in_set, metis last_in_set)
  have "CHR '':'' \<notin> set e"
    using assms(3) by (auto simp: special_char_def)
  then have "\<not> (length (takeWhile is_alpha (ups n @ e)) + 1 \<le> length (ups n @ e)
      \<and> (ups n @ e) ! length (takeWhile is_alpha (ups n @ e)) = CHR '':'' )"
    if "takeWhile is_alpha (ups n @ e) \<noteq> []"
  proof (cases n)
    case 0
    have "e ! k \<noteq> CHR '':''" if "k < length e" for k
      using \<open>CHR '':'' \<notin> set e\<close> that by (metis nth_mem)
    with 0 show ?thesis
      by (auto simp: ups_def Suc_le_eq)
  qed (use that in \<open>simp add: ups_def is_alpha_def\<close>)
  then have sd: "SetDevice \<lparr>device = [], pstr = ups n @ e\<rparr> = \<lparr>device = [], pstr = ups n @ e\<rparr>"
    by (auto simp: SetDevice_def Let_def)
  have "set (ups n) \<subseteq> {CHR ''.'', SEP}"
    by (induction n) (auto simp: ups_def)
  then have sl: "slashed (ups n @ e) = ups n @ e"
    using e by (intro slashed_id) auto
  have abs: "\<not> path_abs (ups n @ e)"
    using e sl by (cases n) (simp_all add: path_abs_def ups_def)
  have lead: "\<not> path_lead (ups n @ e)"
    using e sl by (simp add: path_lead_def)
  have sg: "path_segs (ups n @ e) = (if even n then [e] else [''..'', e])"
    using assms(1,2) abs sl
    by (simp add: path_segs_def segs_ups segs_clean foldl_push_dotdots)
      (simp add: push_seg_def clean_seg_def)
  have "pstr (Path (ups n @ e)) = (if even n then e else ''..'' @ SEP # e)"
    using e abs lead sg by (simp add: Path_def sd NormalizePath_render render_def)
  moreover have "\<not> special_char (CHR ''.'')"
    by (simp add: special_char_def)
  ultimately have "\<forall>c \<in> set (pstr (Path (ups n @ e))). \<not> special_char c"
    using assms(3) by auto
  then have "device (Path (ups n @ e)) = []"
    by (simp add: Path_def sd device_NormalizePath)
  with \<open>pstr (Path (ups n @ e)) = _\<close> show ?thesis by (simp add: toString_def)
qed

theorem up_references_cancel_witness:
  "toString (Path (ups 2 @ ''foo'')) = ''foo'' \<and> ups 2 @ ''foo'' = ''../../foo''"
proof
  show "toString (Path (ups 2 @ ''foo'')) = ''foo''"
    by (subst up_references_cancel)
      (simp_all add: clean_seg_def SEP_def WIN_SEP_def special_char_def strip_tail.simps)
qed (simp add: ups_def SEP_def numeral_2_eq_2)

end
