(* ===== verification/Vfs_Plain.thy ===== *)
theory Vfs_Plain
  imports Vfs_Normal
begin

text \<open>
  Virtual paths whose elements are plain: no up-references, no special characters and nothing that the normalisation changes. Such paths are what they
  look like: building, appending and splitting them only joins and splits the elements.
\<close>

text \<open>An element that stays as it is in a path.\<close>

definition plain_seg :: "string \<Rightarrow> bool" where
  "plain_seg s \<longleftrightarrow> clean_seg s \<and> s \<noteq> ''..'' \<and> (\<forall>c \<in> set s. \<not> special_char c)"

lemma plain_normal: "\<forall>s \<in> set ss. plain_seg s \<Longrightarrow> normal_segs a ss"
  by (cases ss) (auto simp: normal_segs_def plain_seg_def)

lemma plain_join:
  assumes "\<forall>s \<in> set ss. plain_seg s"
  shows "\<forall>c \<in> set (join_path ss). \<not> special_char c"
  using assms by (induction ss rule: join_path.induct) (auto simp: plain_seg_def)

lemma SetDevice_plain: "\<forall>c \<in> set (pstr p). \<not> special_char c \<Longrightarrow> SetDevice p = p"
proof -
  assume a: "\<forall>c \<in> set (pstr p). \<not> special_char c"
  have "pstr p ! n \<noteq> CHR '':''" if "n < length (pstr p)" for n
    using a that by (metis insertI1 nth_mem special_char_def)
  then show ?thesis
    by (auto simp: SetDevice_def Let_def)
qed

text \<open>A path of plain elements is normal.\<close>

lemma NormalizePath_plain:
  assumes "\<forall>s \<in> set ss. plain_seg s" and "ss \<noteq> []"
  shows "NormalizePath \<lparr>device = d, pstr = (if a then SEP # join_path ss else join_path ss)\<rparr>
    = \<lparr>device = d, pstr = (if a then SEP # join_path ss else join_path ss)\<rparr>"
proof -
  let ?t = "if a then SEP # join_path ss else join_path ss"
  have r: "?t = render a False ss"
    using assms(2) by (simp add: render_def)
  have n: "normal_str ?t"
    unfolding normal_str_def r using plain_normal [OF assms(1)] by blast
  have "\<forall>c \<in> set ?t. \<not> special_char c"
    using plain_join [OF assms(1)] by simp
  moreover have "pstr (NormalizePath \<lparr>device = d, pstr = ?t\<rparr>) = ?t"
    using NormalizePath_normal_str [of "\<lparr>device = d, pstr = ?t\<rparr>"] n by simp
  ultimately show ?thesis
    using device_NormalizePath [of "\<lparr>device = d, pstr = ?t\<rparr>"] by (intro vpath.equality) auto
qed

lemma Path_plain:
  assumes "\<forall>s \<in> set ss. plain_seg s" and "ss \<noteq> []"
  shows "Path (join_path ss) = \<lparr>device = [], pstr = join_path ss\<rparr>"
  using NormalizePath_plain [OF assms, of "[]" False] SetDevice_plain [of "\<lparr>device = [], pstr = join_path ss\<rparr>"] plain_join [OF assms(1)]
  by (simp add: Path_def)

lemma join_snoc: "ss \<noteq> [] \<Longrightarrow> join_path (ss @ [s]) = join_path ss @ SEP # s"
  by (induction ss rule: join_path.induct) simp_all

lemma join_last:
  assumes "\<forall>s \<in> set ss. clean_seg s" and "ss \<noteq> []"
  shows "join_path ss \<noteq> []" and "last (join_path ss) \<noteq> SEP" and "hd (join_path ss) \<noteq> SEP"
  using join_path_ends [OF assms(1)] assms(2) by auto

lemma path_div_plain:
  assumes "\<forall>s \<in> set ss. plain_seg s" and "plain_seg s" and "ss \<noteq> []"
  shows "path_div_str \<lparr>device = [], pstr = join_path ss\<rparr> s = Inr \<lparr>device = [], pstr = join_path (ss @ [s])\<rparr>"
proof -
  have all: "\<forall>x \<in> set (ss @ [s]). plain_seg x"
    using assms by auto
  have c: "\<forall>x \<in> set ss. clean_seg x" "clean_seg s"
    using assms by (auto simp: plain_seg_def)
  have s: "Path s = \<lparr>device = [], pstr = s\<rparr>"
    using Path_plain [of "[s]"] assms(2) by simp
  have "rhs_relative \<lparr>device = [], pstr = s\<rparr>"
    using c(2) by (cases s) (auto simp: rhs_relative_def clean_seg_def)
  then show ?thesis
    using join_last [OF c(1) assms(3)] NormalizePath_plain [OF all, of "[]" False] s join_snoc [OF assms(3), of s]
    by (simp add: path_div_str_def path_div_def)
qed

lemma assets_div_plain:
  assumes "\<forall>s \<in> set ss. plain_seg s" and "ss \<noteq> []"
  shows "path_div_str assets (join_path ss) = Inr \<lparr>device = ''assets:'', pstr = SEP # join_path ss\<rparr>"
proof -
  have c: "\<forall>x \<in> set ss. clean_seg x"
    using assms by (auto simp: plain_seg_def)
  show ?thesis
    using Path_plain [OF assms] NormalizePath_plain [OF assms, of "''assets:''" True] join_last [OF c assms(2)]
    by (simp add: path_div_str_def path_div_def assets_def)
qed

lemma getlines_join: "\<forall>s \<in> set ss. clean_seg s \<Longrightarrow> getlines (join_path ss) = ss"
  by (induction ss rule: join_path.induct) (simp_all add: getlines_seg getlines_seg_sep clean_seg_def)

text \<open>The same for absolute paths.\<close>

lemma path_div_absolute:
  assumes "\<forall>s \<in> set ss. plain_seg s" and "plain_seg s" and "ss \<noteq> []"
  shows "path_div_str \<lparr>device = [], pstr = SEP # join_path ss\<rparr> s = Inr \<lparr>device = [], pstr = SEP # join_path (ss @ [s])\<rparr>"
proof -
  have all: "\<forall>x \<in> set (ss @ [s]). plain_seg x"
    using assms by auto
  have c: "\<forall>x \<in> set ss. clean_seg x" "clean_seg s"
    using assms by (auto simp: plain_seg_def)
  have s: "Path s = \<lparr>device = [], pstr = s\<rparr>"
    using Path_plain [of "[s]"] assms(2) by simp
  have "rhs_relative \<lparr>device = [], pstr = s\<rparr>"
    using c(2) by (cases s) (auto simp: rhs_relative_def clean_seg_def)
  then show ?thesis
    using join_last [OF c(1) assms(3)] NormalizePath_plain [OF all, of "[]" True] s join_snoc [OF assms(3), of s]
    by (simp add: path_div_str_def path_div_def)
qed

lemma segs_absolute: "\<forall>s \<in> set ss. plain_seg s \<Longrightarrow> segs (SEP # join_path ss) = ss"
  using segs_join [of ss] by (simp add: plain_seg_def)

end
