(* ===== verification/Scripts.thy ===== *)
theory Scripts
  imports Vfs_Plain Safe_Run
begin

text \<open>
  Scripts: resources found by name (common/file-factories.hpp), script files (common/resources/script-file.cpp), the script component
  (common/components/lua-script.cpp) and the script system (common/lua-system.cpp). The interpreter is a parameter that works on the global table and
  on the tables of the environments; \<open>None\<close> is an exception that nothing catches.
\<close>

subsection \<open>Script files\<close>

record script_file =
  sf_name :: string
  sf_script :: string
  sf_filename :: vpath

text \<open>The content of the file at a path, if there is one that can be read.\<close>

type_synonym file_texts = "vpath \<Rightarrow> string option"

definition sf_Load :: "file_texts \<Rightarrow> vpath \<Rightarrow> script_file \<Rightarrow> script_file option" where
  "sf_Load files p f = (if \<not> path_valid p then None
     else (case files p of None \<Rightarrow> None | Some txt \<Rightarrow> Some (f\<lparr>sf_script := txt, sf_filename := p\<rparr>)))"

text \<open>The factory of a script: the file in the table under its name, or a null pointer; the computation of the name may throw.\<close>

definition ScriptFile_Create ::
    "file_texts \<Rightarrow> vpath \<Rightarrow> (string \<rightharpoonup> script_file) \<Rightarrow> (script_file option \<times> (string \<rightharpoonup> script_file)) option" where
  "ScriptFile_Create files p smap = (case SubpathFrom p ''scripts'' True of
      Inl _ \<Rightarrow> None
    | Inr name \<Rightarrow> (case sf_Load files p \<lparr>sf_name = toString name, sf_script = [], sf_filename = empty_path\<rparr> of
        None \<Rightarrow> Some (None, smap)
      | Some f \<Rightarrow> Some (Some f, smap(sf_name f \<mapsto> f))))"

text \<open>The other factory stores the file under a given name, loaded or not.\<close>

definition ScriptFile_Create_named ::
    "file_texts \<Rightarrow> string \<Rightarrow> vpath \<Rightarrow> (string \<rightharpoonup> script_file) \<Rightarrow> script_file \<times> (string \<rightharpoonup> script_file)" where
  "ScriptFile_Create_named files name p smap =
     (let f0 = \<lparr>sf_name = [], sf_script = [], sf_filename = empty_path\<rparr>;
          f = (if path_empty p then f0 else (case sf_Load files p f0 of None \<Rightarrow> f0 | Some f1 \<Rightarrow> f1))
      in (f, smap(name \<mapsto> f)))"

subsection \<open>Resources by name\<close>

text \<open>The factory that \<open>AddFileFactory\<close> registers for scripts.\<close>

definition script_factory :: "file_texts \<Rightarrow> string \<Rightarrow> (string \<rightharpoonup> script_file) \<Rightarrow> (string \<rightharpoonup> script_file) option" where
  "script_factory files fname smap =
     (let path = Path fname in
      if isAbsolutePath path then map_option snd (ScriptFile_Create files path smap)
      else (case path_div_str assets fname of
          Inl _ \<Rightarrow> None
        | Inr p \<Rightarrow> map_option snd (ScriptFile_Create files p smap)))"

text \<open>The extensions that have a factory; those of other resources do not change the table of scripts.\<close>

definition InvokeFileFactory :: "string set \<Rightarrow> file_texts \<Rightarrow> string \<Rightarrow> (string \<rightharpoonup> script_file) \<Rightarrow> (string \<rightharpoonup> script_file) option" where
  "InvokeFileFactory exts files name smap =
     (let ext = FileExtension (Path name) in
      if ext \<in> exts then (if ext = ''lua'' then script_factory files name smap else Some smap) else None)"

definition GetResource ::
    "string set \<Rightarrow> file_texts \<Rightarrow> string \<Rightarrow> (string \<rightharpoonup> script_file) \<Rightarrow> (script_file option \<times> (string \<rightharpoonup> script_file)) option" where
  "GetResource exts files name smap =
     (if name = [] then Some (None, smap)
      else if smap name = None then map_option (\<lambda>smap1. (smap1 name, smap1)) (InvokeFileFactory exts files name smap)
      else Some (smap name, smap))"

subsection \<open>Entities from files\<close>

text \<open>The entity of a file, if it is there and its text is one; \<open>parse\<close> is the library's.\<close>

definition LoadProtoPack :: "file_texts \<Rightarrow> (string \<Rightarrow> 'e option) \<Rightarrow> vpath \<Rightarrow> 'e option" where
  "LoadProtoPack files parse p = (if \<not> path_valid p then None else case files p of None \<Rightarrow> None | Some txt \<Rightarrow> parse txt)"

text \<open>The entities that are announced, in order.\<close>

definition ProtoLoadEntity :: "file_texts \<Rightarrow> (string \<Rightarrow> 'e option) \<Rightarrow> vpath \<Rightarrow> 'e list" where
  "ProtoLoadEntity files parse p = (case LoadProtoPack files parse p of None \<Rightarrow> [] | Some e \<Rightarrow> [e])"

fun load_entities :: "file_texts \<Rightarrow> (string \<Rightarrow> 'e option) \<Rightarrow> string list \<Rightarrow> 'e list \<Rightarrow> 'e list \<times> path_error option" where
  "load_entities files parse [] es = (es, None)"
| "load_entities files parse (f # fs) es = (case path_div_str assets f of
     Inl err \<Rightarrow> (es, Some err)
   | Inr p \<Rightarrow> load_entities files parse fs (es @ ProtoLoadEntity files parse p))"

text \<open>The entities announced, and the exception that ended the loading.\<close>

definition ProtoLoad :: "file_texts \<Rightarrow> (string \<Rightarrow> string list option) \<Rightarrow> (string \<Rightarrow> 'e option) \<Rightarrow> string \<Rightarrow> 'e list \<times> path_error option" where
  "ProtoLoad files parse_list parse name = (case path_div_str assets name of
      Inl err \<Rightarrow> ([], Some err)
    | Inr p \<Rightarrow> if \<not> path_valid p then ([], None)
        else (case files p of
            None \<Rightarrow> ([], None)
          | Some txt \<Rightarrow> (case parse_list txt of None \<Rightarrow> ([], None) | Some fs \<Rightarrow> load_entities files parse fs [])))"

subsection \<open>The interpreter\<close>

text \<open>
  Values that are not nil, in the global table and in the own tables of environments. An environment falls back to the global table.
\<close>

record 'v lua_state =
  ls_globals :: "string \<rightharpoonup> 'v"
  ls_tables :: "nat \<rightharpoonup> (string \<rightharpoonup> 'v)"
  ls_next :: nat

definition new_environment :: "'v lua_state \<Rightarrow> nat \<times> 'v lua_state" where
  "new_environment L = (ls_next L, L\<lparr>ls_tables := (ls_tables L)(ls_next L \<mapsto> Map.empty), ls_next := ls_next L + 1\<rparr>)"

definition env_look :: "'v lua_state \<Rightarrow> nat \<Rightarrow> string \<rightharpoonup> 'v" where
  "env_look L e name = (case ls_tables L e of
      None \<Rightarrow> ls_globals L name
    | Some t \<Rightarrow> (case t name of None \<Rightarrow> ls_globals L name | Some v \<Rightarrow> Some v))"

text \<open>Running a text in an environment, its errors logged, and calling a value.\<close>

record ('v, 'a) lua_lib =
  ll_run :: "string \<Rightarrow> nat \<Rightarrow> 'v lua_state \<Rightarrow> 'v lua_state"
  ll_call :: "'v \<Rightarrow> 'a list \<Rightarrow> 'v lua_state \<Rightarrow> 'v lua_state"

subsection \<open>Script components\<close>

record lua_script =
  lsc_name :: string
  lsc_script :: "script_file option"
  lsc_environment :: "nat option"

definition new_lua_script :: lua_script where
  "new_lua_script = \<lparr>lsc_name = [], lsc_script = None, lsc_environment = None\<rparr>"

definition SetupEnvironment :: "lua_script \<Rightarrow> 'v lua_state \<Rightarrow> lua_script \<times> 'v lua_state" where
  "SetupEnvironment s L = (case new_environment L of (e, L1) \<Rightarrow> (s\<lparr>lsc_environment := Some e\<rparr>, L1))"

text \<open>Without an interpreter or a name nothing is run; a name without a file is a null pointer.\<close>

definition ReloadScript :: "('v, 'a) lua_lib \<Rightarrow> lua_script \<Rightarrow> 'v lua_state \<Rightarrow> 'v lua_state option" where
  "ReloadScript lib s L = (case lsc_environment s of
      None \<Rightarrow> Some L
    | Some e \<Rightarrow> if lsc_name s = [] then Some L
        else (case lsc_script s of None \<Rightarrow> None | Some f \<Rightarrow> Some (ll_run lib (sf_script f) e L)))"

definition LuaScript_Out :: "lua_script \<Rightarrow> string option" where
  "LuaScript_Out s = Some (lsc_name s)"

record 'v script_world =
  sw_lua :: "'v lua_state"
  sw_files :: "string \<rightharpoonup> script_file"
  sw_objects :: "nat \<rightharpoonup> lua_script"
  sw_next :: nat
  sw_map :: "(eid, nat) omap"
  sw_scripts :: "lua_script list"

definition LuaScript_In ::
    "string set \<Rightarrow> file_texts \<Rightarrow> ('v, 'a) lua_lib \<Rightarrow> string option \<Rightarrow> lua_script \<Rightarrow> 'v script_world \<Rightarrow> (lua_script \<times> 'v script_world) option" where
  "LuaScript_In exts files lib c s w = (case c of
      None \<Rightarrow> Some (s, w)
    | Some name \<Rightarrow> Option.bind (GetResource exts files name (sw_files w)) (\<lambda>(f, fs).
        if f = None then None
        else (let s1 = s\<lparr>lsc_name := name, lsc_script := f\<rparr> in
          map_option (\<lambda>L. (s1, w\<lparr>sw_files := fs, sw_lua := L\<rparr>)) (ReloadScript lib s1 (sw_lua w)))))"

subsection \<open>The script system\<close>

definition add_script ::
    "string set \<Rightarrow> file_texts \<Rightarrow> ('v, 'a) lua_lib \<Rightarrow> eid \<Rightarrow> string option \<Rightarrow> 'v script_world \<Rightarrow> 'v script_world option" where
  "add_script exts files lib i c w = (case SetupEnvironment new_lua_script (sw_lua w) of (s, L) \<Rightarrow>
     map_option (\<lambda>(s1, w1). w1\<lparr>sw_objects := (sw_objects w1)(sw_next w1 \<mapsto> s1), sw_next := sw_next w1 + 1, sw_map := om_put i (sw_next w1) (sw_map w1)\<rparr>)
       (LuaScript_In exts files lib c s (w\<lparr>sw_lua := L\<rparr>)))"

definition lua_On_EntityCreated ::
    "string set \<Rightarrow> file_texts \<Rightarrow> ('v, 'a) lua_lib \<Rightarrow> eid \<Rightarrow> string option list \<Rightarrow> 'v script_world \<Rightarrow> 'v script_world option" where
  "lua_On_EntityCreated exts files lib i cs w = each (add_script exts files lib i) cs w"

definition lua_On_EntityDestroyed :: "eid \<Rightarrow> 'v script_world \<Rightarrow> 'v script_world" where
  "lua_On_EntityDestroyed i w = w\<lparr>sw_map := om_erase i (sw_map w)\<rparr>"

text \<open>A script from a file, copied into the list; both have the same environment.\<close>

definition LoadFile :: "file_texts \<Rightarrow> ('v, 'a) lua_lib \<Rightarrow> vpath \<Rightarrow> 'v script_world \<Rightarrow> (lua_script \<times> 'v script_world) option" where
  "LoadFile files lib p w = Option.bind (ScriptFile_Create files p (sw_files w)) (\<lambda>(f, fs). case f of
      None \<Rightarrow> None
    | Some sf \<Rightarrow> (case SetupEnvironment \<lparr>lsc_name = sf_name sf, lsc_script = Some sf, lsc_environment = None\<rparr> (sw_lua w) of (s, L) \<Rightarrow>
        map_option (\<lambda>L1. (s, w\<lparr>sw_files := fs, sw_lua := L1, sw_scripts := sw_scripts w @ [s]\<rparr>)) (ReloadScript lib s L)))"

text \<open>The function of a script with a name.\<close>

definition script_function :: "'v lua_state \<Rightarrow> string \<Rightarrow> lua_script \<Rightarrow> 'v option" where
  "script_function L fn s = (if lsc_name s = [] then None else (case lsc_environment s of None \<Rightarrow> None | Some e \<Rightarrow> env_look L e fn))"

definition entity_scripts :: "'v script_world \<Rightarrow> lua_script list" where
  "entity_scripts w = List.map_filter (\<lambda>(i, a). sw_objects w a) (sw_map w)"

definition GetAllFunctions :: "string \<Rightarrow> 'v script_world \<Rightarrow> 'v list" where
  "GetAllFunctions fn w =
     (case ls_globals (sw_lua w) fn of None \<Rightarrow> [] | Some v \<Rightarrow> [v])
     @ List.map_filter (script_function (sw_lua w) fn) (entity_scripts w)
     @ List.map_filter (script_function (sw_lua w) fn) (sw_scripts w)"

definition CallFunctions :: "('v, 'a) lua_lib \<Rightarrow> string \<Rightarrow> 'a list \<Rightarrow> 'v script_world \<Rightarrow> 'v script_world" where
  "CallFunctions lib fn args w = w\<lparr>sw_lua := fold (\<lambda>f. ll_call lib f args) (GetAllFunctions fn w) (sw_lua w)\<rparr>"

text \<open>Each update calls the function of the scripts of entities, looked up when its turn comes.\<close>

definition lua_Update :: "('v, 'a) lua_lib \<Rightarrow> 'a \<Rightarrow> 'v script_world \<Rightarrow> 'v script_world" where
  "lua_Update lib delta w = w\<lparr>sw_lua := fold (\<lambda>s L. case script_function L ''onUpdate'' s of None \<Rightarrow> L | Some f \<Rightarrow> ll_call lib f [delta] L)
     (entity_scripts w) (sw_lua w)\<rparr>"

definition lua_On_ChatCommandEvent :: "('v, 'a) lua_lib \<Rightarrow> 'a \<Rightarrow> 'a \<Rightarrow> 'v script_world \<Rightarrow> 'v script_world" where
  "lua_On_ChatCommandEvent lib command args = CallFunctions lib ''onChatCommand'' [command, args]"

definition HandlePlayerJoin :: "('v, 'a) lua_lib \<Rightarrow> 'a \<Rightarrow> 'a \<Rightarrow> 'v script_world \<Rightarrow> 'v script_world" where
  "HandlePlayerJoin lib ip who = CallFunctions lib ''onPlayerJoin'' [ip, who]"

definition HandlePlayerLeave :: "('v, 'a) lua_lib \<Rightarrow> 'a \<Rightarrow> 'v script_world \<Rightarrow> 'v script_world" where
  "HandlePlayerLeave lib who = CallFunctions lib ''onPlayerLeave'' [who]"

definition HandlePlayerInteraction :: "('v, 'a) lua_lib \<Rightarrow> 'a \<Rightarrow> 'a \<Rightarrow> 'a \<Rightarrow> 'v script_world \<Rightarrow> 'v script_world" where
  "HandlePlayerInteraction lib who entity interaction = CallFunctions lib ''onPlayerInteraction'' [who, entity, interaction]"

definition HandleEntitySpawning :: "('v, 'a) lua_lib \<Rightarrow> 'a \<Rightarrow> 'v script_world \<Rightarrow> 'v script_world" where
  "HandleEntitySpawning lib entity = CallFunctions lib ''onEntitySpawning'' [entity]"

definition Teleport :: "('v, 'a) lua_lib \<Rightarrow> 'a \<Rightarrow> 'a \<Rightarrow> 'a \<Rightarrow> 'a \<Rightarrow> 'v script_world \<Rightarrow> 'v script_world" where
  "Teleport lib who x y z = CallFunctions lib ''onTeleport'' [who, x, y, z]"

definition Kick :: "('v, 'a) lua_lib \<Rightarrow> 'a \<Rightarrow> 'v script_world \<Rightarrow> 'v script_world" where
  "Kick lib who = CallFunctions lib ''onKick'' [who]"

text \<open>The loader for required packages: the text that is loaded, if there is one.\<close>

definition load_package :: "file_texts \<Rightarrow> string \<Rightarrow> path_error + string option" where
  "load_package files package =
     (let path = (if CHR ''.'' \<in> set package then package else package @ ''.lua'') in
      (case path_div_str scripts path of Inl e \<Rightarrow> Inl e | Inr p \<Rightarrow> Inr (files p)))"

text \<open>\<open>print\<close>: the arguments as text, each after a blank unless nothing was written before it.\<close>

definition print_line :: "string list \<Rightarrow> string" where
  "print_line args = fold (\<lambda>s message. if message \<noteq> [] then message @ '' '' @ s else message @ s) args []"

subsection \<open>Names of scripts\<close>

lemma subpath_found:
  assumes "\<forall>s \<in> set (ps @ ss). plain_seg s" and "ps \<noteq> []"
  shows "subpath_from_loop x i True False ss \<lparr>device = [], pstr = join_path ps\<rparr> = Inr \<lparr>device = [], pstr = join_path (ps @ ss)\<rparr>"
  using assms
proof (induction ss arbitrary: ps)
  case (Cons s ss)
  have "path_div_str \<lparr>device = [], pstr = join_path ps\<rparr> s = Inr \<lparr>device = [], pstr = join_path (ps @ [s])\<rparr>"
    using Cons.prems by (intro path_div_plain) auto
  then show ?case
    using Cons.IH [of "ps @ [s]"] Cons.prems by simp
qed simp

lemma scripts_plain: "plain_seg ''scripts''"
  by (simp add: plain_seg_def clean_seg_def SEP_def WIN_SEP_def special_char_def strip_tail.simps)

lemma SubpathFrom_scripts:
  assumes "\<forall>s \<in> set ss. plain_seg s"
  shows "SubpathFrom \<lparr>device = d, pstr = SEP # join_path (''scripts'' # ss)\<rparr> ''scripts'' True
    = Inr \<lparr>device = [], pstr = join_path (''scripts'' # ss)\<rparr>"
proof -
  have all: "\<forall>s \<in> set ([''scripts''] @ ss). plain_seg s"
    using assms scripts_plain by simp
  have "getlines (join_path (''scripts'' # ss)) = ''scripts'' # ss"
    by (rule getlines_join) (use all in \<open>auto simp: plain_seg_def\<close>)
  moreover have "path_assign ''scripts'' empty_path = \<lparr>device = [], pstr = ''scripts''\<rparr>"
    using Path_plain [of "[''scripts'']"] scripts_plain by (simp add: path_assign_def Path_def empty_path_def)
  ultimately show ?thesis
    using subpath_found [OF all, of "''scripts''" True] by (simp add: SubpathFrom_def)
qed

lemma subpath_missing: "x \<notin> set ss \<Longrightarrow> subpath_from_loop x i False True ss r = Inr r"
  by (induction ss) auto

lemma join_no_special: "c \<in> set (join_path ss) \<Longrightarrow> c = SEP \<or> (\<exists>s \<in> set ss. c \<in> set s)"
  by (induction ss rule: join_path.induct) auto

text \<open>C33: A script in the directory of scripts is found under its name: the first request reads its file and remembers it under that name,
  and every later request gives the same script and reads nothing.\<close>

theorem script_found_by_name:
  assumes "\<forall>s \<in> set ss. plain_seg s" and "name = join_path (''scripts'' # ss)" and "FileExtension (Path name) = ''lua''" and "''lua'' \<in> exts"
    and "files \<lparr>device = ''assets:'', pstr = SEP # name\<rparr> = Some txt" and "smap name = None"
  shows "\<exists>f. GetResource exts files name smap = Some (Some f, smap(name \<mapsto> f)) \<and> sf_name f = name \<and> sf_script f = txt
    \<and> (\<forall>exts1 files1. GetResource exts1 files1 name (smap(name \<mapsto> f)) = Some (Some f, smap(name \<mapsto> f)))"
proof -
  let ?p = "\<lparr>device = ''assets:'', pstr = SEP # name\<rparr>"
  let ?f = "\<lparr>sf_name = name, sf_script = txt, sf_filename = ?p\<rparr>"
  have all: "\<forall>s \<in> set (''scripts'' # ss). plain_seg s"
    using assms(1) scripts_plain by simp
  have name: "name \<noteq> []" "hd name \<noteq> SEP"
    using join_last [of "''scripts'' # ss"] all assms(2) by (auto simp: plain_seg_def)
  have "\<not> isAbsolutePath (Path name)"
    using Path_plain [OF all] name assms(2) by (simp add: isAbsolutePath_def)
  moreover have "path_div_str assets name = Inr ?p"
    using assets_div_plain [OF all] assms(2) by simp
  moreover have "SubpathFrom ?p ''scripts'' True = Inr \<lparr>device = [], pstr = name\<rparr>"
    using SubpathFrom_scripts [OF assms(1)] assms(2) by simp
  ultimately have "script_factory files name smap = Some (smap(name \<mapsto> ?f))"
    using assms(5) by (simp add: script_factory_def ScriptFile_Create_def sf_Load_def path_valid_def toString_def)
  then have "GetResource exts files name smap = Some (Some ?f, smap(name \<mapsto> ?f))"
    using assms(3,4,6) name(1) by (simp add: GetResource_def InvokeFileFactory_def)
  then show ?thesis
    using name(1) by (intro exI [of _ ?f]) (simp add: GetResource_def)
qed

definition hello_files :: file_texts where
  "hello_files = (\<lambda>p. if p = \<lparr>device = ''assets:'', pstr = ''/scripts/a.lua''\<rparr> \<or> p = \<lparr>device = ''assets:'', pstr = ''/a.lua''\<rparr> then Some ''x = 1'' else None)"

lemma a_lua: "plain_seg ''a.lua''" "FileExtension (Path ''a.lua'') = ''lua''" "FileExtension (Path (join_path [''scripts'', ''a.lua''])) = ''lua''"
proof -
  show a: "plain_seg ''a.lua''"
    by (simp add: plain_seg_def clean_seg_def SEP_def WIN_SEP_def special_char_def strip_tail.simps)
  show "FileExtension (Path ''a.lua'') = ''lua''"
    using Path_plain [of "[''a.lua'']"] a by (simp add: FileExtension_def FileName_def after_last_def SEP_def)
  show "FileExtension (Path (join_path [''scripts'', ''a.lua''])) = ''lua''"
    using Path_plain [of "[''scripts'', ''a.lua'']"] a scripts_plain by (simp add: FileExtension_def FileName_def after_last_def SEP_def)
qed

lemma script_found_by_name_witness:
  "\<exists>f. GetResource {''lua''} hello_files ''scripts/a.lua'' Map.empty = Some (Some f, [''scripts/a.lua'' \<mapsto> f]) \<and> sf_script f = ''x = 1''"
proof -
  have n: "''scripts/a.lua'' = join_path (''scripts'' # [''a.lua''])"
    by (simp add: SEP_def)
  have f: "hello_files \<lparr>device = ''assets:'', pstr = SEP # ''scripts/a.lua''\<rparr> = Some ''x = 1''"
    by (simp add: hello_files_def SEP_def)
  show ?thesis
    using script_found_by_name [where name = "''scripts/a.lua''" and files = hello_files and exts = "{''lua''}" and smap = Map.empty, OF _ n _ _ f] a_lua
    by (auto simp: SEP_def)
qed

text \<open>A script that is not below a directory of that name is loaded, but under the empty name, so it is not found: the entity that
  names it ends the program by an exception.\<close>

theorem script_elsewhere_lost:
  assumes "\<forall>s \<in> set ss. plain_seg s" and "ss \<noteq> []" and "''scripts'' \<notin> set ss" and "name = join_path ss" and "FileExtension (Path name) = ''lua''"
    and "''lua'' \<in> exts" and "files \<lparr>device = ''assets:'', pstr = SEP # name\<rparr> = Some txt" and "sw_files w name = None"
  shows "(\<exists>f. GetResource exts files name (sw_files w) = Some (None, (sw_files w)([] \<mapsto> f)) \<and> sf_script f = txt)
    \<and> lua_On_EntityCreated exts files lib i [Some name] w = None"
proof -
  let ?p = "\<lparr>device = ''assets:'', pstr = SEP # name\<rparr>"
  let ?f = "\<lparr>sf_name = [], sf_script = txt, sf_filename = ?p\<rparr>"
  have c: "\<forall>s \<in> set ss. clean_seg s"
    using assms(1) by (simp add: plain_seg_def)
  have name: "name \<noteq> []" "hd name \<noteq> SEP"
    using join_last [OF c assms(2)] assms(4) by auto
  have "\<not> isAbsolutePath (Path name)"
    using Path_plain [OF assms(1,2)] name assms(4) by (simp add: isAbsolutePath_def)
  moreover have "path_div_str assets name = Inr ?p"
    using assets_div_plain [OF assms(1,2)] assms(4) by simp
  moreover have "SubpathFrom ?p ''scripts'' True = Inr empty_path"
    using subpath_missing [of "''scripts''" "[] # ss"] assms(3,4) getlines_join [OF c] by (simp add: SubpathFrom_def)
  ultimately have "script_factory files name (sw_files w) = Some ((sw_files w)([] \<mapsto> ?f))"
    using assms(7) by (simp add: script_factory_def ScriptFile_Create_def sf_Load_def path_valid_def toString_def empty_path_def)
  then have g: "GetResource exts files name (sw_files w) = Some (None, (sw_files w)([] \<mapsto> ?f))"
    using assms(5,6,8) name(1) by (simp add: GetResource_def InvokeFileFactory_def)
  then have "lua_On_EntityCreated exts files lib i [Some name] w = None"
    by (simp add: lua_On_EntityCreated_def add_script_def LuaScript_In_def SetupEnvironment_def new_environment_def)
  then show ?thesis
    using g by (intro conjI exI [of _ ?f]) simp_all
qed

definition no_scripts :: "nat script_world" where
  "no_scripts = \<lparr>sw_lua = \<lparr>ls_globals = Map.empty, ls_tables = Map.empty, ls_next = 0\<rparr>, sw_files = Map.empty, sw_objects = Map.empty, sw_next = 0,
     sw_map = [], sw_scripts = []\<rparr>"

definition idle_lib :: "(nat, nat) lua_lib" where
  "idle_lib = \<lparr>ll_run = (\<lambda>_ _ L. L), ll_call = (\<lambda>_ _ L. L)\<rparr>"

lemma script_elsewhere_lost_witness: "lua_On_EntityCreated {''lua''} hello_files idle_lib 5 [Some ''a.lua''] no_scripts = None"
proof -
  have f: "hello_files \<lparr>device = ''assets:'', pstr = SEP # ''a.lua''\<rparr> = Some ''x = 1''"
    by (simp add: hello_files_def SEP_def)
  show ?thesis
    using script_elsewhere_lost [where name = "''a.lua''" and ss = "[''a.lua'']" and files = hello_files and exts = "{''lua''}" and w = no_scripts
        and lib = idle_lib and i = 5, OF _ _ _ _ _ _ f] a_lua
    by (simp add: no_scripts_def)
qed

subsection \<open>Calling all functions of a name\<close>

lemma fold_replicate: "fold f (replicate n x) s = ((f x) ^^ n) s"
  by (induction n arbitrary: s) (simp_all add: funpow_swap1)

lemma map_filter_constant: "(\<And>x. x \<in> set xs \<Longrightarrow> f x = (if P x then Some v else None)) \<Longrightarrow> List.map_filter f xs = replicate (length (filter P xs)) v"
  by (induction xs) (simp_all add: List.map_filter_simps)

text \<open>A handler in the global table is called once for itself and once more for every script that has a name and no handler of its own,
  because the environment of a script falls back to the global table.\<close>

theorem global_handler_repeats:
  assumes "ls_globals (sw_lua w) fn = Some v"
    and "\<forall>s \<in> set (entity_scripts w @ sw_scripts w). lsc_name s \<noteq> []
      \<longrightarrow> (\<exists>e t. lsc_environment s = Some e \<and> ls_tables (sw_lua w) e = Some t \<and> t fn = None)"
  shows "CallFunctions lib fn args w
    = w\<lparr>sw_lua := ((ll_call lib v args) ^^ Suc (length (filter (\<lambda>s. lsc_name s \<noteq> []) (entity_scripts w @ sw_scripts w)))) (sw_lua w)\<rparr>"
proof -
  let ?named = "\<lambda>s. lsc_name s \<noteq> []"
  have f: "script_function (sw_lua w) fn s = (if ?named s then Some v else None)" if "s \<in> set (entity_scripts w @ sw_scripts w)" for s
    using assms that by (auto simp: script_function_def env_look_def)
  have "List.map_filter (script_function (sw_lua w) fn) xs = replicate (length (filter ?named xs)) v"
    if "set xs \<subseteq> set (entity_scripts w @ sw_scripts w)" for xs
    by (rule map_filter_constant) (use f that in auto)
  then have "GetAllFunctions fn w = replicate (Suc (length (filter ?named (entity_scripts w @ sw_scripts w)))) v"
    using assms(1) by (simp add: GetAllFunctions_def replicate_add)
  then show ?thesis
    by (simp only: CallFunctions_def fold_replicate)
qed

definition two_scripts :: "nat script_world" where
  "two_scripts = no_scripts\<lparr>sw_lua := \<lparr>ls_globals = [''onChatCommand'' \<mapsto> 7], ls_tables = [0 \<mapsto> Map.empty, 1 \<mapsto> Map.empty], ls_next = 2\<rparr>,
     sw_scripts := [\<lparr>lsc_name = ''scripts/a.lua'', lsc_script = None, lsc_environment = Some 0\<rparr>,
       \<lparr>lsc_name = ''scripts/b.lua'', lsc_script = None, lsc_environment = Some 1\<rparr>]\<rparr>"

lemma global_handler_repeats_witness:
  "ls_next (sw_lua (lua_On_ChatCommandEvent \<lparr>ll_run = (\<lambda>_ _ L. L), ll_call = (\<lambda>_ _ L. L\<lparr>ls_next := ls_next L + 1\<rparr>)\<rparr> (0 :: nat) 0 two_scripts)) = 5"
  unfolding lua_On_ChatCommandEvent_def
  by (subst global_handler_repeats [where v = 7])
    (simp_all add: two_scripts_def no_scripts_def entity_scripts_def List.map_filter_simps numeral_eq_Suc)

end
