(* ===== verification/Game_Frame.thy ===== *)
theory Game_Frame
  imports Render_Draws Window
begin

text \<open>
  The game around its systems: the manipulator that places entities (client/manipulators/placement.cpp), the screens of virtual computers, the clocks
  and the mouse of a frame (client/game.cpp), and the command line, console commands and chat commands of the client (client/main.cpp).
  Floating point numbers are rationals or real numbers. The result \<open>None\<close> is a null pointer or a direction that is not a number.
\<close>

subsection \<open>Placing entities\<close>

definition MANIPULATOR :: eid where "MANIPULATOR = 1"

record placement =
  pm_mesh :: "nat option"
  pm_max_distance :: real
  pm_next_entity :: eid

definition new_placement :: placement where
  "new_placement = \<lparr>pm_mesh = None, pm_max_distance = 25, pm_next_entity = 20000\<rparr>"

definition SetMaxDistance :: "real \<Rightarrow> placement \<Rightarrow> placement" where
  "SetMaxDistance d p = p\<lparr>pm_max_distance := d\<rparr>"

definition on_manipulator :: "(renderable \<Rightarrow> renderable) \<Rightarrow> render_world \<Rightarrow> render_world" where
  "on_manipulator f w = (case map_of (rw_renderables w) MANIPULATOR of
      None \<Rightarrow> w | Some rd \<Rightarrow> w\<lparr>rw_renderables := om_put MANIPULATOR (f rd) (rw_renderables w)\<rparr>)"

definition pm_SetMesh :: "nat option \<Rightarrow> placement \<times> render_world \<Rightarrow> placement \<times> render_world" where
  "pm_SetMesh m pw = (case pw of (p, w) \<Rightarrow>
     if map_of (rw_renderables w) MANIPULATOR = None then (p, w)
     else (p\<lparr>pm_mesh := m\<rparr>, on_manipulator (\<lambda>rd. rd\<lparr>rd_mesh := m\<rparr>) w))"

text \<open>The mesh of a name, after the factory of its extension was tried.\<close>

definition pm_SetMesh_name :: "(string \<Rightarrow> nat option) \<Rightarrow> string \<Rightarrow> placement \<times> render_world \<Rightarrow> placement \<times> render_world" where
  "pm_SetMesh_name meshes name = pm_SetMesh (meshes name)"

definition ClearMesh :: "placement \<times> render_world \<Rightarrow> placement \<times> render_world" where
  "ClearMesh = pm_SetMesh None"

definition v_length :: "real vec3 \<Rightarrow> real" where
  "v_length v = sqrt (vx v * vx v + vy v * vy v + vz v * vz v)"

definition SetRayIntersectionPoint :: "real vec3 \<Rightarrow> real vec3 \<Rightarrow> placement \<Rightarrow> render_world \<Rightarrow> render_world option" where
  "SetRayIntersectionPoint start intersection p w =
     (if map_of (rw_renderables w) MANIPULATOR = None then None
      else let distance = v_length (v_minus start intersection); way = v_minus intersection start in
        if v_length way = 0 then None
        else let direction = v_scale way (1 / v_length way) in
          Some (on_manipulator (\<lambda>rd. rd\<lparr>rd_translation := v_plus start (v_scale direction (min distance (pm_max_distance p)))\<rparr>) w))"

text \<open>The event of the placed entity: its number, its renderable and its position.\<close>

definition PlaceEntityInWorld ::
    "real vec3 \<Rightarrow> placement \<times> render_world \<Rightarrow> ((eid \<times> p_renderable \<times> real p_position) option \<times> placement \<times> render_world) option" where
  "PlaceEntityInWorld pos pw = (case pw of (p, w) \<Rightarrow> (case pm_mesh p of
      None \<Rightarrow> Some (None, p, w)
    | Some m \<Rightarrow> (case rw_files w m of
        None \<Rightarrow> None
      | Some mf \<Rightarrow> Some (Some (pm_next_entity p, Renderable_Out (new_renderable\<lparr>rd_mesh_name := mf_name mf\<rparr>), Position_Out pos),
          ClearMesh (p\<lparr>pm_next_entity := pm_next_entity p + 1\<rparr>, w)))))"

definition ga_On_MouseClick ::
    "mouse_btn \<Rightarrow> real vec3 \<Rightarrow> placement \<times> render_world \<Rightarrow> ((eid \<times> p_renderable \<times> real p_position) option \<times> placement \<times> render_world) option" where
  "ga_On_MouseClick button pos pw = (if button = LEFT then PlaceEntityInWorld pos pw else Some (None, pw))"

subsection \<open>Screens of virtual computers\<close>

text \<open>
  The device with the number 5 of each computer, which may be null, the textures of the screens, and the textures that were filled in a frame.
\<close>

record screens =
  sn_computers :: "(eid \<times> nat option) list"
  sn_textures :: "nat \<rightharpoonup> nat option"
  sn_next_texture :: nat
  sn_filled :: "nat list"

definition drawable_item :: "render_world \<Rightarrow> eid \<Rightarrow> nat option" where
  "drawable_item w i = (case map_of (rw_renderables w) i of
      None \<Rightarrow> None
    | Some rd \<Rightarrow> (case rd_item rd of
        None \<Rightarrow> None
      | Some a \<Rightarrow> (case rw_items w a of None \<Rightarrow> None | Some it \<Rightarrow> if ri_groups it = [] then None else Some a)))"

definition attach_screen :: "eid \<Rightarrow> nat \<Rightarrow> nat \<Rightarrow> render_world \<Rightarrow> render_world" where
  "attach_screen i t a w = (case Material_Create (to_string (unat i) @ ''_screen'') (rw_graphics w) of (m, gf) \<Rightarrow>
     w\<lparr>rw_graphics := gf\<lparr>gf_materials := (gf_materials gf)(m := map_option (AddTexture t) (gf_materials gf m))\<rparr>,
       rw_items := (rw_items w)(a := map_option (\<lambda>it. it\<lparr>ri_groups := (ri_groups it)[0 := (ri_groups it ! 0)\<lparr>vg_material := Some m\<rparr>]\<rparr>) (rw_items w a))\<rparr>)"

definition update_screen :: "eid \<times> nat option \<Rightarrow> screens \<times> render_world \<Rightarrow> (screens \<times> render_world) option" where
  "update_screen c sw = (case (c, sw) of ((i, dev), (sn, w)) \<Rightarrow>
     (case dev of
        None \<Rightarrow> None
      | Some s \<Rightarrow> (case sn_textures sn s of
          None \<Rightarrow> None
        | Some (Some t) \<Rightarrow> Some (sn\<lparr>sn_filled := sn_filled sn @ [t]\<rparr>, w)
        | Some None \<Rightarrow> (case drawable_item w i of
            None \<Rightarrow> Some (sn, w)
          | Some a \<Rightarrow> let t = sn_next_texture sn in
              Some (sn\<lparr>sn_textures := (sn_textures sn)(s \<mapsto> Some t), sn_next_texture := t + 1, sn_filled := sn_filled sn @ [t]\<rparr>,
                attach_screen i t a w)))))"

definition UpdateVComputerScreenTextures :: "screens \<times> render_world \<Rightarrow> (screens \<times> render_world) option" where
  "UpdateVComputerScreenTextures sw = each update_screen (sn_computers (fst sw)) sw"

subsection \<open>Clocks\<close>

definition GetElapsedTime :: "rat \<Rightarrow> rat \<Rightarrow> rat \<times> rat" where
  "GetElapsedTime new_time last_time = (new_time - last_time, new_time)"

record frame_metrics =
  tf_outside :: rat
  tf_state_queue :: rat
  tf_vcomputer :: rat
  tf_sound_system :: rat
  tf_render_system :: rat
  tf_lua_system :: rat
  tf_other :: rat
  tf_total :: rat

text \<open>The readings of the clock in a frame: at its start, and after each of its parts.\<close>

record clock_readings =
  cr_start :: rat
  cr_state_queue :: rat
  cr_vcomputer :: rat
  cr_sound_system :: rat
  cr_render_system :: rat
  cr_lua_system :: rat
  cr_end :: rat

definition measure_frame :: "clock_readings \<Rightarrow> rat \<Rightarrow> frame_metrics \<times> rat" where
  "measure_frame c last_time =
     (let (outside, t0) = GetElapsedTime (cr_start c) last_time; (state_queue, t1) = GetElapsedTime (cr_state_queue c) t0;
          (vcomputer, t2) = GetElapsedTime (cr_vcomputer c) t1; (sound, t3) = GetElapsedTime (cr_sound_system c) t2;
          (render, t4) = GetElapsedTime (cr_render_system c) t3; (lua, t5) = GetElapsedTime (cr_lua_system c) t4;
          (other, t6) = GetElapsedTime (cr_end c) t5
      in (\<lparr>tf_outside = outside, tf_state_queue = state_queue, tf_vcomputer = vcomputer, tf_sound_system = sound, tf_render_system = render,
            tf_lua_system = lua, tf_other = other, tf_total = outside + state_queue + vcomputer + sound + render + lua + other\<rparr>, t6))"

record frame_counter =
  fc_frames :: nat
  fc_deltas :: rat
  fc_fps :: nat
  fc_average :: rat

definition count_frame :: "rat \<Rightarrow> frame_counter \<Rightarrow> frame_counter" where
  "count_frame delta fc =
     (let fc1 = fc\<lparr>fc_deltas := fc_deltas fc + delta, fc_frames := fc_frames fc + 1\<rparr> in
      if 1 \<le> fc_deltas fc1
      then \<lparr>fc_frames = 0, fc_deltas = 0, fc_fps = fc_frames fc1, fc_average = fc_deltas fc1 / of_nat (fc_frames fc1)\<rparr>
      else fc1)"

subsection \<open>The mouse\<close>

text \<open>
  The point of the window that the ray goes through, if there is a camera, whether the placement is moved, and the window; the variables start
  without a value.
\<close>

definition frame_mouse :: "rat \<times> rat \<Rightarrow> fps_controller option \<Rightarrow> os \<Rightarrow> (rat \<times> rat) option \<times> bool \<times> os" where
  "frame_mouse garbage camera s = (case camera of
      None \<Rightarrow> (None, False, s)
    | Some c \<Rightarrow>
        if mouse_look c then (Some (of_int (os_client_width s) / 2, of_int (os_client_height s) / 2), True, EnableMouseLock s)
        else let s1 = DisableMouseLock s in (Some (GetMousePosition garbage s1), False, s1))"

subsection \<open>The client\<close>

datatype start_level = Level_info | Level_debug | Level_trace

definition ParseLogLevel :: "string list \<Rightarrow> start_level" where
  "ParseLogLevel args = fold (\<lambda>a level. if a = ''-v'' then Level_debug else if a = ''-vv'' then Level_trace else level) args Level_info"

text \<open>The ratio as a fraction of thousandths, reduced; \<open>std::round\<close> of a number that is not negative. A number too large for \<open>int\<close> is \<open>None\<close>.\<close>

definition round_up :: "rat \<Rightarrow> nat" where
  "round_up x = nat \<lfloor>x + 1 / 2\<rfloor>"

definition thousandths :: "nat \<Rightarrow> nat \<Rightarrow> nat \<times> nat" where
  "thousandths whole fraction = (let g = gcd fraction 1000 in (whole * (1000 div g) + fraction div g, 1000 div g))"

definition aspect_fraction :: "nat \<Rightarrow> nat \<Rightarrow> nat \<times> nat" where
  "aspect_fraction w h =
     (let ratio = of_nat w / of_nat h :: rat; whole = nat \<lfloor>ratio\<rfloor> in thousandths whole (round_up ((ratio - of_nat whole) * 1000)))"

definition CalculateAspectRatioString :: "nat \<Rightarrow> nat \<Rightarrow> string option" where
  "CalculateAspectRatioString w h =
     (if h = 0 then None
      else case aspect_fraction w h of (n, d) \<Rightarrow> if int n \<le> INT_MAX then Some (to_string n @ '':'' @ to_string d) else None)"

definition stoi :: "string \<Rightarrow> stoll_error + int" where
  "stoi s = (case stoll s of Inl e \<Rightarrow> Inl e | Inr v \<Rightarrow> if - INT_MAX - 1 \<le> v \<and> v \<le> INT_MAX then Inr v else Inl Out_of_range)"

text \<open>Without a colon both parts are the whole text.\<close>

definition parse_aspect :: "string \<Rightarrow> stoll_error + (int \<times> int)" where
  "parse_aspect s =
     (let before = takeWhile (\<lambda>c. c \<noteq> CHR '':'') s; after = (if CHR '':'' \<in> set s then tl (dropWhile (\<lambda>c. c \<noteq> CHR '':'') s) else s)
      in try_bind (stoi before) (\<lambda>n. try_bind (stoi after) (\<lambda>d. Inr (n, d))))"

text \<open>The two tries to open the window; the program ends when both fail.\<close>

definition open_client_window :: "(int \<Rightarrow> int \<Rightarrow> (bool \<times> os)) \<Rightarrow> os option" where
  "open_client_window attempt = (case attempt 4 0 of (True, s) \<Rightarrow> Some s | (False, _) \<Rightarrow> (case attempt 3 3 of (True, s) \<Rightarrow> Some s | (False, _) \<Rightarrow> None))"

definition voxel_edit :: "string \<Rightarrow> bool \<Rightarrow> bool" where
  "voxel_edit args allowed = (case SplitString args of
      [] \<Rightarrow> allowed
    | verb # _ \<Rightarrow> if verb = ''on'' then True else if verb = ''off'' then False else allowed)"

text \<open>The user and the address of the command \<open>connect\<close>, if there are at least two arguments.\<close>

definition connect_command :: "string \<Rightarrow> (string \<times> string) option" where
  "connect_command args = (case SplitString args of user # ip # _ \<Rightarrow> Some (user, ip) | _ \<Rightarrow> None)"

definition chat_command :: "string \<Rightarrow> string \<times> string list" where
  "chat_command message =
     (takeWhile (\<lambda>c. c \<noteq> CHR '' '') message,
      if CHR '' '' \<in> set message then SplitString (tl (dropWhile (\<lambda>c. c \<noteq> CHR '' '') message)) else [])"

datatype chat_action = Emit_command "string \<times> string list" | Send_command "string \<times> string list"

definition slash_command :: "eid \<Rightarrow> string \<Rightarrow> chat_action list" where
  "slash_command client_id message = Emit_command (chat_command message) # (if client_id \<noteq> 0 then [Send_command (chat_command message)] else [])"

subsection \<open>The manipulator is in reach\<close>

lemma v_length_scale: "v_length (v_scale v k) = \<bar>k\<bar> * v_length v"
proof -
  have "vx v * k * (vx v * k) + vy v * k * (vy v * k) + vz v * k * (vz v * k) = k * k * (vx v * vx v + vy v * vy v + vz v * vz v)"
    by (simp add: algebra_simps)
  then show ?thesis
    using real_sqrt_mult [of "k * k"] by (simp add: v_length_def v_scale_def)
qed

lemma v_length_minus: "v_length (v_minus a b) = v_length (v_minus b a)"
  by (simp add: v_length_def v_minus_def algebra_simps)

lemma v_length_nonneg: "0 \<le> v_length v"
  by (simp add: v_length_def)

text \<open>C39: The manipulator is placed on the line from the start to the intersection, as far as that point or as the largest distance allows.\<close>

theorem placement_in_reach:
  assumes "SetRayIntersectionPoint start x p w = Some w1" and "wf_omap (rw_renderables w)" and "0 \<le> pm_max_distance p"
  shows "\<exists>rd t. map_of (rw_renderables w1) MANIPULATOR = Some rd \<and> rd_translation rd = v_plus start (v_scale (v_minus x start) t)
    \<and> 0 \<le> t \<and> t \<le> 1 \<and> v_length (v_minus (rd_translation rd) start) = min (v_length (v_minus x start)) (pm_max_distance p)"
proof -
  let ?way = "v_minus x start" and ?L = "v_length (v_minus x start)"
  let ?m = "min ?L (pm_max_distance p)"
  let ?t = "?m / ?L"
  obtain rd where rd: "map_of (rw_renderables w) MANIPULATOR = Some rd" and L: "?L \<noteq> 0"
    and w1: "w1 = on_manipulator (\<lambda>rd. rd\<lparr>rd_translation := v_plus start (v_scale (v_scale ?way (1 / ?L)) ?m)\<rparr>) w"
    using assms(1) by (auto simp: SetRayIntersectionPoint_def Let_def v_length_minus [of start x] split: if_splits)
  have pos: "0 < ?L"
    using L v_length_nonneg [of ?way] by linarith
  have m: "0 \<le> ?m"
    using pos assms(3) by simp
  have t: "0 \<le> ?t" "?t \<le> 1"
    using pos m by (auto simp: divide_simps)
  have scale: "v_scale (v_scale ?way (1 / ?L)) ?m = v_scale ?way ?t"
    by (simp add: v_scale_def)
  let ?rd = "rd\<lparr>rd_translation := v_plus start (v_scale ?way ?t)\<rparr>"
  have "map_of (rw_renderables w1) MANIPULATOR = Some ?rd"
    using rd assms(2) by (simp add: w1 on_manipulator_def scale)
  moreover have "v_minus (v_plus start (v_scale ?way ?t)) start = v_scale ?way ?t"
    by (simp add: v_minus_def v_plus_def v_scale_def)
  then have "v_length (v_minus (rd_translation ?rd) start) = ?m"
    using t(1) pos m by (simp add: v_length_scale abs_of_nonneg)
  ultimately show ?thesis
    using t by (intro exI [of _ ?rd] exI [of _ ?t]) simp
qed

subsection \<open>Screens\<close>

lemma update_screen_keeps:
  "update_screen c (sn, w) = Some (sn1, w1) \<Longrightarrow> dom (sn_textures sn1) = dom (sn_textures sn)"
  by (auto simp: update_screen_def Let_def dom_def split: prod.splits option.splits if_splits)

text \<open>The screens are updated without an access to a null pointer exactly when every computer has a device with the number of the screen.\<close>

theorem screens_drawn_iff:
  assumes "\<forall>(i, dev) \<in> set (sn_computers sn). \<forall>s. dev = Some s \<longrightarrow> s \<in> dom (sn_textures sn)"
  shows "UpdateVComputerScreenTextures (sn, w) \<noteq> None \<longleftrightarrow> (\<forall>(i, dev) \<in> set (sn_computers sn). dev \<noteq> None)"
proof -
  let ?I = "\<lambda>sw. dom (sn_textures (fst sw)) = dom (sn_textures sn)"
  have "each update_screen (sn_computers sn) (sn, w) \<noteq> None \<longleftrightarrow> (\<forall>c \<in> set (sn_computers sn). snd c \<noteq> None)"
  proof (rule each_defined_iff [where I = ?I])
    show "?I s1" if "?I s" and "update_screen c s = Some s1" for c s s1
      using that update_screen_keeps [of c "fst s" "snd s" "fst s1" "snd s1"] by simp
    show "update_screen c s \<noteq> None \<longleftrightarrow> snd c \<noteq> None" if "c \<in> set (sn_computers sn)" and "?I s" for c s
    proof (cases c)
      case (Pair i dev)
      have "\<exists>u. sn_textures (fst s) a = Some u" if "dev = Some a" for a
        using assms \<open>c \<in> _\<close> \<open>?I s\<close> Pair that by blast
      then show ?thesis
        using Pair by (cases s; cases dev) (auto simp: update_screen_def Let_def split: option.split)
    qed
  qed simp
  then show ?thesis
    by (simp add: UpdateVComputerScreenTextures_def split_beta)
qed

subsection \<open>Clocks of frames\<close>

fun measure_frames :: "clock_readings list \<Rightarrow> rat \<Rightarrow> frame_metrics list \<times> rat" where
  "measure_frames [] t = ([], t)"
| "measure_frames (c # cs) t = (case measure_frame c t of (m, t1) \<Rightarrow> (case measure_frames cs t1 of (ms, t2) \<Rightarrow> (m # ms, t2)))"

text \<open>The times of frames leave nothing out and count nothing twice: over any run of frames the totals add up to the time between the
  first and the last reading of the clock.\<close>

theorem frame_times_partition: "sum_list (map tf_total (fst (measure_frames cs t))) = snd (measure_frames cs t) - t"
  by (induction cs arbitrary: t) (simp_all add: measure_frame_def GetElapsedTime_def split_beta)

lemma count_frames:
  assumes "\<forall>k < length ds. fc_deltas fc + sum_list (take (Suc k) ds) < 1"
  shows "fold count_frame ds fc = fc\<lparr>fc_frames := fc_frames fc + length ds, fc_deltas := fc_deltas fc + sum_list ds\<rparr>"
  using assms
proof (induction ds arbitrary: fc)
  case (Cons d ds)
  have "fc_deltas fc + d < 1"
    using Cons.prems [rule_format, of 0] by simp
  moreover have "\<forall>k < length ds. fc_deltas fc + d + sum_list (take (Suc k) ds) < 1"
    using Cons.prems [rule_format, of "Suc _"] by (simp add: add.assoc)
  ultimately show ?case
    using Cons.IH [of "count_frame d fc"] by (cases fc) (simp add: count_frame_def Let_def add.assoc)
qed (cases fc, simp)

text \<open>The counter shows, whenever a second is full, the number of frames since it was last shown and their average time.\<close>

theorem fps_counts_frames:
  assumes "fc_frames fc = 0" and "fc_deltas fc = 0" and "\<forall>k < length ds. sum_list (take (Suc k) ds) < 1" and "1 \<le> sum_list ds + d"
  shows "fold count_frame (ds @ [d]) fc = \<lparr>fc_frames = 0, fc_deltas = 0, fc_fps = Suc (length ds), fc_average = (sum_list ds + d) / of_nat (Suc (length ds))\<rparr>"
  using count_frames [of ds fc] assms by (simp add: count_frame_def Let_def)

subsection \<open>The ratio of the window\<close>

lemma round_up_near: "0 \<le> x \<Longrightarrow> \<bar>of_nat (round_up x) - x\<bar> \<le> 1 / 2"
proof -
  assume x: "0 \<le> x"
  then have "of_nat (round_up x) = (of_int \<lfloor>x + 1 / 2\<rfloor> :: rat)"
    by (simp add: round_up_def)
  then show ?thesis
    using floor_correct [of "x + 1 / 2"] by linarith
qed

lemma thousandths_reduced:
  assumes "thousandths whole f = (n, d)"
  shows "coprime n d" and "d dvd 1000" and "0 < d" and "of_nat n / of_nat d = of_nat whole + of_nat f / (1000 :: rat)"
proof -
  let ?g = "gcd f 1000"
  have nd: "n = whole * d + f div ?g" "d = 1000 div ?g"
    using assms by (auto simp: thousandths_def Let_def)
  have g: "0 < ?g" "?g * d = 1000"
    using nd(2) by simp_all
  then show d: "d dvd 1000" "0 < d"
    by (metis dvd_triv_right, use g in \<open>cases d\<close>, simp_all)
  have "coprime (f div ?g) d"
    using div_gcd_coprime [of f 1000] nd(2) by simp
  then have "gcd (whole * d + f div ?g) d = 1"
    by (metis coprime_iff_gcd_eq_1 gcd.commute gcd_add_mult)
  then show "coprime n d"
    using nd(1) by (simp add: coprime_iff_gcd_eq_1)
  have "of_nat n = of_nat whole * of_nat d + (of_nat (f div ?g) :: rat)"
    using nd(1) by simp
  moreover have "of_nat (f div ?g) * of_nat ?g = (of_nat f :: rat)"
    by (metis dvd_div_mult_self gcd_dvd1 of_nat_mult)
  moreover have "of_nat ?g * of_nat d = (1000 :: rat)"
    using g(2) by (metis of_nat_mult of_nat_numeral)
  moreover have "(of_nat d :: rat) \<noteq> 0"
    using d(2) by simp
  moreover have "x / d' = wh + fr / 1000" if "x = wh * d' + q" and "q * g' = fr" and "g' * d' = 1000" and "d' \<noteq> 0" for x d' wh fr q g' :: rat
  proof -
    have "fr / 1000 = q / d'"
      using that by (auto simp: field_simps)
    then show ?thesis
      using that(1,4) by (simp add: field_simps)
  qed
  ultimately show "of_nat n / of_nat d = of_nat whole + of_nat f / (1000 :: rat)"
    by blast
qed

lemma near_thousandth:
  assumes "\<bar>f - (r - whole) * 1000\<bar> \<le> 1 / 2"
  shows "\<bar>whole + f / 1000 - r\<bar> \<le> (1 / 2000 :: rat)"
proof -
  have "whole + f / 1000 - r = (f - (r - whole) * 1000) / 1000"
    by (simp add: field_simps)
  then show ?thesis
    using assms by (simp only: abs_divide) simp
qed

lemma aspect_fraction_close:
  assumes "aspect_fraction w h = (n, d)"
  shows "coprime n d \<and> d dvd 1000 \<and> 0 < d \<and> \<bar>of_nat n / of_nat d - of_nat w / of_nat h\<bar> \<le> (1 / 2000 :: rat)"
proof -
  let ?r = "of_nat w / of_nat h :: rat"
  let ?x = "(?r - of_nat (nat \<lfloor>?r\<rfloor>)) * 1000"
  have t: "thousandths (nat \<lfloor>?r\<rfloor>) (round_up ?x) = (n, d)"
    using assms by (simp only: aspect_fraction_def Let_def)
  have "of_nat (nat \<lfloor>?r\<rfloor>) \<le> ?r"
    using of_int_floor_le [of ?r] by simp
  then have "0 \<le> ?x"
    by (intro mult_nonneg_nonneg) simp_all
  then have "\<bar>of_nat (round_up ?x) - ?x\<bar> \<le> 1 / 2"
    by (rule round_up_near)
  then have "\<bar>of_nat (nat \<lfloor>?r\<rfloor>) + of_nat (round_up ?x) / 1000 - ?r\<bar> \<le> (1 / 2000 :: rat)"
    by (rule near_thousandth)
  then show ?thesis
    using thousandths_reduced [OF t] by simp
qed

text \<open>Decimal numbers are read back.\<close>

lemma stoi_to_string:
  assumes "int n \<le> INT_MAX"
  shows "stoi (to_string n) = Inr (int n)"
proof -
  obtain c cs where s: "to_string n = c # cs"
    by (meson list.exhaust to_string_not_Nil)
  have d: "\<forall>x \<in> set (to_string n). is_digit x"
    using to_string_digits by blast
  then have "is_digit c"
    using s by simp
  then have "\<not> is_space c" "c \<noteq> CHR ''-''" "c \<noteq> CHR ''+''"
    by (auto simp: is_digit_def is_space_def)
  then have "dropWhile is_space (to_string n) = to_string n" "take_sign (to_string n) = (False, to_string n)"
    by (simp_all add: s take_sign_def)
  moreover have tw: "takeWhile is_digit (to_string n) = to_string n"
    using d by (simp add: takeWhile_eq_all_conv)
  ultimately have "stoll (to_string n) = Inr (int n)"
    using assms digits_value_to_string [of n] by (simp add: stoll_def Let_def INT_MAX_def tw)
  then show ?thesis
    using assms by (simp add: stoi_def INT_MAX_def)
qed

lemma colon_no_digit: "\<forall>x \<in> set s. is_digit x \<Longrightarrow> CHR '':'' \<notin> set s"
  by (auto simp: is_digit_def)

text \<open>The ratio computed for a window is read back as a reduced fraction of thousandths that differs from the ratio of its sides by at most a
  half of a thousandth.\<close>

theorem aspect_ratio_close:
  assumes "CalculateAspectRatioString w h = Some s"
  shows "\<exists>n d. parse_aspect s = Inr (int n, int d) \<and> coprime n d \<and> d dvd 1000 \<and> 0 < d
    \<and> \<bar>of_nat n / of_nat d - of_nat w / of_nat h\<bar> \<le> (1 / 2000 :: rat)"
proof -
  obtain n d where a: "aspect_fraction w h = (n, d)" and n: "int n \<le> INT_MAX" and s: "s = to_string n @ '':'' @ to_string d"
    using assms by (auto simp: CalculateAspectRatioString_def split: prod.splits if_splits)
  note close = aspect_fraction_close [OF a]
  have d: "int d \<le> INT_MAX"
    using close dvd_imp_le [of d 1000] by (simp add: INT_MAX_def)
  have "CHR '':'' \<notin> set (to_string n)"
    by (rule colon_no_digit) (simp add: to_string_digits)
  then have "\<And>x. x \<in> set (to_string n) \<Longrightarrow> x \<noteq> CHR '':''"
    by auto
  then have "takeWhile (\<lambda>x. x \<noteq> CHR '':'') s = to_string n" "dropWhile (\<lambda>x. x \<noteq> CHR '':'') s = '':'' @ to_string d"
    unfolding s by (simp_all add: takeWhile_append2 dropWhile_append2)
  then have "parse_aspect s = Inr (int n, int d)"
    using stoi_to_string [OF n] stoi_to_string [OF d] by (simp add: parse_aspect_def s Let_def)
  then show ?thesis
    using close by blast
qed

subsection \<open>Chat commands\<close>

fun join_words :: "string list \<Rightarrow> string" where
  "join_words [] = []"
| "join_words [w] = w"
| "join_words (w # v # ws) = w @ '' '' @ join_words (v # ws)"

lemma pieces_not_Nil [simp]: "pieces s \<noteq> []"
  by (cases s) (auto split: list.split)

lemma join_pieces: "join_words (pieces s) = s"
proof (induction s)
  case (Cons c s)
  obtain p ps where p: "pieces s = p # ps"
    using pieces_not_Nil by (meson list.exhaust)
  then show ?case
    using Cons by (cases ps) auto
qed simp

lemma last_piece: "last (pieces s) = [] \<longleftrightarrow> s = [] \<or> last s = CHR '' ''"
proof (induction s)
  case (Cons c s)
  obtain p ps where p: "pieces s = p # ps"
    using pieces_not_Nil by (meson list.exhaust)
  show ?case
  proof (cases "s = []")
    case False
    then show ?thesis
      using Cons p join_pieces [of s] by (cases ps) auto
  qed simp
qed simp

text \<open>C40: The command and the arguments of a chat command, joined by blanks, are the message again, unless it ends with a blank; the command
  itself has none.\<close>

theorem chat_command_rejoined:
  assumes "message \<noteq> []" and "last message \<noteq> CHR '' ''"
  shows "join_words (fst (chat_command message) # snd (chat_command message)) = message \<and> CHR '' '' \<notin> set (fst (chat_command message))"
proof -
  let ?P = "\<lambda>c. c \<noteq> CHR '' ''"
  have word: "CHR '' '' \<notin> set (takeWhile ?P message)"
    using set_takeWhileD [of "CHR '' ''" ?P message] by auto
  show ?thesis
  proof (cases "CHR '' '' \<in> set message")
    case False
    then have "takeWhile ?P message = message"
      by (auto simp: takeWhile_eq_all_conv)
    then show ?thesis
      using False word by (simp add: chat_command_def)
  next
    case True
    then obtain c rest where d: "dropWhile ?P message = c # rest"
      by (cases "dropWhile ?P message") (auto simp: dropWhile_eq_Nil_conv)
    then have c: "c = CHR '' ''"
      using hd_dropWhile [of ?P message] by auto
    have message: "message = takeWhile ?P message @ '' '' @ rest"
      using takeWhile_dropWhile_id [of ?P message] d c by simp
    have "last message = last ('' '' @ rest)"
      using arg_cong [OF message, of last] by simp
    then have rest: "rest \<noteq> []" "last rest \<noteq> CHR '' ''"
      using assms(2) by (auto split: if_splits)
    then have "SplitString rest = pieces rest"
      using last_piece [of rest] by (simp add: SplitString_def Let_def)
    moreover obtain p ps where "pieces rest = p # ps"
      using pieces_not_Nil by (meson list.exhaust)
    ultimately show ?thesis
      using True d word message join_pieces [of rest] by (simp add: chat_command_def)
  qed
qed

subsection \<open>Examples\<close>

lemma placement_in_reach_witness:
  "\<exists>w1 rd. SetRayIntersectionPoint zero_vec \<lparr>vx = 100, vy = 0, vz = 0\<rparr> new_placement (scene [(MANIPULATOR, new_renderable)] Map.empty) = Some w1
    \<and> map_of (rw_renderables w1) MANIPULATOR = Some rd \<and> v_length (v_minus (rd_translation rd) zero_vec) = 25"
proof -
  let ?w = "scene [(MANIPULATOR, new_renderable)] Map.empty" and ?x = "\<lparr>vx = 100, vy = 0, vz = 0\<rparr> :: real vec3"
  have l: "v_length (v_minus ?x zero_vec) = 100" "v_length (v_minus zero_vec ?x) = 100"
    by (simp_all add: v_length_def v_minus_def zero_vec_def)
  obtain w1 where w1: "SetRayIntersectionPoint zero_vec ?x new_placement ?w = Some w1"
    using l by (simp add: SetRayIntersectionPoint_def scene_def Let_def)
  then show ?thesis
    using placement_in_reach [OF w1] l(1) by (auto simp: scene_def new_placement_def wf_omap_Cons om_keys_def)
qed

lemma screens_drawn_iff_witness:
  "UpdateVComputerScreenTextures (\<lparr>sn_computers = [(5, Some 0), (6, None)], sn_textures = [0 \<mapsto> None], sn_next_texture = 0, sn_filled = []\<rparr>,
     scene [] Map.empty) = None"
  using screens_drawn_iff [of "\<lparr>sn_computers = [(5, Some 0), (6, None)], sn_textures = [0 \<mapsto> None], sn_next_texture = 0, sn_filled = []\<rparr>"
    "scene [] Map.empty"] by (simp del: not_None_eq)

lemma fps_counts_frames_witness:
  "fold count_frame ([1 / 2, 1 / 4] @ [1 / 2]) \<lparr>fc_frames = 0, fc_deltas = 0, fc_fps = 9, fc_average = 0\<rparr>
    = \<lparr>fc_frames = 0, fc_deltas = 0, fc_fps = 3, fc_average = 5 / 12\<rparr>"
  using fps_counts_frames [of "\<lparr>fc_frames = 0, fc_deltas = 0, fc_fps = 9, fc_average = 0\<rparr>" "[1 / 2, 1 / 4]" "1 / 2"]
  by (simp add: less_Suc_eq numeral_eq_Suc)

lemma aspect_ratio_close_witness:
  "\<exists>s n d. CalculateAspectRatioString 1920 1080 = Some s \<and> parse_aspect s = Inr (int n, int d) \<and> coprime n d
    \<and> \<bar>of_nat n / of_nat d - 1920 / 1080\<bar> \<le> (1 / 2000 :: rat)"
proof -
  have f: "\<lfloor>16 / 9 :: rat\<rfloor> = 1" "\<lfloor>14009 / 18 :: rat\<rfloor> = 778"
    by (simp_all add: floor_eq_iff)
  have g: "gcd 778 (1000 :: nat) = 2"
    by code_simp
  have "aspect_fraction 1920 1080 = (889, 500)"
    using f by (simp add: aspect_fraction_def thousandths_def round_up_def Let_def g)
  then obtain s where s: "CalculateAspectRatioString 1920 1080 = Some s"
    by (simp add: CalculateAspectRatioString_def INT_MAX_def)
  then show ?thesis
    using aspect_ratio_close [OF s] by auto
qed

lemma chat_command_rejoined_witness:
  "join_words (fst (chat_command ''tp Ann  5'') # snd (chat_command ''tp Ann  5'')) = ''tp Ann  5''"
  using chat_command_rejoined [of "''tp Ann  5''"] by simp

end
