(* ===== verification/GBuffer.thy ===== *)
theory GBuffer
  imports Render_Draws
begin

text \<open>
  The buffers of deferred shading (client/graphics/gbuffer.cpp): four textures that the geometry pass writes and the light passes read, a texture that
  the light passes write and the final pass reads, and a depth texture. The context of OpenGL is what the code sets of it; the driver's choice of
  names is a parameter, and no name is 0. The passes are those of the render system, whose calls change only the textures of the units.
\<close>

subsection \<open>The context\<close>

datatype attachment = Color nat | Depth

text \<open>Sizes of textures by name; attachments, draw buffers and read buffer of each framebuffer, 0 for that of the window.\<close>

record gl_context =
  gx_textures :: "nat \<rightharpoonup> nat \<times> nat"
  gx_framebuffers :: "nat \<rightharpoonup> unit"
  gx_attached :: "nat \<Rightarrow> attachment \<rightharpoonup> nat"
  gx_buffers :: "nat \<Rightarrow> nat list"
  gx_read_buffer :: "nat \<Rightarrow> nat"
  gx_draw :: nat
  gx_read :: nat
  gx_units :: "nat \<Rightarrow> nat"
  gx_active :: nat
  gx_depth_mask :: bool
  gx_depth_test :: bool
  gx_blend :: bool
  gx_cull :: "bool \<times> bool"

record gl_gen =
  gen_texture :: "(nat \<rightharpoonup> nat \<times> nat) \<Rightarrow> nat"
  gen_framebuffer :: "(nat \<rightharpoonup> unit) \<Rightarrow> nat"

fun glGenTextures :: "gl_gen \<Rightarrow> nat \<Rightarrow> gl_context \<Rightarrow> nat list \<times> gl_context" where
  "glGenTextures G 0 c = ([], c)"
| "glGenTextures G (Suc n) c =
     (let t = gen_texture G (gx_textures c) in
      case glGenTextures G n (c\<lparr>gx_textures := (gx_textures c)(t \<mapsto> (0, 0))\<rparr>) of (ts, c1) \<Rightarrow> (t # ts, c1))"

definition glGenFramebuffers :: "gl_gen \<Rightarrow> gl_context \<Rightarrow> nat \<times> gl_context" where
  "glGenFramebuffers G c =
     (let f = gen_framebuffer G (gx_framebuffers c) in (f, c\<lparr>gx_framebuffers := (gx_framebuffers c)(f \<mapsto> ()), gx_attached := (gx_attached c)(f := Map.empty)\<rparr>))"

definition bind_draw :: "nat \<Rightarrow> gl_context \<Rightarrow> gl_context" where
  "bind_draw f c = c\<lparr>gx_draw := f\<rparr>"

definition bind_unit :: "nat \<Rightarrow> nat \<Rightarrow> gl_context \<Rightarrow> gl_context" where
  "bind_unit u t c = c\<lparr>gx_active := u, gx_units := (gx_units c)(u := t)\<rparr>"

text \<open>A texture bound to the active unit, given a size, and attached to the framebuffer that is drawn to.\<close>

definition attach_texture :: "attachment \<Rightarrow> nat \<Rightarrow> nat \<times> nat \<Rightarrow> gl_context \<Rightarrow> gl_context" where
  "attach_texture a t sz c = c\<lparr>gx_units := (gx_units c)(gx_active c := t), gx_textures := (gx_textures c)(t \<mapsto> sz),
     gx_attached := (gx_attached c)(gx_draw c := (gx_attached c (gx_draw c))(a \<mapsto> t))\<rparr>"

definition draw_buffers :: "nat list \<Rightarrow> gl_context \<Rightarrow> gl_context" where
  "draw_buffers bs c = c\<lparr>gx_buffers := (gx_buffers c)(gx_draw c := bs)\<rparr>"

subsection \<open>The buffers\<close>

definition num_color_textures :: nat where "num_color_textures = 4"

record gbuffer =
  gb_framebuffer :: nat
  gb_color :: "nat list"
  gb_depth :: nat
  gb_final :: nat
  gb_depth_size :: "nat \<times> nat"

definition new_gbuffer :: gbuffer where
  "new_gbuffer = \<lparr>gb_framebuffer = 0, gb_color = [0, 0, 0, 0], gb_depth = 0, gb_final = 0, gb_depth_size = (0, 0)\<rparr>"

definition ResizeColorAttachments :: "nat \<times> nat \<Rightarrow> gbuffer \<Rightarrow> gl_context \<Rightarrow> gl_context" where
  "ResizeColorAttachments sz g c =
     bind_draw 0 (attach_texture (Color num_color_textures) (gb_final g) sz
       (fold (\<lambda>(i, t). attach_texture (Color i) t sz) (enumerate 0 (gb_color g)) (bind_draw (gb_framebuffer g) c)))"

definition AddColorAttachments :: "gl_gen \<Rightarrow> nat \<times> nat \<Rightarrow> gbuffer \<times> gl_context \<Rightarrow> gbuffer \<times> gl_context" where
  "AddColorAttachments G sz gc = (case gc of (g, c) \<Rightarrow>
     let (f, c1) = (if gb_framebuffer g = 0 then glGenFramebuffers G c else (gb_framebuffer g, c));
         (colors, c2) = glGenTextures G num_color_textures (bind_draw f c1);
         (finals, c3) = glGenTextures G 1 c2;
         g1 = g\<lparr>gb_framebuffer := f, gb_color := colors, gb_final := finals ! 0\<rparr>
     in (g1, ResizeColorAttachments sz g1 c3))"

definition ResizeDepthAttachment :: "nat \<times> nat \<Rightarrow> gbuffer \<times> gl_context \<Rightarrow> gbuffer \<times> gl_context" where
  "ResizeDepthAttachment sz gc = (case gc of (g, c) \<Rightarrow>
     (g\<lparr>gb_depth_size := sz\<rparr>, bind_draw 0 (attach_texture Depth (gb_depth g) sz (bind_draw (gb_framebuffer g) c))))"

definition SetDepthAttachment :: "gl_gen \<Rightarrow> nat \<times> nat \<Rightarrow> gbuffer \<times> gl_context \<Rightarrow> gbuffer \<times> gl_context" where
  "SetDepthAttachment G sz gc = (case gc of (g, c) \<Rightarrow>
     case glGenTextures G 1 c of (ts, c1) \<Rightarrow> ResizeDepthAttachment sz (g\<lparr>gb_depth := ts ! 0\<rparr>, c1))"

definition BindForWriting :: "gbuffer \<Rightarrow> gl_context \<Rightarrow> gl_context" where
  "BindForWriting g = bind_draw (gb_framebuffer g)"

definition BindForRendering :: "gbuffer \<Rightarrow> gl_context \<Rightarrow> gl_context" where
  "BindForRendering g c = c\<lparr>gx_read := gb_framebuffer g\<rparr>"

definition SetReadBuffer :: "nat \<Rightarrow> gl_context \<Rightarrow> gl_context" where
  "SetReadBuffer i c = c\<lparr>gx_read_buffer := (gx_read_buffer c)(gx_read c := i)\<rparr>"

text \<open>What OpenGL asks of a framebuffer: something attached, and every attachment a texture with a size.\<close>

definition framebuffer_complete :: "nat \<Rightarrow> gl_context \<Rightarrow> bool" where
  "framebuffer_complete f c \<longleftrightarrow> (\<exists>a. gx_attached c f a \<noteq> None)
     \<and> (\<forall>a t. gx_attached c f a = Some t \<longrightarrow> (\<exists>w h. gx_textures c t = Some (w, h) \<and> 0 < w \<and> 0 < h))"

definition CheckCompletion :: "(nat \<Rightarrow> gl_context \<Rightarrow> bool) \<Rightarrow> gbuffer \<Rightarrow> gl_context \<Rightarrow> bool \<times> gl_context" where
  "CheckCompletion status g c = (let c1 = BindForWriting g c in (status (gx_draw c1) c1, bind_draw 0 c1))"

definition StartFrame :: "gbuffer \<Rightarrow> gl_context \<Rightarrow> gl_context" where
  "StartFrame g c = draw_buffers [4] (BindForWriting g c)"

definition BeginGeometryPass :: "gbuffer \<Rightarrow> gl_context \<Rightarrow> gl_context" where
  "BeginGeometryPass g c = (draw_buffers [0, 1, 2, 3] (BindForWriting g c))
     \<lparr>gx_depth_mask := True, gx_depth_test := True, gx_blend := False, gx_cull := (fst (gx_cull c), False)\<rparr>"

definition EndGeometryPass :: "gl_context \<Rightarrow> gl_context" where
  "EndGeometryPass c = c\<lparr>gx_depth_mask := False\<rparr>"

definition StencilPass :: "gl_context \<Rightarrow> gl_context" where
  "StencilPass c = (draw_buffers [] c)\<lparr>gx_depth_test := True, gx_cull := (False, snd (gx_cull c))\<rparr>"

definition bind_colors :: "gbuffer \<Rightarrow> gl_context \<Rightarrow> gl_context" where
  "bind_colors g = fold (\<lambda>(i, t). bind_unit i t) (enumerate 0 (gb_color g))"

text \<open>\<open>gx_cull\<close>: whether faces are culled, and whether it is the front.\<close>

definition BeginLightPass :: "gbuffer \<Rightarrow> gl_context \<Rightarrow> gl_context" where
  "BeginLightPass g c = bind_colors g ((draw_buffers [4] c)\<lparr>gx_depth_test := False, gx_cull := (True, True), gx_blend := True\<rparr>)"

definition BeginDirLightPass :: "gl_context \<Rightarrow> gl_context" where
  "BeginDirLightPass c = c"

definition FinalPass :: "gbuffer \<Rightarrow> gl_context \<Rightarrow> gl_context" where
  "FinalPass g c = (let c1 = SetReadBuffer 4 (BindForRendering g (bind_draw 0 c)) in
     bind_colors g (bind_unit num_color_textures (gb_final g) (c1\<lparr>gx_depth_mask := False, gx_depth_test := False, gx_blend := False\<rparr>)))"

definition GetColorTexture :: "nat \<Rightarrow> gbuffer \<Rightarrow> nat" where
  "GetColorTexture i g = (if i < num_color_textures then gb_color g ! i else 0)"

text \<open>The debug pass shows the depth texture, at unit 4, in the window.\<close>

definition debug_Prepare :: "gbuffer \<Rightarrow> gl_context \<Rightarrow> gl_context" where
  "debug_Prepare g c = bind_unit 4 (gb_depth g) (BindForRendering g c)"

definition debug_pass :: "gl_locations \<Rightarrow> string \<Rightarrow> (nat \<times> 'f vbo) option \<Rightarrow> viewport \<Rightarrow> render_system \<Rightarrow> gl_context \<Rightarrow> (gl_call list \<times> gl_context) option" where
  "debug_pass loc shader quad vp rs c = (case quad of
      None \<Rightarrow> None
    | Some (a, vb) \<Rightarrow> (case (rw_shaders (rs_world rs) shader, GetVertexGroupIndexCount 0 vb) of
        (Some s, Some count) \<Rightarrow> Some ([Bind_vertex_array (Some a), Use_shader (Some s),
            Uniform_numbers (loc s ''gScreenSize'') [vp_inv_width vp, vp_inv_height vp], Draw_elements GL_TRIANGLES count 0, Use_shader None,
            Bind_vertex_array None],
          bind_draw 0 (c\<lparr>gx_blend := False\<rparr>))
      | _ \<Rightarrow> None))"

text \<open>What the calls of a pass do to the context.\<close>

fun apply_call :: "gl_call \<Rightarrow> gl_context \<Rightarrow> gl_context" where
  "apply_call (Bind_texture u t) c = bind_unit u t c"
| "apply_call _ c = c"

subsection \<open>In the render system\<close>

definition start_buffers :: "gl_gen \<Rightarrow> nat \<times> nat \<Rightarrow> gl_context \<Rightarrow> gbuffer \<times> gl_context" where
  "start_buffers G sz c = SetDepthAttachment G sz (AddColorAttachments G sz (new_gbuffer, c))"

definition resize_buffers :: "nat \<times> nat \<Rightarrow> gbuffer \<times> gl_context \<Rightarrow> gbuffer \<times> gl_context" where
  "resize_buffers sz gc = (case gc of (g, c) \<Rightarrow> ResizeDepthAttachment sz (g, ResizeColorAttachments sz g c))"

subsection \<open>Sizes\<close>

text \<open>What a driver promises: a new name that is not 0.\<close>

definition gen_fresh :: "gl_gen \<Rightarrow> bool" where
  "gen_fresh G \<longleftrightarrow> (\<forall>m. finite (dom m) \<longrightarrow> gen_texture G m \<noteq> 0 \<and> m (gen_texture G m) = None)
     \<and> (\<forall>m. finite (dom m) \<longrightarrow> gen_framebuffer G m \<noteq> 0 \<and> m (gen_framebuffer G m) = None)"

lemma glGenTextures_fresh:
  assumes "gen_fresh G" and "finite (dom (gx_textures c))"
  obtains ts m where "glGenTextures G n c = (ts, c\<lparr>gx_textures := m\<rparr>)" and "length ts = n" and "distinct (0 # ts)"
    and "set ts \<inter> dom (gx_textures c) = {}" and "dom m = dom (gx_textures c) \<union> set ts" and "gx_textures c \<subseteq>\<^sub>m m" and "finite (dom m)"
proof -
  have "\<exists>ts m. glGenTextures G n c = (ts, c\<lparr>gx_textures := m\<rparr>) \<and> length ts = n \<and> distinct (0 # ts)
    \<and> set ts \<inter> dom (gx_textures c) = {} \<and> dom m = dom (gx_textures c) \<union> set ts \<and> gx_textures c \<subseteq>\<^sub>m m"
    using assms(2)
  proof (induction n arbitrary: c)
    case 0
    then show ?case
      by (intro exI [of _ "[]"] exI [of _ "gx_textures c"]) simp
  next
    case (Suc n)
    let ?t = "gen_texture G (gx_textures c)"
    let ?c = "c\<lparr>gx_textures := (gx_textures c)(?t \<mapsto> (0, 0))\<rparr>"
    have fin: "finite (dom (gx_textures ?c))"
      using Suc.prems by simp
    have t: "?t \<noteq> 0" "?t \<notin> dom (gx_textures c)"
      using assms(1) Suc.prems by (auto simp: gen_fresh_def)
    obtain ts m where r: "glGenTextures G n ?c = (ts, ?c\<lparr>gx_textures := m\<rparr>)" "length ts = n" "distinct (0 # ts)"
      "set ts \<inter> dom (gx_textures ?c) = {}" "dom m = dom (gx_textures ?c) \<union> set ts" "gx_textures ?c \<subseteq>\<^sub>m m"
      using Suc.IH [OF fin] by blast
    have le: "gx_textures c \<subseteq>\<^sub>m m"
    proof -
      have "gx_textures c \<subseteq>\<^sub>m gx_textures ?c"
        using t(2) by (auto simp: map_le_def)
      then show ?thesis
        using r(6) by (rule map_le_trans)
    qed
    have "glGenTextures G (Suc n) c = (?t # ts, c\<lparr>gx_textures := m\<rparr>)"
      using r(1) by (simp add: Let_def)
    then show ?case
      using t le r(2-5) by (intro exI [of _ "?t # ts"] exI [of _ m]) auto
  qed
  then obtain ts m where r: "glGenTextures G n c = (ts, c\<lparr>gx_textures := m\<rparr>)" "length ts = n" "distinct (0 # ts)"
    "set ts \<inter> dom (gx_textures c) = {}" "dom m = dom (gx_textures c) \<union> set ts" "gx_textures c \<subseteq>\<^sub>m m"
    by blast
  then show ?thesis
    using assms(2) by (intro that [of ts m]) auto
qed

definition gbuffer_sound :: "gbuffer \<Rightarrow> bool" where
  "gbuffer_sound g \<longleftrightarrow> gb_framebuffer g \<noteq> 0 \<and> length (gb_color g) = 4 \<and> distinct (0 # gb_final g # gb_depth g # gb_color g)"

definition attachments :: "gbuffer \<Rightarrow> attachment \<rightharpoonup> nat" where
  "attachments g a = (case a of
      Color i \<Rightarrow> if i < 4 then Some (gb_color g ! i) else if i = 4 then Some (gb_final g) else None
    | Depth \<Rightarrow> Some (gb_depth g))"

text \<open>All parts of the buffers have a size, and the window is drawn to.\<close>

definition sized :: "nat \<times> nat \<Rightarrow> gbuffer \<times> gl_context \<Rightarrow> bool" where
  "sized sz gc \<longleftrightarrow> (case gc of (g, c) \<Rightarrow> gbuffer_sound g \<and> gx_draw c = 0 \<and> gx_attached c (gb_framebuffer g) = attachments g
     \<and> (\<forall>t \<in> set (gb_final g # gb_depth g # gb_color g). gx_textures c t = Some sz) \<and> gb_depth_size g = sz)"

lemma four_colors:
  assumes "length xs = 4"
  obtains t0 t1 t2 t3 where "xs = [t0, t1, t2, t3]"
  using assms by (auto simp: numeral_eq_Suc length_Suc_conv)

lemma attachments_four:
  "gb_color g = [t0, t1, t2, t3] \<Longrightarrow> attachments g = [Color 0 \<mapsto> t0, Color 1 \<mapsto> t1, Color 2 \<mapsto> t2, Color 3 \<mapsto> t3, Color 4 \<mapsto> gb_final g, Depth \<mapsto> gb_depth g]"
  by (rule ext) (auto simp: attachments_def numeral_eq_Suc less_Suc_eq split: attachment.split)

lemma resize_sized:
  assumes "sized sz0 gc"
  shows "sized sz (resize_buffers sz gc)"
proof -
  obtain g c where gc: "gc = (g, c)"
    by (cases gc)
  have g: "gbuffer_sound g" "gx_attached c (gb_framebuffer g) = attachments g"
    using assms by (simp_all add: gc sized_def)
  then obtain t0 t1 t2 t3 where t: "gb_color g = [t0, t1, t2, t3]"
    by (meson four_colors gbuffer_sound_def)
  have a: "attachments (g\<lparr>gb_depth_size := sz\<rparr>) = attachments g"
    by (rule ext) (simp add: attachments_def split: attachment.split)
  have "gx_attached (snd (resize_buffers sz gc)) (gb_framebuffer g) = attachments g"
    using g(2) by (simp add: gc resize_buffers_def ResizeDepthAttachment_def ResizeColorAttachments_def t attach_texture_def bind_draw_def
        num_color_textures_def attachments_four [OF t] fun_upd_twist numeral_2_eq_2 numeral_3_eq_3)
  then show ?thesis
    using g(1) a by (auto simp: gc sized_def resize_buffers_def ResizeDepthAttachment_def ResizeColorAttachments_def t attach_texture_def bind_draw_def
        gbuffer_sound_def)
qed

lemma start_sized:
  assumes "gen_fresh G" and "finite (dom (gx_textures c))" and "finite (dom (gx_framebuffers c))"
  shows "sized sz (start_buffers G sz c)"
proof -
  let ?f = "gen_framebuffer G (gx_framebuffers c)"
  obtain c0 where gen: "glGenFramebuffers G c = (?f, c0)" and c0: "gx_textures c0 = gx_textures c" "gx_attached c0 ?f = Map.empty"
    by (simp add: glGenFramebuffers_def Let_def)
  let ?c = "bind_draw ?f c0"
  have f: "?f \<noteq> 0"
    using assms(1,3) by (simp add: gen_fresh_def)
  have fin: "finite (dom (gx_textures ?c))"
    using assms(2) c0(1) by (simp add: bind_draw_def)
  obtain colors m1 where r1: "glGenTextures G 4 ?c = (colors, ?c\<lparr>gx_textures := m1\<rparr>)" "length colors = 4" "distinct (0 # colors)"
    "dom m1 = dom (gx_textures ?c) \<union> set colors" "finite (dom m1)"
    by (rule glGenTextures_fresh [OF assms(1) fin, of 4]) blast
  let ?c1 = "?c\<lparr>gx_textures := m1\<rparr>"
  have fin1: "finite (dom (gx_textures ?c1))"
    using r1(5) by simp
  obtain finals m2 where r2: "glGenTextures G 1 ?c1 = (finals, ?c1\<lparr>gx_textures := m2\<rparr>)" "length finals = 1" "distinct (0 # finals)"
    "set finals \<inter> dom (gx_textures ?c1) = {}" "dom m2 = dom (gx_textures ?c1) \<union> set finals" "finite (dom m2)"
    by (rule glGenTextures_fresh [OF assms(1) fin1, of 1]) blast
  obtain final where final: "finals = [final]"
    using r2(2) by (auto simp: length_Suc_conv)
  obtain t0 t1 t2 t3 where t: "colors = [t0, t1, t2, t3]"
    by (rule four_colors [OF r1(2)])
  have zero: "gb_framebuffer new_gbuffer = 0"
    by (simp add: new_gbuffer_def)
  let ?g = "new_gbuffer\<lparr>gb_framebuffer := ?f, gb_color := colors, gb_final := final\<rparr>"
  obtain c2 where c2: "c2 = ResizeColorAttachments sz ?g (?c1\<lparr>gx_textures := m2\<rparr>)"
    by simp
  have add: "AddColorAttachments G sz (new_gbuffer, c) = (?g, c2)"
    by (simp only: AddColorAttachments_def prod.case Let_def gen zero if_True simp_thms num_color_textures_def r1(1) r2(1) final nth_Cons_0 c2)
  have tex2: "gx_textures c2 = m2(t0 \<mapsto> sz, t1 \<mapsto> sz, t2 \<mapsto> sz, t3 \<mapsto> sz, final \<mapsto> sz)"
    by (simp add: c2 ResizeColorAttachments_def bind_draw_def attach_texture_def t)
  have fin2: "finite (dom (gx_textures c2))"
    using r2(6) unfolding tex2 by simp
  obtain depths m3 where r3: "glGenTextures G 1 c2 = (depths, c2\<lparr>gx_textures := m3\<rparr>)" "length depths = 1" "distinct (0 # depths)"
    "set depths \<inter> dom (gx_textures c2) = {}" "dom m3 = dom (gx_textures c2) \<union> set depths" "gx_textures c2 \<subseteq>\<^sub>m m3"
    by (rule glGenTextures_fresh [OF assms(1) fin2, of 1]) blast
  obtain depth where depth: "depths = [depth]"
    using r3(2) by (auto simp: length_Suc_conv)
  let ?g1 = "?g\<lparr>gb_depth := depth\<rparr>"
  have start: "start_buffers G sz c = ResizeDepthAttachment sz (?g1, c2\<lparr>gx_textures := m3\<rparr>)"
    by (simp only: start_buffers_def add SetDepthAttachment_def prod.case r3(1) depth nth_Cons_0)
  have known: "\<And>x. x \<in> {t0, t1, t2, t3, final} \<Longrightarrow> x \<in> dom (gx_textures c2)"
    unfolding tex2 by auto
  have new: "final \<notin> set colors" "depth \<notin> {t0, t1, t2, t3, final}" "final \<noteq> 0" "depth \<noteq> 0"
    using r1(4) r2(3,4) r3(3,4) known final depth by auto
  have colors: "gb_color ?g1 = [t0, t1, t2, t3]"
    using t by simp
  have a: "attachments (?g1\<lparr>gb_depth_size := sz\<rparr>) = attachments ?g1"
    by (rule ext) (simp add: attachments_def split: attachment.split)
  have att: "gx_attached c2 ?f = [Color 0 \<mapsto> t0, Color 1 \<mapsto> t1, Color 2 \<mapsto> t2, Color 3 \<mapsto> t3, Color 4 \<mapsto> final]"
    by (simp add: c2 ResizeColorAttachments_def bind_draw_def attach_texture_def num_color_textures_def t c0(2) numeral_2_eq_2 numeral_3_eq_3)
  have "gbuffer_sound ?g1"
    using f r1(3) new t by (auto simp: gbuffer_sound_def)
  moreover have "m3 x = Some sz" if "x \<in> {t0, t1, t2, t3, final}" for x
  proof -
    have "gx_textures c2 x = Some sz"
      using that unfolding tex2 by auto
    then show ?thesis
      using r3(6) by (metis domI map_le_def)
  qed
  moreover have "gb_framebuffer ?g1 = ?f" "gb_final ?g1 = final" "gb_depth ?g1 = depth"
    by simp_all
  ultimately show ?thesis
    unfolding start sized_def ResizeDepthAttachment_def prod.case attach_texture_def bind_draw_def
    using att a attachments_four [OF colors] colors new(2)
    by (simp add: gbuffer_sound_def fun_upd_twist)
qed

lemma sized_complete:
  assumes "sized sz gc" and "0 < fst sz" and "0 < snd sz"
  shows "framebuffer_complete (gb_framebuffer (fst gc)) (snd gc)"
proof -
  obtain g c where gc: "gc = (g, c)"
    by (cases gc)
  have att: "gx_attached c (gb_framebuffer g) = attachments g" and four: "length (gb_color g) = 4"
    and tex: "\<forall>t \<in> set (gb_final g # gb_depth g # gb_color g). gx_textures c t = Some sz"
    using assms(1) by (simp_all add: gc sized_def gbuffer_sound_def)
  have "\<exists>w h. gx_textures c t = Some (w, h) \<and> 0 < w \<and> 0 < h" if "attachments g a = Some t" for a t
  proof -
    have "t \<in> set (gb_final g # gb_depth g # gb_color g)"
      using that four by (auto simp: attachments_def split: attachment.splits if_splits)
    then show ?thesis
      using tex assms(2,3) by (cases sz) auto
  qed
  moreover have "attachments g Depth \<noteq> None"
    by (simp add: attachments_def)
  ultimately show ?thesis
    unfolding framebuffer_complete_def gc fst_conv snd_conv att by blast
qed

text \<open>C27: The buffers follow the viewport: after the start and any number of changes of its size, every texture of the buffers has the size that was
  set last, all are attached, the framebuffer is complete, and the window is drawn to.\<close>

theorem buffers_follow_viewport:
  assumes "gen_fresh G" and "finite (dom (gx_textures c))" and "finite (dom (gx_framebuffers c))"
    and "0 < fst (last (sz # szs))" and "0 < snd (last (sz # szs))"
  defines "gc \<equiv> fold resize_buffers szs (start_buffers G sz c)"
  shows "sized (last (sz # szs)) gc \<and> framebuffer_complete (gb_framebuffer (fst gc)) (snd gc)"
proof -
  have "sized (last (sz # szs)) gc"
    unfolding gc_def
  proof (induction szs rule: rev_induct)
    case Nil
    then show ?case
      using start_sized [OF assms(1-3), of sz] by simp
  next
    case (snoc x szs)
    then show ?case
      using resize_sized [of "last (sz # szs)" "fold resize_buffers szs (start_buffers G sz c)" x] by simp
  qed
  then show ?thesis
    using sized_complete assms(4,5) by blast
qed

subsection \<open>Reading and writing in a frame\<close>

text \<open>The textures that a draw writes.\<close>

definition targets :: "gl_context \<Rightarrow> nat set" where
  "targets c = (if gx_draw c = 0 then {}
     else {t. \<exists>i \<in> set (gx_buffers c (gx_draw c)). gx_attached c (gx_draw c) (Color i) = Some t}
       \<union> (if gx_depth_mask c \<and> gx_depth_test c then {t. gx_attached c (gx_draw c) Depth = Some t} else {}))"

definition unbinding :: "gl_call list \<Rightarrow> bool" where
  "unbinding cs \<longleftrightarrow> (\<forall>u t. Bind_texture u t \<notin> set cs)"

lemma apply_unbinding: "unbinding cs \<Longrightarrow> fold apply_call cs c = c"
proof (induction cs)
  case (Cons x cs)
  have "apply_call x c = c"
    using Cons.prems by (cases x) (auto simp: unbinding_def)
  then show ?case
    using Cons by (simp add: unbinding_def)
qed simp

lemma unbinding_take: "unbinding cs \<Longrightarrow> unbinding (take k cs)"
  by (auto simp: unbinding_def dest: in_set_takeD)

lemma apply_call_targets: "targets (apply_call x c) = targets c"
  by (cases x) (simp_all add: targets_def bind_unit_def)

lemma fold_targets: "targets (fold apply_call cs c) = targets c"
  by (induction cs arbitrary: c) (simp_all add: apply_call_targets)

lemma apply_call_keeps:
  "gx_draw (apply_call x c) = gx_draw c \<and> gx_attached (apply_call x c) = gx_attached c"
  by (cases x) (simp_all add: bind_unit_def)

lemma fold_calls_keep: "gx_draw (fold apply_call cs c) = gx_draw c \<and> gx_attached (fold apply_call cs c) = gx_attached c"
  by (induction cs arbitrary: c) (simp_all add: apply_call_keeps)

lemma light_calls_unbinding:
  "point_light_pass loc s sphere vp v rs = Some (points, rs1) \<Longrightarrow> unbinding points"
  "dir_light_pass loc s quad vp v rs = Some dirs \<Longrightarrow> unbinding dirs"
  "final_pass loc s quad vp rs = Some final \<Longrightarrow> unbinding final"
  by (auto simp: point_light_pass_def dir_light_pass_def final_pass_def draw_point_light_def draw_dir_light_def view_uniforms_def unbinding_def
      split: Option.bind_splits)

lemma bind_colors_four:
  assumes "gb_color g = [t0, t1, t2, t3]"
  shows "bind_colors g c = c\<lparr>gx_active := 3, gx_units := (gx_units c)(0 := t0, 1 := t1, 2 := t2, 3 := t3)\<rparr>"
  by (simp add: bind_colors_def assms bind_unit_def numeral_2_eq_2 numeral_3_eq_3)

text \<open>C22: In every frame, whatever was bound before and whatever the geometry pass binds, its draws write the four color textures and the depth texture;
  the draws of the lights write the final texture alone and find the four color textures at the first four units; and the final draw writes the
  window and finds the final texture at the fifth. So no pass for lights or the final image reads a texture that it writes.\<close>

theorem passes_read_what_others_wrote:
  fixes geometry :: "gl_call list"
  assumes "sized sz (g, c)" and "point_light_pass loc sp sphere vp v rs = Some (points, rs1)" and "dir_light_pass loc sd quad vp v rs1 = Some dirs"
    and "final_pass loc sf quad vp rs1 = Some final"
  defines "c1 \<equiv> BeginGeometryPass g (StartFrame g c)"
  defines "c3 \<equiv> BeginLightPass g (EndGeometryPass (fold apply_call geometry c1))"
  defines "c4 \<equiv> BeginDirLightPass (fold apply_call points c3)"
  defines "c5 \<equiv> FinalPass g (fold apply_call dirs c4)"
  shows "targets (fold apply_call (take k geometry) c1) = insert (gb_depth g) (set (gb_color g))
    \<and> (\<forall>d \<in> {fold apply_call (take k points) c3, fold apply_call (take k dirs) c4}. targets d = {gb_final g} \<and> map (gx_units d) [0..<4] = gb_color g)
    \<and> targets (fold apply_call (take k final) c5) = {} \<and> map (gx_units (fold apply_call (take k final) c5)) [0..<5] = gb_color g @ [gb_final g]
    \<and> gb_final g \<notin> set (gb_color g)"
proof -
  have g: "gb_framebuffer g \<noteq> 0" "length (gb_color g) = 4" "gb_final g \<notin> set (gb_color g)" "gx_attached c (gb_framebuffer g) = attachments g"
    using assms(1) by (simp_all add: sized_def gbuffer_sound_def)
  obtain t0 t1 t2 t3 where t: "gb_color g = [t0, t1, t2, t3]"
    by (rule four_colors [OF g(2)])
  have five: "[0..<4] = [0, 1, 2, 3 :: nat]" "[0..<5] = [0, 1, 2, 3, 4 :: nat]"
    by (simp_all add: upt_conv_Cons numeral_2_eq_2 numeral_3_eq_3 eval_nat_numeral)
  have c1: "gx_draw c1 = gb_framebuffer g" "gx_attached c1 = gx_attached c" "gx_buffers c1 (gb_framebuffer g) = [0, 1, 2, 3]"
    "gx_depth_mask c1" "gx_depth_test c1"
    by (simp_all add: c1_def BeginGeometryPass_def StartFrame_def draw_buffers_def BindForWriting_def bind_draw_def)
  have geo: "targets c1 = insert (gb_depth g) (set (gb_color g))"
    using g by (auto simp: targets_def c1 attachments_def t)
  let ?c2 = "fold apply_call geometry c1"
  have c2: "gx_draw ?c2 = gb_framebuffer g" "gx_attached ?c2 = gx_attached c"
    using fold_calls_keep [of geometry c1] c1 by simp_all
  have c3: "gx_draw c3 = gb_framebuffer g" "gx_attached c3 = gx_attached c" "gx_buffers c3 (gb_framebuffer g) = [4]" "\<not> gx_depth_test c3"
    "map (gx_units c3) [0..<4] = gb_color g"
    by (simp_all add: c3_def BeginLightPass_def bind_colors_four [OF t] EndGeometryPass_def draw_buffers_def c2 five t)
  have light: "targets c3 = {gb_final g}"
    using g c3 by (auto simp: targets_def attachments_def)
  have c4: "c4 = c3"
    using apply_unbinding [OF light_calls_unbinding(1) [OF assms(2)]] by (simp add: c4_def BeginDirLightPass_def)
  have c5: "gx_draw c5 = 0" "map (gx_units c5) [0..<5] = gb_color g @ [gb_final g]"
    by (simp_all add: c5_def FinalPass_def bind_colors_four [OF t] Let_def SetReadBuffer_def BindForRendering_def bind_draw_def bind_unit_def
        num_color_textures_def five t)
  note keep = apply_unbinding [OF unbinding_take]
  show ?thesis
    using g(3) geo light c3(5) c5 keep [OF light_calls_unbinding(1) [OF assms(2)]] keep [OF light_calls_unbinding(2) [OF assms(3)]]
      keep [OF light_calls_unbinding(3) [OF assms(4)]]
    by (simp add: fold_targets c4) (simp add: targets_def)
qed

subsection \<open>An example\<close>

definition next_name :: "(nat \<rightharpoonup> 'a) \<Rightarrow> nat" where
  "next_name m = Suc (Max (insert 0 (dom m)))"

lemma next_name_fresh: "finite (dom m) \<Longrightarrow> next_name m \<noteq> 0 \<and> m (next_name m) = None"
proof -
  assume fin: "finite (dom m)"
  have "next_name m \<notin> dom m"
  proof
    assume "next_name m \<in> dom m"
    then have "next_name m \<le> Max (insert 0 (dom m))"
      using fin by simp
    then show False
      by (simp add: next_name_def)
  qed
  then show ?thesis
    by (auto simp: next_name_def)
qed

definition counting :: gl_gen where
  "counting = \<lparr>gen_texture = next_name, gen_framebuffer = next_name\<rparr>"

lemma counting_fresh: "gen_fresh counting"
  unfolding gen_fresh_def counting_def gl_gen.simps
  by (intro conjI allI impI) (simp_all only: next_name_fresh [THEN conjunct1] next_name_fresh [THEN conjunct2] not_False_eq_True)

definition empty_context :: gl_context where
  "empty_context = \<lparr>gx_textures = Map.empty, gx_framebuffers = Map.empty, gx_attached = (\<lambda>_. Map.empty), gx_buffers = (\<lambda>_. [0]), gx_read_buffer = (\<lambda>_. 0),
     gx_draw = 0, gx_read = 0, gx_units = (\<lambda>_. 0), gx_active = 0, gx_depth_mask = True, gx_depth_test = False, gx_blend = False, gx_cull = (False, False)\<rparr>"

lemma buffers_follow_viewport_witness:
  "sized (800, 600) (fold resize_buffers [(640, 480), (800, 600)] (start_buffers counting (1024, 768) empty_context))
    \<and> framebuffer_complete (gb_framebuffer (fst (fold resize_buffers [(640, 480), (800, 600)] (start_buffers counting (1024, 768) empty_context))))
        (snd (fold resize_buffers [(640, 480), (800, 600)] (start_buffers counting (1024, 768) empty_context)))"
  using buffers_follow_viewport [OF counting_fresh, of empty_context "(1024, 768)" "[(640, 480), (800, 600)]"]
  by (simp add: empty_context_def del: fold_simps)

definition one_triangle :: "real vbo" where
  "one_triangle = (new_vbo VF_BASE)\<lparr>vb_groups := [\<lparr>vg_material = None, vg_mesh_group = 0, vg_index_count = 3, vg_start = 0\<rparr>]\<rparr>"

definition lit_system :: render_system where
  "lit_system = empty_system ((scene [] Map.empty)\<lparr>rw_shaders := [''s'' \<mapsto> 1]\<rparr>)"

lemma passes_read_what_others_wrote_witness:
  "\<exists>g c points rs1. sized (2, 2) (g, c)
    \<and> point_light_pass (\<lambda>_ _. 0) ''s'' (0, one_triangle) (rs_viewport lit_system) (new_view True) lit_system = Some (points, rs1)
    \<and> targets (fold apply_call points (BeginLightPass g (EndGeometryPass (fold apply_call [Bind_texture 0 7] (BeginGeometryPass g (StartFrame g c))))))
      = {gb_final g} \<and> gb_final g \<notin> set (gb_color g)"
proof -
  obtain g c where gc: "start_buffers counting (2, 2) empty_context = (g, c)"
    by fastforce
  have sz: "sized (2, 2) (g, c)"
    using start_sized [OF counting_fresh, of empty_context "(2, 2)"] gc by (simp add: empty_context_def)
  let ?loc = "\<lambda>_ _. 0" and ?vp = "rs_viewport lit_system" and ?v = "new_view True"
  have group: "GetVertexGroup 0 one_triangle \<noteq> None" "GetVertexGroupIndexCount 0 one_triangle = Some 3"
    by (simp_all add: one_triangle_def GetVertexGroup_def GetVertexGroupIndexCount_def at_index_def)
  have shader: "rw_shaders (rs_world lit_system) ''s'' = Some 1"
    by (simp add: lit_system_def empty_system_def)
  obtain points rs1 where p: "point_light_pass ?loc ''s'' (0, one_triangle) ?vp ?v lit_system = Some (points, rs1)"
    and rs1: "rs_world rs1 = rs_world lit_system"
    using group(1) shader by (auto simp: point_light_pass_def)
  obtain dirs where d: "dir_light_pass ?loc ''s'' (Some (0, one_triangle)) ?vp ?v rs1 = Some dirs"
    using group(2) shader rs1 by (simp add: dir_light_pass_def)
  obtain final where f: "final_pass ?loc ''s'' (Some (0, one_triangle)) ?vp rs1 = Some final"
    using group(2) shader rs1 by (simp add: final_pass_def)
  show ?thesis
    using passes_read_what_others_wrote [OF sz p d f, of "length points" "[Bind_texture 0 7]"] sz p by auto
qed

end
