(* ===== verification/Net_Fragment.thy ===== *)
theory Net_Fragment
  imports Tec_Prelude
begin

text \<open>
  The message fragment of common/net-message.hpp: class \<open>Message\<close>, its header codec and
  \<open>MessagePool::get\<close>. A fragment is a fixed array of 1040 bytes, 16 of header and at most
  1024 of body, beside the decoded header fields. The lemmas show that the header codec is
  a round trip for every field value, and that the body length of a fragment never passes
  the array, whatever bytes arrive.
\<close>

subsection \<open>Message types\<close>

text \<open>
  \<open>enum MessageType : int\<close> has a fixed underlying type, so every 32-bit value that a header
  carries is a value of the enum; the listed enumerators are constants of that type.
\<close>

type_synonym MessageType = u32

definition SYNC :: MessageType where "SYNC = 0"
definition MULTI_PART :: MessageType where "MULTI_PART = 1"
definition CLIENT_COMMAND :: MessageType where "CLIENT_COMMAND = 2"
definition ENTITY_CREATE :: MessageType where "ENTITY_CREATE = 3"
definition ENTITY_DESTROY :: MessageType where "ENTITY_DESTROY = 4"
definition CLIENT_JOIN :: MessageType where "CLIENT_JOIN = 5"
definition CLIENT_ID :: MessageType where "CLIENT_ID = 6"
definition CLIENT_LEAVE :: MessageType where "CLIENT_LEAVE = 7"
definition GAME_STATE_UPDATE :: MessageType where "GAME_STATE_UPDATE = 8"
definition CHAT_MESSAGE :: MessageType where "CHAT_MESSAGE = 9"
definition CHAT_COMMAND :: MessageType where "CHAT_COMMAND = 10"
definition LOGIN :: MessageType where "LOGIN = 11"
definition AUTHENTICATED :: MessageType where "AUTHENTICATED = 12"
definition WORLD_SENT :: MessageType where "WORLD_SENT = 13"
definition CLIENT_READY_TO_RECEIVE :: MessageType where "CLIENT_READY_TO_RECEIVE = 14"

lemmas message_type_defs =
  SYNC_def MULTI_PART_def CLIENT_COMMAND_def ENTITY_CREATE_def ENTITY_DESTROY_def
  CLIENT_JOIN_def CLIENT_ID_def CLIENT_LEAVE_def GAME_STATE_UPDATE_def CHAT_MESSAGE_def
  CHAT_COMMAND_def LOGIN_def AUTHENTICATED_def WORLD_SENT_def CLIENT_READY_TO_RECEIVE_def

subsection \<open>The fragment\<close>

definition header_length :: nat where "header_length = 16"
definition max_body_length :: nat where "max_body_length = 1024"

record message =
  msg_data :: "byte list"
  body_length :: u32
  sequence_number :: u32
  message_type :: MessageType
  message_id :: u32

text \<open>The default constructor, and \<open>MessagePool::get\<close>, which calls it.\<close>

definition new_message :: message where
  "new_message = \<lparr>msg_data = replicate (header_length + max_body_length) 0,
     body_length = 0, sequence_number = 0, message_type = CHAT_MESSAGE, message_id = 0\<rparr>"

definition pool_get :: message where
  "pool_get = new_message"

definition GetBodyLength :: "message \<Rightarrow> nat" where
  "GetBodyLength m = unat (body_length m)"

definition msg_length :: "message \<Rightarrow> nat" where
  "msg_length m = header_length + GetBodyLength m"

text \<open>
  \<open>GetBodyPTR\<close> with \<open>GetBodyLength\<close> bytes: the body; \<open>buffer()\<close>: the bytes that are sent.
\<close>

definition body_bytes :: "message \<Rightarrow> byte list" where
  "body_bytes m = take (GetBodyLength m) (drop header_length (msg_data m))"

definition buffer :: "message \<Rightarrow> byte list" where
  "buffer m = take (msg_length m) (msg_data m)"

text \<open>\<open>memcpy\<close> to \<open>GetBodyPTR()\<close>: overwrite the body area from its start.\<close>

definition write_body :: "byte list \<Rightarrow> message \<Rightarrow> message" where
  "write_body bs m = m\<lparr>msg_data := take header_length (msg_data m) @ bs
      @ drop (header_length + length bs) (msg_data m)\<rparr>"

text \<open>
  \<open>SetBodyLength\<close>: the field is written before the check, so that the exception leaves
  the length clamped. \<open>Inl n\<close> is the \<open>std::length_error\<close> with the excess \<open>n\<close> in its text.
\<close>

definition SetBodyLength :: "u64 \<Rightarrow> message \<Rightarrow> (u64 + unit) \<times> message" where
  "SetBodyLength new_length m =
     (let m1 = m\<lparr>body_length := ucast new_length\<rparr> in
      if unat new_length > max_body_length
      then (Inl (new_length - of_nat max_body_length),
            m1\<lparr>body_length := of_nat max_body_length\<rparr>)
      else (Inr (), m1))"

subsection \<open>Little-endian words\<close>

definition decode_32 :: "byte list \<Rightarrow> nat \<Rightarrow> u32" where
  "decode_32 d p = ucast (d ! p) OR push_bit 8 (ucast (d ! (p + 1)))
     OR push_bit 16 (ucast (d ! (p + 2))) OR push_bit 24 (ucast (d ! (p + 3)))"

definition encode_32 :: "nat \<Rightarrow> u32 \<Rightarrow> byte list \<Rightarrow> byte list" where
  "encode_32 p v d = d[p := ucast (0xff AND v), p + 1 := ucast (0xff AND drop_bit 8 v),
     p + 2 := ucast (0xff AND drop_bit 16 v), p + 3 := ucast (0xff AND drop_bit 24 v)]"

definition decode_64 :: "byte list \<Rightarrow> nat \<Rightarrow> u64" where
  "decode_64 d p = ucast (d ! p) OR push_bit 8 (ucast (d ! (p + 1)))
     OR push_bit 16 (ucast (d ! (p + 2))) OR push_bit 24 (ucast (d ! (p + 3)))
     OR push_bit 32 (ucast (d ! (p + 4))) OR push_bit 40 (ucast (d ! (p + 5)))
     OR push_bit 48 (ucast (d ! (p + 6))) OR push_bit 56 (ucast (d ! (p + 7)))"

definition encode_64 :: "nat \<Rightarrow> u64 \<Rightarrow> byte list \<Rightarrow> byte list" where
  "encode_64 p v d = d[p := ucast (0xff AND v), p + 1 := ucast (0xff AND drop_bit 8 v),
     p + 2 := ucast (0xff AND drop_bit 16 v), p + 3 := ucast (0xff AND drop_bit 24 v),
     p + 4 := ucast (0xff AND drop_bit 32 v), p + 5 := ucast (0xff AND drop_bit 40 v),
     p + 6 := ucast (0xff AND drop_bit 48 v), p + 7 := ucast (0xff AND drop_bit 56 v)]"

definition encode_header :: "message \<Rightarrow> message" where
  "encode_header m = m\<lparr>msg_data :=
     encode_32 12 (sequence_number m) (encode_32 8 (message_id m)
       (encode_32 4 (message_type m) (encode_32 0 (body_length m) (msg_data m))))\<rparr>"

definition decode_header :: "message \<Rightarrow> bool \<times> message" where
  "decode_header m =
     (let d = msg_data m;
          m1 = m\<lparr>body_length := decode_32 d 0, message_type := decode_32 d 4,
                 message_id := decode_32 d 8, sequence_number := decode_32 d 12\<rparr> in
      if unat (body_length m1) > max_body_length then (False, m1\<lparr>body_length := 0\<rparr>)
      else (True, m1))"

subsection \<open>Facts about the codec\<close>

lemma length_encode_32 [simp]: "length (encode_32 p v d) = length d"
  by (simp add: encode_32_def)

lemma ff_is_mask: "(255 :: 'a::len word) = mask 8"
  by (simp add: mask_eq_exp_minus_1)

text \<open>Byte \<open>k div 8\<close> of a word, put back in its place, is its bits \<open>k ..< k + 8\<close>.\<close>

lemma bit_byte_slice:
  fixes v :: "'a::len word"
  shows "bit (push_bit k (ucast (ucast (255 AND drop_bit k v) :: byte)) :: 'a word) n
    \<longleftrightarrow> n < LENGTH('a) \<and> k \<le> n \<and> n < k + 8 \<and> bit v n"
  by (auto simp: ff_is_mask bit_simps less_diff_conv2)

lemma bit_byte_slice_0:
  fixes v :: "'a::len word"
  shows "bit (ucast (ucast (255 AND v) :: byte) :: 'a word) n
    \<longleftrightarrow> n < LENGTH('a) \<and> n < 8 \<and> bit v n"
  using bit_byte_slice [of 0 v n] by simp

lemma word32_bytes:
  fixes v :: u32
  shows "ucast (ucast (0xff AND v) :: byte) OR push_bit 8 (ucast (ucast (0xff AND drop_bit 8 v) :: byte))
    OR push_bit 16 (ucast (ucast (0xff AND drop_bit 16 v) :: byte))
    OR push_bit 24 (ucast (ucast (0xff AND drop_bit 24 v) :: byte)) = v"
  by (rule bit_word_eqI) (simp only: bit_or_iff bit_byte_slice bit_byte_slice_0, simp, linarith)

lemma word64_bytes:
  fixes v :: u64
  shows "ucast (ucast (0xff AND v) :: byte) OR push_bit 8 (ucast (ucast (0xff AND drop_bit 8 v) :: byte))
    OR push_bit 16 (ucast (ucast (0xff AND drop_bit 16 v) :: byte))
    OR push_bit 24 (ucast (ucast (0xff AND drop_bit 24 v) :: byte))
    OR push_bit 32 (ucast (ucast (0xff AND drop_bit 32 v) :: byte))
    OR push_bit 40 (ucast (ucast (0xff AND drop_bit 40 v) :: byte))
    OR push_bit 48 (ucast (ucast (0xff AND drop_bit 48 v) :: byte))
    OR push_bit 56 (ucast (ucast (0xff AND drop_bit 56 v) :: byte)) = v"
  by (rule bit_word_eqI) (simp only: bit_or_iff bit_byte_slice bit_byte_slice_0, simp, linarith)

lemma decode_encode_32 [simp]:
  "p + 3 < length d \<Longrightarrow> decode_32 (encode_32 p v d) p = v"
  by (simp add: decode_32_def encode_32_def word32_bytes)

lemma decode_encode_32_other [simp]:
  "p + 3 < q \<or> q + 3 < p \<Longrightarrow> decode_32 (encode_32 p v d) q = decode_32 d q"
  by (auto simp: decode_32_def encode_32_def)

lemma decode_encode_64 [simp]:
  "p + 7 < length d \<Longrightarrow> decode_64 (encode_64 p v d) p = v"
  by (simp add: decode_64_def encode_64_def word64_bytes)

subsection \<open>Invariant\<close>

text \<open>
  A fragment's array has its declared size and its body length fits the body area, so
  every access through \<open>GetBodyPTR\<close> and \<open>buffer\<close> stays inside the array.
\<close>

definition wf_message :: "message \<Rightarrow> bool" where
  "wf_message m \<longleftrightarrow> length (msg_data m) = header_length + max_body_length
     \<and> GetBodyLength m \<le> max_body_length"

lemmas fragment_consts = header_length_def max_body_length_def

lemma wf_new_message [wf_intros, simp]: "wf_message new_message"
  by (simp add: wf_message_def new_message_def GetBodyLength_def)

lemma wf_pool_get [wf_intros, simp]: "wf_message pool_get"
  by (simp add: pool_get_def)

lemma body_bytes_zero:
  "unat n \<le> max_body_length \<Longrightarrow>
     body_bytes (new_message\<lparr>body_length := n\<rparr>) = replicate (unat n) 0"
  by (simp add: body_bytes_def GetBodyLength_def new_message_def)

lemma body_length_of_nat:
  "n \<le> max_body_length \<Longrightarrow> unat (of_nat n :: u32) = n"
  by (simp add: max_body_length_def unat_of_nat)

lemma length_body_bytes [simp]: "wf_message m \<Longrightarrow> length (body_bytes m) = GetBodyLength m"
  by (simp add: wf_message_def body_bytes_def)

lemma length_buffer [simp]: "wf_message m \<Longrightarrow> length (buffer m) = msg_length m"
  by (simp add: wf_message_def buffer_def msg_length_def)

lemma body_bytes_header_fields [simp]:
  "body_bytes (m\<lparr>message_type := t\<rparr>) = body_bytes m"
  "body_bytes (m\<lparr>sequence_number := q\<rparr>) = body_bytes m"
  "body_bytes (m\<lparr>message_id := i\<rparr>) = body_bytes m"
  by (simp_all add: body_bytes_def GetBodyLength_def)

lemma GetBodyLength_header_fields [simp]:
  "GetBodyLength (m\<lparr>message_type := t\<rparr>) = GetBodyLength m"
  "GetBodyLength (m\<lparr>sequence_number := q\<rparr>) = GetBodyLength m"
  "GetBodyLength (m\<lparr>message_id := i\<rparr>) = GetBodyLength m"
  by (simp_all add: GetBodyLength_def)

lemma wf_message_header_fields [wf_intros, simp]:
  "wf_message (m\<lparr>message_type := t\<rparr>) = wf_message m"
  "wf_message (m\<lparr>sequence_number := q\<rparr>) = wf_message m"
  "wf_message (m\<lparr>message_id := i\<rparr>) = wf_message m"
  by (simp_all add: wf_message_def GetBodyLength_def)

lemma drop_encode_32 [simp]: "p + 3 < n \<Longrightarrow> drop n (encode_32 p v d) = drop n d"
  by (simp add: encode_32_def)

lemma encode_header_fields [simp, frame_simps]:
  "body_length (encode_header m) = body_length m"
  "sequence_number (encode_header m) = sequence_number m"
  "message_type (encode_header m) = message_type m"
  "message_id (encode_header m) = message_id m"
  "GetBodyLength (encode_header m) = GetBodyLength m"
  "msg_length (encode_header m) = msg_length m"
  by (simp_all add: encode_header_def GetBodyLength_def msg_length_def)

lemma body_bytes_encode_header [simp]: "body_bytes (encode_header m) = body_bytes m"
  by (simp add: body_bytes_def GetBodyLength_def encode_header_def header_length_def)

lemma wf_encode_header [wf_intros, simp]: "wf_message (encode_header m) = wf_message m"
  by (simp add: wf_message_def GetBodyLength_def encode_header_def)

lemma write_body_fields [simp, frame_simps]:
  "body_length (write_body bs m) = body_length m"
  "sequence_number (write_body bs m) = sequence_number m"
  "message_type (write_body bs m) = message_type m"
  "message_id (write_body bs m) = message_id m"
  "GetBodyLength (write_body bs m) = GetBodyLength m"
  by (simp_all add: write_body_def GetBodyLength_def)

lemma wf_write_body [wf_intros]:
  "wf_message m \<Longrightarrow> length bs \<le> max_body_length \<Longrightarrow> wf_message (write_body bs m)"
  by (simp add: wf_message_def write_body_def GetBodyLength_def)

lemma body_bytes_write_body:
  "wf_message m \<Longrightarrow> GetBodyLength m \<le> length bs \<Longrightarrow>
     body_bytes (write_body bs m) = take (GetBodyLength m) bs"
  by (simp add: wf_message_def write_body_def body_bytes_def GetBodyLength_def)

lemma ucast_of_nat_u64:
  "n \<le> max_body_length \<Longrightarrow> (ucast (of_nat n :: u64) :: u32) = of_nat n"
  by (simp add: max_body_length_def unsigned_of_nat take_bit_nat_eq_self)

lemma SetBodyLength_ok:
  assumes "n \<le> max_body_length"
  shows "SetBodyLength (of_nat n) m = (Inr (), m\<lparr>body_length := of_nat n\<rparr>)"
proof -
  have "unat (of_nat n :: u64) = n"
    using assms by (simp add: max_body_length_def unat_of_nat)
  then show ?thesis
    using assms by (simp add: SetBodyLength_def Let_def ucast_of_nat_u64)
qed

lemma decode_32_take: "p + 3 < n \<Longrightarrow> decode_32 (take n d) p = decode_32 d p"
  by (simp add: decode_32_def)

lemma encode_header_words:
  assumes "header_length \<le> length (msg_data m)"
  shows "decode_32 (msg_data (encode_header m)) 0 = body_length m"
    and "decode_32 (msg_data (encode_header m)) 4 = message_type m"
    and "decode_32 (msg_data (encode_header m)) 8 = message_id m"
    and "decode_32 (msg_data (encode_header m)) 12 = sequence_number m"
  using assms by (simp_all add: encode_header_def header_length_def)

lemma header_bytes_words:
  assumes "take header_length d = take header_length e" and "p + 3 < header_length"
  shows "decode_32 d p = decode_32 e p"
  using assms decode_32_take by metis

subsection \<open>Properties\<close>

text \<open>C9: Header round trip. The 16 bytes that \<open>encode_header\<close> writes for a well-formed
  fragment are accepted by \<open>decode_header\<close> in any receiving fragment, and give back the
  body length, message type, message id and sequence number, every other field and byte of
  the receiver being unchanged.\<close>

theorem header_roundtrip:
  assumes "wf_message m"
    and "take header_length (msg_data r) = take header_length (msg_data (encode_header m))"
  shows "decode_header r = (True, r\<lparr>body_length := body_length m, message_type := message_type m,
    message_id := message_id m, sequence_number := sequence_number m\<rparr>)"
proof -
  note words = header_bytes_words [OF assms(2)]
  have "decode_32 (msg_data r) 0 = body_length m" "decode_32 (msg_data r) 4 = message_type m"
    "decode_32 (msg_data r) 8 = message_id m" "decode_32 (msg_data r) 12 = sequence_number m"
    using assms(1) words [of 0] words [of 4] words [of 8] words [of 12]
    by (simp_all add: encode_header_words wf_message_def header_length_def)
  then show ?thesis
    using assms(1) by (simp add: decode_header_def Let_def wf_message_def GetBodyLength_def)
qed

theorem header_roundtrip_witness:
  "decode_header (new_message\<lparr>msg_data := msg_data (encode_header
       (new_message\<lparr>body_length := 700, message_type := LOGIN, sequence_number := 5\<rparr>))\<rparr>)
   = (True, new_message\<lparr>msg_data := msg_data (encode_header
       (new_message\<lparr>body_length := 700, message_type := LOGIN, sequence_number := 5\<rparr>)),
       body_length := 700, message_type := LOGIN, sequence_number := 5\<rparr>)"
  by (subst header_roundtrip
        [of "new_message\<lparr>body_length := 700, message_type := LOGIN, sequence_number := 5\<rparr>"])
    (simp_all add: wf_message_def new_message_def GetBodyLength_def fragment_consts)

text \<open>C10: Whatever 16 bytes a peer sends, decoding leaves a fragment whose body length is at
  most 1024 and whose body and buffer lie inside its array; the header is refused exactly
  when the length word is above 1024, and then the body length is 0.\<close>

theorem decode_header_bounds:
  assumes "length (msg_data m) = header_length + max_body_length"
  shows "wf_message (snd (decode_header m))
    \<and> (fst (decode_header m) \<longleftrightarrow> unat (decode_32 (msg_data m) 0) \<le> max_body_length)
    \<and> (fst (decode_header m) \<or> GetBodyLength (snd (decode_header m)) = 0)"
  using assms by (auto simp: decode_header_def Let_def wf_message_def GetBodyLength_def)

theorem decode_header_bounds_witness:
  "wf_message (snd (decode_header (new_message\<lparr>msg_data := replicate 1040 255\<rparr>)))
   \<and> \<not> fst (decode_header (new_message\<lparr>msg_data := replicate 1040 255\<rparr>))
   \<and> GetBodyLength (snd (decode_header (new_message\<lparr>msg_data := replicate 1040 255\<rparr>))) = 0"
proof -
  have len: "length (msg_data (new_message\<lparr>msg_data := replicate 1040 255\<rparr>))
      = header_length + max_body_length"
    by (simp add: fragment_consts)
  show ?thesis
    using decode_header_bounds [OF len] by (auto simp: decode_32_def fragment_consts)
qed

text \<open>\<open>SetBodyLength\<close> never leaves a length above 1024: up to 1024 it stores the length
  and returns, above it throws with the exact excess and the stored length is 1024.\<close>

theorem SetBodyLength_spec:
  "fst (SetBodyLength n m) =
     (if unat n \<le> max_body_length then Inr () else Inl (of_nat (unat n - max_body_length)))
   \<and> GetBodyLength (snd (SetBodyLength n m)) = min (unat n) max_body_length
   \<and> msg_data (snd (SetBodyLength n m)) = msg_data m"
proof (cases "unat n \<le> max_body_length")
  case True
  then show ?thesis
    using SetBodyLength_ok [OF True, of m] body_length_of_nat [OF True]
    by (simp add: GetBodyLength_def)
next
  case False
  then have "of_nat (unat n - max_body_length) = n - (of_nat max_body_length :: u64)"
    by (simp add: of_nat_diff)
  with False show ?thesis
    by (simp add: SetBodyLength_def Let_def GetBodyLength_def max_body_length_def)
qed

end
