(* ===== verification/Net_Stream.thy ===== *)
theory Net_Stream
  imports Net_Fragment
begin

text \<open>
  The composite messages of common/net-message.hpp and net-message.cpp: \<open>MessageOut\<close>, an
  output stream that cuts a payload into fragments, and \<open>MessageIn\<close>, an input stream over
  received fragments. A list of fragments stands for the \<open>std::list\<close> of shared pointers;
  every write to a fragment goes through its stream here, and the header fields that
  \<open>GetMessages\<close> writes are a function of the stream alone, so copies of a stream, which
  share its fragments, see the same bytes.

  \<open>MessageIn::Next\<close> contains a loop that need not end; it is a partial function whose
  \<open>None\<close> means that the call does not return. The lemmas give the exact condition.
\<close>

subsection \<open>MessageOut\<close>

record message_out =
  out_type :: MessageType
  out_id :: u32
  current_sequence :: u32
  payload_written :: int
  out_list :: "message list"

definition new_out :: "MessageType \<Rightarrow> message_out" where
  "new_out t = \<lparr>out_type = t, out_id = 0, current_sequence = 0, payload_written = 0, out_list = []\<rparr>"

definition out_IsEmpty :: "message_out \<Rightarrow> bool" where
  "out_IsEmpty out \<longleftrightarrow> out_list out = []"

text \<open>
  \<open>Next\<close> hands out the body of the fragment it appends: the pointer is the body area of
  the last fragment, the size is returned.
\<close>

definition out_Next :: "message_out \<Rightarrow> bool \<times> int \<times> message_out" where
  "out_Next out =
     (let prev = update_last (\<lambda>m. m\<lparr>message_type := MULTI_PART\<rparr>) (out_list out);
          msg = pool_get\<lparr>message_type := out_type out, message_id := out_id out\<rparr>;
          msg = snd (SetBodyLength (of_nat max_body_length) msg);
          body_size = int (GetBodyLength msg)
      in (True, body_size,
          out\<lparr>out_list := prev @ [msg], payload_written := payload_written out + body_size\<rparr>))"

definition out_write :: "byte list \<Rightarrow> message_out \<Rightarrow> message_out" where
  "out_write bs out = out\<lparr>out_list := update_last (write_body bs) (out_list out)\<rparr>"

definition out_BackUp :: "int \<Rightarrow> message_out \<Rightarrow> message_out" where
  "out_BackUp count out =
     (if out_list out = [] \<or> count < 1 then out
      else if nat count > GetBodyLength (last (out_list out)) then out
      else out\<lparr>out_list := update_last
                 (\<lambda>m. snd (SetBodyLength (of_nat (GetBodyLength m - nat count)) m)) (out_list out),
               payload_written := payload_written out - count\<rparr>)"

text \<open>
  \<open>FromBuffer\<close>: the argument is the part of the buffer that is still to be copied, so its
  length is \<open>remain\<close>.
\<close>

lemma body_length_full [simp]:
  "snd (SetBodyLength (of_nat max_body_length) m) = m\<lparr>body_length := of_nat max_body_length\<rparr>"
  by (simp add: SetBodyLength_ok)

lemma GetBodyLength_update [simp]:
  "n \<le> max_body_length \<Longrightarrow> GetBodyLength (m\<lparr>body_length := of_nat n\<rparr>) = n"
  by (simp add: GetBodyLength_def body_length_of_nat)

lemma out_Next_size: "fst (snd (out_Next out)) = int max_body_length"
  by (simp add: out_Next_def Let_def)

function FromBuffer :: "byte list \<Rightarrow> message_out \<Rightarrow> message_out" where
  "FromBuffer body out =
     (if body = [] then out
      else case out_Next out of (ok, buffer_size, out1) \<Rightarrow>
        if \<not> ok then out1
        else if buffer_size \<le> 0 then FromBuffer body out1
        else if nat buffer_size \<le> length body
        then FromBuffer (drop (nat buffer_size) body)
               (out_write (take (nat buffer_size) body) out1)
        else out_BackUp (buffer_size - int (length body)) (out_write body out1))"
  by pat_completeness auto
termination
  by (relation "measure (\<lambda>(body, out). length body)")
    (auto simp: out_Next_def Let_def, simp add: max_body_length_def)

declare FromBuffer.simps [simp del]

fun number_from :: "u32 \<Rightarrow> u32 \<Rightarrow> message list \<Rightarrow> message list" where
  "number_from sequence id' [] = []"
| "number_from sequence id' (m # ms) =
     encode_header (m\<lparr>message_type := MULTI_PART, sequence_number := sequence, message_id := id'\<rparr>)
       # number_from (sequence + 1) id' ms"

definition GetMessages :: "message_out \<Rightarrow> message list \<times> message_out" where
  "GetMessages out =
     (let ms = update_last (\<lambda>m. encode_header (m\<lparr>message_type := out_type out\<rparr>))
                 (number_from 0 (out_id out) (out_list out))
      in (ms, out\<lparr>out_list := ms\<rparr>))"

subsection \<open>MessageIn\<close>

text \<open>
  \<open>read_index\<close> is the list iterator: \<open>Some i\<close> at element \<open>i\<close>, \<open>None\<close> at \<open>cend()\<close>, where it
  stays when a fragment is pushed. It has no value before the first \<open>Next\<close>, which sets it.
\<close>

record message_in =
  in_type :: MessageType
  in_id :: u32
  payload_read :: int
  read_offset :: nat
  in_list :: "message list"
  read_index :: "nat option"

definition new_in :: "MessageType \<Rightarrow> message_in" where
  "new_in t = \<lparr>in_type = t, in_id = 0, payload_read = 0, read_offset = 0, in_list = [],
     read_index = None\<rparr>"

definition list_begin :: "'a list \<Rightarrow> nat option" where
  "list_begin xs = (if xs = [] then None else Some 0)"

definition list_next :: "'a list \<Rightarrow> nat \<Rightarrow> nat option" where
  "list_next xs i = (if Suc i < length xs then Some (Suc i) else None)"

definition in_IsEmpty :: "message_in \<Rightarrow> bool" where
  "in_IsEmpty st \<longleftrightarrow> in_list st = []"

definition GetSize :: "message_in \<Rightarrow> nat" where
  "GetSize st = sum_list (map GetBodyLength (in_list st))"

definition PushMessage :: "message \<Rightarrow> message_in \<Rightarrow> bool \<times> message_in" where
  "PushMessage msg st = (True, st\<lparr>in_list := in_list st @ [msg]\<rparr>)"

definition in_Reset :: "message_in \<Rightarrow> message_in" where
  "in_Reset st = st\<lparr>payload_read := 0, read_offset := 0\<rparr>"

definition in_ByteCount :: "message_in \<Rightarrow> int" where
  "in_ByteCount st = payload_read st + int (read_offset st)"

text \<open>
  The \<open>while (read_length == 0)\<close> loop of \<open>Next\<close>. The returned length is 0 exactly where the
  code returns false at the end of the list.
\<close>

partial_function (option) next_loop :: "message_in \<Rightarrow> (nat \<times> message_in) option" where
  "next_loop st =
     (case read_index st of
        None \<Rightarrow> Some (0, st)
      | Some i \<Rightarrow>
          (let read_length = GetBodyLength (in_list st ! i) in
           if read_offset st = read_length
           then next_loop (st\<lparr>payload_read := payload_read st + int (read_offset st),
                              read_offset := 0, read_index := list_next (in_list st) i\<rparr>)
           else if read_length = 0 then next_loop st
           else Some (read_length, st)))"

text \<open>
  \<open>Next\<close>: the result is whether a buffer was returned, the bytes of the buffer (\<open>*data\<close>
  and \<open>*size\<close>), and the new state.
\<close>

definition in_Next :: "message_in \<Rightarrow> (bool \<times> byte list \<times> message_in) option" where
  "in_Next st =
     (let st0 = (if payload_read st = 0 then st\<lparr>read_index := list_begin (in_list st)\<rparr> else st) in
      case next_loop st0 of
        None \<Rightarrow> None
      | Some (read_length, st1) \<Rightarrow>
          if read_length = 0 then Some (False, [], st1)
          else
            (let body = body_bytes (in_list st1 ! the (read_index st1)) in
             if read_offset st1 = 0
             then Some (True, take read_length body, st1\<lparr>read_offset := read_length\<rparr>)
             else if read_offset st1 < read_length
             then Some (True, take (read_length - read_offset st1) (drop (read_offset st1) body),
                        st1\<lparr>read_offset := read_length\<rparr>)
             else Some (False, [], st1)))"

definition in_BackUp :: "int \<Rightarrow> message_in \<Rightarrow> message_in" where
  "in_BackUp count st =
     (if 0 \<le> count \<and> nat count \<le> read_offset st
      then st\<lparr>read_offset := read_offset st - nat count\<rparr> else st)"

text \<open>The first argument is what the string, or the buffer up to \<open>offset\<close>, holds so far.\<close>

partial_function (option) ReadString ::
  "byte list \<Rightarrow> message_in \<Rightarrow> (byte list \<times> message_in) option" where
  "ReadString body st =
     (case in_Next st of
        None \<Rightarrow> None
      | Some (ok, chunk, st1) \<Rightarrow>
          (if \<not> ok then Some (body, st1)
           else if chunk = [] then ReadString body st1
           else ReadString (body @ chunk) st1))"

definition ToString :: "message_in \<Rightarrow> (byte list \<times> message_in) option" where
  "ToString st = ReadString [] st"

partial_function (option) ReadBuffer ::
  "nat \<Rightarrow> byte list \<Rightarrow> message_in \<Rightarrow> (byte list \<times> message_in) option" where
  "ReadBuffer len body st =
     (if length body < len
      then case in_Next st of
          None \<Rightarrow> None
        | Some (ok, chunk, st1) \<Rightarrow>
            (if \<not> ok then Some (body, st1)
             else if chunk = [] then ReadBuffer len body st1
             else if length body + length chunk \<le> len then ReadBuffer len (body @ chunk) st1
             else (let room = len - length body in
                   Some (body @ take room chunk,
                         in_BackUp (int (length chunk) - int room) st1)))
      else Some (body, st))"

partial_function (option) Skip :: "int \<Rightarrow> message_in \<Rightarrow> (bool \<times> message_in) option" where
  "Skip count st =
     (if 0 < count
      then case in_Next st of
          None \<Rightarrow> None
        | Some (ok, chunk, st1) \<Rightarrow>
            (if \<not> ok then Some (False, st1)
             else if int (length chunk) \<le> count then Skip (count - int (length chunk)) st1
             else Some (True, in_BackUp (int (length chunk) - count) st1))
      else Some (True, st))"

text \<open>
  \<open>DecodeMessages\<close>: the scan stops at a fragment out of sequence (\<open>None\<close>), after the first
  fragment that is not \<open>MULTI_PART\<close> (its type and the fragments behind it), or at the end.
\<close>

fun decode_scan :: "message list \<Rightarrow> u32 \<Rightarrow> (MessageType option \<times> message list) option" where
  "decode_scan [] verify = Some (None, [])"
| "decode_scan (m # ms) verify =
     (if sequence_number m \<noteq> verify then None
      else if message_type m \<noteq> MULTI_PART then Some (Some (message_type m), ms)
      else decode_scan ms (verify + 1))"

definition DecodeMessages :: "message_in \<Rightarrow> bool \<times> message_in" where
  "DecodeMessages st =
     (case decode_scan (in_list st) 0 of
        None \<Rightarrow> (False, st)
      | Some (None, rest) \<Rightarrow> (False, st)
      | Some (Some t, rest) \<Rightarrow> (rest = [], st\<lparr>in_type := t\<rparr>))"

definition AssignMessages :: "message list \<Rightarrow> message_in \<Rightarrow> bool \<times> message_in" where
  "AssignMessages msgs st = DecodeMessages (st\<lparr>in_list := msgs\<rparr>)"

definition ToOut :: "message_in \<Rightarrow> message_out" where
  "ToOut st = (new_out CHAT_MESSAGE)\<lparr>out_type := in_type st, out_id := in_id st,
     out_list := in_list st, payload_written := int (GetSize st)\<rparr>"

subsection \<open>Writing: the fragments of a stream\<close>

definition out_bytes :: "message_out \<Rightarrow> byte list" where
  "out_bytes out = concat (map body_bytes (out_list out))"

definition wf_out :: "message_out \<Rightarrow> bool" where
  "wf_out out \<longleftrightarrow> (\<forall>m \<in> set (out_list out). wf_message m)
     \<and> payload_written out = int (length (out_bytes out))"

lemma wf_new_out [wf_intros, simp]: "wf_out (new_out t)"
  by (simp add: wf_out_def new_out_def out_bytes_def)

lemma body_length_update_msg:
  "wf_message m \<Longrightarrow> n \<le> max_body_length \<Longrightarrow>
     wf_message (m\<lparr>body_length := of_nat n\<rparr>)
     \<and> body_bytes (m\<lparr>body_length := of_nat n\<rparr>) = take n (drop header_length (msg_data m))"
  by (simp add: wf_message_def body_bytes_def)

lemma out_write_Next:
  assumes "out_Next out = (ok, sz, out1)" and "length bs \<le> max_body_length"
  shows "out_write bs out1 = out\<lparr>out_list := update_last (\<lambda>m. m\<lparr>message_type := MULTI_PART\<rparr>) (out_list out)
      @ [write_body bs (pool_get\<lparr>message_type := out_type out, message_id := out_id out,
                                 body_length := of_nat max_body_length\<rparr>)],
    payload_written := payload_written out + int max_body_length\<rparr>"
  using assms by (auto simp: out_Next_def Let_def out_write_def)

text \<open>
  The fragment that \<open>FromBuffer\<close> leaves for a piece \<open>bs\<close> of at most 1024 bytes.
\<close>

definition piece :: "message_out \<Rightarrow> byte list \<Rightarrow> message" where
  "piece out bs = (write_body bs (pool_get\<lparr>message_type := out_type out, message_id := out_id out\<rparr>))
     \<lparr>body_length := of_nat (length bs)\<rparr>"

lemma wf_piece [wf_intros]: "length bs \<le> max_body_length \<Longrightarrow> wf_message (piece out bs)"
  by (simp add: piece_def body_length_update_msg wf_write_body wf_intros)

lemma body_bytes_piece: "length bs \<le> max_body_length \<Longrightarrow> body_bytes (piece out bs) = bs"
  by (simp add: piece_def body_length_update_msg wf_write_body wf_intros)
     (simp add: write_body_def pool_get_def new_message_def header_length_def)

lemma GetBodyLength_piece: "length bs \<le> max_body_length \<Longrightarrow> GetBodyLength (piece out bs) = length bs"
  by (simp add: piece_def)

definition add_piece :: "byte list \<Rightarrow> message_out \<Rightarrow> message_out" where
  "add_piece bs out = out\<lparr>out_list := update_last (\<lambda>m. m\<lparr>message_type := MULTI_PART\<rparr>) (out_list out)
      @ [piece out bs], payload_written := payload_written out + int (length bs)\<rparr>"

lemma write_body_body_length:
  "(write_body bs m)\<lparr>body_length := n\<rparr> = write_body bs (m\<lparr>body_length := n\<rparr>)"
  by (simp add: write_body_def)

lemma FromBuffer_full:
  assumes "max_body_length \<le> length body"
  shows "FromBuffer body out =
    FromBuffer (drop max_body_length body) (add_piece (take max_body_length body) out)"
proof -
  obtain ok sz out1 where nx: "out_Next out = (ok, sz, out1)"
    by (metis prod_cases3)
  then have "ok" "sz = int max_body_length"
    by (auto simp: out_Next_def Let_def)
  moreover have "out_write (take max_body_length body) out1 = add_piece (take max_body_length body) out"
    using out_write_Next [OF nx, of "take max_body_length body"] assms
    by (simp add: add_piece_def piece_def write_body_body_length)
  moreover have "body \<noteq> []" "0 < max_body_length"
    using assms by (auto simp: max_body_length_def)
  ultimately show ?thesis
    using assms nx by (subst FromBuffer.simps) simp
qed

lemma FromBuffer_short:
  assumes "body \<noteq> []" and "length body < max_body_length"
  shows "FromBuffer body out = add_piece body out"
proof -
  obtain ok sz out1 where nx: "out_Next out = (ok, sz, out1)"
    by (metis prod_cases3)
  then have ok: "ok" "sz = int max_body_length"
    by (auto simp: out_Next_def Let_def)
  have "out_BackUp (int max_body_length - int (length body)) (out_write body out1) = add_piece body out"
    using out_write_Next [OF nx, of body] assms
    by (simp add: out_BackUp_def add_piece_def piece_def write_body_body_length
        SetBodyLength_ok nat_diff_distrib)
  then show ?thesis
    using assms nx ok by (subst FromBuffer.simps) simp
qed

lemma out_bytes_add_piece:
  "length bs \<le> max_body_length \<Longrightarrow> out_bytes (add_piece bs out) = out_bytes out @ bs"
  by (simp add: out_bytes_def add_piece_def body_bytes_piece map_update_last)

lemma wf_add_piece [wf_intros]:
  "wf_out out \<Longrightarrow> length bs \<le> max_body_length \<Longrightarrow> wf_out (add_piece bs out)"
  using out_bytes_add_piece [of bs out]
  by (auto simp: wf_out_def add_piece_def wf_piece dest!: set_update_last)

text \<open>
  Induction over the pieces of a buffer: the shape every proof about \<open>FromBuffer\<close> has.
\<close>

lemma FromBuffer_pieces:
  assumes "P out"
    and "\<And>out bs. P out \<Longrightarrow> bs \<noteq> [] \<Longrightarrow> length bs \<le> max_body_length \<Longrightarrow> P (add_piece bs out)"
  shows "P (FromBuffer body out)"
  using assms(1)
proof (induction body arbitrary: out rule: length_induct)
  case (1 body)
  have pos: "0 < max_body_length"
    by (simp add: max_body_length_def)
  consider "body = []" | "body \<noteq> []" "length body < max_body_length" | "max_body_length \<le> length body"
    by linarith
  then show ?case
  proof cases
    case 1
    then show ?thesis using "1.prems" by (simp add: FromBuffer.simps)
  next
    case 2
    then show ?thesis using "1.prems" assms(2) by (simp add: FromBuffer_short)
  next
    case 3
    then have "P (add_piece (take max_body_length body) out)"
      using pos by (intro assms(2) "1.prems") (auto simp: max_body_length_def)
    moreover have "length (drop max_body_length body) < length body"
      using 3 pos by (cases body) auto
    ultimately show ?thesis
      using 3 "1.IH" by (simp add: FromBuffer_full)
  qed
qed

lemma wf_FromBuffer [wf_intros]: "wf_out out \<Longrightarrow> wf_out (FromBuffer body out)"
  by (rule FromBuffer_pieces) (auto intro: wf_intros)

lemma FromBuffer_fields [simp, frame_simps]:
  "out_type (FromBuffer body out) = out_type out \<and> out_id (FromBuffer body out) = out_id out
   \<and> current_sequence (FromBuffer body out) = current_sequence out"
  by (rule FromBuffer_pieces) (auto simp: add_piece_def)

lemma out_bytes_FromBuffer [simp]: "out_bytes (FromBuffer body out) = out_bytes out @ body"
proof (induction body arbitrary: out rule: length_induct)
  case (1 body)
  have pos: "0 < max_body_length"
    by (simp add: max_body_length_def)
  consider "body = []" | "body \<noteq> []" "length body < max_body_length" | "max_body_length \<le> length body"
    by linarith
  then show ?case
  proof cases
    case 3
    then have "length (drop max_body_length body) < length body"
      using pos by (cases body) auto
    with 3 "1.IH" show ?thesis
      by (simp add: FromBuffer_full out_bytes_add_piece)
  qed (simp_all add: FromBuffer.simps [of "[]"] FromBuffer_short out_bytes_add_piece)
qed

lemma out_list_FromBuffer_Nil [simp]:
  "out_list (FromBuffer body out) = [] \<longleftrightarrow> body = [] \<and> out_list out = []"
proof (cases "body = []")
  case True
  then show ?thesis by (simp add: FromBuffer.simps)
next
  case False
  have "out_bytes (FromBuffer body out) \<noteq> []"
    using False by simp
  then show ?thesis
    using False by (auto simp: out_bytes_def)
qed

lemma FromBuffer_nonempty_pieces:
  assumes "\<forall>m \<in> set (out_list out). 0 < GetBodyLength m"
  shows "\<forall>m \<in> set (out_list (FromBuffer body out)). 0 < GetBodyLength m"
  using assms
proof (rule FromBuffer_pieces [where P = "\<lambda>out. \<forall>m \<in> set (out_list out). 0 < GetBodyLength m"])
  fix out :: message_out and bs :: "byte list"
  assume old: "\<forall>m \<in> set (out_list out). 0 < GetBodyLength m"
    and bs: "bs \<noteq> []" "length bs \<le> max_body_length"
  have "0 < GetBodyLength (m\<lparr>message_type := MULTI_PART\<rparr>)" if "0 < GetBodyLength m" for m
    using that by (simp add: GetBodyLength_def)
  with old bs show "\<forall>m \<in> set (out_list (add_piece bs out)). 0 < GetBodyLength m"
    by (auto simp: add_piece_def GetBodyLength_piece dest!: set_update_last)
qed

subsection \<open>Reading: what is left of a stream\<close>

text \<open>
  The fragment the next \<open>Next\<close> looks at first: it starts over while \<open>payload_read\<close> is 0.
\<close>

definition read_pos :: "message_in \<Rightarrow> nat option" where
  "read_pos st = (if payload_read st = 0 then list_begin (in_list st) else read_index st)"

definition unread :: "message_in \<Rightarrow> byte list" where
  "unread st = (case read_pos st of None \<Rightarrow> []
     | Some i \<Rightarrow> drop (read_offset st) (concat (map body_bytes (drop i (in_list st)))))"

definition in_bytes :: "message list \<Rightarrow> byte list" where
  "in_bytes ms = concat (map body_bytes ms)"

text \<open>
  The lists that can be read to the end: no fragment carries bytes, or the first one does.
\<close>

definition readable :: "message list \<Rightarrow> bool" where
  "readable ms \<longleftrightarrow> (\<forall>m \<in> set ms. GetBodyLength m = 0) \<or> 0 < GetBodyLength (hd ms)"

definition wf_in :: "message_in \<Rightarrow> bool" where
  "wf_in st \<longleftrightarrow> (\<forall>m \<in> set (in_list st). wf_message m) \<and> readable (in_list st)
     \<and> (case read_pos st of
          None \<Rightarrow> read_offset st = 0 \<and> payload_read st = int (length (in_bytes (in_list st)))
        | Some i \<Rightarrow> i < length (in_list st) \<and> read_offset st \<le> GetBodyLength (in_list st ! i)
            \<and> payload_read st = int (length (in_bytes (take i (in_list st)))))"

lemma in_bytes_simps [simp]:
  "in_bytes [] = []" "in_bytes (m # ms) = body_bytes m @ in_bytes ms"
  "in_bytes (ms @ ns) = in_bytes ms @ in_bytes ns"
  by (simp_all add: in_bytes_def)

lemma body_bytes_Nil_iff [simp]: "wf_message m \<Longrightarrow> body_bytes m = [] \<longleftrightarrow> GetBodyLength m = 0"
  by (metis length_0_conv length_body_bytes)

lemma in_bytes_Nil_iff:
  "\<forall>m \<in> set ms. wf_message m \<Longrightarrow> in_bytes ms = [] \<longleftrightarrow> (\<forall>m \<in> set ms. GetBodyLength m = 0)"
  by (induction ms) auto

lemma in_bytes_take_Suc:
  "i < length ms \<Longrightarrow> in_bytes (take (Suc i) ms) = in_bytes (take i ms) @ body_bytes (ms ! i)"
  by (simp add: take_Suc_conv_app_nth)

lemma in_bytes_drop:
  "i < length ms \<Longrightarrow> in_bytes (drop i ms) = body_bytes (ms ! i) @ in_bytes (drop (Suc i) ms)"
  by (simp add: Cons_nth_drop_Suc [symmetric])

lemma list_next_cases:
  "i < length xs \<Longrightarrow> (list_next xs i = None \<and> Suc i = length xs)
     \<or> (list_next xs i = Some (Suc i) \<and> Suc i < length xs)"
  by (auto simp: list_next_def)

lemma next_loop_end [simp]: "read_index st = None \<Longrightarrow> next_loop st = Some (0, st)"
  by (subst next_loop.simps) simp

lemma next_loop_skip:
  "read_index st = Some i \<Longrightarrow> read_offset st = GetBodyLength (in_list st ! i) \<Longrightarrow>
     next_loop st = next_loop (st\<lparr>payload_read := payload_read st + int (read_offset st),
                              read_offset := 0, read_index := list_next (in_list st) i\<rparr>)"
  by (subst next_loop.simps) simp

lemma next_loop_stop:
  "read_index st = Some i \<Longrightarrow> read_offset st \<noteq> GetBodyLength (in_list st ! i) \<Longrightarrow>
     GetBodyLength (in_list st ! i) \<noteq> 0 \<Longrightarrow>
     next_loop st = Some (GetBodyLength (in_list st ! i), st)"
  by (subst next_loop.simps) simp

text \<open>
  The state after the loop: the same bytes are left, and either the iterator is at the end
  or it stands at a fragment of which something is left.
\<close>

definition loop_result :: "message_in \<Rightarrow> nat \<times> message_in \<Rightarrow> bool" where
  "loop_result st r \<longleftrightarrow> (case r of (rl, st1) \<Rightarrow>
     in_list st1 = in_list st \<and> in_type st1 = in_type st \<and> in_id st1 = in_id st \<and>
     (case read_index st1 of
        None \<Rightarrow> rl = 0 \<and> read_offset st1 = 0
          \<and> payload_read st1 = int (length (in_bytes (in_list st)))
      | Some j \<Rightarrow> j < length (in_list st) \<and> rl = GetBodyLength (in_list st ! j)
          \<and> read_offset st1 < rl \<and> payload_read st1 = int (length (in_bytes (take j (in_list st))))))"

lemma loop_result_same_list:
  "in_list st = in_list st' \<Longrightarrow> in_type st = in_type st' \<Longrightarrow> in_id st = in_id st' \<Longrightarrow>
     loop_result st = loop_result st'"
  by (auto simp: loop_result_def fun_eq_iff split: option.split)

definition left_from :: "message_in \<Rightarrow> byte list" where
  "left_from st = (case read_index st of None \<Rightarrow> []
     | Some i \<Rightarrow> drop (read_offset st) (in_bytes (drop i (in_list st))))"

lemma next_loop_returns:
  assumes "\<forall>m \<in> set (in_list st). wf_message m"
    and "read_index st = Some i" and "i < length (in_list st)"
    and "read_offset st \<le> GetBodyLength (in_list st ! i)"
    and "payload_read st = int (length (in_bytes (take i (in_list st))))"
  shows "\<exists>r. next_loop st = Some r \<and> loop_result st r \<and> left_from (snd r) = left_from st"
  using assms
proof (induction "length (in_list st) - i" arbitrary: st i rule: less_induct)
  case less
  let ?m = "in_list st ! i"
  have len: "length (body_bytes ?m) = GetBodyLength ?m"
    using less.prems by simp
  show ?case
  proof (cases "read_offset st = GetBodyLength ?m")
    case False
    then have "next_loop st = Some (GetBodyLength ?m, st)"
      using less.prems by (intro next_loop_stop) auto
    with False less.prems show ?thesis
      by (auto simp: loop_result_def)
  next
    case True
    let ?st = "st\<lparr>payload_read := payload_read st + int (read_offset st),
                 read_offset := 0, read_index := list_next (in_list st) i\<rparr>"
    have step: "next_loop st = next_loop ?st"
      using True less.prems by (intro next_loop_skip) auto
    have left: "left_from ?st = left_from st"
      using less.prems True len list_next_cases [of i "in_list st"]
      by (auto simp: left_from_def in_bytes_drop)
    have paid: "payload_read ?st = int (length (in_bytes (take (Suc i) (in_list st))))"
      using less.prems True len by (simp add: in_bytes_take_Suc)
    from less.prems(3) list_next_cases [of i "in_list st"]
    consider "list_next (in_list st) i = None" "Suc i = length (in_list st)"
      | "list_next (in_list st) i = Some (Suc i)" "Suc i < length (in_list st)"
      by auto
    then show ?thesis
    proof cases
      case 1
      then have "next_loop st = Some (0, ?st)"
        unfolding step by simp
      with 1 left paid show ?thesis
        by (auto simp: loop_result_def)
    next
      case 2
      have "\<exists>r. next_loop ?st = Some r \<and> loop_result ?st r \<and> left_from (snd r) = left_from ?st"
        using less.prems 2 paid by (intro less.hyps [of ?st "Suc i"]) auto
      moreover have "loop_result ?st = loop_result st"
        by (rule loop_result_same_list) simp_all
      ultimately show ?thesis
        using step left by simp
    qed
  qed
qed

lemma readable_payload_zero:
  assumes "readable ms" "\<forall>m \<in> set ms. wf_message m" "in_bytes ms \<noteq> []" "i \<le> length ms"
  shows "in_bytes (take i ms) = [] \<longleftrightarrow> i = 0"
proof (cases ms)
  case Nil
  with assms show ?thesis by simp
next
  case (Cons m ns)
  have "0 < GetBodyLength m"
    using assms Cons in_bytes_Nil_iff [OF assms(2)] by (auto simp: readable_def)
  with Cons assms(2) show ?thesis by (cases i) auto
qed

lemma unread_left_from:
  "unread st = left_from (st\<lparr>read_index := read_pos st\<rparr>)"
  by (simp add: unread_def left_from_def in_bytes_def split: option.split)

lemma in_Next_start:
  "in_Next st = (case next_loop (st\<lparr>read_index := read_pos st\<rparr>) of None \<Rightarrow> None
     | Some (read_length, st1) \<Rightarrow>
          if read_length = 0 then Some (False, [], st1)
          else
            (let body = body_bytes (in_list st1 ! the (read_index st1)) in
             if read_offset st1 = 0
             then Some (True, take read_length body, st1\<lparr>read_offset := read_length\<rparr>)
             else if read_offset st1 < read_length
             then Some (True, take (read_length - read_offset st1) (drop (read_offset st1) body),
                        st1\<lparr>read_offset := read_length\<rparr>)
             else Some (False, [], st1)))"
proof -
  have "(if payload_read st = 0 then st\<lparr>read_index := list_begin (in_list st)\<rparr> else st)
      = st\<lparr>read_index := read_pos st\<rparr>"
    by (simp add: read_pos_def)
  then show ?thesis
    by (simp add: in_Next_def Let_def)
qed

lemma wf_in_start:
  assumes "wf_in st"
  shows "\<exists>r. next_loop (st\<lparr>read_index := read_pos st\<rparr>) = Some r
    \<and> loop_result st r \<and> left_from (snd r) = unread st"
proof (cases "read_pos st")
  case None
  with assms show ?thesis
    by (auto simp: wf_in_def loop_result_def left_from_def unread_def)
next
  case (Some i)
  let ?st = "st\<lparr>read_index := read_pos st\<rparr>"
  have "\<exists>r. next_loop ?st = Some r \<and> loop_result ?st r \<and> left_from (snd r) = left_from ?st"
    using assms Some by (intro next_loop_returns [of _ i]) (auto simp: wf_in_def)
  moreover have "loop_result ?st = loop_result st"
    by (rule loop_result_same_list) simp_all
  ultimately show ?thesis
    by (simp add: unread_left_from)
qed

text \<open>
  One call of \<open>Next\<close>: at the end of the stream it returns false and changes nothing that
  matters; otherwise it returns a non-empty prefix of what is left, which can be given
  back with \<open>BackUp\<close>.
\<close>

definition next_result :: "message_in \<Rightarrow> bool \<times> byte list \<times> message_in \<Rightarrow> bool" where
  "next_result st r \<longleftrightarrow> (case r of (ok, chunk, st1) \<Rightarrow>
     wf_in st1 \<and> in_list st1 = in_list st \<and> in_type st1 = in_type st \<and> in_id st1 = in_id st \<and>
     (if unread st = [] then \<not> ok \<and> chunk = [] \<and> unread st1 = []
      else ok \<and> chunk \<noteq> [] \<and> unread st = chunk @ unread st1
        \<and> (\<forall>k \<le> length chunk. wf_in (st1\<lparr>read_offset := read_offset st1 - k\<rparr>)
             \<and> k \<le> read_offset st1
             \<and> unread (st1\<lparr>read_offset := read_offset st1 - k\<rparr>)
               = drop (length chunk - k) chunk @ unread st1)))"

lemma in_list_bytes_after:
  "i < length ms \<Longrightarrow> wf_message (ms ! i) \<Longrightarrow> k \<le> GetBodyLength (ms ! i) \<Longrightarrow>
     drop k (in_bytes (drop i ms)) = drop k (body_bytes (ms ! i)) @ in_bytes (drop (Suc i) ms)"
  by (simp add: in_bytes_drop)

lemma in_Next_returns:
  assumes wf: "wf_in st"
  shows "\<exists>r. in_Next st = Some r \<and> next_result st r"
proof -
  from wf_in_start [OF wf] obtain rl st1
    where loop: "next_loop (st\<lparr>read_index := read_pos st\<rparr>) = Some (rl, st1)"
      and res: "loop_result st (rl, st1)" and left: "left_from st1 = unread st"
    by auto
  have frame: "in_list st1 = in_list st" "in_type st1 = in_type st" "in_id st1 = in_id st"
    using res by (simp_all add: loop_result_def)
  have msgs: "\<forall>m \<in> set (in_list st). wf_message m" and readable: "readable (in_list st)"
    using wf by (simp_all add: wf_in_def)
  show ?thesis
  proof (cases "read_index st1")
    case None
    then have r: "rl = 0" "read_offset st1 = 0" "payload_read st1 = int (length (in_bytes (in_list st)))"
      using res by (simp_all add: loop_result_def)
    have drained: "unread st = []"
      using left None by (simp add: left_from_def)
    have again: "wf_in st1 \<and> unread st1 = []"
    proof (cases "payload_read st1 = 0")
      case True
      then have none: "in_bytes (in_list st) = []"
        using r by simp
      show ?thesis
      proof (cases "in_list st")
        case Nil
        with True r frame readable show ?thesis
          by (simp add: wf_in_def read_pos_def list_begin_def unread_def)
      next
        case (Cons m ms)
        then have "read_pos st1 = Some 0"
          using True frame by (simp add: read_pos_def list_begin_def)
        with True r frame msgs readable none Cons show ?thesis
          by (simp add: wf_in_def unread_def flip: in_bytes_def)
      qed
    next
      case False
      then have "read_pos st1 = None"
        using None by (simp add: read_pos_def)
      then show ?thesis
        using r frame msgs readable by (simp add: wf_in_def unread_def)
    qed
    have "in_Next st = Some (False, [], st1)"
      by (simp add: in_Next_start loop r)
    moreover have "next_result st (False, [], st1)"
      using again frame drained by (simp add: next_result_def)
    ultimately show ?thesis by blast
  next
    case (Some j)
    let ?m = "in_list st ! j"
    let ?off = "read_offset st1"
    let ?chunk = "drop ?off (body_bytes ?m)"
    let ?st2 = "st1\<lparr>read_offset := rl\<rparr>"
    have r: "j < length (in_list st)" "rl = GetBodyLength ?m" "?off < rl"
      "payload_read st1 = int (length (in_bytes (take j (in_list st))))"
      using res Some by (simp_all add: loop_result_def)
    have m: "wf_message ?m" "length (body_bytes ?m) = rl"
      using msgs r by simp_all
    have some_bytes: "in_bytes (in_list st) \<noteq> []"
    proof -
      have "in_list st = take j (in_list st) @ ?m # drop (Suc j) (in_list st)"
        using r(1) by (rule id_take_nth_drop)
      then have "in_bytes (in_list st)
          = in_bytes (take j (in_list st)) @ body_bytes ?m @ in_bytes (drop (Suc j) (in_list st))"
        by (metis in_bytes_simps(2,3))
      with m r show ?thesis by auto
    qed
    have pos: "read_pos (st1\<lparr>read_offset := k\<rparr>) = Some j" for k
      using readable_payload_zero [OF readable msgs some_bytes, of j] r Some frame
      by (auto simp: read_pos_def list_begin_def)
    have wf2: "wf_in (st1\<lparr>read_offset := k\<rparr>)" if "k \<le> rl" for k
      using that pos r frame msgs readable by (simp add: wf_in_def)
    have unread2: "unread (st1\<lparr>read_offset := k\<rparr>)
        = drop k (body_bytes ?m) @ in_bytes (drop (Suc j) (in_list st))" if "k \<le> rl" for k
      using that pos r m frame in_list_bytes_after [of j "in_list st" k]
      by (simp add: unread_def in_bytes_def)
    have split: "unread st = ?chunk @ in_bytes (drop (Suc j) (in_list st))"
      using left Some frame r m in_list_bytes_after [of j "in_list st" ?off]
      by (simp add: left_from_def)
    have "in_Next st = Some (True, ?chunk, ?st2)"
      using r m Some frame by (simp add: in_Next_start loop Let_def)
    moreover have "next_result st (True, ?chunk, ?st2)"
      using split frame r m wf2 unread2
      by (auto simp: next_result_def)
    ultimately show ?thesis by blast
  qed
qed

end
