(* ===== verification/Net_Transfer.thy ===== *)
theory Net_Transfer
  imports Net_Stream
begin

text \<open>
  What composite messages promise. The locale \<open>zero_copy_input\<close> states the contract of
  protobuf's \<open>ZeroCopyInputStream\<close> that \<open>MessageIn\<close> implements: \<open>Next\<close> returns non-empty
  pieces of what is left, in order, and \<open>BackUp\<close> gives back the end of the last piece.
  The consumer loops \<open>ReadString\<close>, \<open>ReadBuffer\<close> and \<open>Skip\<close> are verified inside it, and the
  contract is discharged for \<open>in_Next\<close> on every well-formed stream. The properties are the
  round trip of a payload, the meaning of \<open>DecodeMessages\<close>, and the exact condition under
  which reading a received message does not return.
\<close>

subsection \<open>The input stream contract\<close>

locale zero_copy_input =
  fixes nxt :: "'s \<Rightarrow> (bool \<times> 'b list \<times> 's) option"
    and bkup :: "int \<Rightarrow> 's \<Rightarrow> 's"
    and left :: "'s \<Rightarrow> 'b list"
    and good :: "'s \<Rightarrow> bool"
    and frame :: "'s \<Rightarrow> 'f"
  assumes next_end: "good s \<Longrightarrow> left s = [] \<Longrightarrow>
      \<exists>s'. nxt s = Some (False, [], s') \<and> good s' \<and> left s' = [] \<and> frame s' = frame s"
    and next_more: "good s \<Longrightarrow> left s \<noteq> [] \<Longrightarrow>
      \<exists>c s'. nxt s = Some (True, c, s') \<and> c \<noteq> [] \<and> left s = c @ left s' \<and> good s' \<and> frame s' = frame s
        \<and> (\<forall>k \<le> length c. good (bkup (int k) s') \<and> frame (bkup (int k) s') = frame s
             \<and> left (bkup (int k) s') = drop (length c - k) c @ left s')"
begin

lemma read_all:
  assumes loop: "\<And>body s. rd body s = (case nxt s of None \<Rightarrow> None
      | Some (ok, c, s') \<Rightarrow> (if \<not> ok then Some (body, s')
          else if c = [] then rd body s' else rd (body @ c) s'))"
    and "good s"
  shows "\<exists>s'. rd body s = Some (body @ left s, s') \<and> good s' \<and> left s' = [] \<and> frame s' = frame s"
  using \<open>good s\<close>
proof (induction "length (left s)" arbitrary: s body rule: less_induct)
  case less
  show ?case
  proof (cases "left s = []")
    case True
    with next_end [OF less.prems] show ?thesis
      by (subst loop) auto
  next
    case False
    from next_more [OF less.prems False] obtain c s' where n: "nxt s = Some (True, c, s')" "c \<noteq> []"
      "left s = c @ left s'" "good s'" "frame s' = frame s" by blast
    then have "\<exists>s2. rd (body @ c) s' = Some ((body @ c) @ left s', s2) \<and> good s2 \<and> left s2 = []
        \<and> frame s2 = frame s'"
      by (intro less.hyps) auto
    with n show ?thesis by (subst loop) auto
  qed
qed

lemma read_some:
  assumes loop: "\<And>body s. rd body s = (if length body < len then case nxt s of None \<Rightarrow> None
      | Some (ok, c, s') \<Rightarrow> (if \<not> ok then Some (body, s')
          else if c = [] then rd body s'
          else if length body + length c \<le> len then rd (body @ c) s'
          else (let room = len - length body in
                Some (body @ take room c, bkup (int (length c) - int room) s')))
      else Some (body, s))"
    and "good s" and "length body \<le> len"
  shows "\<exists>s'. rd body s = Some (body @ take (len - length body) (left s), s') \<and> good s'
     \<and> left s' = drop (len - length body) (left s) \<and> frame s' = frame s"
  using \<open>good s\<close> \<open>length body \<le> len\<close>
proof (induction "length (left s)" arbitrary: s body rule: less_induct)
  case less
  show ?case
  proof (cases "length body < len")
    case False
    with less.prems show ?thesis by (subst loop) auto
  next
    case room: True
    show ?thesis
    proof (cases "left s = []")
      case True
      with room next_end [OF less.prems(1)] show ?thesis
        by (subst loop) auto
    next
      case False
      from next_more [OF less.prems(1) False] obtain c s' where n: "nxt s = Some (True, c, s')" "c \<noteq> []"
        "left s = c @ left s'" "good s'" "frame s' = frame s"
        and give: "\<And>k. k \<le> length c \<Longrightarrow> good (bkup (int k) s') \<and> frame (bkup (int k) s') = frame s
             \<and> left (bkup (int k) s') = drop (length c - k) c @ left s'" by blast
      show ?thesis
      proof (cases "length body + length c \<le> len")
        case True
        then have "\<exists>s2. rd (body @ c) s' = Some ((body @ c) @ take (len - length (body @ c)) (left s'), s2)
            \<and> good s2 \<and> left s2 = drop (len - length (body @ c)) (left s') \<and> frame s2 = frame s'"
          using n by (intro less.hyps) auto
        moreover have "rd body s = rd (body @ c) s'"
          using room n True by (subst loop) simp
        ultimately show ?thesis
          using True n by (simp add: diff_diff_eq)
      next
        case False
        define k where "k = length c - (len - length body)"
        have k: "int (length c) - int (len - length body) = int k" "k \<le> length c"
          "length c - k = len - length body"
          using False room by (auto simp: k_def)
        have "rd body s = Some (body @ take (len - length body) c, bkup (int k) s')"
          using False room n k by (subst loop) (simp add: Let_def)
        with give [OF k(2)] n k False show ?thesis by auto
      qed
    qed
  qed
qed

lemma skip:
  assumes loop: "\<And>count s. sk count s = (if 0 < count then case nxt s of None \<Rightarrow> None
      | Some (ok, c, s') \<Rightarrow> (if \<not> ok then Some (False, s')
          else if int (length c) \<le> count then sk (count - int (length c)) s'
          else Some (True, bkup (int (length c) - count) s'))
      else Some (True, s))"
    and "good s"
  shows "\<exists>s'. sk count s = Some (count \<le> int (length (left s)), s') \<and> good s'
     \<and> left s' = drop (nat count) (left s) \<and> frame s' = frame s"
  using \<open>good s\<close>
proof (induction "length (left s)" arbitrary: s count rule: less_induct)
  case less
  show ?case
  proof (cases "0 < count")
    case False
    with less.prems show ?thesis by (subst loop) auto
  next
    case pos: True
    show ?thesis
    proof (cases "left s = []")
      case True
      with pos next_end [OF less.prems] show ?thesis
        by (subst loop) auto
    next
      case False
      from next_more [OF less.prems False] obtain c s' where n: "nxt s = Some (True, c, s')" "c \<noteq> []"
        "left s = c @ left s'" "good s'" "frame s' = frame s"
        and give: "\<And>k. k \<le> length c \<Longrightarrow> good (bkup (int k) s') \<and> frame (bkup (int k) s') = frame s
             \<and> left (bkup (int k) s') = drop (length c - k) c @ left s'" by blast
      show ?thesis
      proof (cases "int (length c) \<le> count")
        case True
        then have "\<exists>s2. sk (count - int (length c)) s'
              = Some (count - int (length c) \<le> int (length (left s')), s2) \<and> good s2
            \<and> left s2 = drop (nat (count - int (length c))) (left s') \<and> frame s2 = frame s'"
          using n by (intro less.hyps) auto
        moreover have "sk count s = sk (count - int (length c)) s'"
          using pos n True by (subst loop) simp
        moreover have "nat (count - int (length c)) = nat count - length c"
          by simp
        ultimately show ?thesis
          using True n by auto
      next
        case False
        define k where "k = length c - nat count"
        have k: "int (length c) - count = int k" "k \<le> length c" "length c - k = nat count"
          using False pos by (auto simp: k_def)
        have "sk count s = Some (True, bkup (int k) s')"
          using False pos n k by (subst loop) simp
        with give [OF k(2)] n k False pos show ?thesis by auto
      qed
    qed
  qed
qed

end

text \<open>\<open>MessageIn\<close> meets the contract on its well-formed streams.\<close>

definition in_frame :: "message_in \<Rightarrow> message list \<times> MessageType \<times> u32" where
  "in_frame st = (in_list st, in_type st, in_id st)"

lemma in_BackUp_le: "k \<le> read_offset st \<Longrightarrow> in_BackUp (int k) st = st\<lparr>read_offset := read_offset st - k\<rparr>"
  by (simp add: in_BackUp_def)

interpretation zin: zero_copy_input in_Next in_BackUp unread wf_in in_frame
proof (unfold_locales, goal_cases)
  case (1 s)
  with in_Next_returns [OF 1(1)] show ?case
    by (auto simp: next_result_def in_frame_def)
next
  case (2 s)
  with in_Next_returns [OF 2(1)] show ?case
    by (auto simp: next_result_def in_frame_def in_BackUp_le)
qed

subsection \<open>Fresh streams\<close>

lemma unread_fresh: "payload_read st = 0 \<Longrightarrow> read_offset st = 0 \<Longrightarrow> unread st = in_bytes (in_list st)"
  by (cases "in_list st") (simp_all add: unread_def read_pos_def list_begin_def in_bytes_def)

lemma wf_in_fresh [wf_intros]:
  "payload_read st = 0 \<Longrightarrow> read_offset st = 0 \<Longrightarrow> \<forall>m \<in> set (in_list st). wf_message m \<Longrightarrow>
     readable (in_list st) \<Longrightarrow> wf_in st"
  by (cases "in_list st") (simp_all add: wf_in_def read_pos_def list_begin_def)

subsection \<open>Streams that cannot be read\<close>

text \<open>
  An empty fragment under the iterator while \<open>read_offset\<close> is not 0: nothing changes in
  the loop, so it does not end.
\<close>

definition stuck :: "message_in \<Rightarrow> bool" where
  "stuck st \<longleftrightarrow> (\<exists>i. read_index st = Some i \<and> GetBodyLength (in_list st ! i) = 0) \<and> read_offset st \<noteq> 0"

lemma next_loop_stuck:
  assumes "stuck st"
  shows "next_loop st = None"
proof (rule ccontr)
  assume "next_loop st \<noteq> None"
  then obtain r where ret: "next_loop st = Some r" by blast
  have "\<not> stuck st"
  proof (rule next_loop.raw_induct [where P = "\<lambda>st r. \<not> stuck st", OF _ ret])
    fix f :: "message_in \<Rightarrow> (nat \<times> message_in) option" and s r
    assume IH: "\<And>s r. f s = Some r \<Longrightarrow> \<not> stuck s"
      and eq: "(case read_index s of None \<Rightarrow> Some (0, s)
        | Some i \<Rightarrow> let read_length = GetBodyLength (in_list s ! i)
            in if read_offset s = read_length
               then f (s\<lparr>payload_read := payload_read s + int (read_offset s), read_offset := 0,
                         read_index := list_next (in_list s) i\<rparr>)
               else if read_length = 0 then f s else Some (read_length, s)) = Some r"
    show "\<not> stuck s"
    proof
      assume "stuck s"
      then have "f s = Some r"
        using eq by (auto simp: stuck_def Let_def)
      then show False using IH \<open>stuck s\<close> by blast
    qed
  qed
  with assms show False by blast
qed

lemma first_Next_unreadable:
  assumes "payload_read st = 0" "read_offset st = 0" "\<forall>m \<in> set (in_list st). wf_message m"
    and "\<not> readable (in_list st)"
  shows "\<exists>chunk st1. in_Next st = Some (True, chunk, st1) \<and> chunk \<noteq> [] \<and> payload_read st1 = 0
    \<and> read_offset st1 \<noteq> 0 \<and> in_list st1 = in_list st"
proof -
  have ne: "in_list st \<noteq> []" and some: "in_bytes (in_list st) \<noteq> []"
    using assms(3,4) by (auto simp: readable_def in_bytes_Nil_iff)
  let ?st = "st\<lparr>read_index := read_pos st\<rparr>"
  have pos: "read_pos st = Some 0"
    using ne assms(1) by (simp add: read_pos_def list_begin_def)
  have "\<exists>r. next_loop ?st = Some r \<and> loop_result ?st r \<and> left_from (snd r) = left_from ?st"
    using assms ne pos by (intro next_loop_returns [of _ 0]) auto
  moreover have "left_from ?st = in_bytes (in_list st)"
    using pos assms(2) by (simp add: left_from_def)
  ultimately obtain rl st1 where loop: "next_loop ?st = Some (rl, st1)"
    and res: "loop_result ?st (rl, st1)" and left: "left_from st1 = in_bytes (in_list st)"
    by auto
  then obtain j where j: "read_index st1 = Some j" "j < length (in_list st)"
    "rl = GetBodyLength (in_list st ! j)" "read_offset st1 < rl"
    "payload_read st1 = int (length (in_bytes (take j (in_list st))))" "in_list st1 = in_list st"
    using some by (cases "read_index st1") (auto simp: loop_result_def left_from_def)
  have "in_bytes (in_list st) = in_bytes (take j (in_list st)) @ in_bytes (drop j (in_list st))"
    by (metis append_take_drop_id in_bytes_simps(3))
  then have "length (in_bytes (take j (in_list st))) + length (in_bytes (drop j (in_list st)))
      = length (in_bytes (drop j (in_list st))) - read_offset st1"
    using left j by (metis left_from_def length_append length_drop option.simps(5))
  moreover have "length (in_bytes (in_list st)) \<noteq> 0"
    using some by simp
  moreover have "length (in_bytes (in_list st))
      = length (in_bytes (take j (in_list st))) + length (in_bytes (drop j (in_list st)))"
    using \<open>in_bytes (in_list st) = _\<close> by (metis length_append)
  ultimately have "length (in_bytes (take j (in_list st))) = 0" "read_offset st1 = 0"
    by linarith+
  then have "payload_read st1 = 0" "read_offset st1 = 0"
    using j(5) by auto
  with j assms(3) show ?thesis
    by (auto simp: in_Next_start loop Let_def)
qed

lemma ReadString_unreadable:
  assumes "payload_read st = 0" "read_offset st = 0" "\<forall>m \<in> set (in_list st). wf_message m"
    and "\<not> readable (in_list st)"
  shows "ReadString body st = None"
proof -
  from first_Next_unreadable [OF assms] obtain chunk st1
    where n: "in_Next st = Some (True, chunk, st1)" "chunk \<noteq> []" "payload_read st1 = 0"
      "read_offset st1 \<noteq> 0" "in_list st1 = in_list st" by blast
  have "in_list st \<noteq> []" "GetBodyLength (in_list st ! 0) = 0"
    using assms(4) by (cases "in_list st"; simp add: readable_def)+
  then have "stuck (st1\<lparr>read_index := read_pos st1\<rparr>)"
    using n by (simp add: stuck_def read_pos_def list_begin_def)
  then have "in_Next st1 = None"
    by (simp add: in_Next_start next_loop_stuck)
  with n show ?thesis
    by (subst ReadString.simps) (simp, subst ReadString.simps, simp)
qed

text \<open>C5: When reading a received message returns. For a stream positioned at its start,
  over any received fragments, \<open>ToString\<close> returns the concatenated bodies if and only if
  the first fragment carries bytes or no fragment does; otherwise, for an empty first
  fragment followed by a non-empty one, the call does not return.\<close>

theorem ToString_returns_iff:
  assumes "\<forall>m \<in> set (in_list st). wf_message m" and "payload_read st = 0" and "read_offset st = 0"
  shows "if readable (in_list st)
    then \<exists>st'. ToString st = Some (in_bytes (in_list st), st') \<and> in_list st' = in_list st
    else ToString st = None"
proof (cases "readable (in_list st)")
  case True
  then have "wf_in st"
    using assms by (intro wf_in_fresh)
  from zin.read_all [where rd = ReadString and body = "[]", OF ReadString.simps this] True show ?thesis
    by (auto simp: ToString_def unread_fresh [OF assms(2,3)] in_frame_def)
next
  case False
  then show ?thesis
    using assms by (simp add: ToString_def ReadString_unreadable)
qed

theorem ToString_returns_iff_witness:
  "ToString ((new_in CHAT_MESSAGE)\<lparr>in_list :=
     [new_message\<lparr>message_type := MULTI_PART\<rparr>, new_message\<lparr>body_length := 3, sequence_number := 1\<rparr>]\<rparr>)
   = None"
proof -
  let ?st = "(new_in CHAT_MESSAGE)\<lparr>in_list :=
     [new_message\<lparr>message_type := MULTI_PART\<rparr>, new_message\<lparr>body_length := 3, sequence_number := 1\<rparr>]\<rparr>"
  have wf: "\<forall>m \<in> set (in_list ?st). wf_message m"
    by (simp add: wf_message_def new_message_def GetBodyLength_def fragment_consts)
  have "\<not> readable (in_list ?st)"
    by (simp add: readable_def new_message_def GetBodyLength_def)
  with ToString_returns_iff [OF wf] show ?thesis
    by (simp add: new_in_def)
qed

text \<open>C12: Reading in pieces. From any well-formed position of the stream, \<open>ReadBuffer\<close> into
  a buffer of \<open>len\<close> bytes returns the next \<open>len\<close> bytes of the payload, or all that is left,
  and leaves exactly the rest, so that consecutive reads see the payload in order.\<close>

theorem ReadBuffer_prefix:
  assumes "wf_in st"
  shows "\<exists>st'. ReadBuffer len [] st = Some (take len (unread st), st') \<and> wf_in st'
    \<and> unread st' = drop len (unread st) \<and> in_list st' = in_list st"
  using zin.read_some [where rd = "ReadBuffer len" and body = "[]", OF ReadBuffer.simps assms]
  by (auto simp: in_frame_def)

theorem ReadBuffer_prefix_witness:
  "\<exists>st'. ReadBuffer 2 [] ((new_in LOGIN)\<lparr>in_list := [new_message\<lparr>body_length := 3\<rparr>]\<rparr>)
       = Some ([0, 0], st') \<and> unread st' = [0]"
proof -
  let ?st = "(new_in LOGIN)\<lparr>in_list := [new_message\<lparr>body_length := 3\<rparr>]\<rparr>"
  have wf: "wf_in ?st"
    by (rule wf_in_fresh)
      (simp_all add: new_in_def wf_message_def new_message_def GetBodyLength_def readable_def fragment_consts)
  have "body_bytes (new_message\<lparr>body_length := 3\<rparr>) = replicate 3 0"
    by (subst body_bytes_zero) (simp_all add: fragment_consts)
  then have "unread ?st = [0, 0, 0]"
    by (simp add: unread_fresh new_in_def numeral_3_eq_3)
  with ReadBuffer_prefix [OF wf, of 2] show ?thesis
    by auto
qed

text \<open>\<open>Skip\<close> drops exactly \<open>count\<close> bytes of what is left, reports whether that many
  were there, and otherwise ends at the end of the stream.\<close>

theorem Skip_drops:
  assumes "wf_in st"
  shows "\<exists>st'. Skip count st = Some (count \<le> int (length (unread st)), st') \<and> wf_in st'
    \<and> unread st' = drop (nat count) (unread st) \<and> in_list st' = in_list st"
  using zin.skip [where sk = Skip, OF Skip.simps assms] by (auto simp: in_frame_def)

theorem Skip_drops_witness:
  "\<exists>st'. Skip 5 ((new_in LOGIN)\<lparr>in_list := [new_message\<lparr>body_length := 3\<rparr>]\<rparr>) = Some (False, st')
     \<and> unread st' = []"
proof -
  let ?st = "(new_in LOGIN)\<lparr>in_list := [new_message\<lparr>body_length := 3\<rparr>]\<rparr>"
  have wf: "wf_in ?st"
    by (rule wf_in_fresh)
      (simp_all add: new_in_def wf_message_def new_message_def GetBodyLength_def readable_def fragment_consts)
  have "length (unread ?st) = 3"
    by (simp add: unread_fresh new_in_def)
      (simp add: body_bytes_zero fragment_consts)
  with Skip_drops [OF wf, of 5] show ?thesis
    by auto
qed

end
