(* ===== verification/Net_Roundtrip.thy ===== *)
theory Net_Roundtrip
  imports Net_Transfer
begin

text \<open>
  From a payload to fragments and back: what \<open>GetMessages\<close> sends, what \<open>DecodeMessages\<close>
  accepts, and the round trip of \<open>FromBuffer\<close> and \<open>ToString\<close> through both.
\<close>

subsection \<open>Sequence numbers\<close>

fun numbered :: "u32 \<Rightarrow> message list \<Rightarrow> bool" where
  "numbered v [] = True"
| "numbered v (m # ms) = (sequence_number m = v \<and> numbered (v + 1) ms)"

lemma numbered_append:
  "numbered v (ms @ ns) \<longleftrightarrow> numbered v ms \<and> numbered (v + of_nat (length ms)) ns"
  by (induction ms arbitrary: v) (auto simp: add_ac)

lemma numbered_nth: "numbered v ms \<longleftrightarrow> (\<forall>i < length ms. sequence_number (ms ! i) = v + of_nat i)"
proof (induction ms arbitrary: v)
  case Nil
  show ?case by simp
next
  case (Cons m ms)
  show ?case
    by (simp add: Cons.IH All_less_Suc2 add_ac)
qed

subsection \<open>What DecodeMessages accepts\<close>

definition complete :: "message list \<Rightarrow> bool" where
  "complete ms \<longleftrightarrow> ms \<noteq> [] \<and> numbered 0 ms \<and> (\<forall>m \<in> set (butlast ms). message_type m = MULTI_PART)
     \<and> message_type (last ms) \<noteq> MULTI_PART"

lemma decode_scan_accepts:
  "decode_scan ms v = Some (Some t, []) \<longleftrightarrow>
     ms \<noteq> [] \<and> numbered v ms \<and> (\<forall>m \<in> set (butlast ms). message_type m = MULTI_PART)
     \<and> message_type (last ms) = t \<and> t \<noteq> MULTI_PART"
proof (induction ms arbitrary: v)
  case Nil
  show ?case by simp
next
  case (Cons m ms)
  show ?case
  proof (cases "message_type m = MULTI_PART")
    case True
    then show ?thesis by (auto simp: Cons.IH)
  next
    case False
    then show ?thesis by (cases ms) auto
  qed
qed

lemma DecodeMessages_accepts: "fst (DecodeMessages st) \<longleftrightarrow> complete (in_list st)"
proof -
  have "fst (DecodeMessages st) \<longleftrightarrow> (\<exists>t. decode_scan (in_list st) 0 = Some (Some t, []))"
    by (auto simp: DecodeMessages_def split: option.splits)
  then show ?thesis
    by (auto simp: decode_scan_accepts complete_def)
qed

lemma DecodeMessages_complete:
  "complete (in_list st) \<Longrightarrow> DecodeMessages st = (True, st\<lparr>in_type := message_type (last (in_list st))\<rparr>)"
  using decode_scan_accepts [of "in_list st" 0 "message_type (last (in_list st))"]
  by (simp add: DecodeMessages_def complete_def)

subsection \<open>What GetMessages sends\<close>

definition header_written :: "message \<Rightarrow> bool" where
  "header_written m \<longleftrightarrow> decode_32 (msg_data m) 0 = body_length m
     \<and> decode_32 (msg_data m) 4 = message_type m \<and> decode_32 (msg_data m) 8 = message_id m
     \<and> decode_32 (msg_data m) 12 = sequence_number m"

lemma header_written_encode [simp]: "wf_message m \<Longrightarrow> header_written (encode_header m)"
  by (simp add: header_written_def encode_header_words wf_message_def)

lemma number_from_Nil [simp]: "number_from v i ms = [] \<longleftrightarrow> ms = []"
  by (cases ms) auto

lemma number_from_bodies [simp]: "map body_bytes (number_from v i ms) = map body_bytes ms"
  by (induction ms arbitrary: v) simp_all

lemma number_from_append:
  "number_from v i (ms @ ns) = number_from v i ms @ number_from (v + of_nat (length ms)) i ns"
  by (induction ms arbitrary: v) (simp_all add: add_ac)

lemma numbered_number_from [simp]: "numbered v (number_from v i ms)"
  by (induction ms arbitrary: v) simp_all

lemma number_from_set:
  "m \<in> set (number_from v i ms) \<Longrightarrow> message_type m = MULTI_PART \<and> message_id m = i
     \<and> (\<exists>m0 \<in> set ms. GetBodyLength m = GetBodyLength m0 \<and> wf_message m = wf_message m0
          \<and> (wf_message m0 \<longrightarrow> header_written m))"
proof (induction ms arbitrary: v)
  case (Cons a ms)
  show ?case
  proof (cases "m \<in> set (number_from (v + 1) i ms)")
    case True
    with Cons.IH show ?thesis by fastforce
  next
    case False
    with Cons.prems show ?thesis by simp
  qed
qed simp

text \<open>The fragments of a stream as they are sent: same bodies, numbered, typed, encoded.\<close>

lemma GetMessages_bodies [simp]:
  "map body_bytes (fst (GetMessages out)) = map body_bytes (out_list out)"
  by (simp add: GetMessages_def Let_def map_update_last)

lemma GetMessages_shape:
  assumes "out_list out = ms @ [m]"
  shows "fst (GetMessages out) = number_from 0 (out_id out) ms
    @ [encode_header ((encode_header (m\<lparr>message_type := MULTI_PART,
         sequence_number := of_nat (length ms), message_id := out_id out\<rparr>))\<lparr>message_type := out_type out\<rparr>)]"
  by (simp add: GetMessages_def Let_def assms number_from_append)

lemma GetMessages_set:
  assumes "\<forall>m \<in> set (out_list out). wf_message m" and "x \<in> set (fst (GetMessages out))"
  shows "wf_message x \<and> header_written x \<and> message_id x = out_id out
    \<and> (\<exists>m \<in> set (out_list out). GetBodyLength x = GetBodyLength m)"
proof (cases "out_list out" rule: rev_cases)
  case Nil
  with assms show ?thesis by (simp add: GetMessages_def)
next
  case (snoc ms m)
  show ?thesis
  proof (cases "x \<in> set (number_from 0 (out_id out) ms)")
    case True
    with number_from_set [OF True] snoc assms show ?thesis by auto
  next
    case False
    with assms snoc show ?thesis
      by (simp add: GetMessages_shape [OF snoc])
  qed
qed

lemma complete_GetMessages:
  assumes "out_list out \<noteq> []" and "out_type out \<noteq> MULTI_PART"
  shows "complete (fst (GetMessages out)) \<and> message_type (last (fst (GetMessages out))) = out_type out"
proof -
  obtain ms m where ms: "out_list out = ms @ [m]"
    using assms(1) by (metis rev_exhaust)
  have "length (number_from 0 (out_id out) ms) = length ms"
    using number_from_bodies [of 0 "out_id out" ms] map_eq_imp_length_eq by blast
  then show ?thesis
    using assms(2) number_from_set [of _ 0 "out_id out" ms]
    by (auto simp: complete_def GetMessages_shape [OF ms] numbered_append)
qed

text \<open>C4: \<open>DecodeMessages\<close> accepts a list of fragments if and only if it is not empty, the
  fragments carry the sequence numbers 0, 1, 2, ... (modulo 2^32) in order, every fragment
  but the last is \<open>MULTI_PART\<close> and the last one is not; the message then takes the type of
  its last fragment, and nothing else of the stream changes.\<close>

theorem DecodeMessages_iff:
  "(fst (DecodeMessages st) \<longleftrightarrow>
     in_list st \<noteq> [] \<and> (\<forall>i < length (in_list st). sequence_number (in_list st ! i) = of_nat i)
     \<and> (\<forall>m \<in> set (butlast (in_list st)). message_type m = MULTI_PART)
     \<and> message_type (last (in_list st)) \<noteq> MULTI_PART) \<and>
   (fst (DecodeMessages st) \<longrightarrow>
     snd (DecodeMessages st) = st\<lparr>in_type := message_type (last (in_list st))\<rparr>)"
  by (auto simp: DecodeMessages_accepts DecodeMessages_complete complete_def numbered_nth)

theorem DecodeMessages_iff_witness:
  "fst (DecodeMessages ((new_in SYNC)\<lparr>in_list :=
      [new_message\<lparr>message_type := MULTI_PART\<rparr>, new_message\<lparr>sequence_number := 1\<rparr>]\<rparr>))
   \<and> \<not> fst (DecodeMessages ((new_in SYNC)\<lparr>in_list :=
      [new_message, new_message\<lparr>sequence_number := 1\<rparr>]\<rparr>))"
  using DecodeMessages_iff [of "(new_in SYNC)\<lparr>in_list :=
      [new_message\<lparr>message_type := MULTI_PART\<rparr>, new_message\<lparr>sequence_number := 1\<rparr>]\<rparr>"]
    DecodeMessages_iff [of "(new_in SYNC)\<lparr>in_list := [new_message, new_message\<lparr>sequence_number := 1\<rparr>]\<rparr>"]
  by (simp add: All_less_Suc2 new_message_def message_type_defs)

text \<open>C3: Round trip of a payload. The fragments of any non-empty payload, of any length and
  any message type but \<open>MULTI_PART\<close>, are accepted by a receiving stream with the type
  restored, and \<open>ToString\<close> returns exactly the payload.\<close>

theorem payload_roundtrip:
  assumes "body \<noteq> []" and "t \<noteq> MULTI_PART"
  shows "\<exists>st st'. AssignMessages (fst (GetMessages (FromBuffer body (new_out t)))) (new_in t0) = (True, st)
    \<and> in_type st = t \<and> ToString st = Some (body, st')"
proof -
  let ?out = "FromBuffer body (new_out t)"
  let ?ms = "fst (GetMessages ?out)"
  have wf: "wf_out ?out" and fields: "out_type ?out = t" and list: "out_list ?out \<noteq> []"
    using assms wf_FromBuffer [OF wf_new_out] by (auto simp: new_out_def)
  have pieces: "\<forall>m \<in> set (out_list ?out). wf_message m" "\<forall>m \<in> set (out_list ?out). 0 < GetBodyLength m"
    using wf FromBuffer_nonempty_pieces [of "new_out t" body] by (auto simp: wf_out_def new_out_def)
  have msgs: "\<forall>m \<in> set ?ms. wf_message m" "\<forall>m \<in> set ?ms. 0 < GetBodyLength m"
    using GetMessages_set [OF pieces(1)] pieces(2) by fastforce+
  have c: "complete ?ms" "message_type (last ?ms) = t"
    using complete_GetMessages [OF list] assms(2) fields by auto
  let ?st = "(new_in t0)\<lparr>in_list := ?ms, in_type := t\<rparr>"
  have "AssignMessages ?ms (new_in t0) = (True, ?st)"
    using c by (simp add: AssignMessages_def DecodeMessages_complete)
  moreover have "in_bytes ?ms = body"
    using out_bytes_FromBuffer [of body "new_out t"]
    by (simp add: in_bytes_def out_bytes_def new_out_def)
  moreover have "readable ?ms"
    using c msgs(2) by (auto simp: readable_def complete_def)
  then have "wf_in ?st"
    using msgs by (intro wf_in_fresh) (auto simp: new_in_def)
  moreover have "unread ?st = in_bytes ?ms"
    by (subst unread_fresh) (simp_all add: new_in_def)
  ultimately show ?thesis
    using zin.read_all [where rd = ReadString and body = "[]", OF ReadString.simps, of ?st]
    by (auto simp: ToString_def)
qed

theorem payload_roundtrip_witness:
  "\<exists>st st'. AssignMessages (fst (GetMessages (FromBuffer (replicate 3000 7) (new_out LOGIN)))) (new_in SYNC)
     = (True, st) \<and> in_type st = LOGIN \<and> ToString st = Some (replicate 3000 7, st')"
  by (rule payload_roundtrip) (simp_all add: message_type_defs)

text \<open>The cut of a payload. \<open>FromBuffer\<close> into a new stream produces fragments that are
  all well-formed and non-empty, whose bodies concatenate to the payload, and
  \<open>ByteCount\<close> (\<open>payload_written\<close>) is its length; an empty payload produces no fragment.\<close>

theorem FromBuffer_cuts:
  "out_bytes (FromBuffer body (new_out t)) = body
   \<and> payload_written (FromBuffer body (new_out t)) = int (length body)
   \<and> (\<forall>m \<in> set (out_list (FromBuffer body (new_out t))).
        wf_message m \<and> 0 < GetBodyLength m)
   \<and> (out_IsEmpty (FromBuffer body (new_out t)) \<longleftrightarrow> body = [])"
proof -
  have "wf_out (FromBuffer body (new_out t))"
    by (intro wf_intros wf_new_out)
  moreover have "\<forall>m \<in> set (out_list (FromBuffer body (new_out t))). 0 < GetBodyLength m"
    by (rule FromBuffer_nonempty_pieces) (simp add: new_out_def)
  moreover have "out_bytes (new_out t) = []"
    by (simp add: out_bytes_def new_out_def)
  ultimately show ?thesis
    by (auto simp: wf_out_def out_IsEmpty_def) (simp_all add: new_out_def)
qed

theorem FromBuffer_cuts_witness:
  "out_bytes (FromBuffer (replicate 1500 1) (new_out LOGIN)) = replicate 1500 1
   \<and> payload_written (FromBuffer (replicate 1500 1) (new_out LOGIN)) = 1500
   \<and> wf_message (hd (out_list (FromBuffer (replicate 1500 1) (new_out LOGIN))))"
proof -
  note c = FromBuffer_cuts [of "replicate 1500 1" LOGIN]
  then have "out_list (FromBuffer (replicate 1500 1) (new_out LOGIN)) \<noteq> []"
    by (simp add: out_IsEmpty_def)
  from hd_in_set [OF this] c show ?thesis by simp
qed

end
