(* ===== verification/Reassembly.thy ===== *)
theory Reassembly
  imports Net_Roundtrip Ordered_Map
begin

text \<open>
  The read loops of both peers: \<open>read_header\<close> and \<open>read_body\<close> of
  server/client-connection.cpp and client/server-connection.cpp. A fragment is cut from the
  byte stream, and fragments are put together per message identifier in \<open>read_messages\<close>
  until the fragment that ends a message arrives. Both peers run the same reassembly; what
  they do with a complete message differs and is modelled with them. The lemmas show that
  the messages of one identifier are put together independently of all others, and that the
  bytes one peer sends arrive as the message.
\<close>

subsection \<open>Reading one fragment\<close>

text \<open>
  \<open>async_read\<close> into \<open>buffer_header()\<close>: the first 16 bytes of a pool message.
\<close>

definition fill_header :: "byte list \<Rightarrow> message \<Rightarrow> message" where
  "fill_header bs m = m\<lparr>msg_data := bs @ drop (length bs) (msg_data m)\<rparr>"

text \<open>
  What reading one fragment comes to: the stream ends inside it, its header is refused, or
  the fragment with the bytes behind it.
\<close>

datatype frame = Frame_short | Frame_refused | Frame message "byte list"

definition read_frame :: "byte list \<Rightarrow> frame" where
  "read_frame bs =
     (if length bs < header_length then Frame_short
      else case decode_header (fill_header (take header_length bs) pool_get) of
        (ok, m) \<Rightarrow>
          if \<not> ok then Frame_refused
          else let body = drop header_length bs in
            if length body < GetBodyLength m then Frame_short
            else Frame (write_body (take (GetBodyLength m) body) m) (drop (GetBodyLength m) body))"

lemma read_frame_shrinks: "read_frame bs = Frame m rest \<Longrightarrow> length rest < length bs"
  by (auto simp: read_frame_def Let_def header_length_def split: if_splits prod.splits)

text \<open>Both loops read fragments one after the other; the first that cannot be read ends them.\<close>

function read_frames :: "byte list \<Rightarrow> message list \<times> byte list" where
  "read_frames bs = (case read_frame bs of
      Frame m rest \<Rightarrow> (case read_frames rest of (ms, left) \<Rightarrow> (m # ms, left))
    | _ \<Rightarrow> ([], bs))"
  by pat_completeness auto
termination
  by (relation "measure length") (auto dest: read_frame_shrinks)

declare read_frames.simps [simp del]

subsection \<open>Reassembly\<close>

type_synonym partials = "(u32, message_in) omap"

datatype outcome = Partial | Complete message_in | Invalid u32 u32

text \<open>
  \<open>read_body\<close> after the bytes have arrived. A complete message is taken out of
  \<open>read_messages\<close> after it was processed, as is one that does not decode.
\<close>

definition receive :: "message \<Rightarrow> partials \<Rightarrow> outcome \<times> partials" where
  "receive m rm =
     (let found = map_of rm (message_id m) in
      if message_type m = MULTI_PART then
        (case found of
           None \<Rightarrow> (Partial, om_put (message_id m) (snd (PushMessage m (new_in CHAT_MESSAGE))) rm)
         | Some st \<Rightarrow> (Partial, om_put (message_id m) (snd (PushMessage m st)) rm))
      else
        let st = (case found of None \<Rightarrow> new_in CHAT_MESSAGE | Some st \<Rightarrow> st);
            (ok, st1) = DecodeMessages (snd (PushMessage m st)) in
        (if ok then Complete st1 else Invalid (sequence_number m) (message_id m),
         if found = None then rm else om_erase (message_id m) rm))"

text \<open>A run of the loop, with the identifier of the fragment each outcome belongs to.\<close>

fun receive_all :: "message list \<Rightarrow> partials \<Rightarrow> (u32 \<times> outcome) list \<times> partials" where
  "receive_all [] rm = ([], rm)"
| "receive_all (m # ms) rm = (case receive m rm of (r, rm1) \<Rightarrow>
     (case receive_all ms rm1 of (rs, rm2) \<Rightarrow> ((message_id m, r) # rs, rm2)))"

lemma wf_receive [wf_intros]: "wf_omap rm \<Longrightarrow> wf_omap (snd (receive m rm))"
  by (simp add: receive_def Let_def wf_om_put wf_om_erase split_beta split: option.split)

lemma receive_other:
  "wf_omap rm \<Longrightarrow> i \<noteq> message_id m \<Longrightarrow> map_of (snd (receive m rm)) i = map_of rm i"
  by (simp add: receive_def Let_def split_beta split: option.split)

lemma receive_same:
  "wf_omap rm \<Longrightarrow> wf_omap rm' \<Longrightarrow> map_of rm (message_id m) = map_of rm' (message_id m) \<Longrightarrow>
     fst (receive m rm) = fst (receive m rm')
     \<and> map_of (snd (receive m rm)) (message_id m) = map_of (snd (receive m rm')) (message_id m)"
  by (simp add: receive_def Let_def split_beta split: option.split)

lemma receive_all_filter:
  assumes "wf_omap rm" and "wf_omap rm'" and "map_of rm i = map_of rm' i"
  shows "filter (\<lambda>r. fst r = i) (fst (receive_all ms rm))
      = fst (receive_all (filter (\<lambda>m. message_id m = i) ms) rm')
    \<and> map_of (snd (receive_all ms rm)) i
      = map_of (snd (receive_all (filter (\<lambda>m. message_id m = i) ms) rm')) i"
  using assms
proof (induction ms arbitrary: rm rm')
  case (Cons m ms)
  note wf = wf_receive [OF Cons.prems(1), of m] wf_receive [OF Cons.prems(2), of m]
  show ?case
  proof (cases "message_id m = i")
    case True
    then have s: "fst (receive m rm) = fst (receive m rm')"
      "map_of (snd (receive m rm)) i = map_of (snd (receive m rm')) i"
      using receive_same [OF Cons.prems(1,2), of m] Cons.prems(3) by auto
    from Cons.IH [OF wf s(2)] True s(1) show ?thesis
      by (simp add: split_beta)
  next
    case False
    then have "map_of (snd (receive m rm)) i = map_of rm' i"
      using receive_other [OF Cons.prems(1), of i m] Cons.prems(3) by simp
    from Cons.IH [OF wf(1) Cons.prems(2) this] False show ?thesis
      by (simp add: split_beta)
  qed
qed simp

subsection \<open>The bytes of a fragment\<close>

text \<open>Two fragments that differ at most in bytes behind the body and in stale header bytes.\<close>

definition same_fragment :: "message \<Rightarrow> message \<Rightarrow> bool" where
  "same_fragment m m' \<longleftrightarrow> body_length m = body_length m' \<and> sequence_number m = sequence_number m'
     \<and> message_type m = message_type m' \<and> message_id m = message_id m' \<and> body_bytes m = body_bytes m'
     \<and> wf_message m'"

lemma take_header_buffer:
  assumes "wf_message m"
  shows "take header_length (buffer m @ rest) = take header_length (msg_data m)"
    and "drop header_length (buffer m @ rest) = body_bytes m @ rest"
  using assms
  by (auto simp: buffer_def msg_length_def wf_message_def body_bytes_def GetBodyLength_def drop_take
      min_absorb1)

lemma decode_header_written:
  assumes "header_written m" and "wf_message m" and "take header_length d = take header_length (msg_data m)"
  shows "decode_header (pool_get\<lparr>msg_data := d\<rparr>) = (True, pool_get\<lparr>msg_data := d,
    body_length := body_length m, message_type := message_type m, message_id := message_id m,
    sequence_number := sequence_number m\<rparr>)"
proof -
  note w = header_bytes_words [OF assms(3)]
  have "decode_32 d 0 = body_length m" "decode_32 d 4 = message_type m"
    "decode_32 d 8 = message_id m" "decode_32 d 12 = sequence_number m"
    using assms(1) w [of 0] w [of 4] w [of 8] w [of 12]
    by (simp_all add: header_written_def header_length_def)
  then show ?thesis
    using assms(2) by (simp add: decode_header_def Let_def wf_message_def GetBodyLength_def)
qed

lemma read_frame_buffer:
  assumes "wf_message m" and "header_written m"
  shows "\<exists>m'. read_frame (buffer m @ rest) = Frame m' rest \<and> same_fragment m m'"
proof -
  let ?bs = "buffer m @ rest" and ?h = "take header_length (msg_data m)"
  let ?d = "?h @ drop header_length (msg_data pool_get)"
  have lh: "length ?h = header_length"
    using assms(1) by (simp add: wf_message_def)
  have len: "header_length \<le> length ?bs"
    using assms(1) by (simp add: msg_length_def)
  have fill: "fill_header (take header_length ?bs) pool_get = pool_get\<lparr>msg_data := ?d\<rparr>"
    using take_header_buffer(1) [OF assms(1), of rest] lh by (simp add: fill_header_def)
  let ?m = "pool_get\<lparr>msg_data := ?d, body_length := body_length m, message_type := message_type m,
    message_id := message_id m, sequence_number := sequence_number m\<rparr>"
  have dec: "decode_header (fill_header (take header_length ?bs) pool_get) = (True, ?m)"
    unfolding fill using assms(1) lh
    by (intro decode_header_written [OF assms(2,1)]) (simp add: wf_message_def)
  have gl: "GetBodyLength ?m = GetBodyLength m" "length (body_bytes m) = GetBodyLength m"
    using assms(1) by (simp_all add: GetBodyLength_def)
  have wf: "wf_message ?m"
    using assms(1) lh by (simp add: wf_message_def GetBodyLength_def pool_get_def new_message_def)
  have "read_frame ?bs = Frame (write_body (body_bytes m) ?m) rest"
    using len dec gl take_header_buffer(2) [OF assms(1), of rest]
    by (simp add: read_frame_def Let_def)
  moreover have "body_bytes (write_body (body_bytes m) ?m) = body_bytes m"
    using body_bytes_write_body [OF wf] gl by simp
  moreover have "wf_message (write_body (body_bytes m) ?m)"
    using assms(1) gl by (intro wf_write_body wf) (simp add: wf_message_def)
  ultimately show ?thesis
    by (auto simp: same_fragment_def)
qed

lemma read_frames_buffers:
  assumes "\<forall>m \<in> set ms. wf_message m \<and> header_written m"
  shows "\<exists>ms'. read_frames (concat (map buffer ms)) = (ms', []) \<and> list_all2 same_fragment ms ms'"
  using assms
proof (induction ms)
  case Nil
  show ?case
    by (subst read_frames.simps) (simp add: read_frame_def header_length_def)
next
  case (Cons m ms)
  then obtain m' ms' where "read_frame (buffer m @ concat (map buffer ms)) = Frame m' (concat (map buffer ms))"
    "same_fragment m m'" "read_frames (concat (map buffer ms)) = (ms', [])" "list_all2 same_fragment ms ms'"
    using read_frame_buffer by (metis list.set_intros)
  then show ?case
    by (subst read_frames.simps) simp
qed

lemma numbered_same: "list_all2 same_fragment ms ms' \<Longrightarrow> numbered v ms = numbered v ms'"
  by (induction ms ms' arbitrary: v rule: list_all2_induct) (auto simp: same_fragment_def)

lemma complete_same:
  assumes "list_all2 same_fragment ms ms'"
  shows "complete ms = complete ms'" and "in_bytes ms = in_bytes ms'"
    and "map message_type ms = map message_type ms'" and "map message_id ms = map message_id ms'"
proof -
  show t: "map message_type ms = map message_type ms'" and "map message_id ms = map message_id ms'"
    and "in_bytes ms = in_bytes ms'"
    using assms by (induction rule: list_all2_induct) (auto simp: same_fragment_def in_bytes_def)
  then have "map message_type (butlast ms) = map message_type (butlast ms')"
    by (simp add: map_butlast)
  then have "(\<forall>m \<in> set (butlast ms). message_type m = MULTI_PART)
      = (\<forall>m \<in> set (butlast ms'). message_type m = MULTI_PART)"
    by (metis (mono_tags, lifting) image_set imageE image_eqI)
  moreover have e: "(ms = []) = (ms' = [])"
    using list_all2_lengthD [OF assms] by auto
  moreover have "message_type (last ms) = message_type (last ms')" if "ms \<noteq> []"
    using t that e by (metis last_map)
  ultimately show "complete ms = complete ms'"
    using numbered_same [OF assms] by (cases "ms = []") (simp_all add: complete_def)
qed

text \<open>The fragments of one message, received with no other fragments of its identifier.\<close>

lemma receive_parts:
  assumes "\<forall>m \<in> set ms. message_type m = MULTI_PART \<and> message_id m = i" and "wf_omap rm"
    and "map_of rm i = (if done = [] then None else Some ((new_in CHAT_MESSAGE)\<lparr>in_list := done\<rparr>))"
  shows "\<exists>rm'. receive_all ms rm = (replicate (length ms) (i, Partial), rm') \<and> wf_omap rm'
    \<and> map_of rm' i = (if done @ ms = [] then None else Some ((new_in CHAT_MESSAGE)\<lparr>in_list := done @ ms\<rparr>))"
  using assms
proof (induction ms arbitrary: "done" rm)
  case (Cons m ms)
  have step: "receive m rm = (Partial, om_put i ((new_in CHAT_MESSAGE)\<lparr>in_list := done @ [m]\<rparr>) rm)"
    using Cons.prems by (auto simp: receive_def PushMessage_def new_in_def Let_def)
  then show ?case
    using Cons.IH [of "om_put i ((new_in CHAT_MESSAGE)\<lparr>in_list := done @ [m]\<rparr>) rm" "done @ [m]"] Cons.prems
    by (auto simp: wf_om_put)
qed auto

lemma receive_all_append:
  "receive_all (ms @ ns) rm = (case receive_all ms rm of (rs, rm1) \<Rightarrow>
     (case receive_all ns rm1 of (rs', rm2) \<Rightarrow> (rs @ rs', rm2)))"
  by (induction ms arbitrary: rm) (simp_all add: split_beta)

lemma complete_ids:
  assumes "complete ms"
  obtains ns m where "ms = ns @ [m]" "\<forall>n \<in> set ns. message_type n = MULTI_PART"
    "message_type m \<noteq> MULTI_PART"
  using assms by (cases ms rule: rev_cases) (auto simp: complete_def)

lemma receive_all_complete:
  assumes c: "complete ms" and i: "\<forall>m \<in> set ms. message_id m = i"
    and rm: "wf_omap rm" "map_of rm i = None"
  shows "receive_all ms rm = (replicate (length ms - 1) (i, Partial)
    @ [(i, Complete ((new_in CHAT_MESSAGE)\<lparr>in_list := ms, in_type := message_type (last ms)\<rparr>))], rm)"
proof -
  obtain ns m where ms: "ms = ns @ [m]" and ns: "\<forall>n \<in> set ns. message_type n = MULTI_PART"
    and m: "message_type m \<noteq> MULTI_PART"
    using complete_ids [OF c] .
  obtain rm' where parts: "receive_all ns rm = (replicate (length ns) (i, Partial), rm')" and wf: "wf_omap rm'"
    and found: "map_of rm' i = (if ns = [] then None else Some ((new_in CHAT_MESSAGE)\<lparr>in_list := ns\<rparr>))"
    using receive_parts [of ns i rm "[]"] ns i rm by (auto simp: ms)
  have other: "map_of rm' j = map_of rm j" if "j \<noteq> i" for j
    using receive_all_filter [OF rm(1) rm(1) refl, of j ns] parts i that
    by (simp add: ms filter_empty_conv [THEN iffD2])
  have last: "receive m rm' = (Complete ((new_in CHAT_MESSAGE)\<lparr>in_list := ms, in_type := message_type m\<rparr>),
      if ns = [] then rm' else om_erase i rm')"
    using DecodeMessages_complete [of "(new_in CHAT_MESSAGE)\<lparr>in_list := ms\<rparr>"] c m i found
    by (auto simp: receive_def Let_def PushMessage_def ms new_in_def)
  have "(if ns = [] then rm' else om_erase i rm') = rm"
  proof (rule wf_omap_eqI)
    show "map_of (if ns = [] then rm' else om_erase i rm') = map_of rm"
    proof
      show "map_of (if ns = [] then rm' else om_erase i rm') j = map_of rm j" for j
        using found other [of j] rm(2) by (cases "j = i") auto
    qed
  qed (use wf rm in \<open>simp_all add: wf_om_erase\<close>)
  then show ?thesis
    using i by (simp add: ms receive_all_append parts last [unfolded ms])
qed

definition completed :: "(u32 \<times> outcome) list \<Rightarrow> message_in list" where
  "completed rs = concat (map (\<lambda>r. case snd r of Complete st \<Rightarrow> [st] | _ \<Rightarrow> []) rs)"

lemma completed_simps [simp]:
  "completed [] = []" "completed (rs @ rs') = completed rs @ completed rs'"
  "completed ((i, Complete st) # rs) = st # completed rs"
  "completed ((i, Partial) # rs) = completed rs" "completed (replicate n (i, Partial)) = []"
  by (induction n) (simp_all add: completed_def)

subsection \<open>From one peer to the other\<close>

definition sent_as :: "MessageType \<times> byte list \<Rightarrow> message list \<Rightarrow> bool" where
  "sent_as tb ms \<longleftrightarrow> complete ms \<and> in_bytes ms = snd tb \<and> readable ms
     \<and> (\<forall>m \<in> set ms. wf_message m \<and> message_id m = 0) \<and> message_type (last ms) = fst tb"

lemma sent_as_stream:
  assumes "sent_as (t, body) ms"
  shows "\<exists>st'. ToString ((new_in CHAT_MESSAGE)\<lparr>in_list := ms, in_type := t\<rparr>) = Some (body, st')"
proof -
  let ?st = "(new_in CHAT_MESSAGE)\<lparr>in_list := ms, in_type := t\<rparr>"
  have "wf_in ?st"
    using assms by (intro wf_in_fresh) (auto simp: new_in_def sent_as_def)
  moreover have "unread ?st = body"
    using assms by (subst unread_fresh) (simp_all add: new_in_def sent_as_def)
  ultimately show ?thesis
    using zin.read_all [where rd = ReadString and body = "[]", OF ReadString.simps, of ?st]
    by (auto simp: ToString_def)
qed

definition wire :: "(MessageType \<times> byte list) list \<Rightarrow> message list" where
  "wire sent = concat (map (\<lambda>(t, body). fst (GetMessages (FromBuffer body (new_out t)))) sent)"

lemma wire_one:
  assumes "body \<noteq> []" and "t \<noteq> MULTI_PART"
  shows "sent_as (t, body) (fst (GetMessages (FromBuffer body (new_out t))))"
    and "\<forall>m \<in> set (fst (GetMessages (FromBuffer body (new_out t)))). wf_message m \<and> header_written m"
proof -
  let ?out = "FromBuffer body (new_out t)"
  let ?ms = "fst (GetMessages ?out)"
  have wf: "wf_out ?out" and fields: "out_type ?out = t" "out_id ?out = 0" and list: "out_list ?out \<noteq> []"
    using assms wf_FromBuffer [OF wf_new_out] by (auto simp: new_out_def)
  have pieces: "\<forall>m \<in> set (out_list ?out). wf_message m" "\<forall>m \<in> set (out_list ?out). 0 < GetBodyLength m"
    using wf FromBuffer_nonempty_pieces [of "new_out t" body] by (auto simp: wf_out_def new_out_def)
  note set = GetMessages_set [OF pieces(1)]
  show "\<forall>m \<in> set ?ms. wf_message m \<and> header_written m"
    using set by blast
  have c: "complete ?ms" "message_type (last ?ms) = t"
    using complete_GetMessages [OF list] assms(2) fields by auto
  moreover have "\<forall>m \<in> set ?ms. 0 < GetBodyLength m"
    using set pieces(2) by fastforce
  then have "readable ?ms"
    using c by (auto simp: readable_def complete_def)
  moreover have "in_bytes ?ms = body"
    using out_bytes_FromBuffer [of body "new_out t"]
    by (simp add: in_bytes_def out_bytes_def new_out_def)
  ultimately show "sent_as (t, body) ?ms"
    using set fields by (simp add: sent_as_def)
qed

lemma sent_as_same: "sent_as tb ms \<Longrightarrow> list_all2 same_fragment ms ms' \<Longrightarrow> sent_as tb ms'"
proof -
  assume s: "sent_as tb ms" and l: "list_all2 same_fragment ms ms'"
  have ne: "ms \<noteq> []" "ms' \<noteq> []"
    using s list_all2_lengthD [OF l] by (auto simp: sent_as_def complete_def)
  note c = complete_same [OF l]
  have "message_type (last ms') = message_type (last ms)"
    using c(3) ne by (metis last_map)
  moreover have "\<forall>m \<in> set ms'. wf_message m"
    using l by (induction rule: list_all2_induct) (auto simp: same_fragment_def)
  moreover have "\<forall>m \<in> set ms'. message_id m = 0"
    using s c(4) unfolding sent_as_def by (metis imageE image_eqI list.set_map)
  moreover have "map GetBodyLength ms = map GetBodyLength ms'"
    using l by (induction rule: list_all2_induct) (auto simp: same_fragment_def GetBodyLength_def)
  then have "readable ms'"
    using s ne unfolding sent_as_def readable_def
    by (metis (no_types, lifting) hd_map imageE image_eqI list.set_map)
  ultimately show ?thesis
    using s c by (simp add: sent_as_def)
qed

lemma receive_sent:
  assumes "list_all2 sent_as sent mss" and "wf_omap rm" and "map_of rm 0 = None"
  shows "completed (fst (receive_all (concat mss) rm))
      = map2 (\<lambda>tb ms. (new_in CHAT_MESSAGE)\<lparr>in_list := ms, in_type := fst tb\<rparr>) sent mss
    \<and> snd (receive_all (concat mss) rm) = rm"
  using assms(1)
proof (induction sent mss rule: list_all2_induct)
  case (Cons tb sent ms mss)
  have "receive_all ms rm = (replicate (length ms - 1) (0, Partial)
    @ [(0, Complete ((new_in CHAT_MESSAGE)\<lparr>in_list := ms, in_type := fst tb\<rparr>))], rm)"
    using Cons.hyps(1) receive_all_complete [OF _ _ assms(2,3), of ms] by (simp add: sent_as_def)
  then show ?case
    using Cons.IH by (simp add: receive_all_append split_beta)
qed simp

lemma same_fragments_split:
  "list_all2 same_fragment (concat mss) ns \<Longrightarrow>
     \<exists>nss. ns = concat nss \<and> list_all2 (list_all2 same_fragment) mss nss"
proof (induction mss arbitrary: ns)
  case (Cons ms mss)
  then obtain n1 n2 where "ns = n1 @ n2" "list_all2 same_fragment ms n1"
    "list_all2 same_fragment (concat mss) n2"
    by (auto simp: list_all2_append1)
  then show ?case
    using Cons.IH by (metis concat.simps(2) list_all2_Cons)
qed simp

lemma sent_as_same_all:
  assumes "list_all2 sent_as sent mss" and "list_all2 (list_all2 same_fragment) mss nss"
  shows "list_all2 sent_as sent nss"
  using assms by (rule list_all2_trans [rotated]) (rule sent_as_same)

text \<open>C1: End to end. Whatever messages a peer writes one after the other, each cut into
  fragments by \<open>FromBuffer\<close> and \<open>GetMessages\<close> and written as bytes, the read loop of the
  other peer cuts the byte stream back without rest, puts together exactly those messages
  in that order, each with its type and, through \<open>ToString\<close>, its payload, and leaves
  nothing in \<open>read_messages\<close>.\<close>

theorem wire_roundtrip:
  assumes "\<forall>(t, body) \<in> set sent. body \<noteq> [] \<and> t \<noteq> MULTI_PART"
  shows "\<exists>ms. read_frames (concat (map buffer (wire sent))) = (ms, [])
    \<and> snd (receive_all ms []) = []
    \<and> list_all2 (\<lambda>(t, body) st. in_type st = t \<and> (\<exists>st'. ToString st = Some (body, st')))
        sent (completed (fst (receive_all ms [])))"
proof -
  let ?mss = "map (\<lambda>(t, body). fst (GetMessages (FromBuffer body (new_out t)))) sent"
  have w: "wire sent = concat ?mss" by (simp add: wire_def)
  have "\<forall>m \<in> set (concat ?mss). wf_message m \<and> header_written m"
    using assms wire_one(2) by fastforce
  from read_frames_buffers [OF this] obtain ns where
    ns: "read_frames (concat (map buffer (wire sent))) = (ns, [])" "list_all2 same_fragment (concat ?mss) ns"
    unfolding w by blast
  from same_fragments_split [OF ns(2)] obtain nss where
    nss: "ns = concat nss" "list_all2 (list_all2 same_fragment) ?mss nss" by blast
  have "list_all2 sent_as sent ?mss"
    using assms wire_one(1) by (auto simp: list_all2_map2 intro!: list_all2_refl list.rel_refl_strong)
  from sent_as_same_all [OF this nss(2)] have s: "list_all2 sent_as sent nss" .
  note r = receive_sent [OF s, of "[]"]
  have "list_all2 (\<lambda>(t, body) st. in_type st = t \<and> (\<exists>st'. ToString st = Some (body, st'))) sent
    (map2 (\<lambda>tb ms. (new_in CHAT_MESSAGE)\<lparr>in_list := ms, in_type := fst tb\<rparr>) sent nss)"
    using s
  proof (induction rule: list_all2_induct)
    case (Cons tb sent ms mss)
    then show ?case using sent_as_stream by (cases tb) simp
  qed simp
  then show ?thesis
    using ns(1) r by (auto simp: nss(1))
qed

theorem wire_roundtrip_witness:
  "\<exists>ms. read_frames (concat (map buffer (wire [(LOGIN, replicate 3000 7), (CHAT_MESSAGE, [1])]))) = (ms, [])
    \<and> snd (receive_all ms []) = []
    \<and> list_all2 (\<lambda>(t, body) st. in_type st = t \<and> (\<exists>st'. ToString st = Some (body, st')))
        [(LOGIN, replicate 3000 7), (CHAT_MESSAGE, [1])] (completed (fst (receive_all ms [])))"
  by (rule wire_roundtrip) (simp add: message_type_defs)

text \<open>C13: Messages do not disturb each other. In any sequence of fragments, what becomes of
  the fragments of one message identifier, and what is left of it in \<open>read_messages\<close>, is what would
  become of them had no fragment of another identifier arrived.\<close>

theorem reassembly_independent:
  "filter (\<lambda>r. fst r = i) (fst (receive_all ms [])) = fst (receive_all (filter (\<lambda>m. message_id m = i) ms) [])
   \<and> map_of (snd (receive_all ms [])) i
     = map_of (snd (receive_all (filter (\<lambda>m. message_id m = i) ms) [])) i"
  by (rule receive_all_filter) simp_all

end
