(* ===== verification/Simulation.thy ===== *)
theory Simulation
  imports Controllers
begin

text \<open>
  \<open>Simulation\<close> (common/simulation.cpp): one step takes the queued events, hands them to the
  controllers and merges what the physics moved into the state. The controllers are raw
  pointers into objects that others own, so they are addresses in an explicit store;
  dereferencing an address that is not in the store is the model's \<open>None\<close>. The physics engine
  is a parameter: what it moved and where to. The virtual computers of the worker thread do
  not touch the game state and are left out. \<open>Simulate\<close> is the view of the simulation thread alone, as if no
  event arrived and nothing was destroyed during a step; the single uses of controllers, between which the
  network thread lets users join and leave and after which handled events let go of their controllers, are
  the steps of \<open>Controller_Life\<close>.
\<close>

type_synonym addr = nat
type_synonym controller_store = "addr \<rightharpoonup> fps_controller"

record simulation =
  sim_events :: event_list
  sim_controllers :: "addr list"

record sim_input =
  in_keyboard :: "keyboard_event list"
  in_mouse_btn :: "mouse_btn_event list"
  in_mouse_move :: "mouse_move_event list"
  in_mouse_click :: "mouse_click_event list"
  in_commands :: "client_commands list"
  in_added :: "addr list"
  in_removed :: "addr list"
  in_captured :: "(bool \<times> bool) list"
  in_blurred :: "(bool \<times> bool) list"

record phys_result =
  ph_moved :: "eid list"
  ph_position :: "eid \<Rightarrow> rat vec3"
  ph_orientation :: "eid \<Rightarrow> rat orientation"

definition new_simulation :: simulation where
  "new_simulation = \<lparr>sim_events = no_events, sim_controllers = []\<rparr>"

definition AddController :: "addr \<Rightarrow> simulation \<Rightarrow> simulation" where
  "AddController c s = s\<lparr>sim_controllers := sim_controllers s @ [c]\<rparr>"

definition RemoveController :: "addr \<Rightarrow> simulation \<Rightarrow> simulation" where
  "RemoveController c s = s\<lparr>sim_controllers := removeAll c (sim_controllers s)\<rparr>"

definition On_KeyboardEvent :: "keyboard_event \<Rightarrow> simulation \<Rightarrow> simulation" where
  "On_KeyboardEvent e s = s\<lparr>sim_events := (sim_events s)\<lparr>keyboard_events := keyboard_events (sim_events s) @ [e]\<rparr>\<rparr>"

definition On_MouseBtnEvent :: "mouse_btn_event \<Rightarrow> simulation \<Rightarrow> simulation" where
  "On_MouseBtnEvent e s =
     s\<lparr>sim_events := (sim_events s)\<lparr>mouse_button_events := mouse_button_events (sim_events s) @ [e]\<rparr>\<rparr>"

definition On_MouseMoveEvent :: "mouse_move_event \<Rightarrow> simulation \<Rightarrow> simulation" where
  "On_MouseMoveEvent e s =
     s\<lparr>sim_events := (sim_events s)\<lparr>mouse_move_events := mouse_move_events (sim_events s) @ [e]\<rparr>\<rparr>"

definition On_MouseClickEvent :: "mouse_click_event \<Rightarrow> simulation \<Rightarrow> simulation" where
  "On_MouseClickEvent e s =
     s\<lparr>sim_events := (sim_events s)\<lparr>mouse_click_events := mouse_click_events (sim_events s) @ [e]\<rparr>\<rparr>"

text \<open>A loop over the controllers that may change each; the store is returned.\<close>

fun for_controllers ::
    "(fps_controller \<Rightarrow> fps_controller) \<Rightarrow> addr list \<Rightarrow> controller_store \<Rightarrow> controller_store option" where
  "for_controllers f [] st = Some st"
| "for_controllers f (a # as) st =
     (case st a of None \<Rightarrow> None | Some c \<Rightarrow> for_controllers f as (st(a \<mapsto> f c)))"

definition On_FocusCaptured ::
    "bool \<times> bool \<Rightarrow> addr list \<Rightarrow> controller_store \<Rightarrow> controller_store option" where
  "On_FocusCaptured e as st = for_controllers (ClearFocus (fst e) (snd e)) as st"

definition On_FocusBlur :: "bool \<times> bool \<Rightarrow> addr list \<Rightarrow> controller_store \<Rightarrow> controller_store option" where
  "On_FocusBlur e as st = for_controllers (SetFocus (fst e) (snd e)) as st"

text \<open>
  The entity of a controller is cut to 32 bits before it is compared with the 64 bit
  identifier of the message.
\<close>

definition On_ClientCommands ::
    "client_commands \<Rightarrow> addr list \<Rightarrow> controller_store \<Rightarrow> controller_store option" where
  "On_ClientCommands data as st = for_controllers
     (\<lambda>c. if ucast (ucast (fc_entity_id c) :: u32) = cc_id data then ApplyClientCommands data c else c) as st"

fun for_events :: "('e \<Rightarrow> controller_store \<Rightarrow> controller_store option) \<Rightarrow> 'e list \<Rightarrow> controller_store \<Rightarrow> controller_store option" where
  "for_events h [] st = Some st"
| "for_events h (e # es) st = (case h e st of None \<Rightarrow> None | Some st' \<Rightarrow> for_events h es st')"

fun update_controllers ::
    "glm_lib \<Rightarrow> rat \<Rightarrow> event_list \<Rightarrow> addr list \<Rightarrow> rat \<times> rat game_state \<times> controller_store
      \<Rightarrow> (rat \<times> rat game_state \<times> controller_store) option" where
  "update_controllers L delta ev [] r = Some r"
| "update_controllers L delta ev (a # as) (pitch, gs, st) =
     (case st a of
        None \<Rightarrow> None
      | Some c \<Rightarrow> (case FPS_Update L pitch delta gs ev c of (pitch', gs', c') \<Rightarrow>
          update_controllers L delta ev as (pitch', gs', st(a \<mapsto> c'))))"

text \<open>What the physics moved, for the components that the entity has.\<close>

definition merge_entity :: "phys_result \<Rightarrow> rat game_state \<Rightarrow> eid \<Rightarrow> rat game_state \<Rightarrow> rat game_state" where
  "merge_entity ph interpolated i client =
     (let c1 = (if om_has i (positions interpolated)
                then client\<lparr>positions := om_put i (ph_position ph i) (positions client)\<rparr> else client);
          c2 = (if om_has i (orientations interpolated)
                then c1\<lparr>orientations := om_put i (ph_orientation ph i) (orientations c1)\<rparr> else c1)
      in case map_of (velocities interpolated) i of
           Some v \<Rightarrow> c2\<lparr>velocities := om_put i v (velocities c2)\<rparr>
         | None \<Rightarrow> c2)"

definition merge_physics :: "phys_result \<Rightarrow> rat game_state \<Rightarrow> rat game_state" where
  "merge_physics ph interpolated = fold (merge_entity ph interpolated) (ph_moved ph) interpolated"

text \<open>
  \<open>Simulate\<close>: the events by kind in the order of its calls, then the controllers, then the
  physics. It returns the client state, the interpolated state that the controllers wrote
  to, the simulation, the store and the static pitch.
\<close>

definition take_input ::
    "sim_input \<Rightarrow> simulation \<Rightarrow> controller_store \<Rightarrow> (simulation \<times> controller_store) option" where
  "take_input inp s st =
     (let s1 = fold On_MouseClickEvent (in_mouse_click inp) (fold On_MouseMoveEvent (in_mouse_move inp)
                 (fold On_MouseBtnEvent (in_mouse_btn inp) (fold On_KeyboardEvent (in_keyboard inp) s)));
          as = sim_controllers s1;
          s2 = fold RemoveController (in_removed inp) (fold AddController (in_added inp) s1);
          as' = sim_controllers s2
      in case for_events (\<lambda>e. On_ClientCommands e as) (in_commands inp) st of
           None \<Rightarrow> None
         | Some st1 \<Rightarrow> (case for_events (\<lambda>e. On_FocusCaptured e as') (in_captured inp) st1 of
             None \<Rightarrow> None
           | Some st2 \<Rightarrow> (case for_events (\<lambda>e. On_FocusBlur e as') (in_blurred inp) st2 of
               None \<Rightarrow> None
             | Some st3 \<Rightarrow> Some (s2, st3))))"

definition Simulate ::
    "glm_lib \<Rightarrow> (rat \<Rightarrow> rat game_state \<Rightarrow> phys_result) \<Rightarrow> rat \<Rightarrow> rat \<Rightarrow> sim_input \<Rightarrow> rat game_state
      \<Rightarrow> simulation \<Rightarrow> controller_store
      \<Rightarrow> (rat game_state \<times> rat game_state \<times> simulation \<times> controller_store \<times> rat) option" where
  "Simulate L phys pitch delta inp interpolated s st =
     (case take_input inp s st of
        None \<Rightarrow> None
      | Some (s1, st1) \<Rightarrow>
          (case update_controllers L delta (sim_events s1) (sim_controllers s1) (pitch, interpolated, st1) of
             None \<Rightarrow> None
           | Some (pitch', gs, st2) \<Rightarrow>
               Some (merge_physics (phys delta gs) gs, gs, s1\<lparr>sim_events := no_events\<rparr>, st2, pitch')))"

subsection \<open>Which objects a step touches\<close>

lemma for_controllers_dom:
  "for_controllers f as st \<noteq> None \<longleftrightarrow> set as \<subseteq> dom st"
  "for_controllers f as st = Some st' \<Longrightarrow> dom st' = dom st"
  by (induction f as st rule: for_controllers.induct) (auto split: option.splits)

lemma for_events_dom:
  assumes "\<And>e st st'. h e st = Some st' \<Longrightarrow> dom st' = dom st"
  shows "for_events h es st = Some st' \<Longrightarrow> dom st' = dom st"
  using assms by (induction es arbitrary: st) (fastforce split: option.splits)+

lemma for_events_defined:
  assumes "\<And>e st st'. h e st = Some st' \<Longrightarrow> dom st' = dom st"
    and "\<And>e st. h e st \<noteq> None \<longleftrightarrow> A \<subseteq> dom st"
  shows "for_events h es st \<noteq> None \<longleftrightarrow> es = [] \<or> A \<subseteq> dom st"
  using assms
proof (induction es arbitrary: st)
  case (Cons e es)
  show ?case
  proof (cases "h e st")
    case None
    with Cons.prems(2) [of e st] show ?thesis by simp
  next
    case (Some st')
    then have "A \<subseteq> dom st"
      using Cons.prems(2) [of e st] by simp
    moreover have "dom st' = dom st"
      by (rule Cons.prems(1) [OF Some])
    ultimately show ?thesis
      using Some Cons.IH [OF Cons.prems] by simp
  qed
qed simp

lemma update_controllers_defined:
  "update_controllers L d ev as (p, gs, st) \<noteq> None \<longleftrightarrow> set as \<subseteq> dom st"
proof (induction as arbitrary: p gs st)
  case (Cons a as)
  show ?case
  proof (cases "st a")
    case None
    then show ?thesis by auto
  next
    case (Some c)
    obtain p' gs' c' where u: "FPS_Update L p d gs ev c = (p', gs', c')"
      by (metis prod_cases3)
    define st1 where "st1 = st(a \<mapsto> c')"
    have st1: "dom st1 = dom st" "a \<in> dom st"
      using Some by (auto simp: st1_def)
    have "update_controllers L d ev (a # as) (p, gs, st) = update_controllers L d ev as (p', gs', st1)"
      using Some u by (simp add: st1_def)
    then show ?thesis
      using Cons.IH [of p' gs' st1] st1 by simp
  qed
qed simp

lemma fold_keeps: "(\<And>x s. g (f x s) = g s) \<Longrightarrow> g (fold f xs s) = g s"
  by (induction xs arbitrary: s) simp_all

lemma fold_events_controllers [simp]:
  "sim_controllers (fold On_KeyboardEvent ks s) = sim_controllers s"
  "sim_controllers (fold On_MouseBtnEvent bs s) = sim_controllers s"
  "sim_controllers (fold On_MouseMoveEvent ms s) = sim_controllers s"
  "sim_controllers (fold On_MouseClickEvent cs s) = sim_controllers s"
  by (rule fold_keeps, simp add: On_KeyboardEvent_def On_MouseBtnEvent_def On_MouseMoveEvent_def
      On_MouseClickEvent_def)+

lemma fold_controllers [simp]:
  "sim_controllers (fold AddController as s) = sim_controllers s @ as"
  "sim_controllers (fold RemoveController rs s) = filter (\<lambda>a. a \<notin> set rs) (sim_controllers s)"
proof -
  show "sim_controllers (fold AddController as s) = sim_controllers s @ as"
    by (induction as arbitrary: s) (simp_all add: AddController_def)
  show "sim_controllers (fold RemoveController rs s) = filter (\<lambda>a. a \<notin> set rs) (sim_controllers s)"
    by (induction rs arbitrary: s)
      (auto simp: RemoveController_def removeAll_filter_not_eq intro!: filter_cong)
qed

definition kept :: "sim_input \<Rightarrow> simulation \<Rightarrow> addr list" where
  "kept inp s = filter (\<lambda>a. a \<notin> set (in_removed inp)) (sim_controllers s @ in_added inp)"

lemma commands_dom:
  "On_ClientCommands e as st \<noteq> None \<longleftrightarrow> set as \<subseteq> dom st"
  "On_ClientCommands e as st = Some st' \<Longrightarrow> dom st' = dom st"
  "On_FocusCaptured f as st \<noteq> None \<longleftrightarrow> set as \<subseteq> dom st"
  "On_FocusCaptured f as st = Some st' \<Longrightarrow> dom st' = dom st"
  "On_FocusBlur f as st \<noteq> None \<longleftrightarrow> set as \<subseteq> dom st"
  "On_FocusBlur f as st = Some st' \<Longrightarrow> dom st' = dom st"
  using for_controllers_dom
  by (simp_all only: On_ClientCommands_def On_FocusCaptured_def On_FocusBlur_def)

lemma take_input_defined:
  "(\<exists>st'. take_input inp s st = Some (s', st')) \<Longrightarrow> sim_controllers s' = kept inp s"
  "set (sim_controllers s) \<subseteq> dom st \<Longrightarrow> set (kept inp s) \<subseteq> dom st \<Longrightarrow> take_input inp s st \<noteq> None"
  "take_input inp s st = Some (s', st') \<Longrightarrow> dom st' = dom st"
  "take_input inp s st \<noteq> None \<Longrightarrow> in_commands inp = [] \<or> set (sim_controllers s) \<subseteq> dom st"
proof -
  show "(\<exists>st'. take_input inp s st = Some (s', st')) \<Longrightarrow> sim_controllers s' = kept inp s"
    by (auto simp: take_input_def Let_def kept_def split: option.splits)
  let ?c = "\<lambda>st. for_events (\<lambda>e. On_ClientCommands e (sim_controllers s)) (in_commands inp) st"
  let ?f = "\<lambda>st. for_events (\<lambda>e. On_FocusCaptured e (kept inp s)) (in_captured inp) st"
  let ?b = "\<lambda>st. for_events (\<lambda>e. On_FocusBlur e (kept inp s)) (in_blurred inp) st"
  have c: "?c st \<noteq> None \<longleftrightarrow> in_commands inp = [] \<or> set (sim_controllers s) \<subseteq> dom st" for st
    by (rule for_events_defined) (rule commands_dom, assumption, rule commands_dom)
  have f: "?f st \<noteq> None \<longleftrightarrow> in_captured inp = [] \<or> set (kept inp s) \<subseteq> dom st" for st
    by (rule for_events_defined) (rule commands_dom, assumption, rule commands_dom)
  have b: "?b st \<noteq> None \<longleftrightarrow> in_blurred inp = [] \<or> set (kept inp s) \<subseteq> dom st" for st
    by (rule for_events_defined) (rule commands_dom, assumption, rule commands_dom)
  have d: "?c st = Some st' \<Longrightarrow> dom st' = dom st" "?f st = Some st' \<Longrightarrow> dom st' = dom st"
    "?b st = Some st' \<Longrightarrow> dom st' = dom st" for st st'
    by (erule for_events_dom [rotated], erule commands_dom)+
  have t: "take_input inp s st = (case ?c st of None \<Rightarrow> None | Some st1 \<Rightarrow> (case ?f st1 of None \<Rightarrow> None
      | Some st2 \<Rightarrow> (case ?b st2 of None \<Rightarrow> None | Some st3 \<Rightarrow>
          Some (fold RemoveController (in_removed inp) (fold AddController (in_added inp)
            (fold On_MouseClickEvent (in_mouse_click inp) (fold On_MouseMoveEvent (in_mouse_move inp)
              (fold On_MouseBtnEvent (in_mouse_btn inp) (fold On_KeyboardEvent (in_keyboard inp) s))))), st3))))"
    unfolding take_input_def Let_def kept_def fold_controllers fold_events_controllers ..
  show "take_input inp s st = Some (s', st') \<Longrightarrow> dom st' = dom st"
    unfolding t using d by (auto split: option.splits)
  show "take_input inp s st \<noteq> None \<Longrightarrow> in_commands inp = [] \<or> set (sim_controllers s) \<subseteq> dom st"
    unfolding t using c [of st] by (auto split: option.splits)
  show "take_input inp s st \<noteq> None" if "set (sim_controllers s) \<subseteq> dom st" "set (kept inp s) \<subseteq> dom st"
  proof -
    note live = that
    obtain st1 where 1: "?c st = Some st1" using c [of st] live by blast
    obtain st2 where 2: "?f st1 = Some st2" using f [of st1] d(1) [OF 1] live by blast
    obtain st3 where 3: "?b st2 = Some st3" using b [of st2] d(1) [OF 1] d(2) [OF 2] live by blast
    show ?thesis unfolding t by (simp add: 1 2 3)
  qed
qed

lemma update_controllers_dom:
  "update_controllers L d ev as r = Some (p', gs, st') \<Longrightarrow> dom st' = dom (snd (snd r))"
  by (induction L d ev as r rule: update_controllers.induct)
    (auto split: option.splits prod.splits)

lemma Simulate_defined:
  assumes "set (sim_controllers s) \<union> set (kept inp s) \<subseteq> dom st"
  shows "\<exists>client gs s' st' p'. Simulate L phys p d inp interpolated s st = Some (client, gs, s', st', p')
    \<and> sim_controllers s' = kept inp s \<and> dom st' = dom st \<and> sim_events s' = no_events"
proof -
  obtain s1 st1 where t: "take_input inp s st = Some (s1, st1)"
    using take_input_defined(2) [of s st inp] assms by auto
  have k: "sim_controllers s1 = kept inp s" "dom st1 = dom st"
    using take_input_defined(1,3) t by blast+
  obtain p' gs st2 where u: "update_controllers L d (sim_events s1) (kept inp s) (p, interpolated, st1) = Some (p', gs, st2)"
    using update_controllers_defined [of L d "sim_events s1" "kept inp s" p interpolated st1] k assms
    by (metis le_sup_iff not_None_eq prod_cases3)
  show ?thesis
    using update_controllers_dom [OF u] k by (simp add: Simulate_def t u)
qed

lemma Simulate_undefined:
  assumes "\<not> set (kept inp s) \<subseteq> dom st"
  shows "Simulate L phys p d inp interpolated s st = None"
proof (cases "take_input inp s st")
  case (Some r)
  obtain s1 st1 where r: "r = (s1, st1)" by (cases r)
  have "sim_controllers s1 = kept inp s" "dom st1 = dom st"
    using take_input_defined(1,3) Some r by blast+
  then have "update_controllers L d (sim_events s1) (sim_controllers s1) (p, interpolated, st1) = None"
    using assms update_controllers_defined [of L d "sim_events s1" "kept inp s" p interpolated st1] by metis
  then show ?thesis
    by (simp add: Simulate_def Some r)
qed (simp add: Simulate_def)

text \<open>A step dereferences only living controllers if the ones it had, and those it has
  after the arrivals and departures of this step, are alive; conversely a controller it
  still has after them must be alive for the step to be defined. The step never creates or
  destroys a controller, and every input event is gone after it.\<close>

theorem Simulate_safe:
  "(set (sim_controllers s) \<union> set (kept inp s) \<subseteq> dom st \<longrightarrow>
     (\<exists>client gs s' st' p'. Simulate L phys p d inp interpolated s st = Some (client, gs, s', st', p')
       \<and> sim_controllers s' = kept inp s \<and> dom st' = dom st \<and> sim_events s' = no_events))
   \<and> (Simulate L phys p d inp interpolated s st \<noteq> None \<longrightarrow> set (kept inp s) \<subseteq> dom st)"
  by (intro conjI impI)
    (erule Simulate_defined, erule contrapos_np, erule Simulate_undefined)

definition no_input :: sim_input where
  "no_input = \<lparr>in_keyboard = [], in_mouse_btn = [], in_mouse_move = [], in_mouse_click = [],
     in_commands = [], in_added = [], in_removed = [], in_captured = [], in_blurred = []\<rparr>"

theorem Simulate_safe_witness:
  "(\<exists>client gs s' st' p'. Simulate flat_glm (\<lambda>d gs. \<lparr>ph_moved = [], ph_position = (\<lambda>i. zero_vec),
        ph_orientation = (\<lambda>i. new_orientation)\<rparr>) 0 (1 / 60) (no_input\<lparr>in_added := [4]\<rparr>) new_game_state
        new_simulation [4 \<mapsto> new_controller 7] = Some (client, gs, s', st', p') \<and> sim_controllers s' = [4])"
  using Simulate_safe [of new_simulation "no_input\<lparr>in_added := [4]\<rparr>" "[4 \<mapsto> new_controller 7]" flat_glm
    "\<lambda>d gs. \<lparr>ph_moved = [], ph_position = (\<lambda>i. zero_vec), ph_orientation = (\<lambda>i. new_orientation)\<rparr>" 0 "1 / 60" new_game_state]
  by (auto simp: kept_def new_simulation_def no_input_def)

end
