(* ===== verification/Vfs_Native.thy ===== *)
theory Vfs_Native
  imports Vfs_Normal
begin

text \<open>
  The mapping of the virtual file system to native paths and what is built on it
  (common/filesystem.cpp, and the Unix branches of common/filesystem_platform.cpp): the
  assets directory, existence tests, \<open>MkPath\<close>, opening files and the user folders. The
  operating system is a parameter: a record of its calls over an abstract state \<open>'w\<close>. The
  properties say that an \<open>assets:\<close> path can only name something below the assets directory,
  what the base of a path is, and when \<open>MkPath\<close> returns.
\<close>

subsection \<open>The operating system\<close>

datatype mkdir_result = Made | Exists_already | Mkdir_failed

record 'w os_calls =
  px_stat :: "string \<Rightarrow> 'w \<Rightarrow> u32 option"
  px_mkdir :: "string \<Rightarrow> 'w \<Rightarrow> mkdir_result \<times> 'w"
  px_readable :: "string \<Rightarrow> 'w \<Rightarrow> bool"
  px_fopen :: "string \<Rightarrow> string \<Rightarrow> 'w \<Rightarrow> bool \<times> 'w"
  px_getcwd :: "'w \<Rightarrow> string option"
  px_self_exe :: "'w \<Rightarrow> string option"
  px_getenv :: "string \<Rightarrow> 'w \<Rightarrow> string option"

text \<open>The static members of \<open>Path\<close>, with the state of the operating system.\<close>

record 'w vfs =
  settings_folder :: vpath
  udata_folder :: vpath
  cache_folder :: vpath
  assets_base :: vpath
  os_state :: 'w

subsection \<open>Native paths\<close>

text \<open>
  \<open>GetNativePath\<close>, given the outcome of \<open>GetAssetsBasePath\<close>. The \<open>for_each\<close> that should lower
  the case of the device discards its results, so the device is compared as it is.
\<close>

definition native_with :: "path_error + vpath \<Rightarrow> vpath \<Rightarrow> path_error + string" where
  "native_with base p =
     (if \<not> path_valid p then Inl Invalid_path
      else if 2 < length (device p) then
        (if device p = ''assets:''
         then try_bind base (\<lambda>b. try_bind (path_div b (Path (pstr p)))
                (\<lambda>asset. if device asset \<noteq> [] then Inl No_device else Inr (pstr asset)))
         else Inl No_device)
      else if device p \<noteq> [] then Inl No_device
      else Inr (pstr p))"

text \<open>\<open>S_IFDIR\<close> is a bit of the file type, tested as a mask.\<close>

definition S_IFDIR :: u32 where "S_IFDIR = 0x4000"

definition dir_exists_with ::
    "'w os_calls \<Rightarrow> path_error + vpath \<Rightarrow> vpath \<Rightarrow> 'w \<Rightarrow> path_error + bool" where
  "dir_exists_with os base p w = try_bind (native_with base p)
     (\<lambda>npath. Inr (case px_stat os npath w of None \<Rightarrow> False | Some mode \<Rightarrow> mode AND S_IFDIR \<noteq> 0))"

definition GetWorkingDir :: "'w os_calls \<Rightarrow> 'w \<Rightarrow> vpath" where
  "GetWorkingDir os w = (case px_getcwd os w of None \<Rightarrow> invalid_path | Some cwd \<Rightarrow> Path cwd)"

definition GetProgramPath :: "'w os_calls \<Rightarrow> 'w \<Rightarrow> vpath" where
  "GetProgramPath os w = (case px_self_exe os w of None \<Rightarrow> invalid_path | Some exe \<Rightarrow> Path exe)"

text \<open>
  The directories that \<open>LocateAssets\<close> probes, in order. None of them has the \<open>assets:\<close> device,
  since the working directory and the program path are absolute native paths; the base is
  still unknown while they are tested.
\<close>

definition assets_candidates :: "'w os_calls \<Rightarrow> 'w \<Rightarrow> (path_error + vpath) list" where
  "assets_candidates os w =
     (let program = BasePath (GetProgramPath os w) in
      [path_div_str (GetWorkingDir os w) ''assets/'',
       path_div_str program ''assets/'',
       path_div_str (BasePath program) ''share/assets/'',
       try_bind (path_div_str (BasePath program) ''share'')
         (\<lambda>p. try_bind (path_div_str p ''trillek'') (\<lambda>q. path_div_str q ''assets/'')),
       path_div_str (BasePath (BasePath program)) ''assets/''])"

fun probe :: "'w os_calls \<Rightarrow> (path_error + vpath) list \<Rightarrow> 'w \<Rightarrow> path_error + vpath option" where
  "probe os [] w = Inr None"
| "probe os (c # cs) w = try_bind c (\<lambda>search.
     try_bind (dir_exists_with os (Inl No_assets) search w)
       (\<lambda>found. if found then Inr (Some search) else probe os cs w))"

definition LocateAssets :: "'w os_calls \<Rightarrow> 'w vfs \<Rightarrow> path_error + 'w vfs" where
  "LocateAssets os st = try_bind (probe os (assets_candidates os (os_state st)) (os_state st))
     (\<lambda>r. Inr (case r of None \<Rightarrow> st | Some search \<Rightarrow> st\<lparr>assets_base := search\<rparr>))"

definition GetAssetsBasePath :: "'w os_calls \<Rightarrow> 'w vfs \<Rightarrow> path_error + vpath \<times> 'w vfs" where
  "GetAssetsBasePath os st =
     (if path_empty (assets_base st)
      then try_bind (LocateAssets os st)
        (\<lambda>st'. if path_empty (assets_base st') then Inl No_assets else Inr (assets_base st', st'))
      else Inr (assets_base st, st))"

definition SetAssetsBasePath :: "vpath \<Rightarrow> 'w vfs \<Rightarrow> 'w vfs" where
  "SetAssetsBasePath new_base st = st\<lparr>assets_base := new_base\<rparr>"

text \<open>The base is looked up, and cached, only for a valid path with the \<open>assets:\<close> device.\<close>

definition GetNativePath :: "'w os_calls \<Rightarrow> vpath \<Rightarrow> 'w vfs \<Rightarrow> path_error + string \<times> 'w vfs" where
  "GetNativePath os p st =
     (if path_valid p \<and> device p = ''assets:''
      then try_bind (GetAssetsBasePath os st)
        (\<lambda>(base, st'). try_bind (native_with (Inr base) p) (\<lambda>npath. Inr (npath, st')))
      else try_bind (native_with (Inl No_assets) p) (\<lambda>npath. Inr (npath, st)))"

subsection \<open>Existence, directories\<close>

definition FileExists :: "'w os_calls \<Rightarrow> vpath \<Rightarrow> 'w vfs \<Rightarrow> path_error + bool \<times> 'w vfs" where
  "FileExists os p st = try_bind (GetNativePath os p st)
     (\<lambda>(npath, st'). Inr (px_readable os npath (os_state st'), st'))"

definition DirExists :: "'w os_calls \<Rightarrow> vpath \<Rightarrow> 'w vfs \<Rightarrow> path_error + bool \<times> 'w vfs" where
  "DirExists os p st = try_bind (GetNativePath os p st)
     (\<lambda>(npath, st'). Inr (case px_stat os npath (os_state st') of
         None \<Rightarrow> False | Some mode \<Rightarrow> mode AND S_IFDIR \<noteq> 0, st'))"

definition MkDir :: "'w os_calls \<Rightarrow> vpath \<Rightarrow> 'w vfs \<Rightarrow> path_error + bool \<times> 'w vfs" where
  "MkDir os p st =
     (if \<not> path_valid p then Inr (False, st)
      else try_bind (GetNativePath os p st) (\<lambda>(npath, st').
        case px_mkdir os npath (os_state st') of
          (r, w) \<Rightarrow> Inr (r \<noteq> Mkdir_failed, st'\<lparr>os_state := w\<rparr>)))"

text \<open>The result of the recursive call is not used; an exception of it propagates.\<close>

partial_function (option) MkPath ::
    "'w os_calls \<Rightarrow> vpath \<Rightarrow> 'w vfs \<Rightarrow> (path_error + bool \<times> 'w vfs) option" where
  "MkPath os p st =
     (if pstr p = [SEP] then Some (Inr (True, st))
      else if path_valid (BasePath p) then
        (case DirExists os (BasePath p) st of
           Inl e \<Rightarrow> Some (Inl e)
         | Inr (found, st1) \<Rightarrow>
             if found then Some (MkDir os p st1)
             else Option.bind (MkPath os (BasePath p) st1) (\<lambda>r. case r of
                 Inl e \<Rightarrow> Some (Inl e)
               | Inr (_, st2) \<Rightarrow> Some (MkDir os p st2)))
      else Some (MkDir os p st))"

subsection \<open>Opening files\<close>

type_synonym PATH_OPEN_FLAGS = u32

definition FS_DEFAULT :: PATH_OPEN_FLAGS where "FS_DEFAULT = 0"
definition FS_READONLY :: PATH_OPEN_FLAGS where "FS_READONLY = 0"
definition FS_READWRITE :: PATH_OPEN_FLAGS where "FS_READWRITE = 1"
definition FS_CREATE :: PATH_OPEN_FLAGS where "FS_CREATE = 2"
definition FS_APPEND :: PATH_OPEN_FLAGS where "FS_APPEND = 4"

lemmas open_flag_defs = FS_DEFAULT_def FS_READONLY_def FS_READWRITE_def FS_CREATE_def FS_APPEND_def

definition flag_set :: "PATH_OPEN_FLAGS \<Rightarrow> PATH_OPEN_FLAGS \<Rightarrow> bool" where
  "flag_set m f \<longleftrightarrow> m AND f \<noteq> 0"

text \<open>The test that a file opened for writing without \<open>FS_CREATE\<close> exists.\<close>

definition must_exist ::
    "'w os_calls \<Rightarrow> PATH_OPEN_FLAGS \<Rightarrow> vpath \<Rightarrow> 'w vfs \<Rightarrow> path_error + 'w vfs" where
  "must_exist os open_mode p st =
     (if flag_set open_mode FS_CREATE then Inr st
      else try_bind (FileExists os p st) (\<lambda>(found, st'). if found then Inr st' else Inl Not_created))"

text \<open>The result is the native path, the \<open>fopen\<close> mode and whether it seeks to the end.\<close>

definition OpenFile ::
    "'w os_calls \<Rightarrow> PATH_OPEN_FLAGS \<Rightarrow> vpath \<Rightarrow> 'w vfs \<Rightarrow> path_error + (string \<times> string \<times> bool) \<times> 'w vfs"
    where
  "OpenFile os open_mode p st =
     (if \<not> path_valid p then Inl Invalid_path
      else try_bind
        (if flag_set open_mode FS_READWRITE then
           try_bind (must_exist os open_mode p st) (\<lambda>st1. Inr
             (if flag_set open_mode FS_CREATE
              then (if flag_set open_mode FS_APPEND then (''a+'', False, st1) else (''w+'', False, st1))
              else (''r+'', flag_set open_mode FS_APPEND, st1)))
         else if flag_set open_mode (FS_CREATE OR FS_APPEND) then Inl Invalid_flags
         else Inr (''r'', False, st))
        (\<lambda>(mode, seek_to_end, st1). try_bind (GetNativePath os p st1) (\<lambda>(npath, st2).
           case px_fopen os npath (mode @ ''b'') (os_state st2) of
             (ok, w) \<Rightarrow> if ok then Inr ((npath, mode @ ''b'', seek_to_end), st2\<lparr>os_state := w\<rparr>)
                        else Inl Does_not_exist)))"

datatype ios_flag = Ios_in | Ios_out | Ios_app | Ios_ate | Ios_binary

definition OpenStream ::
    "'w os_calls \<Rightarrow> PATH_OPEN_FLAGS \<Rightarrow> vpath \<Rightarrow> 'w vfs \<Rightarrow> path_error + (string \<times> ios_flag set) \<times> 'w vfs"
    where
  "OpenStream os open_mode p st =
     (if \<not> path_valid p then Inl Invalid_path
      else try_bind
        (if flag_set open_mode FS_READWRITE then
           try_bind (must_exist os open_mode p st) (\<lambda>st1. Inr
             (if flag_set open_mode FS_APPEND then ({Ios_out, Ios_app, Ios_ate}, st1) else ({Ios_out}, st1)))
         else if flag_set open_mode (FS_CREATE OR FS_APPEND) then Inl Invalid_flags
         else try_bind (FileExists os p st)
           (\<lambda>(found, st'). if found then Inr ({Ios_in}, st') else Inl Does_not_exist))
        (\<lambda>(mode, st1). try_bind (GetNativePath os p st1)
           (\<lambda>(npath, st2). Inr ((npath, insert Ios_binary mode), st2))))"

subsection \<open>User folders\<close>

text \<open>
  \<open>GetUserSettingsPath\<close>, \<open>GetUserDataPath\<close> and \<open>GetUserCachePath\<close> on Unix: the cached folder,
  or the variable (else \<open>HOME\<close>) with \<open>sub\<close> and the application name appended. The last slash
  is appended to the path string itself. \<open>None\<close> is a \<open>MkPath\<close> that does not return.
\<close>

definition user_folder :: "'w os_calls \<Rightarrow> string \<Rightarrow> string \<Rightarrow> 'w vfs \<Rightarrow> path_error + vpath" where
  "user_folder os var sub st =
     (case (case px_getenv os var (os_state st) of
              None \<Rightarrow> px_getenv os ''HOME'' (os_state st) | Some h \<Rightarrow> Some h) of
        None \<Rightarrow> Inr invalid_path
      | Some home \<Rightarrow> try_bind (path_div_str (Path home) sub)
          (\<lambda>p. try_bind (path_div_str p ''trillek'') (\<lambda>q. Inr (q\<lparr>pstr := pstr q @ [SEP]\<rparr>))))"

definition user_home_known :: "'w os_calls \<Rightarrow> string \<Rightarrow> 'w vfs \<Rightarrow> bool" where
  "user_home_known os var st \<longleftrightarrow> px_getenv os var (os_state st) \<noteq> None
     \<or> px_getenv os ''HOME'' (os_state st) \<noteq> None"

definition GetUserSettingsPath :: "'w os_calls \<Rightarrow> 'w vfs \<Rightarrow> (path_error + vpath \<times> 'w vfs) option" where
  "GetUserSettingsPath os st =
     (if path_valid (settings_folder st) then Some (Inr (settings_folder st, st))
      else if \<not> user_home_known os ''XDG_CONFIG_HOME'' st then Some (Inr (invalid_path, st))
      else case user_folder os ''XDG_CONFIG_HOME'' ''.config'' st of
          Inl e \<Rightarrow> Some (Inl e)
        | Inr ret \<Rightarrow> Option.bind (MkPath os ret st)
            (\<lambda>r. Some (try_bind r (\<lambda>(_, st'). Inr (ret, st'\<lparr>settings_folder := ret\<rparr>)))))"

text \<open>These two set the cached folder before \<open>MkPath\<close>.\<close>

definition GetUserDataPath :: "'w os_calls \<Rightarrow> 'w vfs \<Rightarrow> (path_error + vpath \<times> 'w vfs) option" where
  "GetUserDataPath os st =
     (if path_valid (udata_folder st) then Some (Inr (udata_folder st, st))
      else if \<not> user_home_known os ''XDG_DATA_HOME'' st then Some (Inr (invalid_path, st))
      else case user_folder os ''XDG_DATA_HOME'' ''.local/share'' st of
          Inl e \<Rightarrow> Some (Inl e)
        | Inr ret \<Rightarrow> Option.bind (MkPath os ret (st\<lparr>udata_folder := ret\<rparr>))
            (\<lambda>r. Some (try_bind r (\<lambda>(_, st'). Inr (ret, st')))))"

definition GetUserCachePath :: "'w os_calls \<Rightarrow> 'w vfs \<Rightarrow> (path_error + vpath \<times> 'w vfs) option" where
  "GetUserCachePath os st =
     (if path_valid (cache_folder st) then Some (Inr (cache_folder st, st))
      else if \<not> user_home_known os ''XDG_CACHE_HOME'' st then Some (Inr (invalid_path, st))
      else case user_folder os ''XDG_CACHE_HOME'' ''.cache'' st of
          Inl e \<Rightarrow> Some (Inl e)
        | Inr ret \<Rightarrow> Option.bind (MkPath os ret (st\<lparr>cache_folder := ret\<rparr>))
            (\<lambda>r. Some (try_bind r (\<lambda>(_, st'). Inr (ret, st')))))"

subsection \<open>Formatting\<close>

text \<open>The formatter of \<open>fmt\<close>: \<open>parse\<close> reads at most one flag character.\<close>

definition format_path :: "char option \<Rightarrow> vpath \<Rightarrow> string" where
  "format_path flag p =
     (let what = (if flag = Some CHR ''r'' then Relative p else p);
          s = (if flag = Some CHR ''f'' then FileName what
               else if flag = Some CHR ''x'' then FileExtension what else toString what)
      in if flag = Some CHR ''q'' then CHR 0x22 # s @ [CHR 0x22] else s)"

subsection \<open>The assets directory\<close>

text \<open>The assets base is unset or a normalised path, as every public constructor yields.\<close>

definition base_ok :: "'w vfs \<Rightarrow> bool" where
  "base_ok st \<longleftrightarrow> path_empty (assets_base st) \<or> normal_str (pstr (assets_base st))"

lemma path_div_normal:
  "path_div p q = Inr r \<Longrightarrow> (pstr q = [] \<Longrightarrow> device q = []) \<Longrightarrow> normal_str (pstr r)"
  by (auto simp: path_div_def rhs_relative_def path_empty_def split: if_splits
      intro!: normal_str_NormalizePath)

lemma path_div_str_normal: "path_div_str p s = Inr r \<Longrightarrow> normal_str (pstr r)"
  unfolding path_div_str_def
proof (erule path_div_normal)
  assume "pstr (Path s) = []"
  then have "s = []"
    using Path_normal [THEN normal_str_parts(4)] by blast
  then show "device (Path s) = []"
    by (simp add: Path_def SetDevice_def NormalizePath_def)
qed

lemma candidates_normal:
  "Inr c \<in> set (assets_candidates os w) \<Longrightarrow> normal_str (pstr c)"
  by (auto simp: assets_candidates_def Let_def try_bind_eq_Inr
      dest!: sym [of "Inr c"] intro: path_div_str_normal)

lemma probe_finds: "probe os cs w = Inr (Some c) \<Longrightarrow> Inr c \<in> set cs"
  by (induction os cs w rule: probe.induct) (auto simp: try_bind_eq_Inr split: if_splits)

lemma GetAssetsBasePath_ok:
  assumes "base_ok st" and "GetAssetsBasePath os st = Inr (b, st')"
  shows "b = assets_base st' \<and> normal_str (pstr b) \<and> os_state st' = os_state st"
  using assms
  by (auto simp: GetAssetsBasePath_def base_ok_def LocateAssets_def try_bind_eq_Inr
      split: if_splits option.splits dest!: probe_finds candidates_normal)

lemma no_device_absolute: "isAbsolutePath p \<Longrightarrow> SetDevice p = p"
  by (cases "pstr p") (auto simp: SetDevice_def Let_def isAbsolutePath_def is_alpha_def SEP_def)

lemma pstr_Path_normal: "normal_str t \<Longrightarrow> hd t = SEP \<Longrightarrow> pstr (Path t) = t"
  using no_device_absolute [of "\<lparr>device = [], pstr = t\<rparr>"] normal_str_parts(4) [of t]
  by (simp add: Path_def isAbsolutePath_def NormalizePath_normal_str)

subsection \<open>Base paths\<close>

text \<open>Splitting a normal string at its last separator.\<close>

lemma last_sep_positions:
  assumes "SEP \<notin> set b" and "k \<le> length b"
  shows "dropWhile (\<lambda>i. (a @ SEP # b) ! i \<noteq> SEP) (rev [0..<Suc (length a + k)])
    = rev [0..<Suc (length a)]"
  using assms(2)
proof (induction k)
  case (Suc k)
  have "b ! k \<noteq> SEP"
    using assms(1) Suc.prems by (metis Suc_le_lessD nth_mem)
  then have "(a @ SEP # b) ! Suc (length a + k) \<noteq> SEP"
    by (simp add: nth_append Suc_diff_le)
  with Suc show ?case by simp
qed simp

lemma find_last_sep_eq:
  assumes "SEP \<notin> set b" and "length a + length b \<le> len"
  shows "find_last_sep (a @ SEP # b) len = Some (length a)"
proof -
  have "min (Suc len) (length (a @ SEP # b)) = Suc (length a + length b)"
    using assms(2) by simp
  then show ?thesis
    using last_sep_positions [OF assms(1) order.refl, of a]
    by (simp add: find_last_sep_def del: upt_Suc) simp
qed

lemma find_last_sep_None: "SEP \<notin> set t \<Longrightarrow> find_last_sep t len = None"
proof -
  assume t: "SEP \<notin> set t"
  have "\<forall>i \<in> set (rev [0..<min (Suc len) (length t)]). t ! i \<noteq> SEP"
    using t by (auto simp: in_set_conv_nth)
  then have "dropWhile (\<lambda>i. t ! i \<noteq> SEP) (rev [0..<min (Suc len) (length t)]) = []"
    by (simp only: dropWhile_eq_Nil_conv)
  then show ?thesis
    unfolding find_last_sep_def by (simp only: list.simps)
qed

lemma join_path_snoc: "join_path (ss @ [e]) = (if ss = [] then e else join_path ss @ SEP # e)"
  by (induction ss) (auto simp: join_path_Cons)

lemma after_last_seg: "SEP \<notin> set e \<Longrightarrow> after_last SEP (a @ SEP # e) = e"
proof -
  assume "SEP \<notin> set e"
  then have "takeWhile (\<lambda>x. x \<noteq> SEP) (rev e @ SEP # rev a) = rev e"
    by (subst takeWhile_append2) auto
  then show ?thesis by (simp add: after_last_def)
qed

lemma after_last_none: "SEP \<notin> set e \<Longrightarrow> after_last SEP e = e"
  unfolding after_last_def by (metis (mono_tags, lifting) rev_rev_ident set_rev takeWhile_eq_all_conv)

lemma render_last:
  assumes "normal_segs a ns" and "ns \<noteq> []"
  shows "last (render a l ns) = SEP \<longleftrightarrow> l"
proof -
  have "\<forall>s \<in> set ns. clean_seg s" using assms(1) by (simp add: normal_segs_def)
  from join_path_ends [OF this assms(2)] show ?thesis
    using assms(2) by (auto simp: render_def last_append)
qed

lemma normal_segs_butlast: "normal_segs a (ss @ [e]) \<Longrightarrow> normal_segs a ss \<and> clean_seg e"
  by (cases ss) (auto simp: normal_segs_def split: if_splits)

lemma BasePath_split:
  assumes "pstr p = u @ SEP # e" and "SEP \<notin> set e" and "e \<noteq> []"
  shows "BasePath p = \<lparr>device = device p, pstr = (if u = [] then [SEP] else u)\<rparr>
    \<and> FileName p = e"
proof -
  have "last (pstr p) \<noteq> SEP"
    using assms by (metis last_ConsR last_appendR last_in_set list.simps(3))
  then show ?thesis
    using assms find_last_sep_eq [OF assms(2), of u "length (pstr p)"]
    by (simp add: BasePath_def FileName_def after_last_seg)
qed

lemma BasePath_slash:
  assumes "pstr p = u @ [SEP]" and "u \<noteq> []"
  shows "BasePath p = p\<lparr>pstr := u\<rparr> \<and> FileName p = []"
  using assms find_last_sep_eq [of "[]" u "length u"]
  by (simp add: BasePath_def FileName_def after_last_def)

lemma render_snoc:
  "render a False (ss @ [e]) = (if ss = [] then (if a then SEP # e else e) else render a False ss @ SEP # e)"
  by (auto simp: render_def join_path_snoc)

lemma segs_render: "normal_segs a ss \<Longrightarrow> segs (render a l ss) = ss"
  by (rule render_facts(4))

subsection \<open>Properties\<close>

text \<open>C38: Confinement of assets. When a normalised absolute path with the \<open>assets:\<close> device maps
  to a native path, that path has the elements of the assets directory followed by the
  elements of the virtual path, none of which is an up-reference; nothing outside the assets
  directory can be named.\<close>

theorem assets_confined:
  assumes "base_ok st" and "normal_str (pstr p)" and "isAbsolutePath p" and "device p = ''assets:''"
    and "GetNativePath os p st = Inr (npath, st')"
  shows "segs npath = segs (pstr (assets_base st')) @ segs (pstr p) \<and> ''..'' \<notin> set (segs (pstr p))
    \<and> (path_abs npath \<longleftrightarrow> isAbsolutePath (assets_base st'))"
proof -
  have hd: "hd (pstr p) = SEP"
    using assms(3) by (simp add: isAbsolutePath_def)
  have q: "pstr (Path (pstr p)) = pstr p"
    by (rule pstr_Path_normal [OF assms(2) hd])
  obtain b asset where b: "GetAssetsBasePath os st = Inr (b, st')"
    "path_div b (Path (pstr p)) = Inr asset" "npath = pstr asset"
    using assms(4,5) by (auto simp: GetNativePath_def native_with_def try_bind_eq_Inr split: if_splits)
  have nb: "normal_str (pstr b)" "b = assets_base st'"
    using GetAssetsBasePath_ok [OF assms(1) b(1)] by auto
  have "device (Path (pstr p)) = []"
    using b(2) normal_str_parts(4) [OF nb(1)] by (simp add: path_div_def split: if_splits)
  from segs_path_div [OF nb(1) _ this] q assms(2) b(2)
  have a: "normal_str (pstr asset)" "path_abs (pstr asset) = path_abs (pstr b)"
    "segs (pstr asset) = foldl (push_seg (path_abs (pstr b))) [] (segs (pstr b) @ segs (pstr p))"
    by auto
  have np: "''..'' \<notin> set (segs (pstr p))" "\<forall>e \<in> set (segs (pstr p)). clean_seg e"
    using normal_str_segs [OF assms(2)] assms(3) isAbsolutePath_normal [OF assms(2)]
    by (auto simp: normal_segs_def)
  have "foldl (push_seg (path_abs (pstr b))) [] (segs (pstr b)) = segs (pstr b)"
    by (rule foldl_push_normal [OF normal_str_segs [OF nb(1)]])
  then have "segs (pstr asset) = segs (pstr b) @ segs (pstr p)"
    using a(3) np by (metis foldl_append foldl_push_no_up)
  then show ?thesis
    using a nb b(3) np isAbsolutePath_normal [OF nb(1)] by simp
qed

text \<open>Base paths and names. For a normalised path that does not end in a separator, \<open>BasePath\<close>
  has all its elements but the last, which is the \<open>FileName\<close>; for one that does, \<open>BasePath\<close>
  only removes that separator and the \<open>FileName\<close> is empty. The base of an absolute path is
  absolute and keeps its device.\<close>

theorem BasePath_elements:
  assumes "normal_str (pstr p)" and "segs (pstr p) \<noteq> []"
  shows "segs (pstr (BasePath p)) = (if last (pstr p) = SEP then segs (pstr p) else butlast (segs (pstr p)))
    \<and> FileName p = (if last (pstr p) = SEP then [] else last (segs (pstr p)))
    \<and> (isAbsolutePath p \<longrightarrow> isAbsolutePath (BasePath p) \<and> device (BasePath p) = device p)"
proof -
  obtain a l ns where ns: "normal_segs a ns" and t: "pstr p = render a l ns" and l: "l \<longrightarrow> a \<longrightarrow> ns \<noteq> []"
    using assms(1) by (auto simp: normal_str_def)
  have sg: "segs (pstr p) = ns" by (simp add: t segs_render [OF ns])
  then have ne: "ns \<noteq> []" using assms(2) by simp
  have ab: "isAbsolutePath p \<longleftrightarrow> a"
    using isAbsolutePath_normal [OF assms(1)] render_parts(1) [OF ns l] t by simp
  have lastS: "last (pstr p) = SEP \<longleftrightarrow> l"
    using render_last [OF ns ne] t by simp
  obtain ss e where se: "ns = ss @ [e]" using ne by (cases ns rule: rev_cases) auto
  have ss: "normal_segs a ss" "e \<noteq> []" "SEP \<notin> set e"
    using normal_segs_butlast [of a ss e] ns se by (auto simp: clean_seg_def)
  consider "l" | "\<not> l" "ss = []" "\<not> a" | "\<not> l" "ss \<noteq> [] \<or> a" by blast
  then show ?thesis
  proof cases
    case 1
    have u1: "pstr p = render a False ns @ [SEP]"
      using 1 ne t by (simp add: render_def)
    note u = u1 render_facts(1) [OF ns, of False]
    show ?thesis
      using BasePath_slash [OF u] u(2) lastS 1 ab sg segs_render [OF ns] render_facts(3) [OF ns]
      by (cases a) (simp_all add: isAbsolutePath_def)
  next
    case 2
    then have "pstr p = e" using t se by (simp add: render_def)
    then have "BasePath p = \<lparr>device = [], pstr = ''.''\<rparr>" "FileName p = e"
      using ss(2,3) find_last_sep_None [of e] 2 lastS
      by (simp_all add: BasePath_def FileName_def after_last_none)
    then show ?thesis
      using se 2 lastS ab sg by (simp add: segs_def getlines_seg)
  next
    case 3
    let ?u = "if ss = [] then [] else render a False ss"
    have "pstr p = ?u @ SEP # e"
      using t se 3 by (auto simp: render_snoc)
    from BasePath_split [OF this ss(3,2)]
    have bp: "BasePath p = \<lparr>device = device p, pstr = (if ss = [] then [SEP] else render a False ss)\<rparr>"
      "FileName p = e"
      using render_facts(1) [OF ss(1)] by (auto split: if_splits)
    moreover have "segs (if ss = [] then [SEP] else render a False ss) = ss"
      using segs_render [OF ss(1)] segs_SEP [of "[]"] by auto
    ultimately show ?thesis
      using se 3(1) lastS ab sg render_facts(1,3) [OF ss(1), of False]
      by (auto simp: isAbsolutePath_def)
  qed
qed

text \<open>A file system without directories, to apply the properties to.\<close>

definition bare_os :: "unit os_calls" where
  "bare_os = \<lparr>px_stat = (\<lambda>_ _. None), px_mkdir = (\<lambda>_ w. (Made, w)), px_readable = (\<lambda>_ _. False),
     px_fopen = (\<lambda>_ _ w. (False, w)), px_getcwd = (\<lambda>_. Some ''/game''),
     px_self_exe = (\<lambda>_. Some ''/game/tec''), px_getenv = (\<lambda>_ _. None)\<rparr>"

definition game_vfs :: "unit vfs" where
  "game_vfs = \<lparr>settings_folder = empty_path, udata_folder = empty_path, cache_folder = empty_path,
     assets_base = Path ''/game/assets/'', os_state = ()\<rparr>"

theorem assets_confined_witness:
  "\<exists>npath. GetNativePath bare_os (Path ''assets:../../etc/x'') game_vfs = Inr (npath, game_vfs)
     \<and> segs npath = [''game'', ''assets'', ''etc'', ''x'']"
proof -
  have "GetNativePath bare_os (Path ''assets:../../etc/x'') game_vfs = Inr (''/game/assets/etc/x'', game_vfs)"
    "isAbsolutePath (Path ''assets:../../etc/x'')" "device (Path ''assets:../../etc/x'') = ''assets:''"
    "segs (pstr (Path ''/game/assets/'')) = [''game'', ''assets'']"
    "segs (pstr (Path ''assets:../../etc/x'')) = [''etc'', ''x'']"
    by code_simp+
  moreover have "base_ok game_vfs"
    by (simp add: base_ok_def game_vfs_def Path_normal)
  ultimately show ?thesis
    using assets_confined [OF _ Path_normal [of "''assets:../../etc/x''"], of game_vfs bare_os]
    by (simp add: game_vfs_def)
qed

theorem BasePath_elements_witness:
  "segs (pstr (BasePath (Path ''/usr/bin/''))) = [''usr'', ''bin'']
   \<and> segs (pstr (BasePath (Path ''/usr/bin''))) = [''usr''] \<and> FileName (Path ''/usr/bin'') = ''bin''"
proof -
  have "segs (pstr (Path ''/usr/bin/'')) = [''usr'', ''bin'']" "last (pstr (Path ''/usr/bin/'')) = SEP"
    "segs (pstr (Path ''/usr/bin'')) = [''usr'', ''bin'']" "last (pstr (Path ''/usr/bin'')) \<noteq> SEP"
    by code_simp+
  then show ?thesis
    using BasePath_elements [OF Path_normal [of "''/usr/bin/''"]]
      BasePath_elements [OF Path_normal [of "''/usr/bin''"]] by simp
qed

subsection \<open>When \<open>MkPath\<close> returns\<close>

lemma find_last_sep_Some:
  "find_last_sep s len = Some pos \<Longrightarrow> pos < length s \<and> pos \<le> len"
proof -
  assume f: "find_last_sep s len = Some pos"
  then have "pos \<in> set (dropWhile (\<lambda>i. s ! i \<noteq> SEP) (rev [0..<min (Suc len) (length s)]))"
    by (auto simp: find_last_sep_def split: list.splits)
  then have "pos \<in> set (rev [0..<min (Suc len) (length s)])"
    by (rule set_dropWhileD)
  then show ?thesis by simp
qed

lemma find_last_sep_absolute:
  assumes "s \<noteq> []" and "hd s = SEP"
  shows "find_last_sep s len \<noteq> None"
proof
  assume "find_last_sep s len = None"
  then have "dropWhile (\<lambda>i. s ! i \<noteq> SEP) (rev [0..<min (Suc len) (length s)]) = []"
    by (simp add: find_last_sep_def split: list.splits)
  then have "\<forall>i \<in> set (rev [0..<min (Suc len) (length s)]). s ! i \<noteq> SEP"
    by (simp only: dropWhile_eq_Nil_conv)
  then show False
    using assms by (auto simp: hd_conv_nth)
qed

lemma BasePath_shrinks:
  assumes "isAbsolutePath p" and "pstr p \<noteq> [SEP]"
  shows "isAbsolutePath (BasePath p) \<and> length (pstr (BasePath p)) < length (pstr p)"
proof -
  have p: "pstr p \<noteq> []" "hd (pstr p) = SEP" using assms(1) by (simp_all add: isAbsolutePath_def)
  then obtain c r where cr: "pstr p = SEP # c # r"
    using assms(2) by (cases "pstr p"; cases "tl (pstr p)") auto
  let ?len = "if last (pstr p) = SEP then length (pstr p) - 1 else length (pstr p)"
  obtain pos where pos: "find_last_sep (pstr p) ?len = Some pos"
    using find_last_sep_absolute [OF p] by blast
  have "BasePath p = \<lparr>device = device p, pstr = take (if pos = 0 then 1 else pos) (pstr p)\<rparr>"
    using p(1) pos by (simp add: BasePath_def Let_def)
  then show ?thesis
    using find_last_sep_Some [OF pos] cr by (cases pos) (auto simp: isAbsolutePath_def)
qed

lemma MkPath_absolute: "isAbsolutePath p \<Longrightarrow> \<exists>r. MkPath os p st = Some r"
proof (induction "length (pstr p)" arbitrary: p st rule: less_induct)
  case less
  show ?case
  proof (cases "pstr p = [SEP]")
    case False
    then have "\<exists>r. MkPath os (BasePath p) st1 = Some r" for st1
      using less BasePath_shrinks by blast
    then have "Option.bind (MkPath os (BasePath p) st1) (\<lambda>r. case r of
        Inl e \<Rightarrow> Some (Inl e) | Inr (_, st2) \<Rightarrow> Some (MkDir os p st2)) \<noteq> None" for st1
      by (metis (mono_tags, lifting) bind.bind_lunit option.distinct(1) old.sum.simps(5,6) sum.exhaust
          surj_pair case_prod_conv)
    then show ?thesis
      by (subst MkPath.simps) (auto split: sum.split)
  qed (simp add: MkPath.simps)
qed

lemma MkPath_dot:
  assumes "px_stat os ''.'' (os_state st) = None"
  shows "MkPath os \<lparr>device = [], pstr = ''.''\<rparr> st = None"
proof (rule ccontr)
  let ?dot = "\<lparr>device = [], pstr = ''.''\<rparr>"
  have base: "BasePath ?dot = ?dot"
    by (simp add: BasePath_def find_last_sep_None)
  have exists: "DirExists os ?dot s = Inr (False, s)" if "px_stat os ''.'' (os_state s) = None" for s
    using that by (simp add: DirExists_def GetNativePath_def native_with_def path_valid_def)
  assume "MkPath os ?dot st \<noteq> None"
  then obtain r where ret: "MkPath os ?dot st = Some r" by blast
  have "\<not> (os' = os \<and> p = ?dot \<and> s = st)" if "MkPath os' p s = Some r'" for os' p s r'
  proof (rule MkPath.raw_induct [where P = "\<lambda>os' p s r'. \<not> (os' = os \<and> p = ?dot \<and> s = st)", OF _ that],
      rule notI, goal_cases)
    case (1 f os' p s r')
    then have "Option.bind (f os ?dot st) (\<lambda>r. case r of
        Inl e \<Rightarrow> Some (Inl e) | Inr (_, st2) \<Rightarrow> Some (MkDir os ?dot st2)) = Some r'"
      using assms by (simp add: base exists path_valid_def)
    then obtain x where "f os ?dot st = Some x" by (cases "f os ?dot st") auto
    with 1(1) show ?case by blast
  qed
  with ret show False by blast
qed

text \<open>When \<open>MkPath\<close> returns. For every absolute path \<open>MkPath\<close> returns, whatever the
  operating system answers; for the relative path \<open>.\<close>, which is its own base, it does not
  return when the working directory does not exist.\<close>

theorem MkPath_returns:
  assumes "isAbsolutePath p" and "px_stat os ''.'' (os_state st) = None"
  shows "(\<exists>r. MkPath os p st' = Some r) \<and> MkPath os (Path ''.'') st = None"
proof -
  have "Path ''.'' = \<lparr>device = [], pstr = ''.''\<rparr>" by code_simp
  then show ?thesis
    using MkPath_absolute [OF assms(1)] MkPath_dot [OF assms(2)] by simp
qed

theorem MkPath_returns_witness:
  "(\<exists>r. MkPath bare_os (Path ''/a/b/'') game_vfs = Some r) \<and> MkPath bare_os (Path ''.'') game_vfs = None"
proof (rule MkPath_returns)
  show "isAbsolutePath (Path ''/a/b/'')" by code_simp
qed (simp add: bare_os_def)

end
