(* ===== verification/Users.thy ===== *)
theory Users
  imports Simulation Vfs_Native
begin

text \<open>
  The users of the server: \<open>User\<close> (server/user), the list of users with its data source and
  the authenticator (server/save-game.hpp, server/system), and \<open>SaveGame\<close>
  (server/save-game.cpp). A pointer into the \<open>std::list\<close> of users is the position of its
  element. Events that the code emits are returned. The JSON library is a parameter.
\<close>

subsection \<open>Users and their entities\<close>

record user =
  u_entity_id :: eid
  u_position :: "rat vec3"
  u_orientation :: "rat orientation"
  u_user_id :: uid
  u_username :: string
  u_password :: string
  u_controller :: "addr option"

definition new_user :: user where
  "new_user = \<lparr>u_entity_id = 0, u_position = zero_vec, u_orientation = new_orientation,
     u_user_id = [], u_username = [], u_password = [], u_controller = None\<rparr>"

text \<open>The component tables that the server's entities live in.\<close>

record 's world =
  wd_positions :: "(eid, rat vec3) omap"
  wd_orientations :: "(eid, rat orientation) omap"
  wd_velocities :: "(eid, rat velocity) omap"
  wd_bodies :: "(eid, (rat, 's) collision_body) omap"
  wd_next_id :: eid

datatype world_event =
    Entity_Created "rat p_entity"
  | Entity_Destroyed eid
  | Controller_Added addr
  | Controller_Removed addr

definition GetNextEntityId :: "'s world \<Rightarrow> eid \<times> 's world" where
  "GetNextEntityId w = (wd_next_id w, w\<lparr>wd_next_id := wd_next_id w + 1\<rparr>)"

definition player_body :: "(rat, 's) shape_lib \<Rightarrow> eid \<Rightarrow> (rat, 's) collision_body" where
  "player_body L i = (SetCapsuleShape L (1 / 2) (8 / 5)
     (new_collision_body\<lparr>cb_mass := 10, cb_disable_deactivation := True, cb_disable_rotation := True\<rparr>))
     \<lparr>cb_entity_id := i\<rparr>"

text \<open>\<open>c\<close> is the address that the allocation of the new controller returns.\<close>

definition AddEntityToWorld ::
    "(rat, 's) shape_lib \<Rightarrow> addr \<Rightarrow> 's world \<Rightarrow> user \<Rightarrow> user \<times> 's world \<times> world_event list" where
  "AddEntityToWorld L c w u =
     (let (i, w1) = GetNextEntityId w;
          w2 = w1\<lparr>wd_positions := om_put i (u_position u) (wd_positions w1),
                 wd_orientations := om_put i (u_orientation u) (wd_orientations w1),
                 wd_velocities := om_put i new_velocity (wd_velocities w1),
                 wd_bodies := om_put i (player_body L i) (wd_bodies w1)\<rparr>;
          e = \<lparr>pe_id = i, pe_components =
                [P_position (Position_Out (om_get zero_vec i (wd_positions w2))),
                 P_orientation (Orientation_Out (om_get new_orientation i (wd_orientations w2))),
                 P_velocity (Velocity_Out (om_get new_velocity i (wd_velocities w2))),
                 P_collision_body (CollisionBody_Out L (om_get new_collision_body i (wd_bodies w2)))]\<rparr>
      in (u\<lparr>u_entity_id := i, u_controller := Some c\<rparr>, w2, [Entity_Created e, Controller_Added c]))"

definition RemoveEntityFromWorld :: "user \<Rightarrow> user \<times> world_event list" where
  "RemoveEntityFromWorld u =
     (let (u1, es1) = (if u_entity_id u \<noteq> 0
            then (u\<lparr>u_entity_id := 0\<rparr>, [Entity_Destroyed (u_entity_id u)]) else (u, []));
          (u2, es2) = (case u_controller u1 of
              Some c \<Rightarrow> (u1\<lparr>u_controller := None\<rparr>, [Controller_Removed c]) | None \<Rightarrow> (u1, []))
      in (u2, es1 @ es2))"

definition UpdateEntityData :: "'s world \<Rightarrow> user \<Rightarrow> user" where
  "UpdateEntityData w u =
     (let u1 = (case map_of (wd_positions w) (u_entity_id u) of Some p \<Rightarrow> u\<lparr>u_position := p\<rparr> | None \<Rightarrow> u)
      in case map_of (wd_orientations w) (u_entity_id u) of
           Some r \<Rightarrow> u1\<lparr>u_orientation := r\<rparr> | None \<Rightarrow> u1)"

record p_user =
  pu_id :: string
  pu_username :: string
  pu_component_states :: "rat p_component list"

definition User_Out :: "'s world \<Rightarrow> user \<Rightarrow> p_user \<times> user" where
  "User_Out w u = (let u1 = UpdateEntityData w u in
     (\<lparr>pu_id = u_user_id u, pu_username = u_username u,
       pu_component_states = [P_position (Position_Out (u_position u1)),
         P_orientation (Orientation_Out (u_orientation u1))]\<rparr>, u1))"

definition load_component :: "(rat \<Rightarrow> rat \<Rightarrow> rat \<Rightarrow> rat quat) \<Rightarrow> rat p_component \<Rightarrow> user \<Rightarrow> user" where
  "load_component c3 c u = (case c of
      P_position p \<Rightarrow> u\<lparr>u_position := Position_In p (u_position u)\<rparr>
    | P_orientation q \<Rightarrow> u\<lparr>u_orientation := Orientation_In c3 q (u_orientation u)\<rparr>
    | _ \<Rightarrow> u)"

definition User_In :: "(rat \<Rightarrow> rat \<Rightarrow> rat \<Rightarrow> rat quat) \<Rightarrow> p_user \<Rightarrow> user \<Rightarrow> user" where
  "User_In c3 source u = fold (load_component c3) (pu_component_states source)
     (u\<lparr>u_user_id := pu_id source, u_username := pu_username source\<rparr>)"

subsection \<open>The list of users\<close>

definition AddUser :: "user \<Rightarrow> user list \<Rightarrow> user list" where
  "AddUser u us = us @ [u]"

text \<open>\<open>std::find_if\<close>: the position of the first element that satisfies the predicate.\<close>

fun find_pos :: "('a \<Rightarrow> bool) \<Rightarrow> 'a list \<Rightarrow> nat option" where
  "find_pos P [] = None"
| "find_pos P (x # xs) = (if P x then Some 0 else map_option Suc (find_pos P xs))"

definition GetUser :: "uid \<Rightarrow> user list \<Rightarrow> nat option" where
  "GetUser i us = find_pos (\<lambda>u. u_user_id u = i) us"

definition CreateUser :: "uid \<Rightarrow> user list \<Rightarrow> nat option \<times> user list" where
  "CreateUser i us = (let us1 = AddUser (new_user\<lparr>u_user_id := i\<rparr>) us in (GetUser i us1, us1))"

definition RemoveUser :: "uid \<Rightarrow> user list \<Rightarrow> bool \<times> user list" where
  "RemoveUser i us = (case GetUser i us of
      Some n \<Rightarrow> (True, take n us @ drop (Suc n) us) | None \<Rightarrow> (False, us))"

definition HasUser :: "uid \<Rightarrow> user list \<Rightarrow> bool" where
  "HasUser i us \<longleftrightarrow> GetUser i us \<noteq> None"

text \<open>
  \<open>RemoveWhere\<close> erases the one element at the end of the range that \<open>remove_if\<close> returns; the
  elements behind it have unspecified values, given by \<open>junk\<close>. Erasing \<open>end()\<close>, when no
  user satisfies the predicate, is undefined: \<open>None\<close>.
\<close>

definition RemoveWhere :: "(user \<Rightarrow> bool) \<Rightarrow> (nat \<Rightarrow> user) \<Rightarrow> user list \<Rightarrow> user list option" where
  "RemoveWhere P junk us =
     (let keep = filter (\<lambda>u. \<not> P u) us in
      if length keep = length us then None
      else Some (keep @ map junk [Suc (length keep)..<length us]))"

definition FindWhere :: "(user \<Rightarrow> bool) \<Rightarrow> user list \<Rightarrow> nat option" where
  "FindWhere P us = find_pos P us"

text \<open>The authenticator's data source is the list, or null. The password is not looked at.\<close>

definition auth_AddUser :: "string \<Rightarrow> string \<Rightarrow> string \<Rightarrow> user list option \<Rightarrow> user list option" where
  "auth_AddUser i name password ds = (case ds of
      None \<Rightarrow> None | Some us \<Rightarrow> Some (AddUser (new_user\<lparr>u_user_id := i, u_username := name\<rparr>) us))"

definition Authenticate :: "string \<Rightarrow> string \<Rightarrow> user list option \<Rightarrow> nat option" where
  "Authenticate name password ds = (case ds of
      None \<Rightarrow> None | Some us \<Rightarrow> FindWhere (\<lambda>u. u_username u = name) us)"

lemma find_pos_Some:
  "find_pos P xs = Some n \<longleftrightarrow> n < length xs \<and> P (xs ! n) \<and> (\<forall>m < n. \<not> P (xs ! m))"
proof (induction xs arbitrary: n)
  case (Cons x xs)
  show ?case
    by (cases n) (auto simp: Cons.IH All_less_Suc2)
qed simp

lemma find_pos_None: "find_pos P xs = None \<longleftrightarrow> (\<forall>x \<in> set xs. \<not> P x)"
  by (induction xs) auto

lemma find_pos_append:
  "find_pos P (xs @ ys) = (case find_pos P xs of
     Some n \<Rightarrow> Some n | None \<Rightarrow> map_option ((+) (length xs)) (find_pos P ys))"
  by (cases "find_pos P ys"; induction xs) (auto split: option.split)

subsection \<open>The saved game\<close>

record p_save_game =
  ps_users :: "p_user list"
  ps_entity_files :: "string list"

record save_game =
  sg_save :: p_save_game
  sg_filepath :: vpath
  sg_users :: "user list"

definition new_save_game :: save_game where
  "new_save_game = \<lparr>sg_save = \<lparr>ps_users = [], ps_entity_files = []\<rparr>, sg_filepath = empty_path, sg_users = []\<rparr>"

text \<open>
  What the saved game needs from outside: \<open>Path::FileExists\<close>, which may throw, a file's content
  (\<open>None\<close> when it cannot be opened) and the JSON parsers.
\<close>

record save_env =
  se_exists :: "vpath \<Rightarrow> path_error + bool"
  se_read :: "vpath \<Rightarrow> string option"
  se_parse_save :: "string \<Rightarrow> p_save_game option"
  se_parse_entity :: "string \<Rightarrow> rat p_entity option"

datatype save_error = Cannot_open vpath | Bad_path path_error

definition LoadAsString :: "save_env \<Rightarrow> vpath \<Rightarrow> save_error + string" where
  "LoadAsString env f = (case se_read env f of None \<Rightarrow> Inl (Cannot_open f) | Some s \<Rightarrow> Inr s)"

definition file_exists :: "save_env \<Rightarrow> vpath \<Rightarrow> save_error + bool" where
  "file_exists env p = (case se_exists env p of Inl e \<Rightarrow> Inl (Bad_path e) | Inr b \<Rightarrow> Inr b)"

definition LoadUsers :: "(rat \<Rightarrow> rat \<Rightarrow> rat \<Rightarrow> rat quat) \<Rightarrow> save_game \<Rightarrow> save_game" where
  "LoadUsers c3 sg = sg\<lparr>sg_users := fold (\<lambda>pu us. AddUser (User_In c3 pu new_user) us)
     (ps_users (sg_save sg)) (sg_users sg)\<rparr>"

text \<open>\<open>entity_filename && entity_filename.FileExists()\<close>.\<close>

definition usable_file :: "save_env \<Rightarrow> vpath \<Rightarrow> save_error + bool" where
  "usable_file env p = (if path_valid p then file_exists env p else Inr False)"

fun LoadWorld :: "save_env \<Rightarrow> string list \<Rightarrow> save_error + world_event list" where
  "LoadWorld env [] = Inr []"
| "LoadWorld env (f # fs) = (case path_div_str assets f of
      Inl e \<Rightarrow> Inl (Bad_path e)
    | Inr p \<Rightarrow> try_bind (usable_file env p) (\<lambda>ok.
        if ok then
          try_bind (LoadAsString env p) (\<lambda>json.
            try_bind (LoadWorld env fs) (\<lambda>es. Inr
              (case se_parse_entity env json of Some e \<Rightarrow> Entity_Created e # es | None \<Rightarrow> es)))
        else LoadWorld env fs))"

definition Load ::
    "(rat \<Rightarrow> rat \<Rightarrow> rat \<Rightarrow> rat quat) \<Rightarrow> save_env \<Rightarrow> vpath \<Rightarrow> save_game \<Rightarrow> (save_error + bool \<times> world_event list) \<times> save_game" where
  "Load c3 env f sg =
     (let sg1 = sg\<lparr>sg_filepath := f\<rparr> in
      case file_exists env f of
        Inl e \<Rightarrow> (Inl e, sg1)
      | Inr False \<Rightarrow> (Inr (False, []), sg1)
      | Inr True \<Rightarrow> (case LoadAsString env f of
          Inl e \<Rightarrow> (Inl e, sg1)
        | Inr json \<Rightarrow> (case se_parse_save env json of
            None \<Rightarrow> (Inr (False, []), sg1)
          | Some s \<Rightarrow>
              let sg2 = LoadUsers c3 (sg1\<lparr>sg_save := s\<rparr>) in
              (case LoadWorld env (ps_entity_files s) of
                 Inl e \<Rightarrow> (Inl e, sg2) | Inr es \<Rightarrow> (Inr (True, es), sg2)))))"

definition Reload ::
    "(rat \<Rightarrow> rat \<Rightarrow> rat \<Rightarrow> rat quat) \<Rightarrow> save_env \<Rightarrow> save_game \<Rightarrow> (save_error + bool \<times> world_event list) \<times> save_game" where
  "Reload c3 env sg = Load c3 env (sg_filepath sg) sg"

definition SaveUsers :: "'s world \<Rightarrow> save_game \<Rightarrow> save_game" where
  "SaveUsers w sg = sg\<lparr>sg_save := (sg_save sg)\<lparr>ps_users := map (\<lambda>u. fst (User_Out w u)) (sg_users sg)\<rparr>\<rparr>"

text \<open>
  \<open>Save\<close> up to the call of the JSON printer: the message it prints, or the refusal of a file
  that does not exist yet.
\<close>

definition Save ::
    "save_env \<Rightarrow> 's world \<Rightarrow> vpath \<Rightarrow> save_game \<Rightarrow> (save_error + p_save_game option) \<times> save_game" where
  "Save env w f sg = (case usable_file env f of
      Inl e \<Rightarrow> (Inl e, sg)
    | Inr False \<Rightarrow> (Inr None, sg)
    | Inr True \<Rightarrow> (let sg1 = SaveUsers w (sg\<lparr>sg_filepath := f\<rparr>) in (Inr (Some (sg_save sg1)), sg1)))"

subsection \<open>Saving and loading users\<close>

text \<open>What of a user survives in the saved game.\<close>

definition stored :: "'s world \<Rightarrow> user \<Rightarrow> user" where
  "stored w u = (let u1 = UpdateEntityData w u in
     new_user\<lparr>u_user_id := u_user_id u, u_username := u_username u, u_position := u_position u1,
       u_orientation := new_orientation\<lparr>o_value := o_value (u_orientation u1)\<rparr>\<rparr>)"

lemma UpdateEntityData_keeps [simp, frame_simps]:
  "u_user_id (UpdateEntityData w u) = u_user_id u" "u_username (UpdateEntityData w u) = u_username u"
  by (simp_all add: UpdateEntityData_def Let_def split: option.split)

lemma User_In_Out: "User_In c3 (fst (User_Out w u)) new_user = stored w u"
  by (simp add: User_In_def User_Out_def Let_def load_component_def stored_def new_user_def)

lemma fold_AddUser: "fold (\<lambda>pu us. AddUser (f pu) us) ps us = us @ map f ps"
  by (induction ps arbitrary: us) (simp_all add: AddUser_def)

text \<open>Saving and loading the users. A saved game that can be saved holds the users in
  order; loading what was saved into an empty list gives each user back with identifier,
  name, the position and orientation of the entity it has in the world (its last known ones
  if it has none), without password, entity and controller.\<close>

theorem users_saved_and_loaded:
  assumes "usable_file env f = Inr True"
  shows "\<exists>s sg'. Save env w f sg = (Inr (Some s), sg') \<and> sg_users sg' = sg_users sg
    \<and> sg_users (LoadUsers c3 (new_save_game\<lparr>sg_save := s\<rparr>)) = map (stored w) (sg_users sg)"
  using assms
  by (simp add: Save_def SaveUsers_def Let_def LoadUsers_def fold_AddUser new_save_game_def comp_def User_In_Out)

definition sample_env :: save_env where
  "sample_env = \<lparr>se_exists = (\<lambda>p. Inr True), se_read = (\<lambda>p. Some ''{}''),
     se_parse_save = (\<lambda>j. Some \<lparr>ps_users = [\<lparr>pu_id = ''1'', pu_username = ''ann'', pu_component_states = []\<rparr>],
       ps_entity_files = []\<rparr>),
     se_parse_entity = (\<lambda>j. None)\<rparr>"

definition ann :: user where
  "ann = new_user\<lparr>u_user_id := ''1'', u_username := ''ann''\<rparr>"

theorem users_saved_and_loaded_witness:
  "\<exists>s sg'. Save sample_env (undefined\<lparr>wd_positions := [], wd_orientations := []\<rparr>) assets
      (new_save_game\<lparr>sg_users := [ann\<lparr>u_password := ''x''\<rparr>]\<rparr>) = (Inr (Some s), sg')
    \<and> sg_users sg' = [ann\<lparr>u_password := ''x''\<rparr>]
    \<and> sg_users (LoadUsers (\<lambda>x y z. undefined) (new_save_game\<lparr>sg_save := s\<rparr>)) = [ann]"
proof -
  let ?w = "undefined\<lparr>wd_positions := [], wd_orientations := []\<rparr> :: 'a world"
  have "stored ?w (ann\<lparr>u_password := ''x''\<rparr>) = ann"
    by (simp add: stored_def UpdateEntityData_def Let_def ann_def new_user_def new_orientation_def)
  moreover have "usable_file sample_env assets = Inr True"
    by (simp add: usable_file_def file_exists_def sample_env_def assets_def path_valid_def)
  from users_saved_and_loaded [OF this, of ?w "new_save_game\<lparr>sg_users := [ann\<lparr>u_password := ''x''\<rparr>]\<rparr>"
      "\<lambda>x y z. undefined"]
  obtain s sg' where "Save sample_env ?w assets (new_save_game\<lparr>sg_users := [ann\<lparr>u_password := ''x''\<rparr>]\<rparr>)
      = (Inr (Some s), sg')" "sg_users sg' = [ann\<lparr>u_password := ''x''\<rparr>]"
    "sg_users (LoadUsers (\<lambda>x y z. undefined) (new_save_game\<lparr>sg_save := s\<rparr>)) = [stored ?w (ann\<lparr>u_password := ''x''\<rparr>)]"
    by auto
  ultimately show ?thesis by auto
qed

text \<open>\<open>Reload\<close> after a successful \<open>Load\<close> of an unchanged file appends the users of the file
  again: the list holds each of them twice, where the second can never be found by its
  identifier.\<close>

theorem Reload_duplicates_users:
  assumes "Load c3 env f new_save_game = (Inr (True, es), sg)"
  shows "sg_users (snd (Reload c3 env sg)) = sg_users sg @ sg_users sg
    \<and> (\<forall>i n. GetUser i (sg_users (snd (Reload c3 env sg))) = Some n \<longrightarrow> n < length (sg_users sg))"
proof -
  obtain json s where f: "file_exists env f = Inr True" "LoadAsString env f = Inr json"
    "se_parse_save env json = Some s"
    and sg: "sg = LoadUsers c3 (new_save_game\<lparr>sg_filepath := f, sg_save := s\<rparr>)"
    using assms by (auto simp: Load_def Let_def split: sum.splits bool.splits option.splits)
  have "sg_users (snd (Reload c3 env sg)) = sg_users sg @ sg_users sg"
    using f by (auto simp: sg Reload_def Load_def Let_def LoadUsers_def fold_AddUser new_save_game_def
        split: sum.split)
  moreover have "n < length us" if "find_pos P (us @ us) = Some n" for P and us :: "user list" and n
    using that by (cases "find_pos P us") (auto simp: find_pos_append find_pos_Some)
  ultimately show ?thesis
    by (simp add: GetUser_def)
qed

theorem Reload_duplicates_users_witness:
  "sg_users (snd (Reload (\<lambda>x y z. undefined) sample_env (snd (Load (\<lambda>x y z. undefined) sample_env assets new_save_game))))
     = [ann, ann]"
proof -
  let ?c3 = "\<lambda>x y z. undefined"
  have l: "Load ?c3 sample_env assets new_save_game =
      (Inr (True, []), snd (Load ?c3 sample_env assets new_save_game))"
    "sg_users (snd (Load ?c3 sample_env assets new_save_game)) = [ann]"
    by (simp_all add: Load_def Let_def file_exists_def LoadAsString_def sample_env_def LoadUsers_def
        new_save_game_def AddUser_def User_In_def ann_def new_user_def)
  from Reload_duplicates_users [OF l(1)] l(2) show ?thesis by simp
qed

text \<open>\<open>RemoveWhere\<close> does what its name says exactly when one user satisfies the predicate.
  With none it erases the end of the list, which is undefined; with more it removes a
  single element and leaves others of unspecified value behind.\<close>

theorem RemoveWhere_length:
  "(RemoveWhere P junk us = None \<longleftrightarrow> length (filter P us) = 0)
   \<and> (length (filter P us) = 1 \<longrightarrow> RemoveWhere P junk us = Some (filter (\<lambda>u. \<not> P u) us))
   \<and> (\<forall>vs. RemoveWhere P junk us = Some vs \<longrightarrow> length vs = length us - 1)"
proof -
  have n: "length (filter P us) + length (filter (\<lambda>u. \<not> P u) us) = length us"
    by (rule sum_length_filter_compl)
  then show ?thesis
    by (auto simp: RemoveWhere_def Let_def)
qed

theorem RemoveWhere_length_witness:
  "RemoveWhere (\<lambda>u. u_username u = ''ann'') (\<lambda>n. new_user) [ann, new_user] = Some [new_user]
   \<and> RemoveWhere (\<lambda>u. u_username u = ''ann'') (\<lambda>n. new_user) [new_user] = None"
  using RemoveWhere_length [of "\<lambda>u. u_username u = ''ann''" "\<lambda>n. new_user" "[ann, new_user]"]
    RemoveWhere_length [of "\<lambda>u. u_username u = ''ann''" "\<lambda>n. new_user" "[new_user]"]
  by (simp add: ann_def new_user_def)

end
