(* ===== verification/Server_Session.thy ===== *)
theory Server_Session
  imports Reassembly Users Decimal
begin

text \<open>
  The server: \<open>Server\<close> (server/server.cpp), its \<open>ClientConnection\<close>s
  (server/client-connection.cpp) and the part of the main loop that sends states
  (server/main.cpp). Connections and users are referred to by number, what a connection has
  queued for writing is the list of its fragments. Protobuf's parsing and serialising, the
  shape library and the Lua hook for logins are parameters; the other hooks are taken not to
  change the server. The lemmas show what each client is sent and in which order.
\<close>

subsection \<open>State\<close>

record conn =
  cn_user :: "nat option"
  cn_out :: "message list"
  cn_partials :: partials
  cn_confirmed :: state_id_t
  cn_command :: state_id_t
  cn_changes :: "rat game_state"
  cn_ready :: bool
  cn_open :: bool

definition new_conn :: conn where
  "new_conn = \<lparr>cn_user = None, cn_out = [], cn_partials = [], cn_confirmed = 0, cn_command = 0,
     cn_changes = new_game_state, cn_ready = False, cn_open = True\<rparr>"

datatype server_event =
    World_Event world_event
  | Client_Commands client_commands
  | Chat_Command string "string list"

record 's server =
  sv_conns :: "nat \<Rightarrow> conn"
  sv_clients :: "nat list"
  sv_entities :: "(eid, rat p_entity) omap"
  sv_recent :: "message_out list"
  sv_greeting :: message_out
  sv_users :: "user list"
  sv_world :: "'s world"
  sv_next_addr :: addr
  sv_events :: "server_event list"

record login_event =
  le_username :: string
  le_user_id :: string
  le_authenticated :: bool
  le_reject :: bool

text \<open>The parameters. A serialiser appends its bytes to a stream of fragments.\<close>

record 's server_env =
  env_shapes :: "(rat, 's) shape_lib"
  env_ser_entity :: "rat p_entity \<Rightarrow> message_out \<Rightarrow> message_out"
  env_ser_update :: "rat p_update \<Rightarrow> message_out \<Rightarrow> message_out"
  env_parse_commands :: "message_in \<Rightarrow> client_commands"
  env_parse_chat :: "message_in \<Rightarrow> string \<times> string list"
  env_parse_login :: "message_in \<Rightarrow> string"
  env_on_login :: "login_event \<Rightarrow> login_event"

definition max_recent_msgs :: nat where "max_recent_msgs = 100"

definition FromString :: "string \<Rightarrow> message_out \<Rightarrow> message_out" where
  "FromString s out = FromBuffer (bytes_of s) out"

definition on_conn :: "nat \<Rightarrow> (conn \<Rightarrow> conn) \<Rightarrow> 's server \<Rightarrow> 's server" where
  "on_conn k f sv = sv\<lparr>sv_conns := (sv_conns sv)(k := f (sv_conns sv k))\<rparr>"

definition emit :: "server_event list \<Rightarrow> 's server \<Rightarrow> 's server" where
  "emit es sv = sv\<lparr>sv_events := sv_events sv @ es\<rparr>"

subsection \<open>Writing\<close>

text \<open>\<open>QueueWrite\<close> of one fragment and of a stream, whose fragments are re-encoded by it.\<close>

definition QueueWrite_msg :: "message \<Rightarrow> nat \<Rightarrow> 's server \<Rightarrow> 's server" where
  "QueueWrite_msg m k = on_conn k (\<lambda>c. c\<lparr>cn_out := cn_out c @ [m]\<rparr>)"

definition QueueWrite :: "message_out \<Rightarrow> nat \<Rightarrow> 's server \<Rightarrow> message_out \<times> 's server" where
  "QueueWrite out k sv = (case GetMessages out of
     (ms, out') \<Rightarrow> (out', on_conn k (\<lambda>c. c\<lparr>cn_out := cn_out c @ ms\<rparr>) sv))"

fun deliver_all :: "nat list \<Rightarrow> message_out \<Rightarrow> 's server \<Rightarrow> 's server" where
  "deliver_all [] out sv = sv"
| "deliver_all (k # ks) out sv = (case QueueWrite out k sv of (out', sv') \<Rightarrow> deliver_all ks out' sv')"

definition Deliver :: "message_out \<Rightarrow> bool \<Rightarrow> 's server \<Rightarrow> 's server" where
  "Deliver out save_to_recent sv =
     (let sv1 = (if save_to_recent
                 then sv\<lparr>sv_recent := drop (length (sv_recent sv) + 1 - max_recent_msgs) (sv_recent sv @ [out])\<rparr>
                 else sv)
      in deliver_all (sv_clients sv1) out sv1)"

definition DeliverTo :: "nat \<Rightarrow> message_out \<Rightarrow> 's server \<Rightarrow> 's server" where
  "DeliverTo k out sv = snd (QueueWrite out k sv)"

definition SendWorld :: "'s server_env \<Rightarrow> nat \<Rightarrow> 's server \<Rightarrow> 's server" where
  "SendWorld E k sv =
     (let sv1 = DeliverTo k (sv_greeting sv) sv;
          sv2 = fold (\<lambda>e. DeliverTo k (env_ser_entity E (snd e) (new_out ENTITY_CREATE))) (sv_entities sv) sv1;
          sv3 = DeliverTo k (FromString ''ok'' (new_out WORLD_SENT)) sv2
      in fold (DeliverTo k) (sv_recent sv3) sv3)"

subsection \<open>Joining and leaving\<close>

definition set_user :: "nat \<Rightarrow> user \<Rightarrow> 's server \<Rightarrow> 's server" where
  "set_user u user sv = sv\<lparr>sv_users := (sv_users sv)[u := user]\<rparr>"

text \<open>\<open>GetID\<close>: the entity of the connection's user.\<close>

definition GetID :: "nat \<Rightarrow> 's server \<Rightarrow> eid" where
  "GetID k sv = (case cn_user (sv_conns sv k) of None \<Rightarrow> 0 | Some u \<Rightarrow> u_entity_id (sv_users sv ! u))"

definition OnJoinWorld :: "'s server_env \<Rightarrow> nat \<Rightarrow> 's server \<Rightarrow> 's server" where
  "OnJoinWorld E k sv = (case cn_user (sv_conns sv k) of
      None \<Rightarrow> sv
    | Some u \<Rightarrow>
        (case AddEntityToWorld (env_shapes E) (sv_next_addr sv) (sv_world sv) (sv_users sv ! u) of
          (user, w, es) \<Rightarrow>
            let sv1 = emit (map World_Event es) (set_user u user
                        (sv\<lparr>sv_world := w, sv_next_addr := sv_next_addr sv + 1\<rparr>));
                entity_id = to_string (unat (u_entity_id user));
                sv2 = DeliverTo k (FromString entity_id (new_out CLIENT_ID)) sv1
            in Deliver (FromString entity_id (new_out CLIENT_JOIN)) False sv2))"

definition OnLeaveWorld :: "nat \<Rightarrow> 's server \<Rightarrow> 's server" where
  "OnLeaveWorld k sv = (case cn_user (sv_conns sv k) of
      None \<Rightarrow> sv
    | Some u \<Rightarrow>
        (case RemoveEntityFromWorld (sv_users sv ! u) of (user, es) \<Rightarrow>
           let sv1 = emit (map World_Event es) (set_user u user sv);
               entity_id = u_entity_id user
           in Deliver (FromString (to_string (unat entity_id)) (new_out CLIENT_LEAVE)) False sv1))"

definition OnOtherLeaveWorld :: "eid \<Rightarrow> conn \<Rightarrow> conn" where
  "OnOtherLeaveWorld entity_id c = c\<lparr>cn_changes := (cn_changes c)
     \<lparr>positions := om_erase entity_id (positions (cn_changes c)),
      orientations := om_erase entity_id (orientations (cn_changes c)),
      velocities := om_erase entity_id (velocities (cn_changes c))\<rparr>\<rparr>"

text \<open>\<open>OnDisconnect\<close>; shutting the connection down closes its socket.\<close>

definition OnDisconnect :: "nat \<Rightarrow> 's server \<Rightarrow> 's server" where
  "OnDisconnect k sv =
     (if k \<notin> set (sv_clients sv) then sv
      else
        (let sv1 = sv\<lparr>sv_clients := removeAll k (sv_clients sv)\<rparr>;
             leaving = GetID k sv1;
             sv2 = OnLeaveWorld k sv1;
             sv3 = fold (\<lambda>j. on_conn j (OnOtherLeaveWorld leaving)) (sv_clients sv2) sv2
         in on_conn k (\<lambda>c. c\<lparr>cn_open := False\<rparr>) sv3))"

subsection \<open>Handling a message\<close>

text \<open>The single fragment that answers \<open>SYNC\<close>: the time in 8 bytes, as the machine stores it.\<close>

definition sync_response :: "u64 \<Rightarrow> message" where
  "sync_response t = encode_header (write_body (encode_64 0 t (replicate 8 0))
     (snd (SetBodyLength 8 (pool_get\<lparr>message_type := SYNC\<rparr>))))"

definition one_byte :: "MessageType \<Rightarrow> message" where
  "one_byte t = encode_header ((snd (SetBodyLength 1 pool_get))\<lparr>message_type := t\<rparr>)"

definition login :: "'s server_env \<Rightarrow> nat \<Rightarrow> string \<Rightarrow> 's server \<Rightarrow> 's server" where
  "login E k username sv =
     (let user = Authenticate username [] (Some (sv_users sv));
          ev = env_on_login E \<lparr>le_username = username,
                 le_user_id = (case user of Some u \<Rightarrow> u_user_id (sv_users sv ! u) | None \<Rightarrow> []),
                 le_authenticated = (user \<noteq> None), le_reject = False\<rparr>
      in if \<not> le_reject ev \<and> le_authenticated ev
         then SendWorld E k (QueueWrite_msg (one_byte AUTHENTICATED) k (on_conn k (\<lambda>c. c\<lparr>cn_user := user\<rparr>) sv))
         else OnDisconnect k sv)"

text \<open>
  \<open>process_message\<close>. A chat message is logged after it was relayed, which does not return
  (\<open>None\<close>) for a stream that \<open>ToString\<close> cannot read.
\<close>

definition process_message :: "'s server_env \<Rightarrow> u64 \<Rightarrow> nat \<Rightarrow> message_in \<Rightarrow> 's server \<Rightarrow> 's server option" where
  "process_message E now k msg sv =
     (if in_type msg = CHAT_MESSAGE then
        (let sv1 = Deliver (ToOut msg) True sv in case ToString msg of None \<Rightarrow> None | Some _ \<Rightarrow> Some sv1)
      else if in_type msg = SYNC then Some (QueueWrite_msg (sync_response now) k sv)
      else if in_type msg = CLIENT_COMMAND then
        (let cmds = env_parse_commands E msg;
             sv1 = (case cc_lastStateID cmds of
                 Some i \<Rightarrow> if i \<noteq> 0 then on_conn k (\<lambda>c. c\<lparr>cn_confirmed := i\<rparr>) sv else sv
               | None \<Rightarrow> sv);
             sv2 = on_conn k (\<lambda>c. c\<lparr>cn_command := cc_commandID cmds\<rparr>) sv1
         in Some (emit [Client_Commands cmds] sv2))
      else if in_type msg = CHAT_COMMAND then
        (case env_parse_chat E msg of (c, args) \<Rightarrow> Some (emit [Chat_Command c args] sv))
      else if in_type msg = LOGIN then Some (login E k (env_parse_login E msg) sv)
      else if in_type msg = CLIENT_READY_TO_RECEIVE then Some (on_conn k (\<lambda>c. c\<lparr>cn_ready := True\<rparr>) sv)
      else if in_type msg = CLIENT_JOIN then Some (OnJoinWorld E k sv)
      else Some sv)"

text \<open>\<open>read_body\<close> of the connection: reassembly, then the complete message.\<close>

definition read_body :: "'s server_env \<Rightarrow> u64 \<Rightarrow> nat \<Rightarrow> message \<Rightarrow> 's server \<Rightarrow> 's server option" where
  "read_body E now k m sv = (case receive m (cn_partials (sv_conns sv k)) of
     (r, rm) \<Rightarrow>
       let done_reading = on_conn k (\<lambda>c. c\<lparr>cn_partials := rm\<rparr>) in
       (case r of
          Complete msg \<Rightarrow> map_option done_reading (process_message E now k msg sv)
        | _ \<Rightarrow> Some (done_reading sv)))"

subsection \<open>Entities and states\<close>

definition sv_On_EntityCreated :: "'s server_env \<Rightarrow> rat p_entity \<Rightarrow> 's server \<Rightarrow> 's server" where
  "sv_On_EntityCreated E e sv = Deliver (env_ser_entity E e (new_out ENTITY_CREATE)) False
     (sv\<lparr>sv_entities := om_put (pe_id e) e (sv_entities sv)\<rparr>)"

definition sv_On_EntityDestroyed :: "eid \<Rightarrow> 's server \<Rightarrow> 's server" where
  "sv_On_EntityDestroyed i sv = Deliver (FromString (to_string (unat i)) (new_out ENTITY_DESTROY)) False
     (sv\<lparr>sv_entities := om_erase i (sv_entities sv)\<rparr>)"

text \<open>\<open>UpdateGameState\<close>: the loop over the positions of the full state.\<close>

definition change_entity :: "rat game_state \<Rightarrow> eid \<Rightarrow> rat game_state \<Rightarrow> rat game_state" where
  "change_entity full i ch =
     (let c1 = (case map_of (positions full) i of
            Some p \<Rightarrow> ch\<lparr>positions := om_put i p (positions ch)\<rparr> | None \<Rightarrow> ch);
          c2 = (case map_of (orientations full) i of
            Some r \<Rightarrow> c1\<lparr>orientations := om_put i r (orientations c1)\<rparr> | None \<Rightarrow> c1)
      in case map_of (velocities full) i of
           Some v \<Rightarrow> c2\<lparr>velocities := om_put i v (velocities c2)\<rparr> | None \<Rightarrow> c2)"

definition UpdateGameState :: "rat game_state \<Rightarrow> conn \<Rightarrow> conn" where
  "UpdateGameState full c =
     c\<lparr>cn_changes := fold (change_entity full) (om_keys (positions full)) (cn_changes c)\<rparr>"

definition PrepareGameStateUpdateMessage :: "'s server_env \<Rightarrow> state_id_t \<Rightarrow> u64 \<Rightarrow> conn \<Rightarrow> message_out" where
  "PrepareGameStateUpdateMessage E current_state_id current_timestamp c =
     env_ser_update E
       \<lparr>pu_state_id = Some current_state_id, pu_command_id = Some (cn_command c),
        pu_timestamp = Some current_timestamp,
        pu_entity = map (out_entity (cn_changes c)) (positions (cn_changes c))\<rparr>
       (new_out GAME_STATE_UPDATE)"

text \<open>
  The states that the main loop sends, to one client and to all. A client that is more than
  15 states behind (\<open>TICKS_PER_SECOND * 2.0\<close>, the difference unsigned) gets the full state,
  whose command identifier is set to the state's identifier.
\<close>

definition full_update :: "rat game_state \<Rightarrow> rat p_update" where
  "full_update full = GameState_Out full (new_update\<lparr>pu_command_id := Some (state_id full)\<rparr>)"

definition send_state :: "'s server_env \<Rightarrow> rat game_state \<Rightarrow> nat \<Rightarrow> 's server \<Rightarrow> 's server" where
  "send_state E full k sv =
     (if \<not> cn_ready (sv_conns sv k) then on_conn k (\<lambda>c. c\<lparr>cn_confirmed := state_id full\<rparr>) sv
      else
        (let sv1 = on_conn k (UpdateGameState full) sv in
         if 15 < unat (state_id full - cn_confirmed (sv_conns sv1 k))
         then DeliverTo k (env_ser_update E (full_update full) (new_out GAME_STATE_UPDATE)) sv1
         else DeliverTo k (PrepareGameStateUpdateMessage E (state_id full) (timestamp full) (sv_conns sv1 k)) sv1))"

definition send_states :: "'s server_env \<Rightarrow> rat game_state \<Rightarrow> 's server \<Rightarrow> 's server" where
  "send_states E full sv = fold (send_state E full) (sv_clients sv) sv"

text \<open>
  Refusing a connection: the reason, with a line end, is written into one fragment;
  \<open>Inl\<close> is the exception that a reason of more than 1023 bytes raises.
\<close>

definition reject_message :: "string \<Rightarrow> u64 + message" where
  "reject_message reason =
     (let r = bytes_of (reason @ [CHR 0x0A]) in
      case SetBodyLength (of_nat (length r)) pool_get of
        (Inl e, m) \<Rightarrow> Inl e
      | (Inr _, m) \<Rightarrow> Inr (encode_header (write_body (take (GetBodyLength m) r) m)))"

subsection \<open>Sending a stream again\<close>

text \<open>
  A stream that goes to several clients is numbered and encoded for each; the fragments are
  the same every time.
\<close>

lemma update_nth: "j < length xs \<Longrightarrow> xs[i := x] ! j = (if i = j then x else xs ! j)"
  by (cases "i = j") simp_all

lemma encode_header_again:
  "encode_header ((encode_header m)\<lparr>message_type := t, sequence_number := s, message_id := i\<rparr>)
     = encode_header (m\<lparr>message_type := t, sequence_number := s, message_id := i\<rparr>)"
  "encode_header ((encode_header m)\<lparr>message_type := t\<rparr>) = encode_header (m\<lparr>message_type := t\<rparr>)"
proof -
  have e: "encode_32 12 d (encode_32 8 c (encode_32 4 b (encode_32 0 a
      (encode_32 12 d' (encode_32 8 c' (encode_32 4 b' (encode_32 0 a' xs)))))))
      = encode_32 12 d (encode_32 8 c (encode_32 4 b (encode_32 0 a xs)))" for a b c d a' b' c' d' :: u32 and xs
    by (rule nth_equalityI) (simp_all add: encode_32_def update_nth)
  show "encode_header ((encode_header m)\<lparr>message_type := t, sequence_number := s, message_id := i\<rparr>)
     = encode_header (m\<lparr>message_type := t, sequence_number := s, message_id := i\<rparr>)"
    "encode_header ((encode_header m)\<lparr>message_type := t\<rparr>) = encode_header (m\<lparr>message_type := t\<rparr>)"
    by (simp_all add: encode_header_def e)
qed

lemma number_from_again: "number_from v i (number_from v i ms) = number_from v i ms"
  by (induction ms arbitrary: v) (simp_all add: encode_header_again)

lemma GetMessages_again: "fst (GetMessages (snd (GetMessages out))) = fst (GetMessages out)"
proof (cases "out_list out" rule: rev_cases)
  case Nil
  then show ?thesis by (simp add: GetMessages_def)
next
  case (snoc ms m)
  let ?ns = "number_from 0 (out_id out) ms" and ?i = "out_id out"
  have len: "length ?ns = length ms"
    using number_from_bodies [of 0 "out_id out" ms] map_eq_imp_length_eq by blast
  have "number_from v i [encode_header ((encode_header m')\<lparr>message_type := t\<rparr>)] = number_from v i [m']" for v i m' t
    by (simp add: encode_header_again)
  then show ?thesis
    using len
    by (simp add: GetMessages_def Let_def snoc number_from_append number_from_again encode_header_again)
qed

subsection \<open>What a client is sent\<close>

abbreviation out_of :: "nat \<Rightarrow> 's server \<Rightarrow> message list" where
  "out_of k sv \<equiv> cn_out (sv_conns sv k)"

text \<open>Everything but what is queued for the clients.\<close>

definition same_but_out :: "'s server \<Rightarrow> 's server \<Rightarrow> bool" where
  "same_but_out sv sv' \<longleftrightarrow> sv' = sv\<lparr>sv_conns := sv_conns sv'\<rparr>
     \<and> (\<forall>k. sv_conns sv' k = (sv_conns sv k)\<lparr>cn_out := out_of k sv'\<rparr>)"

lemma same_but_out_refl [simp]: "same_but_out sv sv"
  by (simp add: same_but_out_def)

lemma same_but_out_trans: "same_but_out a b \<Longrightarrow> same_but_out b c \<Longrightarrow> same_but_out a c"
  unfolding same_but_out_def by (metis (no_types, lifting) conn.update_convs(2) server.update_convs(1)
      conn.surjective conn.ext_inject server.surjective server.ext_inject)

lemma same_but_out_fields:
  assumes "same_but_out sv sv'"
  shows "sv_clients sv' = sv_clients sv" "sv_entities sv' = sv_entities sv" "sv_recent sv' = sv_recent sv"
    "sv_users sv' = sv_users sv" "sv_world sv' = sv_world sv" "sv_events sv' = sv_events sv"
    "sv_next_addr sv' = sv_next_addr sv" "sv_greeting sv' = sv_greeting sv"
    "sv_conns sv' k = (sv_conns sv k)\<lparr>cn_out := out_of k sv'\<rparr>"
proof -
  have e: "sv' = sv\<lparr>sv_conns := sv_conns sv'\<rparr>"
    using assms by (simp add: same_but_out_def)
  show "sv_clients sv' = sv_clients sv" "sv_entities sv' = sv_entities sv" "sv_recent sv' = sv_recent sv"
    "sv_users sv' = sv_users sv" "sv_world sv' = sv_world sv" "sv_events sv' = sv_events sv"
    "sv_next_addr sv' = sv_next_addr sv" "sv_greeting sv' = sv_greeting sv"
    by (subst e, simp)+
  show "sv_conns sv' k = (sv_conns sv k)\<lparr>cn_out := out_of k sv'\<rparr>"
    using assms by (simp add: same_but_out_def)
qed

lemma QueueWrite_result:
  "fst (QueueWrite out k sv) = snd (GetMessages out)"
  "out_of j (snd (QueueWrite out k sv)) = out_of j sv @ (if j = k then fst (GetMessages out) else [])"
  "same_but_out sv (snd (QueueWrite out k sv))"
  by (simp_all add: QueueWrite_def on_conn_def same_but_out_def split_beta)

lemma DeliverTo_result:
  "out_of j (DeliverTo k out sv) = out_of j sv @ (if j = k then fst (GetMessages out) else [])"
  "same_but_out sv (DeliverTo k out sv)"
  by (simp_all add: DeliverTo_def QueueWrite_result)

lemma deliver_all_result:
  assumes "distinct ks"
  shows "out_of j (deliver_all ks out sv) = out_of j sv @ (if j \<in> set ks then fst (GetMessages out) else [])
    \<and> same_but_out sv (deliver_all ks out sv)"
  using assms
proof (induction ks arbitrary: out sv)
  case (Cons k ks)
  obtain out' sv' where q: "QueueWrite out k sv = (out', sv')"
    by (cases "QueueWrite out k sv")
  note r = QueueWrite_result [where out = out and k = k and sv = sv]
  have o: "fst (GetMessages out') = fst (GetMessages out)"
    using r(1) q GetMessages_again by simp
  have s: "same_but_out sv sv'" "out_of j sv' = out_of j sv @ (if j = k then fst (GetMessages out) else [])"
    using r(2) [of j] r(3) q by simp_all
  show ?case
    using Cons.IH [where out = out' and sv = sv'] Cons.prems s same_but_out_trans [OF s(1)] by (auto simp: q o)
qed simp

lemma Deliver_result:
  assumes "distinct (sv_clients sv)"
  shows "out_of j (Deliver out r sv) = out_of j sv @ (if j \<in> set (sv_clients sv) then fst (GetMessages out) else [])"
    and "sv_recent (Deliver out r sv) = (if r then drop (length (sv_recent sv) + 1 - max_recent_msgs) (sv_recent sv @ [out])
      else sv_recent sv)"
    and "same_but_out (sv\<lparr>sv_recent := sv_recent (Deliver out r sv)\<rparr>) (Deliver out r sv)"
proof -
  let ?sv1 = "if r then sv\<lparr>sv_recent := drop (length (sv_recent sv) + 1 - max_recent_msgs) (sv_recent sv @ [out])\<rparr> else sv"
  have d: "Deliver out r sv = deliver_all (sv_clients sv) out ?sv1"
    by (simp add: Deliver_def Let_def)
  note a = deliver_all_result [OF assms, where out = out and sv = ?sv1]
  show "out_of j (Deliver out r sv) = out_of j sv @ (if j \<in> set (sv_clients sv) then fst (GetMessages out) else [])"
    using a by (simp add: d split: if_splits)
  show rec: "sv_recent (Deliver out r sv) = (if r then drop (length (sv_recent sv) + 1 - max_recent_msgs) (sv_recent sv @ [out])
      else sv_recent sv)"
    unfolding d using same_but_out_fields(3) [OF conjunct2 [OF a]] by (cases r) simp_all
  show "same_but_out (sv\<lparr>sv_recent := sv_recent (Deliver out r sv)\<rparr>) (Deliver out r sv)"
  proof -
    have e: "sv\<lparr>sv_recent := sv_recent (Deliver out r sv)\<rparr> = ?sv1"
      unfolding rec by (cases r) simp_all
    show ?thesis
      unfolding e unfolding d using a by blast
  qed
qed

text \<open>The greeting, one stream per entity, the end of the world, the recent messages.\<close>

definition world_streams :: "'s server_env \<Rightarrow> 's server \<Rightarrow> message_out list" where
  "world_streams E sv = sv_greeting sv
     # map (\<lambda>e. env_ser_entity E (snd e) (new_out ENTITY_CREATE)) (sv_entities sv)
     @ FromString ''ok'' (new_out WORLD_SENT) # sv_recent sv"

lemma fold_DeliverTo:
  "out_of j (fold (DeliverTo k) outs sv) = out_of j sv
     @ (if j = k then concat (map (\<lambda>s. fst (GetMessages s)) outs) else [])
   \<and> same_but_out sv (fold (DeliverTo k) outs sv)"
proof (induction outs arbitrary: sv)
  case (Cons x outs)
  then show ?case
    using DeliverTo_result [where out = x and k = k and sv = sv]
    by (auto intro: same_but_out_trans)
qed simp

lemma SendWorld_eq: "SendWorld E k sv = fold (DeliverTo k) (world_streams E sv) sv"
proof -
  let ?es = "map (\<lambda>e. env_ser_entity E (snd e) (new_out ENTITY_CREATE)) (sv_entities sv)"
  have f: "fold (\<lambda>e. DeliverTo k (env_ser_entity E (snd e) (new_out ENTITY_CREATE))) (sv_entities sv) s
      = fold (DeliverTo k) ?es s" for s
    by (simp add: fold_map comp_def)
  let ?sv3 = "DeliverTo k (FromString ''ok'' (new_out WORLD_SENT))
      (fold (DeliverTo k) ?es (DeliverTo k (sv_greeting sv) sv))"
  have "same_but_out sv ?sv3"
    by (meson DeliverTo_result(2) fold_DeliverTo same_but_out_trans)
  then have "sv_recent ?sv3 = sv_recent sv"
    by (rule same_but_out_fields)
  then show ?thesis
    by (simp add: SendWorld_def Let_def f world_streams_def)
qed

text \<open>C6: A client that is sent the world gets, behind what was already queued for it, the
  greeting, one message per entity in the order of the identifiers, the mark that the world
  is complete and the recent messages, oldest first; nothing else of the server changes and
  no other client is sent anything.\<close>

theorem SendWorld_sends:
  "SendWorld E k sv = sv\<lparr>sv_conns := (sv_conns sv)(k := (sv_conns sv k)
     \<lparr>cn_out := out_of k sv @ concat (map (\<lambda>s. fst (GetMessages s)) (world_streams E sv))\<rparr>)\<rparr>"
proof -
  note f = fold_DeliverTo [where k = k and outs = "world_streams E sv" and sv = sv]
  have s: "same_but_out sv (SendWorld E k sv)"
    using f by (simp add: SendWorld_eq)
  have "sv_conns (SendWorld E k sv) j = ((sv_conns sv)(k := (sv_conns sv k)
      \<lparr>cn_out := out_of k sv @ concat (map (\<lambda>s. fst (GetMessages s)) (world_streams E sv))\<rparr>)) j" for j
    using f [of j] same_but_out_fields(9) [OF s, of j] by (simp add: SendWorld_eq)
  then have "sv_conns (SendWorld E k sv) = (sv_conns sv)(k := (sv_conns sv k)
      \<lparr>cn_out := out_of k sv @ concat (map (\<lambda>s. fst (GetMessages s)) (world_streams E sv))\<rparr>)"
    by (rule ext)
  then show ?thesis
    using s by (simp add: same_but_out_def)
qed

text \<open>C11: \<open>Deliver\<close> sends the fragments of a message to every connected client, the same to
  each, and to nobody else; it remembers the message if told to, and never more than the
  last 100.\<close>

theorem Deliver_to_all:
  assumes "distinct (sv_clients sv)" and "length (sv_recent sv) \<le> 100"
  shows "(\<forall>j. out_of j (Deliver out save sv) =
        out_of j sv @ (if j \<in> set (sv_clients sv) then fst (GetMessages out) else []))
    \<and> sv_recent (Deliver out save sv) = (if save then drop (length (sv_recent sv) - 99) (sv_recent sv) @ [out]
        else sv_recent sv)
    \<and> length (sv_recent (Deliver out save sv)) \<le> 100
    \<and> sv_clients (Deliver out save sv) = sv_clients sv"
proof -
  note r = Deliver_result [OF assms(1), where out = out and r = save]
  have "drop (length (sv_recent sv) + 1 - max_recent_msgs) (sv_recent sv @ [out])
      = drop (length (sv_recent sv) - 99) (sv_recent sv) @ [out]"
    using assms(2) by (simp add: max_recent_msgs_def)
  moreover have "sv_clients (Deliver out save sv) = sv_clients sv"
    using same_but_out_fields(1) [OF r(3)] by simp
  ultimately show ?thesis
    using r(1,2) assms(2) by auto
qed

text \<open>A client that leaves is announced with the entity identifier 0: the identifier is
  read after the user's entity was removed, so every client that stays receives a
  \<open>CLIENT_LEAVE\<close> message with the text 0 while the entity that is destroyed is the user's.\<close>

theorem leave_announces_zero:
  assumes "distinct (sv_clients sv)" and "j \<in> set (sv_clients sv)"
    and "cn_user (sv_conns sv k) = Some u" and "u < length (sv_users sv)" and "u_entity_id (sv_users sv ! u) \<noteq> 0"
  shows "out_of j (OnLeaveWorld k sv) = out_of j sv @ fst (GetMessages (FromString ''0'' (new_out CLIENT_LEAVE)))
    \<and> World_Event (Entity_Destroyed (u_entity_id (sv_users sv ! u))) \<in> set (sv_events (OnLeaveWorld k sv))
    \<and> u_entity_id (sv_users (OnLeaveWorld k sv) ! u) = 0"
proof -
  obtain user es where r: "RemoveEntityFromWorld (sv_users sv ! u) = (user, es)"
    by (metis prod.exhaust)
  have user: "u_entity_id user = 0" and es: "Entity_Destroyed (u_entity_id (sv_users sv ! u)) \<in> set es"
    using r assms(5) by (auto simp: RemoveEntityFromWorld_def Let_def split: option.splits)
  let ?sv1 = "emit (map World_Event es) (set_user u user sv)"
  have zero: "to_string 0 = ''0''"
    by (subst to_string.simps) (simp add: digit_def char_of_def bit_0)
  have l: "OnLeaveWorld k sv = Deliver (FromString ''0'' (new_out CLIENT_LEAVE)) False ?sv1"
    using assms(3) by (simp add: OnLeaveWorld_def r user Let_def zero)
  have d: "distinct (sv_clients ?sv1)"
    using assms(1) by (simp add: emit_def set_user_def)
  note res = Deliver_result [OF d, where out = "FromString ''0'' (new_out CLIENT_LEAVE)" and r = False]
  show ?thesis
    unfolding l using res(1) [of j] same_but_out_fields(4,6) [OF res(3)] assms(2,4) es
    by (simp add: emit_def set_user_def user image_iff)
qed

text \<open>A server with two connected clients of the user Ann, who has the entity 10000.\<close>

definition busy_server :: "unit server" where
  "busy_server = \<lparr>sv_conns = (\<lambda>k. new_conn\<lparr>cn_user := Some 0\<rparr>), sv_clients = [0, 1], sv_entities = [],
     sv_recent = [], sv_greeting = new_out CHAT_MESSAGE, sv_users = [new_user\<lparr>u_entity_id := 10000\<rparr>],
     sv_world = \<lparr>wd_positions = [], wd_orientations = [], wd_velocities = [], wd_bodies = [], wd_next_id = 10001\<rparr>,
     sv_next_addr = 1, sv_events = []\<rparr>"

theorem Deliver_to_all_witness:
  "out_of 1 (Deliver (new_out LOGIN) True busy_server) = fst (GetMessages (new_out LOGIN))
   \<and> sv_recent (Deliver (new_out LOGIN) True busy_server) = [new_out LOGIN]"
  using Deliver_to_all [of busy_server "new_out LOGIN" True]
  by (simp add: busy_server_def new_conn_def)

theorem leave_announces_zero_witness:
  "out_of 1 (OnLeaveWorld 0 busy_server) = fst (GetMessages (FromString ''0'' (new_out CLIENT_LEAVE)))
   \<and> World_Event (Entity_Destroyed 10000) \<in> set (sv_events (OnLeaveWorld 0 busy_server))"
  using leave_announces_zero [of busy_server 1 0 0]
  by (simp add: busy_server_def new_conn_def new_user_def)

subsection \<open>Leaving once\<close>

lemma OnLeaveWorld_clients:
  assumes "distinct (sv_clients sv)"
  shows "sv_clients (OnLeaveWorld k sv) = sv_clients sv"
proof (cases "cn_user (sv_conns sv k)")
  case (Some u)
  obtain user es where r: "RemoveEntityFromWorld (sv_users sv ! u) = (user, es)"
    by (metis prod.exhaust)
  let ?sv1 = "emit (map World_Event es) (set_user u user sv)"
  have d: "distinct (sv_clients ?sv1)" "sv_clients ?sv1 = sv_clients sv"
    using assms by (simp_all add: emit_def set_user_def)
  note res = Deliver_result(3) [OF d(1), where out = "FromString (to_string (unat (u_entity_id user))) (new_out CLIENT_LEAVE)" and r = False]
  show ?thesis
    using same_but_out_fields(1) [OF res] d(2) by (simp add: OnLeaveWorld_def Some r Let_def)
qed (simp add: OnLeaveWorld_def)

lemma fold_on_conn_clients [simp]:
  "sv_clients (fold (\<lambda>j. on_conn j (f j)) js sv) = sv_clients sv"
  by (induction js arbitrary: sv) (simp_all add: on_conn_def)

lemma OnDisconnect_clients:
  assumes "distinct (sv_clients sv)"
  shows "sv_clients (OnDisconnect k sv) = removeAll k (sv_clients sv)"
  using assms OnLeaveWorld_clients [of "sv\<lparr>sv_clients := removeAll k (sv_clients sv)\<rparr>" k]
  by (simp add: OnDisconnect_def Let_def on_conn_def distinct_removeAll)

text \<open>Disconnecting is done once: afterwards the client is not in the list, and a second
  call, which a failing read and a failing write both make, changes nothing.\<close>

theorem OnDisconnect_once:
  assumes "distinct (sv_clients sv)"
  shows "sv_clients (OnDisconnect k sv) = filter (\<lambda>j. j \<noteq> k) (sv_clients sv)
    \<and> OnDisconnect k (OnDisconnect k sv) = OnDisconnect k sv"
proof -
  have "sv_clients (OnDisconnect k sv) = removeAll k (sv_clients sv)"
    by (rule OnDisconnect_clients [OF assms])
  moreover from this have "k \<notin> set (sv_clients (OnDisconnect k sv))"
    by simp
  ultimately show ?thesis
    by (auto simp: OnDisconnect_def removeAll_filter_not_eq intro: filter_cong)
qed

theorem OnDisconnect_once_witness:
  "sv_clients (OnDisconnect 0 busy_server) = [1]
   \<and> OnDisconnect 0 (OnDisconnect 0 busy_server) = OnDisconnect 0 busy_server"
  using OnDisconnect_once [of busy_server 0] by (simp add: busy_server_def)

subsection \<open>Changes since the confirmed state\<close>

lemma map_of_change_entity:
  assumes "wf_gs ch"
  shows "wf_gs (change_entity full i ch)
    \<and> map_of (positions (change_entity full i ch)) = (map_of (positions ch))(i := (case map_of (positions full) i of
        None \<Rightarrow> map_of (positions ch) i | Some p \<Rightarrow> Some p))"
  using assms
  by (auto simp: change_entity_def Let_def wf_gs_def wf_om_put fun_eq_iff split: option.split)

lemma fold_change_entity:
  assumes "wf_gs ch"
  shows "wf_gs (fold (change_entity full) is ch)
    \<and> map_of (positions (fold (change_entity full) is ch)) = (\<lambda>i. if i \<in> set is \<and> map_of (positions full) i \<noteq> None
        then map_of (positions full) i else map_of (positions ch) i)"
  using assms
proof (induction "is" arbitrary: ch)
  case (Cons i "is")
  show ?case
    using Cons.IH [of "change_entity full i ch"] map_of_change_entity [OF Cons.prems, of full i]
    by (auto simp: fun_eq_iff split: option.split)
qed simp

text \<open>The changes kept for a client are never taken back by a full state: its positions
  override the kept ones, but an entity that the full state no longer has stays in every
  update that the client is sent, with its last position.\<close>

theorem UpdateGameState_merges:
  assumes "wf_gs (cn_changes c)" and "wf_gs full"
  shows "wf_gs (cn_changes (UpdateGameState full c))
    \<and> map_of (positions (cn_changes (UpdateGameState full c))) = map_of (positions (cn_changes c)) ++ map_of (positions full)
    \<and> set (om_keys (positions (cn_changes c))) \<subseteq> set (om_keys (positions (cn_changes (UpdateGameState full c))))"
proof -
  have "map_of (positions (cn_changes (UpdateGameState full c))) = map_of (positions (cn_changes c)) ++ map_of (positions full)"
    and wf: "wf_gs (cn_changes (UpdateGameState full c))"
    using fold_change_entity [OF assms(1), of full "om_keys (positions full)"]
    by (auto simp: UpdateGameState_def map_add_def set_om_keys fun_eq_iff dom_def split: option.split)
  then show ?thesis
    by (auto simp: set_om_keys)
qed

theorem UpdateGameState_merges_witness:
  "map_of (positions (cn_changes (UpdateGameState (new_game_state\<lparr>positions := [(8, zero_vec)]\<rparr>)
      (new_conn\<lparr>cn_changes := new_game_state\<lparr>positions := [(7, zero_vec)]\<rparr>\<rparr>)))) 7 = Some zero_vec"
  using UpdateGameState_merges [of "new_conn\<lparr>cn_changes := new_game_state\<lparr>positions := [(7, zero_vec)]\<rparr>\<rparr>"
      "new_game_state\<lparr>positions := [(8, zero_vec)]\<rparr>"]
  by (simp add: wf_gs_def wf_omap_def om_keys_def new_game_state_def map_add_def)

end
