(* ===== verification/Client_Queue.thy ===== *)
theory Client_Queue
  imports Complex_Main Game_State
begin

text \<open>
  \<open>ClientGameStateQueue\<close> (client/client-game-state-queue.cpp): the states received from the
  server, their interpolation over time, and the client's predictions with the check of a
  prediction against the state that acknowledges it. Floating point numbers are rationals;
  glm's \<open>slerp\<close> is a parameter. Reading \<open>to_state\<close> after its element was popped is an access
  to a destroyed object: the model's \<open>None\<close>.
\<close>

subsection \<open>State\<close>

record server_stats =
  ss_last_state_time :: u64
  ss_server_state_count :: nat
  ss_current_command_id :: state_id_t
  ss_current_acked_id :: state_id_t
  ss_server_position :: "rat vec3"
  ss_server_position_next :: "rat vec3"
  ss_client_position :: "rat vec3"
  ss_client_velocity :: "rat vec3"

record client_queue =
  cq_array :: "rat game_state list"
  cq_index :: int
  cq_stats :: server_stats
  cq_base :: "rat game_state"
  cq_interpolated :: "rat game_state"
  cq_states :: "rat game_state list"
  cq_last_id :: state_id_t
  cq_command_id :: state_id_t
  cq_accumulator :: rat
  cq_client_id :: eid
  cq_predictions :: "(state_id_t, rat game_state) omap"

definition SERVER_STATES_ARRAY_SIZE :: nat where "SERVER_STATES_ARRAY_SIZE = 5"
definition UPDATE_RATE :: rat where "UPDATE_RATE = 1 / 8"

definition new_stats :: server_stats where
  "new_stats = \<lparr>ss_last_state_time = 0, ss_server_state_count = 0, ss_current_command_id = 0,
     ss_current_acked_id = 0, ss_server_position = zero_vec, ss_server_position_next = zero_vec,
     ss_client_position = zero_vec, ss_client_velocity = zero_vec\<rparr>"

definition new_client_queue :: client_queue where
  "new_client_queue = \<lparr>cq_array = replicate SERVER_STATES_ARRAY_SIZE new_game_state,
     cq_index = int SERVER_STATES_ARRAY_SIZE - 1, cq_stats = new_stats, cq_base = new_game_state,
     cq_interpolated = new_game_state, cq_states = [], cq_last_id = 0, cq_command_id = 0,
     cq_accumulator = 0, cq_client_id = 0, cq_predictions = []\<rparr>"

subsection \<open>Vectors\<close>

definition vec_map2 :: "(rat \<Rightarrow> rat \<Rightarrow> rat) \<Rightarrow> rat vec3 \<Rightarrow> rat vec3 \<Rightarrow> rat vec3" where
  "vec_map2 f a b = \<lparr>vx = f (vx a) (vx b), vy = f (vy a) (vy b), vz = f (vz a) (vz b)\<rparr>"

definition scale_vec :: "rat \<Rightarrow> rat vec3 \<Rightarrow> rat vec3" where
  "scale_vec k a = \<lparr>vx = vx a * k, vy = vy a * k, vz = vz a * k\<rparr>"

definition lerp_vec :: "rat \<Rightarrow> rat vec3 \<Rightarrow> rat vec3 \<Rightarrow> rat vec3" where
  "lerp_vec a = vec_map2 (\<lambda>x y. x * (1 - a) + y * a)"

subsection \<open>Interpolation\<close>

text \<open>\<open>for (auto x : src) dst[x.first] = x.second\<close>.\<close>

definition put_all :: "('k::linorder, 'v) omap \<Rightarrow> ('k, 'v) omap \<Rightarrow> ('k, 'v) omap" where
  "put_all src dst = fold (\<lambda>p. om_put (fst p) (snd p)) src dst"

definition adopt_state :: "rat game_state \<Rightarrow> rat game_state \<Rightarrow> rat game_state" where
  "adopt_state src dst = dst\<lparr>positions := put_all (positions src) (positions dst),
     velocities := put_all (velocities src) (velocities dst),
     orientations := put_all (orientations src) (orientations dst)\<rparr>"

text \<open>\<open>m[k]\<close> on a map that gains a default element when it has none.\<close>

definition touch :: "'v \<Rightarrow> 'k::linorder \<Rightarrow> ('k, 'v) omap \<Rightarrow> ('k, 'v) omap" where
  "touch d k m = om_put k (om_get d k m) m"

definition touch_moving :: "eid \<Rightarrow> rat game_state \<Rightarrow> rat game_state" where
  "touch_moving i gs = gs\<lparr>positions := touch zero_vec i (positions gs),
     velocities := touch new_velocity i (velocities gs)\<rparr>"

definition set_moving :: "eid \<Rightarrow> rat game_state \<Rightarrow> rat game_state \<Rightarrow> rat game_state" where
  "set_moving i src dst = dst\<lparr>positions := om_put i (om_get zero_vec i (positions src)) (positions dst),
     velocities := om_put i (om_get new_velocity i (velocities src)) (velocities dst)\<rparr>"

definition use_prediction :: "client_queue \<Rightarrow> client_queue" where
  "use_prediction q =
     (if cq_client_id q \<noteq> 0 then
        (case map_of (cq_predictions q) (cq_command_id q) of
           None \<Rightarrow> q
         | Some p \<Rightarrow> q\<lparr>cq_base := set_moving (cq_client_id q) p (cq_base q),
             cq_interpolated := set_moving (cq_client_id q) p (cq_interpolated q),
             cq_predictions := om_put (cq_command_id q) (touch_moving (cq_client_id q) p) (cq_predictions q)\<rparr>)
      else q)"

text \<open>
  The loop that discards states: \<open>to\<close> is the identifier of \<open>to_state\<close> as long as its element
  exists. It returns the states left, the accumulator and the base state's identifier.
\<close>

fun discard_states ::
    "rat game_state list \<Rightarrow> state_id_t option \<Rightarrow> rat \<Rightarrow> state_id_t \<Rightarrow> (rat game_state list \<times> rat \<times> state_id_t) option" where
  "discard_states [] to acc base_id = Some ([], acc, base_id)"
| "discard_states (s # ss) to acc base_id =
     (if UPDATE_RATE \<le> acc then
        (case to of None \<Rightarrow> None | Some i \<Rightarrow> discard_states ss None (acc - UPDATE_RATE) i)
      else Some (s # ss, acc, base_id))"

definition step_state :: "rat game_state \<Rightarrow> client_queue \<Rightarrow> client_queue option" where
  "step_state to_state q =
     (let q1 = use_prediction (q\<lparr>cq_base := adopt_state to_state (cq_base q),
                 cq_interpolated := adopt_state to_state (cq_interpolated q)\<rparr>)
      in case discard_states (cq_states q1) (Some (state_id to_state)) (cq_accumulator q1)
             (state_id (cq_base q1)) of
           None \<Rightarrow> None
         | Some (left, acc, base_id) \<Rightarrow> Some (q1\<lparr>cq_states := left, cq_accumulator := acc,
             cq_base := (cq_base q1)\<lparr>state_id := base_id\<rparr>\<rparr>))"

text \<open>
  The factor between the base state and the next one. The difference of the identifiers is
  unsigned, and a division by zero cannot happen in a queue that \<open>QueueServerState\<close> filled.
\<close>

definition lerp_percent :: "client_queue \<Rightarrow> rat game_state \<Rightarrow> rat" where
  "lerp_percent q to_state =
     cq_accumulator q / (UPDATE_RATE * of_nat (unat (state_id to_state - state_id (cq_base q))))"

definition lerp_position ::
    "rat \<Rightarrow> (eid, rat vec3) omap \<Rightarrow> eid \<times> rat vec3 \<Rightarrow> (eid, rat vec3) omap \<Rightarrow> (eid, rat vec3) omap" where
  "lerp_position a base p m = om_put (fst p)
     (case map_of base (fst p) of Some b \<Rightarrow> lerp_vec a b (snd p) | None \<Rightarrow> snd p) m"

definition lerp_velocity ::
    "rat \<Rightarrow> (eid, rat velocity) omap \<Rightarrow> eid \<times> rat velocity \<Rightarrow> (eid, rat velocity) omap \<Rightarrow> (eid, rat velocity) omap" where
  "lerp_velocity a base p m = om_put (fst p)
     (case map_of base (fst p) of
        Some b \<Rightarrow> \<lparr>v_linear = lerp_vec a (v_linear b) (v_linear (snd p)),
          v_angular = lerp_vec a (v_angular b) (v_angular (snd p))\<rparr>
      | None \<Rightarrow> \<lparr>v_linear = v_linear (snd p), v_angular = v_angular (snd p)\<rparr>) m"

text \<open>Only the quaternion of an interpolated orientation is written.\<close>

definition slerp_orientation ::
    "(rat quat \<Rightarrow> rat quat \<Rightarrow> rat \<Rightarrow> rat quat) \<Rightarrow> rat \<Rightarrow> (eid, rat orientation) omap \<Rightarrow> eid \<times> rat orientation
      \<Rightarrow> (eid, rat orientation) omap \<Rightarrow> (eid, rat orientation) omap" where
  "slerp_orientation slerp a base p m = (case map_of base (fst p) of
      Some b \<Rightarrow> om_put (fst p) ((om_get new_orientation (fst p) m)
        \<lparr>o_value := slerp (o_value b) (o_value (snd p)) a\<rparr>) m
    | None \<Rightarrow> om_put (fst p) (snd p) m)"

definition lerp_states ::
    "(rat quat \<Rightarrow> rat quat \<Rightarrow> rat \<Rightarrow> rat quat) \<Rightarrow> rat game_state \<Rightarrow> client_queue \<Rightarrow> client_queue" where
  "lerp_states slerp to_state q =
     (let a = lerp_percent q to_state; gs = cq_interpolated q in
      if 0 < a then q\<lparr>cq_interpolated := gs
          \<lparr>positions := fold (lerp_position a (positions (cq_base q))) (positions to_state) (positions gs),
           velocities := fold (lerp_velocity a (velocities (cq_base q))) (velocities to_state) (velocities gs),
           orientations := fold (slerp_orientation slerp a (orientations (cq_base q)))
             (orientations to_state) (orientations gs)\<rparr>\<rparr>
      else q)"

definition Interpolate ::
    "(rat quat \<Rightarrow> rat quat \<Rightarrow> rat \<Rightarrow> rat quat) \<Rightarrow> rat \<Rightarrow> client_queue \<Rightarrow> client_queue option" where
  "Interpolate slerp delta_time q =
     (let q0 = q\<lparr>cq_stats := (cq_stats q)\<lparr>ss_server_state_count := length (cq_states q)\<rparr>\<rparr> in
      case cq_states q0 of
        [] \<Rightarrow> Some q0
      | to_state # _ \<Rightarrow>
          let q1 = q0\<lparr>cq_accumulator := cq_accumulator q0 + delta_time,
                cq_stats := (cq_stats q0)\<lparr>ss_last_state_time := timestamp to_state\<rparr>\<rparr> in
          if UPDATE_RATE \<le> cq_accumulator q1 then step_state to_state q1
          else Some (lerp_states slerp to_state q1))"

subsection \<open>Receiving states and checking predictions\<close>

text \<open>
  The loop over the predictions: those that are not newer than the acknowledged command are
  erased, and the difference is taken at the acknowledged one. \<open>new_state.velocities[client_id]\<close>
  in it makes an entry, so the state is threaded through.
\<close>

fun check_predictions ::
    "eid \<Rightarrow> rat vec3 \<Rightarrow> (state_id_t, rat game_state) omap \<Rightarrow> rat game_state \<times> rat vec3 \<times> rat vec3
      \<Rightarrow> (state_id_t, rat game_state) omap \<times> rat game_state \<times> rat vec3 \<times> rat vec3" where
  "check_predictions cid state_pos [] r = ([], r)"
| "check_predictions cid state_pos ((k, p) # ps) (new_state, pd, vd) =
     (if k \<le> command_id new_state then
        check_predictions cid state_pos ps
          (if k = command_id new_state then
             (new_state\<lparr>velocities := touch new_velocity cid (velocities new_state)\<rparr>,
              vec_map2 (-) state_pos (om_get zero_vec cid (positions p)),
              vec_map2 (-) (v_linear (om_get new_velocity cid (velocities new_state)))
                (v_linear (om_get new_velocity cid (velocities p))))
           else (new_state, pd, vd))
      else (case check_predictions cid state_pos ps (new_state, pd, vd) of
              (ps', r) \<Rightarrow> ((k, p) # ps', r)))"

definition CheckPredictionResult :: "rat game_state \<Rightarrow> client_queue \<Rightarrow> rat game_state \<times> client_queue" where
  "CheckPredictionResult new_state q =
     (if cq_client_id q = 0 then (new_state, q)
      else
        (let cid = cq_client_id q;
             state_pos = ss_server_position_next (cq_stats q);
             new_state1 = new_state\<lparr>positions := touch zero_vec cid (positions new_state)\<rparr>;
             (ps, new_state2, pd, vd) =
               check_predictions cid state_pos (cq_predictions q) (new_state1, zero_vec, zero_vec)
         in (new_state2, q\<lparr>cq_predictions := ps, cq_stats := (cq_stats q)
              \<lparr>ss_current_acked_id := command_id new_state, ss_server_position := state_pos,
               ss_server_position_next := om_get zero_vec cid (positions new_state),
               ss_client_position := pd, ss_client_velocity := vd\<rparr>\<rparr>)))"

text \<open>The index is an \<open>int\<close>; \<open>%\<close> with the unsigned size reads it as a 32 bit unsigned number.\<close>

definition array_slot :: "int \<Rightarrow> nat" where
  "array_slot i = nat (i mod 2 ^ 32) mod SERVER_STATES_ARRAY_SIZE"

definition QueueServerState :: "rat game_state \<Rightarrow> client_queue \<Rightarrow> client_queue" where
  "QueueServerState new_state q =
     (if cq_last_id q < state_id new_state then
        (let q1 = q\<lparr>cq_array := (cq_array q)[array_slot (cq_index q) := new_state],
                   cq_index := cq_index q + 1, cq_last_id := state_id new_state\<rparr>;
             (new_state1, q2) = CheckPredictionResult new_state q1
         in q2\<lparr>cq_states := cq_states q2 @ [new_state1]\<rparr>)
      else q)"

definition GetGameState :: "int \<Rightarrow> client_queue \<Rightarrow> rat game_state" where
  "GetGameState offset q = cq_array q ! array_slot (cq_index q - offset)"

definition UpdatePredictions :: "rat game_state \<Rightarrow> client_queue \<Rightarrow> rat game_state \<times> client_queue" where
  "UpdatePredictions new_state q =
     (if cq_client_id q = 0 then (new_state, q)
      else
        (let cid = cq_client_id q;
             pos = vec_map2 (+) (om_get zero_vec cid (positions new_state))
                     (scale_vec (1 / 8) (ss_client_position (cq_stats q)));
             predict = new_game_state
               \<lparr>positions := [(cid, pos)],
                velocities := [(cid, om_get new_velocity cid (velocities new_state))],
                orientations := [(cid, om_get new_orientation cid (orientations new_state))]\<rparr>;
             new_state1 = new_state\<lparr>positions := touch zero_vec cid (positions new_state),
               velocities := touch new_velocity cid (velocities new_state),
               orientations := touch new_orientation cid (orientations new_state)\<rparr>
         in (new_state1, q\<lparr>cq_stats := (cq_stats q)\<lparr>ss_current_command_id := cq_command_id q\<rparr>,
               cq_predictions := (if om_has (cq_command_id q) (cq_predictions q) then cq_predictions q
                 else om_put (cq_command_id q) predict (cq_predictions q))\<rparr>)))"

definition SetClientID :: "eid \<Rightarrow> client_queue \<Rightarrow> client_queue" where
  "SetClientID i q = q\<lparr>cq_client_id := i\<rparr>"

definition SetCommandID :: "state_id_t \<Rightarrow> client_queue \<Rightarrow> client_queue" where
  "SetCommandID i q = q\<lparr>cq_command_id := i\<rparr>"

text \<open>\<open>On(EntityCreated)\<close> and \<open>On(EntityDestroyed)\<close> act on both states alike.\<close>

definition cq_On_EntityCreated ::
    "(rat \<Rightarrow> rat \<Rightarrow> rat \<Rightarrow> rat quat) \<Rightarrow> rat p_entity \<Rightarrow> client_queue \<Rightarrow> client_queue" where
  "cq_On_EntityCreated c3 entity q =
     q\<lparr>cq_interpolated := store_entity c3 entity (cq_interpolated q),
       cq_base := store_entity c3 entity (cq_base q)\<rparr>"

definition cq_On_EntityDestroyed :: "eid \<Rightarrow> client_queue \<Rightarrow> client_queue" where
  "cq_On_EntityDestroyed i q =
     q\<lparr>cq_interpolated := On_EntityDestroyed i (cq_interpolated q),
       cq_base := On_EntityDestroyed i (cq_base q)\<rparr>"

subsection \<open>Reading the next state while it exists\<close>

lemma discard_none:
  "discard_states ss None acc b = None \<longleftrightarrow> ss \<noteq> [] \<and> UPDATE_RATE \<le> acc"
  by (cases ss) simp_all

lemma discard_some_none:
  "discard_states ss (Some i) acc b = None \<longleftrightarrow> 2 \<le> length ss \<and> 2 * UPDATE_RATE \<le> acc"
  by (cases ss) (auto simp: discard_none UPDATE_RATE_def Suc_le_eq)

lemma discard_some_Some:
  assumes "discard_states (s # ss) (Some i) acc b = Some (left, acc', b')" and "UPDATE_RATE \<le> acc"
  shows "left = ss \<and> acc' = acc - UPDATE_RATE \<and> b' = i"
  using assms by (cases ss) (auto split: if_splits)

lemma use_prediction_keeps [simp, frame_simps]:
  "cq_states (use_prediction q) = cq_states q" "cq_accumulator (use_prediction q) = cq_accumulator q"
  "cq_last_id (use_prediction q) = cq_last_id q" "state_id (cq_base (use_prediction q)) = state_id (cq_base q)"
  "cq_client_id (use_prediction q) = cq_client_id q" "cq_command_id (use_prediction q) = cq_command_id q"
  by (simp_all add: use_prediction_def set_moving_def split: option.split)

lemma adopt_state_keeps [simp, frame_simps]: "state_id (adopt_state src dst) = state_id dst"
  by (simp add: adopt_state_def)

lemma step_state_None:
  "step_state s q = None \<longleftrightarrow> 2 \<le> length (cq_states q) \<and> 2 * UPDATE_RATE \<le> cq_accumulator q"
proof -
  let ?q1 = "use_prediction (q\<lparr>cq_base := adopt_state s (cq_base q),
    cq_interpolated := adopt_state s (cq_interpolated q)\<rparr>)"
  have "step_state s q = None \<longleftrightarrow>
      discard_states (cq_states q) (Some (state_id s)) (cq_accumulator q) (state_id (cq_base ?q1)) = None"
    by (auto simp: step_state_def Let_def split: option.split)
  then show ?thesis by (simp only: discard_some_none)
qed

lemma step_state_Some:
  assumes "step_state s q = Some q'" and "cq_states q = s # ss" and "UPDATE_RATE \<le> cq_accumulator q"
  shows "cq_states q' = ss \<and> cq_accumulator q' = cq_accumulator q - UPDATE_RATE
    \<and> state_id (cq_base q') = state_id s \<and> cq_last_id q' = cq_last_id q"
  using assms discard_some_Some [OF _ assms(3)]
  by (auto simp: step_state_def Let_def split: option.splits)

text \<open>\<open>Interpolate\<close> reads a state that is already destroyed if and only if a frame
  brings the accumulated time to two update periods or more while two or more states are
  queued: the loop that discards states takes the second identifier from the first state.\<close>

theorem Interpolate_defined_iff:
  "Interpolate slerp delta_time q = None \<longleftrightarrow>
     2 * UPDATE_RATE \<le> cq_accumulator q + delta_time \<and> 2 \<le> length (cq_states q)"
proof (cases "cq_states q")
  case (Cons s ss)
  then show ?thesis
    by (auto simp: Interpolate_def Let_def step_state_None UPDATE_RATE_def)
qed (simp add: Interpolate_def Let_def)

subsection \<open>The invariant of the queue\<close>

definition wf_cq :: "client_queue \<Rightarrow> bool" where
  "wf_cq q \<longleftrightarrow> sorted_wrt (<) (state_id (cq_base q) # map state_id (cq_states q))
     \<and> (\<forall>s \<in> set (cq_states q). state_id s \<le> cq_last_id q \<and> wf_gs s)
     \<and> state_id (cq_base q) \<le> cq_last_id q \<and> 0 \<le> cq_accumulator q
     \<and> wf_gs (cq_base q) \<and> wf_gs (cq_interpolated q)
     \<and> wf_omap (cq_predictions q) \<and> (\<forall>p \<in> set (cq_predictions q). wf_gs (snd p))"

lemma wf_put_all [wf_intros]: "wf_omap dst \<Longrightarrow> wf_omap (put_all src dst)"
  unfolding put_all_def by (induction src arbitrary: dst) (auto intro: wf_intros)

lemma wf_touch [wf_intros]: "wf_omap m \<Longrightarrow> wf_omap (touch d k m)"
  by (simp add: touch_def wf_om_put)

lemma wf_gs_intros [wf_intros]:
  "wf_gs src \<Longrightarrow> wf_gs dst \<Longrightarrow> wf_gs (adopt_state src dst)"
  "wf_gs dst \<Longrightarrow> wf_gs (set_moving i src dst)"
  "wf_gs gs \<Longrightarrow> wf_gs (touch_moving i gs)"
  by (auto simp: wf_gs_def adopt_state_def set_moving_def touch_moving_def intro: wf_intros)

lemma set_om_put_subset: "set (om_put k v m) \<subseteq> insert (k, v) (set m)"
  by (induction k v m rule: om_put.induct) auto

lemma om_put_all: "\<forall>p \<in> set m. P (snd p) \<Longrightarrow> P v \<Longrightarrow> \<forall>p \<in> set (om_put k v m). P (snd p)"
  using set_om_put_subset [of k v m] by fastforce

lemma map_of_all: "\<forall>p \<in> set m. P (snd p) \<Longrightarrow> map_of m k = Some v \<Longrightarrow> P v"
  using map_of_SomeD by fastforce

lemma wf_use_prediction:
  assumes "wf_omap (cq_predictions q)" and "\<forall>p \<in> set (cq_predictions q). wf_gs (snd p)"
    and "wf_gs (cq_base q)" and "wf_gs (cq_interpolated q)"
  shows "wf_omap (cq_predictions (use_prediction q)) \<and> (\<forall>p \<in> set (cq_predictions (use_prediction q)). wf_gs (snd p))
    \<and> wf_gs (cq_base (use_prediction q)) \<and> wf_gs (cq_interpolated (use_prediction q))"
proof (cases "cq_client_id q = 0 \<or> map_of (cq_predictions q) (cq_command_id q) = None")
  case True
  then show ?thesis using assms by (auto simp: use_prediction_def)
next
  case False
  then obtain p where p: "map_of (cq_predictions q) (cq_command_id q) = Some p" by auto
  have "wf_gs (touch_moving (cq_client_id q) p)"
    using map_of_all [OF assms(2) p] by (rule wf_gs_intros)
  with om_put_all [OF assms(2), of _ "cq_command_id q"] False p assms show ?thesis
    by (simp add: use_prediction_def wf_gs_intros wf_om_put)
qed

lemma wf_fold_put:
  assumes "\<And>x m. wf_omap m \<Longrightarrow> wf_omap (f x m)"
  shows "wf_omap m \<Longrightarrow> wf_omap (fold f xs m)"
  using assms by (induction xs arbitrary: m) auto

lemma wf_lerp_states [wf_intros]: "wf_gs (cq_interpolated q) \<Longrightarrow> wf_gs (cq_interpolated (lerp_states sl s q))"
  by (auto simp: lerp_states_def Let_def wf_gs_def lerp_position_def lerp_velocity_def slerp_orientation_def
      intro!: wf_fold_put wf_intros split: option.split)

lemma lerp_states_keeps [simp, frame_simps]:
  "cq_states (lerp_states sl s q) = cq_states q" "cq_accumulator (lerp_states sl s q) = cq_accumulator q"
  "cq_last_id (lerp_states sl s q) = cq_last_id q" "cq_base (lerp_states sl s q) = cq_base q"
  "cq_predictions (lerp_states sl s q) = cq_predictions q"
  by (simp_all add: lerp_states_def Let_def)

lemma wf_Interpolate:
  assumes "wf_cq q" and "0 \<le> dt" and "Interpolate sl dt q = Some q'"
  shows "wf_cq q'"
proof (cases "cq_states q")
  case Nil
  then show ?thesis using assms by (auto simp: Interpolate_def Let_def wf_cq_def)
next
  case (Cons s ss)
  let ?q1 = "q\<lparr>cq_accumulator := cq_accumulator q + dt, cq_stats := (cq_stats q)
    \<lparr>ss_server_state_count := length (cq_states q), ss_last_state_time := timestamp s\<rparr>\<rparr>"
  let ?q2 = "use_prediction (?q1\<lparr>cq_base := adopt_state s (cq_base q),
    cq_interpolated := adopt_state s (cq_interpolated q)\<rparr>)"
  show ?thesis
  proof (cases "UPDATE_RATE \<le> cq_accumulator q + dt")
    case True
    have step: "step_state s ?q1 = Some q'"
      using assms(3) Cons True by (simp add: Interpolate_def Let_def)
    note s = step_state_Some [OF step, of ss]
    have "cq_predictions q' = cq_predictions ?q2 \<and> cq_interpolated q' = cq_interpolated ?q2
      \<and> (\<exists>b. cq_base q' = (cq_base ?q2)\<lparr>state_id := b\<rparr>)"
      using step by (auto simp: step_state_def Let_def split: option.splits)
    moreover have "wf_gs s"
      using assms(1) Cons by (simp add: wf_cq_def)
    then have "wf_omap (cq_predictions ?q2) \<and> (\<forall>p \<in> set (cq_predictions ?q2). wf_gs (snd p))
        \<and> wf_gs (cq_base ?q2) \<and> wf_gs (cq_interpolated ?q2)"
      using assms(1) by (intro wf_use_prediction) (simp_all add: wf_cq_def wf_gs_intros)
    ultimately show ?thesis
      using s Cons True assms(1) by (auto simp: wf_cq_def wf_gs_def)
  next
    case False
    then have "q' = lerp_states sl s ?q1"
      using assms(3) Cons by (simp add: Interpolate_def Let_def)
    then show ?thesis
      using assms(1,2) Cons wf_lerp_states [of ?q1 sl s] by (simp add: wf_cq_def)
  qed
qed

subsection \<open>Checking predictions\<close>

lemma check_predictions_eq:
  "distinct (om_keys ps) \<Longrightarrow>
   check_predictions cid sp ps (st, pd, vd) = (filter (\<lambda>p. command_id st < fst p) ps,
     case map_of ps (command_id st) of
       None \<Rightarrow> (st, pd, vd)
     | Some p \<Rightarrow> (st\<lparr>velocities := touch new_velocity cid (velocities st)\<rparr>,
         vec_map2 (-) sp (om_get zero_vec cid (positions p)),
         vec_map2 (-) (v_linear (om_get new_velocity cid (velocities st)))
           (v_linear (om_get new_velocity cid (velocities p)))))"
proof (induction ps arbitrary: st pd vd)
  case (Cons x ps)
  obtain k p where x: "x = (k, p)" by (cases x)
  have dist: "distinct (om_keys ps)" and k: "k \<notin> fst ` set ps"
    using Cons.prems by (auto simp: x om_keys_def)
  consider "k = command_id st" | "k < command_id st" | "command_id st < k"
    by (rule linorder_cases)
  then show ?case
  proof cases
    case 1
    then have "map_of ps (command_id st) = None"
      using k by (simp add: map_of_eq_None_iff)
    then show ?thesis
      using 1 by (simp add: x Cons.IH [OF dist])
  next
    case 2
    then have "\<not> command_id st < k" "k \<noteq> command_id st" "k \<le> command_id st" by auto
    then show ?thesis by (simp add: x Cons.IH [OF dist])
  next
    case 3
    then have "k \<noteq> command_id st" "\<not> k \<le> command_id st" by auto
    then show ?thesis using 3 by (auto simp: x Cons.IH [OF dist] split: option.split)
  qed
qed simp

lemma wf_filter: "wf_omap m \<Longrightarrow> wf_omap (filter P m)"
  by (induction m) (auto simp: wf_omap_Cons om_keys_def)

lemma CheckPredictionResult_eq:
  assumes "wf_omap (cq_predictions q)" and "cq_client_id q \<noteq> 0"
    and "CheckPredictionResult st q = (st', q')"
  shows "positions st' = touch zero_vec (cq_client_id q) (positions st)
    \<and> state_id st' = state_id st \<and> command_id st' = command_id st \<and> (wf_gs st \<longrightarrow> wf_gs st')
    \<and> cq_predictions q' = filter (\<lambda>p. command_id st < fst p) (cq_predictions q)
    \<and> ss_client_position (cq_stats q') = (case map_of (cq_predictions q) (command_id st) of
        None \<Rightarrow> zero_vec
      | Some p \<Rightarrow> vec_map2 (-) (ss_server_position_next (cq_stats q)) (om_get zero_vec (cq_client_id q) (positions p)))
    \<and> ss_server_position_next (cq_stats q') = om_get zero_vec (cq_client_id q) (positions st)
    \<and> cq_states q' = cq_states q \<and> cq_base q' = cq_base q \<and> cq_interpolated q' = cq_interpolated q
    \<and> cq_last_id q' = cq_last_id q \<and> cq_accumulator q' = cq_accumulator q"
  using assms distinct_om_keys [OF assms(1)]
  by (auto simp: CheckPredictionResult_def Let_def check_predictions_eq wf_gs_def intro: wf_intros
      split: option.splits)

lemma QueueServerState_accepts:
  assumes "wf_omap (cq_predictions q)" and "cq_last_id q < state_id st"
  shows "\<exists>st'. cq_states (QueueServerState st q) = cq_states q @ [st']
    \<and> state_id st' = state_id st \<and> (wf_gs st \<longrightarrow> wf_gs st')
    \<and> positions st' = (if cq_client_id q = 0 then positions st
           else touch zero_vec (cq_client_id q) (positions st))
    \<and> cq_last_id (QueueServerState st q) = state_id st
    \<and> cq_base (QueueServerState st q) = cq_base q
    \<and> cq_interpolated (QueueServerState st q) = cq_interpolated q
    \<and> cq_accumulator (QueueServerState st q) = cq_accumulator q
    \<and> cq_predictions (QueueServerState st q) = (if cq_client_id q = 0 then cq_predictions q
           else filter (\<lambda>p. command_id st < fst p) (cq_predictions q))
    \<and> (cq_client_id q \<noteq> 0 \<longrightarrow> ss_client_position (cq_stats (QueueServerState st q)) =
      (case map_of (cq_predictions q) (command_id st) of
        None \<Rightarrow> zero_vec
      | Some p \<Rightarrow> vec_map2 (-) (ss_server_position_next (cq_stats q)) (om_get zero_vec (cq_client_id q) (positions p))))"
proof -
  let ?q1 = "q\<lparr>cq_array := (cq_array q)[array_slot (cq_index q) := st],
    cq_index := cq_index q + 1, cq_last_id := state_id st\<rparr>"
  obtain st' q2 where c: "CheckPredictionResult st ?q1 = (st', q2)"
    by (metis prod.exhaust)
  have res: "QueueServerState st q = q2\<lparr>cq_states := cq_states q2 @ [st']\<rparr>"
    using assms(2) c by (simp add: QueueServerState_def Let_def)
  show ?thesis
  proof (cases "cq_client_id q = 0")
    case True
    then have "CheckPredictionResult st ?q1 = (st, ?q1)"
      by (simp add: CheckPredictionResult_def)
    with c have "st' = st" "q2 = ?q1" by (metis Pair_inject)+
    then show ?thesis
      using True res by simp
  next
    case False
    note e = CheckPredictionResult_eq [OF _ _ c]
    show ?thesis
      using False res e assms(1) by (cases "map_of (cq_predictions q) (command_id st)") simp_all
  qed
qed

lemma wf_QueueServerState:
  assumes "wf_cq q" and "wf_gs st"
  shows "wf_cq (QueueServerState st q)"
proof (cases "cq_last_id q < state_id st")
  case True
  have p: "wf_omap (cq_predictions q)"
    using assms(1) by (simp add: wf_cq_def)
  obtain st' where q: "cq_states (QueueServerState st q) = cq_states q @ [st']"
    "state_id st' = state_id st" "wf_gs st \<longrightarrow> wf_gs st'" "cq_last_id (QueueServerState st q) = state_id st"
    "cq_base (QueueServerState st q) = cq_base q" "cq_interpolated (QueueServerState st q) = cq_interpolated q"
    "cq_accumulator (QueueServerState st q) = cq_accumulator q"
    "cq_predictions (QueueServerState st q) = (if cq_client_id q = 0 then cq_predictions q
       else filter (\<lambda>p. command_id st < fst p) (cq_predictions q))"
    using QueueServerState_accepts [OF p True] by blast
  have le: "x \<le> cq_last_id q" if "x = state_id (cq_base q) \<or> x \<in> state_id ` set (cq_states q)" for x
    using that assms(1) by (auto simp: wf_cq_def)
  have less: "x < state_id st" if "x = state_id (cq_base q) \<or> x \<in> state_id ` set (cq_states q)" for x
    using le [OF that] True by (rule le_less_trans)
  from less have "sorted_wrt (<) ((state_id (cq_base q) # map state_id (cq_states q)) @ [state_id st])"
    using assms(1) unfolding sorted_wrt_append by (auto simp: wf_cq_def)
  moreover have "\<forall>s \<in> set (cq_states q). state_id s \<le> state_id st \<and> wf_gs s"
    using less assms(1) by (auto simp: wf_cq_def less_imp_le)
  moreover have "wf_gs st'"
    using q(3) assms(2) by simp
  moreover have "state_id (cq_base q) \<le> state_id st"
    using less by (simp add: less_imp_le)
  moreover have "wf_omap (cq_predictions (QueueServerState st q))
      \<and> (\<forall>p \<in> set (cq_predictions (QueueServerState st q)). wf_gs (snd p))"
    using assms(1) unfolding q(8) by (simp add: wf_cq_def wf_filter)
  ultimately show ?thesis
    using assms(1) q(1,2,4-7) by (auto simp: wf_cq_def)
next
  case False
  then show ?thesis using assms by (simp add: QueueServerState_def)
qed

lemma wf_UpdatePredictions:
  assumes "wf_cq q"
  shows "wf_cq (snd (UpdatePredictions st q))"
proof -
  have new: "wf_gs (new_game_state\<lparr>positions := [(i, x)], velocities := [(i, v)], orientations := [(i, r)]\<rparr>)"
    for i :: eid and x :: "rat vec3" and v :: "rat velocity" and r :: "rat orientation"
    by (simp add: wf_gs_def wf_omap_def om_keys_def)
  have all: "\<forall>p \<in> set (cq_predictions q). wf_gs (snd p)"
    using assms by (simp add: wf_cq_def)
  show ?thesis
    using assms om_put_all [OF all new]
    by (simp add: UpdatePredictions_def Let_def wf_cq_def wf_om_put)
qed

lemma wf_cq_events:
  assumes "wf_cq q"
  shows "wf_cq (cq_On_EntityCreated c3 e q)" and "wf_cq (cq_On_EntityDestroyed i q)"
    and "wf_cq (SetClientID j q)" and "wf_cq (SetCommandID k q)"
proof -
  have "state_id (store_entity c3 e gs) = state_id gs" for gs :: "rat game_state"
  proof -
    have "state_id (fold (store_component c3 j) cs gs) = state_id gs" for j cs
      by (induction cs arbitrary: gs) simp_all
    then show ?thesis by (simp add: store_entity_def)
  qed
  then show "wf_cq (cq_On_EntityCreated c3 e q)"
    using assms by (simp add: cq_On_EntityCreated_def wf_cq_def wf_store_entity)
  have "state_id (On_EntityDestroyed i gs) = state_id gs" for gs :: "rat game_state"
    by (simp add: On_EntityDestroyed_def)
  then show "wf_cq (cq_On_EntityDestroyed i q)"
    using assms by (simp add: wf_cq_def cq_On_EntityDestroyed_def wf_On_EntityDestroyed)
qed (use assms in \<open>simp_all add: wf_cq_def SetClientID_def SetCommandID_def\<close>)

text \<open>The calls made on the queue, in any order; a frame's time step is not negative.\<close>

inductive cq_reach ::
    "(rat quat \<Rightarrow> rat quat \<Rightarrow> rat \<Rightarrow> rat quat) \<Rightarrow> (rat \<Rightarrow> rat \<Rightarrow> rat \<Rightarrow> rat quat) \<Rightarrow> client_queue \<Rightarrow> bool"
  for sl c3 where
  start: "cq_reach sl c3 new_client_queue"
| received: "cq_reach sl c3 q \<Longrightarrow> wf_gs st \<Longrightarrow> cq_reach sl c3 (QueueServerState st q)"
| frame: "cq_reach sl c3 q \<Longrightarrow> 0 \<le> dt \<Longrightarrow> Interpolate sl dt q = Some q' \<Longrightarrow> cq_reach sl c3 q'"
| predicted: "cq_reach sl c3 q \<Longrightarrow> cq_reach sl c3 (snd (UpdatePredictions st q))"
| created: "cq_reach sl c3 q \<Longrightarrow> cq_reach sl c3 (cq_On_EntityCreated c3 e q)"
| destroyed: "cq_reach sl c3 q \<Longrightarrow> cq_reach sl c3 (cq_On_EntityDestroyed i q)"
| joined: "cq_reach sl c3 q \<Longrightarrow> cq_reach sl c3 (SetClientID i q)"
| commanded: "cq_reach sl c3 q \<Longrightarrow> cq_reach sl c3 (SetCommandID k q)"

lemma cq_reach_wf: "cq_reach sl c3 q \<Longrightarrow> wf_cq q"
proof (induction rule: cq_reach.induct)
  case start
  show ?case by (simp add: wf_cq_def new_client_queue_def) (simp add: new_game_state_def)
qed (auto intro: wf_QueueServerState wf_Interpolate wf_UpdatePredictions wf_cq_events)

lemma id_gap_positive:
  assumes "wf_cq q" and "cq_states q = s # ss"
  shows "0 < unat (state_id s - state_id (cq_base q))"
  using assms by (auto simp: wf_cq_def unat_gt_0)

lemma lerp_percent_range:
  assumes "wf_cq q" and "cq_states q = s # ss" and "cq_accumulator q < UPDATE_RATE"
  shows "0 \<le> lerp_percent q s \<and> lerp_percent q s < 1"
proof -
  let ?n = "unat (state_id s - state_id (cq_base q))"
  have n: "1 \<le> (of_nat ?n :: rat)"
  proof -
    have "1 \<le> (of_nat n :: rat)" if "0 < n" for n :: nat
      using that by simp
    from this [OF id_gap_positive [OF assms(1,2)]] show ?thesis .
  qed
  have "UPDATE_RATE * 1 \<le> UPDATE_RATE * of_nat ?n"
    using n by (intro mult_left_mono) (simp_all add: UPDATE_RATE_def)
  then have "cq_accumulator q < UPDATE_RATE * of_nat ?n" and "0 < UPDATE_RATE * of_nat ?n"
    using assms(3) by (auto simp: UPDATE_RATE_def)
  then show ?thesis
    using assms(1) by (simp add: lerp_percent_def wf_cq_def divide_less_eq)
qed

text \<open>Whatever calls were made on the queue, the queued states have strictly increasing
  identifiers, all above the base state's; so within an update period the factor with which
  the next frame interpolates lies between 0 and 1.\<close>

theorem queue_order_and_factor:
  assumes "cq_reach sl c3 q"
  shows "sorted_wrt (<) (state_id (cq_base q) # map state_id (cq_states q))
    \<and> (\<forall>s ss dt. cq_states q = s # ss \<longrightarrow> 0 \<le> dt \<longrightarrow> cq_accumulator q + dt < UPDATE_RATE \<longrightarrow>
        0 \<le> lerp_percent (q\<lparr>cq_accumulator := cq_accumulator q + dt\<rparr>) s
        \<and> lerp_percent (q\<lparr>cq_accumulator := cq_accumulator q + dt\<rparr>) s < 1)"
proof -
  have wf: "wf_cq q" using assms by (rule cq_reach_wf)
  moreover have "wf_cq (q\<lparr>cq_accumulator := cq_accumulator q + dt\<rparr>)" if "0 \<le> dt" for dt
    using wf that by (simp add: wf_cq_def)
  ultimately show ?thesis
    using lerp_percent_range [of "q\<lparr>cq_accumulator := cq_accumulator q + _\<rparr>"]
    by (auto simp: wf_cq_def) (metis client_queue.select_convs)?
qed

text \<open>An example: the first state of a session, for an entity 7 at (8, 0, 0).\<close>

definition first_state :: "rat game_state" where
  "first_state = new_game_state\<lparr>positions := [(7, \<lparr>vx = 8, vy = 0, vz = 0\<rparr>)], state_id := 3, command_id := 2\<rparr>"

lemma first_state_queued:
  "cq_states (QueueServerState first_state new_client_queue) = [first_state]"
  "cq_base (QueueServerState first_state new_client_queue) = new_game_state"
  "cq_accumulator (QueueServerState first_state new_client_queue) = 0"
  by (simp_all add: QueueServerState_def Let_def CheckPredictionResult_def new_client_queue_def first_state_def)

lemma sample_selectors:
  "state_id first_state = 3" "command_id first_state = 2"
  "positions first_state = [(7, \<lparr>vx = 8, vy = 0, vz = 0\<rparr>)]"
  "cq_last_id new_client_queue = 0" "cq_stats new_client_queue = new_stats"
  "state_id (cq_base new_client_queue) = 0" "positions (cq_base new_client_queue) = []"
  by (simp_all add: first_state_def new_client_queue_def new_game_state_def)

lemma wf_first_state: "wf_gs first_state"
  by (simp add: first_state_def wf_gs_def wf_omap_def om_keys_def new_game_state_def)

theorem queue_order_and_factor_witness:
  "0 \<le> lerp_percent ((QueueServerState first_state new_client_queue)\<lparr>cq_accumulator := 1 / 16\<rparr>) first_state
   \<and> lerp_percent ((QueueServerState first_state new_client_queue)\<lparr>cq_accumulator := 1 / 16\<rparr>) first_state < 1
   \<and> state_id (cq_base (QueueServerState first_state new_client_queue)) < 3"
  using queue_order_and_factor [OF cq_reach.received [OF cq_reach.start wf_first_state, of "\<lambda>p q a. q" "\<lambda>x y z. undefined"]]
  by (auto simp: first_state_queued UPDATE_RATE_def dest: spec [of _ "1 / 16"])
    (simp_all add: new_game_state_def first_state_def)

text \<open>A queued state that acknowledges a command erases the predictions up to that command
  and keeps the later ones; the difference between the position the state before reported
  and the one predicted for that command becomes the correction of the next predictions. A
  state that is not newer than the last one changes nothing.\<close>

theorem QueueServerState_acknowledges:
  assumes "wf_omap (cq_predictions q)" and "cq_client_id q \<noteq> 0"
  shows "if cq_last_id q < state_id st then
      map_of (cq_predictions (QueueServerState st q)) =
        (\<lambda>k. if command_id st < k then map_of (cq_predictions q) k else None)
      \<and> length (cq_states (QueueServerState st q)) = length (cq_states q) + 1
      \<and> ss_client_position (cq_stats (QueueServerState st q)) =
        (case map_of (cq_predictions q) (command_id st) of
           None \<Rightarrow> zero_vec
         | Some p \<Rightarrow> vec_map2 (-) (ss_server_position_next (cq_stats q))
             (om_get zero_vec (cq_client_id q) (positions p)))
    else QueueServerState st q = q"
proof (cases "cq_last_id q < state_id st")
  case True
  have "map_of (filter (\<lambda>p. command_id st < fst p) ps) = (\<lambda>k. if command_id st < k then map_of ps k else None)"
    for ps :: "(state_id_t, rat game_state) omap"
    by (induction ps) (auto simp: fun_eq_iff)
  then show ?thesis
    using QueueServerState_accepts [OF assms(1) True] assms(2) True by auto
next
  case False
  then show ?thesis by (simp add: QueueServerState_def)
qed

theorem QueueServerState_acknowledges_witness:
  "map_of (cq_predictions (QueueServerState first_state (new_client_queue
      \<lparr>cq_client_id := 7, cq_predictions := [(2, first_state), (5, new_game_state)]\<rparr>)))
     = (\<lambda>k. if 2 < k then map_of [(2, first_state), (5, new_game_state)] k else None)
   \<and> vx (ss_client_position (cq_stats (QueueServerState first_state (new_client_queue
      \<lparr>cq_client_id := 7, cq_predictions := [(2, first_state), (5, new_game_state)]\<rparr>)))) = - 8"
proof -
  let ?q = "new_client_queue\<lparr>cq_client_id := 7, cq_predictions := [(2, first_state), (5, new_game_state)]\<rparr>"
  have "wf_omap (cq_predictions ?q)" "cq_client_id ?q \<noteq> 0" "cq_last_id ?q < state_id first_state"
    by (simp_all add: wf_omap_def om_keys_def sample_selectors)
  with QueueServerState_acknowledges [of ?q first_state] show ?thesis
    by (simp add: sample_selectors om_get_def vec_map2_def new_stats_def zero_vec_def cong: if_cong)
qed

text \<open>A state that carries no position of the client's own entity is queued with that
  entity at the origin, since the check reads the position with \<open>operator[]\<close>; all other
  positions are those received.\<close>

theorem missing_position_becomes_origin:
  assumes "wf_omap (cq_predictions q)" and "wf_gs st" and "cq_client_id q \<noteq> 0"
    and "cq_last_id q < state_id st" and "\<not> om_has (cq_client_id q) (positions st)"
  shows "map_of (positions (last (cq_states (QueueServerState st q))))
      = (map_of (positions st))(cq_client_id q \<mapsto> zero_vec)"
proof -
  obtain st' where s: "cq_states (QueueServerState st q) = cq_states q @ [st']"
    "positions st' = touch zero_vec (cq_client_id q) (positions st)"
    using QueueServerState_accepts [OF assms(1,4)] assms(3) by auto
  have "om_get zero_vec (cq_client_id q) (positions st) = zero_vec"
    using assms(5) by (simp add: om_get_def om_has_def)
  then show ?thesis
    using s assms(2) by (simp add: touch_def wf_gs_def)
qed

theorem missing_position_becomes_origin_witness:
  "map_of (positions (last (cq_states (QueueServerState first_state (new_client_queue\<lparr>cq_client_id := 9\<rparr>))))) 9
     = Some zero_vec"
  using missing_position_becomes_origin [of "new_client_queue\<lparr>cq_client_id := 9\<rparr>" first_state] wf_first_state
  by (simp add: new_client_queue_def first_state_def om_has_def)

subsection \<open>Interpolation stays between two states\<close>

definition between :: "rat \<Rightarrow> rat \<Rightarrow> rat \<Rightarrow> bool" where
  "between x y z \<longleftrightarrow> min x z \<le> y \<and> y \<le> max x z"

definition vec_between :: "rat vec3 \<Rightarrow> rat vec3 \<Rightarrow> rat vec3 \<Rightarrow> bool" where
  "vec_between a b c \<longleftrightarrow> between (vx a) (vx b) (vx c) \<and> between (vy a) (vy b) (vy c)
     \<and> between (vz a) (vz b) (vz c)"

lemma between_lerp: "0 \<le> a \<Longrightarrow> a \<le> 1 \<Longrightarrow> between x (x * (1 - a) + y * a) y"
proof -
  assume a: "0 \<le> a" "a \<le> 1"
  have e: "x * (1 - a) + y * a = x + (y - x) * a" by (simp add: algebra_simps)
  show ?thesis
  proof (cases "x \<le> y")
    case True
    then have "0 \<le> (y - x) * a" "(y - x) * a \<le> (y - x) * 1"
      using a by (simp, intro mult_left_mono, simp_all)
    then show ?thesis using True by (simp add: between_def e)
  next
    case False
    then have "(y - x) * a \<le> 0"
      using a by (simp add: mult_nonpos_nonneg)
    moreover have "(y - x) * 1 \<le> (y - x) * a"
      using a False by (intro mult_left_mono_neg) simp_all
    then have "y \<le> x + (y - x) * a"
      by (simp only: mult_1_right diff_le_eq add.commute)
    ultimately show ?thesis using False by (simp add: between_def e)
  qed
qed

lemma vec_between_lerp: "0 \<le> a \<Longrightarrow> a \<le> 1 \<Longrightarrow> vec_between x (lerp_vec a x y) y"
  by (simp add: vec_between_def lerp_vec_def vec_map2_def between_lerp)

lemma fold_lerp_position:
  assumes "wf_omap m" and "distinct (om_keys ps)"
  shows "wf_omap (fold (lerp_position a base) ps m) \<and> map_of (fold (lerp_position a base) ps m) i =
    (case map_of ps i of
       None \<Rightarrow> map_of m i
     | Some p \<Rightarrow> Some (case map_of base i of None \<Rightarrow> p | Some b \<Rightarrow> lerp_vec a b p))"
  using assms
proof (induction ps arbitrary: m)
  case (Cons x ps)
  obtain k p where x: "x = (k, p)" by (cases x)
  have wf: "wf_omap (lerp_position a base x m)"
    using Cons.prems(1) by (simp add: lerp_position_def wf_om_put)
  have dist: "distinct (om_keys ps)" and k: "map_of ps k = None"
    using Cons.prems(2) by (auto simp: x om_keys_def map_of_eq_None_iff)
  have m: "map_of (lerp_position a base x m) i =
      (if i = k then Some (case map_of base k of None \<Rightarrow> p | Some b \<Rightarrow> lerp_vec a b p) else map_of m i)"
    using Cons.prems(1) by (simp add: lerp_position_def x split: option.split)
  show ?case
    using Cons.IH [OF wf dist] k m by (cases "i = k") (simp_all add: x split: option.split)
qed simp

lemma lerp_percent_pos:
  assumes "0 < cq_accumulator q" and "0 < unat (state_id s - state_id (cq_base q))"
  shows "0 < lerp_percent q s"
  unfolding lerp_percent_def
  by (intro divide_pos_pos mult_pos_pos assms(1))
    (simp add: UPDATE_RATE_def, simp only: of_nat_0_less_iff assms(2))

text \<open>In a frame that ends before the update period is over, every entity that has a
  position in the base state and in the next state is drawn between the two; an entity
  only in the next state is drawn there, and one that is not in it does not move.\<close>

theorem interpolation_between:
  assumes "cq_reach sl c3 q" and "0 < dt" and "cq_accumulator q + dt < UPDATE_RATE"
    and "cq_states q = s # ss"
  shows "\<exists>q'. Interpolate sl dt q = Some q' \<and> cq_states q' = cq_states q \<and> cq_base q' = cq_base q
    \<and> (case map_of (positions s) i of
        None \<Rightarrow> map_of (positions (cq_interpolated q')) i = map_of (positions (cq_interpolated q)) i
      | Some p \<Rightarrow> (\<exists>x. map_of (positions (cq_interpolated q')) i = Some x
          \<and> (case map_of (positions (cq_base q)) i of None \<Rightarrow> x = p | Some b \<Rightarrow> vec_between b x p)))"
proof -
  let ?q1 = "q\<lparr>cq_accumulator := cq_accumulator q + dt, cq_stats := (cq_stats q)
    \<lparr>ss_server_state_count := length (cq_states q), ss_last_state_time := timestamp s\<rparr>\<rparr>"
  have q': "Interpolate sl dt q = Some (lerp_states sl s ?q1)"
    using assms(3,4) by (simp add: Interpolate_def Let_def)
  have wf: "wf_cq ?q1" "wf_cq q"
    using cq_reach_wf [OF assms(1)] assms(2) by (simp_all add: wf_cq_def)
  let ?a = "lerp_percent ?q1 s"
  have a: "0 \<le> ?a" "?a < 1"
    using lerp_percent_range [OF wf(1)] assms(3,4) by simp_all
  have pos: "0 < ?a"
    using wf(2) assms(2) id_gap_positive [OF wf(2) assms(4)]
    by (intro lerp_percent_pos) (simp_all add: wf_cq_def)
  have m: "wf_omap (positions (cq_interpolated q))" "distinct (om_keys (positions s))"
    using wf(2) assms(4) distinct_om_keys by (auto simp: wf_cq_def wf_gs_def)
  have "positions (cq_interpolated (lerp_states sl s ?q1))
      = fold (lerp_position ?a (positions (cq_base q))) (positions s) (positions (cq_interpolated q))"
    using pos by (simp add: lerp_states_def Let_def)
  with fold_lerp_position [OF m, of ?a "positions (cq_base q)" i] a show ?thesis
    unfolding q' by (auto simp: vec_between_lerp split: option.split)
qed

theorem interpolation_between_witness:
  "\<exists>q' x. Interpolate (\<lambda>p q a. q) (1 / 16) (QueueServerState first_state new_client_queue) = Some q'
    \<and> map_of (positions (cq_interpolated q')) 7 = Some x \<and> x = \<lparr>vx = 8, vy = 0, vz = 0\<rparr>"
  using interpolation_between [OF cq_reach.received [OF cq_reach.start wf_first_state,
      of "\<lambda>p q a. q" "\<lambda>x y z. undefined"], of "1 / 16" first_state "[]" 7]
  by (auto simp: first_state_queued UPDATE_RATE_def sample_selectors new_game_state_def)

text \<open>Every state the client keeps is a well-formed collection of components, whatever the
  server sends: all maps have one entry for each entity, the queued states are newer than the
  base state, and a state made of any message keeps this when it is queued.\<close>

theorem queue_states_typed:
  assumes "cq_reach sl c3 q"
  shows "wf_cq q \<and> wf_cq (QueueServerState (GameState_In c3 u new_game_state) q)"
  using cq_reach_wf [OF assms] wf_GameState_In [OF wf_new_game_state] wf_QueueServerState by blast

theorem queue_states_typed_witness:
  "wf_cq new_client_queue \<and> wf_cq (QueueServerState (GameState_In (\<lambda>x y z. \<lparr>qw = 1, qx = x, qy = y, qz = z\<rparr>)
     \<lparr>pu_state_id = Some 4, pu_command_id = None, pu_timestamp = None,
      pu_entity = [\<lparr>pe_id = 7, pe_components = [P_position \<lparr>pp_x = Some 1, pp_y = None, pp_z = None\<rparr>]\<rparr>]\<rparr> new_game_state) new_client_queue)"
  by (rule queue_states_typed [OF cq_reach.start])

end
