(* ===== verification/Client_Session.thy ===== *)
theory Client_Session
  imports Server_Session Client_Queue "HOL-Library.Signed_Division"
begin

text \<open>
  The client's side of the connection: \<open>ServerConnection\<close> (client/server-connection.cpp) and
  the part of the game loop that sends commands (client/game.cpp). What is queued for writing
  is the list of its fragments, time points are nanoseconds. Protobuf's parsing and
  serialising are parameters. A handler that does not return, or that reads a number
  \<open>atoi\<close> cannot represent, is \<open>None\<close>.
\<close>

subsection \<open>State\<close>

datatype client_event =
    Created "rat p_entity"
  | Destroyed eid
  | New_Game_State "rat game_state"

record client =
  cl_open :: bool
  cl_partials :: partials
  cl_out :: "message list"
  cl_run_sync :: bool
  cl_sync_start :: int
  cl_recv_time :: int
  cl_pings :: "int list"
  cl_average_ping :: int
  cl_server_time :: u64
  cl_id :: eid
  cl_last_state :: state_id_t
  cl_log :: "byte list list"
  cl_events :: "client_event list"

definition new_client :: client where
  "new_client = \<lparr>cl_open = False, cl_partials = [], cl_out = [], cl_run_sync = False,
     cl_sync_start = 0, cl_recv_time = 0, cl_pings = [], cl_average_ping = 0, cl_server_time = 0,
     cl_id = 0, cl_last_state = 0, cl_log = [], cl_events = []\<rparr>"

definition PING_HISTORY_SIZE :: nat where "PING_HISTORY_SIZE = 10"

type_synonym handler = "message_in \<Rightarrow> client \<Rightarrow> (message_in \<times> client) option"
type_synonym handler_table = "MessageType \<Rightarrow> handler list"

record client_env =
  ce_parse_update :: "message_in \<Rightarrow> rat p_update \<times> message_in"
  ce_parse_entity :: "message_in \<Rightarrow> rat p_entity \<times> message_in"
  ce_from_euler :: "rat \<Rightarrow> rat \<Rightarrow> rat \<Rightarrow> rat quat"
  ce_ser_commands :: "client_commands \<Rightarrow> message_out \<Rightarrow> message_out"

definition RegisterMessageHandler :: "MessageType \<Rightarrow> handler \<Rightarrow> handler_table \<Rightarrow> handler_table" where
  "RegisterMessageHandler t h hs = hs(t := hs t @ [h])"

subsection \<open>Sending and disconnecting\<close>

definition Send_msg :: "message \<Rightarrow> client \<Rightarrow> client" where
  "Send_msg m c = c\<lparr>cl_out := cl_out c @ [m]\<rparr>"

definition Send :: "message_out \<Rightarrow> client \<Rightarrow> client" where
  "Send out c = c\<lparr>cl_out := cl_out c @ fst (GetMessages out)\<rparr>"

definition SendChatMessage :: "string \<Rightarrow> client \<Rightarrow> client" where
  "SendChatMessage s c = (if cl_open c then Send (FromString s (new_out CHAT_MESSAGE)) c else c)"

definition Disconnect :: "client \<Rightarrow> client" where
  "Disconnect c = c\<lparr>cl_run_sync := False, cl_open := False, cl_id := 0\<rparr>"

text \<open>One round of the loop of \<open>StartSync\<close>.\<close>

definition sync_round :: "int \<Rightarrow> client \<Rightarrow> client" where
  "sync_round now c = (let c1 = (if cl_id c \<noteq> 0 then Send_msg (one_byte SYNC) c else c)
     in c1\<lparr>cl_sync_start := now\<rparr>)"

subsection \<open>Handlers\<close>

definition milliseconds :: "int \<Rightarrow> int" where
  "milliseconds ns = ns sdiv 1000000"

text \<open>
  \<open>SyncHandler\<close>. The sum is divided by \<open>PING_HISTORY_SIZE\<close>, which is unsigned, so it is
  converted first; the server's time is copied as the machine stores it.
\<close>

definition SyncHandler :: "message \<Rightarrow> client \<Rightarrow> client" where
  "SyncHandler m c =
     (let round_trip = milliseconds (cl_recv_time c - cl_sync_start c);
          server_time = (if 8 \<le> GetBodyLength m then decode_64 (body_bytes m) 0 else cl_server_time c);
          kept = (if PING_HISTORY_SIZE \<le> length (cl_pings c) then tl (cl_pings c) else cl_pings c);
          pings = kept @ [round_trip sdiv 2];
          average = sint ((word_of_int (sum_list pings) :: u64) div of_nat PING_HISTORY_SIZE)
      in c\<lparr>cl_pings := pings, cl_average_ping := average,
           cl_server_time := server_time + word_of_int average\<rparr>)"

definition GameStateUpdateHandler :: "client_env \<Rightarrow> handler" where
  "GameStateUpdateHandler E msg c =
     (case ce_parse_update E msg of (gsu, msg') \<Rightarrow>
        let recv_state_id = field 0 (pu_state_id gsu) in
        Some (msg', if recv_state_id \<le> cl_last_state c then c
          else c\<lparr>cl_last_state := recv_state_id,
                 cl_events := cl_events c @ [New_Game_State (GameState_In (ce_from_euler E) gsu new_game_state)]\<rparr>))"

definition read_id :: "message_in \<Rightarrow> (eid \<times> message_in) option" where
  "read_id msg = (case ToString msg of
      None \<Rightarrow> None
    | Some (bs, msg') \<Rightarrow> (case atoi (string_of bs) of None \<Rightarrow> None | Some i \<Rightarrow> Some (of_int i, msg')))"

definition ClientIdHandler :: handler where
  "ClientIdHandler msg c = map_option (\<lambda>(i, msg'). (msg', c\<lparr>cl_id := i\<rparr>)) (read_id msg)"

definition DestroyHandler :: handler where
  "DestroyHandler msg c =
     map_option (\<lambda>(i, msg'). (msg', c\<lparr>cl_events := cl_events c @ [Destroyed i]\<rparr>)) (read_id msg)"

definition ChatHandler :: handler where
  "ChatHandler msg c = map_option (\<lambda>(bs, msg'). (msg', c\<lparr>cl_log := cl_log c @ [bs]\<rparr>)) (ToString msg)"

definition CreateHandler :: "client_env \<Rightarrow> handler" where
  "CreateHandler E msg c = (case ce_parse_entity E msg of (e, msg') \<Rightarrow>
     Some (msg', c\<lparr>cl_events := cl_events c @ [Created e]\<rparr>))"

definition WorldSentHandler :: handler where
  "WorldSentHandler msg c = Some (msg, Send (FromString ''ok'' (new_out CLIENT_READY_TO_RECEIVE)) c)"

definition AuthenticatedHandler :: handler where
  "AuthenticatedHandler msg c = Some (msg, Send_msg (one_byte CLIENT_JOIN) c)"

text \<open>The table after the constructor.\<close>

definition constructor_handlers :: "client_env \<Rightarrow> handler_table" where
  "constructor_handlers E =
     RegisterMessageHandler AUTHENTICATED AuthenticatedHandler
       (RegisterMessageHandler WORLD_SENT WorldSentHandler
         (RegisterMessageHandler ENTITY_DESTROY DestroyHandler
           (RegisterMessageHandler ENTITY_CREATE (CreateHandler E)
             (RegisterMessageHandler CLIENT_LEAVE DestroyHandler
               (RegisterMessageHandler CLIENT_ID ClientIdHandler
                 (RegisterMessageHandler CHAT_MESSAGE ChatHandler
                   (RegisterMessageHandler GAME_STATE_UPDATE (GameStateUpdateHandler E) (\<lambda>_. []))))))))"

subsection \<open>Reading\<close>

text \<open>Every handler gets the stream the one before it left, rewound.\<close>

fun run_handlers :: "handler list \<Rightarrow> message_in \<Rightarrow> client \<Rightarrow> client option" where
  "run_handlers [] msg c = Some c"
| "run_handlers (h # hs) msg c = (case h (in_Reset msg) c of
     None \<Rightarrow> None | Some (msg', c') \<Rightarrow> run_handlers hs msg' c')"

definition cl_read_body :: "handler_table \<Rightarrow> message \<Rightarrow> client \<Rightarrow> client option" where
  "cl_read_body hs m c =
     (if message_type m = SYNC then Some (SyncHandler m c)
      else case receive m (cl_partials c) of (r, rm) \<Rightarrow>
        (case r of
           Complete st \<Rightarrow> map_option (\<lambda>c'. c'\<lparr>cl_partials := rm\<rparr>) (run_handlers (hs (in_type st)) st c)
         | _ \<Rightarrow> Some (c\<lparr>cl_partials := rm\<rparr>)))"

text \<open>A fragment whose header was read at the time \<open>now\<close>, and a sequence of fragments.\<close>

definition cl_read :: "handler_table \<Rightarrow> int \<Rightarrow> message \<Rightarrow> client \<Rightarrow> client option" where
  "cl_read hs now m c = cl_read_body hs m (c\<lparr>cl_recv_time := now\<rparr>)"

fun cl_read_all :: "handler_table \<Rightarrow> int \<Rightarrow> message list \<Rightarrow> client \<Rightarrow> client option" where
  "cl_read_all hs now [] c = Some c"
| "cl_read_all hs now (m # ms) c = (case cl_read hs now m c of
     None \<Rightarrow> None | Some c' \<Rightarrow> cl_read_all hs now ms c')"

subsection \<open>Commands\<close>

record game_client =
  gc_camera :: "fps_controller option"
  gc_command_id :: state_id_t
  gc_accumulator :: rat
  gc_conn :: client
  gc_queue :: client_queue

definition COMMAND_RATE :: rat where "COMMAND_RATE = 1 / 30"

definition send_command :: "client_env \<Rightarrow> game_client \<Rightarrow> game_client" where
  "send_command E g = (case gc_camera g of
      None \<Rightarrow> g
    | Some camera \<Rightarrow>
        (case GetClientCommands camera of (cmds, camera') \<Rightarrow>
           let cmds1 = cmds\<lparr>cc_commandID := gc_command_id g, cc_lastStateID := Some (cl_last_state (gc_conn g))\<rparr>;
               next_id = gc_command_id g + 1
           in g\<lparr>gc_camera := Some camera', gc_command_id := next_id,
                gc_conn := Send (ce_ser_commands E cmds1 (new_out CLIENT_COMMAND)) (gc_conn g),
                gc_queue := SetCommandID next_id (gc_queue g)\<rparr>))"

lemma send_command_accumulator [simp]: "gc_accumulator (send_command E g) = gc_accumulator g"
  by (simp add: send_command_def Let_def split: option.split prod.split)

function send_commands :: "client_env \<Rightarrow> game_client \<Rightarrow> game_client" where
  "send_commands E g =
     (if COMMAND_RATE \<le> gc_accumulator g
      then (let g1 = send_command E g in
            send_commands E (g1\<lparr>gc_accumulator := gc_accumulator g1 - COMMAND_RATE\<rparr>))
      else g)"
  by pat_completeness auto

termination
proof (relation "measure (\<lambda>(E, g). nat \<lfloor>gc_accumulator g * 30\<rfloor>)")
  fix E :: client_env and g g1
  assume g: "COMMAND_RATE \<le> gc_accumulator g" and g1: "g1 = send_command E g"
  have "gc_accumulator (g1\<lparr>gc_accumulator := gc_accumulator g1 - COMMAND_RATE\<rparr>) * 30 = gc_accumulator g * 30 - 1"
    by (simp add: g1 COMMAND_RATE_def algebra_simps)
  moreover have "1 \<le> \<lfloor>gc_accumulator g * 30\<rfloor>"
    using g by (simp add: COMMAND_RATE_def le_floor_iff)
  ultimately show "((E, g1\<lparr>gc_accumulator := gc_accumulator g1 - COMMAND_RATE\<rparr>), E, g)
      \<in> measure (\<lambda>(E, g). nat \<lfloor>gc_accumulator g * 30\<rfloor>)"
    by simp
qed simp

declare send_commands.simps [simp del]

text \<open>The part of a frame that sends commands.\<close>

definition frame_update :: "client_env \<Rightarrow> rat \<Rightarrow> game_client \<Rightarrow> game_client" where
  "frame_update E delta g = send_commands E (g\<lparr>gc_accumulator := gc_accumulator g + delta\<rparr>)"

subsection \<open>Game states\<close>

text \<open>The identifiers of the states the client has handed on.\<close>

definition emitted_ids :: "client \<Rightarrow> state_id_t list" where
  "emitted_ids c = concat (map (\<lambda>e. case e of New_Game_State s \<Rightarrow> [state_id s] | _ \<Rightarrow> []) (cl_events c))"

text \<open>What the connection goes through, with only the handlers of its constructor.\<close>

inductive client_reach :: "client_env \<Rightarrow> client \<Rightarrow> bool" for E where
  Fresh: "client_reach E new_client"
| Connected: "client_reach E c \<Longrightarrow> client_reach E (c\<lparr>cl_open := True, cl_run_sync := True\<rparr>)"
| Disconnected: "client_reach E c \<Longrightarrow> client_reach E (Disconnect c)"
| Chatted: "client_reach E c \<Longrightarrow> client_reach E (SendChatMessage s c)"
| Sent: "client_reach E c \<Longrightarrow> client_reach E (Send out c)"
| Synced: "client_reach E c \<Longrightarrow> client_reach E (sync_round now c)"
| Received: "client_reach E c \<Longrightarrow> cl_read (constructor_handlers E) now m c = Some c' \<Longrightarrow> client_reach E c'"

definition ids_increase :: "client \<Rightarrow> bool" where
  "ids_increase c \<longleftrightarrow> sorted_wrt (<) (emitted_ids c) \<and> (\<forall>i \<in> set (emitted_ids c). i \<le> cl_last_state c)"

lemma ids_increase_frame:
  "ids_increase (c\<lparr>cl_open := b, cl_run_sync := r\<rparr>) = ids_increase c"
  "ids_increase (c\<lparr>cl_partials := p\<rparr>) = ids_increase c"
  "ids_increase (c\<lparr>cl_recv_time := n\<rparr>) = ids_increase c"
  "ids_increase (Disconnect c) = ids_increase c"
  "ids_increase (Send_msg m c) = ids_increase c"
  "ids_increase (Send out c) = ids_increase c"
  "ids_increase (SendChatMessage s c) = ids_increase c"
  "ids_increase (sync_round now c) = ids_increase c"
  "ids_increase (SyncHandler m c) = ids_increase c"
  by (simp_all add: ids_increase_def emitted_ids_def Disconnect_def Send_msg_def Send_def
      SendChatMessage_def sync_round_def SyncHandler_def Let_def)

text \<open>Handlers that keep the order.\<close>

definition keeps_ids :: "handler \<Rightarrow> bool" where
  "keeps_ids h \<longleftrightarrow> (\<forall>msg c msg' c'. ids_increase c \<longrightarrow> h msg c = Some (msg', c') \<longrightarrow> ids_increase c')"

lemma state_id_GameState_In [simp]: "state_id (GameState_In c3 gsu gs) = field 0 (pu_state_id gsu)"
proof -
  have "state_id (fold (store_component c3 i) cs g) = state_id g" for i cs g
    by (induction cs arbitrary: g) simp_all
  then have e: "state_id (store_entity c3 e g) = state_id g" for e g
    by (simp add: store_entity_def)
  have "state_id (fold (store_entity c3) es g) = state_id g" for es g
    by (induction es arbitrary: g) (simp_all add: e)
  then show ?thesis
    by (simp add: GameState_In_def)
qed

lemma keeps_ids_update: "keeps_ids (GameStateUpdateHandler E)"
  by (auto simp: keeps_ids_def GameStateUpdateHandler_def ids_increase_def emitted_ids_def Let_def
      sorted_wrt_append split: prod.splits if_splits)

lemma keeps_ids_others:
  "keeps_ids ClientIdHandler" "keeps_ids DestroyHandler" "keeps_ids ChatHandler"
  "keeps_ids (CreateHandler E)" "keeps_ids WorldSentHandler" "keeps_ids AuthenticatedHandler"
  by (auto simp: keeps_ids_def ClientIdHandler_def DestroyHandler_def ChatHandler_def CreateHandler_def
      WorldSentHandler_def AuthenticatedHandler_def ids_increase_def emitted_ids_def Send_def Send_msg_def
      split: prod.splits)

lemma registered_handlers:
  assumes "\<And>t. \<forall>h \<in> set (hs t). P h" and "P h"
  shows "\<forall>h' \<in> set (RegisterMessageHandler t h hs u). P h'"
  using assms by (simp add: RegisterMessageHandler_def)

lemma constructor_keeps_ids: "\<forall>h \<in> set (constructor_handlers E t). keeps_ids h"
  unfolding constructor_handlers_def
  by (intro registered_handlers keeps_ids_update keeps_ids_others) simp

lemma run_handlers_keeps_ids:
  "\<forall>h \<in> set hs. keeps_ids h \<Longrightarrow> ids_increase c \<Longrightarrow> run_handlers hs msg c = Some c' \<Longrightarrow> ids_increase c'"
proof (induction hs arbitrary: msg c)
  case (Cons h hs)
  obtain msg1 c1 where h: "h (in_Reset msg) c = Some (msg1, c1)"
    using Cons.prems(3) by (auto split: option.splits)
  then have "ids_increase c1"
    using Cons.prems(1,2) by (auto simp: keeps_ids_def)
  then show ?case
    using Cons.IH Cons.prems(1,3) h by simp
qed simp

lemma cl_read_keeps_ids:
  assumes "ids_increase c" and "cl_read (constructor_handlers E) now m c = Some c'"
  shows "ids_increase c'"
proof -
  let ?c = "c\<lparr>cl_recv_time := now\<rparr>"
  have c: "ids_increase ?c"
    using assms(1) by (simp add: ids_increase_frame)
  have run: "ids_increase d" if "run_handlers (constructor_handlers E t) st ?c = Some d" for t st d
    by (rule run_handlers_keeps_ids [OF constructor_keeps_ids c that])
  show ?thesis
    using assms(2) c run
    by (auto simp: cl_read_def cl_read_body_def ids_increase_frame split: if_splits prod.splits outcome.splits)
qed

lemma client_reach_ids: "client_reach E c \<Longrightarrow> ids_increase c"
proof (induction rule: client_reach.induct)
  case Fresh
  then show ?case by (simp add: ids_increase_def emitted_ids_def new_client_def)
next
  case (Received c now m c')
  then show ?case using cl_read_keeps_ids by blast
qed (simp_all add: ids_increase_frame)

text \<open>The states a client hands on have strictly increasing identifiers, none above the last one
  received, whatever fragments arrive and however often it disconnects: after connecting to
  another server, every state is dropped until that server's identifiers pass those of the
  session before.\<close>

theorem states_strictly_newer:
  assumes "client_reach E c"
  shows "sorted_wrt (<) (emitted_ids c) \<and> (\<forall>i \<in> set (emitted_ids c). i \<le> cl_last_state c)
    \<and> cl_last_state (Disconnect c) = cl_last_state c"
  using client_reach_ids [OF assms] by (simp add: ids_increase_def Disconnect_def)

subsection \<open>Reading a whole message\<close>

lemma cl_read_part:
  "message_type m = MULTI_PART \<Longrightarrow>
     cl_read hs now m c = Some (c\<lparr>cl_partials := snd (receive m (cl_partials c)), cl_recv_time := now\<rparr>)"
  by (simp add: cl_read_def cl_read_body_def receive_def Let_def message_type_defs split: option.split)

lemma cl_read_parts:
  "\<forall>m \<in> set ms. message_type m = MULTI_PART \<Longrightarrow> ms \<noteq> [] \<Longrightarrow>
     cl_read_all hs now ms c = Some (c\<lparr>cl_partials := snd (receive_all ms (cl_partials c)), cl_recv_time := now\<rparr>)"
proof (induction ms arbitrary: c)
  case (Cons m ms)
  show ?case
  proof (cases "ms = []")
    case True
    then show ?thesis using Cons.prems by (simp add: cl_read_part split_beta)
  next
    case False
    then show ?thesis using Cons by (simp add: cl_read_part split_beta)
  qed
qed simp

lemma cl_read_all_append:
  "cl_read_all hs now (ms @ ns) c = Option.bind (cl_read_all hs now ms c) (cl_read_all hs now ns)"
  by (induction ms arbitrary: c) (simp_all split: option.split)

lemma length_receive_all: "length (fst (receive_all ms rm)) = length ms"
  by (induction ms arbitrary: rm) (simp_all add: split_beta)

text \<open>The fragments of one message run the handlers of its type on its stream.\<close>

abbreviation stream_of :: "MessageType \<Rightarrow> message list \<Rightarrow> message_in" where
  "stream_of t ms \<equiv> (new_in CHAT_MESSAGE)\<lparr>in_list := ms, in_type := t\<rparr>"

lemma cl_read_all_message:
  assumes ms: "sent_as (t, body) ms" and t: "t \<noteq> SYNC"
    and c: "wf_omap (cl_partials c)" "map_of (cl_partials c) 0 = None"
  obtains rm where "cl_read_all hs now ms c = map_option (\<lambda>c'. c'\<lparr>cl_partials := cl_partials c\<rparr>)
    (run_handlers (hs t) (stream_of t ms) (c\<lparr>cl_partials := rm, cl_recv_time := now\<rparr>))"
proof -
  have complete: "Net_Roundtrip.complete ms" and ids: "\<forall>m \<in> set ms. message_id m = 0" and last: "message_type (last ms) = t"
    using ms by (auto simp: sent_as_def)
  obtain ns m where split: "ms = ns @ [m]" and ns: "\<forall>n \<in> set ns. message_type n = MULTI_PART"
    and m: "message_type m \<noteq> MULTI_PART"
    using complete_ids [OF complete] .
  obtain rs rm where parts: "receive_all ns (cl_partials c) = (rs, rm)"
    by (metis prod.exhaust)
  have "length rs = length ns"
    using length_receive_all [of ns "cl_partials c"] parts by simp
  then have m': "receive m rm = (Complete (stream_of t ms), cl_partials c)"
    using receive_all_complete [OF complete ids c] last
    by (auto simp: split receive_all_append parts split: prod.splits)
  have end_read: "cl_read hs now m d = map_option (\<lambda>c'. c'\<lparr>cl_partials := cl_partials c\<rparr>)
      (run_handlers (hs t) (stream_of t ms) (d\<lparr>cl_recv_time := now\<rparr>))" if "cl_partials d = rm" for d
    using m' last t m that by (simp add: cl_read_def cl_read_body_def split)
  have "cl_read_all hs now ms c = map_option (\<lambda>c'. c'\<lparr>cl_partials := cl_partials c\<rparr>)
    (run_handlers (hs t) (stream_of t ms) (c\<lparr>cl_partials := rm, cl_recv_time := now\<rparr>))"
  proof (cases "ns = []")
    case True
    then have "rm = cl_partials c" using parts by simp
    then show ?thesis using end_read [of c] True by (simp add: split split: option.split)
  next
    case False
    then show ?thesis
      using cl_read_parts [OF ns False, of hs now c] parts
        end_read [of "c\<lparr>cl_partials := rm, cl_recv_time := now\<rparr>"]
      by (simp add: split cl_read_all_append split: option.split)
  qed
  then show ?thesis by (rule that)
qed

lemma in_Reset_stream_of [simp]: "in_Reset (stream_of t ms) = stream_of t ms"
  by (simp add: in_Reset_def new_in_def)

lemma read_id_sent:
  assumes "sent_as (t, bytes_of (to_string n)) ms" and "int n \<le> INT_MAX"
  shows "\<exists>st. read_id (stream_of t ms) = Some (of_nat n, st)"
  using sent_as_stream [OF assms(1)] assms(2) by (auto simp: read_id_def atoi_to_string)

text \<open>The fragments of one byte that log in, join and ask for the time.\<close>

lemma one_byte_fields [simp]:
  "message_type (one_byte t) = t" "message_id (one_byte t) = 0" "sequence_number (one_byte t) = 0"
  "GetBodyLength (one_byte t) = 1"
  by (simp_all add: one_byte_def encode_header_def SetBodyLength_def Let_def pool_get_def new_message_def
      GetBodyLength_def max_body_length_def)

lemma receive_one_byte:
  assumes "t \<noteq> MULTI_PART" and "map_of rm 0 = None"
  shows "receive (one_byte t) rm = (Complete (stream_of t [one_byte t]), rm)"
  using assms by (simp add: receive_def Let_def PushMessage_def DecodeMessages_def new_in_def)

lemma cl_read_one_byte:
  assumes "t \<noteq> SYNC" and "t \<noteq> MULTI_PART" and "map_of (cl_partials c) 0 = None"
  shows "cl_read hs now (one_byte t) c = map_option (\<lambda>c'. c'\<lparr>cl_partials := cl_partials c\<rparr>)
     (run_handlers (hs t) (stream_of t [one_byte t]) (c\<lparr>cl_recv_time := now\<rparr>))"
  using assms by (simp add: cl_read_def cl_read_body_def receive_one_byte)

subsection \<open>Logging in\<close>

lemma constructor_handlers_at:
  "constructor_handlers E AUTHENTICATED = [AuthenticatedHandler]"
  "constructor_handlers E CLIENT_ID = [ClientIdHandler]"
  "constructor_handlers E GAME_STATE_UPDATE = [GameStateUpdateHandler E]"
  by (simp_all add: constructor_handlers_def RegisterMessageHandler_def message_type_defs)

lemma to_string_bytes: "bytes_of (to_string n) \<noteq> []"
  by simp

text \<open>The server's side: a connection with a user joins.\<close>

lemma join_message:
  assumes "cn_user (sv_conns sv k) = Some u" and "u < length (sv_users sv)" and "distinct (sv_clients sv)"
    and "map_of (cn_partials (sv_conns sv k)) 0 = None"
  shows "\<exists>sv1. read_body SE now k (one_byte CLIENT_JOIN) sv = Some sv1
    \<and> u_entity_id (sv_users sv1 ! u) = wd_next_id (sv_world sv)
    \<and> out_of k sv1 = out_of k sv
        @ fst (GetMessages (FromString (to_string (unat (wd_next_id (sv_world sv)))) (new_out CLIENT_ID)))
        @ (if k \<in> set (sv_clients sv)
           then fst (GetMessages (FromString (to_string (unat (wd_next_id (sv_world sv)))) (new_out CLIENT_JOIN)))
           else [])"
proof -
  let ?i = "wd_next_id (sv_world sv)"
  obtain user w es where a: "AddEntityToWorld (env_shapes SE) (sv_next_addr sv) (sv_world sv) (sv_users sv ! u)
      = (user, w, es)"
    by (metis prod.exhaust)
  then have user: "u_entity_id user = ?i"
    by (auto simp: AddEntityToWorld_def GetNextEntityId_def Let_def)
  let ?sv1 = "emit (map World_Event es) (set_user u user (sv\<lparr>sv_world := w, sv_next_addr := sv_next_addr sv + 1\<rparr>))"
  let ?id = "FromString (to_string (unat ?i)) (new_out CLIENT_ID)"
  let ?join = "FromString (to_string (unat ?i)) (new_out CLIENT_JOIN)"
  let ?sv2 = "DeliverTo k ?id ?sv1"
  have join: "OnJoinWorld SE k sv = Deliver ?join False ?sv2"
    using assms(1) user by (simp add: OnJoinWorld_def a Let_def)
  have base: "sv_clients ?sv1 = sv_clients sv" "out_of k ?sv1 = out_of k sv" "sv_users ?sv1 ! u = user"
    using assms(2) by (simp_all add: emit_def set_user_def)
  note d = DeliverTo_result [where out = ?id and k = k and sv = ?sv1]
  have "distinct (sv_clients ?sv2)"
    using assms(3) base(1) same_but_out_fields(1) [OF d(2)] by simp
  note r = Deliver_result [OF this, where out = ?join and r = False]
  have users: "sv_users (Deliver ?join False ?sv2) ! u = user"
    using same_but_out_fields(4) [OF r(3)] same_but_out_fields(4) [OF d(2)] base(3) by simp
  have read: "read_body SE now k (one_byte CLIENT_JOIN) sv
      = Some (on_conn k (\<lambda>c. c\<lparr>cn_partials := cn_partials (sv_conns sv k)\<rparr>) (OnJoinWorld SE k sv))"
    using receive_one_byte [OF _ assms(4), of CLIENT_JOIN]
    by (simp add: read_body_def process_message_def message_type_defs)
  show ?thesis
    using r(1) [of k] d(1) [of k] same_but_out_fields(1) [OF d(2)] base users user
    by (simp add: read join on_conn_def)
qed

text \<open>C2: Joining. A client that is told it is authenticated asks to join; the server gives the
  connection's user a new entity and queues its identifier for the client; when the client
  has read the fragments of that message, its client identifier is the identifier of the
  user's entity (which must be in the range of \<open>int\<close>, through which it is read).\<close>

theorem login_handshake:
  assumes "cn_user (sv_conns sv k) = Some u" and "u < length (sv_users sv)" and "distinct (sv_clients sv)"
    and "map_of (cn_partials (sv_conns sv k)) 0 = None"
    and "wf_omap (cl_partials c)" and "map_of (cl_partials c) 0 = None"
    and "unat (wd_next_id (sv_world sv)) \<le> 2147483647"
  shows "\<exists>c1 sv1 ids rest c2.
     cl_read (constructor_handlers E) t1 (one_byte AUTHENTICATED) c = Some c1
     \<and> cl_out c1 = cl_out c @ [one_byte CLIENT_JOIN]
     \<and> read_body SE t2 k (one_byte CLIENT_JOIN) sv = Some sv1
     \<and> out_of k sv1 = out_of k sv @ ids @ rest
     \<and> cl_read_all (constructor_handlers E) t3 ids c1 = Some c2
     \<and> cl_id c2 = u_entity_id (sv_users sv1 ! u) \<and> cl_id c2 = wd_next_id (sv_world sv)"
proof -
  let ?n = "unat (wd_next_id (sv_world sv))"
  let ?ids = "fst (GetMessages (FromString (to_string ?n) (new_out CLIENT_ID)))"
  let ?c1 = "Send_msg (one_byte CLIENT_JOIN) (c\<lparr>cl_recv_time := t1\<rparr>)"
  have c1: "cl_read (constructor_handlers E) t1 (one_byte AUTHENTICATED) c = Some ?c1"
    using assms(6)
    by (subst cl_read_one_byte)
      (simp_all add: message_type_defs constructor_handlers_at [unfolded message_type_defs] AuthenticatedHandler_def Send_msg_def)
  have out: "cl_out ?c1 = cl_out c @ [one_byte CLIENT_JOIN]"
    by (simp add: Send_msg_def)
  obtain sv1 rest where sv1: "read_body SE t2 k (one_byte CLIENT_JOIN) sv = Some sv1"
    "u_entity_id (sv_users sv1 ! u) = wd_next_id (sv_world sv)" "out_of k sv1 = out_of k sv @ ?ids @ rest"
    using join_message [OF assms(1-4), of SE t2] by blast
  have sent: "sent_as (CLIENT_ID, bytes_of (to_string ?n)) ?ids"
    using wire_one(1) [OF to_string_bytes] by (simp add: FromString_def message_type_defs)
  have parts: "wf_omap (cl_partials ?c1)" "map_of (cl_partials ?c1) 0 = None"
    using assms(5,6) by (simp_all add: Send_msg_def)
  have "int ?n \<le> INT_MAX"
    unfolding INT_MAX_def using assms(7) by linarith
  from read_id_sent [OF sent this]
  obtain st where st: "read_id (stream_of CLIENT_ID ?ids) = Some (wd_next_id (sv_world sv), st)"
    by auto
  obtain rm where "cl_read_all (constructor_handlers E) t3 ?ids ?c1 = map_option (\<lambda>c'. c'\<lparr>cl_partials := cl_partials ?c1\<rparr>)
    (run_handlers (constructor_handlers E CLIENT_ID) (stream_of CLIENT_ID ?ids) (?c1\<lparr>cl_partials := rm, cl_recv_time := t3\<rparr>))"
    by (rule cl_read_all_message [OF sent _ parts]) (simp add: message_type_defs)
  then have "\<exists>c2. cl_read_all (constructor_handlers E) t3 ?ids ?c1 = Some c2 \<and> cl_id c2 = wd_next_id (sv_world sv)"
    by (simp add: constructor_handlers_at ClientIdHandler_def st)
  then show ?thesis
    using c1 out sv1 by metis
qed

theorem login_handshake_witness:
  "\<forall>E SE. \<exists>c1 sv1 ids rest c2.
     cl_read (constructor_handlers E) 0 (one_byte AUTHENTICATED) new_client = Some c1
     \<and> cl_out c1 = [one_byte CLIENT_JOIN]
     \<and> read_body SE 0 1 (one_byte CLIENT_JOIN) busy_server = Some sv1
     \<and> out_of 1 sv1 = ids @ rest
     \<and> cl_read_all (constructor_handlers E) 0 ids c1 = Some c2
     \<and> cl_id c2 = u_entity_id (sv_users sv1 ! 0) \<and> cl_id c2 = 10001"
  using login_handshake [of busy_server 1 0 new_client _ 0 _ 0 0]
  by (simp add: busy_server_def new_conn_def new_client_def wf_omap_def om_keys_def)

definition update_five :: client_env where
  "update_five = \<lparr>ce_parse_update = (\<lambda>m. (new_update\<lparr>pu_state_id := Some 5\<rparr>, m)),
     ce_parse_entity = (\<lambda>m. (\<lparr>pe_id = 0, pe_components = []\<rparr>, m)),
     ce_from_euler = (\<lambda>x y z. \<lparr>qw = 1, qx = 0, qy = 0, qz = 0\<rparr>),
     ce_ser_commands = (\<lambda>cmds out. FromBuffer [1] out)\<rparr>"

theorem states_strictly_newer_witness:
  "\<exists>c. emitted_ids c = [5] \<and> sorted_wrt (<) (emitted_ids c) \<and> cl_last_state (Disconnect c) = 5"
proof -
  obtain c where c: "cl_read (constructor_handlers update_five) 0 (one_byte GAME_STATE_UPDATE) new_client = Some c"
    "emitted_ids c = [5]" "cl_last_state c = 5"
    by (subst (asm) cl_read_one_byte)
      (simp_all add: message_type_defs constructor_handlers_at [unfolded message_type_defs] GameStateUpdateHandler_def
        update_five_def new_client_def emitted_ids_def)
  have "client_reach update_five c"
    by (rule client_reach.Received [OF client_reach.Fresh c(1)])
  from states_strictly_newer [OF this] c show ?thesis by auto
qed

subsection \<open>Pings\<close>

text \<open>Answers to \<open>SYNC\<close> that arrive at \<open>t\<close> while the last round of \<open>StartSync\<close> was at \<open>s\<close>.\<close>

fun answers :: "message \<Rightarrow> (int \<times> int) list \<Rightarrow> client \<Rightarrow> client" where
  "answers m [] c = c"
| "answers m ((s, t) # sts) c = answers m sts (SyncHandler m (c\<lparr>cl_sync_start := s, cl_recv_time := t\<rparr>))"

definition half_trip :: "int \<times> int \<Rightarrow> int" where
  "half_trip st = (snd st - fst st) div 2000000"

lemma half_trip_sdiv: "s \<le> t \<Longrightarrow> milliseconds (t - s) sdiv 2 = half_trip (s, t)"
  by (simp add: milliseconds_def half_trip_def signed_divide_int_def zdiv_zmult2_eq [symmetric] sgn_if pos_imp_zdiv_nonneg_iff)

lemma answers_append: "answers m (xs @ ys) c = answers m ys (answers m xs c)"
  by (induction m xs c rule: answers.induct) simp_all

lemma keep_last_ten:
  assumes "k = drop (length xs - 10) xs"
  shows "(if 10 \<le> length k then tl k else k) @ [y] = drop (length (xs @ [y]) - 10) (xs @ [y])"
proof (cases "10 \<le> length xs")
  case True
  then have "Suc (length xs - 10) = length (xs @ [y]) - 10" by simp
  then show ?thesis using True by (simp add: assms tl_drop drop_Suc [symmetric] del: length_append)
qed (simp add: assms)

lemma SyncHandler_fields:
  "cl_pings (SyncHandler m c) = (if 10 \<le> length (cl_pings c) then tl (cl_pings c) else cl_pings c)
     @ [milliseconds (cl_recv_time c - cl_sync_start c) sdiv 2]"
  "cl_average_ping (SyncHandler m c) = sint ((word_of_int (sum_list (cl_pings (SyncHandler m c))) :: u64) div 10)"
  by (simp_all add: SyncHandler_def Let_def PING_HISTORY_SIZE_def)

lemma average_word:
  assumes "0 \<le> s" and "s < 2 ^ 63"
  shows "sint ((word_of_int s :: u64) div 10) = s div 10"
proof -
  have "uint ((word_of_int s :: u64) div 10) = s div 10"
    using assms by (simp add: uint_div uint_word_of_int)
  moreover have "s div 10 < 2 ^ 63" "- (2 ^ 63) \<le> s div 10"
    using assms by simp_all
  ultimately show ?thesis
    by (simp add: sint_uint signed_take_bit_int_eq_self)
qed

lemma sum_list_bounded:
  fixes xs :: "int list"
  assumes "\<forall>x \<in> set xs. 0 \<le> x \<and> x < b" and "length xs \<le> n" and "0 < b"
  shows "0 \<le> sum_list xs \<and> sum_list xs \<le> int n * b"
  using assms
proof (induction xs arbitrary: n)
  case (Cons x xs)
  then obtain n' where "n = Suc n'" by (cases n) auto
  with Cons show ?case by (auto simp: algebra_simps intro: add_mono dest!: Cons.IH [of n'])
qed simp

text \<open>The recent pings are half the round trips of the last ten answers, each measured from the
  latest round of the sync loop, and the average is their sum divided by ten: with fewer
  than ten answers it is too small, as if the missing pings were 0.\<close>

theorem SyncHandler_pings:
  assumes "\<forall>st \<in> set sts. fst st \<le> snd st \<and> snd st - fst st < 2 ^ 60"
  shows "cl_pings (answers m sts new_client) = drop (length sts - 10) (map half_trip sts)
    \<and> cl_average_ping (answers m sts new_client) = sum_list (drop (length sts - 10) (map half_trip sts)) div 10"
  using assms
proof (induction sts rule: rev_induct)
  case Nil
  show ?case by (simp add: new_client_def)
next
  case (snoc x sts)
  obtain s t where x: "x = (s, t)" by (cases x)
  let ?ps = "drop (length (sts @ [x]) - 10) (map half_trip (sts @ [x]))"
  have pings: "cl_pings (answers m sts new_client) = drop (length sts - 10) (map half_trip sts)"
    using snoc by simp
  have trip: "milliseconds (t - s) sdiv 2 = half_trip x"
    using snoc.prems by (simp add: x half_trip_sdiv)
  have new: "(if 10 \<le> length (cl_pings (answers m sts new_client)) then tl (cl_pings (answers m sts new_client))
      else cl_pings (answers m sts new_client)) @ [half_trip x] = ?ps"
    using keep_last_ten [of _ "map half_trip sts" "half_trip x"]
    by (auto simp: pings split: if_splits)
  have "0 \<le> half_trip y \<and> half_trip y < 2 ^ 59" if "y \<in> set (sts @ [x])" for y
  proof -
    have "0 \<le> snd y - fst y \<and> snd y - fst y < 2 ^ 60" using snoc.prems that by auto
    then show ?thesis by (simp add: half_trip_def pos_imp_zdiv_nonneg_iff) linarith
  qed
  then have "\<forall>p \<in> set ?ps. 0 \<le> p \<and> p < 2 ^ 59"
    by (metis (no_types, lifting) in_set_dropD list.set_map imageE)
  then have "0 \<le> sum_list ?ps \<and> sum_list ?ps \<le> int 10 * 2 ^ 59"
    by (rule sum_list_bounded) simp_all
  then have "sint ((word_of_int (sum_list ?ps) :: u64) div 10) = sum_list ?ps div 10"
    by (intro average_word) simp_all
  moreover let ?c = "(answers m sts new_client)\<lparr>cl_sync_start := s, cl_recv_time := t\<rparr>"
  have "cl_pings (SyncHandler m ?c) = ?ps"
    using new trip by (simp add: SyncHandler_fields(1) split: if_splits)
  ultimately show ?case
    by (simp only: answers_append x answers.simps SyncHandler_fields(2))
qed

theorem SyncHandler_pings_witness:
  "cl_pings (answers (one_byte SYNC) [(0, 40000000), (200000000, 250000000)] new_client) = [20, 25]
   \<and> cl_average_ping (answers (one_byte SYNC) [(0, 40000000), (200000000, 250000000)] new_client) = 4"
  using SyncHandler_pings [of "[(0, 40000000), (200000000, 250000000)]" "one_byte SYNC"]
  by (simp add: half_trip_def)

subsection \<open>The commands of a frame\<close>

definition numbered_command :: "fps_controller \<Rightarrow> state_id_t \<Rightarrow> state_id_t \<Rightarrow> client_commands" where
  "numbered_command camera i st = (fst (GetClientCommands camera))\<lparr>cc_commandID := i, cc_lastStateID := Some st\<rparr>"

fun frame_commands :: "fps_controller \<Rightarrow> state_id_t \<Rightarrow> state_id_t \<Rightarrow> nat \<Rightarrow> client_commands list" where
  "frame_commands camera i st 0 = []"
| "frame_commands camera i st (Suc n) =
     numbered_command camera i st # frame_commands (snd (GetClientCommands camera)) (i + 1) st n"

definition no_movement :: p_movement where
  "no_movement = \<lparr>pm_forward = Some False, pm_backward = Some False, pm_leftStrafe = Some False,
     pm_rightStrafe = Some False\<rparr>"

lemma length_frame_commands [simp]: "length (frame_commands camera i st n) = n"
  by (induction n arbitrary: camera i) simp_all

lemma frame_commands_nth:
  "j < n \<Longrightarrow> cc_commandID (frame_commands camera i st n ! j) = i + of_nat j
     \<and> cc_lastStateID (frame_commands camera i st n ! j) = Some st"
  by (induction n arbitrary: camera i j)
    (auto simp: numbered_command_def less_Suc_eq_0_disj)

lemma still_commands:
  assumes "\<not> forward camera" "\<not> backward camera" "\<not> left_strafe camera" "\<not> right_strafe camera"
  shows "\<forall>cmd \<in> set (frame_commands camera i st n). cc_movement cmd = Some no_movement"
  using assms
proof (induction n arbitrary: camera i)
  case (Suc n)
  then show ?case
    using Suc.IH [of "snd (GetClientCommands camera)" "i + 1"]
    by (simp add: numbered_command_def GetClientCommands_def no_movement_def)
qed simp

lemma later_commands:
  "\<forall>cmd \<in> set (tl (frame_commands camera i st n)). cc_movement cmd = Some no_movement"
proof (cases n)
  case (Suc k)
  then show ?thesis
    using still_commands [of "snd (GetClientCommands camera)" "i + 1" st k]
    by (simp add: GetClientCommands_def)
qed simp

abbreviation command_stream :: "client_env \<Rightarrow> client_commands \<Rightarrow> message list" where
  "command_stream E cmd \<equiv> fst (GetMessages (ce_ser_commands E cmd (new_out CLIENT_COMMAND)))"

lemma send_commands_result:
  assumes "gc_camera g = Some camera" and "nat \<lfloor>gc_accumulator g * 30\<rfloor> = n" and "0 \<le> gc_accumulator g"
  shows "cl_out (gc_conn (send_commands E g)) = cl_out (gc_conn g) @ concat (map (command_stream E)
      (frame_commands camera (gc_command_id g) (cl_last_state (gc_conn g)) n))
    \<and> gc_command_id (send_commands E g) = gc_command_id g + of_nat n
    \<and> 0 \<le> gc_accumulator (send_commands E g) \<and> gc_accumulator (send_commands E g) < COMMAND_RATE"
  using assms
proof (induction n arbitrary: g camera)
  case 0
  then have "gc_accumulator g * 30 < 1" by linarith
  then show ?case
    using 0 by (subst (1 2 3 4) send_commands.simps) (simp add: COMMAND_RATE_def)
next
  case (Suc n)
  let ?g = "(send_command E g)\<lparr>gc_accumulator := gc_accumulator g - COMMAND_RATE\<rparr>"
  have le: "1 \<le> gc_accumulator g * 30"
    using Suc.prems(2) by linarith
  then have step: "send_commands E g = send_commands E ?g"
    by (subst send_commands.simps) (simp add: COMMAND_RATE_def Let_def)
  have "gc_accumulator ?g * 30 = gc_accumulator g * 30 - 1"
    by (simp add: COMMAND_RATE_def algebra_simps)
  then have "nat \<lfloor>gc_accumulator ?g * 30\<rfloor> = n" "0 \<le> gc_accumulator ?g"
    using Suc.prems(2) le by linarith+
  moreover have "gc_camera ?g = Some (snd (GetClientCommands camera))"
    "gc_command_id ?g = gc_command_id g + 1" "cl_last_state (gc_conn ?g) = cl_last_state (gc_conn g)"
    "cl_out (gc_conn ?g) = cl_out (gc_conn g)
       @ command_stream E (numbered_command camera (gc_command_id g) (cl_last_state (gc_conn g)))"
    using Suc.prems(1)
    by (simp_all add: send_command_def Let_def Send_def numbered_command_def split: prod.split)
  ultimately show ?case
    using Suc.IH [of ?g "snd (GetClientCommands camera)"] by (simp add: step add_ac)
qed

text \<open>A frame sends one command per thirtieth of a second that has accumulated, with consecutive
  numbers and the identifier of the last state received; only the first carries the
  movement of the controller, all others ask for no movement, because reading the commands
  resets the flags; what is left over is less than a thirtieth.\<close>

theorem commands_of_frame:
  assumes "gc_camera g = Some camera" and "0 \<le> gc_accumulator g + delta"
  shows "\<exists>cmds. cl_out (gc_conn (frame_update E delta g)) = cl_out (gc_conn g) @ concat (map (command_stream E) cmds)
    \<and> length cmds = nat \<lfloor>(gc_accumulator g + delta) * 30\<rfloor>
    \<and> (\<forall>j < length cmds. cc_commandID (cmds ! j) = gc_command_id g + of_nat j
         \<and> cc_lastStateID (cmds ! j) = Some (cl_last_state (gc_conn g)))
    \<and> (\<forall>cmd \<in> set (take 1 cmds). cc_movement cmd = cc_movement (fst (GetClientCommands camera)))
    \<and> (\<forall>cmd \<in> set (drop 1 cmds). cc_movement cmd = Some no_movement)
    \<and> 0 \<le> gc_accumulator (frame_update E delta g) \<and> gc_accumulator (frame_update E delta g) < 1 / 30"
proof -
  let ?n = "nat \<lfloor>(gc_accumulator g + delta) * 30\<rfloor>"
  let ?cmds = "frame_commands camera (gc_command_id g) (cl_last_state (gc_conn g)) ?n"
  have "\<forall>cmd \<in> set (take 1 ?cmds). cc_movement cmd = cc_movement (fst (GetClientCommands camera))"
    by (cases ?n) (simp_all add: numbered_command_def)
  moreover have "drop 1 ?cmds = tl ?cmds"
    by (simp add: drop_Suc)
  ultimately show ?thesis
    using send_commands_result [of "g\<lparr>gc_accumulator := gc_accumulator g + delta\<rparr>" camera ?n E] assms
      frame_commands_nth [of _ ?n camera "gc_command_id g" "cl_last_state (gc_conn g)"]
      later_commands [of camera "gc_command_id g" "cl_last_state (gc_conn g)" ?n]
    by (intro exI [of _ ?cmds]) (simp add: frame_update_def COMMAND_RATE_def)
qed

text \<open>A client whose frame takes a fifteenth of a second or more stops its player: when the
  server has applied the commands of such a frame, its controller moves in no direction,
  whichever keys the player holds.\<close>

theorem slow_frame_stops:
  assumes "gc_camera g = Some camera" and "1 / 15 \<le> gc_accumulator g + delta"
  shows "\<exists>cmds. cl_out (gc_conn (frame_update E delta g)) = cl_out (gc_conn g) @ concat (map (command_stream E) cmds)
    \<and> 2 \<le> length cmds
    \<and> (let c = fold ApplyClientCommands cmds controller in
         \<not> forward c \<and> \<not> backward c \<and> \<not> left_strafe c \<and> \<not> right_strafe c)"
proof -
  define n where "n = nat \<lfloor>(gc_accumulator g + delta) * 30\<rfloor>"
  let ?cmds = "frame_commands camera (gc_command_id g) (cl_last_state (gc_conn g)) n"
  have "2 \<le> \<lfloor>(gc_accumulator g + delta) * 30\<rfloor>"
    using assms(2) by (simp add: le_floor_iff)
  then have "2 \<le> n" unfolding n_def by linarith
  then have n: "2 \<le> length ?cmds" by simp
  then obtain cmds cmd where split: "?cmds = cmds @ [cmd]"
    by (metis append_butlast_last_id list.size(3) not_numeral_le_zero)
  then have "cmds \<noteq> []"
    using n by auto
  then have "cmd \<in> set (tl ?cmds)"
    by (simp add: split)
  then have "cc_movement cmd = Some no_movement"
    using later_commands by blast
  then have "let c = fold ApplyClientCommands ?cmds controller in
      \<not> forward c \<and> \<not> backward c \<and> \<not> left_strafe c \<and> \<not> right_strafe c"
    by (simp add: split Let_def ApplyClientCommands_def no_movement_def split: option.split)
  moreover have "0 \<le> gc_accumulator g + delta" using assms(2) by linarith
  ultimately show ?thesis
    using send_commands_result [of "g\<lparr>gc_accumulator := gc_accumulator g + delta\<rparr>" camera n E] assms(1) n
    by (intro exI [of _ ?cmds]) (simp add: frame_update_def n_def)
qed

definition walking :: game_client where
  "walking = \<lparr>gc_camera = Some ((new_controller 7)\<lparr>forward := True\<rparr>), gc_command_id = 3, gc_accumulator = 0,
     gc_conn = new_client, gc_queue = new_client_queue\<rparr>"

theorem commands_of_frame_witness:
  "\<exists>cmds. cl_out (gc_conn (frame_update update_five (1 / 10) walking)) = concat (map (command_stream update_five) cmds)
    \<and> length cmds = 3 \<and> cc_commandID (cmds ! 1) = 4"
  using commands_of_frame [of walking "(new_controller 7)\<lparr>forward := True\<rparr>" "1 / 10" update_five]
  by (force simp: walking_def new_client_def)

theorem slow_frame_stops_witness:
  "\<exists>cmds. 2 \<le> length cmds \<and> \<not> forward (fold ApplyClientCommands cmds (new_controller 7))"
  using slow_frame_stops [of walking "(new_controller 7)\<lparr>forward := True\<rparr>" "1 / 10" update_five "new_controller 7"]
  by (auto simp: walking_def Let_def)

end
