(* ===== verification/Server_Loop.thy ===== *)
theory Server_Loop
  imports Client_Session
begin

text \<open>
  The main loop of the server (server/main.cpp): each round adds the elapsed time to two accumulators, simulates a step when a step is due, and sends
  the states of the game when an update is due as well. What the server does with its events, the events of the state queue, the simulation and the
  scripts are parameters. Times are rational numbers.
\<close>

definition SERVER_SIMULATE_RATE :: rat where "SERVER_SIMULATE_RATE = 1 / 60"

record 's loop_env =
  lo_env :: "'s server_env"
  lo_process_events :: "'s server \<Rightarrow> 's server"
  lo_process_queue :: "rat game_state \<Rightarrow> rat game_state"
  lo_simulate :: "rat \<Rightarrow> rat game_state \<Rightarrow> rat game_state"
  lo_process_scripts :: "'s server \<Rightarrow> 's server"

record 's server_loop =
  sl_step :: rat
  sl_delta :: rat
  sl_state_id :: state_id_t
  sl_base :: "rat game_state"
  sl_server :: "'s server"

text \<open>The update of a step: the state gets the next identifier and the time, and is sent to all clients.\<close>

definition send_update :: "'s loop_env \<Rightarrow> u64 \<Rightarrow> rat game_state \<times> 's server_loop \<Rightarrow> rat game_state \<times> 's server_loop" where
  "send_update E now fl = (case fl of (full, l) \<Rightarrow>
     let i = sl_state_id l + 1; full1 = full\<lparr>state_id := i, timestamp := now\<rparr>
     in (full1, l\<lparr>sl_state_id := i, sl_server := send_states (lo_env E) full1 (sl_server l), sl_delta := sl_delta l - UPDATE_RATE\<rparr>))"

definition server_step :: "'s loop_env \<Rightarrow> u64 \<Rightarrow> 's server_loop \<Rightarrow> 's server_loop" where
  "server_step E now l =
     (let l1 = l\<lparr>sl_server := lo_process_events E (sl_server l), sl_step := sl_step l - SERVER_SIMULATE_RATE\<rparr>;
          full = lo_simulate E SERVER_SIMULATE_RATE (lo_process_queue E (sl_base l1));
          (full1, l2) = (if UPDATE_RATE \<le> sl_delta l1 then send_update E now (full, l1) else (full, l1))
      in l2\<lparr>sl_base := full1, sl_server := lo_process_scripts E (sl_server l2)\<rparr>)"

definition server_round :: "'s loop_env \<Rightarrow> rat \<times> u64 \<Rightarrow> 's server_loop \<Rightarrow> 's server_loop" where
  "server_round E t l = (case t of (delta, now) \<Rightarrow>
     let l1 = l\<lparr>sl_delta := sl_delta l + delta, sl_step := sl_step l + delta\<rparr> in
     if SERVER_SIMULATE_RATE \<le> sl_step l1 then server_step E now l1 else l1)"

text \<open>The numbers of a new loop.\<close>

definition new_loop :: "rat game_state \<Rightarrow> 's server \<Rightarrow> 's server_loop" where
  "new_loop base sv = \<lparr>sl_step = 0, sl_delta = 0, sl_state_id = 0, sl_base = base, sl_server = sv\<rparr>"

subsection \<open>The pace of the loop\<close>

text \<open>A run of rounds, with the number of its steps and of its updates.\<close>

definition step_due :: "rat \<Rightarrow> 's server_loop \<Rightarrow> bool" where
  "step_due delta l \<longleftrightarrow> SERVER_SIMULATE_RATE \<le> sl_step l + delta"

definition update_due :: "rat \<Rightarrow> 's server_loop \<Rightarrow> bool" where
  "update_due delta l \<longleftrightarrow> step_due delta l \<and> UPDATE_RATE \<le> sl_delta l + delta"

fun run_loop :: "'s loop_env \<Rightarrow> (rat \<times> u64) list \<Rightarrow> 's server_loop \<Rightarrow> nat \<times> nat \<times> 's server_loop" where
  "run_loop E [] l = (0, 0, l)"
| "run_loop E (t # ts) l = (case run_loop E ts (server_round E t l) of (n, m, l1) \<Rightarrow>
     (of_bool (step_due (fst t) l) + n, of_bool (update_due (fst t) l) + m, l1))"

lemma round_numbers:
  "sl_step (server_round E (d, now) l) = sl_step l + d - of_bool (step_due d l) * SERVER_SIMULATE_RATE"
  "sl_delta (server_round E (d, now) l) = sl_delta l + d - of_bool (update_due d l) * UPDATE_RATE"
  "sl_state_id (server_round E (d, now) l) = sl_state_id l + of_bool (update_due d l)"
  by (simp_all add: server_round_def server_step_def send_update_def step_due_def update_due_def Let_def)

text \<open>Time is neither lost nor invented: it is in the steps made or in the accumulator, and in the updates sent or in the other accumulator.\<close>

lemma run_loop_numbers:
  assumes "run_loop E ts l = (n, m, l1)"
  shows "sl_step l1 + of_nat n * SERVER_SIMULATE_RATE = sl_step l + sum_list (map fst ts)
    \<and> sl_delta l1 + of_nat m * UPDATE_RATE = sl_delta l + sum_list (map fst ts)
    \<and> sl_state_id l1 = sl_state_id l + of_nat m \<and> m \<le> n"
  using assms
proof (induction ts arbitrary: l n m)
  case (Cons t ts)
  obtain d now where t: "t = (d, now)"
    by (cases t)
  obtain n1 m1 where r: "run_loop E ts (server_round E t l) = (n1, m1, l1)" "n = of_bool (step_due d l) + n1" "m = of_bool (update_due d l) + m1"
    using Cons.prems t by (auto split: prod.splits)
  show ?case
    using Cons.IH [OF r(1)] unfolding t round_numbers r(2,3) by (auto simp: update_due_def algebra_simps)
qed simp

definition in_time :: "'s server_loop \<Rightarrow> bool" where
  "in_time l \<longleftrightarrow> 0 \<le> sl_step l \<and> sl_step l < SERVER_SIMULATE_RATE \<and> 0 \<le> sl_delta l \<and> sl_delta l < UPDATE_RATE + sl_step l"

lemma round_in_time:
  assumes "in_time l" and "0 \<le> d" and "d \<le> SERVER_SIMULATE_RATE"
  shows "in_time (server_round E (d, now) l)"
  using assms unfolding in_time_def round_numbers
  by (auto simp: step_due_def update_due_def SERVER_SIMULATE_RATE_def UPDATE_RATE_def of_bool_def)

lemma run_in_time:
  "in_time l \<Longrightarrow> \<forall>d \<in> fst ` set ts. 0 \<le> d \<and> d \<le> SERVER_SIMULATE_RATE \<Longrightarrow> in_time (snd (snd (run_loop E ts l)))"
proof (induction ts arbitrary: l)
  case (Cons t ts)
  have "in_time (server_round E t l)"
    using round_in_time [OF Cons.prems(1), of "fst t" E "snd t"] Cons.prems(2) by simp
  then show ?case
    using Cons by (simp add: split_beta)
qed simp

text \<open>C21: While no round takes longer than a step, the server keeps pace with the time: it has simulated all steps that are due, it has sent all
  updates but perhaps the one that became due since the last step, and the state's identifier counts the updates.\<close>

theorem server_keeps_pace:
  assumes "run_loop E ts (new_loop base sv) = (n, m, l)" and "\<forall>d \<in> fst ` set ts. 0 \<le> d \<and> d \<le> SERVER_SIMULATE_RATE"
  defines "elapsed \<equiv> sum_list (map fst ts)"
  shows "of_nat n * SERVER_SIMULATE_RATE \<le> elapsed \<and> elapsed < of_nat (Suc n) * SERVER_SIMULATE_RATE
    \<and> of_nat m * UPDATE_RATE \<le> elapsed \<and> elapsed < of_nat (Suc m) * UPDATE_RATE + SERVER_SIMULATE_RATE \<and> sl_state_id l = of_nat m"
proof -
  have "in_time (new_loop base sv)"
    by (simp add: in_time_def new_loop_def SERVER_SIMULATE_RATE_def UPDATE_RATE_def)
  then have "in_time l"
    using run_in_time [OF _ assms(2), of "new_loop base sv" E] assms(1) by simp
  then show ?thesis
    using run_loop_numbers [OF assms(1)] unfolding elapsed_def in_time_def new_loop_def
    by (auto simp: algebra_simps)
qed

text \<open>However long the rounds take, at most one update is sent in a step, and the steps and updates that were made are never more than the time
  that has passed allows.\<close>

theorem server_never_ahead:
  assumes "run_loop E ts (new_loop base sv) = (n, m, l)" and "\<forall>d \<in> fst ` set ts. 0 \<le> d"
  shows "m \<le> n \<and> of_nat n * SERVER_SIMULATE_RATE \<le> sum_list (map fst ts) \<and> of_nat m * UPDATE_RATE \<le> sum_list (map fst ts)"
proof -
  have "0 \<le> sl_step (snd (snd (run_loop E ts k))) \<and> 0 \<le> sl_delta (snd (snd (run_loop E ts k)))"
    if "0 \<le> sl_step k" and "0 \<le> sl_delta k" and "\<forall>d \<in> fst ` set ts. 0 \<le> d" for k
    using that
  proof (induction ts arbitrary: k)
    case (Cons t ts)
    have "0 \<le> sl_step (server_round E t k)" "0 \<le> sl_delta (server_round E t k)"
      using round_numbers [of E "fst t" "snd t" k] Cons.prems by (auto simp: step_due_def update_due_def of_bool_def)
    then show ?case
      using Cons by (simp add: split_beta)
  qed simp
  from this [of "new_loop base sv"] show ?thesis
    using run_loop_numbers [OF assms(1)] assms by (auto simp: new_loop_def)
qed

lemma server_keeps_pace_witness:
  "\<forall>E :: unit loop_env. fst (run_loop E [(1 / 60, 5), (1 / 90, 9), (1 / 90, 13)] (new_loop new_game_state busy_server)) = 2"
proof
  fix E :: "unit loop_env"
  obtain n m l where r: "run_loop E [(1 / 60, 5), (1 / 90, 9), (1 / 90, 13)] (new_loop new_game_state busy_server) = (n, m, l)"
    by (metis prod_cases3)
  have "of_nat n \<le> (7 / 3 :: rat) \<and> 7 / 3 < (of_nat (Suc n) :: rat)"
    using server_keeps_pace [OF r] by (simp add: SERVER_SIMULATE_RATE_def)
  then have "of_nat n < (of_nat 3 :: rat) \<and> of_nat 2 < (of_nat (Suc n) :: rat)"
    by simp
  then have "n = 2"
    unfolding of_nat_less_iff by simp
  then show "fst (run_loop E [(1 / 60, 5), (1 / 90, 9), (1 / 90, 13)] (new_loop new_game_state busy_server)) = 2"
    using r by simp
qed

lemma server_never_ahead_witness:
  "\<forall>E :: unit loop_env. of_nat (fst (snd (run_loop E [(1, 5), (0, 6)] (new_loop new_game_state busy_server)))) * UPDATE_RATE \<le> 1"
proof
  fix E :: "unit loop_env"
  obtain n m l where r: "run_loop E [(1, 5), (0, 6)] (new_loop new_game_state busy_server) = (n, m, l)"
    by (metis prod_cases3)
  show "of_nat (fst (snd (run_loop E [(1, 5), (0, 6)] (new_loop new_game_state busy_server)))) * UPDATE_RATE \<le> 1"
    using server_never_ahead [OF r] r by simp
qed

end
