(* ===== verification/Event_Queues.thy ===== *)
theory Event_Queues
  imports Ordered_Map
begin

text \<open>
  Deferred delivery: \<open>EventQueue\<close> and \<open>EventSystem\<close> (common/event-queue.hpp,
  common/event-system.hpp) and \<open>CommandQueue\<close> (common/command-queue.hpp), as one thread sees
  them. Both queues swap a write buffer with a read buffer and then drain the read buffer,
  running a handler per element that may queue further elements. The locale \<open>double_buffer\<close>
  states what a drain needs and proves that it ends, in order, on exactly the elements that
  were there at the swap; it is interpreted for both. The interleaving of a producer thread
  with the drain is the subject of theory \<open>Event_Race\<close>.
\<close>

subsection \<open>Draining a buffer\<close>

locale double_buffer =
  fixes rd :: "'s \<Rightarrow> 'e list" and pop :: "'s \<Rightarrow> 's" and run :: "'e \<Rightarrow> 's \<Rightarrow> 's"
  assumes rd_pop: "rd (pop s) = tl (rd s)"
    and rd_run: "rd (run e s) = rd s"
begin

definition turn :: "'e \<Rightarrow> 's \<Rightarrow> 's" where
  "turn e s = run e (pop s)"

lemma rd_turn: "rd (turn e s) = tl (rd s)"
  by (simp add: turn_def rd_run rd_pop)

lemma drain_is_fold:
  assumes "\<And>s. dr s = (case rd s of [] \<Rightarrow> s | e # _ \<Rightarrow> dr (turn e s))"
  shows "dr s = fold turn (rd s) s"
proof (induction "rd s" arbitrary: s)
  case Nil
  then show ?case using assms [of s] by simp
next
  case (Cons e es)
  then have "dr (turn e s) = fold turn es (turn e s)"
    by (metis rd_turn list.sel(3))
  with Cons(2) show ?case
    using assms [of s] by (simp split: list.splits)
qed

lemma fold_turn_empties: "rd (fold turn (rd s) s) = []"
proof (induction "rd s" arbitrary: s)
  case (Cons e es)
  then have "rd (fold turn es (turn e s)) = []"
    by (metis rd_turn list.sel(3))
  then show ?case by (simp flip: Cons(2))
qed simp

end

subsection \<open>Event queues and the event system\<close>

text \<open>
  \<open>Event<T>\<close> pairs the entity with the data. An \<open>EventQueue<T>\<close> has the two buffers its
  pointers name; \<open>EventSystem<T>\<close> maps an entity to the list of its subscribers, entity 0
  standing for every entity. \<open>'q\<close> are the addresses of the queues.
\<close>

type_synonym 'd event = "eid \<times> 'd"

record 'd event_queue =
  read_event_queue :: "'d event list"
  write_event_queue :: "'d event list"

definition new_event_queue :: "'d event_queue" where
  "new_event_queue = \<lparr>read_event_queue = [], write_event_queue = []\<rparr>"

definition QueueEvent :: "'d event \<Rightarrow> 'd event_queue \<Rightarrow> 'd event_queue" where
  "QueueEvent e q = q\<lparr>write_event_queue := write_event_queue q @ [e]\<rparr>"

record ('q, 'd) event_system =
  subscribers :: "(eid, 'q list) omap"
  queues :: "'q \<Rightarrow> 'd event_queue"

definition Subscribe :: "eid \<Rightarrow> 'q \<Rightarrow> ('q, 'd) event_system \<Rightarrow> ('q, 'd) event_system" where
  "Subscribe entity_id q es = (case map_of (subscribers es) entity_id of
      None \<Rightarrow> es\<lparr>subscribers := om_put entity_id [q] (subscribers es)\<rparr>
    | Some subs \<Rightarrow> if q \<in> set subs then es
        else es\<lparr>subscribers := om_put entity_id (subs @ [q]) (subscribers es)\<rparr>)"

definition SubscribeAll :: "'q \<Rightarrow> ('q, 'd) event_system \<Rightarrow> ('q, 'd) event_system" where
  "SubscribeAll q es =
     es\<lparr>subscribers := om_put 0 (om_get [] 0 (subscribers es) @ [q]) (subscribers es)\<rparr>"

definition Unsubscribe :: "eid \<Rightarrow> 'q \<Rightarrow> ('q, 'd) event_system \<Rightarrow> ('q, 'd) event_system" where
  "Unsubscribe entity_id q es = (case map_of (subscribers es) entity_id of
      None \<Rightarrow> es
    | Some subs \<Rightarrow> es\<lparr>subscribers := om_put entity_id (removeAll q subs) (subscribers es)\<rparr>)"

definition UnsubscribeAll :: "'q \<Rightarrow> ('q, 'd) event_system \<Rightarrow> ('q, 'd) event_system" where
  "UnsubscribeAll q es = Unsubscribe 0 q es"

definition deliver :: "'d event \<Rightarrow> 'q \<Rightarrow> ('q, 'd) event_system \<Rightarrow> ('q, 'd) event_system" where
  "deliver e q es = es\<lparr>queues := (queues es)(q := QueueEvent e (queues es q))\<rparr>"

definition Emit :: "eid \<Rightarrow> 'd \<Rightarrow> ('q, 'd) event_system \<Rightarrow> ('q, 'd) event_system" where
  "Emit entity_id d es =
     (let es1 = (if entity_id \<noteq> 0
                 then (case map_of (subscribers es) entity_id of
                         None \<Rightarrow> es
                       | Some subs \<Rightarrow> fold (deliver (entity_id, d)) subs es)
                 else es) in
      (case map_of (subscribers es1) 0 of
         None \<Rightarrow> es1
       | Some subs \<Rightarrow> fold (deliver (entity_id, d)) subs es1))"

definition EmitAll :: "'d \<Rightarrow> ('q, 'd) event_system \<Rightarrow> ('q, 'd) event_system" where
  "EmitAll d es = Emit 0 d es"

text \<open>What a handler \<open>On\<close> may ask of the event system while it runs.\<close>

datatype ('q, 'd) es_action =
  Do_Emit eid 'd | Do_Subscribe eid 'q | Do_SubscribeAll 'q | Do_Unsubscribe eid 'q

fun do_action :: "('q, 'd) es_action \<Rightarrow> ('q, 'd) event_system \<Rightarrow> ('q, 'd) event_system" where
  "do_action (Do_Emit i d) es = Emit i d es"
| "do_action (Do_Subscribe i q) es = Subscribe i q es"
| "do_action (Do_SubscribeAll q) es = SubscribeAll q es"
| "do_action (Do_Unsubscribe i q) es = Unsubscribe i q es"

type_synonym ('q, 'd, 's) handler = "eid \<Rightarrow> 'd \<Rightarrow> 's \<Rightarrow> 's \<times> ('q, 'd) es_action list"

definition read_of :: "'q \<Rightarrow> ('q, 'd) event_system \<times> 's \<Rightarrow> 'd event list" where
  "read_of q w = read_event_queue (queues (fst w) q)"

definition pop_event :: "'q \<Rightarrow> ('q, 'd) event_system \<times> 's \<Rightarrow> ('q, 'd) event_system \<times> 's" where
  "pop_event q w = (case w of (es, s) \<Rightarrow>
     (es\<lparr>queues := (queues es)(q := (queues es q)
        \<lparr>read_event_queue := tl (read_event_queue (queues es q))\<rparr>)\<rparr>, s))"

definition handle ::
    "('q, 'd, 's) handler \<Rightarrow> 'd event \<Rightarrow> ('q, 'd) event_system \<times> 's \<Rightarrow> ('q, 'd) event_system \<times> 's"
    where
  "handle on e w = (case w of (es, s) \<Rightarrow>
     (case on (fst e) (snd e) s of (s', acts) \<Rightarrow> (fold do_action acts es, s')))"

definition swap_queues :: "'q \<Rightarrow> ('q, 'd) event_system \<Rightarrow> ('q, 'd) event_system" where
  "swap_queues q es = es\<lparr>queues := (queues es)(q :=
     \<lparr>read_event_queue = write_event_queue (queues es q),
      write_event_queue = read_event_queue (queues es q)\<rparr>)\<rparr>"

lemma queues_Subscribe [simp, frame_simps]:
  "queues (Subscribe i q es) = queues es"
  "queues (SubscribeAll q es) = queues es"
  "queues (Unsubscribe i q es) = queues es"
  by (simp_all add: Subscribe_def SubscribeAll_def Unsubscribe_def split: option.split)

lemma subscribers_deliver [simp, frame_simps]:
  "subscribers (deliver e q es) = subscribers es"
  "subscribers (fold (deliver e) qs es) = subscribers es"
  by (simp_all add: deliver_def, induction qs arbitrary: es, simp_all add: deliver_def)

lemma read_deliver [simp, frame_simps]:
  "read_event_queue (queues (deliver e p es) q) = read_event_queue (queues es q)"
  "read_event_queue (queues (fold (deliver e) ps es) q) = read_event_queue (queues es q)"
  by (simp_all add: deliver_def QueueEvent_def)
    (induction ps arbitrary: es; simp add: deliver_def QueueEvent_def)

lemma read_do_action [simp, frame_simps]:
  "read_event_queue (queues (do_action a es) q) = read_event_queue (queues es q)"
  by (cases a) (simp_all add: Emit_def Let_def split: option.split)

lemma read_do_actions [simp, frame_simps]:
  "read_event_queue (queues (fold do_action acts es) q) = read_event_queue (queues es q)"
  by (induction acts arbitrary: es) simp_all

lemma read_of_pop [simp]: "read_of q (pop_event q w) = tl (read_of q w)"
  by (simp add: read_of_def pop_event_def split_beta)

lemma read_of_handle [simp]: "read_of q (handle on e w) = read_of q w"
  by (simp add: read_of_def handle_def split_beta)

text \<open>The loop of \<open>ProcessEventQueue\<close>.\<close>

function drain_events ::
    "('q, 'd, 's) handler \<Rightarrow> 'q \<Rightarrow> ('q, 'd) event_system \<times> 's \<Rightarrow> ('q, 'd) event_system \<times> 's" where
  "drain_events on q w = (case read_of q w of
      [] \<Rightarrow> w
    | e # _ \<Rightarrow> drain_events on q (handle on e (pop_event q w)))"
  by pat_completeness auto
termination
  by (relation "measure (\<lambda>(_, q, w). length (read_of q w))") auto

declare drain_events.simps [simp del]

definition ProcessEventQueue ::
    "('q, 'd, 's) handler \<Rightarrow> 'q \<Rightarrow> ('q, 'd) event_system \<times> 's \<Rightarrow> ('q, 'd) event_system \<times> 's" where
  "ProcessEventQueue on q w = (case w of (es, s) \<Rightarrow> drain_events on q (swap_queues q es, s))"

interpretation ev: double_buffer "read_of q" "pop_event q" "handle on" for q on
  by unfold_locales simp_all

lemma drain_events_fold:
  "drain_events on q w = fold (ev.turn q on) (read_of q w) w"
  by (rule ev.drain_is_fold) (simp add: drain_events.simps [of on q] ev.turn_def split: list.split)

subsection \<open>Command queues\<close>

text \<open>
  \<open>'c\<close> are the queued closures; running one on the owner \<open>'s\<close> may queue more of them with the
  static \<open>QueueCommand\<close>, which the run returns in order. \<open>global_command_queue\<close> is static,
  \<open>local_queue\<close> a member.
\<close>

record ('c, 's) command_queue =
  global_command_queue :: "'c list"
  local_queue :: "'c list"
  cmd_owner :: 's

definition QueueCommand :: "'c \<Rightarrow> ('c, 's) command_queue \<Rightarrow> ('c, 's) command_queue" where
  "QueueCommand c w = w\<lparr>global_command_queue := global_command_queue w @ [c]\<rparr>"

definition pop_command :: "('c, 's) command_queue \<Rightarrow> ('c, 's) command_queue" where
  "pop_command w = w\<lparr>local_queue := tl (local_queue w)\<rparr>"

definition call_command ::
    "('c \<Rightarrow> 's \<Rightarrow> 's \<times> 'c list) \<Rightarrow> 'c \<Rightarrow> ('c, 's) command_queue \<Rightarrow> ('c, 's) command_queue" where
  "call_command call c w = (case call c (cmd_owner w) of (s', cs) \<Rightarrow>
     fold QueueCommand cs (w\<lparr>cmd_owner := s'\<rparr>))"

lemma local_queue_fold [simp, frame_simps]:
  "local_queue (fold QueueCommand cs w) = local_queue w"
  by (induction cs arbitrary: w) (simp_all add: QueueCommand_def)

lemma global_queue_fold [simp]:
  "global_command_queue (fold QueueCommand cs w) = global_command_queue w @ cs"
  by (induction cs arbitrary: w) (simp_all add: QueueCommand_def)

lemma cmd_owner_fold [simp, frame_simps]: "cmd_owner (fold QueueCommand cs w) = cmd_owner w"
  by (induction cs arbitrary: w) (simp_all add: QueueCommand_def)

lemma local_queue_call [simp, frame_simps]: "local_queue (call_command call c w) = local_queue w"
  by (simp add: call_command_def split_beta)

function drain_commands ::
    "('c \<Rightarrow> 's \<Rightarrow> 's \<times> 'c list) \<Rightarrow> ('c, 's) command_queue \<Rightarrow> ('c, 's) command_queue" where
  "drain_commands call w = (case local_queue w of
      [] \<Rightarrow> w
    | c # _ \<Rightarrow> drain_commands call (call_command call c (pop_command w)))"
  by pat_completeness auto
termination
  by (relation "measure (\<lambda>(_, w). length (local_queue w))") (auto simp: pop_command_def)

declare drain_commands.simps [simp del]

definition ProcessCommandQueue ::
    "('c \<Rightarrow> 's \<Rightarrow> 's \<times> 'c list) \<Rightarrow> ('c, 's) command_queue \<Rightarrow> ('c, 's) command_queue" where
  "ProcessCommandQueue call w = drain_commands call
     (w\<lparr>local_queue := global_command_queue w, global_command_queue := local_queue w\<rparr>)"

interpretation cmd: double_buffer local_queue pop_command "call_command call" for call
  by unfold_locales (simp_all add: pop_command_def)

lemma drain_commands_fold:
  "drain_commands call w = fold (cmd.turn call) (local_queue w) w"
  by (rule cmd.drain_is_fold)
    (simp add: drain_commands.simps [of call] cmd.turn_def split: list.split)

text \<open>What the drained elements leave: the owner's state, and the commands queued meanwhile.\<close>

fun run_all :: "('e \<Rightarrow> 's \<Rightarrow> 's \<times> 'a list) \<Rightarrow> 'e list \<Rightarrow> 's \<Rightarrow> 's \<times> 'a list" where
  "run_all f [] s = (s, [])"
| "run_all f (e # es) s = (case f e s of (s1, as) \<Rightarrow>
     (case run_all f es s1 of (s2, bs) \<Rightarrow> (s2, as @ bs)))"

lemma fold_cmd_turn:
  "fold (cmd.turn call) cs w = w\<lparr>local_queue := drop (length cs) (local_queue w),
     global_command_queue := global_command_queue w @ snd (run_all call cs (cmd_owner w)),
     cmd_owner := fst (run_all call cs (cmd_owner w))\<rparr>"
proof (induction cs arbitrary: w)
  case (Cons c cs)
  obtain s1 xs where c: "call c (cmd_owner w) = (s1, xs)" by (cases "call c (cmd_owner w)")
  have "cmd.turn call c w = w\<lparr>local_queue := tl (local_queue w),
      global_command_queue := global_command_queue w @ xs, cmd_owner := s1\<rparr>"
    using c by (intro command_queue.equality)
      (simp_all add: cmd.turn_def call_command_def pop_command_def)
  then show ?case
    using c by (simp add: Cons.IH split_beta drop_Suc)
qed simp

text \<open>Setting the read buffer of a queue commutes with everything a handler does.\<close>

definition set_read :: "'q \<Rightarrow> 'd event list \<Rightarrow> ('q, 'd) event_system \<Rightarrow> ('q, 'd) event_system" where
  "set_read q es w = w\<lparr>queues := (queues w)(q := (queues w q)\<lparr>read_event_queue := es\<rparr>)\<rparr>"

lemma subscribers_set_read [simp, frame_simps]: "subscribers (set_read q xs es) = subscribers es"
  by (simp add: set_read_def)

lemma deliver_set_read: "deliver e p (set_read q xs es) = set_read q xs (deliver e p es)"
  by (cases "queues es p") (auto simp: deliver_def set_read_def QueueEvent_def fun_upd_twist)

lemma fold_deliver_set_read:
  "fold (deliver e) ps (set_read q xs es) = set_read q xs (fold (deliver e) ps es)"
  by (induction ps arbitrary: es) (simp_all add: deliver_set_read)

lemma do_action_set_read: "do_action a (set_read q xs es) = set_read q xs (do_action a es)"
proof (cases a)
  case (Do_Emit i d)
  then show ?thesis
    by (simp add: Emit_def Let_def fold_deliver_set_read split: option.split)
qed (auto simp: Subscribe_def SubscribeAll_def Unsubscribe_def set_read_def split: option.split)

lemma fold_do_action_set_read:
  "fold do_action as (set_read q xs es) = set_read q xs (fold do_action as es)"
  by (induction as arbitrary: es) (simp_all add: do_action_set_read)

lemma set_read_set_read [simp]: "set_read q xs (set_read q ys es) = set_read q xs es"
  by (simp add: set_read_def)

lemma read_set_read [simp]: "read_event_queue (queues (set_read q xs es) q) = xs"
  by (simp add: set_read_def)

lemma set_read_same: "xs = read_event_queue (queues es q) \<Longrightarrow> set_read q xs es = es"
  by (simp add: set_read_def)

lemma pop_event_set_read:
  "pop_event q (es, s) = (set_read q (tl (read_event_queue (queues es q))) es, s)"
  by (simp add: pop_event_def set_read_def)

lemma fold_ev_turn:
  "fold (ev.turn q on) evs (es, s) =
     (let r = run_all (\<lambda>e. on (fst e) (snd e)) evs s in
      (set_read q (drop (length evs) (read_event_queue (queues es q)))
         (fold do_action (snd r) es), fst r))"
proof (induction evs arbitrary: es s)
  case Nil
  then show ?case by (simp add: set_read_same)
next
  case (Cons e evs)
  obtain s1 acts where r: "on (fst e) (snd e) s = (s1, acts)"
    by (cases "on (fst e) (snd e) s")
  have "ev.turn q on e (es, s)
      = (set_read q (tl (read_event_queue (queues es q))) (fold do_action acts es), s1)"
    using r by (simp add: ev.turn_def handle_def pop_event_set_read fold_do_action_set_read)
  then show ?case
    using r by (simp add: Cons.IH split_beta Let_def fold_do_action_set_read drop_Suc)
qed

lemma write_fold_deliver:
  "write_event_queue (queues (fold (deliver e) ps es) q)
     = write_event_queue (queues es q) @ replicate (count_list ps q) e"
  by (induction ps arbitrary: es) (simp_all add: deliver_def QueueEvent_def)

subsection \<open>Properties\<close>

text \<open>Deferred delivery. \<open>ProcessEventQueue\<close> returns; it runs the handler on exactly the
  events that were queued before the call, each once and in the order they were queued;
  what the handlers emit, subscribe and unsubscribe is applied in order, and an event they
  emit to the same queue is not handled in this call but waits for the next one.\<close>

theorem ProcessEventQueue_drains:
  "ProcessEventQueue on q (es, s) =
     (let r = run_all (\<lambda>e. on (fst e) (snd e)) (write_event_queue (queues es q)) s in
      (fold do_action (snd r)
         (es\<lparr>queues := (queues es)(q := \<lparr>read_event_queue = [],
            write_event_queue = read_event_queue (queues es q)\<rparr>)\<rparr>), fst r))"
proof -
  let ?es = "swap_queues q es"
  have "set_read q [] ?es = es\<lparr>queues := (queues es)(q := \<lparr>read_event_queue = [],
      write_event_queue = read_event_queue (queues es q)\<rparr>)\<rparr>"
    by (simp add: set_read_def swap_queues_def)
  then show ?thesis
    by (simp add: ProcessEventQueue_def drain_events_fold fold_ev_turn Let_def read_of_def
        flip: fold_do_action_set_read)
      (simp add: swap_queues_def set_read_def)
qed

text \<open>Fan-out. \<open>Emit\<close> queues the event to a queue once for every subscription it holds to
  the entity and once for every subscription to all entities, after what was queued
  before; for entity 0 only the subscriptions to all entities count, and no read buffer
  or subscription changes.\<close>

theorem Emit_delivers:
  "write_event_queue (queues (Emit i d es) q) = write_event_queue (queues es q) @
     replicate ((if i = 0 then 0 else count_list (om_get [] i (subscribers es)) q)
       + count_list (om_get [] 0 (subscribers es)) q) (i, d)
   \<and> read_event_queue (queues (Emit i d es) q) = read_event_queue (queues es q)
   \<and> subscribers (Emit i d es) = subscribers es"
  by (auto simp: Emit_def Let_def om_get_def write_fold_deliver replicate_add split: option.split)

text \<open>Subscribing. Subscribing a queue to an entity again has no further effect, and
  once it is unsubscribed from the entity an event of that entity reaches it only through
  its subscriptions to all entities.\<close>

theorem Subscribe_Unsubscribe:
  assumes "wf_omap (subscribers es)" and "i \<noteq> 0"
  shows "Subscribe i q (Subscribe i q es) = Subscribe i q es
    \<and> write_event_queue (queues (Emit i d (Unsubscribe i q es)) q)
        = write_event_queue (queues es q)
          @ replicate (count_list (om_get [] 0 (subscribers es)) q) (i, d)"
proof -
  have "count_list (removeAll q xs) q = 0" for xs :: "'a list"
    by (simp add: count_list_0_iff)
  then show ?thesis
    using assms
    by (auto simp: Emit_def Let_def om_get_def write_fold_deliver Subscribe_def Unsubscribe_def
        split: option.split)
qed

theorem Subscribe_Unsubscribe_witness:
  "write_event_queue (queues (Emit 7 True (Unsubscribe 7 (1::nat)
     \<lparr>subscribers = [(0, [1]), (7, [1])], queues = (\<lambda>_. new_event_queue)\<rparr>)) 1) = [(7, True)]"
  using Subscribe_Unsubscribe [of "\<lparr>subscribers = [(0, [1]), (7, [1::nat])],
      queues = (\<lambda>_. new_event_queue)\<rparr>" 7 1 True]
  by (simp add: wf_omap_Cons om_keys_def om_get_def new_event_queue_def)

text \<open>Deferred commands. \<open>ProcessCommandQueue\<close> returns; it runs exactly the commands queued
  before the call, each once and in order, on the owner, and the commands they queue are
  left, in order, for the next call.\<close>

theorem ProcessCommandQueue_drains:
  "ProcessCommandQueue call w =
     (let r = run_all call (global_command_queue w) (cmd_owner w) in
      \<lparr>global_command_queue = local_queue w @ snd r, local_queue = [], cmd_owner = fst r\<rparr>)"
  by (rule command_queue.equality)
    (simp_all add: ProcessCommandQueue_def drain_commands_fold fold_cmd_turn Let_def)

end
