(* ===== verification/Voxels.thy ===== *)
theory Voxels
  imports Complex_Main Mesh_Data Event_Queues Safe_Run
begin

text \<open>
  Voxel volumes (client/voxel-volume.cpp and .hpp): the packing of a voxel's coordinates into one
  index, the queue of changed voxels, and the mesh that \<open>UpdateMesh\<close> keeps, a block of 24 vertices
  and 36 indices for each voxel. The coordinates are 16 bits wide, so the positions are whole
  numbers that floats hold exactly; rationals stand for them. \<open>None\<close> is an access outside a vector,
  a null pointer or a conversion of a number that does not fit.
\<close>

subsection \<open>Coordinates\<close>

type_synonym coord = "16 word"

text \<open>\<open>y & 0xFFFF\<close>: the coordinate is promoted to a signed 32-bit integer first.\<close>

definition low16 :: "coord \<Rightarrow> 32 word" where
  "low16 c = (scast c :: 32 word) AND 0xFFFF"

definition voxel_index :: "coord \<Rightarrow> coord \<Rightarrow> coord \<Rightarrow> 64 word" where
  "voxel_index y x z = push_bit 32 (ucast (low16 y)) + ucast (push_bit 16 (low16 x)) + ucast (ucast (low16 z) :: coord)"

definition index_y :: "64 word \<Rightarrow> coord" where
  "index_y i = ucast (drop_bit 32 (i AND 0xFFFF00000000))"

definition index_x :: "64 word \<Rightarrow> coord" where
  "index_x i = ucast (drop_bit 16 (i AND 0xFFFF0000))"

definition index_z :: "64 word \<Rightarrow> coord" where
  "index_z i = ucast (i AND 0xFFFF)"

subsection \<open>A volume\<close>

text \<open>
  \<open>vv_voxels\<close> holds the colour of each voxel. The mesh is a weak pointer: the address of a mesh file,
  or none.
\<close>

record voxel_volume =
  vv_voxels :: "64 word \<rightharpoonup> rat list"
  vv_changed :: "64 word list"
  vv_vertex_index :: "64 word \<rightharpoonup> nat"
  vv_mesh :: "nat option"

definition new_voxel :: "rat list" where
  "new_voxel = [0, 0, 0]"

definition new_voxel_volume :: "nat option \<Rightarrow> voxel_volume" where
  "new_voxel_volume mesh = \<lparr>vv_voxels = Map.empty, vv_changed = [], vv_vertex_index = Map.empty, vv_mesh = mesh\<rparr>"

definition AddVoxel :: "coord \<Rightarrow> coord \<Rightarrow> coord \<Rightarrow> voxel_volume \<Rightarrow> voxel_volume" where
  "AddVoxel y x z v =
     (let i = voxel_index y x z; v1 = v\<lparr>vv_changed := vv_changed v @ [i]\<rparr>
      in if vv_voxels v1 i = None then v1\<lparr>vv_voxels := (vv_voxels v1)(i \<mapsto> new_voxel)\<rparr> else v1)"

definition RemoveVoxel :: "coord \<Rightarrow> coord \<Rightarrow> coord \<Rightarrow> voxel_volume \<Rightarrow> voxel_volume" where
  "RemoveVoxel y x z v =
     (let i = voxel_index y x z; v1 = v\<lparr>vv_changed := vv_changed v @ [i]\<rparr>
      in if vv_voxels v1 i \<noteq> None then v1\<lparr>vv_voxels := (vv_voxels v1)(i := None)\<rparr> else v1)"

subsection \<open>The mesh of a volume\<close>

definition ident_vert :: "rat \<Rightarrow> rat \<Rightarrow> rat \<Rightarrow> rat \<Rightarrow> rat \<Rightarrow> rat \<Rightarrow> rat \<Rightarrow> rat \<Rightarrow> rat vertex" where
  "ident_vert a b c d e f u v =
     \<lparr>vt_position = \<lparr>vx = a, vy = b, vz = c\<rparr>, vt_normal = \<lparr>vx = d, vy = e, vz = f\<rparr>, vt_uv = \<lparr>ux = u, uy = v\<rparr>\<rparr>"

definition IdentityVerts :: "rat vertex list" where
  "IdentityVerts = [
     ident_vert 0 0 1  0 0 1  0 1, ident_vert 1 0 1  0 0 1  1 1, ident_vert 1 1 1  0 0 1  1 0, ident_vert 0 1 1  0 0 1  0 0,
     ident_vert 1 0 0  0 0 (-1)  0 1, ident_vert 0 0 0  0 0 (-1)  1 1, ident_vert 0 1 0  0 0 (-1)  1 0, ident_vert 1 1 0  0 0 (-1)  0 0,
     ident_vert 0 0 0  (-1) 0 0  0 1, ident_vert 0 0 1  (-1) 0 0  1 1, ident_vert 0 1 1  (-1) 0 0  1 0, ident_vert 0 1 0  (-1) 0 0  0 0,
     ident_vert 1 0 1  1 0 0  0 1, ident_vert 1 0 0  1 0 0  1 1, ident_vert 1 1 0  1 0 0  1 0, ident_vert 1 1 1  1 0 0  0 0,
     ident_vert 0 1 1  0 1 0  0 1, ident_vert 1 1 1  0 1 0  1 1, ident_vert 1 1 0  0 1 0  1 0, ident_vert 0 1 0  0 1 0  0 0,
     ident_vert 0 0 0  0 (-1) 0  0 1, ident_vert 1 0 0  0 (-1) 0  1 1, ident_vert 1 0 1  0 (-1) 0  1 0, ident_vert 0 0 1  0 (-1) 0  0 0]"

definition vec_sum :: "rat vec3 \<Rightarrow> rat vec3 \<Rightarrow> rat vec3" where
  "vec_sum a b = \<lparr>vx = vx a + vx b, vy = vy a + vy b, vz = vz a + vz b\<rparr>"

definition vec_diff :: "rat vec3 \<Rightarrow> rat vec3 \<Rightarrow> rat vec3" where
  "vec_diff a b = \<lparr>vx = vx a - vx b, vy = vy a - vy b, vz = vz a - vz b\<rparr>"

definition voxel_pos :: "64 word \<Rightarrow> rat vec3" where
  "voxel_pos i = \<lparr>vx = of_int (sint (index_x i)), vy = of_int (sint (index_y i)), vz = of_int (sint (index_z i))\<rparr>"

definition voxel_verts :: "64 word \<Rightarrow> rat vertex list" where
  "voxel_verts i = map (\<lambda>v. v\<lparr>vt_position := vec_sum (vt_position v) (voxel_pos i)\<rparr>) IdentityVerts"

definition voxel_quads :: "nat \<Rightarrow> nat list" where
  "voxel_quads off = concat (map (\<lambda>i. [i * 4 + off + 0, i * 4 + off + 1, i * 4 + off + 2,
                                      i * 4 + off + 2, i * 4 + off + 3, i * 4 + off + 0]) [0..<6])"

text \<open>What the loop over the changed voxels works on.\<close>

record voxel_work =
  wk_verts :: "rat vertex list"
  wk_indices :: "nat list"
  wk_index :: "64 word \<rightharpoonup> nat"

definition append_voxel :: "64 word \<Rightarrow> voxel_work \<Rightarrow> voxel_work" where
  "append_voxel i w =
     (let off = length (wk_verts w)
      in \<lparr>wk_verts = wk_verts w @ voxel_verts i, wk_indices = wk_indices w @ voxel_quads off,
          wk_index = (wk_index w)(i \<mapsto> off)\<rparr>)"

text \<open>
  The loop that looks for a vertex offset in the indices: at a match, 36 indices are popped from
  the back while the loop's own counter advances with them.
\<close>

function remove_indices :: "nat \<Rightarrow> nat \<Rightarrow> nat list \<Rightarrow> nat list option" where
  "remove_indices off i is =
     (if i < length is
      then if is ! i = off
           then if 36 \<le> length is then remove_indices off (i + 36 + 1) (take (length is - 36) is) else None
           else remove_indices off (i + 1) is
      else Some is)"
  by pat_completeness auto
termination
  by (relation "measure (\<lambda>(_, i, is). length is - i)") auto

declare remove_indices.simps [simp del]

text \<open>\<open>std::swap(base_verts[off + i], base_verts.back())\<close> and \<open>pop_back\<close>.\<close>

definition swap_pop :: "nat \<Rightarrow> nat \<Rightarrow> rat vertex list \<Rightarrow> rat vertex list option" where
  "swap_pop off i vs = (if off + i < length vs then Some (butlast (vs[off + i := last vs])) else None)"

text \<open>\<open>static_cast<std::int16_t>\<close> of a floating point number: undefined if it does not fit.\<close>

definition to_coord :: "rat \<Rightarrow> coord option" where
  "to_coord q = (if - 32768 \<le> \<lfloor>q\<rfloor> \<and> \<lfloor>q\<rfloor> \<le> 32767 then Some (word_of_int \<lfloor>q\<rfloor>) else None)"

definition index_of_vert :: "rat vertex \<Rightarrow> 64 word option" where
  "index_of_vert vert =
     (let p = vec_diff (vt_position vert) (vt_position (IdentityVerts ! 0))
      in case (to_coord (vx p), to_coord (vy p), to_coord (vz p)) of
           (Some x, Some y, Some z) \<Rightarrow> Some (voxel_index y x z)
         | _ \<Rightarrow> None)"

definition remove_block :: "64 word \<Rightarrow> voxel_work \<Rightarrow> voxel_work option" where
  "remove_block i w = (case wk_index w i of
      None \<Rightarrow> Some w
    | Some off \<Rightarrow> (case remove_indices off 0 (wk_indices w) of
        None \<Rightarrow> None
      | Some is \<Rightarrow>
          if off + 24 = length (wk_verts w)
          then Some \<lparr>wk_verts = take off (wk_verts w), wk_indices = is, wk_index = (wk_index w)(i := None)\<rparr>
          else (case each (swap_pop off) [0..<24] (wk_verts w) of
              None \<Rightarrow> None
            | Some vs \<Rightarrow>
                if off < length vs
                then (case index_of_vert (vs ! off) of
                    None \<Rightarrow> None
                  | Some j \<Rightarrow> Some \<lparr>wk_verts = vs, wk_indices = is,
                                  wk_index = ((wk_index w)(j \<mapsto> off))(i := None)\<rparr>)
                else None)))"

definition change_voxel :: "(64 word \<Rightarrow> bool) \<Rightarrow> 64 word \<Rightarrow> voxel_work \<Rightarrow> voxel_work option" where
  "change_voxel present i w = (if present i then Some (append_voxel i w) else remove_block i w)"

definition count_material :: "object_group \<Rightarrow> object_group" where
  "count_material g =
     (let g1 = (if og_materials g = []
                then g\<lparr>og_materials := [\<lparr>mg_start = 0, mg_count = length (og_indices g), mg_material = ''voxel'',
                        mg_textures = [''metal_wall'', ''metal_wall_sp'']\<rparr>]\<rparr>
                else g)
      in g1\<lparr>og_materials := (og_materials g1)[0 := (og_materials g1 ! 0)\<lparr>mg_count := length (og_indices g1)\<rparr>]\<rparr>)"

definition first_mesh :: "rat mesh_file \<Rightarrow> rat mesh" where
  "first_mesh f = (let m = (if 0 < length (mf_meshes f) then mf_meshes f ! 0 else mf_meshes (CreateMesh f) ! 0)
                   in if ms_objects m = [] then m\<lparr>ms_objects := [new_object_group]\<rparr> else m)"

definition UpdateMesh :: "voxel_volume \<Rightarrow> rat mesh_file option \<Rightarrow> (voxel_volume \<times> rat mesh_file option) option" where
  "UpdateMesh v mesh = (case mesh of
      None \<Rightarrow> Some (v, mesh)
    | Some f \<Rightarrow>
        if vv_changed v = [] then Some (v, mesh)
        else let m = first_mesh f; g = ms_objects m ! 0
             in (case each (change_voxel (\<lambda>i. vv_voxels v i \<noteq> None)) (vv_changed v)
                       \<lparr>wk_verts = ms_verts m, wk_indices = og_indices g, wk_index = vv_vertex_index v\<rparr> of
                   None \<Rightarrow> None
                 | Some w \<Rightarrow> Some (v\<lparr>vv_changed := [], vv_vertex_index := wk_index w\<rparr>,
                     Some (f\<lparr>mf_meshes := m\<lparr>ms_verts := wk_verts w,
                                            ms_objects := count_material (g\<lparr>og_indices := wk_indices w\<rparr>) # tl (ms_objects m)\<rparr>
                                          # tl (mf_meshes f),
                             mf_dirty := True\<rparr>))))"

subsection \<open>The packing of the coordinates\<close>

lemma masks:
  "(0xFFFF :: 'a::len word) = mask 16"
  "(0xFFFF0000 :: 64 word) = push_bit 16 (mask 16)"
  "(0xFFFF00000000 :: 64 word) = push_bit 32 (mask 16)"
  by (simp_all add: mask_eq_exp_minus_1 push_bit_eq_mult)

lemma low16_ucast: "low16 c = ucast c"
  unfolding low16_def masks proof (rule bit_word_eqI)
  fix n :: nat
  assume "n < LENGTH(32)"
  moreover have "min 15 n = n" if "n < 16"
    using that by linarith
  moreover have "\<not> bit c n" if "\<not> n < 16"
    using that bit_imp_le_length [of c n] by auto
  ultimately show "bit ((scast c :: 32 word) AND mask 16) n = bit (ucast c :: 32 word) n"
    by (cases "n < 16") (auto simp: bit_simps)
qed

lemma voxel_index_or:
  "voxel_index y x z = push_bit 32 (ucast y) OR push_bit 16 (ucast x) OR ucast z"
proof -
  have z: "ucast (ucast (low16 z) :: coord) = (ucast z :: 64 word)"
    unfolding low16_ucast by (rule bit_word_eqI) (auto simp: bit_simps dest: bit_imp_le_length)
  have x: "ucast (push_bit 16 (low16 x)) = (push_bit 16 (ucast x) :: 64 word)"
    unfolding low16_ucast by (rule bit_word_eqI) (auto simp: bit_simps dest: bit_imp_le_length)
  have y: "ucast (low16 y) = (ucast y :: 64 word)"
    unfolding low16_ucast by (rule bit_word_eqI) (auto simp: bit_simps dest: bit_imp_le_length)
  have "push_bit 32 (ucast y) AND push_bit 16 (ucast x) = (0 :: 64 word)"
    by (rule bit_word_eqI) (auto simp: bit_simps dest: bit_imp_le_length)
  moreover have "(push_bit 32 (ucast y) OR push_bit 16 (ucast x)) AND ucast z = (0 :: 64 word)"
    by (rule bit_word_eqI) (auto simp: bit_simps dest: bit_imp_le_length)
  ultimately show ?thesis
    unfolding voxel_index_def z x y by (simp add: disjunctive_add_eq_or or.assoc)
qed

lemma index_y_index [simp]: "index_y (voxel_index y x z) = y"
  unfolding voxel_index_or index_y_def masks
  by (rule bit_word_eqI) (auto simp: bit_simps dest: bit_imp_le_length)

lemma index_x_index [simp]: "index_x (voxel_index y x z) = x"
  unfolding voxel_index_or index_x_def masks
  by (rule bit_word_eqI) (auto simp: bit_simps dest: bit_imp_le_length)

lemma index_z_index [simp]: "index_z (voxel_index y x z) = z"
  unfolding voxel_index_or index_z_def masks
  by (rule bit_word_eqI) (auto simp: bit_simps dest: bit_imp_le_length)

subsection \<open>Blocks\<close>

text \<open>
  What the mesh of a volume is made of: the vertices of one voxel after the other, in their order or
  reversed, and the same 36 indices over again, shifted by the offset of the block.
\<close>

definition block_verts :: "64 word \<times> bool \<Rightarrow> rat vertex list" where
  "block_verts b = (if snd b then rev (voxel_verts (fst b)) else voxel_verts (fst b))"

definition block_quads :: "nat \<Rightarrow> nat list" where
  "block_quads n = concat (map (\<lambda>k. voxel_quads (24 * k)) [0..<n])"

definition packed :: "64 word \<Rightarrow> bool" where
  "packed i \<longleftrightarrow> voxel_index (index_y i) (index_x i) (index_z i) = i"

lemma packed_voxel_index [simp]: "packed (voxel_index y x z)"
  by (simp add: packed_def)

lemma length_IdentityVerts [simp]: "length IdentityVerts = 24"
  by (simp add: IdentityVerts_def)

lemma length_block_verts [simp]: "length (block_verts b) = 24"
  by (simp add: block_verts_def voxel_verts_def)

lemma length_concat_blocks [simp]: "length (concat (map block_verts bs)) = 24 * length bs"
  by (induction bs) simp_all

lemma voxel_quads_nth: "voxel_quads off = map (\<lambda>d. d + off) [0,1,2,2,3,0, 4,5,6,6,7,4, 8,9,10,10,11,8, 12,13,14,14,15,12, 16,17,18,18,19,16, 20,21,22,22,23,20]"
  by (simp add: voxel_quads_def upt_rec)

lemma length_voxel_quads [simp]: "length (voxel_quads off) = 36"
  by (simp add: voxel_quads_nth)

lemma voxel_quads_range:
  assumes "d \<in> set (voxel_quads off)"
  shows "off \<le> d \<and> d < off + 24"
  using assms by (auto simp: voxel_quads_nth)

lemma block_quads_Suc: "block_quads (Suc n) = block_quads n @ voxel_quads (24 * n)"
  by (simp add: block_quads_def)

lemma length_block_quads [simp]: "length (block_quads n) = 36 * n"
  by (induction n) (simp_all add: block_quads_Suc block_quads_def [of 0])

lemma block_quads_range:
  "p < 36 * n \<Longrightarrow> 24 * (p div 36) \<le> block_quads n ! p \<and> block_quads n ! p < 24 * Suc (p div 36)"
proof (induction n)
  case (Suc n)
  show ?case
  proof (cases "p < 36 * n")
    case True
    then show ?thesis using Suc.IH by (simp add: block_quads_Suc nth_append)
  next
    case False
    then have p: "p div 36 = n" "p - 36 * n < 36"
      using Suc.prems by auto
    have "voxel_quads (24 * n) ! (p - 36 * n) \<in> set (voxel_quads (24 * n))"
      using p(2) by simp
    from voxel_quads_range [OF this] show ?thesis
      using False p(1) by (simp add: block_quads_Suc nth_append)
  qed
qed simp

lemma block_quads_start: "k < n \<Longrightarrow> block_quads n ! (36 * k) = 24 * k"
proof (induction n)
  case (Suc n)
  then show ?case
    by (cases "k = n") (simp_all add: block_quads_Suc nth_append voxel_quads_nth)
qed simp

lemma take_block_quads: "k \<le> n \<Longrightarrow> take (36 * k) (block_quads n) = block_quads k"
proof (induction n)
  case (Suc n)
  then show ?case
    by (cases "k = Suc n") (simp_all add: block_quads_Suc)
qed (simp add: block_quads_def)

text \<open>The loop passes over the indices that do not match.\<close>

lemma remove_indices_skip:
  assumes "i \<le> m" and "m \<le> length is" and "\<And>p. i \<le> p \<Longrightarrow> p < m \<Longrightarrow> is ! p \<noteq> off"
  shows "remove_indices off i is = remove_indices off m is"
  using assms
proof (induction "m - i" arbitrary: i)
  case (Suc d)
  then have "i < length is" "is ! i \<noteq> off"
    by auto
  then have "remove_indices off i is = remove_indices off (Suc i) is"
    by (simp add: remove_indices.simps [of off i])
  also have "\<dots> = remove_indices off m is"
    by (rule Suc.hyps(1)) (use Suc in auto)
  finally show ?case .
qed simp

lemma remove_indices_block:
  assumes "k < n"
  shows "remove_indices (24 * k) 0 (block_quads n) = Some (block_quads (n - 1))"
proof -
  have "remove_indices (24 * k) 0 (block_quads n) = remove_indices (24 * k) (36 * k) (block_quads n)"
  proof (rule remove_indices_skip)
    fix p assume "p < 36 * k"
    then have "Suc (p div 36) \<le> k" "p < 36 * n"
      using assms by linarith+
    then show "block_quads n ! p \<noteq> 24 * k"
      using less_le_trans [of "block_quads n ! p" _ "24 * k", OF _ mult_le_mono2 [of "Suc (p div 36)" k 24]]
        block_quads_range [of p n] by (metis less_irrefl)
  qed (use assms in auto)
  also have "\<dots> = remove_indices (24 * k) (36 * k + 36 + 1) (block_quads (n - 1))"
  proof -
    have "take (length (block_quads n) - 36) (block_quads n) = block_quads (n - 1)"
      using take_block_quads [of "n - 1" n] by (simp add: diff_mult_distrib2)
    then show ?thesis
      using assms block_quads_start [OF assms] by (subst remove_indices.simps) simp
  qed
  also have "\<dots> = Some (block_quads (n - 1))"
  proof (cases "36 * k + 36 + 1 \<le> 36 * (n - 1)")
    case True
    have "remove_indices (24 * k) (36 * k + 36 + 1) (block_quads (n - 1))
      = remove_indices (24 * k) (36 * (n - 1)) (block_quads (n - 1))"
    proof (rule remove_indices_skip)
      fix p assume p: "36 * k + 36 + 1 \<le> p" "p < 36 * (n - 1)"
      then have "Suc k \<le> p div 36" by linarith
      then show "block_quads (n - 1) ! p \<noteq> 24 * k"
        using block_quads_range [OF p(2)] by linarith
    qed (use True in auto)
    then show ?thesis
      using remove_indices.simps [of "24 * k" "36 * (n - 1)" "block_quads (n - 1)"] by simp
  next
    case False
    then show ?thesis
      using remove_indices.simps [of "24 * k" "36 * k + 36 + 1" "block_quads (n - 1)"] by simp
  qed
  finally show ?thesis .
qed

text \<open>The swaps put the last block, reversed, in the place of the one that is removed.\<close>

lemma swap_pop_end:
  "length pre = off + i \<Longrightarrow> swap_pop off i (pre @ b # mid @ [l]) = Some (pre @ l # mid)"
  by (simp add: swap_pop_def list_update_append butlast_append)

lemma swap_blocks:
  assumes "length B = length L"
  shows "each (swap_pop (length A)) [0..<length L] (A @ B @ C @ L) = Some (A @ rev L @ C)"
proof -
  let ?n = "length L"
  let ?P = "\<lambda>j vs. vs = A @ take j (rev L) @ drop j B @ C @ take (?n - j) L"
  have "\<exists>vs. each (swap_pop (length A)) [0..<?n] (A @ B @ C @ L) = Some vs \<and> ?P ?n vs"
  proof (rule each_upt [where P = ?P])
    fix j vs assume j: "j < ?n" and vs: "?P j vs"
    have B: "drop j B = B ! j # drop (Suc j) B"
      using j assms by (simp add: Cons_nth_drop_Suc)
    have L: "take (?n - j) L = take (?n - Suc j) L @ [rev L ! j]"
      using j take_Suc_conv_app_nth [of "?n - Suc j" L] by (simp add: rev_nth Suc_diff_Suc)
    have R: "take (Suc j) (rev L) = take j (rev L) @ [rev L ! j]"
      using j by (simp add: take_Suc_conv_app_nth)
    have "vs = (A @ take j (rev L)) @ B ! j # (drop (Suc j) B @ C @ take (?n - Suc j) L) @ [rev L ! j]"
      using vs unfolding B L by simp
    moreover have "length (A @ take j (rev L)) = length A + j"
      using j by simp
    ultimately show "\<exists>vs'. swap_pop (length A) j vs = Some vs' \<and> ?P (Suc j) vs'"
      using swap_pop_end [of "A @ take j (rev L)" "length A" j "B ! j" "drop (Suc j) B @ C @ take (?n - Suc j) L" "rev L ! j"]
      by (simp add: R)
  qed simp
  then show ?thesis
    using assms by simp
qed

definition flip_block :: "64 word \<times> bool \<Rightarrow> 64 word \<times> bool" where
  "flip_block b = (fst b, \<not> snd b)"

lemma block_verts_flip: "block_verts (flip_block b) = rev (block_verts b)"
  by (simp add: block_verts_def flip_block_def)

definition take_block :: "nat \<Rightarrow> (64 word \<times> bool) list \<Rightarrow> (64 word \<times> bool) list" where
  "take_block k bs = butlast (if Suc k = length bs then bs else bs[k := flip_block (last bs)])"

lemma split_blocks:
  assumes "Suc k < length bs"
  obtains as mid where "bs = as @ bs ! k # mid @ [last bs]" "length as = k" "take_block k bs = as @ flip_block (last bs) # mid"
proof
  let ?mid = "butlast (drop (Suc k) bs)"
  have "drop (Suc k) bs = ?mid @ [last bs]"
    using assms by (metis append_butlast_last_id drop_eq_Nil last_drop leD)
  then show bs: "bs = take k bs @ bs ! k # ?mid @ [last bs]"
    using assms by (metis Suc_lessD id_take_nth_drop)
  show len: "length (take k bs) = k"
    using assms by simp
  have "bs[k := flip_block (last bs)] = take k bs @ flip_block (last bs) # ?mid @ [last bs]"
    using bs len by (metis list_update_length)
  then show "take_block k bs = take k bs @ flip_block (last bs) # ?mid"
    using assms by (simp add: take_block_def butlast_append)
qed

lemma remove_verts:
  assumes "Suc k < length bs"
  shows "each (swap_pop (24 * k)) [0..<24] (concat (map block_verts bs)) = Some (concat (map block_verts (take_block k bs)))"
proof -
  obtain as mid where bs: "bs = as @ bs ! k # mid @ [last bs]" "length as = k" "take_block k bs = as @ flip_block (last bs) # mid"
    using split_blocks [OF assms] .
  have "concat (map block_verts bs) = concat (map block_verts as) @ block_verts (bs ! k) @ concat (map block_verts mid) @ block_verts (last bs)"
    by (subst bs(1)) simp
  then show ?thesis
    using swap_blocks [of "block_verts (bs ! k)" "block_verts (last bs)" "concat (map block_verts as)" "concat (map block_verts mid)"] bs(2,3)
    by (simp add: block_verts_flip)
qed

subsection \<open>What the mesh shows\<close>

text \<open>
  The blocks of the mesh and the offsets that the volume remembers: each is the offset of a block of
  the voxel. More than one block may show a voxel, and only one of them is remembered.
\<close>

definition displays :: "(64 word \<times> bool) list \<Rightarrow> voxel_work \<Rightarrow> bool" where
  "displays bs w \<longleftrightarrow> wk_verts w = concat (map block_verts bs) \<and> wk_indices w = block_quads (length bs)
     \<and> (\<forall>b \<in> set bs. packed (fst b))
     \<and> (\<forall>i off. wk_index w i = Some off \<longrightarrow> (\<exists>k < length bs. off = 24 * k \<and> fst (bs ! k) = i))"

lemma displays_append:
  assumes d: "displays bs w" and i: "packed i"
  shows "displays (bs @ [(i, False)]) (append_voxel i w)"
proof -
  have "\<exists>k < length (bs @ [(i, False)]). x = 24 * k \<and> fst ((bs @ [(i, False)]) ! k) = j"
    if j: "((wk_index w)(i \<mapsto> length (wk_verts w))) j = Some x" for j x
  proof (cases "j = i")
    case True
    then show ?thesis
      using j d by (intro exI [of _ "length bs"]) (simp add: displays_def)
  next
    case False
    then obtain k where "k < length bs" "x = 24 * k" "fst (bs ! k) = j"
      using j d unfolding displays_def by (metis fun_upd_other)
    then show ?thesis
      by (intro exI [of _ k]) (simp add: nth_append)
  qed
  then show ?thesis
    using d i by (simp add: displays_def append_voxel_def Let_def block_verts_def block_quads_Suc ball_Un)
qed

lemma first_of_block:
  "block_verts b ! 0 = (if snd b then voxel_verts (fst b) ! 23 else voxel_verts (fst b) ! 0)"
  by (simp add: block_verts_def voxel_verts_def rev_nth)

text \<open>The first and the last vertex of a voxel are both at its corner \<open>(0, 0, 1)\<close>.\<close>

lemma word_of_int_sint: "word_of_int (sint c) = (c :: 'a::len word)"
  by transfer simp

lemma to_coord_sint: "to_coord (of_int (sint c)) = Some c"
  using sint_range_size [of c] word_of_int_sint [of c] by (simp add: to_coord_def word_size del: of_int_sint)

lemma index_of_block:
  assumes "packed (fst b)"
  shows "index_of_vert (block_verts b ! 0) = Some (fst b)"
proof -
  have "vt_position (block_verts b ! 0) = vec_sum \<lparr>vx = 0, vy = 0, vz = 1\<rparr> (voxel_pos (fst b))"
    by (simp add: first_of_block voxel_verts_def IdentityVerts_def ident_vert_def)
  then have "vec_diff (vt_position (block_verts b ! 0)) (vt_position (IdentityVerts ! 0)) = voxel_pos (fst b)"
    by (simp add: vec_diff_def vec_sum_def voxel_pos_def IdentityVerts_def ident_vert_def del: of_int_sint)
  then show ?thesis
    using assms by (simp add: index_of_vert_def voxel_pos_def to_coord_sint packed_def Let_def del: of_int_sint)
qed

lemma nth_concat_blocks:
  "k < length bs \<Longrightarrow> concat (map block_verts bs) ! (24 * k) = block_verts (bs ! k) ! 0"
proof (induction bs arbitrary: k)
  case (Cons b bs)
  then show ?case by (cases k) (simp_all add: nth_append)
qed simp

lemma length_take_block [simp]: "length (take_block k bs) = length bs - 1"
  by (simp add: take_block_def)

lemma take_block_nth:
  assumes "k < length bs" and "m < length bs - 1"
  shows "take_block k bs ! m = (if m = k then flip_block (last bs) else bs ! m)"
  using assms by (auto simp: take_block_def nth_butlast)

lemma take_block_set: "b \<in> set (take_block k bs) \<Longrightarrow> \<exists>c \<in> set bs. fst b = fst c"
  unfolding take_block_def
  by (cases "bs = []") (auto dest!: in_set_butlastD set_update_subset_insert [THEN subsetD] simp: flip_block_def split: if_splits)

lemma displays_take_block:
  assumes d: "displays bs w" and k: "k < length bs" "fst (bs ! k) = i" and i: "wk_index w i = Some (24 * k)"
  shows "displays (take_block k bs)
    \<lparr>wk_verts = concat (map block_verts (take_block k bs)), wk_indices = block_quads (length bs - 1),
     wk_index = (if Suc k = length bs then wk_index w else (wk_index w)(fst (last bs) \<mapsto> 24 * k))(i := None)\<rparr>"
proof -
  have "\<exists>m < length bs - 1. x = 24 * m \<and> fst (take_block k bs ! m) = j"
    if j: "((if Suc k = length bs then wk_index w else (wk_index w)(fst (last bs) \<mapsto> 24 * k))(i := None)) j = Some x" for j x
  proof (cases "Suc k \<noteq> length bs \<and> j = fst (last bs)")
    case True
    then show ?thesis
      using j k by (intro exI [of _ k]) (auto simp: take_block_nth flip_block_def split: if_splits)
  next
    case False
    then have "wk_index w j = Some x" "j \<noteq> i"
      using j by (auto split: if_splits)
    then obtain m where m: "m < length bs" "x = 24 * m" "fst (bs ! m) = j"
      using d unfolding displays_def by blast
    have "m \<noteq> k"
      using m(3) k(2) \<open>j \<noteq> i\<close> by blast
    moreover have "m \<noteq> length bs - 1"
      using calculation False m k(1) last_conv_nth [of bs] by force
    ultimately show ?thesis
      using m k(1) by (intro exI [of _ m]) (simp add: take_block_nth)
  qed
  then show ?thesis
    using d take_block_set [of _ k bs] unfolding displays_def by fastforce
qed

lemma displays_remove:
  assumes d: "displays bs w" and i: "wk_index w i = Some off"
  shows "\<exists>k w1. k < length bs \<and> off = 24 * k \<and> fst (bs ! k) = i
    \<and> remove_block i w = Some w1 \<and> displays (take_block k bs) w1
    \<and> wk_index w1 = (if Suc k = length bs then wk_index w else (wk_index w)(fst (last bs) \<mapsto> 24 * k))(i := None)"
proof -
  obtain k where k: "k < length bs" "off = 24 * k" "fst (bs ! k) = i"
    using d i unfolding displays_def by blast
  have w: "wk_verts w = concat (map block_verts bs)" "wk_indices w = block_quads (length bs)"
    using d by (simp_all add: displays_def)
  have indices: "remove_indices off 0 (wk_indices w) = Some (block_quads (length bs - 1))"
    using remove_indices_block [OF k(1)] by (simp add: w k(2))
  define w1 where "w1 = \<lparr>wk_verts = concat (map block_verts (take_block k bs)), wk_indices = block_quads (length bs - 1),
     wk_index = (if Suc k = length bs then wk_index w else (wk_index w)(fst (last bs) \<mapsto> 24 * k))(i := None)\<rparr>"
  have "remove_block i w = Some w1"
  proof (cases "Suc k = length bs")
    case True
    then have "bs = butlast bs @ [last bs]" "length (butlast bs) = k"
      by (cases bs rule: rev_cases; simp)+
    then have "take (24 * k) (concat (map block_verts bs)) = concat (map block_verts (butlast bs))"
      by (metis append_eq_conv_conj concat_append length_concat_blocks map_append)
    then show ?thesis
      using True i indices k(2) by (simp add: remove_block_def w take_block_def w1_def)
  next
    case False
    then have k1: "Suc k < length bs" using k(1) by simp
    have "last bs \<in> set bs"
      using k1 by (intro last_in_set) auto
    then have last: "take_block k bs ! k = flip_block (last bs)" "packed (fst (last bs))"
      using take_block_nth [of k bs k] k1 d by (simp_all add: displays_def)
    have "index_of_vert (concat (map block_verts (take_block k bs)) ! off) = Some (fst (last bs))"
      using nth_concat_blocks [of k "take_block k bs"] index_of_block [of "flip_block (last bs)"] k1 k(2) last
      by (simp add: flip_block_def)
    then show ?thesis
      using False k1 i indices k(2) remove_verts [OF k1] by (simp add: remove_block_def w w1_def)
  qed
  moreover have "displays (take_block k bs) w1"
    unfolding w1_def using displays_take_block [OF d k(1,3)] i k(2) by simp
  ultimately show ?thesis
    using k by (intro exI [of _ k] exI [of _ w1]) (simp add: w1_def)
qed

subsection \<open>Runs of a volume\<close>

interpretation change: safe_system "change_voxel present" "\<lambda>w. \<exists>bs. displays bs w" packed for present
proof
  fix i w assume "packed i" and "\<exists>bs. displays bs w"
  then obtain bs where "displays bs w" by blast
  then show "\<exists>w1. change_voxel present i w = Some w1 \<and> (\<exists>bs. displays bs w1)"
    using displays_append [OF \<open>displays bs w\<close> \<open>packed i\<close>] displays_remove [of bs w i]
    by (cases "wk_index w i") (auto simp: change_voxel_def remove_block_def)
qed

text \<open>
  Every block is remembered and no voxel has two: this holds as long as no voxel is added that
  is there, or whose removal is still pending.
\<close>

definition exact :: "(64 word \<times> bool) list \<Rightarrow> voxel_work \<Rightarrow> bool" where
  "exact bs w \<longleftrightarrow> displays bs w \<and> distinct (map fst bs) \<and> dom (wk_index w) = set (map fst bs)"

lemma exact_append:
  assumes "exact bs w" and "packed i" and "wk_index w i = None"
  shows "exact (bs @ [(i, False)]) (append_voxel i w)"
proof -
  have "i \<notin> set (map fst bs)"
    using assms(1,3) unfolding exact_def by (metis domIff)
  then show ?thesis
    using assms displays_append [of bs w i] by (simp add: exact_def append_voxel_def Let_def)
qed

lemma take_block_fst:
  assumes "k < length bs" and "distinct (map fst bs)"
  shows "distinct (map fst (take_block k bs))" "set (map fst (take_block k bs)) = set (map fst bs) - {fst (bs ! k)}"
proof -
  have "distinct (map fst (take_block k bs)) \<and> set (map fst (take_block k bs)) = set (map fst bs) - {fst (bs ! k)}"
  proof (cases "Suc k = length bs")
    case True
    then obtain cs b where bs: "bs = cs @ [b]" "length cs = k"
      by (cases bs rule: rev_cases) auto
    then have "bs ! k = b" by auto
    then show ?thesis
      using assms(2) by (simp add: take_block_def bs)
  next
    case False
    then obtain as mid where bs: "bs = as @ bs ! k # mid @ [last bs]" and "length as = k"
      and t: "take_block k bs = as @ flip_block (last bs) # mid"
      using split_blocks [of k bs] assms(1) by (metis Suc_lessI)
    have "distinct (map fst (as @ bs ! k # mid @ [last bs]))"
      "set (map fst bs) = set (map fst (as @ bs ! k # mid @ [last bs]))"
      using assms(2) bs by simp_all
    then show ?thesis
      unfolding t by (auto simp: flip_block_def)
  qed
  then show "distinct (map fst (take_block k bs))" "set (map fst (take_block k bs)) = set (map fst bs) - {fst (bs ! k)}"
    by blast+
qed

lemma exact_remove:
  assumes "exact bs w"
  shows "\<exists>cs w1. remove_block i w = Some w1 \<and> exact cs w1 \<and> dom (wk_index w1) = dom (wk_index w) - {i}"
proof (cases "wk_index w i")
  case None
  then show ?thesis
    using assms by (auto simp: remove_block_def)
next
  case (Some off)
  obtain k w1 where k: "k < length bs" "fst (bs ! k) = i" "remove_block i w = Some w1" "displays (take_block k bs) w1"
    and w1: "wk_index w1 = (if Suc k = length bs then wk_index w else (wk_index w)(fst (last bs) \<mapsto> 24 * k))(i := None)"
    using displays_remove [OF _ Some] assms unfolding exact_def by blast
  have "last bs \<in> set bs"
    using k(1) by (intro last_in_set) auto
  then have "fst (last bs) \<in> dom (wk_index w)"
    using assms by (simp add: exact_def)
  then have dom1: "dom (wk_index w1) = dom (wk_index w) - {i}"
    by (auto simp: w1)
  then have "exact (take_block k bs) w1"
    using assms k(4) take_block_fst [OF k(1)] k(2) by (simp add: exact_def)
  then show ?thesis
    using k(3) dom1 by blast
qed

lemma exact_changes:
  assumes "exact bs w" and "\<forall>i \<in> set q. packed i"
    and "\<And>i. i \<in> set q \<Longrightarrow> present i \<Longrightarrow> i \<notin> dom (wk_index w) \<and> count_list q i = 1"
  shows "\<exists>cs w1. each (change_voxel present) q w = Some w1 \<and> exact cs w1
    \<and> dom (wk_index w1) = {i. if i \<in> set q then present i else i \<in> dom (wk_index w)}"
  using assms
proof (induction q arbitrary: bs w)
  case (Cons i q)
  have "\<exists>bs2 w2. change_voxel present i w = Some w2 \<and> exact bs2 w2
    \<and> dom (wk_index w2) = (if present i then insert i (dom (wk_index w)) else dom (wk_index w) - {i})"
  proof (cases "present i")
    case True
    then have "exact (bs @ [(i, False)]) (append_voxel i w)"
      using Cons.prems by (intro exact_append) (auto simp: domIff)
    then show ?thesis
      using True by (force simp: change_voxel_def append_voxel_def Let_def)
  next
    case False
    then show ?thesis
      using exact_remove [OF Cons.prems(1), of i] by (simp add: change_voxel_def)
  qed
  then obtain bs2 w2 where w2: "change_voxel present i w = Some w2" "exact bs2 w2"
    "dom (wk_index w2) = (if present i then insert i (dom (wk_index w)) else dom (wk_index w) - {i})"
    by blast
  have "j \<notin> dom (wk_index w2) \<and> count_list q j = 1" if "j \<in> set q" "present j" for j
    using Cons.prems(3) [of j] Cons.prems(3) [of i] that w2(3) count_list_0_iff [of q i]
    by (auto split: if_splits)
  then obtain cs w1 where w1: "each (change_voxel present) q w2 = Some w1" "exact cs w1"
    "dom (wk_index w1) = {i. if i \<in> set q then present i else i \<in> dom (wk_index w2)}"
    using Cons.IH [OF w2(2)] Cons.prems(2) by auto
  have "dom (wk_index w1) = {j. if j \<in> set (i # q) then present j else j \<in> dom (wk_index w)}"
    unfolding w1(3) w2(3) by auto
  then show ?case
    using w1(1,2) w2(1) by auto
qed auto

end
