(* ===== verification/Voxel_System.thy ===== *)
theory Voxel_System
  imports Voxels Controllers
begin

text \<open>
  The life of voxel volumes (client/voxel-volume.cpp): runs of additions, removals and updates of
  one volume, the creation of volumes on named meshes, their static command queue, the mouse
  clicks that edit them, and the update of all of them. The runs are compared with the set of
  voxels they should show.
\<close>

subsection \<open>Runs of one volume\<close>

datatype voxel_call =
    Call_add coord coord coord
  | Call_remove coord coord coord
  | Call_update_mesh

definition voxel_step ::
    "voxel_call \<Rightarrow> voxel_volume \<times> rat mesh_file option \<Rightarrow> (voxel_volume \<times> rat mesh_file option) option" where
  "voxel_step call s = (case s of (v, mesh) \<Rightarrow> (case call of
      Call_add y x z \<Rightarrow> Some (AddVoxel y x z v, mesh)
    | Call_remove y x z \<Rightarrow> Some (RemoveVoxel y x z v, mesh)
    | Call_update_mesh \<Rightarrow> UpdateMesh v mesh))"

definition new_mesh_file :: "string \<Rightarrow> rat mesh_file" where
  "new_mesh_file name = \<lparr>mf_meshes = [], mf_name = name, mf_dirty = False\<rparr>"

definition volume_work :: "voxel_volume \<Rightarrow> rat mesh_file \<Rightarrow> object_group \<Rightarrow> voxel_work" where
  "volume_work v f g = \<lparr>wk_verts = ms_verts (first_mesh f), wk_indices = og_indices g, wk_index = vv_vertex_index v\<rparr>"

definition mesh_kept :: "rat mesh_file \<Rightarrow> object_group \<Rightarrow> bool" where
  "mesh_kept f g \<longleftrightarrow> tl (mf_meshes f) = [] \<and> ms_objects (first_mesh f) = [g]
     \<and> \<not> ms_has_color (first_mesh f) \<and> \<not> ms_has_weight (first_mesh f)
     \<and> og_materials g = (if mf_meshes f = [] then []
          else [\<lparr>mg_start = 0, mg_count = length (og_indices g), mg_material = ''voxel'',
                 mg_textures = [''metal_wall'', ''metal_wall_sp'']\<rparr>])"

lemma wk_verts_work: "wk_verts (volume_work v f g) = ms_verts (first_mesh f)"
  by (simp add: volume_work_def)

lemma mesh_kept_new: "mesh_kept (new_mesh_file name) new_object_group"
  by (simp add: mesh_kept_def new_mesh_file_def first_mesh_def CreateMesh_def new_mesh_def new_object_group_def)

lemma displays_new: "displays [] (volume_work (new_voxel_volume a) (new_mesh_file name) new_object_group)"
  by (simp add: displays_def volume_work_def new_voxel_volume_def new_mesh_file_def first_mesh_def CreateMesh_def
      new_mesh_def new_object_group_def block_quads_def)

text \<open>An update is the loop over the changed voxels, put back into the mesh.\<close>

lemma UpdateMesh_kept:
  assumes kept: "mesh_kept f g" and changed: "vv_changed v \<noteq> []"
    and w: "each (change_voxel (\<lambda>i. vv_voxels v i \<noteq> None)) (vv_changed v) (volume_work v f g) = Some w"
  shows "\<exists>f1 g1. UpdateMesh v (Some f) = Some (v\<lparr>vv_changed := [], vv_vertex_index := wk_index w\<rparr>, Some f1)
    \<and> mesh_kept f1 g1 \<and> volume_work (v\<lparr>vv_changed := [], vv_vertex_index := wk_index w\<rparr>) f1 g1 = w"
proof -
  let ?m = "first_mesh f" and ?g = "count_material (g\<lparr>og_indices := wk_indices w\<rparr>)"
  let ?m1 = "?m\<lparr>ms_verts := wk_verts w, ms_objects := [?g]\<rparr>"
  let ?f1 = "f\<lparr>mf_meshes := [?m1], mf_dirty := True\<rparr>"
  have k: "ms_objects ?m = [g]" "tl (mf_meshes f) = []"
    using kept by (simp_all add: mesh_kept_def)
  have "UpdateMesh v (Some f) = Some (v\<lparr>vv_changed := [], vv_vertex_index := wk_index w\<rparr>, Some ?f1)"
    using changed w k by (simp add: UpdateMesh_def Let_def volume_work_def)
  moreover have "first_mesh ?f1 = ?m1"
    by (simp add: first_mesh_def)
  moreover have "mesh_kept ?f1 ?g"
    using kept calculation(2) by (auto simp: mesh_kept_def count_material_def Let_def)
  moreover have "og_indices ?g = wk_indices w"
    by (simp add: count_material_def Let_def)
  ultimately show ?thesis
    by (intro exI [of _ ?f1] exI [of _ ?g]) (simp add: volume_work_def)
qed

lemma kept_wf:
  assumes kept: "mesh_kept f g" and shown: "displays bs (volume_work v f g)" and m: "m \<in> set (mf_meshes f)"
  shows "wf_mesh m"
proof -
  have "mf_meshes f = [m]"
    using kept m by (cases "mf_meshes f") (auto simp: mesh_kept_def)
  have ind: "og_indices g = block_quads (length bs)" and verts: "length (ms_verts (first_mesh f)) = 24 * length bs"
    using shown by (simp_all add: displays_def volume_work_def)
  have "i < 24 * length bs" if i: "i \<in> set (block_quads (length bs))" for i
  proof -
    obtain p where p: "p < 36 * length bs" "block_quads (length bs) ! p = i"
      using i by (auto simp: in_set_conv_nth)
    then have "Suc (p div 36) \<le> length bs" by linarith
    then have "24 * Suc (p div 36) \<le> 24 * length bs" by simp
    then show ?thesis
      using block_quads_range [OF p(1)] p(2) by linarith
  qed
  then have "wf_object (length (ms_verts (first_mesh f))) g"
    using kept \<open>mf_meshes f = [m]\<close> unfolding wf_object_def ind verts
    by (simp add: mesh_kept_def ind)
  moreover have "ms_verts (first_mesh f) = ms_verts m" "ms_has_color (first_mesh f) = ms_has_color m"
    "ms_has_weight (first_mesh f) = ms_has_weight m" "ms_objects m = [] \<or> ms_objects (first_mesh f) = ms_objects m"
    using \<open>mf_meshes f = [m]\<close> by (auto simp: first_mesh_def)
  moreover have "ms_objects (first_mesh f) = [g]" "\<not> ms_has_color (first_mesh f)" "\<not> ms_has_weight (first_mesh f)"
    using kept by (simp_all add: mesh_kept_def)
  ultimately show ?thesis
    unfolding wf_mesh_def vert_count_def by (metis empty_iff empty_set set_ConsD)
qed

definition volume_sound :: "voxel_volume \<times> rat mesh_file option \<Rightarrow> bool" where
  "volume_sound s \<longleftrightarrow> (\<forall>i \<in> set (vv_changed (fst s)). packed i)
     \<and> (\<exists>f g bs. snd s = Some f \<and> mesh_kept f g \<and> displays bs (volume_work (fst s) f g))"

lemma changed_simps [simp]:
  "vv_changed (AddVoxel y x z v) = vv_changed v @ [voxel_index y x z]"
  "vv_changed (RemoveVoxel y x z v) = vv_changed v @ [voxel_index y x z]"
  "vv_vertex_index (AddVoxel y x z v) = vv_vertex_index v"
  "vv_vertex_index (RemoveVoxel y x z v) = vv_vertex_index v"
  by (simp_all add: AddVoxel_def RemoveVoxel_def Let_def)

lemma voxels_simps [simp]:
  "dom (vv_voxels (AddVoxel y x z v)) = insert (voxel_index y x z) (dom (vv_voxels v))"
  "dom (vv_voxels (RemoveVoxel y x z v)) = dom (vv_voxels v) - {voxel_index y x z}"
  by (auto simp: AddVoxel_def RemoveVoxel_def Let_def)

lemma update_sound:
  assumes "volume_sound (v, mesh)"
  shows "\<exists>s1. UpdateMesh v mesh = Some s1 \<and> volume_sound s1"
proof (cases "vv_changed v = []")
  case True
  then have "UpdateMesh v mesh = Some (v, mesh)"
    by (simp add: UpdateMesh_def split: option.split)
  then show ?thesis
    using assms by blast
next
  case False
  obtain f g bs where f: "mesh = Some f" "mesh_kept f g" "displays bs (volume_work v f g)"
    and packed: "\<forall>i \<in> set (vv_changed v). packed i"
    using assms by (auto simp: volume_sound_def)
  obtain w cs where w: "each (change_voxel (\<lambda>i. vv_voxels v i \<noteq> None)) (vv_changed v) (volume_work v f g) = Some w" "displays cs w"
    using change.run_safe [of "volume_work v f g" "vv_changed v"] f(3) packed by blast
  show ?thesis
    using UpdateMesh_kept [OF f(2) False w(1)] w(2) f(1) unfolding volume_sound_def by fastforce
qed

interpretation volume: safe_system voxel_step volume_sound "\<lambda>_. True"
proof
  fix call s assume s: "volume_sound s"
  obtain v mesh where [simp]: "s = (v, mesh)" by force
  show "\<exists>s1. voxel_step call s = Some s1 \<and> volume_sound s1"
    using s update_sound [of v mesh]
    by (cases call) (auto simp: voxel_step_def volume_sound_def volume_work_def)
qed

lemma volume_sound_new: "volume_sound (new_voxel_volume a, Some (new_mesh_file name))"
  using mesh_kept_new displays_new [of a name] by (auto simp: volume_sound_def new_voxel_volume_def)

text \<open>The row, the column and the slice of a voxel are found again in its packed index, so two
  voxels never share an index.
\<close>

theorem voxel_index_unpacks:
  "index_y (voxel_index y x z) = y \<and> index_x (voxel_index y x z) = x \<and> index_z (voxel_index y x z) = z"
  by simp

text \<open>C15: No run of additions, removals and updates of a volume that has its mesh to itself, not even one
  that adds a voxel twice or removes what is not there, accesses a vertex or an index outside the
  mesh; and the mesh is well formed after each: its indices name vertices and its material
  group is a range of the indices.
\<close>

theorem voxel_runs_safe:
  "\<exists>v f. each voxel_step calls (new_voxel_volume a, Some (new_mesh_file name)) = Some (v, Some f)
     \<and> (\<forall>m \<in> set (mf_meshes f). wf_mesh m)"
proof -
  obtain s where s: "each voxel_step calls (new_voxel_volume a, Some (new_mesh_file name)) = Some s" "volume_sound s"
    using volume.run_safe [OF volume_sound_new [of a name], of calls] by auto
  then show ?thesis
    using kept_wf by (cases s) (fastforce simp: volume_sound_def)
qed

theorem voxel_runs_safe_witness:
  "\<exists>v f. each voxel_step [Call_add 1 2 3, Call_add 1 2 3, Call_update_mesh, Call_remove 1 2 3, Call_remove 4 5 6, Call_update_mesh]
       (new_voxel_volume (Some 9), Some (new_mesh_file ''volume'')) = Some (v, Some f) \<and> (\<forall>m \<in> set (mf_meshes f). wf_mesh m)"
  by (rule voxel_runs_safe)

subsection \<open>What a volume should show\<close>

text \<open>
  The voxels that are in a volume after a run, and the runs that only add a voxel that is not there
  and was not removed since the last update.
\<close>

fun voxels_after :: "voxel_call list \<Rightarrow> 64 word set \<Rightarrow> 64 word set" where
  "voxels_after [] present = present"
| "voxels_after (Call_add y x z # calls) present = voxels_after calls (insert (voxel_index y x z) present)"
| "voxels_after (Call_remove y x z # calls) present = voxels_after calls (present - {voxel_index y x z})"
| "voxels_after (Call_update_mesh # calls) present = voxels_after calls present"

fun adds_new :: "64 word set \<Rightarrow> 64 word set \<Rightarrow> voxel_call list \<Rightarrow> bool" where
  "adds_new present changed [] = True"
| "adds_new present changed (Call_add y x z # calls) =
     (let i = voxel_index y x z
      in i \<notin> present \<and> i \<notin> changed \<and> adds_new (insert i present) (insert i changed) calls)"
| "adds_new present changed (Call_remove y x z # calls) =
     (let i = voxel_index y x z in adds_new (present - {i}) (insert i changed) calls)"
| "adds_new present changed (Call_update_mesh # calls) = adds_new present {} calls"

text \<open>
  Up to the pending changes the mesh shows the voxels: one that is there is either shown or
  pending, once, and one that is shown and not there is pending.
\<close>

definition in_step :: "voxel_volume \<Rightarrow> rat mesh_file option \<Rightarrow> bool" where
  "in_step v mesh \<longleftrightarrow> (\<exists>f g bs. mesh = Some f \<and> mesh_kept f g \<and> exact bs (volume_work v f g))
     \<and> (\<forall>i \<in> set (vv_changed v). packed i)
     \<and> (\<forall>i \<in> dom (vv_voxels v). if i \<in> set (vv_changed v) then i \<notin> dom (vv_vertex_index v) \<and> count_list (vv_changed v) i = 1
                               else i \<in> dom (vv_vertex_index v))
     \<and> dom (vv_vertex_index v) \<subseteq> dom (vv_voxels v) \<union> set (vv_changed v)"

lemma in_stepD:
  assumes "in_step v mesh"
  shows "i \<in> dom (vv_voxels v) \<Longrightarrow> i \<in> set (vv_changed v) \<Longrightarrow> i \<notin> dom (vv_vertex_index v) \<and> count_list (vv_changed v) i = 1"
    "i \<notin> set (vv_changed v) \<Longrightarrow> i \<in> dom (vv_vertex_index v) \<longleftrightarrow> i \<in> dom (vv_voxels v)"
proof -
  have all: "\<forall>i \<in> dom (vv_voxels v). if i \<in> set (vv_changed v) then i \<notin> dom (vv_vertex_index v) \<and> count_list (vv_changed v) i = 1
                               else i \<in> dom (vv_vertex_index v)"
    and sub: "dom (vv_vertex_index v) \<subseteq> dom (vv_voxels v) \<union> set (vv_changed v)"
    using assms by (simp_all add: in_step_def)
  show "i \<in> dom (vv_voxels v) \<Longrightarrow> i \<in> set (vv_changed v) \<Longrightarrow> i \<notin> dom (vv_vertex_index v) \<and> count_list (vv_changed v) i = 1"
    using bspec [OF all, of i] by simp
  show "i \<notin> set (vv_changed v) \<Longrightarrow> i \<in> dom (vv_vertex_index v) \<longleftrightarrow> i \<in> dom (vv_voxels v)"
    using bspec [OF all, of i] subsetD [OF sub, of i] by auto
qed

lemma volume_work_changed [simp]:
  "volume_work (AddVoxel y x z v) f g = volume_work v f g" "volume_work (RemoveVoxel y x z v) f g = volume_work v f g"
  by (simp_all add: volume_work_def)

lemma in_step_add:
  assumes s: "in_step v mesh" and i: "voxel_index y x z \<notin> dom (vv_voxels v)" "voxel_index y x z \<notin> set (vv_changed v)"
  shows "in_step (AddVoxel y x z v) mesh"
proof -
  have "voxel_index y x z \<notin> dom (vv_vertex_index v)" "count_list (vv_changed v) (voxel_index y x z) = 0"
    using s i by (auto simp: in_step_def)
  then show ?thesis
    using s i unfolding in_step_def by auto
qed

lemma in_step_remove:
  assumes s: "in_step v mesh"
  shows "in_step (RemoveVoxel y x z v) mesh"
  using s unfolding in_step_def by auto

lemma in_step_update:
  assumes s: "in_step v mesh"
  shows "\<exists>v1 mesh1. UpdateMesh v mesh = Some (v1, mesh1) \<and> in_step v1 mesh1 \<and> vv_changed v1 = []
    \<and> dom (vv_voxels v1) = dom (vv_voxels v)"
proof (cases "vv_changed v = []")
  case True
  then have "UpdateMesh v mesh = Some (v, mesh)"
    by (simp add: UpdateMesh_def split: option.split)
  then show ?thesis
    using s True by blast
next
  case False
  obtain f g bs where f: "mesh = Some f" "mesh_kept f g" "exact bs (volume_work v f g)"
    and packed: "\<forall>i \<in> set (vv_changed v). packed i"
    using s by (auto simp: in_step_def)
  have index: "wk_index (volume_work v f g) = vv_vertex_index v"
    by (simp add: volume_work_def)
  have "i \<notin> dom (wk_index (volume_work v f g)) \<and> count_list (vv_changed v) i = 1"
    if "i \<in> set (vv_changed v)" "vv_voxels v i \<noteq> None" for i
    using in_stepD(1) [OF s, of i] that unfolding index by (simp add: domIff)
  then obtain w cs where w: "each (change_voxel (\<lambda>i. vv_voxels v i \<noteq> None)) (vv_changed v) (volume_work v f g) = Some w" "exact cs w"
    and dom: "dom (wk_index w) = {i. if i \<in> set (vv_changed v) then vv_voxels v i \<noteq> None else i \<in> dom (vv_vertex_index v)}"
    using exact_changes [OF f(3) packed, of "\<lambda>i. vv_voxels v i \<noteq> None"] unfolding index by blast
  have "dom (wk_index w) = dom (vv_voxels v)"
  proof (rule set_eqI)
    fix i
    show "i \<in> dom (wk_index w) \<longleftrightarrow> i \<in> dom (vv_voxels v)"
      unfolding dom using in_stepD(2) [OF s, of i] by (cases "i \<in> set (vv_changed v)") auto
  qed
  moreover
  obtain f1 g1 where u: "UpdateMesh v mesh = Some (v\<lparr>vv_changed := [], vv_vertex_index := wk_index w\<rparr>, Some f1)"
    "mesh_kept f1 g1" "volume_work (v\<lparr>vv_changed := [], vv_vertex_index := wk_index w\<rparr>) f1 g1 = w"
    using UpdateMesh_kept [OF f(2) False w(1)] f(1) by blast
  moreover from this have "\<exists>g bs. mesh_kept f1 g \<and> exact bs (volume_work (v\<lparr>vv_changed := [], vv_vertex_index := wk_index w\<rparr>) f1 g)"
    using w(2) by metis
  ultimately have "in_step (v\<lparr>vv_changed := [], vv_vertex_index := wk_index w\<rparr>) (Some f1)"
    by (simp add: in_step_def)
  then show ?thesis
    using u(1) by (intro exI [of _ "v\<lparr>vv_changed := [], vv_vertex_index := wk_index w\<rparr>"] exI [of _ "Some f1"]) simp
qed

lemma in_step_new: "in_step (new_voxel_volume a) (Some (new_mesh_file name))"
proof -
  have "exact [] (volume_work (new_voxel_volume a) (new_mesh_file name) new_object_group)"
    using displays_new [of a name] by (simp add: exact_def) (simp add: volume_work_def new_voxel_volume_def)
  then show ?thesis
    using mesh_kept_new [of name] by (auto simp: in_step_def new_voxel_volume_def)
qed

lemma run_in_step:
  assumes "in_step v mesh" and "adds_new (dom (vv_voxels v)) (set (vv_changed v)) calls"
  shows "\<exists>v1 mesh1. each voxel_step calls (v, mesh) = Some (v1, mesh1) \<and> in_step v1 mesh1
    \<and> dom (vv_voxels v1) = voxels_after calls (dom (vv_voxels v))"
  using assms
proof (induction calls arbitrary: v mesh)
  case (Cons call calls)
  show ?case
  proof (cases call)
    case (Call_add y x z)
    then show ?thesis
      using Cons.IH [OF in_step_add [OF Cons.prems(1), of y x z]] Cons.prems(2) by (simp add: voxel_step_def Let_def)
  next
    case (Call_remove y x z)
    then show ?thesis
      using Cons.IH [OF in_step_remove [OF Cons.prems(1), of y x z]] Cons.prems(2) by (simp add: voxel_step_def Let_def)
  next
    case Call_update_mesh
    obtain v1 mesh1 where v1: "UpdateMesh v mesh = Some (v1, mesh1)" "in_step v1 mesh1" "vv_changed v1 = []"
      "dom (vv_voxels v1) = dom (vv_voxels v)"
      using in_step_update [OF Cons.prems(1)] by blast
    then show ?thesis
      using Cons.IH [OF v1(2)] Cons.prems(2) Call_update_mesh by (simp add: voxel_step_def)
  qed
qed simp

text \<open>C16: If no voxel is added that is there or was removed since the last update, then after an update
  the mesh consists of exactly one block of 24 vertices for each voxel of the volume, some
  with their vertices in the reverse order, and of the same 36 indices for each block.
\<close>

theorem voxel_mesh_exact:
  assumes "adds_new {} {} calls"
  shows "\<exists>v f bs. each voxel_step (calls @ [Call_update_mesh]) (new_voxel_volume a, Some (new_mesh_file name)) = Some (v, Some f)
    \<and> distinct (map fst bs) \<and> set (map fst bs) = voxels_after calls {} \<and> dom (vv_voxels v) = voxels_after calls {}
    \<and> ms_verts (first_mesh f) = concat (map block_verts bs)
    \<and> map og_indices (ms_objects (first_mesh f)) = [block_quads (length bs)]"
proof -
  have "dom (vv_voxels (new_voxel_volume a)) = {}" "vv_changed (new_voxel_volume a) = []"
    by (simp_all add: new_voxel_volume_def)
  then obtain v1 mesh1 where v1: "each voxel_step calls (new_voxel_volume a, Some (new_mesh_file name)) = Some (v1, mesh1)"
    "in_step v1 mesh1" "dom (vv_voxels v1) = voxels_after calls {}"
    using run_in_step [OF in_step_new [of a name], of calls] assms by auto
  obtain v mesh where v: "UpdateMesh v1 mesh1 = Some (v, mesh)" "in_step v mesh" "vv_changed v = []" "dom (vv_voxels v) = dom (vv_voxels v1)"
    using in_step_update [OF v1(2)] by blast
  obtain f g bs where f: "mesh = Some f" "mesh_kept f g" "exact bs (volume_work v f g)"
    using v(2) by (auto simp: in_step_def)
  have "dom (vv_vertex_index v) = dom (vv_voxels v)"
    using in_stepD(2) [OF v(2)] v(3) by auto
  then have "set (map fst bs) = voxels_after calls {}"
    using f(3) v(4) v1(3) by (simp add: exact_def volume_work_def)
  then show ?thesis
    using v1 v f by (intro exI [of _ v] exI [of _ f] exI [of _ bs])
      (simp add: each_snoc voxel_step_def exact_def displays_def volume_work_def mesh_kept_def)
qed

lemma voxel_index_eq_iff [simp]: "voxel_index y x z = voxel_index y1 x1 z1 \<longleftrightarrow> y = y1 \<and> x = x1 \<and> z = z1"
  by (metis index_x_index index_y_index index_z_index)

theorem voxel_mesh_exact_witness:
  "\<exists>v f bs. each voxel_step [Call_add 0 0 0, Call_update_mesh, Call_add 0 0 1, Call_remove 0 0 0, Call_update_mesh]
        (new_voxel_volume (Some 0), Some (new_mesh_file ''bob'')) = Some (v, Some f)
    \<and> set (map fst bs) = {voxel_index 0 0 1} \<and> ms_verts (first_mesh f) = concat (map block_verts bs)"
proof -
  have "adds_new {} {} [Call_add 0 0 0, Call_update_mesh, Call_add 0 0 1, Call_remove 0 0 0]"
    by (simp add: Let_def)
  moreover have "voxels_after [Call_add 0 0 0, Call_update_mesh, Call_add 0 0 1, Call_remove 0 0 0] {} = {voxel_index 0 0 1}"
    by auto
  ultimately show ?thesis
    using voxel_mesh_exact [of "[Call_add 0 0 0, Call_update_mesh, Call_add 0 0 1, Call_remove 0 0 0]" "Some 0" "''bob''"] by auto
qed

text \<open>Adding a voxel that is there appends a second block, and only this one is removed with it.\<close>

lemma update_once:
  assumes kept: "mesh_kept f g" and w: "change_voxel (\<lambda>i. vv_voxels v i \<noteq> None) i (volume_work v f g) = Some w"
    and v: "vv_changed v = [i]"
  shows "\<exists>f1 g1. UpdateMesh v (Some f) = Some (v\<lparr>vv_changed := [], vv_vertex_index := wk_index w\<rparr>, Some f1)
    \<and> mesh_kept f1 g1 \<and> volume_work (v\<lparr>vv_changed := [], vv_vertex_index := wk_index w\<rparr>) f1 g1 = w"
  by (rule UpdateMesh_kept [OF kept]) (use v w in simp_all)

lemma volume_work_voxels [simp]:
  "volume_work (v\<lparr>vv_voxels := m\<rparr>) f g = volume_work v f g" "volume_work (v\<lparr>vv_changed := q\<rparr>) f g = volume_work v f g"
  by (simp_all add: volume_work_def)

lemma double_add:
  assumes s: "in_step v (Some f)" and v: "vv_changed v = []" and i: "voxel_index y x z \<in> dom (vv_voxels v)"
  shows "\<exists>v1 f1 bs. each voxel_step [Call_add y x z, Call_update_mesh, Call_remove y x z, Call_update_mesh] (v, Some f) = Some (v1, Some f1)
    \<and> voxel_index y x z \<notin> dom (vv_voxels v1) \<and> voxel_index y x z \<in> set (map fst bs)
    \<and> ms_verts (first_mesh f1) = concat (map block_verts bs)"
proof -
  let ?i = "voxel_index y x z"
  obtain g bs where g: "mesh_kept f g" "exact bs (volume_work v f g)"
    using s by (auto simp: in_step_def)
  have "?i \<in> dom (vv_vertex_index v)"
    using in_stepD(2) [OF s] v i by simp
  then have shown: "?i \<in> set (map fst bs)"
    using g(2) by (simp add: exact_def volume_work_def)
  let ?v = "AddVoxel y x z v" and ?w = "append_voxel ?i (volume_work v f g)"
  obtain f1 g1 where f1: "UpdateMesh ?v (Some f) = Some (?v\<lparr>vv_changed := [], vv_vertex_index := wk_index ?w\<rparr>, Some f1)"
    "mesh_kept f1 g1" "volume_work (?v\<lparr>vv_changed := [], vv_vertex_index := wk_index ?w\<rparr>) f1 g1 = ?w"
    using update_once [OF g(1), of ?v ?i ?w] i v by (auto simp: change_voxel_def AddVoxel_def Let_def)
  have d: "displays (bs @ [(?i, False)]) ?w" and last: "wk_index ?w ?i = Some (24 * length bs)"
    using displays_append [of bs "volume_work v f g" ?i] g(2)
    by (simp_all add: exact_def displays_def append_voxel_def Let_def)
  obtain k w1 where k: "k < length (bs @ [(?i, False)])" "24 * length bs = 24 * k" "remove_block ?i ?w = Some w1"
    "displays (take_block k (bs @ [(?i, False)])) w1"
    using displays_remove [OF d last] by blast
  then have w1: "displays bs w1"
    by (simp add: take_block_def)
  let ?v2 = "?v\<lparr>vv_changed := [], vv_vertex_index := wk_index ?w\<rparr>" 
  let ?v3 = "RemoveVoxel y x z ?v2"
  have absent: "vv_voxels ?v3 ?i = None"
    by (simp add: RemoveVoxel_def Let_def)
  obtain f2 g2 where f2: "UpdateMesh ?v3 (Some f1) = Some (?v3\<lparr>vv_changed := [], vv_vertex_index := wk_index w1\<rparr>, Some f2)"
    "volume_work (?v3\<lparr>vv_changed := [], vv_vertex_index := wk_index w1\<rparr>) f2 g2 = w1"
    using update_once [OF f1(2), of ?v3 ?i w1] absent k(3) f1(3) by (auto simp: change_voxel_def)
  have "ms_verts (first_mesh f2) = concat (map block_verts bs)"
    using w1 arg_cong [OF f2(2), of wk_verts] by (simp add: wk_verts_work displays_def)
  then show ?thesis
    using f1(1) f2(1) shown absent by (intro exI [of _ "?v3\<lparr>vv_changed := [], vv_vertex_index := wk_index w1\<rparr>"] exI [of _ f2] exI [of _ bs])
      (simp add: voxel_step_def domIff)
qed

text \<open>Adding a voxel that is there already and updating the mesh adds its vertices a second time;
  removing the voxel takes away only one of the two blocks, so it stays visible although it is
  no longer in the volume.
\<close>

theorem voxel_added_twice_stays:
  assumes "adds_new {} {} calls" and "voxel_index y x z \<in> voxels_after calls {}"
  shows "\<exists>v f bs. each voxel_step (calls @ [Call_update_mesh] @ [Call_add y x z, Call_update_mesh, Call_remove y x z, Call_update_mesh])
        (new_voxel_volume a, Some (new_mesh_file name)) = Some (v, Some f)
    \<and> voxel_index y x z \<notin> dom (vv_voxels v) \<and> voxel_index y x z \<in> set (map fst bs)
    \<and> ms_verts (first_mesh f) = concat (map block_verts bs)"
proof -
  have "dom (vv_voxels (new_voxel_volume a)) = {}" "vv_changed (new_voxel_volume a) = []"
    by (simp_all add: new_voxel_volume_def)
  then obtain v1 mesh1 where v1: "each voxel_step calls (new_voxel_volume a, Some (new_mesh_file name)) = Some (v1, mesh1)"
    "in_step v1 mesh1" "dom (vv_voxels v1) = voxels_after calls {}"
    using run_in_step [OF in_step_new [of a name], of calls] assms(1) by auto
  obtain v mesh where v: "UpdateMesh v1 mesh1 = Some (v, mesh)" "in_step v mesh" "vv_changed v = []" "dom (vv_voxels v) = dom (vv_voxels v1)"
    using in_step_update [OF v1(2)] by blast
  obtain f where f: "mesh = Some f"
    using v(2) by (auto simp: in_step_def)
  have "each voxel_step (calls @ [Call_update_mesh]) (new_voxel_volume a, Some (new_mesh_file name)) = Some (v, Some f)"
    using v1(1) v(1) f by (simp add: each_snoc voxel_step_def)
  then have "each voxel_step (calls @ [Call_update_mesh] @ cs) (new_voxel_volume a, Some (new_mesh_file name)) = each voxel_step cs (v, Some f)" for cs
    using each_append [of voxel_step "calls @ [Call_update_mesh]" cs] by simp
  then show ?thesis
    using double_add [of v f y x z] v(2-4) v1(3) f assms(2) by simp
qed

theorem voxel_added_twice_stays_witness:
  "\<exists>v f bs. each voxel_step [Call_add 0 0 0, Call_update_mesh, Call_add 0 0 0, Call_update_mesh, Call_remove 0 0 0, Call_update_mesh]
        (new_voxel_volume (Some 0), Some (new_mesh_file ''bob'')) = Some (v, Some f)
    \<and> voxel_index 0 0 0 \<notin> dom (vv_voxels v) \<and> voxel_index 0 0 0 \<in> set (map fst bs)
    \<and> ms_verts (first_mesh f) = concat (map block_verts bs)"
  using voxel_added_twice_stays [of "[Call_add 0 0 0]" 0 0 0 "Some 0" "''bob''"] by (simp add: Let_def)

subsection \<open>The volumes of the client\<close>

text \<open>
  \<open>VoxelVolumeMap\<close>, \<open>MeshMap\<close> and the mesh files, which volumes and the renderer share by address. A
  volume has its own \<open>local_queue\<close> of commands; \<open>global_command_queue\<close> is static. The textures that the
  constructor loads are left out. The positions and orientations are those of the entities.
\<close>

record 'c voxel_world =
  vw_edit_allowed :: bool
  vw_events :: "(eid \<times> (mouse_btn \<times> rat vec3)) list"
  vw_volumes :: "(eid, 'c list \<times> voxel_volume) omap"
  vw_commands :: "'c list"
  vw_mesh_map :: "(string, nat) omap"
  vw_meshes :: "nat \<rightharpoonup> rat mesh_file"
  vw_next :: nat
  vw_positions :: "(eid, rat vec3) omap"
  vw_orientations :: "(eid, rat quat) omap"

definition lock_mesh :: "nat option \<Rightarrow> 'c voxel_world \<Rightarrow> rat mesh_file option" where
  "lock_mesh a w = (case a of None \<Rightarrow> None | Some p \<Rightarrow> vw_meshes w p)"

definition Create_volume :: "eid \<Rightarrow> nat option \<Rightarrow> 'c voxel_world \<Rightarrow> 'c voxel_world" where
  "Create_volume i mesh w = w\<lparr>vw_volumes := om_put i ([], new_voxel_volume mesh) (vw_volumes w)\<rparr>"

definition Create_named :: "eid \<Rightarrow> string \<Rightarrow> 'c voxel_world \<Rightarrow> 'c voxel_world" where
  "Create_named i name w =
     (let w1 = (if lock_mesh (map_of (vw_mesh_map w) name) w = None
                then w\<lparr>vw_mesh_map := om_put name (vw_next w) (vw_mesh_map w),
                       vw_meshes := (vw_meshes w)(vw_next w \<mapsto> new_mesh_file name), vw_next := Suc (vw_next w)\<rparr>
                else w)
      in Create_volume i (map_of (vw_mesh_map w1) name) w1)"

text \<open>
  \<open>VoxelVolume::Update\<close>: the queued commands run on this volume, then the mesh is updated.
\<close>

type_synonym 'c voxel_closure = "'c \<Rightarrow> voxel_volume \<Rightarrow> voxel_volume \<times> 'c list"

definition volume_Update :: "'c voxel_closure \<Rightarrow> eid \<Rightarrow> 'c voxel_world \<Rightarrow> 'c voxel_world option" where
  "volume_Update call i w = (case map_of (vw_volumes w) i of
      None \<Rightarrow> None
    | Some (loc, v) \<Rightarrow>
        let q = ProcessCommandQueue call \<lparr>global_command_queue = vw_commands w, local_queue = loc, cmd_owner = v\<rparr>
        in (case UpdateMesh (cmd_owner q) (lock_mesh (vv_mesh (cmd_owner q)) w) of
              None \<Rightarrow> None
            | Some (v1, mesh) \<Rightarrow> Some (w\<lparr>vw_volumes := om_put i (local_queue q, v1) (vw_volumes w),
                vw_commands := global_command_queue q,
                vw_meshes := (case vv_mesh v1 of None \<Rightarrow> vw_meshes w | Some p \<Rightarrow> (vw_meshes w)(p := mesh))\<rparr>)))"

subsection \<open>Clicks\<close>

text \<open>
  What a click uses of glm and of floats: the hit in the coordinates of the entity (the inverse of its
  translation and rotation), and the rounding of a sum.
\<close>

record click_env =
  to_local :: "rat vec3 \<Rightarrow> rat quat \<Rightarrow> rat vec3 \<Rightarrow> rat vec3"
  flt :: "rat \<Rightarrow> rat"

definition edit_volume :: "eid \<Rightarrow> (voxel_volume \<Rightarrow> voxel_volume) \<Rightarrow> 'c voxel_world \<Rightarrow> 'c voxel_world" where
  "edit_volume i f w = w\<lparr>vw_volumes := map (\<lambda>(j, (loc, v)). (j, (loc, if j = i then f v else v))) (vw_volumes w)\<rparr>"

definition left_row :: "click_env \<Rightarrow> rat \<Rightarrow> coord option" where
  "left_row G y = to_coord (flt G (y + FLT_EPSILON * (if y < 0 then - 1 else 0)))"

definition right_row :: "click_env \<Rightarrow> rat \<Rightarrow> coord option" where
  "right_row G y = to_coord (flt G (y - FLT_EPSILON * (if y < 0 then 0 else 1)))"

definition On_MouseClick :: "click_env \<Rightarrow> eid \<times> (mouse_btn \<times> rat vec3) \<Rightarrow> 'c voxel_world \<Rightarrow> 'c voxel_world option" where
  "On_MouseClick G e w = (case e of (i, button, hit) \<Rightarrow>
     if \<not> vw_edit_allowed w then Some w
     else if \<not> om_has i (vw_volumes w) then Some w
     else if button = LEFT \<or> button = RIGHT
     then (case (map_of (vw_positions w) i, map_of (vw_orientations w) i) of
         (Some p, Some r) \<Rightarrow>
           let l = to_local G p r hit
           in (case (to_coord (vx l), if button = LEFT then left_row G (vy l) else right_row G (vy l), to_coord (vz l)) of
                 (Some x, Some y, Some z) \<Rightarrow>
                   Some (edit_volume i (if button = LEFT then AddVoxel y x z else RemoveVoxel y x z) w)
               | _ \<Rightarrow> None)
       | _ \<Rightarrow> None)
     else Some w)"

definition voxels_Update :: "click_env \<Rightarrow> 'c voxel_closure \<Rightarrow> 'c voxel_world \<Rightarrow> 'c voxel_world option" where
  "voxels_Update G call w = (case each (On_MouseClick G) (vw_events w) (w\<lparr>vw_events := []\<rparr>) of
      None \<Rightarrow> None
    | Some w1 \<Rightarrow> each (volume_Update call) (om_keys (vw_volumes w1)) w1)"

text \<open>An update without commands is the update of the mesh.\<close>

lemma ProcessCommandQueue_idle [simp]:
  "ProcessCommandQueue call \<lparr>global_command_queue = [], local_queue = [], cmd_owner = v\<rparr>
     = \<lparr>global_command_queue = [], local_queue = [], cmd_owner = v\<rparr>"
  by (simp add: ProcessCommandQueue_def drain_commands.simps)

text \<open>Two volumes on one mesh, without commands or clicks.\<close>

definition two_volumes :: "voxel_volume \<Rightarrow> voxel_volume \<Rightarrow> rat mesh_file \<Rightarrow> 'c voxel_world" where
  "two_volumes v1 v2 f = \<lparr>vw_edit_allowed = True, vw_events = [], vw_volumes = [(1, ([], v1)), (2, ([], v2))],
     vw_commands = [], vw_mesh_map = [(''m'', 0)], vw_meshes = [0 \<mapsto> f], vw_next = 1, vw_positions = [], vw_orientations = []\<rparr>"

definition no_voxels :: "'c voxel_world" where
  "no_voxels = \<lparr>vw_edit_allowed = True, vw_events = [], vw_volumes = [], vw_commands = [], vw_mesh_map = [],
     vw_meshes = Map.empty, vw_next = 0, vw_positions = [], vw_orientations = []\<rparr>"

lemma create_two:
  "Create_named 2 ''m'' (Create_named 1 ''m'' no_voxels)
     = two_volumes (new_voxel_volume (Some 0)) (new_voxel_volume (Some 0)) (new_mesh_file ''m'')"
  by (simp add: Create_named_def Create_volume_def lock_mesh_def no_voxels_def two_volumes_def Let_def)

lemma edit_two:
  "edit_volume 1 e (two_volumes v1 v2 f) = two_volumes (e v1) v2 f"
  "edit_volume 2 e (two_volumes v1 v2 f) = two_volumes v1 (e v2) f"
  by (simp_all add: edit_volume_def two_volumes_def)

lemma UpdateMesh_mesh: "UpdateMesh v mesh = Some (v1, mesh1) \<Longrightarrow> vv_mesh v1 = vv_mesh v \<and> vv_voxels v1 = vv_voxels v"
  by (auto simp: UpdateMesh_def Let_def split: option.splits if_splits)

lemma volume_Update_two:
  assumes "vv_mesh v1 = Some 0" and "vv_mesh v2 = Some 0"
  shows "volume_Update call 1 (two_volumes v1 v2 f) = (case UpdateMesh v1 (Some f) of
        Some (v, Some f1) \<Rightarrow> Some (two_volumes v v2 f1) | _ \<Rightarrow> None)"
    "volume_Update call 2 (two_volumes v1 v2 f) = (case UpdateMesh v2 (Some f) of
        Some (v, Some f1) \<Rightarrow> Some (two_volumes v1 v f1) | _ \<Rightarrow> None)"
proof -
  have mesh: "UpdateMesh v (Some f) \<noteq> Some (v', None)" for v v'
    by (auto simp: UpdateMesh_def Let_def split: option.splits if_splits)
  show "volume_Update call 1 (two_volumes v1 v2 f) = (case UpdateMesh v1 (Some f) of
        Some (v, Some f1) \<Rightarrow> Some (two_volumes v v2 f1) | _ \<Rightarrow> None)"
    using assms mesh [of v1] by (auto simp: volume_Update_def two_volumes_def lock_mesh_def Let_def
        dest: UpdateMesh_mesh split: option.split)
  show "volume_Update call 2 (two_volumes v1 v2 f) = (case UpdateMesh v2 (Some f) of
        Some (v, Some f1) \<Rightarrow> Some (two_volumes v1 v f1) | _ \<Rightarrow> None)"
    using assms mesh [of v2] by (auto simp: volume_Update_def two_volumes_def lock_mesh_def Let_def
        dest: UpdateMesh_mesh split: option.split)
qed

lemma voxels_Update_two:
  assumes "vv_mesh v1 = Some 0" and "vv_mesh v2 = Some 0" and "UpdateMesh v1 (Some f) = Some (u1, Some f1)"
  shows "voxels_Update G call (two_volumes v1 v2 f) = (case UpdateMesh v2 (Some f1) of
        Some (u2, Some f2) \<Rightarrow> Some (two_volumes u1 u2 f2) | _ \<Rightarrow> None)"
proof -
  have "vv_mesh u1 = Some 0"
    using UpdateMesh_mesh [OF assms(3)] assms(1) by simp
  moreover have "voxels_Update G call (two_volumes v1 v2 f) = each (volume_Update call) [1, 2] (two_volumes v1 v2 f)"
    by (simp add: voxels_Update_def two_volumes_def om_keys_def)
  ultimately show ?thesis
    using assms by (simp add: volume_Update_two split: option.split)
qed

lemma UpdateMesh_idle: "vv_changed v = [] \<Longrightarrow> UpdateMesh v mesh = Some (v, mesh)"
  by (simp add: UpdateMesh_def split: option.split)

text \<open>A volume that remembers a block beyond the end of the mesh cannot remove it.\<close>

lemma UpdateMesh_beyond:
  assumes kept: "mesh_kept f g" and shown: "displays bs (volume_work u f g)" and v: "vv_changed v = [i]" "vv_voxels v i = None"
    "vv_vertex_index v i = Some off" and off: "24 * length bs \<le> off"
  shows "UpdateMesh v (Some f) = None"
proof -
  have verts: "length (ms_verts (first_mesh f)) = 24 * length bs" and ind: "og_indices g = block_quads (length bs)"
    using shown by (simp_all add: displays_def volume_work_def)
  have "block_quads (length bs) ! p \<noteq> off" if p: "p < 36 * length bs" for p
  proof -
    have "Suc (p div 36) \<le> length bs"
      using p by linarith
    from mult_le_mono2 [OF this, of 24] have "24 * Suc (p div 36) \<le> off"
      using off by (rule le_trans)
    then show ?thesis
      using block_quads_range [OF p] less_le_trans less_irrefl by blast
  qed
  then have "remove_indices off 0 (block_quads (length bs)) = remove_indices off (36 * length bs) (block_quads (length bs))"
    by (intro remove_indices_skip) auto
  then have "remove_indices off 0 (block_quads (length bs)) = Some (block_quads (length bs))"
    using remove_indices.simps [of off "36 * length bs" "block_quads (length bs)"] by simp
  moreover have "each (swap_pop off) [0..<24] (ms_verts (first_mesh f)) = None"
    using off verts by (simp add: upt_conv_Cons swap_pop_def)
  ultimately have "remove_block i (volume_work v f g) = None"
    using v(3) off verts ind by (simp add: remove_block_def volume_work_def)
  then show ?thesis
    using v(1,2) kept by (simp add: UpdateMesh_def Let_def change_voxel_def volume_work_def mesh_kept_def)
qed

lemma displays_index:
  assumes "displays bs (volume_work u f g)" and "\<And>i off. vv_vertex_index v i = Some off \<Longrightarrow> \<exists>k < length bs. off = 24 * k \<and> fst (bs ! k) = i"
  shows "displays bs (volume_work v f g)"
  using assms by (simp add: displays_def volume_work_def)

text \<open>An addition to a mesh that shows \<open>bs\<close>, whichever volume they belong to.\<close>

lemma add_to_shown:
  assumes kept: "mesh_kept f g" and shown: "displays bs (volume_work v f g)" and v: "vv_changed v = []"
    and absent: "vv_voxels v (voxel_index y x z) = None"
  shows "\<exists>u f1 g1. UpdateMesh (AddVoxel y x z v) (Some f) = Some (u, Some f1) \<and> mesh_kept f1 g1
    \<and> displays (bs @ [(voxel_index y x z, False)]) (volume_work u f1 g1) \<and> vv_changed u = []
    \<and> vv_vertex_index u = (vv_vertex_index v)(voxel_index y x z \<mapsto> 24 * length bs) \<and> vv_mesh u = vv_mesh v"
proof -
  let ?i = "voxel_index y x z" and ?v = "AddVoxel y x z v"
  let ?w = "append_voxel ?i (volume_work v f g)"
  have w: "wk_index ?w = (vv_vertex_index v)(?i \<mapsto> 24 * length bs)"
    using shown by (simp add: append_voxel_def Let_def displays_def) (simp add: volume_work_def)
  obtain f1 g1 where f1: "UpdateMesh ?v (Some f) = Some (?v\<lparr>vv_changed := [], vv_vertex_index := wk_index ?w\<rparr>, Some f1)"
    "mesh_kept f1 g1" "volume_work (?v\<lparr>vv_changed := [], vv_vertex_index := wk_index ?w\<rparr>) f1 g1 = ?w"
    using update_once [OF kept, of ?v ?i ?w] absent v by (auto simp: change_voxel_def AddVoxel_def Let_def)
  have mesh: "vv_mesh ?v = vv_mesh v"
    by (simp add: AddVoxel_def Let_def)
  then show ?thesis
    using f1 displays_append [OF shown, of ?i] w
    by (intro exI [of _ "?v\<lparr>vv_changed := [], vv_vertex_index := wk_index ?w\<rparr>"] exI [of _ f1] exI [of _ g1]) simp
qed

text \<open>Two volumes that are created with the same name share one mesh, and each remembers only its own
  blocks. When one of them removes a voxel, the last block, of the other, is moved; the other
  then removes its voxel at the old place, outside the vertices.
\<close>

theorem shared_mesh_corrupted:
  "\<exists>w w1. voxels_Update G call (edit_volume 2 (AddVoxel b1 b2 b3) (edit_volume 1 (AddVoxel a1 a2 a3)
        (Create_named 2 ''m'' (Create_named 1 ''m'' no_voxels)))) = Some w
    \<and> voxels_Update G call (edit_volume 1 (RemoveVoxel a1 a2 a3) w) = Some w1
    \<and> voxels_Update G call (edit_volume 2 (RemoveVoxel b1 b2 b3) w1) = None"
proof -
  let ?new = "new_voxel_volume (Some 0)" and ?a = "voxel_index a1 a2 a3" and ?b = "voxel_index b1 b2 b3"
  have new: "vv_changed ?new = []" "vv_voxels ?new i = None" "vv_vertex_index ?new = Map.empty" "vv_mesh ?new = Some 0" for i
    by (simp_all add: new_voxel_volume_def)
  obtain u1 f1 g1 where u1: "UpdateMesh (AddVoxel a1 a2 a3 ?new) (Some (new_mesh_file ''m'')) = Some (u1, Some f1)" "mesh_kept f1 g1"
    "displays [(?a, False)] (volume_work u1 f1 g1)" "vv_changed u1 = []" "vv_vertex_index u1 = [?a \<mapsto> 0]" "vv_mesh u1 = Some 0"
    using add_to_shown [OF mesh_kept_new displays_new new(1) new(2)] new(3,4) by force
  have "displays [(?a, False)] (volume_work ?new f1 g1)"
    by (rule displays_index [OF u1(3)]) (simp add: new(3))
  then obtain u2 f2 g2 where u2: "UpdateMesh (AddVoxel b1 b2 b3 ?new) (Some f1) = Some (u2, Some f2)" "mesh_kept f2 g2"
    "displays [(?a, False), (?b, False)] (volume_work u2 f2 g2)" "vv_changed u2 = []" "vv_vertex_index u2 = [?b \<mapsto> 24]" "vv_mesh u2 = Some 0"
    using add_to_shown [OF u1(2) _ new(1) new(2), of "[(?a, False)]"] new(3,4) by force
  let ?r1 = "RemoveVoxel a1 a2 a3 u1" and ?r2 = "RemoveVoxel b1 b2 b3 u2"
  have r1: "displays [(?a, False), (?b, False)] (volume_work ?r1 f2 g2)"
    by (rule displays_index [OF u2(3)]) (auto simp: u1(5) split: if_splits)
  have "wk_index (volume_work ?r1 f2 g2) ?a = Some 0"
    by (simp add: volume_work_def u1(5))
  then obtain w3 where w3: "remove_block ?a (volume_work ?r1 f2 g2) = Some w3" "displays [flip_block (?b, False)] w3"
    using displays_remove [OF r1] by (fastforce simp: take_block_def)
  have absent: "vv_voxels (RemoveVoxel y x z v) (voxel_index y x z) = None" "vv_mesh (RemoveVoxel y x z v) = vv_mesh v"
    "vv_mesh (AddVoxel y x z v) = vv_mesh v" for y x z v
    by (simp_all add: RemoveVoxel_def AddVoxel_def Let_def)
  obtain u3 f3 g3 where u3: "UpdateMesh ?r1 (Some f2) = Some (u3, Some f3)" "mesh_kept f3 g3" "volume_work u3 f3 g3 = w3"
    "vv_changed u3 = []" "vv_mesh u3 = Some 0"
    using update_once [OF u2(2), of ?r1 ?a w3] w3(1) absent u1(4,6) by (auto simp: change_voxel_def)
  have fail: "UpdateMesh ?r2 (Some f3) = None"
    by (rule UpdateMesh_beyond [OF u3(2), of _ u3]) (use w3(2) u3(3) u2(4,5) absent in auto)
  show ?thesis
    unfolding create_two edit_two
    by (intro exI [of _ "two_volumes u1 u2 f2"] exI [of _ "two_volumes u3 u2 f3"])
      (simp add: edit_two voxels_Update_two u1 u2 u3 new absent UpdateMesh_idle fail voxels_Update_two [where ?u1.0 = u3])
qed

text \<open>A click on the top of a voxel, in exact arithmetic: on rows from -1 up the left button adds the
  voxel above and the right one removes the voxel; below, the correction goes the other way,
  and the left button adds the same voxel again while the right one removes the one above.
\<close>

theorem top_face_click:
  assumes "flt G = id" and "- 32768 \<le> n" and "n + 1 \<le> 32767"
  shows "left_row G (of_int (n + 1)) = Some (word_of_int (if n < - 1 then n else n + 1))
    \<and> right_row G (of_int (n + 1)) = Some (word_of_int (if n < - 1 then n + 1 else n))"
proof -
  have eps: "0 < FLT_EPSILON" "FLT_EPSILON < 1"
    by (simp_all add: FLT_EPSILON_def)
  have below: "\<lfloor>of_int (n + 1) - FLT_EPSILON\<rfloor> = n"
    using eps by (simp add: floor_eq_iff)
  have neg: "(of_int (n + 1) :: rat) < 0 \<longleftrightarrow> n < - 1"
    by linarith
  have coord: "to_coord (of_int (n + 1)) = Some (word_of_int (n + 1))" "to_coord (of_int (n + 1) - FLT_EPSILON) = Some (word_of_int n)"
    using below assms(2,3) by (simp_all only: to_coord_def floor_of_int) simp_all
  show ?thesis
  proof (cases "n < - 1")
    case True
    then have "left_row G (of_int (n + 1)) = to_coord (of_int (n + 1) - FLT_EPSILON)" "right_row G (of_int (n + 1)) = to_coord (of_int (n + 1))"
      unfolding left_row_def right_row_def neg assms(1) by simp_all
    then show ?thesis
      using True by (simp only: coord) simp
  next
    case False
    then have "left_row G (of_int (n + 1)) = to_coord (of_int (n + 1))" "right_row G (of_int (n + 1)) = to_coord (of_int (n + 1) - FLT_EPSILON)"
      unfolding left_row_def right_row_def neg assms(1) by simp_all
    then show ?thesis
      using False by (simp only: coord) simp
  qed
qed

theorem top_face_click_witness:
  "left_row \<lparr>to_local = (\<lambda>p r h. h), flt = id\<rparr> (of_int 3) = Some 3
    \<and> left_row \<lparr>to_local = (\<lambda>p r h. h), flt = id\<rparr> (of_int (- 4)) = Some (- 5)"
  using top_face_click [of "\<lparr>to_local = (\<lambda>p r h. h), flt = id\<rparr>" 2] top_face_click [of "\<lparr>to_local = (\<lambda>p r h. h), flt = id\<rparr>" "- 5"]
  by simp

text \<open>The command queue is static: the first volume of an update takes the commands of all.\<close>

lemma run_all_quiet: "(\<And>c s. snd (f c s) = []) \<Longrightarrow> snd (run_all f cs s) = []"
  by (induction cs arbitrary: s) (simp_all add: split_beta)

lemma ProcessCommandQueue_run:
  assumes "\<And>c s. snd (call c s) = []"
  shows "ProcessCommandQueue call \<lparr>global_command_queue = cs, local_queue = [], cmd_owner = v\<rparr>
     = \<lparr>global_command_queue = [], local_queue = [], cmd_owner = fst (run_all call cs v)\<rparr>"
  by (rule command_queue.equality)
    (simp_all add: ProcessCommandQueue_def drain_commands_fold fold_cmd_turn run_all_quiet [OF assms])

definition shown_voxels :: "eid \<Rightarrow> 'c voxel_world \<Rightarrow> (64 word \<rightharpoonup> rat list) option" where
  "shown_voxels i w = map_option (vv_voxels \<circ> snd) (map_of (vw_volumes w) i)"

definition queues_drained :: "'c voxel_world \<Rightarrow> bool" where
  "queues_drained w \<longleftrightarrow> wf_omap (vw_volumes w) \<and> (\<forall>i loc v. map_of (vw_volumes w) i = Some (loc, v) \<longrightarrow> loc = [])"

lemma volume_Update_voxels:
  assumes quiet: "\<And>c s. snd (call c s) = []" and u: "volume_Update call i w = Some w1" and drained: "queues_drained w"
  shows "queues_drained w1 \<and> vw_commands w1 = []
    \<and> (\<forall>j. shown_voxels j w1 = (if j = i then map_option (\<lambda>e. vv_voxels (fst (run_all call (vw_commands w) (snd e)))) (map_of (vw_volumes w) i)
                                      else shown_voxels j w))"
proof -
  obtain loc v where v: "map_of (vw_volumes w) i = Some (loc, v)"
    using u by (auto simp: volume_Update_def split: option.splits)
  then have "loc = []"
    using drained unfolding queues_drained_def by blast
  let ?v = "fst (run_all call (vw_commands w) v)"
  obtain v1 mesh where m: "UpdateMesh ?v (lock_mesh (vv_mesh ?v) w) = Some (v1, mesh)"
    "vw_volumes w1 = om_put i ([], v1) (vw_volumes w)" "vw_commands w1 = []"
    using u v \<open>loc = []\<close> by (auto simp: volume_Update_def ProcessCommandQueue_run [OF quiet] Let_def split: option.splits)
  then show ?thesis
    using UpdateMesh_mesh [OF m(1)] drained v by (auto simp: queues_drained_def shown_voxels_def wf_om_put split: if_splits)
qed

text \<open>Commands are queued for the class, not for a volume: an update runs all of them on the volume
  of the lowest entity, and no other volume changes.
\<close>

theorem commands_run_on_first:
  assumes quiet: "\<And>c s. snd (call c s) = []" and drained: "queues_drained w" and clicks: "vw_events w = []"
    and volumes: "vw_volumes w = (i, e) # rest"
    and u: "voxels_Update G call w = Some w1"
  shows "shown_voxels i w1 = Some (vv_voxels (fst (run_all call (vw_commands w) (snd e))))
    \<and> (\<forall>j. j \<noteq> i \<longrightarrow> shown_voxels j w1 = shown_voxels j w)"
proof -
  let ?I = "\<lambda>w1. queues_drained w1 \<and> vw_commands w1 = [] \<and> shown_voxels i w1 = Some (vv_voxels (fst (run_all call (vw_commands w) (snd e))))
    \<and> (\<forall>j. j \<noteq> i \<longrightarrow> shown_voxels j w1 = shown_voxels j w)"
  have "w\<lparr>vw_events := []\<rparr> = w"
    using clicks by simp
  then have "each (volume_Update call) (om_keys (vw_volumes w)) w = Some w1"
    using u unfolding voxels_Update_def clicks by simp
  then obtain w2 where w2: "volume_Update call i w = Some w2" "each (volume_Update call) (om_keys rest) w2 = Some w1"
    using volumes by (auto simp: om_keys_def split: option.splits)
  have "?I w2"
    using volume_Update_voxels [OF quiet w2(1) drained] volumes by simp
  then have "?I w1"
  proof (rule each_keeps [OF w2(2)])
    fix j w3 w4 assume j: "?I w3" and step: "volume_Update call j w3 = Some w4"
    have "shown_voxels k w4 = shown_voxels k w3" for k
      using volume_Update_voxels [OF quiet step] j by (auto simp: shown_voxels_def comp_def)
    then show "?I w4"
      using volume_Update_voxels [OF quiet step] j by simp
  qed
  then show ?thesis by simp
qed

definition two_without_mesh :: "unit voxel_world" where
  "two_without_mesh = (two_volumes (new_voxel_volume None) (new_voxel_volume None) (new_mesh_file ''m''))\<lparr>vw_commands := [()]\<rparr>"

lemma update_two_without_mesh:
  "\<exists>w1. voxels_Update G (\<lambda>_ v. (AddVoxel 0 0 0 v, [])) two_without_mesh = Some w1"
proof -
  have "om_keys (vw_volumes two_without_mesh) = [1, 2]"
    by (simp add: two_without_mesh_def two_volumes_def om_keys_def)
  moreover have "UpdateMesh v None = Some (v, None)" "vv_mesh (AddVoxel 0 0 0 v) = vv_mesh v" for v
    by (simp_all add: UpdateMesh_def AddVoxel_def Let_def)
  ultimately show ?thesis
    by (simp add: voxels_Update_def volume_Update_def ProcessCommandQueue_run lock_mesh_def Let_def om_keys_def
        two_without_mesh_def two_volumes_def new_voxel_volume_def UpdateMesh_def)
qed

theorem commands_run_on_first_witness:
  "\<forall>G. \<exists>w1. voxels_Update G (\<lambda>_ v. (AddVoxel 0 0 0 v, [])) two_without_mesh = Some w1
    \<and> shown_voxels 1 w1 = Some (vv_voxels (AddVoxel 0 0 0 (new_voxel_volume None)))
    \<and> shown_voxels 2 w1 = shown_voxels 2 two_without_mesh"
proof
  fix G
  obtain w1 where w1: "voxels_Update G (\<lambda>_ v. (AddVoxel 0 0 0 v, [])) two_without_mesh = Some w1"
    using update_two_without_mesh by blast
  have "vw_events two_without_mesh = []" "vw_volumes two_without_mesh = [(1, ([], new_voxel_volume None)), (2, ([], new_voxel_volume None))]"
    "queues_drained two_without_mesh" "vw_commands two_without_mesh = [()]"
    by (auto simp: two_without_mesh_def two_volumes_def queues_drained_def wf_omap_Cons om_keys_def split: if_splits)
  then show "\<exists>w1. voxels_Update G (\<lambda>_ v. (AddVoxel 0 0 0 v, [])) two_without_mesh = Some w1
    \<and> shown_voxels 1 w1 = Some (vv_voxels (AddVoxel 0 0 0 (new_voxel_volume None)))
    \<and> shown_voxels 2 w1 = shown_voxels 2 two_without_mesh"
    using commands_run_on_first [OF _ _ _ _ w1, of 1 "([], new_voxel_volume None)"] w1
    by (intro exI [of _ w1]) simp
qed

end
