(* ===== verification/VComputer.thy ===== *)
theory VComputer
  imports Controllers Safe_Run
begin

text \<open>
  The virtual computers (common/vcomputer-system.cpp and .hpp): loading and saving a computer, its
  devices, and the system that follows entities, clicks and keys. The computers and keyboards
  are heap objects behind raw pointers, so they live in explicit stores; \<open>None\<close> is the use of
  a null or freed pointer or an access outside an array.
  The library of the computers themselves (trillek's vcomputer) is a parameter: an opaque state
  \<open>'l\<close> and its operations on the computers and devices it knows by pointer. \<open>'w\<close> is its \<open>Word\<close>, with the casts from and to
  32 bits.
\<close>

subsection \<open>Messages\<close>

record p_screen =
  pk_buffer_ptr :: "32 word"
  pk_font_ptr :: "32 word"
  pk_vsync_msg :: "32 word"
  pk_a :: "32 word"
  pk_b :: "32 word"
  pk_d :: "32 word"
  pk_e :: "32 word"

datatype p_device_case = P_screen p_screen | P_keyboard | P_device_not_set

record p_device =
  pd_slot :: "32 word"
  pd_device :: p_device_case

record p_tr3200 =
  pt_registers :: "32 word list"
  pt_pc :: "32 word"
  pt_wait_cycles :: "32 word"
  pt_int_msg :: "32 word"
  pt_interrupt :: bool
  pt_step_mode :: bool
  pt_skiping :: bool
  pt_sleeping :: bool

record p_dcpu16n =
  pn_registers :: "32 word list"
  pn_pc :: "32 word"
  pn_wait_cycles :: "32 word"

datatype p_cpu = P_tr3200 p_tr3200 | P_dcpu16n p_dcpu16n | P_cpu_not_set

record p_computer =
  px_devices :: "p_device list"
  px_ram :: "byte list"
  px_cpu :: p_cpu
  px_rom_file :: string

subsection \<open>The library\<close>

record 'w tda_state =
  tda_buffer_ptr :: "32 word"
  tda_font_ptr :: "32 word"
  tda_vsync_msg :: 'w
  tda_a :: 'w
  tda_b :: 'w
  tda_d :: 'w
  tda_e :: 'w

record 'w tr3200_state =
  tr_r :: "32 word list"
  tr_pc :: "32 word"
  tr_wait_cycles :: "32 word"
  tr_int_msg :: 'w
  tr_interrupt :: bool
  tr_step_mode :: bool
  tr_skiping :: bool
  tr_sleeping :: bool

record 'w dcpu16n_state =
  dc_r :: "'w list"
  dc_pc :: 'w
  dc_wait_cycles :: "32 word"

text \<open>
  A ROM file below the assets: it cannot be opened, in which case \<open>OpenStream\<close> throws (as does appending a name with a device to the path), it
  cannot be read as a ROM, or these are its bytes.
\<close>

datatype rom_file = Rom_missing | Rom_unreadable | Rom_bytes "byte list"

text \<open>What a key event carries: a scan code or \<open>SCAN_ENTER\<close>, and a named key or a character.\<close>

datatype scan_code = Scan int | SCAN_ENTER

datatype key_char =
    KEY_ESC | KEY_BACKSPACE | KEY_TAB | KEY_INSERT | KEY_DELETE
  | KEY_ARROW_RIGHT | KEY_ARROW_LEFT | KEY_ARROW_DOWN | KEY_ARROW_UP
  | KEY_SHIFT | KEY_CONTROL | KEY_ALT | Key_char byte

record ('l, 'w) vc_lib =
  lib_new_vc :: "'l \<Rightarrow> nat \<times> 'l"
  lib_new_screen :: "'l \<Rightarrow> nat \<times> 'l"
  lib_new_keyboard :: "'l \<Rightarrow> nat \<times> 'l"
  lib_set_cpu :: "nat \<Rightarrow> bool \<Rightarrow> 'l \<Rightarrow> 'l"
  lib_on :: "nat \<Rightarrow> 'l \<Rightarrow> 'l"
  lib_off :: "nat \<Rightarrow> 'l \<Rightarrow> 'l"
  lib_set_tr3200 :: "nat \<Rightarrow> 'w tr3200_state \<Rightarrow> 'l \<Rightarrow> 'l"
  lib_set_dcpu16n :: "nat \<Rightarrow> 'w dcpu16n_state \<Rightarrow> 'l \<Rightarrow> 'l"
  lib_get_tr3200 :: "nat \<Rightarrow> 'l \<Rightarrow> 'w tr3200_state"
  lib_ram :: "nat \<Rightarrow> 'l \<Rightarrow> byte list"
  lib_put_ram :: "nat \<Rightarrow> byte list \<Rightarrow> 'l \<Rightarrow> 'l"
  lib_add_device :: "nat \<Rightarrow> 32 word \<Rightarrow> nat \<Rightarrow> 'l \<Rightarrow> 'l"
  lib_get_device :: "nat \<Rightarrow> 32 word \<Rightarrow> 'l \<Rightarrow> nat option"
  lib_rm_device :: "nat \<Rightarrow> 32 word \<Rightarrow> 'l \<Rightarrow> 'l"
  lib_set_rom :: "nat \<Rightarrow> byte list \<Rightarrow> nat \<Rightarrow> 'l \<Rightarrow> 'l"
  lib_update :: "nat \<Rightarrow> rat \<Rightarrow> 'l \<Rightarrow> 'l"
  lib_set_screen :: "nat \<Rightarrow> 'w tda_state \<Rightarrow> 'l \<Rightarrow> 'l"
  lib_get_screen :: "nat \<Rightarrow> 'l \<Rightarrow> 'w tda_state"
  lib_dev_type :: "nat \<Rightarrow> 'l \<Rightarrow> nat"
  lib_send_key :: "nat \<Rightarrow> scan_code \<Rightarrow> key_char \<Rightarrow> byte \<Rightarrow> 'l \<Rightarrow> 'l"
  lib_load_rom :: "string \<Rightarrow> rom_file"
  lib_load_rom_file :: "string \<Rightarrow> byte list option"
  lib_word :: "32 word \<Rightarrow> 'w"
  lib_widen :: "'w \<Rightarrow> 32 word"
  lib_tr3200_regs :: nat
  lib_dcpu16n_regs :: nat

subsection \<open>State\<close>

datatype device_kind = Screen_dev | Keyboard_dev

record device_base =
  db_kind :: device_kind
  db_device :: nat
  has_focus :: bool
  last_keycode :: int
  modifiers_state :: int

definition new_device_base :: "device_kind \<Rightarrow> nat \<Rightarrow> device_base" where
  "new_device_base k d = \<lparr>db_kind = k, db_device = d, has_focus = False, last_keycode = 0, modifiers_state = 0\<rparr>"

text \<open>A computer's table of devices may hold a null pointer, \<open>None\<close>.\<close>

record computer =
  cp_rom :: "byte list"
  cp_rom_name :: string
  cp_rom_size :: nat
  cp_vc :: nat
  cp_devices :: "(int, nat option) omap"

datatype focus_event = Focus_captured | Focus_blur

text \<open>
  \<open>wd_table\<close> is \<open>ComputerComponentMap\<close>, \<open>wd_keyboards\<close> is \<open>KeyboardComponentMap\<close>, \<open>wd_known\<close> is the
  member \<open>computers\<close>. Computers are never deleted.
\<close>

record 'l vc_world =
  wd_lib :: 'l
  wd_computers :: "(nat, computer) omap"
  wd_devices :: "nat \<rightharpoonup> device_base"
  wd_next :: nat
  wd_table :: "(eid, nat) omap"
  wd_keyboards :: "(eid, nat) omap"
  wd_known :: "(eid, nat) omap"
  wd_active :: eid
  wd_delta :: rat
  wd_emitted :: "(eid \<times> focus_event) list"

definition new_vc_world :: "'l \<Rightarrow> 'l vc_world" where
  "new_vc_world l = \<lparr>wd_lib = l, wd_computers = [], wd_devices = Map.empty, wd_next = 0, wd_table = [],
     wd_keyboards = [], wd_known = [], wd_active = 0, wd_delta = 0, wd_emitted = []\<rparr>"

definition call_lib :: "('l \<Rightarrow> 'l) \<Rightarrow> 'l vc_world \<Rightarrow> 'l vc_world" where
  "call_lib f w = w\<lparr>wd_lib := f (wd_lib w)\<rparr>"

subsection \<open>Screens and keyboards\<close>

definition screen_state_of :: "('l, 'w) vc_lib \<Rightarrow> p_screen \<Rightarrow> 'w tda_state" where
  "screen_state_of G c = \<lparr>tda_buffer_ptr = pk_buffer_ptr c, tda_font_ptr = pk_font_ptr c, tda_vsync_msg = lib_word G (pk_vsync_msg c),
     tda_a = lib_word G (pk_a c), tda_b = lib_word G (pk_b c), tda_d = lib_word G (pk_d c), tda_e = lib_word G (pk_e c)\<rparr>"

definition screen_message :: "('l, 'w) vc_lib \<Rightarrow> 'w tda_state \<Rightarrow> p_screen" where
  "screen_message G s = \<lparr>pk_buffer_ptr = tda_buffer_ptr s, pk_font_ptr = tda_font_ptr s, pk_vsync_msg = lib_widen G (tda_vsync_msg s),
     pk_a = lib_widen G (tda_a s), pk_b = lib_widen G (tda_b s), pk_d = lib_widen G (tda_d s), pk_e = lib_widen G (tda_e s)\<rparr>"

text \<open>\<open>std::make_shared<ComputerScreen>()\<close> and \<open>std::make_shared<ComputerKeyboard>()\<close>.\<close>

definition new_device :: "('l, 'w) vc_lib \<Rightarrow> device_kind \<Rightarrow> 'l vc_world \<Rightarrow> nat \<times> 'l vc_world" where
  "new_device G k w =
     (case (case k of Screen_dev \<Rightarrow> lib_new_screen G (wd_lib w) | Keyboard_dev \<Rightarrow> lib_new_keyboard G (wd_lib w)) of
        (d, l) \<Rightarrow> (wd_next w, w\<lparr>wd_lib := l, wd_devices := (wd_devices w)(wd_next w \<mapsto> new_device_base k d), wd_next := wd_next w + 1\<rparr>))"

text \<open>A shared pointer to a device goes away: the device is freed when no computer holds it.\<close>

definition dev_owned :: "nat \<Rightarrow> 'l vc_world \<Rightarrow> bool" where
  "dev_owned a w \<longleftrightarrow> (\<exists>(p, c) \<in> set (wd_computers w). \<exists>(s, d) \<in> set (cp_devices c). d = Some a)"

definition release :: "nat option \<Rightarrow> 'l vc_world \<Rightarrow> 'l vc_world" where
  "release d w = (case d of None \<Rightarrow> w | Some a \<Rightarrow> if dev_owned a w then w else w\<lparr>wd_devices := (wd_devices w)(a := None)\<rparr>)"

definition put_computer :: "nat \<Rightarrow> computer \<Rightarrow> 'l vc_world \<Rightarrow> 'l vc_world" where
  "put_computer p c w = w\<lparr>wd_computers := om_put p c (wd_computers w)\<rparr>"

text \<open>\<open>computer->devices[slot] = device\<close>: the index is a signed integer.\<close>

definition slot_key :: "32 word \<Rightarrow> int" where
  "slot_key s = sint s"

definition install :: "nat \<Rightarrow> 32 word \<Rightarrow> nat \<Rightarrow> 'l vc_world \<Rightarrow> 'l vc_world option" where
  "install p slot a w = (case map_of (wd_computers w) p of
      None \<Rightarrow> None
    | Some c \<Rightarrow> Some (release (om_get None (slot_key slot) (cp_devices c))
        (put_computer p (c\<lparr>cp_devices := om_put (slot_key slot) (Some a) (cp_devices c)\<rparr>) w)))"

subsection \<open>A computer\<close>

definition rom_capacity :: nat where
  "rom_capacity = 32 * 1024"

text \<open>\<open>new Computer()\<close>: the content of the ROM buffer is not set.\<close>

definition new_computer :: "('l, 'w) vc_lib \<Rightarrow> 'l vc_world \<Rightarrow> nat \<times> 'l vc_world" where
  "new_computer G w = (case lib_new_vc G (wd_lib w) of
     (vc, l) \<Rightarrow> (wd_next w, put_computer (wd_next w)
        \<lparr>cp_rom = [], cp_rom_name = [], cp_rom_size = 0, cp_vc = vc, cp_devices = []\<rparr>
        (w\<lparr>wd_lib := l, wd_next := wd_next w + 1\<rparr>)))"

definition tr3200_of :: "('l, 'w) vc_lib \<Rightarrow> p_tr3200 \<Rightarrow> 'w tr3200_state" where
  "tr3200_of G c = \<lparr>tr_r = pt_registers c, tr_pc = pt_pc c, tr_wait_cycles = pt_wait_cycles c,
     tr_int_msg = lib_word G (pt_int_msg c), tr_interrupt = pt_interrupt c, tr_step_mode = pt_step_mode c,
     tr_skiping = pt_skiping c, tr_sleeping = pt_sleeping c\<rparr>"

definition tr3200_message :: "('l, 'w) vc_lib \<Rightarrow> 'w tr3200_state \<Rightarrow> p_tr3200" where
  "tr3200_message G s = \<lparr>pt_registers = tr_r s, pt_pc = tr_pc s, pt_wait_cycles = tr_wait_cycles s,
     pt_int_msg = lib_widen G (tr_int_msg s), pt_interrupt = tr_interrupt s, pt_step_mode = tr_step_mode s,
     pt_skiping = tr_skiping s, pt_sleeping = tr_sleeping s\<rparr>"

definition dcpu16n_of :: "('l, 'w) vc_lib \<Rightarrow> p_dcpu16n \<Rightarrow> 'w dcpu16n_state" where
  "dcpu16n_of G c = \<lparr>dc_r = map (lib_word G) (pn_registers c), dc_pc = lib_word G (pn_pc c),
     dc_wait_cycles = pn_wait_cycles c\<rparr>"

definition set_cpu :: "('l, 'w) vc_lib \<Rightarrow> nat \<Rightarrow> p_cpu \<Rightarrow> 'l vc_world \<Rightarrow> 'l vc_world option" where
  "set_cpu G vc cpu w = (case cpu of
      P_tr3200 c \<Rightarrow>
        if length (pt_registers c) \<le> lib_tr3200_regs G
        then Some (call_lib (lib_set_tr3200 G vc (tr3200_of G c) \<circ> lib_on G vc \<circ> lib_set_cpu G vc True) w)
        else None
    | P_dcpu16n c \<Rightarrow>
        if length (pn_registers c) \<le> lib_dcpu16n_regs G
        then Some (call_lib (lib_set_dcpu16n G vc (dcpu16n_of G c) \<circ> lib_on G vc \<circ> lib_set_cpu G vc False) w)
        else None
    | P_cpu_not_set \<Rightarrow> Some w)"

definition set_ram :: "('l, 'w) vc_lib \<Rightarrow> nat \<Rightarrow> byte list \<Rightarrow> 'l vc_world \<Rightarrow> 'l vc_world option" where
  "set_ram G vc bytes w =
     (if length bytes \<le> length (lib_ram G vc (wd_lib w)) then Some (call_lib (lib_put_ram G vc bytes) w) else None)"

definition add_p_device :: "('l, 'w) vc_lib \<Rightarrow> nat \<Rightarrow> p_device \<Rightarrow> 'l vc_world \<Rightarrow> 'l vc_world option" where
  "add_p_device G p d w = (case map_of (wd_computers w) p of
      None \<Rightarrow> None
    | Some c \<Rightarrow> (case pd_device d of
        P_screen sc \<Rightarrow> (case new_device G Screen_dev w of (a, w1) \<Rightarrow>
          (case wd_devices w1 a of
             None \<Rightarrow> None
           | Some b \<Rightarrow> install p (pd_slot d) a
               (call_lib (lib_add_device G (cp_vc c) (pd_slot d) (db_device b) \<circ> lib_set_screen G (db_device b) (screen_state_of G sc)) w1)))
      | P_keyboard \<Rightarrow> (case new_device G Keyboard_dev w of (a, w1) \<Rightarrow>
          (case wd_devices w1 a of
             None \<Rightarrow> None
           | Some b \<Rightarrow> install p (pd_slot d) a (call_lib (lib_add_device G (cp_vc c) (pd_slot d) (db_device b)) w1)))
      | P_device_not_set \<Rightarrow> Some w))"

text \<open>
  The bytes of a ROM file go into the buffer of the computer, which the library gets without its
  size.
\<close>

definition put_rom :: "('l, 'w) vc_lib \<Rightarrow> nat \<Rightarrow> string \<Rightarrow> byte list \<Rightarrow> 'l vc_world \<Rightarrow> 'l vc_world option" where
  "put_rom G p fname bytes w = (case map_of (wd_computers w) p of
      None \<Rightarrow> None
    | Some c \<Rightarrow>
        if length bytes \<le> rom_capacity
        then Some (call_lib (lib_set_rom G (cp_vc c) bytes (length bytes))
               (put_computer p (c\<lparr>cp_rom := bytes, cp_rom_size := length bytes, cp_rom_name := fname\<rparr>) w))
        else None)"

text \<open>\<open>Computer::In\<close>: the boolean tells whether it was left by the exception for a ROM file that cannot be opened.\<close>

definition Computer_In :: "('l, 'w) vc_lib \<Rightarrow> p_computer \<Rightarrow> nat \<Rightarrow> 'l vc_world \<Rightarrow> (bool \<times> 'l vc_world) option" where
  "Computer_In G src p w = (case map_of (wd_computers w) p of
      None \<Rightarrow> None
    | Some c \<Rightarrow> (case set_cpu G (cp_vc c) (px_cpu src) w of
        None \<Rightarrow> None
      | Some w1 \<Rightarrow> (case set_ram G (cp_vc c) (px_ram src) w1 of
          None \<Rightarrow> None
        | Some w2 \<Rightarrow> (case each (add_p_device G p) (px_devices src) w2 of
            None \<Rightarrow> None
          | Some w3 \<Rightarrow> (case lib_load_rom G (px_rom_file src) of
              Rom_missing \<Rightarrow> Some (True, w3)
            | Rom_unreadable \<Rightarrow> Some (False, w3)
            | Rom_bytes bytes \<Rightarrow> map_option (Pair False) (put_rom G p (px_rom_file src) bytes w3))))))"

text \<open>\<open>ComputerKeyboard::Out\<close> writes nothing.\<close>

definition device_message :: "('l, 'w) vc_lib \<Rightarrow> 'l vc_world \<Rightarrow> int \<times> nat option \<Rightarrow> p_device option" where
  "device_message G w e = (case snd e of
      None \<Rightarrow> None
    | Some a \<Rightarrow> (case wd_devices w a of
        None \<Rightarrow> None
      | Some b \<Rightarrow> Some \<lparr>pd_slot = word_of_int (fst e), pd_device = (case db_kind b of
            Screen_dev \<Rightarrow> P_screen (screen_message G (lib_get_screen G (db_device b) (wd_lib w)))
          | Keyboard_dev \<Rightarrow> P_device_not_set)\<rparr>))"

fun messages :: "('a \<Rightarrow> 'b option) \<Rightarrow> 'a list \<Rightarrow> 'b list option" where
  "messages f [] = Some []"
| "messages f (x # xs) = (case f x of
     None \<Rightarrow> None
   | Some y \<Rightarrow> (case messages f xs of None \<Rightarrow> None | Some ys \<Rightarrow> Some (y # ys)))"

definition Computer_Out :: "('l, 'w) vc_lib \<Rightarrow> nat \<Rightarrow> 'l vc_world \<Rightarrow> p_computer option" where
  "Computer_Out G p w = (case map_of (wd_computers w) p of
      None \<Rightarrow> None
    | Some c \<Rightarrow> (case messages (device_message G w) (cp_devices c) of
        None \<Rightarrow> None
      | Some ds \<Rightarrow> Some \<lparr>px_devices = ds, px_ram = lib_ram G (cp_vc c) (wd_lib w),
          px_cpu = P_tr3200 (tr3200_message G (lib_get_tr3200 G (cp_vc c) (wd_lib w))), px_rom_file = []\<rparr>))"

subsection \<open>The system\<close>

definition vc_SetDevice :: "('l, 'w) vc_lib \<Rightarrow> eid \<Rightarrow> 32 word \<Rightarrow> nat \<Rightarrow> 'l vc_world \<Rightarrow> 'l vc_world option" where
  "vc_SetDevice G i slot a w = (case map_of (wd_known w) i of
      None \<Rightarrow> Some w
    | Some p \<Rightarrow> (case (map_of (wd_computers w) p, wd_devices w a) of
        (Some c, Some b) \<Rightarrow> install p slot a (call_lib (lib_add_device G (cp_vc c) slot (db_device b)) w)
      | _ \<Rightarrow> None))"

text \<open>The slot is looked up in the table of the computer, where it may hold a null pointer.\<close>

definition RemoveDevice :: "('l, 'w) vc_lib \<Rightarrow> eid \<Rightarrow> 32 word \<Rightarrow> 'l vc_world \<Rightarrow> 'l vc_world option" where
  "RemoveDevice G i slot w = (case map_of (wd_known w) i of
      None \<Rightarrow> Some w
    | Some p \<Rightarrow> (case map_of (wd_computers w) p of
        None \<Rightarrow> None
      | Some c \<Rightarrow>
          let dev = lib_get_device G (cp_vc c) slot (wd_lib w);
              rm = call_lib (lib_rm_device G (cp_vc c) slot)
          in (case map_of (cp_devices c) (slot_key slot) of
                None \<Rightarrow> Some (rm w)
              | Some None \<Rightarrow> None
              | Some (Some a) \<Rightarrow> (case wd_devices w a of
                  None \<Rightarrow> None
                | Some b \<Rightarrow> Some (rm (if dev = Some (db_device b)
                     then release (Some a) (put_computer p (c\<lparr>cp_devices := om_erase (slot_key slot) (cp_devices c)\<rparr>) w)
                     else w))))))"

definition LoadROMFile :: "('l, 'w) vc_lib \<Rightarrow> eid \<Rightarrow> string \<Rightarrow> 'l vc_world \<Rightarrow> (bool \<times> 'l vc_world) option" where
  "LoadROMFile G i fname w = (case map_of (wd_known w) i of
      None \<Rightarrow> Some (False, w)
    | Some p \<Rightarrow> (case lib_load_rom_file G fname of
        None \<Rightarrow> Some (False, w)
      | Some bytes \<Rightarrow> map_option (Pair True) (put_rom G p fname bytes w)))"

definition on_computer :: "(nat \<Rightarrow> 'l \<Rightarrow> 'l) \<Rightarrow> eid \<Rightarrow> 'l vc_world \<Rightarrow> 'l vc_world option" where
  "on_computer f i w = (case map_of (wd_known w) i of
      None \<Rightarrow> Some w
    | Some p \<Rightarrow> (case map_of (wd_computers w) p of None \<Rightarrow> None | Some c \<Rightarrow> Some (call_lib (f (cp_vc c)) w)))"

definition TurnComptuerOn :: "('l, 'w) vc_lib \<Rightarrow> eid \<Rightarrow> 'l vc_world \<Rightarrow> 'l vc_world option" where
  "TurnComptuerOn G = on_computer (lib_on G)"

definition TurnComptuerOff :: "('l, 'w) vc_lib \<Rightarrow> eid \<Rightarrow> 'l vc_world \<Rightarrow> 'l vc_world option" where
  "TurnComptuerOff G = on_computer (lib_off G)"

text \<open>The computers of the table that are not known yet become known.\<close>

definition know_computer :: "eid \<times> nat \<Rightarrow> 'l vc_world \<Rightarrow> 'l vc_world" where
  "know_computer e w = (if map_of (wd_known w) (fst e) = None
     then w\<lparr>wd_known := om_put (fst e) (snd e) (wd_known w)\<rparr> else w)"

text \<open>Reading slot 5 with \<open>operator[]\<close> puts a null pointer there if the slot is free.\<close>

definition run_computer :: "('l, 'w) vc_lib \<Rightarrow> nat \<Rightarrow> 'l vc_world \<Rightarrow> 'l vc_world option" where
  "run_computer G p w = (case map_of (wd_computers w) p of
      None \<Rightarrow> None
    | Some c \<Rightarrow>
        let w1 = (if map_of (cp_devices c) 5 = None
                  then put_computer p (c\<lparr>cp_devices := om_put 5 None (cp_devices c)\<rparr>) w else w)
        in Some (call_lib (lib_update G (cp_vc c) (wd_delta w1)) w1))"

text \<open>\<open>Update\<close> after its event queues are drained; \<open>commands\<close> is what the command queue does.\<close>

definition vc_Update :: "('l, 'w) vc_lib \<Rightarrow> ('l vc_world \<Rightarrow> 'l vc_world option) \<Rightarrow> rat \<Rightarrow> 'l vc_world \<Rightarrow> 'l vc_world option" where
  "vc_Update G commands delta w =
     (case commands (fold know_computer (wd_table w) w) of
        None \<Rightarrow> None
      | Some w1 \<Rightarrow> (let w2 = w1\<lparr>wd_delta := delta\<rparr> in each (run_computer G) (map snd (wd_known w2)) w2))"

subsection \<open>Keys and clicks\<close>

text \<open>The key codes of GLFW that the handler names, but for \<open>GLFW_KEY_ESCAPE\<close>.\<close>

definition key_escape :: int where
  "key_escape = 256"

definition named_keys :: "(int \<times> key_char) list" where
  "named_keys = [(259, KEY_BACKSPACE), (258, KEY_TAB), (260, KEY_INSERT), (261, KEY_DELETE),
     (262, KEY_ARROW_RIGHT), (263, KEY_ARROW_LEFT), (264, KEY_ARROW_DOWN), (265, KEY_ARROW_UP),
     (340, KEY_SHIFT), (344, KEY_SHIFT), (341, KEY_CONTROL), (345, KEY_CONTROL), (342, KEY_ALT), (346, KEY_ALT)]"

definition enter_keys :: "int list" where
  "enter_keys = [257, 335]"

text \<open>The last keyboard of the table that has the focus; every pointer of the table is read.\<close>

fun focused_keyboard :: "(nat \<Rightarrow> device_base option) \<Rightarrow> nat option \<Rightarrow> (eid \<times> nat) list \<Rightarrow> nat option option" where
  "focused_keyboard devs found [] = Some found"
| "focused_keyboard devs found (e # es) = (case devs (snd e) of
     None \<Rightarrow> None
   | Some b \<Rightarrow> focused_keyboard devs (if has_focus b then Some (snd e) else found) es)"

definition put_device :: "nat \<Rightarrow> device_base \<Rightarrow> 'l vc_world \<Rightarrow> 'l vc_world" where
  "put_device a b w = w\<lparr>wd_devices := (wd_devices w)(a \<mapsto> b)\<rparr>"

definition emit_focus :: "eid \<Rightarrow> focus_event \<Rightarrow> 'l vc_world \<Rightarrow> 'l vc_world" where
  "emit_focus i e w = w\<lparr>wd_emitted := wd_emitted w @ [(i, e)]\<rparr>"

definition send_key :: "('l, 'w) vc_lib \<Rightarrow> device_base \<Rightarrow> scan_code \<Rightarrow> key_char \<Rightarrow> 'l vc_world \<Rightarrow> 'l vc_world" where
  "send_key G b scan char w = call_lib (lib_send_key G (db_device b) scan char (word_of_int (modifiers_state b))) w"

text \<open>\<open>wd_active\<close> becomes \<open>-1\<close>, the greatest entity id.\<close>

definition leave_keyboard :: "nat \<Rightarrow> 'l vc_world \<Rightarrow> 'l vc_world option" where
  "leave_keyboard a w = (case map_of (wd_keyboards w) (wd_active w) of
      None \<Rightarrow> Some w
    | Some k \<Rightarrow>
        (case wd_devices w a of
           None \<Rightarrow> None
         | Some b \<Rightarrow> (let w1 = put_device a (b\<lparr>modifiers_state := 0\<rparr>) w
             in (case wd_devices w1 k of
                   None \<Rightarrow> None
                 | Some kb \<Rightarrow> Some ((emit_focus (wd_active w1) Focus_blur (put_device k (kb\<lparr>has_focus := False\<rparr>) w1))
                     \<lparr>wd_active := - 1\<rparr>)))))"

definition key_pressed :: "('l, 'w) vc_lib \<Rightarrow> nat \<Rightarrow> device_base \<Rightarrow> int \<Rightarrow> 'l vc_world \<Rightarrow> 'l vc_world option" where
  "key_pressed G a b key w =
     (if key = key_escape then leave_keyboard a (send_key G b (Scan key) KEY_ESC w)
      else if key \<in> set enter_keys then Some (send_key G b SCAN_ENTER KEY_SHIFT w)
      else (case map_of named_keys key of
          Some char \<Rightarrow> Some (send_key G b (Scan key) char w)
        | None \<Rightarrow> Some (put_device a (b\<lparr>last_keycode := key\<rparr>) w)))"

definition vc_On_Keyboard :: "('l, 'w) vc_lib \<Rightarrow> keyboard_event \<Rightarrow> 'l vc_world \<Rightarrow> 'l vc_world option" where
  "vc_On_Keyboard G e w = (case focused_keyboard (wd_devices w) None (wd_keyboards w) of
      None \<Rightarrow> None
    | Some None \<Rightarrow> Some w
    | Some (Some a) \<Rightarrow> (case wd_devices w a of
        None \<Rightarrow> None
      | Some b \<Rightarrow>
          (case ke_action e of
             KEY_DOWN \<Rightarrow> (let b1 = b\<lparr>modifiers_state := ke_mods e\<rparr> in key_pressed G a b1 (ke_key e) (put_device a b1 w))
           | KEY_REPEAT \<Rightarrow> (let b1 = b\<lparr>modifiers_state := ke_mods e\<rparr> in key_pressed G a b1 (ke_key e) (put_device a b1 w))
           | KEY_UP \<Rightarrow> Some (put_device a (b\<lparr>modifiers_state := ke_mods e\<rparr>) w)
           | KEY_CHAR \<Rightarrow> Some (send_key G b (Scan (last_keycode b)) (Key_char (word_of_int (ke_key e))) w))))"

definition set_focus :: "bool \<Rightarrow> nat \<Rightarrow> 'l vc_world \<Rightarrow> 'l vc_world option" where
  "set_focus f a w = (case wd_devices w a of None \<Rightarrow> None | Some b \<Rightarrow> Some (put_device a (b\<lparr>has_focus := f\<rparr>) w))"

definition vc_On_MouseClick :: "mouse_btn \<Rightarrow> eid \<Rightarrow> 'l vc_world \<Rightarrow> 'l vc_world option" where
  "vc_On_MouseClick button i w =
     (if button \<noteq> LEFT then Some w
      else (case (if wd_active w \<noteq> i
                  then (case map_of (wd_keyboards w) (wd_active w) of None \<Rightarrow> Some w | Some k \<Rightarrow> set_focus False k w)
                  else Some w) of
         None \<Rightarrow> None
       | Some w1 \<Rightarrow> (case map_of (wd_keyboards w1) i of
           None \<Rightarrow> Some w1
         | Some k \<Rightarrow> map_option (emit_focus i Focus_captured) (set_focus True k (w1\<lparr>wd_active := i\<rparr>)))))"

text \<open>The handler of mouse buttons looks at the keyboards and does nothing.\<close>

subsection \<open>Entities\<close>

definition keyboard_type :: nat where
  "keyboard_type = 3"

definition add_keyboard :: "('l, 'w) vc_lib \<Rightarrow> eid \<Rightarrow> int \<times> nat option \<Rightarrow> 'l vc_world \<Rightarrow> 'l vc_world option" where
  "add_keyboard G i d w = (case snd d of
      None \<Rightarrow> None
    | Some a \<Rightarrow> (case wd_devices w a of
        None \<Rightarrow> None
      | Some b \<Rightarrow> Some (if lib_dev_type G (db_device b) (wd_lib w) = keyboard_type
                       then w\<lparr>wd_keyboards := om_put i a (wd_keyboards w)\<rparr> else w)))"

datatype p_entity_part = Computer_part p_computer | Other_part

text \<open>
  One part of a new entity. An exception of \<open>Computer::In\<close> leaves the handler: the new computer stays behind unregistered, and nothing
  points to it any more.
\<close>

definition create_part :: "('l, 'w) vc_lib \<Rightarrow> eid \<Rightarrow> p_entity_part \<Rightarrow> 'l vc_world \<Rightarrow> (bool \<times> 'l vc_world) option" where
  "create_part G i part w = (case part of
      Other_part \<Rightarrow> Some (False, w)
    | Computer_part src \<Rightarrow> (case new_computer G w of (p, w1) \<Rightarrow>
        (case Computer_In G src p w1 of
           None \<Rightarrow> None
         | Some (True, w2) \<Rightarrow> Some (True, w2)
         | Some (False, w2) \<Rightarrow> (case map_of (wd_computers w2) p of
             None \<Rightarrow> None
           | Some c \<Rightarrow> map_option (Pair False) (each (add_keyboard G i) (cp_devices c) (w2\<lparr>wd_table := om_put i p (wd_table w2)\<rparr>))))))"

fun vc_On_EntityCreated :: "('l, 'w) vc_lib \<Rightarrow> eid \<Rightarrow> p_entity_part list \<Rightarrow> 'l vc_world \<Rightarrow> (bool \<times> 'l vc_world) option" where
  "vc_On_EntityCreated G i [] w = Some (False, w)"
| "vc_On_EntityCreated G i (part # parts) w = (case create_part G i part w of
      None \<Rightarrow> None
    | Some (True, w1) \<Rightarrow> Some (True, w1)
    | Some (False, w1) \<Rightarrow> vc_On_EntityCreated G i parts w1)"

definition vc_On_EntityDestroyed :: "eid \<Rightarrow> 'l vc_world \<Rightarrow> 'l vc_world" where
  "vc_On_EntityDestroyed i w = w\<lparr>wd_table := om_erase i (wd_table w)\<rparr>"

subsection \<open>What saving, removing and destroying do\<close>

lemma in_omap: "wf_omap m \<Longrightarrow> (k, v) \<in> set m \<longleftrightarrow> map_of m k = Some v"
  using distinct_om_keys [of m] by (simp add: om_keys_def)

lemma run_computer_slot5:
  assumes "map_of (wd_computers w) p = Some c" and "map_of (cp_devices c) 5 = None" and "wf_omap (wd_computers w)" and "wf_omap (cp_devices c)"
  shows "\<exists>w1 c1. run_computer G p w = Some w1 \<and> map_of (wd_computers w1) p = Some c1 \<and> map_of (cp_devices c1) 5 = Some None
    \<and> wd_known w1 = wd_known w"
  using assms by (auto simp: run_computer_def put_computer_def call_lib_def Let_def)

lemma messages_None: "x \<in> set xs \<Longrightarrow> f x = None \<Longrightarrow> messages f xs = None"
  by (induction xs) (auto split: option.split)

lemma messages_from: "messages f xs = Some ys \<Longrightarrow> y \<in> set ys \<Longrightarrow> \<exists>x \<in> set xs. f x = Some y"
  by (induction xs arbitrary: ys) (auto split: option.splits)

lemma Computer_Out_null:
  assumes "map_of (wd_computers w) p = Some c" and "map_of (cp_devices c) s = Some None"
  shows "Computer_Out G p w = None"
proof -
  have "(s, None) \<in> set (cp_devices c)"
    using assms(2) by (rule map_of_SomeD)
  then have "messages (device_message G w) (cp_devices c) = None"
    by (rule messages_None) (simp add: device_message_def)
  then show ?thesis
    using assms(1) by (simp add: Computer_Out_def)
qed

text \<open>The update of a computer looks at slot 5 with the index operator, which leaves a null pointer
  there if the slot is free: from then on saving the computer, and removing the device of that
  slot, dereference the null pointer.
\<close>

theorem update_breaks_saving:
  assumes "map_of (wd_computers w) p = Some c" and "map_of (cp_devices c) 5 = None" and "wf_omap (wd_computers w)" and "wf_omap (cp_devices c)"
  shows "\<exists>w1. run_computer G p w = Some w1 \<and> Computer_Out G p w1 = None
    \<and> (map_of (wd_known w) i = Some p \<longrightarrow> RemoveDevice G i 5 w1 = None)"
proof -
  obtain w1 c1 where w1: "run_computer G p w = Some w1" "map_of (wd_computers w1) p = Some c1" "map_of (cp_devices c1) 5 = Some None"
    "wd_known w1 = wd_known w"
    using run_computer_slot5 [OF assms] by blast
  have "slot_key 5 = 5"
    by (simp add: slot_key_def)
  then show ?thesis
    using w1 Computer_Out_null [OF w1(2,3)] by (simp add: RemoveDevice_def Let_def)
qed

definition idle_computer :: computer where
  "idle_computer = \<lparr>cp_rom = [], cp_rom_name = [], cp_rom_size = 0, cp_vc = 0, cp_devices = []\<rparr>"

definition idle_world :: "unit vc_world" where
  "idle_world = (new_vc_world ())\<lparr>wd_computers := [(0, idle_computer)], wd_known := [(7, 0)], wd_table := [(7, 0)], wd_next := 1\<rparr>"

theorem update_breaks_saving_witness:
  "\<forall>G. \<exists>w1. run_computer G 0 idle_world = Some w1 \<and> Computer_Out G 0 w1 = None \<and> RemoveDevice G 7 5 w1 = None"
proof
  fix G :: "(unit, 'a) vc_lib"
  have "map_of (wd_computers idle_world) 0 = Some idle_computer" "wf_omap (wd_computers idle_world)"
    "map_of (wd_known idle_world) 7 = Some 0" "map_of (cp_devices idle_computer) 5 = None" "wf_omap (cp_devices idle_computer)"
    by (simp_all add: idle_world_def idle_computer_def wf_omap_Cons om_keys_def)
  then show "\<exists>w1. run_computer G 0 idle_world = Some w1 \<and> Computer_Out G 0 w1 = None \<and> RemoveDevice G 7 5 w1 = None"
    using update_breaks_saving [of idle_world 0 idle_computer G 7] by blast
qed

text \<open>What is saved of a computer is always the state of a TR3200, without the name of its ROM, and a
  keyboard is saved as a slot without a device: loading the saved devices of a computer that
  has only keyboards adds nothing.
\<close>

theorem saved_computer_loses:
  assumes "Computer_Out G p w = Some m" and "map_of (wd_computers w) p = Some c"
    and "\<forall>(s, d) \<in> set (cp_devices c). \<exists>a b. d = Some a \<and> wd_devices w a = Some b \<and> db_kind b = Keyboard_dev"
  shows "(\<exists>s. px_cpu m = P_tr3200 s) \<and> px_rom_file m = []
    \<and> (map_of (wd_computers v) q \<noteq> None \<longrightarrow> each (add_p_device G q) (px_devices m) v = Some v)"
proof -
  obtain ds where ds: "messages (device_message G w) (cp_devices c) = Some ds" "px_devices m = ds"
    and rest: "\<exists>s. px_cpu m = P_tr3200 s" "px_rom_file m = []"
    using assms(1,2) by (auto simp: Computer_Out_def split: option.splits)
  have unset: "\<forall>d \<in> set ds. pd_device d = P_device_not_set"
  proof
    fix d assume "d \<in> set ds"
    then obtain e where e: "e \<in> set (cp_devices c)" "device_message G w e = Some d"
      using messages_from [OF ds(1)] by blast
    then show "pd_device d = P_device_not_set"
      using assms(3) by (auto simp: device_message_def split: option.splits)
  qed
  have "each (add_p_device G q) ds v = Some v" if "map_of (wd_computers v) q \<noteq> None"
    using unset that by (induction ds) (auto simp: add_p_device_def split: option.split)
  then show ?thesis
    using rest ds(2) by blast
qed

definition keyboard_world :: "unit vc_world" where
  "keyboard_world = idle_world\<lparr>wd_computers := [(0, idle_computer\<lparr>cp_devices := [(1, Some 1)]\<rparr>)],
     wd_devices := [1 \<mapsto> new_device_base Keyboard_dev 0], wd_keyboards := [(7, 1)], wd_next := 2\<rparr>"

theorem saved_computer_loses_witness:
  "\<forall>G. \<exists>m. Computer_Out G 0 keyboard_world = Some m \<and> (\<exists>s. px_cpu m = P_tr3200 s)
     \<and> each (add_p_device G 0) (px_devices m) idle_world = Some idle_world"
proof
  fix G :: "(unit, 'a) vc_lib"
  obtain m where m: "Computer_Out G 0 keyboard_world = Some m"
    by (simp add: Computer_Out_def keyboard_world_def idle_world_def new_vc_world_def device_message_def)
  have "map_of (wd_computers keyboard_world) 0 = Some (idle_computer\<lparr>cp_devices := [(1, Some 1)]\<rparr>)"
    by (simp add: keyboard_world_def)
  from saved_computer_loses [OF m this, of idle_world 0] m
  show "\<exists>m. Computer_Out G 0 keyboard_world = Some m \<and> (\<exists>s. px_cpu m = P_tr3200 s)
     \<and> each (add_p_device G 0) (px_devices m) idle_world = Some idle_world"
    by (simp add: keyboard_world_def idle_world_def new_device_base_def)
qed

text \<open>Removing the keyboard of a computer frees it when no other computer has it, but the table of
  keyboards keeps the pointer: the next key reads the freed keyboard.
\<close>

theorem removed_keyboard_dangles:
  assumes known: "map_of (wd_known w) i = Some p" "map_of (wd_computers w) p = Some c" "wf_omap (wd_computers w)" "wf_omap (cp_devices c)"
    and slot: "map_of (cp_devices c) (slot_key slot) = Some (Some a)" "wd_devices w a = Some b"
      "lib_get_device G (cp_vc c) slot (wd_lib w) = Some (db_device b)"
    and alone: "\<forall>q c1 s. map_of (wd_computers w) q = Some c1 \<and> map_of (cp_devices c1) s = Some (Some a) \<longrightarrow> q = p \<and> s = slot_key slot"
      "\<forall>(q, c1) \<in> set (wd_computers w). wf_omap (cp_devices c1)"
    and table: "(e, a) \<in> set (wd_keyboards w)"
  shows "\<exists>w1. RemoveDevice G i slot w = Some w1 \<and> vc_On_Keyboard G ev w1 = None"
proof -
  define w0 where "w0 = put_computer p (c\<lparr>cp_devices := om_erase (slot_key slot) (cp_devices c)\<rparr>) w"
  have "\<not> dev_owned a w0"
  proof
    assume "dev_owned a w0"
    then obtain q c1 s where q: "(q, c1) \<in> set (wd_computers w0)" "(s, Some a) \<in> set (cp_devices c1)"
      by (auto simp: dev_owned_def)
    have "wf_omap (wd_computers w0)"
      by (simp add: w0_def put_computer_def wf_om_put known(3))
    then have lookup: "map_of (wd_computers w0) q = Some c1"
      using q(1) by (simp add: in_omap)
    show False
    proof (cases "q = p")
      case True
      then have "c1 = c\<lparr>cp_devices := om_erase (slot_key slot) (cp_devices c)\<rparr>"
        using lookup known(3) by (simp add: w0_def put_computer_def)
      then have "map_of (om_erase (slot_key slot) (cp_devices c)) s = Some (Some a)"
        using q(2) by (simp add: in_omap wf_om_erase known(4))
      then show False
        using alone(1) known(2) by (auto split: if_splits)
    next
      case False
      then have c1: "map_of (wd_computers w) q = Some c1"
        using lookup known(3) by (simp add: w0_def put_computer_def)
      then have "wf_omap (cp_devices c1)"
        using alone(2) map_of_SomeD by fastforce
      then have "map_of (cp_devices c1) s = Some (Some a)"
        using q(2) by (simp add: in_omap)
      then show False
        using alone(1) c1 False by blast
    qed
  qed
  then have rm: "RemoveDevice G i slot w = Some (call_lib (lib_rm_device G (cp_vc c) slot) (w0\<lparr>wd_devices := (wd_devices w0)(a := None)\<rparr>))"
    using known slot by (simp add: RemoveDevice_def Let_def release_def w0_def)
  have "focused_keyboard devs f es = None" if "(e, a) \<in> set es" "devs a = None" for devs f es
    using that by (induction es arbitrary: f) (auto split: option.split)
  then show ?thesis
    using table by (simp add: rm vc_On_Keyboard_def call_lib_def w0_def put_computer_def)
qed

text \<open>A library that does nothing, for examples; one ROM file is missing and all others cannot be read.\<close>

definition still_lib :: "(unit, 32 word) vc_lib" where
  "still_lib = \<lparr>lib_new_vc = (\<lambda>l. (0, l)), lib_new_screen = (\<lambda>l. (0, l)), lib_new_keyboard = (\<lambda>l. (0, l)),
     lib_set_cpu = (\<lambda>_ _ l. l), lib_on = (\<lambda>_ l. l), lib_off = (\<lambda>_ l. l), lib_set_tr3200 = (\<lambda>_ _ l. l), lib_set_dcpu16n = (\<lambda>_ _ l. l),
     lib_get_tr3200 = (\<lambda>_ _. \<lparr>tr_r = [], tr_pc = 0, tr_wait_cycles = 0, tr_int_msg = 0, tr_interrupt = False, tr_step_mode = False,
        tr_skiping = False, tr_sleeping = False\<rparr>),
     lib_ram = (\<lambda>_ _. replicate 16 0), lib_put_ram = (\<lambda>_ _ l. l), lib_add_device = (\<lambda>_ _ _ l. l), lib_get_device = (\<lambda>_ _ _. Some 0),
     lib_rm_device = (\<lambda>_ _ l. l), lib_set_rom = (\<lambda>_ _ _ l. l), lib_update = (\<lambda>_ _ l. l), lib_set_screen = (\<lambda>_ _ l. l),
     lib_get_screen = (\<lambda>_ _. \<lparr>tda_buffer_ptr = 0, tda_font_ptr = 0, tda_vsync_msg = 0, tda_a = 0, tda_b = 0, tda_d = 0, tda_e = 0\<rparr>),
     lib_dev_type = (\<lambda>_ _. 3), lib_send_key = (\<lambda>_ _ _ _ l. l), lib_load_rom = (\<lambda>f. if f = ''gone.rom'' then Rom_missing else Rom_unreadable), lib_load_rom_file = (\<lambda>_. None),
     lib_word = (\<lambda>x. x), lib_widen = (\<lambda>x. x), lib_tr3200_regs = 16, lib_dcpu16n_regs = 8\<rparr>"

theorem removed_keyboard_dangles_witness:
  "\<forall>ev. \<exists>w1. RemoveDevice still_lib 7 1 keyboard_world = Some w1 \<and> vc_On_Keyboard still_lib ev w1 = None"
proof
  fix ev
  have "map_of (wd_computers keyboard_world) 0 = Some (idle_computer\<lparr>cp_devices := [(1, Some 1)]\<rparr>)"
    "map_of (wd_known keyboard_world) 7 = Some 0" "wd_devices keyboard_world 1 = Some (new_device_base Keyboard_dev 0)"
    "wf_omap (wd_computers keyboard_world)" "slot_key 1 = 1"
    by (simp_all add: keyboard_world_def idle_world_def wf_omap_Cons om_keys_def slot_key_def)
  then show "\<exists>w1. RemoveDevice still_lib 7 1 keyboard_world = Some w1 \<and> vc_On_Keyboard still_lib ev w1 = None"
    by (intro removed_keyboard_dangles [where p = 0 and c = "idle_computer\<lparr>cp_devices := [(1, Some 1)]\<rparr>" and a = 1
          and b = "new_device_base Keyboard_dev 0" and e = 7])
      (auto simp: keyboard_world_def idle_computer_def new_device_base_def still_lib_def wf_omap_Cons om_keys_def split: if_splits)
qed

end
