(* ===== verification/VComputer_Safe.thy ===== *)
theory VComputer_Safe
  imports VComputer
begin

text \<open>
  What the system of virtual computers keeps: every pointer it holds is live, no two entities have
  the same keyboard, and only the keyboard of the active entity has the focus. The calls that
  take devices out of computers are not part of it (\<open>removed_keyboard_dangles\<close>).
\<close>

subsection \<open>Pointers\<close>

definition comp_holds :: "'l vc_world \<Rightarrow> nat \<Rightarrow> nat \<Rightarrow> bool" where
  "comp_holds w p a \<longleftrightarrow> (\<exists>c s. map_of (wd_computers w) p = Some c \<and> map_of (cp_devices c) s = Some (Some a))"

text \<open>
  The tables are maps, every address is below the next one, a device belongs to one place, is live,
  and every keyboard of the table is held by a computer.
\<close>

definition sound_stores :: "'l vc_world \<Rightarrow> bool" where
  "sound_stores w \<longleftrightarrow> wf_omap (wd_computers w) \<and> wf_omap (wd_table w) \<and> wf_omap (wd_keyboards w) \<and> wf_omap (wd_known w)
     \<and> (\<forall>p c. map_of (wd_computers w) p = Some c \<longrightarrow> p < wd_next w \<and> wf_omap (cp_devices c))
     \<and> (\<forall>p a. comp_holds w p a \<longrightarrow> a < wd_next w \<and> wd_devices w a \<noteq> None)
     \<and> (\<forall>p q a. comp_holds w p a \<and> comp_holds w q a \<longrightarrow> p = q)"

definition sound_tables :: "'l vc_world \<Rightarrow> bool" where
  "sound_tables w \<longleftrightarrow> (\<forall>i p. map_of (wd_table w) i = Some p \<longrightarrow> map_of (wd_computers w) p \<noteq> None)
     \<and> (\<forall>i p. map_of (wd_known w) i = Some p \<longrightarrow> map_of (wd_computers w) p \<noteq> None)
     \<and> (\<forall>i a. map_of (wd_keyboards w) i = Some a \<longrightarrow> (\<exists>p. comp_holds w p a))"

definition sound_focus :: "'l vc_world \<Rightarrow> bool" where
  "sound_focus w \<longleftrightarrow> (\<forall>i j a. map_of (wd_keyboards w) i = Some a \<and> map_of (wd_keyboards w) j = Some a \<longrightarrow> i = j)
     \<and> (\<forall>i a b. map_of (wd_keyboards w) i = Some a \<and> wd_devices w a = Some b \<and> has_focus b \<longrightarrow> i = wd_active w)"

definition sound_vc :: "'l vc_world \<Rightarrow> bool" where
  "sound_vc w \<longleftrightarrow> sound_stores w \<and> sound_tables w \<and> sound_focus w"

text \<open>What a call of the library, an emitted event or a change of the clock leaves alone.\<close>

lemma call_lib_simps [simp]:
  "wd_computers (call_lib f w) = wd_computers w" "wd_devices (call_lib f w) = wd_devices w" "wd_next (call_lib f w) = wd_next w"
  "wd_table (call_lib f w) = wd_table w" "wd_keyboards (call_lib f w) = wd_keyboards w" "wd_known (call_lib f w) = wd_known w"
  "wd_active (call_lib f w) = wd_active w" "wd_emitted (call_lib f w) = wd_emitted w"
  by (simp_all add: call_lib_def)

lemma emit_focus_simps [simp]:
  "wd_computers (emit_focus i e w) = wd_computers w" "wd_devices (emit_focus i e w) = wd_devices w" "wd_next (emit_focus i e w) = wd_next w"
  "wd_table (emit_focus i e w) = wd_table w" "wd_keyboards (emit_focus i e w) = wd_keyboards w" "wd_known (emit_focus i e w) = wd_known w"
  "wd_active (emit_focus i e w) = wd_active w"
  by (simp_all add: emit_focus_def)

lemma put_device_simps [simp]:
  "wd_computers (put_device a b w) = wd_computers w" "wd_next (put_device a b w) = wd_next w"
  "wd_table (put_device a b w) = wd_table w" "wd_keyboards (put_device a b w) = wd_keyboards w" "wd_known (put_device a b w) = wd_known w"
  "wd_active (put_device a b w) = wd_active w" "wd_emitted (put_device a b w) = wd_emitted w"
  "wd_devices (put_device a b w) = (wd_devices w)(a \<mapsto> b)"
  by (simp_all add: put_device_def)

lemma put_computer_simps [simp]:
  "wd_computers (put_computer p c w) = om_put p c (wd_computers w)" "wd_next (put_computer p c w) = wd_next w"
  "wd_table (put_computer p c w) = wd_table w" "wd_keyboards (put_computer p c w) = wd_keyboards w" "wd_known (put_computer p c w) = wd_known w"
  "wd_active (put_computer p c w) = wd_active w" "wd_devices (put_computer p c w) = wd_devices w"
  by (simp_all add: put_computer_def)

lemma release_simps [simp]:
  "wd_computers (release d w) = wd_computers w" "wd_next (release d w) = wd_next w" "wd_table (release d w) = wd_table w"
  "wd_keyboards (release d w) = wd_keyboards w" "wd_known (release d w) = wd_known w" "wd_active (release d w) = wd_active w"
  by (simp_all add: release_def split: option.split)

text \<open>Only the stores, the tables and the active entity matter.\<close>

lemma holds_cong: "wd_computers v = wd_computers w \<Longrightarrow> comp_holds v = comp_holds w"
  by (simp add: comp_holds_def fun_eq_iff)

lemma sound_vc_cong:
  assumes "wd_computers v = wd_computers w" "wd_devices v = wd_devices w" "wd_next v = wd_next w"
    "wd_table v = wd_table w" "wd_keyboards v = wd_keyboards w" "wd_known v = wd_known w" "wd_active v = wd_active w"
  shows "sound_vc v \<longleftrightarrow> sound_vc w"
  using assms holds_cong [OF assms(1)] by (simp add: sound_vc_def sound_stores_def sound_tables_def sound_focus_def)

lemma sound_vc_lib [simp]: "sound_vc (call_lib f w) \<longleftrightarrow> sound_vc w"
  by (rule sound_vc_cong) simp_all

lemma sound_vc_emit [simp]: "sound_vc (emit_focus i e w) \<longleftrightarrow> sound_vc w"
  by (rule sound_vc_cong) simp_all

lemma sound_vcD:
  assumes "sound_vc w"
  shows "map_of (wd_keyboards w) i = Some a \<Longrightarrow> \<exists>b. wd_devices w a = Some b"
    "map_of (wd_known w) j = Some p \<Longrightarrow> \<exists>c. map_of (wd_computers w) p = Some c"
    "wf_omap (wd_computers w)" "wf_omap (wd_keyboards w)"
proof -
  have stores: "sound_stores w" and tables: "sound_tables w"
    using assms by (simp_all add: sound_vc_def)
  show "wf_omap (wd_computers w)" "wf_omap (wd_keyboards w)"
    using stores by (simp_all add: sound_stores_def)
  show "\<exists>b. wd_devices w a = Some b" if k: "map_of (wd_keyboards w) i = Some a"
  proof -
    obtain p where "comp_holds w p a"
      using tables k unfolding sound_tables_def by blast
    then have "wd_devices w a \<noteq> None"
      using stores unfolding sound_stores_def by blast
    then show ?thesis by simp
  qed
  show "\<exists>c. map_of (wd_computers w) p = Some c" if "map_of (wd_known w) j = Some p"
    using tables that unfolding sound_tables_def by blast
qed

lemma sound_focusD:
  "sound_vc w \<Longrightarrow> map_of (wd_keyboards w) i = Some a \<Longrightarrow> wd_devices w a = Some b \<Longrightarrow> has_focus b \<Longrightarrow> i = wd_active w"
  unfolding sound_vc_def sound_focus_def by blast

text \<open>A keyboard may change as long as its focus stays or goes.\<close>

lemma sound_put_device:
  assumes s: "sound_vc w" and a: "wd_devices w a = Some b" and f: "has_focus b1 \<Longrightarrow> has_focus b"
  shows "sound_vc (put_device a b1 w)"
proof -
  have h: "comp_holds (put_device a b1 w) = comp_holds w"
    by (rule holds_cong) simp
  have "sound_stores (put_device a b1 w)" "sound_tables (put_device a b1 w)"
    using s unfolding sound_vc_def sound_stores_def sound_tables_def h by auto
  moreover have "sound_focus (put_device a b1 w)"
    using s a f unfolding sound_vc_def sound_focus_def by auto
  ultimately show ?thesis
    by (simp add: sound_vc_def)
qed

subsection \<open>Keys and clicks\<close>

lemma focused_keyboard_found:
  assumes "\<forall>e \<in> set es. devs (snd e) \<noteq> None"
  shows "\<exists>r. focused_keyboard devs found es = Some r
    \<and> (r = found \<or> (\<exists>e \<in> set es. \<exists>b. r = Some (snd e) \<and> devs (snd e) = Some b \<and> has_focus b))"
  using assms
proof (induction es arbitrary: found)
  case (Cons e es)
  then obtain b where b: "devs (snd e) = Some b" by auto
  show ?case
    using Cons.IH [of "if has_focus b then Some (snd e) else found"] Cons.prems b by (auto split: if_splits)
qed simp

lemma focused_keyboard_keeps: "focused_keyboard devs (Some a) es = Some r \<Longrightarrow> r \<noteq> None"
  by (induction es arbitrary: a) (auto split: option.splits if_splits)

lemma focused_keyboard_some:
  "focused_keyboard devs found es = Some r \<Longrightarrow> e \<in> set es \<Longrightarrow> devs (snd e) = Some b \<Longrightarrow> has_focus b \<Longrightarrow> r \<noteq> None"
  by (induction es arbitrary: found) (auto split: option.splits if_splits dest: focused_keyboard_keeps)

lemma keyboard_of_table:
  assumes "sound_vc w"
  shows "\<exists>r. focused_keyboard (wd_devices w) None (wd_keyboards w) = Some r
    \<and> (\<forall>a. r = Some a \<longrightarrow> (\<exists>b. map_of (wd_keyboards w) (wd_active w) = Some a \<and> wd_devices w a = Some b \<and> has_focus b))"
proof -
  have "\<forall>e \<in> set (wd_keyboards w). wd_devices w (snd e) \<noteq> None"
    using sound_vcD(1,4) [OF assms] by (fastforce simp: in_omap)
  then obtain r where r: "focused_keyboard (wd_devices w) None (wd_keyboards w) = Some r"
    "r = None \<or> (\<exists>e \<in> set (wd_keyboards w). \<exists>b. r = Some (snd e) \<and> wd_devices w (snd e) = Some b \<and> has_focus b)"
    using focused_keyboard_found by blast
  then have "\<exists>b. map_of (wd_keyboards w) (wd_active w) = Some a \<and> wd_devices w a = Some b \<and> has_focus b" if ra: "r = Some a" for a
  proof -
    obtain e b where e: "e \<in> set (wd_keyboards w)" "r = Some (snd e)" "wd_devices w (snd e) = Some b" "has_focus b"
      using r(2) ra by blast
    define i where "i = fst e"
    have "(i, a) \<in> set (wd_keyboards w)" "wd_devices w a = Some b" "has_focus b"
      using e ra by (simp_all add: i_def)
    then have "map_of (wd_keyboards w) i = Some a"
      using in_omap [OF sound_vcD(4) [OF assms]] by simp
    then show ?thesis
      using assms \<open>wd_devices w a = Some b\<close> \<open>has_focus b\<close> unfolding sound_vc_def sound_focus_def by blast
  qed
  then show ?thesis
    using r(1) by blast
qed

lemma leave_keyboard_sound:
  assumes s: "sound_vc w" and a: "map_of (wd_keyboards w) (wd_active w) = Some a"
  shows "\<exists>w1. leave_keyboard a w = Some w1 \<and> sound_vc w1 \<and> wd_active w1 = - 1
    \<and> wd_emitted w1 = wd_emitted w @ [(wd_active w, Focus_blur)]
    \<and> (\<forall>i k b. map_of (wd_keyboards w1) i = Some k \<and> wd_devices w1 k = Some b \<longrightarrow> \<not> has_focus b)"
proof -
  obtain b where b: "wd_devices w a = Some b"
    using sound_vcD(1) [OF s a] by blast
  define w1 where "w1 = put_device a (b\<lparr>modifiers_state := 0, has_focus := False\<rparr>) (put_device a (b\<lparr>modifiers_state := 0\<rparr>) w)"
  define w2 where "w2 = (emit_focus (wd_active w) Focus_blur w1)\<lparr>wd_active := - 1\<rparr>"
  have leave: "leave_keyboard a w = Some w2"
    using a b by (simp add: leave_keyboard_def w1_def w2_def Let_def)
  have s1: "sound_vc w1"
    unfolding w1_def by (rule sound_put_device [OF sound_put_device [OF s b]]) simp_all
  have idle: "\<not> has_focus kb" if "map_of (wd_keyboards w) i = Some k" "wd_devices w1 k = Some kb" for i k kb
    using sound_focusD [OF s that(1)] that a by (cases "k = a") (auto simp: w1_def)
  have "sound_vc w2"
    using s1 idle holds_cong [of w2 w1]
    by (simp add: sound_vc_def sound_stores_def sound_tables_def sound_focus_def w2_def) (auto simp: w1_def)
  then show ?thesis
    using leave idle by (auto simp: w2_def w1_def emit_focus_def)
qed

lemma put_device_same: "put_device a b w = w" if "wd_devices w a = Some b"
  using that by (simp add: put_device_def fun_upd_idem)

lemma key_pressed_sound:
  assumes s: "sound_vc w" and a: "map_of (wd_keyboards w) (wd_active w) = Some a" "wd_devices w a = Some b"
  shows "\<exists>w1. key_pressed G a b key w = Some w1 \<and> sound_vc w1"
proof -
  have "\<exists>w1. leave_keyboard a (send_key G b sc ch w) = Some w1 \<and> sound_vc w1" for sc ch
    using leave_keyboard_sound [of "send_key G b sc ch w" a] s a by (auto simp: send_key_def)
  moreover have "sound_vc (send_key G b sc ch w)" for sc ch
    using s by (simp add: send_key_def)
  moreover have "sound_vc (put_device a (b\<lparr>last_keycode := key\<rparr>) w)"
    by (rule sound_put_device [OF s a(2)]) simp
  ultimately show ?thesis
    by (auto simp: key_pressed_def split: option.split)
qed

lemma vc_On_Keyboard_sound:
  assumes s: "sound_vc w"
  shows "\<exists>w1. vc_On_Keyboard G e w = Some w1 \<and> sound_vc w1"
proof -
  obtain r where r: "focused_keyboard (wd_devices w) None (wd_keyboards w) = Some r"
    "\<forall>a. r = Some a \<longrightarrow> (\<exists>b. map_of (wd_keyboards w) (wd_active w) = Some a \<and> wd_devices w a = Some b \<and> has_focus b)"
    using keyboard_of_table [OF s] by blast
  show ?thesis
  proof (cases r)
    case None
    then show ?thesis using r(1) s by (simp add: vc_On_Keyboard_def)
  next
    case (Some a)
    then obtain b where b: "map_of (wd_keyboards w) (wd_active w) = Some a" "wd_devices w a = Some b"
      using r(2) by blast
    let ?b = "b\<lparr>modifiers_state := ke_mods e\<rparr>"
    have s1: "sound_vc (put_device a ?b w)"
      by (rule sound_put_device [OF s b(2)]) simp
    have pressed: "\<exists>w1. key_pressed G a ?b key (put_device a ?b w) = Some w1 \<and> sound_vc w1" for key
      by (rule key_pressed_sound [OF s1]) (simp_all add: b(1))
    show ?thesis
      using r(1) Some b(2) s s1 pressed by (cases "ke_action e") (simp_all add: vc_On_Keyboard_def send_key_def Let_def)
  qed
qed

lemma set_focus_False_sound:
  assumes "sound_vc w" and "map_of (wd_keyboards w) i = Some k"
  shows "\<exists>w1. set_focus False k w = Some w1 \<and> sound_vc w1 \<and> wd_keyboards w1 = wd_keyboards w \<and> wd_active w1 = wd_active w
    \<and> (\<forall>b. wd_devices w1 k = Some b \<longrightarrow> \<not> has_focus b)"
  using sound_vcD(1) [OF assms] sound_put_device [OF assms(1), of k] by (force simp: set_focus_def)

lemma focus_moves:
  assumes s: "sound_vc w" and k: "map_of (wd_keyboards w) i = Some k"
    and idle: "\<And>j a b. map_of (wd_keyboards w) j = Some a \<Longrightarrow> j \<noteq> i \<Longrightarrow> wd_devices w a = Some b \<Longrightarrow> \<not> has_focus b"
  shows "\<exists>w1. set_focus True k (w\<lparr>wd_active := i\<rparr>) = Some w1 \<and> sound_vc w1"
proof -
  obtain b where b: "wd_devices w k = Some b"
    using sound_vcD(1) [OF s k] by blast
  let ?w = "put_device k (b\<lparr>has_focus := True\<rparr>) (w\<lparr>wd_active := i\<rparr>)"
  have h: "comp_holds ?w = comp_holds w"
    by (rule holds_cong) simp
  have "sound_stores ?w" "sound_tables ?w"
    using s unfolding sound_vc_def sound_stores_def sound_tables_def h by auto
  moreover have "sound_focus ?w"
    using s k idle unfolding sound_vc_def sound_focus_def by (auto split: if_splits)
  ultimately show ?thesis
    using b by (simp add: sound_vc_def set_focus_def)
qed

lemma vc_On_MouseClick_sound:
  assumes s: "sound_vc w"
  shows "\<exists>w1. vc_On_MouseClick button i w = Some w1 \<and> sound_vc w1"
proof (cases "button = LEFT")
  case True
  have "\<exists>w1. (if wd_active w \<noteq> i
                  then (case map_of (wd_keyboards w) (wd_active w) of None \<Rightarrow> Some w | Some k \<Rightarrow> set_focus False k w)
                  else Some w) = Some w1 \<and> sound_vc w1
     \<and> (\<forall>j a b. map_of (wd_keyboards w1) j = Some a \<and> j \<noteq> i \<and> wd_devices w1 a = Some b \<longrightarrow> \<not> has_focus b)"
  proof (cases "wd_active w \<noteq> i \<and> map_of (wd_keyboards w) (wd_active w) \<noteq> None")
    case True
    then obtain k where k: "map_of (wd_keyboards w) (wd_active w) = Some k" by auto
    obtain w1 where w1: "set_focus False k w = Some w1" "sound_vc w1" "wd_keyboards w1 = wd_keyboards w" "wd_active w1 = wd_active w"
      "\<forall>b. wd_devices w1 k = Some b \<longrightarrow> \<not> has_focus b"
      using set_focus_False_sound [OF s k] by blast
    have "\<not> has_focus b" if "map_of (wd_keyboards w1) j = Some a" "j \<noteq> i" "wd_devices w1 a = Some b" for j a b
      using w1(2-5) that k unfolding sound_vc_def sound_focus_def by (metis option.inject)
    then show ?thesis
      using True k w1(1,2) by auto
  next
    case False
    have "\<not> has_focus b" if "map_of (wd_keyboards w) j = Some a" "j \<noteq> i" "wd_devices w a = Some b" for j a b
      using sound_focusD [OF s that(1,3)] that(1,2) False by auto
    then show ?thesis
      using s False by auto
  qed
  then obtain w1 where w1: "(if wd_active w \<noteq> i
                  then (case map_of (wd_keyboards w) (wd_active w) of None \<Rightarrow> Some w | Some k \<Rightarrow> set_focus False k w)
                  else Some w) = Some w1" "sound_vc w1"
     "\<forall>j a b. map_of (wd_keyboards w1) j = Some a \<and> j \<noteq> i \<and> wd_devices w1 a = Some b \<longrightarrow> \<not> has_focus b"
    by blast
  show ?thesis
  proof (cases "map_of (wd_keyboards w1) i")
    case None
    then show ?thesis
      using True w1 by (simp add: vc_On_MouseClick_def)
  next
    case (Some k)
    then show ?thesis
      using True w1 focus_moves [OF w1(2) Some] by (auto simp: vc_On_MouseClick_def)
  qed
qed (use s in \<open>simp add: vc_On_MouseClick_def\<close>)

subsection \<open>Loading a computer\<close>

text \<open>
  While the computer \<open>p\<close> of a new entity is loaded, everything older than \<open>w0\<close> stays; \<open>p\<close> has no null
  pointer, and its devices are new and without focus.
\<close>

definition building :: "'l vc_world \<Rightarrow> nat \<Rightarrow> 'l vc_world \<Rightarrow> bool" where
  "building w0 p w \<longleftrightarrow> sound_stores w \<and> wd_next w0 \<le> p \<and> p < wd_next w
     \<and> wd_table w = wd_table w0 \<and> wd_keyboards w = wd_keyboards w0 \<and> wd_known w = wd_known w0
     \<and> wd_active w = wd_active w0 \<and> wd_emitted w = wd_emitted w0
     \<and> (\<forall>q. q \<noteq> p \<longrightarrow> map_of (wd_computers w) q = map_of (wd_computers w0) q)
     \<and> (\<forall>a < wd_next w0. wd_devices w a = wd_devices w0 a)
     \<and> (\<exists>c. map_of (wd_computers w) p = Some c \<and> (\<forall>s. map_of (cp_devices c) s \<noteq> Some None))
     \<and> (\<forall>a. comp_holds w p a \<longrightarrow> wd_next w0 \<le> a \<and> (\<exists>b. wd_devices w a = Some b \<and> \<not> has_focus b))"

lemma building_cong:
  assumes "wd_computers v = wd_computers w" "wd_devices v = wd_devices w" "wd_next v = wd_next w"
    "wd_table v = wd_table w" "wd_keyboards v = wd_keyboards w" "wd_known v = wd_known w" "wd_active v = wd_active w"
    "wd_emitted v = wd_emitted w"
  shows "building w0 p v \<longleftrightarrow> building w0 p w"
  using assms holds_cong [OF assms(1)] by (simp add: building_def sound_stores_def)

lemma building_lib [simp]: "building w0 p (call_lib f w) \<longleftrightarrow> building w0 p w"
  by (rule building_cong) simp_all

lemma sound_storesD:
  assumes "sound_stores w"
  shows "wf_omap (wd_computers w)" "wf_omap (wd_table w)" "wf_omap (wd_keyboards w)" "wf_omap (wd_known w)"
    "map_of (wd_computers w) p = Some c \<Longrightarrow> p < wd_next w \<and> wf_omap (cp_devices c)"
    "comp_holds w p a \<Longrightarrow> a < wd_next w \<and> wd_devices w a \<noteq> None" "comp_holds w p a \<Longrightarrow> comp_holds w q a \<Longrightarrow> p = q"
  using assms unfolding sound_stores_def by blast+

lemma owned_iff: "sound_stores w \<Longrightarrow> dev_owned a w \<longleftrightarrow> (\<exists>p. comp_holds w p a)"
proof -
  assume s: "sound_stores w"
  have "(p, c) \<in> set (wd_computers w) \<longleftrightarrow> map_of (wd_computers w) p = Some c" for p c
    by (rule in_omap [OF sound_storesD(1) [OF s]])
  moreover have "(k, d) \<in> set (cp_devices c) \<longleftrightarrow> map_of (cp_devices c) k = Some d" if "map_of (wd_computers w) p = Some c" for p c k d
    using sound_storesD(5) [OF s that] by (simp add: in_omap)
  ultimately show ?thesis
    unfolding dev_owned_def comp_holds_def by fastforce
qed

text \<open>A new device is not held by anyone.\<close>

lemma new_device_building:
  assumes b: "building w0 p w" and d: "new_device G k w = (a, w1)"
  shows "building w0 p w1 \<and> wd_next w0 \<le> a \<and> a < wd_next w1 \<and> (\<exists>dv. wd_devices w1 a = Some (new_device_base k dv)) \<and> (\<forall>q. \<not> comp_holds w1 q a)
    \<and> wd_computers w1 = wd_computers w"
proof -
  obtain dv l where a: "a = wd_next w" and w1: "w1 = w\<lparr>wd_lib := l, wd_devices := (wd_devices w)(wd_next w \<mapsto> new_device_base k dv), wd_next := wd_next w + 1\<rparr>"
    using d by (auto simp: new_device_def split: prod.splits device_kind.splits)
  have h: "comp_holds w1 = comp_holds w"
    by (rule holds_cong) (simp add: w1)
  have st: "sound_stores w" and next0: "wd_next w0 \<le> wd_next w"
    using b by (auto simp: building_def)
  have fresh: "\<not> comp_holds w q a" for q
    using sound_storesD(6) [OF st, of q a] by (auto simp: a)
  have "sound_stores w1"
    using st unfolding sound_stores_def h by (auto simp: w1 less_Suc_eq)
  moreover have "building w0 p w1"
    using b calculation fresh unfolding building_def h by (auto simp: w1 a)
  ultimately show ?thesis
    using next0 fresh unfolding h by (auto simp: w1 a)
qed

lemma store_holds_put:
  assumes "wf_omap (wd_computers w)" and "map_of (wd_computers w) p = Some c" and "wf_omap (cp_devices c)"
  shows "comp_holds (put_computer p (c\<lparr>cp_devices := om_put s (Some a) (cp_devices c)\<rparr>) w) q x
    \<longleftrightarrow> (if q = p then x = a \<or> (\<exists>t. t \<noteq> s \<and> map_of (cp_devices c) t = Some (Some x)) else comp_holds w q x)"
  using assms by (auto simp: comp_holds_def split: if_splits)

lemma install_building:
  assumes b: "building w0 p w" and a: "wd_next w0 \<le> a" "a < wd_next w" "wd_devices w a = Some bd" "\<not> has_focus bd"
    and fresh: "\<And>q. \<not> comp_holds w q a"
  shows "\<exists>w1. install p slot a w = Some w1 \<and> building w0 p w1"
proof -
  note st = sound_storesD
  have sw: "sound_stores w"
    using b by (simp add: building_def)
  obtain c where c: "map_of (wd_computers w) p = Some c" "\<And>s. map_of (cp_devices c) s \<noteq> Some None"
    using b by (auto simp: building_def)
  have wfs: "wf_omap (wd_computers w)" "wf_omap (cp_devices c)"
    using st(1) [OF sw] st(5) [OF sw c(1)] by simp_all
  let ?s = "slot_key slot"
  define w1 where "w1 = put_computer p (c\<lparr>cp_devices := om_put ?s (Some a) (cp_devices c)\<rparr>) w"
  have h1: "comp_holds w1 q x \<longleftrightarrow> (if q = p then x = a \<or> (\<exists>t. t \<noteq> ?s \<and> map_of (cp_devices c) t = Some (Some x)) else comp_holds w q x)" for q x
    unfolding w1_def by (rule store_holds_put [OF wfs(1) c(1) wfs(2)])
  have h1w: "comp_holds w1 q x \<Longrightarrow> x = a \<and> q = p \<or> comp_holds w q x" for q x
    unfolding h1 using c(1) by (auto simp: comp_holds_def split: if_splits)
  have comps: "map_of (wd_computers w1) q = (if q = p then Some (c\<lparr>cp_devices := om_put ?s (Some a) (cp_devices c)\<rparr>) else map_of (wd_computers w) q)" for q
    using wfs(1) by (simp add: w1_def)
  have s1: "sound_stores w1"
    unfolding sound_stores_def
  proof (intro conjI allI impI)
    show "wf_omap (wd_computers w1)" "wf_omap (wd_table w1)" "wf_omap (wd_keyboards w1)" "wf_omap (wd_known w1)"
      using st(1-4) [OF sw] by (simp_all add: w1_def wf_om_put)
    show "q < wd_next w1" "wf_omap (cp_devices c1)" if "map_of (wd_computers w1) q = Some c1" for q c1
      using that st(5) [OF sw, of q] st(5) [OF sw c(1)] unfolding comps by (auto simp: w1_def wf_om_put split: if_splits)
    show "x < wd_next w1" "wd_devices w1 x \<noteq> None" if "comp_holds w1 q x" for q x
      using h1w [OF that] st(6) [OF sw, of q x] a by (auto simp: w1_def)
    show "q = r" if "comp_holds w1 q x \<and> comp_holds w1 r x" for q r x
      using h1w [of q x] h1w [of r x] that fresh st(7) [OF sw] by blast
  qed
  define w2 where "w2 = release (om_get None ?s (cp_devices c)) w1"
  have inst: "install p slot a w = Some w2"
    using c(1) by (simp add: install_def w2_def w1_def)
  have h2: "comp_holds w2 = comp_holds w1"
    by (rule holds_cong) (simp add: w2_def)
  have devs: "wd_devices w2 x = (if om_get None ?s (cp_devices c) = Some x \<and> (\<forall>q. \<not> comp_holds w1 q x) then None else wd_devices w x)" for x
    using owned_iff [OF s1] by (auto simp: w2_def release_def w1_def split: option.split)
  have kept: "comp_holds w1 q x \<Longrightarrow> wd_devices w2 x = wd_devices w x" for q x
    by (auto simp: devs)
  have old: "om_get None ?s (cp_devices c) = Some x \<Longrightarrow> wd_next w0 \<le> x" for x
    using b c(1) by (auto simp: building_def comp_holds_def om_get_def split: option.splits)
  have s2: "sound_stores w2"
    using s1 kept unfolding sound_stores_def h2 by (auto simp: w2_def w1_def)
  have "building w0 p w2"
    unfolding building_def
  proof (intro conjI allI impI)
    show "sound_stores w2" by (rule s2)
    show "wd_next w0 \<le> p" "p < wd_next w2" "wd_table w2 = wd_table w0" "wd_keyboards w2 = wd_keyboards w0" "wd_known w2 = wd_known w0"
      "wd_active w2 = wd_active w0"
      using b by (simp_all add: building_def w2_def w1_def)
    show "wd_emitted w2 = wd_emitted w0"
      using b by (simp add: building_def w2_def w1_def release_def put_computer_def split: option.split)
    show "map_of (wd_computers w2) q = map_of (wd_computers w0) q" if "q \<noteq> p" for q
      using that b comps by (simp add: building_def w2_def)
    show "wd_devices w2 x = wd_devices w0 x" if "x < wd_next w0" for x
      using that b old [of x] by (auto simp: building_def devs)
    show "\<exists>c. map_of (wd_computers w2) p = Some c \<and> (\<forall>s. map_of (cp_devices c) s \<noteq> Some None)"
      using comps [of p] c(2) wfs(2) by (simp add: w2_def)
    show "wd_next w0 \<le> x" "\<exists>b. wd_devices w2 x = Some b \<and> \<not> has_focus b" if "comp_holds w2 p x" for x
    proof -
      have hx: "comp_holds w1 p x" using that h2 by simp
      show "wd_next w0 \<le> x"
        using h1w [OF hx] a(1) b by (auto simp: building_def)
      show "\<exists>b. wd_devices w2 x = Some b \<and> \<not> has_focus b"
        using h1w [OF hx] kept [OF hx] a(3,4) b by (auto simp: building_def)
    qed
  qed
  then show ?thesis
    using inst by blast
qed

text \<open>What a saved computer must not do to be loaded, and what the library promises for it.\<close>

definition loadable :: "('l, 'w) vc_lib \<Rightarrow> nat \<Rightarrow> p_computer \<Rightarrow> bool" where
  "loadable G ram src \<longleftrightarrow> (case px_cpu src of
        P_tr3200 c \<Rightarrow> length (pt_registers c) \<le> lib_tr3200_regs G
      | P_dcpu16n c \<Rightarrow> length (pn_registers c) \<le> lib_dcpu16n_regs G
      | P_cpu_not_set \<Rightarrow> True)
     \<and> length (px_ram src) \<le> ram
     \<and> (\<forall>bytes. lib_load_rom G (px_rom_file src) = Rom_bytes bytes \<longrightarrow> length bytes \<le> rom_capacity)"

definition ram_at_least :: "('l, 'w) vc_lib \<Rightarrow> nat \<Rightarrow> bool" where
  "ram_at_least G n \<longleftrightarrow> (\<forall>vc l. n \<le> length (lib_ram G vc l))"

lemma add_p_device_building:
  assumes b: "building w0 p w"
  shows "\<exists>w1. add_p_device G p d w = Some w1 \<and> building w0 p w1"
proof -
  obtain c where c: "map_of (wd_computers w) p = Some c"
    using b by (auto simp: building_def)
  have dev: "\<exists>w1. install p slot a (call_lib f v) = Some w1 \<and> building w0 p w1" if nd: "new_device G k w = (a, v)" for k a v f slot
  proof -
    obtain dv where n: "building w0 p v" "wd_next w0 \<le> a" "a < wd_next v" "wd_devices v a = Some (new_device_base k dv)" "\<forall>q. \<not> comp_holds v q a"
      using new_device_building [OF b nd] by blast
    have "comp_holds (call_lib f v) = comp_holds v"
      by (rule holds_cong) simp
    then show ?thesis
      using n by (intro install_building [where bd = "new_device_base k dv"]) (simp_all add: new_device_base_def)
  qed
  show ?thesis
  proof (cases "pd_device d")
    case (P_screen sc)
    obtain a v where v: "new_device G Screen_dev w = (a, v)" by fastforce
    then obtain dv where "wd_devices v a = Some (new_device_base Screen_dev dv)"
      using new_device_building [OF b v] by blast
    then show ?thesis
      using dev [OF v] c v P_screen by (simp add: add_p_device_def)
  next
    case P_keyboard
    obtain a v where v: "new_device G Keyboard_dev w = (a, v)" by fastforce
    then obtain dv where "wd_devices v a = Some (new_device_base Keyboard_dev dv)"
      using new_device_building [OF b v] by blast
    then show ?thesis
      using dev [OF v] c v P_keyboard by (simp add: add_p_device_def)
  qed (use b c in \<open>simp add: add_p_device_def\<close>)
qed

interpretation loading: safe_system "add_p_device G p" "building w0 p" "\<lambda>_. True" for G p w0
  by unfold_locales (rule add_p_device_building)

lemma put_computer_building:
  assumes b: "building w0 p w" and c: "map_of (wd_computers w) p = Some c" and d: "cp_devices c1 = cp_devices c"
  shows "building w0 p (put_computer p c1 w)"
proof -
  have sw: "sound_stores w"
    using b by (simp add: building_def)
  have comps: "map_of (wd_computers (put_computer p c1 w)) q = (if q = p then Some c1 else map_of (wd_computers w) q)" for q
    using sound_storesD(1) [OF sw] by simp
  have h: "comp_holds (put_computer p c1 w) = comp_holds w"
    unfolding comp_holds_def comps using c d by (auto simp: fun_eq_iff)
  have "sound_stores (put_computer p c1 w)"
    using sw sound_storesD(5) [OF sw c] d unfolding sound_stores_def h comps by (auto simp: wf_om_put)
  then show ?thesis
    using b c d unfolding building_def h comps by (auto simp: put_computer_def)
qed

lemma Computer_In_building:
  assumes b: "building w0 p w" and ok: "loadable G ram src" "ram_at_least G ram"
  shows "\<exists>w1. Computer_In G src p w = Some (lib_load_rom G (px_rom_file src) = Rom_missing, w1) \<and> building w0 p w1"
proof -
  obtain c where c: "map_of (wd_computers w) p = Some c"
    using b by (auto simp: building_def)
  obtain w1 where w1: "set_cpu G (cp_vc c) (px_cpu src) w = Some w1" "building w0 p w1"
    using b ok(1) by (cases "px_cpu src") (auto simp: set_cpu_def loadable_def)
  have "length (px_ram src) \<le> length (lib_ram G (cp_vc c) (wd_lib w1))"
    using ok unfolding loadable_def ram_at_least_def by (meson le_trans)
  then obtain w2 where w2: "set_ram G (cp_vc c) (px_ram src) w1 = Some w2" "building w0 p w2"
    using w1(2) by (simp add: set_ram_def)
  obtain w3 where w3: "each (add_p_device G p) (px_devices src) w2 = Some w3" "building w0 p w3"
    using loading.run_safe [OF w2(2)] by blast
  then obtain c3 where c3: "map_of (wd_computers w3) p = Some c3"
    by (auto simp: building_def)
  show ?thesis
  proof (cases "lib_load_rom G (px_rom_file src)")
    case (Rom_bytes bytes)
    then have "put_rom G p (px_rom_file src) bytes w3 = Some (call_lib (lib_set_rom G (cp_vc c3) bytes (length bytes))
        (put_computer p (c3\<lparr>cp_rom := bytes, cp_rom_size := length bytes, cp_rom_name := px_rom_file src\<rparr>) w3))"
      using ok(1) c3 by (simp add: put_rom_def loadable_def)
    then show ?thesis
      using Rom_bytes c w1(1) w2(1) w3 put_computer_building [OF w3(2) c3] by (simp add: Computer_In_def)
  qed (use c w1(1) w2(1) w3 in \<open>simp_all add: Computer_In_def\<close>)
qed

subsection \<open>Creating an entity\<close>

text \<open>The keyboards of the new computer are entered; those of other entities are older.\<close>

definition entered :: "'l vc_world \<Rightarrow> eid \<Rightarrow> nat \<Rightarrow> computer \<Rightarrow> 'l vc_world \<Rightarrow> bool" where
  "entered w0 i p c w \<longleftrightarrow> sound_vc w \<and> map_of (wd_computers w) p = Some c
     \<and> (\<forall>s. map_of (cp_devices c) s \<noteq> Some None)
     \<and> (\<forall>a. comp_holds w p a \<longrightarrow> wd_next w0 \<le> a \<and> (\<exists>b. wd_devices w a = Some b \<and> \<not> has_focus b))
     \<and> (\<forall>j a. j \<noteq> i \<and> map_of (wd_keyboards w) j = Some a \<longrightarrow> a < wd_next w0)"

lemma add_keyboard_entered:
  assumes e: "entered w0 i p c w" and d: "d \<in> set (cp_devices c)"
  shows "\<exists>w1. add_keyboard G i d w = Some w1 \<and> entered w0 i p c w1"
proof -
  have c: "map_of (wd_computers w) p = Some c" and s: "sound_vc w"
    using e by (simp_all add: entered_def)
  then have "wf_omap (cp_devices c)"
    using sound_storesD(5) [of w p c] by (simp add: sound_vc_def)
  then have lookup: "map_of (cp_devices c) (fst d) = Some (snd d)"
    using d in_omap [of "cp_devices c" "fst d" "snd d"] by simp
  then obtain a where a: "snd d = Some a"
    using e unfolding entered_def by (metis not_None_eq)
  then have h: "comp_holds w p a"
    using c lookup by (auto simp: comp_holds_def)
  then obtain b where b: "wd_devices w a = Some b" "\<not> has_focus b" "wd_next w0 \<le> a"
    using e by (auto simp: entered_def)
  let ?w = "w\<lparr>wd_keyboards := om_put i a (wd_keyboards w)\<rparr>"
  have hw: "comp_holds ?w = comp_holds w"
    by (rule holds_cong) simp
  have wk: "wf_omap (wd_keyboards w)"
    using sound_vcD(4) [OF s] .
  have keys: "map_of (wd_keyboards ?w) j = (if j = i then Some a else map_of (wd_keyboards w) j)" for j
    using wk by simp
  have old: "j \<noteq> i \<Longrightarrow> map_of (wd_keyboards w) j = Some x \<Longrightarrow> x \<noteq> a" for j x
    using e b(3) unfolding entered_def by (metis leD)
  have "sound_stores ?w" "sound_tables ?w"
    using s h unfolding sound_vc_def sound_stores_def sound_tables_def hw keys by (auto simp: wf_om_put)
  moreover have "sound_focus ?w"
    using s old b unfolding sound_vc_def sound_focus_def keys by auto
  ultimately have "entered w0 i p c ?w"
    using e unfolding entered_def hw keys sound_vc_def by auto
  then show ?thesis
    using a b(1) e by (simp add: add_keyboard_def)
qed

lemma new_computer_building:
  assumes s: "sound_vc w" and n: "new_computer G w = (p, w1)"
  shows "building w p w1"
proof -
  obtain vc l where p: "p = wd_next w" and w1: "w1 = put_computer (wd_next w) \<lparr>cp_rom = [], cp_rom_name = [], cp_rom_size = 0, cp_vc = vc, cp_devices = []\<rparr>
        (w\<lparr>wd_lib := l, wd_next := wd_next w + 1\<rparr>)"
    using n by (auto simp: new_computer_def split: prod.splits)
  have sw: "sound_stores w"
    using s by (simp add: sound_vc_def)
  have comps: "map_of (wd_computers w1) q = (if q = p then Some \<lparr>cp_rom = [], cp_rom_name = [], cp_rom_size = 0, cp_vc = vc, cp_devices = []\<rparr>
      else map_of (wd_computers w) q)" for q
    using sound_storesD(1) [OF sw] by (simp add: w1 p)
  have new: "map_of (wd_computers w) p = None"
    using sound_storesD(5) [OF sw, of p] by (cases "map_of (wd_computers w) p") (auto simp: p)
  have h: "comp_holds w1 q a \<longleftrightarrow> comp_holds w q a" for q a
    unfolding comp_holds_def comps using new by auto
  have "sound_stores w1"
    unfolding sound_stores_def h comps
    using sound_storesD [OF sw] by (auto simp: w1 p wf_om_put less_Suc_eq split: if_splits)
  then show ?thesis
    unfolding building_def h comps using sound_storesD(6) [OF sw, of p] new by (auto simp: w1 p put_computer_def comp_holds_def)
qed

text \<open>While a computer is loaded the system stays sound, and so it does when the computer is then entered in the table.\<close>

lemma building_older:
  assumes s: "sound_vc w0" and b: "building w0 p w"
  shows "map_of (wd_computers w0) q \<noteq> None \<Longrightarrow> q \<noteq> p" "comp_holds w0 q a \<Longrightarrow> comp_holds w q a \<and> a < wd_next w0"
    "map_of (wd_keyboards w0) j = Some a \<Longrightarrow> a < wd_next w0"
proof -
  have st0: "sound_stores w0" and tb0: "sound_tables w0"
    using s by (simp_all add: sound_vc_def)
  have comps: "q \<noteq> p \<Longrightarrow> map_of (wd_computers w) q = map_of (wd_computers w0) q" and "wd_next w0 \<le> p" for q
    using b by (simp_all add: building_def)
  then show older: "map_of (wd_computers w0) q \<noteq> None \<Longrightarrow> q \<noteq> p" for q
    using sound_storesD(5) [OF st0, of q] by auto
  show held: "comp_holds w0 q a \<Longrightarrow> comp_holds w q a \<and> a < wd_next w0" for q a
    using older [of q] comps [of q] sound_storesD(6) [OF st0, of q a] by (auto simp: comp_holds_def)
  show "map_of (wd_keyboards w0) j = Some a \<Longrightarrow> a < wd_next w0"
    using tb0 held unfolding sound_tables_def by blast
qed

lemma building_sound:
  assumes s: "sound_vc w0" and b: "building w0 p w"
  shows "sound_vc w"
proof -
  note older = building_older [OF s b]
  have frames: "wd_table w = wd_table w0" "wd_keyboards w = wd_keyboards w0" "wd_known w = wd_known w0" "wd_active w = wd_active w0"
    and comps: "\<And>q. q \<noteq> p \<Longrightarrow> map_of (wd_computers w) q = map_of (wd_computers w0) q"
    using b by (simp_all add: building_def)
  have tb0: "sound_tables w0" and fc0: "sound_focus w0"
    using s by (simp_all add: sound_vc_def)
  have "map_of (wd_computers w) q \<noteq> None" if "map_of (wd_computers w0) q \<noteq> None" for q
    using older(1) [OF that] comps [of q] that by simp
  then have "sound_tables w"
    using tb0 older(2) unfolding sound_tables_def frames by blast
  moreover have "sound_focus w"
    using fc0 older(3) b unfolding sound_focus_def by (auto simp: frames building_def)
  ultimately show ?thesis
    using b by (simp add: sound_vc_def building_def)
qed

lemma building_entered:
  assumes s: "sound_vc w0" and b: "building w0 p w" and c: "map_of (wd_computers w) p = Some c"
  shows "entered w0 i p c (w\<lparr>wd_table := om_put i p (wd_table w)\<rparr>)"
proof -
  let ?w = "w\<lparr>wd_table := om_put i p (wd_table w)\<rparr>"
  have h: "comp_holds ?w = comp_holds w"
    by (rule holds_cong) simp
  have "sound_vc w"
    by (rule building_sound [OF s b])
  then have "sound_stores ?w" "sound_tables ?w" "sound_focus ?w"
    using c unfolding sound_vc_def sound_stores_def sound_tables_def sound_focus_def h by (auto simp: wf_om_put split: if_splits)
  then show ?thesis
    using b c building_older(3) [OF s b] unfolding entered_def sound_vc_def h by (auto simp: building_def)
qed

lemma enter_keyboards:
  assumes "sound_vc w0" and "building w0 p w" and "map_of (wd_computers w) p = Some c"
  shows "\<exists>w1. each (add_keyboard G i) (cp_devices c) (w\<lparr>wd_table := om_put i p (wd_table w)\<rparr>) = Some w1 \<and> entered w0 i p c w1"
  by (rule each_inside [where I = "entered w0 i p c", OF building_entered [OF assms]]) (rule add_keyboard_entered)

text \<open>The new computer of an entity, as its caller sees it.\<close>

lemma create_computer:
  assumes s: "sound_vc w" and load: "loadable G ram src" "ram_at_least G ram" and rom: "lib_load_rom G (px_rom_file src) \<noteq> Rom_missing"
  shows "\<exists>w1 q. create_part G i (Computer_part src) w = Some (False, w1) \<and> sound_vc w1 \<and> wd_known w1 = wd_known w
    \<and> map_of (wd_table w1) i = Some q \<and> map_of (wd_computers w) q = None"
proof -
  obtain q v where v: "new_computer G w = (q, v)" by fastforce
  obtain v2 where v2: "Computer_In G src q v = Some (False, v2)" "building w q v2"
    using Computer_In_building [OF new_computer_building [OF s v] load] rom by auto
  obtain c where c: "map_of (wd_computers v2) q = Some c"
    using v2(2) by (auto simp: building_def)
  let ?t = "v2\<lparr>wd_table := om_put i q (wd_table v2)\<rparr>"
  obtain w1 where w1: "each (add_keyboard G i) (cp_devices c) ?t = Some w1" "entered w i q c w1"
    using enter_keyboards [OF s v2(2) c] by blast
  have frames: "wd_known w1 = wd_known ?t \<and> wd_table w1 = wd_table ?t"
    by (rule each_keeps [OF w1(1), where I = "\<lambda>u. wd_known u = wd_known ?t \<and> wd_table u = wd_table ?t"])
      (auto simp: add_keyboard_def split: option.splits)
  have "map_of (wd_computers w) q = None"
    using v2(2) sound_storesD(5) [of w q] s unfolding building_def sound_vc_def by (cases "map_of (wd_computers w) q") auto
  moreover have "map_of (wd_table w1) i = Some q" "wd_known w1 = wd_known w"
    using frames v2(2) sound_storesD(2) [of v2] by (simp_all add: building_def)
  ultimately show ?thesis
    using v v2(1) c w1 by (auto simp: create_part_def entered_def)
qed

lemma om_put_other: "i \<noteq> k \<Longrightarrow> map_of (om_put k v m) i = map_of m i"
  by (induction k v m rule: om_put.induct) auto

lemma vc_Update_known:
  assumes u: "vc_Update G Some delta w = Some w1" and old: "map_of (wd_known w) i = Some p"
  shows "map_of (wd_known w1) i = Some p"
proof -
  have kept: "map_of (wd_known (fold know_computer es w)) i = Some p" for es
  proof (induction es rule: rev_induct)
    case (snoc e es)
    then show ?case
      by (cases "fst e = i") (auto simp: know_computer_def om_put_other)
  qed (simp add: old)
  have "wd_known w1 = wd_known (fold know_computer (wd_table w) w)"
  proof (rule each_keeps [where I = "\<lambda>v. wd_known v = wd_known (fold know_computer (wd_table w) w)"])
    show "each (run_computer G) (map snd (wd_known ((fold know_computer (wd_table w) w)\<lparr>wd_delta := delta\<rparr>)))
        ((fold know_computer (wd_table w) w)\<lparr>wd_delta := delta\<rparr>) = Some w1"
      using u by (simp add: vc_Update_def Let_def)
  qed (auto simp: run_computer_def Let_def split: option.splits if_splits)
  then show ?thesis
    using kept by simp
qed

text \<open>A computer whose ROM file is missing is not registered.\<close>

lemma create_computer_throws:
  assumes s: "sound_vc w" and load: "loadable G ram src" "ram_at_least G ram" and rom: "lib_load_rom G (px_rom_file src) = Rom_missing"
  shows "\<exists>w1. create_part G i (Computer_part src) w = Some (True, w1) \<and> sound_vc w1 \<and> wd_table w1 = wd_table w
    \<and> wd_keyboards w1 = wd_keyboards w \<and> wd_known w1 = wd_known w"
proof -
  obtain q v where v: "new_computer G w = (q, v)" by fastforce
  obtain v2 where v2: "Computer_In G src q v = Some (True, v2)" "building w q v2"
    using Computer_In_building [OF new_computer_building [OF s v] load] rom by auto
  then show ?thesis
    using v building_sound [OF s v2(2)] by (auto simp: create_part_def building_def)
qed

lemma create_part_sound:
  assumes s: "sound_vc w" and ok: "\<And>src. part = Computer_part src \<Longrightarrow> loadable G ram src" "ram_at_least G ram"
  shows "\<exists>t w1. create_part G i part w = Some (t, w1) \<and> sound_vc w1"
proof (cases part)
  case (Computer_part src)
  then show ?thesis
    using create_computer [OF s ok(1) [OF Computer_part] ok(2)] create_computer_throws [OF s ok(1) [OF Computer_part] ok(2)] by blast
qed (use s in \<open>intro exI [of _ False], simp add: create_part_def\<close>)

lemma create_parts_sound:
  assumes "sound_vc w" and "ram_at_least G ram" and "\<And>src. Computer_part src \<in> set parts \<Longrightarrow> loadable G ram src"
  shows "\<exists>t w1. vc_On_EntityCreated G i parts w = Some (t, w1) \<and> sound_vc w1"
  using assms
proof (induction parts arbitrary: w)
  case (Cons part parts)
  obtain t w1 where w1: "create_part G i part w = Some (t, w1)" "sound_vc w1"
    using create_part_sound [OF Cons.prems(1), of part G ram i] Cons.prems(2,3) by auto
  then show ?case
    using Cons.IH [OF w1(2)] Cons.prems(2,3) by (cases t) auto
qed (intro exI [of _ False], simp)

subsection \<open>Runs of the system\<close>

datatype vc_call =
    Vc_key keyboard_event
  | Vc_click mouse_btn eid
  | Vc_create eid "p_entity_part list"
  | Vc_destroy eid
  | Vc_update rat
  | Vc_on eid
  | Vc_off eid
  | Vc_rom eid string

text \<open>
  A call that an exception leaves has changed the state up to that point; the exception goes out of the update, and the run may go on if
  someone catches it.
\<close>

definition vc_step :: "('l, 'w) vc_lib \<Rightarrow> vc_call \<Rightarrow> 'l vc_world \<Rightarrow> 'l vc_world option" where
  "vc_step G call w = (case call of
      Vc_key e \<Rightarrow> vc_On_Keyboard G e w
    | Vc_click button i \<Rightarrow> vc_On_MouseClick button i w
    | Vc_create i parts \<Rightarrow> map_option snd (vc_On_EntityCreated G i parts w)
    | Vc_destroy i \<Rightarrow> Some (vc_On_EntityDestroyed i w)
    | Vc_update delta \<Rightarrow> vc_Update G Some delta w
    | Vc_on i \<Rightarrow> TurnComptuerOn G i w
    | Vc_off i \<Rightarrow> TurnComptuerOff G i w
    | Vc_rom i fname \<Rightarrow> map_option snd (LoadROMFile G i fname w))"

definition fitting_call :: "('l, 'w) vc_lib \<Rightarrow> nat \<Rightarrow> vc_call \<Rightarrow> bool" where
  "fitting_call G ram call \<longleftrightarrow> (case call of
      Vc_create i parts \<Rightarrow> (\<forall>part \<in> set parts. case part of Computer_part src \<Rightarrow> loadable G ram src | Other_part \<Rightarrow> True)
    | Vc_rom i fname \<Rightarrow> (case lib_load_rom_file G fname of None \<Rightarrow> True | Some bytes \<Rightarrow> length bytes \<le> rom_capacity)
    | _ \<Rightarrow> True)"

lemma sound_put_computer:
  assumes s: "sound_vc w" and c: "map_of (wd_computers w) p = Some c"
    and d: "\<And>a. (\<exists>t. map_of (cp_devices c1) t = Some (Some a)) \<longleftrightarrow> (\<exists>t. map_of (cp_devices c) t = Some (Some a))" "wf_omap (cp_devices c1)"
  shows "sound_vc (put_computer p c1 w)"
proof -
  have sw: "sound_stores w"
    using s by (simp add: sound_vc_def)
  have comps: "map_of (wd_computers (put_computer p c1 w)) q = (if q = p then Some c1 else map_of (wd_computers w) q)" for q
    using sound_storesD(1) [OF sw] by simp
  have h: "comp_holds (put_computer p c1 w) = comp_holds w"
    unfolding comp_holds_def comps using c d(1) by (auto simp: fun_eq_iff)
  have "sound_stores (put_computer p c1 w)"
    using sw sound_storesD(5) [OF sw c] d(2) unfolding sound_stores_def h comps by (auto simp: wf_om_put)
  moreover have "sound_tables (put_computer p c1 w)"
    using s unfolding sound_vc_def sound_tables_def h comps by auto
  moreover have "sound_focus (put_computer p c1 w)"
    using s unfolding sound_vc_def sound_focus_def by simp
  ultimately show ?thesis
    by (simp add: sound_vc_def)
qed

lemma run_computer_sound:
  assumes s: "sound_vc w" and p: "map_of (wd_computers w) p = Some c"
  shows "\<exists>w1. run_computer G p w = Some w1 \<and> sound_vc w1 \<and> dom (map_of (wd_computers w1)) = dom (map_of (wd_computers w))"
proof -
  have wfs: "wf_omap (wd_computers w)" "wf_omap (cp_devices c)"
    using s sound_storesD(1) [of w] sound_storesD(5) [of w p c] p by (auto simp: sound_vc_def)
  let ?c = "c\<lparr>cp_devices := om_put 5 None (cp_devices c)\<rparr>"
  have "sound_vc (put_computer p ?c w)" if "map_of (cp_devices c) 5 = None"
  proof (rule sound_put_computer [OF s p])
    show "(\<exists>t. map_of (cp_devices ?c) t = Some (Some a)) \<longleftrightarrow> (\<exists>t. map_of (cp_devices c) t = Some (Some a))" for a
      using that wfs(2) by auto (metis option.distinct(1))
  qed (simp add: wf_om_put wfs(2))
  then show ?thesis
    using p s wfs(1) by (auto simp: run_computer_def Let_def)
qed

lemma know_computer_sound:
  assumes "sound_vc w" and "map_of (wd_computers w) (snd e) \<noteq> None"
  shows "sound_vc (know_computer e w)"
proof -
  have h: "comp_holds (know_computer e w) = comp_holds w"
    by (rule holds_cong) (simp add: know_computer_def)
  show ?thesis
    using assms unfolding sound_vc_def sound_stores_def sound_tables_def sound_focus_def h
    by (auto simp: know_computer_def wf_om_put split: if_splits)
qed

lemma know_computers_sound:
  assumes "sound_vc w" and "\<And>e. e \<in> set es \<Longrightarrow> map_of (wd_computers w) (snd e) \<noteq> None"
  shows "sound_vc (fold know_computer es w)"
  using assms
proof (induction es arbitrary: w)
  case (Cons e es)
  have "wd_computers (know_computer e w) = wd_computers w"
    by (simp add: know_computer_def)
  then show ?case
    using Cons.IH [OF know_computer_sound [OF Cons.prems(1)]] Cons.prems(2) by simp
qed simp

lemma vc_Update_sound:
  assumes s: "sound_vc w"
  shows "\<exists>w1. vc_Update G Some delta w = Some w1 \<and> sound_vc w1"
proof -
  have st: "sound_stores w" and tb: "sound_tables w"
    using s by (simp_all add: sound_vc_def)
  have "map_of (wd_computers w) (snd e) \<noteq> None" if "e \<in> set (wd_table w)" for e
    using that tb in_omap [OF sound_storesD(2) [OF st], of "fst e" "snd e"] by (auto simp: sound_tables_def)
  then have s1: "sound_vc (fold know_computer (wd_table w) w)"
    by (rule know_computers_sound [OF s])
  let ?w = "(fold know_computer (wd_table w) w)\<lparr>wd_delta := delta\<rparr>"
  have s2: "sound_vc ?w"
    using s1 by (subst sound_vc_cong [of ?w "fold know_computer (wd_table w) w"]) simp_all
  have known: "map_of (wd_computers ?w) p \<noteq> None" if p: "p \<in> set (map snd (wd_known ?w))" for p
  proof -
    obtain i where "(i, p) \<in> set (wd_known ?w)"
      using p by auto
    then have "map_of (wd_known ?w) i = Some p"
      using in_omap [OF sound_storesD(4)] s2 unfolding sound_vc_def by blast
    then show ?thesis
      using sound_vcD(2) [OF s2] by fastforce
  qed
  have "\<exists>w1. each (run_computer G) (map snd (wd_known ?w)) ?w = Some w1
     \<and> (sound_vc w1 \<and> dom (map_of (wd_computers w1)) = dom (map_of (wd_computers ?w)))"
  proof (rule each_inside [where I = "\<lambda>v. sound_vc v \<and> dom (map_of (wd_computers v)) = dom (map_of (wd_computers ?w))"])
    fix p and v :: "'a vc_world" assume "p \<in> set (map snd (wd_known ?w))" and v: "sound_vc v \<and> dom (map_of (wd_computers v)) = dom (map_of (wd_computers ?w))"
    then have "p \<in> dom (map_of (wd_computers v))"
      using known by (auto simp: domIff)
    then obtain c where "map_of (wd_computers v) p = Some c" by auto
    then show "\<exists>v1. run_computer G p v = Some v1 \<and> (sound_vc v1 \<and> dom (map_of (wd_computers v1)) = dom (map_of (wd_computers ?w)))"
      using run_computer_sound [of v p c G] v by auto
  qed (use s2 in simp)
  then show ?thesis
    by (auto simp: vc_Update_def Let_def)
qed

lemma on_computer_sound:
  assumes "sound_vc w"
  shows "\<exists>w1. on_computer f i w = Some w1 \<and> sound_vc w1"
  using assms sound_vcD(2) [OF assms, of i] by (auto simp: on_computer_def split: option.splits)

lemma LoadROMFile_sound:
  assumes s: "sound_vc w" and rom: "case lib_load_rom_file G fname of None \<Rightarrow> True | Some bytes \<Rightarrow> length bytes \<le> rom_capacity"
  shows "\<exists>r w1. LoadROMFile G i fname w = Some (r, w1) \<and> sound_vc w1"
proof (cases "map_of (wd_known w) i")
  case (Some p)
  obtain c where c: "map_of (wd_computers w) p = Some c"
    using sound_vcD(2) [OF s Some] by blast
  have "wf_omap (cp_devices c)"
    using s sound_storesD(5) [of w p c] c by (simp add: sound_vc_def)
  then have "sound_vc (put_computer p (c\<lparr>cp_rom := bytes, cp_rom_size := n, cp_rom_name := fname\<rparr>) w)" for bytes n
    by (intro sound_put_computer [OF s c]) simp_all
  then show ?thesis
    using Some c rom s by (auto simp: LoadROMFile_def put_rom_def split: option.splits)
next
  case None
  then show ?thesis
    using s by (intro exI [of _ False] exI [of _ w]) (simp add: LoadROMFile_def)
qed

interpretation vcs: safe_system "vc_step G" sound_vc "\<lambda>call. ram_at_least G ram \<and> fitting_call G ram call" for G ram
proof
  fix call and w :: "'a vc_world"
  assume ok: "ram_at_least G ram \<and> fitting_call G ram call" and s: "sound_vc w"
  show "\<exists>w1. vc_step G call w = Some w1 \<and> sound_vc w1"
  proof (cases call)
    case (Vc_create i parts)
    have "\<exists>t w1. vc_On_EntityCreated G i parts w = Some (t, w1) \<and> sound_vc w1"
      by (rule create_parts_sound [OF s, of G ram]) (use ok Vc_create in \<open>auto simp: fitting_call_def\<close>)
    then show ?thesis
      using Vc_create by (auto simp: vc_step_def)
  next
    case (Vc_destroy i)
    have "comp_holds (vc_On_EntityDestroyed i w) = comp_holds w"
      by (rule holds_cong) (simp add: vc_On_EntityDestroyed_def)
    then have "sound_vc (vc_On_EntityDestroyed i w)"
      using s unfolding sound_vc_def sound_stores_def sound_tables_def sound_focus_def
      by (auto simp: vc_On_EntityDestroyed_def wf_om_erase split: if_splits)
    then show ?thesis
      using Vc_destroy by (simp add: vc_step_def)
  next
    case (Vc_rom i fname)
    then show ?thesis
      using LoadROMFile_sound [OF s, of G fname i] ok by (auto simp: vc_step_def fitting_call_def)
  qed (use s vc_On_Keyboard_sound vc_On_MouseClick_sound vc_Update_sound on_computer_sound in
      \<open>auto simp: vc_step_def TurnComptuerOn_def TurnComptuerOff_def\<close>)
qed

lemma sound_new: "sound_vc (new_vc_world l)"
  by (simp add: sound_vc_def sound_stores_def sound_tables_def sound_focus_def new_vc_world_def comp_holds_def)

text \<open>C19: As long as the saved registers, memory and ROM files fit into the arrays of their computers, no sequence of keys,
  clicks, creations and destructions of entities, updates, loads of ROM files and switches
  uses a null or freed pointer, also when exceptions for missing ROM files cut creations short;
  and only the keyboard of the active entity ever has the focus.
\<close>

theorem vcomputers_safe:
  assumes "ram_at_least G ram" and "\<forall>call \<in> set calls. fitting_call G ram call"
  shows "\<exists>w. each (vc_step G) calls (new_vc_world l) = Some w
    \<and> (\<forall>i a. map_of (wd_keyboards w) i = Some a \<longrightarrow> (\<exists>b. wd_devices w a = Some b \<and> (has_focus b \<longrightarrow> i = wd_active w)))"
proof -
  obtain w where "each (vc_step G) calls (new_vc_world l) = Some w" and s: "sound_vc w"
    using vcs.run_safe [OF sound_new [of l], of calls G ram] assms by auto
  moreover have "\<exists>b. wd_devices w a = Some b \<and> (has_focus b \<longrightarrow> i = wd_active w)" if "map_of (wd_keyboards w) i = Some a" for i a
    using sound_vcD(1) [OF s that] sound_focusD [OF s that] by auto
  ultimately show ?thesis by blast
qed

definition sample_computer :: p_computer where
  "sample_computer = \<lparr>px_devices = [\<lparr>pd_slot = 1, pd_device = P_keyboard\<rparr>], px_ram = [], px_cpu = P_cpu_not_set, px_rom_file = []\<rparr>"

definition sample_calls :: "vc_call list" where
  "sample_calls = [Vc_create 7 [Computer_part sample_computer], Vc_create 8 [Computer_part (sample_computer\<lparr>px_rom_file := ''gone.rom''\<rparr>)], Vc_update 1, Vc_click LEFT 7,
     Vc_key \<lparr>ke_key = 256, ke_scancode = 9, ke_action = KEY_DOWN, ke_mods = 0\<rparr>, Vc_destroy 7]"

theorem vcomputers_safe_witness:
  "\<exists>w. each (vc_step still_lib) sample_calls (new_vc_world ()) = Some w
    \<and> (\<forall>i a. map_of (wd_keyboards w) i = Some a \<longrightarrow> (\<exists>b. wd_devices w a = Some b \<and> (has_focus b \<longrightarrow> i = wd_active w)))"
proof -
  have "ram_at_least still_lib 16" "\<forall>call \<in> set sample_calls. fitting_call still_lib 16 call"
    by (auto simp: ram_at_least_def still_lib_def fitting_call_def sample_calls_def loadable_def sample_computer_def)
  then show ?thesis
    by (rule vcomputers_safe)
qed

text \<open>When the keyboard of an entity has the focus, the escape key reaches it, and then no keyboard
  has the focus, no entity is active and the loss of the focus is announced for that entity.
\<close>

theorem escape_leaves_keyboard:
  assumes "ram_at_least G ram" and "\<forall>call \<in> set calls. fitting_call G ram call"
    and run: "each (vc_step G) calls (new_vc_world l) = Some w"
    and key: "map_of (wd_keyboards w) i = Some a" "wd_devices w a = Some b" "has_focus b" and ev: "ke_key e = key_escape" "ke_action e = KEY_DOWN"
  shows "\<exists>w1. vc_On_Keyboard G e w = Some w1 \<and> wd_active w1 = - 1
    \<and> wd_lib w1 = lib_send_key G (db_device b) (Scan key_escape) KEY_ESC (word_of_int (ke_mods e)) (wd_lib w)
    \<and> wd_emitted w1 = wd_emitted w @ [(i, Focus_blur)]
    \<and> (\<forall>j k kb. map_of (wd_keyboards w1) j = Some k \<and> wd_devices w1 k = Some kb \<longrightarrow> \<not> has_focus kb)"
proof -
  have s: "sound_vc w"
    using vcs.run_safe [OF sound_new [of l], of calls G ram] assms(1,2) run by auto
  have i: "i = wd_active w"
    by (rule sound_focusD [OF s key])
  obtain r where r: "focused_keyboard (wd_devices w) None (wd_keyboards w) = Some r"
    "\<forall>a. r = Some a \<longrightarrow> (\<exists>b. map_of (wd_keyboards w) (wd_active w) = Some a \<and> wd_devices w a = Some b \<and> has_focus b)"
    using keyboard_of_table [OF s] by blast
  have "r = Some a"
    using focused_keyboard_some [OF r(1)] key in_omap [OF sound_vcD(4) [OF s], of i a] r(2) i by (cases r) auto
  let ?b = "b\<lparr>modifiers_state := ke_mods e\<rparr>"
  let ?w = "send_key G ?b (Scan (ke_key e)) KEY_ESC (put_device a ?b w)"
  have s1: "sound_vc ?w"
    using sound_put_device [OF s key(2), of ?b] by (simp add: send_key_def)
  have step: "vc_On_Keyboard G e w = leave_keyboard a ?w"
    using r(1) \<open>r = Some a\<close> key(2) ev by (simp add: vc_On_Keyboard_def key_pressed_def Let_def)
  have "map_of (wd_keyboards ?w) (wd_active ?w) = Some a"
    using key(1) i by (simp add: send_key_def)
  then obtain w1 where w1: "leave_keyboard a ?w = Some w1" "wd_active w1 = - 1" "wd_emitted w1 = wd_emitted ?w @ [(wd_active ?w, Focus_blur)]"
    "\<forall>i k b. map_of (wd_keyboards w1) i = Some k \<and> wd_devices w1 k = Some b \<longrightarrow> \<not> has_focus b"
    using leave_keyboard_sound [OF s1] by blast
  have "wd_lib w1 = wd_lib ?w"
    using w1(1) by (auto simp: leave_keyboard_def Let_def put_device_def emit_focus_def split: option.splits if_splits)
  then show ?thesis
    using step w1 i ev(1) by (simp add: send_key_def call_lib_def put_device_def)
qed

definition focused_world :: "unit vc_world" where
  "focused_world = \<lparr>wd_lib = (), wd_computers = [(0, idle_computer\<lparr>cp_devices := [(1, Some 1)]\<rparr>)],
     wd_devices = [1 \<mapsto> (new_device_base Keyboard_dev 0)\<lparr>has_focus := True\<rparr>], wd_next = 2, wd_table = [(7, 0)],
     wd_keyboards = [(7, 1)], wd_known = [], wd_active = 7, wd_delta = 0, wd_emitted = [(7, Focus_captured)]\<rparr>"

lemma run_to_create:
  "vc_step still_lib (Vc_create 7 [Computer_part sample_computer]) (new_vc_world ())
      = Some (focused_world\<lparr>wd_devices := [1 \<mapsto> new_device_base Keyboard_dev 0], wd_active := 0, wd_emitted := []\<rparr>)"
  by (simp add: vc_step_def create_part_def new_computer_def new_vc_world_def still_lib_def Computer_In_def
        sample_computer_def set_cpu_def set_ram_def add_p_device_def new_device_def new_device_base_def install_def release_def
        call_lib_def put_computer_def slot_key_def om_get_def add_keyboard_def keyboard_type_def focused_world_def idle_computer_def fun_upd_def)

lemma run_to_focus:
  "each (vc_step still_lib) [Vc_create 7 [Computer_part sample_computer], Vc_click LEFT 7] (new_vc_world ()) = Some focused_world"
proof -
  have "vc_step still_lib (Vc_click LEFT 7) (focused_world\<lparr>wd_devices := [1 \<mapsto> new_device_base Keyboard_dev 0], wd_active := 0, wd_emitted := []\<rparr>)
      = Some focused_world"
    by (simp add: vc_step_def vc_On_MouseClick_def focused_world_def set_focus_def put_device_def emit_focus_def)
  then show ?thesis
    by (simp add: run_to_create)
qed

theorem escape_leaves_keyboard_witness:
  "\<exists>w1. vc_On_Keyboard still_lib \<lparr>ke_key = key_escape, ke_scancode = 9, ke_action = KEY_DOWN, ke_mods = 0\<rparr> focused_world = Some w1 \<and> wd_active w1 = - 1
    \<and> wd_emitted w1 = [(7, Focus_captured), (7, Focus_blur)]"
proof -
  have fits: "ram_at_least still_lib 16" "\<forall>call \<in> set [Vc_create 7 [Computer_part sample_computer], Vc_click LEFT 7]. fitting_call still_lib 16 call"
    by (auto simp: ram_at_least_def still_lib_def fitting_call_def loadable_def sample_computer_def)
  have key: "map_of (wd_keyboards focused_world) 7 = Some 1" "wd_devices focused_world 1 = Some ((new_device_base Keyboard_dev 0)\<lparr>has_focus := True\<rparr>)"
    "wd_emitted focused_world = [(7, Focus_captured)]"
    by (simp_all add: focused_world_def)
  show ?thesis
    using escape_leaves_keyboard [OF fits run_to_focus key(1,2), of "\<lparr>ke_key = key_escape, ke_scancode = 9, ke_action = KEY_DOWN, ke_mods = 0\<rparr>"] key(3) by auto
qed

text \<open>Destroying an entity does not take its computer out of the system, and when the entity is
  created again with a new computer, the system keeps to the old one: it is the old computer
  that is updated and switched, and the new one never runs.
\<close>

theorem recreated_computer_never_runs:
  assumes "ram_at_least G ram" and "\<forall>call \<in> set calls. fitting_call G ram call"
    and run: "each (vc_step G) calls (new_vc_world l) = Some w"
    and old: "map_of (wd_known w) i = Some p" and load: "loadable G ram src" "lib_load_rom G (px_rom_file src) \<noteq> Rom_missing"
  shows "\<exists>w1 w2 q. each (vc_step G) [Vc_destroy i, Vc_create i [Computer_part src]] w = Some w1
    \<and> map_of (wd_table w1) i = Some q \<and> q \<noteq> p
    \<and> vc_step G (Vc_update delta) w1 = Some w2 \<and> map_of (wd_known w2) i = Some p"
proof -
  have s: "sound_vc w"
    using vcs.run_safe [OF sound_new [of l], of calls G ram] assms(1,2) run by auto
  let ?d = "vc_On_EntityDestroyed i w"
  have d: "vc_step G (Vc_destroy i) w = Some ?d"
    by (simp add: vc_step_def)
  have s1: "sound_vc ?d"
    using vcs.step_safe [of G ram "Vc_destroy i" w] s assms(1) d by (simp add: fitting_call_def)
  obtain w1 q where w1: "create_part G i (Computer_part src) ?d = Some (False, w1)" "sound_vc w1" "wd_known w1 = wd_known ?d"
    "map_of (wd_table w1) i = Some q" "map_of (wd_computers ?d) q = None"
    using create_computer [OF s1 load(1) assms(1) load(2)] by blast
  have "q \<noteq> p"
    using sound_vcD(2) [OF s old] w1(5) by (auto simp: vc_On_EntityDestroyed_def)
  obtain w2 where w2: "vc_Update G Some delta w1 = Some w2"
    using vc_Update_sound [OF w1(2)] by blast
  have "map_of (wd_known w2) i = Some p"
    by (rule vc_Update_known [OF w2]) (simp add: w1(3) vc_On_EntityDestroyed_def old)
  then show ?thesis
    using d w1 w2 \<open>q \<noteq> p\<close> by (intro exI [of _ w1] exI [of _ w2] exI [of _ q]) (simp add: vc_step_def)
qed

theorem recreated_computer_never_runs_witness:
  "\<exists>w w1 w2 q. each (vc_step still_lib) [Vc_create 7 [Computer_part sample_computer], Vc_update 1] (new_vc_world ()) = Some w
    \<and> each (vc_step still_lib) [Vc_destroy 7, Vc_create 7 [Computer_part sample_computer]] w = Some w1
    \<and> map_of (wd_table w1) 7 = Some q \<and> q \<noteq> 0
    \<and> vc_step still_lib (Vc_update 1) w1 = Some w2 \<and> map_of (wd_known w2) 7 = Some 0"
proof -
  have fits: "ram_at_least still_lib 16" "\<forall>call \<in> set [Vc_create 7 [Computer_part sample_computer], Vc_update 1]. fitting_call still_lib 16 call"
    "loadable still_lib 16 sample_computer" "lib_load_rom still_lib (px_rom_file sample_computer) \<noteq> Rom_missing"
    by (auto simp: ram_at_least_def still_lib_def fitting_call_def loadable_def sample_computer_def)
  obtain w where w: "each (vc_step still_lib) [Vc_create 7 [Computer_part sample_computer], Vc_update 1] (new_vc_world ()) = Some w"
    "map_of (wd_known w) 7 = Some 0"
  proof -
    have "vc_step still_lib (Vc_create 7 [Computer_part sample_computer]) (new_vc_world ())
      = Some (focused_world\<lparr>wd_devices := [1 \<mapsto> new_device_base Keyboard_dev 0], wd_active := 0, wd_emitted := []\<rparr>)"
      by (rule run_to_create)
    moreover obtain w2 where "vc_step still_lib (Vc_update 1) (focused_world\<lparr>wd_devices := [1 \<mapsto> new_device_base Keyboard_dev 0], wd_active := 0, wd_emitted := []\<rparr>) = Some w2"
      "map_of (wd_known w2) 7 = Some 0"
      by (simp add: vc_step_def vc_Update_def focused_world_def know_computer_def run_computer_def call_lib_def put_computer_def Let_def idle_computer_def)
    ultimately show ?thesis
      using that by simp
  qed
  show ?thesis
    using recreated_computer_never_runs [OF fits(1,2) w fits(3,4), of 1] w(1) by blast
qed

end
