(* ===== verification/Write_Queue.thy ===== *)
theory Write_Queue
  imports Tec_Prelude
begin

text \<open>
  Writing to a connection from several threads: \<open>QueueWrite\<close> and \<open>do_write\<close> of
  \<open>ClientConnection\<close> (server/client-connection.cpp), which \<open>ServerConnection\<close> repeats as
  \<open>Send\<close> and \<open>do_write\<close> (client/server-connection.cpp). A thread pushes its fragments under
  the mutex, and calls \<open>do_write\<close> afterwards if the queue was empty; the completion handler
  of the asynchronous write pops the front and calls \<open>do_write\<close> again if fragments are left.
  Each of these is one step, in any order. As long as no stream without fragments has been queued
  while the queue was empty, there is at most one write at a time, fragments are written in the order
  of the queue, and without write errors the queue drains. Such a stream breaks this, and a write
  error stops the writing for good.
\<close>

subsection \<open>State and steps\<close>

text \<open>
  \<open>starters\<close> counts the threads, the one of the completion handler included, that have left
  the critical section and are about to call \<open>do_write\<close>; \<open>in_flight\<close> holds the fragments of
  the asynchronous writes in progress; \<open>no_front\<close> records that \<open>front()\<close> or \<open>pop_front()\<close>
  was called on an empty queue. The other fields are histories; \<open>idle_empty\<close> records that a stream without
  fragments was queued while the queue was empty.
\<close>

record 'm writer =
  write_queue :: "'m list"
  starters :: nat
  in_flight :: "'m list"
  no_front :: bool
  pushed :: "'m list"
  written :: "'m list"
  failed :: "'m list"
  idle_empty :: bool

definition idle_writer :: "'m writer" where
  "idle_writer = \<lparr>write_queue = [], starters = 0, in_flight = [], no_front = False,
     pushed = [], written = [], failed = [], idle_empty = False\<rparr>"

definition push_all :: "'m list \<Rightarrow> 'm writer \<Rightarrow> 'm writer" where
  "push_all ms s =
     (let write_in_progress = write_queue s \<noteq> [];
          s1 = s\<lparr>write_queue := write_queue s @ ms, pushed := pushed s @ ms,
                 idle_empty := idle_empty s \<or> \<not> write_in_progress \<and> ms = []\<rparr>
      in if \<not> write_in_progress then s1\<lparr>starters := starters s + 1\<rparr> else s1)"

definition do_write :: "'m writer \<Rightarrow> 'm writer" where
  "do_write s =
     (let s1 = s\<lparr>starters := starters s - 1\<rparr> in
      case write_queue s of
        [] \<Rightarrow> s1\<lparr>no_front := True\<rparr>
      | m # _ \<Rightarrow> s1\<lparr>in_flight := in_flight s @ [m]\<rparr>)"

text \<open>The completion handler of the write of \<open>m\<close>, without and with an error.\<close>

definition write_done :: "'m \<Rightarrow> 'm writer \<Rightarrow> 'm writer" where
  "write_done m s =
     (let s1 = s\<lparr>in_flight := remove1 m (in_flight s), written := written s @ [m]\<rparr> in
      case write_queue s of
        [] \<Rightarrow> s1\<lparr>no_front := True\<rparr>
      | _ # rest \<Rightarrow>
          let s2 = s1\<lparr>write_queue := rest\<rparr>; more_to_write = rest \<noteq> []
          in if more_to_write then s2\<lparr>starters := starters s + 1\<rparr> else s2)"

definition write_failed :: "'m \<Rightarrow> 'm writer \<Rightarrow> 'm writer" where
  "write_failed m s = s\<lparr>in_flight := remove1 m (in_flight s), failed := failed s @ [m]\<rparr>"

text \<open>
  The steps of the writing itself, and all steps: any thread may queue any list of fragments at any
  time, and \<open>errors\<close> tells whether writes may fail.
\<close>

inductive own_step :: "'m writer \<Rightarrow> 'm writer \<Rightarrow> bool" where
  Starts: "0 < starters s \<Longrightarrow> own_step s (do_write s)"
| Completes: "m \<in> set (in_flight s) \<Longrightarrow> own_step s (write_done m s)"

inductive write_step :: "bool \<Rightarrow> 'm writer \<Rightarrow> 'm writer \<Rightarrow> bool" for errors where
  Pushes: "write_step errors s (push_all ms s)"
| Own: "own_step s s' \<Longrightarrow> write_step errors s s'"
| Fails: "errors \<Longrightarrow> m \<in> set (in_flight s) \<Longrightarrow> write_step errors s (write_failed m s)"

inductive_cases own_stepE: "own_step s s'"
inductive_cases write_stepE: "write_step errors s s'"

abbreviation write_reach :: "bool \<Rightarrow> 'm writer \<Rightarrow> bool" where
  "write_reach errors \<equiv> (write_step errors)\<^sup>*\<^sup>* idle_writer"

subsection \<open>One write at a time\<close>

text \<open>
  While nothing has failed exactly one thread is responsible for a queue that is not empty;
  after a failure there is none.
\<close>

definition writer_inv :: "'m writer \<Rightarrow> bool" where
  "writer_inv s \<longleftrightarrow> \<not> no_front s \<and> pushed s = written s @ write_queue s
     \<and> (if write_queue s = [] then starters s = 0 \<and> in_flight s = [] \<and> failed s = []
        else if failed s \<noteq> [] then starters s = 0 \<and> in_flight s = []
        else starters s = 1 \<and> in_flight s = [] \<or> starters s = 0 \<and> in_flight s = [hd (write_queue s)])"

lemma writer_inv_push: "\<not> idle_empty (push_all ms s) \<Longrightarrow> writer_inv s \<Longrightarrow> writer_inv (push_all ms s)"
  by (auto simp: writer_inv_def push_all_def Let_def split: if_splits)

lemma writer_inv_own: "own_step s s' \<Longrightarrow> writer_inv s \<Longrightarrow> writer_inv s' \<and> failed s' = failed s"
  by (erule own_stepE; cases "write_queue s")
    (auto simp: writer_inv_def do_write_def write_done_def Let_def split: if_splits)

lemma writer_inv_failed: "m \<in> set (in_flight s) \<Longrightarrow> writer_inv s \<Longrightarrow> writer_inv (write_failed m s)"
  by (auto simp: writer_inv_def write_failed_def split: if_splits)

lemma idle_empty_own: "own_step s s' \<Longrightarrow> idle_empty s' = idle_empty s"
  by (erule own_stepE) (auto simp: do_write_def write_done_def Let_def split: list.splits)

lemma idle_empty_step: "write_step errors s s' \<Longrightarrow> idle_empty s \<Longrightarrow> idle_empty s'"
  by (erule write_stepE) (simp_all add: idle_empty_own push_all_def Let_def write_failed_def)

lemma writer_inv_step: "write_step errors s s' \<Longrightarrow> \<not> idle_empty s' \<Longrightarrow> writer_inv s \<Longrightarrow> writer_inv s'"
  by (erule write_stepE) (auto dest: writer_inv_push writer_inv_own writer_inv_failed)

lemma writer_inv_steps: "(write_step errors)\<^sup>*\<^sup>* s s' \<Longrightarrow> \<not> idle_empty s' \<Longrightarrow> writer_inv s \<Longrightarrow> writer_inv s'"
  by (induction rule: rtranclp_induct) (auto dest: writer_inv_step idle_empty_step)

lemma writer_inv_reach: "write_reach errors s \<Longrightarrow> \<not> idle_empty s \<Longrightarrow> writer_inv s"
  by (erule writer_inv_steps) (simp_all add: writer_inv_def idle_writer_def)

text \<open>C7: In every interleaving of the threads in which no stream without fragments has been queued while the queue was
  empty, and also when writes fail, at most one write is in progress and at most one thread is
  about to start one, the fragment being written is the front of the queue, which is never
  empty when it is accessed, and what has been written, followed by the queue, is what was
  pushed, in that order: fragments pushed together stay together. The condition is needed
  (\<open>empty_stream_two_writers\<close>), and a chat message without text violates it.\<close>

theorem one_write_at_a_time:
  assumes "write_reach errors s" and "\<not> idle_empty s"
  shows "starters s + length (in_flight s) \<le> 1 \<and> \<not> no_front s
    \<and> pushed s = written s @ write_queue s
    \<and> (in_flight s = [] \<or> in_flight s = take 1 (write_queue s))"
  using writer_inv_reach [OF assms]
  by (cases "write_queue s") (auto simp: writer_inv_def split: if_splits)

lemma reach_push: "write_reach errors s \<Longrightarrow> write_reach errors (push_all ms s)"
  by (erule rtranclp.rtrancl_into_rtrancl) (rule Pushes)

lemma reach_start: "write_reach errors s \<Longrightarrow> 0 < starters s \<Longrightarrow> write_reach errors (do_write s)"
  by (erule rtranclp.rtrancl_into_rtrancl) (intro Own Starts)

text \<open>A push of a stream without fragments to an idle connection breaks this: two threads can
  then write at the same time, and the front of an empty queue is accessed.\<close>

theorem empty_stream_two_writers:
  "(\<exists>s :: 'm writer. write_reach False s \<and> length (in_flight s) = 2)
   \<and> (\<exists>s :: 'm writer. write_reach False s \<and> no_front s)"
proof
  let ?s = "push_all [undefined] (push_all [] idle_writer) :: 'm writer"
  have start: "write_reach False (do_write ?s)"
    by (intro reach_start reach_push) (simp_all add: push_all_def idle_writer_def)
  have "write_reach False (do_write (do_write ?s))"
    by (rule reach_start [OF start]) (simp add: do_write_def push_all_def idle_writer_def)
  moreover have "length (in_flight (do_write (do_write ?s))) = 2"
    by (simp add: push_all_def idle_writer_def do_write_def)
  ultimately show "\<exists>s :: 'm writer. write_reach False s \<and> length (in_flight s) = 2"
    by blast
next
  let ?s = "push_all [] idle_writer :: 'm writer"
  have "write_reach False (do_write ?s)"
    by (intro reach_start reach_push) (simp_all add: push_all_def idle_writer_def)
  moreover have "no_front (do_write ?s)"
    by (simp add: push_all_def idle_writer_def do_write_def)
  ultimately show "\<exists>s :: 'm writer. write_reach False s \<and> no_front s"
    by blast
qed

subsection \<open>The queue drains\<close>

definition work :: "'m writer \<Rightarrow> nat" where
  "work s = 2 * length (write_queue s) - length (in_flight s)"

lemma own_step_work:
  "own_step s s' \<Longrightarrow> writer_inv s \<Longrightarrow> failed s = [] \<Longrightarrow>
     work s' < work s \<and> pushed s' = pushed s"
  by (erule own_stepE; cases "write_queue s")
    (auto simp: writer_inv_def work_def do_write_def write_done_def Let_def split: if_splits)

lemma own_step_enabled: "writer_inv s \<Longrightarrow> failed s = [] \<Longrightarrow> write_queue s \<noteq> [] \<Longrightarrow> \<exists>s'. own_step s s'"
  using Starts [of s] Completes [of "hd (write_queue s)" s] by (auto simp: writer_inv_def)

lemma own_steps_inv:
  "own_step\<^sup>*\<^sup>* s s' \<Longrightarrow> writer_inv s \<Longrightarrow> failed s = [] \<Longrightarrow> writer_inv s' \<and> failed s' = [] \<and> pushed s' = pushed s"
  by (induction rule: rtranclp_induct) (auto dest: writer_inv_own own_step_work)

lemma drains:
  assumes "writer_inv s" and "failed s = []"
  shows "\<exists>s'. own_step\<^sup>*\<^sup>* s s' \<and> write_queue s' = []"
  using assms
proof (induction "work s" arbitrary: s rule: less_induct)
  case less
  show ?case
  proof (cases "write_queue s = []")
    case False
    then obtain s1 where s1: "own_step s s1"
      using own_step_enabled less.prems by blast
    with less.prems have "work s1 < work s" "writer_inv s1" "failed s1 = []"
      using own_step_work writer_inv_own by metis+
    then show ?thesis
      using less.hyps s1 by (meson converse_rtranclp_into_rtranclp)
  qed auto
qed

text \<open>C8: Everything that is queued gets written: from any reachable state in which no write has
  failed and no stream without fragments has been queued while the queue was empty, the threads' own steps, of which there are at most two per queued fragment, lead
  to the empty queue, one of them is possible as long as the queue is not empty, and then
  exactly the fragments that were pushed have been written, in their order.\<close>

theorem queue_drains:
  assumes "write_reach errors s" and "\<not> idle_empty s" and "failed s = []"
  shows "(\<exists>s'. own_step\<^sup>*\<^sup>* s s' \<and> write_queue s' = [] \<and> written s' = pushed s)
    \<and> (\<forall>s' n. (own_step ^^ n) s s' \<longrightarrow> n \<le> 2 * length (write_queue s)
         \<and> (write_queue s' = [] \<or> (\<exists>s''. own_step s' s'')))"
proof -
  note inv = writer_inv_reach [OF assms(1,2)]
  have count: "n + work s' \<le> work s" if "(own_step ^^ n) s s'" for n s'
    using that
  proof (induction n arbitrary: s')
    case (Suc n)
    then obtain t where t: "(own_step ^^ n) s t" "own_step t s'" by auto
    then have "writer_inv t \<and> failed t = []"
      using own_steps_inv [OF _ inv assms(3)] by (meson relpowp_imp_rtranclp)
    then show ?case using Suc.IH [OF t(1)] own_step_work [OF t(2)] by fastforce
  qed simp
  have "n \<le> 2 * length (write_queue s) \<and> (write_queue s' = [] \<or> (\<exists>s''. own_step s' s''))"
    if "(own_step ^^ n) s s'" for n s'
    using count [OF that] own_steps_inv [OF relpowp_imp_rtranclp [OF that] inv assms(3)] own_step_enabled
    by (fastforce simp: work_def)
  moreover obtain s' where "own_step\<^sup>*\<^sup>* s s'" "write_queue s' = []"
    using drains [OF inv assms(3)] by blast
  moreover from this have "written s' = pushed s"
    using own_steps_inv [OF _ inv assms(3), of s'] unfolding writer_inv_def by (metis append_Nil2)
  ultimately show ?thesis by blast
qed

theorem queue_drains_witness:
  "\<exists>s'. own_step\<^sup>*\<^sup>* (push_all [1, 2 :: nat] idle_writer) s' \<and> written s' = [1, 2]"
proof -
  have "write_reach False (push_all [1, 2 :: nat] idle_writer)"
    by (intro r_into_rtranclp Pushes)
  from queue_drains [OF this] show ?thesis
    by (auto simp: push_all_def idle_writer_def)
qed

subsection \<open>After an error\<close>

text \<open>After an error the queue is never empty again.\<close>

lemma step_after_failure:
  assumes "write_step errors s s'" and "writer_inv s" and "failed s \<noteq> []"
  shows "written s' = written s \<and> failed s' \<noteq> [] \<and> writer_inv s'"
  using assms by (auto elim!: write_stepE own_stepE simp: writer_inv_def push_all_def Let_def split: if_splits)

text \<open>C20: After a write has failed on a connection where no stream without fragments had been queued while the queue was empty, no
  fragment is ever written again, whatever is queued from then on: the one that failed stays at the front, so that every thread
  believes a write to be in progress. A client that reconnects with the same object sends nothing, not even its login.\<close>

theorem failed_write_blocks:
  assumes "write_reach True s" and "\<not> idle_empty s" and "failed s \<noteq> []" and "(write_step True)\<^sup>*\<^sup>* s s'"
  shows "written s' = written s \<and> in_flight s' = [] \<and> write_queue s' \<noteq> []"
proof -
  have "written s' = written s \<and> failed s' \<noteq> [] \<and> writer_inv s'"
    using assms(4)
  proof (induction rule: rtranclp_induct)
    case base
    show ?case using assms(3) writer_inv_reach [OF assms(1,2)] by simp
  next
    case (step y z)
    then show ?case using step_after_failure [OF step.hyps(2)] by simp
  qed
  then show ?thesis
    by (auto simp: writer_inv_def split: if_splits)
qed

text \<open>A write of 1 that failed, with 2 behind it, and a stream without fragments queued after it.\<close>

definition broken_writer :: "nat writer" where
  "broken_writer = push_all [2] (write_failed 1 (do_write (push_all [1] idle_writer)))"

lemma broken_writer_reach: "write_reach True broken_writer" "\<not> idle_empty broken_writer"
proof -
  let ?s = "do_write (push_all [1] idle_writer) :: nat writer"
  have "write_reach True ?s"
    by (intro reach_start reach_push) (simp_all add: push_all_def idle_writer_def)
  moreover have "write_step True ?s (write_failed 1 ?s)"
    by (rule Fails) (simp_all add: push_all_def idle_writer_def do_write_def)
  ultimately show "write_reach True broken_writer"
    unfolding broken_writer_def by (intro reach_push) (rule rtranclp.rtrancl_into_rtrancl)
  show "\<not> idle_empty broken_writer"
    by (simp add: broken_writer_def push_all_def idle_writer_def do_write_def write_failed_def)
qed

theorem failed_write_blocks_witness:
  "written (push_all [] broken_writer) = [] \<and> in_flight (push_all [] broken_writer) = [] \<and> write_queue (push_all [] broken_writer) = [1, 2]"
proof -
  have "(write_step True)\<^sup>*\<^sup>* broken_writer (push_all [] broken_writer)"
    by (intro r_into_rtranclp Pushes)
  from failed_write_blocks [OF broken_writer_reach _ this] show ?thesis
    by (simp add: broken_writer_def push_all_def idle_writer_def do_write_def write_failed_def)
qed

theorem one_write_at_a_time_witness:
  "starters broken_writer + length (in_flight broken_writer) \<le> 1 \<and> pushed broken_writer = [1, 2]"
  using one_write_at_a_time [OF broken_writer_reach]
  by (simp add: broken_writer_def push_all_def idle_writer_def do_write_def write_failed_def)

end
