(* ===== verification/Ring_Buffer.thy ===== *)
theory Ring_Buffer
  imports Tec_Prelude
begin

text \<open>
  \<open>RingBuffer<T, N>\<close> of common/ring-buffer.hpp: a fixed array with a write index, a read
  index and a count. The abstract specification is a list, oldest element first; the locale
  \<open>bounded_log\<close> states the contract in terms of that list and proves what the console does
  with it (drop the oldest line when full, then add): the log always holds the last \<open>N\<close>
  elements pushed. The interpretation discharges the contract for the index arithmetic.
\<close>

record 'a ring_buffer =
  rb_buffer :: "'a list"
  rb_write :: nat
  rb_read :: nat
  rb_elements :: nat

text \<open>\<open>N\<close> is the length of the array; it is default-initialised, so its content is a parameter.\<close>

definition rb_N :: "'a ring_buffer \<Rightarrow> nat" where
  "rb_N b = length (rb_buffer b)"

definition rb_new :: "'a list \<Rightarrow> 'a ring_buffer" where
  "rb_new arr = \<lparr>rb_buffer = arr, rb_write = 0, rb_read = 0, rb_elements = 0\<rparr>"

text \<open>\<open>operator[]\<close>: the sum is a \<open>size_t\<close>, so it is taken modulo \<open>2 ^ 64\<close>.\<close>

definition rb_at :: "'a ring_buffer \<Rightarrow> nat \<Rightarrow> 'a" where
  "rb_at b pos = rb_buffer b ! ((rb_read b + pos) mod 2 ^ 64 mod rb_N b)"

definition rb_back :: "'a ring_buffer \<Rightarrow> 'a" where
  "rb_back b = rb_buffer b ! rb_read b"

definition rb_empty :: "'a ring_buffer \<Rightarrow> bool" where
  "rb_empty b \<longleftrightarrow> rb_elements b = 0"

definition rb_full :: "'a ring_buffer \<Rightarrow> bool" where
  "rb_full b \<longleftrightarrow> rb_elements b = rb_N b"

definition rb_size :: "'a ring_buffer \<Rightarrow> nat" where
  "rb_size b = rb_elements b"

definition rb_pop_back :: "'a ring_buffer \<Rightarrow> 'a ring_buffer" where
  "rb_pop_back b = (if \<not> rb_empty b
     then b\<lparr>rb_read := (rb_read b + 1) mod rb_N b, rb_elements := rb_elements b - 1\<rparr> else b)"

definition rb_push_front :: "'a \<Rightarrow> 'a ring_buffer \<Rightarrow> 'a ring_buffer" where
  "rb_push_front x b = (if \<not> rb_full b
     then b\<lparr>rb_buffer := (rb_buffer b)[rb_write b := x],
            rb_write := (rb_write b + 1) mod rb_N b, rb_elements := rb_elements b + 1\<rparr> else b)"

definition rb_clear :: "'a ring_buffer \<Rightarrow> 'a ring_buffer" where
  "rb_clear b = b\<lparr>rb_write := 0, rb_read := 0, rb_elements := 0\<rparr>"

subsection \<open>Invariant and abstraction\<close>

text \<open>
  The write index runs \<open>elements\<close> ahead of the read index. The capacity is below \<open>2 ^ 63\<close>,
  which every array that exists satisfies, so the index sums do not wrap.
\<close>

definition wf_rb :: "'a ring_buffer \<Rightarrow> bool" where
  "wf_rb b \<longleftrightarrow> 0 < rb_N b \<and> rb_N b < 2 ^ 63 \<and> rb_read b < rb_N b \<and> rb_elements b \<le> rb_N b
     \<and> rb_write b = (rb_read b + rb_elements b) mod rb_N b"

definition rb_contents :: "'a ring_buffer \<Rightarrow> 'a list" where
  "rb_contents b = map (rb_at b) [0..<rb_elements b]"

lemmas rb_defs = rb_at_def rb_back_def rb_empty_def rb_full_def rb_size_def rb_pop_back_def
  rb_push_front_def rb_clear_def

lemma rb_N_frame [simp, frame_simps]:
  "rb_N (rb_push_front x b) = rb_N b"
  "rb_N (rb_pop_back b) = rb_N b"
  "rb_N (rb_clear b) = rb_N b"
  "rb_N (rb_new arr) = length arr"
  by (simp_all add: rb_defs rb_N_def rb_new_def)

lemma wf_rb_new [wf_intros]: "arr \<noteq> [] \<Longrightarrow> length arr < 2 ^ 63 \<Longrightarrow> wf_rb (rb_new arr)"
  by (simp add: wf_rb_def rb_new_def rb_N_def)

lemma wf_rb_push [wf_intros]: "wf_rb b \<Longrightarrow> wf_rb (rb_push_front x b)"
  by (simp add: wf_rb_def rb_push_front_def rb_full_def rb_N_def mod_Suc_eq)

lemma wf_rb_pop [wf_intros]: "wf_rb b \<Longrightarrow> wf_rb (rb_pop_back b)"
  by (cases "rb_elements b") (simp_all add: wf_rb_def rb_pop_back_def rb_empty_def rb_N_def mod_add_left_eq)

lemma wf_rb_clear [wf_intros]: "wf_rb b \<Longrightarrow> wf_rb (rb_clear b)"
  by (simp add: wf_rb_def rb_clear_def rb_N_def)

lemma length_rb_contents [simp]: "length (rb_contents b) = rb_elements b"
  by (simp add: rb_contents_def)

lemma rb_at_wf:
  "wf_rb b \<Longrightarrow> i < rb_N b \<Longrightarrow> rb_at b i = rb_buffer b ! ((rb_read b + i) mod rb_N b)"
  by (simp add: rb_at_def wf_rb_def)

lemma rb_contents_wf:
  "wf_rb b \<Longrightarrow>
     rb_contents b = map (\<lambda>i. rb_buffer b ! ((rb_read b + i) mod rb_N b)) [0..<rb_elements b]"
  by (auto simp: rb_contents_def wf_rb_def intro!: rb_at_wf [unfolded wf_rb_def])

text \<open>Indices less than one turn apart are different.\<close>

lemma mod_add_neq:
  assumes "i < k" and "k < (n::nat)"
  shows "(r + i) mod n \<noteq> (r + k) mod n"
proof
  assume "(r + i) mod n = (r + k) mod n"
  then have "n dvd k - i"
    using assms(1) mod_eq_dvd_iff_nat [of "r + i" "r + k" n] by simp
  then show False
    using assms by (auto dest: dvd_imp_le)
qed

lemma rb_contents_push:
  assumes "wf_rb b" and "\<not> rb_full b"
  shows "rb_contents (rb_push_front x b) = rb_contents b @ [x]"
proof -
  let ?n = "rb_N b" and ?w = "rb_write b"
  have n: "rb_elements b < ?n" "?w = (rb_read b + rb_elements b) mod ?n" "?w < ?n"
    using assms by (auto simp: wf_rb_def rb_full_def)
  have old: "(rb_buffer b)[?w := x] ! ((rb_read b + i) mod ?n)
      = rb_buffer b ! ((rb_read b + i) mod ?n)" if "i < rb_elements b" for i
    using mod_add_neq [OF that n(1), of "rb_read b"] n(2) by simp
  have new: "(rb_buffer b)[?w := x] ! ((rb_read b + rb_elements b) mod ?n) = x"
    using n by (simp add: rb_N_def)
  show ?thesis
    using assms(2) old new
    by (simp add: rb_contents_wf assms(1) wf_rb_push del: upt_Suc)
      (simp add: rb_push_front_def)
qed

lemma rb_contents_pop:
  assumes "wf_rb b"
  shows "rb_contents (rb_pop_back b) = tl (rb_contents b)"
proof (cases "rb_elements b")
  case (Suc k)
  then have "[0..<rb_elements b] = 0 # map Suc [0..<k]"
    by (simp add: map_Suc_upt upt_conv_Cons)
  with Suc show ?thesis
    by (simp add: rb_contents_wf assms wf_rb_pop comp_def mod_Suc_eq del: upt_Suc)
      (simp add: rb_pop_back_def rb_empty_def mod_simps)
qed (simp add: rb_contents_def rb_pop_back_def rb_empty_def)

lemma rb_contents_clear [simp]: "rb_contents (rb_clear b) = []"
  by (simp add: rb_contents_def rb_clear_def)

lemma rb_contents_new [simp]: "rb_contents (rb_new arr) = []"
  by (simp add: rb_contents_def rb_new_def)

lemma rb_back_hd:
  "wf_rb b \<Longrightarrow> \<not> rb_empty b \<Longrightarrow> rb_back b = hd (rb_contents b)"
  by (cases "rb_elements b")
    (simp_all add: rb_back_def rb_empty_def rb_contents_wf wf_rb_def upt_conv_Cons del: upt_Suc)

subsection \<open>The contract\<close>

locale bounded_log =
  fixes push :: "'a \<Rightarrow> 'b \<Rightarrow> 'b" and pop :: "'b \<Rightarrow> 'b" and is_full :: "'b \<Rightarrow> bool"
    and inv :: "'b \<Rightarrow> bool" and contents :: "'b \<Rightarrow> 'a list" and cap :: "'b \<Rightarrow> nat"
  assumes push_inv: "inv b \<Longrightarrow> inv (push x b)"
    and pop_inv: "inv b \<Longrightarrow> inv (pop b)"
    and cap_push: "cap (push x b) = cap b"
    and cap_pop: "cap (pop b) = cap b"
    and cap_pos: "inv b \<Longrightarrow> 0 < cap b"
    and fits: "inv b \<Longrightarrow> length (contents b) \<le> cap b"
    and is_full: "inv b \<Longrightarrow> is_full b \<longleftrightarrow> length (contents b) = cap b"
    and push_free: "inv b \<Longrightarrow> \<not> is_full b \<Longrightarrow> contents (push x b) = contents b @ [x]"
    and pop_oldest: "inv b \<Longrightarrow> contents (pop b) = tl (contents b)"
begin

definition put_line :: "'a \<Rightarrow> 'b \<Rightarrow> 'b" where
  "put_line x b = push x (if is_full b then pop b else b)"

lemma inv_put_line: "inv b \<Longrightarrow> inv (put_line x b)"
  by (simp add: put_line_def push_inv pop_inv)

lemma cap_put_line: "cap (put_line x b) = cap b"
  by (simp add: put_line_def cap_push cap_pop)

lemma contents_put_line:
  assumes "inv b"
  shows "contents (put_line x b) = drop (Suc (length (contents b)) - cap b) (contents b @ [x])"
proof (cases "is_full b")
  case True
  then have "\<not> is_full (pop b)"
    using assms cap_pos [OF assms] by (simp add: is_full pop_inv pop_oldest cap_pop)
  with True show ?thesis
    using assms cap_pos [OF assms]
    by (cases "contents b") (simp_all add: put_line_def push_free pop_inv pop_oldest is_full)
next
  case False
  then have "length (contents b) < cap b"
    using fits [OF assms] assms by (simp add: is_full)
  with False show ?thesis
    using assms by (simp add: put_line_def push_free)
qed

lemma drop_last_snoc:
  "0 < c \<Longrightarrow> drop (Suc (length (drop (length ys - c) ys)) - c) (drop (length ys - c) ys @ [y])
     = drop (Suc (length ys) - c) (ys @ [y])"
  by (cases "c \<le> length ys") (auto simp: Suc_diff_le)

lemma log_holds_last:
  assumes "inv b"
  shows "inv (fold put_line xs b) \<and> cap (fold put_line xs b) = cap b
    \<and> contents (fold put_line xs b)
        = drop (length (contents b @ xs) - cap b) (contents b @ xs)"
proof (induction xs rule: rev_induct)
  case Nil
  then show ?case using assms fits [OF assms] by simp
next
  case (snoc x xs)
  have "contents (fold put_line (xs @ [x]) b)
      = drop (Suc (length (contents b @ xs)) - cap b) ((contents b @ xs) @ [x])"
    using snoc.IH contents_put_line [of "fold put_line xs b" x]
    by (simp only: fold_append fold_simps comp_apply drop_last_snoc [OF cap_pos [OF assms]])
  then show ?case
    using snoc.IH by (simp add: cap_put_line inv_put_line)
qed

end

interpretation ring: bounded_log rb_push_front rb_pop_back rb_full wf_rb rb_contents rb_N
  by unfold_locales
    (auto simp: wf_rb_push wf_rb_pop rb_contents_push rb_contents_pop,
     auto simp: wf_rb_def rb_full_def)

end
