(* ===== verification/Console.thy ===== *)
theory Console
  imports Ring_Buffer Ordered_Map
begin

text \<open>
  The console of client/gui/console.cpp without its drawing: the scrolling log (a ring
  buffer of 4096 lines that drops the oldest), the command table, the interpretation of an
  entered line, and the log sink. A registered function is a built-in of the constructor or
  one that the client registered, whose effect is the parameter \<open>ext\<close>. The lemmas give the
  log after any sequence of lines and the command that an entered line runs.
\<close>

record ImVec4 =
  col_x :: int
  col_y :: int
  col_z :: int
  col_w :: int

definition white :: ImVec4 where
  "white = \<lparr>col_x = 255, col_y = 255, col_z = 255, col_w = 255\<rparr>"

type_synonym line = "ImVec4 \<times> string"

datatype 'f console_fn = Cmdlist | Help_cmd | Clear_cmd | Echo_cmd | Registered 'f

text \<open>\<open>slash_handler\<close> is empty until \<open>AddSlashHandler\<close>; calling it then throws.\<close>

record 'f console =
  con_buf :: "line ring_buffer"
  scrollToBottom :: bool
  inputBuf :: string
  con_resize :: bool
  con_show :: bool
  commands :: "(string, 'f console_fn \<times> string) omap"
  slash_handler :: "'f option"

datatype console_error = Bad_function_call

definition log_capacity :: nat where "log_capacity = 4096"

definition AddConsoleCommand ::
    "string \<Rightarrow> string \<Rightarrow> 'f console_fn \<Rightarrow> 'f console \<Rightarrow> 'f console" where
  "AddConsoleCommand name hlp f c = c\<lparr>commands := om_put name (f, hlp) (commands c)\<rparr>"

definition AddSlashHandler :: "'f \<Rightarrow> 'f console \<Rightarrow> 'f console" where
  "AddSlashHandler f c = c\<lparr>slash_handler := Some f\<rparr>"

text \<open>The constructor; \<open>arr\<close> is the default-constructed array of the ring buffer.\<close>

definition new_console :: "line list \<Rightarrow> 'f console" where
  "new_console arr =
     AddConsoleCommand ''echo'' ''echo [message] : Prints a message to the console'' Echo_cmd
    (AddConsoleCommand ''clear'' ''clear : Clear console output'' Clear_cmd
    (AddConsoleCommand ''help'' ''help [command] : Prints a short help about an command'' Help_cmd
    (AddConsoleCommand ''cmdlist'' ''cmdlist : List all commands'' Cmdlist
      \<lparr>con_buf = rb_new arr, scrollToBottom = False, inputBuf = [], con_resize = True,
       con_show = True, commands = [], slash_handler = None\<rparr>)))"

subsection \<open>Writing lines\<close>

definition Println :: "string \<Rightarrow> ImVec4 \<Rightarrow> 'f console \<Rightarrow> 'f console" where
  "Println str color c =
     (let b = (if rb_full (con_buf c) then rb_pop_back (con_buf c) else con_buf c) in
      c\<lparr>con_buf := rb_push_front (color, str) b, scrollToBottom := True\<rparr>)"

text \<open>
  \<open>Printfln\<close>, applied to the text that its format produces: \<open>vsnprintf\<close> into 1024 bytes
  keeps 1023 characters, up to the first NUL.
\<close>

definition Printfln :: "string \<Rightarrow> 'f console \<Rightarrow> 'f console" where
  "Printfln txt = Println (takeWhile (\<lambda>ch. ch \<noteq> CHR 0x00) (take 1023 txt)) white"

definition Clear :: "'f console \<Rightarrow> 'f console" where
  "Clear c = c\<lparr>con_buf := rb_clear (con_buf c)\<rparr>"

definition unknown_help :: string where
  "unknown_help = ''Unknown command. Please use cmdlist to list all commands.''"

definition run_command ::
    "('f \<Rightarrow> string \<Rightarrow> 'f console \<Rightarrow> 'f console) \<Rightarrow> 'f console_fn \<Rightarrow> string \<Rightarrow> 'f console \<Rightarrow> 'f console"
    where
  "run_command ext f args c = (case f of
      Cmdlist \<Rightarrow> fold (\<lambda>name. Println name white) (om_keys (commands c)) c
    | Help_cmd \<Rightarrow> (case map_of (commands c) args of
          Some (_, hlp) \<Rightarrow> Println hlp white c
        | None \<Rightarrow> Println unknown_help white c)
    | Clear_cmd \<Rightarrow> Clear c
    | Echo_cmd \<Rightarrow> Println args white c
    | Registered g \<Rightarrow> ext g args c)"

subsection \<open>The command line\<close>

text \<open>What \<open>Draw\<close> does when \<open>InputText\<close> reports that enter was pressed.\<close>

definition trim_right :: "string \<Rightarrow> string" where
  "trim_right s = rev (dropWhile (\<lambda>ch. ch = CHR '' '') (rev s))"

definition split_command :: "string \<Rightarrow> string \<times> string" where
  "split_command s =
     (takeWhile (\<lambda>ch. ch \<noteq> CHR '' '') s,
      (case dropWhile (\<lambda>ch. ch \<noteq> CHR '' '') s of [] \<Rightarrow> [] | _ # args \<Rightarrow> args))"

definition submit_line ::
    "('f \<Rightarrow> string \<Rightarrow> 'f console \<Rightarrow> 'f console) \<Rightarrow> 'f console \<Rightarrow> console_error + 'f console" where
  "submit_line ext c =
     (let s = trim_right (inputBuf c) in
      case s of
        [] \<Rightarrow> Inr (c\<lparr>inputBuf := []\<rparr>)
      | ch # rest \<Rightarrow>
          if ch = CHR ''/'' then
            (case slash_handler c of
               None \<Rightarrow> Inl Bad_function_call
             | Some f \<Rightarrow> Inr ((ext f rest (c\<lparr>inputBuf := s\<rparr>))\<lparr>inputBuf := []\<rparr>))
          else
            let (name, args) = split_command s; c1 = c\<lparr>inputBuf := s\<rparr> in
            Inr ((case map_of (commands c) name of
                    Some (f, _) \<Rightarrow> run_command ext f args (Printfln (CHR '']'' # name) c1)
                  | None \<Rightarrow> Println ''Unknown command'' white c1)\<lparr>inputBuf := []\<rparr>))"

subsection \<open>Events and the log sink\<close>

definition On_WindowResized :: "'f console \<Rightarrow> 'f console" where
  "On_WindowResized c = c\<lparr>con_resize := True\<rparr>"

text \<open>\<open>escape_down\<close>: the event is \<open>KEY_DOWN\<close> of \<open>GLFW_KEY_ESCAPE\<close>.\<close>

definition On_Keyboard :: "bool \<Rightarrow> 'f console \<Rightarrow> 'f console" where
  "On_Keyboard escape_down c = (if escape_down then c\<lparr>con_show := \<not> con_show c\<rparr> else c)"

datatype log_level = L_trace | L_debug | L_info | L_warn | L_err | L_critical | L_off

definition sink_log :: "log_level \<Rightarrow> string \<Rightarrow> 'f console \<Rightarrow> 'f console" where
  "sink_log level payload = (case level of
      L_trace \<Rightarrow> Println (''trace '' @ payload) white
    | L_debug \<Rightarrow> Println (''debug '' @ payload) white
    | L_warn \<Rightarrow> Println (''WARNING : '' @ payload) (white\<lparr>col_y := 48, col_z := 0\<rparr>)
    | L_err \<Rightarrow> Println (''ERROR! '' @ payload) (white\<lparr>col_y := 0, col_z := 0\<rparr>)
    | L_critical \<Rightarrow> Println (''CRITICAL ERROR! '' @ payload) (white\<lparr>col_y := 0, col_z := 0\<rparr>)
    | _ \<Rightarrow> Println payload white)"

subsection \<open>Invariant\<close>

definition wf_console :: "'f console \<Rightarrow> bool" where
  "wf_console c \<longleftrightarrow> wf_rb (con_buf c) \<and> rb_N (con_buf c) = log_capacity \<and> wf_omap (commands c)"

definition shown :: "'f console \<Rightarrow> line list" where
  "shown c = rb_contents (con_buf c)"

lemma con_buf_Println:
  "con_buf (Println str color c) = ring.put_line (color, str) (con_buf c)"
  by (simp add: Println_def ring.put_line_def Let_def)

lemma Println_frame [simp, frame_simps]:
  "commands (Println str color c) = commands c"
  "inputBuf (Println str color c) = inputBuf c"
  "slash_handler (Println str color c) = slash_handler c"
  "con_show (Println str color c) = con_show c"
  by (simp_all add: Println_def Let_def)

lemma Println_inputBuf [simp]:
  "(Println str color c)\<lparr>inputBuf := s\<rparr> = Println str color (c\<lparr>inputBuf := s\<rparr>)"
  by (simp add: Println_def Let_def)

lemma wf_Println [wf_intros]: "wf_console c \<Longrightarrow> wf_console (Println str color c)"
  by (simp add: wf_console_def con_buf_Println ring.inv_put_line ring.cap_put_line)

lemma wf_new_console [wf_intros]: "length arr = log_capacity \<Longrightarrow> wf_console (new_console arr)"
  by (simp add: wf_console_def new_console_def AddConsoleCommand_def log_capacity_def
      wf_omap_Cons om_keys_def)
    (rule wf_rb_new; fastforce)

lemma con_buf_fold_Println:
  "con_buf (fold (\<lambda>(color, str). Println str color) ls c) = fold ring.put_line ls (con_buf c)"
  by (induction ls arbitrary: c) (auto simp: con_buf_Println)

lemma shown_fold_Println:
  assumes "wf_console c"
  shows "shown (fold (\<lambda>(color, str). Println str color) ls c)
    = drop (length (shown c @ ls) - log_capacity) (shown c @ ls)"
  using ring.log_holds_last [of "con_buf c" ls] assms
  by (simp add: shown_def con_buf_fold_Println wf_console_def)

lemma shown_Println:
  "wf_console c \<Longrightarrow> shown (Println str color c)
     = drop (Suc (length (shown c)) - log_capacity) (shown c @ [(color, str)])"
  using shown_fold_Println [of c "[(color, str)]"] by simp

lemma trim_right_snoc: "x \<noteq> CHR '' '' \<Longrightarrow> trim_right (s @ [x]) = s @ [x]"
  by (simp add: trim_right_def)

lemma trim_right_blanks: "trim_right (s @ replicate n CHR '' '') = trim_right s"
  by (simp add: trim_right_def dropWhile_append3 flip: replicate_append_same)
    (induction n; simp)

lemma split_command_app:
  assumes "\<forall>ch \<in> set name. ch \<noteq> CHR '' ''"
  shows "split_command (name @ CHR '' '' # args) = (name, args)"
  using assms by (simp add: split_command_def takeWhile_append2 dropWhile_append2)

subsection \<open>Properties\<close>

text \<open>The log. Whatever lines are printed to a console, in whatever order, the lines it
  shows are the last 4096 of those it showed before followed by the printed ones, oldest
  first, and the console stays well-formed.\<close>

theorem console_shows_last_lines:
  assumes "wf_console c"
  shows "wf_console (fold (\<lambda>(color, str). Println str color) ls c)
    \<and> shown (fold (\<lambda>(color, str). Println str color) ls c)
        = drop (length (shown c) + length ls - 4096) (shown c @ ls)"
proof
  show "wf_console (fold (\<lambda>(color, str). Println str color) ls c)"
    using assms by (induction ls arbitrary: c) (auto intro: wf_intros)
qed (use shown_fold_Println [OF assms] in \<open>simp add: log_capacity_def\<close>)

theorem console_shows_last_lines_witness:
  "shown (fold (\<lambda>(color, str). Println str color) (replicate 5000 (white, ''a'') @ [(white, ''b'')])
     (new_console (replicate 4096 (white, [])) :: unit console))
   = replicate 4095 (white, ''a'') @ [(white, ''b'')]"
proof -
  have wf: "wf_console (new_console (replicate 4096 (white, [])) :: unit console)"
    by (rule wf_new_console) (simp add: log_capacity_def)
  have "shown (new_console (replicate 4096 (white, [])) :: unit console) = []"
    by (simp add: shown_def new_console_def AddConsoleCommand_def)
  with console_shows_last_lines [OF wf, of "replicate 5000 (white, ''a'') @ [(white, ''b'')]"]
  show ?thesis by simp
qed

text \<open>Interpreting a line. Entering a command name, a blank and an argument text, with
  any number of blanks after it, runs the function registered under that name with exactly
  that argument after echoing the name, an unregistered name prints one line and runs
  nothing, and both clear the input.\<close>

theorem submit_line_runs_command:
  assumes "inputBuf c = name @ CHR '' '' # args @ replicate n CHR '' ''"
    and "name \<noteq> []" and "hd name \<noteq> CHR ''/''" and "\<forall>ch \<in> set name. ch \<noteq> CHR '' ''"
    and "args \<noteq> []" and "last args \<noteq> CHR '' ''"
  shows "submit_line ext c = Inr ((case map_of (commands c) name of
      Some (f, _) \<Rightarrow> run_command ext f args
          (Printfln (CHR '']'' # name) (c\<lparr>inputBuf := name @ CHR '' '' # args\<rparr>))
    | None \<Rightarrow> Println ''Unknown command'' white c)\<lparr>inputBuf := []\<rparr>)"
proof -
  have "args = butlast args @ [last args]"
    using assms(5) by simp
  then have "trim_right (name @ CHR '' '' # args) = name @ CHR '' '' # args"
    using trim_right_snoc [OF assms(6), of "name @ CHR '' '' # butlast args"] by simp
  then have "trim_right (inputBuf c) = name @ CHR '' '' # args"
    using trim_right_blanks [of "name @ CHR '' '' # args" n] assms(1) by simp
  moreover obtain ch rest where "name = ch # rest" "ch \<noteq> CHR ''/''"
    using assms(2,3) by (cases name) auto
  ultimately show ?thesis
    using split_command_app [OF assms(4), of args]
    by (auto simp: submit_line_def Let_def split: option.splits)
qed

theorem submit_line_runs_command_witness:
  "\<exists>c. submit_line (\<lambda>_ _. id) ((new_console (replicate 4096 (white, [])) :: unit console)
       \<lparr>inputBuf := ''echo hi there  ''\<rparr>) = Inr c
     \<and> inputBuf c = [] \<and> shown c = [(white, '']echo''), (white, ''hi there'')]"
proof -
  let ?c = "(new_console (replicate 4096 (white, [])) :: unit console)\<lparr>inputBuf := ''echo hi there  ''\<rparr>"
  have "wf_console (new_console (replicate 4096 (white, [])) :: unit console)"
    by (rule wf_new_console) (simp add: log_capacity_def)
  then have wf: "wf_console ((new_console (replicate 4096 (white, [])) :: unit console)\<lparr>inputBuf := s\<rparr>)" for s
    by (simp add: wf_console_def)
  have nil: "shown ((new_console (replicate 4096 (white, [])) :: unit console)\<lparr>inputBuf := s\<rparr>) = []" for s
    by (simp add: shown_def new_console_def AddConsoleCommand_def)
  have cmd: "map_of (commands ?c) ''echo'' = Some (Echo_cmd, ''echo [message] : Prints a message to the console'')"
    by (simp add: new_console_def AddConsoleCommand_def wf_omap_Cons om_keys_def)
  have "submit_line (\<lambda>_ _. id) ?c = Inr (Println ''hi there'' white (Println '']echo'' white
      ((new_console (replicate 4096 (white, [])) :: unit console)\<lparr>inputBuf := []\<rparr>)))"
    by (subst submit_line_runs_command [of _ "''echo''" "''hi there''" 2])
      (simp_all add: numeral_2_eq_2 run_command_def Printfln_def cmd [simplified])
  then show ?thesis
    using wf by (simp add: shown_Println nil wf_Println log_capacity_def)
qed

end
