(* ===== verification/Event_Race.thy ===== *)
theory Event_Race
  imports Event_Queues "HOL-Library.Multiset"
begin

text \<open>
  \<open>EventQueue\<close> (common/event-queue.hpp) with producer threads: \<open>QueueEvent\<close> first loads the
  atomic pointer \<open>write_event_queue\<close> and then calls \<open>emplace\<close>, which takes the mutex of the
  queue it loaded; \<open>ProcessEventQueue\<close> exchanges the pointers, takes the mutex of its read
  queue and holds it while it drains. Each of these is a step of the relation \<open>race_step\<close>,
  in any order. The lemmas show that no interleaving loses or duplicates an event, that the
  drain cannot deadlock with a handler that emits, and what order is (not) kept.
\<close>

datatype consumer_pc = Idle | Exchanged | Draining

text \<open>
  The two \<open>Queue\<close> objects are named by a bool. \<open>loaded\<close> are the calls of \<open>QueueEvent\<close> between
  their load and their \<open>emplace\<close>. \<open>issued\<close> and \<open>handled\<close> are histories.
\<close>

record ('t, 'e) race =
  the_queue :: "bool \<Rightarrow> ('t \<times> 'e) list"
  read_ptr :: bool
  write_ptr :: bool
  consumer :: consumer_pc
  loaded :: "('t \<times> bool \<times> 'e) list"
  issued :: "('t \<times> 'e) list"
  handled :: "('t \<times> 'e) list"

definition race_start :: "('t, 'e) race" where
  "race_start = \<lparr>the_queue = (\<lambda>_. []), read_ptr = False, write_ptr = True, consumer = Idle,
     loaded = [], issued = [], handled = []\<rparr>"

definition mutex_held :: "bool \<Rightarrow> ('t, 'e) race \<Rightarrow> bool" where
  "mutex_held p s \<longleftrightarrow> consumer s = Draining \<and> read_ptr s = p"

inductive race_step :: "('t, 'e) race \<Rightarrow> ('t, 'e) race \<Rightarrow> bool" where
  Load: "t \<notin> fst ` set (loaded s) \<Longrightarrow>
    race_step s (s\<lparr>loaded := loaded s @ [(t, write_ptr s, e)], issued := issued s @ [(t, e)]\<rparr>)"
| Emplace: "loaded s = xs @ (t, p, e) # ys \<Longrightarrow> \<not> mutex_held p s \<Longrightarrow>
    race_step s (s\<lparr>loaded := xs @ ys, the_queue := (the_queue s)(p := the_queue s p @ [(t, e)])\<rparr>)"
| Exchange: "consumer s = Idle \<Longrightarrow>
    race_step s (s\<lparr>read_ptr := write_ptr s, write_ptr := read_ptr s, consumer := Exchanged\<rparr>)"
| Lock: "consumer s = Exchanged \<Longrightarrow> race_step s (s\<lparr>consumer := Draining\<rparr>)"
| Handle: "consumer s = Draining \<Longrightarrow> the_queue s (read_ptr s) = x # rest \<Longrightarrow>
    race_step s (s\<lparr>the_queue := (the_queue s)(read_ptr s := rest), handled := handled s @ [x]\<rparr>)"
| Unlock: "consumer s = Draining \<Longrightarrow> the_queue s (read_ptr s) = [] \<Longrightarrow>
    race_step s (s\<lparr>consumer := Idle\<rparr>)"

inductive_cases race_stepE: "race_step s s'"

inductive race_reach :: "('t, 'e) race \<Rightarrow> bool" where
  start: "race_reach race_start"
| step: "race_reach s \<Longrightarrow> race_step s s' \<Longrightarrow> race_reach s'"

text \<open>
  \<open>calm_reach\<close> are the runs in which no exchange falls between the load and the \<open>emplace\<close> of
  a call of \<open>QueueEvent\<close>.
\<close>

inductive calm_reach :: "('t, 'e) race \<Rightarrow> bool" where
  calm_start: "calm_reach race_start"
| calm_step: "calm_reach s \<Longrightarrow> race_step s s' \<Longrightarrow> (read_ptr s' = read_ptr s \<or> loaded s = []) \<Longrightarrow>
    calm_reach s'"

lemma calm_is_reach: "calm_reach s \<Longrightarrow> race_reach s"
  by (induction rule: calm_reach.induct) (auto intro: race_reach.intros)

subsection \<open>Invariants\<close>

definition held_events :: "('t, 'e) race \<Rightarrow> ('t \<times> 'e) multiset" where
  "held_events s = mset (handled s) + mset (the_queue s (read_ptr s))
     + mset (the_queue s (write_ptr s)) + mset (map (\<lambda>(t, p, e). (t, e)) (loaded s))"

lemma ptrs_differ: "race_reach s \<Longrightarrow> read_ptr s \<noteq> write_ptr s"
proof (induction rule: race_reach.induct)
  case (step s s')
  from step.hyps(2) step.IH show ?case
    by (cases rule: race_stepE) auto
qed (simp add: race_start_def)

lemma conserved: "race_reach s \<Longrightarrow> held_events s = mset (issued s)"
proof (induction rule: race_reach.induct)
  case (step s s')
  from step.hyps(2) step.IH ptrs_differ [OF step.hyps(1)] show ?case
    by (cases rule: race_stepE)
      (auto simp: held_events_def mutex_held_def ac_simps split: if_splits)
qed (simp add: race_start_def held_events_def)

definition of_thread :: "'t \<Rightarrow> ('t \<times> 'e) list \<Rightarrow> 'e list" where
  "of_thread t xs = map snd (filter (\<lambda>x. fst x = t) xs)"

lemma of_thread_simps [simp]:
  "of_thread t [] = []"
  "of_thread t (x # xs) = (if fst x = t then snd x # of_thread t xs else of_thread t xs)"
  "of_thread t (xs @ ys) = of_thread t xs @ of_thread t ys"
  by (simp_all add: of_thread_def)

definition calm_inv :: "('t, 'e) race \<Rightarrow> bool" where
  "calm_inv s \<longleftrightarrow> read_ptr s \<noteq> write_ptr s \<and> (consumer s = Idle \<longrightarrow> the_queue s (read_ptr s) = [])
     \<and> (\<forall>x \<in> set (loaded s). fst (snd x) = write_ptr s) \<and> distinct (map fst (loaded s))
     \<and> (\<forall>t. of_thread t (issued s) =
          of_thread t (handled s @ the_queue s (read_ptr s) @ the_queue s (write_ptr s)
            @ map (\<lambda>(t, p, e). (t, e)) (loaded s)))"

lemma of_thread_notin: "t \<notin> fst ` set xs \<Longrightarrow> of_thread t xs = []"
  by (induction xs) auto

lemma fst_loaded: "fst ` (\<lambda>(t, p, e). (t, e)) ` A = fst ` A"
  by force

lemma calm_inv_step:
  assumes "calm_inv s" and "race_step s s'" and "read_ptr s' = read_ptr s \<or> loaded s = []"
  shows "calm_inv s'"
  using assms(2)
proof (cases rule: race_step.cases)
  case (Emplace xs t p e ys)
  have p: "p = write_ptr s" and d: "t \<notin> fst ` set xs" "t \<notin> fst ` set ys"
    using assms(1) Emplace(2) by (auto simp: calm_inv_def)
  have "of_thread t (map (\<lambda>(t, p, e). (t, e)) xs) = []" "of_thread t (map (\<lambda>(t, p, e). (t, e)) ys) = []"
    using d by (simp_all add: of_thread_notin fst_loaded)
  then show ?thesis
    using assms(1) Emplace p by (auto simp: calm_inv_def)
qed (use assms in \<open>auto simp: calm_inv_def\<close>)

lemma calm_reach_inv: "calm_reach s \<Longrightarrow> calm_inv s"
proof (induction rule: calm_reach.induct)
  case (calm_step s s')
  then show ?case by (blast intro: calm_inv_step)
qed (simp add: calm_inv_def race_start_def)

subsection \<open>Properties\<close>

text \<open>C14: No event is lost or handled twice. In every interleaving of any number of producer
  threads with the consumer, the events handled, the events in the two queues and those of
  calls that have not placed theirs yet are together exactly the events issued; and the
  queue a new call writes to is never the one whose mutex a drain holds, so that a handler
  that emits does not wait for its own drain.\<close>

theorem events_conserved:
  assumes "race_reach s"
  shows "mset (handled s) + mset (the_queue s (read_ptr s)) + mset (the_queue s (write_ptr s))
      + mset (map (\<lambda>(t, p, e). (t, e)) (loaded s)) = mset (issued s)
    \<and> \<not> mutex_held (write_ptr s) s"
  using conserved [OF assms] ptrs_differ [OF assms] by (simp add: held_events_def mutex_held_def)

text \<open>A run of two threads: three events are placed, two of them handled while the third waits in the read queue, and a fourth is on its way.\<close>

definition busy_race :: "(nat, string) race" where
  "busy_race = \<lparr>the_queue = (\<lambda>_. [])(True := [(0, ''b'')]), read_ptr = True, write_ptr = False, consumer = Draining,
     loaded = [(1, False, ''d'')], issued = [(0, ''a''), (1, ''c''), (0, ''b''), (1, ''d'')], handled = [(0, ''a''), (1, ''c'')]\<rparr>"

lemma calm_Call:
  assumes "calm_reach s" and "loaded s = []" and "\<not> mutex_held (write_ptr s) s"
  shows "calm_reach (s\<lparr>loaded := [], issued := issued s @ [(t, e)], the_queue := (the_queue s)(write_ptr s := the_queue s (write_ptr s) @ [(t, e)])\<rparr>)"
proof -
  let ?s1 = "s\<lparr>loaded := loaded s @ [(t, write_ptr s, e)], issued := issued s @ [(t, e)]\<rparr>"
  have "calm_reach ?s1"
    by (rule calm_step [OF assms(1) Load]) (simp_all add: assms(2))
  then have "calm_reach (?s1\<lparr>loaded := [] @ [], the_queue := (the_queue ?s1)(write_ptr s := the_queue ?s1 (write_ptr s) @ [(t, e)])\<rparr>)"
    by (rule calm_step [OF _ Emplace]) (use assms(2,3) in \<open>auto simp: mutex_held_def\<close>)
  then show ?thesis
    using assms(2) by (cases s) simp
qed

lemma busy_race_calm: "calm_reach busy_race"
proof -
  define s1 :: "(nat, string) race" where "s1 = race_start\<lparr>the_queue := (\<lambda>_. [])(True := [(0, ''a'')]), issued := [(0, ''a'')]\<rparr>"
  define s2 where "s2 = s1\<lparr>the_queue := (\<lambda>_. [])(True := [(0, ''a''), (1, ''c'')]), issued := [(0, ''a''), (1, ''c'')]\<rparr>"
  define s3 where "s3 = s2\<lparr>the_queue := (\<lambda>_. [])(True := [(0, ''a''), (1, ''c''), (0, ''b'')]), issued := [(0, ''a''), (1, ''c''), (0, ''b'')]\<rparr>"
  define s4 where "s4 = s3\<lparr>read_ptr := True, write_ptr := False, consumer := Exchanged\<rparr>"
  define s5 where "s5 = s4\<lparr>consumer := Draining\<rparr>"
  define s6 where "s6 = s5\<lparr>the_queue := (the_queue s5)(True := [(1, ''c''), (0, ''b'')]), handled := [(0, ''a'')]\<rparr>"
  define s7 where "s7 = s6\<lparr>the_queue := (the_queue s6)(True := [(0, ''b'')]), handled := [(0, ''a''), (1, ''c'')]\<rparr>"
  note defs = race_start_def s1_def s2_def s3_def s4_def s5_def s6_def s7_def mutex_held_def
  have "calm_reach s1"
    using calm_Call [OF calm_start, of 0 "''a''"] by (simp add: defs)
  then have "calm_reach s2"
    using calm_Call [of s1 1 "''c''"] by (simp add: defs)
  then have "calm_reach s3"
    using calm_Call [of s2 0 "''b''"] by (simp add: defs)
  then have "calm_reach s4"
    using calm_step [of s3 s4] Exchange [of s3] by (simp add: defs)
  then have "calm_reach s5"
    using calm_step [of s4 s5] Lock [of s4] by (simp add: defs)
  then have "calm_reach s6"
    using calm_step [of s5 s6] Handle [of s5 "(0, ''a'')" "[(1, ''c''), (0, ''b'')]"] by (simp add: defs)
  then have "calm_reach s7"
    using calm_step [of s6 s7] Handle [of s6 "(1, ''c'')" "[(0, ''b'')]"] by (simp add: defs)
  then show ?thesis
    using calm_step [of s7 busy_race] Load [of 1 s7 "''d''"] by (simp add: defs busy_race_def)
qed

theorem events_conserved_witness:
  "mset (handled busy_race) + mset (the_queue busy_race True) + mset (the_queue busy_race False) + mset [(1, ''d'')]
     = mset [(0, ''a''), (1, ''c''), (0, ''b''), (1, ''d'')]
   \<and> \<not> mutex_held False busy_race"
  using events_conserved [OF calm_is_reach [OF busy_race_calm]] by (simp add: busy_race_def)

text \<open>C30: Order without an exchange in between. In every run where no exchange of the
  pointers falls inside a call of \<open>QueueEvent\<close>, the events of each thread are handled in the
  order the thread issued them: what is handled of it is a prefix of what it issued.\<close>

theorem thread_order_calm:
  assumes "calm_reach s"
  shows "take (length (of_thread t (handled s))) (of_thread t (issued s)) = of_thread t (handled s)"
  using calm_reach_inv [OF assms] by (simp add: calm_inv_def)

theorem thread_order_calm_witness:
  "of_thread 0 (handled busy_race) = [''a''] \<and> take 1 (of_thread 0 (issued busy_race)) = [''a'']
   \<and> of_thread 1 (handled busy_race) = [''c''] \<and> take 1 (of_thread 1 (issued busy_race)) = [''c'']"
proof -
  have h: "of_thread 0 (handled busy_race) = [''a'']" "of_thread 1 (handled busy_race) = [''c'']"
    by (simp_all add: busy_race_def)
  show ?thesis
    using thread_order_calm [OF busy_race_calm, of 0] thread_order_calm [OF busy_race_calm, of 1] unfolding h by simp
qed

text \<open>Order is not kept in general. There is a run in which one thread queues two events
  one after the other and the consumer handles the second before the first: the call for
  the first loads the pointer, the consumer exchanges and drains, and the event is placed
  into what is then the read queue, behind which the second one overtakes it.\<close>

theorem thread_order_can_invert:
  "\<exists>s :: (nat, bool) race. race_reach s \<and> of_thread 0 (issued s) = [False, True]
     \<and> of_thread 0 (handled s) = [True, False]"
proof -
  define s0 :: "(nat, bool) race" where "s0 = race_start"
  define s1 where "s1 = s0\<lparr>loaded := [(0, True, False)], issued := [(0, False)]\<rparr>"
  define s2 where "s2 = s1\<lparr>read_ptr := True, write_ptr := False, consumer := Exchanged\<rparr>"
  define s3 where "s3 = s2\<lparr>consumer := Draining\<rparr>"
  define s4 where "s4 = s3\<lparr>consumer := Idle\<rparr>"
  define s5 where "s5 = s4\<lparr>loaded := [], the_queue := (the_queue s4)(True := [(0, False)])\<rparr>"
  define s6 where "s6 = s5\<lparr>loaded := [(0, False, True)], issued := [(0, False), (0, True)]\<rparr>"
  define s7 where "s7 = s6\<lparr>loaded := [], the_queue := (the_queue s6)(False := [(0, True)])\<rparr>"
  define s8 where "s8 = s7\<lparr>read_ptr := False, write_ptr := True, consumer := Exchanged\<rparr>"
  define s9 where "s9 = s8\<lparr>consumer := Draining\<rparr>"
  define s10 where "s10 = s9\<lparr>the_queue := (the_queue s9)(False := []), handled := [(0, True)]\<rparr>"
  define s11 where "s11 = s10\<lparr>consumer := Idle\<rparr>"
  define s12 where "s12 = s11\<lparr>read_ptr := True, write_ptr := False, consumer := Exchanged\<rparr>"
  define s13 where "s13 = s12\<lparr>consumer := Draining\<rparr>"
  define s14 where "s14 = s13\<lparr>the_queue := (the_queue s13)(True := []),
    handled := [(0, True), (0, False)]\<rparr>"
  note defs = s0_def s1_def s2_def s3_def s4_def s5_def s6_def s7_def s8_def s9_def s10_def
    s11_def s12_def s13_def s14_def race_start_def
  have "race_step s0 s1" using Load [of 0 s0 False] by (simp add: defs)
  moreover have "race_step s1 s2" using Exchange [of s1] by (simp add: defs)
  moreover have "race_step s2 s3" using Lock [of s2] by (simp add: defs)
  moreover have "race_step s3 s4" using Unlock [of s3] by (simp add: defs)
  moreover have "race_step s4 s5"
    using Emplace [of s4 "[]" 0 True False "[]"] by (simp add: defs mutex_held_def)
  moreover have "race_step s5 s6" using Load [of 0 s5 True] by (simp add: defs)
  moreover have "race_step s6 s7"
    using Emplace [of s6 "[]" 0 False True "[]"] by (simp add: defs mutex_held_def)
  moreover have "race_step s7 s8" using Exchange [of s7] by (simp add: defs)
  moreover have "race_step s8 s9" using Lock [of s8] by (simp add: defs)
  moreover have "race_step s9 s10" using Handle [of s9 "(0, True)" "[]"] by (simp add: defs)
  moreover have "race_step s10 s11" using Unlock [of s10] by (simp add: defs)
  moreover have "race_step s11 s12" using Exchange [of s11] by (simp add: defs)
  moreover have "race_step s12 s13" using Lock [of s12] by (simp add: defs)
  moreover have "race_step s13 s14" using Handle [of s13 "(0, False)" "[]"] by (simp add: defs)
  moreover have "race_reach s0" by (simp add: s0_def race_reach.start)
  ultimately have "race_reach s14" by (meson race_reach.step)
  then show ?thesis
    by (intro exI [of _ s14]) (simp add: defs)
qed

end
