(* ===== verification/Controller_Life.thy ===== *)
theory Controller_Life
  imports Users
begin

text \<open>
  Who keeps a controller alive. \<open>Simulation\<close> holds raw pointers; the objects are owned by shared pointers in the \<open>User\<close> and in events that
  are not handled yet. The network thread of the server lets users join and leave (server/user/user.cpp) while the simulation thread goes
  through \<open>Simulation::Simulate\<close> (common/simulation.cpp), which drains its event queues one after the other and then updates the
  controllers. Every use of a pointer is a step of its own here, and joins and leaves fall between any two of them. The properties say when no
  interleaving uses a destroyed controller, and that two ways of joining break it.
\<close>

subsection \<open>The two threads\<close>

text \<open>
  Where the simulation thread is: between two steps, or in one of the loops of \<open>Simulate\<close>, with what is left of it. The client commands and
  the changes of focus go to every controller; the events of controllers that were taken from their queue own the controller until they are
  handled. Draining the queues of the keyboard and the mouse, which uses no pointer, is part of the start.
\<close>

datatype sim_pc =
    Between
  | Commanding "(client_commands \<times> addr) list"
  | Adding "addr list"
  | Removing "addr list"
  | Capturing "((bool \<times> bool) \<times> addr) list"
  | Blurring "((bool \<times> bool) \<times> addr) list"
  | Updating "addr list"

text \<open>
  \<open>se_added\<close> and \<open>se_removed\<close> are the events in the queues. A controller that is not in \<open>se_store\<close> does not exist. \<open>se_pitch\<close> is the static
  pitch of the controllers, \<open>se_state\<close> the state that they write to.
\<close>

record 's session =
  se_user :: "nat \<Rightarrow> user"
  se_world :: "'s world"
  se_added :: "addr list"
  se_removed :: "addr list"
  se_pc :: sim_pc
  se_sim :: simulation
  se_store :: controller_store
  se_pitch :: rat
  se_state :: "rat game_state"

definition added :: "world_event list \<Rightarrow> addr list" where
  "added es = concat (map (\<lambda>e. case e of Controller_Added c \<Rightarrow> [c] | _ \<Rightarrow> []) es)"

definition removed :: "world_event list \<Rightarrow> addr list" where
  "removed es = concat (map (\<lambda>e. case e of Controller_Removed c \<Rightarrow> [c] | _ \<Rightarrow> []) es)"

text \<open>The controllers that a shared pointer holds; the others are destroyed.\<close>

definition held :: "(nat \<Rightarrow> user) \<Rightarrow> addr set" where
  "held us = {c. \<exists>k. u_controller (us k) = Some c}"

fun carried :: "sim_pc \<Rightarrow> addr set" where
  "carried (Adding cs) = set cs"
| "carried (Removing cs) = set cs"
| "carried _ = {}"

definition owned :: "'s session \<Rightarrow> addr set" where
  "owned s = held (se_user s) \<union> set (se_added s) \<union> set (se_removed s) \<union> carried (se_pc s)"

definition destroy_unowned :: "'s session \<Rightarrow> 's session" where
  "destroy_unowned s = s\<lparr>se_store := se_store s |` owned s\<rparr>"

text \<open>
  \<open>User::AddEntityToWorld\<close> and \<open>RemoveEntityFromWorld\<close>, with the events they emit. The assignment of the pointer and the emission are one step:
  between the two the user, or the user and the event, own the controller, and the simulation does not look at the user.
\<close>

definition join :: "(rat, 's) shape_lib \<Rightarrow> addr \<Rightarrow> nat \<Rightarrow> 's session \<Rightarrow> 's session" where
  "join L c k s = (case AddEntityToWorld L c (se_world s) (se_user s k) of
     (u, w, es) \<Rightarrow> destroy_unowned (s\<lparr>se_user := (se_user s)(k := u), se_world := w, se_added := se_added s @ added es,
        se_store := (se_store s)(c \<mapsto> new_controller (u_entity_id u))\<rparr>))"

definition leave :: "nat \<Rightarrow> 's session \<Rightarrow> 's session" where
  "leave k s = (case RemoveEntityFromWorld (se_user s k) of
     (u, es) \<Rightarrow> destroy_unowned (s\<lparr>se_user := (se_user s)(k := u), se_removed := se_removed s @ removed es\<rparr>))"

text \<open>
  What the step of the simulation thread does not decide: the input of a step, the events that an exchange of queues leaves behind, because their
  emission had loaded the pointer to the other queue, and the results of the physics.
\<close>

record choice =
  ch_input :: sim_input
  ch_delta :: rat
  ch_left :: "addr list"

definition each_pair :: "'e list \<Rightarrow> addr list \<Rightarrow> ('e \<times> addr) list" where
  "each_pair es cs = concat (map (\<lambda>e. map (Pair e) cs) es)"

text \<open>Taking the events of a queue, all but those left behind.\<close>

definition taken :: "addr list \<Rightarrow> addr list \<Rightarrow> addr list" where
  "taken left queued = filter (\<lambda>c. c \<notin> set left) queued"

definition still_queued :: "addr list \<Rightarrow> addr list \<Rightarrow> addr list" where
  "still_queued left queued = filter (\<lambda>c. c \<in> set left) queued"

text \<open>One step of the simulation thread; \<open>None\<close> is the use of a destroyed controller.\<close>

definition sim_step ::
    "glm_lib \<Rightarrow> (rat \<Rightarrow> rat game_state \<Rightarrow> phys_result) \<Rightarrow> choice \<Rightarrow> 's session \<Rightarrow> 's session option" where
  "sim_step G phys ch s = map_option destroy_unowned
     (let inp = ch_input ch; cs = sim_controllers (se_sim s); st = se_store s in
      case se_pc s of
        Between \<Rightarrow> Some (s\<lparr>se_pc := Commanding (each_pair (in_commands inp) cs),
          se_sim := fold On_MouseClickEvent (in_mouse_click inp) (fold On_MouseMoveEvent (in_mouse_move inp)
             (fold On_MouseBtnEvent (in_mouse_btn inp) (fold On_KeyboardEvent (in_keyboard inp) (se_sim s))))\<rparr>)
      | Commanding ((e, a) # r) \<Rightarrow> map_option (\<lambda>st1. s\<lparr>se_pc := Commanding r, se_store := st1\<rparr>) (On_ClientCommands e [a] st)
      | Commanding [] \<Rightarrow> Some (s\<lparr>se_pc := Adding (taken (ch_left ch) (se_added s)), se_added := still_queued (ch_left ch) (se_added s)\<rparr>)
      | Adding (c # r) \<Rightarrow> Some (s\<lparr>se_pc := Adding r, se_sim := AddController c (se_sim s)\<rparr>)
      | Adding [] \<Rightarrow> Some (s\<lparr>se_pc := Removing (taken (ch_left ch) (se_removed s)), se_removed := still_queued (ch_left ch) (se_removed s)\<rparr>)
      | Removing (c # r) \<Rightarrow> Some (s\<lparr>se_pc := Removing r, se_sim := RemoveController c (se_sim s)\<rparr>)
      | Removing [] \<Rightarrow> Some (s\<lparr>se_pc := Capturing (each_pair (in_captured inp) cs)\<rparr>)
      | Capturing ((f, a) # r) \<Rightarrow> map_option (\<lambda>st1. s\<lparr>se_pc := Capturing r, se_store := st1\<rparr>) (On_FocusCaptured f [a] st)
      | Capturing [] \<Rightarrow> Some (s\<lparr>se_pc := Blurring (each_pair (in_blurred inp) cs)\<rparr>)
      | Blurring ((f, a) # r) \<Rightarrow> map_option (\<lambda>st1. s\<lparr>se_pc := Blurring r, se_store := st1\<rparr>) (On_FocusBlur f [a] st)
      | Blurring [] \<Rightarrow> Some (s\<lparr>se_pc := Updating cs\<rparr>)
      | Updating (a # r) \<Rightarrow> map_option (\<lambda>(pitch, gs, st1). s\<lparr>se_pc := Updating r, se_pitch := pitch, se_state := gs, se_store := st1\<rparr>)
          (update_controllers G (ch_delta ch) (sim_events (se_sim s)) [a] (se_pitch s, se_state s, st))
      | Updating [] \<Rightarrow> Some (s\<lparr>se_pc := Between, se_sim := (se_sim s)\<lparr>sim_events := no_events\<rparr>,
          se_state := merge_physics (phys (ch_delta ch) (se_state s)) (se_state s)\<rparr>))"


text \<open>
  The runs. A new object has an address that no owned one has. With \<open>once\<close> a user only joins without a controller, with \<open>settled\<close> a user only
  leaves when the event of the user's controller was taken from its queue.
\<close>

inductive life :: "(rat, 's) shape_lib \<Rightarrow> glm_lib \<Rightarrow> (rat \<Rightarrow> rat game_state \<Rightarrow> phys_result) \<Rightarrow> bool \<Rightarrow> bool \<Rightarrow> 's session \<Rightarrow> bool"
    for L G phys once settled where
  start: "\<forall>k. u_controller (se_user s k) = None \<Longrightarrow> se_added s = [] \<Longrightarrow> se_removed s = [] \<Longrightarrow> se_pc s = Between
    \<Longrightarrow> se_sim s = new_simulation \<Longrightarrow> se_store s = Map.empty \<Longrightarrow> life L G phys once settled s"
| joins: "life L G phys once settled s \<Longrightarrow> c \<notin> owned s \<Longrightarrow> once \<longrightarrow> u_controller (se_user s k) = None
    \<Longrightarrow> life L G phys once settled (join L c k s)"
| leaves: "life L G phys once settled s \<Longrightarrow> settled \<longrightarrow> set_option (u_controller (se_user s k)) \<inter> set (se_added s) = {}
    \<Longrightarrow> life L G phys once settled (leave k s)"
| steps: "life L G phys once settled s \<Longrightarrow> sim_step G phys ch s = Some s' \<Longrightarrow> life L G phys once settled s'"

text \<open>The simulation thread alone.\<close>

fun sim_run :: "glm_lib \<Rightarrow> (rat \<Rightarrow> rat game_state \<Rightarrow> phys_result) \<Rightarrow> choice list \<Rightarrow> 's session \<Rightarrow> 's session option" where
  "sim_run G phys [] s = Some s"
| "sim_run G phys (ch # chs) s = (case sim_step G phys ch s of None \<Rightarrow> None | Some s1 \<Rightarrow> sim_run G phys chs s1)"

subsection \<open>Events and owners\<close>

lemma added_simps [simp]:
  "added [] = []" "added (es @ fs) = added es @ added fs"
  "added (Entity_Created e # es) = added es" "added (Entity_Destroyed i # es) = added es"
  "added (Controller_Added c # es) = c # added es" "added (Controller_Removed c # es) = added es"
  "removed [] = []" "removed (es @ fs) = removed es @ removed fs"
  "removed (Entity_Created e # es) = removed es" "removed (Entity_Destroyed i # es) = removed es"
  "removed (Controller_Added c # es) = removed es" "removed (Controller_Removed c # es) = c # removed es"
  by (simp_all add: added_def removed_def)

lemma AddEntityToWorld_events:
  "AddEntityToWorld L c w u = (u', w', es) \<Longrightarrow> u_controller u' = Some c \<and> added es = [c]"
  by (auto simp: AddEntityToWorld_def Let_def split: prod.splits)

lemma RemoveEntityFromWorld_events:
  "RemoveEntityFromWorld u = (u', es) \<Longrightarrow>
     u_controller u' = None \<and> removed es = (case u_controller u of None \<Rightarrow> [] | Some c \<Rightarrow> [c])"
  by (auto simp: RemoveEntityFromWorld_def Let_def split: option.splits if_splits)

text \<open>What a join and a leave change.\<close>

lemma join_eq:
  "\<exists>u w. u_controller u = Some c \<and> join L c k s = destroy_unowned (s\<lparr>se_user := (se_user s)(k := u), se_world := w, se_added := se_added s @ [c],
        se_store := (se_store s)(c \<mapsto> new_controller (u_entity_id u))\<rparr>)"
proof -
  obtain u w es where a: "AddEntityToWorld L c (se_world s) (se_user s k) = (u, w, es)"
    by (metis prod_cases3)
  then show ?thesis
    using AddEntityToWorld_events [OF a] by (auto simp: join_def)
qed

lemma leave_eq:
  "\<exists>u. u_controller u = None \<and> leave k s = destroy_unowned (s\<lparr>se_user := (se_user s)(k := u),
     se_removed := se_removed s @ (case u_controller (se_user s k) of None \<Rightarrow> [] | Some c \<Rightarrow> [c])\<rparr>)"
proof -
  obtain u es where r: "RemoveEntityFromWorld (se_user s k) = (u, es)"
    by (metis prod.exhaust)
  then show ?thesis
    using RemoveEntityFromWorld_events [OF r] by (auto simp: leave_def)
qed

lemma destroy_simps [simp]:
  "se_user (destroy_unowned s) = se_user s" "se_world (destroy_unowned s) = se_world s" "se_added (destroy_unowned s) = se_added s"
  "se_removed (destroy_unowned s) = se_removed s" "se_pc (destroy_unowned s) = se_pc s" "se_sim (destroy_unowned s) = se_sim s"
  "se_store (destroy_unowned s) = se_store s |` owned s" "owned (destroy_unowned s) = owned s"
  "se_pitch (destroy_unowned s) = se_pitch s" "se_state (destroy_unowned s) = se_state s"
  by (simp_all add: destroy_unowned_def owned_def)

lemma held_upd: "held (us(k := u)) = {c. \<exists>j. j \<noteq> k \<and> u_controller (us j) = Some c} \<union> set_option (u_controller u)"
  by (auto simp: held_def split: if_splits)

lemma in_each_pair [simp]: "(e, c) \<in> set (each_pair es cs) \<longleftrightarrow> e \<in> set es \<and> c \<in> set cs"
  by (auto simp: each_pair_def)

subsection \<open>No interleaving uses a destroyed controller\<close>

definition one_owner :: "(nat \<Rightarrow> user) \<Rightarrow> bool" where
  "one_owner us \<longleftrightarrow> (\<forall>j k c. u_controller (us j) = Some c \<and> u_controller (us k) = Some c \<longrightarrow> j = k)"

fun to_remove :: "sim_pc \<Rightarrow> addr set" where
  "to_remove (Removing cs) = set cs"
| "to_remove _ = {}"

fun to_add :: "sim_pc \<Rightarrow> addr set" where
  "to_add (Adding cs) = set cs"
| "to_add _ = {}"

fun to_use :: "sim_pc \<Rightarrow> addr set" where
  "to_use (Commanding r) = snd ` set r"
| "to_use (Capturing r) = snd ` set r"
| "to_use (Blurring r) = snd ` set r"
| "to_use (Updating cs) = set cs"
| "to_use _ = {}"

lemma carried_eq: "carried pc = to_add pc \<union> to_remove pc"
  by (cases pc) simp_all

text \<open>
  A controller that was announced and not taken yet is held by its user; one that is to be removed is held by nobody and not announced any
  more; all others that the simulation has or is about to get are held.
\<close>

definition life_inv :: "'s session \<Rightarrow> bool" where
  "life_inv s \<longleftrightarrow> owned s \<subseteq> dom (se_store s) \<and> one_owner (se_user s) \<and> set (se_added s) \<subseteq> held (se_user s)
     \<and> (set (se_removed s) \<union> to_remove (se_pc s)) \<inter> (held (se_user s) \<union> set (se_added s)) = {}
     \<and> to_add (se_pc s) \<subseteq> held (se_user s) \<union> set (se_removed s)
     \<and> set (sim_controllers (se_sim s)) \<subseteq> held (se_user s) \<union> set (se_removed s) \<union> to_remove (se_pc s)
     \<and> to_use (se_pc s) \<subseteq> set (sim_controllers (se_sim s))"

lemma life_inv_alive: "life_inv s \<Longrightarrow> set (sim_controllers (se_sim s)) \<subseteq> dom (se_store s)"
  by (auto simp: life_inv_def owned_def carried_eq)

lemma life_inv_destroy: "life_inv s \<Longrightarrow> life_inv (destroy_unowned s)"
  by (auto simp: life_inv_def)

lemma join_inv:
  assumes "life_inv s" and "c \<notin> owned s" and "u_controller (se_user s k) = None"
  shows "life_inv (join L c k s)"
proof -
  obtain u w where j: "u_controller u = Some c" "join L c k s = destroy_unowned (s\<lparr>se_user := (se_user s)(k := u), se_world := w,
      se_added := se_added s @ [c], se_store := (se_store s)(c \<mapsto> new_controller (u_entity_id u))\<rparr>)"
    using join_eq by blast
  have h: "held ((se_user s)(k := u)) = insert c (held (se_user s))"
    using assms(3) j(1) unfolding held_def by (auto split: if_splits) (metis option.distinct(1))
  have fresh: "c \<notin> held (se_user s)" "c \<notin> set (se_added s)" "c \<notin> set (se_removed s)" "c \<notin> to_remove (se_pc s)"
    using assms(2) by (auto simp: owned_def carried_eq)
  have "one_owner ((se_user s)(k := u))"
    using assms(1,3) j(1) fresh(1) by (auto simp: life_inv_def one_owner_def held_def)
  then show ?thesis
    unfolding j(2) using assms(1) fresh
    by (intro life_inv_destroy) (auto simp: life_inv_def owned_def h)
qed

lemma leave_inv:
  assumes "life_inv s" and "set_option (u_controller (se_user s k)) \<inter> set (se_added s) = {}"
  shows "life_inv (leave k s)"
proof -
  obtain u where l: "u_controller u = None" "leave k s = destroy_unowned (s\<lparr>se_user := (se_user s)(k := u),
      se_removed := se_removed s @ (case u_controller (se_user s k) of None \<Rightarrow> [] | Some c \<Rightarrow> [c])\<rparr>)"
    using leave_eq by blast
  have h: "held ((se_user s)(k := u)) = held (se_user s) - set_option (u_controller (se_user s k))"
    using assms(1) l(1) by (auto simp: held_def life_inv_def one_owner_def split: if_splits)
  have k: "set_option (u_controller (se_user s k)) \<subseteq> held (se_user s)"
    by (auto simp: held_def)
  have one: "one_owner ((se_user s)(k := u))"
    using assms(1) l(1) by (auto simp: life_inv_def one_owner_def)
  have r: "set (case u_controller (se_user s k) of None \<Rightarrow> [] | Some c \<Rightarrow> [c]) = set_option (u_controller (se_user s k))"
    by (cases "u_controller (se_user s k)") simp_all
  show ?thesis
    unfolding l(2) using assms k
    by (intro life_inv_destroy) (auto simp: life_inv_def owned_def h r one)
qed

text \<open>Using a controller on the list changes only what is in the store.\<close>

lemma use_alive:
  assumes "life_inv s" and "a \<in> to_use (se_pc s)" and "f [a] (se_store s) \<noteq> None \<longleftrightarrow> set [a] \<subseteq> dom (se_store s)"
    and "\<And>st'. f [a] (se_store s) = Some st' \<Longrightarrow> dom st' = dom (se_store s)"
  obtains st1 where "f [a] (se_store s) = Some st1" and "dom st1 = dom (se_store s)"
proof -
  have "set [a] \<subseteq> dom (se_store s)"
    using assms(2) life_inv_alive [OF assms(1)] assms(1) by (auto simp: life_inv_def)
  then show thesis
    using that assms(3,4) by auto
qed

lemma used_inv:
  assumes "life_inv s" and "dom st1 = dom (se_store s)" and "to_use pc1 \<subseteq> to_use (se_pc s)" and "carried pc1 = {}" and "carried (se_pc s) = {}"
  shows "life_inv (s\<lparr>se_pc := pc1, se_store := st1\<rparr>)"
  using assms by (auto simp: life_inv_def owned_def carried_eq)

lemma moved_inv:
  assumes "life_inv s" and "sim_controllers sim1 = sim_controllers (se_sim s)" and "to_use pc1 \<subseteq> set (sim_controllers (se_sim s))"
    and "carried pc1 = {}" and "carried (se_pc s) = {}"
  shows "life_inv (s\<lparr>se_pc := pc1, se_sim := sim1\<rparr>)"
  using assms by (auto simp: life_inv_def owned_def carried_eq)

lemma moved_pc_inv:
  assumes "life_inv s" and "to_use pc1 \<subseteq> set (sim_controllers (se_sim s))" and "carried pc1 = {}" and "carried (se_pc s) = {}"
  shows "life_inv (s\<lparr>se_pc := pc1\<rparr>)"
  using assms by (auto simp: life_inv_def owned_def carried_eq)

lemma take_added_inv:
  assumes "life_inv s" and "carried (se_pc s) = {}"
  shows "life_inv (s\<lparr>se_pc := Adding (taken left (se_added s)), se_added := still_queued left (se_added s)\<rparr>)"
  using assms by (auto simp: life_inv_def owned_def carried_eq taken_def still_queued_def)

lemma take_removed_inv:
  assumes "life_inv s" and "carried (se_pc s) = {}"
  shows "life_inv (s\<lparr>se_pc := Removing (taken left (se_removed s)), se_removed := still_queued left (se_removed s)\<rparr>)"
  using assms by (auto simp: life_inv_def owned_def carried_eq taken_def still_queued_def)

lemma step_inv:
  assumes s: "life_inv s"
  shows "\<exists>s'. sim_step G phys ch s = Some s' \<and> life_inv s'"
proof (cases "se_pc s")
  case Between
  then show ?thesis
    by (auto simp: sim_step_def Let_def intro!: life_inv_destroy moved_inv [OF s])
next
  case (Commanding r)
  show ?thesis
  proof (cases r)
    case Nil
    then show ?thesis
      using Commanding by (auto simp: sim_step_def Let_def intro!: life_inv_destroy take_added_inv [OF s])
  next
    case (Cons x xs)
    have "snd x \<in> to_use (se_pc s)"
      using Commanding Cons by simp
    then obtain st1 where "On_ClientCommands (fst x) [snd x] (se_store s) = Some st1" "dom st1 = dom (se_store s)"
      by (rule use_alive [where f = "On_ClientCommands (fst x)", OF s _ commands_dom(1) commands_dom(2)])
    then show ?thesis
      using used_inv [OF s, of st1 "Commanding xs"] Commanding Cons
      by (auto simp: sim_step_def Let_def case_prod_beta intro!: life_inv_destroy)
  qed
next
  case (Capturing r)
  show ?thesis
  proof (cases r)
    case Nil
    then show ?thesis
      using Capturing by (auto simp: sim_step_def Let_def intro!: life_inv_destroy moved_pc_inv [OF s])
  next
    case (Cons x xs)
    have "snd x \<in> to_use (se_pc s)"
      using Capturing Cons by simp
    then obtain st1 where "On_FocusCaptured (fst x) [snd x] (se_store s) = Some st1" "dom st1 = dom (se_store s)"
      by (rule use_alive [where f = "On_FocusCaptured (fst x)", OF s _ commands_dom(3) commands_dom(4)])
    then show ?thesis
      using used_inv [OF s, of st1 "Capturing xs"] Capturing Cons
      by (auto simp: sim_step_def Let_def case_prod_beta intro!: life_inv_destroy)
  qed
next
  case (Blurring r)
  show ?thesis
  proof (cases r)
    case Nil
    then show ?thesis
      using Blurring by (auto simp: sim_step_def Let_def intro!: life_inv_destroy moved_pc_inv [OF s])
  next
    case (Cons x xs)
    have "snd x \<in> to_use (se_pc s)"
      using Blurring Cons by simp
    then obtain st1 where "On_FocusBlur (fst x) [snd x] (se_store s) = Some st1" "dom st1 = dom (se_store s)"
      by (rule use_alive [where f = "On_FocusBlur (fst x)", OF s _ commands_dom(5) commands_dom(6)])
    then show ?thesis
      using used_inv [OF s, of st1 "Blurring xs"] Blurring Cons
      by (auto simp: sim_step_def Let_def case_prod_beta intro!: life_inv_destroy)
  qed
next
  case (Adding r)
  show ?thesis
  proof (cases r)
    case Nil
    then show ?thesis
      using Adding by (auto simp: sim_step_def Let_def intro!: life_inv_destroy take_removed_inv [OF s])
  next
    case (Cons c cs)
    then show ?thesis
      using s Adding by (auto simp: sim_step_def Let_def AddController_def life_inv_def owned_def intro!: life_inv_destroy)
  qed
next
  case (Removing r)
  show ?thesis
  proof (cases r)
    case Nil
    then show ?thesis
      using Removing by (auto simp: sim_step_def Let_def intro!: life_inv_destroy moved_pc_inv [OF s])
  next
    case (Cons c cs)
    then show ?thesis
      using s Removing by (auto simp: sim_step_def Let_def RemoveController_def life_inv_def owned_def intro!: life_inv_destroy)
  qed
next
  case (Updating r)
  show ?thesis
  proof (cases r)
    case Nil
    then show ?thesis
      using s Updating by (auto simp: sim_step_def Let_def life_inv_def owned_def intro!: life_inv_destroy)
  next
    case (Cons c cs)
    let ?u = "update_controllers G (ch_delta ch) (sim_events (se_sim s)) [c] (se_pitch s, se_state s, se_store s)"
    have "set [c] \<subseteq> dom (se_store s)"
      using s life_inv_alive [OF s] Updating Cons by (auto simp: life_inv_def)
    then obtain p gs st1 where u: "?u = Some (p, gs, st1)"
      using update_controllers_defined [of G "ch_delta ch" "sim_events (se_sim s)" "[c]" "se_pitch s" "se_state s" "se_store s"] by fastforce
    have "dom st1 = dom (se_store s)"
      using update_controllers_dom [OF u] by simp
    then have "life_inv (s\<lparr>se_pc := Updating cs, se_pitch := p, se_state := gs, se_store := st1\<rparr>)"
      using s Updating Cons by (auto simp: life_inv_def owned_def)
    then show ?thesis
      using u Updating Cons by (auto simp: sim_step_def Let_def intro!: life_inv_destroy)
  qed
qed

lemma life_inv_holds: "life L G phys True True s \<Longrightarrow> life_inv s"
proof (induction rule: life.induct)
  case (start s)
  then show ?case
    by (auto simp: life_inv_def owned_def held_def one_owner_def new_simulation_def)
next
  case (joins s c k)
  then show ?case by (simp add: join_inv)
next
  case (leaves s k)
  then show ?case by (simp add: leave_inv)
next
  case (steps s ch s')
  then show ?case
    using step_inv [of s G phys ch] by auto
qed

text \<open>C36: In every interleaving of joins and leaves with the single uses of controllers by the simulation thread, and whatever events an exchange
  of the queues leaves behind, no destroyed controller is used, and all that the simulation has are alive; provided that a user only joins
  without a controller, and only leaves when the simulation has taken the event of the user's controller. Neither condition can be left out,
  as the next section shows.
\<close>

theorem controllers_alive:
  assumes "life L G phys True True s"
  shows "sim_step G phys ch s \<noteq> None \<and> set (sim_controllers (se_sim s)) \<subseteq> dom (se_store s)"
  using step_inv [OF life_inv_holds [OF assms], of G phys ch] life_inv_alive [OF life_inv_holds [OF assms]] by auto

subsection \<open>Pointers that dangle\<close>

text \<open>A destroyed controller on the list that no event will take from it: the step of the simulation comes to it.\<close>

definition dangling :: "addr \<Rightarrow> 's session \<Rightarrow> bool" where
  "dangling c s \<longleftrightarrow> se_store s c = None \<and> c \<in> set (sim_controllers (se_sim s)) \<and> c \<notin> set (se_removed s) \<union> to_remove (se_pc s)
     \<and> (\<forall>r. se_pc s = Updating r \<longrightarrow> c \<in> set r)"

lemma restrict_None [simp]: "m c = None \<Longrightarrow> (m |` A) c = None"
  by (simp add: restrict_map_def)

lemma handlers_None:
  "On_ClientCommands e as st = Some st' \<Longrightarrow> st c = None \<Longrightarrow> st' c = None"
  "On_FocusCaptured f as st = Some st' \<Longrightarrow> st c = None \<Longrightarrow> st' c = None"
  "On_FocusBlur f as st = Some st' \<Longrightarrow> st c = None \<Longrightarrow> st' c = None"
  using commands_dom(2) [of e as st st'] commands_dom(4) [of f as st st'] commands_dom(6) [of f as st st'] by (metis domIff)+

lemma dangling_step:
  assumes d: "dangling c s" and step: "sim_step G phys ch s = Some s'"
  shows "dangling c s' \<and> se_pc s' \<noteq> Between"
proof (cases "se_pc s")
  case Between
  then show ?thesis
    using d step by (auto simp: sim_step_def Let_def dangling_def)
next
  case (Commanding r)
  then show ?thesis
    using d step by (cases r) (auto simp: sim_step_def Let_def dangling_def dest: handlers_None split: prod.splits)
next
  case (Adding r)
  then show ?thesis
    using d step by (cases r) (auto simp: sim_step_def Let_def dangling_def AddController_def taken_def still_queued_def)
next
  case (Removing r)
  then show ?thesis
    using d step by (cases r) (auto simp: sim_step_def Let_def dangling_def RemoveController_def)
next
  case (Capturing r)
  then show ?thesis
    using d step by (cases r) (auto simp: sim_step_def Let_def dangling_def dest: handlers_None split: prod.splits)
next
  case (Blurring r)
  then show ?thesis
    using d step by (cases r) (auto simp: sim_step_def Let_def dangling_def dest: handlers_None split: prod.splits)
next
  case (Updating r)
  then show ?thesis
    using d step by (cases r) (auto simp: sim_step_def Let_def dangling_def split: option.splits prod.splits if_splits)
qed

text \<open>Where a step of the simulation is, and how much is left there.\<close>

definition pc_rank :: "sim_pc \<Rightarrow> nat \<times> nat" where
  "pc_rank pc = (case pc of Between \<Rightarrow> (7, 0) | Commanding r \<Rightarrow> (6, length r) | Adding r \<Rightarrow> (5, length r) | Removing r \<Rightarrow> (4, length r)
     | Capturing r \<Rightarrow> (3, length r) | Blurring r \<Rightarrow> (2, length r) | Updating r \<Rightarrow> (1, length r))"

lemma rank_decreases:
  assumes "sim_step G phys ch s = Some s'" and "se_pc s' \<noteq> Between"
  shows "(pc_rank (se_pc s'), pc_rank (se_pc s)) \<in> less_than <*lex*> less_than"
  using assms by (auto simp: sim_step_def Let_def pc_rank_def split: sim_pc.splits list.splits prod.splits)

lemma dangling_used:
  assumes "dangling c s"
  shows "\<exists>n. sim_run G phys (map ch [0..<n]) s = None"
  using assms
proof (induction "pc_rank (se_pc s)" arbitrary: s ch rule: wf_induct_rule [OF wf_lex_prod [OF wf_less_than wf_less_than]])
  case (1 s ch)
  show ?case
  proof (cases "sim_step G phys (ch 0) s")
    case None
    then show ?thesis by (intro exI [of _ 1]) simp
  next
    case (Some s1)
    then have d: "dangling c s1" "se_pc s1 \<noteq> Between"
      using dangling_step [OF 1(2)] by blast+
    then obtain n where "sim_run G phys (map (\<lambda>i. ch (Suc i)) [0..<n]) s1 = None"
      using 1(1) [OF rank_decreases [OF Some d(2)] d(1)] by blast
    then show ?thesis
      using Some by (intro exI [of _ "Suc n"]) (simp add: map_upt_Suc del: upt_Suc)
  qed
qed

lemma dangling_run: "sim_run G phys chs s = Some s' \<Longrightarrow> dangling c s \<Longrightarrow> dangling c s' \<and> (chs \<noteq> [] \<longrightarrow> se_pc s' \<noteq> Between)"
proof (induction chs arbitrary: s)
  case (Cons ch chs)
  then obtain s1 where s1: "sim_step G phys ch s = Some s1" "sim_run G phys chs s1 = Some s'"
    by (auto split: option.splits)
  then show ?case
    using Cons.IH [OF s1(2)] dangling_step [OF Cons.prems(2) s1(1)] by (cases chs) auto
qed simp

text \<open>C37: When a user whose controller the simulation already has joins again without leaving, as a client that sends a second join message does, the
  first controller is destroyed although the simulation keeps its pointer, and whatever input comes, the simulation uses a destroyed controller
  before its next step ends.
\<close>

theorem joining_twice_dangles:
  assumes "life L G phys True True s" and "se_pc s = Between" and "u_controller (se_user s k) = Some c"
    and "c \<in> set (sim_controllers (se_sim s))" and "c \<notin> set (se_added s)" and "c' \<notin> owned s"
  shows "se_store (join L c' k s) c = None \<and> c \<in> set (sim_controllers (se_sim (join L c' k s)))
    \<and> (\<exists>n. sim_run G phys (map ch [0..<n]) (join L c' k s) = None)
    \<and> (\<forall>n s'. 0 < n \<and> sim_run G phys (map ch [0..<n]) (join L c' k s) = Some s' \<longrightarrow> se_pc s' \<noteq> Between)"
proof -
  obtain u w where j: "u_controller u = Some c'" "join L c' k s = destroy_unowned (s\<lparr>se_user := (se_user s)(k := u), se_world := w,
      se_added := se_added s @ [c'], se_store := (se_store s)(c' \<mapsto> new_controller (u_entity_id u))\<rparr>)"
    using join_eq by blast
  have inv: "one_owner (se_user s)" "(set (se_removed s) \<union> to_remove (se_pc s)) \<inter> (held (se_user s) \<union> set (se_added s)) = {}"
    using life_inv_holds [OF assms(1)] by (auto simp: life_inv_def)
  have c: "c \<in> held (se_user s)"
    using assms(3) by (auto simp: held_def)
  then have "c \<noteq> c'" "c \<notin> set (se_removed s)"
    using assms(6) inv(2) by (auto simp: owned_def)
  moreover have "c \<notin> held ((se_user s)(k := u))"
    using inv(1) assms(3) j(1) calculation(1) by (auto simp: held_def one_owner_def split: if_splits)
  ultimately have "dangling c (join L c' k s)"
    using assms(2,4,5) by (simp add: j(2) dangling_def owned_def restrict_map_def)
  then show ?thesis
    using dangling_used [of c "join L c' k s" G phys ch] dangling_run [of G phys _ "join L c' k s" _ c]
    by (fastforce simp: dangling_def [of c "join L c' k s"])
qed

subsection \<open>Examples\<close>

text \<open>A server with the users Ann, a stub for the shape library, and steps without input.\<close>

definition stub_shapes :: "(rat, unit) shape_lib" where
  "stub_shapes = \<lparr>make_box = (\<lambda>x y z. ()), make_sphere = (\<lambda>r. ()), make_capsule = (\<lambda>r h. ()),
     shape_type_of = (\<lambda>s. Capsule_type), half_extents = (\<lambda>s. zero_vec), sphere_radius = (\<lambda>s. 0),
     capsule_radius = (\<lambda>s. 1 / 2), capsule_height = (\<lambda>s. 8 / 5)\<rparr>"

definition empty_world :: "'s world" where
  "empty_world = \<lparr>wd_positions = [], wd_orientations = [], wd_velocities = [], wd_bodies = [], wd_next_id = 10000\<rparr>"

definition first_session :: "unit session" where
  "first_session = \<lparr>se_user = (\<lambda>k. ann), se_world = empty_world, se_added = [], se_removed = [], se_pc = Between,
     se_sim = new_simulation, se_store = Map.empty, se_pitch = 0, se_state = new_game_state\<rparr>"

definition still :: "rat \<Rightarrow> rat game_state \<Rightarrow> phys_result" where
  "still d gs = \<lparr>ph_moved = [], ph_position = (\<lambda>i. zero_vec), ph_orientation = (\<lambda>i. new_orientation)\<rparr>"

definition quiet :: choice where
  "quiet = \<lparr>ch_input = no_input, ch_delta = 1 / 60, ch_left = []\<rparr>"

lemma first_session_life: "life stub_shapes flat_glm still once settled first_session"
  by (rule life.start) (simp_all add: first_session_def ann_def new_user_def)

lemma first_session_owned: "owned first_session = {}"
  by (simp add: owned_def first_session_def held_def ann_def new_user_def)

lemma life_run: "life L G phys once settled s \<Longrightarrow> sim_run G phys chs s = Some s' \<Longrightarrow> life L G phys once settled s'"
  by (induction chs arbitrary: s) (auto split: option.splits intro: life.steps)

text \<open>A quiet step of the simulation, until it comes to the controllers and to its end.\<close>

definition quiet_steps :: "nat \<Rightarrow> 's session \<Rightarrow> 's session option" where
  "quiet_steps n = sim_run flat_glm still (replicate n quiet)"

lemma quiet_steps_Suc: "quiet_steps (Suc n) s = (case sim_step flat_glm still quiet s of None \<Rightarrow> None | Some s1 \<Rightarrow> quiet_steps n s1)"
  by (cases "sim_step flat_glm still quiet s") (simp_all add: quiet_steps_def)

lemma quiet_steps_0: "quiet_steps 0 s = Some s"
  by (simp add: quiet_steps_def)

lemma quiet_steps_add: "quiet_steps n s = Some s1 \<Longrightarrow> quiet_steps m s1 = Some s2 \<Longrightarrow> quiet_steps (n + m) s = Some s2"
  by (induction n arbitrary: s) (auto simp: quiet_steps_0 quiet_steps_Suc split: option.splits)

lemmas run_defs = sim_step_def quiet_def no_input_def Let_def taken_def still_queued_def each_pair_def AddController_def RemoveController_def

text \<open>Ann's controller is taken, and the simulation comes to its update.\<close>

definition joined :: "unit session" where
  "joined = join stub_shapes 4 0 first_session"

lemma joined_life: "life stub_shapes flat_glm still True True joined"
  unfolding joined_def by (rule life.joins [OF first_session_life]) (simp_all add: first_session_owned, simp add: first_session_def ann_def new_user_def)

lemma joined_fields:
  "se_added joined = [4]" "se_removed joined = []" "se_pc joined = Between" "se_sim joined = new_simulation"
  "u_controller (se_user joined k) = (if k = 0 then Some 4 else None)" "se_state joined = new_game_state" "se_pitch joined = 0"
  by (simp_all add: joined_def join_def AddEntityToWorld_def GetNextEntityId_def Let_def first_session_def ann_def new_user_def)

lemma joined_held: "held (se_user joined) = {4}"
  by (auto simp: held_def joined_fields split: if_splits)

lemma joined_updating:
  "\<exists>s. quiet_steps 7 joined = Some s \<and> se_pc s = Updating [4] \<and> se_user s = se_user joined \<and> sim_controllers (se_sim s) = [4]
     \<and> se_added s = [] \<and> se_removed s = []"
  by (simp add: numeral_eq_Suc quiet_steps_Suc quiet_steps_0 run_defs joined_fields new_simulation_def)

lemma join_fields:
  "se_pc (join L c k s) = se_pc s" "se_sim (join L c k s) = se_sim s" "se_removed (join L c k s) = se_removed s"
  "se_added (join L c k s) = se_added s @ [c]" "u_controller (se_user (join L c k s) j) = (if j = k then Some c else u_controller (se_user s j))"
  using join_eq [of c L k s] by auto

lemma leave_fields:
  "se_pc (leave k s) = se_pc s" "se_sim (leave k s) = se_sim s" "se_added (leave k s) = se_added s"
  "se_removed (leave k s) = se_removed s @ (case u_controller (se_user s k) of None \<Rightarrow> [] | Some c \<Rightarrow> [c])"
  "u_controller (se_user (leave k s) j) = (if j = k then None else u_controller (se_user s j))"
  using leave_eq [of k s] by auto

text \<open>Ann leaves while the simulation is about to update her controller: the event of the removal still owns it.\<close>

lemma controllers_alive_witness:
  "\<exists>s. life stub_shapes flat_glm still True True s \<and> se_pc s = Updating [4] \<and> u_controller (se_user s 0) = None
     \<and> sim_step flat_glm still quiet s \<noteq> None"
proof -
  obtain s where s: "quiet_steps 7 joined = Some s" "se_pc s = Updating [4]" "se_added s = []"
    using joined_updating by blast
  have "life stub_shapes flat_glm still True True s"
    using life_run [OF joined_life] s(1) unfolding quiet_steps_def by blast
  then have l: "life stub_shapes flat_glm still True True (leave 0 s)"
    by (rule life.leaves) (simp add: s(3))
  have "sim_step flat_glm still quiet (leave 0 s) \<noteq> None"
    using controllers_alive [OF l, of quiet] by blast
  then show ?thesis
    using l s(2) leave_fields by metis
qed

lemma last_update:
  assumes "life_inv s" and "se_pc s = Updating [c]"
  shows "\<exists>s'. quiet_steps 2 s = Some s' \<and> se_pc s' = Between \<and> se_user s' = se_user s \<and> se_added s' = se_added s
    \<and> se_removed s' = se_removed s \<and> sim_controllers (se_sim s') = sim_controllers (se_sim s)"
proof -
  obtain s1 where s1: "sim_step flat_glm still quiet s = Some s1"
    using step_inv [OF assms(1)] by blast
  then have "se_pc s1 = Updating [] \<and> se_user s1 = se_user s \<and> se_added s1 = se_added s \<and> se_removed s1 = se_removed s \<and> se_sim s1 = se_sim s"
    by (auto simp: sim_step_def Let_def assms(2))
  then show ?thesis
    by (simp add: numeral_2_eq_2 quiet_steps_Suc s1) (simp add: sim_step_def Let_def quiet_steps_0)
qed

text \<open>Ann, whose controller the simulation has, joins a second time.\<close>

lemma joining_twice_dangles_witness:
  "\<exists>s. life stub_shapes flat_glm still True True s \<and> 4 \<in> set (sim_controllers (se_sim s)) \<and> se_store (join stub_shapes 5 0 s) 4 = None
     \<and> (\<exists>n. quiet_steps n (join stub_shapes 5 0 s) = None)"
proof -
  obtain s where s: "quiet_steps 7 joined = Some s" "se_pc s = Updating [4]" "se_user s = se_user joined" "sim_controllers (se_sim s) = [4]"
      "se_added s = []" "se_removed s = []"
    using joined_updating by blast
  have l: "life stub_shapes flat_glm still True True s"
    using life_run [OF joined_life] s(1) unfolding quiet_steps_def by blast
  obtain t where t: "quiet_steps 2 s = Some t" "se_pc t = Between" "se_user t = se_user joined" "se_added t = []" "se_removed t = []"
      "sim_controllers (se_sim t) = [4]"
    using last_update [OF life_inv_holds [OF l] s(2)] s by auto
  have lt: "life stub_shapes flat_glm still True True t"
    using life_run [OF l] t(1) unfolding quiet_steps_def by blast
  have "(5::addr) \<notin> owned t"
    by (simp add: owned_def t joined_held)
  then have d: "se_store (join stub_shapes 5 0 t) 4 = None"
      "\<exists>n. sim_run flat_glm still (map (\<lambda>i. quiet) [0..<n]) (join stub_shapes 5 0 t) = None"
    using joining_twice_dangles [OF lt t(2), where k = 0 and c = 4 and c' = 5 and ch = "\<lambda>i. quiet"] by (simp_all add: t joined_fields)
  have "\<exists>n. quiet_steps n (join stub_shapes 5 0 t) = None"
    using d(2) by (simp add: quiet_steps_def map_replicate_const)
  then show ?thesis
    using lt d(1) t(6) by (intro exI [of _ t]) simp
qed

lemma quick_leave_updating:
  assumes "se_pc s = Adding []" and "se_added s = [4]" and "se_removed s = [4]" and "held (se_user s) = {}" and "sim_controllers (se_sim s) = []"
  shows "\<exists>s'. quiet_steps 13 s = Some s' \<and> se_pc s' = Updating [4] \<and> se_store s' 4 = None"
  by (simp add: numeral_eq_Suc quiet_steps_Suc quiet_steps_0 run_defs assms owned_def)

text \<open>
  Ann joins and leaves between the draining of the queue of added controllers and that of the removed ones: the removal is handled first, in this
  step of the simulation, the addition in the next one.
\<close>

lemma no_join_yet:
  "\<exists>s. quiet_steps 2 first_session = Some s \<and> se_pc s = Adding [] \<and> se_user s = (\<lambda>k. ann) \<and> se_added s = [] \<and> se_removed s = []
     \<and> sim_controllers (se_sim s) = [] \<and> owned s = {}"
  by (simp add: numeral_2_eq_2 quiet_steps_Suc quiet_steps_0 run_defs owned_def held_def first_session_def new_simulation_def)
    (simp add: ann_def new_user_def)

lemma quick_leave_dangles: "\<exists>s. life stub_shapes flat_glm still True False s \<and> sim_step flat_glm still quiet s = None"
proof -
  obtain s0 where s0: "quiet_steps 2 first_session = Some s0" "se_pc s0 = Adding []" "se_user s0 = (\<lambda>k. ann)" "se_added s0 = []"
      "se_removed s0 = []" "sim_controllers (se_sim s0) = []" "owned s0 = {}"
    using no_join_yet by blast
  define s1 where "s1 = leave 0 (join stub_shapes 4 0 s0)"
  have l: "life stub_shapes flat_glm still True False s1"
    unfolding s1_def
    using life_run [OF first_session_life] s0(1) 
    by (intro life.leaves life.joins) (auto simp: s0 quiet_steps_def ann_def new_user_def)
  have s1: "se_pc s1 = Adding []" "se_added s1 = [4]" "se_removed s1 = [4]" "held (se_user s1) = {}" "sim_controllers (se_sim s1) = []"
    by (simp_all add: s1_def join_fields leave_fields s0 held_def ann_def new_user_def)
  obtain s2 where s2: "quiet_steps 13 s1 = Some s2" "se_pc s2 = Updating [4]" "se_store s2 4 = None"
    using quick_leave_updating [OF s1] by blast
  have "sim_step flat_glm still quiet s2 = None"
    using s2 by (simp add: sim_step_def Let_def)
  then show ?thesis
    using life_run [OF l] s2(1) unfolding quiet_steps_def by blast
qed

end
