(* ===== verification/Vfs_Remove.thy ===== *)
theory Vfs_Remove
  imports Vfs_Native
begin

text \<open>
  Listing and removing directories: the Unix branches of \<open>Path::Listing\<close>, \<open>Remove\<close>, \<open>RemoveAll\<close> and what it calls
  (common/filesystem_platform.cpp). The operating system is a parameter, a record of its calls over an abstract state. The lemmas say
  that the fuel does not matter and what \<open>RemoveAll\<close> acts on; the examples show it at work, and where it goes wrong.
\<close>

subsection \<open>The operating system\<close>

text \<open>The file types of \<open>st_mode & S_IFMT\<close>.\<close>

datatype file_type = T_FIFO | T_CHR | T_DIR | T_BLK | T_REG | T_LNK | T_SOCK

text \<open>
  The calls on directories. \<open>do_opendir\<close> gives the names that the successive calls of \<open>readdir\<close> return: while a directory is read, only
  names that were returned already are removed from it. An open directory is known by the path it was opened with. \<open>None\<close> is a call
  that fails.
\<close>

record 'w dir_os =
  do_stat :: "string \<Rightarrow> 'w \<Rightarrow> file_type option"
  do_opendir :: "string \<Rightarrow> 'w \<Rightarrow> string list option"
  do_fstatat :: "string \<Rightarrow> string \<Rightarrow> 'w \<Rightarrow> file_type option"
  do_faccessat :: "string \<Rightarrow> string \<Rightarrow> 'w \<Rightarrow> bool"
  do_unlinkat :: "string \<Rightarrow> string \<Rightarrow> 'w \<Rightarrow> 'w option"
  do_unlink :: "string \<Rightarrow> 'w \<Rightarrow> 'w option"
  do_rmdir :: "string \<Rightarrow> 'w \<Rightarrow> 'w option"

text \<open>The exceptions, the calls that failed for those with the text of \<open>errno\<close>.\<close>

datatype remove_error =
    Path_error path_error | Failed_stat | Failed_unlink | Failed_rmdir
  | No_access | Search_failed | Access_refused | Not_removable | At_root

definition path_step :: "path_error + 'a \<Rightarrow> remove_error + 'a" where
  "path_step r = (case r of Inl e \<Rightarrow> Inl (Path_error e) | Inr x \<Rightarrow> Inr x)"

text \<open>The native path with a final separator.\<close>

definition with_slash :: "string \<Rightarrow> string" where
  "with_slash npath = (if last npath \<noteq> SEP then npath @ [SEP] else npath)"

definition dots :: "string \<Rightarrow> bool" where
  "dots name \<longleftrightarrow> name = ''.'' \<or> name = ''..''"

text \<open>
  A loop over the names of a directory. A step changes the state and may throw; \<open>None\<close> is a recursion deeper than the fuel. The code
  calls \<open>readdir\<close> once before its loop, so the first name is not looked at.
\<close>

fun each_name :: "(string \<Rightarrow> 's \<Rightarrow> ('s \<times> (remove_error + unit)) option) \<Rightarrow> string list \<Rightarrow> 's \<Rightarrow> ('s \<times> (remove_error + unit)) option" where
  "each_name step [] s = Some (s, Inr ())"
| "each_name step (name # names) s = (case step name s of
      None \<Rightarrow> None
    | Some (s1, Inl e) \<Rightarrow> Some (s1, Inl e)
    | Some (s1, Inr _) \<Rightarrow> each_name step names s1)"

subsection \<open>Listing\<close>

definition type_letter :: "file_type \<Rightarrow> char" where
  "type_letter t = (case t of T_FIFO \<Rightarrow> CHR ''f'' | T_CHR \<Rightarrow> CHR ''c'' | T_DIR \<Rightarrow> CHR ''d'' | T_BLK \<Rightarrow> CHR ''b''
     | T_REG \<Rightarrow> CHR ''-'' | T_LNK \<Rightarrow> CHR ''l'' | T_SOCK \<Rightarrow> CHR ''s'')"

text \<open>\<open>Path::Listing\<close>: the lines it prints. A step of its loop takes the function for subdirectories as an argument.\<close>

definition list_entry ::
    "(vpath \<Rightarrow> string list \<Rightarrow> (string list \<times> (remove_error + unit)) option) \<Rightarrow> 'w dir_os \<Rightarrow> 'w \<Rightarrow> vpath \<Rightarrow> string
     \<Rightarrow> string \<Rightarrow> string list \<Rightarrow> (string list \<times> (remove_error + unit)) option" where
  "list_entry list_dir os w p npath name out =
     (if dots name then Some (out, Inr ())
      else case do_fstatat os npath name w of None \<Rightarrow> Some (out, Inr ()) | Some t \<Rightarrow>
        (let out1 = out @ [''['' @ [type_letter t] @ '':'' @ (if do_faccessat os npath name w then ''rw'' else ''ro'')
                             @ ''] '' @ npath @ ''|'' @ name] in
         if t = T_DIR then (case path_div_str p name of Inl e \<Rightarrow> Some (out1, Inl (Path_error e)) | Inr q \<Rightarrow> list_dir q out1)
         else Some (out1, Inr ())))"

primrec Listing :: "nat \<Rightarrow> 'w dir_os \<Rightarrow> path_error + vpath \<Rightarrow> 'w \<Rightarrow> vpath \<Rightarrow> string list \<Rightarrow> (string list \<times> (remove_error + unit)) option" where
  "Listing 0 = (\<lambda>os base w p out. None)"
| "Listing (Suc fuel) = (\<lambda>os base w p out.
     if \<not> path_valid p then Some (out, Inr ())
     else case native_with base p of Inl e \<Rightarrow> Some (out, Inl (Path_error e)) | Inr np \<Rightarrow>
       (case do_opendir os (with_slash np) w of None \<Rightarrow> Some (out, Inr ()) | Some entries \<Rightarrow>
         each_name (list_entry (Listing fuel os base w) os w p (with_slash np)) (tl entries) out))"

subsection \<open>Removing\<close>

text \<open>\<open>Path::Remove\<close>.\<close>

definition removable_type :: "file_type \<Rightarrow> bool" where
  "removable_type t \<longleftrightarrow> t \<in> {T_REG, T_DIR, T_LNK, T_SOCK}"

definition Remove :: "'w dir_os \<Rightarrow> path_error + vpath \<Rightarrow> vpath \<Rightarrow> 'w \<Rightarrow> 'w \<times> (remove_error + unit)" where
  "Remove os base p w =
     (if \<not> path_valid p then (w, Inl (Path_error Invalid_path))
      else case native_with base p of Inl e \<Rightarrow> (w, Inl (Path_error e)) | Inr npath \<Rightarrow>
        (case do_stat os npath w of
           None \<Rightarrow> (w, Inl Failed_stat)
         | Some t \<Rightarrow>
             if \<not> removable_type t then (w, Inl Not_removable)
             else if t = T_DIR then (case do_rmdir os npath w of None \<Rightarrow> (w, Inl Failed_rmdir) | Some w1 \<Rightarrow> (w1, Inr ()))
             else (case do_unlink os npath w of None \<Rightarrow> (w, Inl Failed_unlink) | Some w1 \<Rightarrow> (w1, Inr ()))))"

text \<open>\<open>Path::CheckRemoveAll\<close>, which changes nothing.\<close>

definition check_entry ::
    "(vpath \<Rightarrow> (unit \<times> (remove_error + unit)) option) \<Rightarrow> 'w dir_os \<Rightarrow> 'w \<Rightarrow> vpath \<Rightarrow> string \<Rightarrow> string \<Rightarrow> unit \<Rightarrow> (unit \<times> (remove_error + unit)) option" where
  "check_entry check_dir os w p npath name u =
     (if dots name then Some (u, Inr ())
      else case do_fstatat os npath name w of None \<Rightarrow> Some (u, Inr ()) | Some t \<Rightarrow>
        if \<not> do_faccessat os npath name w then Some (u, Inl Access_refused)
        else if \<not> removable_type t then Some (u, Inl Not_removable)
        else if t = T_DIR then (case path_div_str p name of Inl e \<Rightarrow> Some (u, Inl (Path_error e)) | Inr q \<Rightarrow> check_dir q)
        else Some (u, Inr ()))"

primrec CheckRemoveAll :: "nat \<Rightarrow> 'w dir_os \<Rightarrow> path_error + vpath \<Rightarrow> 'w \<Rightarrow> vpath \<Rightarrow> (unit \<times> (remove_error + unit)) option" where
  "CheckRemoveAll 0 = (\<lambda>os base w p. None)"
| "CheckRemoveAll (Suc fuel) = (\<lambda>os base w p.
     if \<not> path_valid p then Some ((), Inl (Path_error Invalid_path))
     else if pstr p = [SEP] then Some ((), Inl At_root)
     else case native_with base p of Inl e \<Rightarrow> Some ((), Inl (Path_error e)) | Inr np \<Rightarrow>
       (case do_opendir os (with_slash np) w of None \<Rightarrow> Some ((), Inl Search_failed) | Some entries \<Rightarrow>
         each_name (check_entry (CheckRemoveAll fuel os base w) os w p (with_slash np)) (tl entries) ()))"

text \<open>
  \<open>Path::RemoveAll_Internal\<close>: the state of the loop is the number of items removed and the state of the operating system. The native
  path of an entry that is not a directory is only printed.
\<close>

definition remove_entry ::
    "(vpath \<Rightarrow> 'w \<Rightarrow> ('w \<times> (remove_error + nat)) option) \<Rightarrow> 'w dir_os \<Rightarrow> path_error + vpath \<Rightarrow> vpath \<Rightarrow> string
     \<Rightarrow> string \<Rightarrow> nat \<times> 'w \<Rightarrow> ((nat \<times> 'w) \<times> (remove_error + unit)) option" where
  "remove_entry remove_dir os base p npath name s =
     (if dots name then Some (s, Inr ())
      else case do_fstatat os npath name (snd s) of None \<Rightarrow> Some (s, Inr ()) | Some t \<Rightarrow>
        (case path_div_str p name of Inl e \<Rightarrow> Some (s, Inl (Path_error e)) | Inr rmpath \<Rightarrow>
           if t = T_DIR then
             (case remove_dir rmpath (snd s) of
                None \<Rightarrow> None
              | Some (w1, Inl e) \<Rightarrow> Some ((fst s, w1), Inl e)
              | Some (w1, Inr n) \<Rightarrow> Some ((fst s + n, w1), Inr ()))
           else if t \<in> {T_REG, T_LNK, T_SOCK} then
             (case native_with base rmpath of Inl e \<Rightarrow> Some (s, Inl (Path_error e)) | Inr _ \<Rightarrow>
                (case do_unlinkat os npath name (snd s) of
                   None \<Rightarrow> Some (s, Inl Failed_unlink)
                 | Some w1 \<Rightarrow> Some ((fst s + 1, w1), Inr ())))
           else Some (s, Inr ())))"

primrec RemoveAll_Internal :: "nat \<Rightarrow> 'w dir_os \<Rightarrow> path_error + vpath \<Rightarrow> vpath \<Rightarrow> 'w \<Rightarrow> ('w \<times> (remove_error + nat)) option" where
  "RemoveAll_Internal 0 = (\<lambda>os base p w. None)"
| "RemoveAll_Internal (Suc fuel) = (\<lambda>os base p w.
     case native_with base p of Inl e \<Rightarrow> Some (w, Inl (Path_error e)) | Inr np \<Rightarrow>
       (case do_opendir os (with_slash np) w of None \<Rightarrow> Some (w, Inl No_access) | Some entries \<Rightarrow>
         (case each_name (remove_entry (RemoveAll_Internal fuel os base) os base p (with_slash np)) (tl entries) (0, w) of
            None \<Rightarrow> None
          | Some (s, Inl e) \<Rightarrow> Some (snd s, Inl e)
          | Some (s, Inr _) \<Rightarrow> (case do_rmdir os (with_slash np) (snd s) of
                None \<Rightarrow> Some (snd s, Inl Failed_rmdir)
              | Some w1 \<Rightarrow> Some (w1, Inr (fst s + 1))))))"

text \<open>\<open>Path::RemoveAll\<close>.\<close>

definition RemoveAll :: "nat \<Rightarrow> 'w dir_os \<Rightarrow> path_error + vpath \<Rightarrow> vpath \<Rightarrow> 'w \<Rightarrow> ('w \<times> (remove_error + nat)) option" where
  "RemoveAll fuel os base p w =
     (if \<not> path_valid p then Some (w, Inl (Path_error Invalid_path))
      else case native_with base p of Inl e \<Rightarrow> Some (w, Inl (Path_error e)) | Inr npath \<Rightarrow>
        (case do_stat os npath w of
           None \<Rightarrow> Some (w, Inl Failed_stat)
         | Some t \<Rightarrow>
             if t \<noteq> T_DIR then
               (case Remove os base p w of (w1, Inl e) \<Rightarrow> Some (w1, Inl e) | (w1, Inr _) \<Rightarrow> Some (w1, Inr 1))
             else (case CheckRemoveAll fuel os base w p of
                 None \<Rightarrow> None
               | Some (_, Inl e) \<Rightarrow> Some (w, Inl e)
               | Some (_, Inr _) \<Rightarrow> RemoveAll_Internal fuel os base p w)))"

subsection \<open>What removing may do\<close>

lemma each_name_more:
  assumes "\<And>name s r. step name s = Some r \<Longrightarrow> step' name s = Some r"
  shows "each_name step names s = Some r \<Longrightarrow> each_name step' names s = Some r"
proof (induction names arbitrary: s)
  case (Cons name names)
  then obtain s1 x where "step name s = Some (s1, x)"
    by (auto split: option.splits)
  with Cons assms [OF this] show ?case
    by (cases x) auto
qed simp

lemma each_name_keeps:
  assumes "\<And>name s s1 x. step name s = Some (s1, x) \<Longrightarrow> J s \<Longrightarrow> J s1"
  shows "each_name step names s = Some (s', x) \<Longrightarrow> J s \<Longrightarrow> J s'"
proof (induction names arbitrary: s)
  case (Cons name names)
  then obtain s1 y where "step name s = Some (s1, y)"
    by (auto split: option.splits)
  with Cons assms [OF this] show ?case
    by (cases y) simp_all
qed simp

text \<open>A result does not depend on the fuel.\<close>

lemma remove_entry_more:
  assumes "\<And>q w r. rec q w = Some r \<Longrightarrow> rec' q w = Some r"
  shows "remove_entry rec os base p npath name s = Some r \<Longrightarrow> remove_entry rec' os base p npath name s = Some r"
  by (auto simp: remove_entry_def split: option.splits sum.splits prod.splits if_splits dest: assms)

lemma RemoveAll_Internal_more: "RemoveAll_Internal n os base p w = Some r \<Longrightarrow> RemoveAll_Internal (n + m) os base p w = Some r"
proof (induction n arbitrary: p w r)
  case (Suc n)
  have "each_name (remove_entry (RemoveAll_Internal n os base) os base p npath) names s = Some x \<Longrightarrow>
      each_name (remove_entry (RemoveAll_Internal (n + m) os base) os base p npath) names s = Some x" for npath names s x
    by (rule each_name_more [OF remove_entry_more [OF Suc.IH]])
  then show ?case
    using Suc.prems by (fastforce split: sum.splits option.splits)
qed simp

text \<open>
  The paths that the recursion comes to, and what it does to them: whatever removing entries of them and removing them does not change, removing
  all does not change.
\<close>

inductive below :: "vpath \<Rightarrow> vpath \<Rightarrow> bool" for p where
  self: "below p p"
| entry: "below p q \<Longrightarrow> \<not> dots name \<Longrightarrow> path_div_str q name = Inr r \<Longrightarrow> below p r"

lemma remove_entry_keeps:
  assumes "remove_entry rec os base p npath name s = Some (s', x)" and "I (snd s)"
    and "\<And>q w w' y. \<not> dots name \<Longrightarrow> path_div_str p name = Inr q \<Longrightarrow> rec q w = Some (w', y) \<Longrightarrow> I w \<Longrightarrow> I w'"
    and "\<And>w w'. do_unlinkat os npath name w = Some w' \<Longrightarrow> I w \<Longrightarrow> I w'"
  shows "I (snd s')"
  using assms by (auto simp: remove_entry_def split: option.splits sum.splits prod.splits if_splits)

lemma removal_acts_below:
  assumes unlink: "\<And>q np name w w'. below p q \<Longrightarrow> native_with base q = Inr np \<Longrightarrow> do_unlinkat os (with_slash np) name w = Some w' \<Longrightarrow> I w \<Longrightarrow> I w'"
    and rmdir: "\<And>q np w w'. below p q \<Longrightarrow> native_with base q = Inr np \<Longrightarrow> do_rmdir os (with_slash np) w = Some w' \<Longrightarrow> I w \<Longrightarrow> I w'"
  shows "RemoveAll_Internal n os base q w = Some (w', x) \<Longrightarrow> below p q \<Longrightarrow> I w \<Longrightarrow> I w'"
proof (induction n arbitrary: q w w' x)
  case (Suc n)
  show ?case
  proof (cases "native_with base q")
    case (Inr np)
    have step: "I (snd s1)" if "remove_entry (RemoveAll_Internal n os base) os base q (with_slash np) name s = Some (s1, y)" "I (snd s)" for name s s1 y
      using that(1,2)
    proof (rule remove_entry_keeps)
      fix r w w' y
      assume "\<not> dots name" "path_div_str q name = Inr r" "RemoveAll_Internal n os base r w = Some (w', y)" "I w"
      then show "I w'"
        using Suc.IH below.entry [OF Suc.prems(2)] by blast
    next
      fix w w'
      assume "do_unlinkat os (with_slash np) name w = Some w'" "I w"
      then show "I w'"
        by (rule unlink [OF Suc.prems(2) Inr])
    qed
    have loop: "I (snd s)" if "each_name (remove_entry (RemoveAll_Internal n os base) os base q (with_slash np)) names (0, w) = Some (s, y)" for names s y
      using each_name_keeps [where J = "\<lambda>s. I (snd s)", OF step that] Suc.prems(3) by simp
    show ?thesis
      using Suc.prems(1,3) Inr rmdir [OF Suc.prems(2) Inr] by (auto split: option.splits sum.splits dest: loop)
  qed (use Suc.prems in simp)
qed simp

subsection \<open>Examples\<close>

text \<open>
  A file system as a list of native paths; a link has the path it leads to. \<open>readdir\<close> gives the entries of a directory in their order, with the
  two for the directory and its parent first or last.
\<close>

datatype node = File | Dir | Link string

definition resolve :: "(string \<times> node) list \<Rightarrow> string \<Rightarrow> string" where
  "resolve w p = (let q = (if last p = SEP then butlast p else p) in case map_of w q of Some (Link t) \<Rightarrow> t | _ \<Rightarrow> q)"

definition children :: "(string \<times> node) list \<Rightarrow> string \<Rightarrow> string list" where
  "children w d = filter (\<lambda>n. SEP \<notin> set n)
     (map (\<lambda>e. drop (length d + 1) (fst e)) (filter (\<lambda>e. take (length d + 1) (fst e) = d @ [SEP]) w))"

definition node_type :: "node \<Rightarrow> file_type" where
  "node_type n = (case n of File \<Rightarrow> T_REG | Dir \<Rightarrow> T_DIR | Link _ \<Rightarrow> T_LNK)"

definition list_os :: "bool \<Rightarrow> (string \<times> node) list dir_os" where
  "list_os dots_first = \<lparr>do_stat = (\<lambda>p w. map_option node_type (map_of w (resolve w p))),
     do_opendir = (\<lambda>p w. let d = resolve w p in if map_of w d = Some Dir
        then Some (if dots_first then [''.'', ''..''] @ children w d else children w d @ [''.'', ''..'']) else None),
     do_fstatat = (\<lambda>d n w. map_option node_type (map_of w (resolve w (resolve w d @ SEP # n)))),
     do_faccessat = (\<lambda>d n w. True),
     do_unlinkat = (\<lambda>d n w. let q = resolve w d @ SEP # n in
        if map_of w q = None \<or> map_of w q = Some Dir then None else Some (filter (\<lambda>e. fst e \<noteq> q) w)),
     do_unlink = (\<lambda>q w. if map_of w q = None \<or> map_of w q = Some Dir then None else Some (filter (\<lambda>e. fst e \<noteq> q) w)),
     do_rmdir = (\<lambda>p w. let q = (if last p = SEP then butlast p else p) in
        if map_of w q = Some Dir \<and> children w q = [] then Some (filter (\<lambda>e. fst e \<noteq> q) w) else None)\<rparr>"

lemma tree_removed:
  "RemoveAll 3 (list_os True) (Inl No_assets) (Path ''/t'')
     [(''/t'', Dir), (''/t/a'', File), (''/t/d'', Dir), (''/t/d/b'', File), (''/x'', File)] = Some ([(''/x'', File)], Inr 4)"
  by code_simp

text \<open>The first entry is not looked at: when it is not one of the two, the directory cannot be removed.\<close>

lemma first_entry_kept:
  "RemoveAll 3 (list_os False) (Inl No_assets) (Path ''/t'') [(''/t'', Dir), (''/t/a'', File)]
     = Some ([(''/t'', Dir), (''/t/a'', File)], Inl Failed_rmdir)"
  by code_simp

text \<open>A link to a directory is entered, and the files of its target are removed.\<close>

lemma link_target_emptied:
  "RemoveAll 3 (list_os True) (Inl No_assets) (Path ''/t'') [(''/t'', Dir), (''/t/l'', Link ''/x''), (''/x'', Dir), (''/x/f'', File)]
     = Some ([(''/t'', Dir), (''/t/l'', Link ''/x''), (''/x'', Dir)], Inl Failed_rmdir)"
  by code_simp

text \<open>
  Names of entries are read as paths: a backslash in one is a separator, so removing \<open>/t\<close> removes \<open>/x\<close>; a colon makes it a device, which the
  check before removing does not notice for a file.
\<close>

lemma backslash_name_escapes:
  "RemoveAll 3 (list_os True) (Inl No_assets) (Path ''/t'')
     [(''/t'', Dir), (''/t/..'' @ [CHR 0x5C] @ ''x'', Dir), (''/x'', Dir), (''/x/f'', File)]
     = Some ([(''/t'', Dir), (''/t/..'' @ [CHR 0x5C] @ ''x'', Dir)], Inl Failed_rmdir)"
  by code_simp

lemma colon_name_throws:
  "RemoveAll 3 (list_os True) (Inl No_assets) (Path ''/t'') [(''/t'', Dir), (''/t/a'', File), (''/t/b:c'', File)]
     = Some ([(''/t'', Dir), (''/t/b:c'', File)], Inl (Path_error Append_invalid))"
  by code_simp

end
