(* ===== verification/Spec2Isabelle.thy ===== *)
theory Spec2Isabelle
  imports Physics Obj Render_Draws Textures Shaders Gui Sound Scripts Game_Frame GBuffer Server_Loop Voxel_System VComputer_Safe Client_Session Write_Queue Console Event_Race Entity_Store Controller_Life Client_Queue Vfs_Remove
begin

text \<open>
  TEC is a networked voxel game: a server simulates a world of entities, clients send the input of their players and draw the states that the
  server sends back. This development is a shallow embedding of the program: each theory has the definitions of one part, in the order of
  the source, and the lemmas about it. A function of the code has its name in the model, with a prefix where two classes have the
  same method (\<open>rs_On_EntityCreated\<close>, \<open>vc_On_EntityCreated\<close>, \<open>ph_On_EntityCreated\<close>).

  \<^bold>\<open>The parts.\<close> Both programs are built on \<open>common\<close>: entities are numbers, their components are in static tables, systems talk through event queues,
  and messages between the peers are cut into fragments. The server (\<open>server\<close>) accepts connections, authenticates users, puts their
  entities and controllers into the world, and every tick simulates the world and sends each client what changed since the state that the client
  confirmed. The client (\<open>client\<close>) logs in, sends the commands of its controller, puts the states it gets into a queue, and draws: it
  loads meshes, animations, textures, shaders and sounds, keeps a render list and runs the passes of deferred shading.

  \<^bold>\<open>Shared ground.\<close> \<open>Tec_Prelude\<close> has the machine types, the collections of rules and general lemmas; \<open>Safe_Run\<close> runs of
  operations that may fail and the interface of a component that can be used in any order; \<open>Ordered_Map\<close> is \<open>std::map\<close>; \<open>Decimal\<close> and
  \<open>Text_Stream\<close> are numbers and words as text; \<open>GL_Names\<close> and \<open>Vfs_Plain\<close> have examples and lemmas for names and plain paths.

  \<^bold>\<open>Network\<close> (common/net-message.hpp and .cpp, server, client/server-connection.cpp).
  \<^item> \<open>Net_Fragment\<close>: \<open>Message\<close>, its header of fixed width fields, and the codec. \<open>Net_Stream\<close>: \<open>MessageOut\<close> and \<open>MessageIn\<close>, cut and joined.
    \<open>Net_Transfer\<close>: the contract of zero-copy streams as locales, interpreted on them, and when \<open>ToString\<close> ends. \<open>Net_Roundtrip\<close>: what
    is sent is what is read. \<open>Reassembly\<close>: the read loops of the peers over bytes, with the messages that are not complete yet.
  \<^item> \<open>Write_Queue\<close>: writing from several threads, as a relation of single steps. A stream without fragments that is queued while nothing is being written
    breaks the queue, which the history field \<open>idle_empty\<close> records.
  \<^item> \<open>Server_Session\<close>: \<open>Server\<close> and \<open>ClientConnection\<close>. \<open>Client_Session\<close>: \<open>ServerConnection\<close>, the login as client and server see it,
    and the commands of a frame. \<open>Server_Loop\<close>: the loop of server/main.cpp with its accumulators of time.

  \<^bold>\<open>Entities, events, state\<close> (common).
  \<^item> \<open>Ring_Buffer\<close>, \<open>Entity_Store\<close> (\<open>Multiton\<close> and \<open>Entity\<close>), \<open>Event_Queues\<close> (\<open>EventQueue\<close>, \<open>EventSystem\<close>, \<open>CommandQueue\<close>).
    \<open>Event_Race\<close> has the producers and the consumer of an event queue as threads, with the loads and exchanges of the code as steps.
  \<^item> \<open>Game_State\<close>: the components that are sent, their messages, the state of the game, and the states between two others. \<open>Client_Queue\<close>: the states the client has
    received. \<open>Controllers\<close>: the controllers of players. \<open>Simulation\<close>: a step of the simulation, as the simulation thread sees it.
    \<open>Users\<close>: users, the list of users, and the saved game. \<open>Controller_Life\<close>: which controllers are alive while the network thread lets users join
    and leave between any two uses of a controller by the simulation thread.
  \<^item> \<open>Physics\<close>: \<open>PhysicsSystem\<close> and its rigid bodies. \<open>VComputer\<close> and \<open>VComputer_Safe\<close>: the virtual computers and the pointers they keep. \<open>Scripts\<close>:
    scripts, resources by name, and entities that are loaded from files.

  \<^bold>\<open>Files\<close> (common/filesystem.hpp, filesystem.cpp, filesystem_platform.cpp). \<open>Vfs_Path\<close>: virtual paths; \<open>Vfs_Normal\<close>: what their normalisation
    computes; \<open>Vfs_Native\<close>: native paths, the asset directory, opening and making; \<open>Vfs_Remove\<close>: listing and removing directories.

  \<^bold>\<open>Graphics, sound and input\<close> (client).
  \<^item> \<open>Mesh_Data\<close>, \<open>Obj\<close>, \<open>MD5_Mesh\<close>, \<open>MD5_Anim\<close>, \<open>Animations\<close>: meshes and animations, from their files to the skeleton of a frame.
    \<open>Voxels\<close> and \<open>Voxel_System\<close>: voxel volumes and their meshes.
  \<^item> \<open>Pixels\<close>, \<open>Textures\<close>, \<open>Shader_Source\<close>, \<open>Shaders\<close>, \<open>Vertex_Buffer\<close>, \<open>Lights\<close>, \<open>GBuffer\<close>: what is put on the graphics card.
    \<open>Render_List\<close>, \<open>Render_Current\<close>, \<open>Render_System\<close>, \<open>Render_Draws\<close>: what is drawn of it.
  \<^item> \<open>Window\<close>, \<open>Gui\<close>, \<open>Console\<close>, \<open>Sound\<close>, \<open>Game_Frame\<close>: the window and its input, the user interface, sounds, and the frame of the game with the command line.

  \<^bold>\<open>What the lemmas show.\<close> The invariants say that indices and pointers are used only where they are valid, for every sequence of operations (voxels, virtual
  computers, physics, render list, vertex buffers, write queue, controllers), or exactly when they are (loaders, geometry pass, user interface).
  The functional lemmas pin results (meshes, render list, draws, shader sources, textures, sound samples, what the server sends). Round trips are
  proved for headers, payloads, messages on the wire, states, users and commands. Refinements relate
  rings to lists, the streams to what is left to read, tables to maps, and path strings to their elements. Where the code goes wrong a lemma
  shows it on a run of the model.

  \<^bold>\<open>Conventions.\<close> An exception that a caller sees is a sum or an error value; \<open>None\<close> is what the code may not do: an access outside an array, the use of a null or
  freed pointer, a read of something that was never written. Objects that are shared live in stores, maps from addresses; objects with one owner are values.
  Integers have their width where the width matters (words of 16, 32 and 64 bits, wrap-around included) and are natural numbers or
  integers elsewhere. Floating point numbers are rationals or reals, so rounding is not modelled. Names are lists of bytes.

  \<^bold>\<open>Loops.\<close> Loops are structural recursions or functions with a termination proof. Those that may run forever are partial functions, for which \<open>None\<close> is to
  run forever: the reading loops of a message (\<open>Net_Stream\<close>; \<open>Net_Transfer\<close> gives the exact condition under which \<open>ToString\<close> returns), filling
  a buffer with sound (\<open>Sound\<close>, returns for every sound stream that the decoder can serve), and \<open>MkPath\<close> (\<open>Vfs_Native\<close>, returns for every absolute
  path). Fuel is used for the recursion over directories in \<open>Vfs_Remove\<close>; it bounds the depth of the tree, and no result depends on it.

  \<^bold>\<open>Parameters.\<close> Code that is not in the repository is an argument of what uses it: the calls of the operating system, the shapes and the solver of the
  physics engine, glm, protobuf (as records of messages), the JSON library, the interpreter of Lua, the library of virtual computers, the OpenGL driver and
  its compiler, the decoders of images and sound, the sound, window and user interface libraries. What is assumed of them is a named
  hypothesis, and each property with hypotheses is applied to an example.

  \<^bold>\<open>Not modelled.\<close> Vendored code (the decoders of stb), the Windows and macOS branches of the file system, the bindings of Lua, logging, the windows that only show
  values, the lines that show physics shapes, the set-up of connections in asio, and test data: they call libraries and keep no state of their own. The conversions of strings to
  UTF-8 belong to the Windows branches.
\<close>

end
